(* ===== verification/Prelude.thy ===== *)
theory Prelude
  imports Complex_Main "HOL-Library.Multiset" "HOL-Library.AList"
begin

text \<open>
  Shared vocabulary of the development: the pieces of the JavaScript standard library that
  the modelled code uses (stable sorting with a comparator, arrays of keyed objects, the
  insertion-ordered \<open>Map\<close>, JSON values, strings), each as a HOL function with the lemmas
  the components share.

  Conventions.  Timestamps and counts are \<open>int\<close> or \<open>nat\<close>: every value the code compares
  is an integer far below 2^53, where IEEE doubles are exact.  Values that the code divides
  are \<open>rat\<close>.  Identifiers are \<open>string\<close>.  An absent optional field is \<open>None\<close>.
\<close>

named_theorems js_simps \<open>simplification rules for the JavaScript library functions\<close>
named_theorems inv_intros \<open>preservation of component invariants\<close>

subsection \<open>JSON values\<close>

datatype json =
    JNull
  | JBool bool
  | JNum rat
  | JStr string
  | JArr "json list"
  | JObj "(string \<times> json) list"

definition json_field :: "json \<Rightarrow> string \<Rightarrow> json option" where
  "json_field j k = (case j of JObj fs \<Rightarrow> map_of fs k | _ \<Rightarrow> None)"

subsection \<open>Strings\<close>

fun starts_with :: "string \<Rightarrow> string \<Rightarrow> bool" where
  "starts_with s [] = True"
| "starts_with [] (c # cs) = False"
| "starts_with (x # xs) (c # cs) = (x = c \<and> starts_with xs cs)"

fun str_includes :: "string \<Rightarrow> string \<Rightarrow> bool" where
  "str_includes [] t = (t = [])"
| "str_includes (c # s) t = (starts_with (c # s) t \<or> str_includes s t)"

text \<open>\<open>s.replace(t, r)\<close> with string arguments: the first occurrence only.\<close>

fun str_replace :: "string \<Rightarrow> string \<Rightarrow> string \<Rightarrow> string" where
  "str_replace [] t r = (if t = [] then r else [])"
| "str_replace (c # s) t r =
     (if starts_with (c # s) t then r @ drop (length t) (c # s) else c # str_replace s t r)"

lemma starts_with_append: "starts_with s t \<longleftrightarrow> (\<exists>u. s = t @ u)"
  by (induction s t rule: starts_with.induct) auto

lemma str_includes_iff: "str_includes s t \<longleftrightarrow> (\<exists>u v. s = u @ t @ v)"
proof (induction s)
  case (Cons c s)
  show ?case
  proof
    assume "str_includes (c # s) t"
    with Cons.IH show "\<exists>u v. c # s = u @ t @ v"
      by (auto simp: starts_with_append) (metis append_Cons append_Nil)+
  next
    assume "\<exists>u v. c # s = u @ t @ v"
    then obtain u v where uv: "c # s = u @ t @ v" by blast
    show "str_includes (c # s) t"
    proof (cases u)
      case Nil
      with uv have "starts_with (c # s) t" by (auto simp: starts_with_append)
      then show ?thesis by simp
    next
      case (Cons d u')
      with uv \<open>str_includes s t \<longleftrightarrow> (\<exists>u v. s = u @ t @ v)\<close> show ?thesis by auto
    qed
  qed
qed auto

lemma str_replace_none: "\<not> str_includes s t \<Longrightarrow> str_replace s t r = s"
  by (induction s) (auto split: if_splits)

text \<open>Decimal notation, as in template literals.\<close>

fun show_nat :: "nat \<Rightarrow> string" where
  "show_nat n = (if n < 10 then [char_of (48 + n)] else show_nat (n div 10) @ [char_of (48 + n mod 10)])"

declare show_nat.simps [simp del]

definition show_int :: "int \<Rightarrow> string" where
  "show_int i = (if i < 0 then ''-'' @ show_nat (nat (- i)) else show_nat (nat i))"

definition upper_char :: "char \<Rightarrow> char" where
  "upper_char c = (if 97 \<le> (of_char c :: nat) \<and> (of_char c :: nat) \<le> 122
                   then char_of (of_char c - 32 :: nat) else c)"

definition to_upper :: "string \<Rightarrow> string" where
  "to_upper s = map upper_char s"

definition lower_char :: "char \<Rightarrow> char" where
  "lower_char c = (if 65 \<le> (of_char c :: nat) \<and> (of_char c :: nat) \<le> 90
                   then char_of (of_char c + 32 :: nat) else c)"

definition to_lower :: "string \<Rightarrow> string" where
  "to_lower s = map lower_char s"

text \<open>\<open>s.split(c)\<close> for a one-character separator.\<close>

fun split_char :: "char \<Rightarrow> string \<Rightarrow> string list" where
  "split_char c [] = [[]]"
| "split_char c (x # xs) =
     (if x = c then [] # split_char c xs
      else (case split_char c xs of [] \<Rightarrow> [[x]] | w # ws \<Rightarrow> (x # w) # ws))"

lemma split_char_nonempty [simp]: "split_char c s \<noteq> []"
  by (induction s) (auto split: list.splits)

fun join_char :: "char \<Rightarrow> string list \<Rightarrow> string" where
  "join_char c [] = []"
| "join_char c [w] = w"
| "join_char c (w # ws) = w @ c # join_char c ws"

lemma join_split_char: "join_char c (split_char c s) = s"
proof (induction s)
  case (Cons x xs)
  obtain w ws where w: "split_char c xs = w # ws" by (cases "split_char c xs") auto
  with Cons show ?case by (cases ws) auto
qed simp

text \<open>\<open><\<close> on strings.\<close>

fun str_less :: "string \<Rightarrow> string \<Rightarrow> bool" where
  "str_less s [] = False"
| "str_less [] (b # t) = True"
| "str_less (a # s) (b # t) = ((of_char a :: nat) < of_char b \<or> a = b \<and> str_less s t)"

lemma str_less_total: "str_less s t \<or> s = t \<or> str_less t s"
proof (induction s t rule: str_less.induct)
  case (3 a s b t)
  have "(of_char a :: nat) = of_char b \<Longrightarrow> a = b" by simp
  with 3 show ?case by (auto simp: not_less le_less)
qed (use neq_Nil_conv in \<open>auto, metis str_less.simps(2)\<close>)

lemma str_less_irrefl [simp]: "\<not> str_less s s"
  by (induction s) auto

lemma str_less_trans: "str_less s t \<Longrightarrow> str_less t u \<Longrightarrow> str_less s u"
proof (induction s t arbitrary: u rule: str_less.induct)
  case (2 b t)
  then show ?case by (cases u) auto
next
  case (3 a s b t)
  then show ?case by (cases u) auto
qed simp

subsection \<open>Numbers\<close>

text \<open>\<open>Math.round\<close>: halves go up.\<close>

definition js_round :: "rat \<Rightarrow> int" where
  "js_round x = \<lfloor>x + 1 / 2\<rfloor>"

lemma js_round_int [simp]: "js_round (of_int n) = n"
  unfolding js_round_def by (rule floor_unique) simp_all

lemma js_round_near: "\<bar>of_int (js_round x) - x\<bar> \<le> 1 / 2"
  unfolding js_round_def by linarith

subsection \<open>Persistent key/value storage\<close>

text \<open>What a storage key holds: nothing, a text that is not a JSON array, or an array.\<close>

datatype 'a stored = Missing | Garbage | Stored 'a

subsection \<open>Array.prototype.sort\<close>

text \<open>
  \<open>xs.sort(cmp)\<close> is a stable sort.  The library does not fix the algorithm, but for a
  consistent comparator every stable sort computes the same list; insertion sort is the
  simplest one.
\<close>

fun insert_by :: "('a \<Rightarrow> 'a \<Rightarrow> int) \<Rightarrow> 'a \<Rightarrow> 'a list \<Rightarrow> 'a list" where
  "insert_by cmp x [] = [x]"
| "insert_by cmp x (y # ys) = (if cmp x y \<le> 0 then x # y # ys else y # insert_by cmp x ys)"

fun js_sort :: "('a \<Rightarrow> 'a \<Rightarrow> int) \<Rightarrow> 'a list \<Rightarrow> 'a list" where
  "js_sort cmp [] = []"
| "js_sort cmp (x # xs) = insert_by cmp x (js_sort cmp xs)"

lemma mset_insert_by [simp]: "mset (insert_by cmp x xs) = add_mset x (mset xs)"
  by (induction xs) auto

lemma mset_js_sort [simp]: "mset (js_sort cmp xs) = mset xs"
  by (induction xs) auto

lemma set_js_sort [simp]: "set (js_sort cmp xs) = set xs"
  by (metis mset_js_sort set_mset_mset)

lemma length_js_sort [simp]: "length (js_sort cmp xs) = length xs"
  by (metis mset_js_sort size_mset)

lemma distinct_js_sort [simp]: "distinct (js_sort cmp xs) = distinct xs"
  by (metis mset_js_sort mset_eq_imp_distinct_iff)

lemma js_sort_eq_Nil [simp]: "js_sort cmp xs = [] \<longleftrightarrow> xs = []"
  by (metis length_0_conv length_js_sort)

lemma mset_map_js_sort [simp]: "mset (map f (js_sort cmp xs)) = mset (map f xs)"
  by simp

lemma distinct_map_js_sort [simp]: "distinct (map f (js_sort cmp xs)) = distinct (map f xs)"
  by (metis mset_map_js_sort mset_eq_imp_distinct_iff)

lemma sum_list_js_sort [simp]:
  "sum_list (map (f :: 'a \<Rightarrow> 'b::comm_monoid_add) (js_sort cmp xs)) = sum_list (map f xs)"
  by (metis mset_js_sort mset_map sum_mset_sum_list)

text \<open>
  What the code relies on when it hands a comparator to \<open>sort\<close>: it compares any two
  elements consistently, and its verdicts are transitive.
\<close>

locale comparator =
  fixes cmp :: "'a \<Rightarrow> 'a \<Rightarrow> int"
  assumes cmp_total: "cmp x y \<le> 0 \<or> cmp y x \<le> 0"
    and cmp_trans: "cmp x y \<le> 0 \<Longrightarrow> cmp y z \<le> 0 \<Longrightarrow> cmp x z \<le> 0"
begin

lemma cmp_refl: "cmp x x \<le> 0"
  using cmp_total [of x x] by blast

lemma sorted_insert_by:
  "sorted_wrt (\<lambda>a b. cmp a b \<le> 0) xs \<Longrightarrow> sorted_wrt (\<lambda>a b. cmp a b \<le> 0) (insert_by cmp x xs)"
proof (induction xs)
  case (Cons y ys)
  have elems: "set (insert_by cmp x ys) = insert x (set ys)"
    by (metis mset_insert_by set_mset_add_mset_insert set_mset_mset)
  show ?case
  proof (cases "cmp x y \<le> 0")
    case True
    with Cons.prems show ?thesis by (auto intro: cmp_trans)
  next
    case False
    with cmp_total [of x y] have "cmp y x \<le> 0" by blast
    with Cons False elems show ?thesis by simp
  qed
qed simp

lemma sorted_js_sort: "sorted_wrt (\<lambda>a b. cmp a b \<le> 0) (js_sort cmp xs)"
  by (induction xs) (auto intro: sorted_insert_by)

lemma js_sort_hd_least: "js_sort cmp xs = y # ys \<Longrightarrow> z \<in> set xs \<Longrightarrow> cmp y z \<le> 0"
proof -
  assume eq: "js_sort cmp xs = y # ys" and z: "z \<in> set xs"
  from z eq have "z \<in> set (y # ys)" by (metis set_js_sort)
  moreover have "sorted_wrt (\<lambda>a b. cmp a b \<le> 0) (y # ys)"
    using sorted_js_sort [of xs] eq by simp
  ultimately show "cmp y z \<le> 0" by (auto intro: cmp_refl)
qed

lemma insert_by_sorted_id:
  "sorted_wrt (\<lambda>a b. cmp a b \<le> 0) (x # xs) \<Longrightarrow> insert_by cmp x xs = x # xs"
  by (cases xs) auto

lemma js_sort_sorted_id: "sorted_wrt (\<lambda>a b. cmp a b \<le> 0) xs \<Longrightarrow> js_sort cmp xs = xs"
  by (induction xs) (auto simp: insert_by_sorted_id)

lemma js_sort_idem: "js_sort cmp (js_sort cmp xs) = js_sort cmp xs"
  by (simp add: js_sort_sorted_id sorted_js_sort)

text \<open>Stability: the elements of one class of the comparator keep their order.\<close>

lemma insert_by_stable:
  assumes cls: "\<And>a b. P a \<Longrightarrow> P b \<Longrightarrow> cmp a b \<le> 0"
  shows "filter P (insert_by cmp x xs) = filter P (x # xs)"
  by (induction xs) (auto dest: cls)

lemma js_sort_stable:
  assumes "\<And>a b. P a \<Longrightarrow> P b \<Longrightarrow> cmp a b \<le> 0"
  shows "filter P (js_sort cmp xs) = filter P xs"
  by (induction xs) (use insert_by_stable [OF assms] in auto)

lemma take_js_sort_best:
  assumes "y \<in> set (take n (js_sort cmp xs))" and "z \<in> set xs"
    and "z \<notin> set (take n (js_sort cmp xs))"
  shows "cmp y z \<le> 0"
proof -
  let ?s = "js_sort cmp xs"
  have "z \<in> set (drop n ?s)"
    using assms(2,3) by (metis Un_iff append_take_drop_id set_append set_js_sort)
  moreover have "sorted_wrt (\<lambda>a b. cmp a b \<le> 0) (take n ?s @ drop n ?s)"
    using sorted_js_sort by simp
  ultimately show ?thesis using assms(1) unfolding sorted_wrt_append by blast
qed

end

text \<open>The comparators the code writes as a difference of two integer keys.\<close>

definition by_key :: "('a \<Rightarrow> int) \<Rightarrow> 'a \<Rightarrow> 'a \<Rightarrow> int" where
  "by_key f a b = f a - f b"

interpretation by_key: comparator "by_key f" for f
  by unfold_locales (auto simp: by_key_def)

lemma sorted_by_key: "sorted (map f (js_sort (by_key f) xs))"
  using by_key.sorted_js_sort [of f xs] by (simp add: by_key_def sorted_map)

subsection \<open>Arrays of keyed objects\<close>

text \<open>\<open>findIndex\<close>, with \<open>None\<close> for -1, and the idioms built on it.\<close>

fun find_index :: "('a \<Rightarrow> bool) \<Rightarrow> 'a list \<Rightarrow> nat option" where
  "find_index P [] = None"
| "find_index P (x # xs) = (if P x then Some 0 else map_option Suc (find_index P xs))"

lemma find_index_None: "find_index P xs = None \<longleftrightarrow> (\<forall>x \<in> set xs. \<not> P x)"
  by (induction xs) auto

lemma find_index_Some:
  "find_index P xs = Some i \<Longrightarrow> i < length xs \<and> P (xs ! i) \<and> (\<forall>j < i. \<not> P (xs ! j))"
  by (induction xs arbitrary: i) (auto simp: less_Suc_eq_0_disj split: if_splits)

definition lookup_key :: "('a \<Rightarrow> 'k) \<Rightarrow> 'a list \<Rightarrow> 'k \<Rightarrow> 'a option" where
  "lookup_key key xs k = find (\<lambda>x. key x = k) xs"

definition remove_key :: "('a \<Rightarrow> 'k) \<Rightarrow> 'k \<Rightarrow> 'a list \<Rightarrow> 'a list" where
  "remove_key key k xs = filter (\<lambda>x. key x \<noteq> k) xs"

text \<open>\<open>findIndex\<close> then overwrite in place, else \<open>push\<close>.\<close>

definition upsert_at :: "('a \<Rightarrow> 'k) \<Rightarrow> 'a \<Rightarrow> 'a list \<Rightarrow> 'a list" where
  "upsert_at key x xs =
     (case find_index (\<lambda>y. key y = key x) xs of Some i \<Rightarrow> xs[i := x] | None \<Rightarrow> xs @ [x])"

text \<open>\<open>[...xs.filter(other key), x]\<close>.\<close>

definition upsert_last :: "('a \<Rightarrow> 'k) \<Rightarrow> 'a \<Rightarrow> 'a list \<Rightarrow> 'a list" where
  "upsert_last key x xs = remove_key key (key x) xs @ [x]"

text \<open>\<open>some(same key) ? map(replace) : [...xs, x]\<close>.\<close>

definition upsert_map :: "('a \<Rightarrow> 'k) \<Rightarrow> 'a \<Rightarrow> 'a list \<Rightarrow> 'a list" where
  "upsert_map key x xs =
     (if \<exists>y \<in> set xs. key y = key x then map (\<lambda>y. if key y = key x then x else y) xs
      else xs @ [x])"

abbreviation unique_keys :: "('a \<Rightarrow> 'k) \<Rightarrow> 'a list \<Rightarrow> bool" where
  "unique_keys key xs \<equiv> distinct (map key xs)"

lemma lookup_key_simps [simp]:
  "lookup_key key [] k = None"
  "lookup_key key (x # xs) k = (if key x = k then Some x else lookup_key key xs k)"
  by (simp_all add: lookup_key_def)

lemma lookup_key_None: "lookup_key key xs k = None \<longleftrightarrow> k \<notin> key ` set xs"
  by (induction xs) auto

lemma lookup_key_Some: "lookup_key key xs k = Some x \<Longrightarrow> x \<in> set xs \<and> key x = k"
  by (induction xs) (auto split: if_splits)

lemma lookup_key_mem: "unique_keys key xs \<Longrightarrow> x \<in> set xs \<Longrightarrow> lookup_key key xs (key x) = Some x"
  by (induction xs) (auto simp: image_iff)

lemma lookup_key_append:
  "lookup_key key (xs @ ys) k =
     (case lookup_key key xs k of None \<Rightarrow> lookup_key key ys k | Some x \<Rightarrow> Some x)"
  by (induction xs) auto

lemma set_remove_key [simp]: "set (remove_key key k xs) = {x \<in> set xs. key x \<noteq> k}"
  by (auto simp: remove_key_def)

lemma lookup_remove_key:
  "lookup_key key (remove_key key k xs) k' = (if k' = k then None else lookup_key key xs k')"
  unfolding remove_key_def by (induction xs) auto

lemma unique_remove_key: "unique_keys key xs \<Longrightarrow> unique_keys key (remove_key key k xs)"
  by (simp add: remove_key_def distinct_map_filter)

lemma remove_key_id: "k \<notin> key ` set xs \<Longrightarrow> remove_key key k xs = xs"
  by (auto simp: remove_key_def filter_id_conv)

lemma upsert_at_simps [simp]:
  "upsert_at key x [] = [x]"
  "upsert_at key x (y # ys) = (if key y = key x then x # ys else y # upsert_at key x ys)"
  by (auto simp: upsert_at_def split: option.splits)

lemma lookup_upsert_at:
  "lookup_key key (upsert_at key x xs) k = (if k = key x then Some x else lookup_key key xs k)"
  by (induction xs) auto

lemma keys_upsert_at: "key ` set (upsert_at key x xs) = insert (key x) (key ` set xs)"
  by (induction xs) auto

lemma unique_upsert_at: "unique_keys key xs \<Longrightarrow> unique_keys key (upsert_at key x xs)"
proof (induction xs)
  case (Cons y ys)
  have "key ` set (upsert_at key x ys) = insert (key x) (key ` set ys)"
    by (rule keys_upsert_at)
  with Cons show ?case by auto
qed simp

lemma set_upsert_at: "set (upsert_at key x xs) \<subseteq> insert x (set xs)"
  by (induction xs) auto

lemma mem_upsert_at: "x \<in> set (upsert_at key x xs)"
  by (induction xs) auto

lemma other_upsert_at: "y \<in> set xs \<Longrightarrow> key y \<noteq> key x \<Longrightarrow> y \<in> set (upsert_at key x xs)"
  by (induction xs) auto

lemma lookup_upsert_last:
  "lookup_key key (upsert_last key x xs) k = (if k = key x then Some x else lookup_key key xs k)"
  by (auto simp: upsert_last_def lookup_key_append lookup_remove_key split: option.splits)

lemma keys_upsert_last: "key ` set (upsert_last key x xs) = insert (key x) (key ` set xs)"
  by (auto simp: upsert_last_def)

lemma unique_upsert_last: "unique_keys key xs \<Longrightarrow> unique_keys key (upsert_last key x xs)"
  by (auto simp: upsert_last_def unique_remove_key)

lemma upsert_map_eq: "unique_keys key xs \<Longrightarrow> upsert_map key x xs = upsert_at key x xs"
proof (induction xs)
  case (Cons y ys)
  show ?case
  proof (cases "key y = key x")
    case True
    with Cons.prems have "\<forall>z \<in> set ys. key z \<noteq> key x" by (auto simp: image_iff)
    then have "map (\<lambda>z. if key z = key x then x else z) ys = ys" by (simp add: map_idI)
    with True show ?thesis by (simp add: upsert_map_def)
  next
    case False
    with Cons show ?thesis by (auto simp: upsert_map_def split: if_splits)
  qed
qed (simp add: upsert_map_def)

text \<open>
  The contract of a coalescing collection: writing an element replaces the one with its key
  and touches no other, removing a key removes exactly it, and keys stay unique.
\<close>

locale coalescing =
  fixes key :: "'a \<Rightarrow> 'k"
    and put :: "'a \<Rightarrow> 'a list \<Rightarrow> 'a list"
    and del :: "'k \<Rightarrow> 'a list \<Rightarrow> 'a list"
  assumes put_lookup: "unique_keys key xs \<Longrightarrow>
        lookup_key key (put x xs) k = (if k = key x then Some x else lookup_key key xs k)"
    and put_unique: "unique_keys key xs \<Longrightarrow> unique_keys key (put x xs)"
    and del_lookup: "unique_keys key xs \<Longrightarrow>
        lookup_key key (del k xs) k' = (if k' = k then None else lookup_key key xs k')"
    and del_unique: "unique_keys key xs \<Longrightarrow> unique_keys key (del k xs)"
begin

lemma puts_unique: "unique_keys key xs \<Longrightarrow> unique_keys key (fold put ws xs)"
  by (induction ws arbitrary: xs) (auto intro: put_unique)

text \<open>Any number of writes leaves, for each key, the last one written.\<close>

lemma puts_lookup:
  "unique_keys key xs \<Longrightarrow>
   lookup_key key (fold put ws xs) k =
     (case lookup_key key (rev ws) k of Some w \<Rightarrow> Some w | None \<Rightarrow> lookup_key key xs k)"
proof (induction ws arbitrary: xs)
  case (Cons w ws)
  then show ?case
    by (auto simp: put_unique put_lookup lookup_key_append split: option.splits)
qed simp

lemma keys_lookup: "k \<in> key ` set ys \<longleftrightarrow> lookup_key key ys k \<noteq> None"
  by (simp add: lookup_key_None)

lemma puts_keys: "unique_keys key xs \<Longrightarrow> key ` set (fold put ws xs) = key ` set ws \<union> key ` set xs"
proof (rule set_eqI)
  fix k
  assume u: "unique_keys key xs"
  show "k \<in> key ` set (fold put ws xs) \<longleftrightarrow> k \<in> key ` set ws \<union> key ` set xs"
    unfolding Un_iff keys_lookup puts_lookup [OF u]
    using lookup_key_None [of key "rev ws" k] lookup_key_None [of key ws k]
    by (cases "lookup_key key (rev ws) k") auto
qed

lemma length_unique: "unique_keys key ys \<Longrightarrow> length ys = card (key ` set ys)"
  by (metis distinct_card length_map list.set_map)

text \<open>Repeated writes to the same resources cost no more entries than there are resources.\<close>

lemma puts_length: "length (fold put ws []) = card (key ` set ws)"
  using puts_unique [of "[]" ws] puts_keys [of "[]" ws] by (simp add: length_unique)

lemma put_keys: "unique_keys key xs \<Longrightarrow> key ` set (put x xs) = insert (key x) (key ` set xs)"
  using puts_keys [of xs "[x]"] by simp

lemma del_keys: "unique_keys key xs \<Longrightarrow> key ` set (del k xs) = key ` set xs - {k}"
  by (rule set_eqI) (simp only: Diff_iff keys_lookup del_lookup singleton_iff split: if_split, simp)

end

lemma coalescing_upsert_at: "coalescing key (upsert_at key) (remove_key key)"
  by unfold_locales (auto simp: lookup_upsert_at unique_upsert_at lookup_remove_key unique_remove_key)

lemma coalescing_upsert_last: "coalescing key (upsert_last key) (remove_key key)"
  by unfold_locales
    (auto simp: lookup_upsert_last unique_upsert_last lookup_remove_key unique_remove_key)

subsection \<open>State machines\<close>

text \<open>A step relation with an inductive invariant: what the components promise of every state their
  environment can drive them to.\<close>

locale inv_system =
  fixes step :: "'s \<Rightarrow> 's \<Rightarrow> bool" and inv :: "'s \<Rightarrow> bool"
  assumes inv_step: "inv s \<Longrightarrow> step s t \<Longrightarrow> inv t"
begin

lemma inv_reach: "step\<^sup>*\<^sup>* s t \<Longrightarrow> inv s \<Longrightarrow> inv t"
  by (induction rule: rtranclp_induct) (auto intro: inv_step)

end

end
