(* ===== verification/Domain.thy ===== *)
theory Domain
  imports Prelude
begin

text \<open>
  The shared domain types of \<open>packages/shared/src/types/domain.ts\<close> that the modelled
  components exchange.  A \<open>Record<string, T>\<close> is a list of key/value pairs in property
  order, since the code enumerates it.
\<close>

datatype priority = Must | WantToSee | Maybe

record artist =
  ar_id :: "string option"
  ar_name :: string
  ar_photo :: "string option"
  ar_genres :: "string list option"
  ar_links :: "(string \<times> string) list option"

record festival_day =
  fd_id :: string
  fd_festivalId :: string
  fd_date :: string
  fd_label :: "string option"
  fd_dayIndex :: "int option"
  fd_createdAt :: string
  fd_updatedAt :: string

record festival_set =
  fs_id :: string
  fs_festivalId :: string
  fs_stageId :: string
  fs_stageName :: "string option"
  fs_date :: "string option"
  fs_dayIndex :: "int option"
  fs_startTime :: string
  fs_endTime :: string
  fs_artist :: "string option"
  fs_artists :: "artist list option"
  fs_linkUrl :: "string option"
  fs_createdAt :: string
  fs_updatedAt :: string

record stage_info =
  sg_id :: string
  sg_name :: string
  sg_color :: "string option"
  sg_festivalId :: string
  sg_latitude :: "rat option"
  sg_longitude :: "rat option"
  sg_createdAt :: string
  sg_updatedAt :: string

record festival_info =
  fv_id :: string
  fv_name :: string
  fv_description :: "string option"
  fv_image :: "string option"
  fv_startDate :: string
  fv_endDate :: string
  fv_location :: "string option"
  fv_b2bSeparator :: "string option"
  fv_timeZone :: "string option"
  fv_mapConfig :: "json option"
  fv_createdAt :: string
  fv_updatedAt :: string

record profile =
  pr_id :: string
  pr_userId :: string
  pr_festivalId :: string
  pr_name :: "string option"
  pr_picks :: "(string \<times> priority) list"
  pr_notes :: "(string \<times> string) list"
  pr_reminders :: "(string \<times> int) list option"
  pr_updatedAt :: string
  pr_etag :: "string option"

datatype online_status = Online | Away | Offline

record online_user =
  ou_id :: string
  ou_name :: "string option"
  ou_avatar :: "string option"
  ou_status :: online_status
  ou_lastSeen :: "string option"

text \<open>Positions in degrees are exact rationals; the ISO timestamps are strings.\<close>

record peer_location =
  pl_crewId :: string
  pl_userId :: string
  pl_username :: string
  pl_lat :: rat
  pl_lng :: rat
  pl_accuracy :: "rat option"
  pl_heading :: "rat option"
  pl_speed :: "rat option"
  pl_battery :: "rat option"
  pl_lowPower :: "bool option"
  pl_expiresAt :: "string option"
  pl_capturedAt :: string
  pl_serverAt :: string

record sos_position =
  sp_lat :: rat
  sp_lng :: rat
  sp_accuracy :: "rat option"
  sp_capturedAt :: string

record sos_entry =
  se_crewId :: string
  se_userId :: string
  se_username :: string
  se_message :: "string option"
  se_position :: "sos_position option"
  se_activityId :: "string option"
  se_raisedAt :: string

subsection \<open>Priorities\<close>

definition priority_rank :: "priority \<Rightarrow> int" where
  "priority_rank p = (case p of Must \<Rightarrow> 0 | WantToSee \<Rightarrow> 1 | Maybe \<Rightarrow> 2)"

definition priority_weight :: "priority \<Rightarrow> int" where
  "priority_weight p = (case p of Must \<Rightarrow> 3 | WantToSee \<Rightarrow> 2 | Maybe \<Rightarrow> 1)"

lemma priority_rank_weight: "priority_weight p = 3 - priority_rank p"
  by (simp add: priority_rank_def priority_weight_def split: priority.splits)

lemma priority_rank_inj: "priority_rank p = priority_rank q \<longleftrightarrow> p = q"
  by (cases p; cases q) (simp_all add: priority_rank_def)

lemma priority_rank_bounds: "0 \<le> priority_rank p \<and> priority_rank p \<le> 2"
  by (simp add: priority_rank_def split: priority.splits)

instantiation priority :: linorder
begin

definition less_eq_priority :: "priority \<Rightarrow> priority \<Rightarrow> bool" where
  "less_eq_priority p q \<longleftrightarrow> priority_rank p \<le> priority_rank q"

definition less_priority :: "priority \<Rightarrow> priority \<Rightarrow> bool" where
  "less_priority p q \<longleftrightarrow> priority_rank p < priority_rank q"

instance
  by intro_classes (auto simp: less_eq_priority_def less_priority_def priority_rank_inj)

end

end
