(* ===== verification/Ui_Store.thy ===== *)
theory Ui_Store
  imports Domain
begin

text \<open>
  The UI store (\<open>packages/shared/src/stores/uiStore.ts\<close>): the zustand state and its
  setters, each a function from the state to the new state.  The list of failed offline
  writes is the surface of the "no silent drops" contract of the offline queues.
\<close>

datatype toast_kind = Info | Success | Warning | ErrorToast

record toast =
  to_id :: nat
  to_message :: string
  to_kind :: toast_kind
  to_durationMs :: int

record toast_options =
  opt_kind :: "toast_kind option"
  opt_durationMs :: "int option"

record failed_item =
  fi_clientId :: string
  fi_label :: string
  fi_method :: string
  fi_url :: string
  fi_body :: "json option"
  fi_error :: string
  fi_at :: int

record ui_state =
  detailSet :: "festival_set option"
  detailAutoSpotify :: bool
  connected :: bool
  offlineMode :: bool
  pendingSync :: nat
  failedSync :: "failed_item list"
  onlineUsers :: "online_user list"
  toasts :: "toast list"
  toastSeq :: nat

definition ui_initial :: ui_state where
  "ui_initial = \<lparr>detailSet = None, detailAutoSpotify = False, connected = False,
     offlineMode = False, pendingSync = 0, failedSync = [], onlineUsers = [], toasts = [],
     toastSeq = 0\<rparr>"

definition setDetailSet :: "festival_set option \<Rightarrow> ui_state \<Rightarrow> ui_state" where
  "setDetailSet d u = u\<lparr>detailSet := d\<rparr>"

definition setDetailAutoSpotify :: "bool \<Rightarrow> ui_state \<Rightarrow> ui_state" where
  "setDetailAutoSpotify b u = u\<lparr>detailAutoSpotify := b\<rparr>"

definition setConnected :: "bool \<Rightarrow> ui_state \<Rightarrow> ui_state" where
  "setConnected b u = u\<lparr>connected := b\<rparr>"

definition setOfflineMode :: "bool \<Rightarrow> ui_state \<Rightarrow> ui_state" where
  "setOfflineMode b u = u\<lparr>offlineMode := b\<rparr>"

definition setPendingSync :: "nat \<Rightarrow> ui_state \<Rightarrow> ui_state" where
  "setPendingSync n u = u\<lparr>pendingSync := n\<rparr>"

definition addFailedSync :: "failed_item \<Rightarrow> ui_state \<Rightarrow> ui_state" where
  "addFailedSync x u = u\<lparr>failedSync := filter (\<lambda>f. fi_clientId f \<noteq> fi_clientId x) (failedSync u) @ [x]\<rparr>"

definition dismissFailedSync :: "string \<Rightarrow> ui_state \<Rightarrow> ui_state" where
  "dismissFailedSync c u = u\<lparr>failedSync := filter (\<lambda>f. fi_clientId f \<noteq> c) (failedSync u)\<rparr>"

definition clearFailedSync :: "ui_state \<Rightarrow> ui_state" where
  "clearFailedSync u = u\<lparr>failedSync := []\<rparr>"

definition setOnlineUsers :: "online_user list \<Rightarrow> ui_state \<Rightarrow> ui_state" where
  "setOnlineUsers us u = u\<lparr>onlineUsers := us\<rparr>"

definition addOnlineUser :: "online_user \<Rightarrow> ui_state \<Rightarrow> ui_state" where
  "addOnlineUser x u = u\<lparr>onlineUsers :=
     (if \<exists>y \<in> set (onlineUsers u). ou_id y = ou_id x
      then map (\<lambda>y. if ou_id y = ou_id x then x else y) (onlineUsers u)
      else onlineUsers u @ [x])\<rparr>"

definition removeOnlineUser :: "string \<Rightarrow> ui_state \<Rightarrow> ui_state" where
  "removeOnlineUser i u = u\<lparr>onlineUsers := filter (\<lambda>y. ou_id y \<noteq> i) (onlineUsers u)\<rparr>"

definition showToast :: "string \<Rightarrow> toast_options option \<Rightarrow> ui_state \<Rightarrow> nat \<times> ui_state" where
  "showToast msg opts u =
     (let i = Suc (toastSeq u);
          t = \<lparr>to_id = i, to_message = msg,
               to_kind = (case opts of None \<Rightarrow> Info
                          | Some r \<Rightarrow> (case opt_kind r of None \<Rightarrow> Info | Some k \<Rightarrow> k)),
               to_durationMs = (case opts of None \<Rightarrow> 2500
                          | Some r \<Rightarrow> (case opt_durationMs r of None \<Rightarrow> 2500 | Some d \<Rightarrow> d))\<rparr>
      in (i, u\<lparr>toastSeq := i, toasts := toasts u @ [t]\<rparr>))"

definition dismissToast :: "nat \<Rightarrow> ui_state \<Rightarrow> ui_state" where
  "dismissToast i u = u\<lparr>toasts := filter (\<lambda>t. to_id t \<noteq> i) (toasts u)\<rparr>"

subsection \<open>The failed writes coalesce by client id\<close>

lemma failedSync_add [simp]:
  "failedSync (addFailedSync x u) = upsert_last fi_clientId x (failedSync u)"
  by (simp add: addFailedSync_def upsert_last_def remove_key_def)

lemma failedSync_dismiss [simp]:
  "failedSync (dismissFailedSync c u) = remove_key fi_clientId c (failedSync u)"
  by (simp add: dismissFailedSync_def remove_key_def)

interpretation failed: coalescing fi_clientId "upsert_last fi_clientId" "remove_key fi_clientId"
  by (rule coalescing_upsert_last)

lemma failedSync_other_setters [simp]:
  "failedSync (setPendingSync n u) = failedSync u"
  "failedSync (setOfflineMode b u) = failedSync u"
  "offlineMode (setPendingSync n u) = offlineMode u"
  "offlineMode (addFailedSync x u) = offlineMode u"
  "offlineMode (dismissFailedSync c u) = offlineMode u"
  "offlineMode (setOfflineMode b u) = b"
  "pendingSync (setPendingSync n u) = n"
  "pendingSync (addFailedSync x u) = pendingSync u"
  "pendingSync (dismissFailedSync c u) = pendingSync u"
  "pendingSync (setOfflineMode b u) = pendingSync u"
  by (simp_all add: setPendingSync_def setOfflineMode_def addFailedSync_def dismissFailedSync_def)

lemma onlineUsers_add:
  "unique_keys ou_id (onlineUsers u) \<Longrightarrow>
   onlineUsers (addOnlineUser x u) = upsert_at ou_id x (onlineUsers u)"
  using upsert_map_eq [of ou_id "onlineUsers u" x] by (simp add: addOnlineUser_def upsert_map_def)

interpretation online: coalescing ou_id "upsert_at ou_id" "remove_key ou_id"
  by (rule coalescing_upsert_at)

subsection \<open>The store's invariant\<close>

definition ui_inv :: "ui_state \<Rightarrow> bool" where
  "ui_inv u \<longleftrightarrow> unique_keys fi_clientId (failedSync u) \<and> unique_keys ou_id (onlineUsers u)
     \<and> unique_keys to_id (toasts u) \<and> (\<forall>t \<in> set (toasts u). to_id t \<le> toastSeq u)"

lemma ui_inv_initial [inv_intros]: "ui_inv ui_initial"
  by (simp add: ui_inv_def ui_initial_def)

lemma ui_inv_addFailedSync [inv_intros]: "ui_inv u \<Longrightarrow> ui_inv (addFailedSync x u)"
  using failed.put_unique [of "failedSync u" x]
  by (auto simp: ui_inv_def) (simp_all add: addFailedSync_def)

lemma ui_inv_dismissFailedSync [inv_intros]: "ui_inv u \<Longrightarrow> ui_inv (dismissFailedSync c u)"
  using failed.del_unique [of "failedSync u" c]
  by (auto simp: ui_inv_def) (simp_all add: dismissFailedSync_def)

lemma ui_inv_setPendingSync [inv_intros]: "ui_inv u \<Longrightarrow> ui_inv (setPendingSync n u)"
  by (simp add: ui_inv_def setPendingSync_def)

lemma ui_inv_setOfflineMode [inv_intros]: "ui_inv u \<Longrightarrow> ui_inv (setOfflineMode b u)"
  by (simp add: ui_inv_def setOfflineMode_def)

lemma ui_inv_addOnlineUser [inv_intros]: "ui_inv u \<Longrightarrow> ui_inv (addOnlineUser x u)"
proof -
  assume inv: "ui_inv u"
  then have "unique_keys ou_id (onlineUsers (addOnlineUser x u))"
    by (simp add: ui_inv_def onlineUsers_add online.put_unique)
  with inv show ?thesis by (simp add: ui_inv_def addOnlineUser_def)
qed

lemma ui_inv_removeOnlineUser [inv_intros]: "ui_inv u \<Longrightarrow> ui_inv (removeOnlineUser i u)"
  using online.del_unique [of "onlineUsers u" i]
  by (simp add: ui_inv_def removeOnlineUser_def remove_key_def)

lemma ui_inv_showToast [inv_intros]: "ui_inv u \<Longrightarrow> ui_inv (snd (showToast m opts u))"
  by (force simp: ui_inv_def showToast_def Let_def)

lemma ui_inv_dismissToast [inv_intros]: "ui_inv u \<Longrightarrow> ui_inv (dismissToast i u)"
  by (simp add: ui_inv_def dismissToast_def distinct_map_filter)

lemma ui_inv_clearFailedSync [inv_intros]: "ui_inv u \<Longrightarrow> ui_inv (clearFailedSync u)"
  by (simp add: ui_inv_def clearFailedSync_def)

text \<open>A toast gets an identifier no live toast has.\<close>

lemma showToast_fresh:
  "ui_inv u \<Longrightarrow> showToast m opts u = (i, v) \<Longrightarrow>
   i \<notin> to_id ` set (toasts u) \<and> i \<in> to_id ` set (toasts v)"
  by (force simp: ui_inv_def showToast_def Let_def)

end
