(* ===== verification/Offline_Queue.thy ===== *)
theory Offline_Queue
  imports Ui_Store
begin

text \<open>
  The React Native offline write queue (\<open>packages/shared/src/services/offlineQueue.ts\<close>):
  mutations made offline are persisted, coalesced by client id, and replayed oldest first
  on reconnect.  The state is the two storage keys, the UI store, the module flags, and two
  logs: the requests that left the device and the calls of the create reconciler.

  The code's queue lock makes each read-modify-write section atomic, so a section is one
  function.  What can run in between is the environment of a drain: for every request, the
  events that happen while it is in flight, the way it ends, and the clock afterwards.

  \<open>recordFailed\<close> does not await \<open>persistFailedSync\<close>: it reads the stored list at once and
  writes it back when the caller next yields.  The outstanding writes, each with the list
  it read, are part of the state.
\<close>

record mutation =
  mu_clientId :: string
  mu_url :: string
  mu_method :: string
  mu_body :: "json option"
  mu_label :: "string option"
  mu_createdAt :: int
  mu_retries :: "nat option"

definition MAX_QUEUE_AGE_MS :: int where
  "MAX_QUEUE_AGE_MS = 24 * 60 * 60 * 1000"

definition MAX_RETRIES :: nat where
  "MAX_RETRIES = 5"

record queue_state =
  queueKey :: "mutation list stored"
  failedKey :: "failed_item list stored"
  persists :: "(failed_item \<times> failed_item list stored) list"
  uiStore :: ui_state
  draining :: bool
  reconciler :: bool
  reconciled :: "(string \<times> json) list"
  sent :: "mutation list"

subsection \<open>Storage\<close>

definition readQueueRaw :: "queue_state \<Rightarrow> mutation list" where
  "readQueueRaw s = (case queueKey s of Stored q \<Rightarrow> q | _ \<Rightarrow> [])"

definition updatePendingCount :: "nat \<Rightarrow> queue_state \<Rightarrow> queue_state" where
  "updatePendingCount n s = s\<lparr>uiStore := setPendingSync n (uiStore s)\<rparr>"

definition writeQueue :: "mutation list \<Rightarrow> queue_state \<Rightarrow> queue_state" where
  "writeQueue q s = updatePendingCount (length q) (s\<lparr>queueKey := Stored q\<rparr>)"

definition isOffline :: "queue_state \<Rightarrow> bool" where
  "isOffline s = offlineMode (uiStore s)"

definition failed_of :: "int \<Rightarrow> mutation \<Rightarrow> string \<Rightarrow> failed_item" where
  "failed_of now m err =
     \<lparr>fi_clientId = mu_clientId m,
      fi_label = (case mu_label m of Some l \<Rightarrow> l | None \<Rightarrow> mu_method m @ '' '' @ mu_url m),
      fi_method = mu_method m, fi_url = mu_url m, fi_body = mu_body m,
      fi_error = err, fi_at = now\<rparr>"

definition recordFailed :: "int \<Rightarrow> string \<Rightarrow> mutation \<Rightarrow> queue_state \<Rightarrow> queue_state" where
  "recordFailed now err m s =
     (let item = failed_of now m err
      in s\<lparr>uiStore := addFailedSync item (uiStore s),
           persists := persists s @ [(item, failedKey s)]\<rparr>)"

text \<open>The tail of \<open>persistFailedSync\<close>, after its read of the stored list.\<close>

definition persistFailedSync ::
  "failed_item \<times> failed_item list stored \<Rightarrow> failed_item list stored \<Rightarrow> failed_item list stored" where
  "persistFailedSync p cur =
     (case p of (item, raw) \<Rightarrow>
        (case raw of Garbage \<Rightarrow> cur
         | Missing \<Rightarrow> Stored [item]
         | Stored l \<Rightarrow> Stored (upsert_at fi_clientId item l)))"

definition settle :: "queue_state \<Rightarrow> queue_state" where
  "settle s = s\<lparr>failedKey := fold persistFailedSync (persists s) (failedKey s), persists := []\<rparr>"

definition is_fresh :: "int \<Rightarrow> mutation \<Rightarrow> bool" where
  "is_fresh now m \<longleftrightarrow> now - mu_createdAt m < MAX_QUEUE_AGE_MS"

definition expired_msg :: string where
  "expired_msg = ''Expired before it could sync (offline more than 24h)''"

definition readQueue :: "int \<Rightarrow> queue_state \<Rightarrow> mutation list \<times> queue_state" where
  "readQueue now s =
     (let all = readQueueRaw s;
          fresh = filter (is_fresh now) all;
          stale = filter (\<lambda>m. \<not> is_fresh now m) all
      in if stale = [] then (fresh, s)
         else (fresh, settle (writeQueue fresh (fold (recordFailed now expired_msg) stale s))))"

definition hydrateFailedSync :: "queue_state \<Rightarrow> queue_state" where
  "hydrateFailedSync s =
     (case failedKey s of
        Stored l \<Rightarrow> s\<lparr>uiStore := fold addFailedSync l (uiStore s)\<rparr> | _ \<Rightarrow> s)"

definition refreshPendingCount :: "int \<Rightarrow> queue_state \<Rightarrow> queue_state" where
  "refreshPendingCount now s =
     (case readQueue now s of (q, s') \<Rightarrow> hydrateFailedSync (updatePendingCount (length q) s'))"

definition removePersistedFailed :: "string \<Rightarrow> queue_state \<Rightarrow> queue_state" where
  "removePersistedFailed c s =
     (case failedKey s of
        Stored l \<Rightarrow> s\<lparr>failedKey := Stored (remove_key fi_clientId c l)\<rparr> | _ \<Rightarrow> s)"

definition clearPersistedFailed :: "queue_state \<Rightarrow> queue_state" where
  "clearPersistedFailed s = s\<lparr>failedKey := Missing\<rparr>"

definition clearQueue :: "queue_state \<Rightarrow> queue_state" where
  "clearQueue s = writeQueue [] s"

definition enqueueMutation :: "int \<Rightarrow> int option \<Rightarrow> mutation \<Rightarrow> queue_state \<Rightarrow> queue_state" where
  "enqueueMutation now created m s =
     (case readQueue now s of (q, s') \<Rightarrow>
        let entry = m\<lparr>mu_createdAt := (case created of Some t \<Rightarrow> t | None \<Rightarrow> now)\<rparr>
        in writeQueue (upsert_at mu_clientId entry q) s')"

subsection \<open>Replaying\<close>

text \<open>
  How a request ends: with a response, or with a rejection that carries the status of an
  \<open>ApiClientError\<close> and the message of an \<open>Error\<close>, when it has them.
\<close>

datatype outcome = Replayed json | Rejected "int option" "string option"

datatype queue_event = Enqueued mutation | Cleared | OfflineMode bool

record attempt =
  at_during :: "queue_event list"
  at_outcome :: outcome
  at_now :: int

definition isPermanentFailure :: "int option \<Rightarrow> bool" where
  "isPermanentFailure st = (case st of Some n \<Rightarrow> 400 \<le> n \<and> n < 500 | None \<Rightarrow> False)"

definition shortError :: "int option \<Rightarrow> string option \<Rightarrow> string" where
  "shortError st msg =
     (case msg of
        Some t \<Rightarrow> if t \<noteq> [] then t else
          (case st of Some n \<Rightarrow> if n \<noteq> 0 then ''Request failed ('' @ show_int n @ '')'' else ''Request failed''
           | None \<Rightarrow> ''Request failed'')
      | None \<Rightarrow>
          (case st of Some n \<Rightarrow> if n \<noteq> 0 then ''Request failed ('' @ show_int n @ '')'' else ''Request failed''
           | None \<Rightarrow> ''Request failed''))"

definition registerCreateReconciler :: "bool \<Rightarrow> queue_state \<Rightarrow> queue_state" where
  "registerCreateReconciler b s = s\<lparr>reconciler := b\<rparr>"

definition sends :: "mutation \<Rightarrow> bool" where
  "sends m \<longleftrightarrow> mu_method m \<in> {''POST'', ''PUT'', ''PATCH'', ''DELETE''}"

text \<open>The \<open>switch\<close> over the four verbs; any other method sends nothing.\<close>

definition replay :: "mutation \<Rightarrow> queue_state \<Rightarrow> queue_state" where
  "replay m s = (if sends m then s\<lparr>sent := sent s @ [m]\<rparr> else s)"

definition json_id :: "json \<Rightarrow> string option" where
  "json_id j = (case json_field j ''id'' of Some (JStr i) \<Rightarrow> Some i | _ \<Rightarrow> None)"

definition object_values :: "json \<Rightarrow> json list" where
  "object_values j = (case j of JObj fs \<Rightarrow> map snd fs | JArr xs \<Rightarrow> xs | _ \<Rightarrow> [])"

definition extractRealId :: "json \<Rightarrow> string option" where
  "extractRealId j =
     (case json_id j of
        Some i \<Rightarrow> Some i
      | None \<Rightarrow> (case List.map_filter json_id (object_values j) of [] \<Rightarrow> None | i # _ \<Rightarrow> Some i))"

definition drop_entry :: "int \<Rightarrow> string \<Rightarrow> queue_state \<Rightarrow> queue_state" where
  "drop_entry now c s =
     (case readQueue now s of (q, s') \<Rightarrow> writeQueue (filter (\<lambda>e. mu_clientId e \<noteq> c) q) s')"

definition rewrite_urls :: "int \<Rightarrow> string \<Rightarrow> string \<Rightarrow> queue_state \<Rightarrow> queue_state" where
  "rewrite_urls now c r s =
     (case readQueue now s of (q, s') \<Rightarrow>
        if \<exists>e \<in> set q. str_includes (mu_url e) c
        then writeQueue (map (\<lambda>e. if str_includes (mu_url e) c
                                  then e\<lparr>mu_url := str_replace (mu_url e) c r\<rparr> else e) q) s'
        else s')"

definition drain_success :: "int \<Rightarrow> mutation \<Rightarrow> json \<Rightarrow> queue_state \<Rightarrow> queue_state" where
  "drain_success now m resp s =
     (let s1 = drop_entry now (mu_clientId m) s
      in if mu_method m = ''POST'' \<and> reconciler s1
         then let s2 = s1\<lparr>reconciled := reconciled s1 @ [(mu_clientId m, resp)]\<rparr>
              in (case extractRealId resp of
                    Some r \<Rightarrow> if r \<noteq> [] \<and> r \<noteq> mu_clientId m
                              then rewrite_urls now (mu_clientId m) r s2 else s2
                  | None \<Rightarrow> s2)
         else s1)"

definition bump_retries :: "int \<Rightarrow> string \<Rightarrow> nat \<Rightarrow> queue_state \<Rightarrow> queue_state" where
  "bump_retries now c n s =
     (case readQueue now s of (q, s') \<Rightarrow>
        (case find_index (\<lambda>e. mu_clientId e = c) q of
           Some i \<Rightarrow> writeQueue (q[i := (q ! i)\<lparr>mu_retries := Some n\<rparr>]) s'
         | None \<Rightarrow> s'))"

definition next_retries :: "mutation \<Rightarrow> nat" where
  "next_retries m = (case mu_retries m of Some n \<Rightarrow> n | None \<Rightarrow> 0) + 1"

text \<open>The \<open>catch\<close> block; the flag says whether the loop goes on.\<close>

definition drain_failure ::
  "int \<Rightarrow> mutation \<Rightarrow> int option \<Rightarrow> string option \<Rightarrow> queue_state \<Rightarrow> bool \<times> queue_state" where
  "drain_failure now m st msg s =
     (if isOffline s then (False, s)
      else if isPermanentFailure st
      then (True, settle (recordFailed now (shortError st msg) m (drop_entry now (mu_clientId m) s)))
      else if MAX_RETRIES \<le> next_retries m
      then (True, settle (recordFailed now (shortError st msg) m (drop_entry now (mu_clientId m) s)))
      else (True, bump_retries now (mu_clientId m) (next_retries m) s))"

definition queue_event :: "int \<Rightarrow> queue_event \<Rightarrow> queue_state \<Rightarrow> queue_state" where
  "queue_event now e s =
     (case e of
        Enqueued m \<Rightarrow> enqueueMutation now (Some (mu_createdAt m)) m s
      | Cleared \<Rightarrow> clearQueue s
      | OfflineMode b \<Rightarrow> s\<lparr>uiStore := setOfflineMode b (uiStore s)\<rparr>)"

definition drain_step :: "attempt \<Rightarrow> mutation \<Rightarrow> queue_state \<Rightarrow> bool \<times> queue_state" where
  "drain_step a m s =
     (let s1 = fold (queue_event (at_now a)) (at_during a) (replay m s)
      in (case at_outcome a of
            Replayed resp \<Rightarrow> (True, drain_success (at_now a) m resp s1)
          | Rejected st msg \<Rightarrow>
              if sends m then drain_failure (at_now a) m st msg s1
              else (True, drain_success (at_now a) m JNull s1)))"

fun drain_loop :: "(nat \<Rightarrow> attempt) \<Rightarrow> nat \<Rightarrow> mutation list \<Rightarrow> queue_state \<Rightarrow> queue_state" where
  "drain_loop env i [] s = s"
| "drain_loop env i (m # ms) s =
     (case drain_step (env i) m s of (go, s') \<Rightarrow> if go then drain_loop env (Suc i) ms s' else s')"

definition drain_order :: "mutation list \<Rightarrow> mutation list" where
  "drain_order q = js_sort (by_key mu_createdAt) q"

definition drainQueue :: "int \<Rightarrow> (nat \<Rightarrow> attempt) \<Rightarrow> queue_state \<Rightarrow> queue_state" where
  "drainQueue now env s =
     (if draining s \<or> isOffline s then s
      else (case readQueue now (s\<lparr>draining := True\<rparr>) of (q, s') \<Rightarrow>
              (drain_loop env 0 (drain_order q) s')\<lparr>draining := False\<rparr>))"

definition retryFailed :: "int \<Rightarrow> (nat \<Rightarrow> attempt) \<Rightarrow> failed_item \<Rightarrow> queue_state \<Rightarrow> queue_state" where
  "retryFailed now env it s =
     (let m = \<lparr>mu_clientId = fi_clientId it, mu_url = fi_url it, mu_method = to_upper (fi_method it),
               mu_body = fi_body it, mu_label = Some (fi_label it), mu_createdAt = now, mu_retries = None\<rparr>;
          s1 = enqueueMutation now None m s;
          s2 = s1\<lparr>uiStore := dismissFailedSync (fi_clientId it) (uiStore s1)\<rparr>
      in if isOffline s2 then s2 else drainQueue now env s2)"

subsection \<open>What each section does to the queue, the failed list and the logs\<close>

text \<open>The client ids the user can still account for: queued, or surfaced as failed.\<close>

definition queue_ids :: "queue_state \<Rightarrow> string set" where
  "queue_ids s = mu_clientId ` set (readQueueRaw s)"

definition failed_ids :: "queue_state \<Rightarrow> string set" where
  "failed_ids s = fi_clientId ` set (failedSync (uiStore s))"

lemma writeQueue_simps [simp]:
  "readQueueRaw (writeQueue q s) = q"
  "failedSync (uiStore (writeQueue q s)) = failedSync (uiStore s)"
  "pendingSync (uiStore (writeQueue q s)) = length q"
  "isOffline (writeQueue q s) = isOffline s"
  "sent (writeQueue q s) = sent s"
  "reconciler (writeQueue q s) = reconciler s"
  "reconciled (writeQueue q s) = reconciled s"
  "failedKey (writeQueue q s) = failedKey s"
  "persists (writeQueue q s) = persists s"
  "draining (writeQueue q s) = draining s"
  "failed_ids (writeQueue q s) = failed_ids s"
  "queue_ids (writeQueue q s) = mu_clientId ` set q"
  by (simp_all add: writeQueue_def updatePendingCount_def readQueueRaw_def isOffline_def
      queue_ids_def failed_ids_def)

lemma settle_simps [simp]:
  "queueKey (settle s) = queueKey s" "uiStore (settle s) = uiStore s" "sent (settle s) = sent s"
  "readQueueRaw (settle s) = readQueueRaw s" "isOffline (settle s) = isOffline s"
  "reconciler (settle s) = reconciler s" "draining (settle s) = draining s"
  "failed_ids (settle s) = failed_ids s" "queue_ids (settle s) = queue_ids s"
  by (simp_all add: settle_def readQueueRaw_def isOffline_def failed_ids_def queue_ids_def)

lemma recordFailed_simps [simp]:
  "queueKey (recordFailed now e m s) = queueKey s"
  "sent (recordFailed now e m s) = sent s"
  "readQueueRaw (recordFailed now e m s) = readQueueRaw s"
  "isOffline (recordFailed now e m s) = isOffline s"
  "reconciler (recordFailed now e m s) = reconciler s"
  "draining (recordFailed now e m s) = draining s"
  "failed_ids (recordFailed now e m s) = insert (mu_clientId m) (failed_ids s)"
  "queue_ids (recordFailed now e m s) = queue_ids s"
  "failedKey (recordFailed now e m s) = failedKey s"
  by (auto simp: recordFailed_def Let_def readQueueRaw_def isOffline_def failed_ids_def
      queue_ids_def keys_upsert_last failed_of_def)

lemma recordFailed_pending [simp]:
  "pendingSync (uiStore (recordFailed now e m s)) = pendingSync (uiStore s)"
  by (simp add: recordFailed_def Let_def)

lemma recordFaileds_simps [simp]:
  "queueKey (fold (recordFailed now e) ms s) = queueKey s"
  "sent (fold (recordFailed now e) ms s) = sent s"
  "readQueueRaw (fold (recordFailed now e) ms s) = readQueueRaw s"
  "isOffline (fold (recordFailed now e) ms s) = isOffline s"
  "reconciler (fold (recordFailed now e) ms s) = reconciler s"
  "draining (fold (recordFailed now e) ms s) = draining s"
  "failed_ids (fold (recordFailed now e) ms s) = mu_clientId ` set ms \<union> failed_ids s"
  "failedKey (fold (recordFailed now e) ms s) = failedKey s"
  by (induction ms arbitrary: s) auto

lemma fst_readQueue: "fst (readQueue now s) = filter (is_fresh now) (readQueueRaw s)"
  by (simp add: readQueue_def Let_def)

lemma readQueue_raw [simp]:
  "readQueueRaw (snd (readQueue now s)) = filter (is_fresh now) (readQueueRaw s)"
  by (auto simp: readQueue_def Let_def filter_empty_conv filter_id_conv)

lemma readQueue_simps [simp]:
  "sent (snd (readQueue now s)) = sent s"
  "isOffline (snd (readQueue now s)) = isOffline s"
  "reconciler (snd (readQueue now s)) = reconciler s"
  "draining (snd (readQueue now s)) = draining s"
  by (simp_all add: readQueue_def Let_def)

lemma readQueue_failed_ids:
  "failed_ids (snd (readQueue now s)) =
     mu_clientId ` {m \<in> set (readQueueRaw s). \<not> is_fresh now m} \<union> failed_ids s"
  by (auto simp: readQueue_def Let_def filter_empty_conv)

lemma readQueue_failed_ids_fresh:
  "\<forall>m \<in> set (readQueueRaw s). is_fresh now m \<Longrightarrow> failed_ids (snd (readQueue now s)) = failed_ids s"
  by (auto simp: readQueue_failed_ids)

lemma readQueue_all_fresh:
  "\<forall>m \<in> set (readQueueRaw s). is_fresh now m \<Longrightarrow> readQueue now s = (readQueueRaw s, s)"
  by (simp add: readQueue_def Let_def filter_id_conv [THEN iffD2] filter_empty_conv [THEN iffD2])

lemma readQueue_tracked:
  "queue_ids (snd (readQueue now s)) \<union> failed_ids (snd (readQueue now s)) = queue_ids s \<union> failed_ids s"
  by (auto simp: readQueue_failed_ids queue_ids_def)

lemma readQueue_case:
  "(case readQueue now s of (q, s') \<Rightarrow> f q s') =
     f (filter (is_fresh now) (readQueueRaw s)) (snd (readQueue now s))"
  by (metis case_prod_beta fst_readQueue)

lemmas section_simps = readQueue_case drop_entry_def rewrite_urls_def bump_retries_def
  enqueueMutation_def Let_def

lemma drop_entry_simps [simp]:
  "readQueueRaw (drop_entry now c s) =
     filter (\<lambda>e. mu_clientId e \<noteq> c) (filter (is_fresh now) (readQueueRaw s))"
  "sent (drop_entry now c s) = sent s"
  "isOffline (drop_entry now c s) = isOffline s"
  "reconciler (drop_entry now c s) = reconciler s"
  "draining (drop_entry now c s) = draining s"
  "failed_ids (drop_entry now c s) = failed_ids (snd (readQueue now s))"
  by (simp_all add: section_simps)

lemma drop_entry_tracked:
  "queue_ids (drop_entry now c s) \<union> failed_ids (drop_entry now c s) \<union> {c}
     = queue_ids s \<union> failed_ids s \<union> {c}"
  unfolding queue_ids_def by (auto simp: readQueue_failed_ids)

lemma map_ids: "(\<And>e. mu_clientId (f e) = mu_clientId e) \<Longrightarrow>
   mu_clientId ` set (map f q) = mu_clientId ` set q"
  by (force simp: image_iff)

lemma rewrite_urls_tracked:
  "queue_ids (rewrite_urls now c r s) \<union> failed_ids (rewrite_urls now c r s) = queue_ids s \<union> failed_ids s"
proof -
  let ?q = "filter (is_fresh now) (readQueueRaw s)"
  let ?f = "\<lambda>e. if str_includes (mu_url e) c then e\<lparr>mu_url := str_replace (mu_url e) c r\<rparr> else e"
  have "queue_ids (rewrite_urls now c r s) = mu_clientId ` set ?q"
    using map_ids [of ?f ?q] by (simp add: section_simps queue_ids_def del: set_map set_filter)
  moreover have "failed_ids (rewrite_urls now c r s) = failed_ids (snd (readQueue now s))"
    by (simp add: section_simps)
  ultimately show ?thesis using readQueue_tracked [of now s] by (simp add: queue_ids_def)
qed

lemma bump_ids:
  "find_index (\<lambda>e. mu_clientId e = c) q = Some i \<Longrightarrow>
   map mu_clientId (q[i := (q ! i)\<lparr>mu_retries := n\<rparr>]) = map mu_clientId q"
proof -
  assume "find_index (\<lambda>e. mu_clientId e = c) q = Some i"
  then have "i < length q" by (simp add: find_index_Some)
  then have "(map mu_clientId q)[i := mu_clientId (q ! i)] = map mu_clientId q"
    by (metis list_update_id nth_map)
  then show ?thesis by (simp add: map_update)
qed

lemma bump_retries_tracked:
  "queue_ids (bump_retries now c n s) \<union> failed_ids (bump_retries now c n s) = queue_ids s \<union> failed_ids s"
proof -
  let ?q = "filter (is_fresh now) (readQueueRaw s)"
  have "queue_ids (bump_retries now c n s) = mu_clientId ` set ?q"
  proof (cases "find_index (\<lambda>e. mu_clientId e = c) ?q")
    case (Some i)
    have "set (map mu_clientId (?q[i := (?q ! i)\<lparr>mu_retries := Some n\<rparr>])) = set (map mu_clientId ?q)"
      by (simp only: bump_ids [OF Some])
    then show ?thesis using Some by (simp add: section_simps del: set_filter)
  qed (simp add: section_simps queue_ids_def)
  moreover have "failed_ids (bump_retries now c n s) = failed_ids (snd (readQueue now s))"
    by (simp add: section_simps split: option.splits)
  ultimately show ?thesis using readQueue_tracked [of now s] by (simp add: queue_ids_def)
qed

lemma enqueue_tracked:
  "queue_ids s \<union> failed_ids s \<union> {mu_clientId m} =
   queue_ids (enqueueMutation now t m s) \<union> failed_ids (enqueueMutation now t m s)"
proof -
  let ?e = "m\<lparr>mu_createdAt := (case t of Some t \<Rightarrow> t | None \<Rightarrow> now)\<rparr>"
  let ?q = "filter (is_fresh now) (readQueueRaw s)"
  have "queue_ids (enqueueMutation now t m s) = insert (mu_clientId m) (mu_clientId ` set ?q)"
    using keys_upsert_at [of mu_clientId ?e ?q] by (simp add: section_simps)
  moreover have "failed_ids (enqueueMutation now t m s) = failed_ids (snd (readQueue now s))"
    by (simp add: section_simps)
  ultimately show ?thesis using readQueue_tracked [of now s] by (auto simp: queue_ids_def)
qed


subsection \<open>No silent drops\<close>

text \<open>
  The request of an attempt was answered with success (a method outside the four verbs
  counts as answered, since \<open>replay\<close> returns without sending).
\<close>

definition delivered :: "attempt \<Rightarrow> mutation \<Rightarrow> bool" where
  "delivered a m \<longleftrightarrow> (case at_outcome a of Replayed _ \<Rightarrow> True | Rejected _ _ \<Rightarrow> \<not> sends m)"

abbreviation tracked :: "queue_state \<Rightarrow> string set" where
  "tracked s \<equiv> queue_ids s \<union> failed_ids s"

lemma replay_simps [simp]:
  "queue_ids (replay m s) = queue_ids s" "failed_ids (replay m s) = failed_ids s"
  "readQueueRaw (replay m s) = readQueueRaw s" "isOffline (replay m s) = isOffline s"
  "uiStore (replay m s) = uiStore s" "draining (replay m s) = draining s"
  "sent (replay m s) = sent s @ filter sends [m]" "reconciler (replay m s) = reconciler s"
  by (simp_all add: replay_def queue_ids_def failed_ids_def readQueueRaw_def isOffline_def)

lemma queue_event_tracked: "e \<noteq> Cleared \<Longrightarrow> tracked s \<subseteq> tracked (queue_event now e s)"
proof (cases e)
  case (Enqueued m)
  then show ?thesis using enqueue_tracked [of s m now "Some (mu_createdAt m)"]
    by (auto simp: queue_event_def)
qed (auto simp: queue_event_def queue_ids_def failed_ids_def readQueueRaw_def setOfflineMode_def)

lemma queue_events_tracked:
  "Cleared \<notin> set es \<Longrightarrow> tracked s \<subseteq> tracked (fold (queue_event now) es s)"
proof (induction es arbitrary: s)
  case (Cons e es)
  then have "tracked s \<subseteq> tracked (queue_event now e s)" by (intro queue_event_tracked) auto
  also have "\<dots> \<subseteq> tracked (fold (queue_event now) es (queue_event now e s))"
    using Cons by (intro Cons.IH) auto
  finally show ?case by simp
qed simp

lemma drain_success_tracked: "tracked s \<subseteq> tracked (drain_success now m r s) \<union> {mu_clientId m}"
proof -
  let ?d = "drop_entry now (mu_clientId m) s"
  have d: "tracked s \<subseteq> tracked ?d \<union> {mu_clientId m}" using drop_entry_tracked by blast
  let ?d2 = "?d\<lparr>reconciled := reconciled ?d @ [(mu_clientId m, r)]\<rparr>"
  have "tracked ?d2 = tracked ?d"
    by (simp add: queue_ids_def failed_ids_def readQueueRaw_def)
  moreover have "tracked (rewrite_urls now c i ?d2) = tracked ?d2" for c i
    by (rule rewrite_urls_tracked)
  ultimately have "tracked (drain_success now m r s) = tracked ?d"
    by (simp add: drain_success_def Let_def split: option.splits)
  with d show ?thesis by blast
qed

lemma drain_failure_tracked: "tracked s \<subseteq> tracked (snd (drain_failure now m st msg s))"
proof -
  have "tracked s \<subseteq> tracked (settle (recordFailed now e m (drop_entry now (mu_clientId m) s)))" for e
    using drop_entry_tracked [of now "mu_clientId m" s] by auto
  moreover have "tracked (bump_retries now (mu_clientId m) n s) = tracked s" for n
    by (rule bump_retries_tracked)
  ultimately show ?thesis by (auto simp: drain_failure_def)
qed

lemma drain_step_tracked:
  assumes "Cleared \<notin> set (at_during a)"
  shows "tracked s \<subseteq> tracked (snd (drain_step a m s)) \<union> (if delivered a m then {mu_clientId m} else {})"
proof -
  let ?s = "fold (queue_event (at_now a)) (at_during a) (replay m s)"
  have "tracked s \<subseteq> tracked ?s" using queue_events_tracked [OF assms, of "replay m s"] by simp
  then show ?thesis
    using drain_success_tracked [of ?s "at_now a" m] drain_failure_tracked [of ?s "at_now a" m]
    by (fastforce simp: drain_step_def Let_def delivered_def split: outcome.splits)
qed

text \<open>The client ids of a pass whose requests were answered with success.\<close>

fun delivered_ids :: "(nat \<Rightarrow> attempt) \<Rightarrow> nat \<Rightarrow> mutation list \<Rightarrow> string set" where
  "delivered_ids env i [] = {}"
| "delivered_ids env i (m # ms) =
     (if delivered (env i) m then {mu_clientId m} else {}) \<union> delivered_ids env (Suc i) ms"

lemma drain_loop_tracked:
  assumes "\<And>i. Cleared \<notin> set (at_during (env i))"
  shows "tracked s \<subseteq> tracked (drain_loop env i ms s) \<union> delivered_ids env i ms"
proof (induction ms arbitrary: i s)
  case (Cons m ms)
  obtain go s' where st: "drain_step (env i) m s = (go, s')" by fastforce
  have step: "tracked s \<subseteq> tracked s' \<union> (if delivered (env i) m then {mu_clientId m} else {})"
    using drain_step_tracked [OF assms, of s i m] st by simp
  with st Cons.IH [of s' "Suc i"] show ?case by (cases go) auto
qed simp

subsection \<open>Requests leave in order, each at most once per drain\<close>

lemma sent_sections [simp]:
  "sent (rewrite_urls now c r s) = sent s" "sent (bump_retries now c n s) = sent s"
  "sent (enqueueMutation now t m s) = sent s"
  by (auto simp: section_simps split: option.splits)

lemma sent_queue_event [simp]: "sent (queue_event now e s) = sent s"
  by (cases e) (simp_all add: queue_event_def clearQueue_def)

lemma sent_queue_events [simp]: "sent (fold (queue_event now) es s) = sent s"
  by (induction es arbitrary: s) auto

lemma sent_drain_step: "sent (snd (drain_step a m s)) = sent s @ filter sends [m]"
  by (auto simp: drain_step_def drain_success_def drain_failure_def Let_def
      split: outcome.splits option.splits)

lemma drain_loop_sent: "\<exists>k. sent (drain_loop env i ms s) = sent s @ filter sends (take k ms)"
proof (induction ms arbitrary: i s)
  case (Cons m ms)
  obtain go s' where st: "drain_step (env i) m s = (go, s')" by fastforce
  have s': "sent s' = sent s @ filter sends [m]" using sent_drain_step [of "env i" m s] st by simp
  show ?case
  proof (cases go)
    case True
    obtain k where "sent (drain_loop env (Suc i) ms s') = sent s' @ filter sends (take k ms)"
      using Cons.IH by blast
    with st True s' have "sent (drain_loop env i (m # ms) s) = sent s @ filter sends (take (Suc k) (m # ms))"
      by simp
    then show ?thesis by blast
  next
    case False
    with st s' have "sent (drain_loop env i (m # ms) s) = sent s @ filter sends (take (Suc 0) (m # ms))"
      by simp
    then show ?thesis by blast
  qed
qed simp

lemma drainQueue_run:
  "\<not> draining s \<Longrightarrow> \<not> isOffline s \<Longrightarrow>
   drainQueue now env s =
     (drain_loop env 0 (drain_order (filter (is_fresh now) (readQueueRaw s)))
        (snd (readQueue now (s\<lparr>draining := True\<rparr>))))\<lparr>draining := False\<rparr>"
  by (simp add: drainQueue_def readQueue_case readQueueRaw_def)

lemma upd_reconciled [simp]:
  "failed_ids (s\<lparr>reconciled := b\<rparr>) = failed_ids s"
  "readQueueRaw (s\<lparr>reconciled := b\<rparr>) = readQueueRaw s"
  by (simp_all add: failed_ids_def readQueueRaw_def)

lemma upd_draining [simp]:
  "queue_ids (s\<lparr>draining := b\<rparr>) = queue_ids s" "failed_ids (s\<lparr>draining := b\<rparr>) = failed_ids s"
  "readQueueRaw (s\<lparr>draining := b\<rparr>) = readQueueRaw s" "isOffline (s\<lparr>draining := b\<rparr>) = isOffline s"
  by (simp_all add: queue_ids_def failed_ids_def readQueueRaw_def isOffline_def)


subsection \<open>The queue's invariant\<close>

definition retries_of :: "mutation \<Rightarrow> nat" where
  "retries_of m = (case mu_retries m of Some n \<Rightarrow> n | None \<Rightarrow> 0)"

definition entries_ok :: "mutation list \<Rightarrow> bool" where
  "entries_ok q \<longleftrightarrow> unique_keys mu_clientId q \<and> (\<forall>m \<in> set q. retries_of m < MAX_RETRIES)"

definition queue_inv :: "queue_state \<Rightarrow> bool" where
  "queue_inv s \<longleftrightarrow> entries_ok (readQueueRaw s) \<and> ui_inv (uiStore s)"

lemma entries_ok_filter: "entries_ok q \<Longrightarrow> entries_ok (filter P q)"
  by (simp add: entries_ok_def distinct_map_filter)

lemma entries_ok_map:
  "entries_ok q \<Longrightarrow> (\<And>e. mu_clientId (f e) = mu_clientId e \<and> mu_retries (f e) = mu_retries e) \<Longrightarrow>
   entries_ok (map f q)"
proof -
  assume q: "entries_ok q" and f: "\<And>e. mu_clientId (f e) = mu_clientId e \<and> mu_retries (f e) = mu_retries e"
  have "map mu_clientId (map f q) = map mu_clientId q" using f by simp
  with q f show ?thesis unfolding entries_ok_def by (metis (no_types, lifting) imageE list.set_map retries_of_def)
qed

lemma entries_ok_upsert:
  "entries_ok q \<Longrightarrow> retries_of e < MAX_RETRIES \<Longrightarrow> entries_ok (upsert_at mu_clientId e q)"
  using set_upsert_at [of mu_clientId e q] by (auto simp: entries_ok_def unique_upsert_at)

lemma entries_ok_bump:
  "entries_ok q \<Longrightarrow> find_index (\<lambda>e. mu_clientId e = c) q = Some i \<Longrightarrow> n < MAX_RETRIES \<Longrightarrow>
   entries_ok (q[i := (q ! i)\<lparr>mu_retries := Some n\<rparr>])"
  using bump_ids [of c q i "Some n"] set_update_subset_insert [of q i "(q ! i)\<lparr>mu_retries := Some n\<rparr>"]
  unfolding entries_ok_def by (force simp: retries_of_def)

lemma ui_inv_writeQueue: "ui_inv (uiStore s) \<Longrightarrow> ui_inv (uiStore (writeQueue q s))"
  by (simp add: writeQueue_def updatePendingCount_def ui_inv_setPendingSync)

lemma ui_inv_recordFailed: "ui_inv (uiStore s) \<Longrightarrow> ui_inv (uiStore (recordFailed now e m s))"
  by (simp add: recordFailed_def Let_def ui_inv_addFailedSync)

lemma ui_inv_recordFaileds: "ui_inv (uiStore s) \<Longrightarrow> ui_inv (uiStore (fold (recordFailed now e) ms s))"
  by (induction ms arbitrary: s) (auto intro: ui_inv_recordFailed)

lemma ui_inv_readQueue: "ui_inv (uiStore s) \<Longrightarrow> ui_inv (uiStore (snd (readQueue now s)))"
  by (auto simp: readQueue_def Let_def intro!: ui_inv_writeQueue ui_inv_recordFaileds)

lemma queue_inv_writeQueue: "entries_ok q \<Longrightarrow> ui_inv (uiStore s) \<Longrightarrow> queue_inv (writeQueue q s)"
  by (simp add: queue_inv_def ui_inv_writeQueue)

lemma queue_inv_readQueue [inv_intros]: "queue_inv s \<Longrightarrow> queue_inv (snd (readQueue now s))"
  by (simp add: queue_inv_def entries_ok_filter ui_inv_readQueue)

lemma queue_inv_settle [inv_intros]: "queue_inv s \<Longrightarrow> queue_inv (settle s)"
  by (simp add: queue_inv_def)

lemma queue_inv_recordFailed [inv_intros]: "queue_inv s \<Longrightarrow> queue_inv (recordFailed now e m s)"
  by (simp add: queue_inv_def ui_inv_recordFailed)

lemma queue_inv_replay [inv_intros]: "queue_inv s \<Longrightarrow> queue_inv (replay m s)"
  by (simp add: queue_inv_def)

lemma queue_inv_reconciled [simp]: "queue_inv (s\<lparr>reconciled := r\<rparr>) = queue_inv s"
  by (simp add: queue_inv_def readQueueRaw_def)

lemma queue_inv_draining [simp]: "queue_inv (s\<lparr>draining := b\<rparr>) = queue_inv s"
  by (simp add: queue_inv_def)

lemma queue_inv_drop_entry [inv_intros]: "queue_inv s \<Longrightarrow> queue_inv (drop_entry now c s)"
  unfolding section_simps
  by (intro queue_inv_writeQueue entries_ok_filter) (auto simp: queue_inv_def ui_inv_readQueue)

lemma queue_inv_rewrite_urls [inv_intros]: "queue_inv s \<Longrightarrow> queue_inv (rewrite_urls now c r s)"
  unfolding section_simps
  by (auto intro!: entries_ok_map entries_ok_filter ui_inv_writeQueue
      simp: ui_inv_readQueue queue_inv_def simp del: set_filter)

lemma queue_inv_bump_retries [inv_intros]:
  "queue_inv s \<Longrightarrow> n < MAX_RETRIES \<Longrightarrow> queue_inv (bump_retries now c n s)"
  unfolding section_simps
  by (auto intro!: entries_ok_bump [where c = c] entries_ok_filter ui_inv_writeQueue
      simp: ui_inv_readQueue queue_inv_def split: option.splits)

lemma queue_inv_enqueue [inv_intros]:
  "queue_inv s \<Longrightarrow> retries_of m < MAX_RETRIES \<Longrightarrow> queue_inv (enqueueMutation now t m s)"
  unfolding section_simps
  by (intro queue_inv_writeQueue entries_ok_upsert entries_ok_filter)
     (auto simp: queue_inv_def ui_inv_readQueue retries_of_def)

definition event_ok :: "queue_event \<Rightarrow> bool" where
  "event_ok e \<longleftrightarrow> (case e of Enqueued m \<Rightarrow> retries_of m < MAX_RETRIES | _ \<Rightarrow> True)"

lemma queue_inv_event [inv_intros]: "queue_inv s \<Longrightarrow> event_ok e \<Longrightarrow> queue_inv (queue_event now e s)"
proof (cases e)
  case Cleared
  then show "queue_inv s \<Longrightarrow> ?thesis"
    by (simp add: queue_event_def clearQueue_def queue_inv_def ui_inv_writeQueue entries_ok_def)
next
  case (OfflineMode b)
  then show "queue_inv s \<Longrightarrow> ?thesis"
    by (simp add: queue_event_def queue_inv_def readQueueRaw_def ui_inv_setOfflineMode)
qed (auto simp: queue_event_def event_ok_def intro: queue_inv_enqueue)

lemma queue_inv_events [inv_intros]:
  "queue_inv s \<Longrightarrow> \<forall>e \<in> set es. event_ok e \<Longrightarrow> queue_inv (fold (queue_event now) es s)"
  by (induction es arbitrary: s) (auto intro: queue_inv_event)

lemma queue_inv_drain_success [inv_intros]: "queue_inv s \<Longrightarrow> queue_inv (drain_success now m r s)"
  by (auto simp: drain_success_def Let_def split: option.splits
      intro!: queue_inv_drop_entry queue_inv_rewrite_urls)

lemma queue_inv_drain_failure [inv_intros]:
  "queue_inv s \<Longrightarrow> queue_inv (snd (drain_failure now m st msg s))"
  by (auto simp: drain_failure_def intro!: inv_intros)

lemma queue_inv_drain_step [inv_intros]:
  "queue_inv s \<Longrightarrow> \<forall>e \<in> set (at_during a). event_ok e \<Longrightarrow> queue_inv (snd (drain_step a m s))"
  by (auto simp: drain_step_def Let_def split: outcome.splits intro!: inv_intros)

lemma queue_inv_drain_loop [inv_intros]:
  "queue_inv s \<Longrightarrow> \<forall>i. \<forall>e \<in> set (at_during (env i)). event_ok e \<Longrightarrow>
   queue_inv (drain_loop env i ms s)"
proof (induction ms arbitrary: i s)
  case (Cons m ms)
  obtain go s' where st: "drain_step (env i) m s = (go, s')" by fastforce
  with Cons.prems have "queue_inv s'" using queue_inv_drain_step [of s "env i" m] by simp
  with st Cons show ?case by simp
qed simp

lemma queue_inv_drainQueue [inv_intros]:
  "queue_inv s \<Longrightarrow> \<forall>i. \<forall>e \<in> set (at_during (env i)). event_ok e \<Longrightarrow> queue_inv (drainQueue now env s)"
  by (auto simp: drainQueue_def readQueue_case intro!: queue_inv_drain_loop queue_inv_readQueue)


subsection \<open>Enqueueing coalesces\<close>

interpretation queue: coalescing mu_clientId "upsert_at mu_clientId" "remove_key mu_clientId"
  by (rule coalescing_upsert_at)

definition enqueue_all :: "int \<Rightarrow> mutation list \<Rightarrow> queue_state \<Rightarrow> queue_state" where
  "enqueue_all now ws s = fold (\<lambda>m. enqueueMutation now (Some (mu_createdAt m)) m) ws s"

lemma enqueue_raw_fresh:
  "\<forall>m \<in> set (readQueueRaw s). is_fresh now m \<Longrightarrow>
   readQueueRaw (enqueueMutation now (Some (mu_createdAt m)) m s) = upsert_at mu_clientId m (readQueueRaw s)"
  by (simp add: section_simps filter_id_conv [THEN iffD2])

lemma enqueue_all_raw:
  "\<forall>m \<in> set ws \<union> set (readQueueRaw s). is_fresh now m \<Longrightarrow>
   readQueueRaw (enqueue_all now ws s) = fold (upsert_at mu_clientId) ws (readQueueRaw s)"
proof (induction ws arbitrary: s)
  case (Cons w ws)
  let ?s = "enqueueMutation now (Some (mu_createdAt w)) w s"
  have raw: "readQueueRaw ?s = upsert_at mu_clientId w (readQueueRaw s)"
    using Cons.prems by (intro enqueue_raw_fresh) auto
  have "\<forall>m \<in> set ws \<union> set (readQueueRaw ?s). is_fresh now m"
    using Cons.prems set_upsert_at [of mu_clientId w "readQueueRaw s"] by (auto simp: raw)
  from Cons.IH [OF this] show ?case by (simp add: enqueue_all_def raw)
qed (simp add: enqueue_all_def)

lemma drain_order_simps [simp]:
  "set (drain_order q) = set q" "distinct (map f (drain_order q)) = distinct (map f q)"
  by (simp_all add: drain_order_def)

lemma sorted_drain_order: "sorted (map mu_createdAt (drain_order q))"
  unfolding drain_order_def by (rule sorted_by_key)

lemma sublist_run:
  assumes "sorted (map f ms)" "distinct (map g ms)"
  shows "sorted (map f (filter P (take k ms))) \<and> distinct (map g (filter P (take k ms)))
    \<and> set (filter P (take k ms)) \<subseteq> set ms"
  using assms set_take_subset [of k ms]
  by (auto simp: sorted_map sorted_wrt_filter sorted_wrt_take distinct_map_filter
      distinct_take take_map [symmetric])

subsection \<open>Properties\<close>

text \<open>C1. No silent drops: whatever a drain meets on the way (writes queued meanwhile, the
  connection going away, permanent and transient failures, expiry), every client id that was
  queued is afterwards still queued, or surfaced in the failed list, or was answered with
  success in this pass.  Only an explicit clear of the queue (logout) is excluded.\<close>

theorem drain_no_silent_drop:
  assumes "\<And>i. Cleared \<notin> set (at_during (env i))" and "c \<in> queue_ids s"
  shows "c \<in> queue_ids (drainQueue now env s) \<or> c \<in> failed_ids (drainQueue now env s)
    \<or> c \<in> delivered_ids env 0 (drain_order (filter (is_fresh now) (readQueueRaw s)))"
proof (cases "draining s \<or> isOffline s")
  case False
  let ?s = "s\<lparr>draining := True\<rparr>" and ?ms = "drain_order (filter (is_fresh now) (readQueueRaw s))"
  have "c \<in> tracked (snd (readQueue now ?s))" using assms(2) readQueue_tracked [of now ?s] by simp
  then have "c \<in> tracked (drain_loop env 0 ?ms (snd (readQueue now ?s))) \<union> delivered_ids env 0 ?ms"
    using drain_loop_tracked [of env "snd (readQueue now ?s)" 0 ?ms] assms(1) by blast
  with False show ?thesis by (simp add: drainQueue_run)
qed (use assms in \<open>auto simp: drainQueue_def\<close>)

text \<open>C2. A drain sends a batch of distinct queued writes, none older than 24 hours, oldest
  first, each at most once.\<close>

theorem drain_sends_each_once_in_order:
  assumes "queue_inv s"
  shows "\<exists>rs. sent (drainQueue now env s) = sent s @ rs \<and> sorted (map mu_createdAt rs)
    \<and> distinct (map mu_clientId rs) \<and> set rs \<subseteq> {m \<in> set (readQueueRaw s). is_fresh now m}"
proof (cases "draining s \<or> isOffline s")
  case False
  let ?s = "s\<lparr>draining := True\<rparr>" and ?ms = "drain_order (filter (is_fresh now) (readQueueRaw s))"
  obtain k where "sent (drain_loop env 0 ?ms (snd (readQueue now ?s))) = sent s @ filter sends (take k ?ms)"
    using drain_loop_sent [of env 0 ?ms "snd (readQueue now ?s)"] by auto
  moreover have "distinct (map mu_clientId ?ms)"
    using assms by (simp add: queue_inv_def entries_ok_def distinct_map_filter)
  moreover have "sorted (map mu_createdAt ?ms)" by (rule sorted_drain_order)
  ultimately have "sent (drainQueue now env s) = sent s @ filter sends (take k ?ms)"
    "sorted (map mu_createdAt (filter sends (take k ?ms)))
      \<and> distinct (map mu_clientId (filter sends (take k ?ms))) \<and> set (filter sends (take k ?ms)) \<subseteq> set ?ms"
    using False sublist_run [of mu_createdAt ?ms mu_clientId sends k] by (simp_all add: drainQueue_run)
  then show ?thesis by (intro exI [of _ "filter sends (take k ?ms)"]) simp
next
  case True
  then have "sent (drainQueue now env s) = sent s @ []" by (simp add: drainQueue_def)
  then show ?thesis by (intro exI [of _ "[]"]) simp
qed

text \<open>A drain keeps the queue's invariant: client ids stay unique in the queue and in the
  failed list, and no queued write has used up its replay attempts.\<close>

theorem drain_keeps_invariant:
  assumes "queue_inv s" and "\<And>i e. e \<in> set (at_during (env i)) \<Longrightarrow> event_ok e"
  shows "queue_inv (drainQueue now env s)"
  using assms by (blast intro: queue_inv_drainQueue)

text \<open>Writes to the same resource coalesce: after any sequence of enqueues the queue holds,
  for each client id, the last write, and one entry per client id.\<close>

theorem enqueue_last_write_wins:
  assumes "queue_inv s" and "\<forall>m \<in> set ws \<union> set (readQueueRaw s). is_fresh now m"
  shows "lookup_key mu_clientId (readQueueRaw (enqueue_all now ws s)) c =
      (case lookup_key mu_clientId (rev ws) c of Some w \<Rightarrow> Some w
       | None \<Rightarrow> lookup_key mu_clientId (readQueueRaw s) c)
    \<and> unique_keys mu_clientId (readQueueRaw (enqueue_all now ws s))"
  using assms queue.puts_lookup [of "readQueueRaw s" ws c] queue.puts_unique [of "readQueueRaw s" ws]
  by (simp add: enqueue_all_raw queue_inv_def entries_ok_def)

text \<open>The coalescing and the drain do not compose: when a newer write for the same
  client id is enqueued while the older one is in flight and the older one succeeds, the
  success handler filters by client id and removes the newer write.  It is then neither
  queued, nor surfaced, nor sent.\<close>

theorem drain_drops_newer_write:
  assumes "queueKey s = Stored [m]" and "\<not> draining s" and "\<not> isOffline s" and "sends m"
    and "at_during (env 0) = [Enqueued m']" and "at_outcome (env 0) = Replayed r"
    and "mu_clientId m' = mu_clientId m" and "is_fresh now m" and "is_fresh (at_now (env 0)) m"
    and "is_fresh (at_now (env 0)) m'"
  shows "readQueueRaw (drainQueue now env s) = [] \<and> failed_ids (drainQueue now env s) = failed_ids s
    \<and> sent (drainQueue now env s) = sent s @ [m]"
proof -
  let ?t = "at_now (env 0)" and ?s = "s\<lparr>draining := True\<rparr>"
  have raw: "readQueueRaw s = [m]" using assms(1) by (simp add: readQueueRaw_def)
  have read: "snd (readQueue now ?s) = ?s" using assms(8) raw by (simp add: readQueue_def Let_def)
  let ?s1 = "queue_event ?t (Enqueued m') (replay m ?s)"
  have s1: "readQueueRaw ?s1 = [m']" "failed_ids ?s1 = failed_ids s" "sent ?s1 = sent s @ [m]"
    using assms raw by (simp_all add: queue_event_def section_simps readQueue_failed_ids_fresh)
  let ?d = "drop_entry ?t (mu_clientId m) ?s1"
  have d: "readQueueRaw ?d = []" "failed_ids ?d = failed_ids s" "sent ?d = sent s @ [m]"
    using s1 assms by (simp_all add: readQueue_failed_ids_fresh)
  have empty: "rewrite_urls t c i x = x" if "readQueueRaw x = []" for t c i x
    using that by (simp add: section_simps readQueue_def)
  have "drain_step (env 0) m ?s = (True, drain_success ?t m r ?s1)"
    using assms by (simp add: drain_step_def)
  moreover have "readQueueRaw (drain_success ?t m r ?s1) = []
      \<and> failed_ids (drain_success ?t m r ?s1) = failed_ids s \<and> sent (drain_success ?t m r ?s1) = sent s @ [m]"
    using d by (auto simp: drain_success_def Let_def empty split: option.splits)
  ultimately show ?thesis using assms raw read by (simp add: drainQueue_run drain_order_def)
qed

text \<open>A queued write that addresses an entity created offline is replayed with the
  temporary id of that entity: the pass sends the entries it read at its start, and the
  rewriting of temporary ids after the create succeeds reaches only the stored queue.\<close>

theorem drain_sends_stale_child_url:
  assumes "queueKey s = Stored [p, ch]" and "\<not> draining s" and "\<not> isOffline s" and "reconciler s"
    and "mu_method p = ''POST''" and "sends ch" and "mu_createdAt p \<le> mu_createdAt ch"
    and "str_includes (mu_url ch) (mu_clientId p)" and "is_fresh now p" and "is_fresh now ch"
    and "at_during (env 0) = []" and "at_outcome (env 0) = Replayed r"
    and "extractRealId r = Some rid"
  shows "\<exists>c \<in> set (drop (length (sent s)) (sent (drainQueue now env s))).
           c = ch \<and> str_includes (mu_url c) (mu_clientId p)"
proof -
  let ?s = "s\<lparr>draining := True\<rparr>"
  have raw: "readQueueRaw s = [p, ch]" using assms(1) by (simp add: readQueueRaw_def)
  have order: "drain_order [p, ch] = [p, ch]" using assms(7) by (simp add: drain_order_def by_key_def)
  have "sends p" using assms(5) by (simp add: sends_def)
  obtain s' where s': "drain_step (env 0) p ?s = (True, s')" using assms by (simp add: drain_step_def)
  then have "sent s' = sent s @ [p]" using sent_drain_step [of "env 0" p ?s] \<open>sends p\<close> by simp
  moreover obtain go s'' where s'': "drain_step (env 1) ch s' = (go, s'')" by fastforce
  ultimately have "sent s'' = sent s @ [p, ch]"
    using sent_drain_step [of "env 1" ch s'] assms(6) by simp
  moreover have "drainQueue now env s = s''\<lparr>draining := False\<rparr>"
    using assms raw order s' s'' by (auto simp: drainQueue_run readQueue_all_fresh)
  ultimately show ?thesis using assms(8) by simp
qed

text \<open>When several writes expire together, each is shown as failed but only the last one
  is persisted: the un-awaited \<open>persistFailedSync\<close> calls all read the stored list before any
  of them writes it.\<close>

theorem prune_persists_only_last:
  assumes "filter (\<lambda>m. \<not> is_fresh now m) (readQueueRaw s) = ms @ [m]"
    and "persists s = []" and "failedKey s = Stored l"
  shows "failedKey (snd (readQueue now s)) = Stored (upsert_at fi_clientId (failed_of now m expired_msg) l)
    \<and> mu_clientId ` set (ms @ [m]) \<subseteq> failed_ids (snd (readQueue now s))"
proof -
  let ?rec = "fold (recordFailed now expired_msg)"
  have p: "persists (?rec xs t) = persists t @ map (\<lambda>x. (failed_of now x expired_msg, failedKey t)) xs" for xs t
    by (induction xs arbitrary: t) (simp_all add: recordFailed_def Let_def)
  have "set (ms @ [m]) = {x \<in> set (readQueueRaw s). \<not> is_fresh now x}"
    using assms(1) by (metis set_filter)
  then have "mu_clientId ` set (ms @ [m]) \<subseteq> failed_ids (snd (readQueue now s))"
    by (simp add: readQueue_failed_ids)
  moreover have "snd (readQueue now s) =
      settle (writeQueue (filter (is_fresh now) (readQueueRaw s)) (?rec (ms @ [m]) s))"
    using assms(1) by (simp add: readQueue_def Let_def)
  ultimately show ?thesis
    using assms(2,3) p [of ms s] by (simp add: settle_def recordFailed_def Let_def persistFailedSync_def)
qed

text \<open>Retrying a failed write takes it off the list in memory but leaves it in storage,
  so after the next start of the app it is listed as failed again although it was
  queued (and may have been delivered).\<close>

theorem retried_write_reappears:
  assumes "failedKey s = Stored l" and "it \<in> set l" and "isOffline s"
    and "\<forall>m \<in> set (readQueueRaw s). is_fresh now m"
  shows "fi_clientId it \<in> queue_ids (retryFailed now env it s)
    \<and> fi_clientId it \<notin> failed_ids (retryFailed now env it s)
    \<and> fi_clientId it \<in> failed_ids (hydrateFailedSync (retryFailed now env it s))"
proof -
  have hyd: "fi_clientId ` set xs \<subseteq> fi_clientId ` set (failedSync (fold addFailedSync xs u))" for xs u
  proof (induction xs rule: rev_induct)
    case (snoc x xs)
    then show ?case by (auto simp: keys_upsert_last)
  qed simp
  let ?s = "retryFailed now env it s"
  let ?m = "\<lparr>mu_clientId = fi_clientId it, mu_url = fi_url it, mu_method = to_upper (fi_method it),
      mu_body = fi_body it, mu_label = Some (fi_label it), mu_createdAt = now, mu_retries = None\<rparr>"
  let ?q = "upsert_at mu_clientId ?m (readQueueRaw s)"
  have eq: "?s = s\<lparr>queueKey := Stored ?q,
      uiStore := dismissFailedSync (fi_clientId it) (setPendingSync (length ?q) (uiStore s))\<rparr>"
    using assms by (simp add: retryFailed_def Let_def section_simps readQueue_all_fresh isOffline_def
        writeQueue_def updatePendingCount_def)
  have "fi_clientId it \<in> queue_ids ?s"
    unfolding eq queue_ids_def readQueueRaw_def using keys_upsert_at [of mu_clientId ?m] by simp
  moreover have "fi_clientId it \<notin> failed_ids ?s" unfolding eq failed_ids_def by auto
  moreover have "fi_clientId it \<in> failed_ids (hydrateFailedSync ?s)"
    using assms(1,2) hyd [of l "uiStore ?s"] by (auto simp: eq hydrateFailedSync_def failed_ids_def)
  ultimately show ?thesis by blast
qed

definition ex_mutation :: "string \<Rightarrow> string \<Rightarrow> string \<Rightarrow> json \<Rightarrow> int \<Rightarrow> mutation" where
  "ex_mutation c u v b t = \<lparr>mu_clientId = c, mu_url = u, mu_method = v, mu_body = Some b,
     mu_label = None, mu_createdAt = t, mu_retries = None\<rparr>"

definition ex_queue :: "mutation list \<Rightarrow> queue_state" where
  "ex_queue q = \<lparr>queueKey = Stored q, failedKey = Missing, persists = [], uiStore = ui_initial,
     draining = False, reconciler = True, reconciled = [], sent = []\<rparr>"

lemmas ex_queue_simps = ex_queue_def ex_mutation_def readQueueRaw_def isOffline_def ui_initial_def
  is_fresh_def MAX_QUEUE_AGE_MS_def sends_def queue_ids_def

lemma queue_inv_ex: "entries_ok q \<Longrightarrow> queue_inv (ex_queue q)"
  by (simp add: queue_inv_def ex_queue_def readQueueRaw_def ui_inv_initial)

lemma drain_no_silent_drop_witness:
  "let s = ex_queue [ex_mutation ''a'' ''/profiles/1'' ''PUT'' JNull 5];
       env = \<lambda>i. \<lparr>at_during = [OfflineMode True], at_outcome = Rejected None None, at_now = 7\<rparr>
   in ''a'' \<in> queue_ids (drainQueue 6 env s) \<or> ''a'' \<in> failed_ids (drainQueue 6 env s)
     \<or> ''a'' \<in> delivered_ids env 0 (drain_order (filter (is_fresh 6) (readQueueRaw s)))"
  unfolding Let_def by (rule drain_no_silent_drop) (simp_all add: ex_queue_simps)

lemma drain_sends_each_once_in_order_witness:
  "\<exists>rs. sent (drainQueue 6 (\<lambda>i. \<lparr>at_during = [], at_outcome = Replayed JNull, at_now = 7\<rparr>)
             (ex_queue [ex_mutation ''a'' ''/profiles/1'' ''PUT'' JNull 5])) =
        sent (ex_queue [ex_mutation ''a'' ''/profiles/1'' ''PUT'' JNull 5]) @ rs
    \<and> sorted (map mu_createdAt rs) \<and> distinct (map mu_clientId rs)
    \<and> set rs \<subseteq> {m \<in> set (readQueueRaw (ex_queue [ex_mutation ''a'' ''/profiles/1'' ''PUT'' JNull 5])).
                   is_fresh 6 m}"
  by (rule drain_sends_each_once_in_order)
     (rule queue_inv_ex, simp add: entries_ok_def ex_mutation_def retries_of_def MAX_RETRIES_def)

lemma drain_keeps_invariant_witness:
  "queue_inv (drainQueue 6 (\<lambda>i. \<lparr>at_during = [Enqueued (ex_mutation ''b'' ''/u'' ''PUT'' JNull 6)],
      at_outcome = Rejected (Some 503) None, at_now = 7\<rparr>)
    (ex_queue [ex_mutation ''a'' ''/profiles/1'' ''PUT'' JNull 5]))"
  by (rule drain_keeps_invariant)
     (auto intro!: queue_inv_ex simp: entries_ok_def ex_mutation_def retries_of_def MAX_RETRIES_def event_ok_def)

lemma enqueue_last_write_wins_witness:
  "let w1 = ex_mutation ''a'' ''/profiles/1'' ''PUT'' (JNum 1) 5;
       w2 = ex_mutation ''a'' ''/profiles/1'' ''PUT'' (JNum 2) 6
   in lookup_key mu_clientId (readQueueRaw (enqueue_all 7 [w1, w2] (ex_queue []))) ''a'' =
      (case lookup_key mu_clientId (rev [w1, w2]) ''a'' of Some w \<Rightarrow> Some w
       | None \<Rightarrow> lookup_key mu_clientId (readQueueRaw (ex_queue [])) ''a'')
     \<and> unique_keys mu_clientId (readQueueRaw (enqueue_all 7 [w1, w2] (ex_queue [])))"
  unfolding Let_def
  by (rule enqueue_last_write_wins, rule queue_inv_ex) (simp_all add: entries_ok_def ex_queue_simps)

lemma drain_drops_newer_write_witness:
  "let m = ex_mutation ''a'' ''/profiles/1'' ''PUT'' (JNum 1) 5;
       m' = ex_mutation ''a'' ''/profiles/1'' ''PUT'' (JNum 2) 7;
       env = \<lambda>i. \<lparr>at_during = [Enqueued m'], at_outcome = Replayed JNull, at_now = 7\<rparr>
   in readQueueRaw (drainQueue 6 env (ex_queue [m])) = []
     \<and> failed_ids (drainQueue 6 env (ex_queue [m])) = failed_ids (ex_queue [m])
     \<and> sent (drainQueue 6 env (ex_queue [m])) = sent (ex_queue [m]) @ [m]"
  unfolding Let_def
  by (rule drain_drops_newer_write [where m' = "ex_mutation ''a'' ''/profiles/1'' ''PUT'' (JNum 2) 7"
        and r = JNull]) (simp_all add: ex_queue_simps)

lemma drain_sends_stale_child_url_witness:
  "let p = ex_mutation ''t1'' ''/crews/9/polls'' ''POST'' JNull 5;
       ch = ex_mutation ''v'' ''/crews/9/polls/t1/vote'' ''POST'' JNull 6;
       env = \<lambda>i. \<lparr>at_during = [], at_outcome = Replayed (JObj [(''id'', JStr ''p7'')]), at_now = 8\<rparr>
   in \<exists>c \<in> set (drop (length (sent (ex_queue [p, ch]))) (sent (drainQueue 7 env (ex_queue [p, ch])))).
        c = ch \<and> str_includes (mu_url c) (mu_clientId p)"
  unfolding Let_def
  by (rule drain_sends_stale_child_url [where r = "JObj [(''id'', JStr ''p7'')]" and rid = "''p7''"])
     (simp_all add: ex_queue_simps extractRealId_def json_id_def json_field_def)

lemma prune_persists_only_last_witness:
  "let m = ex_mutation ''a'' ''/x'' ''PUT'' JNull 0; m' = ex_mutation ''b'' ''/y'' ''PUT'' JNull 1;
       s = (ex_queue [m, m'])\<lparr>failedKey := Stored []\<rparr>; now = 2 * MAX_QUEUE_AGE_MS
   in failedKey (snd (readQueue now s)) = Stored (upsert_at fi_clientId (failed_of now m' expired_msg) [])
     \<and> mu_clientId ` set ([m] @ [m']) \<subseteq> failed_ids (snd (readQueue now s))"
  unfolding Let_def by (rule prune_persists_only_last) (simp_all add: ex_queue_simps)

lemma retried_write_reappears_witness:
  "let it = failed_of 3 (ex_mutation ''a'' ''/x'' ''PUT'' JNull 0) ''e'';
       s = (ex_queue [])\<lparr>failedKey := Stored [it], uiStore := setOfflineMode True ui_initial\<rparr>;
       s' = retryFailed 4 (\<lambda>i. \<lparr>at_during = [], at_outcome = Replayed JNull, at_now = 5\<rparr>) it s
   in fi_clientId it \<in> queue_ids s' \<and> fi_clientId it \<notin> failed_ids s'
     \<and> fi_clientId it \<in> failed_ids (hydrateFailedSync s')"
  unfolding Let_def
  by (rule retried_write_reappears [where l = "[failed_of 3 (ex_mutation ''a'' ''/x'' ''PUT'' JNull 0) ''e'']"])
     (simp_all add: ex_queue_simps)

end
