(* ===== verification/Web_Queue.thy ===== *)
theory Web_Queue
  imports Offline_Queue
begin

text \<open>
  The web offline queue (\<open>packages/web/src/hooks/useOfflineQueue.ts\<close>): the same contract as
  the mobile queue on IndexedDB, with localStorage as the fallback when IndexedDB fails.

  An IndexedDB transaction is atomic, so each operation of the hook is one function.  The
  object store is the list of its entries in key order with the next key; \<open>idb_up\<close> says
  whether IndexedDB answers, \<open>ls_up\<close> whether localStorage does.  As for the mobile queue, the
  environment of a replay says what happens while a request is in flight and how it ends.
\<close>

datatype entry_kind = Api | Socket

datatype entry_status = Pending | FailedEntry | Completed

record web_entry =
  we_id :: "nat option"
  we_clientId :: string
  we_kind :: entry_kind
  we_url :: "string option"
  we_method :: "string option"
  we_body :: "json option"
  we_event :: "string option"
  we_data :: "json option"
  we_status :: entry_status
  we_retries :: nat
  we_createdAt :: int

record web_state =
  idb_up :: bool
  idb :: "web_entry list"
  idb_next :: nat
  ls_up :: bool
  ls :: "web_entry list stored"
  w_ui :: ui_state
  w_processing :: bool
  w_sent :: "web_entry list"
  w_waits :: "int list"

definition RETRY_BACKOFF_BASE :: int where
  "RETRY_BACKOFF_BASE = 1000"

subsection \<open>Labels\<close>

definition nouns :: "string \<Rightarrow> string option" where
  "nouns = map_of [(''polls'', ''poll''), (''meeting-points'', ''meeting point''),
     (''expenses'', ''expense''), (''members'', ''member''), (''picks'', ''pick''),
     (''notes'', ''note''), (''crews'', ''crew''), (''vote'', ''vote''),
     (''settle'', ''settlement''), (''home-base'', ''home base'')]"

definition deriveFailedLabel :: "string option \<Rightarrow> string option \<Rightarrow> string" where
  "deriveFailedLabel meth url =
     (let m = to_upper (case meth of Some x \<Rightarrow> if x = [] then ''POST'' else x | None \<Rightarrow> ''POST'');
          path = hd (split_char CHR ''?'' (case url of Some u \<Rightarrow> u | None \<Rightarrow> []));
          verb = (if m = ''POST'' then ''Add'' else if m = ''PUT'' \<or> m = ''PATCH'' then ''Update''
                  else if m = ''DELETE'' then ''Remove'' else m);
          segments = filter (\<lambda>w. w \<noteq> []) (split_char CHR ''/'' path)
      in (case List.map_filter nouns (rev segments) of
            noun # _ \<Rightarrow> verb @ '' '' @ noun
          | [] \<Rightarrow> m @ '' '' @ (if path = [] then ''(unknown)'' else path)))"

subsection \<open>Storage\<close>

definition ls_queue :: "web_state \<Rightarrow> web_entry list option" where
  "ls_queue s = (if \<not> ls_up s then None
     else (case ls s of Missing \<Rightarrow> Some [] | Garbage \<Rightarrow> None | Stored q \<Rightarrow> Some q))"

definition ls_write :: "web_entry list \<Rightarrow> web_state \<Rightarrow> web_state" where
  "ls_write q s = s\<lparr>ls := Stored q\<rparr>"

definition stale_item :: "int \<Rightarrow> web_entry \<Rightarrow> failed_item" where
  "stale_item now e =
     \<lparr>fi_clientId = we_clientId e, fi_label = deriveFailedLabel (we_method e) (we_url e),
      fi_method = (case we_method e of Some m \<Rightarrow> m
                   | None \<Rightarrow> (case we_event e of Some v \<Rightarrow> v | None \<Rightarrow> ''POST'')),
      fi_url = (case we_url e of Some u \<Rightarrow> u | None \<Rightarrow> []),
      fi_body = (case we_body e of Some b \<Rightarrow> Some b | None \<Rightarrow> we_data e),
      fi_error = ''Could not sync (older than 24h)'', fi_at = now\<rparr>"

definition surfaceStaleDrop :: "int \<Rightarrow> web_entry \<Rightarrow> web_state \<Rightarrow> web_state" where
  "surfaceStaleDrop now e s =
     (if we_status e \<noteq> Pending then s else s\<lparr>w_ui := addFailedSync (stale_item now e) (w_ui s)\<rparr>)"

definition getPendingCount :: "web_state \<Rightarrow> nat option" where
  "getPendingCount s =
     (if idb_up s then Some (length (filter (\<lambda>e. we_status e = Pending) (idb s)))
      else map_option (\<lambda>q. length (filter (\<lambda>e. we_status e = Pending) q)) (ls_queue s))"

definition w_updatePendingCount :: "web_state \<Rightarrow> web_state" where
  "w_updatePendingCount s =
     (case getPendingCount s of Some n \<Rightarrow> s\<lparr>w_ui := setPendingSync n (w_ui s)\<rparr> | None \<Rightarrow> s)"

definition we_fresh :: "int \<Rightarrow> web_entry \<Rightarrow> bool" where
  "we_fresh now e \<longleftrightarrow> now - we_createdAt e < MAX_QUEUE_AGE_MS"

definition surface_stale :: "int \<Rightarrow> web_entry list \<Rightarrow> web_state \<Rightarrow> web_state" where
  "surface_stale now q s = fold (surfaceStaleDrop now) (filter (\<lambda>e. \<not> we_fresh now e) q) s"

text \<open>\<open>None\<close> is the exception of \<open>JSON.parse\<close> or of localStorage itself.\<close>

definition getAll :: "int \<Rightarrow> web_state \<Rightarrow> (web_entry list \<times> web_state) option" where
  "getAll now s =
     (if idb_up s then Some (filter (we_fresh now) (idb s), surface_stale now (idb s) s)
      else (case ls_queue s of
              None \<Rightarrow> None
            | Some q \<Rightarrow> Some (filter (we_fresh now) q, surface_stale now q s)))"

definition removeMutation :: "nat \<Rightarrow> web_state \<Rightarrow> web_state" where
  "removeMutation i s =
     (if idb_up s then s\<lparr>idb := filter (\<lambda>e. we_id e \<noteq> Some i) (idb s)\<rparr> else s)"

definition removeMutationByClientId :: "string \<Rightarrow> web_state \<Rightarrow> web_state" where
  "removeMutationByClientId c s =
     (case ls_queue s of Some q \<Rightarrow> ls_write (filter (\<lambda>e. we_clientId e \<noteq> c) q) s | None \<Rightarrow> s)"

text \<open>Both updates the code makes set the retries and the pending status.\<close>

definition updateMutationByClientId :: "string \<Rightarrow> nat \<Rightarrow> web_state \<Rightarrow> web_state" where
  "updateMutationByClientId c n s =
     (case ls_queue s of
        None \<Rightarrow> s
      | Some q \<Rightarrow> (case find_index (\<lambda>e. we_clientId e = c) q of
                     Some i \<Rightarrow> ls_write (q[i := (q ! i)\<lparr>we_retries := n, we_status := Pending\<rparr>]) s
                   | None \<Rightarrow> s))"

definition updateMutation :: "nat \<Rightarrow> nat \<Rightarrow> web_state \<Rightarrow> web_state" where
  "updateMutation i n s =
     (if idb_up s
      then s\<lparr>idb := map (\<lambda>e. if we_id e = Some i
                             then e\<lparr>we_retries := n, we_status := Pending\<rparr> else e) (idb s)\<rparr>
      else s)"

text \<open>The IndexedDB path deletes what is strictly older than the limit, the fallback keeps
  what is strictly younger.\<close>

definition pruneStaleEntries :: "int \<Rightarrow> web_state \<Rightarrow> web_state option" where
  "pruneStaleEntries now s =
     (if idb_up s
      then let old = filter (\<lambda>e. MAX_QUEUE_AGE_MS < now - we_createdAt e) (idb s)
           in Some ((fold (surfaceStaleDrop now) old s)
                      \<lparr>idb := filter (\<lambda>e. \<not> MAX_QUEUE_AGE_MS < now - we_createdAt e) (idb s)\<rparr>)
      else (case ls_queue s of
              None \<Rightarrow> None
            | Some q \<Rightarrow> Some (ls_write (filter (we_fresh now) q) (surface_stale now q s))))"

definition clearOfflineQueue :: "web_state \<Rightarrow> web_state" where
  "clearOfflineQueue s = (if idb_up s then s\<lparr>idb := []\<rparr> else s\<lparr>ls := Missing\<rparr>)"

definition w_clearQueue :: "web_state \<Rightarrow> web_state" where
  "w_clearQueue s = (let s' = clearOfflineQueue s in s'\<lparr>w_ui := setPendingSync 0 (w_ui s')\<rparr>)"

subsection \<open>Queueing\<close>

definition new_entry :: "int \<Rightarrow> string \<Rightarrow> nat option \<Rightarrow> web_entry \<Rightarrow> web_entry" where
  "new_entry now c i m = m\<lparr>we_id := i, we_clientId := c, we_status := Pending, we_retries := 0,
     we_createdAt := now\<rparr>"

definition same_pending :: "string \<Rightarrow> web_entry \<Rightarrow> bool" where
  "same_pending c e \<longleftrightarrow> we_clientId e = c \<and> we_status e = Pending"

definition unsaved_item :: "int \<Rightarrow> string \<Rightarrow> web_entry \<Rightarrow> failed_item" where
  "unsaved_item now c m =
     \<lparr>fi_clientId = c, fi_label = deriveFailedLabel (we_method m) (we_url m),
      fi_method = (case we_method m of Some v \<Rightarrow> v | None \<Rightarrow> ''POST''),
      fi_url = (case we_url m of Some u \<Rightarrow> u | None \<Rightarrow> []), fi_body = we_body m,
      fi_error = ''Could not save offline (device storage unavailable)'', fi_at = now\<rparr>"

definition idb_upsert :: "int \<Rightarrow> string \<Rightarrow> web_entry \<Rightarrow> web_state \<Rightarrow> web_state" where
  "idb_upsert now c m s =
     (let kept = (case find (\<lambda>e. same_pending c e \<and> we_id e \<noteq> None) (idb s) of
                    Some old \<Rightarrow> filter (\<lambda>e. we_id e \<noteq> we_id old) (idb s)
                  | None \<Rightarrow> idb s)
      in s\<lparr>idb := kept @ [new_entry now c (Some (idb_next s)) m], idb_next := Suc (idb_next s)\<rparr>)"

definition ls_upsert :: "int \<Rightarrow> string \<Rightarrow> web_entry \<Rightarrow> web_entry list \<Rightarrow> web_entry list" where
  "ls_upsert now c m q =
     (case find_index (same_pending c) q of Some i \<Rightarrow> take i q @ drop (Suc i) q | None \<Rightarrow> q)
       @ [new_entry now c None m]"

text \<open>\<open>gen\<close> is the random client id of \<open>generateClientId\<close>.\<close>

definition queueMutation :: "int \<Rightarrow> string \<Rightarrow> web_entry \<Rightarrow> web_state \<Rightarrow> string \<times> web_state" where
  "queueMutation now gen m s =
     (let c = (if we_clientId m = [] then gen else we_clientId m)
      in (c, if idb_up s then w_updatePendingCount (idb_upsert now c m s)
             else (case ls_queue s of
                     Some q \<Rightarrow> w_updatePendingCount (ls_write (ls_upsert now c m q) s)
                   | None \<Rightarrow> s\<lparr>w_ui := addFailedSync (unsaved_item now c m) (w_ui s)\<rparr>)))"

subsection \<open>Replaying\<close>

datatype web_outcome = WOk | WErr "int option" "string option"

datatype web_event = Queued string web_entry | IdbGone

record web_attempt =
  wa_during :: "web_event list"
  wa_outcome :: web_outcome
  wa_now :: int

definition web_event :: "int \<Rightarrow> web_event \<Rightarrow> web_state \<Rightarrow> web_state" where
  "web_event now v s = (case v of Queued gen m \<Rightarrow> snd (queueMutation now gen m s)
                        | IdbGone \<Rightarrow> s\<lparr>idb_up := False\<rparr>)"

definition drop_web_entry :: "web_entry \<Rightarrow> web_state \<Rightarrow> web_state" where
  "drop_web_entry e s =
     (case we_id e of Some i \<Rightarrow> if i \<noteq> 0 then removeMutation i s else removeMutationByClientId (we_clientId e) s
      | None \<Rightarrow> removeMutationByClientId (we_clientId e) s)"

definition bump_web_entry :: "web_entry \<Rightarrow> nat \<Rightarrow> web_state \<Rightarrow> web_state" where
  "bump_web_entry e n s =
     (case we_id e of Some i \<Rightarrow> if i \<noteq> 0 then updateMutation i n s else updateMutationByClientId (we_clientId e) n s
      | None \<Rightarrow> updateMutationByClientId (we_clientId e) n s)"

definition failed_web_item :: "int \<Rightarrow> int option \<Rightarrow> string option \<Rightarrow> web_entry \<Rightarrow> failed_item" where
  "failed_web_item now st msg e =
     \<lparr>fi_clientId = we_clientId e, fi_label = deriveFailedLabel (we_method e) (we_url e),
      fi_method = (case we_method e of Some v \<Rightarrow> v | None \<Rightarrow> ''POST''),
      fi_url = (case we_url e of Some u \<Rightarrow> u | None \<Rightarrow> []), fi_body = we_body e,
      fi_error = (if st = Some 409 then ''Conflict''
                  else (case msg of Some t \<Rightarrow> if t = [] then ''Sync failed'' else t | None \<Rightarrow> ''Sync failed'')),
      fi_at = now\<rparr>"

definition web_failure :: "int \<Rightarrow> int option \<Rightarrow> string option \<Rightarrow> web_entry \<Rightarrow> web_state \<Rightarrow> web_state" where
  "web_failure now st msg e s =
     (let retries = we_retries e + 1;
          isClientError = (case st of Some n \<Rightarrow> 400 \<le> n \<and> n < 500 | None \<Rightarrow> False);
          isConflict = (st = Some 409)
      in if isConflict \<or> MAX_RETRIES \<le> retries \<or> isClientError
         then drop_web_entry e (s\<lparr>w_ui := addFailedSync (failed_web_item now st msg e) (w_ui s)\<rparr>)
         else let s' = bump_web_entry e retries s
              in s'\<lparr>w_waits := w_waits s' @ [RETRY_BACKOFF_BASE * 2 ^ (retries - 1)]\<rparr>)"

text \<open>An entry is replayed when it is an API call with a URL or a socket event with a name.\<close>

definition is_truthy :: "string option \<Rightarrow> bool" where
  "is_truthy x = (case x of Some t \<Rightarrow> t \<noteq> [] | None \<Rightarrow> False)"

definition replayable :: "web_entry \<Rightarrow> bool" where
  "replayable e = (case we_kind e of Api \<Rightarrow> is_truthy (we_url e) | Socket \<Rightarrow> is_truthy (we_event e))"

definition web_step :: "bool \<Rightarrow> web_attempt \<Rightarrow> web_entry \<Rightarrow> web_state \<Rightarrow> web_state" where
  "web_step hasSocket a e s =
     (if \<not> replayable e then s
      else if we_kind e = Socket \<and> \<not> hasSocket
      then web_failure (wa_now a) None (Some ''socketEmitFn not provided'') e s
      else let s1 = fold (web_event (wa_now a)) (wa_during a) (s\<lparr>w_sent := w_sent s @ [e]\<rparr>)
           in (case wa_outcome a of
                 WOk \<Rightarrow> drop_web_entry e s1
               | WErr st msg \<Rightarrow> web_failure (wa_now a) st msg e s1))"

fun web_loop :: "bool \<Rightarrow> (nat \<Rightarrow> web_attempt) \<Rightarrow> nat \<Rightarrow> web_entry list \<Rightarrow> web_state \<Rightarrow> web_state" where
  "web_loop hs env i [] s = s"
| "web_loop hs env i (e # es) s = web_loop hs env (Suc i) es (web_step hs (env i) e s)"

definition processQueue :: "int \<Rightarrow> bool \<Rightarrow> (nat \<Rightarrow> web_attempt) \<Rightarrow> web_state \<Rightarrow> web_state" where
  "processQueue now hs env s =
     (if w_processing s then s
      else let s1 = s\<lparr>w_processing := True\<rparr>;
               s2 = (case getAll now s1 of
                       None \<Rightarrow> s1
                     | Some (all, s') \<Rightarrow>
                         web_loop hs env 0
                           (js_sort (by_key we_createdAt) (filter (\<lambda>e. we_status e = Pending) all)) s')
           in w_updatePendingCount (s2\<lparr>w_processing := False\<rparr>))"

subsection \<open>Accounting for every queued write\<close>

definition pending_ids :: "web_entry list \<Rightarrow> string set" where
  "pending_ids q = we_clientId ` set (filter (\<lambda>e. we_status e = Pending) q)"

definition ls_entries :: "web_state \<Rightarrow> web_entry list" where
  "ls_entries s = (case ls s of Stored q \<Rightarrow> q | _ \<Rightarrow> [])"

definition web_tracked :: "web_state \<Rightarrow> string set" where
  "web_tracked s = pending_ids (idb s) \<union> pending_ids (ls_entries s)
     \<union> fi_clientId ` set (failedSync (w_ui s))"

text \<open>Keys of the object store are unique and below the next one, so that a key names one
  write for good.\<close>

definition web_inv :: "web_state \<Rightarrow> bool" where
  "web_inv s \<longleftrightarrow> unique_keys we_id (idb s)
     \<and> (\<forall>e \<in> set (idb s). we_id e \<in> Some ` {0<..<idb_next s})
     \<and> (\<forall>e \<in> set (ls_entries s). we_id e = None)"

definition names_entry :: "web_entry \<Rightarrow> web_state \<Rightarrow> bool" where
  "names_entry e s \<longleftrightarrow> we_id e = None \<or>
     we_id e \<in> Some ` {0<..<idb_next s} \<and> (\<forall>x \<in> set (idb s). we_id x = we_id e \<longrightarrow> we_clientId x = we_clientId e)"

lemma pending_ids_simps [simp]:
  "pending_ids [] = {}"
  "pending_ids (xs @ ys) = pending_ids xs \<union> pending_ids ys"
  "pending_ids [e] = (if we_status e = Pending then {we_clientId e} else {})"
  by (auto simp: pending_ids_def)

lemma pending_ids_filter:
  "(\<And>e. e \<in> set q \<Longrightarrow> \<not> P e \<Longrightarrow> we_clientId e = c) \<Longrightarrow> pending_ids q \<subseteq> pending_ids (filter P q) \<union> {c}"
  by (auto simp: pending_ids_def)

lemma pending_ids_map:
  "(\<And>e. we_clientId (f e) = we_clientId e \<and> (we_status e = Pending \<longrightarrow> we_status (f e) = Pending)) \<Longrightarrow>
   pending_ids q \<subseteq> pending_ids (map f q)"
  by (force simp: pending_ids_def image_iff)

lemma ls_queue_entries: "ls_queue s = Some q \<Longrightarrow> ls_entries s = q"
  by (auto simp: ls_queue_def ls_entries_def split: if_splits stored.splits)

lemma ls_write_simps [simp]:
  "ls_entries (ls_write q s) = q" "idb (ls_write q s) = idb s" "w_ui (ls_write q s) = w_ui s"
  "idb_next (ls_write q s) = idb_next s" "w_sent (ls_write q s) = w_sent s"
  "idb_up (ls_write q s) = idb_up s"
  by (simp_all add: ls_write_def ls_entries_def)

lemma w_updatePendingCount_simps [simp]:
  "idb (w_updatePendingCount s) = idb s" "ls_entries (w_updatePendingCount s) = ls_entries s"
  "idb_next (w_updatePendingCount s) = idb_next s" "w_sent (w_updatePendingCount s) = w_sent s"
  "failedSync (w_ui (w_updatePendingCount s)) = failedSync (w_ui s)"
  "idb_up (w_updatePendingCount s) = idb_up s" "ls (w_updatePendingCount s) = ls s"
  by (auto simp: w_updatePendingCount_def ls_entries_def split: option.splits)

lemma web_tracked_updatePending [simp]: "web_tracked (w_updatePendingCount s) = web_tracked s"
  by (simp add: web_tracked_def)

lemma drop_bump_simps [simp]:
  "w_ui (drop_web_entry e s) = w_ui s" "w_ui (bump_web_entry e n s) = w_ui s"
  "w_sent (drop_web_entry e s) = w_sent s" "w_sent (bump_web_entry e n s) = w_sent s"
  "idb_next (drop_web_entry e s) = idb_next s" "idb_next (bump_web_entry e n s) = idb_next s"
  "idb_up (drop_web_entry e s) = idb_up s" "idb_up (bump_web_entry e n s) = idb_up s"
  by (auto simp: drop_web_entry_def bump_web_entry_def removeMutation_def removeMutationByClientId_def
      updateMutation_def updateMutationByClientId_def split: option.splits)

lemma drop_tracked:
  assumes "names_entry e s" shows "web_tracked s \<subseteq> web_tracked (drop_web_entry e s) \<union> {we_clientId e}"
proof -
  have byid: "web_tracked s \<subseteq> web_tracked (removeMutation i s) \<union> {we_clientId e}" if "we_id e = Some i" for i
  proof -
    have "pending_ids (idb s) \<subseteq> pending_ids (filter (\<lambda>x. we_id x \<noteq> Some i) (idb s)) \<union> {we_clientId e}"
      using assms that by (intro pending_ids_filter) (auto simp: names_entry_def)
    then show ?thesis by (auto simp: removeMutation_def web_tracked_def ls_entries_def)
  qed
  have bycid: "web_tracked s \<subseteq> web_tracked (removeMutationByClientId c s) \<union> {c}" for c
  proof (cases "ls_queue s")
    case (Some q)
    have "pending_ids q \<subseteq> pending_ids (filter (\<lambda>e. we_clientId e \<noteq> c) q) \<union> {c}"
      by (rule pending_ids_filter) simp
    with Some show ?thesis
      by (auto simp: removeMutationByClientId_def web_tracked_def ls_queue_entries)
  qed (simp add: removeMutationByClientId_def subset_insertI2)
  show ?thesis using byid bycid by (auto simp: drop_web_entry_def split: option.splits)
qed

lemma bump_tracked: "web_tracked s \<subseteq> web_tracked (bump_web_entry e n s)"
proof -
  let ?b = "\<lambda>e. e\<lparr>we_retries := n, we_status := Pending\<rparr>"
  have byid: "web_tracked s \<subseteq> web_tracked (updateMutation i n s)" for i
  proof -
    have "pending_ids (idb s) \<subseteq> pending_ids (map (\<lambda>e. if we_id e = Some i then ?b e else e) (idb s))"
      by (rule pending_ids_map) simp
    then show ?thesis by (auto simp: updateMutation_def web_tracked_def ls_entries_def)
  qed
  have upd: "pending_ids q \<subseteq> pending_ids (q[i := ?b (q ! i)])" if "i < length q" for q i
  proof
    fix c assume "c \<in> pending_ids q"
    then obtain k where k: "k < length q" "we_clientId (q ! k) = c" "we_status (q ! k) = Pending"
      by (auto simp: pending_ids_def in_set_conv_nth)
    let ?q = "q[i := ?b (q ! i)]"
    have "k < length ?q" "we_clientId (?q ! k) = c" "we_status (?q ! k) = Pending"
      using k that by (auto simp: nth_list_update)
    then show "c \<in> pending_ids ?q" by (force simp: pending_ids_def in_set_conv_nth)
  qed
  have bycid: "web_tracked s \<subseteq> web_tracked (updateMutationByClientId c n s)" for c
  proof (cases "ls_queue s")
    case (Some q)
    show ?thesis
    proof (cases "find_index (\<lambda>e. we_clientId e = c) q")
      case (Some i)
      then have "i < length q" using find_index_Some by fast
      from upd [OF this] Some \<open>ls_queue s = Some q\<close> ls_queue_entries [OF \<open>ls_queue s = Some q\<close>]
      show ?thesis unfolding updateMutationByClientId_def web_tracked_def by auto
    qed (simp add: updateMutationByClientId_def \<open>ls_queue s = Some q\<close>)
  qed (simp add: updateMutationByClientId_def)
  show ?thesis using byid bycid by (auto simp: bump_web_entry_def split: option.splits)
qed

lemma web_failure_tracked:
  assumes "names_entry e s" shows "web_tracked s \<subseteq> web_tracked (web_failure now st msg e s)"
proof -
  let ?s = "s\<lparr>w_ui := addFailedSync (failed_web_item now st msg e) (w_ui s)\<rparr>"
  have surf: "web_tracked s \<union> {we_clientId e} \<subseteq> web_tracked ?s"
    using keys_upsert_last [of fi_clientId "failed_web_item now st msg e"]
    by (auto simp: web_tracked_def ls_entries_def failed_web_item_def)
  have kept: "we_clientId e \<in> fi_clientId ` set (failedSync (w_ui (drop_web_entry e ?s)))"
    by (auto simp: keys_upsert_last failed_web_item_def simp del: list.set_map)
  have "names_entry e ?s" using assms by (simp add: names_entry_def split: option.splits)
  moreover have "we_clientId e \<in> web_tracked (drop_web_entry e ?s)"
    using kept unfolding web_tracked_def by blast
  ultimately have "web_tracked s \<subseteq> web_tracked (drop_web_entry e ?s)"
    using drop_tracked [of e ?s] surf by blast
  moreover have "web_tracked s \<subseteq> web_tracked ((bump_web_entry e n s)\<lparr>w_waits := w\<rparr>)" for n w
    using bump_tracked [of s e n] by (simp add: web_tracked_def ls_entries_def)
  ultimately show ?thesis by (auto simp: web_failure_def Let_def)
qed


lemma surface_stale_simps [simp]:
  "idb (surface_stale now q s) = idb s" "ls_entries (surface_stale now q s) = ls_entries s"
  "idb_next (surface_stale now q s) = idb_next s" "idb_up (surface_stale now q s) = idb_up s"
  "w_sent (surface_stale now q s) = w_sent s" "ls (surface_stale now q s) = ls s"
  "ls_up (surface_stale now q s) = ls_up s"
proof -
  have "idb (fold (surfaceStaleDrop now) xs s) = idb s
      \<and> ls (fold (surfaceStaleDrop now) xs s) = ls s \<and> idb_next (fold (surfaceStaleDrop now) xs s) = idb_next s
      \<and> idb_up (fold (surfaceStaleDrop now) xs s) = idb_up s
      \<and> ls_up (fold (surfaceStaleDrop now) xs s) = ls_up s
      \<and> w_sent (fold (surfaceStaleDrop now) xs s) = w_sent s" for xs
    by (induction xs arbitrary: s) (auto simp: surfaceStaleDrop_def)
  then show "idb (surface_stale now q s) = idb s" "ls_entries (surface_stale now q s) = ls_entries s"
    "idb_next (surface_stale now q s) = idb_next s" "idb_up (surface_stale now q s) = idb_up s"
    "w_sent (surface_stale now q s) = w_sent s" "ls (surface_stale now q s) = ls s"
    "ls_up (surface_stale now q s) = ls_up s"
    by (simp_all add: surface_stale_def ls_entries_def)
qed

lemma surface_stale_tracked: "web_tracked s \<subseteq> web_tracked (surface_stale now q s)"
proof -
  have "fi_clientId ` set (failedSync (w_ui t)) \<subseteq> fi_clientId ` set (failedSync (w_ui (fold (surfaceStaleDrop now) xs t)))" for xs t
  proof (induction xs arbitrary: t)
    case (Cons x xs)
    have "fi_clientId ` set (failedSync (w_ui t)) \<subseteq> fi_clientId ` set (failedSync (w_ui (surfaceStaleDrop now x t)))"
      by (auto simp: surfaceStaleDrop_def keys_upsert_last simp del: list.set_map)
    with Cons.IH [of "surfaceStaleDrop now x t"] show ?case by simp
  qed simp
  then show ?thesis unfolding web_tracked_def by (auto simp: surface_stale_def [symmetric])
     (simp add: surface_stale_def image_subset_iff)
qed

subsection \<open>The object store's invariant\<close>

lemma web_inv_updatePending [simp]: "web_inv (w_updatePendingCount s) = web_inv s"
  by (simp add: web_inv_def)

lemma web_inv_filter:
  "web_inv s \<Longrightarrow> idb s' = filter P (idb s) \<Longrightarrow> idb_next s' = idb_next s \<Longrightarrow>
   set (ls_entries s') \<subseteq> set (ls_entries s) \<Longrightarrow> web_inv s'"
  by (auto simp: web_inv_def distinct_map_filter)

lemma filter_True_eq: "xs = filter (\<lambda>_. True) xs" by simp

lemma web_inv_drop [inv_intros]: "web_inv s \<Longrightarrow> web_inv (drop_web_entry e s)"
  by (auto simp: drop_web_entry_def removeMutation_def removeMutationByClientId_def web_inv_def
      distinct_map_filter ls_entries_def ls_write_def dest: ls_queue_entries split: option.splits)

lemma web_inv_bump [inv_intros]: "web_inv s \<Longrightarrow> web_inv (bump_web_entry e n s)"
proof -
  assume inv: "web_inv s"
  have "web_inv (updateMutation i n s)" for i
  proof -
    have "map we_id (map (\<lambda>e. if we_id e = Some i then e\<lparr>we_retries := n, we_status := Pending\<rparr> else e) (idb s))
        = map we_id (idb s)" by simp
    with inv show ?thesis by (auto simp: updateMutation_def web_inv_def ls_entries_def simp del: map_map)
  qed
  moreover have "web_inv (updateMutationByClientId c n s)" for c
  proof (cases "ls_queue s")
    case (Some q)
    have "\<forall>e \<in> set (q[i := (q ! i)\<lparr>we_retries := n, we_status := Pending\<rparr>]). we_id e = None" if "i < length q" for i
      using inv that set_update_subset_insert [of q i] ls_queue_entries [OF Some]
      by (force simp: web_inv_def)
    with inv Some show ?thesis
      by (auto simp: updateMutationByClientId_def web_inv_def dest: find_index_Some split: option.splits)
  qed (simp add: updateMutationByClientId_def inv)
  ultimately show ?thesis by (simp add: bump_web_entry_def split: option.splits)
qed


lemma web_inv_failure [inv_intros]: "web_inv s \<Longrightarrow> web_inv (web_failure now st msg e s)"
proof -
  assume inv: "web_inv s"
  have ui: "web_inv (t\<lparr>w_ui := u\<rparr>) = web_inv t" "web_inv (t\<lparr>w_waits := w\<rparr>) = web_inv t" for t u w
    by (simp_all add: web_inv_def ls_entries_def)
  show ?thesis by (simp add: web_failure_def Let_def ui inv web_inv_drop web_inv_bump)
qed

lemma idb_upsert_simps:
  "idb_next (idb_upsert now c m s) = Suc (idb_next s)"
  "ls_entries (idb_upsert now c m s) = ls_entries s"
  "w_ui (idb_upsert now c m s) = w_ui s"
  "\<exists>P. idb (idb_upsert now c m s) = filter P (idb s) @ [new_entry now c (Some (idb_next s)) m]"
  by (auto simp: idb_upsert_def Let_def ls_entries_def intro: filter_True_eq split: option.splits)

lemma web_inv_idb_upsert: "web_inv s \<Longrightarrow> 0 < idb_next s \<Longrightarrow> web_inv (idb_upsert now c m s)"
proof -
  assume inv: "web_inv s" and pos: "0 < idb_next s"
  obtain P where "idb (idb_upsert now c m s) = filter P (idb s) @ [new_entry now c (Some (idb_next s)) m]"
    using idb_upsert_simps(4) by blast
  with inv pos show ?thesis
    by (auto simp: web_inv_def distinct_map_filter idb_upsert_simps(1-3) new_entry_def)
qed

lemma set_ls_upsert: "set (ls_upsert now c m q) \<subseteq> insert (new_entry now c None m) (set q)"
  using set_take_subset set_drop_subset by (fastforce simp: ls_upsert_def split: option.splits)

lemma web_inv_queueMutation [inv_intros]:
  "web_inv s \<Longrightarrow> 0 < idb_next s \<Longrightarrow> web_inv (snd (queueMutation now gen m s))"
proof -
  assume inv: "web_inv s" "0 < idb_next s"
  have "web_inv (ls_write (ls_upsert now c m q) s)" if "ls_queue s = Some q" for c q
    using inv set_ls_upsert [of now c m q] ls_queue_entries [OF that]
    by (auto simp: web_inv_def new_entry_def)
  moreover have "web_inv (s\<lparr>w_ui := u\<rparr>)" for u
    using inv by (simp add: web_inv_def ls_entries_def)
  ultimately show ?thesis
    using inv by (auto simp: queueMutation_def Let_def web_inv_idb_upsert split: option.splits)
qed

lemma queueMutation_tracked:
  assumes "web_inv s" shows "web_tracked s \<subseteq> web_tracked (snd (queueMutation now gen m s))"
proof -
  have idb: "pending_ids (idb s) \<subseteq> pending_ids (idb (idb_upsert now c m s))" for c
  proof (cases "find (\<lambda>e. same_pending c e \<and> we_id e \<noteq> None) (idb s)")
    case (Some old)
    then have old: "old \<in> set (idb s)" "same_pending c old" by (auto simp: find_Some_iff)
    have "pending_ids (idb s) \<subseteq> pending_ids (filter (\<lambda>e. we_id e \<noteq> we_id old) (idb s)) \<union> {c}"
    proof (rule pending_ids_filter)
      fix e assume "e \<in> set (idb s)" "\<not> we_id e \<noteq> we_id old"
      with assms old(1) have "e = old" unfolding web_inv_def by (meson inj_onD distinct_map)
      with old show "we_clientId e = c" by (simp add: same_pending_def)
    qed
    with Some show ?thesis by (auto simp: idb_upsert_def Let_def new_entry_def)
  qed (simp add: idb_upsert_def Let_def)
  have lse: "pending_ids q \<subseteq> pending_ids (ls_upsert now c m q)" for q c
  proof (cases "find_index (same_pending c) q")
    case (Some i)
    then have i: "i < length q" "same_pending c (q ! i)" using find_index_Some by fast+
    have "q = take i q @ q ! i # drop (Suc i) q" using id_take_nth_drop [OF i(1)] .
    then have "pending_ids q = pending_ids (take i q) \<union> pending_ids [q ! i] \<union> pending_ids (drop (Suc i) q)"
      by (metis Un_assoc append_Cons append_Nil pending_ids_simps(2))
    with Some i show ?thesis by (auto simp: ls_upsert_def new_entry_def same_pending_def)
  qed (simp add: ls_upsert_def)
  have "web_tracked s \<subseteq> web_tracked (ls_write (ls_upsert now c m q) s)" if "ls_queue s = Some q" for c q
    using lse [of q c] ls_queue_entries [OF that] by (auto simp: web_tracked_def)
  moreover have "web_tracked s \<subseteq> web_tracked (idb_upsert now c m s)" for c
    using idb [of c] by (auto simp: web_tracked_def idb_upsert_simps(1-3))
  moreover have "web_tracked s \<subseteq> web_tracked (s\<lparr>w_ui := addFailedSync f (w_ui s)\<rparr>)" for f
    by (auto simp: web_tracked_def ls_entries_def keys_upsert_last simp del: list.set_map)
  ultimately show ?thesis
    by (auto simp: queueMutation_def Let_def split: option.splits)
qed


text \<open>An entry read from the store keeps naming the same write.\<close>

lemma names_entry_mono:
  assumes "names_entry e s" "idb_next s \<le> idb_next s'"
    and "\<And>x. x \<in> set (idb s') \<Longrightarrow> we_id x = Some (idb_next s)
          \<or> (\<exists>y \<in> set (idb s). we_id y = we_id x \<and> we_clientId y = we_clientId x)"
  shows "names_entry e s'"
  using assms by (fastforce simp: names_entry_def)

lemma idb_drop_bump:
  "x \<in> set (idb (drop_web_entry e s)) \<Longrightarrow> x \<in> set (idb s)"
  "x \<in> set (idb (bump_web_entry e n s)) \<Longrightarrow> \<exists>y \<in> set (idb s). we_id y = we_id x \<and> we_clientId y = we_clientId x"
  by (auto simp: drop_web_entry_def bump_web_entry_def removeMutation_def updateMutation_def
      removeMutationByClientId_def updateMutationByClientId_def split: option.splits if_splits)

lemma names_entry_drop: "names_entry e s \<Longrightarrow> names_entry e (drop_web_entry d s)"
  by (erule names_entry_mono) (auto dest: idb_drop_bump)

lemma names_entry_bump: "names_entry e s \<Longrightarrow> names_entry e (bump_web_entry d n s)"
  by (erule names_entry_mono) (auto dest: idb_drop_bump)

lemma names_entry_upd [simp]:
  "names_entry e (s\<lparr>w_ui := u\<rparr>) = names_entry e s" "names_entry e (s\<lparr>w_waits := w\<rparr>) = names_entry e s"
  "names_entry e (s\<lparr>w_sent := t\<rparr>) = names_entry e s" "names_entry e (s\<lparr>idb_up := b\<rparr>) = names_entry e s"
  "names_entry e (s\<lparr>w_processing := b\<rparr>) = names_entry e s"
  by (simp_all add: names_entry_def)

lemma names_entry_failure: "names_entry e s \<Longrightarrow> names_entry e (web_failure now st msg d s)"
  by (simp add: web_failure_def Let_def names_entry_drop names_entry_bump)

lemma names_entry_queueMutation:
  "names_entry e s \<Longrightarrow> names_entry e (snd (queueMutation now gen m s))"
proof -
  assume n: "names_entry e s"
  have "names_entry e (idb_upsert now c m s)" for c
  proof (rule names_entry_mono [OF n])
    fix x assume x: "x \<in> set (idb (idb_upsert now c m s))"
    obtain P where "idb (idb_upsert now c m s) = filter P (idb s) @ [new_entry now c (Some (idb_next s)) m]"
      using idb_upsert_simps(4) by blast
    with x show "we_id x = Some (idb_next s)
        \<or> (\<exists>y \<in> set (idb s). we_id y = we_id x \<and> we_clientId y = we_clientId x)"
      by (auto simp: new_entry_def)
  qed (simp add: idb_upsert_simps)
  moreover have "names_entry e (ls_write q s)" for q using n by (simp add: names_entry_def)
  moreover have "names_entry e (w_updatePendingCount t) = names_entry e t" for t
    by (simp add: names_entry_def)
  ultimately show ?thesis using n by (auto simp: queueMutation_def Let_def split: option.splits)
qed

definition web_ok :: "web_entry list \<Rightarrow> web_state \<Rightarrow> bool" where
  "web_ok es s \<longleftrightarrow> web_inv s \<and> 0 < idb_next s \<and> (\<forall>e \<in> set es. names_entry e s)"

lemma web_ok_upd [simp]:
  "web_ok es (s\<lparr>w_sent := t\<rparr>) = web_ok es s" "web_ok es (s\<lparr>idb_up := b\<rparr>) = web_ok es s"
  "web_ok es (s\<lparr>w_processing := b\<rparr>) = web_ok es s"
  by (simp_all add: web_ok_def web_inv_def ls_entries_def)

lemma queueMutation_next: "idb_next s \<le> idb_next (snd (queueMutation now gen m s))"
  by (simp add: queueMutation_def Let_def idb_upsert_simps split: option.splits)

lemma web_ok_event: "web_ok es s \<Longrightarrow> web_ok es (web_event now v s)"
proof (cases v)
  case (Queued gen m)
  assume "web_ok es s"
  then show ?thesis
    using Queued queueMutation_next [of s now gen m]
    by (auto simp: web_event_def web_ok_def names_entry_queueMutation web_inv_queueMutation
        simp del: in_set_conv_decomp)
qed (simp add: web_event_def)

lemma web_ok_events: "web_ok es s \<Longrightarrow> web_ok es (fold (web_event now) vs s)"
  by (induction vs arbitrary: s) (auto intro: web_ok_event)

lemma web_tracked_event: "web_ok es s \<Longrightarrow> web_tracked s \<subseteq> web_tracked (web_event now v s)"
  by (cases v) (auto simp: web_event_def web_ok_def dest: queueMutation_tracked,
      auto simp: web_tracked_def ls_entries_def)

lemma web_tracked_events: "web_ok es s \<Longrightarrow> web_tracked s \<subseteq> web_tracked (fold (web_event now) vs s)"
proof (induction vs arbitrary: s)
  case (Cons v vs)
  show ?case using web_tracked_event [OF Cons.prems] Cons.IH [OF web_ok_event [OF Cons.prems]]
    by (metis dual_order.trans fold_simps(2))
qed simp

definition web_delivered :: "bool \<Rightarrow> web_attempt \<Rightarrow> web_entry \<Rightarrow> bool" where
  "web_delivered hs a e \<longleftrightarrow> replayable e \<and> (we_kind e = Socket \<longrightarrow> hs)
     \<and> (case wa_outcome a of WOk \<Rightarrow> True | WErr _ _ \<Rightarrow> False)"

fun web_delivered_ids :: "bool \<Rightarrow> (nat \<Rightarrow> web_attempt) \<Rightarrow> nat \<Rightarrow> web_entry list \<Rightarrow> string set" where
  "web_delivered_ids hs env i [] = {}"
| "web_delivered_ids hs env i (e # es) =
     (if web_delivered hs (env i) e then {we_clientId e} else {}) \<union> web_delivered_ids hs env (Suc i) es"

lemma web_step_ok: "web_ok (e # es) s \<Longrightarrow> web_ok (e # es) (web_step hs a e s)"
proof -
  assume ok: "web_ok (e # es) s"
  have d: "web_ok (e # es) t \<Longrightarrow> web_ok (e # es) (drop_web_entry e t)" for t
    by (auto simp: web_ok_def names_entry_drop web_inv_drop)
  have n: "idb_next (web_failure now st msg e t) = idb_next t" for now st msg t
    by (simp add: web_failure_def Let_def)
  have f: "web_ok (e # es) t \<Longrightarrow> web_ok (e # es) (web_failure now st msg e t)" for t now st msg
    by (auto simp: web_ok_def names_entry_failure web_inv_failure n)
  show ?thesis
    using ok web_ok_events [of "e # es" "s\<lparr>w_sent := w_sent s @ [e]\<rparr>" "wa_now a" "wa_during a"]
    by (auto simp: web_step_def Let_def intro: d f split: web_outcome.splits)
qed

lemma web_step_tracked:
  assumes "web_ok (e # es) s"
  shows "web_tracked s \<subseteq> web_tracked (web_step hs a e s)
           \<union> (if web_delivered hs a e then {we_clientId e} else {})"
proof -
  let ?t = "s\<lparr>w_sent := w_sent s @ [e]\<rparr>"
  let ?s = "fold (web_event (wa_now a)) (wa_during a) ?t"
  have ok: "web_ok (e # es) ?s" using assms by (simp add: web_ok_events)
  then have n: "names_entry e ?s" by (simp add: web_ok_def)
  have "web_tracked s = web_tracked ?t" by (simp add: web_tracked_def ls_entries_def)
  also have "\<dots> \<subseteq> web_tracked ?s" using assms by (intro web_tracked_events) simp
  finally have sub: "web_tracked s \<subseteq> web_tracked ?s" .
  have "names_entry e s" using assms by (simp add: web_ok_def)
  with sub n drop_tracked [OF n] show ?thesis
    using web_failure_tracked [OF n] web_failure_tracked [of e s]
    by (cases "wa_outcome a") (fastforce simp: web_step_def Let_def web_delivered_def)+
qed

lemma web_loop_tracked:
  "web_ok es s \<Longrightarrow> web_tracked s \<subseteq> web_tracked (web_loop hs env i es s) \<union> web_delivered_ids hs env i es"
proof (induction es arbitrary: i s)
  case (Cons e es)
  have "web_ok es (web_step hs (env i) e s)"
    using web_step_ok [OF Cons.prems] by (simp add: web_ok_def)
  from Cons.IH [OF this, of "Suc i"] web_step_tracked [OF Cons.prems, of hs "env i"]
  show ?case by auto
qed simp


definition process_order :: "int \<Rightarrow> web_state \<Rightarrow> web_entry list" where
  "process_order now s = (case getAll now s of
       None \<Rightarrow> [] | Some (all, _) \<Rightarrow> js_sort (by_key we_createdAt) (filter (\<lambda>e. we_status e = Pending) all))"

lemma web_ok_getAll:
  assumes "web_inv s" "0 < idb_next s" "getAll now s = Some (all, s')"
  shows "web_ok all s' \<and> web_tracked s \<subseteq> web_tracked s'"
proof -
  have ok: "web_ok q (surface_stale now q' s)" if q: "\<forall>e \<in> set q. names_entry e s" for q q'
  proof -
    have "names_entry e (surface_stale now q' s) = names_entry e s" for e by (simp add: names_entry_def)
    with q assms(1,2) show ?thesis by (simp add: web_ok_def web_inv_def)
  qed
  have idb: "\<forall>e \<in> set (filter (we_fresh now) (idb s)). names_entry e s"
  proof
    fix e assume "e \<in> set (filter (we_fresh now) (idb s))"
    then have e: "e \<in> set (idb s)" by simp
    have "we_id x = we_id e \<longrightarrow> we_clientId x = we_clientId e" if "x \<in> set (idb s)" for x
      using assms(1) e that unfolding web_inv_def by (metis distinct_map inj_onD)
    moreover have "we_id e \<in> Some ` {0<..<idb_next s}" using assms(1) e unfolding web_inv_def by blast
    ultimately show "names_entry e s" unfolding names_entry_def by blast
  qed
  have lsq: "\<forall>e \<in> set (filter (we_fresh now) q). names_entry e s" if "ls_queue s = Some q" for q
    using assms(1) ls_queue_entries [OF that] by (auto simp: names_entry_def web_inv_def)
  obtain q' where "s' = surface_stale now q' s" "\<forall>e \<in> set all. names_entry e s"
  proof (cases "idb_up s")
    case True
    with assms(3) have "all = filter (we_fresh now) (idb s)" "s' = surface_stale now (idb s) s"
      by (simp_all add: getAll_def)
    with idb that show ?thesis by metis
  next
    case False
    with assms(3) obtain q where q: "ls_queue s = Some q" "all = filter (we_fresh now) q"
      "s' = surface_stale now q s"
      by (auto simp: getAll_def split: option.splits)
    with lsq [OF q(1)] that show ?thesis by metis
  qed
  with ok surface_stale_tracked show ?thesis by metis
qed

definition pending_unique :: "web_entry list \<Rightarrow> bool" where
  "pending_unique q \<longleftrightarrow> unique_keys we_clientId (filter (\<lambda>e. we_status e = Pending) q)"

lemma pending_unique_filter: "pending_unique q \<Longrightarrow> pending_unique (filter P q)"
proof -
  assume u: "pending_unique q"
  have "filter (\<lambda>e. we_status e = Pending) (filter P q) = filter P (filter (\<lambda>e. we_status e = Pending) q)"
    by (simp add: conj_commute)
  with u show ?thesis by (simp add: pending_unique_def distinct_map_filter del: filter_filter)
qed

lemma pending_unique_eq:
  "pending_unique q \<Longrightarrow> x \<in> set q \<Longrightarrow> y \<in> set q \<Longrightarrow> we_status x = Pending \<Longrightarrow> we_status y = Pending \<Longrightarrow>
   we_clientId x = we_clientId y \<Longrightarrow> x = y"
  by (auto simp: pending_unique_def distinct_map inj_on_def)

lemma idb_upsert_pending_unique:
  assumes "web_inv s" "pending_unique (idb s)"
  shows "pending_unique (idb (idb_upsert now c m s))"
proof -
  let ?kept = "\<lambda>x. case find (\<lambda>e. same_pending c e \<and> we_id e \<noteq> None) (idb s) of
      Some old \<Rightarrow> we_id x \<noteq> we_id old | None \<Rightarrow> True"
  have eq: "idb (idb_upsert now c m s) = filter ?kept (idb s) @ [new_entry now c (Some (idb_next s)) m]"
    by (simp add: idb_upsert_def Let_def split: option.splits)
  have "\<not> same_pending c x" if x: "x \<in> set (filter ?kept (idb s))" for x
  proof (cases "find (\<lambda>e. same_pending c e \<and> we_id e \<noteq> None) (idb s)")
    case None
    with x assms(1) show ?thesis by (auto simp: find_None_iff web_inv_def)
  next
    case (Some old)
    then have "old \<in> set (idb s)" "same_pending c old" by (auto simp: find_Some_iff)
    with x Some show ?thesis using pending_unique_eq [OF assms(2), of x old] by (auto simp: same_pending_def)
  qed
  moreover have "pending_unique (filter ?kept (idb s))" using assms(2) by (rule pending_unique_filter)
  ultimately show ?thesis unfolding eq pending_unique_def by (auto simp: new_entry_def same_pending_def)
qed

subsection \<open>Properties\<close>

text \<open>No silent drops on the web: after a run of the queue every client id that was pending
  in IndexedDB or in the fallback, or listed as failed, is still pending or listed as failed,
  or was answered with success, also when IndexedDB stops answering half-way.\<close>

theorem web_process_no_silent_drop:
  assumes "web_inv s" and "0 < idb_next s" and "\<not> w_processing s" and "c \<in> web_tracked s"
  shows "c \<in> web_tracked (processQueue now hs env s)
    \<or> c \<in> web_delivered_ids hs env 0 (process_order now (s\<lparr>w_processing := True\<rparr>))"
proof -
  let ?s = "s\<lparr>w_processing := True\<rparr>"
  have tr: "web_tracked (t\<lparr>w_processing := b\<rparr>) = web_tracked t" for t b
    by (simp add: web_tracked_def ls_entries_def)
  have inv: "web_inv ?s" "0 < idb_next ?s" using assms by (simp_all add: web_inv_def ls_entries_def)
  show ?thesis
  proof (cases "getAll now ?s")
    case None
    then show ?thesis using assms by (simp add: processQueue_def tr)
  next
    case (Some r)
    obtain all s' where r: "r = (all, s')" by fastforce
    let ?ms = "js_sort (by_key we_createdAt) (filter (\<lambda>e. we_status e = Pending) all)"
    from web_ok_getAll [OF inv Some [unfolded r]]
    have "web_ok ?ms s'" and "c \<in> web_tracked s'" using assms(4) tr by (auto simp: web_ok_def)
    then have "c \<in> web_tracked (web_loop hs env 0 ?ms s') \<union> web_delivered_ids hs env 0 ?ms"
      using web_loop_tracked [of ?ms s' hs env 0] by blast
    then show ?thesis using Some r assms(3) by (simp add: processQueue_def process_order_def Let_def tr)
  qed
qed

text \<open>Queueing is an upsert: at most one pending entry per client id stays, keys stay
  unique, and the new write is in the store under its client id.\<close>

theorem web_queue_upsert:
  assumes "web_inv s" and "0 < idb_next s" and "idb_up s" and "pending_unique (idb s)"
    and "we_clientId m \<noteq> []"
  shows "let s' = snd (queueMutation now gen m s) in
     pending_unique (idb s') \<and> web_inv s'
     \<and> new_entry now (we_clientId m) (Some (idb_next s)) m \<in> set (idb s')
     \<and> pendingSync (w_ui s') = length (filter (\<lambda>e. we_status e = Pending) (idb s'))"
  using assms idb_upsert_pending_unique [of s now "we_clientId m" m] web_inv_queueMutation [of s now gen m]
    idb_upsert_simps(4) [of now "we_clientId m" m s]
  by (auto simp: queueMutation_def Let_def w_updatePendingCount_def getPendingCount_def idb_upsert_def)

text \<open>The web queue removes by entry key, not by client id: a newer write queued for the
  same client id while the older one is in flight survives the success of the older one.\<close>

theorem web_keeps_newer_write:
  assumes "idb_up s" and "\<not> w_processing s" and "idb s = [e]" and "we_id e = Some i" and "0 < i"
    and "i < idb_next s" and "we_status e = Pending" and "replayable e" and "we_kind e = Api"
    and "we_fresh now e" and "wa_during (env 0) = [Queued gen m]" and "wa_outcome (env 0) = WOk"
    and "we_clientId m = we_clientId e" and "we_clientId e \<noteq> []"
  shows "idb (processQueue now hs env s) = [new_entry (wa_now (env 0)) (we_clientId m) (Some (idb_next s)) m]"
proof -
  let ?s = "s\<lparr>w_processing := True\<rparr>"
  have "getAll now ?s = Some ([e], ?s)" using assms by (simp add: getAll_def surface_stale_def)
  moreover have "web_step hs (env 0) e ?s =
      drop_web_entry e (snd (queueMutation (wa_now (env 0)) gen m (?s\<lparr>w_sent := w_sent ?s @ [e]\<rparr>)))"
    using assms by (simp add: web_step_def Let_def web_event_def)
  ultimately show ?thesis
    using assms by (simp add: processQueue_def Let_def queueMutation_def idb_upsert_def same_pending_def
        drop_web_entry_def removeMutation_def new_entry_def w_updatePendingCount_def getPendingCount_def)
qed

text \<open>Clearing the queue on a change of account clears only the backend in use: with
  IndexedDB up, what an earlier session left in the localStorage fallback stays, and is read
  back for replay as soon as IndexedDB is unavailable.\<close>

theorem web_clear_leaves_fallback:
  assumes "idb_up s" and "ls_up s" and "ls s = Stored q"
  shows "map_option fst (getAll now ((w_clearQueue s)\<lparr>idb_up := False\<rparr>)) = Some (filter (we_fresh now) q)"
  using assms by (simp add: w_clearQueue_def clearOfflineQueue_def Let_def getAll_def ls_queue_def)

definition ex_entry :: "nat option \<Rightarrow> string \<Rightarrow> int \<Rightarrow> web_entry" where
  "ex_entry i c t = \<lparr>we_id = i, we_clientId = c, we_kind = Api, we_url = Some ''/crews/1/polls'',
     we_method = Some ''POST'', we_body = None, we_event = None, we_data = None,
     we_status = Pending, we_retries = 0, we_createdAt = t\<rparr>"

definition ex_web :: "web_entry list \<Rightarrow> web_state" where
  "ex_web q = \<lparr>idb_up = True, idb = q, idb_next = 9, ls_up = True, ls = Missing, w_ui = ui_initial,
     w_processing = False, w_sent = [], w_waits = []\<rparr>"

lemmas ex_web_simps = ex_web_def ex_entry_def ls_entries_def

lemma web_process_no_silent_drop_witness:
  "let s = ex_web [ex_entry (Some 1) ''a'' 5];
       env = \<lambda>i. \<lparr>wa_during = [IdbGone], wa_outcome = WErr (Some 500) None, wa_now = 7\<rparr>
   in ''a'' \<in> web_tracked (processQueue 6 False env s)
     \<or> ''a'' \<in> web_delivered_ids False env 0 (process_order 6 (s\<lparr>w_processing := True\<rparr>))"
  unfolding Let_def
  by (rule web_process_no_silent_drop) (simp_all add: ex_web_simps web_inv_def web_tracked_def)

lemma web_queue_upsert_witness:
  "let s' = snd (queueMutation 6 ''g'' (ex_entry None ''a'' 0) (ex_web [ex_entry (Some 1) ''a'' 5])) in
     pending_unique (idb s') \<and> web_inv s'
     \<and> new_entry 6 (we_clientId (ex_entry None ''a'' 0))
         (Some (idb_next (ex_web [ex_entry (Some 1) ''a'' 5]))) (ex_entry None ''a'' 0) \<in> set (idb s')
     \<and> pendingSync (w_ui s') = length (filter (\<lambda>e. we_status e = Pending) (idb s'))"
  by (rule web_queue_upsert) (simp_all add: ex_web_simps web_inv_def pending_unique_def)

lemma web_keeps_newer_write_witness:
  "idb (processQueue 6 False
      (\<lambda>i. \<lparr>wa_during = [Queued ''g'' (ex_entry None ''a'' 0)], wa_outcome = WOk, wa_now = 7\<rparr>)
      (ex_web [ex_entry (Some 1) ''a'' 5]))
   = [new_entry (wa_now ((\<lambda>i. \<lparr>wa_during = [Queued ''g'' (ex_entry None ''a'' 0)], wa_outcome = WOk,
        wa_now = 7\<rparr>) (0::nat))) (we_clientId (ex_entry None ''a'' 0))
        (Some (idb_next (ex_web [ex_entry (Some 1) ''a'' 5]))) (ex_entry None ''a'' 0)]"
  by (rule web_keeps_newer_write [where e = "ex_entry (Some 1) ''a'' 5" and i = 1 and gen = "''g''"])
     (simp_all add: ex_web_simps replayable_def is_truthy_def we_fresh_def MAX_QUEUE_AGE_MS_def)

lemma web_clear_leaves_fallback_witness:
  "map_option fst (getAll 6 ((w_clearQueue ((ex_web [])\<lparr>ls := Stored [ex_entry None ''a'' 5]\<rparr>))\<lparr>idb_up := False\<rparr>))
   = Some (filter (we_fresh 6) [ex_entry None ''a'' 5])"
  by (rule web_clear_leaves_fallback) (simp_all add: ex_web_simps)

end
