(* ===== verification/Expenses.thy ===== *)
theory Expenses
  imports Domain
begin

text \<open>
  The crew ledger (\<open>lib/db/stores/expenses.ts\<close>): net balances in integer cents from the
  expense rows, and the greedy plan that settles them.

  A row's amount is the exact decimal of the NUMERIC column, \<open>None\<close> when \<open>Number\<close> of it is
  not finite.  The \<open>split_with\<close> column is absent, a text that does not parse, or a list of
  user ids.  The rows come in the order the query returns them.
\<close>

record balance =
  ba_userId :: string
  ba_username :: string
  ba_cents :: int

record settlement =
  st_fromUserId :: string
  st_fromName :: string
  st_toUserId :: string
  st_toName :: string
  st_amountCents :: int

record expense_row =
  ex_id :: string
  ex_crewId :: string
  ex_paidBy :: string
  ex_description :: string
  ex_amount :: "rat option"
  ex_splitWith :: "string list stored"
  ex_category :: string
  ex_planned :: "bool option"

record member_row =
  mr_userId :: string
  mr_username :: string

subsection \<open>Balances\<close>

type_synonym cents = "string \<Rightarrow> int option"

definition split_list :: "string list stored \<Rightarrow> string list" where
  "split_list w = (case w of Stored l \<Rightarrow> l | _ \<Rightarrow> [])"

definition initial_cents :: "string list \<Rightarrow> cents" where
  "initial_cents ids = (\<lambda>i. if i \<in> set ids then Some 0 else None)"

text \<open>One member's share: the leftover pennies go one each to the first members.\<close>

definition owe :: "int \<Rightarrow> string \<Rightarrow> cents \<times> int \<Rightarrow> cents \<times> int" where
  "owe baseShare uid st =
     (case st of (c, remainder) \<Rightarrow>
        (case c uid of
           None \<Rightarrow> st
         | Some cur \<Rightarrow> (c(uid \<mapsto> cur - (baseShare + (if 0 < remainder then 1 else 0))),
                        if 0 < remainder then remainder - 1 else remainder)))"

definition apply_expense :: "string list \<Rightarrow> expense_row \<Rightarrow> cents \<Rightarrow> cents" where
  "apply_expense memberIds e c =
     (let splitWith = split_list (ex_splitWith e);
          splitMembers = filter (\<lambda>uid. c uid \<noteq> None) (if splitWith \<noteq> [] then splitWith else memberIds);
          shareCount = int (length splitMembers)
      in if shareCount = 0 then c
         else (case ex_amount e of
                 None \<Rightarrow> c
               | Some amount \<Rightarrow>
                   let amountCents = js_round (amount * 100);
                       c1 = (case c (ex_paidBy e) of
                               Some b \<Rightarrow> c(ex_paidBy e \<mapsto> b + amountCents) | None \<Rightarrow> c);
                       baseShare = amountCents div shareCount;
                       remainder = amountCents - baseShare * shareCount
                   in fst (fold (owe baseShare) splitMembers (c1, remainder))))"

definition is_actual :: "string \<Rightarrow> expense_row \<Rightarrow> bool" where
  "is_actual crewId e \<longleftrightarrow> ex_crewId e = crewId \<and> ex_planned e \<noteq> Some True"

definition balance_of :: "cents \<Rightarrow> member_row \<Rightarrow> balance" where
  "balance_of c m = \<lparr>ba_userId = mr_userId m, ba_username = mr_username m,
     ba_cents = (case c (mr_userId m) of Some v \<Rightarrow> v | None \<Rightarrow> 0)\<rparr>"

definition computeBalanceCents :: "expense_row list \<Rightarrow> member_row list \<Rightarrow> string \<Rightarrow> balance list" where
  "computeBalanceCents rows members crewId =
     (let memberIds = map mr_userId members;
          c = fold (apply_expense memberIds) (filter (is_actual crewId) rows) (initial_cents memberIds)
      in map (balance_of c) members)"

text \<open>The dollars projection.\<close>

definition getBalances :: "expense_row list \<Rightarrow> member_row list \<Rightarrow> string \<Rightarrow> (string \<times> string \<times> rat) list" where
  "getBalances rows members crewId =
     map (\<lambda>b. (ba_userId b, ba_username b, of_int (ba_cents b) / 100)) (computeBalanceCents rows members crewId)"

definition getBalancesCents :: "expense_row list \<Rightarrow> member_row list \<Rightarrow> string \<Rightarrow> balance list" where
  "getBalancesCents rows members crewId = computeBalanceCents rows members crewId"

subsection \<open>The settlement plan\<close>

text \<open>A party of the plan: the member and the cents still to match.\<close>

type_synonym party = "balance \<times> int"

definition by_remaining_desc :: "party \<Rightarrow> party \<Rightarrow> int" where
  "by_remaining_desc a b = snd b - snd a"

definition creditors :: "balance list \<Rightarrow> party list" where
  "creditors bs = js_sort by_remaining_desc (map (\<lambda>b. (b, ba_cents b)) (filter (\<lambda>b. 0 < ba_cents b) bs))"

definition debtors :: "balance list \<Rightarrow> party list" where
  "debtors bs = js_sort by_remaining_desc (map (\<lambda>b. (b, - ba_cents b)) (filter (\<lambda>b. ba_cents b < 0) bs))"

definition transfer :: "balance \<Rightarrow> balance \<Rightarrow> int \<Rightarrow> settlement list" where
  "transfer creditor debtor amount =
     (if 1 < amount
      then [\<lparr>st_fromUserId = ba_userId debtor, st_fromName = ba_username debtor,
             st_toUserId = ba_userId creditor, st_toName = ba_username creditor,
             st_amountCents = amount\<rparr>]
      else [])"

definition advance :: "party \<Rightarrow> int \<Rightarrow> party list \<Rightarrow> party list" where
  "advance p amount ps = (if snd p - amount \<le> 1 then ps else (fst p, snd p - amount) # ps)"

text \<open>The two-pointer loop; a pointer moves past a party with at most one cent left.\<close>

function settle_loop :: "party list \<Rightarrow> party list \<Rightarrow> settlement list" where
  "settle_loop [] ds = []"
| "settle_loop (c # cs) [] = []"
| "settle_loop (c # cs) (d # ds) =
     (let amount = min (snd c) (snd d)
      in transfer (fst c) (fst d) amount @ settle_loop (advance c amount cs) (advance d amount ds))"
  by pat_completeness auto

termination
  by (relation "measure (\<lambda>(cs, ds). length cs + length ds)") (auto simp: advance_def min_def)

definition simplifyDebts :: "balance list \<Rightarrow> settlement list" where
  "simplifyDebts bs = settle_loop (creditors bs) (debtors bs)"

subsection \<open>The ledger's total\<close>

definition total_cents :: "string list \<Rightarrow> cents \<Rightarrow> int" where
  "total_cents ids c = (\<Sum>i \<leftarrow> ids. case c i of Some v \<Rightarrow> v | None \<Rightarrow> 0)"

lemma total_cents_upd:
  assumes "distinct ids" "c i = Some v" "i \<in> set ids"
  shows "total_cents ids (c(i \<mapsto> w)) = total_cents ids c + (w - v)"
  using assms
proof (induction ids)
  case (Cons x xs)
  show ?case
  proof (cases "x = i")
    case True
    with Cons.prems have "\<forall>y \<in> set xs. (c(i \<mapsto> w)) y = c y" by auto
    then have "total_cents xs (c(i \<mapsto> w)) = total_cents xs c"
      unfolding total_cents_def by (intro arg_cong [of _ _ sum_list] map_cong) auto
    with True Cons.prems show ?thesis by (simp add: total_cents_def)
  qed (use Cons in \<open>simp add: total_cents_def\<close>)
qed simp

lemma owe_dom: "dom (fst (owe b u st)) = dom (fst st)"
  by (auto simp: owe_def split: prod.splits option.splits)

lemma owes_dom: "dom (fst (fold (owe b) us st)) = dom (fst st)"
  by (induction us arbitrary: st) (simp_all add: owe_dom)

text \<open>The shares add up to the amount: the base share for each, plus the leftover pennies.\<close>

lemma owes_total:
  "distinct ids \<Longrightarrow> dom c = set ids \<Longrightarrow> set us \<subseteq> set ids \<Longrightarrow> 0 \<le> r \<Longrightarrow> r \<le> int (length us) \<Longrightarrow>
   total_cents ids (fst (fold (owe b) us (c, r))) = total_cents ids c - (b * int (length us) + r)"
proof (induction us arbitrary: c r)
  case (Cons u us)
  then have "u \<in> dom c" by simp
  then obtain cur where cur: "c u = Some cur" by blast
  let ?o = "b + (if 0 < r then 1 else 0)"
  let ?c = "c(u \<mapsto> cur - ?o)" and ?r = "if 0 < r then r - 1 else r"
  have step: "owe b u (c, r) = (?c, ?r)" using cur by (simp add: owe_def)
  have d: "dom ?c = set ids" using Cons.prems by (simp add: insert_absorb)
  have "total_cents ids (fst (fold (owe b) us (?c, ?r))) = total_cents ids ?c - (b * int (length us) + ?r)"
    by (rule Cons.IH [OF Cons.prems(1) d]) (use Cons.prems in auto)
  moreover have "total_cents ids ?c = total_cents ids c - ?o"
    using Cons.prems cur total_cents_upd [of ids c u cur "cur - ?o"] by simp
  ultimately show ?case using step Cons.prems by (auto simp: algebra_simps)
qed simp

text \<open>What an expense takes out of the ledger: nothing when the payer is a member.\<close>

definition leak :: "string list \<Rightarrow> expense_row \<Rightarrow> int" where
  "leak ids e =
     (if filter (\<lambda>u. u \<in> set ids) (if split_list (ex_splitWith e) \<noteq> [] then split_list (ex_splitWith e) else ids) = []
         \<or> ex_paidBy e \<in> set ids then 0
      else (case ex_amount e of None \<Rightarrow> 0 | Some a \<Rightarrow> js_round (a * 100)))"

lemma apply_expense_total:
  assumes "distinct ids" "dom c = set ids"
  shows "dom (apply_expense ids e c) = set ids
    \<and> total_cents ids (apply_expense ids e c) = total_cents ids c - leak ids e"
proof -
  define us where "us = filter (\<lambda>u. u \<in> set ids)
      (if split_list (ex_splitWith e) \<noteq> [] then split_list (ex_splitWith e) else ids)"
  let ?n = "int (length us)"
  have mem: "c u \<noteq> None \<longleftrightarrow> u \<in> set ids" for u using assms(2) by (auto simp: dom_def)
  have us: "set us \<subseteq> set ids" by (auto simp: us_def)
  define c1 where "c1 a = (case c (ex_paidBy e) of Some b \<Rightarrow> c(ex_paidBy e \<mapsto> b + a) | None \<Rightarrow> c)" for a
  have eq: "apply_expense ids e c =
      (if us = [] then c else (case ex_amount e of None \<Rightarrow> c
       | Some m \<Rightarrow> fst (fold (owe (js_round (m * 100) div ?n)) us
           (c1 (js_round (m * 100)), js_round (m * 100) - js_round (m * 100) div ?n * ?n))))"
    unfolding apply_expense_def Let_def mem us_def [symmetric] c1_def by simp
  have lk: "leak ids e = (if us = [] \<or> ex_paidBy e \<in> set ids then 0
      else (case ex_amount e of None \<Rightarrow> 0 | Some a \<Rightarrow> js_round (a * 100)))"
    unfolding leak_def us_def [symmetric] ..
  show ?thesis
  proof (cases "us = [] \<or> ex_amount e = None")
    case True
    then show ?thesis using assms eq lk by (auto split: option.splits)
  next
    case False
    then obtain m where m: "ex_amount e = Some m" by auto
    let ?a = "js_round (m * 100)"
    have d1: "dom (c1 ?a) = set ids" using assms(2) by (auto simp: c1_def split: option.splits)
    have t1: "total_cents ids (c1 ?a) = total_cents ids c + (if ex_paidBy e \<in> set ids then ?a else 0)"
    proof (cases "c (ex_paidBy e)")
      case (Some v)
      then have "ex_paidBy e \<in> set ids" using mem [of "ex_paidBy e"] by simp
      with Some total_cents_upd [of ids c "ex_paidBy e" v] assms(1) show ?thesis by (simp add: c1_def)
    qed (use mem [of "ex_paidBy e"] in \<open>simp add: c1_def\<close>)
    have n: "0 < ?n" using False by simp
    have r: "0 \<le> ?a - ?a div ?n * ?n" "?a - ?a div ?n * ?n \<le> ?n"
      using pos_mod_bound [OF n, of ?a] pos_mod_sign [OF n, of ?a] unfolding minus_div_mult_eq_mod by linarith+
    from owes_total [OF assms(1) d1 us r] owes_dom [of _ us] d1
    show ?thesis using eq m False t1 lk by simp
  qed
qed

lemma apply_expenses_total:
  assumes "distinct ids" "dom c = set ids"
  shows "total_cents ids (fold (apply_expense ids) es c) = total_cents ids c - (\<Sum>e \<leftarrow> es. leak ids e)"
  using assms(2)
proof (induction es arbitrary: c)
  case (Cons e es)
  from apply_expense_total [OF assms(1) Cons.prems, of e]
  show ?case using Cons.IH [of "apply_expense ids e c"] by simp
qed simp

lemma initial_cents_simps: "dom (initial_cents ids) = set ids" "total_cents ids (initial_cents ids) = 0"
proof -
  have "(\<Sum>i \<leftarrow> xs. case initial_cents ids i of Some v \<Rightarrow> v | None \<Rightarrow> 0) = 0" for xs
    by (induction xs) (simp_all add: initial_cents_def)
  then show "total_cents ids (initial_cents ids) = 0" by (simp add: total_cents_def)
qed (auto simp: initial_cents_def split: if_splits)

subsection \<open>What the plan moves\<close>

definition received :: "string \<Rightarrow> settlement list \<Rightarrow> int" where
  "received u ss = (\<Sum>s \<leftarrow> filter (\<lambda>s. st_toUserId s = u) ss. st_amountCents s)"

definition paid :: "string \<Rightarrow> settlement list \<Rightarrow> int" where
  "paid u ss = (\<Sum>s \<leftarrow> filter (\<lambda>s. st_fromUserId s = u) ss. st_amountCents s)"

definition settled :: "settlement list \<Rightarrow> int" where
  "settled ss = (\<Sum>s \<leftarrow> ss. st_amountCents s)"

lemma moved_simps [simp]:
  "received u [] = 0" "paid u [] = 0" "settled [] = 0"
  "received u (xs @ ys) = received u xs + received u ys"
  "paid u (xs @ ys) = paid u xs + paid u ys"
  "settled (xs @ ys) = settled xs + settled ys"
  by (simp_all add: received_def paid_def settled_def)

lemma transfer_moved [simp]:
  "received u (transfer c d a) = (if 1 < a \<and> u = ba_userId c then a else 0)"
  "paid u (transfer c d a) = (if 1 < a \<and> u = ba_userId d then a else 0)"
  "settled (transfer c d a) = (if 1 < a then a else 0)"
  "length (transfer c d a) \<le> 1"
  by (auto simp: transfer_def received_def paid_def settled_def)

definition party_ids :: "party list \<Rightarrow> string list" where
  "party_ids ps = map (ba_userId \<circ> fst) ps"

definition owed :: "party list \<Rightarrow> int" where
  "owed ps = (\<Sum>p \<leftarrow> ps. snd p)"

abbreviation positive :: "party list \<Rightarrow> bool" where
  "positive ps \<equiv> (\<forall>p \<in> set ps. 0 < snd p)"

lemma advance_simps:
  "length (advance p a ps) \<le> Suc (length ps)"
  "a = snd p \<Longrightarrow> advance p a ps = ps"
  "positive ps \<Longrightarrow> positive (advance p a ps)"
  "set (advance p a ps) \<subseteq> insert (fst p, snd p - a) (set ps)"
  "distinct (party_ids (p # ps)) \<Longrightarrow> distinct (party_ids (advance p a ps))"
  "owed (p # ps) - a - 1 \<le> owed (advance p a ps)"
  "a \<le> snd p \<Longrightarrow> owed (advance p a ps) \<le> owed (p # ps) - a"
  by (auto simp: advance_def party_ids_def owed_def)

lemma settle_loop_no_debtors [simp]: "settle_loop cs [] = []"
  by (cases cs) auto

text \<open>Induction over the loop: the two lists shrink together and one pointer always moves.\<close>

lemma settle_loop_length:
  "cs \<noteq> [] \<Longrightarrow> ds \<noteq> [] \<Longrightarrow> length (settle_loop cs ds) + 1 \<le> length cs + length ds"
proof (induction cs ds rule: settle_loop.induct)
  case (3 c cs d ds)
  let ?a = "min (snd c) (snd d)" and ?cs = "advance c (min (snd c) (snd d)) cs"
    and ?ds = "advance d (min (snd c) (snd d)) ds"
  have len: "length ?cs + length ?ds \<le> length cs + length ds + 1"
    using advance_simps(1) [of c ?a cs] advance_simps(1) [of d ?a ds]
    by (cases "snd c \<le> snd d") (simp_all add: advance_simps(2))
  have one: "length (transfer (fst c) (fst d) ?a) \<le> 1" by (rule transfer_moved(4))
  show ?case
  proof (cases "?cs = [] \<or> ?ds = []")
    case True
    then have "settle_loop ?cs ?ds = []" by (cases ?cs) auto
    with one show ?thesis by (simp add: Let_def)
  next
    case False
    with "3.IH" [OF refl] have "length (settle_loop ?cs ?ds) + 1 \<le> length ?cs + length ?ds" by simp
    with len one show ?thesis by (simp add: Let_def)
  qed
qed simp_all

lemma settle_loop_bounds:
  "positive cs \<Longrightarrow> positive ds \<Longrightarrow> distinct (party_ids cs) \<Longrightarrow> distinct (party_ids ds) \<Longrightarrow>
   (\<forall>p \<in> set cs. received (ba_userId (fst p)) (settle_loop cs ds) \<le> snd p)
   \<and> (\<forall>p \<in> set ds. paid (ba_userId (fst p)) (settle_loop cs ds) \<le> snd p)
   \<and> (\<forall>u. u \<notin> set (party_ids cs) \<longrightarrow> received u (settle_loop cs ds) = 0)
   \<and> (\<forall>u. u \<notin> set (party_ids ds) \<longrightarrow> paid u (settle_loop cs ds) = 0)
   \<and> (\<forall>s \<in> set (settle_loop cs ds). 1 < st_amountCents s)"
proof (induction cs ds rule: settle_loop.induct)
  case (3 c cs d ds)
  let ?a = "min (snd c) (snd d)" and ?cs = "advance c (min (snd c) (snd d)) cs"
    and ?ds = "advance d (min (snd c) (snd d)) ds"
  let ?r = "settle_loop ?cs ?ds"
  have pos: "positive cs" "positive ds" using "3.prems" by simp_all
  have IH: "(\<forall>p \<in> set ?cs. received (ba_userId (fst p)) ?r \<le> snd p)"
    "(\<forall>p \<in> set ?ds. paid (ba_userId (fst p)) ?r \<le> snd p)"
    "(\<forall>u. u \<notin> set (party_ids ?cs) \<longrightarrow> received u ?r = 0)"
    "(\<forall>u. u \<notin> set (party_ids ?ds) \<longrightarrow> paid u ?r = 0)"
    "(\<forall>s \<in> set ?r. 1 < st_amountCents s)"
    using "3.IH" [OF refl advance_simps(3) [OF pos(1)] advance_simps(3) [OF pos(2)]
        advance_simps(5) [OF "3.prems"(3)] advance_simps(5) [OF "3.prems"(4)]] by blast+
  have head: "received (ba_userId (fst c)) ?r \<le> snd c - ?a" "paid (ba_userId (fst d)) ?r \<le> snd d - ?a"
    using IH(1-4) "3.prems" by (auto simp: advance_def party_ids_def split: if_splits)
  have tail: "received (ba_userId (fst p)) ?r \<le> snd p" if "p \<in> set cs" for p
    using IH(1) that by (auto simp: advance_def split: if_splits)
  have tail': "paid (ba_userId (fst p)) ?r \<le> snd p" if "p \<in> set ds" for p
    using IH(2) that by (auto simp: advance_def split: if_splits)
  have none: "received u ?r = 0" if "u \<notin> set (party_ids (c # cs))" for u
    using IH(3) that by (auto simp: advance_def party_ids_def split: if_splits)
  have none': "paid u ?r = 0" if "u \<notin> set (party_ids (d # ds))" for u
    using IH(4) that by (auto simp: advance_def party_ids_def split: if_splits)
  have neq: "ba_userId (fst p) \<noteq> ba_userId (fst c)" if "p \<in> set cs" for p
    using "3.prems"(3) that by (auto simp: party_ids_def image_iff)
  have neq': "ba_userId (fst p) \<noteq> ba_userId (fst d)" if "p \<in> set ds" for p
    using "3.prems"(4) that by (auto simp: party_ids_def image_iff)
  have eq: "settle_loop (c # cs) (d # ds) = transfer (fst c) (fst d) ?a @ ?r" by (simp add: Let_def)
  show ?case unfolding eq
  proof (intro conjI)
    show "\<forall>p \<in> set (c # cs). received (ba_userId (fst p)) (transfer (fst c) (fst d) ?a @ ?r) \<le> snd p"
      using head(1) tail neq "3.prems" by auto
    show "\<forall>p \<in> set (d # ds). paid (ba_userId (fst p)) (transfer (fst c) (fst d) ?a @ ?r) \<le> snd p"
      using head(2) tail' neq' "3.prems" by auto
    show "\<forall>u. u \<notin> set (party_ids (c # cs)) \<longrightarrow> received u (transfer (fst c) (fst d) ?a @ ?r) = 0"
      using none by (auto simp: party_ids_def)
    show "\<forall>u. u \<notin> set (party_ids (d # ds)) \<longrightarrow> paid u (transfer (fst c) (fst d) ?a @ ?r) = 0"
      using none' by (auto simp: party_ids_def)
    show "\<forall>s \<in> set (transfer (fst c) (fst d) ?a @ ?r). 1 < st_amountCents s"
      using IH(5) by (auto simp: transfer_def)
  qed
qed auto

lemma residue_arith:
  "a - m - 1 \<le> b \<Longrightarrow> m \<le> t + 1 \<Longrightarrow> s = t + r \<Longrightarrow> k' + 1 \<le> k \<Longrightarrow> b \<le> r + 2 * k' \<Longrightarrow> a \<le> s + 2 * k"
  for a :: int
  by linarith

text \<open>Each round loses at most two cents of the smaller side.\<close>

lemma settle_loop_residue:
  "positive cs \<Longrightarrow> positive ds \<Longrightarrow>
   min (owed cs) (owed ds) \<le> settled (settle_loop cs ds) + 2 * int (length cs + length ds)"
proof (induction cs ds rule: settle_loop.induct)
  case (3 c cs d ds)
  let ?a = "min (snd c) (snd d)" and ?cs = "advance c (min (snd c) (snd d)) cs"
    and ?ds = "advance d (min (snd c) (snd d)) ds"
  have pos: "positive cs" "positive ds" using "3.prems" by simp_all
  note IH = "3.IH" [OF refl advance_simps(3) [OF pos(1)] advance_simps(3) [OF pos(2)]]
  have len: "length ?cs + length ?ds \<le> length cs + length ds + 1"
    using advance_simps(1) [of c ?a cs] advance_simps(1) [of d ?a ds]
    by (cases "snd c \<le> snd d") (simp_all add: advance_simps(2))
  have "min (owed (c # cs)) (owed (d # ds)) - ?a - 1 \<le> min (owed ?cs) (owed ?ds)"
    using advance_simps(6) [of c cs ?a] advance_simps(6) [of d ds ?a] by linarith
  moreover have "?a \<le> settled (transfer (fst c) (fst d) ?a) + 1" by (simp add: min_def)
  moreover have "settled (settle_loop (c # cs) (d # ds))
      = settled (transfer (fst c) (fst d) ?a) + settled (settle_loop ?cs ?ds)"
    by (simp only: settle_loop.simps Let_def moved_simps)
  moreover have "int (length ?cs + length ?ds) + 1 \<le> int (length (c # cs) + length (d # ds))"
    using len by simp
  ultimately show ?case using IH by (rule residue_arith)
qed (auto simp: owed_def min_def intro: sum_list_nonneg)

lemma set_parties:
  "set (creditors bs) = {(b, ba_cents b) | b. b \<in> set bs \<and> 0 < ba_cents b}"
  "set (debtors bs) = {(b, - ba_cents b) | b. b \<in> set bs \<and> ba_cents b < 0}"
  by (auto simp: creditors_def debtors_def)

lemma distinct_parties:
  "unique_keys ba_userId bs \<Longrightarrow> distinct (party_ids (creditors bs)) \<and> distinct (party_ids (debtors bs))"
  by (simp add: party_ids_def creditors_def debtors_def comp_def distinct_map_filter)

lemma length_parties:
  "length (creditors bs) + length (debtors bs) = length (filter (\<lambda>b. ba_cents b \<noteq> 0) bs)"
  unfolding creditors_def debtors_def length_js_sort length_map by (induction bs) auto

lemma owed_parties:
  "owed (creditors bs) - owed (debtors bs) = (\<Sum>b \<leftarrow> bs. ba_cents b)"
  unfolding owed_def creditors_def debtors_def sum_list_js_sort map_map comp_def
  by (induction bs) auto

lemma member_ids_balances: "map ba_userId (map (balance_of c) ms) = map mr_userId ms"
  by (simp add: balance_of_def)

lemma total_balances:
  "(\<Sum>b \<leftarrow> map (balance_of c) ms. ba_cents b) = total_cents (map mr_userId ms) c"
  by (simp add: total_cents_def balance_of_def comp_def)

lemma ledger_total:
  assumes "unique_keys mr_userId members"
  shows "(\<Sum>b \<leftarrow> computeBalanceCents rows members crewId. ba_cents b)
    = - (\<Sum>e \<leftarrow> filter (is_actual crewId) rows. leak (map mr_userId members) e)"
  using apply_expenses_total [OF assms initial_cents_simps(1), of "filter (is_actual crewId) rows"]
  by (simp add: computeBalanceCents_def Let_def total_balances initial_cents_simps del: map_map)

subsection \<open>Properties\<close>

text \<open>C3. The ledger is zero-sum in integer cents, whatever the amounts and splits (rounding,
  leftover pennies, split targets that left the crew, duplicates, unreadable columns), as
  long as every payer is still a member.\<close>

theorem ledger_zero_sum:
  assumes "unique_keys mr_userId members"
    and "\<forall>e \<in> set rows. is_actual crewId e \<longrightarrow> ex_paidBy e \<in> mr_userId ` set members"
  shows "(\<Sum>b \<leftarrow> computeBalanceCents rows members crewId. ba_cents b) = 0"
proof -
  have "(\<Sum>e \<leftarrow> filter (is_actual crewId) rows. leak (map mr_userId members) e) = 0"
    using assms(2) by (induction rows) (auto simp: leak_def)
  then show ?thesis using ledger_total [OF assms(1), of rows crewId] by simp
qed

text \<open>When the payer of a whole-crew expense has left the crew, the members are still
  charged their shares and nobody is credited: the ledger is off by the whole amount, so it is
  not zero-sum and the settlement plan starts from debts without a creditor.\<close>

theorem departed_payer_unbalances_ledger:
  assumes "unique_keys mr_userId members" and "members \<noteq> []" and "is_actual crewId e"
    and "ex_paidBy e \<notin> mr_userId ` set members" and "ex_splitWith e = Stored []"
    and "ex_amount e = Some a"
  shows "(\<Sum>b \<leftarrow> computeBalanceCents [e] members crewId. ba_cents b) = - js_round (a * 100)"
  using ledger_total [OF assms(1), of "[e]" crewId] assms
  by (simp add: leak_def split_list_def filter_empty_conv)

text \<open>The plan never moves more than the ledger says: nobody receives more than they are
  owed or pays more than they owe, members who are even are left alone, and every transfer is
  worth more than a cent.\<close>

theorem plan_within_balances:
  assumes "unique_keys ba_userId bs" and "b \<in> set bs"
  shows "received (ba_userId b) (simplifyDebts bs) \<le> max 0 (ba_cents b)
    \<and> paid (ba_userId b) (simplifyDebts bs) \<le> max 0 (- ba_cents b)
    \<and> list_all (\<lambda>s. 1 < st_amountCents s) (simplifyDebts bs)"
proof -
  let ?cs = "creditors bs" and ?ds = "debtors bs"
  have "positive ?cs" "positive ?ds" by (auto simp: set_parties)
  note B = settle_loop_bounds [OF this distinct_parties [OF assms(1), THEN conjunct1]
      distinct_parties [OF assms(1), THEN conjunct2]]
  have key: "b' = b" if "b' \<in> set bs" "ba_userId b' = ba_userId b" for b'
    using assms that by (auto simp: distinct_map inj_on_def)
  have "received (ba_userId b) (settle_loop ?cs ?ds) \<le> max 0 (ba_cents b)"
  proof (cases "0 < ba_cents b")
    case True
    then have "(b, ba_cents b) \<in> set ?cs" using assms(2) by (auto simp: set_parties)
    with B show ?thesis by fastforce
  next
    case False
    then have "ba_userId b \<notin> set (party_ids ?cs)" using key by (auto simp: party_ids_def set_parties)
    with B show ?thesis by simp
  qed
  moreover have "paid (ba_userId b) (settle_loop ?cs ?ds) \<le> max 0 (- ba_cents b)"
  proof (cases "ba_cents b < 0")
    case True
    then have "(b, - ba_cents b) \<in> set ?ds" using assms(2) by (auto simp: set_parties)
    with B show ?thesis by fastforce
  next
    case False
    then have "ba_userId b \<notin> set (party_ids ?ds)" using key by (auto simp: party_ids_def set_parties)
    with B show ?thesis by simp
  qed
  ultimately show ?thesis using B by (simp add: simplifyDebts_def list_all_iff)
qed

text \<open>The plan has at most N - 1 transfers for N members with a balance.\<close>

theorem plan_at_most_n_minus_one:
  "length (simplifyDebts bs) \<le> length (filter (\<lambda>b. ba_cents b \<noteq> 0) bs) - 1"
proof (cases "creditors bs = [] \<or> debtors bs = []")
  case True
  then have "simplifyDebts bs = []" by (cases "creditors bs") (auto simp: simplifyDebts_def)
  then show ?thesis by simp
qed (use settle_loop_length [of "creditors bs" "debtors bs"] length_parties [of bs]
      in \<open>simp add: simplifyDebts_def\<close>)

text \<open>C4. For a zero-sum ledger what the plan leaves unsettled is at most two cents per member
  with a balance.\<close>

theorem plan_settles_almost_all:
  assumes "(\<Sum>b \<leftarrow> bs. ba_cents b) = 0"
  shows "(\<Sum>b \<leftarrow> filter (\<lambda>b. 0 < ba_cents b) bs. ba_cents b)
    \<le> settled (simplifyDebts bs) + 2 * int (length (filter (\<lambda>b. ba_cents b \<noteq> 0) bs))"
proof -
  have "(\<Sum>b \<leftarrow> filter (\<lambda>b. 0 < ba_cents b) bs. ba_cents b) = owed (creditors bs)"
    unfolding owed_def creditors_def sum_list_js_sort by (simp add: comp_def)
  moreover have "positive (creditors bs)" "positive (debtors bs)" by (auto simp: set_parties)
  note settle_loop_residue [OF this]
  moreover have "owed (creditors bs) = owed (debtors bs)" using owed_parties [of bs] assms by simp
  ultimately show ?thesis using length_parties [of bs] by (simp add: simplifyDebts_def)
qed

text \<open>Penny creditors get nothing: a debt of any size against one-cent creditors yields an
  empty plan, so the residual the plan ignores is not bounded by one cent.\<close>

theorem penny_creditors_unsettled:
  assumes "\<forall>b \<in> set bs. ba_cents b = 1" and "ba_cents d = - int (length bs)"
  shows "simplifyDebts (d # bs) = []"
proof -
  have pennies: "settle_loop cs [(d, n)] = []" if "\<forall>p \<in> set cs. snd p = 1" "1 \<le> n" for cs n
    using that
  proof (induction cs arbitrary: n)
    case (Cons c cs)
    then show ?case by (cases "n \<le> 2") (auto simp: transfer_def advance_def Let_def neq_Nil_conv)
  qed simp
  show ?thesis
  proof (cases bs)
    case Nil
    then show ?thesis using assms by (simp add: simplifyDebts_def creditors_def)
  next
    case (Cons b bs')
    have "debtors (d # bs) = [(d, int (length bs))]"
      using assms Cons by (auto simp: debtors_def filter_empty_conv)
    moreover have "\<forall>p \<in> set (creditors (d # bs)). snd p = 1" using assms by (auto simp: set_parties)
    ultimately show ?thesis using pennies [of "creditors (d # bs)" "int (length bs)"] Cons
      by (simp add: simplifyDebts_def)
  qed
qed

definition ex_member :: "string \<Rightarrow> member_row" where
  "ex_member u = \<lparr>mr_userId = u, mr_username = u\<rparr>"

definition ex_expense :: "string \<Rightarrow> rat \<Rightarrow> expense_row" where
  "ex_expense payer a = \<lparr>ex_id = ''e'', ex_crewId = ''c'', ex_paidBy = payer, ex_description = [],
     ex_amount = Some a, ex_splitWith = Stored [], ex_category = ''other'', ex_planned = None\<rparr>"

definition ex_balance :: "string \<Rightarrow> int \<Rightarrow> balance" where
  "ex_balance u c = \<lparr>ba_userId = u, ba_username = u, ba_cents = c\<rparr>"

lemma ledger_zero_sum_witness:
  "(\<Sum>b \<leftarrow> computeBalanceCents [ex_expense ''u'' 10] [ex_member ''u'', ex_member ''v'', ex_member ''w''] ''c''.
      ba_cents b) = 0"
  by (rule ledger_zero_sum) (simp_all add: ex_member_def ex_expense_def)

lemma departed_payer_unbalances_ledger_witness:
  "(\<Sum>b \<leftarrow> computeBalanceCents [ex_expense ''gone'' 10] [ex_member ''u'', ex_member ''v''] ''c''.
      ba_cents b) = - js_round (10 * 100)"
  by (rule departed_payer_unbalances_ledger) (simp_all add: ex_member_def ex_expense_def is_actual_def)

lemma plan_within_balances_witness:
  "let bs = [ex_balance ''u'' 500, ex_balance ''v'' (- 500)] in
     received ''u'' (simplifyDebts bs) \<le> max 0 (ba_cents (ex_balance ''u'' 500))
   \<and> paid ''u'' (simplifyDebts bs) \<le> max 0 (- ba_cents (ex_balance ''u'' 500))
   \<and> list_all (\<lambda>s. 1 < st_amountCents s) (simplifyDebts bs)"
  using plan_within_balances [of "[ex_balance ''u'' 500, ex_balance ''v'' (- 500)]" "ex_balance ''u'' 500"]
  by (simp add: ex_balance_def)

lemma plan_settles_almost_all_witness:
  "let bs = [ex_balance ''u'' 500, ex_balance ''v'' (- 300), ex_balance ''w'' (- 200)] in
     (\<Sum>b \<leftarrow> filter (\<lambda>b. 0 < ba_cents b) bs. ba_cents b)
       \<le> settled (simplifyDebts bs) + 2 * int (length (filter (\<lambda>b. ba_cents b \<noteq> 0) bs))"
  unfolding Let_def by (rule plan_settles_almost_all) (simp add: ex_balance_def)

lemma penny_creditors_unsettled_witness:
  "simplifyDebts (ex_balance ''d'' (- 2) # [ex_balance ''u'' 1, ex_balance ''v'' 1]) = []"
  by (rule penny_creditors_unsettled) (simp_all add: ex_balance_def)

end
