(* ===== verification/Sanitize.thy ===== *)
theory Sanitize
  imports Prelude
begin

text \<open>
  Input and output hygiene (\<open>lib/helpers/sanitize.ts\<close>): identifiers, HTML escaping and the
  redaction of log records; and the results route handlers return.  A \<open>string\<close> is a list of
  Latin-1 code points, so \<open>trim\<close> strips the white space below U+0100.
\<close>

subsection \<open>Identifiers\<close>

definition is_space :: "char \<Rightarrow> bool" where
  "is_space c \<longleftrightarrow> (let n = (of_char c :: nat) in (9 \<le> n \<and> n \<le> 13) \<or> n = 32 \<or> n = 160)"

definition js_trim :: "string \<Rightarrow> string" where
  "js_trim s = rev (dropWhile is_space (rev (dropWhile is_space s)))"

definition is_ident_char :: "char \<Rightarrow> bool" where
  "is_ident_char c \<longleftrightarrow> (let n = (of_char c :: nat) in
     (97 \<le> n \<and> n \<le> 122) \<or> (65 \<le> n \<and> n \<le> 90) \<or> (48 \<le> n \<and> n \<le> 57) \<or> n = 95 \<or> n = 45)"

definition sanitizeIdentifier :: "string \<Rightarrow> string option" where
  "sanitizeIdentifier v =
     (let normalized = take 100 (js_trim v)
      in if normalized = [] \<or> \<not> list_all is_ident_char normalized then None else Some normalized)"

lemma ident_not_space: "is_ident_char c \<Longrightarrow> \<not> is_space c"
  by (auto simp: is_ident_char_def is_space_def Let_def)

lemma dropWhile_none: "list_all (\<lambda>x. \<not> P x) xs \<Longrightarrow> dropWhile P xs = xs"
  by (cases xs) auto

lemma js_trim_ident: "list_all is_ident_char s \<Longrightarrow> js_trim s = s"
proof -
  assume "list_all is_ident_char s"
  then have "list_all (\<lambda>c. \<not> is_space c) s" by (auto simp: list_all_iff dest: ident_not_space)
  then show ?thesis by (simp add: js_trim_def dropWhile_none list_all_rev)
qed

text \<open>\<open>sanitizeString\<close> on Latin-1 text, where the normalization to NFC is the identity and the
  stripped bidirectional marks do not occur: line ends become newlines, tabs spaces, the other
  control characters go.\<close>

fun crlf :: "string \<Rightarrow> string" where
  "crlf [] = []"
| "crlf (c # s) =
     (if c = CHR 0x0D then CHR 0x0A # (case s of [] \<Rightarrow> [] | d # t \<Rightarrow> if d = CHR 0x0A then crlf t else crlf s)
      else c # crlf s)"

definition is_control :: "char \<Rightarrow> bool" where
  "is_control c \<longleftrightarrow> (let n = (of_char c :: nat) in n \<le> 8 \<or> n = 11 \<or> n = 12 \<or> (14 \<le> n \<and> n \<le> 31) \<or> n = 127)"

definition sanitizeString :: "nat \<Rightarrow> string \<Rightarrow> string" where
  "sanitizeString maxLen v =
     take maxLen (js_trim (filter (\<lambda>c. \<not> is_control c)
       (map (\<lambda>c. if c = CHR 0x09 then CHR 0x20 else c) (crlf v))))"

subsection \<open>HTML escaping\<close>

text \<open>\<open>s.replace(/c/g, r)\<close>.\<close>

definition replace_all :: "char \<Rightarrow> string \<Rightarrow> string \<Rightarrow> string" where
  "replace_all c r s = concat (map (\<lambda>x. if x = c then r else [x]) s)"

definition escapeHtml :: "string \<Rightarrow> string" where
  "escapeHtml s =
     replace_all CHR 0x60 ''&#96;''
      (replace_all CHR 0x27 ''&#39;''
        (replace_all CHR 0x22 ''&quot;''
          (replace_all CHR 0x3E ''&gt;''
            (replace_all CHR 0x3C ''&lt;''
              (replace_all CHR 0x26 ''&amp;'' s)))))"

text \<open>The one-pass reading: each character on its own.\<close>

definition entity :: "char \<Rightarrow> string" where
  "entity c = (if c = CHR 0x26 then ''&amp;'' else if c = CHR 0x3C then ''&lt;''
     else if c = CHR 0x3E then ''&gt;'' else if c = CHR 0x22 then ''&quot;''
     else if c = CHR 0x27 then ''&#39;'' else if c = CHR 0x60 then ''&#96;'' else [c])"

lemma replace_all_append [simp]: "replace_all c r (xs @ ys) = replace_all c r xs @ replace_all c r ys"
  by (simp add: replace_all_def)

lemma replace_all_simps [simp]:
  "replace_all c r [] = []" "replace_all c r (x # xs) = (if x = c then r else [x]) @ replace_all c r xs"
  by (simp_all add: replace_all_def)

lemma escapeHtml_append: "escapeHtml (xs @ ys) = escapeHtml xs @ escapeHtml ys"
  by (simp add: escapeHtml_def)

lemma escapeHtml_char: "escapeHtml [c] = entity c"
  by (auto simp: escapeHtml_def entity_def)

lemma escapeHtml_concat: "escapeHtml s = concat (map entity s)"
proof (induction s)
  case (Cons c s)
  have "escapeHtml (c # s) = escapeHtml [c] @ escapeHtml s"
    using escapeHtml_append [of "[c]" s] by simp
  with Cons show ?case by (simp add: escapeHtml_char)
qed (simp add: escapeHtml_def)

text \<open>Reading the entities back.\<close>

definition entities :: "(string \<times> char) list" where
  "entities = [(''&amp;'', CHR 0x26), (''&lt;'', CHR 0x3C), (''&gt;'', CHR 0x3E),
     (''&quot;'', CHR 0x22), (''&#39;'', CHR 0x27), (''&#96;'', CHR 0x60)]"

lemma find_nonempty: "find (\<lambda>(e, d). P e d \<and> e \<noteq> []) xs = Some (e, d) \<Longrightarrow> 0 < length e"
  by (auto simp: find_Some_iff)

function unescape :: "string \<Rightarrow> string" where
  "unescape [] = []"
| "unescape (c # s) =
     (case find (\<lambda>(e, d). starts_with (c # s) e \<and> e \<noteq> []) entities of
        Some (e, d) \<Rightarrow> d # unescape (drop (length e) (c # s))
      | None \<Rightarrow> c # unescape s)"
  by pat_completeness auto

termination
  by (relation "measure length") (auto dest: find_nonempty)

lemma unescape_entity: "unescape (entity c @ s) = c # unescape s"
proof -
  have "starts_with (c # s) e \<Longrightarrow> e \<in> fst ` set entities \<Longrightarrow> c = CHR 0x26" for e
    by (auto simp: entities_def)
  then have plain: "find (\<lambda>(e, d). starts_with (c # s) e \<and> e \<noteq> []) entities = None" if "c \<noteq> CHR 0x26"
    using that by (force simp: find_None_iff)
  show ?thesis
  proof (cases "c \<in> {CHR 0x26, CHR 0x3C, CHR 0x3E, CHR 0x22, CHR 0x27, CHR 0x60}")
    case True
    then show ?thesis by (auto simp: entity_def entities_def)
  next
    case False
    then show ?thesis using plain by (simp add: entity_def)
  qed
qed

subsection \<open>Log redaction\<close>

definition sensitiveFields :: "string list" where
  "sensitiveFields = [
     ''password'', ''passwordhash'', ''token'', ''secret'', ''cookie'', ''authorization'',
     ''creditcard'', ''ssn'', ''apikey'', ''email'', ''refreshtoken'', ''confirmpassword'',
     ''newpassword'', ''currentpassword'', ''sessiontoken'', ''usertoken'', ''accesstoken'',
     ''clientsecret'', ''privatekey'', ''credentials'']"

definition is_sensitive :: "string \<Rightarrow> bool" where
  "is_sensitive k \<longleftrightarrow> to_lower k \<in> set sensitiveFields"

fun sanitizeLogMeta :: "json \<Rightarrow> json" where
  "sanitizeLogMeta (JArr xs) = JArr (map sanitizeLogMeta xs)"
| "sanitizeLogMeta (JObj fs) =
     JObj (map (\<lambda>(k, v). (k, if is_sensitive k then JStr ''[REDACTED]'' else sanitizeLogMeta v)) fs)"
| "sanitizeLogMeta v = v"

text \<open>No sensitive field, at any depth, holds anything but the marker.\<close>

fun redacted :: "json \<Rightarrow> bool" where
  "redacted (JArr xs) = (\<forall>x \<in> set xs. redacted x)"
| "redacted (JObj fs) =
     (\<forall>(k, v) \<in> set fs. if is_sensitive k then v = JStr ''[REDACTED]'' else redacted v)"
| "redacted v = True"

lemma sanitizeLogMeta_redacted: "redacted (sanitizeLogMeta j)"
  by (induction j rule: sanitizeLogMeta.induct) auto

lemma redacted_fixpoint: "redacted j \<Longrightarrow> sanitizeLogMeta j = j"
proof (induction j rule: sanitizeLogMeta.induct)
  case (1 xs)
  then show ?case by (simp add: map_idI)
next
  case (2 fs)
  have "(case p of (k, v) \<Rightarrow> (k, if is_sensitive k then JStr ''[REDACTED]'' else sanitizeLogMeta v)) = p"
    if "p \<in> set fs" for p
    using 2 that by (cases p) auto
  then show ?case by (simp add: map_idI)
qed simp_all

definition sensitiveHeaders :: "string list" where
  "sensitiveHeaders = [''authorization'', ''cookie'', ''x-api-key'', ''x-access-token'']"

record request_info =
  ri_method :: string
  ri_path :: string
  ri_ip :: string
  ri_headers :: "(string \<times> string) list"

definition getLogSafeRequestInfo :: "request_info \<Rightarrow> request_info" where
  "getLogSafeRequestInfo req =
     req\<lparr>ri_headers := filter (\<lambda>(k, _). to_lower k \<notin> set sensitiveHeaders) (ri_headers req)\<rparr>"

subsection \<open>Results of route handlers\<close>

text \<open>\<open>sendError(res, status, message, code)\<close> on the left, \<open>sendSuccess\<close> with its status on
  the right.\<close>

datatype error_code = AUTH_REQUIRED | INVALID_CREDENTIALS | PASSWORD_INCORRECT | TOKEN_EXPIRED
  | VALIDATION_ERROR | INVALID_INPUT | MISSING_FIELD | NOT_FOUND | FORBIDDEN | ALREADY_EXISTS
  | MAX_LIMIT_REACHED | VERSION_MISMATCH | RATE_LIMITED | INTERNAL_ERROR | SERVICE_UNAVAILABLE
  | ACCOUNT_LOCKED

definition retryable_code :: "error_code \<Rightarrow> bool" where
  "retryable_code c \<longleftrightarrow> c \<in> {RATE_LIMITED, INTERNAL_ERROR, SERVICE_UNAVAILABLE, VERSION_MISMATCH}"

type_synonym http_error = "nat \<times> string \<times> error_code"

type_synonym 'a http = "http_error + nat \<times> 'a"

subsection \<open>Properties\<close>

text \<open>A sanitized identifier is a non-empty word of at most 100 letters, digits, underscores
  and hyphens, and sanitizing it again changes nothing.\<close>

theorem sanitizeIdentifier_sound:
  assumes "sanitizeIdentifier v = Some i"
  shows "i \<noteq> [] \<and> length i \<le> 100 \<and> list_all is_ident_char i \<and> sanitizeIdentifier i = Some i"
proof -
  have i: "i = take 100 (js_trim v)" "i \<noteq> []" "list_all is_ident_char i"
    using assms by (auto simp: sanitizeIdentifier_def Let_def split: if_splits)
  then have "length i \<le> 100" by simp
  with i(2,3) show ?thesis by (simp add: sanitizeIdentifier_def Let_def js_trim_ident)
qed

lemma sanitizeIdentifier_sound_witness:
  "''ab-1'' \<noteq> [] \<and> length ''ab-1'' \<le> 100 \<and> list_all is_ident_char ''ab-1''
   \<and> sanitizeIdentifier ''ab-1'' = Some ''ab-1''"
  by (rule sanitizeIdentifier_sound [of "'' ab-1 ''"])
     (simp add: sanitizeIdentifier_def Let_def js_trim_def is_space_def is_ident_char_def)

text \<open>Escaped HTML contains no character that opens a tag or closes an attribute, and reading
  the entities back gives the original text, so nothing is lost or escaped twice.\<close>

theorem escapeHtml_safe_roundtrip:
  "set (escapeHtml s) \<inter> {CHR 0x3C, CHR 0x3E, CHR 0x22, CHR 0x27, CHR 0x60} = {}
   \<and> unescape (escapeHtml s) = s"
proof
  have "set (entity c) \<inter> {CHR 0x3C, CHR 0x3E, CHR 0x22, CHR 0x27, CHR 0x60} = {}" for c
    by (auto simp: entity_def)
  then show "set (escapeHtml s) \<inter> {CHR 0x3C, CHR 0x3E, CHR 0x22, CHR 0x27, CHR 0x60} = {}"
    unfolding escapeHtml_concat by fastforce
  show "unescape (escapeHtml s) = s"
    unfolding escapeHtml_concat by (induction s) (simp_all add: unescape_entity)
qed

text \<open>A sanitized log record holds no value under a sensitive key (in any letter case, at any
  depth), and sanitizing is idempotent.\<close>

theorem log_meta_redacted:
  "redacted (sanitizeLogMeta j) \<and> sanitizeLogMeta (sanitizeLogMeta j) = sanitizeLogMeta j"
  by (simp add: sanitizeLogMeta_redacted redacted_fixpoint)

end
