(* ===== verification/Expense_Routes.thy ===== *)
theory Expense_Routes
  imports Expenses Sanitize
begin

text \<open>
  The expense routes (\<open>routes/expenses.ts\<close>) over the ledger store.  The state is what the
  handlers read and write: the expense rows, the crew rosters, the users' payment handles, the
  activity log and the events handed to the emitter.  Each handler is a function of the
  request after validation; a failing database answers 500 before anything is written.
\<close>

record pay_handles =
  ph_venmo :: "string option"
  ph_cashapp :: "string option"
  ph_paypal :: "string option"

datatype expense_event = CrewExpenseAdded string expense_row | CrewExpenseDeleted string string

record expense_state =
  xs_rows :: "expense_row list"
  xs_members :: "string \<Rightarrow> member_row list"
  xs_active :: "string \<Rightarrow> bool"
  xs_handles :: "string \<Rightarrow> pay_handles option"
  xs_activity :: "(string \<times> string \<times> string) list"
  xs_events :: "expense_event list"
  xs_db_up :: bool

record expense_create =
  ec_description :: string
  ec_amount :: rat
  ec_splitWith :: "string list"
  ec_category :: "string option"
  ec_planned :: "bool option"

definition expenseCreateSchema :: "expense_create \<Rightarrow> bool" where
  "expenseCreateSchema b \<longleftrightarrow>
     1 \<le> length (ec_description b) \<and> length (ec_description b) \<le> 200 \<and> 0 < ec_amount b
     \<and> list_all (\<lambda>i. i \<noteq> []) (ec_splitWith b) \<and> ec_splitWith b \<noteq> []
     \<and> (case ec_category b of Some c \<Rightarrow> length c \<le> 50 | None \<Rightarrow> True)"

definition expenseSettleFullSchema :: "string \<Rightarrow> rat \<Rightarrow> bool" where
  "expenseSettleFullSchema toUserId amount \<longleftrightarrow> toUserId \<noteq> [] \<and> 0 < amount"

definition is_member :: "expense_state \<Rightarrow> string option \<Rightarrow> string \<Rightarrow> bool" where
  "is_member s crew u = (case crew of None \<Rightarrow> False | Some c \<Rightarrow> u \<in> mr_userId ` set (xs_members s c))"

text \<open>Rows are kept in the order of their \<open>created_at\<close>; the listing is newest first and joins the
  active accounts.  The store's \<open>create\<close>; \<open>eid\<close> is the fresh UUID.\<close>

definition expenses_create ::
  "string \<Rightarrow> string \<Rightarrow> string \<Rightarrow> string \<Rightarrow> rat \<Rightarrow> string list \<Rightarrow> string \<Rightarrow> bool \<Rightarrow> expense_state
     \<Rightarrow> expense_row \<times> expense_state" where
  "expenses_create eid crewId paidBy description amount splitWith category planned s =
     (let row = \<lparr>ex_id = eid, ex_crewId = crewId, ex_paidBy = paidBy, ex_description = description,
                 ex_amount = Some amount, ex_splitWith = Stored splitWith, ex_category = category,
                 ex_planned = Some planned\<rparr>
      in (row, s\<lparr>xs_rows := xs_rows s @ [row]\<rparr>))"

definition getById :: "string \<Rightarrow> expense_state \<Rightarrow> expense_row option" where
  "getById eid s = find (\<lambda>e. ex_id e = eid) (xs_rows s)"

definition getByCrew :: "string \<Rightarrow> expense_state \<Rightarrow> expense_row list" where
  "getByCrew crewId s = rev (filter (\<lambda>e. ex_crewId e = crewId \<and> xs_active s (ex_paidBy e)) (xs_rows s))"

definition expenses_delete :: "string \<Rightarrow> expense_state \<Rightarrow> expense_state" where
  "expenses_delete eid s = s\<lparr>xs_rows := filter (\<lambda>e. ex_id e \<noteq> eid) (xs_rows s)\<rparr>"

definition round_cents :: "rat \<Rightarrow> rat" where
  "round_cents a = of_int (js_round (a * 100)) / 100"

definition fail :: "nat \<Rightarrow> string \<Rightarrow> error_code \<Rightarrow> expense_state \<Rightarrow> 'a http \<times> expense_state" where
  "fail st msg code s = (Inl (st, msg, code), s)"

definition list_expenses :: "string \<Rightarrow> string \<Rightarrow> expense_state \<Rightarrow> expense_row list http \<times> expense_state" where
  "list_expenses crewParam u s =
     (if \<not> xs_db_up s then fail 500 ''Failed to load expenses'' INTERNAL_ERROR s
      else (case sanitizeIdentifier crewParam of
              None \<Rightarrow> fail 403 ''Not a crew member'' FORBIDDEN s
            | Some crewId \<Rightarrow>
                if \<not> is_member s (Some crewId) u then fail 403 ''Not a crew member'' FORBIDDEN s
                else (Inr (200, getByCrew crewId s), s)))"

definition create_expense ::
  "string \<Rightarrow> string \<Rightarrow> string \<Rightarrow> expense_create \<Rightarrow> expense_state \<Rightarrow> expense_row http \<times> expense_state" where
  "create_expense eid crewParam u body s =
     (if \<not> xs_db_up s then fail 500 ''Failed to create expense'' INTERNAL_ERROR s
      else (case sanitizeIdentifier crewParam of
              None \<Rightarrow> fail 403 ''Not a crew member'' FORBIDDEN s
            | Some crewId \<Rightarrow>
                if \<not> is_member s (Some crewId) u then fail 403 ''Not a crew member'' FORBIDDEN s
                else if \<not> distinct (ec_splitWith body)
                then fail 400 ''splitWith contains duplicate users'' INVALID_INPUT s
                else if \<exists>i \<in> set (ec_splitWith body). i \<notin> mr_userId ` set (xs_members s crewId)
                then fail 400 ''splitWith includes users who are not crew members'' INVALID_INPUT s
                else (case expenses_create eid crewId u (take 200 (js_trim (ec_description body)))
                             (round_cents (ec_amount body)) (ec_splitWith body)
                             (case ec_category body of Some c \<Rightarrow> if c = [] then ''other'' else c | None \<Rightarrow> ''other'')
                             (ec_planned body = Some True) s of
                        (row, s1) \<Rightarrow>
                          (Inr (201, row),
                           s1\<lparr>xs_events := xs_events s1 @ [CrewExpenseAdded crewId row],
                              xs_activity := xs_activity s1 @ [(crewId, u, ''expense-added'')]\<rparr>))))"

definition delete_expense :: "string \<Rightarrow> string \<Rightarrow> string \<Rightarrow> expense_state \<Rightarrow> unit http \<times> expense_state" where
  "delete_expense crewParam expenseParam u s =
     (if \<not> xs_db_up s then fail 500 ''Failed to delete expense'' INTERNAL_ERROR s
      else (case sanitizeIdentifier crewParam of
              None \<Rightarrow> fail 403 ''Not a crew member'' FORBIDDEN s
            | Some crewId \<Rightarrow>
                if \<not> is_member s (Some crewId) u then fail 403 ''Not a crew member'' FORBIDDEN s
                else (case Option.bind (sanitizeIdentifier expenseParam) (\<lambda>i. getById i s) of
                        None \<Rightarrow> fail 404 ''Expense not found'' NOT_FOUND s
                      | Some e \<Rightarrow>
                          if ex_crewId e \<noteq> crewId then fail 404 ''Expense not found'' NOT_FOUND s
                          else if ex_paidBy e \<noteq> u then fail 403 ''Only the payer can delete'' FORBIDDEN s
                          else let s1 = expenses_delete (ex_id e) s
                               in (Inr (200, ()),
                                   s1\<lparr>xs_events := xs_events s1 @ [CrewExpenseDeleted crewId (ex_id e)]\<rparr>))))"

definition balances :: "string \<Rightarrow> string \<Rightarrow> expense_state \<Rightarrow> (string \<times> string \<times> rat) list http \<times> expense_state" where
  "balances crewParam u s =
     (if \<not> xs_db_up s then fail 500 ''Failed to load balances'' INTERNAL_ERROR s
      else (case sanitizeIdentifier crewParam of
              None \<Rightarrow> fail 403 ''Not a crew member'' FORBIDDEN s
            | Some crewId \<Rightarrow>
                if \<not> is_member s (Some crewId) u then fail 403 ''Not a crew member'' FORBIDDEN s
                else (Inr (200, getBalances (xs_rows s) (xs_members s crewId) crewId), s)))"

definition blank_to_none :: "string option \<Rightarrow> string option" where
  "blank_to_none h = (case h of Some t \<Rightarrow> if t = [] then None else Some t | None \<Rightarrow> None)"

definition payee_handles :: "expense_state \<Rightarrow> settlement \<Rightarrow> pay_handles" where
  "payee_handles s p =
     (case xs_handles s (st_toUserId p) of
        Some h \<Rightarrow> \<lparr>ph_venmo = blank_to_none (ph_venmo h), ph_cashapp = blank_to_none (ph_cashapp h),
                   ph_paypal = blank_to_none (ph_paypal h)\<rparr>
      | None \<Rightarrow> \<lparr>ph_venmo = None, ph_cashapp = None, ph_paypal = None\<rparr>)"

definition settlement_plan ::
  "string \<Rightarrow> string \<Rightarrow> expense_state \<Rightarrow>
   ((string \<times> string \<times> rat) list \<times> (settlement \<times> rat \<times> pay_handles) list) http \<times> expense_state" where
  "settlement_plan crewParam u s =
     (if \<not> xs_db_up s then fail 500 ''Failed to load settlement plan'' INTERNAL_ERROR s
      else (case sanitizeIdentifier crewParam of
              None \<Rightarrow> fail 403 ''Not a crew member'' FORBIDDEN s
            | Some crewId \<Rightarrow>
                if \<not> is_member s (Some crewId) u then fail 403 ''Not a crew member'' FORBIDDEN s
                else let balancesCents = getBalancesCents (xs_rows s) (xs_members s crewId) crewId
                     in (Inr (200, map (\<lambda>b. (ba_userId b, ba_username b, of_int (ba_cents b) / 100)) balancesCents,
                              map (\<lambda>p. (p, of_int (st_amountCents p) / 100, payee_handles s p))
                                (simplifyDebts balancesCents)), s)))"

definition settle_expense :: "string \<Rightarrow> string \<Rightarrow> string \<Rightarrow> string \<Rightarrow> rat \<Rightarrow> expense_state \<Rightarrow> expense_row http \<times> expense_state" where
  "settle_expense eid crewParam u toUserId amount s =
     (if \<not> xs_db_up s then fail 500 ''Failed to record settlement'' INTERNAL_ERROR s
      else (case sanitizeIdentifier crewParam of
              None \<Rightarrow> fail 403 ''Not a crew member'' FORBIDDEN s
            | Some crewId \<Rightarrow>
                if \<not> is_member s (Some crewId) u then fail 403 ''Not a crew member'' FORBIDDEN s
                else if toUserId = u then fail 400 ''Cannot settle with yourself'' INVALID_INPUT s
                else if toUserId \<notin> mr_userId ` set (xs_members s crewId)
                then fail 400 ''Settlement target is not a crew member'' INVALID_INPUT s
                else (case expenses_create eid crewId u ''Settlement payment'' (round_cents amount)
                             [toUserId] ''settlement'' False s of
                        (row, s1) \<Rightarrow>
                          (Inr (201, row),
                           s1\<lparr>xs_activity := xs_activity s1 @ [(crewId, u, ''expense_settled'')],
                              xs_events := xs_events s1 @ [CrewExpenseAdded crewId row]\<rparr>))))"

subsection \<open>Properties\<close>

definition cents_of :: "string \<Rightarrow> string \<Rightarrow> expense_state \<Rightarrow> int" where
  "cents_of crewId u s =
     (case find (\<lambda>b. ba_userId b = u) (computeBalanceCents (xs_rows s) (xs_members s crewId) crewId) of
        Some b \<Rightarrow> ba_cents b | None \<Rightarrow> 0)"

definition ledger :: "string \<Rightarrow> expense_state \<Rightarrow> cents" where
  "ledger crewId s =
     (let ids = map mr_userId (xs_members s crewId)
      in fold (apply_expense ids) (filter (is_actual crewId) (xs_rows s)) (initial_cents ids))"

lemma ledger_dom:
  assumes "unique_keys mr_userId (xs_members s crewId)"
  shows "dom (ledger crewId s) = mr_userId ` set (xs_members s crewId)"
proof -
  let ?ids = "map mr_userId (xs_members s crewId)"
  have "dom (fold (apply_expense ?ids) es c) = set ?ids" if "dom c = set ?ids" for es c
    using that apply_expense_total [OF assms] by (induction es arbitrary: c) auto
  then show ?thesis by (simp add: ledger_def Let_def initial_cents_simps)
qed

lemma cents_of_ledger:
  "cents_of crewId u s = (case ledger crewId s u of
     Some v \<Rightarrow> if u \<in> mr_userId ` set (xs_members s crewId) then v else 0 | None \<Rightarrow> 0)"
proof -
  have "(case find (\<lambda>b. ba_userId b = u) (map (balance_of c) ms) of Some b \<Rightarrow> ba_cents b | None \<Rightarrow> 0)
      = (if u \<in> mr_userId ` set ms then case c u of Some v \<Rightarrow> v | None \<Rightarrow> 0 else 0)" for c ms
    by (induction ms) (auto simp: balance_of_def)
  then show ?thesis by (auto simp: cents_of_def computeBalanceCents_def ledger_def Let_def split: option.splits)
qed

lemma apply_settlement:
  assumes "c u = Some x" and "c t = Some y" and "t \<noteq> u" and "ex_paidBy e = u"
    and "ex_splitWith e = Stored [t]" and "ex_amount e = Some (round_cents a)"
  shows "apply_expense ids e c = c(u \<mapsto> x + js_round (a * 100), t \<mapsto> y - js_round (a * 100))"
  using assms by (simp add: apply_expense_def split_list_def round_cents_def owe_def Let_def)

text \<open>Recording a settlement moves exactly the rounded amount: the payer's balance rises by
  it, the receiver's falls by it, and nobody else's changes.\<close>

theorem settle_moves_exact_amount:
  assumes "settle_expense eid crewParam u t a s = (Inr r, s')" and "sanitizeIdentifier crewParam = Some crewId"
    and "unique_keys mr_userId (xs_members s crewId)"
  shows "cents_of crewId v s' = cents_of crewId v s
     + (if v = u then js_round (a * 100) else if v = t then - js_round (a * 100) else 0)"
proof -
  let ?row = "\<lparr>ex_id = eid, ex_crewId = crewId, ex_paidBy = u, ex_description = ''Settlement payment'',
      ex_amount = Some (round_cents a), ex_splitWith = Stored [t], ex_category = ''settlement'',
      ex_planned = Some False\<rparr>"
  have ok: "u \<in> mr_userId ` set (xs_members s crewId)" "t \<in> mr_userId ` set (xs_members s crewId)" "t \<noteq> u"
    and rows: "xs_rows s' = xs_rows s @ [?row]" "xs_members s' = xs_members s"
    using assms(1,2) by (auto simp: settle_expense_def fail_def is_member_def expenses_create_def Let_def split: if_splits)
  then obtain x y where xy: "ledger crewId s u = Some x" "ledger crewId s t = Some y"
    using ledger_dom [OF assms(3)] by blast
  have "ledger crewId s' = apply_expense (map mr_userId (xs_members s crewId)) ?row (ledger crewId s)"
    by (simp add: ledger_def Let_def rows is_actual_def)
  also have "\<dots> = (ledger crewId s)(u \<mapsto> x + js_round (a * 100), t \<mapsto> y - js_round (a * 100))"
    by (rule apply_settlement [OF xy ok(3)]) simp_all
  finally show ?thesis using xy ok rows by (auto simp: cents_of_ledger split: option.splits)
qed

text \<open>No handler writes on behalf of a stranger, and an error response changes nothing: when
  creating, deleting or settling does not succeed the state is untouched, and when it succeeds
  the user is a member of the crew (and for a delete the payer of the row).\<close>

theorem expense_writes_authorized:
  assumes "sanitizeIdentifier crewParam = Some crewId"
  shows "(case create_expense eid crewParam u body s of
            (Inl _, s') \<Rightarrow> s' = s | (Inr _, s') \<Rightarrow> is_member s (Some crewId) u)
    \<and> (case settle_expense eid crewParam u t a s of
            (Inl _, s') \<Rightarrow> s' = s
          | (Inr _, s') \<Rightarrow> is_member s (Some crewId) u \<and> is_member s (Some crewId) t \<and> t \<noteq> u)
    \<and> (case delete_expense crewParam expenseParam u s of
            (Inl _, s') \<Rightarrow> s' = s
          | (Inr _, s') \<Rightarrow> is_member s (Some crewId) u \<and>
              (case Option.bind (sanitizeIdentifier expenseParam) (\<lambda>i. getById i s) of
                 Some e \<Rightarrow> ex_paidBy e = u \<and> ex_crewId e = crewId | None \<Rightarrow> False))"
proof (intro conjI)
  show "case create_expense eid crewParam u body s of
      (Inl _, s') \<Rightarrow> s' = s | (Inr _, s') \<Rightarrow> is_member s (Some crewId) u"
    using assms by (simp add: create_expense_def fail_def expenses_create_def Let_def)
  show "case settle_expense eid crewParam u t a s of
      (Inl _, s') \<Rightarrow> s' = s
    | (Inr _, s') \<Rightarrow> is_member s (Some crewId) u \<and> is_member s (Some crewId) t \<and> t \<noteq> u"
    using assms by (auto simp: settle_expense_def fail_def expenses_create_def is_member_def Let_def)
  show "case delete_expense crewParam expenseParam u s of
      (Inl _, s') \<Rightarrow> s' = s
    | (Inr _, s') \<Rightarrow> is_member s (Some crewId) u \<and>
        (case Option.bind (sanitizeIdentifier expenseParam) (\<lambda>i. getById i s) of
           Some e \<Rightarrow> ex_paidBy e = u \<and> ex_crewId e = crewId | None \<Rightarrow> False)"
    using assms by (auto simp: delete_expense_def fail_def Let_def split: option.splits)
qed

definition ex_state :: "expense_row list \<Rightarrow> expense_state" where
  "ex_state rows = \<lparr>xs_rows = rows,
     xs_members = (\<lambda>_. [\<lparr>mr_userId = ''u'', mr_username = ''U''\<rparr>, \<lparr>mr_userId = ''v'', mr_username = ''V''\<rparr>]),
     xs_active = (\<lambda>_. True), xs_handles = (\<lambda>_. None), xs_activity = [], xs_events = [], xs_db_up = True\<rparr>"

definition ex_row :: "string \<Rightarrow> rat \<Rightarrow> expense_row" where
  "ex_row payer a = \<lparr>ex_id = ''e'', ex_crewId = ''c'', ex_paidBy = payer, ex_description = [],
     ex_amount = Some a, ex_splitWith = Stored [], ex_category = ''other'', ex_planned = None\<rparr>"

lemma sanitize_c: "sanitizeIdentifier ''c'' = Some ''c''"
  by (simp add: sanitizeIdentifier_def js_trim_def is_space_def is_ident_char_def Let_def)

lemma settle_moves_exact_amount_witness:
  "let s = ex_state [ex_row ''v'' 7]; s' = snd (settle_expense ''e'' ''c'' ''u'' ''v'' (7 / 2) s) in
   cents_of ''c'' ''u'' s' = cents_of ''c'' ''u'' s
     + (if ''u'' = ''u'' then js_round (7 / 2 * 100) else if ''u'' = ''v'' then - js_round (7 / 2 * 100) else 0)"
  unfolding Let_def
  by (rule settle_moves_exact_amount [where crewParam = "''c''" and eid = "''e''"
        and r = "projr (fst (settle_expense ''e'' ''c'' ''u'' ''v'' (7 / 2) (ex_state [ex_row ''v'' 7])))"])
     (simp_all add: settle_expense_def sanitize_c is_member_def ex_state_def expenses_create_def Let_def)

lemma expense_writes_authorized_witness:
  "let s = ex_state [ex_row ''v'' 7];
       body = \<lparr>ec_description = ''tent'', ec_amount = 5, ec_splitWith = [''u''], ec_category = None, ec_planned = None\<rparr>
   in (case create_expense ''e'' ''c'' ''x'' body s of
            (Inl _, s') \<Rightarrow> s' = s | (Inr _, s') \<Rightarrow> is_member s (Some ''c'') ''x'')
    \<and> (case settle_expense ''e'' ''c'' ''x'' ''v'' 1 s of
            (Inl _, s') \<Rightarrow> s' = s
          | (Inr _, s') \<Rightarrow> is_member s (Some ''c'') ''x'' \<and> is_member s (Some ''c'') ''v'' \<and> ''v'' \<noteq> ''x'')
    \<and> (case delete_expense ''c'' ''e'' ''x'' s of
            (Inl _, s') \<Rightarrow> s' = s
          | (Inr _, s') \<Rightarrow> is_member s (Some ''c'') ''x'' \<and>
              (case Option.bind (sanitizeIdentifier ''e'') (\<lambda>i. getById i s) of
                 Some e \<Rightarrow> ex_paidBy e = ''x'' \<and> ex_crewId e = ''c'' | None \<Rightarrow> False))"
  unfolding Let_def by (rule expense_writes_authorized [OF sanitize_c])

end
