(* ===== verification/Rate_Limit.thy ===== *)
theory Rate_Limit
  imports Sanitize
begin

text \<open>
  The fixed-window rate limiters (\<open>lib/rate-limiting.ts\<close>): the shared bucket logic, the Redis
  check with its cluster-aware in-memory fallback, the HTTP middleware, the login, password
  reset, socket and per-event limiters.

  A JavaScript \<open>Map\<close> is an association list in insertion order: \<open>set\<close> on a key that is
  present keeps its place (\<open>AList.update\<close>), a new key goes last.  What Redis answers is a
  parameter of each call: no client, no usable answer (an exception or the fallback flag), or
  a verdict.
\<close>

record bucket =
  bk_start :: int
  bk_count :: nat

type_synonym buckets = "(string \<times> bucket) list"

datatype redis_answer = NoRedis | RedisFailed | Verdict bool nat int

datatype tier = Global | Scoped | Auth | SocketTier

record limiter_config =
  lc_CLUSTER_SIZE :: "int option"
  lc_MAX_RATE_LIMIT_ENTRIES :: nat
  lc_RATE_LIMIT_WINDOW :: int
  lc_AUTH_RATE_LIMIT_MAX :: nat
  lc_AUTH_RATE_LIMIT_WINDOW :: int
  lc_SOCKET_EVENT_WINDOW :: int
  lc_SOCKET_CONNECT_WINDOW :: int
  lc_SOCKET_CONNECT_RATE_LIMIT :: nat
  lc_ADMIN_WRITE_RATE_LIMIT_MAX :: nat

record limiter_state =
  routeRateLimits :: buckets
  rateLimits :: buckets
  authRateLimits :: buckets
  adminAuthRateLimits :: buckets
  socketRateLimits :: buckets
  userAuthRateLimits :: buckets
  socketConnectRateLimits :: buckets
  fallbackStats :: "tier \<Rightarrow> nat"
  fallbackLastWarned :: "tier \<Rightarrow> int"
  warnings :: "(tier \<times> int) list"

definition FALLBACK_WARN_INTERVAL_MS :: int where
  "FALLBACK_WARN_INTERVAL_MS = 30000"

definition resolveClusterSize :: "limiter_config \<Rightarrow> int" where
  "resolveClusterSize cfg = (case lc_CLUSTER_SIZE cfg of
       Some n \<Rightarrow> max 1 (if n = 0 then 1 else n) | None \<Rightarrow> 1)"

subsection \<open>Fallback bookkeeping\<close>

definition recordFallback :: "tier \<Rightarrow> int \<Rightarrow> limiter_state \<Rightarrow> limiter_state" where
  "recordFallback t now s =
     (let s1 = s\<lparr>fallbackStats := (fallbackStats s)(t := fallbackStats s t + 1)\<rparr>
      in if FALLBACK_WARN_INTERVAL_MS \<le> now - fallbackLastWarned s t
         then s1\<lparr>fallbackLastWarned := (fallbackLastWarned s)(t := now),
                 warnings := warnings s @ [(t, now)]\<rparr>
         else s1)"

definition ceil_div :: "int \<Rightarrow> int \<Rightarrow> int" where
  "ceil_div a b = - ((- a) div b)"

definition fallbackMax :: "limiter_config \<Rightarrow> nat \<Rightarrow> nat" where
  "fallbackMax cfg m = nat (max 1 (ceil_div (int m) (resolveClusterSize cfg)))"

text \<open>Deleting the first key until the map is within the cap.\<close>

definition enforceRateLimitMapCap :: "nat \<Rightarrow> buckets \<Rightarrow> buckets" where
  "enforceRateLimitMapCap cap m = drop (length m - cap) m"

subsection \<open>The bucket\<close>

text \<open>The entry a hit counts on: the current one, or a fresh one when there is none or the
  window has passed; then one more.\<close>

definition expired :: "int \<Rightarrow> int \<Rightarrow> bucket option \<Rightarrow> bool" where
  "expired window now e = (case e of None \<Rightarrow> True | Some b \<Rightarrow> window < now - bk_start b)"

definition hit :: "int \<Rightarrow> int \<Rightarrow> bucket option \<Rightarrow> bucket" where
  "hit window now e =
     (if expired window now e then \<lparr>bk_start = now, bk_count = 1\<rparr>
      else (case e of Some b \<Rightarrow> b\<lparr>bk_count := bk_count b + 1\<rparr> | None \<Rightarrow> \<lparr>bk_start = now, bk_count = 1\<rparr>))"

text \<open>The map around the bucket: a fresh entry is stored and the cap enforced, then the
  entry object is counted in place, if it is still in the map.\<close>

definition count_hit :: "nat \<Rightarrow> int \<Rightarrow> int \<Rightarrow> string \<Rightarrow> buckets \<Rightarrow> bucket \<times> buckets" where
  "count_hit cap window now k m =
     (let e = map_of m k;
          b = hit window now e;
          m1 = (if expired window now e
                then enforceRateLimitMapCap cap (AList.update k \<lparr>bk_start = now, bk_count = 0\<rparr> m) else m)
      in (b, if map_of m1 k = None then m1 else AList.update k b m1))"

subsection \<open>The in-memory limiters\<close>

definition consumeSocketRateLimit ::
  "limiter_config \<Rightarrow> int \<Rightarrow> string \<Rightarrow> nat \<Rightarrow> limiter_state \<Rightarrow> bool \<times> limiter_state" where
  "consumeSocketRateLimit cfg now scopeKey m s =
     (case count_hit (lc_MAX_RATE_LIMIT_ENTRIES cfg) (lc_SOCKET_EVENT_WINDOW cfg) now scopeKey (socketRateLimits s) of
        (b, bs) \<Rightarrow> (bk_count b \<le> m, s\<lparr>socketRateLimits := bs\<rparr>))"

definition consumeUserAuthRateLimit ::
  "limiter_config \<Rightarrow> int \<Rightarrow> string \<Rightarrow> nat \<Rightarrow> limiter_state \<Rightarrow> bool \<times> limiter_state" where
  "consumeUserAuthRateLimit cfg now userId m s =
     (case count_hit (lc_MAX_RATE_LIMIT_ENTRIES cfg) (lc_AUTH_RATE_LIMIT_WINDOW cfg) now userId (userAuthRateLimits s) of
        (b, bs) \<Rightarrow> (bk_count b \<le> m, s\<lparr>userAuthRateLimits := bs\<rparr>))"

definition consumeSocketConnectRateLimitLocal ::
  "limiter_config \<Rightarrow> int \<Rightarrow> string \<Rightarrow> limiter_state \<Rightarrow> bool \<times> limiter_state" where
  "consumeSocketConnectRateLimitLocal cfg now ip s =
     (case count_hit (lc_MAX_RATE_LIMIT_ENTRIES cfg) (lc_SOCKET_CONNECT_WINDOW cfg) now ip (socketConnectRateLimits s) of
        (b, bs) \<Rightarrow> (bk_count b \<le> fallbackMax cfg (lc_SOCKET_CONNECT_RATE_LIMIT cfg),
                    s\<lparr>socketConnectRateLimits := bs\<rparr>))"

definition consumeSocketConnectRateLimitAsync ::
  "limiter_config \<Rightarrow> redis_answer \<Rightarrow> int \<Rightarrow> string \<Rightarrow> limiter_state \<Rightarrow> bool \<times> limiter_state" where
  "consumeSocketConnectRateLimitAsync cfg ans now ip s =
     (case ans of
        Verdict limited _ _ \<Rightarrow> (\<not> limited, s)
      | RedisFailed \<Rightarrow> consumeSocketConnectRateLimitLocal cfg now ip (recordFallback SocketTier now s)
      | NoRedis \<Rightarrow> consumeSocketConnectRateLimitLocal cfg now ip s)"

subsection \<open>The Redis check with its fallback\<close>

record check =
  ck_limited :: bool
  ck_remaining :: nat
  ck_retryAfter :: int
  ck_resetHeader :: int
  ck_limit :: nat
  ck_fallback :: bool
  ck_firstExceeded :: bool

definition verdict_check :: "int \<Rightarrow> nat \<Rightarrow> bool \<Rightarrow> nat \<Rightarrow> int \<Rightarrow> check" where
  "verdict_check now m limited remaining resetMs =
     \<lparr>ck_limited = limited, ck_remaining = remaining, ck_retryAfter = ceil_div resetMs 1000,
      ck_resetHeader = ceil_div (now + resetMs) 1000, ck_limit = m, ck_fallback = False,
      ck_firstExceeded = False\<rparr>"

definition fallback_check :: "nat \<Rightarrow> int \<Rightarrow> int \<Rightarrow> bucket \<Rightarrow> check" where
  "fallback_check effectiveMax window now b =
     \<lparr>ck_limited = (effectiveMax < bk_count b), ck_remaining = effectiveMax - bk_count b,
      ck_retryAfter = ceil_div (bk_start b + window - now) 1000,
      ck_resetHeader = ceil_div (bk_start b + window) 1000, ck_limit = effectiveMax,
      ck_fallback = True, ck_firstExceeded = (bk_count b = effectiveMax + 1)\<rparr>"

text \<open>The scoped tier counts in \<open>routeRateLimits\<close>, the global one in \<open>rateLimits\<close>.\<close>

definition tryRedisRateCheck ::
  "limiter_config \<Rightarrow> redis_answer \<Rightarrow> int \<Rightarrow> tier \<Rightarrow> string \<Rightarrow> nat \<Rightarrow> int \<Rightarrow> limiter_state
     \<Rightarrow> check \<times> limiter_state" where
  "tryRedisRateCheck cfg ans now t key m window s =
     (case ans of
        Verdict limited remaining resetMs \<Rightarrow> (verdict_check now m limited remaining resetMs, s)
      | _ \<Rightarrow>
          let s1 = (if ans = RedisFailed then recordFallback t now s else s);
              cap = lc_MAX_RATE_LIMIT_ENTRIES cfg
          in (case count_hit cap window now key (if t = Scoped then routeRateLimits s1 else rateLimits s1) of
                (b, bs) \<Rightarrow>
                  (fallback_check (fallbackMax cfg m) window now b,
                   if t = Scoped then s1\<lparr>routeRateLimits := bs\<rparr> else s1\<lparr>rateLimits := bs\<rparr>)))"

text \<open>The key of a request: the user, else a long enough session token (hashed), else the
  address.\<close>

definition rate_key :: "(string \<Rightarrow> string) \<Rightarrow> string option \<Rightarrow> string option \<Rightarrow> string \<Rightarrow> string" where
  "rate_key hashToken userId token ip =
     (case userId of
        Some u \<Rightarrow> if u \<noteq> [] then ''user:'' @ u else
          (case token of Some t \<Rightarrow> if 16 \<le> length t then ''tok:'' @ hashToken t else ip | None \<Rightarrow> ip)
      | None \<Rightarrow> (case token of Some t \<Rightarrow> if 16 \<le> length t then ''tok:'' @ hashToken t else ip | None \<Rightarrow> ip))"

definition too_many :: "string \<Rightarrow> unit http" where
  "too_many msg = Inl (429, msg, RATE_LIMITED)"

text \<open>The middleware: \<open>next()\<close> is the success result.\<close>

definition rateLimit ::
  "limiter_config \<Rightarrow> redis_answer \<Rightarrow> int \<Rightarrow> nat \<Rightarrow> string \<Rightarrow> string \<Rightarrow> limiter_state
     \<Rightarrow> unit http \<times> check \<times> limiter_state" where
  "rateLimit cfg ans now m scope key s =
     (case (if scope \<noteq> []
            then tryRedisRateCheck cfg ans now Scoped (scope @ '':'' @ key) m (lc_RATE_LIMIT_WINDOW cfg) s
            else tryRedisRateCheck cfg ans now Global key m (lc_RATE_LIMIT_WINDOW cfg) s) of
        (c, s') \<Rightarrow> (if ck_limited c then too_many ''Too many requests'' else Inr (200, ()), c, s'))"

definition createAdminWriteRateLimit ::
  "limiter_config \<Rightarrow> redis_answer \<Rightarrow> int \<Rightarrow> string \<Rightarrow> limiter_state \<Rightarrow> unit http \<times> check \<times> limiter_state" where
  "createAdminWriteRateLimit cfg ans now key s =
     rateLimit cfg ans now (lc_ADMIN_WRITE_RATE_LIMIT_MAX cfg) ''admin-write'' key s"

text \<open>The login limiter over the map of its tier.\<close>

definition createAuthRateLimiter ::
  "limiter_config \<Rightarrow> redis_answer \<Rightarrow> int \<Rightarrow> string \<Rightarrow> buckets \<Rightarrow> limiter_state
     \<Rightarrow> unit http \<times> int option \<times> buckets \<times> limiter_state" where
  "createAuthRateLimiter cfg ans now ip bs s =
     (case ans of
        Verdict limited _ resetMs \<Rightarrow>
          if limited
          then (too_many ''Too many attempts. Wait a few minutes.'', Some (max 1 (ceil_div resetMs 1000)), bs, s)
          else (Inr (200, ()), None, bs, s)
      | _ \<Rightarrow>
          let s1 = (if ans = RedisFailed then recordFallback Auth now s else s);
              effectiveMax = fallbackMax cfg (lc_AUTH_RATE_LIMIT_MAX cfg)
          in (case count_hit (lc_MAX_RATE_LIMIT_ENTRIES cfg) (lc_AUTH_RATE_LIMIT_WINDOW cfg) now ip bs of
                (b, bs') \<Rightarrow>
                  if effectiveMax < bk_count b
                  then (too_many ''Too many attempts. Wait a few minutes.'',
                        Some (max 1 (ceil_div (bk_start b + lc_AUTH_RATE_LIMIT_WINDOW cfg - now) 1000)), bs', s1)
                  else (Inr (200, ()), None, bs', s1)))"

definition authRateLimit ::
  "limiter_config \<Rightarrow> redis_answer \<Rightarrow> int \<Rightarrow> string \<Rightarrow> limiter_state \<Rightarrow> unit http \<times> int option \<times> limiter_state" where
  "authRateLimit cfg ans now ip s =
     (case createAuthRateLimiter cfg ans now ip (authRateLimits s) s of
        (r, ra, bs, s') \<Rightarrow> (r, ra, s'\<lparr>authRateLimits := bs\<rparr>))"

definition adminAuthRateLimit ::
  "limiter_config \<Rightarrow> redis_answer \<Rightarrow> int \<Rightarrow> string \<Rightarrow> limiter_state \<Rightarrow> unit http \<times> int option \<times> limiter_state" where
  "adminAuthRateLimit cfg ans now ip s =
     (case createAuthRateLimiter cfg ans now ip (adminAuthRateLimits s) s of
        (r, ra, bs, s') \<Rightarrow> (r, ra, s'\<lparr>adminAuthRateLimits := bs\<rparr>))"

subsection \<open>Password reset and socket events\<close>

definition reset_normalize :: "string option \<Rightarrow> string option" where
  "reset_normalize email = (case email of
       Some e \<Rightarrow> if e = [] then None else Some (to_lower (js_trim e)) | None \<Rightarrow> None)"

definition passwordResetRateLimit ::
  "limiter_config \<Rightarrow> nat \<Rightarrow> int \<Rightarrow> redis_answer \<Rightarrow> int \<Rightarrow> string option \<Rightarrow> buckets
     \<Rightarrow> unit http \<times> int option \<times> buckets" where
  "passwordResetRateLimit cfg maxAttempts window ans now email bs =
     (let msg = ''Too many password reset attempts for this email. Try again later.''
      in case reset_normalize email of
        None \<Rightarrow> (Inr (200, ()), None, bs)
      | Some e \<Rightarrow>
          if e = [] then (Inr (200, ()), None, bs)
          else (case ans of
                  Verdict limited _ resetMs \<Rightarrow>
                    if limited then (too_many msg, Some (max 1 (ceil_div resetMs 1000)), bs)
                    else (Inr (200, ()), None, bs)
                | _ \<Rightarrow>
                    let effectiveMax = fallbackMax cfg maxAttempts
                    in (case count_hit 10000 window now e bs of
                          (b, bs') \<Rightarrow>
                            if effectiveMax < bk_count b
                            then (too_many msg, Some (max 1 (ceil_div (bk_start b + window - now) 1000)), bs')
                            else (Inr (200, ()), None, bs'))))"

record event_limiter =
  el_max :: nat
  el_windowMs :: int
  el_buckets :: buckets

definition consume :: "int \<Rightarrow> string \<Rightarrow> event_limiter \<Rightarrow> (bool \<times> nat \<times> int) \<times> event_limiter" where
  "consume now userId l =
     (if userId = [] then ((True, el_max l, now + el_windowMs l), l)
      else (case count_hit 10000 (el_windowMs l) now userId (el_buckets l) of
              (b, bs) \<Rightarrow> ((bk_count b \<le> el_max l, el_max l - bk_count b, bk_start b + el_windowMs l),
                          l\<lparr>el_buckets := bs\<rparr>)))"

definition consumeAsync ::
  "redis_answer \<Rightarrow> int \<Rightarrow> string \<Rightarrow> event_limiter \<Rightarrow> (bool \<times> nat \<times> int) \<times> event_limiter" where
  "consumeAsync ans now userId l =
     (if userId = [] then ((True, el_max l, now + el_windowMs l), l)
      else (case ans of
              Verdict limited remaining resetMs \<Rightarrow> ((\<not> limited, remaining, now + resetMs), l)
            | _ \<Rightarrow> consume now userId l))"

definition event_limiter :: "nat \<Rightarrow> int \<Rightarrow> event_limiter" where
  "event_limiter m w = \<lparr>el_max = m, el_windowMs = w, el_buckets = []\<rparr>"

definition SOCKET_EVENT_WINDOW_MS :: int where "SOCKET_EVENT_WINDOW_MS = 10000"
definition PICK_SET_LIMIT :: event_limiter where "PICK_SET_LIMIT = event_limiter 30 SOCKET_EVENT_WINDOW_MS"
definition NOTE_ADD_LIMIT :: event_limiter where "NOTE_ADD_LIMIT = event_limiter 20 SOCKET_EVENT_WINDOW_MS"
definition STATUS_UPDATE_LIMIT :: event_limiter where "STATUS_UPDATE_LIMIT = event_limiter 30 SOCKET_EVENT_WINDOW_MS"
definition PRESENCE_UPDATE_LIMIT :: event_limiter where "PRESENCE_UPDATE_LIMIT = event_limiter 60 SOCKET_EVENT_WINDOW_MS"
definition LOCATION_UPDATE_LIMIT :: event_limiter where "LOCATION_UPDATE_LIMIT = event_limiter 12 60000"
definition SOS_RAISE_LIMIT :: event_limiter where "SOS_RAISE_LIMIT = event_limiter 1 120000"

subsection \<open>The contract of a fixed window\<close>

text \<open>Of a limiter's bucket the clients rely on this: a hit counts one more in the current
  window, and opens a new window exactly when there is none or the old one has passed.\<close>

locale fixed_window =
  fixes hit_bucket :: "int \<Rightarrow> 'b option \<Rightarrow> 'b"
    and start :: "'b \<Rightarrow> int"
    and count :: "'b \<Rightarrow> nat"
    and window :: int
  assumes hit_none: "start (hit_bucket now None) = now \<and> count (hit_bucket now None) = 1"
    and hit_expired: "window < now - start b \<Longrightarrow>
      start (hit_bucket now (Some b)) = now \<and> count (hit_bucket now (Some b)) = 1"
    and hit_live: "\<not> window < now - start b \<Longrightarrow>
      start (hit_bucket now (Some b)) = start b \<and> count (hit_bucket now (Some b)) = count b + 1"
begin

fun hits :: "int list \<Rightarrow> 'b option \<Rightarrow> 'b option" where
  "hits [] e = e"
| "hits (t # ts) e = hits ts (Some (hit_bucket t e))"

fun verdicts :: "nat \<Rightarrow> int list \<Rightarrow> 'b option \<Rightarrow> bool list" where
  "verdicts m [] e = []"
| "verdicts m (t # ts) e = (let b = hit_bucket t e in (count b \<le> m) # verdicts m ts (Some b))"

abbreviation admitted :: "bool list \<Rightarrow> nat" where
  "admitted vs \<equiv> length (filter (\<lambda>v. v) vs)"

lemma verdicts_live:
  "\<forall>t \<in> set ts. \<not> window < t - start b \<Longrightarrow>
   verdicts m ts (Some b) = map (\<lambda>i. count b + Suc i \<le> m) [0..<length ts]"
proof (induction ts arbitrary: b)
  case (Cons t ts)
  let ?b = "hit_bucket t (Some b)"
  have b: "start ?b = start b" "count ?b = Suc (count b)" using hit_live [of t b] Cons.prems by simp_all
  with Cons have "verdicts m ts (Some ?b) = map (\<lambda>i. count ?b + Suc i \<le> m) [0..<length ts]" by simp
  moreover have "map f [0..<Suc n] = f 0 # map (\<lambda>i. f (Suc i)) [0..<n]" for f :: "nat \<Rightarrow> bool" and n
    by (rule map_upt_Suc)
  ultimately show ?case using b by (simp add: Let_def del: upt_Suc)
qed simp

lemma admitted_live:
  "\<forall>t \<in> set ts. \<not> window < t - start b \<Longrightarrow> admitted (verdicts m ts (Some b)) \<le> m - count b"
proof (induction ts arbitrary: b)
  case (Cons t ts)
  let ?b = "hit_bucket t (Some b)"
  have b: "start ?b = start b" "count ?b = Suc (count b)" using hit_live [of t b] Cons.prems by simp_all
  then have "admitted (verdicts m ts (Some ?b)) \<le> m - Suc (count b)"
    using Cons.IH [of ?b] Cons.prems by simp
  with b show ?case by (auto simp: Let_def)
qed simp

text \<open>Over any interval no longer than the window, at most two windows are in play.\<close>

lemma admitted_fresh:
  assumes "start b = t" "count b = 1" "t0 \<le> t" "\<forall>u \<in> set ts. t0 \<le> u \<and> u \<le> t0 + window"
  shows "(if 1 \<le> m then 1 else 0) + admitted (verdicts m ts (Some b)) \<le> m"
proof -
  have "\<forall>u \<in> set ts. \<not> window < u - start b" using assms by auto
  from admitted_live [OF this, of m] assms(2) show ?thesis by auto
qed

lemma admitted_interval_some:
  "\<forall>u \<in> set ts. t0 \<le> u \<and> u \<le> t0 + window \<Longrightarrow> admitted (verdicts m ts (Some b)) \<le> (m - count b) + m"
proof (induction ts arbitrary: b)
  case (Cons t ts)
  let ?b = "hit_bucket t (Some b)"
  show ?case
  proof (cases "window < t - start b")
    case True
    from hit_expired [OF this] have "start ?b = t" "count ?b = 1" by simp_all
    with admitted_fresh [of ?b t t0 ts m] Cons.prems show ?thesis by (auto simp: Let_def)
  next
    case False
    from hit_live [OF this] have "count ?b = Suc (count b)" by simp
    moreover have "admitted (verdicts m ts (Some ?b)) \<le> (m - count ?b) + m" using Cons by simp
    ultimately show ?thesis by (auto simp: Let_def)
  qed
qed simp

lemma admitted_interval:
  assumes "\<forall>u \<in> set ts. t0 \<le> u \<and> u \<le> t0 + window"
  shows "admitted (verdicts m ts e) \<le> 2 * m"
proof (cases e)
  case (Some b)
  then show ?thesis using admitted_interval_some [OF assms, of m b] by simp
next
  case None
  show ?thesis
  proof (cases ts)
    case (Cons t us)
    from hit_none [of t] admitted_fresh [of "hit_bucket t None" t t0 us m] assms Cons None
    show ?thesis by (auto simp: Let_def)
  qed simp
qed

text \<open>A first burst within one window: exactly the first \<open>m\<close> are admitted.\<close>

lemma verdicts_burst:
  assumes "\<forall>u \<in> set ts. \<not> window < u - t"
  shows "verdicts m (t # ts) None = map (\<lambda>i. i < m) [0..<Suc (length ts)]"
proof -
  have "verdicts m ts (Some (hit_bucket t None)) = map (\<lambda>i. Suc (Suc i) \<le> m) [0..<length ts]"
    using verdicts_live [of ts "hit_bucket t None" m] assms hit_none [of t] by simp
  moreover have "map (\<lambda>i. i < m) [0..<Suc n] = (0 < m) # map (\<lambda>i. Suc i < m) [0..<n]" for n
    by (rule map_upt_Suc)
  ultimately show ?thesis using hit_none [of t] by (simp add: Let_def Suc_le_eq del: upt_Suc)
qed

end

interpretation win: fixed_window "hit w" bk_start bk_count w for w
  by unfold_locales (auto simp: hit_def expired_def)

subsection \<open>The map of buckets\<close>

definition buckets_ok :: "nat \<Rightarrow> buckets \<Rightarrow> bool" where
  "buckets_ok cap m \<longleftrightarrow> distinct (map fst m) \<and> length m \<le> cap"

lemma map_fst_update: "map fst (AList.update k v m) = (if k \<in> fst ` set m then map fst m else map fst m @ [k])"
  by (induction m) auto

lemma length_update: "length (AList.update k v m) = (if k \<in> fst ` set m then length m else Suc (length m))"
  by (induction m) auto

lemma update_known: "map_of m k \<noteq> None \<longleftrightarrow> k \<in> fst ` set m"
  by (simp add: map_of_eq_None_iff)

lemma distinct_keys_drop: "distinct (map fst m) \<Longrightarrow> distinct (map fst (drop n m))"
  by (metis distinct_drop drop_map)

lemma buckets_ok_count:
  "buckets_ok cap m \<Longrightarrow> buckets_ok cap (if map_of m k = None then m else AList.update k b m)"
  by (auto simp: buckets_ok_def map_fst_update length_update map_of_eq_None_iff)

lemma buckets_ok_cap: "distinct (map fst m) \<Longrightarrow> buckets_ok cap (enforceRateLimitMapCap cap m)"
  by (simp add: buckets_ok_def enforceRateLimitMapCap_def distinct_keys_drop)

lemma count_hit_ok:
  assumes "buckets_ok cap m" shows "buckets_ok cap (snd (count_hit cap w now k m))"
proof -
  have "distinct (map fst (AList.update k v m))" for v
    using assms by (simp add: buckets_ok_def map_fst_update)
  then have "buckets_ok cap (if expired w now (map_of m k)
      then enforceRateLimitMapCap cap (AList.update k \<lparr>bk_start = now, bk_count = 0\<rparr> m) else m)"
    using assms by (simp add: buckets_ok_cap)
  then show ?thesis unfolding count_hit_def Let_def snd_conv by (rule buckets_ok_count)
qed

text \<open>Below the cap nothing is evicted: the key's bucket is hit, the others stay.\<close>

lemma count_hit_below_cap:
  assumes "length m < cap"
  shows "fst (count_hit cap w now k m) = hit w now (map_of m k)"
    and "map_of (snd (count_hit cap w now k m)) k' =
      (if k' = k then Some (hit w now (map_of m k)) else map_of m k')"
    and "length (snd (count_hit cap w now k m)) \<le> Suc (length m)"
proof -
  have keep: "enforceRateLimitMapCap cap (AList.update k v m) = AList.update k v m" for v
    using assms by (simp add: enforceRateLimitMapCap_def length_update)
  show "fst (count_hit cap w now k m) = hit w now (map_of m k)"
    by (simp add: count_hit_def Let_def)
  show "map_of (snd (count_hit cap w now k m)) k' =
      (if k' = k then Some (hit w now (map_of m k)) else map_of m k')"
  proof (cases "expired w now (map_of m k)")
    case True
    then show ?thesis by (simp add: count_hit_def Let_def keep update_conv')
  next
    case False
    then obtain b where "map_of m k = Some b" by (cases "map_of m k") (simp_all add: expired_def)
    with False show ?thesis by (simp add: count_hit_def Let_def update_conv')
  qed
  show "length (snd (count_hit cap w now k m)) \<le> Suc (length m)"
  proof -
    have "length (if map_of xs k = None then xs else AList.update k b xs) = length xs" for xs :: buckets and b
      by (auto simp: length_update map_of_eq_None_iff)
    then show ?thesis by (simp add: count_hit_def Let_def keep length_update)
  qed
qed

subsection \<open>Runs of a per-event limiter\<close>

fun consume_all :: "(int \<times> string) list \<Rightarrow> event_limiter \<Rightarrow> bool list" where
  "consume_all [] l = []"
| "consume_all ((now, u) # cs) l = fst (fst (consume now u l)) # consume_all cs (snd (consume now u l))"

text \<open>The verdicts one user gets.\<close>

definition verdicts_of :: "string \<Rightarrow> (int \<times> string) list \<Rightarrow> event_limiter \<Rightarrow> bool list" where
  "verdicts_of u cs l = map fst (filter (\<lambda>(v, c). snd c = u) (zip (consume_all cs l) cs))"

lemma consume_limits [simp]:
  "el_max (snd (consume now u l)) = el_max l" "el_windowMs (snd (consume now u l)) = el_windowMs l"
  by (auto simp: consume_def split: prod.splits)

text \<open>What others do does not touch a user's bucket, as long as nothing is evicted.\<close>

lemma verdicts_of_eq:
  "u \<noteq> [] \<Longrightarrow> length (el_buckets l) + length cs \<le> 10000 \<Longrightarrow>
   verdicts_of u cs l =
     win.verdicts (el_windowMs l) (el_max l) (map fst (filter (\<lambda>c. snd c = u) cs)) (map_of (el_buckets l) u)"
proof (induction cs arbitrary: l)
  case (Cons c cs)
  obtain now v where c: "c = (now, v)" by fastforce
  let ?l = "snd (consume now v l)"
  show ?case
  proof (cases "v = []")
    case True
    then have "?l = l" by (simp add: consume_def)
    with Cons c True show ?thesis by (simp add: verdicts_of_def)
  next
    case False
    have cap: "length (el_buckets l) < 10000" using Cons.prems by simp
    note h = count_hit_below_cap [OF cap, where w = "el_windowMs l" and now = now and k = v]
    have bs: "el_buckets ?l = snd (count_hit 10000 (el_windowMs l) now v (el_buckets l))"
      and vd: "fst (fst (consume now v l)) = (bk_count (hit (el_windowMs l) now (map_of (el_buckets l) v)) \<le> el_max l)"
      using False h(1) by (auto simp: consume_def split: prod.splits)
    have "verdicts_of u cs ?l = win.verdicts (el_windowMs l) (el_max l)
        (map fst (filter (\<lambda>c. snd c = u) cs)) (map_of (el_buckets ?l) u)"
      using Cons.IH [of ?l] Cons.prems h(3) by (simp add: bs)
    moreover have "map_of (el_buckets ?l) u =
        (if u = v then Some (hit (el_windowMs l) now (map_of (el_buckets l) v)) else map_of (el_buckets l) u)"
      using h(2) [of u] bs by simp
    ultimately show ?thesis
      using c vd by (cases "v = u") (simp_all add: verdicts_of_def Let_def)
  qed
qed (simp add: verdicts_of_def)

subsection \<open>Properties\<close>


text \<open>The maps of the limiters stay within their cap, with one bucket per key.\<close>

theorem limiter_maps_bounded:
  assumes "buckets_ok (lc_MAX_RATE_LIMIT_ENTRIES cfg) (socketRateLimits s)"
    and "buckets_ok (lc_MAX_RATE_LIMIT_ENTRIES cfg) (routeRateLimits s)"
    and "buckets_ok (lc_MAX_RATE_LIMIT_ENTRIES cfg) (authRateLimits s)"
  shows "buckets_ok (lc_MAX_RATE_LIMIT_ENTRIES cfg) (socketRateLimits (snd (consumeSocketRateLimit cfg now k m s)))
    \<and> buckets_ok (lc_MAX_RATE_LIMIT_ENTRIES cfg)
        (routeRateLimits (snd (tryRedisRateCheck cfg ans now Scoped k m w s)))
    \<and> buckets_ok (lc_MAX_RATE_LIMIT_ENTRIES cfg) (authRateLimits (snd (snd (authRateLimit cfg ans now k s))))"
proof -
  have upd: "routeRateLimits (recordFallback t now s) = routeRateLimits s" for t
    by (simp add: recordFallback_def Let_def)
  show ?thesis
    using count_hit_ok [OF assms(1)] count_hit_ok [OF assms(2)] count_hit_ok [OF assms(3)] assms(2,3)
    by (auto simp: consumeSocketRateLimit_def tryRedisRateCheck_def authRateLimit_def
        createAuthRateLimiter_def Let_def upd case_prod_beta split: redis_answer.split)
qed

text \<open>The in-memory fallback divides the budget among the workers: together they admit at
  least the configured maximum and less than one extra hit per worker.\<close>

theorem fallback_budget:
  assumes "0 < m"
  shows "int m \<le> resolveClusterSize cfg * int (fallbackMax cfg m)
    \<and> resolveClusterSize cfg * int (fallbackMax cfg m) < int m + resolveClusterSize cfg"
proof -
  let ?n = "resolveClusterSize cfg"
  have n: "0 < ?n" by (auto simp: resolveClusterSize_def split: option.splits)
  have "- int m div ?n < 0" using n assms by (simp add: div_neg_pos_less0)
  then have "int (fallbackMax cfg m) = - (- int m div ?n)" by (simp add: fallbackMax_def ceil_div_def)
  moreover have "?n * (- int m div ?n) = - int m - - int m mod ?n" by (simp add: minus_mod_eq_mult_div)
  moreover have "0 \<le> - int m mod ?n" "- int m mod ?n < ?n" using n by simp_all
  ultimately show ?thesis by (simp only: mult_minus_right) linarith
qed

text \<open>The cap does not evict the least recently used bucket, as the comment says: renewing an
  expired entry keeps its place in the map, so a user whose window has just started is evicted
  before users whose buckets are older.\<close>

theorem eviction_not_lru:
  assumes "distinct (map fst ((k, b) # m))" and "Suc (length m) = cap" and "w < now - bk_start b"
    and "k' \<notin> fst ` set ((k, b) # m)"
  shows "let m1 = snd (count_hit cap w now k ((k, b) # m)); m2 = snd (count_hit cap w now k' m1)
     in map_of m1 k = Some \<lparr>bk_start = now, bk_count = 1\<rparr> \<and> map_of m2 k = None
        \<and> (\<forall>x. x \<noteq> k \<and> x \<noteq> k' \<longrightarrow> map_of m2 x = map_of m x)"
proof -
  let ?n = "\<lparr>bk_start = now, bk_count = 1\<rparr>" and ?z = "\<lparr>bk_start = now, bk_count = 0\<rparr>"
  have m1: "snd (count_hit cap w now k ((k, b) # m)) = (k, ?n) # m"
    using assms by (simp add: count_hit_def Let_def expired_def enforceRateLimitMapCap_def hit_def)
  have new: "AList.update k' v xs = xs @ [(k', v)]" if "k' \<notin> fst ` set xs" for v :: bucket and xs
    using that by (induction xs) auto
  have none: "map_of ((k, ?n) # m) k' = None" using assms(4) by (simp add: map_of_eq_None_iff)
  have "enforceRateLimitMapCap cap (AList.update k' ?z ((k, ?n) # m)) = m @ [(k', ?z)]"
    using assms(2,4) new [of "(k, ?n) # m" ?z] by (simp add: enforceRateLimitMapCap_def)
  then have "snd (count_hit cap w now k' ((k, ?n) # m)) = AList.update k' (hit w now None) (m @ [(k', ?z)])"
    using none by (simp add: count_hit_def Let_def expired_def del: AList.update.simps)
  then have "map_of (snd (count_hit cap w now k' ((k, ?n) # m))) x =
      (if x = k' then Some (hit w now None) else map_of m x)" for x
    by (simp add: update_conv' map_add_def split: option.split)
  moreover have "map_of m k = None" "k' \<noteq> k" using assms(1,4) by (auto simp: map_of_eq_None_iff)
  ultimately show ?thesis unfolding Let_def m1 by simp
qed

definition ex_config :: limiter_config where
  "ex_config = \<lparr>lc_CLUSTER_SIZE = Some 4, lc_MAX_RATE_LIMIT_ENTRIES = 2, lc_RATE_LIMIT_WINDOW = 60000,
     lc_AUTH_RATE_LIMIT_MAX = 10, lc_AUTH_RATE_LIMIT_WINDOW = 60000, lc_SOCKET_EVENT_WINDOW = 10000,
     lc_SOCKET_CONNECT_WINDOW = 10000, lc_SOCKET_CONNECT_RATE_LIMIT = 20,
     lc_ADMIN_WRITE_RATE_LIMIT_MAX = 30\<rparr>"

definition ex_limiters :: limiter_state where
  "ex_limiters = \<lparr>routeRateLimits = [], rateLimits = [], authRateLimits = [], adminAuthRateLimits = [],
     socketRateLimits = [], userAuthRateLimits = [], socketConnectRateLimits = [],
     fallbackStats = (\<lambda>_. 0), fallbackLastWarned = (\<lambda>_. 0), warnings = []\<rparr>"


lemma limiter_maps_bounded_witness:
  "buckets_ok (lc_MAX_RATE_LIMIT_ENTRIES ex_config)
     (socketRateLimits (snd (consumeSocketRateLimit ex_config 5 ''k'' 3 ex_limiters)))
   \<and> buckets_ok (lc_MAX_RATE_LIMIT_ENTRIES ex_config)
       (routeRateLimits (snd (tryRedisRateCheck ex_config NoRedis 5 Scoped ''k'' 3 60000 ex_limiters)))
   \<and> buckets_ok (lc_MAX_RATE_LIMIT_ENTRIES ex_config)
       (authRateLimits (snd (snd (authRateLimit ex_config NoRedis 5 ''k'' ex_limiters))))"
  by (rule limiter_maps_bounded) (simp_all add: ex_limiters_def buckets_ok_def)

lemma fallback_budget_witness:
  "int 10 \<le> resolveClusterSize ex_config * int (fallbackMax ex_config 10)
   \<and> resolveClusterSize ex_config * int (fallbackMax ex_config 10) < int 10 + resolveClusterSize ex_config"
  by (rule fallback_budget) simp

lemma eviction_not_lru_witness:
  "let m1 = snd (count_hit 2 10 100 ''a'' [(''a'', \<lparr>bk_start = 0, bk_count = 3\<rparr>), (''b'', \<lparr>bk_start = 1, bk_count = 1\<rparr>)]);
       m2 = snd (count_hit 2 10 100 ''c'' m1)
   in map_of m1 ''a'' = Some \<lparr>bk_start = 100, bk_count = 1\<rparr> \<and> map_of m2 ''a'' = None
      \<and> map_of m2 ''b'' = map_of [(''b'', \<lparr>bk_start = 1, bk_count = 1\<rparr>)] ''b''"
  using eviction_not_lru [of "''a''" "\<lparr>bk_start = 0, bk_count = 3\<rparr>" "[(''b'', \<lparr>bk_start = 1, bk_count = 1\<rparr>)]"
      2 10 100 "''c''"]
  by (simp add: Let_def)

end
