(* ===== verification/Crew_Store.thy ===== *)
theory Crew_Store
  imports Prelude
begin

text \<open>
  The crew tables and their store (\<open>crews\<close> in \<open>lib/db/stores/crews.ts\<close>).  A statement, and
  a transaction of several statements, is one step on the tables; the constraints of the schema
  that the code leans on (the primary keys, the unique invite code, the unique reform triple and
  the foreign key of a membership row) are errors of the step.  The clock of the database is
  \<open>cd_now\<close>, in milliseconds.
\<close>

subsection \<open>Tables\<close>

datatype role = Owner | Member

record crew =
  cr_id :: string
  cr_festivalId :: string
  cr_name :: string
  cr_createdBy :: string
  cr_inviteCode :: string
  cr_inviteExpiresAt :: "int option"
  cr_maxMembers :: nat
  cr_reformedFrom :: "string option"
  cr_homeBaseLocation :: "string option"
  cr_homeBaseTime :: "string option"
  cr_homeBaseUpdatedAt :: "int option"
  cr_photoAlbumUrl :: "string option"
  cr_totemName :: "string option"
  cr_totemEmoji :: "string option"
  cr_createdAt :: int
  cr_updatedAt :: int

record crew_member =
  cm_crewId :: string
  cm_userId :: string
  cm_role :: role
  cm_joinedAt :: int

record user_row =
  us_username :: string
  us_name :: "string option"
  us_avatarKey :: "string option"
  us_avatarVersion :: "string option"

record profile_row =
  pf_userId :: string
  pf_festivalId :: string
  pf_picks :: "(string \<times> string) list"

text \<open>\<open>cd_users\<close> is \<open>None\<close> for an unknown or soft-deleted account, \<open>cd_festivals\<close> for an unknown or
  deleted festival.\<close>

record crew_db =
  cd_crews :: "crew list"
  cd_members :: "crew_member list"
  cd_users :: "string \<Rightarrow> user_row option"
  cd_festivals :: "string \<Rightarrow> string option"
  cd_profiles :: "profile_row list"
  cd_now :: int

datatype db_error = UniqueViolation | ForeignKeyViolation

record crew_data =
  cw_id :: string
  cw_festivalId :: string
  cw_name :: string
  cw_createdBy :: string
  cw_inviteCode :: string
  cw_inviteExpiresAt :: "int option"
  cw_maxMembers :: nat
  cw_reformedFrom :: "string option"
  cw_totemName :: "string option"
  cw_totemEmoji :: "string option"

definition WEEK_MS :: int where
  "WEEK_MS = 7 * 24 * 60 * 60 * 1000"

subsection \<open>Statements\<close>

definition crew_of_data :: "int \<Rightarrow> crew_data \<Rightarrow> crew" where
  "crew_of_data now w =
     \<lparr>cr_id = cw_id w, cr_festivalId = cw_festivalId w, cr_name = cw_name w,
      cr_createdBy = cw_createdBy w, cr_inviteCode = cw_inviteCode w,
      cr_inviteExpiresAt = cw_inviteExpiresAt w, cr_maxMembers = cw_maxMembers w,
      cr_reformedFrom = (case cw_reformedFrom w of Some f \<Rightarrow> if f = [] then None else Some f | None \<Rightarrow> None),
      cr_homeBaseLocation = None, cr_homeBaseTime = None, cr_homeBaseUpdatedAt = None,
      cr_photoAlbumUrl = None, cr_totemName = cw_totemName w, cr_totemEmoji = cw_totemEmoji w,
      cr_createdAt = now, cr_updatedAt = now\<rparr>"

text \<open>\<open>crews_pkey\<close>, \<open>crews_invite_code_key\<close> and \<open>crews_reform_idem_uidx\<close>.\<close>

definition crew_clash :: "crew \<Rightarrow> crew \<Rightarrow> bool" where
  "crew_clash c d \<longleftrightarrow> cr_id c = cr_id d \<or> cr_inviteCode c = cr_inviteCode d
     \<or> (cr_reformedFrom c \<noteq> None \<and> cr_reformedFrom c = cr_reformedFrom d
        \<and> cr_createdBy c = cr_createdBy d \<and> cr_festivalId c = cr_festivalId d)"

definition insert_crew :: "crew_data \<Rightarrow> crew_db \<Rightarrow> db_error + crew_db" where
  "insert_crew w d =
     (let c = crew_of_data (cd_now d) w
      in if \<exists>x \<in> set (cd_crews d). crew_clash c x then Inl UniqueViolation
         else Inr (d\<lparr>cd_crews := cd_crews d @ [c]\<rparr>))"

definition insert_member :: "string \<Rightarrow> string \<Rightarrow> role \<Rightarrow> crew_db \<Rightarrow> db_error + crew_db" where
  "insert_member crewId userId role d =
     (if \<exists>m \<in> set (cd_members d). cm_crewId m = crewId \<and> cm_userId m = userId then Inl UniqueViolation
      else if crewId \<notin> cr_id ` set (cd_crews d) then Inl ForeignKeyViolation
      else Inr (d\<lparr>cd_members := cd_members d @
             [\<lparr>cm_crewId = crewId, cm_userId = userId, cm_role = role, cm_joinedAt = cd_now d\<rparr>]\<rparr>))"

definition set_crew :: "string \<Rightarrow> (crew \<Rightarrow> crew) \<Rightarrow> crew_db \<Rightarrow> crew_db" where
  "set_crew crewId f d = d\<lparr>cd_crews := map (\<lambda>c. if cr_id c = crewId then f c else c) (cd_crews d)\<rparr>"

subsection \<open>The store\<close>

definition crewById :: "string \<Rightarrow> crew_db \<Rightarrow> crew option" where
  "crewById crewId d = find (\<lambda>c. cr_id c = crewId) (cd_crews d)"

definition crews_create :: "crew_data \<Rightarrow> crew_db \<Rightarrow> db_error + crew option \<times> crew_db" where
  "crews_create w d = (case insert_crew w d of Inl e \<Rightarrow> Inl e | Inr d1 \<Rightarrow> Inr (crewById (cw_id w) d1, d1))"

definition createWithOwner :: "crew_data \<Rightarrow> crew_db \<Rightarrow> db_error + crew option \<times> crew_db" where
  "createWithOwner w d =
     (case insert_crew w d of
        Inl e \<Rightarrow> Inl e
      | Inr d1 \<Rightarrow> (case insert_member (cw_id w) (cw_createdBy w) Owner d1 of
                    Inl e \<Rightarrow> Inl e
                  | Inr d2 \<Rightarrow> Inr (crewById (cw_id w) d2, d2)))"

text \<open>The totem arguments: \<open>None\<close> is an omitted field, \<open>Some None\<close> a null.\<close>

definition crews_update ::
  "string \<Rightarrow> string \<Rightarrow> nat \<Rightarrow> string option option \<Rightarrow> string option option \<Rightarrow> crew_db \<Rightarrow> crew option \<times> crew_db" where
  "crews_update crewId name maxMembers totemName totemEmoji d =
     (let d1 = set_crew crewId (\<lambda>c. c\<lparr>cr_name := name, cr_maxMembers := maxMembers,
                 cr_totemName := (case totemName of Some t \<Rightarrow> t | None \<Rightarrow> cr_totemName c),
                 cr_totemEmoji := (case totemEmoji of Some t \<Rightarrow> t | None \<Rightarrow> cr_totemEmoji c),
                 cr_updatedAt := cd_now d\<rparr>) d
      in (crewById crewId d1, d1))"

definition crews_delete :: "string \<Rightarrow> crew_db \<Rightarrow> crew_db" where
  "crews_delete crewId d =
     d\<lparr>cd_crews := filter (\<lambda>c. cr_id c \<noteq> crewId) (cd_crews d),
       cd_members := filter (\<lambda>m. cm_crewId m \<noteq> crewId) (cd_members d)\<rparr>"

definition getByInviteCode :: "string \<Rightarrow> crew_db \<Rightarrow> crew option" where
  "getByInviteCode code d =
     find (\<lambda>c. cr_inviteCode c = code \<and>
               (case cr_inviteExpiresAt c of None \<Rightarrow> True | Some t \<Rightarrow> cd_now d < t)) (cd_crews d)"

definition getExpiredByInviteCode :: "string \<Rightarrow> crew_db \<Rightarrow> string option" where
  "getExpiredByInviteCode code d =
     map_option cr_id (find (\<lambda>c. cr_inviteCode c = code \<and>
               (case cr_inviteExpiresAt c of None \<Rightarrow> False | Some t \<Rightarrow> t \<le> cd_now d)) (cd_crews d))"

definition listByFestival :: "string \<Rightarrow> crew_db \<Rightarrow> crew list" where
  "listByFestival festivalId d = sort_key cr_createdAt (filter (\<lambda>c. cr_festivalId c = festivalId) (cd_crews d))"

definition crews_of_user :: "string \<Rightarrow> crew_db \<Rightarrow> (crew \<times> crew_member) list" where
  "crews_of_user userId d =
     [(c, m). c \<leftarrow> cd_crews d, m \<leftarrow> cd_members d, cm_crewId m = cr_id c \<and> cm_userId m = userId]"

definition listByUser :: "string \<Rightarrow> crew_db \<Rightarrow> (crew \<times> crew_member) list" where
  "listByUser userId d = sort_key (\<lambda>(c, m). cr_createdAt c) (crews_of_user userId d)"

definition listByUserAndFestival :: "string \<Rightarrow> string \<Rightarrow> crew_db \<Rightarrow> (crew \<times> crew_member) list" where
  "listByUserAndFestival userId festivalId d =
     sort_key (\<lambda>(c, m). cr_createdAt c)
       (filter (\<lambda>(c, m). cr_festivalId c = festivalId) (crews_of_user userId d))"

definition regenerateInviteCode :: "string \<Rightarrow> string \<Rightarrow> crew_db \<Rightarrow> db_error + crew option \<times> crew_db" where
  "regenerateInviteCode crewId newCode d =
     (if crewId \<in> cr_id ` set (cd_crews d) \<and>
         (\<exists>c \<in> set (cd_crews d). cr_id c \<noteq> crewId \<and> cr_inviteCode c = newCode)
      then Inl UniqueViolation
      else let d1 = set_crew crewId (\<lambda>c. c\<lparr>cr_inviteCode := newCode,
                 cr_inviteExpiresAt := Some (cd_now d + WEEK_MS), cr_updatedAt := cd_now d\<rparr>) d
           in Inr (crewById crewId d1, d1))"

definition rows_of :: "string \<Rightarrow> crew_db \<Rightarrow> crew_member list" where
  "rows_of crewId d = filter (\<lambda>m. cm_crewId m = crewId) (cd_members d)"

definition getMemberCount :: "string \<Rightarrow> crew_db \<Rightarrow> nat" where
  "getMemberCount crewId d = length (rows_of crewId d)"

datatype add_result = Added | Full

definition addMember ::
  "string \<Rightarrow> string \<Rightarrow> role \<Rightarrow> nat option \<Rightarrow> crew_db \<Rightarrow> db_error + add_result \<times> crew_db" where
  "addMember crewId userId role maxMembers d =
     (case maxMembers of
        Some cap \<Rightarrow>
          (if cap \<le> getMemberCount crewId d then Inr (Full, d)
           else (case insert_member crewId userId role d of
                   Inl UniqueViolation \<Rightarrow> Inr (Added, d)
                 | Inl ForeignKeyViolation \<Rightarrow> Inl ForeignKeyViolation
                 | Inr d1 \<Rightarrow> Inr (Added, d1)))
      | None \<Rightarrow> (case insert_member crewId userId role d of Inl e \<Rightarrow> Inl e | Inr d1 \<Rightarrow> Inr (Added, d1)))"

definition removeMember :: "string \<Rightarrow> string \<Rightarrow> crew_db \<Rightarrow> crew_db" where
  "removeMember crewId userId d =
     d\<lparr>cd_members := filter (\<lambda>m. \<not> (cm_crewId m = crewId \<and> cm_userId m = userId)) (cd_members d)\<rparr>"

text \<open>Membership rows joined with the active accounts, in the order of joining.\<close>

definition join_users :: "crew_db \<Rightarrow> crew_member list \<Rightarrow> (crew_member \<times> user_row) list" where
  "join_users d ms = List.map_filter (\<lambda>m. map_option (\<lambda>u. (m, u)) (cd_users d (cm_userId m))) ms"

definition getMembers :: "string \<Rightarrow> crew_db \<Rightarrow> (crew_member \<times> user_row) list" where
  "getMembers crewId d = sort_key (\<lambda>(m, u). cm_joinedAt m) (join_users d (rows_of crewId d))"

definition getMembersForCrews ::
  "string list \<Rightarrow> crew_db \<Rightarrow> (string, (crew_member \<times> user_row) list) map" where
  "getMembersForCrews crewIds d =
     (\<lambda>crewId. if crewId \<in> set crewIds then Some (getMembers crewId d) else None)"

definition getMember :: "string \<Rightarrow> string \<Rightarrow> crew_db \<Rightarrow> crew_member option" where
  "getMember crewId userId d = find (\<lambda>m. cm_crewId m = crewId \<and> cm_userId m = userId) (cd_members d)"

definition updateMemberRole :: "string \<Rightarrow> string \<Rightarrow> role \<Rightarrow> crew_db \<Rightarrow> crew_db" where
  "updateMemberRole crewId userId role d =
     d\<lparr>cd_members := map (\<lambda>m. if cm_crewId m = crewId \<and> cm_userId m = userId then m\<lparr>cm_role := role\<rparr> else m)
         (cd_members d)\<rparr>"

definition transferOwnership :: "string \<Rightarrow> string \<Rightarrow> string \<Rightarrow> crew_db \<Rightarrow> crew_db" where
  "transferOwnership crewId fromUserId toUserId d =
     updateMemberRole crewId toUserId Owner (updateMemberRole crewId fromUserId Member d)"

definition truthy :: "string option \<Rightarrow> string option" where
  "truthy v = (case v of Some s \<Rightarrow> if s = [] then None else Some s | None \<Rightarrow> None)"

definition getCrewPickOverlap :: "string \<Rightarrow> string \<Rightarrow> crew_db \<Rightarrow> (profile_row \<times> user_row) list" where
  "getCrewPickOverlap festivalId crewId d =
     [(p, u). p \<leftarrow> cd_profiles d, m \<leftarrow> rows_of crewId d, u \<leftarrow> (case cd_users d (pf_userId p) of Some u \<Rightarrow> [u] | None \<Rightarrow> []),
        pf_festivalId p = festivalId \<and> cm_userId m = pf_userId p]"

definition updateHomeBase :: "string \<Rightarrow> string option \<Rightarrow> string option \<Rightarrow> crew_db \<Rightarrow> crew option \<times> crew_db" where
  "updateHomeBase crewId location time d =
     (let d1 = set_crew crewId (\<lambda>c. c\<lparr>cr_homeBaseLocation := truthy location, cr_homeBaseTime := truthy time,
                 cr_homeBaseUpdatedAt := Some (cd_now d), cr_updatedAt := cd_now d\<rparr>) d
      in (crewById crewId d1, d1))"

definition updatePhotoAlbum :: "string \<Rightarrow> string option \<Rightarrow> crew_db \<Rightarrow> crew option \<times> crew_db" where
  "updatePhotoAlbum crewId url d =
     (let d1 = set_crew crewId (\<lambda>c. c\<lparr>cr_photoAlbumUrl := truthy url, cr_updatedAt := cd_now d\<rparr>) d
      in (crewById crewId d1, d1))"

definition deleteByFestival :: "string \<Rightarrow> crew_db \<Rightarrow> crew_db" where
  "deleteByFestival festivalId d =
     (let gone = cr_id ` set (filter (\<lambda>c. cr_festivalId c = festivalId) (cd_crews d))
      in d\<lparr>cd_crews := filter (\<lambda>c. cr_festivalId c \<noteq> festivalId) (cd_crews d),
           cd_members := filter (\<lambda>m. cm_crewId m \<notin> gone) (cd_members d)\<rparr>)"

subsection \<open>Invariants of the tables\<close>

definition member_key :: "crew_member \<Rightarrow> string \<times> string" where
  "member_key m = (cm_crewId m, cm_userId m)"

text \<open>The schema: primary keys, unique codes, no membership without its crew.\<close>

definition tables_ok :: "crew_db \<Rightarrow> bool" where
  "tables_ok d \<longleftrightarrow> unique_keys cr_id (cd_crews d) \<and> unique_keys cr_inviteCode (cd_crews d)
     \<and> unique_keys member_key (cd_members d) \<and> cm_crewId ` set (cd_members d) \<subseteq> cr_id ` set (cd_crews d)"

definition owners_of :: "string \<Rightarrow> crew_db \<Rightarrow> string list" where
  "owners_of crewId d = map cm_userId (filter (\<lambda>m. cm_role m = Owner) (rows_of crewId d))"

definition one_owner :: "crew_db \<Rightarrow> bool" where
  "one_owner d \<longleftrightarrow> (\<forall>c \<in> cr_id ` set (cd_crews d). \<exists>u. owners_of c d = [u])"

definition sizes_ok :: "nat \<Rightarrow> crew_db \<Rightarrow> bool" where
  "sizes_ok n d \<longleftrightarrow> (\<forall>c. getMemberCount c d \<le> n) \<and> (\<forall>c \<in> set (cd_crews d). cr_maxMembers c \<le> n)"

named_theorems crew_defs \<open>the statements of the crew store\<close>

lemmas [crew_defs] = insert_crew_def insert_member_def crew_clash_def set_crew_def crews_update_def crews_delete_def
  regenerateInviteCode_def addMember_def removeMember_def updateMemberRole_def transferOwnership_def
  createWithOwner_def

lemma crewById_Some: "crewById i d = Some c \<Longrightarrow> c \<in> set (cd_crews d) \<and> cr_id c = i"
  by (auto simp: crewById_def find_Some_iff)

lemma crewById_id: "crewById i d = Some c \<Longrightarrow> i \<in> cr_id ` set (cd_crews d)"
  by (auto dest: crewById_Some)

lemma getMember_Some:
  "getMember c u d = Some m \<Longrightarrow> m \<in> set (cd_members d) \<and> cm_crewId m = c \<and> cm_userId m = u"
  by (auto simp: getMember_def find_Some_iff)

lemma getByInviteCode_Some: "getByInviteCode k d = Some c \<Longrightarrow> c \<in> set (cd_crews d) \<and> cr_inviteCode c = k"
  by (auto simp: getByInviteCode_def find_Some_iff)

lemma set_crew_ids [simp]: "(\<And>c. cr_id (f c) = cr_id c) \<Longrightarrow> map cr_id (cd_crews (set_crew i f d)) = map cr_id (cd_crews d)"
  by (simp add: set_crew_def)

lemma set_crew_members [simp]: "cd_members (set_crew i f d) = cd_members d"
  by (simp add: set_crew_def)

text \<open>The statements on memberships touch one crew's rows.\<close>

lemma rows_of_insert:
  "insert_member i u r d = Inr d' \<Longrightarrow>
   rows_of c d' = rows_of c d @
     (if c = i then [\<lparr>cm_crewId = i, cm_userId = u, cm_role = r, cm_joinedAt = cd_now d\<rparr>] else [])
   \<and> cd_crews d' = cd_crews d"
  by (auto simp: insert_member_def rows_of_def split: if_splits)

lemma rows_of_remove:
  "rows_of c (removeMember i u d) = (if c = i then filter (\<lambda>m. cm_userId m \<noteq> u) (rows_of c d) else rows_of c d)"
  by (auto simp: removeMember_def rows_of_def intro!: filter_cong)

lemma removeMember_crews [simp]: "cd_crews (removeMember i u d) = cd_crews d"
  by (simp add: removeMember_def)

lemma rows_of_role:
  "rows_of c (updateMemberRole i u r d) =
     (if c = i then map (\<lambda>m. if cm_userId m = u then m\<lparr>cm_role := r\<rparr> else m) (rows_of c d) else rows_of c d)"
proof -
  have "filter (\<lambda>m. cm_crewId m = c) (map (\<lambda>m. if cm_crewId m = i \<and> cm_userId m = u then m\<lparr>cm_role := r\<rparr> else m) ms)
     = (if c = i then map (\<lambda>m. if cm_userId m = u then m\<lparr>cm_role := r\<rparr> else m) (filter (\<lambda>m. cm_crewId m = c) ms)
        else filter (\<lambda>m. cm_crewId m = c) ms)" for ms
    by (induction ms) auto
  from this [of "cd_members d"] show ?thesis by (simp add: rows_of_def updateMemberRole_def)
qed

lemma rows_of_delete: "rows_of c (crews_delete i d) = (if c = i then [] else rows_of c d)"
proof -
  have "filter (\<lambda>m. cm_crewId m = c \<and> cm_crewId m \<noteq> i) ms = (if c = i then [] else filter (\<lambda>m. cm_crewId m = c) ms)"
    for ms :: "crew_member list"
    by (induction ms) auto
  then show ?thesis by (simp add: rows_of_def crews_delete_def conj_commute)
qed

lemma rows_unique:
  assumes "tables_ok d"
  shows "unique_keys cm_userId (rows_of c d)"
proof -
  have "distinct (map member_key (rows_of c d))"
    using assms by (simp add: tables_ok_def rows_of_def distinct_map_filter)
  moreover have "map member_key (rows_of c d) = map (Pair c) (map cm_userId (rows_of c d))"
    by (simp add: rows_of_def member_key_def)
  ultimately show ?thesis by (metis distinct_map)
qed

lemma no_crew_no_rows: "tables_ok d \<Longrightarrow> c \<notin> cr_id ` set (cd_crews d) \<Longrightarrow> rows_of c d = []"
  by (auto simp: tables_ok_def rows_of_def filter_empty_conv)

subsection \<open>Preservation\<close>

lemma tables_ok_insert_crew:
  assumes "insert_crew w d = Inr d'" and "tables_ok d"
  shows "tables_ok d'" and "cd_members d' = cd_members d"
    and "cd_crews d' = cd_crews d @ [crew_of_data (cd_now d) w]"
    and "cw_id w \<notin> cr_id ` set (cd_crews d)"
  using assms
  by (auto simp: insert_crew_def tables_ok_def crew_clash_def crew_of_data_def Let_def image_subset_iff split: if_splits)

lemma tables_ok_insert_member:
  assumes "insert_member i u r d = Inr d'" and "tables_ok d"
  shows "tables_ok d'"
  using assms
  by (auto simp: insert_member_def tables_ok_def member_key_def image_subset_iff split: if_splits) blast

lemma createWithOwner_cases:
  assumes "createWithOwner w d = Inr (c, d')"
  obtains d1 where "insert_crew w d = Inr d1" and "insert_member (cw_id w) (cw_createdBy w) Owner d1 = Inr d'"
  using assms by (auto simp: createWithOwner_def split: sum.splits)

lemma createWithOwner_tables [inv_intros]:
  "createWithOwner w d = Inr (c, d') \<Longrightarrow> tables_ok d \<Longrightarrow> tables_ok d'"
  by (metis createWithOwner_cases tables_ok_insert_crew(1) tables_ok_insert_member)

lemma createWithOwner_rows:
  assumes "createWithOwner w d = Inr (c, d')" and "tables_ok d"
  shows "rows_of x d' = (if x = cw_id w then [\<lparr>cm_crewId = cw_id w, cm_userId = cw_createdBy w, cm_role = Owner,
            cm_joinedAt = cd_now d\<rparr>] else rows_of x d)"
    and "cd_crews d' = cd_crews d @ [crew_of_data (cd_now d) w]"
    and "cw_id w \<notin> cr_id ` set (cd_crews d)"
proof -
  obtain d1 where d1: "insert_crew w d = Inr d1" "insert_member (cw_id w) (cw_createdBy w) Owner d1 = Inr d'"
    using assms(1) by (rule createWithOwner_cases)
  note i = tables_ok_insert_crew [OF d1(1) assms(2)]
  have "rows_of x d1 = rows_of x d" for x by (simp add: rows_of_def i(2))
  moreover have "cd_now d1 = cd_now d" using d1(1) by (auto simp: insert_crew_def Let_def split: if_splits)
  moreover have "rows_of (cw_id w) d = []" by (rule no_crew_no_rows [OF assms(2) i(4)])
  ultimately show "rows_of x d' = (if x = cw_id w then [\<lparr>cm_crewId = cw_id w, cm_userId = cw_createdBy w,
       cm_role = Owner, cm_joinedAt = cd_now d\<rparr>] else rows_of x d)"
    using rows_of_insert [OF d1(2), of x] by auto
  show "cd_crews d' = cd_crews d @ [crew_of_data (cd_now d) w]"
    using rows_of_insert [OF d1(2), of x] i(3) by simp
  show "cw_id w \<notin> cr_id ` set (cd_crews d)" by (rule i(4))
qed

lemma tables_ok_remove [inv_intros]: "tables_ok d \<Longrightarrow> tables_ok (removeMember i u d)"
  by (auto simp: tables_ok_def removeMember_def distinct_map_filter)

lemma updateMemberRole_keys:
  "map member_key (cd_members (updateMemberRole i u r d)) = map member_key (cd_members d)"
  "map cm_crewId (cd_members (updateMemberRole i u r d)) = map cm_crewId (cd_members d)"
  "cd_crews (updateMemberRole i u r d) = cd_crews d"
  by (simp_all add: updateMemberRole_def member_key_def)

lemma tables_ok_role [inv_intros]: "tables_ok d \<Longrightarrow> tables_ok (updateMemberRole i u r d)"
  unfolding tables_ok_def list.set_map [symmetric] by (simp only: updateMemberRole_keys)

lemma tables_ok_transfer [inv_intros]: "tables_ok d \<Longrightarrow> tables_ok (transferOwnership i u v d)"
  by (simp add: transferOwnership_def tables_ok_role)

lemma tables_ok_delete [inv_intros]: "tables_ok d \<Longrightarrow> tables_ok (crews_delete i d)"
  by (auto simp: tables_ok_def crews_delete_def distinct_map_filter image_iff)

lemma tables_ok_set_crew:
  "tables_ok d \<Longrightarrow> (\<And>c. cr_id (f c) = cr_id c) \<Longrightarrow> (\<And>c. cr_inviteCode (f c) = cr_inviteCode c) \<Longrightarrow>
   tables_ok (set_crew i f d)"
proof -
  assume ok: "tables_ok d" and f: "\<And>c. cr_id (f c) = cr_id c" "\<And>c. cr_inviteCode (f c) = cr_inviteCode c"
  have codes: "map cr_inviteCode (cd_crews (set_crew i f d)) = map cr_inviteCode (cd_crews d)"
    by (simp add: set_crew_def f(2))
  have ids: "map cr_id (cd_crews (set_crew i f d)) = map cr_id (cd_crews d)" by (simp add: f(1))
  have "cr_id ` set (cd_crews (set_crew i f d)) = cr_id ` set (cd_crews d)" by (metis ids list.set_map)
  with ok show ?thesis unfolding tables_ok_def by (simp only: codes ids set_crew_members)
qed

lemma tables_ok_update [inv_intros]: "tables_ok d \<Longrightarrow> tables_ok (snd (crews_update i n k t e d))"
  by (simp add: crews_update_def Let_def tables_ok_set_crew)

lemma tables_ok_add [inv_intros]:
  "addMember i u r cap d = Inr (a, d') \<Longrightarrow> tables_ok d \<Longrightarrow> tables_ok d'"
  by (auto simp: addMember_def dest: tables_ok_insert_member split: option.splits if_splits sum.splits db_error.splits)

lemma tables_ok_regenerate [inv_intros]:
  assumes "regenerateInviteCode i k d = Inr (c, d')" and "tables_ok d"
  shows "tables_ok d'"
proof -
  let ?f = "\<lambda>c. c\<lparr>cr_inviteCode := k, cr_inviteExpiresAt := Some (cd_now d + WEEK_MS), cr_updatedAt := cd_now d\<rparr>"
  have d': "d' = set_crew i ?f d" and free: "i \<in> cr_id ` set (cd_crews d) \<Longrightarrow>
      \<forall>c \<in> set (cd_crews d). cr_id c \<noteq> i \<longrightarrow> cr_inviteCode c \<noteq> k"
    using assms(1) by (auto simp: regenerateInviteCode_def Let_def split: if_splits)
  have ids: "map cr_id (cd_crews d') = map cr_id (cd_crews d)" by (simp add: d')
  have "unique_keys cr_inviteCode (map (\<lambda>c. if cr_id c = i then ?f c else c) cs)"
    if "unique_keys cr_id cs" "unique_keys cr_inviteCode cs" "\<forall>c \<in> set cs. cr_id c \<noteq> i \<longrightarrow> cr_inviteCode c \<noteq> k
        \<or> i \<notin> cr_id ` set (cd_crews d)" "set cs \<subseteq> set (cd_crews d)" for cs
    using that by (induction cs) (auto simp: image_iff split: if_splits)
  then have "unique_keys cr_inviteCode (cd_crews d')"
    using assms(2) free by (auto simp: d' set_crew_def tables_ok_def)
  moreover have "cr_id ` set (cd_crews d') = cr_id ` set (cd_crews d)" by (metis ids list.set_map)
  ultimately show ?thesis using assms(2) unfolding tables_ok_def by (simp add: ids d')
qed

subsection \<open>Ownership and size\<close>

lemma owners_rows: "u \<in> set (owners_of c d) \<longleftrightarrow> (\<exists>m \<in> set (rows_of c d). cm_userId m = u \<and> cm_role m = Owner)"
  by (auto simp: owners_of_def)

lemma owners_insert:
  "insert_member i u r d = Inr d' \<Longrightarrow>
   owners_of c d' = owners_of c d @ (if c = i \<and> r = Owner then [u] else [])"
  using rows_of_insert [of i u r d d' c] by (auto simp: owners_of_def)

lemma owners_remove:
  "owners_of c (removeMember i u d) = (if c = i then filter (\<lambda>v. v \<noteq> u) (owners_of c d) else owners_of c d)"
proof -
  have "map cm_userId (filter (\<lambda>m. cm_role m = Owner) (filter (\<lambda>m. cm_userId m \<noteq> u) ms))
      = filter (\<lambda>v. v \<noteq> u) (map cm_userId (filter (\<lambda>m. cm_role m = Owner) ms))" for ms
    by (induction ms) auto
  from this [of "rows_of i d"] show ?thesis by (simp add: owners_of_def rows_of_remove)
qed

lemma owners_role_other: "c \<noteq> i \<Longrightarrow> owners_of c (updateMemberRole i u r d) = owners_of c d"
  by (simp add: owners_of_def rows_of_role)

lemma owners_demote:
  "owners_of i (updateMemberRole i u Member d) = filter (\<lambda>v. v \<noteq> u) (owners_of i d)"
proof -
  have "map cm_userId (filter (\<lambda>m. cm_role m = Owner)
          (map (\<lambda>m. if cm_userId m = u then m\<lparr>cm_role := Member\<rparr> else m) ms))
      = filter (\<lambda>v. v \<noteq> u) (map cm_userId (filter (\<lambda>m. cm_role m = Owner) ms))" for ms
    by (induction ms) auto
  then show ?thesis by (simp add: owners_of_def rows_of_role)
qed

lemma owners_promote:
  assumes "unique_keys cm_userId (rows_of i d)" and "u \<notin> set (owners_of i d)"
  shows "length (owners_of i (updateMemberRole i u Owner d))
      = length (owners_of i d) + (if u \<in> cm_userId ` set (rows_of i d) then 1 else 0)"
    and "set (owners_of i (updateMemberRole i u Owner d))
      = set (owners_of i d) \<union> (if u \<in> cm_userId ` set (rows_of i d) then {u} else {})"
proof -
  let ?own = "\<lambda>ms. map cm_userId (filter (\<lambda>m. cm_role m = Owner) ms)"
  let ?f = "\<lambda>m. if cm_userId m = u then m\<lparr>cm_role := Owner\<rparr> else m"
  have "length (?own (map ?f ms)) = length (?own ms) + (if u \<in> cm_userId ` set ms then 1 else 0)
      \<and> set (?own (map ?f ms)) = set (?own ms) \<union> (if u \<in> cm_userId ` set ms then {u} else {})"
    if "unique_keys cm_userId ms" "u \<notin> set (?own ms)" for ms
    using that
  proof (induction ms)
    case (Cons m ms)
    show ?case
    proof (cases "cm_userId m = u")
      case True
      with Cons.prems have "u \<notin> cm_userId ` set ms" "cm_role m \<noteq> Owner" by auto
      moreover from this have "map ?f ms = ms" by (intro map_idI) auto
      ultimately show ?thesis using True by auto
    next
      case False
      with Cons.prems have "unique_keys cm_userId ms" "u \<notin> set (?own ms)" by (auto split: if_splits)
      from Cons.IH [OF this] False show ?thesis by auto
    qed
  qed simp
  from this [of "rows_of i d"] assms
  show "length (owners_of i (updateMemberRole i u Owner d))
      = length (owners_of i d) + (if u \<in> cm_userId ` set (rows_of i d) then 1 else 0)"
    and "set (owners_of i (updateMemberRole i u Owner d))
      = set (owners_of i d) \<union> (if u \<in> cm_userId ` set (rows_of i d) then {u} else {})"
    by (auto simp: owners_of_def rows_of_role)
qed

lemma one_owner_frame:
  "one_owner d \<Longrightarrow> cr_id ` set (cd_crews d') \<subseteq> cr_id ` set (cd_crews d) \<Longrightarrow>
   (\<And>c. c \<in> cr_id ` set (cd_crews d') \<Longrightarrow> owners_of c d' = owners_of c d) \<Longrightarrow> one_owner d'"
  by (auto simp: one_owner_def)

lemma one_owner_transfer:
  assumes ok: "tables_ok d" and one: "one_owner d" and cur: "u \<in> set (owners_of i d)"
    and to: "v \<in> cm_userId ` set (rows_of i d)" and neq: "v \<noteq> u"
  shows "one_owner (transferOwnership i u v d)" and "owners_of i (transferOwnership i u v d) = [v]"
proof -
  let ?d1 = "updateMemberRole i u Member d"
  have "i \<in> cr_id ` set (cd_crews d)"
    using no_crew_no_rows [OF ok, of i] to by fastforce
  with one cur have own: "owners_of i d = [u]" by (auto simp: one_owner_def)
  have o1: "owners_of i ?d1 = []" by (simp add: owners_demote own)
  have "unique_keys cm_userId (rows_of i ?d1)" by (rule rows_unique [OF tables_ok_role [OF ok]])
  moreover have "cm_userId ` set (rows_of i ?d1) = cm_userId ` set (rows_of i d)"
    unfolding list.set_map [symmetric] by (rule arg_cong [where f = set]) (simp add: rows_of_role)
  ultimately have "length (owners_of i (transferOwnership i u v d)) = 1"
    "set (owners_of i (transferOwnership i u v d)) = {v}"
    using owners_promote [of i ?d1 v] to o1 by (auto simp: transferOwnership_def)
  then show o2: "owners_of i (transferOwnership i u v d) = [v]"
    by (cases "owners_of i (transferOwnership i u v d)") auto
  have "owners_of c (transferOwnership i u v d) = owners_of c d" if "c \<noteq> i" for c
    using that by (simp add: transferOwnership_def owners_role_other)
  with one o2 show "one_owner (transferOwnership i u v d)"
    by (auto simp: one_owner_def transferOwnership_def updateMemberRole_keys) metis
qed

lemma one_owner_create:
  assumes "createWithOwner w d = Inr (c, d')" and "tables_ok d" and "one_owner d"
  shows "one_owner d'"
proof -
  note r = createWithOwner_rows [OF assms(1,2)]
  have "owners_of x d' = (if x = cw_id w then [cw_createdBy w] else owners_of x d)" for x
    by (simp add: owners_of_def r(1))
  then show ?thesis using assms(3) by (auto simp: one_owner_def r(2) crew_of_data_def)
qed

lemma one_owner_remove:
  "one_owner d \<Longrightarrow> u \<notin> set (owners_of i d) \<Longrightarrow> one_owner (removeMember i u d)"
  by (rule one_owner_frame [of d]) (auto simp: owners_remove filter_id_conv)

lemma one_owner_add:
  "addMember i u Member cap d = Inr (a, d') \<Longrightarrow> one_owner d \<Longrightarrow> one_owner d'"
proof -
  assume a: "addMember i u Member cap d = Inr (a, d')" and one: "one_owner d"
  have "d' = d \<or> insert_member i u Member d = Inr d'"
    using a by (auto simp: addMember_def split: option.splits if_splits sum.splits db_error.splits)
  then show "one_owner d'"
    using one rows_of_insert [of i u Member d d'] by (auto simp: one_owner_def owners_insert)
qed

lemma one_owner_delete: "one_owner d \<Longrightarrow> one_owner (crews_delete i d)"
proof (rule one_owner_frame [of d])
  fix c
  assume "c \<in> cr_id ` set (cd_crews (crews_delete i d))"
  then have "c \<noteq> i" by (auto simp: crews_delete_def)
  then show "owners_of c (crews_delete i d) = owners_of c d" by (simp add: owners_of_def rows_of_delete)
qed (auto simp: crews_delete_def)

lemma one_owner_set_crew:
  "one_owner d \<Longrightarrow> (\<And>c. cr_id (f c) = cr_id c) \<Longrightarrow> one_owner (set_crew i f d)"
  by (rule one_owner_frame [of d]) (auto simp: owners_of_def rows_of_def set_crew_def)

lemma sizes_add:
  assumes "addMember i u r (Some cap) d = Inr (a, d')" and "cap \<le> n" and "sizes_ok n d"
  shows "sizes_ok n d'"
proof -
  have "d' = d \<or> getMemberCount i d < cap \<and> insert_member i u r d = Inr d'"
    using assms(1) by (auto simp: addMember_def split: if_splits sum.splits db_error.splits)
  moreover have "sizes_ok n d'" if "getMemberCount i d < cap" "insert_member i u r d = Inr d'"
    using rows_of_insert [OF that(2)] that(1) assms(2,3) by (auto simp: sizes_ok_def getMemberCount_def)
  ultimately show ?thesis using assms(3) by blast
qed

lemma sizes_remove: "sizes_ok n d \<Longrightarrow> sizes_ok n (removeMember i u d)"
proof -
  have "length (rows_of c (removeMember i u d)) \<le> length (rows_of c d)" for c by (simp add: rows_of_remove)
  then show "sizes_ok n d \<Longrightarrow> ?thesis"
    unfolding sizes_ok_def getMemberCount_def by (simp) (blast intro: order_trans)
qed

lemma sizes_role: "sizes_ok n d \<Longrightarrow> sizes_ok n (updateMemberRole i u r d)"
  by (auto simp: sizes_ok_def getMemberCount_def rows_of_role updateMemberRole_keys)

lemma sizes_delete: "sizes_ok n d \<Longrightarrow> sizes_ok n (crews_delete i d)"
  by (auto simp: sizes_ok_def getMemberCount_def rows_of_delete) (simp add: crews_delete_def)

lemma sizes_set_crew:
  "sizes_ok n d \<Longrightarrow> (\<And>c. cr_maxMembers c \<le> n \<Longrightarrow> cr_maxMembers (f c) \<le> n) \<Longrightarrow> sizes_ok n (set_crew i f d)"
  by (auto simp: sizes_ok_def getMemberCount_def rows_of_def set_crew_def)

lemma sizes_create:
  assumes "createWithOwner w d = Inr (c, d')" and "tables_ok d" and "sizes_ok n d"
    and "0 < n" and "cw_maxMembers w \<le> n"
  shows "sizes_ok n d'"
  using assms(3-5) createWithOwner_rows [OF assms(1,2)]
  by (auto simp: sizes_ok_def getMemberCount_def crew_of_data_def)

end
