(* ===== verification/Crew_Routes.thy ===== *)
theory Crew_Routes
  imports Crew_Store Sanitize "HOL-Library.Word" "HOL-Library.Sublist"
begin

text \<open>
  The crew routes (\<open>routes/crews.ts\<close>, \<open>routes/crew-members.ts\<close>, \<open>routes/crew-invites.ts\<close>) with
  the roster planning of \<open>lib/crew-reform.ts\<close>, over the crew store.  A handler that writes is a
  check of the tables, which ends in an error or in what to write, followed by the write and the
  answer; \<open>Crew_Races\<close> lets other requests run in between.  The server state adds the live
  sockets: a socket is in rooms, carries the stamps of the location handler and collects the
  events sent to it.
\<close>

subsection \<open>Wire format\<close>

record serialized_crew =
  sc_id :: string
  sc_festivalId :: string
  sc_name :: string
  sc_owner :: string
  sc_createdBy :: string
  sc_maxMembers :: nat
  sc_reformedFrom :: "string option"
  sc_createdAt :: int
  sc_updatedAt :: int
  sc_homeBaseLocation :: "string option"
  sc_homeBaseTime :: "string option"
  sc_homeBaseUpdatedAt :: "int option"
  sc_photoAlbumUrl :: "string option"
  sc_totem_name :: "string option"
  sc_totem_emoji :: "string option"
  sc_role :: "role option"
  sc_joinedAt :: "int option"
  sc_inviteCode :: "string option"
  sc_inviteExpiresAt :: "int option"

record serialized_member =
  sm_userId :: string
  sm_username :: string
  sm_name :: string
  sm_avatarKey :: "string option"
  sm_avatarVersion :: "string option"
  sm_role :: role
  sm_joinedAt :: int

type_synonym crew_view = "serialized_crew \<times> serialized_member list"

definition serializeCrew :: "crew \<Rightarrow> crew_member option \<Rightarrow> serialized_crew" where
  "serializeCrew c membership =
     (let role = map_option cm_role membership
      in \<lparr>sc_id = cr_id c, sc_festivalId = cr_festivalId c, sc_name = cr_name c,
          sc_owner = cr_createdBy c, sc_createdBy = cr_createdBy c, sc_maxMembers = cr_maxMembers c,
          sc_reformedFrom = cr_reformedFrom c, sc_createdAt = cr_createdAt c, sc_updatedAt = cr_updatedAt c,
          sc_homeBaseLocation = truthy (cr_homeBaseLocation c), sc_homeBaseTime = truthy (cr_homeBaseTime c),
          sc_homeBaseUpdatedAt = cr_homeBaseUpdatedAt c, sc_photoAlbumUrl = truthy (cr_photoAlbumUrl c),
          sc_totem_name = cr_totemName c, sc_totem_emoji = cr_totemEmoji c,
          sc_role = role, sc_joinedAt = map_option cm_joinedAt membership,
          sc_inviteCode = (if role = Some Owner then Some (cr_inviteCode c) else None),
          sc_inviteExpiresAt = (if role = Some Owner then cr_inviteExpiresAt c else None)\<rparr>)"

definition serializeMember :: "crew_member \<times> user_row \<Rightarrow> serialized_member" where
  "serializeMember mu = (case mu of (m, u) \<Rightarrow>
     \<lparr>sm_userId = cm_userId m, sm_username = us_username u, sm_name = us_username u,
      sm_avatarKey = truthy (us_avatarKey u), sm_avatarVersion = truthy (us_avatarVersion u),
      sm_role = cm_role m, sm_joinedAt = cm_joinedAt m\<rparr>)"

text \<open>The requesting user is \<open>None\<close> for a broadcast.\<close>

definition serializeCrewWithMembers :: "crew \<Rightarrow> (crew_member \<times> user_row) list \<Rightarrow> string option \<Rightarrow> crew_view" where
  "serializeCrewWithMembers c members requestingUserId =
     (serializeCrew c (map_option fst (find (\<lambda>(m, u). Some (cm_userId m) = requestingUserId) members)),
      map serializeMember members)"

subsection \<open>Sockets\<close>

datatype crew_event =
    CrewMemberJoined string string string
  | CrewMemberLeft string string string
  | CrewMemberKicked string string
  | CrewUpdated crew_view
  | CrewDeleted string string
  | CrewReformed string string string
  | LocationPeerStopped string string
  | CrewAccessRevoked string

record live_socket =
  so_id :: nat
  so_userId :: string
  so_rooms :: "string list"
  so_sharingCrewId :: "string option"
  so_membershipCheckedAt :: "int option"
  so_membershipUpdateCount :: "nat option"
  so_inbox :: "crew_event list"

record crew_srv =
  sv_db :: crew_db
  sv_db_up :: bool
  sv_sockets :: "live_socket list"
  sv_adapter_up :: bool

definition crew_room :: "string \<Rightarrow> string" where
  "crew_room crewId = ''crew:'' @ crewId"

definition in_room :: "string \<Rightarrow> live_socket \<Rightarrow> bool" where
  "in_room room s \<longleftrightarrow> room \<in> set (so_rooms s)"

text \<open>\<open>io.to(room).emit\<close>, and \<open>s.to(room).emit\<close>, which spares the sender.\<close>

definition deliver :: "crew_event \<Rightarrow> live_socket \<Rightarrow> live_socket" where
  "deliver ev s = s\<lparr>so_inbox := so_inbox s @ [ev]\<rparr>"

definition emit_room :: "string \<Rightarrow> crew_event \<Rightarrow> live_socket list \<Rightarrow> live_socket list" where
  "emit_room room ev = map (\<lambda>s. if in_room room s then deliver ev s else s)"

definition emit_room_except :: "nat \<Rightarrow> string \<Rightarrow> crew_event \<Rightarrow> live_socket list \<Rightarrow> live_socket list" where
  "emit_room_except i room ev = map (\<lambda>s. if in_room room s \<and> so_id s \<noteq> i then deliver ev s else s)"

definition leave_room :: "string \<Rightarrow> live_socket \<Rightarrow> live_socket" where
  "leave_room room s = s\<lparr>so_rooms := filter (\<lambda>r. r \<noteq> room) (so_rooms s)\<rparr>"

definition clear_stamps :: "live_socket \<Rightarrow> live_socket" where
  "clear_stamps s = s\<lparr>so_sharingCrewId := None, so_membershipCheckedAt := None, so_membershipUpdateCount := None\<rparr>"

text \<open>The body of the loop over the fetched sockets.\<close>

definition evict_socket :: "string \<Rightarrow> string \<Rightarrow> live_socket \<Rightarrow> live_socket list \<Rightarrow> live_socket list" where
  "evict_socket crewId removedUserId s all =
     (if so_userId s \<noteq> removedUserId then all
      else let told = (if so_sharingCrewId s = Some crewId
                       then emit_room_except (so_id s) (crew_room crewId) (LocationPeerStopped crewId removedUserId) all
                       else all)
           in map (\<lambda>x. if so_id x = so_id s
                       then leave_room (crew_room crewId) (clear_stamps (deliver (CrewAccessRevoked crewId) x))
                       else x) told)"

definition evictUserFromCrewRoom :: "string \<Rightarrow> string \<Rightarrow> crew_srv \<Rightarrow> crew_srv" where
  "evictUserFromCrewRoom crewId removedUserId v =
     (if \<not> sv_adapter_up v then v
      else v\<lparr>sv_sockets := fold (evict_socket crewId removedUserId)
                (filter (in_room (crew_room crewId)) (sv_sockets v)) (sv_sockets v)\<rparr>)"

definition evictAllFromCrewRoom :: "string \<Rightarrow> crew_srv \<Rightarrow> crew_srv" where
  "evictAllFromCrewRoom crewId v =
     (if \<not> sv_adapter_up v then v
      else v\<lparr>sv_sockets := map (\<lambda>s. if in_room (crew_room crewId) s
          then leave_room (crew_room crewId)
                 (s\<lparr>so_sharingCrewId := (if so_sharingCrewId s = Some crewId then None else so_sharingCrewId s),
                    so_membershipCheckedAt := None, so_membershipUpdateCount := None\<rparr>)
          else s) (sv_sockets v)\<rparr>)"

definition tell_room :: "string \<Rightarrow> crew_event \<Rightarrow> crew_srv \<Rightarrow> crew_srv" where
  "tell_room crewId ev v = v\<lparr>sv_sockets := emit_room (crew_room crewId) ev (sv_sockets v)\<rparr>"

text \<open>A handler whose checks and answer are given: a failing database answers 500 before
  anything is written.\<close>

definition handle ::
  "string \<Rightarrow> crew_srv \<Rightarrow> (crew_db \<Rightarrow> http_error + 'c) \<Rightarrow> ('c \<Rightarrow> crew_srv \<Rightarrow> 'a http \<times> crew_srv) \<Rightarrow> 'a http \<times> crew_srv" where
  "handle oops v check act =
     (if \<not> sv_db_up v then (Inl (500, oops, INTERNAL_ERROR), v)
      else (case check (sv_db v) of Inl e \<Rightarrow> (Inl e, v) | Inr c \<Rightarrow> act c v))"

definition respond :: "nat \<Rightarrow> 'a \<Rightarrow> crew_srv \<Rightarrow> 'a http \<times> crew_srv" where
  "respond st a v = (Inr (st, a), v)"

subsection \<open>Ownership, joining and leaving\<close>

definition MAX_CREWS_PER_USER_PER_FESTIVAL :: nat where
  "MAX_CREWS_PER_USER_PER_FESTIVAL = 3"

definition resolveCrewOwnership :: "string \<Rightarrow> string \<Rightarrow> string \<Rightarrow> crew_db \<Rightarrow> http_error + crew" where
  "resolveCrewOwnership crewId userId actionLabel d =
     (case crewById crewId d of
        None \<Rightarrow> Inl (404, ''Crew not found'', NOT_FOUND)
      | Some c \<Rightarrow> (case getMember crewId userId d of
            None \<Rightarrow> Inl (403, ''Only the crew owner can '' @ actionLabel, FORBIDDEN)
          | Some m \<Rightarrow> if cm_role m \<noteq> Owner then Inl (403, ''Only the crew owner can '' @ actionLabel, FORBIDDEN)
                      else Inr c))"

definition with_crew_id :: "string \<Rightarrow> (string \<Rightarrow> http_error + 'a) \<Rightarrow> http_error + 'a" where
  "with_crew_id param k = (case sanitizeIdentifier param of
     None \<Rightarrow> Inl (400, ''Invalid crew ID'', INVALID_INPUT) | Some i \<Rightarrow> k i)"

definition has_profile :: "string \<Rightarrow> string \<Rightarrow> crew_db \<Rightarrow> bool" where
  "has_profile userId festivalId d \<longleftrightarrow> (\<exists>p \<in> set (cd_profiles d). pf_userId p = userId \<and> pf_festivalId p = festivalId)"

definition crew_full :: http_error where
  "crew_full = (400, ''Crew is full'', MAX_LIMIT_REACHED)"

definition max_crews :: http_error where
  "max_crews = (400, ''Maximum 3 crews per festival'', MAX_LIMIT_REACHED)"

definition join_check :: "string \<Rightarrow> string \<Rightarrow> crew_db \<Rightarrow> http_error + crew" where
  "join_check userId inviteCode d =
     (let code = js_trim (to_upper inviteCode)
      in case getByInviteCode code d of
        None \<Rightarrow> (if getExpiredByInviteCode code d \<noteq> None
                 then Inl (410, ''Invite code has expired. Ask the crew owner to regenerate it.'', NOT_FOUND)
                 else Inl (404, ''Invalid invite code'', NOT_FOUND))
      | Some c \<Rightarrow>
          if \<not> has_profile userId (cr_festivalId c) d then Inl (403, ''Join the festival first'', FORBIDDEN)
          else if getMember (cr_id c) userId d \<noteq> None
          then Inl (400, ''Already a member of this crew'', ALREADY_EXISTS)
          else if MAX_CREWS_PER_USER_PER_FESTIVAL \<le> length (listByUserAndFestival userId (cr_festivalId c) d)
          then Inl max_crews
          else if cr_maxMembers c \<le> getMemberCount (cr_id c) d then Inl crew_full
          else Inr c)"

text \<open>The tail \<open>join\<close> and the admin add share: the locked insert, the listing, the broadcast.\<close>

definition add_and_announce ::
  "string \<Rightarrow> crew \<Rightarrow> string \<Rightarrow> string \<Rightarrow> string \<Rightarrow> crew_srv \<Rightarrow> crew_view http \<times> crew_srv" where
  "add_and_announce oops c userId username viewer v =
     (case addMember (cr_id c) userId Member (Some (cr_maxMembers c)) (sv_db v) of
        Inl e \<Rightarrow> (Inl (500, oops, INTERNAL_ERROR), v)
      | Inr (Full, d) \<Rightarrow> (Inl crew_full, v)
      | Inr (Added, d) \<Rightarrow>
          respond 200 (serializeCrewWithMembers c (getMembers (cr_id c) d) (Some viewer))
            (tell_room (cr_id c) (CrewMemberJoined (cr_id c) userId username) (v\<lparr>sv_db := d\<rparr>)))"

definition join_crew :: "string \<Rightarrow> string \<Rightarrow> string \<Rightarrow> crew_srv \<Rightarrow> crew_view http \<times> crew_srv" where
  "join_crew userId username inviteCode v =
     handle ''Failed to join crew'' v (join_check userId inviteCode)
       (\<lambda>c. add_and_announce ''Failed to join crew'' c userId username userId)"

definition admin_add_check :: "bool \<Rightarrow> string \<Rightarrow> string \<Rightarrow> crew_db \<Rightarrow> http_error + crew \<times> string \<times> string" where
  "admin_add_check isAdmin crewParam targetParam d =
     (if \<not> isAdmin then Inl (403, ''Admin access required'', FORBIDDEN)
      else with_crew_id crewParam (\<lambda>crewId.
        case sanitizeIdentifier targetParam of
          None \<Rightarrow> Inl (400, ''User ID required'', MISSING_FIELD)
        | Some targetUserId \<Rightarrow> (case crewById crewId d of
            None \<Rightarrow> Inl (404, ''Crew not found'', NOT_FOUND)
          | Some c \<Rightarrow> (case cd_users d targetUserId of
              None \<Rightarrow> Inl (404, ''User not found'', NOT_FOUND)
            | Some u \<Rightarrow>
                if getMember crewId targetUserId d \<noteq> None
                then Inl (400, ''Already a member of this crew'', ALREADY_EXISTS)
                else if cr_maxMembers c \<le> getMemberCount crewId d then Inl crew_full
                else Inr (c, targetUserId, us_username u)))))"

definition admin_add_member :: "bool \<Rightarrow> string \<Rightarrow> string \<Rightarrow> string \<Rightarrow> crew_srv \<Rightarrow> crew_view http \<times> crew_srv" where
  "admin_add_member isAdmin userId crewParam targetParam v =
     handle ''Failed to add member'' v (admin_add_check isAdmin crewParam targetParam)
       (\<lambda>(c, targetUserId, username). add_and_announce ''Failed to add member'' c targetUserId username userId)"

definition leave_check :: "string \<Rightarrow> string \<Rightarrow> crew_db \<Rightarrow> http_error + string" where
  "leave_check userId crewParam d =
     with_crew_id crewParam (\<lambda>crewId.
       case crewById crewId d of
         None \<Rightarrow> Inl (404, ''Crew not found'', NOT_FOUND)
       | Some c \<Rightarrow> (case getMember crewId userId d of
           None \<Rightarrow> Inl (400, ''Not a member of this crew'', INVALID_INPUT)
         | Some m \<Rightarrow> if cm_role m = Owner then Inl (400, ''Transfer ownership before leaving'', FORBIDDEN)
                     else Inr crewId))"

definition leave_crew :: "string \<Rightarrow> string \<Rightarrow> string \<Rightarrow> crew_srv \<Rightarrow> unit http \<times> crew_srv" where
  "leave_crew userId username crewParam v =
     handle ''Failed to leave crew'' v (leave_check userId crewParam)
       (\<lambda>crewId v. respond 200 ()
          (evictUserFromCrewRoom crewId userId
            (tell_room crewId (CrewMemberLeft crewId userId username)
              (v\<lparr>sv_db := removeMember crewId userId (sv_db v)\<rparr>))))"

definition kick_check :: "string \<Rightarrow> string \<Rightarrow> string \<Rightarrow> crew_db \<Rightarrow> http_error + string \<times> string" where
  "kick_check userId crewParam targetParam d =
     (case (sanitizeIdentifier crewParam, sanitizeIdentifier targetParam) of
        (Some crewId, Some targetUserId) \<Rightarrow>
          (case resolveCrewOwnership crewId userId ''kick members'' d of
             Inl e \<Rightarrow> Inl e
           | Inr c \<Rightarrow>
               if targetUserId = userId then Inl (400, ''Cannot kick yourself'', INVALID_INPUT)
               else if getMember crewId targetUserId d = None then Inl (404, ''Member not found'', NOT_FOUND)
               else Inr (crewId, targetUserId))
      | _ \<Rightarrow> Inl (400, ''Invalid IDs'', INVALID_INPUT))"

definition kick_member :: "string \<Rightarrow> string \<Rightarrow> string \<Rightarrow> crew_srv \<Rightarrow> unit http \<times> crew_srv" where
  "kick_member userId crewParam targetParam v =
     handle ''Failed to kick member'' v (kick_check userId crewParam targetParam)
       (\<lambda>(crewId, targetUserId) v. respond 200 ()
          (evictUserFromCrewRoom crewId targetUserId
            (tell_room crewId (CrewMemberKicked crewId targetUserId)
              (v\<lparr>sv_db := removeMember crewId targetUserId (sv_db v)\<rparr>))))"

definition transfer_check :: "string \<Rightarrow> string \<Rightarrow> string \<Rightarrow> crew_db \<Rightarrow> http_error + crew \<times> string" where
  "transfer_check userId crewParam targetParam d =
     with_crew_id crewParam (\<lambda>crewId.
       case resolveCrewOwnership crewId userId ''transfer'' d of
         Inl e \<Rightarrow> Inl e
       | Inr c \<Rightarrow> (case sanitizeIdentifier targetParam of
           None \<Rightarrow> Inl (400, ''Target user ID required'', MISSING_FIELD)
         | Some targetUserId \<Rightarrow>
             if targetUserId = userId then Inl (400, ''Already the owner'', INVALID_INPUT)
             else if getMember crewId targetUserId d = None
             then Inl (404, ''Target is not a crew member'', NOT_FOUND)
             else Inr (c, targetUserId)))"

definition transfer_crew :: "string \<Rightarrow> string \<Rightarrow> string \<Rightarrow> crew_srv \<Rightarrow> crew_view http \<times> crew_srv" where
  "transfer_crew userId crewParam targetParam v =
     handle ''Failed to transfer ownership'' v (transfer_check userId crewParam targetParam)
       (\<lambda>(c, targetUserId) v.
          let d = transferOwnership (cr_id c) userId targetUserId (sv_db v);
              members = getMembers (cr_id c) d;
              (crewPart, memberPart) = serializeCrewWithMembers c members None
          in respond 200 (serializeCrewWithMembers c members (Some userId))
               (tell_room (cr_id c) (CrewUpdated (crewPart\<lparr>sc_inviteCode := None\<rparr>, memberPart)) (v\<lparr>sv_db := d\<rparr>)))"

subsection \<open>Invite codes\<close>

text \<open>\<open>lib/invite-code.ts\<close>.  \<open>crypto.randomBytes\<close> is a supply of blocks of 12 bytes; \<open>None\<close> is a
  supply that ended.\<close>

definition INVITE_CODE_LENGTH :: nat where
  "INVITE_CODE_LENGTH = 6"

definition INVITE_CODE_CHARS :: string where
  "INVITE_CODE_CHARS = ''ABCDEFGHJKLMNPQRSTUVWXYZ23456789''"

definition code_limit :: nat where
  "code_limit = 256 - 256 mod length INVITE_CODE_CHARS"

fun code_chars :: "8 word list \<Rightarrow> string \<Rightarrow> string" where
  "code_chars [] code = code"
| "code_chars (b # bs) code =
     (if INVITE_CODE_LENGTH \<le> length code then code
      else code_chars bs (if unat b < code_limit
                          then code @ [INVITE_CODE_CHARS ! (unat b mod length INVITE_CODE_CHARS)] else code))"

fun generateInviteCode :: "string \<Rightarrow> 8 word list list \<Rightarrow> (string \<times> 8 word list list) option" where
  "generateInviteCode code [] = (if length code < INVITE_CODE_LENGTH then None else Some (code, []))"
| "generateInviteCode code (bytes # supply) =
     (if length code < INVITE_CODE_LENGTH then generateInviteCode (code_chars bytes code) supply
      else Some (code, bytes # supply))"

fun unique_code :: "nat \<Rightarrow> 8 word list list \<Rightarrow> crew_db \<Rightarrow> string option" where
  "unique_code 0 supply d = None"
| "unique_code (Suc attempts) supply d =
     (case generateInviteCode [] supply of
        None \<Rightarrow> None
      | Some (code, supply') \<Rightarrow>
          if getByInviteCode code d = None then Some code else unique_code attempts supply' d)"

definition generateUniqueInviteCode :: "8 word list list \<Rightarrow> crew_db \<Rightarrow> string option" where
  "generateUniqueInviteCode supply d = unique_code 10 supply d"

subsection \<open>Creating, editing and deleting\<close>

definition validateCrewCreation :: "string \<Rightarrow> string \<Rightarrow> crew_db \<Rightarrow> http_error option" where
  "validateCrewCreation userId festivalId d =
     (if cd_festivals d festivalId = None then Some (404, ''Festival not found'', NOT_FOUND)
      else if \<not> has_profile userId festivalId d then Some (403, ''Join the festival first'', FORBIDDEN)
      else if MAX_CREWS_PER_USER_PER_FESTIVAL \<le> length (listByUserAndFestival userId festivalId d)
      then Some max_crews else None)"

record crew_create_body =
  cb_name :: string
  cb_festivalId :: string
  cb_totemName :: "string option"
  cb_totemEmoji :: "string option"

definition create_check :: "string \<Rightarrow> crew_create_body \<Rightarrow> string \<Rightarrow> 8 word list list \<Rightarrow> crew_db \<Rightarrow> http_error + crew_data" where
  "create_check userId body newId supply d =
     (let cleanName = sanitizeString 60 (cb_name body)
      in if cleanName = [] then Inl (400, ''Crew name required'', MISSING_FIELD)
         else (case sanitizeIdentifier (cb_festivalId body) of
             None \<Rightarrow> Inl (400, ''Festival ID required'', MISSING_FIELD)
           | Some festivalId \<Rightarrow> (case validateCrewCreation userId festivalId d of
               Some e \<Rightarrow> Inl e
             | None \<Rightarrow> (case generateUniqueInviteCode supply d of
                 None \<Rightarrow> Inl (500, ''Failed to create crew'', INTERNAL_ERROR)
               | Some code \<Rightarrow>
                   Inr \<lparr>cw_id = newId, cw_festivalId = festivalId, cw_name = cleanName, cw_createdBy = userId,
                        cw_inviteCode = code, cw_inviteExpiresAt = Some (cd_now d + WEEK_MS), cw_maxMembers = 30,
                        cw_reformedFrom = None,
                        cw_totemName = map_option (sanitizeString 40) (cb_totemName body),
                        cw_totemEmoji = map_option (sanitizeString 16) (cb_totemEmoji body)\<rparr>))))"

definition create_crew ::
  "string \<Rightarrow> crew_create_body \<Rightarrow> string \<Rightarrow> 8 word list list \<Rightarrow> crew_srv \<Rightarrow> crew_view http \<times> crew_srv" where
  "create_crew userId body newId supply v =
     handle ''Failed to create crew'' v (create_check userId body newId supply)
       (\<lambda>w v. case createWithOwner w (sv_db v) of
          Inl e \<Rightarrow> (Inl (500, ''Failed to create crew'', INTERNAL_ERROR), v)
        | Inr (_, d) \<Rightarrow> (case crewById newId d of
            None \<Rightarrow> (Inl (500, ''Failed to create crew'', INTERNAL_ERROR), v\<lparr>sv_db := crews_delete newId d\<rparr>)
          | Some c \<Rightarrow> respond 201 (serializeCrewWithMembers c (getMembers newId d) (Some userId)) (v\<lparr>sv_db := d\<rparr>)))"

record crew_update_body =
  ub_name :: "string option"
  ub_maxMembers :: "nat option"
  ub_totemName :: "string option"
  ub_totemEmoji :: "string option"

definition crewUpdateSchema :: "crew_update_body \<Rightarrow> bool" where
  "crewUpdateSchema b \<longleftrightarrow>
     (case ub_name b of Some n \<Rightarrow> 1 \<le> length n \<and> length n \<le> 60 | None \<Rightarrow> True)
     \<and> (case ub_maxMembers b of Some k \<Rightarrow> 2 \<le> k \<and> k \<le> 30 | None \<Rightarrow> True)
     \<and> (case ub_totemName b of Some n \<Rightarrow> length n \<le> 40 | None \<Rightarrow> True)
     \<and> (case ub_totemEmoji b of Some n \<Rightarrow> length n \<le> 16 | None \<Rightarrow> True)
     \<and> (ub_name b \<noteq> None \<or> ub_maxMembers b \<noteq> None \<or> ub_totemName b \<noteq> None \<or> ub_totemEmoji b \<noteq> None)"

text \<open>What \<open>update\<close> writes: the crew's id, the name, the cap and the two totem fields.\<close>

definition update_check ::
  "string \<Rightarrow> string \<Rightarrow> crew_update_body \<Rightarrow> crew_db
     \<Rightarrow> http_error + string \<times> string \<times> nat \<times> string option \<times> string option" where
  "update_check userId crewParam body d =
     with_crew_id crewParam (\<lambda>crewId.
       case resolveCrewOwnership crewId userId ''update'' d of
         Inl e \<Rightarrow> Inl e
       | Inr c \<Rightarrow> Inr (crewId,
           (case ub_name body of Some n \<Rightarrow> sanitizeString 60 n | None \<Rightarrow> cr_name c),
           (case ub_maxMembers body of Some k \<Rightarrow> k | None \<Rightarrow> cr_maxMembers c),
           (case ub_totemName body of Some n \<Rightarrow> Some (sanitizeString 40 n) | None \<Rightarrow> cr_totemName c),
           (case ub_totemEmoji body of Some n \<Rightarrow> Some (sanitizeString 16 n) | None \<Rightarrow> cr_totemEmoji c)))"

definition update_crew :: "string \<Rightarrow> string \<Rightarrow> crew_update_body \<Rightarrow> crew_srv \<Rightarrow> crew_view http \<times> crew_srv" where
  "update_crew userId crewParam body v =
     handle ''Failed to update crew'' v (update_check userId crewParam body)
       (\<lambda>(crewId, name, maxMembers, totemName, totemEmoji) v.
          case crews_update crewId name maxMembers (Some totemName) (Some totemEmoji) (sv_db v) of
            (None, d) \<Rightarrow> (Inl (500, ''Failed to update crew'', INTERNAL_ERROR), v\<lparr>sv_db := d\<rparr>)
          | (Some updated, d) \<Rightarrow>
              (case serializeCrewWithMembers updated (getMembers crewId d) None of
                 (crewPart, memberPart) \<Rightarrow>
                   respond 200 (serializeCrewWithMembers updated (getMembers crewId d) (Some userId))
                     (tell_room crewId (CrewUpdated (crewPart\<lparr>sc_inviteCode := None\<rparr>, memberPart)) (v\<lparr>sv_db := d\<rparr>))))"

definition delete_check :: "string \<Rightarrow> string \<Rightarrow> crew_db \<Rightarrow> http_error + crew" where
  "delete_check userId crewParam d =
     with_crew_id crewParam (\<lambda>crewId. resolveCrewOwnership crewId userId ''delete'' d)"

definition delete_crew :: "string \<Rightarrow> string \<Rightarrow> crew_srv \<Rightarrow> unit http \<times> crew_srv" where
  "delete_crew userId crewParam v =
     handle ''Failed to delete crew'' v (delete_check userId crewParam)
       (\<lambda>c v. case evictAllFromCrewRoom (cr_id c) (tell_room (cr_id c) (CrewDeleted (cr_id c) (cr_festivalId c)) v) of
          v1 \<Rightarrow> respond 200 () (v1\<lparr>sv_db := crews_delete (cr_id c) (sv_db v1)\<rparr>))"

definition invite_check :: "string \<Rightarrow> string \<Rightarrow> 8 word list list \<Rightarrow> crew_db \<Rightarrow> http_error + string \<times> string" where
  "invite_check userId crewParam supply d =
     with_crew_id crewParam (\<lambda>crewId.
       case resolveCrewOwnership crewId userId ''regenerate invite codes'' d of
         Inl e \<Rightarrow> Inl e
       | Inr c \<Rightarrow> (case generateUniqueInviteCode supply d of
           None \<Rightarrow> Inl (500, ''Failed to regenerate invite code'', INTERNAL_ERROR)
         | Some code \<Rightarrow> Inr (crewId, code)))"

definition regenerate_invite :: "string \<Rightarrow> string \<Rightarrow> 8 word list list \<Rightarrow> crew_srv \<Rightarrow> (string \<times> int) http \<times> crew_srv" where
  "regenerate_invite userId crewParam supply v =
     handle ''Failed to regenerate invite code'' v (invite_check userId crewParam supply)
       (\<lambda>(crewId, code) v. case regenerateInviteCode crewId code (sv_db v) of
          Inl e \<Rightarrow> (Inl (500, ''Failed to regenerate invite code'', INTERNAL_ERROR), v)
        | Inr (_, d) \<Rightarrow> respond 200 (code, cd_now d + WEEK_MS) (v\<lparr>sv_db := d\<rparr>))"

subsection \<open>Reading\<close>

definition list_crews :: "string \<Rightarrow> string option \<Rightarrow> crew_srv \<Rightarrow> crew_view list http \<times> crew_srv" where
  "list_crews userId festivalParam v =
     handle ''Failed to list crews'' v
       (\<lambda>d. let crews = (case Option.bind (truthy festivalParam) sanitizeIdentifier of
                         Some f \<Rightarrow> listByUserAndFestival userId f d | None \<Rightarrow> listByUser userId d);
                membersByCrewId = getMembersForCrews (map (cr_id \<circ> fst) crews) d
            in Inr (map (\<lambda>(c, m). serializeCrewWithMembers c
                 (case membersByCrewId (cr_id c) of Some ms \<Rightarrow> ms | None \<Rightarrow> []) (Some userId)) crews))
       (respond 200)"

definition member_check :: "string \<Rightarrow> string \<Rightarrow> crew_db \<Rightarrow> http_error + crew" where
  "member_check userId crewParam d =
     with_crew_id crewParam (\<lambda>crewId.
       case crewById crewId d of
         None \<Rightarrow> Inl (404, ''Crew not found'', NOT_FOUND)
       | Some c \<Rightarrow> if getMember crewId userId d = None
                   then Inl (403, ''Not a member of this crew'', FORBIDDEN) else Inr c)"

definition get_crew :: "string \<Rightarrow> string \<Rightarrow> crew_srv \<Rightarrow> crew_view http \<times> crew_srv" where
  "get_crew userId crewParam v =
     handle ''Failed to get crew'' v (member_check userId crewParam)
       (\<lambda>c v. respond 200 (serializeCrewWithMembers c (getMembers (cr_id c) (sv_db v)) (Some userId)) v)"

text \<open>The overlap of picks: an object from set ids to the members who picked the set.\<close>

type_synonym picker = "string \<times> string \<times> string option \<times> string"

definition dangerous_keys :: "string list" where
  "dangerous_keys = [''__proto__'', ''constructor'', ''prototype'']"

definition add_pick :: "profile_row \<times> user_row \<Rightarrow> string \<times> string \<Rightarrow> (string \<times> picker list) list \<Rightarrow> (string \<times> picker list) list" where
  "add_pick row pick overlap =
     (case (row, pick) of ((p, u), (setId, prio)) \<Rightarrow>
        if setId \<in> set dangerous_keys then overlap
        else AList.update setId
               ((case map_of overlap setId of Some l \<Rightarrow> l | None \<Rightarrow> []) @
                [(pf_userId p, us_username u, truthy (us_name u), prio)]) overlap)"

definition overlap_of :: "(profile_row \<times> user_row) list \<Rightarrow> (string \<times> picker list) list" where
  "overlap_of rows = fold (\<lambda>row ov. fold (add_pick row) (pf_picks (fst row)) ov) rows []"

definition crew_overlap ::
  "string \<Rightarrow> string \<Rightarrow> crew_srv \<Rightarrow> (string \<times> string \<times> nat \<times> (string \<times> picker list) list) http \<times> crew_srv" where
  "crew_overlap userId crewParam v =
     handle ''Failed to get overlap'' v (member_check userId crewParam)
       (\<lambda>c v. let rows = getCrewPickOverlap (cr_festivalId c) (cr_id c) (sv_db v)
              in respond 200 (cr_id c, cr_festivalId c, length rows, overlap_of rows) v)"

subsection \<open>Reforming a crew for another festival\<close>

text \<open>\<open>planReformRoster\<close>; the loop carries the ids seen.\<close>

fun plan_roster ::
  "string list \<Rightarrow> string \<Rightarrow> string set \<Rightarrow> string set \<Rightarrow> string list \<Rightarrow> string list \<times> string list" where
  "plan_roster [] requester hasProfile alreadyMember seen = ([], [])"
| "plan_roster (uid # ms) requester hasProfile alreadyMember seen =
     (if uid = [] \<or> uid = requester \<or> uid \<in> set seen
      then plan_roster ms requester hasProfile alreadyMember seen
      else if uid \<in> alreadyMember
      then plan_roster ms requester hasProfile alreadyMember (uid # seen)
      else (case plan_roster ms requester hasProfile alreadyMember (uid # seen) of
              (toAutoAdd, toInvite) \<Rightarrow>
                if uid \<in> hasProfile then (uid # toAutoAdd, toInvite) else (toAutoAdd, uid # toInvite)))"

definition planReformRoster :: "string list \<Rightarrow> string \<Rightarrow> string list \<Rightarrow> string list \<Rightarrow> string list \<times> string list" where
  "planReformRoster sourceMembers requester targetProfiles existing =
     plan_roster sourceMembers requester (set targetProfiles) (set existing) []"

text \<open>The loop over the members to add: \<open>slots\<close> counts down on success, a failing insert is
  skipped.\<close>

fun reform_adds :: "string \<Rightarrow> string list \<Rightarrow> int \<Rightarrow> crew_db \<Rightarrow> string list \<times> crew_db" where
  "reform_adds crewId [] slots d = ([], d)"
| "reform_adds crewId (uid # us) slots d =
     (if slots \<le> 0 then ([], d)
      else (case addMember crewId uid Member None d of
              Inl e \<Rightarrow> reform_adds crewId us slots d
            | Inr (_, d1) \<Rightarrow> (case reform_adds crewId us (slots - 1) d1 of (added, d2) \<Rightarrow> (uid # added, d2))))"

definition find_reformed :: "string \<Rightarrow> string \<Rightarrow> string \<Rightarrow> crew_db \<Rightarrow> crew option" where
  "find_reformed userId targetFestivalId sourceCrewId d =
     map_option fst (find (\<lambda>(c, m). cr_reformedFrom c = Some sourceCrewId \<and> cr_createdBy c = userId)
       (listByUserAndFestival userId targetFestivalId d))"

definition reform_check :: "string \<Rightarrow> string \<Rightarrow> string \<Rightarrow> crew_db \<Rightarrow> http_error + crew \<times> string" where
  "reform_check userId crewParam targetParam d =
     (case sanitizeIdentifier crewParam of
        None \<Rightarrow> Inl (400, ''Invalid crew ID'', INVALID_INPUT)
      | Some sourceCrewId \<Rightarrow> (case sanitizeIdentifier targetParam of
          None \<Rightarrow> Inl (400, ''Target festival ID required'', MISSING_FIELD)
        | Some targetFestivalId \<Rightarrow> (case crewById sourceCrewId d of
            None \<Rightarrow> Inl (404, ''Crew not found'', NOT_FOUND)
          | Some sourceCrew \<Rightarrow>
              if getMember sourceCrewId userId d = None then Inl (403, ''Not a member of this crew'', FORBIDDEN)
              else if cd_festivals d targetFestivalId = None then Inl (404, ''Festival not found'', NOT_FOUND)
              else if \<not> has_profile userId targetFestivalId d then Inl (403, ''Join the festival first'', FORBIDDEN)
              else Inr (sourceCrew, targetFestivalId))))"

text \<open>The crew to fill: the one reformed before, else a new one; losing the race on the unique
  key means reading the winner.\<close>

definition reform_target ::
  "string \<Rightarrow> crew \<Rightarrow> string \<Rightarrow> string \<Rightarrow> 8 word list list \<Rightarrow> crew_db \<Rightarrow> http_error + crew \<times> crew_db" where
  "reform_target userId sourceCrew targetFestivalId newId supply d =
     (let failed = Inl (500, ''Failed to reform crew'', INTERNAL_ERROR)
      in case find_reformed userId targetFestivalId (cr_id sourceCrew) d of
           Some c \<Rightarrow> Inr (c, d)
         | None \<Rightarrow>
             if MAX_CREWS_PER_USER_PER_FESTIVAL \<le> length (listByUserAndFestival userId targetFestivalId d)
             then Inl max_crews
             else (case generateUniqueInviteCode supply d of
                 None \<Rightarrow> failed
               | Some code \<Rightarrow>
                   (let w = \<lparr>cw_id = newId, cw_festivalId = targetFestivalId,
                             cw_name = (let n = sanitizeString 60 (cr_name sourceCrew)
                                        in if n = [] then cr_name sourceCrew else n),
                             cw_createdBy = userId, cw_inviteCode = code,
                             cw_inviteExpiresAt = Some (cd_now d + WEEK_MS),
                             cw_maxMembers = (if cr_maxMembers sourceCrew = 0 then 30 else cr_maxMembers sourceCrew),
                             cw_reformedFrom = Some (cr_id sourceCrew), cw_totemName = None, cw_totemEmoji = None\<rparr>
                    in case createWithOwner w d of
                         Inr (_, d1) \<Rightarrow> (case crewById newId d1 of Some c \<Rightarrow> Inr (c, d1) | None \<Rightarrow> failed)
                       | Inl UniqueViolation \<Rightarrow>
                           (case find_reformed userId targetFestivalId (cr_id sourceCrew) d of
                              Some c \<Rightarrow> Inr (c, d) | None \<Rightarrow> failed)
                       | Inl ForeignKeyViolation \<Rightarrow> failed)))"

definition members_ids :: "string \<Rightarrow> crew_db \<Rightarrow> string list" where
  "members_ids crewId d = map (cm_userId \<circ> fst) (getMembers crewId d)"

definition profile_ids :: "string \<Rightarrow> crew_db \<Rightarrow> string list" where
  "profile_ids festivalId d = map pf_userId (filter (\<lambda>p. pf_festivalId p = festivalId) (cd_profiles d))"

definition reform_plan :: "string \<Rightarrow> crew \<Rightarrow> string \<Rightarrow> crew \<Rightarrow> crew_db \<Rightarrow> (string list \<times> string list) \<times> int" where
  "reform_plan userId sourceCrew targetFestivalId newCrew d =
     (let existing = members_ids (cr_id newCrew) d;
          memberCap = (if cr_maxMembers newCrew = 0 then 30 else cr_maxMembers newCrew)
      in (planReformRoster (members_ids (cr_id sourceCrew) d) userId (profile_ids targetFestivalId d) existing,
          int memberCap - int (length existing)))"

text \<open>The answer carries who was added and who is to be invited.\<close>

definition reform_crew ::
  "string \<Rightarrow> string \<Rightarrow> string \<Rightarrow> string \<Rightarrow> 8 word list list \<Rightarrow> crew_srv
     \<Rightarrow> (crew_view \<times> string list \<times> string list) http \<times> crew_srv" where
  "reform_crew userId crewParam targetParam newId supply v =
     handle ''Failed to reform crew'' v (reform_check userId crewParam targetParam)
       (\<lambda>(sourceCrew, targetFestivalId) v.
          case reform_target userId sourceCrew targetFestivalId newId supply (sv_db v) of
            Inl e \<Rightarrow> (Inl e, v)
          | Inr (newCrew, d) \<Rightarrow>
              (case reform_plan userId sourceCrew targetFestivalId newCrew d of
                 ((toAutoAdd, toInvite), slots) \<Rightarrow>
                   (case reform_adds (cr_id newCrew) toAutoAdd slots d of
                      (added, d1) \<Rightarrow>
                        (case (crewById (cr_id newCrew) d1,
                               tell_room (cr_id newCrew)
                                 (CrewReformed (cr_id newCrew) (cr_id sourceCrew) targetFestivalId) (v\<lparr>sv_db := d1\<rparr>)) of
                           (None, v1) \<Rightarrow> (Inl (500, ''Failed to reform crew'', INTERNAL_ERROR), v1)
                         | (Some finalCrew, v1) \<Rightarrow>
                             respond 200
                               (serializeCrewWithMembers finalCrew (getMembers (cr_id newCrew) d1) (Some userId),
                                added, toInvite) v1))))"

subsection \<open>Properties: invite codes and rosters\<close>

lemma code_limit_all: "code_limit = 256"
  by (simp add: code_limit_def INVITE_CODE_CHARS_def)

lemma code_chars_append:
  "length code + length bs \<le> INVITE_CODE_LENGTH \<Longrightarrow>
   code_chars bs code = code @ map (\<lambda>b. INVITE_CODE_CHARS ! (unat b mod 32)) bs"
proof (induction bs arbitrary: code)
  case (Cons b bs)
  have "unat b < 256" using unsigned_less [of b] by simp
  with Cons show ?case by (simp add: code_limit_all INVITE_CODE_CHARS_def)
qed simp

lemma code_chars_full: "INVITE_CODE_LENGTH \<le> length code \<Longrightarrow> code_chars bs code = code"
  by (cases bs) auto

lemma code_chars_split: "code_chars (as @ bs) code = code_chars bs (code_chars as code)"
  by (induction as arbitrary: code) (auto simp: code_chars_full)

lemma charset_distinct: "distinct INVITE_CODE_CHARS"
  by (simp add: INVITE_CODE_CHARS_def)

lemma bytes_per_char:
  assumes "c \<in> set INVITE_CODE_CHARS"
  shows "length (filter (\<lambda>n. n < code_limit \<and> INVITE_CODE_CHARS ! (n mod 32) = c) [0..<256]) = 8"
proof -
  have len: "length INVITE_CODE_CHARS = 32" by (simp add: INVITE_CODE_CHARS_def)
  from assms obtain i where i: "i < 32" "c = INVITE_CODE_CHARS ! i" by (metis in_set_conv_nth len)
  have iff: "INVITE_CODE_CHARS ! (n mod 32) = c \<longleftrightarrow> n mod 32 = i" for n
    using nth_eq_iff_index_eq [OF charset_distinct] i by (simp add: len)
  have "set (filter (\<lambda>n. n < code_limit \<and> INVITE_CODE_CHARS ! (n mod 32) = c) [0..<256])
      = {n. n < 256 \<and> n mod 32 = i}"
    by (auto simp: code_limit_all iff)
  also have "\<dots> = (\<lambda>k. 32 * k + i) ` {..<8}"
  proof (intro set_eqI iffI)
    fix n
    assume "n \<in> {n. n < 256 \<and> n mod 32 = i}"
    then have "n div 32 < 8" "n = 32 * (n div 32) + i" by auto
    then show "n \<in> (\<lambda>k. 32 * k + i) ` {..<8}" by blast
  qed (use i in auto)
  also have "card \<dots> = 8" by (subst card_image) (auto simp: inj_on_def)
  finally have "card (set (filter (\<lambda>n. n < code_limit \<and> INVITE_CODE_CHARS ! (n mod 32) = c) [0..<256])) = 8" .
  then show ?thesis by (simp only: distinct_card distinct_filter distinct_upt)
qed

text \<open>The first block of twelve random bytes always yields a code, of six characters of the
  alphabet, and the sampling is unbiased: every character of the alphabet is chosen by exactly
  eight of the 256 byte values (the alphabet has 32 characters, so no byte is rejected).\<close>

theorem invite_code_unbiased:
  assumes "length bytes = 12"
  shows "\<exists>code. generateInviteCode [] (bytes # rest) = Some (code, rest)
     \<and> length code = 6 \<and> set code \<subseteq> set INVITE_CODE_CHARS
     \<and> code = map (\<lambda>b. INVITE_CODE_CHARS ! (unat b mod 32)) (take 6 bytes)
     \<and> (\<forall>c \<in> set INVITE_CODE_CHARS.
          length (filter (\<lambda>n. n < code_limit \<and> INVITE_CODE_CHARS ! (n mod 32) = c) [0..<256]) = 8)"
proof -
  let ?code = "map (\<lambda>b. INVITE_CODE_CHARS ! (unat b mod 32)) (take 6 bytes)"
  have "code_chars bytes [] = code_chars (drop 6 bytes) (code_chars (take 6 bytes) [])"
    using code_chars_split [of "take 6 bytes" "drop 6 bytes" "[]"] by simp
  moreover have "code_chars (take 6 bytes) [] = ?code"
    using code_chars_append [of "[]" "take 6 bytes"] by (simp add: INVITE_CODE_LENGTH_def)
  moreover have len: "length ?code = 6" using assms by simp
  ultimately have all: "code_chars bytes [] = ?code"
    by (simp add: code_chars_full INVITE_CODE_LENGTH_def)
  with len have "generateInviteCode [] (bytes # rest) = Some (?code, rest)"
    by (cases rest) (auto simp: INVITE_CODE_LENGTH_def)
  moreover have "set ?code \<subseteq> set INVITE_CODE_CHARS"
  proof -
    have "unat b mod 32 < length INVITE_CODE_CHARS" for b :: "8 word" by (simp add: INVITE_CODE_CHARS_def)
    then show ?thesis by (auto intro!: nth_mem)
  qed
  moreover have "\<forall>c \<in> set INVITE_CODE_CHARS.
      length (filter (\<lambda>n. n < code_limit \<and> INVITE_CODE_CHARS ! (n mod 32) = c) [0..<256]) = 8"
    by (blast intro: bytes_per_char)
  ultimately show ?thesis using len by blast
qed

lemma invite_code_unbiased_witness:
  "\<exists>code. generateInviteCode [] [[1, 2, 3, 4, 5, 6, 7, 8, 9, 10, 11, 255]] = Some (code, [])
     \<and> length code = 6 \<and> set code \<subseteq> set INVITE_CODE_CHARS
     \<and> code = map (\<lambda>b. INVITE_CODE_CHARS ! (unat b mod 32)) (take 6 ([1, 2, 3, 4, 5, 6, 7, 8, 9, 10, 11, 255] :: 8 word list))
     \<and> (\<forall>c \<in> set INVITE_CODE_CHARS.
          length (filter (\<lambda>n. n < code_limit \<and> INVITE_CODE_CHARS ! (n mod 32) = c) [0..<256]) = 8)"
  by (rule invite_code_unbiased) simp

lemma plan_roster_Cons:
  assumes "plan_roster (uid # ms) r P E seen = (adds, invites)"
    and "plan_roster ms r P E (uid # seen) = (as, ins)"
  shows "(uid = [] \<or> uid = r \<or> uid \<in> set seen) \<and> plan_roster ms r P E seen = (adds, invites)
    \<or> uid \<noteq> [] \<and> uid \<noteq> r \<and> uid \<notin> set seen \<and>
      (uid \<in> E \<and> adds = as \<and> invites = ins \<or> uid \<notin> E \<and> uid \<in> P \<and> adds = uid # as \<and> invites = ins
       \<or> uid \<notin> E \<and> uid \<notin> P \<and> adds = as \<and> invites = uid # ins)"
  using assms by (simp split: if_splits)

lemma plan_roster_sets:
  "plan_roster ms r P E seen = (adds, invites) \<Longrightarrow>
     (u \<in> set adds \<longleftrightarrow> u \<in> set ms \<and> u \<noteq> [] \<and> u \<noteq> r \<and> u \<notin> set seen \<and> u \<notin> E \<and> u \<in> P)
   \<and> (u \<in> set invites \<longleftrightarrow> u \<in> set ms \<and> u \<noteq> [] \<and> u \<noteq> r \<and> u \<notin> set seen \<and> u \<notin> E \<and> u \<notin> P)"
proof (induction ms arbitrary: seen adds invites)
  case (Cons uid ms)
  obtain as ins where rest: "plan_roster ms r P E (uid # seen) = (as, ins)" by fastforce
  show ?case
    using plan_roster_Cons [OF Cons.prems rest]
  proof (elim disjE conjE)
    assume "plan_roster ms r P E seen = (adds, invites)"
    from Cons.IH [OF this] show "uid = [] \<Longrightarrow> ?thesis" "uid = r \<Longrightarrow> ?thesis" "uid \<in> set seen \<Longrightarrow> ?thesis"
      by auto
  qed (use Cons.IH [OF rest] in auto)
qed simp

lemma plan_roster_order:
  "plan_roster ms r P E seen = (adds, invites) \<Longrightarrow>
   distinct adds \<and> distinct invites \<and> subseq adds ms \<and> subseq invites ms"
proof (induction ms arbitrary: seen adds invites)
  case (Cons uid ms)
  obtain as ins where rest: "plan_roster ms r P E (uid # seen) = (as, ins)" by fastforce
  have "uid \<notin> set as" "uid \<notin> set ins" using plan_roster_sets [OF rest, of uid] by auto
  then show ?case
    using plan_roster_Cons [OF Cons.prems rest] Cons.IH [OF rest] Cons.IH [of seen adds invites] by auto
qed simp

lemma reform_plan_facts:
  assumes "planReformRoster source requester profiles existing = (adds, invites)"
  shows "set adds \<inter> set existing = {} \<and> distinct adds"
  using plan_roster_sets [OF assms [unfolded planReformRoster_def]]
    plan_roster_order [OF assms [unfolded planReformRoster_def]] by blast

text \<open>Reforming a crew is consent-safe and idempotent: only prior members who already have a
  profile in the target festival are added, everyone else is invited, nobody is in both lists or
  twice in one, the requester and the crew's members are in neither, both keep the roster's
  order; and planning again once the additions are members adds nobody.\<close>

theorem reform_plan_consent_safe:
  assumes "planReformRoster source requester profiles existing = (adds, invites)"
  shows "(\<forall>u. u \<in> set adds \<longleftrightarrow>
            u \<in> set source \<and> u \<noteq> [] \<and> u \<noteq> requester \<and> u \<notin> set existing \<and> u \<in> set profiles)
     \<and> (\<forall>u. u \<in> set invites \<longleftrightarrow>
            u \<in> set source \<and> u \<noteq> [] \<and> u \<noteq> requester \<and> u \<notin> set existing \<and> u \<notin> set profiles)
     \<and> distinct (adds @ invites) \<and> subseq adds source \<and> subseq invites source
     \<and> planReformRoster source requester profiles (existing @ adds) = ([], invites)"
proof -
  note sets = plan_roster_sets [OF assms [unfolded planReformRoster_def]]
  note order = plan_roster_order [OF assms [unfolded planReformRoster_def]]
  have again: "plan_roster ms requester (set profiles) (set existing \<union> A) seen = ([], ins)"
    if "plan_roster ms requester (set profiles) (set existing) seen = (as, ins)" "set as \<subseteq> A"
      "A \<subseteq> set profiles" for ms seen as ins A
    using that
  proof (induction ms arbitrary: seen as ins)
    case (Cons uid ms)
    obtain as' ins' where rest: "plan_roster ms requester (set profiles) (set existing) (uid # seen) = (as', ins')"
      by fastforce
    show ?case
    proof (cases "uid = [] \<or> uid = requester \<or> uid \<in> set seen")
      case True
      with Cons show ?thesis by auto
    next
      case False
      with Cons.prems rest have "set as' \<subseteq> A" by (auto split: if_splits)
      note IH = Cons.IH [OF rest this Cons.prems(3)]
      show ?thesis using Cons.prems rest False IH by (auto split: if_splits)
    qed
  qed simp
  have "set adds \<subseteq> set profiles" using sets by blast
  from again [OF assms [unfolded planReformRoster_def] subset_refl this]
  have "planReformRoster source requester profiles (existing @ adds) = ([], invites)"
    by (simp only: planReformRoster_def set_append)
  moreover have "distinct (adds @ invites)"
    unfolding distinct_append disjoint_iff using sets order by blast
  ultimately show ?thesis using sets order by simp
qed

lemma reform_plan_consent_safe_witness:
  "(\<forall>u. u \<in> set [''a''] \<longleftrightarrow>
            u \<in> set [''o'', ''a'', ''b'', ''a''] \<and> u \<noteq> [] \<and> u \<noteq> ''o'' \<and> u \<notin> set [''o''] \<and> u \<in> set [''o'', ''a''])
     \<and> (\<forall>u. u \<in> set [''b''] \<longleftrightarrow>
            u \<in> set [''o'', ''a'', ''b'', ''a''] \<and> u \<noteq> [] \<and> u \<noteq> ''o'' \<and> u \<notin> set [''o''] \<and> u \<notin> set [''o'', ''a''])
     \<and> distinct ([''a''] @ [''b'']) \<and> subseq [''a''] [''o'', ''a'', ''b'', ''a''] \<and> subseq [''b''] [''o'', ''a'', ''b'', ''a'']
     \<and> planReformRoster [''o'', ''a'', ''b'', ''a''] ''o'' [''o'', ''a''] ([''o''] @ [''a'']) = ([], [''b''])"
  by (rule reform_plan_consent_safe) (simp add: planReformRoster_def)

subsection \<open>Properties: eviction\<close>

text \<open>A socket without its inbox, and what eviction does to it.\<close>

definition core :: "live_socket \<Rightarrow> live_socket" where
  "core s = s\<lparr>so_inbox := []\<rparr>"

definition expelled :: "string \<Rightarrow> live_socket \<Rightarrow> live_socket" where
  "expelled crewId s = leave_room (crew_room crewId) (clear_stamps s)"

lemma core_simps [simp]:
  "core (deliver ev s) = core s" "core (expelled c s) = expelled c (core s)" "core (core s) = core s"
  "so_id (core s) = so_id s" "so_userId (core s) = so_userId s" "so_rooms (core s) = so_rooms s"
  "so_sharingCrewId (core s) = so_sharingCrewId s"
  by (simp_all add: core_def deliver_def expelled_def leave_room_def clear_stamps_def)

lemma expelled_simps [simp]:
  "so_id (expelled c s) = so_id s" "so_userId (expelled c s) = so_userId s"
  "expelled c (expelled c s) = expelled c s" "so_sharingCrewId (expelled c s) = None"
  "so_rooms (expelled c s) = filter (\<lambda>r. r \<noteq> crew_room c) (so_rooms s)"
  by (simp_all add: expelled_def leave_room_def clear_stamps_def)

lemma core_emit: "map core (emit_room_except i room ev all) = map core all" "map core (emit_room room ev all) = map core all"
  by (simp_all add: emit_room_except_def emit_room_def)

lemma core_evict_socket:
  "map core (evict_socket c u x all) =
     map (\<lambda>s. if so_userId x = u \<and> so_id s = so_id x then expelled c s else s) (map core all)"
proof -
  have "map core (map (\<lambda>y. if so_id y = so_id x then leave_room (crew_room c) (clear_stamps (deliver ev y)) else y) l)
      = map (\<lambda>s. if so_id s = so_id x then expelled c s else s) (map core l)" for ev l
    by (induction l) (auto simp: core_def deliver_def expelled_def leave_room_def clear_stamps_def)
  note step = this
  show ?thesis
  proof (cases "so_userId x = u")
    case True
    let ?told = "if so_sharingCrewId x = Some c
      then emit_room_except (so_id x) (crew_room c) (LocationPeerStopped c u) all else all"
    have "map core ?told = map core all" by (simp only: core_emit if_distrib [of "map core"] if_cancel)
    moreover have "evict_socket c u x all =
        map (\<lambda>y. if so_id y = so_id x then leave_room (crew_room c) (clear_stamps (deliver (CrewAccessRevoked c) y)) else y) ?told"
      by (simp only: evict_socket_def Let_def True simp_thms if_False)
    ultimately show ?thesis using step [of "CrewAccessRevoked c" ?told] True by simp
  qed (simp add: evict_socket_def)
qed

lemma map_eq_list_all2: "map f xs = map g ys \<Longrightarrow> list_all2 (\<lambda>x y. g y = f x) xs ys"
  by (induction xs arbitrary: ys) (auto simp: Cons_eq_map_conv)

lemma core_evict_fold:
  "map core (fold (evict_socket c u) xs all) =
     map (\<lambda>s. if \<exists>x \<in> set xs. so_userId x = u \<and> so_id s = so_id x then expelled c s else s) (map core all)"
proof (induction xs arbitrary: all)
  case (Cons x xs)
  show ?case unfolding fold_simps Cons core_evict_socket by auto
qed simp

lemma evict_core:
  assumes "sv_adapter_up v" and "unique_keys so_id (sv_sockets v)"
  shows "map core (sv_sockets (evictUserFromCrewRoom c u v)) =
    map (\<lambda>s. if so_userId s = u \<and> in_room (crew_room c) s then expelled c (core s) else core s) (sv_sockets v)"
proof -
  have same: "x = s" if "x \<in> set (sv_sockets v)" "s \<in> set (sv_sockets v)" "so_id s = so_id x" for x s
    using assms(2) that by (metis distinct_map inj_onD)
  show ?thesis
    using assms(1) by (auto simp: evictUserFromCrewRoom_def core_evict_fold dest: same)
qed

definition gone_from :: "string \<Rightarrow> string \<Rightarrow> crew_srv \<Rightarrow> crew_srv \<Rightarrow> bool" where
  "gone_from crewId u v v' \<longleftrightarrow>
     getMember crewId u (sv_db v') = None
     \<and> (\<forall>s \<in> set (sv_sockets v'). so_userId s = u \<longrightarrow> \<not> in_room (crew_room crewId) s)
     \<and> list_all2 (\<lambda>s s'. so_userId s = u \<and> in_room (crew_room crewId) s \<longrightarrow> so_sharingCrewId s' = None)
         (sv_sockets v) (sv_sockets v')
     \<and> list_all2 (\<lambda>s s'. so_userId s \<noteq> u \<longrightarrow> core s' = core s) (sv_sockets v) (sv_sockets v')"

lemma getMember_removed: "getMember c u (removeMember c u d) = None"
  by (auto simp: getMember_def removeMember_def find_None_iff)

lemma evict_gone:
  assumes "sv_adapter_up v" and "unique_keys so_id (sv_sockets v)"
  shows "gone_from c u v (evictUserFromCrewRoom c u (tell_room c ev (v\<lparr>sv_db := removeMember c u (sv_db v)\<rparr>)))"
proof -
  let ?w = "tell_room c ev (v\<lparr>sv_db := removeMember c u (sv_db v)\<rparr>)"
  let ?v' = "evictUserFromCrewRoom c u ?w"
  have soc: "sv_sockets ?w = emit_room (crew_room c) ev (sv_sockets v)" by (simp add: tell_room_def)
  have same: "map f (emit_room (crew_room c) ev (sv_sockets v)) = map f (sv_sockets v)"
    if "\<And>s. f (deliver ev s) = f s" for f :: "live_socket \<Rightarrow> 'x"
    using that by (simp add: emit_room_def)
  have room: "in_room r (deliver ev s) = in_room r s" "so_userId (deliver ev s) = so_userId s" for r s
    by (simp_all add: in_room_def deliver_def)
  have "unique_keys so_id (sv_sockets ?w)"
    using assms(2) by (simp only: soc) (subst same, simp_all add: deliver_def)
  moreover have "sv_adapter_up ?w" using assms(1) by (simp add: tell_room_def)
  ultimately have "map core (sv_sockets ?v') =
      map (\<lambda>s. if so_userId s = u \<and> in_room (crew_room c) s then expelled c (core s) else core s) (sv_sockets ?w)"
    by (intro evict_core)
  also have "\<dots> = map (\<lambda>s. if so_userId s = u \<and> in_room (crew_room c) s then expelled c (core s) else core s) (sv_sockets v)"
    unfolding soc by (rule same) (simp add: room)
  finally have core_s: "list_all2 (\<lambda>s s'. core s' =
        (if so_userId s = u \<and> in_room (crew_room c) s then expelled c (core s) else core s))
      (sv_sockets v) (sv_sockets ?v')"
    by (intro map_eq_list_all2) (rule sym)
  have "getMember c u (sv_db ?v') = None"
    by (simp add: evictUserFromCrewRoom_def tell_room_def getMember_removed)
  moreover have "\<not> in_room (crew_room c) s'" if s': "s' \<in> set (sv_sockets ?v')" "so_userId s' = u" for s'
  proof -
    obtain i where "i < length (sv_sockets ?v')" "s' = sv_sockets ?v' ! i" using s'(1) by (auto simp: in_set_conv_nth)
    then obtain s where "core s' = (if so_userId s = u \<and> in_room (crew_room c) s then expelled c (core s) else core s)"
      using list_all2_nthD2 [OF core_s] by blast
    then have "so_rooms s' = so_rooms (if so_userId s = u \<and> in_room (crew_room c) s then expelled c (core s) else core s)"
      and "so_userId s' = so_userId s"
      by (metis core_simps(6), metis core_simps(5) expelled_simps(2))
    with s'(2) show ?thesis by (auto simp: in_room_def split: if_splits)
  qed
  moreover have "list_all2 (\<lambda>s s'. so_userId s = u \<and> in_room (crew_room c) s \<longrightarrow> so_sharingCrewId s' = None)
      (sv_sockets v) (sv_sockets ?v')"
    by (rule list_all2_mono [OF core_s]) (metis core_simps(7) expelled_simps(4))
  moreover have "list_all2 (\<lambda>s s'. so_userId s \<noteq> u \<longrightarrow> core s' = core s) (sv_sockets v) (sv_sockets ?v')"
    by (rule list_all2_mono [OF core_s]) simp
  ultimately show ?thesis unfolding gone_from_def by blast
qed


definition srv0 :: crew_srv where
  "srv0 =
     \<lparr>sv_db = \<lparr>cd_crews = [crew_of_data 0 \<lparr>cw_id = ''c'', cw_festivalId = ''f'', cw_name = ''n'', cw_createdBy = ''o'',
                 cw_inviteCode = ''ABCDEF'', cw_inviteExpiresAt = None, cw_maxMembers = 2, cw_reformedFrom = None,
                 cw_totemName = None, cw_totemEmoji = None\<rparr>],
               cd_members = [\<lparr>cm_crewId = ''c'', cm_userId = ''o'', cm_role = Owner, cm_joinedAt = 0\<rparr>,
                 \<lparr>cm_crewId = ''c'', cm_userId = ''m'', cm_role = Member, cm_joinedAt = 1\<rparr>],
               cd_users = (\<lambda>u. Some \<lparr>us_username = u, us_name = None, us_avatarKey = None, us_avatarVersion = None\<rparr>),
               cd_festivals = (\<lambda>f. Some f),
               cd_profiles = [\<lparr>pf_userId = ''x'', pf_festivalId = ''f'', pf_picks = []\<rparr>], cd_now = 5\<rparr>,
      sv_db_up = True,
      sv_sockets = [\<lparr>so_id = 1, so_userId = ''m'', so_rooms = [''crew:c''], so_sharingCrewId = Some ''c'',
         so_membershipCheckedAt = None, so_membershipUpdateCount = None, so_inbox = []\<rparr>],
      sv_adapter_up = True\<rparr>"


end
