(* ===== verification/Crew_Races.thy ===== *)
theory Crew_Races
  imports Crew_Routes
begin

text \<open>
  Crew membership as a transition system.  A request first reads the tables (its check) and some
  time later performs its write; between the two other requests run.  \<open>decide\<close> is the check of
  each handler and yields the pending write, \<open>exec\<close> the store operation that performs it.  The
  handlers of \<open>Crew_Routes\<close> are the runs in which nothing comes in between.
\<close>

subsection \<open>Requests and pending writes\<close>

datatype crew_request =
    CreateReq string crew_create_body string "8 word list list"
  | JoinReq string string string
  | AdminAddReq bool string string string
  | LeaveReq string string string
  | KickReq string string string
  | TransferReq string string string
  | UpdateReq string string crew_update_body
  | DeleteReq string string
  | InviteReq string string "8 word list list"
  | ReformReq string string string string "8 word list list"

datatype crew_write =
    WCreate crew_data
  | WAdd string string nat
  | WRemove string string
  | WTransfer string string string
  | WUpdate string string nat "string option" "string option"
  | WDelete string
  | WInvite string string

fun decide :: "crew_request \<Rightarrow> crew_db \<Rightarrow> http_error + crew_write" where
  "decide (CreateReq u body newId bytes) d = map_sum id WCreate (create_check u body newId bytes d)"
| "decide (JoinReq u name code) d = map_sum id (\<lambda>c. WAdd (cr_id c) u (cr_maxMembers c)) (join_check u code d)"
| "decide (AdminAddReq adm u crewParam target) d =
     map_sum id (\<lambda>(c, t, _). WAdd (cr_id c) t (cr_maxMembers c)) (admin_add_check adm crewParam target d)"
| "decide (LeaveReq u name crewParam) d = map_sum id (\<lambda>c. WRemove c u) (leave_check u crewParam d)"
| "decide (KickReq u crewParam target) d = map_sum id (\<lambda>(c, t). WRemove c t) (kick_check u crewParam target d)"
| "decide (TransferReq u crewParam target) d =
     map_sum id (\<lambda>(c, t). WTransfer (cr_id c) u t) (transfer_check u crewParam target d)"
| "decide (UpdateReq u crewParam body) d =
     map_sum id (\<lambda>(c, n, k, t, e). WUpdate c n k t e) (update_check u crewParam body d)"
| "decide (DeleteReq u crewParam) d = map_sum id (\<lambda>c. WDelete (cr_id c)) (delete_check u crewParam d)"
| "decide (InviteReq u crewParam bytes) d = map_sum id (\<lambda>(c, k). WInvite c k) (invite_check u crewParam bytes d)"
| "decide (ReformReq u crewParam target newId bytes) d = Inl (500, ''Failed to reform crew'', INTERNAL_ERROR)"

fun exec :: "crew_write \<Rightarrow> crew_db \<Rightarrow> crew_db" where
  "exec (WCreate w) d = (case createWithOwner w d of Inl e \<Rightarrow> d | Inr (_, d') \<Rightarrow> d')"
| "exec (WAdd c u cap) d = (case addMember c u Member (Some cap) d of Inl e \<Rightarrow> d | Inr (_, d') \<Rightarrow> d')"
| "exec (WRemove c u) d = removeMember c u d"
| "exec (WTransfer c u v) d = transferOwnership c u v d"
| "exec (WUpdate c n k t e) d = snd (crews_update c n k (Some t) (Some e) d)"
| "exec (WDelete c) d = crews_delete c d"
| "exec (WInvite c k) d = (case regenerateInviteCode c k d of Inl e \<Rightarrow> d | Inr (_, d') \<Rightarrow> d')"

text \<open>The handlers, run one after the other.\<close>

fun serve :: "crew_request \<Rightarrow> crew_srv \<Rightarrow> crew_srv" where
  "serve (CreateReq u body newId bytes) v = snd (create_crew u body newId bytes v)"
| "serve (JoinReq u name code) v = snd (join_crew u name code v)"
| "serve (AdminAddReq adm u crewParam target) v = snd (admin_add_member adm u crewParam target v)"
| "serve (LeaveReq u name crewParam) v = snd (leave_crew u name crewParam v)"
| "serve (KickReq u crewParam target) v = snd (kick_member u crewParam target v)"
| "serve (TransferReq u crewParam target) v = snd (transfer_crew u crewParam target v)"
| "serve (UpdateReq u crewParam body) v = snd (update_crew u crewParam body v)"
| "serve (DeleteReq u crewParam) v = snd (delete_crew u crewParam v)"
| "serve (InviteReq u crewParam bytes) v = snd (regenerate_invite u crewParam bytes v)"
| "serve (ReformReq u crewParam target newId bytes) v = snd (reform_crew u crewParam target newId bytes v)"

fun is_reform :: "crew_request \<Rightarrow> bool" where
  "is_reform (ReformReq _ _ _ _ _) = True"
| "is_reform _ = False"

text \<open>On the tables a handler is its check followed at once by its write.\<close>

lemma evict_db [simp]: "sv_db (evictUserFromCrewRoom c u v) = sv_db v" "sv_db (evictAllFromCrewRoom c v) = sv_db v"
  "sv_db (tell_room c ev v) = sv_db v"
  by (simp_all add: evictUserFromCrewRoom_def evictAllFromCrewRoom_def tell_room_def)

lemma snd_respond [simp]: "snd (respond st a v) = v"
  by (simp add: respond_def)

lemma snd_handle:
  "snd (handle oops v check act) =
     (if \<not> sv_db_up v then v else case check (sv_db v) of Inl e \<Rightarrow> v | Inr c \<Rightarrow> snd (act c v))"
  by (simp add: handle_def split: sum.splits)

lemma snd_add_and_announce:
  "sv_db (snd (add_and_announce oops c u name viewer v)) = exec (WAdd (cr_id c) u (cr_maxMembers c)) (sv_db v)"
proof -
  have full: "d = sv_db v" if "addMember (cr_id c) u Member (Some (cr_maxMembers c)) (sv_db v) = Inr (Full, d)" for d
    using that by (auto simp: addMember_def split: if_splits sum.splits db_error.splits)
  show ?thesis
    by (auto simp: add_and_announce_def dest: full split: sum.splits add_result.splits)
qed

lemma created_exists: "createWithOwner w d = Inr (c, d') \<Longrightarrow> crewById (cw_id w) d' \<noteq> None"
  by (auto simp: createWithOwner_def insert_crew_def insert_member_def crewById_def crew_of_data_def Let_def find_None_iff
      split: sum.splits if_splits)

lemma create_check_id: "create_check u body newId bytes d = Inr w \<Longrightarrow> cw_id w = newId"
  by (auto simp: create_check_def Let_def split: if_splits option.splits)

lemma serve_create:
  "sv_db (snd (create_crew u body newId bytes v)) =
     (if \<not> sv_db_up v then sv_db v
      else case create_check u body newId bytes (sv_db v) of
             Inl e \<Rightarrow> sv_db v | Inr w \<Rightarrow> exec (WCreate w) (sv_db v))"
  by (auto simp: create_crew_def snd_handle dest: create_check_id created_exists split: sum.splits option.splits)

lemma serve_update:
  "sv_db (snd (update_crew u crewParam body v)) =
     (if \<not> sv_db_up v then sv_db v
      else case update_check u crewParam body (sv_db v) of
             Inl e \<Rightarrow> sv_db v | Inr (c, n, k, t, e) \<Rightarrow> exec (WUpdate c n k t e) (sv_db v))"
  by (auto simp: update_crew_def snd_handle split: sum.splits option.splits prod.splits)

lemma serve_decide:
  assumes "\<not> is_reform rq"
  shows "sv_db (serve rq v) =
    (if \<not> sv_db_up v then sv_db v
     else case decide rq (sv_db v) of Inl e \<Rightarrow> sv_db v | Inr w \<Rightarrow> exec w (sv_db v))"
proof (cases rq)
  case (CreateReq u body newId bytes)
  then show ?thesis by (simp add: serve_create map_sum_def split: sum.splits)
next
  case (UpdateReq u crewParam body)
  then show ?thesis by (auto simp: serve_update map_sum_def split: sum.splits)
next
  case (JoinReq u name code)
  then show ?thesis
    by (simp add: join_crew_def snd_handle snd_add_and_announce map_sum_def del: exec.simps split: sum.splits)
next
  case (AdminAddReq adm u crewParam target)
  then show ?thesis
    by (auto simp: admin_add_member_def snd_handle snd_add_and_announce map_sum_def simp del: exec.simps split: sum.splits)
next
  case (LeaveReq u name crewParam)
  then show ?thesis by (simp add: leave_crew_def snd_handle map_sum_def split: sum.splits)
next
  case (KickReq u crewParam target)
  then show ?thesis by (auto simp: kick_member_def snd_handle map_sum_def split: sum.splits)
next
  case (TransferReq u crewParam target)
  then show ?thesis by (auto simp: transfer_crew_def snd_handle map_sum_def Let_def split: sum.splits prod.splits)
next
  case (DeleteReq u crewParam)
  then show ?thesis by (simp add: delete_crew_def snd_handle map_sum_def split: sum.splits)
next
  case (InviteReq u crewParam bytes)
  then show ?thesis by (auto simp: regenerate_invite_def snd_handle map_sum_def split: sum.splits)
qed (use assms in simp)

subsection \<open>What a check guarantees of its write\<close>

lemma getMember_role:
  assumes "tables_ok d" and "getMember c u d = Some m"
  shows "u \<in> set (owners_of c d) \<longleftrightarrow> cm_role m = Owner" and "u \<in> cm_userId ` set (rows_of c d)"
proof -
  note m = getMember_Some [OF assms(2)]
  then have row: "m \<in> set (rows_of c d)" by (simp add: rows_of_def)
  then show "u \<in> cm_userId ` set (rows_of c d)" using m by blast
  have "m' = m" if "m' \<in> set (rows_of c d)" "cm_userId m' = u" for m'
    using rows_unique [OF assms(1), of c] that row m by (metis distinct_map inj_onD)
  with row m show "u \<in> set (owners_of c d) \<longleftrightarrow> cm_role m = Owner" unfolding owners_rows by blast
qed

lemma getMember_some_row: "getMember c u d \<noteq> None \<longleftrightarrow> u \<in> cm_userId ` set (rows_of c d)"
  by (auto simp: getMember_def rows_of_def find_None_iff)

lemma resolve_owner:
  assumes "resolveCrewOwnership c u a d = Inr x" and "tables_ok d"
  shows "u \<in> set (owners_of c d)" and "crewById c d = Some x" and "cr_id x = c"
  using assms getMember_role(1) [OF assms(2)]
  by (auto simp: resolveCrewOwnership_def dest: crewById_Some split: option.splits if_splits)

text \<open>Removing touches no owner, and transferring goes from the owner to another member.\<close>

fun owner_safe :: "crew_write \<Rightarrow> crew_db \<Rightarrow> bool" where
  "owner_safe (WRemove c u) d = (u \<notin> set (owners_of c d))"
| "owner_safe (WTransfer c u v) d = (u \<in> set (owners_of c d) \<and> v \<in> cm_userId ` set (rows_of c d) \<and> v \<noteq> u)"
| "owner_safe _ d = True"

lemma sole_owner:
  assumes "one_owner d" and "tables_ok d" and "u \<in> set (owners_of c d)"
  shows "owners_of c d = [u]"
proof -
  have "c \<in> cr_id ` set (cd_crews d)"
    using assms(3) no_crew_no_rows [OF assms(2), of c] by (cases "c \<in> cr_id ` set (cd_crews d)") (auto simp: owners_of_def)
  with assms(1,3) show ?thesis by (auto simp: one_owner_def)
qed

lemma decide_safe:
  assumes "decide rq d = Inr w" and ok: "tables_ok d" and one: "one_owner d"
  shows "owner_safe w d"
proof (cases rq)
  case (LeaveReq u name crewParam)
  with assms(1) obtain c where w: "w = WRemove c u" and chk: "leave_check u crewParam d = Inr c"
    by (auto simp: map_sum_def split: sum.splits)
  from chk obtain m where "getMember c u d = Some m" "cm_role m \<noteq> Owner"
    by (auto simp: leave_check_def with_crew_id_def split: option.splits if_splits)
  with getMember_role(1) [OF ok] show ?thesis by (simp add: w)
next
  case (KickReq u crewParam target)
  with assms(1) obtain c t where w: "w = WRemove c t" and chk: "kick_check u crewParam target d = Inr (c, t)"
    by (auto simp: map_sum_def split: sum.splits)
  from chk obtain x where "resolveCrewOwnership c u ''kick members'' d = Inr x" "t \<noteq> u"
    by (auto simp: kick_check_def split: option.splits sum.splits if_splits)
  with resolve_owner(1) [OF _ ok] sole_owner [OF one ok] show ?thesis by (fastforce simp: w)
next
  case (TransferReq u crewParam target)
  with assms(1) obtain c t where w: "w = WTransfer (cr_id c) u t" and chk: "transfer_check u crewParam target d = Inr (c, t)"
    by (auto simp: map_sum_def split: sum.splits)
  from chk obtain i where res: "resolveCrewOwnership i u ''transfer'' d = Inr c" and t: "t \<noteq> u" "getMember i t d \<noteq> None"
    by (auto simp: transfer_check_def with_crew_id_def split: option.splits sum.splits if_splits)
  with resolve_owner [OF res ok] getMember_some_row show ?thesis by (simp add: w)
qed (use assms(1) in \<open>auto simp: map_sum_def split: sum.splits\<close>)

subsection \<open>One request at a time\<close>

lemma exec_tables: "tables_ok d \<Longrightarrow> tables_ok (exec w d)"
  by (cases w) (auto intro: inv_intros split: sum.splits simp: createWithOwner_tables)

lemma exec_one_owner:
  assumes ok: "tables_ok d" and one: "one_owner d" and safe: "owner_safe w d"
  shows "one_owner (exec w d)"
proof (cases w)
  case (WCreate x)
  then show ?thesis using one_owner_create [OF _ ok one] one by (auto split: sum.splits)
next
  case (WAdd c u cap)
  then show ?thesis using one_owner_add [OF _ one] one by (auto split: sum.splits)
next
  case (WRemove c u)
  then show ?thesis using one_owner_remove [OF one] safe by simp
next
  case (WTransfer c u v)
  then show ?thesis using one_owner_transfer(1) [OF ok one] safe by simp
next
  case (WUpdate c n k t e)
  then show ?thesis by (simp add: crews_update_def Let_def one_owner_set_crew [OF one])
next
  case (WDelete c)
  then show ?thesis using one_owner_delete [OF one] by simp
next
  case (WInvite c k)
  then show ?thesis
    by (auto simp: regenerateInviteCode_def Let_def one one_owner_set_crew [OF one] split: sum.splits if_splits)
qed

lemma reform_adds_inv:
  assumes "tables_ok d \<and> one_owner d"
  shows "tables_ok (snd (reform_adds c us n d)) \<and> one_owner (snd (reform_adds c us n d))"
  using assms
proof (induction c us n d rule: reform_adds.induct)
  case (2 c uid us n d)
  show ?case
  proof (cases "addMember c uid Member None d")
    case (Inr p)
    then obtain a d1 where p: "addMember c uid Member None d = Inr (a, d1)" by (cases p) auto
    have "tables_ok d1 \<and> one_owner d1"
      using "2.prems" tables_ok_add [OF p] one_owner_add [OF p] by blast
    with "2.IH"(2) p "2.prems" show ?thesis by (auto split: prod.splits)
  qed (use 2 in auto)
qed simp

lemma reform_target_inv:
  assumes "reform_target u src f newId bytes d = Inr (c, d')" and "tables_ok d \<and> one_owner d"
  shows "tables_ok d' \<and> one_owner d'"
proof -
  have "d' = d \<or> (\<exists>w x. createWithOwner w d = Inr (x, d'))"
    using assms(1) by (auto simp: reform_target_def Let_def split: option.splits if_splits sum.splits db_error.splits)
  then show ?thesis using assms(2) createWithOwner_tables one_owner_create by blast
qed

lemma serve_inv:
  assumes "tables_ok (sv_db v) \<and> one_owner (sv_db v)"
  shows "tables_ok (sv_db (serve rq v)) \<and> one_owner (sv_db (serve rq v))"
proof (cases "is_reform rq")
  case False
  show ?thesis
    using assms exec_tables exec_one_owner decide_safe unfolding serve_decide [OF False] by (auto split: sum.splits)
next
  case True
  then obtain u p f newId bytes where rq: "rq = ReformReq u p f newId bytes" by (cases rq) auto
  show ?thesis
    using assms reform_target_inv reform_adds_inv
    unfolding rq serve.simps reform_crew_def snd_handle
    by (simp split: sum.splits prod.splits option.splits) (metis snd_conv)
qed

interpretation serving: inv_system "\<lambda>v v'. \<exists>rq. v' = serve rq v" "\<lambda>v. tables_ok (sv_db v) \<and> one_owner (sv_db v)"
  by unfold_locales (use serve_inv in blast)

lemma fold_serve_reach: "(\<lambda>v v'. \<exists>rq. v' = serve rq v)\<^sup>*\<^sup>* v (fold serve rqs v)"
proof (induction rqs arbitrary: v)
  case (Cons rq rqs)
  have "(\<lambda>v v'. \<exists>rq. v' = serve rq v)\<^sup>*\<^sup>* v (serve rq v)" by (rule r_into_rtranclp) blast
  with Cons [of "serve rq v"] show ?case by simp
qed simp

text \<open>C6. Served one at a time, crew requests (create, join, add, leave, kick, transfer, update,
  delete, new invite code, reform) keep every crew with exactly one owner, who is a member, keep
  crew ids, invite codes and memberships unique, and leave no membership without its crew.\<close>

theorem crew_requests_keep_one_owner:
  assumes "tables_ok (sv_db v)" and "one_owner (sv_db v)"
  shows "tables_ok (sv_db (fold serve rqs v)) \<and> one_owner (sv_db (fold serve rqs v))"
  using serving.inv_reach [OF fold_serve_reach] assms by blast

lemma srv0_ok: "tables_ok (sv_db srv0)" "one_owner (sv_db srv0)"
  by (simp_all add: srv0_def tables_ok_def one_owner_def owners_of_def rows_of_def crew_of_data_def member_key_def)

lemma crew_requests_keep_one_owner_witness:
  "tables_ok (sv_db (fold serve [TransferReq ''o'' ''c'' ''m'', LeaveReq ''o'' ''o'' ''c''] srv0))
   \<and> one_owner (sv_db (fold serve [TransferReq ''o'' ''c'' ''m'', LeaveReq ''o'' ''o'' ''c''] srv0))"
  by (rule crew_requests_keep_one_owner) (simp_all add: srv0_ok)

lemma sanitize_letter [simp]: "is_ident_char x \<Longrightarrow> sanitizeIdentifier [x] = Some [x]"
  by (simp add: sanitizeIdentifier_def Let_def js_trim_ident)

lemma letters [simp]: "is_ident_char CHR ''c''" "is_ident_char CHR ''m''" "is_ident_char CHR ''w''" "is_ident_char CHR ''o''"
  by (simp_all add: is_ident_char_def)

lemmas world_eval = srv0_def leave_check_def transfer_check_def resolveCrewOwnership_def with_crew_id_def
  crewById_def getMember_def crew_of_data_def

text \<open>A transfer makes the target the crew's one owner, but the \<open>owner\<close> of the serialized crew,
  which clients read for ownership checks, stays the creator: after the creator transferred the
  crew, the new owner is told that the old one owns it.\<close>

theorem transfer_keeps_serialized_owner:
  assumes ok: "tables_ok (sv_db v)" and one: "one_owner (sv_db v)" and up: "sv_db_up v"
    and chk: "transfer_check u p t (sv_db v) = Inr (c, w)" and creator: "cr_createdBy c = u"
  shows "owners_of (cr_id c) (sv_db (snd (transfer_crew u p t v))) = [w]
    \<and> (case fst (get_crew w p (snd (transfer_crew u p t v))) of
         Inr (_, view, _) \<Rightarrow> sc_id view = cr_id c \<and> sc_owner view = u \<and> u \<noteq> w | Inl _ \<Rightarrow> False)"
proof -
  let ?d = "sv_db v" and ?v' = "snd (transfer_crew u p t v)"
  obtain i where i: "sanitizeIdentifier p = Some i" "resolveCrewOwnership i u ''transfer'' ?d = Inr c" "w \<noteq> u"
      "getMember i w ?d \<noteq> None"
    using chk by (auto simp: transfer_check_def with_crew_id_def split: option.splits sum.splits if_splits)
  note r = resolve_owner [OF i(2) ok]
  have w: "w \<in> cm_userId ` set (rows_of (cr_id c) ?d)" using i(4) getMember_some_row r(3) by blast
  have d': "sv_db ?v' = transferOwnership (cr_id c) u w ?d" "sv_db_up ?v'"
    using up chk by (auto simp: transfer_crew_def snd_handle Let_def tell_room_def split: prod.splits)
  have own: "owners_of (cr_id c) (sv_db ?v') = [w]"
    unfolding d' by (rule one_owner_transfer(2) [OF ok one _ w i(3)]) (use r in simp)
  then have "w \<in> cm_userId ` set (rows_of (cr_id c) (sv_db ?v'))"
    using owners_rows [of w "cr_id c" "sv_db ?v'"] by auto
  then have mem: "getMember i w (sv_db ?v') \<noteq> None" using getMember_some_row r(3) by blast
  have "crewById i (sv_db ?v') = Some c"
    using r(2) unfolding d' by (simp add: crewById_def transferOwnership_def updateMemberRole_keys)
  with mem i(1) have "member_check w p (sv_db ?v') = Inr c" by (simp add: member_check_def with_crew_id_def)
  with d'(2) own i(3) creator show ?thesis
    by (simp add: get_crew_def handle_def respond_def serializeCrewWithMembers_def serializeCrew_def Let_def)
qed

lemma transfer_keeps_serialized_owner_witness:
  "owners_of ''c'' (sv_db (snd (transfer_crew ''o'' ''c'' ''m'' srv0))) = [''m'']
    \<and> (case fst (get_crew ''m'' ''c'' (snd (transfer_crew ''o'' ''c'' ''m'' srv0))) of
         Inr (_, view, _) \<Rightarrow> sc_id view = ''c'' \<and> sc_owner view = ''o'' \<and> ''o'' \<noteq> ''m'' | Inl _ \<Rightarrow> False)"
proof -
  let ?c = "hd (cd_crews (sv_db srv0))"
  have c: "cr_id ?c = ''c''" "cr_createdBy ?c = ''o''" by (simp_all add: srv0_def crew_of_data_def)
  have "transfer_check ''o'' ''c'' ''m'' (sv_db srv0) = Inr (?c, ''m'')" by (simp add: world_eval)
  from transfer_keeps_serialized_owner [OF srv0_ok _ this c(2)] show ?thesis unfolding c by (simp add: srv0_def)
qed

subsection \<open>Requests in flight together\<close>

record crew_world =
  wd_db :: crew_db
  wd_pending :: "crew_write list"

text \<open>What body validation promises of an update.\<close>

fun request_valid :: "crew_request \<Rightarrow> bool" where
  "request_valid (UpdateReq u p body) = crewUpdateSchema body"
| "request_valid _ = True"

inductive crew_step :: "crew_world \<Rightarrow> crew_world \<Rightarrow> bool" where
  arrive: "request_valid rq \<Longrightarrow> decide rq (wd_db s) = Inr w \<Longrightarrow>
    crew_step s (s\<lparr>wd_pending := w # wd_pending s\<rparr>)"
| commit: "wd_pending s = xs @ w # ys \<Longrightarrow>
    crew_step s \<lparr>wd_db = exec w (wd_db s), wd_pending = xs @ ys\<rparr>"
| outside: "cd_crews d = cd_crews (wd_db s) \<Longrightarrow> cd_members d = cd_members (wd_db s) \<Longrightarrow>
    crew_step s (s\<lparr>wd_db := d\<rparr>)"

inductive_cases crew_stepE: "crew_step s t"

fun write_bounded :: "nat \<Rightarrow> crew_write \<Rightarrow> bool" where
  "write_bounded n (WCreate w) = (cw_maxMembers w \<le> n)"
| "write_bounded n (WAdd c u cap) = (cap \<le> n)"
| "write_bounded n (WUpdate c nm k t e) = (k \<le> n)"
| "write_bounded n _ = True"

definition world_ok :: "crew_world \<Rightarrow> bool" where
  "world_ok s \<longleftrightarrow> tables_ok (wd_db s) \<and> sizes_ok 30 (wd_db s) \<and> list_all (write_bounded 30) (wd_pending s)"

lemma decide_bounded:
  assumes "decide rq d = Inr w" and "sizes_ok 30 d" and "request_valid rq"
  shows "write_bounded 30 w"
proof (cases rq)
  case (UpdateReq u p body)
  with assms(1) obtain c n k t e where w: "w = WUpdate c n k t e" and chk: "update_check u p body d = Inr (c, n, k, t, e)"
    by (auto simp: map_sum_def split: sum.splits)
  from chk obtain x where "crewById c d = Some x" "k = (case ub_maxMembers body of Some k \<Rightarrow> k | None \<Rightarrow> cr_maxMembers x)"
    by (auto simp: update_check_def with_crew_id_def resolveCrewOwnership_def split: option.splits sum.splits if_splits)
  with assms UpdateReq show ?thesis
    by (auto simp: w crewUpdateSchema_def sizes_ok_def dest: crewById_Some split: option.splits)
qed (use assms in \<open>auto simp: map_sum_def create_check_def join_check_def admin_add_check_def with_crew_id_def Let_def
        sizes_ok_def dest: crewById_Some getByInviteCode_Some split: sum.splits if_splits option.splits\<close>)

lemma exec_sizes:
  assumes "write_bounded 30 w" and "tables_ok d" and "sizes_ok 30 d"
  shows "sizes_ok 30 (exec w d)"
proof (cases w)
  case (WCreate x)
  then show ?thesis using sizes_create [OF _ assms(2,3)] assms by (auto split: sum.splits)
next
  case (WAdd c u cap)
  then show ?thesis using sizes_add [of c u Member cap d _ _ 30] assms by (auto split: sum.splits)
next
  case (WTransfer c u v)
  then show ?thesis using assms by (simp add: transferOwnership_def sizes_role)
next
  case (WUpdate c n k t e)
  then show ?thesis using assms by (simp add: crews_update_def Let_def sizes_set_crew)
next
  case (WInvite c k)
  then show ?thesis
    using assms by (auto simp: regenerateInviteCode_def Let_def sizes_set_crew split: sum.splits if_splits)
qed (use assms in \<open>auto simp: sizes_remove sizes_delete\<close>)

lemma frame_ok:
  assumes "cd_crews d = cd_crews d'" and "cd_members d = cd_members d'"
  shows "tables_ok d = tables_ok d'" and "sizes_ok n d = sizes_ok n d'"
  using assms by (simp_all add: tables_ok_def sizes_ok_def getMemberCount_def rows_of_def)

lemma crew_step_ok:
  assumes ok: "world_ok s" and step: "crew_step s t"
  shows "world_ok t"
  using step
proof (rule crew_stepE)
  fix rq w
  assume "t = s\<lparr>wd_pending := w # wd_pending s\<rparr>" "request_valid rq" "decide rq (wd_db s) = Inr w"
  with ok decide_bounded show ?thesis by (auto simp: world_ok_def)
next
  fix xs w ys
  assume "t = \<lparr>wd_db = exec w (wd_db s), wd_pending = xs @ ys\<rparr>" "wd_pending s = xs @ w # ys"
  with ok exec_tables exec_sizes show ?thesis by (simp add: world_ok_def)
next
  fix d
  assume "t = s\<lparr>wd_db := d\<rparr>" "cd_crews d = cd_crews (wd_db s)" "cd_members d = cd_members (wd_db s)"
  with ok frame_ok [of d "wd_db s"] show ?thesis by (simp add: world_ok_def)
qed

interpretation races: inv_system crew_step world_ok
  by unfold_locales (rule crew_step_ok)


definition world0 :: crew_world where
  "world0 = \<lparr>wd_db = (sv_db srv0), wd_pending = []\<rparr>"


subsection \<open>Where interleaving breaks ownership\<close>

lemma two_in_flight:
  assumes "decide r1 d = Inr w1" and "request_valid r1" and "decide r2 d = Inr w2" and "request_valid r2"
  shows "crew_step\<^sup>*\<^sup>* \<lparr>wd_db = d, wd_pending = []\<rparr> \<lparr>wd_db = exec w2 (exec w1 d), wd_pending = []\<rparr>"
proof -
  have s1: "crew_step \<lparr>wd_db = d, wd_pending = []\<rparr> \<lparr>wd_db = d, wd_pending = [w1]\<rparr>"
    using arrive [of r1 "\<lparr>wd_db = d, wd_pending = []\<rparr>" w1] assms by simp
  have s2: "crew_step \<lparr>wd_db = d, wd_pending = [w1]\<rparr> \<lparr>wd_db = d, wd_pending = [w2, w1]\<rparr>"
    using arrive [of r2 "\<lparr>wd_db = d, wd_pending = [w1]\<rparr>" w2] assms by simp
  have s3: "crew_step \<lparr>wd_db = d, wd_pending = [w2, w1]\<rparr> \<lparr>wd_db = exec w1 d, wd_pending = [w2]\<rparr>"
    using commit [of "\<lparr>wd_db = d, wd_pending = [w2, w1]\<rparr>" "[w2]" w1 "[]"] by simp
  have s4: "crew_step \<lparr>wd_db = exec w1 d, wd_pending = [w2]\<rparr> \<lparr>wd_db = exec w2 (exec w1 d), wd_pending = []\<rparr>"
    using commit [of "\<lparr>wd_db = exec w1 d, wd_pending = [w2]\<rparr>" "[]" w2 "[]"] by simp
  from s1 s2 s3 s4 show ?thesis by (meson converse_rtranclp_into_rtranclp rtranclp.rtrancl_refl)
qed

lemma owners_promote_missing:
  "v \<notin> cm_userId ` set (rows_of c d) \<Longrightarrow> owners_of c (updateMemberRole c v Owner d) = owners_of c d"
proof -
  assume "v \<notin> cm_userId ` set (rows_of c d)"
  then have "map (\<lambda>m. if cm_userId m = v then m\<lparr>cm_role := Owner\<rparr> else m) (rows_of c d) = rows_of c d"
    by (intro map_idI) auto
  then show ?thesis by (simp add: owners_of_def rows_of_role)
qed

lemma no_owner_no_rights:
  assumes "owners_of c d = []"
  shows "\<not> (\<exists>x. resolveCrewOwnership c u a d = Inr x)"
proof -
  have "cm_role m \<noteq> Owner" if "getMember c u d = Some m" for m
    using assms getMember_Some [OF that] owners_rows [of u c d] by (auto simp: rows_of_def)
  then show ?thesis by (auto simp: resolveCrewOwnership_def split: option.splits)
qed

text \<open>Two requests in flight defeat the transactional transfer.  If the target of a transfer
  leaves between the check and the write, the crew ends with no owner, and no user passes the
  ownership check for it ever after the leave; and if the owner has two transfers to different
  members in flight, the crew ends with both as owners.\<close>

theorem transfer_race_breaks_ownership:
  assumes ok: "tables_ok d" and one: "one_owner d"
    and to_v: "decide (TransferReq u p1 t1) d = Inr (WTransfer c u v)"
    and leaves: "decide (LeaveReq v n p2) d = Inr (WRemove c v)"
    and to_w: "decide (TransferReq u p3 t3) d = Inr (WTransfer c u w)" and neq: "v \<noteq> w"
  shows "(\<exists>s. crew_step\<^sup>*\<^sup>* \<lparr>wd_db = d, wd_pending = []\<rparr> s \<and> wd_pending s = [] \<and> owners_of c (wd_db s) = []
            \<and> c \<in> cr_id ` set (cd_crews (wd_db s))
            \<and> (\<forall>x a. \<not> (\<exists>k. resolveCrewOwnership c x a (wd_db s) = Inr k)))
     \<and> (\<exists>s. crew_step\<^sup>*\<^sup>* \<lparr>wd_db = d, wd_pending = []\<rparr> s \<and> wd_pending s = []
            \<and> set (owners_of c (wd_db s)) = {v, w})"
proof
  have safe: "u \<in> set (owners_of c d)" "v \<in> cm_userId ` set (rows_of c d)" "w \<in> cm_userId ` set (rows_of c d)"
    "v \<noteq> u" "w \<noteq> u"
    using decide_safe [OF to_v ok one] decide_safe [OF to_w ok one] by simp_all
  have own: "owners_of c d = [u]" by (rule sole_owner [OF one ok safe(1)])
  have c: "c \<in> cr_id ` set (cd_crews d)"
    using safe(2) no_crew_no_rows [OF ok, of c] by (cases "c \<in> cr_id ` set (cd_crews d)") auto
  let ?d1 = "removeMember c v d"
  have rows1: "v \<notin> cm_userId ` set (rows_of c (updateMemberRole c u Member ?d1))"
    by (auto simp: rows_of_role rows_of_remove)
  have "owners_of c (transferOwnership c u v ?d1) = []"
    by (simp add: transferOwnership_def owners_promote_missing [OF rows1] owners_demote owners_remove own)
  moreover have "c \<in> cr_id ` set (cd_crews (transferOwnership c u v ?d1))"
    using c by (simp add: transferOwnership_def updateMemberRole_keys)
  moreover have "crew_step\<^sup>*\<^sup>* \<lparr>wd_db = d, wd_pending = []\<rparr>
      \<lparr>wd_db = transferOwnership c u v ?d1, wd_pending = []\<rparr>"
    using two_in_flight [OF leaves _ to_v] by simp
  ultimately show "\<exists>s. crew_step\<^sup>*\<^sup>* \<lparr>wd_db = d, wd_pending = []\<rparr> s \<and> wd_pending s = [] \<and> owners_of c (wd_db s) = []
            \<and> c \<in> cr_id ` set (cd_crews (wd_db s))
            \<and> (\<forall>x a. \<not> (\<exists>k. resolveCrewOwnership c x a (wd_db s) = Inr k))"
    using no_owner_no_rights [of c "transferOwnership c u v ?d1"]
    by (intro exI [of _ "\<lparr>wd_db = transferOwnership c u v ?d1, wd_pending = []\<rparr>"]) (simp only: crew_world.simps simp_thms)
  let ?d2 = "transferOwnership c u v d"
  have o2: "owners_of c ?d2 = [v]" by (rule one_owner_transfer(2) [OF ok one safe(1,2,4)])
  let ?d3 = "updateMemberRole c u Member ?d2"
  have o3: "owners_of c ?d3 = [v]" using safe(4) by (simp add: owners_demote o2)
  have ids: "cm_userId ` set (rows_of c (updateMemberRole c x r e)) = cm_userId ` set (rows_of c e)" for x r e
    unfolding list.set_map [symmetric] by (rule arg_cong [where f = set]) (simp add: rows_of_role)
  have "set (owners_of c (transferOwnership c u w ?d2)) = {v, w}"
    unfolding transferOwnership_def [of c u w]
    using owners_promote(2) [of c ?d3 w] rows_unique [OF tables_ok_role [OF tables_ok_transfer [OF ok]]] o3 neq safe(3)
    by (auto simp: ids transferOwnership_def)
  then show "\<exists>s. crew_step\<^sup>*\<^sup>* \<lparr>wd_db = d, wd_pending = []\<rparr> s \<and> wd_pending s = [] \<and> set (owners_of c (wd_db s)) = {v, w}"
    using two_in_flight [OF to_v _ to_w]
    by (intro exI [of _ "\<lparr>wd_db = transferOwnership c u w ?d2, wd_pending = []\<rparr>"]) simp
qed

definition srv3 :: crew_srv where
  "srv3 = srv0\<lparr>sv_db := (sv_db srv0)\<lparr>cd_members := cd_members (sv_db srv0) @
     [\<lparr>cm_crewId = ''c'', cm_userId = ''w'', cm_role = Member, cm_joinedAt = 2\<rparr>]\<rparr>\<rparr>"

lemma transfer_race_breaks_ownership_witness:
  "(\<exists>s. crew_step\<^sup>*\<^sup>* \<lparr>wd_db = sv_db srv3, wd_pending = []\<rparr> s \<and> wd_pending s = [] \<and> owners_of ''c'' (wd_db s) = []
            \<and> ''c'' \<in> cr_id ` set (cd_crews (wd_db s))
            \<and> (\<forall>x a. \<not> (\<exists>k. resolveCrewOwnership ''c'' x a (wd_db s) = Inr k)))
     \<and> (\<exists>s. crew_step\<^sup>*\<^sup>* \<lparr>wd_db = sv_db srv3, wd_pending = []\<rparr> s \<and> wd_pending s = []
            \<and> set (owners_of ''c'' (wd_db s)) = {''m'', ''w''})"
proof (rule transfer_race_breaks_ownership)
  show "tables_ok (sv_db srv3)" "one_owner (sv_db srv3)"
    by (simp_all add: srv3_def srv0_def tables_ok_def one_owner_def owners_of_def rows_of_def crew_of_data_def member_key_def)
  show "decide (TransferReq ''o'' ''c'' ''m'') (sv_db srv3) = Inr (WTransfer ''c'' ''o'' ''m'')"
    "decide (LeaveReq ''m'' ''m'' ''c'') (sv_db srv3) = Inr (WRemove ''c'' ''m'')"
    "decide (TransferReq ''o'' ''c'' ''w'') (sv_db srv3) = Inr (WTransfer ''c'' ''o'' ''w'')"
    by (simp_all add: srv3_def world_eval)
qed simp

subsection \<open>The uncapped additions of a reform\<close>

lemma insert_member_ok:
  "u \<notin> cm_userId ` set (rows_of c d) \<Longrightarrow> c \<in> cr_id ` set (cd_crews d) \<Longrightarrow>
   insert_member c u r d = Inr (d\<lparr>cd_members := cd_members d @
     [\<lparr>cm_crewId = c, cm_userId = u, cm_role = r, cm_joinedAt = cd_now d\<rparr>]\<rparr>)"
  by (auto simp: insert_member_def rows_of_def)

lemma reform_adds_count:
  assumes "c \<in> cr_id ` set (cd_crews d)" and "distinct us" and "set us \<inter> cm_userId ` set (rows_of c d) = {}"
  shows "getMemberCount c (snd (reform_adds c us n d)) = getMemberCount c d + min (length us) (nat n)"
  using assms
proof (induction us arbitrary: n d)
  case (Cons u us)
  show ?case
  proof (cases "n \<le> 0")
    case False
    let ?d1 = "d\<lparr>cd_members := cd_members d @ [\<lparr>cm_crewId = c, cm_userId = u, cm_role = Member, cm_joinedAt = cd_now d\<rparr>]\<rparr>"
    have ins: "insert_member c u Member d = Inr ?d1" using Cons.prems by (intro insert_member_ok) auto
    have rows: "rows_of c ?d1 = rows_of c d @ [\<lparr>cm_crewId = c, cm_userId = u, cm_role = Member, cm_joinedAt = cd_now d\<rparr>]"
      by (simp add: rows_of_def)
    have "getMemberCount c (snd (reform_adds c us (n - 1) ?d1)) = getMemberCount c ?d1 + min (length us) (nat (n - 1))"
      by (rule Cons.IH) (use Cons.prems rows in auto)
    moreover have "getMemberCount c ?d1 = Suc (getMemberCount c d)" by (simp add: getMemberCount_def rows)
    moreover have "snd (reform_adds c (u # us) n d) = snd (reform_adds c us (n - 1) ?d1)"
      using False ins by (simp add: addMember_def split: prod.splits)
    moreover have "Suc (min (length us) (nat (n - 1))) = min (length (u # us)) (nat n)" using False by auto
    ultimately show ?thesis by simp
  qed simp
qed simp

lemma members_ids_set: "set (members_ids c d) \<subseteq> cm_userId ` set (rows_of c d)"
  by (auto simp: members_ids_def getMembers_def join_users_def List.map_filter_def)

text \<open>The additions of a reform are not capped: its free slots are counted once, before the loop,
  and the inserts carry no cap, so a member who joins with the invite code in between takes the
  crew over its limit.\<close>

theorem reform_exceeds_cap:
  assumes plan: "reform_plan u src f c d = ((adds, invites), slots)" and enough: "slots \<le> int (length adds)"
    and join: "decide (JoinReq x n code) d = Inr (WAdd (cr_id c) x (cr_maxMembers c))"
    and c: "cr_id c \<in> cr_id ` set (cd_crews d)" and cap: "0 < cr_maxMembers c"
    and active: "\<forall>m \<in> set (rows_of (cr_id c) d). cd_users d (cm_userId m) \<noteq> None"
    and other: "x \<notin> set adds"
  shows "getMemberCount (cr_id c)
      (snd (reform_adds (cr_id c) adds slots (exec (WAdd (cr_id c) x (cr_maxMembers c)) d))) = cr_maxMembers c + 1"
proof -
  let ?i = "cr_id c"
  have pl: "planReformRoster (members_ids (cr_id src) d) u (profile_ids f d) (members_ids ?i d) = (adds, invites)"
    and slots: "slots = int (cr_maxMembers c) - int (length (members_ids ?i d))"
    using plan cap by (auto simp: reform_plan_def Let_def)
  have ids: "cm_userId ` set (rows_of ?i d) \<subseteq> set (members_ids ?i d)"
    using active by (force simp: members_ids_def getMembers_def join_users_def List.map_filter_def)
  have "length (members_ids ?i d) = getMemberCount ?i d"
    using active by (simp add: members_ids_def getMembers_def join_users_def List.map_filter_def getMemberCount_def
        filter_id_conv)
  moreover have "getMemberCount ?i d < cr_maxMembers c" and fresh: "x \<notin> cm_userId ` set (rows_of ?i d)"
  proof -
    from join obtain c' where chk: "join_check x code d = Inr c'" "cr_id c' = ?i" "cr_maxMembers c' = cr_maxMembers c"
      by (auto simp: map_sum_def split: sum.splits)
    then have "getMemberCount (cr_id c') d < cr_maxMembers c' \<and> getMember (cr_id c') x d = None"
      by (auto simp: join_check_def Let_def split: option.splits if_splits)
    with chk getMember_some_row [of ?i x d] show "getMemberCount ?i d < cr_maxMembers c"
      and "x \<notin> cm_userId ` set (rows_of ?i d)" by auto
  qed
  ultimately have n: "0 < slots" "nat slots + getMemberCount ?i d = cr_maxMembers c" by (auto simp: slots)
  let ?row = "\<lparr>cm_crewId = ?i, cm_userId = x, cm_role = Member, cm_joinedAt = cd_now d\<rparr>"
  have d1: "exec (WAdd ?i x (cr_maxMembers c)) d = d\<lparr>cd_members := cd_members d @ [?row]\<rparr>"
    using n insert_member_ok [OF fresh c] by (simp add: addMember_def)
  have rows: "rows_of ?i (d\<lparr>cd_members := cd_members d @ [?row]\<rparr>) = rows_of ?i d @ [?row]" by (simp add: rows_of_def)
  have "set adds \<inter> set (members_ids ?i d) = {}" "distinct adds"
    using reform_plan_facts [OF pl] by auto
  with ids other have "set adds \<inter> cm_userId ` set (rows_of ?i d @ [?row]) = {}" by auto
  then have "getMemberCount ?i (snd (reform_adds ?i adds slots (d\<lparr>cd_members := cd_members d @ [?row]\<rparr>)))
      = getMemberCount ?i (d\<lparr>cd_members := cd_members d @ [?row]\<rparr>) + min (length adds) (nat slots)"
    by (intro reform_adds_count) (use c \<open>distinct adds\<close> rows in auto)
  also have "\<dots> = cr_maxMembers c + 1"
    using n enough by (auto simp: getMemberCount_def rows)
  finally show ?thesis by (simp only: d1)
qed

definition srv4 :: crew_srv where
  "srv4 = srv0\<lparr>sv_db := (sv_db srv0)\<lparr>
     cd_crews := [crew_of_data 0 \<lparr>cw_id = ''s'', cw_festivalId = ''e'', cw_name = ''n'', cw_createdBy = ''o'',
                 cw_inviteCode = ''BBBBBB'', cw_inviteExpiresAt = None, cw_maxMembers = 2, cw_reformedFrom = None,
                 cw_totemName = None, cw_totemEmoji = None\<rparr>,
       crew_of_data 0 \<lparr>cw_id = ''c'', cw_festivalId = ''f'', cw_name = ''n'', cw_createdBy = ''o'',
                 cw_inviteCode = ''ABCDEF'', cw_inviteExpiresAt = None, cw_maxMembers = 2, cw_reformedFrom = Some ''s'',
                 cw_totemName = None, cw_totemEmoji = None\<rparr>],
     cd_members := [\<lparr>cm_crewId = ''s'', cm_userId = ''o'', cm_role = Owner, cm_joinedAt = 0\<rparr>,
       \<lparr>cm_crewId = ''s'', cm_userId = ''m'', cm_role = Member, cm_joinedAt = 0\<rparr>,
       \<lparr>cm_crewId = ''c'', cm_userId = ''o'', cm_role = Owner, cm_joinedAt = 1\<rparr>],
     cd_profiles := [\<lparr>pf_userId = ''m'', pf_festivalId = ''f'', pf_picks = []\<rparr>,
       \<lparr>pf_userId = ''x'', pf_festivalId = ''f'', pf_picks = []\<rparr>]\<rparr>\<rparr>"

lemma reform_exceeds_cap_witness:
  "getMemberCount ''c'' (snd (reform_adds ''c'' [''m''] 1 (exec (WAdd ''c'' ''x'' 2) (sv_db srv4)))) = 2 + 1"
proof -
  let ?d = "sv_db srv4" and ?src = "cd_crews (sv_db srv4) ! 0" and ?c = "cd_crews (sv_db srv4) ! 1"
  have c: "cr_id ?c = ''c''" "cr_maxMembers ?c = 2" "cr_festivalId ?c = ''f''" "cr_id ?src = ''s''"
    by (simp_all add: srv4_def crew_of_data_def)
  have mem: "members_ids ''s'' ?d = [''o'', ''m'']" "members_ids ''c'' ?d = [''o'']"
    by (simp_all add: srv4_def srv0_def members_ids_def getMembers_def join_users_def rows_of_def List.map_filter_def)
  have prof: "profile_ids ''f'' ?d = [''m'', ''x'']" by (simp add: srv4_def profile_ids_def)
  have plan: "reform_plan ''o'' ?src ''f'' ?c ?d = (([''m''], []), 1)"
    unfolding reform_plan_def c mem prof Let_def by (simp add: planReformRoster_def)
  have code: "js_trim (to_upper ''abcdef'') = ''ABCDEF''"
    by code_simp
  have join: "decide (JoinReq ''x'' ''x'' ''abcdef'') ?d = Inr (WAdd (cr_id ?c) ''x'' (cr_maxMembers ?c))"
    by (simp add: join_check_def code srv4_def srv0_def getByInviteCode_def crew_of_data_def has_profile_def getMember_def
        MAX_CREWS_PER_USER_PER_FESTIVAL_def listByUserAndFestival_def crews_of_user_def getMemberCount_def rows_of_def)
  show ?thesis
    using reform_exceeds_cap [OF plan _ join] unfolding c
    by (simp add: srv4_def srv0_def crew_of_data_def rows_of_def)
qed

end
