(* ===== verification/Idempotency.thy ===== *)
theory Idempotency
  imports Prelude
begin

text \<open>
  The idempotency middleware (\<open>createIdempotencyMiddleware\<close> in \<open>lib/middleware.ts\<close>).  A request
  with a key reserves its slot before its handler runs; a duplicate replays the recorded
  response, or waits for the reservation.  The state is the cache (a \<open>Map\<close>, in insertion order),
  the handlers running, the requests waiting on a reservation, and two logs: the payloads whose
  handler ran and the answers given.  JavaScript runs each of the functions below to completion,
  so they are the atomic steps.
\<close>

subsection \<open>State\<close>

datatype 'b slot = Reserved (sl_owner: nat) (sl_ts: int) | Recorded nat 'b (sl_ts: int)

record 'p request =
  rq_id :: nat
  rq_method :: string
  rq_key :: "string option"
  rq_user :: "string option"
  rq_ip :: string
  rq_payload :: 'p

record 'b answer =
  an_id :: nat
  an_status :: nat
  an_body :: 'b
  an_replayed :: bool

record ('p, 'b) idem =
  id_cache :: "(string \<times> 'b slot) list"
  id_running :: "(nat \<times> string) list"
  id_waiting :: "(nat \<times> 'p request) list"
  id_executed :: "'p request list"
  id_answers :: "'b answer list"

definition idem_fresh :: "('p, 'b) idem" where
  "idem_fresh = \<lparr>id_cache = [], id_running = [], id_waiting = [], id_executed = [], id_answers = []\<rparr>"

definition IDEM_TTL :: int where
  "IDEM_TTL = 5 * 60 * 1000"

definition IDEM_MAX_ENTRIES :: nat where
  "IDEM_MAX_ENTRIES = 5000"

subsection \<open>The middleware\<close>

text \<open>\<open>${req.user?.userId || req.ip}:${key}\<close>.\<close>

definition idem_key :: "'p request \<Rightarrow> string \<Rightarrow> string" where
  "idem_key r key =
     (case rq_user r of Some u \<Rightarrow> if u = [] then rq_ip r else u | None \<Rightarrow> rq_ip r) @ '':'' @ key"

definition safe_method :: "string \<Rightarrow> bool" where
  "safe_method m \<longleftrightarrow> m = ''GET'' \<or> m = ''HEAD'' \<or> m = ''OPTIONS''"

definition usable_key :: "'p request \<Rightarrow> string option" where
  "usable_key r =
     (if safe_method (rq_method r) then None
      else case rq_key r of None \<Rightarrow> None | Some k \<Rightarrow> if k = [] \<or> 128 < length k then None else Some k)"

text \<open>\<open>run\<close>: reserve, then hand over to the handler.\<close>

definition run_handler :: "int \<Rightarrow> 'p request \<Rightarrow> string \<Rightarrow> ('p, 'b) idem \<Rightarrow> ('p, 'b) idem" where
  "run_handler now r ck s =
     s\<lparr>id_cache := AList.update ck (Reserved (rq_id r) now) (id_cache s),
       id_running := id_running s @ [(rq_id r, ck)],
       id_executed := id_executed s @ [r]\<rparr>"

definition replay_to :: "'p request \<Rightarrow> nat \<Rightarrow> 'b \<Rightarrow> ('p, 'b) idem \<Rightarrow> ('p, 'b) idem" where
  "replay_to r st b s =
     s\<lparr>id_answers := id_answers s @ [\<lparr>an_id = rq_id r, an_status = st, an_body = b, an_replayed = True\<rparr>]\<rparr>"

definition idem_arrive :: "int \<Rightarrow> 'p request \<Rightarrow> ('p, 'b) idem \<Rightarrow> ('p, 'b) idem" where
  "idem_arrive now r s =
     (case usable_key r of
        None \<Rightarrow> s\<lparr>id_executed := id_executed s @ [r]\<rparr>
      | Some key \<Rightarrow>
          (case map_of (id_cache s) (idem_key r key) of
             None \<Rightarrow> run_handler now r (idem_key r key) s
           | Some (Recorded st b _) \<Rightarrow> replay_to r st b s
           | Some (Reserved owner _) \<Rightarrow> s\<lparr>id_waiting := id_waiting s @ [(owner, r)]\<rparr>))"

text \<open>\<open>res.json\<close> in the handler of \<open>owner\<close>: at capacity the oldest entry goes first; the waiting
  requests then replay the record.\<close>

definition evict_oldest :: "nat \<Rightarrow> (string \<times> 'b slot) list \<Rightarrow> (string \<times> 'b slot) list" where
  "evict_oldest maxEntries c = (if maxEntries \<le> length c then drop 1 c else c)"

definition waiters :: "nat \<Rightarrow> ('p, 'b) idem \<Rightarrow> 'p request list" where
  "waiters owner s = map snd (filter (\<lambda>(w, r). w = owner) (id_waiting s))"

definition stop_waiting :: "nat \<Rightarrow> ('p, 'b) idem \<Rightarrow> ('p, 'b) idem" where
  "stop_waiting owner s = s\<lparr>id_waiting := filter (\<lambda>(w, r). w \<noteq> owner) (id_waiting s),
     id_running := filter (\<lambda>(w, ck). w \<noteq> owner) (id_running s)\<rparr>"

definition idem_json :: "nat \<Rightarrow> int \<Rightarrow> nat \<Rightarrow> nat \<Rightarrow> 'b \<Rightarrow> ('p, 'b) idem \<Rightarrow> ('p, 'b) idem" where
  "idem_json maxEntries now owner st b s =
     (case map_of (id_running s) owner of
        None \<Rightarrow> s
      | Some ck \<Rightarrow>
          let s1 = s\<lparr>id_cache := AList.update ck (Recorded st b now) (evict_oldest maxEntries (id_cache s)),
                     id_answers := id_answers s @ [\<lparr>an_id = owner, an_status = st, an_body = b, an_replayed = False\<rparr>]\<rparr>
          in fold (\<lambda>r. replay_to r st b) (waiters owner s) (stop_waiting owner s1))"

text \<open>\<open>onEnd\<close>: the handler ended without a JSON body; the requests that waited run now.\<close>

definition idem_end :: "int \<Rightarrow> nat \<Rightarrow> ('p, 'b) idem \<Rightarrow> ('p, 'b) idem" where
  "idem_end now owner s =
     (case map_of (id_running s) owner of
        None \<Rightarrow> s
      | Some ck \<Rightarrow>
          let c = (case map_of (id_cache s) ck of
                     Some (Reserved w _) \<Rightarrow> if w = owner then AList.delete ck (id_cache s) else id_cache s
                   | _ \<Rightarrow> id_cache s)
          in fold (\<lambda>r. run_handler now r ck) (waiters owner s) (stop_waiting owner (s\<lparr>id_cache := c\<rparr>)))"

text \<open>The timer.\<close>

definition idem_sweep :: "int \<Rightarrow> int \<Rightarrow> ('p, 'b) idem \<Rightarrow> ('p, 'b) idem" where
  "idem_sweep ttl now s = s\<lparr>id_cache := filter (\<lambda>(k, e). now - sl_ts e \<le> ttl) (id_cache s)\<rparr>"

text \<open>As \<open>configureMiddleware\<close> mounts it: before the routes and so before \<open>userAuth\<close>, which is what
  sets \<open>req.user\<close>.\<close>

definition mounted_arrive :: "int \<Rightarrow> 'p request \<Rightarrow> ('p, 'b) idem \<Rightarrow> ('p, 'b) idem" where
  "mounted_arrive now r s = idem_arrive now (r\<lparr>rq_user := None\<rparr>) s"

subsection \<open>Steps\<close>

datatype ('p, 'b) idem_event =
    Arrives int "'p request"
  | Answers int nat nat 'b
  | Ends int nat
  | Sweeps int

fun idem_step :: "('p, 'b) idem_event \<Rightarrow> ('p, 'b) idem \<Rightarrow> ('p, 'b) idem" where
  "idem_step (Arrives now r) s = idem_arrive now r s"
| "idem_step (Answers now owner st b) s = idem_json IDEM_MAX_ENTRIES now owner st b s"
| "idem_step (Ends now owner) s = idem_end now owner s"
| "idem_step (Sweeps now) s = idem_sweep IDEM_TTL now s"

subsection \<open>At most one execution per key\<close>

definition keyed :: "'p request \<Rightarrow> bool" where
  "keyed r \<longleftrightarrow> usable_key r \<noteq> None"

definition ckey :: "'p request \<Rightarrow> string" where
  "ckey r = idem_key r (case usable_key r of Some k \<Rightarrow> k | None \<Rightarrow> [])"

fun arrivals :: "('p, 'b) idem_event list \<Rightarrow> 'p request list" where
  "arrivals [] = []"
| "arrivals (Arrives now r # es) = r # arrivals es"
| "arrivals (e # es) = arrivals es"

fun undisturbed :: "('p, 'b) idem_event \<Rightarrow> bool" where
  "undisturbed (Arrives now r) = keyed r"
| "undisturbed (Answers now owner st b) = True"
| "undisturbed _ = False"

text \<open>The executed keys are the cached ones, each executed once.\<close>

definition idem_inv :: "('p, 'b) idem \<Rightarrow> bool" where
  "idem_inv s \<longleftrightarrow> distinct (map ckey (id_executed s)) \<and> distinct (map fst (id_cache s))
     \<and> fst ` set (id_cache s) = ckey ` set (id_executed s)
     \<and> snd ` set (id_running s) \<subseteq> fst ` set (id_cache s)"

lemma update_keys: "k \<in> fst ` set c \<Longrightarrow> map fst (AList.update k v c) = map fst c"
  by (induction c) auto

lemma update_new: "k \<notin> fst ` set c \<Longrightarrow> AList.update k v c = c @ [(k, v)]"
  by (induction c) auto

lemma map_of_None_keys: "map_of c k = None \<longleftrightarrow> k \<notin> fst ` set c"
  by (simp add: map_of_eq_None_iff)

lemma replays_simps:
  "id_cache (fold (\<lambda>r. replay_to r st b) rs s) = id_cache s"
  "id_running (fold (\<lambda>r. replay_to r st b) rs s) = id_running s"
  "id_executed (fold (\<lambda>r. replay_to r st b) rs s) = id_executed s"
  by (induction rs arbitrary: s) (simp_all add: replay_to_def)

lemma idem_inv_arrive:
  assumes "idem_inv s" and "keyed r"
  shows "idem_inv (idem_arrive now r s)"
    and "ckey ` set (id_executed (idem_arrive now r s)) = insert (ckey r) (ckey ` set (id_executed s))"
    and "length (id_cache (idem_arrive now r s)) \<le> Suc (length (id_cache s))"
proof -
  from assms(2) obtain k where k: "usable_key r = Some k" by (auto simp: keyed_def)
  then have ck: "idem_key r k = ckey r" by (simp add: ckey_def)
  have cases: "idem_arrive now r s = run_handler now r (ckey r) s \<and> ckey r \<notin> fst ` set (id_cache s)
     \<or> id_cache (idem_arrive now r s) = id_cache s \<and> id_executed (idem_arrive now r s) = id_executed s
       \<and> id_running (idem_arrive now r s) = id_running s \<and> ckey r \<in> fst ` set (id_cache s)"
  proof (cases "map_of (id_cache s) (ckey r)")
    case None
    from None have "ckey r \<notin> fst ` set (id_cache s)" using map_of_None_keys by metis
    then show ?thesis by (simp add: idem_arrive_def k ck None)
  next
    case (Some e)
    then have "ckey r \<in> fst ` set (id_cache s)" by (metis map_of_None_keys option.distinct(1))
    with Some show ?thesis by (cases e) (simp_all add: idem_arrive_def k ck replay_to_def)
  qed
  then show "idem_inv (idem_arrive now r s)"
  proof (elim disjE conjE)
    assume run: "idem_arrive now r s = run_handler now r (ckey r) s" and new: "ckey r \<notin> fst ` set (id_cache s)"
    have "id_cache (idem_arrive now r s) = id_cache s @ [(ckey r, Reserved (rq_id r) now)]"
      "id_executed (idem_arrive now r s) = id_executed s @ [r]"
      "id_running (idem_arrive now r s) = id_running s @ [(rq_id r, ckey r)]"
      by (simp_all add: run run_handler_def update_new [OF new])
    with new assms(1) show ?thesis unfolding idem_inv_def by (simp, blast)
  next
    assume same: "id_cache (idem_arrive now r s) = id_cache s" "id_executed (idem_arrive now r s) = id_executed s"
      "id_running (idem_arrive now r s) = id_running s"
    show ?thesis using assms(1) unfolding idem_inv_def same .
  qed
  show "ckey ` set (id_executed (idem_arrive now r s)) = insert (ckey r) (ckey ` set (id_executed s))"
    using cases
  proof (elim disjE conjE)
    assume "ckey r \<in> fst ` set (id_cache s)" "id_executed (idem_arrive now r s) = id_executed s"
    with assms(1) show ?thesis unfolding idem_inv_def by auto
  qed (simp add: run_handler_def)
  show "length (id_cache (idem_arrive now r s)) \<le> Suc (length (id_cache s))"
    using cases by (auto simp: run_handler_def update_new)
qed

lemma idem_inv_json:
  assumes "idem_inv s" and "length (id_cache s) < n"
  shows "idem_inv (idem_json n now owner st b s)"
    and "id_executed (idem_json n now owner st b s) = id_executed s"
    and "length (id_cache (idem_json n now owner st b s)) = length (id_cache s)"
proof -
  have "map fst (id_cache (idem_json n now owner st b s)) = map fst (id_cache s)
      \<and> id_executed (idem_json n now owner st b s) = id_executed s
      \<and> set (id_running (idem_json n now owner st b s)) \<subseteq> set (id_running s)"
  proof (cases "map_of (id_running s) owner")
    case (Some ck)
    then have "(owner, ck) \<in> set (id_running s)" by (rule map_of_SomeD)
    then have "ck \<in> snd ` set (id_running s)" by (metis image_eqI snd_conv)
    with assms(1) have "ck \<in> fst ` set (id_cache s)" unfolding idem_inv_def by blast
    note keys = update_keys [OF this, of "Recorded st b now"]
    have evict: "evict_oldest n (id_cache s) = id_cache s" using assms(2) by (simp add: evict_oldest_def)
    show ?thesis
      by (simp only: idem_json_def Some option.case Let_def replays_simps evict) (auto simp: stop_waiting_def keys)
  qed (simp add: idem_json_def)
  note r = this
  show "id_executed (idem_json n now owner st b s) = id_executed s" using r by blast
  show "length (id_cache (idem_json n now owner st b s)) = length (id_cache s)" using r by (metis length_map)
  have "fst ` set (id_cache (idem_json n now owner st b s)) = fst ` set (id_cache s)" using r by (metis list.set_map)
  with r assms(1) show "idem_inv (idem_json n now owner st b s)" unfolding idem_inv_def by (simp, blast)
qed

lemma idem_run:
  assumes "idem_inv s" and "list_all undisturbed es" and "length (id_cache s) + length es < IDEM_MAX_ENTRIES"
  shows "idem_inv (fold idem_step es s)
    \<and> ckey ` set (id_executed (fold idem_step es s)) = ckey ` set (id_executed s) \<union> ckey ` set (arrivals es)"
  using assms
proof (induction es arbitrary: s)
  case (Cons e es)
  show ?case
  proof (cases e)
    case (Arrives now r)
    with Cons.prems have k: "keyed r" by simp
    note a = idem_inv_arrive [OF Cons.prems(1) k, of now]
    have "length (id_cache (idem_arrive now r s)) + length es < IDEM_MAX_ENTRIES" using Cons.prems(3) a(3) by simp
    from Cons.IH [OF a(1) _ this] Cons.prems a(2) Arrives show ?thesis by simp
  next
    case (Answers now owner st b)
    have "length (id_cache s) < IDEM_MAX_ENTRIES" using Cons.prems(3) by simp
    note a = idem_inv_json [OF Cons.prems(1) this, of now owner st b]
    have "length (id_cache (idem_json IDEM_MAX_ENTRIES now owner st b s)) + length es < IDEM_MAX_ENTRIES"
      using Cons.prems(3) a(3) by simp
    from Cons.IH [OF a(1) _ this] Cons.prems a(2) Answers show ?thesis by simp
  qed (use Cons.prems in simp_all)
qed simp


definition rq :: "nat \<Rightarrow> string \<Rightarrow> nat request" where
  "rq i k = \<lparr>rq_id = i, rq_method = ''POST'', rq_key = Some k, rq_user = None, rq_ip = ''ip'', rq_payload = i\<rparr>"


subsection \<open>What the key does not tell apart\<close>

lemma ckey_mounted:
  "usable_key r = Some k \<Longrightarrow> idem_key (r\<lparr>rq_user := None\<rparr>) k = rq_ip r @ '':'' @ k"
  by (simp add: idem_key_def)

lemma usable_key_user [simp]: "usable_key (r\<lparr>rq_user := u\<rparr>) = usable_key r"
  by (simp add: usable_key_def)

lemma arrive_free:
  assumes "usable_key r = Some k" and "map_of (id_cache s) (rq_ip r @ '':'' @ k) = None"
  shows "mounted_arrive now r s = run_handler now (r\<lparr>rq_user := None\<rparr>) (rq_ip r @ '':'' @ k) s"
  using assms by (simp add: mounted_arrive_def idem_arrive_def ckey_mounted)

lemma arrive_recorded:
  assumes "usable_key r = Some k" and "map_of (id_cache s) (rq_ip r @ '':'' @ k) = Some (Recorded st b ts)"
  shows "mounted_arrive now r s = replay_to (r\<lparr>rq_user := None\<rparr>) st b s"
  using assms by (simp add: mounted_arrive_def idem_arrive_def ckey_mounted)

lemma served_once:
  fixes s :: "('p, 'b) idem" and st :: nat and b :: 'b and t0 t1 :: int
  assumes "usable_key r = Some k" and free: "map_of (id_cache s) (rq_ip r @ '':'' @ k) = None"
    and new: "rq_id r \<notin> fst ` set (id_running s)" and room: "length (id_cache s) + 1 < n"
    and quiet: "waiters (rq_id r) s = []"
  defines "s1 \<equiv> idem_json n t1 (rq_id r) st b (mounted_arrive t0 r s)"
  shows "map_of (id_cache s1) (rq_ip r @ '':'' @ k) = Some (Recorded st b t1)"
    and "id_executed s1 = id_executed s @ [r\<lparr>rq_user := None\<rparr>]"
    and "id_answers s1 = id_answers s @ [\<lparr>an_id = rq_id r, an_status = st, an_body = b, an_replayed = False\<rparr>]"
proof -
  let ?ck = "rq_ip r @ '':'' @ k" and ?r = "r\<lparr>rq_user := None\<rparr>"
  let ?s0 = "run_handler t0 ?r ?ck s"
  have s0: "mounted_arrive t0 r s = ?s0" by (rule arrive_free [OF assms(1) free])
  have run: "map_of (id_running ?s0) (rq_id r) = Some ?ck"
  proof -
    from new have "map_of (id_running s) (rq_id r) = None" by (simp add: map_of_eq_None_iff)
    then show ?thesis by (simp only: run_handler_def idem.simps request.simps map_of_append) (simp add: map_add_def)
  qed
  have len: "evict_oldest n (id_cache ?s0) = id_cache ?s0"
  proof -
    have "length (AList.update ?ck v c) \<le> Suc (length c)" for v and c :: "(string \<times> 'b slot) list"
      by (induction c) auto
    from this [of "Reserved (rq_id r) t0" "id_cache s"] room show ?thesis by (simp add: evict_oldest_def run_handler_def)
  qed
  have wait: "waiters (rq_id r) ?s0 = []" using quiet by (simp add: waiters_def run_handler_def)
  have s1: "s1 = stop_waiting (rq_id r) (?s0\<lparr>id_cache := AList.update ?ck (Recorded st b t1) (id_cache ?s0),
      id_answers := id_answers ?s0 @ [\<lparr>an_id = rq_id r, an_status = st, an_body = b, an_replayed = False\<rparr>]\<rparr>)"
    unfolding s1_def s0 idem_json_def run option.case Let_def len wait by simp
  show "map_of (id_cache s1) ?ck = Some (Recorded st b t1)"
    by (simp add: s1 stop_waiting_def update_conv')
  show "id_executed s1 = id_executed s @ [?r]" by (simp add: s1 stop_waiting_def run_handler_def)
  show "id_answers s1 = id_answers s @ [\<lparr>an_id = rq_id r, an_status = st, an_body = b, an_replayed = False\<rparr>]"
    by (simp add: s1 stop_waiting_def run_handler_def)
qed

text \<open>As mounted, the middleware replays by IP address and key alone: once a request has been
  answered (with any status, an error included), a later request from the same address with the
  same key is given that answer and its handler does not run, whoever sent it and whatever its
  path, method and body.\<close>

theorem replay_ignores_user_and_content:
  fixes s :: "('p, 'b) idem"
  assumes "usable_key r = Some k" and "usable_key q = Some k" and "rq_ip q = rq_ip r"
    and "map_of (id_cache s) (rq_ip r @ '':'' @ k) = None" and "rq_id r \<notin> fst ` set (id_running s)"
    and "length (id_cache s) + 1 < IDEM_MAX_ENTRIES" and "waiters (rq_id r) s = []"
  shows "id_executed (mounted_arrive t2 q (idem_json IDEM_MAX_ENTRIES t1 (rq_id r) st b (mounted_arrive t0 r s)))
      = id_executed s @ [r\<lparr>rq_user := None\<rparr>]
    \<and> last (id_answers (mounted_arrive t2 q (idem_json IDEM_MAX_ENTRIES t1 (rq_id r) st b (mounted_arrive t0 r s))))
      = \<lparr>an_id = rq_id q, an_status = st, an_body = b, an_replayed = True\<rparr>"
proof -
  note once = served_once [OF assms(1) assms(4-7), of t1 st b t0]
  have "mounted_arrive t2 q (idem_json IDEM_MAX_ENTRIES t1 (rq_id r) st b (mounted_arrive t0 r s))
      = replay_to (q\<lparr>rq_user := None\<rparr>) st b (idem_json IDEM_MAX_ENTRIES t1 (rq_id r) st b (mounted_arrive t0 r s))"
    by (rule arrive_recorded [OF assms(2)]) (simp only: assms(3) once(1))
  then show ?thesis using once(2) by (simp add: replay_to_def)
qed

lemma replay_ignores_user_and_content_witness:
  "id_executed (mounted_arrive 9 ((rq 2 ''k'')\<lparr>rq_user := Some ''bob''\<rparr>)
      (idem_json IDEM_MAX_ENTRIES 5 1 500 True (mounted_arrive 1 (rq 1 ''k'') idem_fresh)))
      = id_executed idem_fresh @ [rq 1 ''k'']
    \<and> last (id_answers (mounted_arrive 9 ((rq 2 ''k'')\<lparr>rq_user := Some ''bob''\<rparr>)
      (idem_json IDEM_MAX_ENTRIES 5 1 500 True (mounted_arrive 1 (rq 1 ''k'') idem_fresh))))
      = \<lparr>an_id = 2, an_status = 500, an_body = True, an_replayed = True\<rparr>"
  using replay_ignores_user_and_content [of "rq 1 ''k''" "''k''" "(rq 2 ''k'')\<lparr>rq_user := Some ''bob''\<rparr>" idem_fresh 9 5 500 True 1]
  by (simp add: rq_def usable_key_def safe_method_def idem_fresh_def IDEM_MAX_ENTRIES_def waiters_def)

end
