(* ===== verification/Live_Location.thy ===== *)
theory Live_Location
  imports Domain
begin

text \<open>
  The late-joiner snapshot of live positions (\<open>lib/live-location-cache.ts\<close>): what is written to
  the Redis hash of a crew and what a snapshot makes of the entries read back.  Redis is outside:
  a write is the commands issued, a read takes the answer of \<open>HGETALL\<close>, \<open>None\<close> when it fails.
  \<open>JSON.parse\<close> is part of an entry (\<open>Text None\<close> is malformed text) and \<open>Date.parse\<close>, which is
  free to read other than ISO texts as it likes, is an argument.
\<close>

definition POSITION_TTL_MS :: int where
  "POSITION_TTL_MS = 120000"

definition SNAPSHOT_FRESH_MS :: int where
  "SNAPSHOT_FRESH_MS = POSITION_TTL_MS"

definition positionsKey :: "string \<Rightarrow> string" where
  "positionsKey crewId = ''loc:pos:'' @ crewId"

datatype redis_cmd = HSet string string json | PExpire string int | HDel string string

text \<open>\<open>JSON.stringify\<close> of a payload: undefined fields are left out.\<close>

definition opt_field :: "string \<Rightarrow> ('a \<Rightarrow> json) \<Rightarrow> 'a option \<Rightarrow> (string \<times> json) list" where
  "opt_field k enc v = (case v of Some x \<Rightarrow> [(k, enc x)] | None \<Rightarrow> [])"

definition payload_json :: "peer_location \<Rightarrow> json" where
  "payload_json p = JObj
     ([(''_v'', JNum 1), (''crewId'', JStr (pl_crewId p)), (''userId'', JStr (pl_userId p)),
       (''username'', JStr (pl_username p)), (''lat'', JNum (pl_lat p)), (''lng'', JNum (pl_lng p))] @
      opt_field ''accuracy'' JNum (pl_accuracy p) @ opt_field ''heading'' JNum (pl_heading p) @
      opt_field ''speed'' JNum (pl_speed p) @ opt_field ''battery'' JNum (pl_battery p) @
      opt_field ''lowPower'' JBool (pl_lowPower p) @ opt_field ''expiresAt'' JStr (pl_expiresAt p) @
      [(''capturedAt'', JStr (pl_capturedAt p)), (''serverAt'', JStr (pl_serverAt p))])"

definition writeLivePosition :: "bool \<Rightarrow> string \<Rightarrow> peer_location \<Rightarrow> redis_cmd list" where
  "writeLivePosition redis crewId p =
     (if \<not> redis \<or> crewId = [] \<or> pl_userId p = [] then []
      else [HSet (positionsKey crewId) (pl_userId p) (payload_json p), PExpire (positionsKey crewId) POSITION_TTL_MS])"

definition dropLivePosition :: "bool \<Rightarrow> string \<Rightarrow> string \<Rightarrow> redis_cmd list" where
  "dropLivePosition redis crewId userId =
     (if \<not> redis \<or> crewId = [] \<or> userId = [] then [] else [HDel (positionsKey crewId) userId])"

subsection \<open>The snapshot\<close>

datatype entry_value = Text "json option" | Plain json | NoValue

record snapshot_entry =
  en_userId :: string
  en_value :: entry_value

definition entry_object :: "entry_value \<Rightarrow> json option" where
  "entry_object v =
     (case (case v of Text j \<Rightarrow> j | Plain j \<Rightarrow> Some j | NoValue \<Rightarrow> None) of
        Some (JObj fs) \<Rightarrow> Some (JObj fs) | Some (JArr xs) \<Rightarrow> Some (JArr xs) | _ \<Rightarrow> None)"

definition text_field :: "json \<Rightarrow> string \<Rightarrow> string option" where
  "text_field j k = (case json_field j k of Some (JStr s) \<Rightarrow> Some s | _ \<Rightarrow> None)"

definition number_field :: "json \<Rightarrow> string \<Rightarrow> rat option" where
  "number_field j k = (case json_field j k of Some (JNum x) \<Rightarrow> Some x | _ \<Rightarrow> None)"

definition bool_field :: "json \<Rightarrow> string \<Rightarrow> bool option" where
  "bool_field j k = (case json_field j k of Some (JBool b) \<Rightarrow> Some b | _ \<Rightarrow> None)"

definition text_or_empty :: "json \<Rightarrow> string \<Rightarrow> string" where
  "text_or_empty j k = (case text_field j k of Some s \<Rightarrow> s | None \<Rightarrow> [])"

definition entry_user :: "snapshot_entry \<Rightarrow> json \<Rightarrow> string" where
  "entry_user e j = (case text_field j ''userId'' of Some u \<Rightarrow> if u = [] then en_userId e else u | None \<Rightarrow> en_userId e)"

text \<open>The body of the loop: the peer an entry contributes, if any.\<close>

definition snapshot_peer ::
  "(string \<Rightarrow> int option) \<Rightarrow> int \<Rightarrow> string option \<Rightarrow> int \<Rightarrow> snapshot_entry \<Rightarrow> peer_location option" where
  "snapshot_peer dateParse now selfUserId freshMs e =
     (case entry_object (en_value e) of
        None \<Rightarrow> None
      | Some j \<Rightarrow>
          let userId = entry_user e j; crewId = text_or_empty j ''crewId''; serverAt = text_or_empty j ''serverAt''
          in if userId = [] then None
             else if selfUserId \<noteq> None \<and> selfUserId \<noteq> Some [] \<and> selfUserId = Some userId then None
             else if crewId = [] \<or> serverAt = [] then None
             else (case (number_field j ''lat'', number_field j ''lng'', dateParse serverAt) of
                 (Some lat, Some lng, Some serverMs) \<Rightarrow>
                   if freshMs < now - serverMs then None
                   else Some \<lparr>pl_crewId = crewId, pl_userId = userId, pl_username = text_or_empty j ''username'',
                          pl_lat = lat, pl_lng = lng, pl_accuracy = number_field j ''accuracy'',
                          pl_heading = number_field j ''heading'', pl_speed = number_field j ''speed'',
                          pl_battery = number_field j ''battery'', pl_lowPower = bool_field j ''lowPower'',
                          pl_expiresAt = text_field j ''expiresAt'',
                          pl_capturedAt = (case text_field j ''capturedAt'' of Some t \<Rightarrow> t | None \<Rightarrow> serverAt),
                          pl_serverAt = serverAt\<rparr>
               | _ \<Rightarrow> None))"

definition assembleSnapshot ::
  "(string \<Rightarrow> int option) \<Rightarrow> snapshot_entry list \<Rightarrow> int \<Rightarrow> string option \<Rightarrow> int \<Rightarrow> peer_location list" where
  "assembleSnapshot dateParse entries now selfUserId freshMs =
     List.map_filter (snapshot_peer dateParse now selfUserId freshMs) entries"

definition readLiveSnapshot ::
  "(string \<Rightarrow> int option) \<Rightarrow> bool \<Rightarrow> string \<Rightarrow> (string \<times> json option) list option \<Rightarrow> int \<Rightarrow> string option \<Rightarrow> int
     \<Rightarrow> peer_location list" where
  "readLiveSnapshot dateParse redis crewId hgetall now selfUserId freshMs =
     (if \<not> redis \<or> crewId = [] then []
      else case hgetall of
             None \<Rightarrow> []
           | Some raw \<Rightarrow> assembleSnapshot dateParse
               (map (\<lambda>(u, v). \<lparr>en_userId = u, en_value = Text v\<rparr>) raw) now selfUserId freshMs)"

subsection \<open>Properties\<close>

lemma json_field_obj [simp]: "json_field (JObj fs) k = map_of fs k"
  by (simp add: json_field_def)

lemma opt_field_lookup [simp]:
  "map_of (opt_field k enc v) k' = (if k' = k then map_option enc v else None)"
  by (auto simp: opt_field_def split: option.splits)

lemma payload_fields:
  "text_field (payload_json p) ''userId'' = Some (pl_userId p)"
  "text_field (payload_json p) ''crewId'' = Some (pl_crewId p)"
  "text_field (payload_json p) ''username'' = Some (pl_username p)"
  "text_field (payload_json p) ''serverAt'' = Some (pl_serverAt p)"
  "text_field (payload_json p) ''capturedAt'' = Some (pl_capturedAt p)"
  "text_field (payload_json p) ''expiresAt'' = pl_expiresAt p"
  "number_field (payload_json p) ''lat'' = Some (pl_lat p)"
  "number_field (payload_json p) ''lng'' = Some (pl_lng p)"
  "number_field (payload_json p) ''accuracy'' = pl_accuracy p"
  "number_field (payload_json p) ''heading'' = pl_heading p"
  "number_field (payload_json p) ''speed'' = pl_speed p"
  "number_field (payload_json p) ''battery'' = pl_battery p"
  "bool_field (payload_json p) ''lowPower'' = pl_lowPower p"
  by (auto simp: text_field_def number_field_def bool_field_def payload_json_def map_add_def split: option.splits)

text \<open>Entries of the hash as \<open>writeLivePosition\<close> left them.\<close>

definition cached :: "peer_location \<Rightarrow> string \<times> json option" where
  "cached p = (pl_userId p, Some (payload_json p))"

lemma snapshot_peer_cached:
  assumes "pl_userId p \<noteq> []" and "pl_crewId p \<noteq> []" and "pl_serverAt p \<noteq> []"
    and "dateParse (pl_serverAt p) = Some ms" and "self \<noteq> []"
  shows "snapshot_peer dateParse now (Some self) fresh \<lparr>en_userId = u, en_value = Text (Some (payload_json p))\<rparr>
    = (if pl_userId p = self \<or> fresh < now - ms then None else Some p)"
proof -
  have obj: "entry_object (Text (Some (payload_json p))) = Some (payload_json p)"
    by (simp add: entry_object_def payload_json_def)
  show ?thesis
    using assms by (auto simp: snapshot_peer_def obj entry_user_def text_or_empty_def payload_fields Let_def)
qed

text \<open>The snapshot of the positions the crew's sharers wrote is exactly those of the others that
  are at most two minutes old, each as it was written and in order: nothing stale is served as
  live, the viewer's own position never is, and no field is lost, however dates are parsed.\<close>

theorem snapshot_roundtrip:
  assumes "\<forall>p \<in> set ps. pl_userId p \<noteq> [] \<and> pl_crewId p \<noteq> [] \<and> pl_serverAt p \<noteq> [] \<and> dateParse (pl_serverAt p) \<noteq> None"
    and "self \<noteq> []" and "crewId \<noteq> []"
  shows "readLiveSnapshot dateParse True crewId (Some (map cached ps)) now (Some self) SNAPSHOT_FRESH_MS
    = filter (\<lambda>p. pl_userId p \<noteq> self \<and> now - the (dateParse (pl_serverAt p)) \<le> 120000) ps"
proof -
  have "List.map_filter (snapshot_peer dateParse now (Some self) SNAPSHOT_FRESH_MS)
        (map (\<lambda>p. \<lparr>en_userId = pl_userId p, en_value = Text (Some (payload_json p))\<rparr>) ps)
      = filter (\<lambda>p. pl_userId p \<noteq> self \<and> now - the (dateParse (pl_serverAt p)) \<le> 120000) ps"
    using assms(1)
  proof (induction ps)
    case (Cons p ps)
    then obtain ms where ms: "dateParse (pl_serverAt p) = Some ms" by auto
    with Cons snapshot_peer_cached [of p dateParse ms self now SNAPSHOT_FRESH_MS "pl_userId p"] assms(2)
    show ?case by (auto simp: List.map_filter_simps SNAPSHOT_FRESH_MS_def POSITION_TTL_MS_def)
  qed (simp add: List.map_filter_simps)
  moreover have "map (\<lambda>(u, v). \<lparr>en_userId = u, en_value = Text v\<rparr>) (map cached ps)
      = map (\<lambda>p. \<lparr>en_userId = pl_userId p, en_value = Text (Some (payload_json p))\<rparr>) ps"
    by (simp add: cached_def)
  ultimately show ?thesis using assms(3) by (simp only: readLiveSnapshot_def assembleSnapshot_def option.case) simp
qed

definition peer :: "string \<Rightarrow> string \<Rightarrow> peer_location" where
  "peer u stamp = \<lparr>pl_crewId = ''c'', pl_userId = u, pl_username = u, pl_lat = 51, pl_lng = 1 / 2, pl_accuracy = Some 5,
     pl_heading = None, pl_speed = None, pl_battery = Some (1 / 2), pl_lowPower = Some False, pl_expiresAt = None,
     pl_capturedAt = stamp, pl_serverAt = stamp\<rparr>"

lemma snapshot_roundtrip_witness:
  "readLiveSnapshot (\<lambda>s. Some (if s = ''old'' then 0 else 150000)) True ''c''
     (Some (map cached [peer ''a'' ''new'', peer ''me'' ''new'', peer ''b'' ''old''])) 160000 (Some ''me'') SNAPSHOT_FRESH_MS
   = [peer ''a'' ''new'']"
  by (subst snapshot_roundtrip) (simp_all add: peer_def)

end
