(* ===== verification/Pick_Conflicts.thy ===== *)
theory Pick_Conflicts
  imports Domain "HOL-Library.Monad_Syntax"
begin

text \<open>
  Set-time clashes among a user's own picks (\<open>packages/shared/src/utils/pickConflicts.ts\<close>, with
  the crew phrase of \<open>crewNudges.ts\<close>): the picks of a day are clustered by overlap with a
  union-find with path compression, whose two loops are \<open>partial_function\<close>s, so that the
  theorem that they return is a statement of its own.  \<open>getSetTimeBounds\<close> rests on the
  platform's time zone data and is the argument \<open>bounds\<close>.
\<close>

subsection \<open>Types\<close>

record conflict_pick =
  cp_set :: festival_set
  cp_priority :: priority
  cp_startMs :: int
  cp_endMs :: int
  cp_durationMin :: int
  cp_crewCount :: "nat option"
  cp_crewBreakdown :: "string option"

record conflict_group =
  cg_picks :: "conflict_pick list"
  cg_recommendedKeepId :: string
  cg_overlapMin :: int

record conflicts_input =
  ci_sets :: "festival_set list"
  ci_myPicks :: "string \<Rightarrow> priority option"
  ci_selectedDay :: int
  ci_days :: "festival_day list option"
  ci_allProfiles :: "(string \<times> (string \<Rightarrow> priority option)) list option"
  ci_crewMemberUserIds :: "string set option"
  ci_myUserId :: "string option"

subsection \<open>The crew phrase\<close>

definition priority_noun :: "priority \<Rightarrow> string" where
  "priority_noun p = (case p of Must \<Rightarrow> ''must'' | WantToSee \<Rightarrow> ''want'' | Maybe \<Rightarrow> ''maybe'')"

definition join_comma :: "string list \<Rightarrow> string" where
  "join_comma ws = (case ws of [] \<Rightarrow> [] | w # rest \<Rightarrow> w @ concat (map (\<lambda>v. '', '' @ v) rest))"

definition buildOverlapBreakdown :: "priority list \<Rightarrow> string" where
  "buildOverlapBreakdown friends =
     join_comma (map (\<lambda>p. show_nat (count_list friends p) @ '' '' @ priority_noun p)
       (filter (\<lambda>p. 0 < count_list friends p) [Must, WantToSee, Maybe]))"

text \<open>The crew members other than me who picked the set, each at their highest priority.\<close>

definition crew_backers ::
  "(string \<times> (string \<Rightarrow> priority option)) list \<Rightarrow> string set \<Rightarrow> string \<Rightarrow> string \<Rightarrow> (string \<times> priority) list" where
  "crew_backers profiles members me setId =
     fold (\<lambda>(u, picks) byUser.
        if u = me \<or> u \<notin> members then byUser
        else (case picks setId of
            None \<Rightarrow> byUser
          | Some p \<Rightarrow> (case map_of byUser u of
                None \<Rightarrow> AList.update u p byUser
              | Some q \<Rightarrow> if priority_rank p < priority_rank q then AList.update u p byUser else byUser)))
       profiles []"

subsection \<open>My picks of the day\<close>

definition resolve_pick :: "(festival_set \<Rightarrow> (int \<times> int) option) \<Rightarrow> conflicts_input \<Rightarrow> festival_set \<Rightarrow> conflict_pick option" where
  "resolve_pick bounds inp fset =
     (case ci_myPicks inp (fs_id fset) of
        None \<Rightarrow> None
      | Some prio \<Rightarrow>
          if (case fs_dayIndex fset of Some d \<Rightarrow> d | None \<Rightarrow> 0) \<noteq> ci_selectedDay inp then None
          else (case bounds fset of
              None \<Rightarrow> None
            | Some (startMs, endMs) \<Rightarrow>
                let crew = (case (ci_allProfiles inp, ci_crewMemberUserIds inp, ci_myUserId inp) of
                              (Some ps, Some ms, Some me) \<Rightarrow> Some (crew_backers ps ms me (fs_id fset)) | _ \<Rightarrow> None)
                in Some \<lparr>cp_set = fset, cp_priority = prio, cp_startMs = startMs, cp_endMs = endMs,
                     cp_durationMin = js_round (of_int (endMs - startMs) / 60000),
                     cp_crewCount = map_option length crew,
                     cp_crewBreakdown = map_option (\<lambda>c. buildOverlapBreakdown (map snd c)) crew\<rparr>))"

definition eligible_picks :: "(festival_set \<Rightarrow> (int \<times> int) option) \<Rightarrow> conflicts_input \<Rightarrow> conflict_pick list" where
  "eligible_picks bounds inp = List.map_filter (resolve_pick bounds inp) (ci_sets inp)"

definition overlaps :: "conflict_pick \<Rightarrow> conflict_pick \<Rightarrow> bool" where
  "overlaps a b \<longleftrightarrow> cp_startMs a < cp_endMs b \<and> cp_startMs b < cp_endMs a"

subsection \<open>Union-find\<close>

partial_function (option) find_root :: "nat list \<Rightarrow> nat \<Rightarrow> nat option" where
  "find_root parent x = (if parent ! x = x then Some x else find_root parent (parent ! x))"

partial_function (option) compress :: "nat list \<Rightarrow> nat \<Rightarrow> nat \<Rightarrow> nat list option" where
  "compress parent x rt =
     (if parent ! x = rt then Some parent else compress (parent[x := rt]) (parent ! x) rt)"

declare find_root.simps [code] compress.simps [code]

definition uf_find :: "nat list \<Rightarrow> nat \<Rightarrow> (nat \<times> nat list) option" where
  "uf_find parent x =
     do { rt \<leftarrow> find_root parent x; parent' \<leftarrow> compress parent x rt; Some (rt, parent') }"

definition uf_union :: "nat \<Rightarrow> nat \<Rightarrow> nat list \<Rightarrow> nat list option" where
  "uf_union a b parent =
     do { (ra, p1) \<leftarrow> uf_find parent a; (rb, p2) \<leftarrow> uf_find p1 b; Some (if ra \<noteq> rb then p2[ra := rb] else p2) }"

definition index_pairs :: "nat \<Rightarrow> (nat \<times> nat) list" where
  "index_pairs n = concat (map (\<lambda>i. map (Pair i) [Suc i..<n]) [0..<n])"

fun link_all :: "conflict_pick list \<Rightarrow> (nat \<times> nat) list \<Rightarrow> nat list \<Rightarrow> nat list option" where
  "link_all picks [] parent = Some parent"
| "link_all picks ((i, j) # ps) parent =
     (if overlaps (picks ! i) (picks ! j)
      then do { p1 \<leftarrow> uf_union i j parent; link_all picks ps p1 } else link_all picks ps parent)"

text \<open>\<open>clusters\<close>: a \<open>Map\<close> from roots to buckets, in order of first appearance.\<close>

fun bucket_all ::
  "conflict_pick list \<Rightarrow> nat list \<Rightarrow> nat list \<Rightarrow> (nat \<times> conflict_pick list) list
     \<Rightarrow> (nat \<times> conflict_pick list) list option" where
  "bucket_all picks [] parent clusters = Some clusters"
| "bucket_all picks (i # is) parent clusters =
     do { (rt, p1) \<leftarrow> uf_find parent i;
          bucket_all picks is p1
            (AList.update rt ((case map_of clusters rt of Some b \<Rightarrow> b | None \<Rightarrow> []) @ [picks ! i]) clusters) }"

subsection \<open>Groups\<close>

definition by_start :: "conflict_pick \<Rightarrow> conflict_pick \<Rightarrow> int" where
  "by_start a b =
     (if cp_startMs a \<noteq> cp_startMs b then cp_startMs a - cp_startMs b
      else if str_less (fs_id (cp_set a)) (fs_id (cp_set b)) then - 1
      else if str_less (fs_id (cp_set b)) (fs_id (cp_set a)) then 1 else 0)"

definition better_keep :: "conflict_pick \<Rightarrow> conflict_pick \<Rightarrow> conflict_pick" where
  "better_keep cur best =
     (let r = priority_rank (cp_priority cur) - priority_rank (cp_priority best)
      in if r \<noteq> 0 then (if r < 0 then cur else best)
         else if cp_durationMin cur \<noteq> cp_durationMin best
         then (if cp_durationMin best < cp_durationMin cur then cur else best)
         else if cp_startMs cur \<noteq> cp_startMs best
         then (if cp_startMs cur < cp_startMs best then cur else best)
         else if str_less (fs_id (cp_set cur)) (fs_id (cp_set best)) then cur else best)"

definition recommended :: "conflict_pick list \<Rightarrow> conflict_pick" where
  "recommended bucket = fold better_keep (tl bucket) (hd bucket)"

definition max_overlap :: "conflict_pick list \<Rightarrow> int" where
  "max_overlap bucket =
     fold (\<lambda>(i, j) m. max m (min (cp_endMs (bucket ! i)) (cp_endMs (bucket ! j))
                          - max (cp_startMs (bucket ! i)) (cp_startMs (bucket ! j))))
       (index_pairs (length bucket)) 0"

definition make_group :: "conflict_pick list \<Rightarrow> conflict_group" where
  "make_group bucket =
     (let b = js_sort by_start bucket
      in \<lparr>cg_picks = b, cg_recommendedKeepId = fs_id (cp_set (recommended b)),
          cg_overlapMin = js_round (of_int (max_overlap b) / 60000)\<rparr>)"

definition buildPickConflicts ::
  "(festival_set \<Rightarrow> (int \<times> int) option) \<Rightarrow> conflicts_input \<Rightarrow> conflict_group list option" where
  "buildPickConflicts bounds inp =
     (if ci_days inp = None then Some []
      else let picks = eligible_picks bounds inp
           in if length picks < 2 then Some []
              else do { parent \<leftarrow> link_all picks (index_pairs (length picks)) [0..<length picks];
                        clusters \<leftarrow> bucket_all picks [0..<length picks] parent [];
                        Some (js_sort (by_key (\<lambda>g. cp_startMs (hd (cg_picks g))))
                          (map make_group (filter (\<lambda>b. 2 \<le> length b) (map snd clusters)))) })"

subsection \<open>The union-find loops return\<close>

text \<open>A forest: parents stay in range and decrease a rank, except at the roots.\<close>

definition forest :: "nat \<Rightarrow> (nat \<Rightarrow> nat) \<Rightarrow> nat list \<Rightarrow> bool" where
  "forest n f p \<longleftrightarrow> length p = n \<and> (\<forall>i < n. p ! i < n \<and> (p ! i \<noteq> i \<longrightarrow> f (p ! i) < f i))"

definition rep :: "nat list \<Rightarrow> nat \<Rightarrow> nat" where
  "rep p x = (case find_root p x of Some r \<Rightarrow> r | None \<Rightarrow> x)"

lemma forest_parent: "forest n f p \<Longrightarrow> i < n \<Longrightarrow> p ! i < n"
  by (simp add: forest_def)

lemma forest_rank: "forest n f p \<Longrightarrow> i < n \<Longrightarrow> p ! i \<noteq> i \<Longrightarrow> f (p ! i) < f i"
  by (simp add: forest_def)

lemma find_root_returns:
  assumes "forest n f p" and "x < n"
  shows "\<exists>r < n. find_root p x = Some r \<and> p ! r = r \<and> f r \<le> f x \<and> (r \<noteq> x \<longrightarrow> f r < f x)"
  using assms(2)
proof (induction "f x" arbitrary: x rule: less_induct)
  case less
  show ?case
  proof (cases "p ! x = x")
    case True
    then show ?thesis using less.prems by (intro exI [of _ x]) (simp add: find_root.simps [of p x])
  next
    case False
    note smaller = forest_rank [OF assms(1) less.prems False]
    obtain r where "r < n" "find_root p (p ! x) = Some r" "p ! r = r" "f r \<le> f (p ! x)"
      using less.hyps [OF smaller forest_parent [OF assms(1) less.prems]] by blast
    with False smaller show ?thesis by (intro exI [of _ r]) (simp add: find_root.simps [of p x])
  qed
qed

lemma find_root_rep: "forest n f p \<Longrightarrow> x < n \<Longrightarrow> find_root p x = Some (rep p x)"
  using find_root_returns [of n f p x] by (auto simp: rep_def)

lemma rep_props:
  assumes "forest n f p" and "x < n"
  shows "rep p x < n" and "p ! rep p x = rep p x" and "f (rep p x) \<le> f x" and "rep p x \<noteq> x \<Longrightarrow> f (rep p x) < f x"
  using find_root_returns [OF assms] by (auto simp: rep_def)

lemma rep_root: "p ! x = x \<Longrightarrow> rep p x = x"
  by (simp add: rep_def find_root.simps [of p x])

lemma rep_step:
  assumes "forest n f p" and "x < n"
  shows "rep p (p ! x) = rep p x"
proof (cases "p ! x = x")
  case False
  then have "find_root p x = find_root p (p ! x)" by (simp add: find_root.simps [of p x])
  then show ?thesis using find_root_rep assms forest_parent by (metis option.inject)
qed simp

text \<open>Redirecting an inner node to its root changes no root.\<close>

lemma redirect:
  assumes "forest n f p" and "x < n" and "x \<noteq> rep p x"
  shows "forest n f (p[x := rep p x])" and "y < n \<Longrightarrow> rep (p[x := rep p x]) y = rep p y"
proof -
  let ?p = "p[x := rep p x]"
  have len: "length p = n" using assms(1) by (simp add: forest_def)
  show f: "forest n f ?p"
    using assms rep_props [OF assms(1,2)] by (auto simp: forest_def nth_list_update)
  have root: "?p ! rep p x = rep p x" using assms(3) rep_props(2) [OF assms(1,2)] by simp
  show "rep ?p y = rep p y" if "y < n"
    using that
  proof (induction "f y" arbitrary: y rule: less_induct)
    case less
    show ?case
    proof (cases "y = x")
      case True
      have "rep ?p x = rep ?p (?p ! x)" by (rule rep_step [OF f assms(2), symmetric])
      also have "\<dots> = rep ?p (rep p x)" using assms(2) len by simp
      also have "\<dots> = rep p x" by (rule rep_root [OF root])
      finally show ?thesis using True by simp
    next
      case False
      then have same: "?p ! y = p ! y" by simp
      show ?thesis
      proof (cases "p ! y = y")
        case True
        with same show ?thesis by (simp add: rep_root)
      next
        case inner: False
        have "rep ?p (p ! y) = rep p (p ! y)"
          by (rule less.hyps [OF forest_rank [OF assms(1) less.prems inner] forest_parent [OF assms(1) less.prems]])
        then show ?thesis using rep_step [OF f less.prems] rep_step [OF assms(1) less.prems] same by simp
      qed
    qed
  qed
qed

lemma compress_returns:
  assumes "forest n f p" and "x < n"
  shows "\<exists>p'. compress p x (rep p x) = Some p' \<and> forest n f p' \<and> (\<forall>y < n. rep p' y = rep p y)"
  using assms
proof (induction "f x" arbitrary: x p rule: less_induct)
  case less
  note fr = less.prems(1) and x = less.prems(2)
  show ?case
  proof (cases "p ! x = rep p x")
    case True
    then show ?thesis using fr by (simp add: compress.simps [of p x])
  next
    case False
    have inner: "p ! x \<noteq> x" using False rep_root by metis
    have neq: "x \<noteq> rep p x" using inner rep_props(2) [OF fr x] by metis
    let ?p = "p[x := rep p x]"
    note red = redirect [OF fr x neq]
    have px: "p ! x < n" by (rule forest_parent [OF fr x])
    have "rep ?p (p ! x) = rep p x" using red(2) [OF px] rep_step [OF fr x] by simp
    then obtain p' where "compress ?p (p ! x) (rep p x) = Some p'" "forest n f p'" "\<forall>y < n. rep p' y = rep ?p y"
      using less.hyps [OF forest_rank [OF fr x inner] red(1) px] by metis
    with False red(2) show ?thesis by (simp add: compress.simps [of p x])
  qed
qed

lemma uf_find_returns:
  assumes "forest n f p" and "x < n"
  shows "\<exists>p'. uf_find p x = Some (rep p x, p') \<and> forest n f p' \<and> (\<forall>y < n. rep p' y = rep p y)"
proof -
  obtain p' where "compress p x (rep p x) = Some p'" "forest n f p'" "\<forall>y < n. rep p' y = rep p y"
    using compress_returns [OF assms] by blast
  then show ?thesis by (simp add: uf_find_def find_root_rep [OF assms])
qed

subsection \<open>Uniting is closing under overlap\<close>

lemma hang:
  assumes fr: "forest n f p" and a: "a < n" "p ! a = a" and b: "b < n" "p ! b = b" and neq: "a \<noteq> b"
  shows "\<exists>g. forest n g (p[a := b])" and "y < n \<Longrightarrow> rep (p[a := b]) y = (if rep p y = a then b else rep p y)"
proof -
  let ?p = "p[a := b]" and ?g = "\<lambda>i. if rep p i = a then f i + f b + 1 else f i"
  have len: "length p = n" using fr by (simp add: forest_def)
  have ra: "rep p a = a" and rb: "rep p b = b" using a b by (simp_all add: rep_root)
  have g: "forest n ?g ?p"
    unfolding forest_def
  proof (intro conjI allI impI)
    fix i
    assume i: "i < n"
    show "?p ! i < n" using i b(1) forest_parent [OF fr i] len by (cases "i = a") auto
    assume inner: "?p ! i \<noteq> i"
    show "?g (?p ! i) < ?g i"
    proof (cases "i = a")
      case True
      then show ?thesis using len a(1) ra rb neq by simp
    next
      case False
      then have "p ! i \<noteq> i" "?p ! i = p ! i" using inner by auto
      then show ?thesis using forest_rank [OF fr i] rep_step [OF fr i] by simp
    qed
  qed (simp add: len)
  then show "\<exists>g. forest n g ?p" by blast
  have root_b: "?p ! b = b" using neq b(2) by simp
  show "rep ?p y = (if rep p y = a then b else rep p y)" if "y < n"
    using that
  proof (induction "?g y" arbitrary: y rule: less_induct)
    case less
    show ?case
    proof (cases "?p ! y = y")
      case True
      then have "y \<noteq> a" using len a(1) neq by auto
      with True have "p ! y = y" by simp
      with True \<open>y \<noteq> a\<close> show ?thesis by (simp add: rep_root)
    next
      case inner: False
      have step: "rep ?p y = rep ?p (?p ! y)" by (rule rep_step [OF g less.prems, symmetric])
      have IH: "rep ?p (?p ! y) = (if rep p (?p ! y) = a then b else rep p (?p ! y))"
        by (rule less.hyps [OF forest_rank [OF g less.prems inner] forest_parent [OF g less.prems]])
      show ?thesis
      proof (cases "y = a")
        case True
        then have "?p ! y = b" using len a(1) by simp
        with step IH rb ra neq True show ?thesis by simp
      next
        case False
        then have "?p ! y = p ! y" by simp
        with step IH rep_step [OF fr less.prems] show ?thesis by simp
      qed
    qed
  qed
qed

lemma uf_union_returns:
  assumes fr: "forest n f p" and a: "a < n" and b: "b < n"
  shows "\<exists>p' g. uf_union a b p = Some p' \<and> forest n g p'
    \<and> (\<forall>y < n. rep p' y = (if rep p y = rep p a then rep p b else rep p y))"
proof -
  obtain p1 where p1: "uf_find p a = Some (rep p a, p1)" "forest n f p1" "\<And>y. y < n \<Longrightarrow> rep p1 y = rep p y"
    using uf_find_returns [OF fr a] by blast
  obtain p2 where p2: "uf_find p1 b = Some (rep p1 b, p2)" "forest n f p2" "\<And>y. y < n \<Longrightarrow> rep p2 y = rep p1 y"
    using uf_find_returns [OF p1(2) b] by blast
  let ?ra = "rep p a" and ?rb = "rep p b"
  have eq: "uf_union a b p = Some (if ?ra \<noteq> ?rb then p2[?ra := ?rb] else p2)"
    using p1 p2 b by (simp add: uf_union_def)
  have same: "rep p2 y = rep p y" if "y < n" for y using that p1(3) p2(3) by simp
  show ?thesis
  proof (cases "?ra = ?rb")
    case True
    with eq p2(2) same show ?thesis by (intro exI [of _ p2] exI [of _ f]) auto
  next
    case False
    have ra: "?ra < n" "p2 ! ?ra = ?ra" and rb: "?rb < n" "p2 ! ?rb = ?rb"
      using rep_props [OF p2(2) a] rep_props [OF p2(2) b] same a b by simp_all
    obtain g where "forest n g (p2[?ra := ?rb])" using hang(1) [OF p2(2) ra rb False] by blast
    moreover have "rep (p2[?ra := ?rb]) y = (if rep p y = ?ra then ?rb else rep p y)" if "y < n" for y
      using hang(2) [OF p2(2) ra rb False that] same that by simp
    ultimately show ?thesis using eq False by (intro exI [of _ "p2[?ra := ?rb]"] exI [of _ g]) simp
  qed
qed

text \<open>Being linked: a chain of overlapping picks.\<close>

definition clash :: "conflict_pick list \<Rightarrow> nat rel" where
  "clash picks = {(i, j). i < length picks \<and> j < length picks \<and> overlaps (picks ! i) (picks ! j)}"

definition linked :: "conflict_pick list \<Rightarrow> nat \<Rightarrow> nat \<Rightarrow> bool" where
  "linked picks i j \<longleftrightarrow> (i, j) \<in> (clash picks)\<^sup>*"

lemma overlaps_sym: "overlaps a b \<longleftrightarrow> overlaps b a"
  by (auto simp: overlaps_def)

lemma linked_refl [simp]: "linked ps i i"
  by (simp add: linked_def)

lemma linked_sym: "linked ps i j \<longleftrightarrow> linked ps j i"
proof -
  have "sym (clash ps)" by (auto simp: sym_def clash_def overlaps_sym)
  then have "sym ((clash ps)\<^sup>*)" by (rule sym_rtrancl)
  then show ?thesis unfolding linked_def by (blast dest: symD)
qed

lemma linked_trans: "linked ps i j \<Longrightarrow> linked ps j k \<Longrightarrow> linked ps i k"
  by (simp add: linked_def)

definition sound :: "conflict_pick list \<Rightarrow> nat list \<Rightarrow> bool" where
  "sound picks p \<longleftrightarrow> (\<forall>x < length picks. \<forall>y < length picks. rep p x = rep p y \<longrightarrow> linked picks x y)"

definition coarser :: "nat \<Rightarrow> nat list \<Rightarrow> nat list \<Rightarrow> bool" where
  "coarser n p p' \<longleftrightarrow> (\<forall>x < n. \<forall>y < n. rep p x = rep p y \<longrightarrow> rep p' x = rep p' y)"

definition joined :: "conflict_pick list \<Rightarrow> (nat \<times> nat) list \<Rightarrow> nat list \<Rightarrow> bool" where
  "joined picks es p \<longleftrightarrow> (\<forall>(i, j) \<in> set es. overlaps (picks ! i) (picks ! j) \<longrightarrow> rep p i = rep p j)"

lemma joined_Cons [simp]:
  "joined picks ((i, j) # es) p \<longleftrightarrow> (overlaps (picks ! i) (picks ! j) \<longrightarrow> rep p i = rep p j) \<and> joined picks es p"
  by (simp add: joined_def)

lemma sound_union:
  assumes s: "sound picks p" and ij: "i < length picks" "j < length picks" "linked picks i j"
    and rep1: "\<And>y. y < length picks \<Longrightarrow> rep p1 y = (if rep p y = rep p i then rep p j else rep p y)"
  shows "sound picks p1"
  unfolding sound_def
proof (intro allI impI)
  fix x y
  assume x: "x < length picks" and y: "y < length picks" and eq: "rep p1 x = rep p1 y"
  have s': "linked picks a b" if "a < length picks" "b < length picks" "rep p a = rep p b" for a b
    using s that unfolding sound_def by blast
  show "linked picks x y"
  proof (cases "rep p x = rep p i"; cases "rep p y = rep p i")
    assume xi: "rep p x = rep p i" and "rep p y \<noteq> rep p i"
    with eq rep1 x y have "rep p y = rep p j" by simp
    with s' [OF x ij(1) xi] s' [OF y ij(2)] ij(3) show ?thesis by (metis linked_sym linked_trans)
  next
    assume "rep p x \<noteq> rep p i" and yi: "rep p y = rep p i"
    with eq rep1 x y have "rep p x = rep p j" by simp
    with s' [OF y ij(1) yi] s' [OF x ij(2)] ij(3) show ?thesis by (metis linked_sym linked_trans)
  qed (use eq rep1 x y s' in auto)
qed

lemma link_all_returns:
  assumes "forest (length picks) f p" and "\<forall>(i, j) \<in> set es. i < length picks \<and> j < length picks" and "sound picks p"
  shows "\<exists>p' g. link_all picks es p = Some p' \<and> forest (length picks) g p' \<and> sound picks p'
    \<and> coarser (length picks) p p' \<and> joined picks es p'"
  using assms
proof (induction es arbitrary: p f)
  case Nil
  then show ?case by (intro exI [of _ p] exI [of _ f]) (simp add: coarser_def joined_def)
next
  case (Cons e es)
  obtain i j where e: "e = (i, j)" by (cases e)
  have ij: "i < length picks" "j < length picks" and es: "\<forall>(i, j) \<in> set es. i < length picks \<and> j < length picks"
    using Cons.prems(2) e by auto
  show ?case
  proof (cases "overlaps (picks ! i) (picks ! j)")
    case False
    with Cons.IH [OF Cons.prems(1) es Cons.prems(3)] show ?thesis unfolding e by simp
  next
    case True
    obtain p1 g1 where p1: "uf_union i j p = Some p1" "forest (length picks) g1 p1"
      and rep1: "\<And>y. y < length picks \<Longrightarrow> rep p1 y = (if rep p y = rep p i then rep p j else rep p y)"
      using uf_union_returns [OF Cons.prems(1) ij] by blast
    have "linked picks i j" using True ij by (auto simp: linked_def clash_def)
    from sound_union [OF Cons.prems(3) ij this rep1] have "sound picks p1" .
    from Cons.IH [OF p1(2) es this] obtain p' g where p':
      "link_all picks es p1 = Some p'" "forest (length picks) g p'" "sound picks p'" "coarser (length picks) p1 p'"
      "joined picks es p'" by blast
    have "rep p1 i = rep p1 j" using rep1 ij by simp
    then have "rep p' i = rep p' j" using p'(4) ij unfolding coarser_def by blast
    then have "joined picks (e # es) p'" using p'(5) by (simp add: e)
    moreover have "coarser (length picks) p p'"
      unfolding coarser_def
    proof (intro allI impI)
      fix x y
      assume xy: "x < length picks" "y < length picks" "rep p x = rep p y"
      then have "rep p1 x = rep p1 y" by (simp only: rep1)
      with p'(4) xy show "rep p' x = rep p' y" unfolding coarser_def by blast
    qed
    moreover have "link_all picks (e # es) p = Some p'" using p1(1) p'(1) True by (simp add: e)
    ultimately show ?thesis using p'(2,3) by blast
  qed
qed

lemma set_index_pairs: "set (index_pairs n) = {(i, j). i < j \<and> j < n}"
proof (intro set_eqI)
  fix q :: "nat \<times> nat"
  show "q \<in> set (index_pairs n) \<longleftrightarrow> q \<in> {(i, j). i < j \<and> j < n}"
    by (cases q) (force simp: index_pairs_def)
qed

lemma forest_identity: "forest n id [0..<n]"
  by (simp add: forest_def)

lemma rep_identity: "x < n \<Longrightarrow> rep [0..<n] x = x"
  by (simp add: rep_root)

lemma link_all_components:
  "\<exists>p' g. link_all picks (index_pairs (length picks)) [0..<length picks] = Some p' \<and> forest (length picks) g p'
    \<and> (\<forall>x < length picks. \<forall>y < length picks. rep p' x = rep p' y \<longleftrightarrow> linked picks x y)"
proof -
  let ?n = "length picks"
  have "sound picks [0..<?n]" by (simp add: sound_def rep_identity)
  note start = this
  obtain p' g where p': "link_all picks (index_pairs ?n) [0..<?n] = Some p'" "forest ?n g p'" "sound picks p'"
    "joined picks (index_pairs ?n) p'"
    using link_all_returns [OF forest_identity _ start, of "index_pairs ?n"] by (auto simp: set_index_pairs)
  have edge: "rep p' x = rep p' y" if xy: "(x, y) \<in> clash picks" for x y
  proof (cases x y rule: linorder_cases)
    case less
    then show ?thesis using p'(4) xy by (auto simp: joined_def set_index_pairs clash_def)
  next
    case greater
    then show ?thesis using p'(4) xy by (auto simp: joined_def set_index_pairs clash_def overlaps_sym)
  qed simp
  have "rep p' x = rep p' y" if "linked picks x y" for x y
    using that unfolding linked_def by (induction rule: rtrancl_induct) (auto dest: edge)
  with p' show ?thesis unfolding sound_def by blast
qed

text \<open>The buckets.\<close>

definition bucket_of :: "conflict_pick list \<Rightarrow> (nat \<Rightarrow> nat) \<Rightarrow> nat list \<Rightarrow> nat \<Rightarrow> conflict_pick list" where
  "bucket_of picks f ixs r = map (nth picks) (filter (\<lambda>i. f i = r) ixs)"

definition add_bucket ::
  "conflict_pick list \<Rightarrow> (nat \<Rightarrow> nat) \<Rightarrow> nat \<Rightarrow> (nat \<times> conflict_pick list) list \<Rightarrow> (nat \<times> conflict_pick list) list" where
  "add_bucket picks f i c =
     AList.update (f i) ((case map_of c (f i) of Some b \<Rightarrow> b | None \<Rightarrow> []) @ [picks ! i]) c"

lemma bucket_all_fold:
  assumes "forest n g p" and "\<forall>i \<in> set ixs. i < n" and "\<And>i. i < n \<Longrightarrow> rep p i = f i"
  shows "bucket_all picks ixs p c = Some (fold (add_bucket picks f) ixs c)"
  using assms
proof (induction ixs arbitrary: p c)
  case (Cons i ixs)
  then obtain p1 where p1: "uf_find p i = Some (rep p i, p1)" "forest n g p1" "\<forall>y < n. rep p1 y = rep p y"
    using uf_find_returns [OF Cons.prems(1), of i] by auto
  have "bucket_all picks ixs p1 (add_bucket picks f i c) = Some (fold (add_bucket picks f) ixs (add_bucket picks f i c))"
    by (rule Cons.IH [OF p1(2)]) (use Cons.prems p1(3) in auto)
  moreover have "uf_find p i = Some (f i, p1)" using p1(1) Cons.prems(2,3) by simp
  ultimately show ?case by (simp add: add_bucket_def [of picks f i])
qed simp

lemma add_bucket_step:
  assumes d: "distinct (map fst c)"
    and m: "\<And>r. map_of c r = (if r \<in> f ` set ixs then Some (bucket_of picks f ixs r) else None)"
  shows "distinct (map fst (add_bucket picks f i c))"
    and "map_of (add_bucket picks f i c) r =
      (if r \<in> f ` set (ixs @ [i]) then Some (bucket_of picks f (ixs @ [i]) r) else None)"
proof -
  have old: "(case map_of c (f i) of Some b \<Rightarrow> b | None \<Rightarrow> []) = bucket_of picks f ixs (f i)"
  proof (cases "f i \<in> f ` set ixs")
    case False
    then have "bucket_of picks f ixs (f i) = []" by (simp add: bucket_of_def filter_empty_conv image_iff) metis
    with False m [of "f i"] show ?thesis by simp
  qed (use m [of "f i"] in simp)
  show "distinct (map fst (add_bucket picks f i c))"
    unfolding add_bucket_def by (rule distinct_update [OF d])
  show "map_of (add_bucket picks f i c) r =
      (if r \<in> f ` set (ixs @ [i]) then Some (bucket_of picks f (ixs @ [i]) r) else None)"
    unfolding add_bucket_def old update_conv' by (simp add: m) (simp add: bucket_of_def)
qed

lemma buckets:
  "distinct (map fst (fold (add_bucket picks f) ixs [])) \<and>
   (\<forall>r. map_of (fold (add_bucket picks f) ixs []) r = (if r \<in> f ` set ixs then Some (bucket_of picks f ixs r) else None))"
proof (induction ixs rule: rev_induct)
  case (snoc i ixs)
  note step = add_bucket_step [of "fold (add_bucket picks f) ixs []" f ixs picks i]
  show ?case
    using snoc step by (simp only: fold_append comp_apply fold_simps) blast
qed simp

lemma bucket_values:
  "set (map snd (fold (add_bucket picks f) ixs [])) = bucket_of picks f ixs ` f ` set ixs"
proof -
  let ?c = "fold (add_bucket picks f) ixs []"
  have d: "distinct (map fst ?c)" and m: "map_of ?c r = (if r \<in> f ` set ixs then Some (bucket_of picks f ixs r) else None)" for r
    using buckets [of picks f ixs] by auto
  have "(r, b) \<in> set ?c \<longleftrightarrow> r \<in> f ` set ixs \<and> b = bucket_of picks f ixs r" for r b
    using map_of_eq_Some_iff [OF d, of r b] m [of r] by (auto split: if_splits)
  then have "set ?c = (\<lambda>r. (r, bucket_of picks f ixs r)) ` f ` set ixs" by auto
  then show ?thesis by (simp add: image_image)
qed

subsection \<open>The groups\<close>

interpretation by_start: comparator by_start
proof
  fix x y z
  show "by_start x y \<le> 0 \<or> by_start y x \<le> 0" by (auto simp: by_start_def)
  show "by_start x y \<le> 0 \<Longrightarrow> by_start y z \<le> 0 \<Longrightarrow> by_start x z \<le> 0"
    using str_less_total str_less_trans str_less_irrefl unfolding by_start_def
    by (smt (verit))
qed

lemma by_start_le: "by_start a b \<le> 0 \<Longrightarrow> cp_startMs a \<le> cp_startMs b"
  by (auto simp: by_start_def split: if_splits)

lemma fold_better:
  "fold better_keep xs b \<in> insert b (set xs)
   \<and> (\<forall>p \<in> insert b (set xs). priority_rank (cp_priority (fold better_keep xs b)) \<le> priority_rank (cp_priority p))"
proof (induction xs arbitrary: b)
  case (Cons x xs)
  have "better_keep x b \<in> {x, b}" and "priority_rank (cp_priority (better_keep x b)) \<le> priority_rank (cp_priority x)"
    and "priority_rank (cp_priority (better_keep x b)) \<le> priority_rank (cp_priority b)"
    by (auto simp: better_keep_def Let_def)
  with Cons [of "better_keep x b"] show ?case by fastforce
qed simp

lemma recommended_best:
  assumes "b \<noteq> []"
  shows "recommended b \<in> set b" and "p \<in> set b \<Longrightarrow> priority_rank (cp_priority (recommended b)) \<le> priority_rank (cp_priority p)"
  using fold_better [of "tl b" "hd b"] assms by (cases b; auto simp: recommended_def)+

definition well_made :: "conflict_group \<Rightarrow> bool" where
  "well_made g \<longleftrightarrow> sorted (map cp_startMs (cg_picks g))
     \<and> (\<exists>k \<in> set (cg_picks g). fs_id (cp_set k) = cg_recommendedKeepId g
          \<and> (\<forall>p \<in> set (cg_picks g). priority_rank (cp_priority k) \<le> priority_rank (cp_priority p)))"

lemma make_group_well_made:
  assumes "b \<noteq> []"
  shows "well_made (make_group b)" and "mset (cg_picks (make_group b)) = mset b"
proof -
  have "sorted_wrt (\<lambda>x y. cp_startMs x \<le> cp_startMs y) (js_sort by_start b)"
    using by_start.sorted_js_sort [of b] by (rule sorted_wrt_mono_rel [rotated]) (rule by_start_le)
  with recommended_best [of "js_sort by_start b"] assms show "well_made (make_group b)"
    unfolding well_made_def make_group_def Let_def by (simp add: sorted_map) blast
qed (simp add: make_group_def Let_def)

lemma linked_neighbour:
  assumes "linked picks i j" and "i \<noteq> j"
  shows "\<exists>k < length picks. k \<noteq> i \<and> overlaps (picks ! i) (picks ! k)"
proof -
  have "(i, j) \<in> (clash picks)\<^sup>*" using assms(1) by (simp add: linked_def)
  then have "\<exists>k. k \<noteq> i \<and> (i, k) \<in> clash picks" using assms(2)
  proof (induction rule: converse_rtrancl_induct)
    case (step y z)
    then show ?case by (cases "z = y") auto
  qed simp
  then show ?thesis by (auto simp: clash_def)
qed

lemma linked_range: "linked picks i j \<Longrightarrow> i < length picks \<Longrightarrow> j < length picks"
  unfolding linked_def by (induction rule: rtrancl_induct) (auto simp: clash_def)

text \<open>The picks reachable from one by a chain of overlaps, and the groups the specification asks for:
  one per chain of at least two picks.\<close>

definition component :: "conflict_pick list \<Rightarrow> nat \<Rightarrow> conflict_pick list" where
  "component picks i = map (nth picks) (filter (linked picks i) [0..<length picks])"

definition components :: "conflict_pick list \<Rightarrow> conflict_pick multiset set" where
  "components picks = {mset (component picks i) |i. i < length picks \<and>
     (\<exists>j < length picks. j \<noteq> i \<and> overlaps (picks ! i) (picks ! j))}"

lemma component_two:
  assumes i: "i < length picks"
  shows "2 \<le> length (component picks i) \<longleftrightarrow> (\<exists>j < length picks. j \<noteq> i \<and> overlaps (picks ! i) (picks ! j))"
proof -
  let ?L = "filter (linked picks i) [0..<length picks]"
  have d: "distinct ?L" and iL: "i \<in> set ?L" using i by auto
  show ?thesis
  proof
    assume "2 \<le> length (component picks i)"
    then have "2 \<le> card (set ?L)" using distinct_card [OF d] by (simp add: component_def)
    then have "\<not> set ?L \<subseteq> {i}" using card_mono [of "{i}" "set ?L"] by auto
    then obtain j where "linked picks i j" "j \<noteq> i" by auto
    with linked_neighbour show "\<exists>j < length picks. j \<noteq> i \<and> overlaps (picks ! i) (picks ! j)" by blast
  next
    assume "\<exists>j < length picks. j \<noteq> i \<and> overlaps (picks ! i) (picks ! j)"
    then obtain j where j: "j < length picks" "j \<noteq> i" "overlaps (picks ! i) (picks ! j)" by blast
    then have "linked picks i j" using i by (auto simp: linked_def clash_def)
    with j iL have "{i, j} \<subseteq> set ?L" by auto
    then have "card {i, j} \<le> card (set ?L)" by (rule card_mono [rotated]) simp
    with j(2) distinct_card [OF d] show "2 \<le> length (component picks i)" by (simp add: component_def)
  qed
qed

lemma bucket_is_component:
  assumes "\<forall>x < length picks. \<forall>y < length picks. f x = f y \<longleftrightarrow> linked picks x y" and "i < length picks"
  shows "bucket_of picks f [0..<length picks] (f i) = component picks i"
proof -
  have "filter (\<lambda>k. f k = f i) [0..<length picks] = filter (linked picks i) [0..<length picks]"
    by (rule filter_cong [OF refl]) (use assms linked_sym in auto)
  then show ?thesis by (simp add: bucket_of_def component_def)
qed

lemma clusters_are_components:
  assumes "2 \<le> length picks"
  shows "\<exists>parent clusters. link_all picks (index_pairs (length picks)) [0..<length picks] = Some parent
    \<and> bucket_all picks [0..<length picks] parent [] = Some clusters
    \<and> set (map snd clusters) = component picks ` {0..<length picks}"
proof -
  let ?n = "length picks"
  obtain p g where p: "link_all picks (index_pairs ?n) [0..<?n] = Some p" "forest ?n g p"
    and reps: "\<forall>x < ?n. \<forall>y < ?n. rep p x = rep p y \<longleftrightarrow> linked picks x y"
    using link_all_components [of picks] by blast
  have "bucket_all picks [0..<?n] p [] = Some (fold (add_bucket picks (rep p)) [0..<?n] [])"
    by (rule bucket_all_fold [OF p(2)]) simp_all
  moreover have "set (map snd (fold (add_bucket picks (rep p)) [0..<?n] [])) = component picks ` {0..<?n}"
    unfolding bucket_values by (auto simp: image_image bucket_is_component [OF reps])
  ultimately show ?thesis using p(1) by blast
qed

lemma no_components: "length picks < 2 \<Longrightarrow> components picks = {}"
  unfolding components_def by (force simp: less_Suc_eq numeral_2_eq_2)

text \<open>C10. The clash finder always returns, and its union-find computes the closure of the overlap
  relation: the groups are exactly the chains of overlapping picks with at least two members, every
  pick of a chain once; inside a group the picks are in start order, and the one it recommends to
  keep belongs to the group and has the strongest priority of it.\<close>

theorem conflicts_are_overlap_components:
  assumes "ci_days inp = Some days"
  shows "\<exists>groups. buildPickConflicts bounds inp = Some groups
    \<and> set (map (\<lambda>g. mset (cg_picks g)) groups) = components (eligible_picks bounds inp)
    \<and> (\<forall>g \<in> set groups. well_made g)"
proof (cases "length (eligible_picks bounds inp) < 2")
  case True
  with assms no_components show ?thesis by (simp add: buildPickConflicts_def Let_def)
next
  case False
  define picks where "picks = eligible_picks bounds inp"
  let ?n = "length picks"
  obtain p c where pc: "link_all picks (index_pairs ?n) [0..<?n] = Some p" "bucket_all picks [0..<?n] p [] = Some c"
    and buckets: "set (map snd c) = component picks ` {0..<?n}"
    using clusters_are_components [of picks] False by (auto simp: picks_def)
  define groups where
    "groups = js_sort (by_key (\<lambda>g. cp_startMs (hd (cg_picks g)))) (map make_group (filter (\<lambda>b. 2 \<le> length b) (map snd c)))"
  have made: "set groups = make_group ` {b \<in> component picks ` {0..<?n}. 2 \<le> length b}"
    using buckets by (simp add: groups_def)
  have ne: "2 \<le> length b \<Longrightarrow> b \<noteq> []" for b :: "conflict_pick list" by auto
  have "set (map (\<lambda>g. mset (cg_picks g)) groups) = mset ` {b \<in> component picks ` {0..<?n}. 2 \<le> length b}"
    using make_group_well_made(2) [OF ne] by (simp add: made image_image)
  also have "\<dots> = components picks"
  proof (intro set_eqI iffI)
    fix m
    assume "m \<in> components picks"
    then obtain i where i: "i < ?n" "m = mset (component picks i)"
      "\<exists>j < ?n. j \<noteq> i \<and> overlaps (picks ! i) (picks ! j)" unfolding components_def by blast
    then have "2 \<le> length (component picks i)" by (simp only: component_two)
    with i show "m \<in> mset ` {b \<in> component picks ` {0..<?n}. 2 \<le> length b}" by auto
  qed (auto simp: component_two components_def)
  finally have "set (map (\<lambda>g. mset (cg_picks g)) groups) = components picks" .
  moreover have "\<forall>g \<in> set groups. well_made g"
    using make_group_well_made(1) [OF ne] by (auto simp: made)
  moreover have "buildPickConflicts bounds inp = Some groups"
    using pc False assms by (simp add: buildPickConflicts_def picks_def groups_def Let_def)
  ultimately show ?thesis by (simp add: picks_def)
qed

definition ex_set :: "string \<Rightarrow> string \<Rightarrow> festival_set" where
  "ex_set i st = \<lparr>fs_id = i, fs_festivalId = ''f'', fs_stageId = ''s'', fs_stageName = None, fs_date = None,
     fs_dayIndex = Some 0, fs_startTime = st, fs_endTime = st, fs_artist = None, fs_artists = None,
     fs_linkUrl = None, fs_createdAt = [], fs_updatedAt = []\<rparr>"

definition ex_bounds :: "festival_set \<Rightarrow> (int \<times> int) option" where
  "ex_bounds s = (if fs_id s = ''a'' then Some (0, 3600000) else if fs_id s = ''b'' then Some (1800000, 5400000)
     else if fs_id s = ''c'' then Some (5400000, 7200000) else None)"

definition ex_input :: conflicts_input where
  "ex_input = \<lparr>ci_sets = [ex_set ''a'' ''20:00'', ex_set ''b'' ''20:30'', ex_set ''c'' ''21:30''],
     ci_myPicks = (\<lambda>i. if i = ''b'' then Some Must else Some Maybe), ci_selectedDay = 0, ci_days = Some [],
     ci_allProfiles = None, ci_crewMemberUserIds = None, ci_myUserId = None\<rparr>"

lemma conflicts_are_overlap_components_witness:
  "ci_days ex_input = Some [] \<and>
   (\<exists>groups. buildPickConflicts ex_bounds ex_input = Some groups
    \<and> set (map (\<lambda>g. mset (cg_picks g)) groups) = components (eligible_picks ex_bounds ex_input)
    \<and> (\<forall>g \<in> set groups. well_made g))
   \<and> map (\<lambda>p. fs_id (cp_set p)) (eligible_picks ex_bounds ex_input) = [''a'', ''b'', ''c'']"
proof (intro conjI)
  show d: "ci_days ex_input = Some []" by (simp add: ex_input_def)
  show "\<exists>groups. buildPickConflicts ex_bounds ex_input = Some groups
    \<and> set (map (\<lambda>g. mset (cg_picks g)) groups) = components (eligible_picks ex_bounds ex_input)
    \<and> (\<forall>g \<in> set groups. well_made g)"
    by (rule conflicts_are_overlap_components [OF d])
  show "map (\<lambda>p. fs_id (cp_set p)) (eligible_picks ex_bounds ex_input) = [''a'', ''b'', ''c'']"
    by code_simp
qed

end
