(* ===== verification/Crew_Types.thy ===== *)
theory Crew_Types
  imports Domain Sanitize
begin

text \<open>
  The crew part of \<open>packages/shared/src/types/domain.ts\<close>: what the server serializes about a crew
  and its boards and what the client stores, with the request bodies.  A field that may be
  absent or null is an option; in an update request, where absent and null differ, the outer
  option is the presence of the key.  \<open>_optimistic\<close> is false when absent.
\<close>

subsection \<open>Crews\<close>

record client_member =
  mb_userId :: string
  mb_username :: "string option"
  mb_name :: "string option"
  mb_avatarKey :: "string option"
  mb_avatarVersion :: "string option"
  mb_role :: "string option"
  mb_joinedAt :: "string option"

record client_crew =
  cc_id :: string
  cc_name :: string
  cc_inviteCode :: "string option"
  cc_owner :: string
  cc_festivalId :: "string option"
  cc_members :: "client_member list option"
  cc_homeBaseLocation :: "string option"
  cc_homeBaseTime :: "string option"
  cc_homeBaseUpdatedAt :: "string option"
  cc_totem_name :: "string option"
  cc_totem_emoji :: "string option"
  cc_photoAlbumUrl :: "string option"
  cc_reformedFrom :: "string option"
  cc_createdAt :: string
  cc_updatedAt :: string
  cc_optimistic :: bool

record crew_overlap_row =
  co_setId :: string
  co_memberCount :: int
  co_members :: "client_member list"

record reform_response =
  rr_crew :: client_crew
  rr_autoAdded :: "string list"
  rr_invited :: "string list"

subsection \<open>Polls\<close>

record poll_vote =
  pv_option :: "int option"
  pv_user_id :: "string option"

record poll_set_ref =
  ps_setId :: string
  ps_label :: string
  ps_stageReference :: "string option"
  ps_meetAt :: "string option"

record crew_poll =
  po_id :: string
  po_crew_id :: string
  po_created_by :: string
  po_question :: string
  po_options :: "string list"
  po_votes :: "poll_vote list option"
  po_closes_at :: "string option"
  po_closed :: bool
  po_created_at :: string
  po_optimistic :: bool
  po_setRefs :: "poll_set_ref option list option"

record create_poll =
  pq_question :: string
  pq_options :: "string list"
  pq_closesAt :: "string option"

subsection \<open>Meeting points\<close>

record meeting_point =
  mp_id :: string
  mp_crew_id :: string
  mp_created_by :: string
  mp_label :: string
  mp_location :: string
  mp_type :: string
  mp_meet_at :: "string option"
  mp_stage_reference :: "string option"
  mp_latitude :: "rat option"
  mp_longitude :: "rat option"
  mp_recurs_daily :: bool
  mp_expires_at :: "string option"
  mp_updated_at :: "string option"
  mp_creator_name :: "string option"
  mp_active :: bool
  mp_created_at :: string
  mp_optimistic :: bool

record create_meeting_point =
  mq_label :: string
  mq_location :: string
  mq_type :: "string option"
  mq_meetAt :: "string option"
  mq_stageReference :: "string option"
  mq_latitude :: "rat option"
  mq_longitude :: "rat option"
  mq_recursDaily :: "bool option"

record update_meeting_point =
  um_label :: "string option"
  um_location :: "string option"
  um_type :: "string option"
  um_meetAt :: "string option option"
  um_stageReference :: "string option option"
  um_latitude :: "rat option option"
  um_longitude :: "rat option option"
  um_recursDaily :: "bool option"

subsection \<open>Packing and rides\<close>

record packing_item =
  pk_id :: string
  pk_crew_id :: string
  pk_created_by :: string
  pk_label :: string
  pk_brought_by :: "string option"
  pk_claimed :: bool
  pk_created_at :: string
  pk_optimistic :: bool

record create_packing_item =
  kq_label :: string
  kq_broughtBy :: "string option"
  kq_claimed :: "bool option"

record update_packing_item =
  ku_label :: "string option"
  ku_broughtBy :: "string option option"
  ku_claimed :: "bool option"

record ride_offer =
  ro_id :: string
  ro_crew_id :: string
  ro_created_by :: string
  ro_driver :: "string option"
  ro_seats :: "int option"
  ro_depart_from :: "string option"
  ro_depart_at :: "string option"
  ro_note :: "string option"
  ro_created_at :: string
  ro_optimistic :: bool

record create_ride_offer =
  rf_driver :: "string option"
  rf_seats :: "int option"
  rf_departFrom :: "string option"
  rf_departAt :: "string option"
  rf_note :: "string option"

record update_ride_offer =
  ru_driver :: "string option option"
  ru_seats :: "int option option"
  ru_departFrom :: "string option option"
  ru_departAt :: "string option option"
  ru_note :: "string option option"

subsection \<open>Member status\<close>

datatype way_status = OnMyWay | Here | Delayed

record member_status =
  ms_crew_id :: string
  ms_user_id :: string
  ms_status :: "way_status option"
  ms_target :: "string option"
  ms_eta_minutes :: "int option"
  ms_note :: "string option"
  ms_latitude :: "rat option"
  ms_longitude :: "rat option"
  ms_location_captured_at :: "string option"
  ms_updated_at :: string
  ms_username :: "string option"
  ms_name :: "string option"
  ms_avatar_key :: "string option"
  ms_avatar_version :: "string option"
  ms_optimistic :: bool

record status_position =
  sq_lat :: rat
  sq_lng :: rat
  sq_capturedAt :: "string option"

record update_status =
  su_status :: "way_status option option"
  su_target :: "string option option"
  su_eta_minutes :: "int option option"
  su_note :: "string option option"
  su_position :: "status_position option option"

definition position_of :: "update_status \<Rightarrow> status_position option" where
  "position_of q = (case su_position q of Some (Some p) \<Rightarrow> Some p | _ \<Rightarrow> None)"

subsection \<open>Expenses and activity\<close>

datatype amount = AmountText string | AmountNumber rat

record client_expense =
  ce_id :: string
  ce_crew_id :: string
  ce_paid_by :: string
  ce_paid_by_name :: string
  ce_description :: string
  ce_amount :: amount
  ce_split_with :: "string list"
  ce_category :: string
  ce_planned :: bool
  ce_created_at :: string
  ce_optimistic :: bool

record expense_balance =
  eb_userId :: string
  eb_username :: string
  eb_balance :: rat

record create_client_expense =
  xq_description :: string
  xq_amount :: rat
  xq_splitWith :: "string list"
  xq_category :: string
  xq_planned :: "bool option"

record payee_handle =
  ph_venmo :: "string option"
  ph_cashapp :: "string option"
  ph_paypal :: "string option"

record client_settlement =
  cl_fromUserId :: string
  cl_fromName :: string
  cl_toUserId :: string
  cl_toName :: string
  cl_amountCents :: int
  cl_amount :: rat
  cl_payeeHandles :: payee_handle

record activity_entry =
  ae_id :: string
  ae_crew_id :: string
  ae_user_id :: string
  ae_username :: string
  ae_type :: string
  ae_detail :: "string option"
  ae_created_at :: string

end
