(* ===== verification/Crew_Client.thy ===== *)
theory Crew_Client
  imports Crew_Types
begin

text \<open>
  The client's crew store (\<open>packages/shared/src/stores/crewStore.ts\<close>) with the error texts of
  \<open>services/errors.ts\<close>.  An action that awaits the network is two functions: what it does before
  the request (\<open>_begin\<close>) and what it does with the reply, both run to completion by JavaScript, so
  that other actions and socket events may come in between.  A reply is the server's answer, a
  failure, or, where \<open>api.ts\<close> queues the write when offline, \<open>Queued\<close> with the client id.
  The clock and \<open>Date.parse\<close> are arguments.  Text that is not ASCII is its UTF-8 bytes.
\<close>

subsection \<open>Errors shown to the user\<close>

datatype retry_after = RetryNumber rat | RetryText string

record api_error =
  er_status :: int
  er_message :: string
  er_retryAfter :: "retry_after option"
  er_isNetworkError :: bool

datatype thrown = ApiError api_error | JsError string | OtherValue

definition is_digits :: "string \<Rightarrow> bool" where
  "is_digits s \<longleftrightarrow> s \<noteq> [] \<and> list_all (\<lambda>c. 48 \<le> (of_char c :: nat) \<and> (of_char c :: nat) \<le> 57) s"

definition parse_digits :: "string \<Rightarrow> int" where
  "parse_digits s = foldl (\<lambda>n c. 10 * n + (int (of_char c) - 48)) 0 s"

definition parseRetryAfterMs :: "(string \<Rightarrow> int option) \<Rightarrow> int \<Rightarrow> retry_after option \<Rightarrow> int option" where
  "parseRetryAfterMs dateParse now r =
     (case r of
        None \<Rightarrow> None
      | Some (RetryNumber x) \<Rightarrow> Some (max 0 (js_round (x * 1000)))
      | Some (RetryText t) \<Rightarrow>
          let s = js_trim t
          in if s = [] then None
             else if is_digits s then Some (max 0 (parse_digits s * 1000))
             else map_option (\<lambda>when. max 0 (when - now)) (dateParse s))"

definition em_dash :: string where
  "em_dash = map char_of [226 :: nat, 128, 148]"

definition ceil_seconds :: "int \<Rightarrow> int" where
  "ceil_seconds ms = \<lceil>of_int ms / (1000 :: rat)\<rceil>"

definition mapErrorToUserMessage :: "(string \<Rightarrow> int option) \<Rightarrow> int \<Rightarrow> thrown \<Rightarrow> string \<Rightarrow> string" where
  "mapErrorToUserMessage dateParse now err fallback =
     (case err of
        ApiError e \<Rightarrow>
          if er_isNetworkError e \<or> er_status e = 0
          then ''You appear to be offline '' @ em_dash @ '' check your connection and try again.''
          else if er_status e = 429
          then (case map_option ceil_seconds (parseRetryAfterMs dateParse now (er_retryAfter e)) of
                  Some secs \<Rightarrow> if secs \<noteq> 0
                    then ''Too many requests '' @ em_dash @ '' try again in '' @ show_int secs @ ''s.''
                    else ''Too many requests '' @ em_dash @ '' please slow down.''
                | None \<Rightarrow> ''Too many requests '' @ em_dash @ '' please slow down.'')
          else if 500 \<le> er_status e
          then ''The server had a problem '' @ em_dash @ '' please try again shortly.''
          else if er_message e = [] then fallback else er_message e
      | JsError m \<Rightarrow> m
      | OtherValue \<Rightarrow> fallback)"

subsection \<open>State\<close>

record crew_state =
  crews :: "client_crew list"
  activeCrew :: "client_crew option"
  crewMembers :: "client_member list"
  crewOverlap :: "(string \<times> crew_overlap_row) list"
  polls :: "crew_poll list"
  meetingPoints :: "meeting_point list"
  packingItems :: "packing_item list"
  rideOffers :: "ride_offer list"
  crewStatuses :: "member_status list"
  expenses :: "client_expense list"
  expenseBalances :: "expense_balance list"
  settlements :: "client_settlement list"
  activity :: "activity_entry list"
  crewLoading :: bool
  storeError :: "string option"
  cachedAt :: "int option"
  cachedCrewId :: "string option"
  lastSelectCrewId :: "string option"

definition crew_initial :: crew_state where
  "crew_initial = \<lparr>crews = [], activeCrew = None, crewMembers = [], crewOverlap = [], polls = [], meetingPoints = [],
     packingItems = [], rideOffers = [], crewStatuses = [], expenses = [], expenseBalances = [], settlements = [],
     activity = [], crewLoading = False, storeError = None, cachedAt = None, cachedCrewId = None,
     lastSelectCrewId = None\<rparr>"

text \<open>What the environment supplies: \<open>Date.parse\<close>, the time in milliseconds and as ISO text.\<close>

record clock =
  ck_parse :: "string \<Rightarrow> int option"
  ck_now :: int
  ck_iso :: string

datatype 'a reply = Answered 'a | Queued string | Failed thrown

definition fails :: "clock \<Rightarrow> string \<Rightarrow> thrown \<Rightarrow> crew_state \<Rightarrow> crew_state" where
  "fails ck fallback e s = s\<lparr>storeError := Some (mapErrorToUserMessage (ck_parse ck) (ck_now ck) e fallback)\<rparr>"

definition fails_loading :: "clock \<Rightarrow> string \<Rightarrow> thrown \<Rightarrow> crew_state \<Rightarrow> crew_state" where
  "fails_loading ck fallback e s = (fails ck fallback e s)\<lparr>crewLoading := False\<rparr>"

text \<open>\<open>set({ error: null })\<close> and \<open>set({ crewLoading: true, error: null })\<close>, with which the actions begin.\<close>

definition begin_action :: "crew_state \<Rightarrow> crew_state" where
  "begin_action s = s\<lparr>storeError := None\<rparr>"

definition begin_loading :: "crew_state \<Rightarrow> crew_state" where
  "begin_loading s = s\<lparr>crewLoading := True, storeError := None\<rparr>"

text \<open>\<open>Array.isArray(res) ? res : (res?.items ?? [])\<close>.\<close>

datatype 'a listing = Bare "'a list" | Envelope "'a list option" | NoBody

fun listing_items :: "'a listing \<Rightarrow> 'a list" where
  "listing_items (Bare xs) = xs"
| "listing_items (Envelope (Some xs)) = xs"
| "listing_items (Envelope None) = []"
| "listing_items NoBody = []"

definition dropOptimistic :: "('a \<Rightarrow> bool) \<Rightarrow> 'a list \<Rightarrow> 'a list" where
  "dropOptimistic optimistic xs = filter (\<lambda>x. \<not> optimistic x) xs"

text \<open>\<open>xs.map((x) => (x.id === id ? f(x) : x))\<close>, \<open>xs.filter((x) => x.id !== id)\<close>.\<close>

definition map_where :: "('a \<Rightarrow> 'k) \<Rightarrow> 'k \<Rightarrow> ('a \<Rightarrow> 'a) \<Rightarrow> 'a list \<Rightarrow> 'a list" where
  "map_where key k f xs = map (\<lambda>x. if key x = k then f x else x) xs"

definition is_active :: "string \<Rightarrow> crew_state \<Rightarrow> bool" where
  "is_active crewId s \<longleftrightarrow> map_option cc_id (activeCrew s) = Some crewId"

definition with_active :: "string \<Rightarrow> (client_crew \<Rightarrow> client_crew) \<Rightarrow> crew_state \<Rightarrow> crew_state" where
  "with_active crewId f s = (if is_active crewId s then s\<lparr>activeCrew := map_option f (activeCrew s)\<rparr> else s)"

subsection \<open>Crews\<close>

definition loadCrews :: "clock \<Rightarrow> (thrown + client_crew list) \<Rightarrow> crew_state \<Rightarrow> crew_state" where
  "loadCrews ck r s =
     (case r of Inl e \<Rightarrow> fails_loading ck ''Failed to load crews'' e s
              | Inr cs \<Rightarrow> s\<lparr>crews := cs, crewLoading := False\<rparr>)"

definition selectCrew_begin :: "string \<Rightarrow> crew_state \<Rightarrow> crew_state" where
  "selectCrew_begin crewId s =
     (let sameActiveCrew = is_active crewId s;
          sameCrew = cachedCrewId s = Some crewId \<or> sameActiveCrew
      in s\<lparr>lastSelectCrewId := Some crewId, crewLoading := True, storeError := None,
           activeCrew := (if sameActiveCrew then activeCrew s else None),
           crewMembers := (if sameCrew then crewMembers s else []),
           polls := (if sameCrew then polls s else []),
           meetingPoints := (if sameCrew then meetingPoints s else []),
           packingItems := (if sameCrew then packingItems s else []),
           rideOffers := (if sameCrew then rideOffers s else []),
           crewStatuses := (if sameCrew then crewStatuses s else []),
           expenses := (if sameCrew then expenses s else []),
           expenseBalances := (if sameCrew then expenseBalances s else []),
           settlements := (if sameCrew then settlements s else []),
           activity := (if sameCrew then activity s else [])\<rparr>)"

definition selectCrew :: "clock \<Rightarrow> string \<Rightarrow> (thrown + client_crew) \<Rightarrow> crew_state \<Rightarrow> crew_state" where
  "selectCrew ck crewId r s =
     (case r of
        Inl e \<Rightarrow> fails_loading ck ''Failed to load crew'' e s
      | Inr c \<Rightarrow>
          if lastSelectCrewId s \<noteq> Some crewId then s\<lparr>crewLoading := False\<rparr>
          else s\<lparr>activeCrew := Some c, crewMembers := (case cc_members c of Some ms \<Rightarrow> ms | None \<Rightarrow> []),
                 crewLoading := False, cachedAt := Some (ck_now ck), cachedCrewId := Some crewId\<rparr>)"

definition createCrew :: "clock \<Rightarrow> (thrown + client_crew) \<Rightarrow> crew_state \<Rightarrow> crew_state" where
  "createCrew ck r s =
     (case r of
        Inl e \<Rightarrow> fails_loading ck ''Failed to create crew'' e s
      | Inr c \<Rightarrow> s\<lparr>crews := crews s @ [c], activeCrew := Some c,
                   crewMembers := (case cc_members c of Some ms \<Rightarrow> ms | None \<Rightarrow> []), crewLoading := False\<rparr>)"

text \<open>The keys an answer carries, spread over the crew at hand.\<close>

record crew_patch =
  cx_id :: "string option"
  cx_name :: "string option"
  cx_inviteCode :: "string option option"
  cx_owner :: "string option"
  cx_festivalId :: "string option option"
  cx_members :: "client_member list option"
  cx_homeBaseLocation :: "string option option"
  cx_homeBaseTime :: "string option option"
  cx_homeBaseUpdatedAt :: "string option option"
  cx_totem_name :: "string option option"
  cx_totem_emoji :: "string option option"
  cx_photoAlbumUrl :: "string option option"
  cx_reformedFrom :: "string option option"
  cx_createdAt :: "string option"
  cx_updatedAt :: "string option"

definition spread :: "'a option \<Rightarrow> 'a \<Rightarrow> 'a" where
  "spread new old = (case new of Some v \<Rightarrow> v | None \<Rightarrow> old)"

definition spread_crew :: "crew_patch \<Rightarrow> client_crew \<Rightarrow> client_crew" where
  "spread_crew p c =
     c\<lparr>cc_id := spread (cx_id p) (cc_id c), cc_name := spread (cx_name p) (cc_name c),
       cc_inviteCode := spread (cx_inviteCode p) (cc_inviteCode c), cc_owner := spread (cx_owner p) (cc_owner c),
       cc_festivalId := spread (cx_festivalId p) (cc_festivalId c),
       cc_members := (case cx_members p of Some ms \<Rightarrow> Some ms | None \<Rightarrow> cc_members c),
       cc_homeBaseLocation := spread (cx_homeBaseLocation p) (cc_homeBaseLocation c),
       cc_homeBaseTime := spread (cx_homeBaseTime p) (cc_homeBaseTime c),
       cc_homeBaseUpdatedAt := spread (cx_homeBaseUpdatedAt p) (cc_homeBaseUpdatedAt c),
       cc_totem_name := spread (cx_totem_name p) (cc_totem_name c),
       cc_totem_emoji := spread (cx_totem_emoji p) (cc_totem_emoji c),
       cc_photoAlbumUrl := spread (cx_photoAlbumUrl p) (cc_photoAlbumUrl c),
       cc_reformedFrom := spread (cx_reformedFrom p) (cc_reformedFrom c),
       cc_createdAt := spread (cx_createdAt p) (cc_createdAt c),
       cc_updatedAt := spread (cx_updatedAt p) (cc_updatedAt c)\<rparr>"

definition merge_crew :: "string \<Rightarrow> (client_crew \<Rightarrow> client_crew) \<Rightarrow> crew_state \<Rightarrow> crew_state" where
  "merge_crew crewId f s = (with_active crewId f s)\<lparr>crews := map_where cc_id crewId f (crews s)\<rparr>"

definition updateCrew :: "clock \<Rightarrow> string \<Rightarrow> (thrown + crew_patch) \<Rightarrow> crew_state \<Rightarrow> crew_state" where
  "updateCrew ck crewId r s =
     (case r of Inl e \<Rightarrow> fails ck ''Failed to update crew'' e s
              | Inr p \<Rightarrow> merge_crew crewId (spread_crew p) s)"

definition join_client_id :: "string \<Rightarrow> string" where
  "join_client_id inviteCode = ''POST:/crews/join:join-'' @ inviteCode"

definition joining_crew :: "clock \<Rightarrow> string \<Rightarrow> client_crew" where
  "joining_crew ck i = \<lparr>cc_id = i, cc_name = ''Joining crew'' @ map char_of [226 :: nat, 128, 166], cc_inviteCode = None,
     cc_owner = [], cc_festivalId = None, cc_members = Some [], cc_homeBaseLocation = None, cc_homeBaseTime = None,
     cc_homeBaseUpdatedAt = None, cc_totem_name = None, cc_totem_emoji = None, cc_photoAlbumUrl = None,
     cc_reformedFrom = None, cc_createdAt = ck_iso ck, cc_updatedAt = ck_iso ck, cc_optimistic = True\<rparr>"

definition joinByCode :: "clock \<Rightarrow> client_crew reply \<Rightarrow> crew_state \<Rightarrow> crew_state" where
  "joinByCode ck r s =
     (case r of
        Failed e \<Rightarrow> fails_loading ck ''Failed to join crew'' e s
      | Queued i \<Rightarrow> s\<lparr>crews := crews s @ [joining_crew ck i], crewLoading := False\<rparr>
      | Answered c \<Rightarrow> s\<lparr>crews := (if cc_id c \<in> cc_id ` set (crews s) then crews s else crews s @ [c]),
                        crewLoading := False\<rparr>)"

definition leaveCrew :: "clock \<Rightarrow> string \<Rightarrow> thrown option \<Rightarrow> crew_state \<Rightarrow> crew_state" where
  "leaveCrew ck crewId r s =
     (case r of
        Some e \<Rightarrow> fails ck ''Failed to leave crew'' e s
      | None \<Rightarrow> s\<lparr>crews := remove_key cc_id crewId (crews s),
                  activeCrew := (if is_active crewId s then None else activeCrew s),
                  crewMembers := (if is_active crewId s then [] else crewMembers s)\<rparr>)"

definition kickMember :: "clock \<Rightarrow> string \<Rightarrow> thrown option \<Rightarrow> crew_state \<Rightarrow> crew_state" where
  "kickMember ck memberId r s =
     (case r of Some e \<Rightarrow> fails ck ''Failed to kick member'' e s
              | None \<Rightarrow> s\<lparr>crewMembers := remove_key mb_userId memberId (crewMembers s)\<rparr>)"

definition set_roles :: "string \<Rightarrow> client_member list \<Rightarrow> client_member list" where
  "set_roles newOwnerId ms = map (\<lambda>m. m\<lparr>mb_role := Some (if mb_userId m = newOwnerId then ''owner'' else ''member'')\<rparr>) ms"

text \<open>A crew without a member list makes the updater throw, which the \<open>catch\<close> reports.\<close>

definition transferOwnership_client :: "clock \<Rightarrow> string \<Rightarrow> string \<Rightarrow> thrown option \<Rightarrow> crew_state \<Rightarrow> crew_state" where
  "transferOwnership_client ck crewId newOwnerId r s =
     (case r of
        Some e \<Rightarrow> fails ck ''Failed to transfer ownership'' e s
      | None \<Rightarrow>
          if is_active crewId s \<and> Option.bind (activeCrew s) cc_members = None
          then fails ck ''Failed to transfer ownership''
                 (JsError ''Cannot read properties of undefined (reading 'map')'') s
          else (with_active crewId (\<lambda>c. c\<lparr>cc_owner := newOwnerId, cc_members := map_option (set_roles newOwnerId) (cc_members c)\<rparr>) s)
                 \<lparr>crewMembers := set_roles newOwnerId (crewMembers s),
                  crews := map_where cc_id crewId (\<lambda>c. c\<lparr>cc_owner := newOwnerId\<rparr>) (crews s)\<rparr>)"

definition regenerateInvite_client :: "clock \<Rightarrow> (thrown + string) \<Rightarrow> crew_state \<Rightarrow> crew_state" where
  "regenerateInvite_client ck r s =
     (case r of Inl e \<Rightarrow> fails ck ''Failed to regenerate invite'' e s
              | Inr code \<Rightarrow> s\<lparr>activeCrew := map_option (\<lambda>c. c\<lparr>cc_inviteCode := Some code\<rparr>) (activeCrew s)\<rparr>)"

definition reformCrew_client :: "clock \<Rightarrow> (thrown + reform_response) \<Rightarrow> crew_state \<Rightarrow> crew_state" where
  "reformCrew_client ck r s =
     (case r of
        Inl e \<Rightarrow> fails_loading ck ''Failed to reform crew'' e s
      | Inr rr \<Rightarrow> let c = rr_crew rr
          in s\<lparr>crews := upsert_map cc_id c (crews s), activeCrew := Some c,
               crewMembers := (case cc_members c of Some ms \<Rightarrow> ms | None \<Rightarrow> []), crewLoading := False,
               cachedAt := Some (ck_now ck), cachedCrewId := Some (cc_id c)\<rparr>)"

definition deleteCrew_client :: "clock \<Rightarrow> string \<Rightarrow> thrown option \<Rightarrow> crew_state \<Rightarrow> crew_state" where
  "deleteCrew_client ck crewId r s =
     (case r of Some e \<Rightarrow> fails ck ''Failed to delete crew'' e s
              | None \<Rightarrow> s\<lparr>crews := remove_key cc_id crewId (crews s),
                          activeCrew := (if is_active crewId s then None else activeCrew s)\<rparr>)"

definition loadOverlap :: "clock \<Rightarrow> (thrown + (string \<times> crew_overlap_row) list) \<Rightarrow> crew_state \<Rightarrow> crew_state" where
  "loadOverlap ck r s =
     (case r of Inl e \<Rightarrow> fails ck ''Failed to load overlap'' e s | Inr o1 \<Rightarrow> s\<lparr>crewOverlap := o1\<rparr>)"

definition forceAddMember :: "clock \<Rightarrow> string \<Rightarrow> (thrown + client_crew) \<Rightarrow> crew_state \<Rightarrow> crew_state" where
  "forceAddMember ck crewId r s =
     (case r of
        Inl e \<Rightarrow> fails ck ''Failed to add member'' e s
      | Inr c \<Rightarrow> (merge_crew crewId (\<lambda>_. c) s)
                   \<lparr>crewMembers := (case cc_members c of Some ms \<Rightarrow> ms | None \<Rightarrow> crewMembers s)\<rparr>)"

end
