(* ===== verification/Crew_Client_Boards.thy ===== *)
theory Crew_Client_Boards
  imports Crew_Client
begin

text \<open>
  The boards of the client's crew store (\<open>crewStore.ts\<close>): polls, meeting points, packing list,
  rides, member status, expenses and activity; the setters driven by socket events; the
  reconciler of offline creates; and what is persisted.  See \<open>Crew_Client\<close> for the conventions.
\<close>

subsection \<open>Polls\<close>

text \<open>The filter of \<open>loadPolls\<close>: an entry with a user and a numeric option.\<close>

definition real_vote :: "poll_vote \<Rightarrow> bool" where
  "real_vote v \<longleftrightarrow> pv_user_id v \<noteq> None \<and> pv_user_id v \<noteq> Some [] \<and> pv_option v \<noteq> None"

definition votes_of :: "crew_poll \<Rightarrow> poll_vote list" where
  "votes_of p = (case po_votes p of Some vs \<Rightarrow> vs | None \<Rightarrow> [])"

definition loadPolls :: "clock \<Rightarrow> (thrown + crew_poll listing) \<Rightarrow> crew_state \<Rightarrow> crew_state" where
  "loadPolls ck r s =
     (case r of
        Inl e \<Rightarrow> fails ck ''Failed to load polls'' e s
      | Inr res \<Rightarrow> s\<lparr>polls := dropOptimistic po_optimistic
            (map (\<lambda>p. p\<lparr>po_votes := Some (filter real_vote (votes_of p))\<rparr>) (listing_items res))\<rparr>)"

definition local_set_refs :: "poll_set_ref option list option \<Rightarrow> poll_set_ref option list option" where
  "local_set_refs setRefs = (case setRefs of Some rs \<Rightarrow> if list_ex (\<lambda>r. r \<noteq> None) rs then Some rs else None | None \<Rightarrow> None)"

definition optimistic_poll ::
  "clock \<Rightarrow> string \<Rightarrow> create_poll \<Rightarrow> poll_set_ref option list option \<Rightarrow> string \<Rightarrow> crew_poll" where
  "optimistic_poll ck crewId q refs i =
     \<lparr>po_id = i, po_crew_id = crewId, po_created_by = [], po_question = pq_question q, po_options = pq_options q,
      po_votes = Some [], po_closes_at = pq_closesAt q, po_closed = False, po_created_at = ck_iso ck,
      po_optimistic = True, po_setRefs = refs\<rparr>"

definition createPoll ::
  "clock \<Rightarrow> string \<Rightarrow> create_poll \<Rightarrow> poll_set_ref option list option \<Rightarrow> crew_poll reply \<Rightarrow> crew_state \<Rightarrow> crew_state" where
  "createPoll ck crewId q setRefs r s =
     (let refs = local_set_refs setRefs
      in case r of
           Failed e \<Rightarrow> fails ck ''Failed to create poll'' e s
         | Queued i \<Rightarrow> s\<lparr>polls := optimistic_poll ck crewId q refs i # polls s\<rparr>
         | Answered p \<Rightarrow>
             s\<lparr>polls := p\<lparr>po_votes := Some (votes_of p),
                           po_setRefs := (case refs of Some rs \<Rightarrow> Some rs | None \<Rightarrow> po_setRefs p)\<rparr> # polls s\<rparr>)"

definition put_vote :: "string \<Rightarrow> string \<Rightarrow> poll_vote list \<Rightarrow> crew_state \<Rightarrow> crew_state" where
  "put_vote pollId userId new s =
     s\<lparr>polls := map_where po_id pollId
        (\<lambda>p. p\<lparr>po_votes := Some (filter (\<lambda>v. pv_user_id v \<noteq> Some userId) (votes_of p) @ new)\<rparr>) (polls s)\<rparr>"

text \<open>My vote before this action: a truthy user id, the first poll with the id, my first vote in it.\<close>

definition my_user :: "string option \<Rightarrow> string option" where
  "my_user u = (if u = Some [] then None else u)"

definition prev_vote :: "string option \<Rightarrow> string \<Rightarrow> crew_state \<Rightarrow> poll_vote option" where
  "prev_vote me pollId s =
     (case me of
        None \<Rightarrow> None
      | Some u \<Rightarrow> (case lookup_key po_id (polls s) pollId of
            None \<Rightarrow> None | Some p \<Rightarrow> find (\<lambda>v. pv_user_id v = Some u) (votes_of p)))"

definition votePoll_begin :: "string option \<Rightarrow> string \<Rightarrow> int \<Rightarrow> crew_state \<Rightarrow> crew_state" where
  "votePoll_begin me pollId optionIndex s =
     (case me of
        None \<Rightarrow> begin_action s
      | Some u \<Rightarrow> put_vote pollId u [\<lparr>pv_option = Some optionIndex, pv_user_id = Some u\<rparr>] (begin_action s))"

definition votePoll_rejected ::
  "clock \<Rightarrow> string option \<Rightarrow> string \<Rightarrow> poll_vote option \<Rightarrow> thrown \<Rightarrow> crew_state \<Rightarrow> crew_state" where
  "votePoll_rejected ck me pollId prev e s =
     fails ck ''Failed to vote'' e
       (case me of None \<Rightarrow> s | Some u \<Rightarrow> put_vote pollId u (case prev of Some v \<Rightarrow> [v] | None \<Rightarrow> []) s)"

text \<open>An accepted vote refetches: \<open>loadPolls\<close> clears the error, and its own failure is swallowed.\<close>

definition votePoll_refetched :: "clock \<Rightarrow> (thrown + crew_poll listing) \<Rightarrow> crew_state \<Rightarrow> crew_state" where
  "votePoll_refetched ck r s = loadPolls ck r s"

subsection \<open>Closing a poll\<close>

definition count_vote :: "nat list \<Rightarrow> poll_vote \<Rightarrow> nat list" where
  "count_vote counts v =
     (case pv_option v of
        None \<Rightarrow> counts
      | Some i \<Rightarrow> if 0 \<le> i \<and> i < int (length counts) then counts[nat i := counts ! nat i + 1] else counts)"

definition tally :: "crew_poll \<Rightarrow> nat list" where
  "tally p = foldl count_vote (replicate (length (po_options p)) 0) (votes_of p)"

fun winning_index :: "nat \<Rightarrow> nat \<Rightarrow> nat option \<Rightarrow> nat list \<Rightarrow> nat option" where
  "winning_index i best winner [] = winner"
| "winning_index i best winner (c # cs) =
     (if best < c then winning_index (Suc i) c (Some i) cs else winning_index (Suc i) best winner cs)"

definition resolveWinningSetRef :: "crew_poll \<Rightarrow> poll_set_ref option" where
  "resolveWinningSetRef p =
     (case po_setRefs p of
        None \<Rightarrow> None
      | Some refs \<Rightarrow>
          if refs = [] then None
          else (case winning_index 0 0 None (tally p) of
              None \<Rightarrow> None
            | Some w \<Rightarrow> if w < length refs then refs ! w else None))"

definition closePoll :: "clock \<Rightarrow> string \<Rightarrow> thrown option \<Rightarrow> crew_state \<Rightarrow> crew_state" where
  "closePoll ck pollId r s =
     (case r of Some e \<Rightarrow> fails ck ''Failed to close poll'' e s
              | None \<Rightarrow> s\<lparr>polls := remove_key po_id pollId (polls s)\<rparr>)"

text \<open>What a successful close goes on to request: the meeting point, then the reminder.\<close>

definition winner_of :: "string \<Rightarrow> crew_state \<Rightarrow> poll_set_ref option" where
  "winner_of pollId s = Option.bind (lookup_key po_id (polls s) pollId) resolveWinningSetRef"

definition winner_meeting_point :: "poll_set_ref \<Rightarrow> create_meeting_point" where
  "winner_meeting_point ref =
     \<lparr>mq_label = ps_label ref, mq_location = (case ps_stageReference ref of Some l \<Rightarrow> l | None \<Rightarrow> []),
      mq_type = Some ''set'', mq_meetAt = ps_meetAt ref, mq_stageReference = ps_stageReference ref,
      mq_latitude = None, mq_longitude = None, mq_recursDaily = None\<rparr>"

subsection \<open>Meeting points\<close>

definition loadMeetingPoints :: "clock \<Rightarrow> (thrown + meeting_point listing) \<Rightarrow> crew_state \<Rightarrow> crew_state" where
  "loadMeetingPoints ck r s =
     (case r of Inl e \<Rightarrow> fails ck ''Failed to load meeting points'' e s
              | Inr res \<Rightarrow> s\<lparr>meetingPoints := dropOptimistic mp_optimistic (listing_items res)\<rparr>)"

definition optimistic_point :: "clock \<Rightarrow> string \<Rightarrow> create_meeting_point \<Rightarrow> string \<Rightarrow> meeting_point" where
  "optimistic_point ck crewId q i =
     \<lparr>mp_id = i, mp_crew_id = crewId, mp_created_by = [], mp_label = mq_label q, mp_location = mq_location q,
      mp_type = (case mq_type q of Some t \<Rightarrow> t | None \<Rightarrow> ''custom''), mp_meet_at = mq_meetAt q,
      mp_stage_reference = mq_stageReference q, mp_latitude = mq_latitude q, mp_longitude = mq_longitude q,
      mp_recurs_daily = (mq_recursDaily q = Some True), mp_expires_at = None, mp_updated_at = None,
      mp_creator_name = None, mp_active = True, mp_created_at = ck_iso ck, mp_optimistic = True\<rparr>"

definition createMeetingPoint ::
  "clock \<Rightarrow> string \<Rightarrow> create_meeting_point \<Rightarrow> meeting_point reply \<Rightarrow> crew_state \<Rightarrow> crew_state" where
  "createMeetingPoint ck crewId q r s =
     (case r of
        Failed e \<Rightarrow> fails ck ''Failed to add meeting point'' e s
      | Queued i \<Rightarrow> s\<lparr>meetingPoints := optimistic_point ck crewId q i # meetingPoints s\<rparr>
      | Answered m \<Rightarrow> s\<lparr>meetingPoints := m # meetingPoints s\<rparr>)"

definition merge_point :: "update_meeting_point \<Rightarrow> meeting_point \<Rightarrow> meeting_point" where
  "merge_point u m =
     m\<lparr>mp_label := spread (um_label u) (mp_label m), mp_location := spread (um_location u) (mp_location m),
       mp_type := spread (um_type u) (mp_type m), mp_meet_at := spread (um_meetAt u) (mp_meet_at m),
       mp_stage_reference := spread (um_stageReference u) (mp_stage_reference m),
       mp_latitude := spread (um_latitude u) (mp_latitude m), mp_longitude := spread (um_longitude u) (mp_longitude m),
       mp_recurs_daily := spread (um_recursDaily u) (mp_recurs_daily m)\<rparr>"

definition updateMeetingPoint ::
  "clock \<Rightarrow> string \<Rightarrow> update_meeting_point \<Rightarrow> meeting_point reply \<Rightarrow> crew_state \<Rightarrow> crew_state" where
  "updateMeetingPoint ck mpId u r s =
     (case r of
        Failed e \<Rightarrow> fails ck ''Failed to update meeting point'' e s
      | Queued _ \<Rightarrow> s\<lparr>meetingPoints := map_where mp_id mpId (merge_point u) (meetingPoints s)\<rparr>
      | Answered m \<Rightarrow> s\<lparr>meetingPoints := map_where mp_id mpId (\<lambda>_. m) (meetingPoints s)\<rparr>)"

definition deleteMeetingPoint :: "clock \<Rightarrow> string \<Rightarrow> thrown option \<Rightarrow> crew_state \<Rightarrow> crew_state" where
  "deleteMeetingPoint ck mpId r s =
     (case r of Some e \<Rightarrow> fails ck ''Failed to remove meeting point'' e s
              | None \<Rightarrow> s\<lparr>meetingPoints := remove_key mp_id mpId (meetingPoints s)\<rparr>)"

subsection \<open>Packing list\<close>

definition loadPacking :: "clock \<Rightarrow> (thrown + packing_item listing) \<Rightarrow> crew_state \<Rightarrow> crew_state" where
  "loadPacking ck r s =
     (case r of Inl e \<Rightarrow> fails ck ''Failed to load packing list'' e s
              | Inr res \<Rightarrow> s\<lparr>packingItems := dropOptimistic pk_optimistic (listing_items res)\<rparr>)"

definition optimistic_item :: "clock \<Rightarrow> string \<Rightarrow> create_packing_item \<Rightarrow> string \<Rightarrow> packing_item" where
  "optimistic_item ck crewId q i =
     \<lparr>pk_id = i, pk_crew_id = crewId, pk_created_by = [], pk_label = kq_label q, pk_brought_by = kq_broughtBy q,
      pk_claimed = (kq_claimed q = Some True), pk_created_at = ck_iso ck, pk_optimistic = True\<rparr>"

definition createPackingItem ::
  "clock \<Rightarrow> string \<Rightarrow> create_packing_item \<Rightarrow> packing_item reply \<Rightarrow> crew_state \<Rightarrow> crew_state" where
  "createPackingItem ck crewId q r s =
     (case r of
        Failed e \<Rightarrow> fails ck ''Failed to add packing item'' e s
      | Queued i \<Rightarrow> s\<lparr>packingItems := optimistic_item ck crewId q i # packingItems s\<rparr>
      | Answered x \<Rightarrow> s\<lparr>packingItems := x # packingItems s\<rparr>)"

definition merge_item :: "update_packing_item \<Rightarrow> packing_item \<Rightarrow> packing_item" where
  "merge_item u x =
     x\<lparr>pk_label := spread (ku_label u) (pk_label x), pk_brought_by := spread (ku_broughtBy u) (pk_brought_by x),
       pk_claimed := spread (ku_claimed u) (pk_claimed x)\<rparr>"

definition updatePackingItem ::
  "clock \<Rightarrow> string \<Rightarrow> update_packing_item \<Rightarrow> packing_item reply \<Rightarrow> crew_state \<Rightarrow> crew_state" where
  "updatePackingItem ck itemId u r s =
     (case r of
        Failed e \<Rightarrow> fails ck ''Failed to update packing item'' e s
      | Queued _ \<Rightarrow> s\<lparr>packingItems := map_where pk_id itemId (merge_item u) (packingItems s)\<rparr>
      | Answered x \<Rightarrow> s\<lparr>packingItems := map_where pk_id itemId (\<lambda>_. x) (packingItems s)\<rparr>)"

definition deletePackingItem :: "clock \<Rightarrow> string \<Rightarrow> thrown option \<Rightarrow> crew_state \<Rightarrow> crew_state" where
  "deletePackingItem ck itemId r s =
     (case r of Some e \<Rightarrow> fails ck ''Failed to remove packing item'' e s
              | None \<Rightarrow> s\<lparr>packingItems := remove_key pk_id itemId (packingItems s)\<rparr>)"

subsection \<open>Ride board\<close>

definition loadRides :: "clock \<Rightarrow> (thrown + ride_offer listing) \<Rightarrow> crew_state \<Rightarrow> crew_state" where
  "loadRides ck r s =
     (case r of Inl e \<Rightarrow> fails ck ''Failed to load ride board'' e s
              | Inr res \<Rightarrow> s\<lparr>rideOffers := dropOptimistic ro_optimistic (listing_items res)\<rparr>)"

definition optimistic_offer :: "clock \<Rightarrow> string \<Rightarrow> create_ride_offer \<Rightarrow> string \<Rightarrow> ride_offer" where
  "optimistic_offer ck crewId q i =
     \<lparr>ro_id = i, ro_crew_id = crewId, ro_created_by = [], ro_driver = rf_driver q, ro_seats = rf_seats q,
      ro_depart_from = rf_departFrom q, ro_depart_at = rf_departAt q, ro_note = rf_note q,
      ro_created_at = ck_iso ck, ro_optimistic = True\<rparr>"

definition createRideOffer ::
  "clock \<Rightarrow> string \<Rightarrow> create_ride_offer \<Rightarrow> ride_offer reply \<Rightarrow> crew_state \<Rightarrow> crew_state" where
  "createRideOffer ck crewId q r s =
     (case r of
        Failed e \<Rightarrow> fails ck ''Failed to add ride offer'' e s
      | Queued i \<Rightarrow> s\<lparr>rideOffers := optimistic_offer ck crewId q i # rideOffers s\<rparr>
      | Answered x \<Rightarrow> s\<lparr>rideOffers := x # rideOffers s\<rparr>)"

definition merge_offer :: "update_ride_offer \<Rightarrow> ride_offer \<Rightarrow> ride_offer" where
  "merge_offer u x =
     x\<lparr>ro_driver := spread (ru_driver u) (ro_driver x), ro_seats := spread (ru_seats u) (ro_seats x),
       ro_depart_from := spread (ru_departFrom u) (ro_depart_from x),
       ro_depart_at := spread (ru_departAt u) (ro_depart_at x), ro_note := spread (ru_note u) (ro_note x)\<rparr>"

definition updateRideOffer ::
  "clock \<Rightarrow> string \<Rightarrow> update_ride_offer \<Rightarrow> ride_offer reply \<Rightarrow> crew_state \<Rightarrow> crew_state" where
  "updateRideOffer ck offerId u r s =
     (case r of
        Failed e \<Rightarrow> fails ck ''Failed to update ride offer'' e s
      | Queued _ \<Rightarrow> s\<lparr>rideOffers := map_where ro_id offerId (merge_offer u) (rideOffers s)\<rparr>
      | Answered x \<Rightarrow> s\<lparr>rideOffers := map_where ro_id offerId (\<lambda>_. x) (rideOffers s)\<rparr>)"

definition deleteRideOffer :: "clock \<Rightarrow> string \<Rightarrow> thrown option \<Rightarrow> crew_state \<Rightarrow> crew_state" where
  "deleteRideOffer ck offerId r s =
     (case r of Some e \<Rightarrow> fails ck ''Failed to remove ride offer'' e s
              | None \<Rightarrow> s\<lparr>rideOffers := remove_key ro_id offerId (rideOffers s)\<rparr>)"

end
