(* ===== verification/Crew_Client_Live.thy ===== *)
theory Crew_Client_Live
  imports Crew_Client_Boards
begin

text \<open>
  The rest of the client's crew store (\<open>crewStore.ts\<close>): member status with its optimistic update,
  expenses and activity, home base and photo album, the setters driven by socket events, the
  reconciler of offline creates and the persisted read cache.
\<close>

subsection \<open>Member status\<close>

definition loadStatuses :: "clock \<Rightarrow> (thrown + member_status listing) \<Rightarrow> crew_state \<Rightarrow> crew_state" where
  "loadStatuses ck r s =
     (case r of Inl e \<Rightarrow> fails ck ''Failed to load crew status'' e s
              | Inr res \<Rightarrow> s\<lparr>crewStatuses := dropOptimistic ms_optimistic (listing_items res)\<rparr>)"

definition my_status :: "string \<Rightarrow> crew_state \<Rightarrow> member_status option" where
  "my_status u s = lookup_key ms_user_id (crewStatuses s) u"

definition merged_status :: "clock \<Rightarrow> string \<Rightarrow> update_status \<Rightarrow> string \<Rightarrow> member_status option \<Rightarrow> member_status" where
  "merged_status ck crewId q u mine =
     \<lparr>ms_crew_id = crewId, ms_user_id = u, ms_status = spread (su_status q) None, ms_target = spread (su_target q) None,
      ms_eta_minutes = spread (su_eta_minutes q) None, ms_note = spread (su_note q) None,
      ms_latitude = (case position_of q of Some pos \<Rightarrow> Some (sq_lat pos) | None \<Rightarrow> Option.bind mine ms_latitude),
      ms_longitude = (case position_of q of Some pos \<Rightarrow> Some (sq_lng pos) | None \<Rightarrow> Option.bind mine ms_longitude),
      ms_location_captured_at =
        (case position_of q of Some pos \<Rightarrow> Some (spread (sq_capturedAt pos) (ck_iso ck))
         | None \<Rightarrow> Option.bind mine ms_location_captured_at),
      ms_updated_at = ck_iso ck, ms_username = Option.bind mine ms_username, ms_name = Option.bind mine ms_name,
      ms_avatar_key = Option.bind mine ms_avatar_key, ms_avatar_version = Option.bind mine ms_avatar_version,
      ms_optimistic = True\<rparr>"

definition put_status :: "string \<Rightarrow> member_status list \<Rightarrow> crew_state \<Rightarrow> crew_state" where
  "put_status u new s = s\<lparr>crewStatuses := new @ remove_key ms_user_id u (crewStatuses s)\<rparr>"

definition updateMyStatus_begin :: "clock \<Rightarrow> string \<Rightarrow> update_status \<Rightarrow> string \<Rightarrow> crew_state \<Rightarrow> crew_state" where
  "updateMyStatus_begin ck crewId q u s =
     put_status u [merged_status ck crewId q u (my_status u s)] (begin_action s)"

text \<open>\<open>prev\<close> is \<open>prevMine\<close>, captured in the updater of the first part.\<close>

definition updateMyStatus ::
  "clock \<Rightarrow> string \<Rightarrow> member_status option \<Rightarrow> member_status option reply \<Rightarrow> crew_state \<Rightarrow> crew_state" where
  "updateMyStatus ck u prev r s =
     (case r of
        Queued _ \<Rightarrow> s
      | Answered None \<Rightarrow> s
      | Answered (Some st) \<Rightarrow> put_status (ms_user_id st) [st\<lparr>ms_optimistic := False\<rparr>] s
      | Failed e \<Rightarrow>
          fails ck ''Failed to update status'' e (put_status u (case prev of Some m \<Rightarrow> [m] | None \<Rightarrow> []) s))"

subsection \<open>Expenses and activity\<close>

definition loadBalances ::
  "(thrown + expense_balance list option \<times> client_settlement list option) \<Rightarrow> crew_state \<Rightarrow> thrown option \<times> crew_state" where
  "loadBalances r s =
     (case r of
        Inl e \<Rightarrow> (Some e, s)
      | Inr (bs, ts) \<Rightarrow> (None, s\<lparr>expenseBalances := spread bs [], settlements := spread ts []\<rparr>))"

definition loadExpenses_list :: "client_expense listing \<Rightarrow> crew_state \<Rightarrow> crew_state" where
  "loadExpenses_list res s = s\<lparr>expenses := dropOptimistic ce_optimistic (listing_items res)\<rparr>"

text \<open>The two requests of \<open>loadExpenses\<close> with nothing in between; the flag tells whether it rejects.\<close>

definition loadExpenses ::
  "clock \<Rightarrow> (thrown + client_expense listing) \<Rightarrow> (thrown + expense_balance list option \<times> client_settlement list option)
     \<Rightarrow> crew_state \<Rightarrow> bool \<times> crew_state" where
  "loadExpenses ck r b s =
     (case r of
        Inl e \<Rightarrow> (True, fails ck ''Failed to load expenses'' e s)
      | Inr res \<Rightarrow> (case loadBalances b (loadExpenses_list res s) of
            (Some e, s1) \<Rightarrow> (True, fails ck ''Failed to load expenses'' e s1)
          | (None, s1) \<Rightarrow> (False, s1)))"

definition optimistic_expense :: "clock \<Rightarrow> string \<Rightarrow> create_client_expense \<Rightarrow> string \<Rightarrow> client_expense" where
  "optimistic_expense ck crewId q i =
     \<lparr>ce_id = i, ce_crew_id = crewId, ce_paid_by = [], ce_paid_by_name = [], ce_description = xq_description q,
      ce_amount = AmountNumber (xq_amount q), ce_split_with = xq_splitWith q, ce_category = xq_category q,
      ce_planned = (xq_planned q = Some True), ce_created_at = ck_iso ck, ce_optimistic = True\<rparr>"

text \<open>\<open>addExpense\<close>: offline the placeholder; online the refetch, whose rejection is the action's.\<close>

definition addExpense ::
  "clock \<Rightarrow> string \<Rightarrow> create_client_expense \<Rightarrow> unit reply \<Rightarrow> (thrown + client_expense listing)
     \<Rightarrow> (thrown + expense_balance list option \<times> client_settlement list option) \<Rightarrow> crew_state \<Rightarrow> crew_state" where
  "addExpense ck crewId q r lr lb s =
     (case r of
        Failed e \<Rightarrow> fails ck ''Failed to add expense'' e s
      | Queued i \<Rightarrow> s\<lparr>expenses := optimistic_expense ck crewId q i # expenses s\<rparr>
      | Answered _ \<Rightarrow>
          (case lr of
             Inl e \<Rightarrow> fails ck ''Failed to add expense'' e s
           | Inr _ \<Rightarrow> (case lb of
               Inl e \<Rightarrow> fails ck ''Failed to add expense'' e (snd (loadExpenses ck lr lb (begin_action s)))
             | Inr _ \<Rightarrow> snd (loadExpenses ck lr lb (begin_action s)))))"

definition removeExpense ::
  "clock \<Rightarrow> string \<Rightarrow> thrown option \<Rightarrow> (thrown + client_expense listing)
     \<Rightarrow> (thrown + expense_balance list option \<times> client_settlement list option) \<Rightarrow> crew_state \<Rightarrow> crew_state" where
  "removeExpense ck expenseId r lr lb s =
     (case r of
        Some e \<Rightarrow> fails ck ''Failed to remove expense'' e s
      | None \<Rightarrow> snd (loadExpenses ck lr lb (begin_action (s\<lparr>expenses := remove_key ce_id expenseId (expenses s)\<rparr>))))"

definition settleExpense ::
  "clock \<Rightarrow> thrown option \<Rightarrow> (thrown + client_expense listing)
     \<Rightarrow> (thrown + expense_balance list option \<times> client_settlement list option) \<Rightarrow> crew_state \<Rightarrow> crew_state" where
  "settleExpense ck r lr lb s =
     (case r of Some e \<Rightarrow> fails ck ''Failed to settle up'' e s
              | None \<Rightarrow> snd (loadExpenses ck lr lb (begin_action s)))"

definition loadActivity :: "clock \<Rightarrow> (thrown + activity_entry listing) \<Rightarrow> crew_state \<Rightarrow> crew_state" where
  "loadActivity ck r s =
     (case r of Inl e \<Rightarrow> fails ck ''Failed to load activity'' e s
              | Inr res \<Rightarrow> s\<lparr>activity := listing_items res\<rparr>)"

subsection \<open>Home base and photo album\<close>

text \<open>Queued, the home base has the synthetic result without a \<open>crew\<close>: \<open>...undefined\<close> adds nothing.\<close>

definition updateHomeBase_client :: "clock \<Rightarrow> string \<Rightarrow> crew_patch reply \<Rightarrow> crew_state \<Rightarrow> crew_state" where
  "updateHomeBase_client ck crewId r s =
     (case r of Failed e \<Rightarrow> fails ck ''Failed to update home base'' e s
              | Queued _ \<Rightarrow> merge_crew crewId (\<lambda>c. c) s
              | Answered p \<Rightarrow> merge_crew crewId (spread_crew p) s)"

definition updatePhotoAlbum_client :: "clock \<Rightarrow> string \<Rightarrow> (thrown + crew_patch) \<Rightarrow> crew_state \<Rightarrow> crew_state" where
  "updatePhotoAlbum_client ck crewId r s =
     (case r of Inl e \<Rightarrow> fails ck ''Failed to update photo album'' e s
              | Inr p \<Rightarrow> merge_crew crewId (spread_crew p) s)"

subsection \<open>Socket events\<close>

definition applyPhotoAlbumUpdate :: "string \<Rightarrow> string option \<Rightarrow> crew_state \<Rightarrow> crew_state" where
  "applyPhotoAlbumUpdate crewId url s = merge_crew crewId (\<lambda>c. c\<lparr>cc_photoAlbumUrl := url\<rparr>) s"

definition applyHomeBaseUpdate :: "string \<Rightarrow> string option \<Rightarrow> string option \<Rightarrow> crew_state \<Rightarrow> crew_state" where
  "applyHomeBaseUpdate crewId location time s =
     merge_crew crewId (\<lambda>c. c\<lparr>cc_homeBaseLocation := location, cc_homeBaseTime := time\<rparr>) s"

definition applyMeetingPointUpsert :: "meeting_point \<Rightarrow> crew_state \<Rightarrow> crew_state" where
  "applyMeetingPointUpsert m s =
     s\<lparr>meetingPoints := (if mp_id m \<in> mp_id ` set (meetingPoints s) then map_where mp_id (mp_id m) (\<lambda>_. m) (meetingPoints s)
                         else m # meetingPoints s)\<rparr>"

definition applyMeetingPointRemoval :: "string \<Rightarrow> crew_state \<Rightarrow> crew_state" where
  "applyMeetingPointRemoval i s = s\<lparr>meetingPoints := remove_key mp_id i (meetingPoints s)\<rparr>"

definition applyPollCreated :: "crew_poll \<Rightarrow> crew_state \<Rightarrow> crew_state" where
  "applyPollCreated p s =
     (if po_id p \<in> po_id ` set (polls s) then s else s\<lparr>polls := p\<lparr>po_votes := Some (votes_of p)\<rparr> # polls s\<rparr>)"

definition applyPollVote :: "string \<Rightarrow> string \<Rightarrow> int \<Rightarrow> crew_state \<Rightarrow> crew_state" where
  "applyPollVote pollId userId i s = put_vote pollId userId [\<lparr>pv_option = Some i, pv_user_id = Some userId\<rparr>] s"

definition applyPollClosed :: "string \<Rightarrow> crew_state \<Rightarrow> crew_state" where
  "applyPollClosed pollId s = s\<lparr>polls := remove_key po_id pollId (polls s)\<rparr>"

definition older :: "(string \<Rightarrow> int option) \<Rightarrow> member_status \<Rightarrow> member_status \<Rightarrow> bool" where
  "older dateParse a b =
     (case (dateParse (ms_updated_at a), dateParse (ms_updated_at b)) of (Some x, Some y) \<Rightarrow> x < y | _ \<Rightarrow> False)"

definition applyStatusUpdate :: "(string \<Rightarrow> int option) \<Rightarrow> member_status \<Rightarrow> crew_state \<Rightarrow> crew_state" where
  "applyStatusUpdate dateParse st s =
     (case my_status (ms_user_id st) s of
        Some existing \<Rightarrow> if older dateParse st existing then s else put_status (ms_user_id st) [st\<lparr>ms_optimistic := False\<rparr>] s
      | None \<Rightarrow> put_status (ms_user_id st) [st\<lparr>ms_optimistic := False\<rparr>] s)"

definition setError :: "string option \<Rightarrow> crew_state \<Rightarrow> crew_state" where
  "setError e s = s\<lparr>storeError := e\<rparr>"

subsection \<open>Reconciling offline creates\<close>

text \<open>
  What the response of a replayed POST is where the reconciler looks for an entity: null or
  undefined, a value without a string id, or an entity.  \<open>(res?.poll ?? res)\<close> reads the
  envelope first and the response itself otherwise.
\<close>

datatype 'a found = Nothing | NoId | Entity 'a

record 'a body =
  bd_envelope :: "'a found"
  bd_itself :: "'a found"

definition entity_of :: "'a body \<Rightarrow> 'a option" where
  "entity_of b =
     (case bd_envelope b of
        Entity x \<Rightarrow> Some x | NoId \<Rightarrow> None
      | Nothing \<Rightarrow> (case bd_itself b of Entity x \<Rightarrow> Some x | _ \<Rightarrow> None))"

text \<open>Swap the placeholder \<open>temp\<close> for \<open>ent\<close>, at the front of the list or, for crews, at its end.\<close>

definition reconcile_front :: "('a \<Rightarrow> string) \<Rightarrow> string \<Rightarrow> 'a option \<Rightarrow> 'a list \<Rightarrow> 'a list" where
  "reconcile_front key temp ent xs =
     (if temp \<notin> key ` set xs then xs
      else let withoutTemp = remove_key key temp xs
           in case ent of None \<Rightarrow> withoutTemp
                | Some r \<Rightarrow> if key r \<in> key ` set withoutTemp then withoutTemp else r # withoutTemp)"

definition reconcile_back :: "('a \<Rightarrow> string) \<Rightarrow> string \<Rightarrow> 'a option \<Rightarrow> 'a list \<Rightarrow> 'a list" where
  "reconcile_back key temp ent xs =
     (if temp \<notin> key ` set xs then xs
      else let withoutTemp = remove_key key temp xs
           in case ent of None \<Rightarrow> withoutTemp
                | Some r \<Rightarrow> if key r \<in> key ` set withoutTemp then withoutTemp else withoutTemp @ [r])"

definition reconcile_crew :: "string \<Rightarrow> client_crew body \<Rightarrow> crew_state \<Rightarrow> crew_state" where
  "reconcile_crew i b s =
     s\<lparr>crews := reconcile_back cc_id i (map_option (\<lambda>c. c\<lparr>cc_optimistic := False\<rparr>) (entity_of b)) (crews s)\<rparr>"

definition real_poll :: "crew_poll option \<Rightarrow> crew_poll \<Rightarrow> crew_poll" where
  "real_poll temp p =
     p\<lparr>po_votes := Some (votes_of p), po_optimistic := False,
       po_setRefs := (case Option.bind temp po_setRefs of Some rs \<Rightarrow> Some rs | None \<Rightarrow> po_setRefs p)\<rparr>"

definition reconcile_poll :: "string \<Rightarrow> crew_poll body \<Rightarrow> crew_state \<Rightarrow> crew_state" where
  "reconcile_poll i b s =
     s\<lparr>polls := reconcile_front po_id i (map_option (real_poll (lookup_key po_id (polls s) i)) (entity_of b)) (polls s)\<rparr>"

definition reconcile_point :: "string \<Rightarrow> meeting_point body \<Rightarrow> crew_state \<Rightarrow> crew_state" where
  "reconcile_point i b s =
     s\<lparr>meetingPoints := reconcile_front mp_id i (map_option (\<lambda>m. m\<lparr>mp_optimistic := False\<rparr>) (entity_of b)) (meetingPoints s)\<rparr>"

definition reconcile_item :: "string \<Rightarrow> packing_item body \<Rightarrow> crew_state \<Rightarrow> crew_state" where
  "reconcile_item i b s =
     s\<lparr>packingItems := reconcile_front pk_id i (map_option (\<lambda>x. x\<lparr>pk_optimistic := False\<rparr>) (entity_of b)) (packingItems s)\<rparr>"

definition reconcile_offer :: "string \<Rightarrow> ride_offer body \<Rightarrow> crew_state \<Rightarrow> crew_state" where
  "reconcile_offer i b s =
     s\<lparr>rideOffers := reconcile_front ro_id i (map_option (\<lambda>x. x\<lparr>ro_optimistic := False\<rparr>) (entity_of b)) (rideOffers s)\<rparr>"

definition reconcile_expense :: "string \<Rightarrow> crew_state \<Rightarrow> crew_state" where
  "reconcile_expense i s = s\<lparr>expenses := remove_key ce_id i (expenses s)\<rparr>"

text \<open>The response as each branch reads it.\<close>

record create_response =
  cr_crew :: "client_crew body"
  cr_poll :: "crew_poll body"
  cr_point :: "meeting_point body"
  cr_item :: "packing_item body"
  cr_offer :: "ride_offer body"

definition reconcile_create :: "string \<Rightarrow> create_response \<Rightarrow> crew_state \<Rightarrow> crew_state" where
  "reconcile_create i res s =
     (if str_includes i ''/crews/join'' then reconcile_crew i (cr_crew res) s
      else if str_includes i ''/polls'' then reconcile_poll i (cr_poll res) s
      else if str_includes i ''/meeting-points'' then reconcile_point i (cr_point res) s
      else if str_includes i ''/packing'' then reconcile_item i (cr_item res) s
      else if str_includes i ''/rides'' then reconcile_offer i (cr_offer res) s
      else if str_includes i ''/expenses'' then reconcile_expense i s
      else s)"

subsection \<open>The persisted read cache\<close>

record crew_blob =
  kb_crews :: "client_crew list"
  kb_activeCrew :: "client_crew option"
  kb_crewMembers :: "client_member list"
  kb_meetingPoints :: "meeting_point list"
  kb_polls :: "crew_poll list"
  kb_packingItems :: "packing_item list"
  kb_rideOffers :: "ride_offer list"
  kb_crewStatuses :: "member_status list option"
  kb_expenses :: "client_expense list"
  kb_expenseBalances :: "expense_balance list"
  kb_settlements :: "client_settlement list"
  kb_activity :: "activity_entry list"
  kb_cachedAt :: "int option"
  kb_cachedCrewId :: "string option"

definition MAX_CACHED_ACTIVITY :: nat where "MAX_CACHED_ACTIVITY = 50"
definition MAX_CACHED_POLLS :: nat where "MAX_CACHED_POLLS = 100"
definition MAX_CACHED_PACKING :: nat where "MAX_CACHED_PACKING = 200"
definition MAX_CACHED_RIDES :: nat where "MAX_CACHED_RIDES = 200"
definition MAX_CACHED_STATUSES :: nat where "MAX_CACHED_STATUSES = 100"
definition MAX_CACHED_EXPENSES :: nat where "MAX_CACHED_EXPENSES = 100"

definition partialize :: "crew_state \<Rightarrow> crew_blob" where
  "partialize s =
     \<lparr>kb_crews = crews s, kb_activeCrew = activeCrew s, kb_crewMembers = crewMembers s,
      kb_meetingPoints = meetingPoints s, kb_polls = take MAX_CACHED_POLLS (polls s),
      kb_packingItems = take MAX_CACHED_PACKING (packingItems s), kb_rideOffers = take MAX_CACHED_RIDES (rideOffers s),
      kb_crewStatuses = Some (take MAX_CACHED_STATUSES (crewStatuses s)),
      kb_expenses = take MAX_CACHED_EXPENSES (expenses s), kb_expenseBalances = expenseBalances s,
      kb_settlements = settlements s, kb_activity = take MAX_CACHED_ACTIVITY (activity s),
      kb_cachedAt = cachedAt s, kb_cachedCrewId = cachedCrewId s\<rparr>"

definition migrate :: "nat \<Rightarrow> crew_blob \<Rightarrow> crew_blob" where
  "migrate version b = (if version < 2 \<and> kb_crewStatuses b = None then b\<lparr>kb_crewStatuses := Some []\<rparr> else b)"

text \<open>
  What the \<open>persist\<close> middleware of zustand does with a stored blob of this version or an older
  one: migrate it unless it has the current version, then merge it over the initial state.  A key
  the blob does not carry keeps its initial value.
\<close>

definition rehydrate :: "nat \<Rightarrow> crew_blob \<Rightarrow> crew_state" where
  "rehydrate version b0 =
     (let b = (if version = 2 then b0 else migrate version b0)
      in crew_initial\<lparr>crews := kb_crews b, activeCrew := kb_activeCrew b, crewMembers := kb_crewMembers b,
           meetingPoints := kb_meetingPoints b, polls := kb_polls b, packingItems := kb_packingItems b,
           rideOffers := kb_rideOffers b, crewStatuses := spread (kb_crewStatuses b) [],
           expenses := kb_expenses b, expenseBalances := kb_expenseBalances b, settlements := kb_settlements b,
           activity := kb_activity b, cachedAt := kb_cachedAt b, cachedCrewId := kb_cachedCrewId b\<rparr>)"

definition selectCrewLastSyncedAt :: "crew_state \<Rightarrow> int option" where
  "selectCrewLastSyncedAt s = cachedAt s"

end
