(* ===== verification/Crew_Client_Sync.thy ===== *)
theory Crew_Client_Sync
  imports Crew_Client_Live
begin

text \<open>
  Correctness of the client's crew store: ids stay unique and an offline create ends as exactly
  one entity; a rejected vote or status is rolled back without touching what other members did
  meanwhile; status updates converge whatever order they arrive in; the crew shown is the last
  one selected; a poll's winner; and the persisted cache.
\<close>

subsection \<open>List operations\<close>

lemma map_where_keys [simp]: "(\<And>x. key x = k \<Longrightarrow> key (f x) = k) \<Longrightarrow> map key (map_where key k f xs) = map key xs"
  by (induction xs) (auto simp: map_where_def)

lemma key_set_map_where [simp]: "(\<And>x. key x = k \<Longrightarrow> key (f x) = k) \<Longrightarrow> key ` set (map_where key k f xs) = key ` set xs"
  by (metis map_where_keys list.set_map)

lemma unique_drop [simp]: "unique_keys key xs \<Longrightarrow> unique_keys key (dropOptimistic opt xs)"
  by (simp add: dropOptimistic_def distinct_map_filter)

lemma reconcile_front_unique:
  "unique_keys key xs \<Longrightarrow> unique_keys key (reconcile_front key temp ent xs)"
  by (auto simp: reconcile_front_def Let_def unique_remove_key split: option.splits)

lemma reconcile_back_unique:
  "unique_keys key xs \<Longrightarrow> unique_keys key (reconcile_back key temp ent xs)"
  by (auto simp: reconcile_back_def Let_def unique_remove_key split: option.splits)

text \<open>Exactly one entity \<open>r\<close> in place of the placeholder, everything else as it was.\<close>

definition swapped :: "('a \<Rightarrow> string) \<Rightarrow> string \<Rightarrow> 'a \<Rightarrow> 'a list \<Rightarrow> 'a list \<Rightarrow> bool" where
  "swapped key temp r xs ys \<longleftrightarrow>
     temp \<notin> key ` set ys \<and> length (filter (\<lambda>y. key y = key r) ys) = 1
     \<and> filter (\<lambda>y. key y \<noteq> temp \<and> key y \<noteq> key r) ys = filter (\<lambda>x. key x \<noteq> temp \<and> key x \<noteq> key r) xs
     \<and> (key r \<notin> key ` set xs \<longrightarrow> r \<in> set ys)"

lemma unique_filter_one: "unique_keys key xs \<Longrightarrow> k \<in> key ` set xs \<Longrightarrow> length (filter (\<lambda>x. key x = k) xs) = 1"
proof (induction xs)
  case (Cons x xs)
  show ?case
  proof (cases "key x = k")
    case True
    with Cons.prems have "filter (\<lambda>x. key x = k) xs = []" by (auto simp: filter_empty_conv image_iff)
    with True show ?thesis by simp
  next
    case False
    with Cons show ?thesis by auto
  qed
qed simp

lemma swap_middle:
  assumes u: "unique_keys key xs" and r: "key r \<noteq> temp"
    and ys: "ys = (if key r \<in> key ` set (remove_key key temp xs) then remove_key key temp xs else pre @ remove_key key temp xs @ post)"
    and pp: "pre @ post = [r]"
  shows "swapped key temp r xs ys"
proof -
  let ?w = "remove_key key temp xs"
  have uw: "unique_keys key ?w" by (rule unique_remove_key [OF u])
  have gone: "temp \<notin> key ` set ?w" by auto
  have same: "filter (\<lambda>y. key y \<noteq> temp \<and> key y \<noteq> key r) ?w = filter (\<lambda>x. key x \<noteq> temp \<and> key x \<noteq> key r) xs"
    unfolding remove_key_def filter_filter by (rule filter_cong) auto
  have in_xs: "key r \<in> key ` set ?w \<longleftrightarrow> key r \<in> key ` set xs" using r by auto
  show ?thesis
  proof (cases "key r \<in> key ` set ?w")
    case True
    then have "length (filter (\<lambda>y. key y = key r) ?w) = 1" by (rule unique_filter_one [OF uw])
    with True gone same in_xs show ?thesis by (simp add: swapped_def ys)
  next
    case False
    then have "filter (\<lambda>y. key y = key r) ?w = []" by (auto simp: filter_empty_conv image_iff)
    moreover from pp have "pre = [r] \<and> post = [] \<or> pre = [] \<and> post = [r]" by (auto simp: append_eq_Cons_conv)
    ultimately show ?thesis using False gone same r by (auto simp: swapped_def ys)
  qed
qed

lemma reconcile_front_swaps:
  "unique_keys key xs \<Longrightarrow> temp \<in> key ` set xs \<Longrightarrow> key r \<noteq> temp \<Longrightarrow>
   swapped key temp r xs (reconcile_front key temp (Some r) xs)"
  by (rule swap_middle [where pre = "[r]" and post = "[]"]) (simp_all add: reconcile_front_def Let_def)

lemma reconcile_back_swaps:
  "unique_keys key xs \<Longrightarrow> temp \<in> key ` set xs \<Longrightarrow> key r \<noteq> temp \<Longrightarrow>
   swapped key temp r xs (reconcile_back key temp (Some r) xs)"
  by (rule swap_middle [where pre = "[]" and post = "[r]"]) (simp_all add: reconcile_back_def Let_def)

text \<open>C11. When the queued create of a poll, meeting point, packing item, ride offer or crew is replayed
  with success, the reconciler leaves exactly one entity with the server's id in the list, no
  placeholder, and everything else as it was, whether or not a socket event or a reload has
  brought the entity already.\<close>

theorem offline_create_reconciled_once:
  assumes "unique_keys po_id (polls s)" and "unique_keys mp_id (meetingPoints s)" and "unique_keys pk_id (packingItems s)"
    and "unique_keys ro_id (rideOffers s)" and "unique_keys cc_id (crews s)"
  shows "(i \<in> po_id ` set (polls s) \<and> entity_of bp = Some p \<and> po_id p \<noteq> i \<longrightarrow>
      swapped po_id i (real_poll (lookup_key po_id (polls s) i) p) (polls s) (polls (reconcile_poll i bp s)))
    \<and> (i \<in> mp_id ` set (meetingPoints s) \<and> entity_of bm = Some m \<and> mp_id m \<noteq> i \<longrightarrow>
      swapped mp_id i (m\<lparr>mp_optimistic := False\<rparr>) (meetingPoints s) (meetingPoints (reconcile_point i bm s)))
    \<and> (i \<in> pk_id ` set (packingItems s) \<and> entity_of bi = Some x \<and> pk_id x \<noteq> i \<longrightarrow>
      swapped pk_id i (x\<lparr>pk_optimistic := False\<rparr>) (packingItems s) (packingItems (reconcile_item i bi s)))
    \<and> (i \<in> ro_id ` set (rideOffers s) \<and> entity_of bo = Some y \<and> ro_id y \<noteq> i \<longrightarrow>
      swapped ro_id i (y\<lparr>ro_optimistic := False\<rparr>) (rideOffers s) (rideOffers (reconcile_offer i bo s)))
    \<and> (i \<in> cc_id ` set (crews s) \<and> entity_of bc = Some c \<and> cc_id c \<noteq> i \<longrightarrow>
      swapped cc_id i (c\<lparr>cc_optimistic := False\<rparr>) (crews s) (crews (reconcile_crew i bc s)))"
  using reconcile_front_swaps [OF assms(1), of i "real_poll (lookup_key po_id (polls s) i) p"]
    reconcile_front_swaps [OF assms(2), of i "m\<lparr>mp_optimistic := False\<rparr>"]
    reconcile_front_swaps [OF assms(3), of i "x\<lparr>pk_optimistic := False\<rparr>"]
    reconcile_front_swaps [OF assms(4), of i "y\<lparr>ro_optimistic := False\<rparr>"]
    reconcile_back_swaps [OF assms(5), of i "c\<lparr>cc_optimistic := False\<rparr>"]
  by (simp add: reconcile_poll_def reconcile_point_def reconcile_item_def reconcile_offer_def reconcile_crew_def real_poll_def)

definition ex_clock :: clock where
  "ex_clock = \<lparr>ck_parse = (\<lambda>_. None), ck_now = 0, ck_iso = ''now''\<rparr>"

definition ex_point_request :: create_meeting_point where
  "ex_point_request = \<lparr>mq_label = ''tree'', mq_location = ''north'', mq_type = None, mq_meetAt = None, mq_stageReference = None,
     mq_latitude = None, mq_longitude = None, mq_recursDaily = None\<rparr>"

definition ex_point :: "string \<Rightarrow> meeting_point" where
  "ex_point i = (optimistic_point ex_clock ''c'' ex_point_request i)\<lparr>mp_optimistic := False\<rparr>"

definition ex_offline :: crew_state where
  "ex_offline = createMeetingPoint ex_clock ''c'' ex_point_request (Queued ''temp'')
     (crew_initial\<lparr>meetingPoints := [ex_point ''mp-1'']\<rparr>)"

lemma offline_create_reconciled_once_witness:
  "swapped mp_id ''temp'' (ex_point ''mp-2'') (meetingPoints ex_offline)
     (meetingPoints (reconcile_point ''temp'' \<lparr>bd_envelope = Entity (ex_point ''mp-2''), bd_itself = NoId\<rparr> ex_offline))"
proof -
  have s: "polls ex_offline = []" "packingItems ex_offline = []" "rideOffers ex_offline = []" "crews ex_offline = []"
    "map mp_id (meetingPoints ex_offline) = [''temp'', ''mp-1'']"
    by (simp_all add: ex_offline_def createMeetingPoint_def crew_initial_def ex_point_def optimistic_point_def)
  have set_ids: "mp_id ` set (meetingPoints ex_offline) = {''temp'', ''mp-1''}"
    using s(5) by (metis list.set_map list.simps(15) empty_set)
  have p: "(ex_point ''mp-2'')\<lparr>mp_optimistic := False\<rparr> = ex_point ''mp-2''" "mp_id (ex_point ''mp-2'') \<noteq> ''temp''"
    by (simp_all add: ex_point_def optimistic_point_def)
  show ?thesis
    using offline_create_reconciled_once [of ex_offline "''temp''" _ _ "\<lparr>bd_envelope = Entity (ex_point ''mp-2''), bd_itself = NoId\<rparr>"
        "ex_point ''mp-2''"] p set_ids
    by (simp add: s entity_of_def)
qed

subsection \<open>Ids stay unique\<close>

definition ids_unique :: "crew_state \<Rightarrow> bool" where
  "ids_unique s \<longleftrightarrow> unique_keys cc_id (crews s) \<and> unique_keys po_id (polls s) \<and> unique_keys mp_id (meetingPoints s)
     \<and> unique_keys pk_id (packingItems s) \<and> unique_keys ro_id (rideOffers s) \<and> unique_keys ms_user_id (crewStatuses s)
     \<and> unique_keys ce_id (expenses s)"

text \<open>
  The steps of the store with the answers of a server that assigns unique ids: a list it returns
  has no duplicates, a client id is fresh when a create is queued, and the answer to an online
  create arrives before any other news of the entity (the next theorem drops this).
\<close>

inductive client_step :: "crew_state \<Rightarrow> crew_state \<Rightarrow> bool" where
  crews_loaded: "unique_keys cc_id cs \<Longrightarrow> client_step s (loadCrews ck (Inr cs) s)"
| select_begin: "client_step s (selectCrew_begin c s)"
| selected: "client_step s (selectCrew ck c r s)"
| crew_created: "cc_id c \<notin> cc_id ` set (crews s) \<Longrightarrow> client_step s (createCrew ck (Inr c) s)"
| crew_updated: "cx_id p = None \<or> cx_id p = Some c \<Longrightarrow> client_step s (updateCrew ck c (Inr p) s)"
| crew_joined: "\<forall>i. r = Queued i \<longrightarrow> i \<notin> cc_id ` set (crews s) \<Longrightarrow> client_step s (joinByCode ck r s)"
| crew_left: "client_step s (leaveCrew ck c r s)"
| member_kicked: "client_step s (kickMember ck u r s)"
| transferred: "client_step s (transferOwnership_client ck c u r s)"
| reformed: "client_step s (reformCrew_client ck r s)"
| crew_deleted: "client_step s (deleteCrew_client ck c r s)"
| forced: "cc_id d = c \<Longrightarrow> client_step s (forceAddMember ck c (Inr d) s)"
| polls_loaded: "unique_keys po_id (listing_items ps) \<Longrightarrow> client_step s (loadPolls ck (Inr ps) s)"
| poll_made: "\<forall>i. r = Queued i \<longrightarrow> i \<notin> po_id ` set (polls s) \<Longrightarrow>
    \<forall>p. r = Answered p \<longrightarrow> po_id p \<notin> po_id ` set (polls s) \<Longrightarrow> client_step s (createPoll ck c q refs r s)"
| voting: "client_step s (votePoll_begin me pid i s)"
| vote_rejected: "client_step s (votePoll_rejected ck me pid prev e s)"
| poll_closed: "client_step s (closePoll ck pid r s)"
| points_loaded: "unique_keys mp_id (listing_items ms) \<Longrightarrow> client_step s (loadMeetingPoints ck (Inr ms) s)"
| point_made: "\<forall>i. r = Queued i \<longrightarrow> i \<notin> mp_id ` set (meetingPoints s) \<Longrightarrow>
    \<forall>m. r = Answered m \<longrightarrow> mp_id m \<notin> mp_id ` set (meetingPoints s) \<Longrightarrow> client_step s (createMeetingPoint ck c mq r s)"
| point_updated: "\<forall>m. r = Answered m \<longrightarrow> mp_id m = i \<Longrightarrow> client_step s (updateMeetingPoint ck i um r s)"
| point_deleted: "client_step s (deleteMeetingPoint ck i d s)"
| packing_loaded: "unique_keys pk_id (listing_items xs) \<Longrightarrow> client_step s (loadPacking ck (Inr xs) s)"
| item_made: "\<forall>i. r = Queued i \<longrightarrow> i \<notin> pk_id ` set (packingItems s) \<Longrightarrow>
    \<forall>x. r = Answered x \<longrightarrow> pk_id x \<notin> pk_id ` set (packingItems s) \<Longrightarrow> client_step s (createPackingItem ck c kq r s)"
| item_updated: "\<forall>x. r = Answered x \<longrightarrow> pk_id x = i \<Longrightarrow> client_step s (updatePackingItem ck i ku r s)"
| item_deleted: "client_step s (deletePackingItem ck i d s)"
| rides_loaded: "unique_keys ro_id (listing_items os) \<Longrightarrow> client_step s (loadRides ck (Inr os) s)"
| offer_made: "\<forall>i. r = Queued i \<longrightarrow> i \<notin> ro_id ` set (rideOffers s) \<Longrightarrow>
    \<forall>x. r = Answered x \<longrightarrow> ro_id x \<notin> ro_id ` set (rideOffers s) \<Longrightarrow> client_step s (createRideOffer ck c rf r s)"
| offer_updated: "\<forall>x. r = Answered x \<longrightarrow> ro_id x = i \<Longrightarrow> client_step s (updateRideOffer ck i ru r s)"
| offer_deleted: "client_step s (deleteRideOffer ck i d s)"
| statuses_loaded: "unique_keys ms_user_id (listing_items ts) \<Longrightarrow> client_step s (loadStatuses ck (Inr ts) s)"
| status_begin: "client_step s (updateMyStatus_begin ck c su u s)"
| status_done: "(\<forall>m. prev = Some m \<longrightarrow> ms_user_id m = u) \<Longrightarrow> client_step s (updateMyStatus ck u prev r s)"
| expenses_loaded: "\<forall>l. lr = Inr l \<longrightarrow> unique_keys ce_id (listing_items l) \<Longrightarrow> client_step s (snd (loadExpenses ck lr lb s))"
| expense_queued: "i \<notin> ce_id ` set (expenses s) \<Longrightarrow> client_step s (addExpense ck c xq (Queued i) lr lb s)"
| point_upserted: "client_step s (applyMeetingPointUpsert m s)"
| point_removed: "client_step s (applyMeetingPointRemoval i s)"
| poll_arrived: "client_step s (applyPollCreated p s)"
| vote_arrived: "client_step s (applyPollVote pid u i s)"
| close_arrived: "client_step s (applyPollClosed pid s)"
| status_arrived: "client_step s (applyStatusUpdate dp m s)"
| home_base_arrived: "client_step s (applyHomeBaseUpdate c l t s)"
| reconciled: "client_step s (reconcile_create i res s)"

lemma unique_Cons [simp]: "unique_keys key (x # xs) \<longleftrightarrow> key x \<notin> key ` set xs \<and> unique_keys key xs"
  by auto

lemma same_ids [simp]:
  "ids_unique (s\<lparr>storeError := e\<rparr>) = ids_unique s" "ids_unique (s\<lparr>crewLoading := b\<rparr>) = ids_unique s"
  "ids_unique (s\<lparr>activeCrew := a\<rparr>) = ids_unique s" "ids_unique (s\<lparr>crewMembers := ms\<rparr>) = ids_unique s"
  "ids_unique (s\<lparr>cachedAt := t\<rparr>) = ids_unique s" "ids_unique (s\<lparr>cachedCrewId := k\<rparr>) = ids_unique s"
  "ids_unique (fails ck f er s) = ids_unique s" "ids_unique (fails_loading ck f er s) = ids_unique s"
  "ids_unique (begin_action s) = ids_unique s"
  by (simp_all add: ids_unique_def fails_def fails_loading_def begin_action_def)

lemma put_vote_ids [simp]: "ids_unique (put_vote pid u new s) = ids_unique s"
  by (simp add: ids_unique_def put_vote_def)

lemma put_status_ids:
  "ids_unique s \<Longrightarrow> new = [] \<or> (\<exists>m. new = [m] \<and> ms_user_id m = u) \<Longrightarrow> ids_unique (put_status u new s)"
  by (auto simp: ids_unique_def put_status_def unique_remove_key)

lemma merge_crew_ids:
  "ids_unique s \<Longrightarrow> (\<And>c. cc_id c = k \<Longrightarrow> cc_id (f c) = k) \<Longrightarrow> ids_unique (merge_crew k f s)"
  by (simp add: ids_unique_def merge_crew_def with_active_def)

lemma reconcile_ids: "ids_unique s \<Longrightarrow> ids_unique (reconcile_create i res s)"
  by (auto simp: reconcile_create_def ids_unique_def reconcile_crew_def reconcile_poll_def reconcile_point_def
      reconcile_item_def reconcile_offer_def reconcile_expense_def reconcile_front_unique reconcile_back_unique unique_remove_key)

lemma loadExpenses_ids:
  "ids_unique s \<Longrightarrow> (\<And>l. lr = Inr l \<Longrightarrow> unique_keys ce_id (listing_items l)) \<Longrightarrow> ids_unique (snd (loadExpenses ck lr lb s))"
  by (auto simp: loadExpenses_def loadBalances_def loadExpenses_list_def ids_unique_def fails_def split: sum.splits prod.splits)

lemma merge_ids [simp]:
  "po_id (real_poll t p) = po_id p" "mp_id (merge_point um m) = mp_id m" "pk_id (merge_item ku x) = pk_id x"
  "ro_id (merge_offer ru y) = ro_id y"
  by (simp_all add: real_poll_def merge_point_def merge_item_def merge_offer_def)

lemma spread_crew_id: "cx_id p = None \<or> cx_id p = Some k \<Longrightarrow> cc_id c = k \<Longrightarrow> cc_id (spread_crew p c) = k"
  by (auto simp: spread_crew_def spread_def)

lemma upsert_map_ids: "unique_keys key xs \<Longrightarrow> unique_keys key (upsert_map key x xs)"
  by (simp add: upsert_map_eq unique_upsert_at)

lemma joinByCode_ids:
  "ids_unique s \<Longrightarrow> \<forall>i. r = Queued i \<longrightarrow> i \<notin> cc_id ` set (crews s) \<Longrightarrow> ids_unique (joinByCode ck r s)"
  by (cases r) (auto simp: joinByCode_def ids_unique_def joining_crew_def fails_loading_def fails_def)

lemma step_ids:
  assumes inv: "ids_unique s" and "client_step s t"
  shows "ids_unique t"
  using assms(2)
proof cases
  case (crew_updated p c ck)
  then show ?thesis using inv by (simp add: updateCrew_def merge_crew_ids spread_crew_id)
next
  case (crew_joined r ck)
  then show ?thesis using inv by (simp add: joinByCode_ids)
next
  case (transferred ck c u r)
  then show ?thesis using inv
    by (cases r) (simp_all add: transferOwnership_client_def ids_unique_def with_active_def fails_def)
next
  case (forced d c ck)
  then show ?thesis using inv by (simp add: forceAddMember_def merge_crew_ids)
next
  case (poll_made r ck c q refs)
  then show ?thesis using inv
    by (cases r) (auto simp: createPoll_def Let_def ids_unique_def fails_def optimistic_poll_def)
next
  case (voting me pid i)
  then show ?thesis using inv by (cases me) (simp_all add: votePoll_begin_def)
next
  case (vote_rejected ck me pid prev e)
  then show ?thesis using inv by (cases me) (simp_all add: votePoll_rejected_def)
next
  case (point_made r ck c mq)
  then show ?thesis using inv
    by (cases r) (auto simp: createMeetingPoint_def ids_unique_def fails_def optimistic_point_def)
next
  case (point_updated r i ck um)
  then show ?thesis using inv by (cases r) (auto simp: updateMeetingPoint_def ids_unique_def fails_def)
next
  case (item_made r ck c kq)
  then show ?thesis using inv
    by (cases r) (auto simp: createPackingItem_def ids_unique_def fails_def optimistic_item_def)
next
  case (item_updated r i ck ku)
  then show ?thesis using inv by (cases r) (auto simp: updatePackingItem_def ids_unique_def fails_def)
next
  case (offer_made r ck c rf)
  then show ?thesis using inv
    by (cases r) (auto simp: createRideOffer_def ids_unique_def fails_def optimistic_offer_def)
next
  case (offer_updated r i ck ru)
  then show ?thesis using inv by (cases r) (auto simp: updateRideOffer_def ids_unique_def fails_def)
next
  case (status_begin ck c su u)
  then show ?thesis using inv
    unfolding updateMyStatus_begin_def by (auto intro!: put_status_ids simp: merged_status_def)
next
  case (status_done prev u ck r)
  have "ids_unique (put_status u (case prev of None \<Rightarrow> [] | Some m \<Rightarrow> [m]) s)"
    by (rule put_status_ids [OF inv]) (use status_done in \<open>auto split: option.splits\<close>)
  then show ?thesis using inv status_done
    by (auto simp: updateMyStatus_def intro!: put_status_ids split: reply.splits option.splits)
next
  case (expenses_loaded lr ck lb)
  then show ?thesis using inv by (simp add: loadExpenses_ids)
next
  case (expense_queued i ck c xq lr lb)
  then show ?thesis using inv by (simp add: addExpense_def ids_unique_def optimistic_expense_def)
next
  case (point_upserted m)
  then show ?thesis using inv by (simp add: applyMeetingPointUpsert_def ids_unique_def)
next
  case (vote_arrived pid u i)
  then show ?thesis using inv by (simp add: applyPollVote_def)
next
  case (status_arrived dp m)
  then show ?thesis using inv
    by (auto simp: applyStatusUpdate_def intro!: put_status_ids split: option.splits)
next
  case (home_base_arrived c l tm)
  then show ?thesis using inv by (simp add: applyHomeBaseUpdate_def merge_crew_ids)
next
  case (reconciled i res)
  then show ?thesis using inv by (simp add: reconcile_ids)
next
  case (reformed ck r)
  then show ?thesis using inv
    by (cases r) (simp_all add: reformCrew_client_def Let_def ids_unique_def fails_loading_def fails_def upsert_map_ids)
qed (use inv in \<open>auto simp: loadCrews_def selectCrew_begin_def selectCrew_def createCrew_def leaveCrew_def kickMember_def
      deleteCrew_client_def loadPolls_def closePoll_def loadMeetingPoints_def deleteMeetingPoint_def loadPacking_def
      deletePackingItem_def loadRides_def deleteRideOffer_def loadStatuses_def applyMeetingPointRemoval_def
      applyPollCreated_def applyPollClosed_def ids_unique_def Let_def fails_def fails_loading_def unique_remove_key comp_def
      split: option.splits sum.splits\<close>)

interpretation client: inv_system client_step ids_unique
  by unfold_locales (rule step_ids)

text \<open>However the answers to the user's actions, the events of the socket, reloads and replayed
  offline creates interleave, no list of the store ever holds two entries with one id.\<close>

theorem client_ids_stay_unique:
  assumes "client_step\<^sup>*\<^sup>* crew_initial s"
  shows "ids_unique s"
  by (rule client.inv_reach [OF assms]) (simp add: ids_unique_def crew_initial_def)

lemma client_ids_stay_unique_witness:
  "ids_unique (applyMeetingPointUpsert (ex_point ''mp-1'')
     (createMeetingPoint ex_clock ''c'' ex_point_request (Queued ''temp'') crew_initial))"
proof -
  have "client_step crew_initial (createMeetingPoint ex_clock ''c'' ex_point_request (Queued ''temp'') crew_initial)"
    by (rule client_step.point_made) (simp_all add: crew_initial_def)
  then have "client_step\<^sup>*\<^sup>* crew_initial (applyMeetingPointUpsert (ex_point ''mp-1'')
     (createMeetingPoint ex_clock ''c'' ex_point_request (Queued ''temp'') crew_initial))"
    by (meson client_step.point_upserted r_into_rtranclp rtranclp.rtrancl_into_rtrancl)
  then show ?thesis by (rule client_ids_stay_unique)
qed

text \<open>Without the side condition of \<open>point_made\<close> an online create is listed twice: the server emits the
  event to the crew's room, the creator included, before it answers, the event inserts the
  meeting point, and the answer is put in front of the list without looking.\<close>

lemma online_create_listed_twice:
  assumes "mp_id m \<notin> mp_id ` set (meetingPoints s)"
  shows "meetingPoints (createMeetingPoint ck c q (Answered m) (applyMeetingPointUpsert m s)) = m # m # meetingPoints s"
  using assms by (simp add: createMeetingPoint_def applyMeetingPointUpsert_def)

subsection \<open>Rolling a vote back\<close>

text \<open>What the socket brings about polls while a vote is in flight.\<close>

datatype poll_news = NewsCreated crew_poll | NewsVote string string int | NewsClosed string

fun apply_news :: "poll_news \<Rightarrow> crew_state \<Rightarrow> crew_state" where
  "apply_news (NewsCreated p) s = applyPollCreated p s"
| "apply_news (NewsVote pid u i) s = applyPollVote pid u i s"
| "apply_news (NewsClosed pid) s = applyPollClosed pid s"

text \<open>News that is not about my own vote on the poll: votes of others there, and no new poll of that id.\<close>

fun not_mine :: "string \<Rightarrow> string \<Rightarrow> poll_news \<Rightarrow> bool" where
  "not_mine me pid (NewsCreated p) = (po_id p \<noteq> pid)"
| "not_mine me pid (NewsVote q u i) = (q = pid \<longrightarrow> u \<noteq> me)"
| "not_mine me pid (NewsClosed q) = True"

definition others :: "string \<Rightarrow> poll_vote list \<Rightarrow> poll_vote list" where
  "others u vs = filter (\<lambda>v. pv_user_id v \<noteq> Some u) vs"

definition mine :: "string \<Rightarrow> poll_vote list \<Rightarrow> poll_vote list" where
  "mine u vs = filter (\<lambda>v. pv_user_id v = Some u) vs"

text \<open>Two poll lists that differ at most in my votes on one poll.\<close>

definition but_mine :: "string \<Rightarrow> string \<Rightarrow> crew_poll \<Rightarrow> crew_poll \<Rightarrow> bool" where
  "but_mine me pid p q \<longleftrightarrow> p\<lparr>po_votes := None\<rparr> = q\<lparr>po_votes := None\<rparr> \<and>
     (if po_id p = pid then others me (votes_of p) = others me (votes_of q) else p = q)"

lemma but_mine_id: "but_mine me pid p q \<Longrightarrow> po_id q = po_id p"
  by (metis but_mine_def crew_poll.select_convs(1) crew_poll.surjective crew_poll.update_convs(6))

lemma votes_of_update [simp]: "votes_of (p\<lparr>po_votes := Some vs\<rparr>) = vs"
  by (simp add: votes_of_def)

lemma others_append [simp]: "others u (xs @ ys) = others u xs @ others u ys"
  by (simp add: others_def)

lemma others_cast [simp]:
  "others u (filter (\<lambda>v. pv_user_id v \<noteq> Some w) vs) = filter (\<lambda>v. pv_user_id v \<noteq> Some w) (others u vs)"
  by (simp add: others_def conj_commute)

lemma but_mine_refl [simp]: "but_mine me pid p p"
  by (simp add: but_mine_def)

definition recast :: "string \<Rightarrow> poll_vote list \<Rightarrow> crew_poll \<Rightarrow> crew_poll" where
  "recast u new p = p\<lparr>po_votes := Some (filter (\<lambda>v. pv_user_id v \<noteq> Some u) (votes_of p) @ new)\<rparr>"

lemma put_vote_recast: "put_vote pid u new s = s\<lparr>polls := map_where po_id pid (recast u new) (polls s)\<rparr>"
  by (simp add: put_vote_def recast_def [abs_def])

lemma recast_fields [simp]:
  "po_id (recast u new p) = po_id p" "(recast u new p)\<lparr>po_votes := v\<rparr> = p\<lparr>po_votes := v\<rparr>"
  "votes_of (recast u new p) = others u (votes_of p) @ new"
  by (simp_all add: recast_def others_def)

lemma others_comm: "others u (others w vs) = others w (others u vs)"
  by (simp add: others_def conj_commute)

lemma but_mine_recast:
  assumes "but_mine me pid p q" and "po_id p = pid \<longrightarrow> u \<noteq> me"
  shows "but_mine me pid (recast u new p) (recast u new q)"
proof (cases "po_id p = pid")
  case True
  with assms show ?thesis by (simp add: but_mine_def others_comm [of me u])
next
  case False
  with assms(1) have "p = q" by (simp add: but_mine_def)
  then show ?thesis by simp
qed

lemma but_mine_map:
  assumes "list_all2 (but_mine me pid) xs ys" and "r = pid \<longrightarrow> u \<noteq> me"
  shows "list_all2 (but_mine me pid) (map_where po_id r (recast u new) xs) (map_where po_id r (recast u new) ys)"
  using assms(1)
proof (induction rule: list_all2_induct)
  case (Cons x xs y ys)
  then show ?case using but_mine_id [of me pid x y] but_mine_recast [of me pid x y u new] assms(2)
    by (auto simp: map_where_def)
qed (simp add: map_where_def)

lemma news_keeps_but_mine:
  assumes "list_all2 (but_mine me pid) (polls s) (polls t)" and "not_mine me pid n"
  shows "list_all2 (but_mine me pid) (polls (apply_news n s)) (polls (apply_news n t))"
proof (cases n)
  case (NewsCreated p)
  have "map po_id (polls t) = map po_id (polls s)"
    using assms(1) by (induction rule: list_all2_induct) (auto dest: but_mine_id)
  then have "po_id ` set (polls t) = po_id ` set (polls s)" by (metis list.set_map)
  with assms NewsCreated show ?thesis by (simp add: applyPollCreated_def)
next
  case (NewsVote r u i)
  with assms show ?thesis by (auto simp: applyPollVote_def put_vote_recast intro!: but_mine_map)
next
  case (NewsClosed r)
  have "list_all2 (but_mine me pid) (remove_key po_id r xs) (remove_key po_id r ys)"
    if "list_all2 (but_mine me pid) xs ys" for xs ys
    using that by (induction rule: list_all2_induct) (auto simp: remove_key_def dest: but_mine_id)
  with assms NewsClosed show ?thesis by (simp add: applyPollClosed_def)
qed

text \<open>My vote in the poll as it would be had I not voted.\<close>

definition my_vote_is :: "string \<Rightarrow> string \<Rightarrow> poll_vote list \<Rightarrow> crew_state \<Rightarrow> bool" where
  "my_vote_is u pid vs s \<longleftrightarrow> (\<forall>p \<in> set (polls s). po_id p = pid \<longrightarrow> mine u (votes_of p) = vs)"

lemma mine_append [simp]: "mine u (xs @ ys) = mine u xs @ mine u ys"
  by (simp add: mine_def)

lemma mine_others [simp]: "w \<noteq> u \<Longrightarrow> mine u (others w vs) = mine u vs"
  unfolding mine_def others_def filter_filter by (rule filter_cong) auto

lemma mine_other_vote [simp]: "w \<noteq> u \<Longrightarrow> mine u [\<lparr>pv_option = i, pv_user_id = Some w\<rparr>] = []"
  by (simp add: mine_def)

lemma news_keeps_my_vote:
  assumes "my_vote_is u pid vs s" and "not_mine u pid n"
  shows "my_vote_is u pid vs (apply_news n s)"
proof (cases n)
  case (NewsVote r w i)
  with assms show ?thesis
    by (auto simp: my_vote_is_def applyPollVote_def put_vote_recast map_where_def)
qed (use assms in \<open>auto simp: my_vote_is_def applyPollCreated_def applyPollClosed_def\<close>)

lemma others_mine: "mset (others u vs) + mset (mine u vs) = mset vs"
  by (induction vs) (simp_all add: others_def mine_def)

definition same_poll :: "crew_poll \<Rightarrow> crew_poll \<Rightarrow> bool" where
  "same_poll p q \<longleftrightarrow> p\<lparr>po_votes := None\<rparr> = q\<lparr>po_votes := None\<rparr> \<and> mset (votes_of p) = mset (votes_of q)"

lemma restored:
  assumes "but_mine u pid p q" and "po_id q = pid \<longrightarrow> mine u (votes_of q) = vs"
  shows "same_poll (if po_id p = pid then recast u vs p else p) q"
proof (cases "po_id p = pid")
  case True
  have "mset (others u (votes_of q)) + mset vs = mset (votes_of q)"
    using others_mine [of u "votes_of q"] assms(2) but_mine_id [OF assms(1)] True by simp
  with True assms(1) show ?thesis by (simp add: same_poll_def but_mine_def)
next
  case False
  with assms(1) show ?thesis by (simp add: same_poll_def but_mine_def)
qed

definition at_most_one_vote :: "string \<Rightarrow> string \<Rightarrow> crew_state \<Rightarrow> bool" where
  "at_most_one_vote u pid s \<longleftrightarrow> (\<forall>p \<in> set (polls s). po_id p = pid \<longrightarrow> length (mine u (votes_of p)) \<le> 1)"

lemma prev_vote_mine:
  assumes "unique_keys po_id (polls s)" and "at_most_one_vote u pid s"
  shows "my_vote_is u pid (case prev_vote (Some u) pid s of Some v \<Rightarrow> [v] | None \<Rightarrow> []) s"
  unfolding my_vote_is_def
proof (intro ballI impI)
  fix p
  assume p: "p \<in> set (polls s)" "po_id p = pid"
  have one: "length xs \<le> 1 \<Longrightarrow> xs = (case find (\<lambda>_. True) xs of Some v \<Rightarrow> [v] | None \<Rightarrow> [])" for xs :: "poll_vote list"
    by (cases xs) auto
  have first: "find Q xs = find (\<lambda>_. True) (filter Q xs)" for Q and xs :: "poll_vote list" by (induction xs) auto
  have "lookup_key po_id (polls s) pid = Some p" using lookup_key_mem [OF assms(1) p(1)] p(2) by simp
  then have "prev_vote (Some u) pid s = find (\<lambda>_. True) (mine u (votes_of p))"
    by (simp add: prev_vote_def mine_def first [of "\<lambda>v. pv_user_id v = Some u"])
  moreover have "length (mine u (votes_of p)) \<le> 1" using assms(2) p by (simp add: at_most_one_vote_def)
  ultimately show "mine u (votes_of p) = (case prev_vote (Some u) pid s of Some v \<Rightarrow> [v] | None \<Rightarrow> [])"
    using one by simp
qed

text \<open>A rejected vote is undone exactly: whatever polls other members create, close and vote on while
  the request is in flight, once it is rejected the polls are those of a run in which I did not
  vote, with my earlier vote on the poll back and every other vote kept; only the order of the
  votes of that poll may differ.\<close>

theorem rejected_vote_undone:
  assumes "unique_keys po_id (polls s)" and "at_most_one_vote u pid s" and "list_all (not_mine u pid) news"
  shows "list_all2 same_poll
    (polls (votePoll_rejected ck (Some u) pid (prev_vote (Some u) pid s) e
       (fold apply_news news (votePoll_begin (Some u) pid i s))))
    (polls (fold apply_news news s))"
proof -
  let ?vs = "case prev_vote (Some u) pid s of Some v \<Rightarrow> [v] | None \<Rightarrow> []"
  let ?s1 = "votePoll_begin (Some u) pid i s"
  have start: "list_all2 (but_mine u pid) (polls ?s1) (polls s)"
    by (auto simp: votePoll_begin_def put_vote_recast begin_action_def map_where_def list_all2_map1 but_mine_def others_def
        intro!: list_all2_refl)
  have "list_all2 (but_mine u pid) (polls (fold apply_news news a)) (polls (fold apply_news news b))
      \<and> my_vote_is u pid ?vs (fold apply_news news b)"
    if "list_all2 (but_mine u pid) (polls a) (polls b)" "my_vote_is u pid ?vs b" for a b
    using that assms(3)
  proof (induction news arbitrary: a b)
    case (Cons n news)
    from Cons.prems have n: "not_mine u pid n" and rest: "list_all (not_mine u pid) news" by simp_all
    show ?case unfolding fold_simps
      by (rule Cons.IH [OF news_keeps_but_mine [OF Cons.prems(1) n] news_keeps_my_vote [OF Cons.prems(2) n] rest])
  qed simp
  from this [OF start prev_vote_mine [OF assms(1,2)]]
  have run: "list_all2 (but_mine u pid) (polls (fold apply_news news ?s1)) (polls (fold apply_news news s))"
    and kept: "my_vote_is u pid ?vs (fold apply_news news s)" by blast+
  have "list_all2 same_poll (map_where po_id pid (recast u ?vs) (polls (fold apply_news news ?s1))) (polls (fold apply_news news s))"
    unfolding map_where_def list_all2_map1
  proof (rule list.rel_mono_strong [OF run])
    fix p q
    assume "q \<in> set (polls (fold apply_news news s))" and "but_mine u pid p q"
    with kept restored [of u pid p q ?vs] show "same_poll (if po_id p = pid then recast u ?vs p else p) q"
      by (simp add: my_vote_is_def)
  qed
  then show ?thesis by (simp add: votePoll_rejected_def put_vote_recast fails_def)
qed

definition ex_poll :: crew_poll where
  "ex_poll = (optimistic_poll ex_clock ''c'' \<lparr>pq_question = ''where?'', pq_options = [''A'', ''B''], pq_closesAt = None\<rparr> None ''p'')
     \<lparr>po_votes := Some [\<lparr>pv_option = Some 0, pv_user_id = Some ''me''\<rparr>, \<lparr>pv_option = Some 1, pv_user_id = Some ''bob''\<rparr>]\<rparr>"

definition ex_voting :: crew_state where
  "ex_voting = crew_initial\<lparr>polls := [ex_poll]\<rparr>"

lemma rejected_vote_undone_witness:
  "list_all2 same_poll
    (polls (votePoll_rejected ex_clock (Some ''me'') ''p'' (prev_vote (Some ''me'') ''p'' ex_voting) OtherValue
       (fold apply_news [NewsVote ''p'' ''bob'' 0] (votePoll_begin (Some ''me'') ''p'' 1 ex_voting))))
    (polls (fold apply_news [NewsVote ''p'' ''bob'' 0] ex_voting))"
  by (rule rejected_vote_undone)
    (simp_all add: ex_voting_def at_most_one_vote_def mine_def ex_poll_def)

end
