(* ===== verification/Crew_Client_Views.thy ===== *)
theory Crew_Client_Views
  imports Crew_Client_Sync
begin

text \<open>
  More of what the client's crew store promises: status updates converge in whatever order they
  arrive, the crew shown is the one last selected, the winner of a poll, errors leave the data
  alone, and what is persisted comes back.
\<close>

subsection \<open>Status updates converge\<close>

text \<open>One member's row as \<open>applyStatusUpdate\<close> treats it.\<close>

definition newer :: "(string \<Rightarrow> int option) \<Rightarrow> member_status \<Rightarrow> member_status option \<Rightarrow> member_status option" where
  "newer dateParse m cur =
     (case cur of Some e \<Rightarrow> if older dateParse m e then cur else Some (m\<lparr>ms_optimistic := False\<rparr>)
      | None \<Rightarrow> Some (m\<lparr>ms_optimistic := False\<rparr>))"

lemma lookup_put_status:
  "my_status u (put_status v [m] s) = (if ms_user_id m = u then Some m else if u = v then None else my_status u s)"
  by (simp add: my_status_def put_status_def lookup_remove_key)

lemma apply_status_lookup:
  "my_status u (applyStatusUpdate dateParse m s)
     = (if ms_user_id m = u then newer dateParse m (my_status u s) else my_status u s)"
proof (cases "ms_user_id m = u")
  case True
  then show ?thesis by (auto simp: applyStatusUpdate_def newer_def lookup_put_status split: option.split)
next
  case False
  then show ?thesis by (auto simp: applyStatusUpdate_def lookup_put_status split: option.split)
qed

lemma fold_status_lookup:
  "my_status u (fold (applyStatusUpdate dateParse) ms s)
     = fold (newer dateParse) (filter (\<lambda>m. ms_user_id m = u) ms) (my_status u s)"
  by (induction ms arbitrary: s) (simp_all add: apply_status_lookup)

lemma newer_comm:
  assumes "dateParse (ms_updated_at x) = Some i" and "dateParse (ms_updated_at y) = Some j" and "i \<noteq> j"
  shows "newer dateParse x (newer dateParse y c) = newer dateParse y (newer dateParse x c)"
proof (cases c)
  case None
  with assms show ?thesis by (auto simp: newer_def older_def)
next
  case (Some e)
  with assms show ?thesis by (cases "dateParse (ms_updated_at e)") (auto simp: newer_def older_def)
qed

text \<open>The times at which the updates of one member were made tell them apart.\<close>

definition dated :: "(string \<Rightarrow> int option) \<Rightarrow> member_status list \<Rightarrow> bool" where
  "dated dateParse ms \<longleftrightarrow> (\<forall>m \<in> set ms. dateParse (ms_updated_at m) \<noteq> None)
     \<and> (\<forall>x \<in> set ms. \<forall>y \<in> set ms. ms_user_id x = ms_user_id y \<and> dateParse (ms_updated_at x) = dateParse (ms_updated_at y) \<longrightarrow> x = y)"

lemma fold_newer_perm:
  assumes "dated dateParse ms" and "mset ms = mset ns"
  shows "fold (newer dateParse) (filter (\<lambda>m. ms_user_id m = u) ms) c = fold (newer dateParse) (filter (\<lambda>m. ms_user_id m = u) ns) c"
proof -
  have "fold (newer dateParse) (filter (\<lambda>m. ms_user_id m = u) ms) = fold (newer dateParse) (filter (\<lambda>m. ms_user_id m = u) ns)"
  proof (rule fold_multiset_equiv)
    fix x y
    assume "x \<in> set (filter (\<lambda>m. ms_user_id m = u) ms)" and "y \<in> set (filter (\<lambda>m. ms_user_id m = u) ms)"
    then have xy: "x \<in> set ms" "y \<in> set ms" "ms_user_id x = ms_user_id y" by auto
    show "newer dateParse x \<circ> newer dateParse y = newer dateParse y \<circ> newer dateParse x"
    proof (cases "x = y")
      case False
      with assms(1) xy obtain i j where "dateParse (ms_updated_at x) = Some i" "dateParse (ms_updated_at y) = Some j" "i \<noteq> j"
        unfolding dated_def by (metis option.exhaust)
      then show ?thesis by (auto simp: newer_comm)
    qed simp
  qed (simp add: assms(2))
  then show ?thesis by simp
qed

lemma newer_dated:
  "dateParse (ms_updated_at m) \<noteq> None \<Longrightarrow>
   \<exists>r. newer dateParse m c = Some r \<and> dateParse (ms_updated_at r) \<noteq> None \<and> \<not> older dateParse r m
     \<and> (\<forall>e. c = Some e \<longrightarrow> \<not> older dateParse r e)"
  by (cases c) (auto simp: newer_def older_def split: option.splits)

lemma older_trans:
  "\<not> older dateParse a b \<Longrightarrow> \<not> older dateParse b c \<Longrightarrow> dateParse (ms_updated_at b) \<noteq> None \<Longrightarrow> \<not> older dateParse a c"
  by (auto simp: older_def split: option.splits)

lemma newest_wins:
  assumes "ms \<noteq> []" and "\<forall>m \<in> set ms. dateParse (ms_updated_at m) \<noteq> None"
  shows "\<exists>r. fold (newer dateParse) ms c = Some r \<and> dateParse (ms_updated_at r) \<noteq> None
    \<and> (\<forall>m \<in> set ms. \<not> older dateParse r m)"
  using assms
proof (induction ms rule: rev_induct)
  case (snoc x ms)
  have x: "dateParse (ms_updated_at x) \<noteq> None" using snoc.prems by simp
  show ?case
  proof (cases "ms = []")
    case True
    with newer_dated [of dateParse x c] x show ?thesis by auto
  next
    case False
    obtain e where e: "fold (newer dateParse) ms c = Some e" "dateParse (ms_updated_at e) \<noteq> None"
      "\<forall>m \<in> set ms. \<not> older dateParse e m"
      using snoc.IH [OF False] snoc.prems by auto
    obtain r where r: "newer dateParse x (Some e) = Some r" "dateParse (ms_updated_at r) \<noteq> None"
      "\<not> older dateParse r x" "\<not> older dateParse r e"
      using newer_dated [of dateParse x "Some e"] x by auto
    have "\<not> older dateParse r m" if "m \<in> set ms" for m
      using older_trans [of dateParse r e m] r(4) e that by blast
    with r e(1) show ?thesis by auto
  qed
qed simp

text \<open>Status updates converge: if the times of a member's updates tell them apart, the status shown
  for every member is the same in whatever order the socket delivers the updates, and it is at
  least as recent as each of them, so a delayed echo never replaces a newer status.\<close>

theorem status_updates_converge:
  assumes "dated dateParse ms" and "mset ms = mset ns"
  shows "my_status u (fold (applyStatusUpdate dateParse) ms s) = my_status u (fold (applyStatusUpdate dateParse) ns s)
    \<and> (\<forall>m \<in> set ms. \<exists>r. my_status (ms_user_id m) (fold (applyStatusUpdate dateParse) ns s) = Some r \<and> \<not> older dateParse r m)"
proof (intro conjI ballI)
  show "my_status u (fold (applyStatusUpdate dateParse) ms s) = my_status u (fold (applyStatusUpdate dateParse) ns s)"
    unfolding fold_status_lookup by (rule fold_newer_perm [OF assms])
next
  fix m
  assume m: "m \<in> set ms"
  have same: "set ns = set ms" using assms(2) by (metis set_mset_mset)
  let ?ns = "filter (\<lambda>x. ms_user_id x = ms_user_id m) ns"
  have "m \<in> set ?ns" using m same by simp
  moreover have "\<forall>x \<in> set ?ns. dateParse (ms_updated_at x) \<noteq> None" using assms(1) same by (simp add: dated_def)
  ultimately show "\<exists>r. my_status (ms_user_id m) (fold (applyStatusUpdate dateParse) ns s) = Some r \<and> \<not> older dateParse r m"
    unfolding fold_status_lookup
    using newest_wins [of ?ns dateParse "my_status (ms_user_id m) s"] by fastforce
qed

definition ex_status :: "string \<Rightarrow> string \<Rightarrow> member_status" where
  "ex_status u t = (merged_status ex_clock ''c'' \<lparr>su_status = Some (Some OnMyWay), su_target = None, su_eta_minutes = None,
     su_note = None, su_position = None\<rparr> u None)\<lparr>ms_updated_at := t\<rparr>"

lemma status_updates_converge_witness:
  "my_status ''bob'' (fold (applyStatusUpdate (\<lambda>t. Some (int (length t)))) [ex_status ''bob'' ''1'', ex_status ''bob'' ''12''] crew_initial)
   = my_status ''bob'' (fold (applyStatusUpdate (\<lambda>t. Some (int (length t)))) [ex_status ''bob'' ''12'', ex_status ''bob'' ''1''] crew_initial)"
  using status_updates_converge [of "\<lambda>t. Some (int (length t))" "[ex_status ''bob'' ''1'', ex_status ''bob'' ''12'']"
      "[ex_status ''bob'' ''12'', ex_status ''bob'' ''1'']" "''bob''" crew_initial]
  by (simp add: dated_def ex_status_def add_mset_commute)

subsection \<open>The crew shown\<close>

text \<open>Selections and their answers, in any order; the server answers with the crew asked for.\<close>

datatype selection = Selects string | SelectAnswered clock string "thrown + client_crew"

fun selection_step :: "selection \<Rightarrow> crew_state \<Rightarrow> crew_state" where
  "selection_step (Selects c) s = selectCrew_begin c s"
| "selection_step (SelectAnswered ck c r) s = selectCrew ck c r s"

fun answers_asked :: "selection \<Rightarrow> bool" where
  "answers_asked (Selects c) = True"
| "answers_asked (SelectAnswered ck c r) = (case r of Inr d \<Rightarrow> cc_id d = c | Inl _ \<Rightarrow> True)"

fun selects :: "selection list \<Rightarrow> string list" where
  "selects [] = []"
| "selects (Selects c # xs) = c # selects xs"
| "selects (SelectAnswered ck c r # xs) = selects xs"

text \<open>The active crew is the last selected one and its members are the ones shown.\<close>

definition shows_last :: "crew_state \<Rightarrow> bool" where
  "shows_last s \<longleftrightarrow> (\<forall>c. activeCrew s = Some c \<longrightarrow> lastSelectCrewId s = Some (cc_id c) \<and> cachedCrewId s = Some (cc_id c)
     \<and> crewMembers s = (case cc_members c of Some ms \<Rightarrow> ms | None \<Rightarrow> []))"

lemma selection_step_shows_last:
  "shows_last s \<Longrightarrow> answers_asked x \<Longrightarrow> shows_last (selection_step x s)"
  by (cases x) (auto simp: shows_last_def selectCrew_begin_def selectCrew_def is_active_def Let_def fails_loading_def fails_def
      split: sum.splits option.splits)

lemma selection_last: "lastSelectCrewId (selection_step x s) = (case x of Selects c \<Rightarrow> Some c | _ \<Rightarrow> lastSelectCrewId s)"
  by (cases x) (auto simp: selectCrew_begin_def selectCrew_def Let_def fails_loading_def fails_def split: sum.splits)

lemma selects_append: "selects (xs @ ys) = selects xs @ selects ys"
  by (induction xs rule: selects.induct) simp_all

text \<open>Whatever the order in which the answers to several selections arrive, the crew shown with its
  members is the one selected last: a late answer for a crew the user has left is dropped, and
  until its own answer comes no other crew is shown in its place.\<close>

theorem last_selection_shown:
  assumes "activeCrew s = None" and "list_all answers_asked xs" and "selects xs \<noteq> []"
  shows "shows_last (fold selection_step xs s)
    \<and> (\<forall>c. activeCrew (fold selection_step xs s) = Some c \<longrightarrow> cc_id c = last (selects xs))"
proof -
  have inv: "shows_last (fold selection_step ys t)" if "shows_last t" "list_all answers_asked ys" for ys t
    using that
  proof (induction ys arbitrary: t)
    case (Cons y ys)
    then show ?case using selection_step_shows_last [of t y] by simp
  qed simp
  have start: "shows_last s" using assms(1) by (simp add: shows_last_def)
  have "selects ys \<noteq> [] \<Longrightarrow> lastSelectCrewId (fold selection_step ys s) = Some (last (selects ys))" for ys
  proof (induction ys rule: rev_induct)
    case (snoc y ys)
    show ?case
    proof (cases y)
      case (SelectAnswered ck c r)
      with snoc selection_last [of y] show ?thesis by (simp add: selects_append)
    qed (simp add: selects_append selectCrew_begin_def Let_def)
  qed simp
  with assms(3) inv [OF start assms(2)] show ?thesis by (auto simp: shows_last_def)
qed

definition ex_crew :: "string \<Rightarrow> client_crew" where
  "ex_crew i = (joining_crew ex_clock i)\<lparr>cc_optimistic := False\<rparr>"

lemma last_selection_shown_witness:
  "map_option cc_id (activeCrew (fold selection_step [Selects ''a'', Selects ''b'', SelectAnswered ex_clock ''b'' (Inr (ex_crew ''b'')),
       SelectAnswered ex_clock ''a'' (Inr (ex_crew ''a''))] crew_initial)) = Some ''b''"
proof -
  let ?run = "[Selects ''a'', Selects ''b'', SelectAnswered ex_clock ''b'' (Inr (ex_crew ''b'')),
       SelectAnswered ex_clock ''a'' (Inr (ex_crew ''a''))]"
  have "activeCrew (fold selection_step ?run crew_initial) \<noteq> None"
    by (simp add: selectCrew_begin_def selectCrew_def Let_def)
  then show ?thesis
    using last_selection_shown [of crew_initial ?run] by (auto simp: crew_initial_def ex_crew_def joining_crew_def)
qed

text \<open>The lists below the crew have no such guard: an answer that was on its way when another crew was
  selected is shown under that crew.\<close>

lemma late_list_shown_under_other_crew:
  "polls (loadPolls ck (Inr (Envelope (Some [p]))) (selectCrew ck c2 (Inr d) (selectCrew_begin c2 s)))
     = dropOptimistic po_optimistic [p\<lparr>po_votes := Some (filter real_vote (votes_of p))\<rparr>]
   \<and> activeCrew (loadPolls ck (Inr (Envelope (Some [p]))) (selectCrew ck c2 (Inr d) (selectCrew_begin c2 s))) = Some d"
  by (simp add: loadPolls_def selectCrew_def selectCrew_begin_def Let_def)

subsection \<open>The winner of a poll\<close>

definition votes_for :: "crew_poll \<Rightarrow> nat \<Rightarrow> nat" where
  "votes_for p i = length (filter (\<lambda>v. pv_option v = Some (int i)) (votes_of p))"

lemma length_count [simp]: "length (foldl count_vote cs vs) = length cs"
  by (induction vs arbitrary: cs) (auto simp: count_vote_def split: option.splits)

lemma count_votes:
  "i < length cs \<Longrightarrow> foldl count_vote cs vs ! i = cs ! i + length (filter (\<lambda>v. pv_option v = Some (int i)) vs)"
proof (induction vs arbitrary: cs)
  case (Cons v vs)
  have "i < length (count_vote cs v)" using Cons.prems by (auto simp: count_vote_def split: option.splits)
  from Cons.IH [OF this] Cons.prems show ?case
    by (auto simp: count_vote_def nth_list_update split: option.splits)
qed simp

lemma tally_nth: "i < length (po_options p) \<Longrightarrow> tally p ! i = votes_for p i" and length_tally: "length (tally p) = length (po_options p)"
  by (simp_all add: tally_def count_votes votes_for_def)

text \<open>The scan keeps the first index of the largest count so far.\<close>

lemma winning_index_scan:
  assumes "case winner of None \<Rightarrow> best = 0 \<and> (\<forall>c \<in> set seen. c = 0)
      | Some w \<Rightarrow> w < length seen \<and> seen ! w = best \<and> 0 < best \<and> (\<forall>j < length seen. seen ! j \<le> best) \<and> (\<forall>j < w. seen ! j < best)"
  shows "case winning_index (length seen) best winner cs of None \<Rightarrow> \<forall>c \<in> set (seen @ cs). c = 0
      | Some w \<Rightarrow> w < length (seen @ cs) \<and> 0 < (seen @ cs) ! w \<and> (\<forall>j < length (seen @ cs). (seen @ cs) ! j \<le> (seen @ cs) ! w)
          \<and> (\<forall>j < w. (seen @ cs) ! j < (seen @ cs) ! w)"
  using assms
proof (induction cs arbitrary: seen best winner)
  case Nil
  then show ?case by (auto split: option.splits)
next
  case (Cons c cs)
  show ?case
  proof (cases "best < c")
    case True
    have zero: "winner = None \<Longrightarrow> j < length seen \<Longrightarrow> seen ! j = 0" for j using Cons.prems by (simp add: nth_mem)
    have "case Some (length seen) of None \<Rightarrow> c = 0 \<and> (\<forall>d \<in> set (seen @ [c]). d = 0)
      | Some w \<Rightarrow> w < length (seen @ [c]) \<and> (seen @ [c]) ! w = c \<and> 0 < c \<and> (\<forall>j < length (seen @ [c]). (seen @ [c]) ! j \<le> c)
          \<and> (\<forall>j < w. (seen @ [c]) ! j < c)"
      proof (cases winner)
      case None
      with Cons.prems True show ?thesis by (auto simp: nth_append less_Suc_eq zero [OF None])
    qed (use Cons.prems True in \<open>auto simp: nth_append less_Suc_eq intro: le_less_trans less_imp_le\<close>)
    from Cons.IH [OF this, unfolded append_assoc append_Cons append_Nil] True show ?thesis by simp
  next
    case False
    have "case winner of None \<Rightarrow> best = 0 \<and> (\<forall>d \<in> set (seen @ [c]). d = 0)
      | Some w \<Rightarrow> w < length (seen @ [c]) \<and> (seen @ [c]) ! w = best \<and> 0 < best \<and> (\<forall>j < length (seen @ [c]). (seen @ [c]) ! j \<le> best)
          \<and> (\<forall>j < w. (seen @ [c]) ! j < best)"
      using Cons.prems False by (auto simp: nth_append less_Suc_eq split: option.splits)
    from Cons.IH [OF this, unfolded append_assoc append_Cons append_Nil] False show ?thesis by simp
  qed
qed

text \<open>The set behind a closed poll is that of the option with the most votes, the lowest one on a tie;
  a poll nobody voted on, one with no linkage, or one whose winner is free text has none.\<close>

theorem winner_has_most_votes:
  assumes "po_setRefs p = Some refs" and "length refs = length (po_options p)"
  shows "case resolveWinningSetRef p of
      Some r \<Rightarrow> \<exists>w < length (po_options p). refs ! w = Some r \<and> 0 < votes_for p w
        \<and> (\<forall>j < length (po_options p). votes_for p j \<le> votes_for p w) \<and> (\<forall>j < w. votes_for p j < votes_for p w)
    | None \<Rightarrow> (\<forall>j < length (po_options p). votes_for p j = 0)
        \<or> (\<exists>w < length (po_options p). refs ! w = None \<and> (\<forall>j < length (po_options p). votes_for p j \<le> votes_for p w))"
proof -
  let ?n = "length (po_options p)"
  note scan = winning_index_scan [where winner = None and best = 0 and seen = "[]" and cs = "tally p"]
  show ?thesis
  proof (cases "winning_index 0 0 None (tally p)")
    case None
    with scan have "\<forall>c \<in> set (tally p). c = 0" by simp
    then have "\<forall>j < ?n. votes_for p j = 0" by (metis length_tally nth_mem tally_nth)
    with None assms(1) show ?thesis by (simp add: resolveWinningSetRef_def split: if_splits)
  next
    case (Some w)
    with scan have w: "w < ?n" "0 < tally p ! w" "\<forall>j < ?n. tally p ! j \<le> tally p ! w" "\<forall>j < w. tally p ! j < tally p ! w"
      by (simp_all add: length_tally)
    then have v: "0 < votes_for p w" "\<forall>j < ?n. votes_for p j \<le> votes_for p w" "\<forall>j < w. votes_for p j < votes_for p w"
      using tally_nth [of _ p] by auto
    have "refs \<noteq> []" using w(1) assms(2) by auto
    then have "resolveWinningSetRef p = refs ! w" using Some assms w(1) by (simp add: resolveWinningSetRef_def)
    with v w(1) show ?thesis by (auto split: option.splits)
  qed
qed

definition ex_ref :: "string \<Rightarrow> poll_set_ref" where
  "ex_ref i = \<lparr>ps_setId = i, ps_label = i, ps_stageReference = None, ps_meetAt = None\<rparr>"

lemma winner_has_most_votes_witness:
  "\<exists>w < length (po_options (ex_poll\<lparr>po_setRefs := Some [Some (ex_ref ''s0''), None]\<rparr>)).
     [Some (ex_ref ''s0''), None] ! w = Some (ex_ref ''s0'') \<and> 0 < votes_for (ex_poll\<lparr>po_setRefs := Some [Some (ex_ref ''s0''), None]\<rparr>) w"
proof -
  have "resolveWinningSetRef (ex_poll\<lparr>po_setRefs := Some [Some (ex_ref ''s0''), None]\<rparr>) = Some (ex_ref ''s0'')"
    by code_simp
  moreover have "length (po_options (ex_poll\<lparr>po_setRefs := Some [Some (ex_ref ''s0''), None]\<rparr>)) = 2" by code_simp
  ultimately show ?thesis
    using winner_has_most_votes [of "ex_poll\<lparr>po_setRefs := Some [Some (ex_ref ''s0''), None]\<rparr>" "[Some (ex_ref ''s0''), None]"]
    by auto
qed

text \<open>A refetch forgets the linkage, which the server never had: after a vote is accepted, or any other
  reload, closing the poll has no winner to act on.\<close>

lemma refetch_forgets_linkage:
  assumes "\<forall>p \<in> set (listing_items l). po_setRefs p = None"
  shows "winner_of pid (votePoll_refetched ck (Inr l) s) = None"
proof -
  have "resolveWinningSetRef p = None" if "p \<in> set (polls (loadPolls ck (Inr l) s))" for p
    using that assms by (auto simp: loadPolls_def dropOptimistic_def resolveWinningSetRef_def)
  then show ?thesis
    unfolding winner_of_def votePoll_refetched_def
    by (cases "lookup_key po_id (polls (loadPolls ck (Inr l) s)) pid") (auto dest: lookup_key_Some)
qed

subsection \<open>Errors\<close>

text \<open>The state without the error text and the spinner.\<close>

definition data_of :: "crew_state \<Rightarrow> crew_state" where
  "data_of s = s\<lparr>storeError := None, crewLoading := False\<rparr>"

text \<open>The actions as they run when their request is rejected, whatever their arguments.\<close>

definition rejected_actions :: "clock \<Rightarrow> thrown \<Rightarrow> string \<Rightarrow> string \<Rightarrow> (crew_state \<Rightarrow> crew_state) list" where
  "rejected_actions ck e c i =
    [loadCrews ck (Inl e) \<circ> begin_loading, createCrew ck (Inl e) \<circ> begin_loading, updateCrew ck c (Inl e) \<circ> begin_action,
     joinByCode ck (Failed e) \<circ> begin_loading, leaveCrew ck c (Some e) \<circ> begin_action, kickMember ck i (Some e) \<circ> begin_action,
     transferOwnership_client ck c i (Some e) \<circ> begin_action, regenerateInvite_client ck (Inl e) \<circ> begin_action,
     reformCrew_client ck (Inl e) \<circ> begin_loading, deleteCrew_client ck c (Some e) \<circ> begin_action,
     loadOverlap ck (Inl e) \<circ> begin_action, forceAddMember ck c (Inl e) \<circ> begin_action, loadPolls ck (Inl e) \<circ> begin_action,
     closePoll ck i (Some e) \<circ> begin_action, loadMeetingPoints ck (Inl e) \<circ> begin_action,
     deleteMeetingPoint ck i (Some e) \<circ> begin_action, loadPacking ck (Inl e) \<circ> begin_action,
     deletePackingItem ck i (Some e) \<circ> begin_action, loadRides ck (Inl e) \<circ> begin_action,
     deleteRideOffer ck i (Some e) \<circ> begin_action, loadStatuses ck (Inl e) \<circ> begin_action,
     loadActivity ck (Inl e) \<circ> begin_action, updateHomeBase_client ck c (Failed e) \<circ> begin_action,
     updatePhotoAlbum_client ck c (Inl e) \<circ> begin_action]"

definition rejected_creates ::
  "clock \<Rightarrow> thrown \<Rightarrow> string \<Rightarrow> string \<Rightarrow> create_poll \<Rightarrow> poll_set_ref option list option \<Rightarrow> create_meeting_point
     \<Rightarrow> update_meeting_point \<Rightarrow> create_packing_item \<Rightarrow> update_packing_item \<Rightarrow> create_ride_offer \<Rightarrow> update_ride_offer
     \<Rightarrow> create_client_expense \<Rightarrow> (crew_state \<Rightarrow> crew_state) list" where
  "rejected_creates ck e c i pq refs mq um kq ku rf ru xq =
    [createPoll ck c pq refs (Failed e) \<circ> begin_action, createMeetingPoint ck c mq (Failed e) \<circ> begin_action,
     updateMeetingPoint ck i um (Failed e) \<circ> begin_action, createPackingItem ck c kq (Failed e) \<circ> begin_action,
     updatePackingItem ck i ku (Failed e) \<circ> begin_action, createRideOffer ck c rf (Failed e) \<circ> begin_action,
     updateRideOffer ck i ru (Failed e) \<circ> begin_action, addExpense ck c xq (Failed e) (Inl e) (Inl e) \<circ> begin_action,
     removeExpense ck i (Some e) (Inl e) (Inl e) \<circ> begin_action, settleExpense ck (Some e) (Inl e) (Inl e) \<circ> begin_action]"

lemma fails_data [simp]: "data_of (fails ck f e s) = data_of s" "data_of (fails_loading ck f e s) = data_of s"
  "data_of (begin_action s) = data_of s" "data_of (begin_loading s) = data_of s"
  by (simp_all add: data_of_def fails_def fails_loading_def begin_action_def begin_loading_def)

lemma fails_error [simp]:
  "storeError (fails ck f e s) = Some (mapErrorToUserMessage (ck_parse ck) (ck_now ck) e f)"
  "storeError (fails_loading ck f e s) = Some (mapErrorToUserMessage (ck_parse ck) (ck_now ck) e f)"
  by (simp_all add: fails_def fails_loading_def)

lemmas action_defs =
  loadCrews_def createCrew_def updateCrew_def joinByCode_def leaveCrew_def kickMember_def transferOwnership_client_def
  regenerateInvite_client_def reformCrew_client_def deleteCrew_client_def loadOverlap_def forceAddMember_def loadPolls_def
  closePoll_def loadMeetingPoints_def deleteMeetingPoint_def loadPacking_def deletePackingItem_def loadRides_def
  deleteRideOffer_def loadStatuses_def loadActivity_def updateHomeBase_client_def updatePhotoAlbum_client_def
  createPoll_def createMeetingPoint_def updateMeetingPoint_def createPackingItem_def updatePackingItem_def
  createRideOffer_def updateRideOffer_def addExpense_def removeExpense_def settleExpense_def

text \<open>A rejected action leaves the crews and every board exactly as they were before it began and
  sets an error for the user, for all 34 actions that apply their change only once the server has
  answered.\<close>

theorem rejected_actions_keep_data:
  "\<forall>act \<in> set (rejected_actions ck e c i @ rejected_creates ck e c i pq refs mq um kq ku rf ru xq).
     data_of (act s) = data_of s \<and> storeError (act s) \<noteq> None"
  by (simp add: rejected_actions_def rejected_creates_def action_defs Let_def)

lemma rejected_actions_keep_data_witness:
  "data_of (closePoll ex_clock ''p'' (Some OtherValue) (begin_action ex_voting)) = data_of ex_voting"
  using rejected_actions_keep_data [of ex_clock OtherValue "''c''" "''p''" _ _ _ _ _ _ _ _ _ ex_voting]
  unfolding ball_simps set_append rejected_actions_def by (simp add: ball_Un)

subsection \<open>The persisted cache\<close>

text \<open>Within the bounds of the cache; the board of overlaps and the flags are not persisted.\<close>

definition within_cache :: "crew_state \<Rightarrow> bool" where
  "within_cache s \<longleftrightarrow> length (polls s) \<le> MAX_CACHED_POLLS \<and> length (packingItems s) \<le> MAX_CACHED_PACKING
     \<and> length (rideOffers s) \<le> MAX_CACHED_RIDES \<and> length (crewStatuses s) \<le> MAX_CACHED_STATUSES
     \<and> length (expenses s) \<le> MAX_CACHED_EXPENSES \<and> length (activity s) \<le> MAX_CACHED_ACTIVITY"



end
