(* ===== verification/Crew_Boards.thy ===== *)
theory Crew_Boards
  imports Crew_Types Crew_Store
begin

text \<open>
  The boards of a crew on the server: the stores of meeting points, packing items, ride offers,
  member status and topic subscriptions in \<open>lib/db/stores/crews.ts\<close> and of polls in
  \<open>lib/db/stores/polls.ts\<close>, over tables kept as lists in the order of \<open>created_at\<close>.  A row is the
  record the API serializes.  SQL is modelled by its effect on the rows; \<open>NOW()\<close>, the ISO
  notation of instants and \<open>Date.parse\<close> are the clock's.
\<close>

record sclock =
  sc_parse :: "string \<Rightarrow> int option"
  sc_iso :: "int \<Rightarrow> string"
  sc_now :: int

record sub_row =
  sb_userId :: string
  sb_festivalId :: string
  sb_topic :: string
  sb_subscribed :: bool

record vote_row =
  vr_poll :: string
  vr_user :: string
  vr_option :: int

record board_db =
  bd_crew :: crew_db
  bd_points :: "meeting_point list"
  bd_items :: "packing_item list"
  bd_offers :: "ride_offer list"
  bd_polls :: "crew_poll list"
  bd_votes :: "vote_row list"
  bd_statuses :: "member_status list"
  bd_subs :: "sub_row list"

text \<open>\<open>JOIN users u ON u.id = created_by AND u.deleted_at IS NULL\<close>.\<close>

definition author :: "string \<Rightarrow> board_db \<Rightarrow> user_row option" where
  "author u d = cd_users (bd_crew d) u"

subsection \<open>Topic subscriptions\<close>

definition subs_of :: "string \<Rightarrow> string \<Rightarrow> board_db \<Rightarrow> (string \<times> bool) list" where
  "subs_of userId festivalId d =
     map (\<lambda>r. (sb_topic r, sb_subscribed r)) (filter (\<lambda>r. sb_userId r = userId \<and> sb_festivalId r = festivalId) (bd_subs d))"

definition sub_key :: "sub_row \<Rightarrow> string \<times> string \<times> string" where
  "sub_key r = (sb_userId r, sb_festivalId r, sb_topic r)"

definition setSubscription :: "string \<Rightarrow> string \<Rightarrow> string \<Rightarrow> bool \<Rightarrow> board_db \<Rightarrow> board_db" where
  "setSubscription userId festivalId topic subscribed d =
     d\<lparr>bd_subs := upsert_at sub_key
         \<lparr>sb_userId = userId, sb_festivalId = festivalId, sb_topic = topic, sb_subscribed = subscribed\<rparr> (bd_subs d)\<rparr>"

definition isSubscribed :: "string \<Rightarrow> string \<Rightarrow> string \<Rightarrow> board_db \<Rightarrow> bool" where
  "isSubscribed userId festivalId topic d =
     (case lookup_key sub_key (bd_subs d) (userId, festivalId, topic) of Some r \<Rightarrow> sb_subscribed r | None \<Rightarrow> True)"

definition getUnsubscribedUsers :: "string \<Rightarrow> string \<Rightarrow> board_db \<Rightarrow> string set" where
  "getUnsubscribedUsers festivalId topic d =
     set (map sb_userId (filter (\<lambda>r. sb_festivalId r = festivalId \<and> sb_topic r = topic \<and> \<not> sb_subscribed r) (bd_subs d)))"

subsection \<open>Meeting points\<close>

definition sanitizeMeetingPointText :: "nat \<Rightarrow> string \<Rightarrow> string" where
  "sanitizeMeetingPointText maxLen v = filter (\<lambda>c. c \<noteq> CHR 0x3C \<and> c \<noteq> CHR 0x3E) (sanitizeString maxLen v)"

record point_data =
  pd_id :: string
  pd_crewId :: string
  pd_createdBy :: string
  pd_label :: string
  pd_location :: string
  pd_type :: string
  pd_meetAt :: "string option"
  pd_stageReference :: "string option"
  pd_expiresAt :: "string option"
  pd_latitude :: "rat option"
  pd_longitude :: "rat option"
  pd_recursDaily :: bool

definition point_row :: "sclock \<Rightarrow> point_data \<Rightarrow> meeting_point" where
  "point_row ck p =
     \<lparr>mp_id = pd_id p, mp_crew_id = pd_crewId p, mp_created_by = pd_createdBy p,
      mp_label = sanitizeMeetingPointText 100 (pd_label p), mp_location = sanitizeMeetingPointText 200 (pd_location p),
      mp_type = (if pd_type p = [] then ''during'' else pd_type p), mp_meet_at = truthy (pd_meetAt p),
      mp_stage_reference = truthy (pd_stageReference p), mp_latitude = pd_latitude p, mp_longitude = pd_longitude p,
      mp_recurs_daily = pd_recursDaily p, mp_expires_at = truthy (pd_expiresAt p),
      mp_updated_at = Some (sc_iso ck (sc_now ck)), mp_creator_name = None, mp_active = True,
      mp_created_at = sc_iso ck (sc_now ck), mp_optimistic = False\<rparr>"

definition points_create :: "sclock \<Rightarrow> point_data \<Rightarrow> board_db \<Rightarrow> meeting_point option \<times> board_db" where
  "points_create ck p d =
     (let d1 = d\<lparr>bd_points := bd_points d @ [point_row ck p]\<rparr> in (lookup_key mp_id (bd_points d1) (pd_id p), d1))"

definition type_rank :: "string \<Rightarrow> nat" where
  "type_rank t = (if t = ''emergency'' then 0 else if t = ''pre-show'' then 1 else if t = ''during'' then 2
     else if t = ''post-show'' then 3 else if t = ''post-event'' then 4 else 5)"

definition nulls_last :: "('a \<Rightarrow> int option) \<Rightarrow> 'a list \<Rightarrow> 'a list" where
  "nulls_last f xs = sort_key (\<lambda>x. the (f x)) (filter (\<lambda>x. f x \<noteq> None) xs) @ filter (\<lambda>x. f x = None) xs"

text \<open>\<open>ORDER BY\<close> rank, \<open>meet_at NULLS LAST\<close>, \<open>created_at\<close>: two stable sorts, least significant first.\<close>

definition points_listByCrew :: "sclock \<Rightarrow> string \<Rightarrow> board_db \<Rightarrow> meeting_point list" where
  "points_listByCrew ck crewId d =
     sort_key (\<lambda>m. type_rank (mp_type m)) (nulls_last (\<lambda>m. Option.bind (mp_meet_at m) (sc_parse ck))
       (List.map_filter (\<lambda>m. map_option (\<lambda>u. m\<lparr>mp_creator_name := Some (us_username u)\<rparr>) (author (mp_created_by m) d))
         (filter (\<lambda>m. mp_crew_id m = crewId \<and> mp_active m) (bd_points d))))"

definition points_update ::
  "sclock \<Rightarrow> string \<Rightarrow> update_meeting_point \<Rightarrow> string option \<Rightarrow> board_db \<Rightarrow> meeting_point option \<times> board_db" where
  "points_update ck i u expiresAt d =
     (let set_fields = (\<lambda>m. m\<lparr>mp_label := (case um_label u of Some l \<Rightarrow> sanitizeMeetingPointText 100 l | None \<Rightarrow> mp_label m),
             mp_location := (case um_location u of Some l \<Rightarrow> sanitizeMeetingPointText 200 l | None \<Rightarrow> mp_location m),
             mp_type := (case um_type u of Some t \<Rightarrow> t | None \<Rightarrow> mp_type m),
             mp_meet_at := (case um_meetAt u of Some t \<Rightarrow> t | None \<Rightarrow> mp_meet_at m),
             mp_stage_reference := (case um_stageReference u of Some t \<Rightarrow> t | None \<Rightarrow> mp_stage_reference m),
             mp_latitude := (case um_latitude u of Some x \<Rightarrow> x | None \<Rightarrow> mp_latitude m),
             mp_longitude := (case um_longitude u of Some x \<Rightarrow> x | None \<Rightarrow> mp_longitude m),
             mp_recurs_daily := (case um_recursDaily u of Some b \<Rightarrow> b | None \<Rightarrow> mp_recurs_daily m),
             mp_expires_at := expiresAt, mp_updated_at := Some (sc_iso ck (sc_now ck))\<rparr>);
          d1 = d\<lparr>bd_points := map (\<lambda>m. if mp_id m = i then set_fields m else m) (bd_points d)\<rparr>
      in (lookup_key mp_id (bd_points d1) i, d1))"

definition points_deactivate :: "sclock \<Rightarrow> string \<Rightarrow> board_db \<Rightarrow> board_db" where
  "points_deactivate ck i d =
     d\<lparr>bd_points := map (\<lambda>m. if mp_id m = i then m\<lparr>mp_active := False, mp_updated_at := Some (sc_iso ck (sc_now ck))\<rparr> else m)
         (bd_points d)\<rparr>"

definition points_getById :: "string \<Rightarrow> board_db \<Rightarrow> meeting_point option" where
  "points_getById i d = lookup_key mp_id (bd_points d) i"

definition points_countByCrew :: "string \<Rightarrow> board_db \<Rightarrow> nat" where
  "points_countByCrew crewId d = length (filter (\<lambda>m. mp_crew_id m = crewId \<and> mp_active m) (bd_points d))"

definition is_stale :: "sclock \<Rightarrow> meeting_point \<Rightarrow> bool" where
  "is_stale ck m \<longleftrightarrow> mp_active m \<and>
     (case Option.bind (mp_expires_at m) (sc_parse ck) of Some e \<Rightarrow> e < sc_now ck | None \<Rightarrow> False)"

definition expireStale :: "sclock \<Rightarrow> board_db \<Rightarrow> board_db" where
  "expireStale ck d =
     d\<lparr>bd_points := map (\<lambda>m. if is_stale ck m then m\<lparr>mp_active := False, mp_updated_at := Some (sc_iso ck (sc_now ck))\<rparr> else m)
         (bd_points d)\<rparr>"

subsection \<open>Packing items\<close>

definition item_row :: "sclock \<Rightarrow> string \<Rightarrow> string \<Rightarrow> string \<Rightarrow> string \<Rightarrow> string option \<Rightarrow> bool \<Rightarrow> packing_item" where
  "item_row ck i crewId createdBy label broughtBy claimed =
     \<lparr>pk_id = i, pk_crew_id = crewId, pk_created_by = createdBy, pk_label = label, pk_brought_by = truthy broughtBy,
      pk_claimed = claimed, pk_created_at = sc_iso ck (sc_now ck), pk_optimistic = False\<rparr>"

definition packing_create :: "packing_item \<Rightarrow> board_db \<Rightarrow> packing_item option \<times> board_db" where
  "packing_create row d =
     (let d1 = d\<lparr>bd_items := bd_items d @ [row]\<rparr> in (lookup_key pk_id (bd_items d1) (pk_id row), d1))"

definition packing_listByCrew :: "string \<Rightarrow> board_db \<Rightarrow> packing_item list" where
  "packing_listByCrew crewId d =
     sort_key pk_claimed (filter (\<lambda>x. pk_crew_id x = crewId \<and> author (pk_created_by x) d \<noteq> None) (bd_items d))"

definition packing_update :: "string \<Rightarrow> update_packing_item \<Rightarrow> board_db \<Rightarrow> packing_item option \<times> board_db" where
  "packing_update i u d =
     (if ku_label u = None \<and> ku_broughtBy u = None \<and> ku_claimed u = None then (None, d)
      else let set_fields = (\<lambda>x. x\<lparr>pk_label := (case ku_label u of Some l \<Rightarrow> l | None \<Rightarrow> pk_label x),
                pk_brought_by := (case ku_broughtBy u of Some b \<Rightarrow> b | None \<Rightarrow> pk_brought_by x),
                pk_claimed := (case ku_claimed u of Some c \<Rightarrow> c | None \<Rightarrow> pk_claimed x)\<rparr>);
               d1 = d\<lparr>bd_items := map (\<lambda>x. if pk_id x = i then set_fields x else x) (bd_items d)\<rparr>
           in (lookup_key pk_id (bd_items d1) i, d1))"

definition packing_delete :: "string \<Rightarrow> board_db \<Rightarrow> board_db" where
  "packing_delete i d = d\<lparr>bd_items := remove_key pk_id i (bd_items d)\<rparr>"

definition packing_getById :: "string \<Rightarrow> board_db \<Rightarrow> packing_item option" where
  "packing_getById i d = lookup_key pk_id (bd_items d) i"

definition packing_countByCrew :: "string \<Rightarrow> board_db \<Rightarrow> nat" where
  "packing_countByCrew crewId d = length (filter (\<lambda>x. pk_crew_id x = crewId) (bd_items d))"

subsection \<open>Ride offers\<close>

definition offer_row :: "sclock \<Rightarrow> string \<Rightarrow> string \<Rightarrow> string \<Rightarrow> create_ride_offer \<Rightarrow> ride_offer" where
  "offer_row ck i crewId createdBy q =
     \<lparr>ro_id = i, ro_crew_id = crewId, ro_created_by = createdBy, ro_driver = rf_driver q, ro_seats = rf_seats q,
      ro_depart_from = rf_departFrom q, ro_depart_at = rf_departAt q, ro_note = rf_note q,
      ro_created_at = sc_iso ck (sc_now ck), ro_optimistic = False\<rparr>"

definition rides_create :: "ride_offer \<Rightarrow> board_db \<Rightarrow> ride_offer option \<times> board_db" where
  "rides_create row d =
     (let d1 = d\<lparr>bd_offers := bd_offers d @ [row]\<rparr> in (lookup_key ro_id (bd_offers d1) (ro_id row), d1))"

definition rides_listByCrew :: "string \<Rightarrow> board_db \<Rightarrow> ride_offer list" where
  "rides_listByCrew crewId d = filter (\<lambda>x. ro_crew_id x = crewId \<and> author (ro_created_by x) d \<noteq> None) (bd_offers d)"

definition rides_update :: "string \<Rightarrow> update_ride_offer \<Rightarrow> board_db \<Rightarrow> ride_offer option \<times> board_db" where
  "rides_update i u d =
     (if ru_driver u = None \<and> ru_seats u = None \<and> ru_departFrom u = None \<and> ru_departAt u = None \<and> ru_note u = None
      then (None, d)
      else let set_fields = (\<lambda>x. x\<lparr>ro_driver := (case ru_driver u of Some v \<Rightarrow> v | None \<Rightarrow> ro_driver x),
                ro_seats := (case ru_seats u of Some v \<Rightarrow> v | None \<Rightarrow> ro_seats x),
                ro_depart_from := (case ru_departFrom u of Some v \<Rightarrow> v | None \<Rightarrow> ro_depart_from x),
                ro_depart_at := (case ru_departAt u of Some v \<Rightarrow> v | None \<Rightarrow> ro_depart_at x),
                ro_note := (case ru_note u of Some v \<Rightarrow> v | None \<Rightarrow> ro_note x)\<rparr>);
               d1 = d\<lparr>bd_offers := map (\<lambda>x. if ro_id x = i then set_fields x else x) (bd_offers d)\<rparr>
           in (lookup_key ro_id (bd_offers d1) i, d1))"

definition rides_delete :: "string \<Rightarrow> board_db \<Rightarrow> board_db" where
  "rides_delete i d = d\<lparr>bd_offers := remove_key ro_id i (bd_offers d)\<rparr>"

definition rides_getById :: "string \<Rightarrow> board_db \<Rightarrow> ride_offer option" where
  "rides_getById i d = lookup_key ro_id (bd_offers d) i"

definition rides_countByCrew :: "string \<Rightarrow> board_db \<Rightarrow> nat" where
  "rides_countByCrew crewId d = length (filter (\<lambda>x. ro_crew_id x = crewId) (bd_offers d))"

subsection \<open>Member status\<close>

definition status_key :: "member_status \<Rightarrow> string \<times> string" where
  "status_key m = (ms_crew_id m, ms_user_id m)"

text \<open>\<open>COALESCE(EXCLUDED.x, x)\<close>.\<close>

definition coalesce :: "'a option \<Rightarrow> 'a option \<Rightarrow> 'a option" where
  "coalesce new old = (case new of Some v \<Rightarrow> Some v | None \<Rightarrow> old)"

definition status_row :: "sclock \<Rightarrow> string \<Rightarrow> string \<Rightarrow> update_status \<Rightarrow> member_status option \<Rightarrow> member_status" where
  "status_row ck crewId userId q old =
     \<lparr>ms_crew_id = crewId, ms_user_id = userId,
      ms_status = (case su_status q of Some v \<Rightarrow> v | None \<Rightarrow> None), ms_target = (case su_target q of Some v \<Rightarrow> v | None \<Rightarrow> None),
      ms_eta_minutes = (case su_eta_minutes q of Some v \<Rightarrow> v | None \<Rightarrow> None),
      ms_note = (case su_note q of Some v \<Rightarrow> v | None \<Rightarrow> None),
      ms_latitude = coalesce (map_option sq_lat (position_of q)) (Option.bind old ms_latitude),
      ms_longitude = coalesce (map_option sq_lng (position_of q)) (Option.bind old ms_longitude),
      ms_location_captured_at =
        coalesce (map_option (\<lambda>p. case sq_capturedAt p of Some t \<Rightarrow> t | None \<Rightarrow> sc_iso ck (sc_now ck)) (position_of q))
          (Option.bind old ms_location_captured_at),
      ms_updated_at = sc_iso ck (sc_now ck), ms_username = None, ms_name = None, ms_avatar_key = None,
      ms_avatar_version = None, ms_optimistic = False\<rparr>"

definition status_upsert ::
  "sclock \<Rightarrow> string \<Rightarrow> string \<Rightarrow> update_status \<Rightarrow> board_db \<Rightarrow> member_status option \<times> board_db" where
  "status_upsert ck crewId userId q d =
     (let row = status_row ck crewId userId q (lookup_key status_key (bd_statuses d) (crewId, userId));
          d1 = d\<lparr>bd_statuses := upsert_at status_key row (bd_statuses d)\<rparr>
      in (lookup_key status_key (bd_statuses d1) (crewId, userId), d1))"

definition status_listByCrew :: "sclock \<Rightarrow> string \<Rightarrow> board_db \<Rightarrow> member_status list" where
  "status_listByCrew ck crewId d =
     sort_key (\<lambda>m. - (case sc_parse ck (ms_updated_at m) of Some t \<Rightarrow> t | None \<Rightarrow> 0))
       (List.map_filter (\<lambda>m. map_option (\<lambda>u. m\<lparr>ms_username := Some (us_username u), ms_name := us_name u,
             ms_avatar_key := us_avatarKey u, ms_avatar_version := us_avatarVersion u\<rparr>) (author (ms_user_id m) d))
         (filter (\<lambda>m. ms_crew_id m = crewId) (bd_statuses d)))"

subsection \<open>Polls\<close>

definition poll_row :: "sclock \<Rightarrow> string \<Rightarrow> string \<Rightarrow> string \<Rightarrow> create_poll \<Rightarrow> crew_poll" where
  "poll_row ck i crewId createdBy q =
     \<lparr>po_id = i, po_crew_id = crewId, po_created_by = createdBy, po_question = pq_question q, po_options = pq_options q,
      po_votes = None, po_closes_at = pq_closesAt q, po_closed = False, po_created_at = sc_iso ck (sc_now ck),
      po_optimistic = False, po_setRefs = None\<rparr>"

definition polls_create :: "crew_poll \<Rightarrow> board_db \<Rightarrow> crew_poll \<times> board_db" where
  "polls_create row d = (row, d\<lparr>bd_polls := bd_polls d @ [row]\<rparr>)"

definition open_poll :: "sclock \<Rightarrow> crew_poll \<Rightarrow> bool" where
  "open_poll ck p \<longleftrightarrow> \<not> po_closed p \<and> (case po_closes_at p of None \<Rightarrow> True
     | Some t \<Rightarrow> (case sc_parse ck t of Some x \<Rightarrow> sc_now ck < x | None \<Rightarrow> False))"

text \<open>The \<open>LEFT JOIN\<close> of a poll without votes aggregates one entry of nulls.\<close>

definition aggregated_votes :: "string \<Rightarrow> board_db \<Rightarrow> poll_vote list" where
  "aggregated_votes pollId d =
     (case filter (\<lambda>v. vr_poll v = pollId) (bd_votes d) of
        [] \<Rightarrow> [\<lparr>pv_option = None, pv_user_id = None\<rparr>]
      | vs \<Rightarrow> map (\<lambda>v. \<lparr>pv_option = Some (vr_option v), pv_user_id = Some (vr_user v)\<rparr>) vs)"

definition polls_listByCrew :: "sclock \<Rightarrow> string \<Rightarrow> board_db \<Rightarrow> crew_poll list" where
  "polls_listByCrew ck crewId d =
     map (\<lambda>p. p\<lparr>po_votes := Some (aggregated_votes (po_id p) d)\<rparr>)
       (rev (filter (\<lambda>p. po_crew_id p = crewId \<and> open_poll ck p) (bd_polls d)))"

definition vote_key :: "vote_row \<Rightarrow> string \<times> string" where
  "vote_key v = (vr_poll v, vr_user v)"

definition polls_vote :: "string \<Rightarrow> string \<Rightarrow> int \<Rightarrow> board_db \<Rightarrow> board_db" where
  "polls_vote pollId userId i d =
     d\<lparr>bd_votes := upsert_at vote_key \<lparr>vr_poll = pollId, vr_user = userId, vr_option = i\<rparr> (bd_votes d)\<rparr>"

definition polls_close :: "string \<Rightarrow> board_db \<Rightarrow> crew_poll option \<times> board_db" where
  "polls_close pollId d =
     (let d1 = d\<lparr>bd_polls := map (\<lambda>p. if po_id p = pollId then p\<lparr>po_closed := True\<rparr> else p) (bd_polls d)\<rparr>
      in (lookup_key po_id (bd_polls d1) pollId, d1))"

definition countActiveByCrew :: "sclock \<Rightarrow> string \<Rightarrow> board_db \<Rightarrow> nat" where
  "countActiveByCrew ck crewId d = length (filter (\<lambda>p. po_crew_id p = crewId \<and> open_poll ck p) (bd_polls d))"

definition polls_getById :: "string \<Rightarrow> board_db \<Rightarrow> crew_poll option" where
  "polls_getById pollId d = lookup_key po_id (bd_polls d) pollId"

end
