(* ===== verification/Crew_Board_Routes.thy ===== *)
theory Crew_Board_Routes
  imports Crew_Boards
begin

text \<open>
  The handlers of the crew boards: \<open>routes/crew-meeting-points.ts\<close> (with home base and photo
  album), \<open>crew-packing.ts\<close>, \<open>crew-rides.ts\<close>, \<open>crew-polls.ts\<close> and \<open>crew-status.ts\<close>, with the request
  schemas of \<open>lib/schemas.ts\<close>.  A handler is a function of the validated request; a failing
  database answers 500 before anything is written.  \<open>ErrorCodes.CONFLICT\<close> does not exist, so the
  answers that name it carry no code.  Emits are logged with their room; a logged activity is
  its type and detail.
\<close>

type_synonym 'a breply = "(nat \<times> string \<times> error_code option) + nat \<times> 'a"

datatype board_event =
    EvHomeBase string "string option" "string option"
  | EvPhotoAlbum string "string option"
  | EvPointCreated "meeting_point option"
  | EvPointUpdated "meeting_point option"
  | EvPointRemoved string string
  | EvItemCreated "packing_item option"
  | EvItemUpdated "packing_item option"
  | EvItemDeleted string
  | EvOfferCreated "ride_offer option"
  | EvOfferUpdated "ride_offer option"
  | EvOfferDeleted string
  | EvPollCreated string string "string list" string
  | EvPollVoted string string int
  | EvPollClosed string
  | EvStatusUpdated "member_status option"

record board_srv =
  bs_db :: board_db
  bs_up :: bool
  bs_emits :: "(string \<times> board_event) list"
  bs_activity :: "(string \<times> string \<times> string \<times> string option) list"

definition refuse :: "nat \<Rightarrow> string \<Rightarrow> error_code option \<Rightarrow> board_srv \<Rightarrow> 'a breply \<times> board_srv" where
  "refuse st msg code s = (Inl (st, msg, code), s)"

definition emits :: "string \<Rightarrow> board_event \<Rightarrow> board_srv \<Rightarrow> board_srv" where
  "emits crewId ev s = s\<lparr>bs_emits := bs_emits s @ [(''crew:'' @ crewId, ev)]\<rparr>"

definition logs :: "string \<Rightarrow> string \<Rightarrow> string \<Rightarrow> string option \<Rightarrow> board_srv \<Rightarrow> board_srv" where
  "logs crewId u kind detail s = s\<lparr>bs_activity := bs_activity s @ [(crewId, u, kind, detail)]\<rparr>"

text \<open>The frame of every handler: the \<open>catch\<close>, the crew id and the membership check.\<close>

definition as_member ::
  "string \<Rightarrow> string \<Rightarrow> string \<Rightarrow> (string \<Rightarrow> crew_member \<Rightarrow> 'a breply \<times> board_srv) \<Rightarrow> board_srv \<Rightarrow> 'a breply \<times> board_srv" where
  "as_member msg crewParam u body s =
     (if \<not> bs_up s then refuse 500 msg (Some INTERNAL_ERROR) s
      else case sanitizeIdentifier crewParam of
             None \<Rightarrow> refuse 403 ''Not a crew member'' (Some FORBIDDEN) s
           | Some crewId \<Rightarrow> (case getMember crewId u (bd_crew (bs_db s)) of
               None \<Rightarrow> refuse 403 ''Not a crew member'' (Some FORBIDDEN) s
             | Some m \<Rightarrow> body crewId m))"

definition may_edit :: "string \<Rightarrow> string \<Rightarrow> crew_member \<Rightarrow> bool" where
  "may_edit creator u m \<longleftrightarrow> creator = u \<or> cm_role m = Owner"

subsection \<open>Home base and photo album\<close>

definition set_crew_db :: "crew_db \<Rightarrow> board_srv \<Rightarrow> board_srv" where
  "set_crew_db d s = s\<lparr>bs_db := (bs_db s)\<lparr>bd_crew := d\<rparr>\<rparr>"

definition set_home_base ::
  "string \<Rightarrow> string \<Rightarrow> string option \<Rightarrow> string option \<Rightarrow> board_srv \<Rightarrow> crew option breply \<times> board_srv" where
  "set_home_base crewParam u location time s =
     as_member ''Failed to update home base'' crewParam u (\<lambda>crewId m.
       if cm_role m \<noteq> Owner then refuse 403 ''Only owner can set home base'' (Some FORBIDDEN) s
       else (case updateHomeBase crewId location time (bd_crew (bs_db s)) of
               (updated, d) \<Rightarrow>
                 (Inr (200, updated),
                  logs crewId u ''home-base-updated'' (truthy location)
                    (emits crewId (EvHomeBase crewId location time) (set_crew_db d s))))) s"

definition set_photo_album ::
  "string \<Rightarrow> string \<Rightarrow> string option \<Rightarrow> board_srv \<Rightarrow> crew option breply \<times> board_srv" where
  "set_photo_album crewParam u url s =
     as_member ''Failed to update photo album'' crewParam u (\<lambda>crewId m.
       let photoAlbumUrl = truthy url
       in (case updatePhotoAlbum crewId photoAlbumUrl (bd_crew (bs_db s)) of
             (updated, d) \<Rightarrow>
               (Inr (200, updated),
                logs crewId u ''photo-album-updated'' photoAlbumUrl
                  (emits crewId (EvPhotoAlbum crewId photoAlbumUrl) (set_crew_db d s))))) s"

subsection \<open>Meeting points\<close>

definition MEETING_POINT_TYPES :: "string list" where
  "MEETING_POINT_TYPES = [''pre-show'', ''during'', ''post-show'', ''post-event'', ''emergency'', ''general'']"

definition MAX_MEETING_POINTS_PER_CREW :: nat where
  "MAX_MEETING_POINTS_PER_CREW = 20"

definition in_range :: "rat \<Rightarrow> rat \<Rightarrow> rat option \<Rightarrow> bool" where
  "in_range lo hi v = (case v of Some x \<Rightarrow> lo \<le> x \<and> x \<le> hi | None \<Rightarrow> True)"

definition max_len :: "nat \<Rightarrow> string option \<Rightarrow> bool" where
  "max_len n v = (case v of Some t \<Rightarrow> length t \<le> n | None \<Rightarrow> True)"

text \<open>\<open>z.string().trim().min(1).max(n)\<close>: the trimmed text, when its length fits.\<close>

definition trimmed_text :: "nat \<Rightarrow> string \<Rightarrow> string option" where
  "trimmed_text n v = (let t = js_trim v in if 1 \<le> length t \<and> length t \<le> n then Some t else None)"

text \<open>\<open>isDatetime\<close> is zod's check of ISO date-times.\<close>

definition meetingPointCreateSchema :: "(string \<Rightarrow> bool) \<Rightarrow> create_meeting_point \<Rightarrow> create_meeting_point option" where
  "meetingPointCreateSchema isDatetime b =
     (case (trimmed_text 100 (mq_label b), trimmed_text 200 (mq_location b)) of
        (Some label, Some location) \<Rightarrow>
          let t = (case mq_type b of Some t \<Rightarrow> t | None \<Rightarrow> ''during'')
          in if t \<in> set MEETING_POINT_TYPES \<and> (case mq_meetAt b of Some v \<Rightarrow> isDatetime v | None \<Rightarrow> True)
                \<and> max_len 100 (mq_stageReference b) \<and> in_range (-90) 90 (mq_latitude b) \<and> in_range (-180) 180 (mq_longitude b)
             then Some (b\<lparr>mq_label := label, mq_location := location, mq_type := Some t\<rparr>) else None
      | _ \<Rightarrow> None)"

text \<open>\<open>new Date(new Date(t).getTime() + 30 * 60_000).toISOString()\<close>, which throws on an invalid date.\<close>

definition half_hour_after :: "sclock \<Rightarrow> string \<Rightarrow> string option" where
  "half_hour_after ck t = map_option (\<lambda>ms. sc_iso ck (ms + 30 * 60000)) (sc_parse ck t)"

text \<open>The expiry: none for a recurring or untimed point; the inner \<open>None\<close> is null, the outer a throw.\<close>

definition expiry :: "sclock \<Rightarrow> string option \<Rightarrow> bool \<Rightarrow> string option option" where
  "expiry ck meetAt recurs =
     (case truthy meetAt of
        None \<Rightarrow> Some None
      | Some t \<Rightarrow> if recurs then Some None else map_option Some (half_hour_after ck t))"

definition list_points :: "sclock \<Rightarrow> string \<Rightarrow> string \<Rightarrow> board_srv \<Rightarrow> meeting_point list breply \<times> board_srv" where
  "list_points ck crewParam u s =
     as_member ''Failed to load meeting points'' crewParam u
       (\<lambda>crewId m. (Inr (200, points_listByCrew ck crewId (bs_db s)), s)) s"

definition create_point ::
  "sclock \<Rightarrow> string \<Rightarrow> string \<Rightarrow> string \<Rightarrow> create_meeting_point \<Rightarrow> board_srv \<Rightarrow> meeting_point option breply \<times> board_srv" where
  "create_point ck newId crewParam u b s =
     as_member ''Failed to create meeting point'' crewParam u (\<lambda>crewId m.
       if MAX_MEETING_POINTS_PER_CREW \<le> points_countByCrew crewId (bs_db s)
       then refuse 400 (''Maximum '' @ show_nat MAX_MEETING_POINTS_PER_CREW @ '' meeting points per crew'') (Some VALIDATION_ERROR) s
       else (case expiry ck (mq_meetAt b) (mq_recursDaily b = Some True) of
               None \<Rightarrow> refuse 500 ''Failed to create meeting point'' (Some INTERNAL_ERROR) s
             | Some expiresAt \<Rightarrow>
                 (case points_create ck
                     \<lparr>pd_id = newId, pd_crewId = crewId, pd_createdBy = u, pd_label = mq_label b, pd_location = mq_location b,
                      pd_type = (case truthy (mq_type b) of Some t \<Rightarrow> t | None \<Rightarrow> ''during''), pd_meetAt = mq_meetAt b,
                      pd_stageReference = mq_stageReference b, pd_expiresAt = expiresAt, pd_latitude = mq_latitude b,
                      pd_longitude = mq_longitude b, pd_recursDaily = (mq_recursDaily b = Some True)\<rparr> (bs_db s) of
                    (point, d) \<Rightarrow> (Inr (201, point), emits crewId (EvPointCreated point) (s\<lparr>bs_db := d\<rparr>))))) s"

definition live_point :: "string \<Rightarrow> string \<Rightarrow> board_db \<Rightarrow> meeting_point option" where
  "live_point crewId mpParam d =
     (case Option.bind (sanitizeIdentifier mpParam) (\<lambda>i. points_getById i d) of
        Some p \<Rightarrow> if mp_crew_id p \<noteq> crewId \<or> \<not> mp_active p then None else Some p
      | None \<Rightarrow> None)"

definition update_point ::
  "sclock \<Rightarrow> string \<Rightarrow> string \<Rightarrow> string \<Rightarrow> update_meeting_point \<Rightarrow> board_srv \<Rightarrow> meeting_point option breply \<times> board_srv" where
  "update_point ck crewParam mpParam u b s =
     as_member ''Failed to update meeting point'' crewParam u (\<lambda>crewId m.
       case live_point crewId mpParam (bs_db s) of
         None \<Rightarrow> refuse 404 ''Meeting point not found'' (Some NOT_FOUND) s
       | Some p \<Rightarrow>
           if \<not> may_edit (mp_created_by p) u m
           then refuse 403 ''Only the creator or crew owner can edit'' (Some FORBIDDEN) s
           else (case expiry ck (case um_meetAt b of Some t \<Rightarrow> t | None \<Rightarrow> mp_meet_at p)
                     (case um_recursDaily b of Some r \<Rightarrow> r | None \<Rightarrow> mp_recurs_daily p) of
                   None \<Rightarrow> refuse 500 ''Failed to update meeting point'' (Some INTERNAL_ERROR) s
                 | Some expiresAt \<Rightarrow>
                     (case points_update ck (mp_id p) b expiresAt (bs_db s) of
                        (updated, d) \<Rightarrow> (Inr (200, updated), emits crewId (EvPointUpdated updated) (s\<lparr>bs_db := d\<rparr>))))) s"

definition delete_point :: "sclock \<Rightarrow> string \<Rightarrow> string \<Rightarrow> string \<Rightarrow> board_srv \<Rightarrow> unit breply \<times> board_srv" where
  "delete_point ck crewParam mpParam u s =
     as_member ''Failed to remove meeting point'' crewParam u (\<lambda>crewId m.
       case live_point crewId mpParam (bs_db s) of
         None \<Rightarrow> refuse 404 ''Meeting point not found'' (Some NOT_FOUND) s
       | Some p \<Rightarrow>
           if \<not> may_edit (mp_created_by p) u m
           then refuse 403 ''Only the creator or crew owner can remove'' (Some FORBIDDEN) s
           else (Inr (200, ()), emits crewId (EvPointRemoved (mp_id p) crewId)
                   (s\<lparr>bs_db := points_deactivate ck (mp_id p) (bs_db s)\<rparr>))) s"

subsection \<open>Packing list\<close>

definition packingCreateSchema :: "create_packing_item \<Rightarrow> create_packing_item option" where
  "packingCreateSchema b =
     (case trimmed_text 200 (kq_label b) of
        None \<Rightarrow> None
      | Some label \<Rightarrow>
          let by = map_option js_trim (kq_broughtBy b)
          in if max_len 100 by then Some (b\<lparr>kq_label := label, kq_broughtBy := by\<rparr>) else None)"

definition list_items :: "string \<Rightarrow> string \<Rightarrow> board_srv \<Rightarrow> packing_item list breply \<times> board_srv" where
  "list_items crewParam u s =
     as_member ''Failed to list packing items'' crewParam u
       (\<lambda>crewId m. (Inr (200, packing_listByCrew crewId (bs_db s)), s)) s"

definition create_item ::
  "sclock \<Rightarrow> string \<Rightarrow> string \<Rightarrow> string \<Rightarrow> create_packing_item \<Rightarrow> board_srv \<Rightarrow> packing_item option breply \<times> board_srv" where
  "create_item ck newId crewParam u b s =
     as_member ''Failed to add packing item'' crewParam u (\<lambda>crewId m.
       if 200 \<le> packing_countByCrew crewId (bs_db s)
       then refuse 409 ''Max 200 packing items per crew'' None s
       else (case packing_create (item_row ck newId crewId u (kq_label b) (kq_broughtBy b) (kq_claimed b = Some True)) (bs_db s) of
               (item, d) \<Rightarrow>
                 (Inr (200, item),
                  logs crewId u ''packing-created'' (map_option (\<lambda>x. take 100 (pk_label x)) item)
                    (emits crewId (EvItemCreated item) (s\<lparr>bs_db := d\<rparr>))))) s"

definition crew_item :: "string \<Rightarrow> string \<Rightarrow> board_db \<Rightarrow> packing_item option" where
  "crew_item crewId itemParam d =
     (case Option.bind (sanitizeIdentifier itemParam) (\<lambda>i. packing_getById i d) of
        Some x \<Rightarrow> if pk_crew_id x \<noteq> crewId then None else Some x
      | None \<Rightarrow> None)"

definition update_item ::
  "string \<Rightarrow> string \<Rightarrow> string \<Rightarrow> update_packing_item \<Rightarrow> board_srv \<Rightarrow> packing_item option breply \<times> board_srv" where
  "update_item crewParam itemParam u b s =
     as_member ''Failed to update packing item'' crewParam u (\<lambda>crewId m.
       case crew_item crewId itemParam (bs_db s) of
         None \<Rightarrow> refuse 404 ''Packing item not found'' (Some NOT_FOUND) s
       | Some x \<Rightarrow> (case packing_update (pk_id x) b (bs_db s) of
             (item, d) \<Rightarrow> (Inr (200, item), emits crewId (EvItemUpdated item) (s\<lparr>bs_db := d\<rparr>)))) s"

definition delete_item :: "string \<Rightarrow> string \<Rightarrow> string \<Rightarrow> board_srv \<Rightarrow> unit breply \<times> board_srv" where
  "delete_item crewParam itemParam u s =
     as_member ''Failed to remove packing item'' crewParam u (\<lambda>crewId m.
       case crew_item crewId itemParam (bs_db s) of
         None \<Rightarrow> refuse 404 ''Packing item not found'' (Some NOT_FOUND) s
       | Some x \<Rightarrow>
           if \<not> may_edit (pk_created_by x) u m
           then refuse 403 ''Only creator or owner can remove item'' (Some FORBIDDEN) s
           else (Inr (200, ()), emits crewId (EvItemDeleted (pk_id x)) (s\<lparr>bs_db := packing_delete (pk_id x) (bs_db s)\<rparr>))) s"

subsection \<open>Ride board\<close>

definition rideCreateSchema :: "create_ride_offer \<Rightarrow> create_ride_offer option" where
  "rideCreateSchema b =
     (let b' = b\<lparr>rf_driver := map_option js_trim (rf_driver b), rf_departFrom := map_option js_trim (rf_departFrom b),
                 rf_departAt := map_option js_trim (rf_departAt b), rf_note := map_option js_trim (rf_note b)\<rparr>
      in if max_len 100 (rf_driver b') \<and> (case rf_seats b' of Some n \<Rightarrow> 0 \<le> n \<and> n \<le> 99 | None \<Rightarrow> True)
            \<and> max_len 200 (rf_departFrom b') \<and> max_len 100 (rf_departAt b') \<and> max_len 500 (rf_note b')
         then Some b' else None)"

definition list_offers :: "string \<Rightarrow> string \<Rightarrow> board_srv \<Rightarrow> ride_offer list breply \<times> board_srv" where
  "list_offers crewParam u s =
     as_member ''Failed to list ride offers'' crewParam u
       (\<lambda>crewId m. (Inr (200, rides_listByCrew crewId (bs_db s)), s)) s"

definition ride_detail :: "ride_offer \<Rightarrow> string" where
  "ride_detail x = take 100 (case truthy (ro_driver x) of Some v \<Rightarrow> v
     | None \<Rightarrow> (case truthy (ro_depart_from x) of Some v \<Rightarrow> v | None \<Rightarrow> ''Ride''))"

definition create_offer ::
  "sclock \<Rightarrow> string \<Rightarrow> string \<Rightarrow> string \<Rightarrow> create_ride_offer \<Rightarrow> board_srv \<Rightarrow> ride_offer option breply \<times> board_srv" where
  "create_offer ck newId crewParam u b s =
     as_member ''Failed to add ride offer'' crewParam u (\<lambda>crewId m.
       if 200 \<le> rides_countByCrew crewId (bs_db s)
       then refuse 409 ''Max 200 ride offers per crew'' None s
       else (case rides_create (offer_row ck newId crewId u b) (bs_db s) of
               (offer, d) \<Rightarrow>
                 (Inr (200, offer),
                  logs crewId u ''ride-created'' (map_option ride_detail offer)
                    (emits crewId (EvOfferCreated offer) (s\<lparr>bs_db := d\<rparr>))))) s"

definition crew_offer :: "string \<Rightarrow> string \<Rightarrow> board_db \<Rightarrow> ride_offer option" where
  "crew_offer crewId itemParam d =
     (case Option.bind (sanitizeIdentifier itemParam) (\<lambda>i. rides_getById i d) of
        Some x \<Rightarrow> if ro_crew_id x \<noteq> crewId then None else Some x
      | None \<Rightarrow> None)"

definition update_offer ::
  "string \<Rightarrow> string \<Rightarrow> string \<Rightarrow> update_ride_offer \<Rightarrow> board_srv \<Rightarrow> ride_offer option breply \<times> board_srv" where
  "update_offer crewParam itemParam u b s =
     as_member ''Failed to update ride offer'' crewParam u (\<lambda>crewId m.
       case crew_offer crewId itemParam (bs_db s) of
         None \<Rightarrow> refuse 404 ''Ride offer not found'' (Some NOT_FOUND) s
       | Some x \<Rightarrow> (case rides_update (ro_id x) b (bs_db s) of
             (offer, d) \<Rightarrow> (Inr (200, offer), emits crewId (EvOfferUpdated offer) (s\<lparr>bs_db := d\<rparr>)))) s"

definition delete_offer :: "string \<Rightarrow> string \<Rightarrow> string \<Rightarrow> board_srv \<Rightarrow> unit breply \<times> board_srv" where
  "delete_offer crewParam itemParam u s =
     as_member ''Failed to remove ride offer'' crewParam u (\<lambda>crewId m.
       case crew_offer crewId itemParam (bs_db s) of
         None \<Rightarrow> refuse 404 ''Ride offer not found'' (Some NOT_FOUND) s
       | Some x \<Rightarrow>
           if \<not> may_edit (ro_created_by x) u m
           then refuse 403 ''Only creator or owner can remove offer'' (Some FORBIDDEN) s
           else (Inr (200, ()), emits crewId (EvOfferDeleted (ro_id x)) (s\<lparr>bs_db := rides_delete (ro_id x) (bs_db s)\<rparr>))) s"

subsection \<open>Polls\<close>

definition pollCreateSchema :: "(string \<Rightarrow> bool) \<Rightarrow> create_poll \<Rightarrow> create_poll option" where
  "pollCreateSchema isDatetime b =
     (case (trimmed_text 500 (pq_question b), those (map (trimmed_text 200) (pq_options b))) of
        (Some q, Some opts) \<Rightarrow>
          if 2 \<le> length opts \<and> length opts \<le> 4 \<and> (case pq_closesAt b of Some v \<Rightarrow> isDatetime v | None \<Rightarrow> True)
          then Some (b\<lparr>pq_question := q, pq_options := opts\<rparr>) else None
      | _ \<Rightarrow> None)"

definition pollVoteSchema :: "int \<Rightarrow> bool" where
  "pollVoteSchema i \<longleftrightarrow> 0 \<le> i \<and> i \<le> 3"

definition list_polls :: "sclock \<Rightarrow> string \<Rightarrow> string \<Rightarrow> board_srv \<Rightarrow> crew_poll list breply \<times> board_srv" where
  "list_polls ck crewParam u s =
     as_member ''Failed to list polls'' crewParam u
       (\<lambda>crewId m. (Inr (200, polls_listByCrew ck crewId (bs_db s)), s)) s"

definition create_poll_route ::
  "sclock \<Rightarrow> string \<Rightarrow> string \<Rightarrow> string \<Rightarrow> create_poll \<Rightarrow> board_srv \<Rightarrow> crew_poll breply \<times> board_srv" where
  "create_poll_route ck newId crewParam u b s =
     as_member ''Failed to create poll'' crewParam u (\<lambda>crewId m.
       if 3 \<le> countActiveByCrew ck crewId (bs_db s)
       then refuse 409 ''Max 3 active polls per crew'' None s
       else (case polls_create (poll_row ck newId crewId u (b\<lparr>pq_closesAt := truthy (pq_closesAt b)\<rparr>)) (bs_db s) of
               (poll, d) \<Rightarrow>
                 (Inr (200, poll),
                  logs crewId u ''poll-created'' (Some (take 100 (po_question poll)))
                    (emits crewId (EvPollCreated (po_id poll) (po_question poll) (po_options poll) u) (s\<lparr>bs_db := d\<rparr>))))) s"

definition crew_poll_of :: "string \<Rightarrow> string \<Rightarrow> board_db \<Rightarrow> crew_poll option" where
  "crew_poll_of crewId pollParam d =
     (case Option.bind (sanitizeIdentifier pollParam) (\<lambda>i. polls_getById i d) of
        Some p \<Rightarrow> if po_crew_id p \<noteq> crewId then None else Some p
      | None \<Rightarrow> None)"

definition past_close :: "sclock \<Rightarrow> crew_poll \<Rightarrow> bool" where
  "past_close ck p =
     (case truthy (po_closes_at p) of
        None \<Rightarrow> False
      | Some t \<Rightarrow> (case sc_parse ck t of Some x \<Rightarrow> x \<le> sc_now ck | None \<Rightarrow> False))"

definition vote_route ::
  "sclock \<Rightarrow> string \<Rightarrow> string \<Rightarrow> string \<Rightarrow> int \<Rightarrow> board_srv \<Rightarrow> unit breply \<times> board_srv" where
  "vote_route ck crewParam pollParam u i s =
     as_member ''Failed to vote'' crewParam u (\<lambda>crewId m.
       case crew_poll_of crewId pollParam (bs_db s) of
         None \<Rightarrow> refuse 404 ''Poll not found'' (Some NOT_FOUND) s
       | Some p \<Rightarrow>
           if int (length (po_options p)) \<le> i then refuse 400 ''Invalid option index'' (Some INVALID_INPUT) s
           else if po_closed p \<or> past_close ck p then refuse 409 ''Poll is closed'' None s
           else (Inr (200, ()),
                 logs crewId u ''poll-voted'' (truthy (Some (po_options p ! nat i)))
                   (emits crewId (EvPollVoted (po_id p) u i) (s\<lparr>bs_db := polls_vote (po_id p) u i (bs_db s)\<rparr>)))) s"

definition close_route :: "string \<Rightarrow> string \<Rightarrow> string \<Rightarrow> board_srv \<Rightarrow> crew_poll option breply \<times> board_srv" where
  "close_route crewParam pollParam u s =
     as_member ''Failed to close poll'' crewParam u (\<lambda>crewId m.
       case crew_poll_of crewId pollParam (bs_db s) of
         None \<Rightarrow> refuse 404 ''Poll not found'' (Some NOT_FOUND) s
       | Some p \<Rightarrow>
           if \<not> may_edit (po_created_by p) u m
           then refuse 403 ''Only creator or owner can close poll'' (Some FORBIDDEN) s
           else (case polls_close (po_id p) (bs_db s) of
                   (shut, d) \<Rightarrow> (Inr (200, shut), emits crewId (EvPollClosed (po_id p)) (s\<lparr>bs_db := d\<rparr>)))) s"

subsection \<open>Member status\<close>

definition crewStatusSchema :: "(string \<Rightarrow> bool) \<Rightarrow> update_status \<Rightarrow> update_status option" where
  "crewStatusSchema isDatetime b =
     (let b' = b\<lparr>su_target := map_option (map_option js_trim) (su_target b), su_note := map_option (map_option js_trim) (su_note b)\<rparr>
      in if (su_status b \<noteq> None \<or> su_target b \<noteq> None \<or> su_eta_minutes b \<noteq> None \<or> su_note b \<noteq> None \<or> su_position b \<noteq> None)
            \<and> max_len 100 (Option.bind (su_target b') id) \<and> max_len 280 (Option.bind (su_note b') id)
            \<and> (case Option.bind (su_eta_minutes b) id of Some n \<Rightarrow> 0 \<le> n \<and> n \<le> 1440 | None \<Rightarrow> True)
            \<and> (case position_of b of None \<Rightarrow> True | Some p \<Rightarrow>
                 in_range (-90) 90 (Some (sq_lat p)) \<and> in_range (-180) 180 (Some (sq_lng p))
                 \<and> (case sq_capturedAt p of Some t \<Rightarrow> isDatetime t | None \<Rightarrow> True))
         then Some b' else None)"

definition list_statuses :: "sclock \<Rightarrow> string \<Rightarrow> string \<Rightarrow> board_srv \<Rightarrow> member_status list breply \<times> board_srv" where
  "list_statuses ck crewParam u s =
     as_member ''Failed to list crew status'' crewParam u
       (\<lambda>crewId m. (Inr (200, status_listByCrew ck crewId (bs_db s)), s)) s"

definition put_status_route ::
  "sclock \<Rightarrow> string \<Rightarrow> string \<Rightarrow> update_status \<Rightarrow> board_srv \<Rightarrow> member_status option breply \<times> board_srv" where
  "put_status_route ck crewParam u b s =
     as_member ''Failed to update crew status'' crewParam u (\<lambda>crewId m.
       case status_upsert ck crewId u b (bs_db s) of
         (row, d) \<Rightarrow> (Inr (200, row), emits crewId (EvStatusUpdated row) (s\<lparr>bs_db := d\<rparr>))) s"

end
