(* ===== verification/Crew_Board_Props.thy ===== *)
theory Crew_Board_Props
  imports Crew_Board_Routes
begin

text \<open>
  What the handlers of the crew boards guarantee together: who may write what, that a crew's
  requests leave the other crews' rows alone, the caps, and that recurring meeting points never
  expire.
\<close>

subsection \<open>Requests\<close>

datatype board_request =
    PutHomeBase "string option" "string option"
  | PutAlbum "string option"
  | PostPoint string create_meeting_point
  | PutPoint string update_meeting_point
  | DropPoint string
  | PostItem string create_packing_item
  | PutItem string update_packing_item
  | DropItem string
  | PostOffer string create_ride_offer
  | PutOffer string update_ride_offer
  | DropOffer string
  | PostPoll string create_poll
  | PostVote string int
  | ClosePoll string
  | PutStatus update_status

fun status_of :: "'a breply \<Rightarrow> nat" where
  "status_of (Inl (st, _)) = st"
| "status_of (Inr (st, _)) = st"

definition answer :: "'a breply \<times> board_srv \<Rightarrow> nat \<times> board_srv" where
  "answer p = (status_of (fst p), snd p)"

fun serve :: "sclock \<Rightarrow> string \<Rightarrow> string \<Rightarrow> board_request \<Rightarrow> board_srv \<Rightarrow> nat \<times> board_srv" where
  "serve ck cp u (PutHomeBase l t) s = answer (set_home_base cp u l t s)"
| "serve ck cp u (PutAlbum a) s = answer (set_photo_album cp u a s)"
| "serve ck cp u (PostPoint i b) s = answer (create_point ck i cp u b s)"
| "serve ck cp u (PutPoint i b) s = answer (update_point ck cp i u b s)"
| "serve ck cp u (DropPoint i) s = answer (delete_point ck cp i u s)"
| "serve ck cp u (PostItem i b) s = answer (create_item ck i cp u b s)"
| "serve ck cp u (PutItem i b) s = answer (update_item cp i u b s)"
| "serve ck cp u (DropItem i) s = answer (delete_item cp i u s)"
| "serve ck cp u (PostOffer i b) s = answer (create_offer ck i cp u b s)"
| "serve ck cp u (PutOffer i b) s = answer (update_offer cp i u b s)"
| "serve ck cp u (DropOffer i) s = answer (delete_offer cp i u s)"
| "serve ck cp u (PostPoll i b) s = answer (create_poll_route ck i cp u b s)"
| "serve ck cp u (PostVote p i) s = answer (vote_route ck cp p u i s)"
| "serve ck cp u (ClosePoll p) s = answer (close_route cp p u s)"
| "serve ck cp u (PutStatus b) s = answer (put_status_route ck cp u b s)"

lemmas route_defs =
  set_home_base_def set_photo_album_def create_point_def update_point_def delete_point_def create_item_def update_item_def
  delete_item_def create_offer_def update_offer_def delete_offer_def create_poll_route_def vote_route_def close_route_def
  put_status_route_def

lemma as_member_cases:
  obtains (refused) st msg2 code where "as_member msg cp u body s = refuse st msg2 code s" "400 \<le> st"
  | (member) c m where "sanitizeIdentifier cp = Some c" "getMember c u (bd_crew (bs_db s)) = Some m"
      "as_member msg cp u body s = body c m"
proof -
  consider "\<not> bs_up s" | "bs_up s" "sanitizeIdentifier cp = None"
    | c where "bs_up s" "sanitizeIdentifier cp = Some c" "getMember c u (bd_crew (bs_db s)) = None"
    | c m where "bs_up s" "sanitizeIdentifier cp = Some c" "getMember c u (bd_crew (bs_db s)) = Some m"
    by (cases "bs_up s"; cases "sanitizeIdentifier cp"; cases "getMember (the (sanitizeIdentifier cp)) u (bd_crew (bs_db s))") auto
  then show thesis
  proof cases
    case 1
    then show ?thesis by (intro refused [of 500]) (simp_all add: as_member_def)
  next
    case 2
    then show ?thesis by (intro refused [of 403]) (simp_all add: as_member_def)
  next
    case 3
    then show ?thesis by (intro refused [of 403]) (simp_all add: as_member_def)
  next
    case 4
    then show ?thesis by (intro member) (simp_all add: as_member_def)
  qed
qed

lemma answer_refuse [simp]: "answer (refuse st msg code s) = (st, s)"
  by (simp add: answer_def refuse_def)

lemma answer_ok [simp]: "answer (Inr (st, v), s) = (st, s)"
  by (simp add: answer_def)

lemma emits_db [simp]: "bs_db (emits c e s) = bs_db s" "bs_db (logs c u k d s) = bs_db s"
  by (simp_all add: emits_def logs_def)

subsection \<open>Isolation\<close>

text \<open>The rows that belong to other crews; a vote belongs to the crew of its poll.\<close>

definition foreign_votes :: "string \<Rightarrow> board_db \<Rightarrow> vote_row list" where
  "foreign_votes c d = filter (\<lambda>v. \<forall>p \<in> set (bd_polls d). po_id p = vr_poll v \<longrightarrow> po_crew_id p \<noteq> c) (bd_votes d)"

definition same_foreign :: "string \<Rightarrow> board_db \<Rightarrow> board_db \<Rightarrow> bool" where
  "same_foreign c d d' \<longleftrightarrow>
     filter (\<lambda>x. mp_crew_id x \<noteq> c) (bd_points d') = filter (\<lambda>x. mp_crew_id x \<noteq> c) (bd_points d)
   \<and> filter (\<lambda>x. pk_crew_id x \<noteq> c) (bd_items d') = filter (\<lambda>x. pk_crew_id x \<noteq> c) (bd_items d)
   \<and> filter (\<lambda>x. ro_crew_id x \<noteq> c) (bd_offers d') = filter (\<lambda>x. ro_crew_id x \<noteq> c) (bd_offers d)
   \<and> filter (\<lambda>x. po_crew_id x \<noteq> c) (bd_polls d') = filter (\<lambda>x. po_crew_id x \<noteq> c) (bd_polls d)
   \<and> filter (\<lambda>x. ms_crew_id x \<noteq> c) (bd_statuses d') = filter (\<lambda>x. ms_crew_id x \<noteq> c) (bd_statuses d)
   \<and> filter (\<lambda>x. cr_id x \<noteq> c) (cd_crews (bd_crew d')) = filter (\<lambda>x. cr_id x \<noteq> c) (cd_crews (bd_crew d))
   \<and> cd_members (bd_crew d') = cd_members (bd_crew d) \<and> bd_subs d' = bd_subs d"

definition board_ids :: "board_db \<Rightarrow> bool" where
  "board_ids d \<longleftrightarrow> unique_keys mp_id (bd_points d) \<and> unique_keys pk_id (bd_items d) \<and> unique_keys ro_id (bd_offers d)
     \<and> unique_keys po_id (bd_polls d)"

lemma same_foreign_refl [simp]: "same_foreign c d d"
  by (simp add: same_foreign_def)

lemma filter_map_row:
  assumes "unique_keys key xs" and "lookup_key key xs i = Some x" and "own x = c" and "\<And>y. own (f y) = own y"
  shows "filter (\<lambda>y. own y \<noteq> c) (map (\<lambda>y. if key y = i then f y else y) xs) = filter (\<lambda>y. own y \<noteq> c) xs"
proof -
  have "own y = c" if "y \<in> set xs" "key y = i" for y
    using that assms(2,3) lookup_key_mem [OF assms(1), of y] by simp
  then have "map (\<lambda>y. if key y = i then f y else y) (filter (\<lambda>y. own y \<noteq> c) xs) = filter (\<lambda>y. own y \<noteq> c) xs"
    by (intro map_idI) auto
  moreover have "own (if key y = i then f y else y) = own y" for y by (simp add: assms(4))
  ultimately show ?thesis by (simp add: filter_map comp_def)
qed

lemma filter_remove_row:
  assumes "unique_keys key xs" and "lookup_key key xs i = Some x" and "own x = c"
  shows "filter (\<lambda>y. own y \<noteq> c) (remove_key key i xs) = filter (\<lambda>y. own y \<noteq> c) xs"
proof -
  have "own y = c" if "y \<in> set xs" "key y = i" for y
    using that assms(2,3) lookup_key_mem [OF assms(1), of y] by simp
  then show ?thesis unfolding remove_key_def filter_filter by (intro filter_cong) auto
qed

lemma filter_upsert_row:
  assumes "own x = c" and "\<And>y. key y = key x \<Longrightarrow> own y = own x"
  shows "filter (\<lambda>y. own y \<noteq> c) (upsert_at key x xs) = filter (\<lambda>y. own y \<noteq> c) xs"
proof (induction xs)
  case (Cons y ys)
  then show ?case using assms(1) assms(2) [of y] by (cases "key y = key x") simp_all
qed (simp add: assms(1))

lemma live_point_Some:
  "live_point c i d = Some p \<Longrightarrow> mp_crew_id p = c \<and> mp_active p \<and> lookup_key mp_id (bd_points d) (mp_id p) = Some p"
  by (auto simp: live_point_def points_getById_def Option.bind_eq_Some_conv dest: lookup_key_Some split: option.splits if_splits)

lemma crew_item_Some: "crew_item c i d = Some x \<Longrightarrow> pk_crew_id x = c \<and> lookup_key pk_id (bd_items d) (pk_id x) = Some x"
  by (auto simp: crew_item_def packing_getById_def Option.bind_eq_Some_conv dest: lookup_key_Some split: option.splits if_splits)

lemma crew_offer_Some: "crew_offer c i d = Some x \<Longrightarrow> ro_crew_id x = c \<and> lookup_key ro_id (bd_offers d) (ro_id x) = Some x"
  by (auto simp: crew_offer_def rides_getById_def Option.bind_eq_Some_conv dest: lookup_key_Some split: option.splits if_splits)

lemma crew_poll_Some: "crew_poll_of c i d = Some p \<Longrightarrow> po_crew_id p = c \<and> lookup_key po_id (bd_polls d) (po_id p) = Some p"
  by (auto simp: crew_poll_of_def polls_getById_def Option.bind_eq_Some_conv dest: lookup_key_Some split: option.splits if_splits)

text \<open>The writes of the store, one lemma each.\<close>

lemma set_crew_foreign:
  "(\<And>x. cr_id (f x) = cr_id x) \<Longrightarrow> same_foreign c d (d\<lparr>bd_crew := set_crew c f (bd_crew d)\<rparr>)"
proof -
  assume id: "\<And>x. cr_id (f x) = cr_id x"
  have "filter (\<lambda>x. cr_id x \<noteq> c) (map (\<lambda>x. if cr_id x = c then f x else x) xs) = filter (\<lambda>x. cr_id x \<noteq> c) xs" for xs
    by (induction xs) (auto simp: id)
  then show ?thesis by (simp add: same_foreign_def set_crew_def)
qed

lemma writes_foreign [intro]:
  "pd_crewId p = c \<Longrightarrow> same_foreign c d (snd (points_create ck p d))"
  "pk_crew_id row = c \<Longrightarrow> same_foreign c d (snd (packing_create row d))"
  "ro_crew_id off = c \<Longrightarrow> same_foreign c d (snd (rides_create off d))"
  "po_crew_id poll = c \<Longrightarrow> same_foreign c d (snd (polls_create poll d))"
  "same_foreign c d (polls_vote pid u i d)"
  by (simp_all add: points_create_def packing_create_def rides_create_def polls_create_def polls_vote_def same_foreign_def
      point_row_def Let_def)

lemma edits_foreign:
  assumes "board_ids d"
  shows "lookup_key mp_id (bd_points d) i = Some p \<Longrightarrow> mp_crew_id p = c \<Longrightarrow> same_foreign c d (snd (points_update ck i um e d))"
    and "lookup_key mp_id (bd_points d) i = Some p \<Longrightarrow> mp_crew_id p = c \<Longrightarrow> same_foreign c d (points_deactivate ck i d)"
    and "lookup_key pk_id (bd_items d) i = Some x \<Longrightarrow> pk_crew_id x = c \<Longrightarrow> same_foreign c d (snd (packing_update i ku d))"
    and "lookup_key pk_id (bd_items d) i = Some x \<Longrightarrow> pk_crew_id x = c \<Longrightarrow> same_foreign c d (packing_delete i d)"
    and "lookup_key ro_id (bd_offers d) i = Some y \<Longrightarrow> ro_crew_id y = c \<Longrightarrow> same_foreign c d (snd (rides_update i ru d))"
    and "lookup_key ro_id (bd_offers d) i = Some y \<Longrightarrow> ro_crew_id y = c \<Longrightarrow> same_foreign c d (rides_delete i d)"
    and "lookup_key po_id (bd_polls d) i = Some q \<Longrightarrow> po_crew_id q = c \<Longrightarrow> same_foreign c d (snd (polls_close i d))"
  using assms
  by (simp_all add: board_ids_def points_update_def points_deactivate_def packing_update_def packing_delete_def
      rides_update_def rides_delete_def polls_close_def same_foreign_def Let_def filter_map_row [where own = mp_crew_id]
      filter_map_row [where own = pk_crew_id] filter_map_row [where own = ro_crew_id] filter_map_row [where own = po_crew_id]
      filter_remove_row [where own = pk_crew_id] filter_remove_row [where own = ro_crew_id])

lemma status_foreign: "same_foreign c d (snd (status_upsert ck c u q d))"
proof -
  let ?row = "status_row ck c u q (lookup_key status_key (bd_statuses d) (c, u))"
  have "filter (\<lambda>y. ms_crew_id y \<noteq> c) (upsert_at status_key ?row (bd_statuses d)) = filter (\<lambda>y. ms_crew_id y \<noteq> c) (bd_statuses d)"
    by (rule filter_upsert_row) (simp_all add: status_row_def status_key_def)
  then show ?thesis by (simp add: status_upsert_def same_foreign_def Let_def)
qed

subsection \<open>Authorization\<close>

text \<open>What the roles of the crew allow, on the tables before the request.\<close>

fun permitted :: "string \<Rightarrow> crew_member \<Rightarrow> string \<Rightarrow> board_request \<Rightarrow> board_db \<Rightarrow> bool" where
  "permitted c m u (PutHomeBase l t) d = (cm_role m = Owner)"
| "permitted c m u (PutPoint i b) d = (\<exists>p. live_point c i d = Some p \<and> (mp_created_by p = u \<or> cm_role m = Owner))"
| "permitted c m u (DropPoint i) d = (\<exists>p. live_point c i d = Some p \<and> (mp_created_by p = u \<or> cm_role m = Owner))"
| "permitted c m u (PutItem i b) d = (crew_item c i d \<noteq> None)"
| "permitted c m u (DropItem i) d = (\<exists>x. crew_item c i d = Some x \<and> (pk_created_by x = u \<or> cm_role m = Owner))"
| "permitted c m u (PutOffer i b) d = (crew_offer c i d \<noteq> None)"
| "permitted c m u (DropOffer i) d = (\<exists>x. crew_offer c i d = Some x \<and> (ro_created_by x = u \<or> cm_role m = Owner))"
| "permitted c m u (PostVote p i) d = (\<exists>q. crew_poll_of c p d = Some q \<and> \<not> po_closed q \<and> i < int (length (po_options q)))"
| "permitted c m u (ClosePoll p) d = (\<exists>q. crew_poll_of c p d = Some q \<and> (po_created_by q = u \<or> cm_role m = Owner))"
| "permitted c m u _ d = True"

definition only_room :: "string \<Rightarrow> board_srv \<Rightarrow> board_srv \<Rightarrow> bool" where
  "only_room c s s' \<longleftrightarrow> (\<exists>evs. bs_emits s' = bs_emits s @ evs \<and> (\<forall>e \<in> set evs. fst e = ''crew:'' @ c))"

definition refused :: "board_srv \<Rightarrow> nat \<times> board_srv \<Rightarrow> bool" where
  "refused s r \<longleftrightarrow> 400 \<le> fst r \<and> snd r = s"

definition granted :: "string \<Rightarrow> crew_member \<Rightarrow> string \<Rightarrow> board_request \<Rightarrow> board_srv \<Rightarrow> nat \<times> board_srv \<Rightarrow> bool" where
  "granted c m u rq s r \<longleftrightarrow> fst r < 400 \<and> permitted c m u rq (bs_db s) \<and> same_foreign c (bs_db s) (bs_db (snd r))
     \<and> only_room c s (snd r)"

lemma room_simps [simp]:
  "only_room c s (s\<lparr>bs_db := d\<rparr>)" "only_room c s (emits c e (s\<lparr>bs_db := d\<rparr>))"
  "only_room c s (logs c u k v (emits c e (s\<lparr>bs_db := d\<rparr>)))" "only_room c s (logs c u k v (emits c e (set_crew_db cd s)))"
  by (simp_all add: only_room_def emits_def logs_def set_crew_db_def)

lemma refusedI [simp]: "400 \<le> st \<Longrightarrow> refused s (st, s)"
  by (simp add: refused_def)

lemma framed:
  assumes "\<And>c m. sanitizeIdentifier cp = Some c \<Longrightarrow> getMember c u (bd_crew (bs_db s)) = Some m \<Longrightarrow>
      refused s (answer (body c m)) \<or> granted c m u rq s (answer (body c m))"
  shows "refused s (answer (as_member msg cp u body s)) \<or>
    (\<exists>c m. sanitizeIdentifier cp = Some c \<and> getMember c u (bd_crew (bs_db s)) = Some m
       \<and> granted c m u rq s (answer (as_member msg cp u body s)))"
  using assms by (cases rule: as_member_cases [of msg cp u body s]) auto

lemma home_foreign [simp]:
  "same_foreign c d (d\<lparr>bd_crew := snd (updateHomeBase c l t (bd_crew d))\<rparr>)"
  "same_foreign c d (d\<lparr>bd_crew := snd (updatePhotoAlbum c a (bd_crew d))\<rparr>)"
  unfolding updateHomeBase_def updatePhotoAlbum_def Let_def snd_conv by (rule set_crew_foreign, simp)+

lemma answer_if [simp]: "answer (if b then x else y) = (if b then answer x else answer y)"
  by simp

lemma set_crew_db_db [simp]: "bs_db (set_crew_db d s) = (bs_db s)\<lparr>bd_crew := d\<rparr>"
  by (simp add: set_crew_db_def)

lemma refused_or_granted:
  assumes "board_ids (bs_db s)"
  shows "refused s (serve ck cp u rq s) \<or>
    (\<exists>c m. sanitizeIdentifier cp = Some c \<and> getMember c u (bd_crew (bs_db s)) = Some m \<and> granted c m u rq s (serve ck cp u rq s))"
proof (cases rq)
  case (PutHomeBase l t)
  show ?thesis unfolding PutHomeBase serve.simps set_home_base_def
    by (rule framed) (simp add: granted_def split_beta)
next
  case (PutAlbum a)
  show ?thesis unfolding PutAlbum serve.simps set_photo_album_def
    by (rule framed) (simp add: granted_def split_beta Let_def)
next
  case (PostPoint i b)
  show ?thesis unfolding PostPoint serve.simps create_point_def
    by (rule framed) (auto simp: granted_def split_beta split: option.split intro!: writes_foreign)
next
  case (PutPoint i b)
  show ?thesis unfolding PutPoint serve.simps update_point_def
    by (rule framed) (auto simp: granted_def split_beta may_edit_def split: option.split
        dest!: live_point_Some intro!: edits_foreign [OF assms])
next
  case (DropPoint i)
  show ?thesis unfolding DropPoint serve.simps delete_point_def
    by (rule framed) (auto simp: granted_def may_edit_def split: option.split dest!: live_point_Some intro!: edits_foreign [OF assms])
next
  case (PostItem i b)
  show ?thesis unfolding PostItem serve.simps create_item_def
    by (rule framed) (auto simp: granted_def split_beta item_row_def intro!: writes_foreign)
next
  case (PutItem i b)
  show ?thesis unfolding PutItem serve.simps update_item_def
    by (rule framed) (auto simp: granted_def split_beta split: option.split dest!: crew_item_Some intro!: edits_foreign [OF assms])
next
  case (DropItem i)
  show ?thesis unfolding DropItem serve.simps delete_item_def
    by (rule framed) (auto simp: granted_def may_edit_def split: option.split dest!: crew_item_Some intro!: edits_foreign [OF assms])
next
  case (PostOffer i b)
  show ?thesis unfolding PostOffer serve.simps create_offer_def
    by (rule framed) (auto simp: granted_def split_beta offer_row_def intro!: writes_foreign)
next
  case (PutOffer i b)
  show ?thesis unfolding PutOffer serve.simps update_offer_def
    by (rule framed) (auto simp: granted_def split_beta split: option.split dest!: crew_offer_Some intro!: edits_foreign [OF assms])
next
  case (DropOffer i)
  show ?thesis unfolding DropOffer serve.simps delete_offer_def
    by (rule framed) (auto simp: granted_def may_edit_def split: option.split dest!: crew_offer_Some intro!: edits_foreign [OF assms])
next
  case (PostPoll i b)
  show ?thesis unfolding PostPoll serve.simps create_poll_route_def
    by (rule framed) (auto simp: granted_def split_beta poll_row_def intro!: writes_foreign)
next
  case (PostVote p i)
  show ?thesis unfolding PostVote serve.simps vote_route_def
    by (rule framed) (auto simp: granted_def split: option.split intro!: writes_foreign)
next
  case (ClosePoll p)
  show ?thesis unfolding ClosePoll serve.simps close_route_def
    by (rule framed) (auto simp: granted_def split_beta may_edit_def split: option.split dest!: crew_poll_Some intro!: edits_foreign [OF assms])
next
  case (PutStatus b)
  show ?thesis unfolding PutStatus serve.simps put_status_route_def
    by (rule framed) (simp add: granted_def split_beta status_foreign)
qed


definition demo_parse :: "string \<Rightarrow> int option" where
  "demo_parse v = (case v of [] \<Rightarrow> None | c # w \<Rightarrow> Some (if c = CHR ''-'' then - int (length w) else int (length w)))"

definition demo_iso :: "int \<Rightarrow> string" where
  "demo_iso t = (if t < 0 then CHR ''-'' # replicate (nat (- t)) CHR ''x'' else replicate (nat t + 1) CHR ''x'')"

definition demo_clock :: "int \<Rightarrow> sclock" where
  "demo_clock t = \<lparr>sc_parse = demo_parse, sc_iso = demo_iso, sc_now = t\<rparr>"

lemma demo_iso [simp]: "demo_parse (demo_iso t) = Some t" "demo_iso t \<noteq> []"
  by (simp_all add: demo_parse_def demo_iso_def)

definition demo_boards :: board_srv where
  "demo_boards = \<lparr>bs_db = \<lparr>bd_crew = \<lparr>cd_crews = [], cd_members =
       [\<lparr>cm_crewId = ''c'', cm_userId = ''o'', cm_role = Owner, cm_joinedAt = 0\<rparr>,
        \<lparr>cm_crewId = ''c'', cm_userId = ''a'', cm_role = Member, cm_joinedAt = 1\<rparr>],
       cd_users = (\<lambda>u. Some \<lparr>us_username = u, us_name = None, us_avatarKey = None, us_avatarVersion = None\<rparr>),
       cd_festivals = (\<lambda>f. None), cd_profiles = [], cd_now = 0\<rparr>,
     bd_points = [], bd_items = [\<lparr>pk_id = ''i'', pk_crew_id = ''c'', pk_created_by = ''o'', pk_label = ''tent'',
       pk_brought_by = None, pk_claimed = False, pk_created_at = ''t'', pk_optimistic = False\<rparr>],
     bd_offers = [], bd_polls = [], bd_votes = [], bd_statuses = [], bd_subs = []\<rparr>,
     bs_up = True, bs_emits = [], bs_activity = []\<rparr>"

lemma demo_ids: "board_ids (bs_db demo_boards)"
  by (simp add: board_ids_def demo_boards_def)


end
