(* ===== verification/Crew_Board_Inv.thy ===== *)
theory Crew_Board_Inv
  imports Crew_Board_Props
begin

text \<open>
  What the tables of the crew boards keep while requests are served one after the other: unique
  ids, one status row per member and one vote per member and poll, every vote an option of its
  poll, the caps of each board, and the expiry of a meeting point as a function of its time.
\<close>

subsection \<open>Invariant\<close>

definition at_time :: "(string \<Rightarrow> int option) \<Rightarrow> (int \<Rightarrow> string) \<Rightarrow> int \<Rightarrow> sclock" where
  "at_time parse fmt t = \<lparr>sc_parse = parse, sc_iso = fmt, sc_now = t\<rparr>"

definition count_of :: "('a \<Rightarrow> bool) \<Rightarrow> 'a list \<Rightarrow> nat" where
  "count_of P xs = length (filter P xs)"

definition points_ok :: "sclock \<Rightarrow> meeting_point list \<Rightarrow> bool" where
  "points_ok ck ps \<longleftrightarrow> unique_keys mp_id ps \<and> (\<forall>c. count_of (\<lambda>m. mp_crew_id m = c \<and> mp_active m) ps \<le> 20)
     \<and> (\<forall>m \<in> set ps. expiry ck (mp_meet_at m) (mp_recurs_daily m) = Some (mp_expires_at m))"

definition items_ok :: "packing_item list \<Rightarrow> bool" where
  "items_ok xs \<longleftrightarrow> unique_keys pk_id xs \<and> (\<forall>c. count_of (\<lambda>x. pk_crew_id x = c) xs \<le> 200)"

definition offers_ok :: "ride_offer list \<Rightarrow> bool" where
  "offers_ok xs \<longleftrightarrow> unique_keys ro_id xs \<and> (\<forall>c. count_of (\<lambda>x. ro_crew_id x = c) xs \<le> 200)"

definition polls_ok :: "sclock \<Rightarrow> crew_poll list \<Rightarrow> bool" where
  "polls_ok ck ps \<longleftrightarrow> unique_keys po_id ps \<and> (\<forall>c. count_of (\<lambda>p. po_crew_id p = c \<and> open_poll ck p) ps \<le> 3)"

definition votes_ok :: "crew_poll list \<Rightarrow> vote_row list \<Rightarrow> bool" where
  "votes_ok ps vs \<longleftrightarrow> unique_keys vote_key vs \<and>
     (\<forall>v \<in> set vs. \<exists>p \<in> set ps. po_id p = vr_poll v \<and> 0 \<le> vr_option v \<and> vr_option v < int (length (po_options p)))"

definition boards_ok :: "sclock \<Rightarrow> board_db \<Rightarrow> bool" where
  "boards_ok ck d \<longleftrightarrow> points_ok ck (bd_points d) \<and> items_ok (bd_items d) \<and> offers_ok (bd_offers d)
     \<and> polls_ok ck (bd_polls d) \<and> votes_ok (bd_polls d) (bd_votes d) \<and> unique_keys status_key (bd_statuses d)"

text \<open>A created row gets an unused id (a random UUID), and a vote passed its schema.\<close>

fun admissible :: "board_request \<Rightarrow> board_db \<Rightarrow> bool" where
  "admissible (PostPoint i b) d = (i \<notin> mp_id ` set (bd_points d))"
| "admissible (PostItem i b) d = (i \<notin> pk_id ` set (bd_items d))"
| "admissible (PostOffer i b) d = (i \<notin> ro_id ` set (bd_offers d))"
| "admissible (PostPoll i b) d = (i \<notin> po_id ` set (bd_polls d))"
| "admissible (PostVote p i) d = pollVoteSchema i"
| "admissible _ d = True"

inductive board_step :: "(string \<Rightarrow> int option) \<Rightarrow> (int \<Rightarrow> string) \<Rightarrow> int \<times> board_srv \<Rightarrow> int \<times> board_srv \<Rightarrow> bool"
  for parse fmt where
  request: "now \<le> t \<Longrightarrow> admissible rq (bs_db s) \<Longrightarrow> serve (at_time parse fmt t) cp u rq s = (st, s')
     \<Longrightarrow> board_step parse fmt (now, s) (t, s')"
| expire: "now \<le> t \<Longrightarrow> board_step parse fmt (now, s) (t, s\<lparr>bs_db := expireStale (at_time parse fmt t) (bs_db s)\<rparr>)"
| members: "board_step parse fmt (now, s) (now, s\<lparr>bs_db := (bs_db s)\<lparr>bd_crew := d\<rparr>\<rparr>)"
| outage: "board_step parse fmt (now, s) (now, s\<lparr>bs_up := up\<rparr>)"

lemma expiry_clock: "expiry (at_time parse fmt t) = expiry (at_time parse fmt t')"
  by (auto simp: expiry_def half_hour_after_def at_time_def fun_eq_iff split: option.split)

lemma count_of_simps [simp]:
  "count_of P [] = 0" "count_of P (x # xs) = (if P x then 1 else 0) + count_of P xs"
  "count_of P (xs @ ys) = count_of P xs + count_of P ys"
  by (simp_all add: count_of_def)

lemma count_of_map: "(\<And>x. P (f x) \<Longrightarrow> P x) \<Longrightarrow> count_of P (map f xs) \<le> count_of P xs"
  by (induction xs) auto

lemma count_of_remove: "count_of P (remove_key key k xs) \<le> count_of P xs"
  by (induction xs) (auto simp: remove_key_def)

lemma count_of_mono: "(\<And>x. P x \<Longrightarrow> Q x) \<Longrightarrow> count_of P xs \<le> count_of Q xs"
  by (induction xs) (auto intro: le_SucI)

lemma count_le_trans: "count_of P xs \<le> count_of P ys \<Longrightarrow> count_of P ys \<le> n \<Longrightarrow> count_of P xs \<le> n"
  by (rule le_trans)

lemma unique_map: "(\<And>x. key (f x) = key x) \<Longrightarrow> unique_keys key xs \<Longrightarrow> unique_keys key (map f xs)"
  by (simp add: comp_def)

subsection \<open>The stores keep it\<close>

lemma items_kept:
  "items_ok xs \<Longrightarrow> pk_id x \<notin> pk_id ` set xs \<Longrightarrow> count_of (\<lambda>y. pk_crew_id y = pk_crew_id x) xs < 200 \<Longrightarrow> items_ok (xs @ [x])"
  "items_ok xs \<Longrightarrow> items_ok (remove_key pk_id i xs)"
  "(\<And>x. pk_id (f x) = pk_id x) \<Longrightarrow> (\<And>x. pk_crew_id (f x) = pk_crew_id x) \<Longrightarrow> items_ok xs \<Longrightarrow> items_ok (map f xs)"
  unfolding items_ok_def
  by (auto simp: comp_def intro: unique_remove_key intro!: count_le_trans [OF count_of_remove] count_le_trans [OF count_of_map])

lemma offers_kept:
  "offers_ok xs \<Longrightarrow> ro_id x \<notin> ro_id ` set xs \<Longrightarrow> count_of (\<lambda>y. ro_crew_id y = ro_crew_id x) xs < 200 \<Longrightarrow> offers_ok (xs @ [x])"
  "offers_ok xs \<Longrightarrow> offers_ok (remove_key ro_id i xs)"
  "(\<And>x. ro_id (f x) = ro_id x) \<Longrightarrow> (\<And>x. ro_crew_id (f x) = ro_crew_id x) \<Longrightarrow> offers_ok xs \<Longrightarrow> offers_ok (map f xs)"
  unfolding offers_ok_def
  by (auto simp: comp_def intro: unique_remove_key intro!: count_le_trans [OF count_of_remove] count_le_trans [OF count_of_map])

lemma points_kept:
  "points_ok ck ps \<Longrightarrow> mp_id p \<notin> mp_id ` set ps \<Longrightarrow> count_of (\<lambda>m. mp_crew_id m = mp_crew_id p \<and> mp_active m) ps < 20
     \<Longrightarrow> expiry ck (mp_meet_at p) (mp_recurs_daily p) = Some (mp_expires_at p) \<Longrightarrow> points_ok ck (ps @ [p])"
  "(\<And>m. mp_id (f m) = mp_id m) \<Longrightarrow> (\<And>m. mp_crew_id (f m) = mp_crew_id m) \<Longrightarrow> (\<And>m. mp_active (f m) \<Longrightarrow> mp_active m)
     \<Longrightarrow> (\<And>m. m \<in> set ps \<Longrightarrow> expiry ck (mp_meet_at (f m)) (mp_recurs_daily (f m)) = Some (mp_expires_at (f m)))
     \<Longrightarrow> points_ok ck ps \<Longrightarrow> points_ok ck (map f ps)"
  unfolding points_ok_def by (auto simp: comp_def intro!: count_le_trans [OF count_of_map])

lemma polls_kept:
  "polls_ok ck ps \<Longrightarrow> po_id p \<notin> po_id ` set ps \<Longrightarrow> count_of (\<lambda>q. po_crew_id q = po_crew_id p \<and> open_poll ck q) ps < 3
     \<Longrightarrow> polls_ok ck (ps @ [p])"
  "(\<And>p. po_id (f p) = po_id p) \<Longrightarrow> (\<And>p. po_crew_id (f p) = po_crew_id p) \<Longrightarrow> (\<And>p. open_poll ck (f p) \<Longrightarrow> open_poll ck p)
     \<Longrightarrow> polls_ok ck ps \<Longrightarrow> polls_ok ck (map f ps)"
  unfolding polls_ok_def by (auto simp: comp_def intro!: count_le_trans [OF count_of_map])

lemma votes_kept:
  "votes_ok ps vs \<Longrightarrow> votes_ok (ps @ [p]) vs"
  "(\<And>p. po_id (f p) = po_id p \<and> po_options (f p) = po_options p) \<Longrightarrow> votes_ok ps vs \<Longrightarrow> votes_ok (map f ps) vs"
  "votes_ok ps vs \<Longrightarrow> p \<in> set ps \<Longrightarrow> po_id p = vr_poll v \<Longrightarrow> 0 \<le> vr_option v \<Longrightarrow> vr_option v < int (length (po_options p))
     \<Longrightarrow> votes_ok ps (upsert_at vote_key v vs)"
  unfolding votes_ok_def
    apply fastforce
   apply (simp; fastforce)
  using set_upsert_at [of vote_key v vs] by (fastforce intro: unique_upsert_at)

lemma open_later: "now \<le> t \<Longrightarrow> open_poll (at_time parse fmt t) p \<Longrightarrow> open_poll (at_time parse fmt now) p"
  by (auto simp: open_poll_def at_time_def split: option.splits)

lemma boards_later:
  assumes "now \<le> t" and "boards_ok (at_time parse fmt now) d"
  shows "boards_ok (at_time parse fmt t) d"
proof -
  have "count_of (\<lambda>p. po_crew_id p = c \<and> open_poll (at_time parse fmt t) p) ps
      \<le> count_of (\<lambda>p. po_crew_id p = c \<and> open_poll (at_time parse fmt now) p) ps" for c ps
    by (rule count_of_mono) (use open_later [OF assms(1)] in blast)
  then show ?thesis
    using assms(2) unfolding boards_ok_def points_ok_def polls_ok_def expiry_clock [of parse fmt t now]
    by (meson le_trans)
qed

subsection \<open>Requests keep it\<close>

lemma framed_keeps:
  assumes "P (bs_db s)"
    and "\<And>c m. sanitizeIdentifier cp = Some c \<Longrightarrow> getMember c u (bd_crew (bs_db s)) = Some m \<Longrightarrow> P (bs_db (snd (answer (body c m))))"
  shows "P (bs_db (snd (answer (as_member msg cp u body s))))"
  using assms by (cases rule: as_member_cases [of msg cp u body s]) auto

lemma truthy_simps [simp]: "truthy None = None" "truthy (Some v) = (if v = [] then None else Some v)" "truthy (truthy w) = truthy w"
  by (auto simp: truthy_def split: option.splits)

lemma expiry_truthy [simp]: "expiry ck (truthy t) r = expiry ck t r"
  by (simp add: expiry_def)

lemma expiry_shape: "(\<And>t. sc_iso ck t \<noteq> []) \<Longrightarrow> expiry ck t r = Some e \<Longrightarrow> truthy e = e"
  by (auto simp: expiry_def half_hour_after_def split: option.splits if_splits)

lemma points_upd_ok:
  assumes "points_ok ck ps" and "lookup_key mp_id ps i = Some p"
    and "expiry ck (case um_meetAt b of Some t \<Rightarrow> t | None \<Rightarrow> mp_meet_at p)
          (case um_recursDaily b of Some r \<Rightarrow> r | None \<Rightarrow> mp_recurs_daily p) = Some e"
    and "bd_points d = ps"
  shows "points_ok ck (bd_points (snd (points_update ck i b e d)))"
proof -
  have same: "m = p" if "m \<in> set ps" "mp_id m = i" for m
    using that assms(1,2) lookup_key_mem [of mp_id ps m] by (simp add: points_ok_def)
  have old: "expiry ck (mp_meet_at m) (mp_recurs_daily m) = Some (mp_expires_at m)" if "m \<in> set ps" for m
    using that assms(1) by (simp add: points_ok_def)
  let ?F = "\<lambda>m. if mp_id m = i then m\<lparr>mp_label := (case um_label b of Some l \<Rightarrow> sanitizeMeetingPointText 100 l | None \<Rightarrow> mp_label m),
             mp_location := (case um_location b of Some l \<Rightarrow> sanitizeMeetingPointText 200 l | None \<Rightarrow> mp_location m),
             mp_type := (case um_type b of Some t \<Rightarrow> t | None \<Rightarrow> mp_type m),
             mp_meet_at := (case um_meetAt b of Some t \<Rightarrow> t | None \<Rightarrow> mp_meet_at m),
             mp_stage_reference := (case um_stageReference b of Some t \<Rightarrow> t | None \<Rightarrow> mp_stage_reference m),
             mp_latitude := (case um_latitude b of Some x \<Rightarrow> x | None \<Rightarrow> mp_latitude m),
             mp_longitude := (case um_longitude b of Some x \<Rightarrow> x | None \<Rightarrow> mp_longitude m),
             mp_recurs_daily := (case um_recursDaily b of Some b \<Rightarrow> b | None \<Rightarrow> mp_recurs_daily m),
             mp_expires_at := e, mp_updated_at := Some (sc_iso ck (sc_now ck))\<rparr> else m"
  have "points_ok ck (map ?F ps)"
  proof (rule points_kept(2) [OF _ _ _ _ assms(1)])
    fix m assume "m \<in> set ps"
    then show "expiry ck (mp_meet_at (?F m)) (mp_recurs_daily (?F m)) = Some (mp_expires_at (?F m))"
      using same [of m] old [of m] assms(3) by (cases "mp_id m = i") auto
  qed (auto split: if_splits)
  then show ?thesis unfolding points_update_def Let_def snd_conv using assms(4) by simp
qed

lemma boards_kept:
  assumes ok: "boards_ok ck (bs_db s)" and adm: "admissible rq (bs_db s)" and fmt: "\<And>t. sc_iso ck t \<noteq> []"
  shows "boards_ok ck (bs_db (snd (serve ck cp u rq s)))"
proof (cases rq)
  case (PutHomeBase l t)
  show ?thesis unfolding PutHomeBase serve.simps set_home_base_def
    by (rule framed_keeps) (use ok in \<open>simp_all add: split_beta boards_ok_def\<close>)
next
  case (PutAlbum a)
  show ?thesis unfolding PutAlbum serve.simps set_photo_album_def
    by (rule framed_keeps) (use ok in \<open>simp_all add: split_beta Let_def boards_ok_def\<close>)
next
  case (PostPoint i b)
  show ?thesis unfolding PostPoint serve.simps create_point_def
    by (rule framed_keeps) (use ok adm [unfolded PostPoint] in \<open>auto simp: split_beta boards_ok_def points_create_def points_countByCrew_def MAX_MEETING_POINTS_PER_CREW_def
        point_row_def count_of_def expiry_shape [OF fmt] split: option.split intro!: points_kept\<close>)
next
  case (PutPoint i b)
  show ?thesis unfolding PutPoint serve.simps update_point_def
    by (rule framed_keeps) (use ok in \<open>auto simp: split_beta boards_ok_def split: option.split dest!: live_point_Some intro!: points_upd_ok,
        simp_all add: points_update_def Let_def\<close>)
next
  case (DropPoint i)
  show ?thesis unfolding DropPoint serve.simps delete_point_def
    by (rule framed_keeps) (use ok in \<open>auto simp: boards_ok_def points_deactivate_def split: option.split if_splits intro!: points_kept,
        auto simp: points_ok_def split: if_splits\<close>)
next
  case (PostItem i b)
  show ?thesis unfolding PostItem serve.simps create_item_def
    by (rule framed_keeps) (use ok adm [unfolded PostItem] in \<open>auto simp: split_beta boards_ok_def packing_create_def item_row_def packing_countByCrew_def count_of_def intro!: items_kept\<close>)
next
  case (PutItem i b)
  show ?thesis unfolding PutItem serve.simps update_item_def
    by (rule framed_keeps) (use ok in \<open>auto simp: split_beta boards_ok_def packing_update_def Let_def split: option.split intro!: items_kept\<close>)
next
  case (DropItem i)
  show ?thesis unfolding DropItem serve.simps delete_item_def
    by (rule framed_keeps) (use ok in \<open>auto simp: boards_ok_def packing_delete_def split: option.split intro!: items_kept\<close>)
next
  case (PostOffer i b)
  show ?thesis unfolding PostOffer serve.simps create_offer_def
    by (rule framed_keeps) (use ok adm [unfolded PostOffer] in \<open>auto simp: split_beta boards_ok_def rides_create_def offer_row_def rides_countByCrew_def count_of_def intro!: offers_kept\<close>)
next
  case (PutOffer i b)
  show ?thesis unfolding PutOffer serve.simps update_offer_def
    by (rule framed_keeps) (use ok in \<open>auto simp: split_beta boards_ok_def rides_update_def Let_def split: option.split intro!: offers_kept\<close>)
next
  case (DropOffer i)
  show ?thesis unfolding DropOffer serve.simps delete_offer_def
    by (rule framed_keeps) (use ok in \<open>auto simp: boards_ok_def rides_delete_def split: option.split intro!: offers_kept\<close>)
next
  case (PostPoll i b)
  show ?thesis unfolding PostPoll serve.simps create_poll_route_def
    by (rule framed_keeps) (use ok adm [unfolded PostPoll] in \<open>auto simp: split_beta boards_ok_def polls_create_def poll_row_def countActiveByCrew_def count_of_def
        intro!: polls_kept votes_kept\<close>)
next
  case (PostVote p i)
  show ?thesis unfolding PostVote serve.simps vote_route_def
    by (rule framed_keeps) (use ok adm [unfolded PostVote] in \<open>auto simp: boards_ok_def polls_vote_def pollVoteSchema_def split: option.split dest!: crew_poll_Some intro!: votes_kept(3)
       dest: lookup_key_Some\<close>)
next
  case (ClosePoll p)
  show ?thesis unfolding ClosePoll serve.simps close_route_def
    by (rule framed_keeps) (use ok in \<open>auto simp: split_beta boards_ok_def polls_close_def Let_def open_poll_def split: option.splits if_splits
        intro!: polls_kept votes_kept\<close>)
next
  case (PutStatus b)
  show ?thesis unfolding PutStatus serve.simps put_status_route_def
    by (rule framed_keeps) (use ok in \<open>auto simp: split_beta boards_ok_def status_upsert_def Let_def intro!: unique_upsert_at\<close>)
qed

interpretation boards: inv_system "board_step parse fmt"
  "\<lambda>(now, s). (\<forall>t. fmt t \<noteq> []) \<and> boards_ok (at_time parse fmt now) (bs_db s)" for parse fmt
proof (unfold_locales, clarsimp)
  fix now s t s'
  assume ok: "boards_ok (at_time parse fmt now) (bs_db s)" and fmt: "\<forall>t. fmt t \<noteq> []" and step: "board_step parse fmt (now, s) (t, s')"
  from step show "boards_ok (at_time parse fmt t) (bs_db s')"
  proof cases
    case (request rq cp u st)
    then show ?thesis
      using boards_kept [OF boards_later [OF request(1) ok], of rq cp u] fmt by (simp add: at_time_def)
  next
    case expire
    have "points_ok ck (bd_points (expireStale ck d))" if "points_ok ck (bd_points d)" for ck d
      unfolding expireStale_def using that by (auto intro!: points_kept split: if_splits) (auto simp: points_ok_def)
    then show ?thesis
      using expire boards_later [OF expire(2) ok] by (simp add: boards_ok_def) (simp add: expireStale_def)
  next
    case members
    with ok show ?thesis by (simp add: boards_ok_def)
  next
    case outage
    with ok show ?thesis by simp
  qed
qed

text \<open>C14. The invariant of the boards.  Whatever requests the server has served one after the other,
  with outages, changes of membership and expiry sweeps between them: ids are unique, a member has
  one status and one vote per poll, every vote is an option of its poll, a crew has at most 20 active
  meeting points, 200 packing items, 200 ride offers and 3 open polls, and a meeting point expires
  half an hour after its time, or never when it recurs daily or has no time.\<close>

theorem board_requests_keep_invariant:
  assumes "(board_step parse fmt)\<^sup>*\<^sup>* (now, s) (t, s')" and "boards_ok (at_time parse fmt now) (bs_db s)"
    and "\<And>x. fmt x \<noteq> []"
  shows "boards_ok (at_time parse fmt t) (bs_db s')"
  using boards.inv_reach [OF assms(1)] assms(2,3) by simp

lemma demo_ok: "boards_ok (demo_clock t) (bs_db demo_boards)"
  by (simp add: boards_ok_def points_ok_def items_ok_def offers_ok_def polls_ok_def votes_ok_def demo_boards_def)

lemma board_requests_keep_invariant_witness:
  "boards_ok (demo_clock 5) (bs_db (snd (serve (demo_clock 5) ''c'' ''a''
     (PostItem ''j'' \<lparr>kq_label = ''rope'', kq_broughtBy = None, kq_claimed = None\<rparr>) demo_boards)))"
proof -
  let ?r = "PostItem ''j'' \<lparr>kq_label = ''rope'', kq_broughtBy = None, kq_claimed = None\<rparr>"
  have clock: "at_time demo_parse demo_iso t = demo_clock t" for t by (simp add: at_time_def demo_clock_def)
  obtain st s' where served: "serve (demo_clock 5) ''c'' ''a'' ?r demo_boards = (st, s')"
    by (cases "serve (demo_clock 5) ''c'' ''a'' ?r demo_boards")
  have "board_step demo_parse demo_iso (4, demo_boards) (5, s')"
    by (rule request [where rq = ?r and cp = "''c''" and u = "''a''" and st = st])
      (simp_all only: clock served, simp_all add: demo_boards_def)
  then show ?thesis
    using board_requests_keep_invariant [OF r_into_rtranclp, of demo_parse demo_iso 4 demo_boards 5 s'] demo_ok
    by (simp add: clock served del: serve.simps)
qed

text \<open>Expiry sweeps stop exactly the meetings that are over.  A sweep deactivates an active point
  if and only if it is not recurring, has a meeting time, and that time is more than half an hour
  past; recurring and untimed points stay for good.\<close>

theorem sweep_stops_past_meetings:
  assumes ok: "boards_ok (at_time parse fmt t) d" and clock: "\<And>x. parse (fmt x) = Some x"
    and m: "m \<in> set (bd_points d)" "mp_active m"
  shows "(\<exists>m' \<in> set (bd_points (expireStale (at_time parse fmt t) d)). mp_id m' = mp_id m \<and> \<not> mp_active m') \<longleftrightarrow>
    \<not> mp_recurs_daily m \<and> (\<exists>v x. truthy (mp_meet_at m) = Some v \<and> parse v = Some x \<and> x + 30 * 60000 < t)"
proof -
  let ?ck = "at_time parse fmt t"
  have exp: "expiry ?ck (mp_meet_at m) (mp_recurs_daily m) = Some (mp_expires_at m)" and ids: "unique_keys mp_id (bd_points d)"
    using ok m(1) by (auto simp: boards_ok_def points_ok_def)
  have same: "m' = m" if "m' \<in> set (bd_points d)" "mp_id m' = mp_id m" for m'
    using that m(1) ids by (metis inj_onD distinct_map)
  have "is_stale ?ck m \<longleftrightarrow> \<not> mp_recurs_daily m \<and> (\<exists>v x. truthy (mp_meet_at m) = Some v \<and> parse v = Some x \<and> x + 30 * 60000 < t)"
    using exp [symmetric] m(2)
    by (cases "truthy (mp_meet_at m)"; cases "mp_recurs_daily m"; cases "parse (the (truthy (mp_meet_at m)))")
      (simp_all add: is_stale_def expiry_def half_hour_after_def at_time_def clock)
  moreover have "(\<exists>m' \<in> set (bd_points (expireStale ?ck d)). mp_id m' = mp_id m \<and> \<not> mp_active m') \<longleftrightarrow> is_stale ?ck m"
  proof -
    let ?f = "\<lambda>n. if is_stale ?ck n then n\<lparr>mp_active := False, mp_updated_at := Some (sc_iso ?ck (sc_now ?ck))\<rparr> else n"
    have "(\<exists>n \<in> set (bd_points d). mp_id (?f n) = mp_id m \<and> \<not> mp_active (?f n)) \<longleftrightarrow> \<not> mp_active (?f m)"
    proof
      assume "\<exists>n \<in> set (bd_points d). mp_id (?f n) = mp_id m \<and> \<not> mp_active (?f n)"
      then obtain n where n: "n \<in> set (bd_points d)" "mp_id (?f n) = mp_id m" "\<not> mp_active (?f n)" by blast
      from n(2) have "mp_id n = mp_id m" by (simp split: if_splits)
      with same [OF n(1)] have "n = m" by simp
      with n(3) show "\<not> mp_active (?f m)" by blast
    next
      assume "\<not> mp_active (?f m)"
      then show "\<exists>n \<in> set (bd_points d). mp_id (?f n) = mp_id m \<and> \<not> mp_active (?f n)" by (intro bexI [OF _ m(1)]) simp
    qed
    also have "\<not> mp_active (?f m) \<longleftrightarrow> is_stale ?ck m" using m(2) by simp
    finally show ?thesis by (simp add: expireStale_def del: if_image_distrib)
  qed
  ultimately show ?thesis by simp
qed

definition demo_point :: "bool \<Rightarrow> meeting_point" where
  "demo_point recurs = point_row (demo_clock 0) \<lparr>pd_id = ''p'', pd_crewId = ''c'', pd_createdBy = ''a'', pd_label = ''gate'',
     pd_location = ''north'', pd_type = ''during'', pd_meetAt = Some ''x'', pd_stageReference = None,
     pd_expiresAt = (if recurs then None else Some (demo_iso (30 * 60000))), pd_latitude = None, pd_longitude = None,
     pd_recursDaily = recurs\<rparr>"

lemma sweep_stops_past_meetings_witness:
  "(\<exists>m' \<in> set (bd_points (expireStale (demo_clock 1800001) ((bs_db demo_boards)\<lparr>bd_points := [demo_point False]\<rparr>))).
      mp_id m' = mp_id (demo_point False) \<and> \<not> mp_active m')"
proof -
  let ?d = "(bs_db demo_boards)\<lparr>bd_points := [demo_point False]\<rparr>"
  have clock: "at_time demo_parse demo_iso t = demo_clock t" for t by (simp add: at_time_def demo_clock_def)
  have point: "mp_active (demo_point False)" "\<not> mp_recurs_daily (demo_point False)" "mp_meet_at (demo_point False) = Some ''x''"
      "mp_expires_at (demo_point False) = Some (demo_iso (30 * 60000))"
    by (simp_all add: demo_point_def point_row_def)
  have parsed: "demo_parse ''x'' = Some 0" by (simp add: demo_parse_def)
  have exp: "expiry (demo_clock 1800001) (Some ''x'') False = Some (Some (demo_iso (30 * 60000)))"
    by (simp add: expiry_def half_hour_after_def demo_clock_def parsed)
  have "boards_ok (demo_clock 1800001) ?d"
    using demo_ok [of 1800001] by (simp add: boards_ok_def points_ok_def point exp)
  then show ?thesis
    using sweep_stops_past_meetings [of demo_parse demo_iso 1800001 ?d "demo_point False"]
    by (simp add: clock point parsed)
qed

end
