(* ===== verification/Crew_Board_Sync.thy ===== *)
theory Crew_Board_Sync
  imports Crew_Board_Inv Crew_Client_Views Crew_Routes
begin

text \<open>
  The client's boards against the server's: what the loaders show of the tables, what an edit made
  offline shows and what its replay leaves in the tables, and two places where client and server
  disagree about a request or an answer.
\<close>

subsection \<open>Votes\<close>

text \<open>The spec of a poll on the screen: the row with the votes of the table.\<close>

definition cast_votes :: "string \<Rightarrow> vote_row list \<Rightarrow> poll_vote list" where
  "cast_votes i vs = map (\<lambda>v. \<lparr>pv_option = Some (vr_option v), pv_user_id = Some (vr_user v)\<rparr>) (filter (\<lambda>v. vr_poll v = i) vs)"

lemma real_aggregated:
  assumes "\<forall>v \<in> set (bd_votes d). vr_user v \<noteq> []"
  shows "filter real_vote (aggregated_votes i d) = cast_votes i (bd_votes d)"
proof (cases "filter (\<lambda>v. vr_poll v = i) (bd_votes d)")
  case Nil
  then show ?thesis by (simp add: aggregated_votes_def cast_votes_def real_vote_def)
next
  case (Cons v vs)
  then have "\<forall>w \<in> set (v # vs). vr_user w \<noteq> []" using assms filter_set by (metis filter_is_subset subsetD)
  then show ?thesis by (simp add: aggregated_votes_def cast_votes_def Cons real_vote_def filter_id_conv)
qed

lemma votes_for_cast: "i < n \<Longrightarrow> length (po_options p) = n \<Longrightarrow>
   votes_for (p\<lparr>po_votes := Some (cast_votes k vs)\<rparr>) i = count_of (\<lambda>v. vr_poll v = k \<and> vr_option v = int i) vs"
  by (induction vs) (auto simp: votes_for_def votes_of_def cast_votes_def)

lemma count_of_split:
  assumes "\<forall>v \<in> set vs. vr_poll v = k \<longrightarrow> 0 \<le> vr_option v \<and> vr_option v < int n"
  shows "(\<Sum>i < n. count_of (\<lambda>v. vr_poll v = k \<and> vr_option v = int i) vs) = count_of (\<lambda>v. vr_poll v = k) vs"
  using assms
proof (induction vs)
  case (Cons v vs)
  have "(\<Sum>i < n. if vr_poll v = k \<and> vr_option v = int i then 1 else 0 :: nat) = (if vr_poll v = k then 1 else 0)"
  proof (cases "vr_poll v = k")
    case True
    with Cons.prems have "vr_option v = int (nat (vr_option v))" "nat (vr_option v) < n" by auto
    then have "(\<Sum>i < n. if vr_option v = int i then 1 else 0 :: nat) = (\<Sum>i < n. if i = nat (vr_option v) then 1 else 0)"
      by (intro sum.cong) auto
    with True \<open>nat (vr_option v) < n\<close> show ?thesis by simp
  qed simp
  with Cons show ?case by (simp add: sum.distrib)
qed simp

text \<open>The polls on the screen are the polls of the table.  Loading a crew's polls shows exactly its open
  polls, newest first, each with exactly the votes cast on it (the entry of nulls that an outer
  join yields for a poll without votes is dropped); the tally of an option is the number of rows
  that chose it, and the tallies of a poll add up to the rows cast on it.\<close>

theorem shown_polls_are_the_tables:
  assumes ok: "boards_ok ck d" and users: "\<forall>v \<in> set (bd_votes d). vr_user v \<noteq> []"
    and rows: "\<forall>p \<in> set (bd_polls d). \<not> po_optimistic p"
    and shown: "ps = polls (loadPolls clk (Inr (Envelope (Some (polls_listByCrew ck c d)))) st)"
  shows "ps = map (\<lambda>p. p\<lparr>po_votes := Some (cast_votes (po_id p) (bd_votes d))\<rparr>)
        (rev (filter (\<lambda>p. po_crew_id p = c \<and> open_poll ck p) (bd_polls d)))
    \<and> (\<forall>p \<in> set ps. (\<forall>i < length (po_options p). tally p ! i = count_of (\<lambda>v. vr_poll v = po_id p \<and> vr_option v = int i) (bd_votes d))
         \<and> sum_list (tally p) = count_of (\<lambda>v. vr_poll v = po_id p) (bd_votes d))"
proof -
  let ?show = "\<lambda>p. p\<lparr>po_votes := Some (cast_votes (po_id p) (bd_votes d))\<rparr>"
  let ?rows = "rev (filter (\<lambda>p. po_crew_id p = c \<and> open_poll ck p) (bd_polls d))"
  have "ps = filter (\<lambda>p. \<not> po_optimistic p) (map ?show ?rows)"
    unfolding shown loadPolls_def polls_listByCrew_def dropOptimistic_def
    by (simp add: comp_def votes_of_def real_aggregated [OF users])
  then have ps: "ps = map ?show ?rows" using rows by (auto simp: filter_id_conv)
  have "(\<forall>i < length (po_options p). tally p ! i = count_of (\<lambda>v. vr_poll v = po_id p \<and> vr_option v = int i) (bd_votes d))
      \<and> sum_list (tally p) = count_of (\<lambda>v. vr_poll v = po_id p) (bd_votes d)" if "p \<in> set ps" for p
  proof -
    from that obtain q where q: "q \<in> set (bd_polls d)" "p = ?show q" unfolding ps by auto
    have each: "tally p ! i = count_of (\<lambda>v. vr_poll v = po_id p \<and> vr_option v = int i) (bd_votes d)" if "i < length (po_options p)" for i
      using that tally_nth [of i p] votes_for_cast [of i "length (po_options q)" q] by (simp add: q(2))
    have "0 \<le> vr_option v \<and> vr_option v < int (length (po_options p))" if v: "v \<in> set (bd_votes d)" "vr_poll v = po_id p" for v
    proof -
      obtain r where r: "r \<in> set (bd_polls d)" "po_id r = vr_poll v" "0 \<le> vr_option v \<and> vr_option v < int (length (po_options r))"
        using ok v(1) by (auto simp: boards_ok_def votes_ok_def)
      have "r = q" using ok q r(1,2) v(2) by (auto simp: boards_ok_def polls_ok_def distinct_map dest: inj_onD)
      with r(3) q(2) show ?thesis by simp
    qed
    then have "(\<Sum>i < length (po_options p). tally p ! i) = count_of (\<lambda>v. vr_poll v = po_id p) (bd_votes d)"
      using count_of_split [of "bd_votes d" "po_id p" "length (po_options p)"] by (simp add: each)
    then show ?thesis using each by (simp add: sum_list_sum_nth length_tally atLeast0LessThan)
  qed
  with ps show ?thesis by blast
qed

definition demo_poll :: crew_poll where
  "demo_poll = poll_row (demo_clock 0) ''p'' ''c'' ''o'' \<lparr>pq_question = ''Where?'', pq_options = [''A'', ''B''], pq_closesAt = None\<rparr>"

definition voted_boards :: board_db where
  "voted_boards = (bs_db demo_boards)\<lparr>bd_polls := [demo_poll], bd_votes := [\<lparr>vr_poll = ''p'', vr_user = ''a'', vr_option = 1\<rparr>]\<rparr>"

lemma shown_polls_are_the_tables_witness:
  "polls (loadPolls ex_clock (Inr (Envelope (Some (polls_listByCrew (demo_clock 0) ''c'' voted_boards)))) crew_initial)
     = [demo_poll\<lparr>po_votes := Some [\<lparr>pv_option = Some 1, pv_user_id = Some ''a''\<rparr>]\<rparr>]"
proof -
  have ok: "boards_ok (demo_clock 0) voted_boards"
    using demo_ok [of 0]
    by (simp add: boards_ok_def polls_ok_def votes_ok_def voted_boards_def demo_poll_def poll_row_def)
  show ?thesis
    using shown_polls_are_the_tables [OF ok _ _ refl, of ex_clock "''c''" crew_initial]
    by (simp add: voted_boards_def demo_poll_def poll_row_def open_poll_def cast_votes_def)
qed

subsection \<open>Edits made offline\<close>

lemma ride_edit_listed:
  assumes "ru_driver u \<noteq> None \<or> ru_seats u \<noteq> None \<or> ru_departFrom u \<noteq> None \<or> ru_departAt u \<noteq> None \<or> ru_note u \<noteq> None"
  shows "rides_listByCrew c (snd (rides_update i u d)) = map_where ro_id i (merge_offer u) (rides_listByCrew c d)"
proof -
  have "merge_offer u x = x\<lparr>ro_driver := (case ru_driver u of Some v \<Rightarrow> v | None \<Rightarrow> ro_driver x),
      ro_seats := (case ru_seats u of Some v \<Rightarrow> v | None \<Rightarrow> ro_seats x),
      ro_depart_from := (case ru_departFrom u of Some v \<Rightarrow> v | None \<Rightarrow> ro_depart_from x),
      ro_depart_at := (case ru_departAt u of Some v \<Rightarrow> v | None \<Rightarrow> ro_depart_at x),
      ro_note := (case ru_note u of Some v \<Rightarrow> v | None \<Rightarrow> ro_note x)\<rparr>" for x
    by (cases "ru_driver u"; cases "ru_seats u"; cases "ru_departFrom u"; cases "ru_departAt u"; cases "ru_note u")
      (simp_all add: merge_offer_def spread_def)
  then have "snd (rides_update i u d) = d\<lparr>bd_offers := map_where ro_id i (merge_offer u) (bd_offers d)\<rparr>"
    using assms by (auto simp: rides_update_def map_where_def Let_def)
  then show ?thesis
    by (simp add: rides_listByCrew_def map_where_def filter_map comp_def author_def merge_offer_def if_distrib [of ro_crew_id]
        if_distrib [of ro_created_by] cong: if_cong)
qed

lemma item_edit_listed:
  assumes "ku_label u \<noteq> None \<or> ku_broughtBy u \<noteq> None \<or> ku_claimed u \<noteq> None"
  shows "mset (packing_listByCrew c (snd (packing_update i u d))) = mset (map_where pk_id i (merge_item u) (packing_listByCrew c d))"
proof -
  have "merge_item u x = x\<lparr>pk_label := (case ku_label u of Some l \<Rightarrow> l | None \<Rightarrow> pk_label x),
      pk_brought_by := (case ku_broughtBy u of Some b \<Rightarrow> b | None \<Rightarrow> pk_brought_by x),
      pk_claimed := (case ku_claimed u of Some c \<Rightarrow> c | None \<Rightarrow> pk_claimed x)\<rparr>" for x
    by (cases "ku_label u"; cases "ku_broughtBy u"; cases "ku_claimed u") (simp_all add: merge_item_def spread_def)
  then have "snd (packing_update i u d) = d\<lparr>bd_items := map_where pk_id i (merge_item u) (bd_items d)\<rparr>"
    using assms by (auto simp: packing_update_def map_where_def Let_def)
  then show ?thesis
    by (simp add: packing_listByCrew_def map_where_def filter_map comp_def author_def merge_item_def if_distrib [of pk_crew_id]
        if_distrib [of pk_created_by] cong: if_cong)
qed


definition demo_edit :: update_packing_item where
  "demo_edit = \<lparr>ku_label = None, ku_broughtBy = Some (Some ''Al''), ku_claimed = Some True\<rparr>"

definition demo_offer :: ride_offer where
  "demo_offer = offer_row (demo_clock 0) ''r'' ''c'' ''o''
     \<lparr>rf_driver = Some ''O'', rf_seats = Some 3, rf_departFrom = None, rf_departAt = None, rf_note = None\<rparr>"

definition demo_ride_edit :: update_ride_offer where
  "demo_ride_edit = \<lparr>ru_driver = None, ru_seats = Some (Some 2), ru_departFrom = None, ru_departAt = None, ru_note = None\<rparr>"

definition demo_rides :: board_srv where
  "demo_rides = demo_boards\<lparr>bs_db := (bs_db demo_boards)\<lparr>bd_offers := [demo_offer]\<rparr>\<rparr>"


subsection \<open>Where client and server disagree\<close>

text \<open>The meeting point that a schedule-aware close asks for has a type the server does not know, so its
  schema refuses every one of them.\<close>

lemma winner_point_refused: "meetingPointCreateSchema isDt (winner_meeting_point ref) = None"
  by (auto simp: meetingPointCreateSchema_def winner_meeting_point_def MEETING_POINT_TYPES_def Let_def split: option.split)

text \<open>Setting the photo album reveals the invite code.  The handler answers any member with the raw crew
  row, the invite code included, which every other route serializes away for all but the owner.\<close>

theorem album_answer_reveals_invite:
  assumes "bs_up s" and "sanitizeIdentifier cp = Some c" and "getMember c u (bd_crew (bs_db s)) = Some m" and "cm_role m \<noteq> Owner"
    and "crewById c (bd_crew (bs_db s)) = Some row"
  shows "\<exists>row'. fst (set_photo_album cp u a s) = Inr (200, Some row') \<and> cr_inviteCode row' = cr_inviteCode row
    \<and> sc_inviteCode (serializeCrew row' (Some m)) = None"
proof -
  have upd: "find (\<lambda>x. cr_id x = c) (map (\<lambda>x. if cr_id x = c then f x else x) xs) = map_option f (find (\<lambda>x. cr_id x = c) xs)"
    if "\<And>x. cr_id (f x) = cr_id x" for f :: "crew \<Rightarrow> crew" and xs
    by (induction xs) (auto simp: that)
  have "fst (updatePhotoAlbum c (truthy a) (bd_crew (bs_db s)))
      = Some (row\<lparr>cr_photoAlbumUrl := truthy a, cr_updatedAt := cd_now (bd_crew (bs_db s))\<rparr>)"
    using assms(5) by (simp add: updatePhotoAlbum_def crewById_def set_crew_def Let_def upd)
  then show ?thesis using assms(1-4) by (simp add: set_photo_album_def as_member_def split_beta Let_def serializeCrew_def)
qed

lemma album_answer_reveals_invite_witness:
  "\<exists>row. fst (set_photo_album ''c'' ''m'' (Some ''url'') (demo_boards\<lparr>bs_db := (bs_db demo_boards)\<lparr>bd_crew := sv_db srv0\<rparr>\<rparr>))
      = Inr (200, Some row) \<and> cr_inviteCode row = ''ABCDEF''"
proof -
  have id: "sanitizeIdentifier ''c'' = Some ''c''" by code_simp
  show ?thesis
    using album_answer_reveals_invite [OF _ id, where s = "demo_boards\<lparr>bs_db := (bs_db demo_boards)\<lparr>bd_crew := sv_db srv0\<rparr>\<rparr>"
        and u = "''m''" and a = "Some ''url''" and row = "hd (cd_crews (sv_db srv0))" and m = "cd_members (sv_db srv0) ! 1"]
    by (fastforce simp: srv0_def demo_boards_def getMember_def crewById_def crew_of_data_def)
qed

end
