(* ===== verification/Live_Store.thy ===== *)
theory Live_Store
  imports Crew_Client_Live
begin

text \<open>
  The client's live state: the store of peers and SOS (\<open>liveLocationStore.ts\<close>, with the helpers of
  \<open>utils/liveLocation.ts\<close>), the router and the sink of crew events (\<open>crewEventRouter.ts\<close>,
  \<open>crewRealtimeSink.ts\<close>), the hook with its debouncer (\<open>useCrewRealtime.ts\<close>), the publisher
  (\<open>useLiveLocationPublisher.ts\<close>) and what a client drops when its access is revoked or its user
  signs out (\<open>revocationHandlers.ts\<close>, \<open>resetStores.ts\<close>).

  An object keyed by user is an association list in insertion order: spreading a key that is
  present keeps its place.  Ids are not numerals, which JavaScript would list first.
\<close>

subsection \<open>The store\<close>

record live_state =
  lv_crewId :: "string option"
  lv_sharingCrewId :: "string option"
  lv_sharingExpiresAt :: "string option"
  lv_lastSentAt :: "int option"
  lv_lastSentCoord :: "(rat \<times> rat) option"
  lv_peers :: "(string \<times> peer_location) list"
  lv_sosByUser :: "(string \<times> sos_entry) list"
  lv_sos :: "sos_entry option"
  lv_activeSosList :: "sos_entry list"

definition live_empty :: live_state where
  "live_empty = \<lparr>lv_crewId = None, lv_sharingCrewId = None, lv_sharingExpiresAt = None, lv_lastSentAt = None,
     lv_lastSentCoord = None, lv_peers = [], lv_sosByUser = [], lv_sos = None, lv_activeSosList = []\<rparr>"

text \<open>Raise times are dates of the server; comparing one that does not parse is left out.\<close>

definition raised_ms :: "(string \<Rightarrow> int option) \<Rightarrow> sos_entry \<Rightarrow> int" where
  "raised_ms parse e = (case parse (se_raisedAt e) of Some t \<Rightarrow> t | None \<Rightarrow> 0)"

definition deriveSos :: "(string \<Rightarrow> int option) \<Rightarrow> (string \<times> sos_entry) list \<Rightarrow> live_state \<Rightarrow> live_state" where
  "deriveSos parse m s =
     (let l = js_sort (by_key (\<lambda>e. - raised_ms parse e)) (map snd m)
      in s\<lparr>lv_sosByUser := m, lv_activeSosList := l, lv_sos := (case l of [] \<Rightarrow> None | e # _ \<Rightarrow> Some e)\<rparr>)"

definition setActiveCrew :: "string option \<Rightarrow> live_state \<Rightarrow> live_state" where
  "setActiveCrew crewId s = (if lv_crewId s = crewId then s else live_empty\<lparr>lv_crewId := crewId\<rparr>)"

definition startSharing :: "string \<Rightarrow> string option \<Rightarrow> live_state \<Rightarrow> live_state" where
  "startSharing crewId expiresAt s =
     s\<lparr>lv_crewId := Some crewId, lv_sharingCrewId := Some crewId, lv_sharingExpiresAt := expiresAt,
       lv_lastSentAt := None, lv_lastSentCoord := None\<rparr>"

definition stopSharing :: "live_state \<Rightarrow> live_state" where
  "stopSharing s = s\<lparr>lv_sharingCrewId := None, lv_sharingExpiresAt := None, lv_lastSentAt := None, lv_lastSentCoord := None\<rparr>"

definition recordSent :: "rat \<times> rat \<Rightarrow> int \<Rightarrow> live_state \<Rightarrow> live_state" where
  "recordSent coord t s = s\<lparr>lv_lastSentCoord := Some coord, lv_lastSentAt := Some t\<rparr>"

definition other_crew :: "string \<Rightarrow> live_state \<Rightarrow> bool" where
  "other_crew c s \<longleftrightarrow> (case lv_crewId s of Some d \<Rightarrow> d \<noteq> [] \<and> c \<noteq> d | None \<Rightarrow> False)"

definition applyPeerUpdate :: "peer_location \<Rightarrow> live_state \<Rightarrow> live_state" where
  "applyPeerUpdate p s =
     (if other_crew (pl_crewId p) s then s else s\<lparr>lv_peers := AList.update (pl_userId p) p (lv_peers s)\<rparr>)"

definition removePeer :: "string \<Rightarrow> live_state \<Rightarrow> live_state" where
  "removePeer u s = s\<lparr>lv_peers := filter (\<lambda>e. fst e \<noteq> u) (lv_peers s)\<rparr>"

definition STALE_MS :: int where "STALE_MS = 120000"
definition FRESH_MS :: int where "FRESH_MS = 30000"
definition UPDATE_INTERVAL_MS :: int where "UPDATE_INTERVAL_MS = 10000"
definition MIN_MOVE_METERS :: rat where "MIN_MOVE_METERS = 15"
definition MAX_SESSION_MS :: int where "MAX_SESSION_MS = 3600000"

definition stale_peer :: "(string \<Rightarrow> int option) \<Rightarrow> int \<Rightarrow> int \<Rightarrow> peer_location \<Rightarrow> bool" where
  "stale_peer parse now ttlMs p \<longleftrightarrow> (case parse (pl_serverAt p) of Some t \<Rightarrow> ttlMs < now - t | None \<Rightarrow> False)"

definition sweepStale :: "(string \<Rightarrow> int option) \<Rightarrow> int \<Rightarrow> int \<Rightarrow> live_state \<Rightarrow> live_state" where
  "sweepStale parse now ttlMs s = s\<lparr>lv_peers := filter (\<lambda>e. \<not> stale_peer parse now ttlMs (snd e)) (lv_peers s)\<rparr>"

definition applySos :: "(string \<Rightarrow> int option) \<Rightarrow> sos_entry \<Rightarrow> live_state \<Rightarrow> live_state" where
  "applySos parse e s =
     (if other_crew (se_crewId e) s then s else deriveSos parse (AList.update (se_userId e) e (lv_sosByUser s)) s)"

definition clearSos :: "(string \<Rightarrow> int option) \<Rightarrow> string option \<Rightarrow> live_state \<Rightarrow> live_state" where
  "clearSos parse raiserId s =
     (case raiserId of
        None \<Rightarrow> if lv_sosByUser s = [] then s else deriveSos parse [] s
      | Some u \<Rightarrow> if u \<notin> fst ` set (lv_sosByUser s) then s
                  else deriveSos parse (filter (\<lambda>e. fst e \<noteq> u) (lv_sosByUser s)) s)"

definition live_reset :: "live_state \<Rightarrow> live_state" where
  "live_reset s = live_empty"

subsection \<open>Helpers of the publisher and the markers\<close>

text \<open>\<open>moved\<close> is the distance of the two fixes (\<open>haversineDistance\<close>), \<open>None\<close> for an invalid one.\<close>

definition shouldPublishLocation :: "rat option \<Rightarrow> (rat \<times> rat) option \<Rightarrow> int option \<Rightarrow> int \<Rightarrow> bool" where
  "shouldPublishLocation moved prev lastSentAt now =
     (case (prev, lastSentAt) of
        (Some _, Some t) \<Rightarrow> if UPDATE_INTERVAL_MS \<le> now - t then True
                            else (case moved of Some d \<Rightarrow> MIN_MOVE_METERS < d | None \<Rightarrow> False)
      | _ \<Rightarrow> True)"

datatype time_value = NoTime | TimeNumber int | TimeText string

definition time_ms :: "(string \<Rightarrow> int option) \<Rightarrow> time_value \<Rightarrow> int option" where
  "time_ms parse v = (case v of NoTime \<Rightarrow> None | TimeNumber t \<Rightarrow> Some t | TimeText x \<Rightarrow> parse x)"

definition isPeerStale :: "(string \<Rightarrow> int option) \<Rightarrow> time_value \<Rightarrow> int \<Rightarrow> int \<Rightarrow> bool" where
  "isPeerStale parse serverAt now freshMs = (case time_ms parse serverAt of Some t \<Rightarrow> freshMs < now - t | None \<Rightarrow> False)"

definition arrow :: "nat \<Rightarrow> string" where
  "arrow b = map char_of [226 :: nat, 134, b]"

definition HEADING_ARROWS :: "string list" where
  "HEADING_ARROWS = map arrow [145, 151, 146, 152, 147, 153, 144, 150]"

text \<open>The remainder of JavaScript, which keeps the sign of the dividend.\<close>

definition js_rem :: "rat \<Rightarrow> rat \<Rightarrow> rat" where
  "js_rem x m = x - m * of_int (if 0 \<le> x / m then \<lfloor>x / m\<rfloor> else \<lceil>x / m\<rceil>)"

definition heading_norm :: "rat \<Rightarrow> rat" where
  "heading_norm h = js_rem (js_rem h 360 + 360) 360"

definition heading_sector :: "rat \<Rightarrow> nat" where
  "heading_sector h = nat (js_round (heading_norm h / 45)) mod 8"

definition headingToArrow :: "rat option \<Rightarrow> string option" where
  "headingToArrow heading = map_option (\<lambda>h. HEADING_ARROWS ! heading_sector h) heading"

definition LOW_BATTERY_THRESHOLD :: int where "LOW_BATTERY_THRESHOLD = 20"

definition formatBatteryLabel :: "rat option \<Rightarrow> int \<Rightarrow> string option" where
  "formatBatteryLabel level lowThreshold =
     (case level of
        None \<Rightarrow> None
      | Some l \<Rightarrow>
          let pct = js_round l
          in if pct < 0 \<or> 100 < pct then None
             else Some (show_nat (nat pct) @ (if pct \<le> lowThreshold then ''% '' @ em_dash @ '' regroup'' else ''%'')))"

definition formatShareWindow :: "(string \<Rightarrow> int option) \<Rightarrow> time_value \<Rightarrow> int \<Rightarrow> string option" where
  "formatShareWindow parse expiresAt now =
     (case time_ms parse expiresAt of
        None \<Rightarrow> None
      | Some t \<Rightarrow>
          let remaining = t - now
          in if remaining \<le> 0 then None
             else Some (''sharing ends in '' @ show_nat (nat (max 1 \<lceil>of_int remaining / (60000 :: rat)\<rceil>)) @ ''m''))"

end
