(* ===== verification/Socket_Relay.thy ===== *)
theory Socket_Relay
  imports Crew_Store Rate_Limit Live_Location
begin

text \<open>
  The Socket.IO handlers (\<open>routes/socket.ts\<close>) with presence (\<open>lib/presence.ts\<close>) and the registry
  of sharing sockets (\<open>lib/rate-limiting.ts\<close>): joining and leaving festival and crew rooms, and the
  relay of live positions.  A handler runs on the world of one server: the sockets with their
  rooms and \<open>socket.data\<close>, the tables, the limiters, the sharing registry in Redis and the local
  presence map.  What it sends is logged with the sockets that receive it; commands to the
  position cache are logged as issued.  A handler is one step: the awaits inside it do not
  interleave with others, and acknowledgement timeouts are left out.

  Outside: the session store (\<open>ev_session\<close>, which the code calls \<open>validateUserSession\<close>), the token a
  handshake carries, festivals and profiles, the heap, and what Redis answers a limiter.
\<close>

record sock =
  sk_id :: string
  sk_handshake :: "string option"
  sk_authenticated :: bool
  sk_rooms :: "string list"
  sk_userId :: "string option"
  sk_username :: "string option"
  sk_festivalId :: "string option"
  sk_profileId :: "string option"
  sk_token :: "string option"
  sk_crewId :: "string option"
  sk_sharing :: "string option"
  sk_since :: "int option"
  sk_checkedAt :: "int option"
  sk_count :: "nat option"

datatype stop_reason = Stopped | Disconnected | Left | Revoked

datatype relay_event =
    PeerUpdate peer_location
  | PeerStopped string string stop_reason
  | SocketError string "string option"
  | AccessRevoked string

record relay =
  ry_db :: crew_db
  ry_up :: bool
  ry_socks :: "sock list"
  ry_limits :: limiter_state
  ry_location :: event_limiter
  ry_sharers :: "string \<Rightarrow> (string \<times> int) list"
  ry_redis :: bool
  ry_online :: "string \<Rightarrow> (string \<times> string \<times> string) list"
  ry_cmds :: "redis_cmd list"
  ry_sent :: "(string list \<times> relay_event) list"

record relay_env =
  ev_now :: int
  ev_iso :: "int \<Rightarrow> string"
  ev_parse :: "string \<Rightarrow> int option"
  ev_session :: "string option \<Rightarrow> (string \<times> string) option"
  ev_festival :: "string \<Rightarrow> bool"
  ev_profile :: "string \<Rightarrow> string \<Rightarrow> string option"
  ev_heap_ok :: bool
  ev_limits :: limiter_config
  ev_join_limit :: nat
  ev_leave_limit :: nat
  ev_room_cap :: nat
  ev_live :: bool
  ev_redis_limit :: redis_answer
  ev_snapshot :: "string \<Rightarrow> (string \<times> json option) list option"

datatype ack = Accepted | Peers "peer_location list" | Declined string

subsection \<open>Sockets and rooms\<close>

definition sock_of :: "string \<Rightarrow> relay \<Rightarrow> sock option" where
  "sock_of i r = lookup_key sk_id (ry_socks r) i"

definition upd_sock :: "string \<Rightarrow> (sock \<Rightarrow> sock) \<Rightarrow> relay \<Rightarrow> relay" where
  "upd_sock i f r = r\<lparr>ry_socks := map (\<lambda>s. if sk_id s = i then f s else s) (ry_socks r)\<rparr>"

definition join_to :: "string \<Rightarrow> sock \<Rightarrow> sock" where
  "join_to room s = s\<lparr>sk_rooms := (if room \<in> set (sk_rooms s) then sk_rooms s else sk_rooms s @ [room])\<rparr>"

definition leave_of :: "string \<Rightarrow> sock \<Rightarrow> sock" where
  "leave_of room s = s\<lparr>sk_rooms := filter (\<lambda>x. x \<noteq> room) (sk_rooms s)\<rparr>"

definition room_of_crew :: "string \<Rightarrow> string" where
  "room_of_crew crewId = ''crew:'' @ crewId"

definition members_of :: "string \<Rightarrow> relay \<Rightarrow> string list" where
  "members_of room r = map sk_id (filter (\<lambda>s. room \<in> set (sk_rooms s)) (ry_socks r))"

text \<open>\<open>socket.to(room).emit\<close> and \<open>socket.emit\<close>.\<close>

definition to_others :: "string \<Rightarrow> string \<Rightarrow> relay_event \<Rightarrow> relay \<Rightarrow> relay" where
  "to_others i room ev r = r\<lparr>ry_sent := ry_sent r @ [(filter (\<lambda>j. j \<noteq> i) (members_of room r), ev)]\<rparr>"

definition to_self :: "string \<Rightarrow> relay_event \<Rightarrow> relay \<Rightarrow> relay" where
  "to_self i ev r = r\<lparr>ry_sent := ry_sent r @ [([i], ev)]\<rparr>"

definition issue :: "redis_cmd list \<Rightarrow> relay \<Rightarrow> relay" where
  "issue cs r = r\<lparr>ry_cmds := ry_cmds r @ cs\<rparr>"

subsection \<open>The registry of sharing sockets\<close>

definition MAX_CONCURRENT_SHARING_SOCKETS :: nat where
  "MAX_CONCURRENT_SHARING_SOCKETS = 3"

definition SHARING_SOCKET_TTL_MS :: int where
  "SHARING_SOCKET_TTL_MS = 5 * 60 * 1000"

text \<open>A sorted set of sockets scored with their expiry; without Redis everything is allowed.\<close>

definition registerSharingSocket :: "int \<Rightarrow> string \<Rightarrow> string \<Rightarrow> relay \<Rightarrow> bool \<times> relay" where
  "registerSharingSocket now userId socketId r =
     (if \<not> ry_redis r \<or> userId = [] \<or> socketId = [] then (True, r)
      else let z = AList.update socketId (now + SHARING_SOCKET_TTL_MS) (filter (\<lambda>e. now < snd e) (ry_sharers r userId))
           in (length z \<le> MAX_CONCURRENT_SHARING_SOCKETS, r\<lparr>ry_sharers := (ry_sharers r)(userId := z)\<rparr>))"

definition unregisterSharingSocket :: "string option \<Rightarrow> string \<Rightarrow> relay \<Rightarrow> relay" where
  "unregisterSharingSocket userId socketId r =
     (case userId of
        None \<Rightarrow> r
      | Some u \<Rightarrow> if \<not> ry_redis r \<or> u = [] \<or> socketId = [] then r
                  else r\<lparr>ry_sharers := (ry_sharers r)(u := filter (\<lambda>e. fst e \<noteq> socketId) (ry_sharers r u))\<rparr>)"

subsection \<open>Presence\<close>

definition removeSocketPresence :: "string \<Rightarrow> relay \<Rightarrow> string option \<times> relay" where
  "removeSocketPresence i r =
     (case Option.bind (sock_of i r) sk_festivalId of
        None \<Rightarrow> (None, r)
      | Some f \<Rightarrow> (Some f, upd_sock i (\<lambda>s. s\<lparr>sk_festivalId := None\<rparr>)
            (r\<lparr>ry_online := (ry_online r)(f := filter (\<lambda>e. fst e \<noteq> i) (ry_online r f))\<rparr>)))"

definition setSocketPresence :: "string \<Rightarrow> string \<Rightarrow> string \<Rightarrow> string \<Rightarrow> relay \<Rightarrow> relay" where
  "setSocketPresence f userId username i r =
     r\<lparr>ry_online := (ry_online r)(f := AList.update i (userId, username) (ry_online r f))\<rparr>"

text \<open>The local list: one entry per user, in the order of the map.\<close>

fun once_each :: "string list \<Rightarrow> (string \<times> string \<times> string) list \<Rightarrow> (string \<times> string) list" where
  "once_each seen [] = []"
| "once_each seen ((i, u, n) # xs) = (if u \<in> set seen then once_each seen xs else (u, n) # once_each (u # seen) xs)"

definition getPresenceList :: "string \<Rightarrow> relay \<Rightarrow> (string \<times> string) list" where
  "getPresenceList f r = once_each [] (ry_online r f)"

definition clearSocketSession :: "string \<Rightarrow> relay \<Rightarrow> relay" where
  "clearSocketSession i r =
     upd_sock i (\<lambda>s. s\<lparr>sk_userId := None, sk_username := None, sk_festivalId := None, sk_profileId := None, sk_token := None\<rparr>) r"

definition leaveFestivalRealtime :: "string \<Rightarrow> relay \<Rightarrow> string option \<times> relay" where
  "leaveFestivalRealtime i r =
     (case removeSocketPresence i r of
        (None, r1) \<Rightarrow> (None, r1)
      | (Some f, r1) \<Rightarrow> (Some f, upd_sock i (\<lambda>s. (leave_of f s)\<lparr>sk_profileId := None\<rparr>) r1))"

subsection \<open>Disconnecting\<close>

definition drop_position :: "string \<Rightarrow> string \<Rightarrow> relay \<Rightarrow> relay" where
  "drop_position crewId userId r = issue (dropLivePosition (ry_redis r) crewId userId) r"

text \<open>The \<open>disconnect\<close> handler, and then the socket is gone from every room.\<close>

definition on_disconnect :: "string \<Rightarrow> relay \<Rightarrow> relay" where
  "on_disconnect i r =
     (case sock_of i r of
        None \<Rightarrow> r
      | Some s \<Rightarrow>
          let told = (case (sk_sharing s, sk_userId s) of
                  (Some c, Some u) \<Rightarrow> if c = [] \<or> u = [] then r
                    else drop_position c u (unregisterSharingSocket (Some u) i
                           (to_others i (room_of_crew c) (PeerStopped c u Disconnected) r))
                | _ \<Rightarrow> r);
              cleared = clearSocketSession i (snd (removeSocketPresence i told))
          in cleared\<lparr>ry_socks := remove_key sk_id i (ry_socks cleared)\<rparr>)"

definition disconnectSocket :: "string \<Rightarrow> relay \<Rightarrow> relay" where
  "disconnectSocket i r = on_disconnect i (clearSocketSession i (snd (leaveFestivalRealtime i r)))"

definition disconnect_where :: "(sock \<Rightarrow> bool) \<Rightarrow> relay \<Rightarrow> relay" where
  "disconnect_where P r = fold disconnectSocket (map sk_id (filter P (ry_socks r))) r"

definition disconnectUserSockets :: "string \<Rightarrow> relay \<Rightarrow> relay" where
  "disconnectUserSockets userId = disconnect_where (\<lambda>s. sk_userId s = Some userId)"

definition disconnectSessionTokens :: "string list \<Rightarrow> relay \<Rightarrow> relay" where
  "disconnectSessionTokens tokens = disconnect_where (\<lambda>s. \<exists>t \<in> set tokens. t \<noteq> [] \<and> sk_token s = Some t)"

text \<open>Five seconds after connecting a socket that has not joined a festival is dropped.\<close>

definition auth_timeout :: "string \<Rightarrow> relay \<Rightarrow> relay" where
  "auth_timeout i r = (case sock_of i r of Some s \<Rightarrow> if sk_authenticated s then r else on_disconnect i r | None \<Rightarrow> r)"

subsection \<open>Joining rooms\<close>

text \<open>\<open>resolveSocketToken\<close> with an explicit token.\<close>

definition resolve_token :: "sock \<Rightarrow> string option \<Rightarrow> string option" where
  "resolve_token s explicit =
     (case explicit of Some t \<Rightarrow> if js_trim t = [] then sk_handshake s else Some (js_trim t) | None \<Rightarrow> sk_handshake s)"

text \<open>\<open>socket.data.userSessionToken || resolveSocketToken(socket, null, ...)\<close>.\<close>

definition current_token :: "sock \<Rightarrow> string option" where
  "current_token s = (case sk_token s of Some t \<Rightarrow> if t = [] then resolve_token s None else Some t | None \<Rightarrow> resolve_token s None)"

definition valid_id :: "string \<Rightarrow> bool" where
  "valid_id v \<longleftrightarrow> 1 \<le> length v \<and> length v \<le> 100"

definition joinable :: "relay_env \<Rightarrow> string \<Rightarrow> relay \<Rightarrow> string option" where
  "joinable e festivalId r =
     (if \<not> ev_heap_ok e then Some ''Server is at capacity''
      else if ev_room_cap e \<le> length (members_of festivalId r) then Some ''Room is full''
      else if \<not> ev_festival e festivalId then Some ''Festival not found''
      else None)"

definition enter_festival :: "string \<Rightarrow> string \<Rightarrow> string \<Rightarrow> string \<Rightarrow> string option \<Rightarrow> string \<Rightarrow> relay \<Rightarrow> relay" where
  "enter_festival i f userId username token profileId r =
     setSocketPresence f userId username i
       (upd_sock i (\<lambda>s. (join_to f s)\<lparr>sk_userId := Some userId, sk_username := Some username, sk_festivalId := Some f,
            sk_profileId := Some profileId, sk_token := token, sk_authenticated := True\<rparr>)
          (snd (leaveFestivalRealtime i r)))"

definition authenticateAndJoinRoom ::
  "relay_env \<Rightarrow> string \<Rightarrow> string \<Rightarrow> string option \<Rightarrow> string \<Rightarrow> relay \<Rightarrow> ack \<times> relay" where
  "authenticateAndJoinRoom e i festivalId userToken scope r =
     (case sock_of i r of
        None \<Rightarrow> (Declined ''Server error'', r)
      | Some s \<Rightarrow>
          let token = resolve_token s userToken
          in if \<not> ry_up r then (Declined ''Server error'', r)
             else case ev_session e token of
                None \<Rightarrow> (Declined ''Authentication required'', disconnectSocket i r)
              | Some (userId, username) \<Rightarrow>
                  (case consumeSocketRateLimit (ev_limits e) (ev_now e) (scope @ '':'' @ userId) (ev_join_limit e) (ry_limits r) of
                     (allowed, ls) \<Rightarrow>
                       let r1 = r\<lparr>ry_limits := ls\<rparr>
                       in if \<not> allowed then (Declined ''Rate limited'', to_self i (SocketError ''Realtime rate limit exceeded'' None) r1)
                          else case joinable e festivalId r1 of
                             Some why \<Rightarrow> (Declined why, r1)
                           | None \<Rightarrow> (case ev_profile e userId festivalId of
                                 None \<Rightarrow> (Declined ''Not a member of this festival'', r1)
                               | Some p \<Rightarrow> (Accepted, enter_festival i festivalId userId username token p r1))))"

definition join_festival :: "relay_env \<Rightarrow> string \<Rightarrow> string \<Rightarrow> string option \<Rightarrow> relay \<Rightarrow> ack \<times> relay" where
  "join_festival e i festivalId userToken r =
     (if \<not> valid_id festivalId then (Declined ''SCHEMA_MISMATCH'', r)
      else case authenticateAndJoinRoom e i festivalId userToken ''join'' r of
         (a, r1) \<Rightarrow> (a, if a = Declined ''Not a member of this festival''
                        then to_self i (SocketError ''Join this festival before using crew realtime'' None) r1 else r1))"

definition reconnect_restore :: "relay_env \<Rightarrow> string \<Rightarrow> string \<Rightarrow> string option \<Rightarrow> relay \<Rightarrow> ack \<times> relay" where
  "reconnect_restore e i festivalId userToken r =
     (if \<not> valid_id festivalId then (Declined ''SCHEMA_MISMATCH'', r)
      else authenticateAndJoinRoom e i festivalId userToken ''restore'' r)"

text \<open>Leaving a festival leaves every room but the socket's own.\<close>

definition leave_festival :: "relay_env \<Rightarrow> string \<Rightarrow> relay \<Rightarrow> relay" where
  "leave_festival e i r =
     (case sock_of i r of
        None \<Rightarrow> r
      | Some s \<Rightarrow>
          (case consumeSocketRateLimit (ev_limits e) (ev_now e)
              (''leave:'' @ (case sk_userId s of Some u \<Rightarrow> if u = [] then i else u | None \<Rightarrow> i)) (ev_leave_limit e) (ry_limits r) of
             (allowed, ls) \<Rightarrow>
               let r1 = r\<lparr>ry_limits := ls\<rparr>
               in if \<not> allowed then to_self i (SocketError ''Realtime rate limit exceeded'' None) r1
                  else upd_sock i (\<lambda>s. s\<lparr>sk_rooms := filter (\<lambda>x. x = i) (sk_rooms s)\<rparr>) (snd (leaveFestivalRealtime i r1))))"

text \<open>The session of a socket, or the reason it has none: an outage, or a socket to disconnect.\<close>

definition with_session ::
  "relay_env \<Rightarrow> string \<Rightarrow> ack \<Rightarrow> ack \<Rightarrow> (sock \<Rightarrow> string option \<Rightarrow> string \<Rightarrow> string \<Rightarrow> relay \<Rightarrow> ack \<times> relay) \<Rightarrow> relay \<Rightarrow> ack \<times> relay" where
  "with_session e i oops refused body r =
     (case sock_of i r of
        None \<Rightarrow> (oops, r)
      | Some s \<Rightarrow>
          if \<not> ry_up r then (oops, r)
          else case ev_session e (current_token s) of
             None \<Rightarrow> (refused, disconnectSocket i r)
           | Some (userId, username) \<Rightarrow> body s (current_token s) userId username r)"

definition join_crew_room :: "relay_env \<Rightarrow> string \<Rightarrow> string \<Rightarrow> relay \<Rightarrow> ack \<times> relay" where
  "join_crew_room e i crewId r =
     (if \<not> valid_id crewId then (Declined ''SCHEMA_MISMATCH'', r)
      else with_session e i (Declined ''Server error'') (Declined ''Authentication required'')
        (\<lambda>s token userId username r.
           let r1 = upd_sock i (\<lambda>s. s\<lparr>sk_token := token\<rparr>) r
           in case consumeSocketRateLimit (ev_limits e) (ev_now e) (''crew-join:'' @ userId) (ev_join_limit e) (ry_limits r1) of
             (allowed, ls) \<Rightarrow>
               let r2 = r1\<lparr>ry_limits := ls\<rparr>
               in if \<not> allowed then (Declined ''Rate limited'', r2)
                  else if crewById crewId (ry_db r2) = None then (Declined ''Crew not found'', r2)
                  else if getMember crewId userId (ry_db r2) = None then (Declined ''Not a member of this crew'', r2)
                  else (Accepted, upd_sock i (\<lambda>s.
                     let left = (case sk_crewId s of
                            Some c \<Rightarrow> if c \<noteq> [] \<and> c \<noteq> crewId then leave_of (room_of_crew c) s else s | None \<Rightarrow> s)
                     in (join_to (room_of_crew crewId) left)\<lparr>sk_crewId := Some crewId\<rparr>) r2)) r)"

definition leave_crew_room :: "relay_env \<Rightarrow> string \<Rightarrow> string \<Rightarrow> relay \<Rightarrow> ack \<times> relay" where
  "leave_crew_room e i crewId r =
     (if \<not> valid_id crewId then (Accepted, r)
      else with_session e i Accepted Accepted
        (\<lambda>s token userId username r.
           let r1 = upd_sock i (\<lambda>s. s\<lparr>sk_token := token\<rparr>) r
           in case consumeSocketRateLimit (ev_limits e) (ev_now e) (''crew-leave:'' @ userId) (ev_leave_limit e) (ry_limits r1) of
             (allowed, ls) \<Rightarrow>
               let r2 = r1\<lparr>ry_limits := ls\<rparr>;
                   r3 = (if sk_sharing s = Some crewId
                         then drop_position crewId userId (unregisterSharingSocket (Some userId) i
                                (upd_sock i (\<lambda>s. s\<lparr>sk_sharing := None\<rparr>)
                                  (to_others i (room_of_crew crewId) (PeerStopped crewId userId Left) r2)))
                         else r2)
               in if \<not> allowed then (Accepted, r2)
                  else (Accepted, upd_sock i (\<lambda>s. (leave_of (room_of_crew crewId) s)
                      \<lparr>sk_crewId := (if sk_crewId s = Some crewId then None else sk_crewId s),
                       sk_checkedAt := None, sk_count := None\<rparr>) r3)) r)"

text \<open>Eviction of a removed member (\<open>evictUserFromCrewRoom\<close>), on the sockets of this model.\<close>

definition evict_one :: "string \<Rightarrow> string \<Rightarrow> sock \<Rightarrow> relay \<Rightarrow> relay" where
  "evict_one crewId userId s r =
     (if sk_userId s \<noteq> Some userId then r
      else let r1 = (if sk_sharing s = Some crewId
                     then to_others (sk_id s) (room_of_crew crewId) (PeerStopped crewId userId Revoked) r else r)
           in upd_sock (sk_id s) (\<lambda>s. (leave_of (room_of_crew crewId) s)\<lparr>sk_sharing := None, sk_checkedAt := None, sk_count := None\<rparr>)
                (to_self (sk_id s) (AccessRevoked crewId) r1))"

definition evict_user :: "string \<Rightarrow> string \<Rightarrow> relay \<Rightarrow> relay" where
  "evict_user crewId userId r =
     fold (evict_one crewId userId) (filter (\<lambda>s. room_of_crew crewId \<in> set (sk_rooms s)) (ry_socks r)) r"

subsection \<open>Live location\<close>

definition MEMBERSHIP_RECHECK_INTERVAL_MS :: int where
  "MEMBERSHIP_RECHECK_INTERVAL_MS = 15000"

definition MEMBERSHIP_RECHECK_EVERY_N :: nat where
  "MEMBERSHIP_RECHECK_EVERY_N = 20"

definition CAPTURED_AT_MAX_AGE_MS :: int where
  "CAPTURED_AT_MAX_AGE_MS = 60000"

definition CAPTURED_AT_MAX_SKEW_MS :: int where
  "CAPTURED_AT_MAX_SKEW_MS = 30000"

definition clampCapturedAt :: "(string \<Rightarrow> int option) \<Rightarrow> (int \<Rightarrow> string) \<Rightarrow> string \<Rightarrow> int \<Rightarrow> string \<Rightarrow> string" where
  "clampCapturedAt parse fmt capturedAt serverNow serverNowIso =
     (case parse capturedAt of
        None \<Rightarrow> serverNowIso
      | Some t \<Rightarrow>
          let lo = serverNow - CAPTURED_AT_MAX_AGE_MS; hi = serverNow + CAPTURED_AT_MAX_SKEW_MS
          in if t < lo then fmt lo else if hi < t then fmt hi else fmt t)"

record live_coord =
  lc_lat :: rat
  lc_lng :: rat
  lc_accuracy :: "rat option"
  lc_heading :: "rat option"
  lc_speed :: "rat option"
  lc_battery :: "rat option"
  lc_lowPower :: "bool option"
  lc_expiresAt :: "string option"
  lc_capturedAt :: string

definition bounded_by :: "rat \<Rightarrow> rat \<Rightarrow> rat option \<Rightarrow> bool" where
  "bounded_by lo hi v \<longleftrightarrow> (case v of Some x \<Rightarrow> lo \<le> x \<and> x \<le> hi | None \<Rightarrow> True)"

text \<open>\<open>liveCoord\<close> (which has no speed) and \<open>locationUpdateSchema\<close>; \<open>isDatetime\<close> is zod's check of ISO date-times.\<close>

definition coord_ok :: "(string \<Rightarrow> bool) \<Rightarrow> live_coord \<Rightarrow> bool" where
  "coord_ok isDatetime p \<longleftrightarrow>
     bounded_by (-90) 90 (Some (lc_lat p)) \<and> bounded_by (-180) 180 (Some (lc_lng p)) \<and> bounded_by 0 100000 (lc_accuracy p)
     \<and> bounded_by 0 360 (lc_heading p) \<and> bounded_by 0 1000 (lc_speed p) \<and> bounded_by 0 100 (lc_battery p)
     \<and> (case lc_expiresAt p of Some t \<Rightarrow> isDatetime t | None \<Rightarrow> True) \<and> isDatetime (lc_capturedAt p)"

definition locationUpdateSchema :: "(string \<Rightarrow> bool) \<Rightarrow> string \<Rightarrow> live_coord \<Rightarrow> bool" where
  "locationUpdateSchema isDatetime crewId p \<longleftrightarrow> valid_id crewId \<and> coord_ok isDatetime p"

definition locationShareSchema :: "(string \<Rightarrow> bool) \<Rightarrow> string \<Rightarrow> live_coord option \<Rightarrow> string option \<Rightarrow> bool" where
  "locationShareSchema isDatetime crewId position expiresAt \<longleftrightarrow> valid_id crewId
     \<and> (case position of Some p \<Rightarrow> coord_ok isDatetime (p\<lparr>lc_speed := None, lc_expiresAt := None\<rparr>) | None \<Rightarrow> True)
     \<and> (case expiresAt of Some t \<Rightarrow> isDatetime t | None \<Rightarrow> True)"

definition peer_payload :: "relay_env \<Rightarrow> string \<Rightarrow> string \<Rightarrow> string \<Rightarrow> live_coord \<Rightarrow> peer_location" where
  "peer_payload e crewId userId username p =
     \<lparr>pl_crewId = crewId, pl_userId = userId, pl_username = username, pl_lat = lc_lat p, pl_lng = lc_lng p,
      pl_accuracy = lc_accuracy p, pl_heading = lc_heading p, pl_speed = lc_speed p, pl_battery = lc_battery p,
      pl_lowPower = lc_lowPower p, pl_expiresAt = lc_expiresAt p,
      pl_capturedAt = clampCapturedAt (ev_parse e) (ev_iso e) (lc_capturedAt p) (ev_now e) (ev_iso e (ev_now e)),
      pl_serverAt = ev_iso e (ev_now e)\<rparr>"

definition publish :: "string \<Rightarrow> string \<Rightarrow> peer_location \<Rightarrow> relay \<Rightarrow> relay" where
  "publish i crewId payload r =
     issue (writeLivePosition (ry_redis r) crewId payload) (to_others i (room_of_crew crewId) (PeerUpdate payload) r)"

definition start_sharing :: "relay_env \<Rightarrow> string \<Rightarrow> string \<Rightarrow> string \<Rightarrow> sock \<Rightarrow> sock" where
  "start_sharing e crewId userId username s =
     s\<lparr>sk_userId := Some userId, sk_username := Some username, sk_sharing := Some crewId, sk_since := Some (ev_now e),
       sk_checkedAt := Some (ev_now e), sk_count := Some 0\<rparr>"

text \<open>The first fix of a share has no speed and carries the expiry of the share.\<close>

definition location_share ::
  "relay_env \<Rightarrow> (string \<Rightarrow> bool) \<Rightarrow> string \<Rightarrow> string \<Rightarrow> live_coord option \<Rightarrow> string option \<Rightarrow> relay \<Rightarrow> ack \<times> relay" where
  "location_share e isDatetime i crewId position expiresAt r =
     (if \<not> ev_live e then (Declined ''FEATURE_DISABLED'', r)
      else if \<not> locationShareSchema isDatetime crewId position expiresAt then (Declined ''SCHEMA_MISMATCH'', r)
      else if Option.bind (sock_of i r) sk_crewId \<noteq> Some crewId then (Declined ''NOT_IN_CREW_ROOM'', r)
      else with_session e i (Declined ''SERVER_ERROR'') (Declined ''AUTH_REQUIRED'')
        (\<lambda>s token userId username r.
           if getMember crewId userId (ry_db r) = None then (Declined ''NOT_A_MEMBER'', r)
           else (case registerSharingSocket (ev_now e) userId i r of
             (allowed, r1) \<Rightarrow>
               if \<not> allowed then (Declined ''TOO_MANY_SHARING_SOCKETS'', r1)
               else let r2 = upd_sock i (\<lambda>s. (start_sharing e crewId userId username s)\<lparr>sk_token := token\<rparr>) r1
                    in (Accepted, case position of
                          None \<Rightarrow> r2
                        | Some p \<Rightarrow> publish i crewId
                            (peer_payload e crewId userId username (p\<lparr>lc_speed := None, lc_expiresAt := expiresAt\<rparr>)) r2))) r)"

text \<open>The membership check of a stream: its stamps are set before the lookup, which may throw.\<close>

definition due :: "relay_env \<Rightarrow> nat \<Rightarrow> sock \<Rightarrow> bool" where
  "due e n s \<longleftrightarrow> MEMBERSHIP_RECHECK_EVERY_N \<le> n
     \<or> MEMBERSHIP_RECHECK_INTERVAL_MS \<le> ev_now e - (case sk_checkedAt s of Some t \<Rightarrow> t | None \<Rightarrow> 0)"

definition revoke_sharing :: "string \<Rightarrow> string \<Rightarrow> string \<Rightarrow> relay \<Rightarrow> relay" where
  "revoke_sharing i crewId userId r =
     to_self i (SocketError ''No longer a member of this crew'' (Some ''NOT_A_MEMBER''))
      (drop_position crewId userId (unregisterSharingSocket (Some userId) i
        (upd_sock i (\<lambda>s. (leave_of (room_of_crew crewId) s)\<lparr>sk_sharing := None,
             sk_crewId := (if sk_crewId s = Some crewId then None else sk_crewId s)\<rparr>)
          (to_others i (room_of_crew crewId) (PeerStopped crewId userId Revoked) r))))"

definition location_update :: "relay_env \<Rightarrow> (string \<Rightarrow> bool) \<Rightarrow> string \<Rightarrow> string \<Rightarrow> live_coord \<Rightarrow> relay \<Rightarrow> relay" where
  "location_update e isDatetime i crewId p r =
     (case sock_of i r of
        None \<Rightarrow> r
      | Some s \<Rightarrow>
          if \<not> ev_live e then r
          else if \<not> locationUpdateSchema isDatetime crewId p
          then to_self i (SocketError ''Invalid location payload'' (Some ''SCHEMA_MISMATCH'')) r
          else if sk_sharing s \<noteq> Some crewId
          then to_self i (SocketError ''Not sharing location to this crew'' (Some ''NOT_SHARING'')) r
          else let userId = (case sk_userId s of Some u \<Rightarrow> u | None \<Rightarrow> []);
                   username = (case sk_username s of Some u \<Rightarrow> u | None \<Rightarrow> [])
               in (case consumeAsync (ev_redis_limit e) (ev_now e) userId (ry_location r) of
                     ((allowed, _, _), l) \<Rightarrow>
                       let r1 = r\<lparr>ry_location := l\<rparr>;
                           n = (case sk_count s of Some k \<Rightarrow> k | None \<Rightarrow> 0) + 1;
                           r2 = upd_sock i (\<lambda>s. s\<lparr>sk_count := Some n\<rparr>) r1;
                           r3 = upd_sock i (\<lambda>s. s\<lparr>sk_count := Some 0, sk_checkedAt := Some (ev_now e)\<rparr>) r2;
                           fix = peer_payload e crewId userId username p
                       in if \<not> allowed then to_self i (SocketError ''Location update rate limit exceeded'' (Some ''RATE_LIMITED'')) r1
                          else if \<not> due e n s then publish i crewId fix r2
                          else if \<not> ry_up r then r3
                          else if getMember crewId userId (ry_db r) = None then revoke_sharing i crewId userId r3
                          else publish i crewId fix r3))"

definition location_stop :: "string \<Rightarrow> string \<Rightarrow> relay \<Rightarrow> ack \<times> relay" where
  "location_stop i crewId r =
     (case sock_of i r of
        None \<Rightarrow> (Declined [], r)
      | Some s \<Rightarrow>
          if \<not> valid_id crewId \<or> (sk_crewId s \<noteq> Some crewId \<and> sk_sharing s \<noteq> Some crewId) then (Declined [], r)
          else let r1 = (if sk_sharing s = Some crewId
                         then unregisterSharingSocket (sk_userId s) i (upd_sock i (\<lambda>s. s\<lparr>sk_sharing := None\<rparr>) r) else r)
               in (Accepted, case sk_userId s of
                     None \<Rightarrow> r1
                   | Some u \<Rightarrow> if u = [] then r1
                       else to_others i (room_of_crew crewId) (PeerStopped crewId u Stopped) (drop_position crewId u r1)))"

definition location_sync :: "relay_env \<Rightarrow> string \<Rightarrow> string \<Rightarrow> relay \<Rightarrow> ack \<times> relay" where
  "location_sync e i crewId r =
     (if \<not> ev_live e \<or> \<not> valid_id crewId \<or> Option.bind (sock_of i r) sk_crewId \<noteq> Some crewId then (Declined [], r)
      else with_session e i (Declined []) (Declined [])
        (\<lambda>s token userId username r.
           if getMember crewId userId (ry_db r) = None then (Declined [], r)
           else (Peers (readLiveSnapshot (ev_parse e) (ry_redis r) crewId (ev_snapshot e crewId) (ev_now e) (Some userId)
                   SNAPSHOT_FRESH_MS), r)) r)"

end
