(* ===== verification/Crew_Events.thy ===== *)
theory Crew_Events
  imports Live_Store Socket_Relay
begin

text \<open>
  From the socket to the stores: the router of crew events (\<open>crewEventRouter.ts\<close>), the sink
  that lands their intents in the crew store and the live store (\<open>crewRealtimeSink.ts\<close>), the hook
  with its keyed debouncer and the room it joins (\<open>useCrewRealtime.ts\<close>), and the publisher of the
  own position (\<open>useLiveLocationPublisher.ts\<close>).

  Reloads are logged as requested; their answers are the \<open>load\<close> functions of the crew store.
\<close>

subsection \<open>The router\<close>

datatype stop_note = NoteStop | NoteDisconnect | NoteExpired | NoteOther string

text \<open>The payloads.  \<open>None\<close> for a crew id is \<open>undefined\<close>; a meeting point is a raw row, with both spellings of it.\<close>

datatype crew_news =
    HomeBaseNews "string option" "string option" "string option"
  | PointNews "string option" "string option" meeting_point
  | PointGone "string option" string
  | PollNews string string "string list" string
  | VoteNews string string int
  | ClosedNews string
  | ExpenseNews "string option"
  | ActivityNews "string option"
  | PeerNews peer_location
  | PeerGone "string option" string stop_note
  | SosNews sos_entry
  | SosGone "string option" string string

datatype intent =
    HomeBaseUpdated string "string option" "string option"
  | MeetingPointUpsert string meeting_point
  | MeetingPointRemoved string string
  | PollCreated string string string "string list" string
  | PollVoted string string string int
  | PollClosed string string
  | ExpensesChanged string
  | ActivityLogged string
  | LocationPeerUpdate string peer_location
  | LocationPeerStopped string string stop_note
  | SosRaised string sos_entry
  | SosCleared string string string

definition resolveMeetingPointCrewId :: "string option \<Rightarrow> string option \<Rightarrow> string option" where
  "resolveMeetingPointCrewId snake camel = (case snake of Some c \<Rightarrow> Some c | None \<Rightarrow> camel)"

definition matchesActiveCrew :: "string option \<Rightarrow> string option \<Rightarrow> bool" where
  "matchesActiveCrew crewId active \<longleftrightarrow> active \<noteq> None \<and> active \<noteq> Some [] \<and> crewId = active"

definition routeHomeBaseUpdated :: "string option \<Rightarrow> string option \<Rightarrow> string option \<Rightarrow> string option \<Rightarrow> intent option" where
  "routeHomeBaseUpdated crewId location time active =
     (if matchesActiveCrew crewId active then map_option (\<lambda>c. HomeBaseUpdated c location time) crewId else None)"

definition routeMeetingPointUpsert :: "string option \<Rightarrow> string option \<Rightarrow> meeting_point \<Rightarrow> string option \<Rightarrow> intent option" where
  "routeMeetingPointUpsert snake camel m active =
     (if matchesActiveCrew (resolveMeetingPointCrewId snake camel) active then map_option (\<lambda>c. MeetingPointUpsert c m) active else None)"

definition routeMeetingPointRemoved :: "string option \<Rightarrow> string \<Rightarrow> string option \<Rightarrow> intent option" where
  "routeMeetingPointRemoved crewId i active =
     (if matchesActiveCrew crewId active then map_option (\<lambda>c. MeetingPointRemoved c i) crewId else None)"

text \<open>Poll events name no crew: the room they arrive in does.\<close>

definition truthy_id :: "string option \<Rightarrow> string option" where
  "truthy_id active = (case active of Some c \<Rightarrow> if c = [] then None else Some c | None \<Rightarrow> None)"

definition routePollCreated :: "string \<Rightarrow> string \<Rightarrow> string list \<Rightarrow> string \<Rightarrow> string option \<Rightarrow> intent option" where
  "routePollCreated pollId question options createdBy active =
     map_option (\<lambda>c. PollCreated c pollId question options createdBy) (truthy_id active)"

definition routePollVoted :: "string \<Rightarrow> string \<Rightarrow> int \<Rightarrow> string option \<Rightarrow> intent option" where
  "routePollVoted pollId userId optionIndex active = map_option (\<lambda>c. PollVoted c pollId userId optionIndex) (truthy_id active)"

definition routePollClosed :: "string \<Rightarrow> string option \<Rightarrow> intent option" where
  "routePollClosed pollId active = map_option (\<lambda>c. PollClosed c pollId) (truthy_id active)"

definition routeExpensesChanged :: "string option \<Rightarrow> string option \<Rightarrow> intent option" where
  "routeExpensesChanged crewId active = (if matchesActiveCrew crewId active then map_option ExpensesChanged crewId else None)"

definition routeActivityLogged :: "string option \<Rightarrow> string option \<Rightarrow> intent option" where
  "routeActivityLogged crewId active = (if matchesActiveCrew crewId active then map_option ActivityLogged crewId else None)"

definition routeLocationPeerUpdate :: "peer_location \<Rightarrow> string option \<Rightarrow> intent option" where
  "routeLocationPeerUpdate p active =
     (if matchesActiveCrew (Some (pl_crewId p)) active then Some (LocationPeerUpdate (pl_crewId p) p) else None)"

definition routeLocationPeerStopped :: "string option \<Rightarrow> string \<Rightarrow> stop_note \<Rightarrow> string option \<Rightarrow> intent option" where
  "routeLocationPeerStopped crewId u why active =
     (if matchesActiveCrew crewId active then map_option (\<lambda>c. LocationPeerStopped c u why) crewId else None)"

definition routeSosRaised :: "sos_entry \<Rightarrow> string option \<Rightarrow> intent option" where
  "routeSosRaised e active =
     (if matchesActiveCrew (Some (se_crewId e)) active then Some (SosRaised (se_crewId e) e) else None)"

definition routeSosCleared :: "string option \<Rightarrow> string \<Rightarrow> string \<Rightarrow> string option \<Rightarrow> intent option" where
  "routeSosCleared crewId u clearedBy active =
     (if matchesActiveCrew crewId active then map_option (\<lambda>c. SosCleared c u clearedBy) crewId else None)"

fun route :: "crew_news \<Rightarrow> string option \<Rightarrow> intent option" where
  "route (HomeBaseNews c l t) = routeHomeBaseUpdated c l t"
| "route (PointNews a b m) = routeMeetingPointUpsert a b m"
| "route (PointGone c i) = routeMeetingPointRemoved c i"
| "route (PollNews i q os u) = routePollCreated i q os u"
| "route (VoteNews i u k) = routePollVoted i u k"
| "route (ClosedNews i) = routePollClosed i"
| "route (ExpenseNews c) = routeExpensesChanged c"
| "route (ActivityNews c) = routeActivityLogged c"
| "route (PeerNews p) = routeLocationPeerUpdate p"
| "route (PeerGone c u w) = routeLocationPeerStopped c u w"
| "route (SosNews e) = routeSosRaised e"
| "route (SosGone c u b) = routeSosCleared c u b"

subsection \<open>The sink\<close>

datatype load = LoadPolls string | LoadExpenses string | LoadActivity string

record stores =
  sn_crew :: crew_state
  sn_live :: live_state
  sn_loads :: "load list"

definition getActiveCrewId :: "stores \<Rightarrow> string option" where
  "getActiveCrewId s = map_option cc_id (activeCrew (sn_crew s))"

definition on_crew :: "(crew_state \<Rightarrow> crew_state) \<Rightarrow> stores \<Rightarrow> stores" where
  "on_crew f s = s\<lparr>sn_crew := f (sn_crew s)\<rparr>"

definition on_live :: "(live_state \<Rightarrow> live_state) \<Rightarrow> stores \<Rightarrow> stores" where
  "on_live f s = s\<lparr>sn_live := f (sn_live s)\<rparr>"

definition reload :: "string \<Rightarrow> load \<Rightarrow> stores \<Rightarrow> stores" where
  "reload crewId l s = (if getActiveCrewId s = Some crewId then s\<lparr>sn_loads := sn_loads s @ [l]\<rparr> else s)"

fun sink :: "(string \<Rightarrow> int option) \<Rightarrow> intent \<Rightarrow> stores \<Rightarrow> stores" where
  "sink parse (HomeBaseUpdated c location time) s = on_crew (applyHomeBaseUpdate c location time) s"
| "sink parse (MeetingPointUpsert c m) s = on_crew (applyMeetingPointUpsert m) s"
| "sink parse (MeetingPointRemoved c i) s = on_crew (applyMeetingPointRemoval i) s"
| "sink parse (PollCreated c i q os u) s = reload c (LoadPolls c) s"
| "sink parse (PollVoted c i u k) s = on_crew (applyPollVote i u k) s"
| "sink parse (PollClosed c i) s = on_crew (applyPollClosed i) s"
| "sink parse (ExpensesChanged c) s = reload c (LoadExpenses c) s"
| "sink parse (ActivityLogged c) s = reload c (LoadActivity c) s"
| "sink parse (LocationPeerUpdate c p) s = on_live (applyPeerUpdate p) s"
| "sink parse (LocationPeerStopped c u w) s = on_live (removePeer u) s"
| "sink parse (SosRaised c e) s = on_live (applySos parse e) s"
| "sink parse (SosCleared c u b) s = on_live (clearSos parse (Some u)) s"

subsection \<open>The hook\<close>

datatype room_emit = JoinRoom string | LeaveRoom string

record hook =
  hk_stores :: stores
  hk_timers :: "(string \<times> int \<times> intent) list"
  hk_joinRoom :: bool
  hk_joined :: "string option"
  hk_mounted :: bool
  hk_emits :: "room_emit list"

definition DEBOUNCE_MS :: int where
  "DEBOUNCE_MS = 300"

definition schedule :: "int \<Rightarrow> string \<Rightarrow> intent \<Rightarrow> hook \<Rightarrow> hook" where
  "schedule now k a h = h\<lparr>hk_timers := filter (\<lambda>t. fst t \<noteq> k) (hk_timers h) @ [(k, now + DEBOUNCE_MS, a)]\<rparr>"

definition land :: "(string \<Rightarrow> int option) \<Rightarrow> intent \<Rightarrow> hook \<Rightarrow> hook" where
  "land parse a h = h\<lparr>hk_stores := sink parse a (hk_stores h)\<rparr>"

definition dispatch :: "(string \<Rightarrow> int option) \<Rightarrow> int \<Rightarrow> intent \<Rightarrow> hook \<Rightarrow> hook" where
  "dispatch parse now a h =
     (case a of
        PollCreated c _ _ _ _ \<Rightarrow> schedule now (''crew-polls:'' @ c) a h
      | ExpensesChanged c \<Rightarrow> schedule now (''crew-expenses:'' @ c) a h
      | ActivityLogged c \<Rightarrow> schedule now (''crew-activity:'' @ c) a h
      | _ \<Rightarrow> land parse a h)"

definition hook_event :: "(string \<Rightarrow> int option) \<Rightarrow> int \<Rightarrow> crew_news \<Rightarrow> hook \<Rightarrow> hook" where
  "hook_event parse now ev h =
     (if \<not> hk_mounted h then h
      else case route ev (getActiveCrewId (hk_stores h)) of None \<Rightarrow> h | Some a \<Rightarrow> dispatch parse now a h)"

text \<open>The timers due by \<open>now\<close>, in the order they fall due.\<close>

definition fire :: "(string \<Rightarrow> int option) \<Rightarrow> int \<Rightarrow> hook \<Rightarrow> hook" where
  "fire parse now h =
     (let due = sort_key (\<lambda>t. fst (snd t)) (filter (\<lambda>t. fst (snd t) \<le> now) (hk_timers h))
      in fold (\<lambda>t. land parse (snd (snd t))) due (h\<lparr>hk_timers := filter (\<lambda>t. now < fst (snd t)) (hk_timers h)\<rparr>))"

definition emit_membership :: "room_emit \<Rightarrow> hook \<Rightarrow> hook" where
  "emit_membership x h = h\<lparr>hk_emits := hk_emits h @ [x]\<rparr>"

definition mount :: "bool \<Rightarrow> hook \<Rightarrow> hook" where
  "mount conn h =
     (let c = getActiveCrewId (hk_stores h); h1 = h\<lparr>hk_mounted := True, hk_joined := c, hk_timers := []\<rparr>
      in case truthy_id c of Some i \<Rightarrow> if hk_joinRoom h \<and> conn then emit_membership (JoinRoom i) h1 else h1 | None \<Rightarrow> h1)"

definition handle_connect :: "hook \<Rightarrow> hook" where
  "handle_connect h =
     (if \<not> hk_mounted h \<or> \<not> hk_joinRoom h then h
      else case truthy_id (getActiveCrewId (hk_stores h)) of Some i \<Rightarrow> emit_membership (JoinRoom i) h | None \<Rightarrow> h)"

definition unmount :: "bool \<Rightarrow> hook \<Rightarrow> hook" where
  "unmount conn h =
     (let h1 = h\<lparr>hk_mounted := False, hk_timers := []\<rparr>
      in case truthy_id (hk_joined h) of Some i \<Rightarrow> if hk_joinRoom h \<and> conn then emit_membership (LeaveRoom i) h1 else h1 | None \<Rightarrow> h1)"

subsection \<open>The publisher\<close>

datatype pub_emit = EmitShare string string | EmitUpdate string live_coord | EmitStop string

record geo_fix =
  gf_lat :: rat
  gf_lng :: rat
  gf_accuracy :: "rat option"
  gf_heading :: "rat option"
  gf_speed :: "rat option"
  gf_battery :: "rat option"
  gf_lowPower :: "bool option"
  gf_capturedAt :: "string option"

record publisher =
  pb_crewId :: string
  pb_expiresAt :: string
  pb_deadline :: int
  pb_stopped :: bool
  pb_live :: live_state
  pb_emits :: "pub_emit list"
  pb_rejected :: "string option list"

definition session_cap :: "int option \<Rightarrow> int" where
  "session_cap durationMs = (case durationMs of Some d \<Rightarrow> if 0 < d then d else MAX_SESSION_MS | None \<Rightarrow> MAX_SESSION_MS)"

definition emit_pub :: "pub_emit \<Rightarrow> publisher \<Rightarrow> publisher" where
  "emit_pub x p = p\<lparr>pb_emits := pb_emits p @ [x]\<rparr>"

definition begin_session :: "(int \<Rightarrow> string) \<Rightarrow> int \<Rightarrow> int option \<Rightarrow> string \<Rightarrow> live_state \<Rightarrow> publisher" where
  "begin_session fmt now durationMs crewId l =
     (let till = now + session_cap durationMs
      in \<lparr>pb_crewId = crewId, pb_expiresAt = fmt till, pb_deadline = till, pb_stopped = False,
          pb_live = startSharing crewId (Some (fmt till)) l, pb_emits = [EmitShare crewId (fmt till)], pb_rejected = []\<rparr>)"

definition on_reconnect :: "publisher \<Rightarrow> publisher" where
  "on_reconnect p = (if pb_stopped p then p else emit_pub (EmitShare (pb_crewId p) (pb_expiresAt p)) p)"

definition fix_coord :: "(int \<Rightarrow> string) \<Rightarrow> int \<Rightarrow> string \<Rightarrow> geo_fix \<Rightarrow> live_coord" where
  "fix_coord fmt now expiresAt f =
     \<lparr>lc_lat = gf_lat f, lc_lng = gf_lng f, lc_accuracy = gf_accuracy f, lc_heading = gf_heading f, lc_speed = gf_speed f,
      lc_battery = gf_battery f, lc_lowPower = gf_lowPower f, lc_expiresAt = Some expiresAt,
      lc_capturedAt = (case gf_capturedAt f of Some t \<Rightarrow> t | None \<Rightarrow> fmt now)\<rparr>"

definition on_fix :: "(rat \<times> rat \<Rightarrow> rat \<times> rat \<Rightarrow> rat option) \<Rightarrow> (int \<Rightarrow> string) \<Rightarrow> int \<Rightarrow> geo_fix \<Rightarrow> publisher \<Rightarrow> publisher" where
  "on_fix metres fmt now f p =
     (let prev = lv_lastSentCoord (pb_live p); next_c = (gf_lat f, gf_lng f)
      in if pb_stopped p then p
         else if \<not> shouldPublishLocation (Option.bind prev (\<lambda>c. metres c next_c)) prev (lv_lastSentAt (pb_live p)) now then p
         else (emit_pub (EmitUpdate (pb_crewId p) (fix_coord fmt now (pb_expiresAt p) f)) p)
                \<lparr>pb_live := recordSent next_c now (pb_live p)\<rparr>)"

definition teardownLocal :: "publisher \<Rightarrow> publisher" where
  "teardownLocal p = (if pb_stopped p then p else p\<lparr>pb_stopped := True, pb_live := stopSharing (pb_live p)\<rparr>)"

definition handleShareAck :: "bool \<Rightarrow> string option \<Rightarrow> publisher \<Rightarrow> publisher" where
  "handleShareAck ok code p =
     (if ok \<or> pb_stopped p then p else (teardownLocal p)\<lparr>pb_rejected := pb_rejected p @ [code]\<rparr>)"

definition pub_stop :: "bool \<Rightarrow> publisher \<Rightarrow> publisher" where
  "pub_stop conn p =
     (if pb_stopped p then p else teardownLocal (if conn then emit_pub (EmitStop (pb_crewId p)) p else p))"

definition session_timer :: "int \<Rightarrow> bool \<Rightarrow> publisher \<Rightarrow> publisher" where
  "session_timer now conn p = (if pb_deadline p \<le> now then pub_stop conn p else p)"

end
