(* ===== verification/Live_Props.thy ===== *)
theory Live_Props
  imports Crew_Events
begin

text \<open>
  What the client's live state guarantees: the store keeps one entry per user and its derived SOS
  views in step, whatever its actions; the debouncer coalesces bursts; a publisher that stopped
  stays quiet; and a fix taken by a sharer arrives in the stores of the other members.
\<close>

subsection \<open>The store\<close>

datatype live_action =
    SetCrew "string option"
  | StartSharing string "string option"
  | StopSharing
  | Sent "rat \<times> rat" int
  | Peer peer_location
  | NoPeer string
  | Sweep int int
  | Sos sos_entry
  | NoSos "string option"
  | Reset

fun live_act :: "(string \<Rightarrow> int option) \<Rightarrow> live_action \<Rightarrow> live_state \<Rightarrow> live_state" where
  "live_act parse (SetCrew c) = setActiveCrew c"
| "live_act parse (StartSharing c x) = startSharing c x"
| "live_act parse StopSharing = stopSharing"
| "live_act parse (Sent c t) = recordSent c t"
| "live_act parse (Peer p) = applyPeerUpdate p"
| "live_act parse (NoPeer u) = removePeer u"
| "live_act parse (Sweep now ttl) = sweepStale parse now ttl"
| "live_act parse (Sos e) = applySos parse e"
| "live_act parse (NoSos u) = clearSos parse u"
| "live_act parse Reset = live_reset"

definition keyed_by :: "('a \<Rightarrow> string) \<Rightarrow> (string \<times> 'a) list \<Rightarrow> bool" where
  "keyed_by f m \<longleftrightarrow> unique_keys fst m \<and> (\<forall>e \<in> set m. f (snd e) = fst e)"

lemma keyed_by_Nil [simp]: "keyed_by f []"
  by (simp add: keyed_by_def)

lemma update_mem: "e \<in> set (AList.update k v m) \<Longrightarrow> e = (k, v) \<or> e \<in> set m"
  by (induction m) (auto split: if_splits)

lemma keyed_by_update: "keyed_by f m \<Longrightarrow> keyed_by f (AList.update (f x) x m)"
  unfolding keyed_by_def using update_mem by (fastforce intro: distinct_update)

lemma keyed_by_filter: "keyed_by f m \<Longrightarrow> keyed_by f (filter P m)"
  by (auto simp: keyed_by_def distinct_map_filter)

definition views_ok :: "(string \<Rightarrow> int option) \<Rightarrow> live_state \<Rightarrow> bool" where
  "views_ok parse s \<longleftrightarrow> keyed_by pl_userId (lv_peers s) \<and> keyed_by se_userId (lv_sosByUser s)
     \<and> set (lv_activeSosList s) = snd ` set (lv_sosByUser s) \<and> length (lv_activeSosList s) = length (lv_sosByUser s)
     \<and> sorted_wrt (\<lambda>a b. raised_ms parse b \<le> raised_ms parse a) (lv_activeSosList s)
     \<and> lv_sos s = (case lv_activeSosList s of [] \<Rightarrow> None | e # _ \<Rightarrow> Some e)"

lemma views_derive:
  assumes "keyed_by pl_userId (lv_peers s)" and "keyed_by se_userId m"
  shows "views_ok parse (deriveSos parse m s)"
proof -
  have "sorted_wrt (\<lambda>a b. raised_ms parse b \<le> raised_ms parse a) (js_sort (by_key (\<lambda>e. - raised_ms parse e)) xs)" for xs
    using by_key.sorted_js_sort [of "\<lambda>e. - raised_ms parse e" xs] by (simp add: by_key_def)
  then show ?thesis using assms by (simp add: views_ok_def deriveSos_def Let_def)
qed

lemma views_peers: "views_ok parse s \<Longrightarrow> keyed_by pl_userId m \<Longrightarrow> views_ok parse (s\<lparr>lv_peers := m\<rparr>)"
  by (simp add: views_ok_def)

lemma views_empty: "views_ok parse live_empty" "views_ok parse (live_empty\<lparr>lv_crewId := c\<rparr>)"
  by (simp_all add: views_ok_def live_empty_def)

lemma live_act_views: "views_ok parse s \<Longrightarrow> views_ok parse (live_act parse a s)"
proof (cases a)
  case (Peer p)
  assume "views_ok parse s"
  then show ?thesis unfolding Peer live_act.simps applyPeerUpdate_def
    by (auto intro!: views_peers keyed_by_update) (simp add: views_ok_def)
next
  case (Sos e)
  assume "views_ok parse s"
  then show ?thesis unfolding Sos live_act.simps applySos_def
    by (auto intro!: views_derive keyed_by_update) (simp_all add: views_ok_def)
next
  case (NoSos u)
  assume "views_ok parse s"
  then show ?thesis unfolding NoSos live_act.simps clearSos_def
    by (auto split: option.split intro!: views_derive keyed_by_filter) (simp_all add: views_ok_def)
next
  case (NoPeer u)
  assume "views_ok parse s"
  then show ?thesis by (simp add: NoPeer removePeer_def views_peers keyed_by_filter views_ok_def)
next
  case (Sweep now ttl)
  assume "views_ok parse s"
  then show ?thesis by (simp add: Sweep sweepStale_def views_peers keyed_by_filter views_ok_def)
qed (auto simp: setActiveCrew_def startSharing_def stopSharing_def recordSent_def live_reset_def views_empty,
     auto simp: views_ok_def)

text \<open>Markers belong to the crew in view as long as a share is only started for that crew.\<close>

definition one_crew :: "live_state \<Rightarrow> bool" where
  "one_crew s \<longleftrightarrow> (case lv_crewId s of
       None \<Rightarrow> True
     | Some c \<Rightarrow> c = [] \<or> (\<forall>e \<in> set (lv_peers s). pl_crewId (snd e) = c) \<and> (\<forall>e \<in> set (lv_sosByUser s). se_crewId (snd e) = c))"

definition in_view :: "live_action \<Rightarrow> live_state \<Rightarrow> bool" where
  "in_view a s \<longleftrightarrow> (case a of StartSharing c x \<Rightarrow> lv_crewId s = Some c | _ \<Rightarrow> True)"

lemma derive_simps [simp]: "lv_crewId (deriveSos parse m s) = lv_crewId s" "lv_peers (deriveSos parse m s) = lv_peers s"
  "lv_sosByUser (deriveSos parse m s) = m"
  by (simp_all add: deriveSos_def Let_def)

lemma live_act_one_crew: "one_crew s \<Longrightarrow> in_view a s \<Longrightarrow> one_crew (live_act parse a s)"
proof (cases a)
  case (Peer p)
  assume "one_crew s"
  then show ?thesis unfolding Peer one_crew_def
    by (auto simp: applyPeerUpdate_def other_crew_def dest!: update_mem split: option.splits)
next
  case (Sos e)
  assume "one_crew s"
  then show ?thesis unfolding Sos one_crew_def
    by (auto simp: applySos_def other_crew_def dest!: update_mem split: option.splits)
qed (auto simp: one_crew_def in_view_def setActiveCrew_def startSharing_def stopSharing_def recordSent_def live_reset_def
      live_empty_def removePeer_def sweepStale_def clearSos_def split: option.splits)

inductive live_step :: "(string \<Rightarrow> int option) \<Rightarrow> live_state \<Rightarrow> live_state \<Rightarrow> bool" for parse where
  Act: "in_view a s \<Longrightarrow> live_step parse s (live_act parse a s)"

interpretation live: inv_system "live_step parse" "\<lambda>s. views_ok parse s \<and> one_crew s" for parse
  by unfold_locales (auto elim!: live_step.cases intro: live_act_views live_act_one_crew)

text \<open>The live store stays in step.  Whatever its actions, in any order, as long as a share is started for the crew
  in view: there is one peer and one SOS per user, the list of active SOS holds exactly the stored ones, newest first, the
  single SOS shown is the newest, and every marker belongs to the crew in view.\<close>

theorem live_views_in_step:
  assumes "(live_step parse)\<^sup>*\<^sup>* live_empty s"
  shows "views_ok parse s \<and> one_crew s"
  by (rule live.inv_reach [OF assms]) (intro conjI views_empty, simp add: one_crew_def live_empty_def)

text \<open>Starting a share for another crew moves the view without dropping the markers of the old one, which the header
  of the store rules out.\<close>

lemma share_keeps_other_markers:
  "lv_crewId (startSharing d x s) = Some d \<and> lv_peers (startSharing d x s) = lv_peers s
     \<and> lv_sosByUser (startSharing d x s) = lv_sosByUser s"
  by (simp add: startSharing_def)

text \<open>A sweep leaves exactly the peers heard of within the given time, and those whose time does not parse.\<close>

lemma sweep_exact:
  "(u, p) \<in> set (lv_peers (sweepStale parse now ttl s)) \<longleftrightarrow>
     (u, p) \<in> set (lv_peers s) \<and> (\<forall>t. parse (pl_serverAt p) = Some t \<longrightarrow> now - t \<le> ttl)"
  by (auto simp: sweepStale_def stale_peer_def split: option.splits)

definition ex_sos :: "string \<Rightarrow> string \<Rightarrow> sos_entry" where
  "ex_sos u t = \<lparr>se_crewId = ''c'', se_userId = u, se_username = u, se_message = None, se_position = None,
     se_activityId = Some [], se_raisedAt = t\<rparr>"

definition ex_live :: live_state where
  "ex_live = fold (live_act (\<lambda>t. Some (int (length t)))) [SetCrew (Some ''c''), Sos (ex_sos ''u'' ''1''), Sos (ex_sos ''v'' ''12''),
     StartSharing ''c'' None] live_empty"

lemma live_views_in_step_witness:
  "(views_ok (\<lambda>t. Some (int (length t))) ex_live \<and> one_crew ex_live) \<and> lv_sos ex_live = Some (ex_sos ''v'' ''12'')"
proof -
  have act: "(live_step p)\<^sup>*\<^sup>* live_empty (live_act p a s)" if "(live_step p)\<^sup>*\<^sup>* live_empty s" "in_view a s" for p a s
    using that by (meson Act rtranclp.rtrancl_into_rtrancl)
  have crew: "lv_crewId (live_act p (Sos e) s) = lv_crewId s" "lv_crewId (live_act p (SetCrew c) s) = c" for p e s c
    by (simp_all add: applySos_def setActiveCrew_def)
  have "(live_step (\<lambda>t. Some (int (length t))))\<^sup>*\<^sup>* live_empty ex_live"
    unfolding ex_live_def fold_simps comp_def by (intro act rtranclp.rtrancl_refl) (simp_all only: in_view_def live_action.case crew)
  moreover have "lv_sos ex_live = Some (ex_sos ''v'' ''12'')" by code_simp
  ultimately show ?thesis using live_views_in_step by blast
qed

subsection \<open>The debouncer\<close>

definition expense_timer :: "string \<Rightarrow> string" where
  "expense_timer c = ''crew-expenses:'' @ c"

lemma schedule_timers:
  "hk_timers (schedule now k a h) = filter (\<lambda>t. fst t \<noteq> k) (hk_timers h) @ [(k, now + DEBOUNCE_MS, a)]"
  "hk_stores (schedule now k a h) = hk_stores h" "hk_mounted (schedule now k a h) = hk_mounted h"
  by (simp_all add: schedule_def)

definition hear_at :: "(string \<Rightarrow> int option) \<Rightarrow> crew_news \<Rightarrow> int \<Rightarrow> hook \<Rightarrow> hook" where
  "hear_at parse ev t h = hook_event parse t ev (fire parse t h)"

lemma burst_pending:
  assumes "getActiveCrewId (hk_stores h) = Some c" and "c \<noteq> []"
  shows "ts \<noteq> [] \<Longrightarrow> successively (\<lambda>a b. b - a < DEBOUNCE_MS) ts \<Longrightarrow> hk_mounted g \<Longrightarrow> hk_stores g = hk_stores h
    \<Longrightarrow> hk_timers g = [] \<or> (\<exists>t. hk_timers g = [(expense_timer c, t + DEBOUNCE_MS, ExpensesChanged c)] \<and> hd ts - t < DEBOUNCE_MS)
    \<Longrightarrow> hk_stores (fold (hear_at parse (ExpenseNews (Some c))) ts g) = hk_stores h
        \<and> hk_timers (fold (hear_at parse (ExpenseNews (Some c))) ts g) = [(expense_timer c, last ts + DEBOUNCE_MS, ExpensesChanged c)]"
proof (induction ts arbitrary: g)
  case (Cons t ts)
  have quiet: "fire parse t g = g" using Cons.prems(5) by (auto simp: fire_def)
  have one: "hear_at parse (ExpenseNews (Some c)) t g = schedule t (expense_timer c) (ExpensesChanged c) g" (is "_ = ?g")
    using Cons.prems(3,4) assms
    by (simp add: hear_at_def quiet hook_event_def routeExpensesChanged_def matchesActiveCrew_def dispatch_def expense_timer_def)
  have g: "hk_timers ?g = [(expense_timer c, t + DEBOUNCE_MS, ExpensesChanged c)]" "hk_stores ?g = hk_stores h" "hk_mounted ?g"
    using Cons.prems by (auto simp: schedule_timers)
  show ?case
  proof (cases "ts = []")
    case True
    then show ?thesis using g by (simp add: one)
  next
    case False
    then have "hd ts - t < DEBOUNCE_MS" "successively (\<lambda>a b. b - a < DEBOUNCE_MS) ts"
      using Cons.prems(2) by (cases ts; simp)+
    then show ?thesis using Cons.IH [OF False _ g(3,2)] g(1) False by (auto simp: one)
  qed
qed simp

text \<open>A burst of changes reloads once.  While crew c is open, let expense events for it arrive less than 300 ms apart.
  Nothing is requested until 300 ms after the last; then the expenses of c are requested exactly once.\<close>

theorem burst_reloads_once:
  assumes "hk_mounted h" and "getActiveCrewId (hk_stores h) = Some c" and "c \<noteq> []" and "hk_timers h = []"
    and "ts \<noteq> []" and "successively (\<lambda>a b. b - a < DEBOUNCE_MS) ts"
    and "early < last ts + DEBOUNCE_MS" and "last ts + DEBOUNCE_MS \<le> late"
  shows "hk_stores (fire parse early (fold (hear_at parse (ExpenseNews (Some c))) ts h)) = hk_stores h
    \<and> sn_loads (hk_stores (fire parse late (fold (hear_at parse (ExpenseNews (Some c))) ts h))) = sn_loads (hk_stores h) @ [LoadExpenses c]
    \<and> hk_timers (fire parse late (fold (hear_at parse (ExpenseNews (Some c))) ts h)) = []"
proof -
  from burst_pending [OF assms(2,3,5,6,1)] assms(4)
  have "hk_stores (fold (hear_at parse (ExpenseNews (Some c))) ts h) = hk_stores h"
    "hk_timers (fold (hear_at parse (ExpenseNews (Some c))) ts h) = [(expense_timer c, last ts + DEBOUNCE_MS, ExpensesChanged c)]" by simp_all
  then show ?thesis using assms(2,7,8) by (simp add: fire_def land_def reload_def getActiveCrewId_def)
qed

definition ex_member_crew :: client_crew where
  "ex_member_crew = joining_crew \<lparr>ck_parse = (\<lambda>_. None), ck_now = 0, ck_iso = []\<rparr> ''c''"

definition ex_hook :: hook where
  "ex_hook = \<lparr>hk_stores = \<lparr>sn_crew = crew_initial\<lparr>activeCrew := Some ex_member_crew\<rparr>, sn_live = live_empty, sn_loads = []\<rparr>,
     hk_timers = [], hk_joinRoom = True, hk_joined = None, hk_mounted = True, hk_emits = []\<rparr>"

lemma burst_reloads_once_witness:
  "sn_loads (hk_stores (fire (\<lambda>_. None) 750 (fold (hear_at (\<lambda>_. None) (ExpenseNews (Some (cc_id ex_member_crew)))) [100, 250, 420] ex_hook)))
     = [LoadExpenses (cc_id ex_member_crew)]"
proof -
  have "cc_id ex_member_crew \<noteq> []" by code_simp
  then show ?thesis
    using burst_reloads_once [of ex_hook "cc_id ex_member_crew" "[100, 250, 420]" 400 750 "\<lambda>_. None"]
    by (simp add: ex_hook_def getActiveCrewId_def DEBOUNCE_MS_def)
qed

subsection \<open>The publisher\<close>

datatype pub_input = Reconnect | Fix int geo_fix | ShareAck bool "string option" | Halt bool | Deadline int bool

fun pub_act :: "(rat \<times> rat \<Rightarrow> rat \<times> rat \<Rightarrow> rat option) \<Rightarrow> (int \<Rightarrow> string) \<Rightarrow> pub_input \<Rightarrow> publisher \<Rightarrow> publisher" where
  "pub_act metres fmt Reconnect = on_reconnect"
| "pub_act metres fmt (Fix now f) = on_fix metres fmt now f"
| "pub_act metres fmt (ShareAck ok code) = handleShareAck ok code"
| "pub_act metres fmt (Halt conn) = pub_stop conn"
| "pub_act metres fmt (Deadline now conn) = session_timer now conn"

lemma stopped_stays: "pb_stopped p \<Longrightarrow> pub_act metres fmt a p = p"
  by (cases a) (simp_all add: on_reconnect_def on_fix_def handleShareAck_def pub_stop_def session_timer_def Let_def)

lemma stop_clears:
  "pb_stopped p \<longrightarrow> lv_sharingCrewId (pb_live p) = None \<Longrightarrow> pb_stopped (pub_act metres fmt a p) \<longrightarrow> lv_sharingCrewId (pb_live (pub_act metres fmt a p)) = None"
  by (cases a) (auto simp: on_reconnect_def on_fix_def handleShareAck_def pub_stop_def session_timer_def teardownLocal_def emit_pub_def
      stopSharing_def recordSent_def Let_def)

text \<open>A publisher that stopped stays quiet.  Run a session through any inputs, then stop it, let its deadline pass or have
  the server reject the share: the store says nobody shares, and no later reconnect, fix, answer or timer emits anything.\<close>

theorem publisher_quiet_after_stop:
  assumes "p = fold (pub_act metres fmt) as (begin_session fmt now d c l)"
    and "a = Halt conn \<or> a = ShareAck False code \<or> a = Deadline (pb_deadline p) conn"
  shows "lv_sharingCrewId (pb_live (fold (pub_act metres fmt) bs (pub_act metres fmt a p))) = None
    \<and> pb_emits (fold (pub_act metres fmt) bs (pub_act metres fmt a p)) = pb_emits (pub_act metres fmt a p)"
proof -
  have clear: "pb_stopped (fold (pub_act metres fmt) as q) \<longrightarrow> lv_sharingCrewId (pb_live (fold (pub_act metres fmt) as q)) = None"
    if "pb_stopped q \<longrightarrow> lv_sharingCrewId (pb_live q) = None" for as q
    using that by (induction as arbitrary: q) (simp_all add: stop_clears)
  have "pb_stopped (begin_session fmt now d c l) \<longrightarrow> lv_sharingCrewId (pb_live (begin_session fmt now d c l)) = None"
    by (simp add: begin_session_def Let_def)
  from clear [OF this, of as] assms(1) have p: "pb_stopped p \<longrightarrow> lv_sharingCrewId (pb_live p) = None" by simp
  have stopped: "pb_stopped (pub_act metres fmt a p)"
    using assms(2) by (auto simp: handleShareAck_def pub_stop_def session_timer_def teardownLocal_def emit_pub_def)
  have "fold (pub_act metres fmt) bs q = q" if "pb_stopped q" for q
    using that by (induction bs) (simp_all add: stopped_stays)
  from this [OF stopped] stopped stop_clears [OF p, of metres fmt a] show ?thesis by simp
qed

lemma publisher_quiet_after_stop_witness:
  "pb_emits (fold (pub_act (\<lambda>_ _. None) (\<lambda>_. ''t'')) [Reconnect, Halt True]
      (pub_act (\<lambda>_ _. None) (\<lambda>_. ''t'') (ShareAck False None) (begin_session (\<lambda>_. ''t'') 0 None ''c'' live_empty)))
    = [EmitShare ''c'' ''t'']"
  using publisher_quiet_after_stop [of "begin_session (\<lambda>_. ''t'') 0 None ''c'' live_empty" "\<lambda>_ _. None" "\<lambda>_. ''t''" "[]" 0 None "''c''" live_empty
      "ShareAck False None" True None "[Reconnect, Halt True]"]
  by (simp add: handleShareAck_def teardownLocal_def begin_session_def Let_def)

subsection \<open>Headings\<close>

lemma js_rem_turns: "\<exists>m :: int. js_rem x 360 = x - 360 * of_int m"
  unfolding js_rem_def by metis

lemma js_rem_range: "\<bar>js_rem x 360\<bar> < 360" "0 \<le> x \<Longrightarrow> 0 \<le> js_rem x 360"
proof -
  have "x / 360 - of_int \<lfloor>x / 360\<rfloor> < 1" "of_int \<lfloor>x / 360\<rfloor> \<le> x / 360" "of_int \<lceil>x / 360\<rceil> - x / 360 < 1" "x / 360 \<le> of_int \<lceil>x / 360\<rceil>"
    by linarith+
  then show "\<bar>js_rem x 360\<bar> < 360" "0 \<le> x \<Longrightarrow> 0 \<le> js_rem x 360"
    by (auto simp: js_rem_def abs_less_iff field_simps) linarith
qed

text \<open>The arrow of a heading points within half a sector (22.5 degrees) of it, whatever multiple of full turns it carries.\<close>

lemma heading_arrow_nearest:
  "heading_sector h < 8 \<and> (\<exists>m :: int. \<bar>h - 45 * of_nat (heading_sector h) - 360 * of_int m\<bar> \<le> 45 / 2)"
proof -
  obtain a b :: int where "js_rem h 360 = h - 360 * of_int a" "heading_norm h = js_rem h 360 + 360 - 360 * of_int b"
    unfolding heading_norm_def using js_rem_turns [of h] js_rem_turns [of "js_rem h 360 + 360"] by metis
  then have norm: "heading_norm h = h - 360 * of_int (a + b - 1)" by simp
  have "0 \<le> heading_norm h"
    unfolding heading_norm_def using js_rem_range(1) [of h] by (intro js_rem_range(2)) linarith
  define n where "n = js_round (heading_norm h / 45)"
  have "0 \<le> n" unfolding n_def js_round_def using \<open>0 \<le> heading_norm h\<close> by (simp add: le_floor_iff)
  have near: "\<bar>of_int n - heading_norm h / 45\<bar> \<le> 1 / 2" unfolding n_def by (rule js_round_near)
  have sector: "n = 8 * int (nat n div 8) + int (heading_sector h)"
    unfolding heading_sector_def n_def [symmetric] using \<open>0 \<le> n\<close> by (metis int_nat_eq mult_div_mod_eq of_nat_add of_nat_mult of_nat_numeral)
  then have "(of_int n :: rat) = 8 * of_nat (nat n div 8) + of_nat (heading_sector h)"
    by (metis of_int_add of_int_mult of_int_numeral of_int_of_nat_eq)
  with norm have "h - 45 * of_nat (heading_sector h) - 360 * of_int (a + b - 1 + int (nat n div 8)) = heading_norm h - 45 * of_int n"
    by (simp add: algebra_simps)
  moreover have "\<bar>heading_norm h - 45 * of_int n\<bar> \<le> 45 / 2" using near by linarith
  ultimately have "\<bar>h - 45 * of_nat (heading_sector h) - 360 * of_int (a + b - 1 + int (nat n div 8))\<bar> \<le> 45 / 2" by simp
  then have "\<exists>m :: int. \<bar>h - 45 * of_nat (heading_sector h) - 360 * of_int m\<bar> \<le> 45 / 2" by (rule exI)
  then show ?thesis by (intro conjI) (simp add: heading_sector_def)
qed

end
