(* ===== verification/Relay_Props.thy ===== *)
theory Relay_Props
  imports Socket_Relay
begin

text \<open>
  What the relay of live positions guarantees: every position that leaves the server was sent by a
  socket whose user was seen to be a member of the crew less than fifteen seconds before, carries
  a capture time close to the server's, and reaches only the crew's room; and the situations in
  which the teardown the comments promise does not happen.
\<close>

subsection \<open>Inputs\<close>

datatype relay_input =
    Connect string "string option"
  | JoinFestival string string "string option"
  | Restore string string "string option"
  | LeaveFestival string
  | JoinCrew string string
  | LeaveCrew string string
  | Share string string "live_coord option" "string option"
  | Update string string live_coord
  | Stop string string
  | Sync string string
  | Disconnect string
  | AuthTimeout string
  | LogoutUser string
  | LogoutTokens "string list"
  | Evict string string

definition new_sock :: "string \<Rightarrow> string option \<Rightarrow> sock" where
  "new_sock i token = \<lparr>sk_id = i, sk_handshake = token, sk_authenticated = False, sk_rooms = [i], sk_userId = None,
     sk_username = None, sk_festivalId = None, sk_profileId = None, sk_token = None, sk_crewId = None, sk_sharing = None,
     sk_since = None, sk_checkedAt = None, sk_count = None\<rparr>"

fun handle_input :: "relay_env \<Rightarrow> (string \<Rightarrow> bool) \<Rightarrow> relay_input \<Rightarrow> relay \<Rightarrow> relay" where
  "handle_input e isDt (Connect i token) r = (if sock_of i r = None then r\<lparr>ry_socks := ry_socks r @ [new_sock i token]\<rparr> else r)"
| "handle_input e isDt (JoinFestival i f token) r = snd (join_festival e i f token r)"
| "handle_input e isDt (Restore i f token) r = snd (reconnect_restore e i f token r)"
| "handle_input e isDt (LeaveFestival i) r = leave_festival e i r"
| "handle_input e isDt (JoinCrew i c) r = snd (join_crew_room e i c r)"
| "handle_input e isDt (LeaveCrew i c) r = snd (leave_crew_room e i c r)"
| "handle_input e isDt (Share i c p x) r = snd (location_share e isDt i c p x r)"
| "handle_input e isDt (Update i c p) r = location_update e isDt i c p r"
| "handle_input e isDt (Stop i c) r = snd (location_stop i c r)"
| "handle_input e isDt (Sync i c) r = snd (location_sync e i c r)"
| "handle_input e isDt (Disconnect i) r = on_disconnect i r"
| "handle_input e isDt (AuthTimeout i) r = auth_timeout i r"
| "handle_input e isDt (LogoutUser u) r = disconnectUserSockets u r"
| "handle_input e isDt (LogoutTokens ts) r = disconnectSessionTokens ts r"
| "handle_input e isDt (Evict c u) r = evict_user c u r"

text \<open>The positions published, with those who receive them.\<close>

definition published :: "relay \<Rightarrow> (string list \<times> peer_location) list" where
  "published r = List.map_filter (\<lambda>(js, ev). case ev of PeerUpdate p \<Rightarrow> Some (js, p) | _ \<Rightarrow> None) (ry_sent r)"

lemma map_filter_append [simp]: "List.map_filter f (xs @ ys) = List.map_filter f xs @ List.map_filter f ys"
  by (simp add: List.map_filter_def)

lemma published_simps [simp]:
  "published (upd_sock i f r) = published r" "published (issue cs r) = published r"
  "published (to_others i rm (PeerStopped c u w) r) = published r" "published (to_self i (SocketError m k) r) = published r"
  "published (to_self i (AccessRevoked c) r) = published r"
  "published (r\<lparr>ry_socks := ss\<rparr>) = published r" "published (r\<lparr>ry_limits := ls\<rparr>) = published r"
  "published (r\<lparr>ry_location := l\<rparr>) = published r" "published (r\<lparr>ry_online := os\<rparr>) = published r"
  "published (r\<lparr>ry_sharers := z\<rparr>) = published r" "published (drop_position c u r) = published r"
  "published (to_others i rm (PeerUpdate p) r) = published r @ [(filter (\<lambda>j. j \<noteq> i) (members_of rm r), p)]"
  by (simp_all add: published_def upd_sock_def issue_def to_others_def to_self_def drop_position_def List.map_filter_def)

lemma socks_simps [simp]:
  "ry_socks (issue cs r) = ry_socks r" "ry_socks (to_others i rm ev r) = ry_socks r" "ry_socks (to_self i ev r) = ry_socks r"
  "ry_socks (drop_position c u r) = ry_socks r" "ry_socks (unregisterSharingSocket u' i r) = ry_socks r"
  "ry_socks (upd_sock i f r) = map (\<lambda>s. if sk_id s = i then f s else s) (ry_socks r)"
  "ry_socks (setSocketPresence fe u n i r) = ry_socks r"
  by (simp_all add: issue_def to_others_def to_self_def drop_position_def unregisterSharingSocket_def upd_sock_def
      setSocketPresence_def Let_def split: option.split)

lemma world_simps [simp]:
  "published (unregisterSharingSocket u' i r) = published r" "published (setSocketPresence fe u n i r) = published r"
  "ry_up (upd_sock i f r) = ry_up r" "ry_up (issue cs r) = ry_up r" "ry_up (to_others i rm ev r) = ry_up r"
  "ry_up (to_self i ev r) = ry_up r" "ry_up (drop_position c u r) = ry_up r" "ry_up (unregisterSharingSocket u' i r) = ry_up r"
  "ry_up (setSocketPresence fe u n i r) = ry_up r"
  by (simp_all add: unregisterSharingSocket_def setSocketPresence_def published_def upd_sock_def issue_def to_others_def
      to_self_def drop_position_def Let_def split: option.split)

lemma register_simps [simp]:
  "ry_socks (snd (registerSharingSocket t u i r)) = ry_socks r" "published (snd (registerSharingSocket t u i r)) = published r"
  "ry_up (snd (registerSharingSocket t u i r)) = ry_up r"
  by (simp_all add: registerSharingSocket_def Let_def)

subsection \<open>Vouching\<close>

text \<open>A sharing socket has a user, who was a member of the crew when its stamp was set.\<close>

definition vouched :: "(int \<Rightarrow> crew_db) \<Rightarrow> int \<Rightarrow> sock \<Rightarrow> bool" where
  "vouched hist t s \<longleftrightarrow> (\<forall>c. sk_sharing s = Some c \<longrightarrow>
     (\<exists>u. sk_userId s = Some u \<and> (\<forall>t0. sk_checkedAt s = Some t0 \<longrightarrow> t0 \<le> t \<and> getMember c u (hist t0) \<noteq> None)))"

definition relay_ok :: "(int \<Rightarrow> crew_db) \<Rightarrow> int \<Rightarrow> relay \<Rightarrow> bool" where
  "relay_ok hist t r \<longleftrightarrow> unique_keys sk_id (ry_socks r) \<and> ry_up r \<and> (\<forall>s \<in> set (ry_socks r). vouched hist t s)"

lemma relay_ok_cong: "ry_socks r' = ry_socks r \<Longrightarrow> ry_up r' = ry_up r \<Longrightarrow> relay_ok hist t r' = relay_ok hist t r"
  by (simp add: relay_ok_def)

lemma relay_ok_later: "relay_ok hist t r \<Longrightarrow> t \<le> t' \<Longrightarrow> relay_ok hist t' r"
  unfolding relay_ok_def vouched_def by (meson order_trans)

lemma ok_upd:
  assumes "relay_ok hist t r" and "\<And>s. sk_id (f s) = sk_id s"
    and "\<And>s. s \<in> set (ry_socks r) \<Longrightarrow> sk_id s = i \<Longrightarrow> vouched hist t s \<Longrightarrow> vouched hist t (f s)"
  shows "relay_ok hist t (upd_sock i f r)"
proof -
  have "map sk_id (ry_socks (upd_sock i f r)) = map sk_id (ry_socks r)" using assms(2) by simp
  then have "unique_keys sk_id (ry_socks (upd_sock i f r))" using assms(1) by (simp only: relay_ok_def)
  moreover have "\<forall>s \<in> set (ry_socks (upd_sock i f r)). vouched hist t s" using assms(1,3) by (auto simp: relay_ok_def)
  ultimately show ?thesis using assms(1) by (simp add: relay_ok_def del: socks_simps)
qed

text \<open>Updates that touch nothing the vouching reads, or only end a share.\<close>

lemma ok_upd_same:
  assumes "relay_ok hist t r"
    and "\<And>s. sk_id (f s) = sk_id s \<and> (sk_sharing (f s) = None \<or> sk_sharing (f s) = sk_sharing s \<and> sk_userId (f s) = sk_userId s
        \<and> (sk_checkedAt (f s) = None \<or> sk_checkedAt (f s) = sk_checkedAt s))"
  shows "relay_ok hist t (upd_sock i f r)"
proof (rule ok_upd [OF assms(1)])
  fix s assume "vouched hist t s"
  then show "vouched hist t (f s)" using assms(2) [of s] unfolding vouched_def by auto
qed (use assms(2) in blast)

lemma ok_remove: "relay_ok hist t r \<Longrightarrow> ry_socks r' = remove_key sk_id i (ry_socks r) \<Longrightarrow> ry_up r' = ry_up r \<Longrightarrow> relay_ok hist t r'"
  by (simp add: relay_ok_def unique_remove_key)

lemma sock_of_mem: "sock_of i r = Some s \<Longrightarrow> s \<in> set (ry_socks r) \<and> sk_id s = i"
  unfolding sock_of_def by (rule lookup_key_Some)

lemma remove_upd [simp]:
  "(\<And>s. sk_id (f s) = sk_id s) \<Longrightarrow> remove_key sk_id i (map (\<lambda>s. if sk_id s = i then f s else s) xs) = remove_key sk_id i xs"
  by (induction xs) (simp_all add: remove_key_def)

lemma no_sock_remove: "sock_of i r = None \<Longrightarrow> remove_key sk_id i (ry_socks r) = ry_socks r"
  unfolding sock_of_def lookup_key_None by (rule remove_key_id)

lemma presence_removed [simp]:
  "ry_up (snd (removeSocketPresence i r)) = ry_up r" "published (snd (removeSocketPresence i r)) = published r"
  "remove_key sk_id i (ry_socks (snd (removeSocketPresence i r))) = remove_key sk_id i (ry_socks r)"
  by (simp_all add: removeSocketPresence_def split: option.split)

lemma session_cleared [simp]:
  "ry_up (clearSocketSession i r) = ry_up r" "published (clearSocketSession i r) = published r"
  "remove_key sk_id i (ry_socks (clearSocketSession i r)) = remove_key sk_id i (ry_socks r)"
  by (simp_all add: clearSocketSession_def)

lemma leave_realtime_socks [simp]:
  "ry_up (snd (leaveFestivalRealtime i r)) = ry_up r" "published (snd (leaveFestivalRealtime i r)) = published r"
  "remove_key sk_id i (ry_socks (snd (leaveFestivalRealtime i r))) = remove_key sk_id i (ry_socks r)"
proof -
  obtain a b where eq: "removeSocketPresence i r = (a, b)" by fastforce
  note presence_removed [of i r, unfolded eq snd_conv]
  then show "ry_up (snd (leaveFestivalRealtime i r)) = ry_up r" "published (snd (leaveFestivalRealtime i r)) = published r"
    "remove_key sk_id i (ry_socks (snd (leaveFestivalRealtime i r))) = remove_key sk_id i (ry_socks r)"
    by (simp_all add: leaveFestivalRealtime_def leave_of_def eq split: option.split)
qed

lemma presence_removed_ok: "relay_ok hist t r \<Longrightarrow> relay_ok hist t (snd (removeSocketPresence i r))"
  by (auto simp: removeSocketPresence_def intro!: ok_upd_same split: option.split) (simp add: relay_ok_def)

lemma leave_realtime_ok: "relay_ok hist t r \<Longrightarrow> relay_ok hist t (snd (leaveFestivalRealtime i r))"
  using presence_removed_ok [of hist t r i]
  by (auto simp: leaveFestivalRealtime_def leave_of_def intro!: ok_upd_same split: prod.splits option.splits)

lemma disconnect_socks [simp]:
  "ry_socks (on_disconnect i r) = remove_key sk_id i (ry_socks r)" "ry_up (on_disconnect i r) = ry_up r"
  "published (on_disconnect i r) = published r"
  by (auto simp: on_disconnect_def Let_def no_sock_remove split: option.split prod.split)

lemma kicked_socks [simp]:
  "ry_socks (disconnectSocket i r) = remove_key sk_id i (ry_socks r)" "ry_up (disconnectSocket i r) = ry_up r"
  "published (disconnectSocket i r) = published r"
  by (simp_all add: disconnectSocket_def)

lemma disconnect_ok: "relay_ok hist t r \<Longrightarrow> relay_ok hist t (on_disconnect i r)" "relay_ok hist t r \<Longrightarrow> relay_ok hist t (disconnectSocket i r)"
  by (auto intro: ok_remove)

lemma disconnect_where_ok:
  "relay_ok hist t r \<Longrightarrow> relay_ok hist t (disconnect_where P r)" "published (disconnect_where P r) = published r"
proof -
  have "relay_ok hist t r \<Longrightarrow> relay_ok hist t (fold disconnectSocket is r)" and "published (fold disconnectSocket is r) = published r" for "is"
    by (induction "is" arbitrary: r) (auto intro: disconnect_ok)
  then show "relay_ok hist t r \<Longrightarrow> relay_ok hist t (disconnect_where P r)" "published (disconnect_where P r) = published r"
    by (simp_all add: disconnect_where_def)
qed

lemma evict_one_ok:
  "relay_ok hist t r \<Longrightarrow> relay_ok hist t (evict_one c u s r)" "published (evict_one c u s r) = published r"
  by (auto simp: evict_one_def Let_def leave_of_def intro!: ok_upd_same) (auto simp: relay_ok_def)

lemma evict_user_ok: "relay_ok hist t r \<Longrightarrow> relay_ok hist t (evict_user c u r)" "published (evict_user c u r) = published r"
proof -
  have "relay_ok hist t r \<Longrightarrow> relay_ok hist t (fold (evict_one c u) ss r)" and "published (fold (evict_one c u) ss r) = published r" for ss
    by (induction ss arbitrary: r) (auto intro: evict_one_ok simp: evict_one_ok)
  then show "relay_ok hist t r \<Longrightarrow> relay_ok hist t (evict_user c u r)" "published (evict_user c u r) = published r"
    by (simp_all add: evict_user_def)
qed

subsection \<open>The handlers\<close>

lemma limits_ok [simp]: "relay_ok hist t (r\<lparr>ry_limits := ls\<rparr>) = relay_ok hist t r" "relay_ok hist t (r\<lparr>ry_location := l\<rparr>) = relay_ok hist t r"
  "relay_ok hist t (r\<lparr>ry_online := os\<rparr>) = relay_ok hist t r" "relay_ok hist t (to_self i ev r) = relay_ok hist t r"
  "relay_ok hist t (to_others i rm ev r) = relay_ok hist t r" "relay_ok hist t (issue cs r) = relay_ok hist t r"
  "relay_ok hist t (drop_position c u r) = relay_ok hist t r" "relay_ok hist t (unregisterSharingSocket u' i r) = relay_ok hist t r"
  "relay_ok hist t (snd (registerSharingSocket now v i r)) = relay_ok hist t r"
  "relay_ok hist t (setSocketPresence fe v n i r) = relay_ok hist t r"
  by (rule relay_ok_cong; simp)+

lemma session_keeps:
  assumes "relay_ok hist t r" and "\<And>s token u n. relay_ok hist t (snd (body s token u n r))"
  shows "relay_ok hist t (snd (with_session e i oops refused body r))"
  using assms by (auto simp: with_session_def disconnect_ok split: option.split)

lemma session_quiet:
  assumes "\<And>s token u n. published (snd (body s token u n r)) = published r"
  shows "published (snd (with_session e i oops refused body r)) = published r"
  using assms by (auto simp: with_session_def split: option.split)

lemma sock_of_unique: "relay_ok hist t r \<Longrightarrow> s \<in> set (ry_socks r) \<Longrightarrow> sk_id s = i \<Longrightarrow> sock_of i r = Some s"
  unfolding sock_of_def relay_ok_def using lookup_key_mem by fastforce

fun steady :: "relay_env \<Rightarrow> relay_input \<Rightarrow> relay \<Rightarrow> bool" where
  "steady e (JoinFestival i f token) r = (\<forall>s u n. sock_of i r = Some s \<longrightarrow> sk_sharing s \<noteq> None
     \<longrightarrow> ev_session e (resolve_token s token) = Some (u, n) \<longrightarrow> sk_userId s = Some u)"
| "steady e (Restore i f token) r = (\<forall>s u n. sock_of i r = Some s \<longrightarrow> sk_sharing s \<noteq> None
     \<longrightarrow> ev_session e (resolve_token s token) = Some (u, n) \<longrightarrow> sk_userId s = Some u)"
| "steady e _ r = True"

lemma leave_realtime_origin:
  assumes "s \<in> set (ry_socks (snd (leaveFestivalRealtime i r)))"
  shows "\<exists>s0 \<in> set (ry_socks r). sk_id s0 = sk_id s \<and> sk_sharing s0 = sk_sharing s \<and> sk_userId s0 = sk_userId s"
proof -
  have remove: "\<exists>s0 \<in> set (ry_socks r). sk_id s0 = sk_id s \<and> sk_sharing s0 = sk_sharing s \<and> sk_userId s0 = sk_userId s"
    if "s \<in> set (ry_socks (snd (removeSocketPresence i r)))" for s
    using that by (cases "Option.bind (sock_of i r) sk_festivalId") (auto simp: removeSocketPresence_def)
  obtain m r1 where eq: "removeSocketPresence i r = (m, r1)" by fastforce
  show ?thesis
  proof (cases m)
    case None
    then show ?thesis using assms remove [unfolded eq] by (simp add: leaveFestivalRealtime_def eq)
  next
    case (Some f)
    with assms obtain s1 where "s1 \<in> set (ry_socks r1)" "sk_id s1 = sk_id s" "sk_sharing s1 = sk_sharing s" "sk_userId s1 = sk_userId s"
      by (auto simp: leaveFestivalRealtime_def eq leave_of_def)
    then show ?thesis using remove [unfolded eq, of s1] by simp
  qed
qed

lemma auth_join_ok:
  assumes ok: "relay_ok hist t r"
    and st: "\<And>s u n. sock_of i r = Some s \<Longrightarrow> sk_sharing s \<noteq> None \<Longrightarrow> ev_session e (resolve_token s token) = Some (u, n) \<Longrightarrow> sk_userId s = Some u"
  shows "relay_ok hist t (snd (authenticateAndJoinRoom e i f token scope r))"
    and "published (snd (authenticateAndJoinRoom e i f token scope r)) = published r"
proof -
  have enter: "relay_ok hist t (enter_festival i f u n tok p (r\<lparr>ry_limits := ls\<rparr>))"
    if "sock_of i r = Some s" "ev_session e (resolve_token s token) = Some (u, n)" for s u n tok p ls
    unfolding enter_festival_def limits_ok
  proof (rule ok_upd)
    show "relay_ok hist t (snd (leaveFestivalRealtime i (r\<lparr>ry_limits := ls\<rparr>)))" by (rule leave_realtime_ok) (simp add: ok)
    fix s' assume s': "s' \<in> set (ry_socks (snd (leaveFestivalRealtime i (r\<lparr>ry_limits := ls\<rparr>))))" "sk_id s' = i" "vouched hist t s'"
    from leave_realtime_origin [OF s'(1)] s'(2) obtain s0
      where s0: "s0 \<in> set (ry_socks r)" "sk_id s0 = i" "sk_sharing s0 = sk_sharing s'" "sk_userId s0 = sk_userId s'" by auto
    with sock_of_unique [OF ok] that(1) have "s0 = s" by fastforce
    with st [OF that(1) _ that(2)] s0 s'(3)
    show "vouched hist t ((join_to f s')\<lparr>sk_userId := Some u, sk_username := Some n, sk_festivalId := Some f,
            sk_profileId := Some p, sk_token := tok, sk_authenticated := True\<rparr>)"
      unfolding vouched_def join_to_def by auto
  qed (simp add: join_to_def)
  show "relay_ok hist t (snd (authenticateAndJoinRoom e i f token scope r))"
    using ok enter
    by (auto simp: authenticateAndJoinRoom_def Let_def disconnect_ok split: option.splits prod.splits)
  show "published (snd (authenticateAndJoinRoom e i f token scope r)) = published r"
    by (auto simp: authenticateAndJoinRoom_def enter_festival_def Let_def split: option.splits prod.splits)
qed

text \<open>What a handler of socket i may publish: at most one position, of a member, to the rest of the crew's room.\<close>

definition others_in :: "string \<Rightarrow> string \<Rightarrow> relay \<Rightarrow> string list" where
  "others_in i crewId r = filter (\<lambda>j. j \<noteq> i) (members_of (room_of_crew crewId) r)"

definition publishes :: "(string \<Rightarrow> string \<Rightarrow> bool) \<Rightarrow> relay_env \<Rightarrow> string \<Rightarrow> relay \<Rightarrow> relay \<Rightarrow> bool" where
  "publishes P e i r r' \<longleftrightarrow> published r' = published r
     \<or> (\<exists>c u n q. published r' = published r @ [(others_in i c r, peer_payload e c u n q)] \<and> P c u)"

lemma publishes_same: "published r' = published r \<Longrightarrow> publishes P e i r r'"
  by (simp add: publishes_def)

lemma publishesI:
  "published r' = published r @ [(others_in i c r, peer_payload e c u n q)] \<Longrightarrow> P c u \<Longrightarrow> publishes P e i r r'"
  unfolding publishes_def by blast

lemma publish_simps [simp]:
  "published (publish i c p r) = published r @ [(others_in i c r, p)]" "ry_socks (publish i c p r) = ry_socks r"
  "ry_up (publish i c p r) = ry_up r"
  by (simp_all add: publish_def others_in_def)

lemma publish_ok [simp]: "relay_ok hist t (publish i c p r) = relay_ok hist t r"
  by (rule relay_ok_cong) simp_all

lemma others_in_cong: "ry_socks r' = ry_socks r \<Longrightarrow> others_in i c r' = others_in i c r"
  by (simp add: others_in_def members_of_def)

lemma others_in_upd:
  "(\<And>s. sk_id (f s) = sk_id s) \<Longrightarrow> (\<And>s. sk_rooms (f s) = sk_rooms s) \<Longrightarrow> others_in i c (upd_sock j f r) = others_in i c r"
  unfolding others_in_def members_of_def upd_sock_def by (simp add: filter_map comp_def if_distrib cong: if_cong)

lemma share_ok:
  assumes "relay_ok hist t r" and "ry_db r = hist t" and "ev_now e = t"
  shows "relay_ok hist t (snd (location_share e isDt i c p x r))"
proof -
  have vouch: "relay_ok hist t (upd_sock i (\<lambda>s. (start_sharing e c u n s)\<lparr>sk_token := tok\<rparr>) r1)"
    if "relay_ok hist t r1" "getMember c u (hist t) \<noteq> None" for u n tok r1
    by (rule ok_upd [OF that(1)]) (use that(2) assms(3) in \<open>auto simp: start_sharing_def vouched_def\<close>)
  have reg: "relay_ok hist t r1" if "registerSharingSocket (ev_now e) u i r = (a, r1)" for a r1 u
  proof -
    have "relay_ok hist t (snd (registerSharingSocket (ev_now e) u i r))" using assms(1) by simp
    then show ?thesis by (simp only: that snd_conv)
  qed
  show ?thesis
    unfolding location_share_def with_session_def
    using assms(1) vouch reg assms(2) by (auto simp: disconnect_ok Let_def split: option.splits prod.splits)
qed

lemma share_publishes:
  assumes "ry_db r = hist t" and "ev_now e = t"
  shows "publishes (\<lambda>c u. getMember c u (hist t) \<noteq> None) e i r (snd (location_share e isDt i c p x r))"
proof -
  have reg: "published r1 = published r \<and> ry_socks r1 = ry_socks r"
    if "registerSharingSocket (ev_now e) u i r = (a, r1)" for a r1 u
    using that register_simps(1,2) [of "ev_now e" u i r] by simp
  have sent: "publishes (\<lambda>c u. getMember c u (hist t) \<noteq> None) e i r
      (publish i c (peer_payload e c u n q) (upd_sock i (\<lambda>s. (start_sharing e c u n s)\<lparr>sk_token := tok\<rparr>) r1))"
    if "registerSharingSocket (ev_now e) u i r = (a, r1)" "getMember c u (hist t) \<noteq> None" for u n q tok r1 a
    using reg [OF that(1)] that(2) others_in_cong [of r1 r i c]
    by (auto simp: publishes_def others_in_upd start_sharing_def simp del: socks_simps)
  show ?thesis
    unfolding location_share_def with_session_def
    using reg sent assms(1)
    by (auto simp: publishes_same Let_def split: option.splits prod.splits)
qed

text \<open>A stamp no older than the interval vouches for the sender of an update that is not due.\<close>

lemma not_due_fresh:
  assumes "vouched hist t s" and "sk_sharing s = Some c" and "\<not> due e n s" and "ev_now e = t" and "MEMBERSHIP_RECHECK_INTERVAL_MS \<le> t"
  shows "\<exists>u t0. sk_userId s = Some u \<and> t - MEMBERSHIP_RECHECK_INTERVAL_MS < t0 \<and> t0 \<le> t \<and> getMember c u (hist t0) \<noteq> None"
proof -
  from assms(3-5) obtain t0 where t0: "sk_checkedAt s = Some t0" "t - MEMBERSHIP_RECHECK_INTERVAL_MS < t0"
    by (auto simp: due_def split: option.splits)
  with assms(1,2) show ?thesis unfolding vouched_def by blast
qed

abbreviation uid :: "sock \<Rightarrow> string" where
  "uid s \<equiv> (case sk_userId s of Some u \<Rightarrow> u | None \<Rightarrow> [])"

abbreviation uname :: "sock \<Rightarrow> string" where
  "uname s \<equiv> (case sk_username s of Some u \<Rightarrow> u | None \<Rightarrow> [])"

text \<open>The outcomes of an update: an error, the end of the share, or a position.\<close>

lemma update_cases:
  assumes "sock_of i r = Some s" and "ry_up r"
  obtains (Quiet) m k where "location_update e isDt i c p r = r \<or> location_update e isDt i c p r = to_self i (SocketError m k) r"
    | (Limited) m k l where "location_update e isDt i c p r = to_self i (SocketError m k) (r\<lparr>ry_location := l\<rparr>)"
    | (Passed) l n where "sk_sharing s = Some c" "\<not> due e n s"
        "location_update e isDt i c p r = publish i c (peer_payload e c (uid s) (uname s) p)
           (upd_sock i (\<lambda>s. s\<lparr>sk_count := Some n\<rparr>) (r\<lparr>ry_location := l\<rparr>))"
    | (Revoked) l n where "sk_sharing s = Some c"
        "location_update e isDt i c p r = revoke_sharing i c (uid s)
           (upd_sock i (\<lambda>s. s\<lparr>sk_count := Some 0, sk_checkedAt := Some (ev_now e)\<rparr>)
             (upd_sock i (\<lambda>s. s\<lparr>sk_count := Some n\<rparr>) (r\<lparr>ry_location := l\<rparr>)))"
    | (Checked) l n where "sk_sharing s = Some c" "getMember c (uid s) (ry_db r) \<noteq> None"
        "location_update e isDt i c p r = publish i c (peer_payload e c (uid s) (uname s) p)
           (upd_sock i (\<lambda>s. s\<lparr>sk_count := Some 0, sk_checkedAt := Some (ev_now e)\<rparr>)
             (upd_sock i (\<lambda>s. s\<lparr>sk_count := Some n\<rparr>) (r\<lparr>ry_location := l\<rparr>)))"
proof -
  obtain ok a b l where lim: "consumeAsync (ev_redis_limit e) (ev_now e) (uid s) (ry_location r) = ((ok, a, b), l)"
    using prod_cases3 by (metis surj_pair)
  define k where "k = (case sk_count s of Some k \<Rightarrow> k | None \<Rightarrow> 0) + 1"
  define r2 where "r2 = upd_sock i (\<lambda>s. s\<lparr>sk_count := Some k\<rparr>) (r\<lparr>ry_location := l\<rparr>)"
  define r3 where "r3 = upd_sock i (\<lambda>s. s\<lparr>sk_count := Some 0, sk_checkedAt := Some (ev_now e)\<rparr>) r2"
  have gate: "location_update e isDt i c p r =
      (if \<not> ok then to_self i (SocketError ''Location update rate limit exceeded'' (Some ''RATE_LIMITED'')) (r\<lparr>ry_location := l\<rparr>)
       else if \<not> due e k s then publish i c (peer_payload e c (uid s) (uname s) p) r2
       else if getMember c (uid s) (ry_db r) = None then revoke_sharing i c (uid s) r3
       else publish i c (peer_payload e c (uid s) (uname s) p) r3)"
    if "ev_live e" "locationUpdateSchema isDt c p" "sk_sharing s = Some c"
    unfolding location_update_def r3_def r2_def k_def by (simp add: assms lim that Let_def del: not_None_eq)
  consider "\<not> ev_live e" | "ev_live e" "\<not> locationUpdateSchema isDt c p" | "ev_live e" "locationUpdateSchema isDt c p" "sk_sharing s \<noteq> Some c"
    | "ev_live e" "locationUpdateSchema isDt c p" "sk_sharing s = Some c" by blast
  then show thesis
  proof cases
    case 4
    note go = gate [OF 4]
    consider (out) "\<not> ok" | (early) "ok" "\<not> due e k s" | (gone) "ok" "due e k s" "getMember c (uid s) (ry_db r) = None"
      | (still) "ok" "due e k s" "getMember c (uid s) (ry_db r) \<noteq> None" by blast
    then show thesis
    proof cases
      case out
      then show thesis by (intro Limited) (simp only: go if_True not_False_eq_True)
    next
      case early
      then show thesis by (intro Passed [OF 4(3)]) (simp_all only: go r2_def if_True if_False not_False_eq_True not_True_eq_False)
    next
      case gone
      then show thesis by (intro Revoked [OF 4(3)]) (simp only: go r2_def r3_def if_True if_False not_True_eq_False not_False_eq_True refl simp_thms)
    next
      case still
      then show thesis by (intro Checked [OF 4(3)]) (simp_all only: go r2_def r3_def if_True if_False not_True_eq_False not_False_eq_True)
    qed
  next
    case 1
    then show thesis by (intro Quiet disjI1) (simp add: location_update_def assms)
  next
    case 2
    then show thesis by (intro Quiet disjI2) (simp add: location_update_def assms)
  next
    case 3
    then show thesis by (intro Quiet disjI2) (simp add: location_update_def assms)
  qed
qed

lemma revoke_simps [simp]:
  "published (revoke_sharing i c u r) = published r" "ry_up (revoke_sharing i c u r) = ry_up r"
  by (simp_all add: revoke_sharing_def)

lemma upd_comp: "(\<And>s. sk_id (f s) = sk_id s) \<Longrightarrow> upd_sock i g (upd_sock i f r) = upd_sock i (\<lambda>s. g (f s)) r"
  by (auto simp: upd_sock_def)

lemma revoke_ok:
  assumes "relay_ok hist t r" and "\<And>s. sk_id (f s) = sk_id s"
  shows "relay_ok hist t (revoke_sharing i c u (upd_sock i f r))"
proof -
  define g where "g = (\<lambda>s. (leave_of (room_of_crew c) (f s))\<lparr>sk_sharing := None,
             sk_crewId := (if sk_crewId (f s) = Some c then None else sk_crewId (f s))\<rparr>)"
  have "relay_ok hist t (upd_sock i g r)"
    by (rule ok_upd_same [OF assms(1)]) (simp add: g_def leave_of_def assms(2))
  moreover have "ry_socks (revoke_sharing i c u (upd_sock i f r)) = ry_socks (upd_sock i g r)"
    using assms(2) by (simp add: revoke_sharing_def g_def leave_of_def)
  ultimately show ?thesis using relay_ok_cong [of "revoke_sharing i c u (upd_sock i f r)" "upd_sock i g r"] by simp
qed

lemma stamp_ok:
  assumes "relay_ok hist t r" and "sock_of i r = Some s" and "sk_sharing s = Some c"
    and "\<And>s. sk_id (f s) = sk_id s \<and> sk_sharing (f s) = sk_sharing s \<and> sk_userId (f s) = sk_userId s \<and> sk_checkedAt (f s) = Some t"
    and "getMember c (uid s) (hist t) \<noteq> None"
  shows "relay_ok hist t (upd_sock i f r)"
proof (rule ok_upd [OF assms(1)])
  fix s' assume "s' \<in> set (ry_socks r)" "sk_id s' = i" and v: "vouched hist t s'"
  then have "s' = s" using sock_of_unique [OF assms(1)] assms(2) by fastforce
  then show "vouched hist t (f s')" using v assms(3-5) by (auto simp: vouched_def)
qed (use assms(4) in simp)

lemma update_keeps:
  assumes ok: "relay_ok hist t r" and "ry_db r = hist t" and "ev_now e = t" and "MEMBERSHIP_RECHECK_INTERVAL_MS \<le> t"
  shows "relay_ok hist t (location_update e isDt i c p r)"
    and "publishes (\<lambda>c u. \<exists>t0. t - MEMBERSHIP_RECHECK_INTERVAL_MS < t0 \<and> t0 \<le> t \<and> getMember c u (hist t0) \<noteq> None) e i r
           (location_update e isDt i c p r)" (is "publishes ?P e i r _")
proof -
  have up: "ry_up r" using ok by (simp add: relay_ok_def)
  have both: "relay_ok hist t (location_update e isDt i c p r) \<and> publishes ?P e i r (location_update e isDt i c p r)"
  proof (cases "sock_of i r")
    case None
    then show ?thesis using ok by (simp add: location_update_def publishes_same)
  next
    case (Some s)
    have s: "vouched hist t s" using ok sock_of_mem [OF Some] by (simp add: relay_ok_def)
    show ?thesis
    proof (cases rule: update_cases [OF Some up, of e isDt c p])
      case (1 m k)
      then show ?thesis using ok by (auto simp: publishes_same)
    next
      case (2 m k l)
      then show ?thesis using ok by (auto simp: publishes_same)
    next
      case (3 l n)
      from not_due_fresh [OF s 3(1,2) assms(3,4)] obtain u t0
        where u: "sk_userId s = Some u" "t - MEMBERSHIP_RECHECK_INTERVAL_MS < t0" "t0 \<le> t" "getMember c u (hist t0) \<noteq> None" by blast
      have ok': "relay_ok hist t (r\<lparr>ry_location := l\<rparr>)" by (simp add: ok)
      have "relay_ok hist t (upd_sock i (\<lambda>s. s\<lparr>sk_count := Some n\<rparr>) (r\<lparr>ry_location := l\<rparr>))"
        by (rule ok_upd_same [OF ok']) auto
      then have "relay_ok hist t (location_update e isDt i c p r)" unfolding 3(3) publish_ok .
      moreover have "others_in i c (upd_sock i (\<lambda>s. s\<lparr>sk_count := Some n\<rparr>) (r\<lparr>ry_location := l\<rparr>)) = others_in i c r"
        by (simp add: others_in_upd others_in_cong [of "r\<lparr>ry_location := l\<rparr>" r])
      then have "published (location_update e isDt i c p r) = published r @ [(others_in i c r, peer_payload e c u (uname s) p)]"
        by (simp add: 3(3) u(1) del: socks_simps)
      then have "publishes ?P e i r (location_update e isDt i c p r)" by (rule publishesI) (use u(2-4) in blast)
      ultimately show ?thesis by blast
    next
      case (4 l n)
      show ?thesis unfolding 4(2) by (simp add: upd_comp revoke_ok ok publishes_same)
    next
      case (5 l n)
      let ?f = "\<lambda>s. s\<lparr>sk_count := Some 0, sk_checkedAt := Some (ev_now e)\<rparr>"
      have "relay_ok hist t (upd_sock i ?f (r\<lparr>ry_location := l\<rparr>))"
        by (rule stamp_ok [of _ _ _ _ s c]) (use ok Some 5(1,2) assms(2,3) in \<open>simp_all add: sock_of_def\<close>)
      then have "relay_ok hist t (location_update e isDt i c p r)" by (simp only: 5(3) upd_comp publish_ok) (simp add: upd_comp)
      moreover have "others_in i c (upd_sock i ?f (r\<lparr>ry_location := l\<rparr>)) = others_in i c r"
        by (simp add: others_in_upd others_in_cong [of "r\<lparr>ry_location := l\<rparr>" r])
      then have "published (location_update e isDt i c p r) = published r @ [(others_in i c r, peer_payload e c (uid s) (uname s) p)]"
        by (simp add: 5(3) upd_comp del: socks_simps)
      then have "publishes ?P e i r (location_update e isDt i c p r)"
        by (rule publishesI) (use 5(2) assms(2) in \<open>auto simp: MEMBERSHIP_RECHECK_INTERVAL_MS_def intro!: exI [of _ t]\<close>)
      ultimately show ?thesis by blast
    qed
  qed
  then show "relay_ok hist t (location_update e isDt i c p r)" and "publishes ?P e i r (location_update e isDt i c p r)" by blast+
qed

lemma stop_keeps:
  assumes "relay_ok hist t r"
  shows "relay_ok hist t (snd (location_stop i c r))" and "published (snd (location_stop i c r)) = published r"
proof -
  have "relay_ok hist t (upd_sock i (\<lambda>s. s\<lparr>sk_sharing := None\<rparr>) r)" by (rule ok_upd_same [OF assms]) simp
  then show "relay_ok hist t (snd (location_stop i c r))" "published (snd (location_stop i c r)) = published r"
    using assms by (auto simp: location_stop_def Let_def split: option.split)
qed

lemma sync_keeps:
  assumes "relay_ok hist t r"
  shows "relay_ok hist t (snd (location_sync e i c r))" and "published (snd (location_sync e i c r)) = published r"
proof -
  show "relay_ok hist t (snd (location_sync e i c r))"
    using assms by (auto simp: location_sync_def intro!: session_keeps)
  show "published (snd (location_sync e i c r)) = published r"
    by (auto simp: location_sync_def intro!: session_quiet)
qed

lemma upd_limits:
  "upd_sock i f (r\<lparr>ry_limits := ls\<rparr>) = (upd_sock i f r)\<lparr>ry_limits := ls\<rparr>"
  by (simp add: upd_sock_def)

lemma leave_festival_keeps:
  assumes "relay_ok hist t r"
  shows "relay_ok hist t (leave_festival e i r)" and "published (leave_festival e i r) = published r"
proof -
  have "relay_ok hist t (upd_sock i (\<lambda>s. s\<lparr>sk_rooms := filter (\<lambda>x. x = i) (sk_rooms s)\<rparr>) (snd (leaveFestivalRealtime i (r\<lparr>ry_limits := ls\<rparr>))))" for ls
    by (rule ok_upd_same [OF leave_realtime_ok]) (simp_all add: assms)
  then show "relay_ok hist t (leave_festival e i r)" and "published (leave_festival e i r) = published r"
    using assms by (auto simp: leave_festival_def Let_def split: option.split prod.split)
qed

lemma join_crew_keeps:
  assumes "relay_ok hist t r"
  shows "relay_ok hist t (snd (join_crew_room e i c r))" and "published (snd (join_crew_room e i c r)) = published r"
proof -
  let ?g = "\<lambda>s. let left = (case sk_crewId s of Some c' \<Rightarrow> if c' \<noteq> [] \<and> c' \<noteq> c then leave_of (room_of_crew c') s else s | None \<Rightarrow> s)
                     in (join_to (room_of_crew c) left)\<lparr>sk_crewId := Some c\<rparr>"
  have token: "relay_ok hist t (upd_sock i (\<lambda>s. s\<lparr>sk_token := tok\<rparr>) r)" for tok
    by (rule ok_upd_same [OF assms]) simp
  have enter: "relay_ok hist t (upd_sock i ?g r')" if "relay_ok hist t r'" for r'
    by (rule ok_upd_same [OF that]) (auto simp: join_to_def leave_of_def Let_def split: option.split)
  have inside: "relay_ok hist t (upd_sock i ?g ((upd_sock i (\<lambda>s. s\<lparr>sk_token := tok\<rparr>) r)\<lparr>ry_limits := ls\<rparr>))" for tok ls
    by (rule enter) (simp only: limits_ok token)
  show "relay_ok hist t (snd (join_crew_room e i c r))"
    unfolding join_crew_room_def with_session_def
    using assms token inside by (auto simp: disconnect_ok Let_def split: option.splits prod.splits simp del: socks_simps)
  show "published (snd (join_crew_room e i c r)) = published r"
    by (auto simp: join_crew_room_def Let_def intro!: session_quiet split: prod.split)
qed

lemma leave_crew_keeps:
  assumes "relay_ok hist t r"
  shows "relay_ok hist t (snd (leave_crew_room e i c r))" and "published (snd (leave_crew_room e i c r)) = published r"
proof -
  let ?g = "\<lambda>s. (leave_of (room_of_crew c) s)\<lparr>sk_crewId := (if sk_crewId s = Some c then None else sk_crewId s),
                       sk_checkedAt := None, sk_count := None\<rparr>"
  have token: "relay_ok hist t (upd_sock i (\<lambda>s. s\<lparr>sk_token := tok\<rparr>) r)" for tok
    by (rule ok_upd_same [OF assms]) simp
  have quit: "relay_ok hist t (upd_sock i ?g r')" if "relay_ok hist t r'" for r'
    by (rule ok_upd_same [OF that]) (auto simp: leave_of_def)
  have halt: "relay_ok hist t (upd_sock i (\<lambda>s. s\<lparr>sk_sharing := None\<rparr>) r')" if "relay_ok hist t r'" for r'
    by (rule ok_upd_same [OF that]) simp
  show "relay_ok hist t (snd (leave_crew_room e i c r))"
    unfolding leave_crew_room_def with_session_def
    using assms token by (auto simp: disconnect_ok Let_def intro!: quit halt split: option.splits prod.splits simp del: socks_simps)
  show "published (snd (leave_crew_room e i c r)) = published r"
    by (auto simp: leave_crew_room_def Let_def intro!: session_quiet split: prod.split)
qed

lemma connect_ok:
  "relay_ok hist t r \<Longrightarrow> sock_of i r = None \<Longrightarrow> relay_ok hist t (r\<lparr>ry_socks := ry_socks r @ [new_sock i token]\<rparr>)"
  by (auto simp: relay_ok_def new_sock_def vouched_def sock_of_def lookup_key_None)

lemma join_festival_keeps:
  assumes "relay_ok hist t r" and "steady e (JoinFestival i f token) r"
  shows "relay_ok hist t (snd (join_festival e i f token r))" and "published (snd (join_festival e i f token r)) = published r"
    and "relay_ok hist t (snd (reconnect_restore e i f token r))" and "published (snd (reconnect_restore e i f token r)) = published r"
proof -
  have st: "\<And>s u n. sock_of i r = Some s \<Longrightarrow> sk_sharing s \<noteq> None \<Longrightarrow> ev_session e (resolve_token s token) = Some (u, n) \<Longrightarrow> sk_userId s = Some u"
    using assms(2) by simp
  have ok: "relay_ok hist t r1 \<and> published r1 = published r" if "authenticateAndJoinRoom e i f token w r = (a, r1)" for a r1 w
    using auth_join_ok [where hist = hist and t = t and r = r and i = i and e = e and token = token and f = f and scope = w] st assms(1) that by force
  show "relay_ok hist t (snd (join_festival e i f token r))" "published (snd (join_festival e i f token r)) = published r"
    using ok assms(1) by (auto simp: join_festival_def split: prod.split)
  show "relay_ok hist t (snd (reconnect_restore e i f token r))" "published (snd (reconnect_restore e i f token r)) = published r"
    using ok [OF surjective_pairing] assms(1) by (auto simp: reconnect_restore_def)
qed

subsection \<open>Runs\<close>

text \<open>The tables may change between inputs: \<open>hist t\<close> is what they hold at time t.  The database answers throughout,
  and a socket that shares does not re-authenticate as another user; what happens without either is stated below.\<close>

inductive relay_step :: "(int \<Rightarrow> crew_db) \<Rightarrow> (string \<Rightarrow> bool) \<Rightarrow> int \<times> relay \<Rightarrow> int \<times> relay \<Rightarrow> bool" for hist isDt where
  Hear: "t \<le> ev_now e \<Longrightarrow> steady e a r
    \<Longrightarrow> relay_step hist isDt (t, r) (ev_now e, handle_input e isDt a (r\<lparr>ry_db := hist (ev_now e)\<rparr>))"

inductive_simps relay_step_simps: "relay_step hist isDt (t, r) q"

definition within_interval :: "(int \<Rightarrow> crew_db) \<Rightarrow> int \<Rightarrow> string \<Rightarrow> string \<Rightarrow> bool" where
  "within_interval hist t c u \<longleftrightarrow> (\<exists>t0. t - MEMBERSHIP_RECHECK_INTERVAL_MS < t0 \<and> t0 \<le> t \<and> getMember c u (hist t0) \<noteq> None)"

definition sender :: "relay_input \<Rightarrow> string" where
  "sender a = (case a of Share i _ _ _ \<Rightarrow> i | Update i _ _ \<Rightarrow> i | _ \<Rightarrow> [])"

lemma steady_db [simp]: "steady e a (r\<lparr>ry_db := d\<rparr>) = steady e a r"
  by (cases a) (simp_all add: sock_of_def)

lemma db_ok [simp]: "relay_ok hist t (r\<lparr>ry_db := d\<rparr>) = relay_ok hist t r" "published (r\<lparr>ry_db := d\<rparr>) = published r"
  by (simp_all add: relay_ok_def published_def)

lemma now_in_interval: "getMember c u (hist t) \<noteq> None \<Longrightarrow> within_interval hist t c u"
  unfolding within_interval_def MEMBERSHIP_RECHECK_INTERVAL_MS_def by (intro exI [of _ t]) simp

lemma publishes_mono: "publishes P e i r r' \<Longrightarrow> (\<And>c u. P c u \<Longrightarrow> Q c u) \<Longrightarrow> publishes Q e i r r'"
  unfolding publishes_def by meson

lemma handled:
  assumes ok: "relay_ok hist t r" and "ry_db r = hist t" and "ev_now e = t" and "MEMBERSHIP_RECHECK_INTERVAL_MS \<le> t" and "steady e a r"
  shows "relay_ok hist t (handle_input e isDt a r) \<and> publishes (within_interval hist t) e (sender a) r (handle_input e isDt a r)"
proof (cases a)
  case (Share i c p x)
  then show ?thesis
    using share_ok [where isDt = isDt, OF assms(1-3)] publishes_mono [OF share_publishes [where hist = hist and t = t, OF assms(2,3)] now_in_interval]
    by (simp add: sender_def)
next
  case (Update i c p)
  then show ?thesis using update_keeps [where isDt = isDt, OF assms(1-4)] by (simp add: sender_def within_interval_def [abs_def])
qed (use assms in \<open>auto intro: publishes_same connect_ok simp: stop_keeps sync_keeps leave_festival_keeps join_crew_keeps
      leave_crew_keeps join_festival_keeps disconnect_ok auth_timeout_def disconnectUserSockets_def disconnectSessionTokens_def
      disconnect_where_ok evict_user_ok split: option.split\<close>)

interpretation relaying: inv_system "relay_step hist isDt" "\<lambda>(t, r). MEMBERSHIP_RECHECK_INTERVAL_MS \<le> t \<and> relay_ok hist t r" for hist isDt
proof
  fix q q' assume "case q of (t, r) \<Rightarrow> MEMBERSHIP_RECHECK_INTERVAL_MS \<le> t \<and> relay_ok hist t r" and "relay_step hist isDt q q'"
  then show "case q' of (t, r) \<Rightarrow> MEMBERSHIP_RECHECK_INTERVAL_MS \<le> t \<and> relay_ok hist t r"
    using handled [of hist _ "_ \<lparr>ry_db := hist _\<rparr>"] relay_ok_later
    by (cases q) (auto simp: relay_step_simps)
qed

lemma clamped_bounds:
  "\<exists>k. clampCapturedAt parse fmt stamp now (fmt now) = fmt k \<and> now - CAPTURED_AT_MAX_AGE_MS \<le> k \<and> k \<le> now + CAPTURED_AT_MAX_SKEW_MS"
  by (auto simp: clampCapturedAt_def CAPTURED_AT_MAX_AGE_MS_def CAPTURED_AT_MAX_SKEW_MS_def Let_def split: option.split)


subsection \<open>One socket\<close>

lemma sock_of_simps [simp]:
  "sock_of i (issue cs r) = sock_of i r" "sock_of i (to_others j rm ev r) = sock_of i r" "sock_of i (to_self j ev r) = sock_of i r"
  "sock_of i (r\<lparr>ry_limits := ls\<rparr>) = sock_of i r" "sock_of i (r\<lparr>ry_location := l\<rparr>) = sock_of i r"
  "sock_of i (r\<lparr>ry_up := b\<rparr>) = sock_of i r" "sock_of i (r\<lparr>ry_online := os\<rparr>) = sock_of i r" "sock_of i (publish j c p r) = sock_of i r"
  "sock_of i (setSocketPresence fe u n j r) = sock_of i r" "sock_of i (r\<lparr>ry_db := d\<rparr>) = sock_of i r"
  "sock_of i (r\<lparr>ry_sharers := z\<rparr>) = sock_of i r"
  by (simp_all add: sock_of_def)

lemma sock_of_upd [simp]:
  "(\<And>s. sk_id (f s) = sk_id s) \<Longrightarrow> sock_of i (upd_sock i f r) = map_option f (sock_of i r)"
proof -
  assume f: "\<And>s. sk_id (f s) = sk_id s"
  have "lookup_key sk_id (map (\<lambda>s. if sk_id s = i then f s else s) xs) i = map_option f (lookup_key sk_id xs i)" for xs
    by (induction xs) (simp_all add: lookup_key_def f)
  then show ?thesis by (simp add: sock_of_def upd_sock_def)
qed

lemma sock_of_realtime:
  "sock_of i (snd (leaveFestivalRealtime i r)) = map_option (\<lambda>s. case sk_festivalId s of
     None \<Rightarrow> s | Some f \<Rightarrow> (leave_of f s)\<lparr>sk_festivalId := None, sk_profileId := None\<rparr>) (sock_of i r)"
  by (cases "sock_of i r") (auto simp: leaveFestivalRealtime_def removeSocketPresence_def leave_of_def split: option.splits)

lemma world_kept [simp]:
  "ry_sent (snd (leaveFestivalRealtime i r)) = ry_sent r" "ry_cmds (snd (leaveFestivalRealtime i r)) = ry_cmds r"
  "ry_sharers (snd (leaveFestivalRealtime i r)) = ry_sharers r" "ry_sent (clearSocketSession i r) = ry_sent r"
  "ry_cmds (clearSocketSession i r) = ry_cmds r" "ry_sharers (clearSocketSession i r) = ry_sharers r"
  "ry_db (snd (leaveFestivalRealtime i r)) = ry_db r" "ry_redis (snd (leaveFestivalRealtime i r)) = ry_redis r"
  "ry_location (snd (leaveFestivalRealtime i r)) = ry_location r"
  "ry_sent (snd (removeSocketPresence i r)) = ry_sent r" "ry_cmds (snd (removeSocketPresence i r)) = ry_cmds r"
  "ry_sharers (snd (removeSocketPresence i r)) = ry_sharers r"
  by (simp_all add: leaveFestivalRealtime_def removeSocketPresence_def clearSocketSession_def upd_sock_def split: option.split)

text \<open>A socket that drops while sharing tells the room and clears the cache; one the server drops (logout, an
  expired or revoked session) does neither: \<open>disconnectSocket\<close> clears the user before the \<open>disconnect\<close> handler reads it.\<close>

lemma forced_disconnect_is_silent:
  assumes "sock_of i r = Some s" and "sk_sharing s = Some c" and "sk_userId s = Some u" and "c \<noteq> []" and "u \<noteq> []"
  shows "ry_sent (on_disconnect i r) = ry_sent r @ [(others_in i c r, PeerStopped c u Disconnected)]"
    and "ry_sent (disconnectSocket i r) = ry_sent r" and "ry_cmds (disconnectSocket i r) = ry_cmds r"
    and "ry_sharers (disconnectSocket i r) = ry_sharers r" and "sock_of i (disconnectSocket i r) = None"
proof -
  let ?r = "clearSocketSession i (snd (leaveFestivalRealtime i r))"
  have kept: "\<exists>s'. sock_of i ?r = Some s' \<and> sk_userId s' = None"
    by (simp add: clearSocketSession_def sock_of_realtime assms(1))
  have told: "ry_sent (on_disconnect i q) = ry_sent q" "ry_cmds (on_disconnect i q) = ry_cmds q" "ry_sharers (on_disconnect i q) = ry_sharers q"
    if "\<exists>s'. sock_of i q = Some s' \<and> sk_userId s' = None" for q
    using that by (auto simp: on_disconnect_def Let_def split: option.splits)
  show "ry_sent (disconnectSocket i r) = ry_sent r" "ry_cmds (disconnectSocket i r) = ry_cmds r"
    "ry_sharers (disconnectSocket i r) = ry_sharers r"
    using told [OF kept] by (simp_all add: disconnectSocket_def)
  show "ry_sent (on_disconnect i r) = ry_sent r @ [(others_in i c r, PeerStopped c u Disconnected)]"
    by (simp add: on_disconnect_def Let_def assms drop_position_def issue_def unregisterSharingSocket_def to_others_def others_in_def)
  show "sock_of i (disconnectSocket i r) = None"
    by (auto simp: sock_of_def lookup_key_None remove_key_def)
qed

text \<open>Leaving the festival leaves every room but keeps the socket's crew, so a share is still accepted, from a socket
  that no longer hears the crew.\<close>

lemma left_socket_may_share:
  assumes "sock_of i r = Some s" and "sk_crewId s = Some c" and "valid_id c" and "ev_live e" and "ry_up r"
    and "fst (consumeSocketRateLimit (ev_limits e) (ev_now e) (''leave:'' @ (case sk_userId s of Some u \<Rightarrow> if u = [] then i else u | None \<Rightarrow> i))
           (ev_leave_limit e) (ry_limits r))"
    and "ev_session e (current_token s) = Some (u, n)" and "getMember c u (ry_db r) \<noteq> None" and "\<not> ry_redis r"
  shows "fst (location_share e isDt i c None None (leave_festival e i r)) = Accepted"
    and "\<exists>s'. sock_of i (leave_festival e i r) = Some s' \<and> set (sk_rooms s') \<subseteq> {i}"
proof -
  let ?X = "consumeSocketRateLimit (ev_limits e) (ev_now e)
      (''leave:'' @ (case sk_userId s of Some u \<Rightarrow> if u = [] then i else u | None \<Rightarrow> i)) (ev_leave_limit e) (ry_limits r)"
  obtain ls where "ls = snd ?X" by blast
  with assms(6) have lim: "?X = (True, ls)" by (simp only: prod_eq_iff fst_conv snd_conv)
  let ?r = "leave_festival e i r"
  have left: "?r = upd_sock i (\<lambda>s. s\<lparr>sk_rooms := filter (\<lambda>x. x = i) (sk_rooms s)\<rparr>) (snd (leaveFestivalRealtime i (r\<lparr>ry_limits := ls\<rparr>)))"
    by (simp only: leave_festival_def assms(1) option.case lim prod.case Let_def not_True_eq_False if_False)
  have "\<exists>s'. sock_of i ?r = Some s' \<and> set (sk_rooms s') \<subseteq> {i} \<and> sk_crewId s' = Some c \<and> current_token s' = current_token s"
    by (cases "sk_festivalId s") (auto simp: left sock_of_realtime assms(1,2) leave_of_def current_token_def resolve_token_def split: option.split)
  then obtain s' where s': "sock_of i ?r = Some s'" "set (sk_rooms s') \<subseteq> {i}" "sk_crewId s' = Some c" "current_token s' = current_token s"
    by blast
  have world: "ry_up ?r" "ry_db ?r = ry_db r" "\<not> ry_redis ?r"
    using assms(5,9) by (simp_all add: left) (simp_all add: upd_sock_def)
  show "fst (location_share e isDt i c None None ?r) = Accepted"
    using s' world assms(3,4,7,8)
    by (auto simp: location_share_def locationShareSchema_def with_session_def registerSharingSocket_def Let_def)
  show "\<exists>s'. sock_of i ?r = Some s' \<and> set (sk_rooms s') \<subseteq> {i}" using s' by blast
qed

text \<open>The stream is checked against the membership, but the stamps are set before the lookup: a lookup that fails counts
  as a check, and the next update within fifteen seconds passes without one, though the user has been removed.\<close>

lemma failed_check_counts:
  assumes s: "sock_of i r = Some s" "sk_sharing s = Some c" "sk_userId s = Some u"
    and e: "ev_live e" "locationUpdateSchema isDt c p" "ev_redis_limit e = Verdict False left reset" "\<not> ry_up r"
      "MEMBERSHIP_RECHECK_INTERVAL_MS \<le> ev_now e - (case sk_checkedAt s of Some t0 \<Rightarrow> t0 | None \<Rightarrow> 0)"
    and e': "ev_live e'" "locationUpdateSchema isDt c p'" "ev_redis_limit e' = Verdict False left' reset'"
      "ev_now e' - ev_now e < MEMBERSHIP_RECHECK_INTERVAL_MS"
    and gone: "getMember c u d = None"
  shows "published (location_update e' isDt i c p' ((location_update e isDt i c p r)\<lparr>ry_up := True, ry_db := d\<rparr>))
    = published r @ [(others_in i c r, peer_payload e' c u (uname s) p')]"
proof -
  have allow: "\<exists>x y. consumeAsync (ev_redis_limit v) (ev_now v) k l = ((True, x, y), l)"
    if "ev_redis_limit v = Verdict False a b" for v k l a b
    by (simp add: consumeAsync_def that)
  let ?f = "\<lambda>s. s\<lparr>sk_count := Some 0, sk_checkedAt := Some (ev_now e)\<rparr>"
  define q where "q = location_update e isDt i c p r"
  obtain k where first: "q = upd_sock i ?f (upd_sock i (\<lambda>s. s\<lparr>sk_count := Some k\<rparr>) r)"
    using allow [OF e(3), of u "ry_location r"] e
    by (auto simp: q_def location_update_def s Let_def due_def)
  let ?r = "q\<lparr>ry_up := True, ry_db := d\<rparr>"
  have s': "sock_of i q = Some (?f (s\<lparr>sk_count := Some k\<rparr>))" by (simp add: first s)
  have "location_update e' isDt i c p' ?r = publish i c (peer_payload e' c u (uname s) p') (upd_sock i (\<lambda>s. s\<lparr>sk_count := Some 1\<rparr>) ?r)"
    using allow [OF e'(3), of u "ry_location ?r"] e'
    by (auto simp: location_update_def s' s Let_def due_def MEMBERSHIP_RECHECK_EVERY_N_def)
  moreover have "others_in i c (upd_sock i (\<lambda>s. s\<lparr>sk_count := Some 1\<rparr>) ?r) = others_in i c r"
    by (simp add: others_in_upd first others_in_cong [of "(upd_sock i ?f (upd_sock i (\<lambda>s. s\<lparr>sk_count := Some k\<rparr>) r))\<lparr>ry_up := True, ry_db := d\<rparr>"
          "upd_sock i ?f (upd_sock i (\<lambda>s. s\<lparr>sk_count := Some k\<rparr>) r)"] del: socks_simps)
  moreover have "published ?r = published r" by (simp add: published_def) (simp add: first upd_sock_def)
  ultimately show ?thesis unfolding q_def [symmetric] by simp
qed

text \<open>A sharing socket that joins a festival as another user goes on sharing: its next position is published under the
  new user, who need not belong to the crew.\<close>

lemma share_survives_other_user:
  assumes "sock_of i r = Some s" and "sk_sharing s = Some c" and "authenticateAndJoinRoom e i f token scope r = (Accepted, r')"
    and "ev_session e (resolve_token s token) = Some (v, n)"
  shows "\<exists>s'. sock_of i r' = Some s' \<and> sk_sharing s' = Some c \<and> sk_userId s' = Some v \<and> sk_checkedAt s' = sk_checkedAt s \<and> sk_count s' = sk_count s"
proof -
  obtain tok p ls where "r' = enter_festival i f v n tok p (r\<lparr>ry_limits := ls\<rparr>)"
    using assms by (auto simp: authenticateAndJoinRoom_def Let_def split: if_splits prod.splits option.splits)
  then show ?thesis
    by (cases "sk_festivalId s") (simp_all add: enter_festival_def sock_of_realtime assms(1,2) join_to_def leave_of_def)
qed

text \<open>\<open>join:crew\<close> checks the session but does not record the user; eviction looks for the user on the socket and passes
  such a socket over, so it stays in the room of a crew its user was removed from.\<close>

lemma unstamped_socket_not_evicted:
  assumes "unique_keys sk_id (ry_socks r)" and "s \<in> set (ry_socks r)" and "sk_userId s = None"
  shows "s \<in> set (ry_socks (evict_user c u r))"
proof -
  have "s \<in> set (ry_socks (fold (evict_one c u) ss q))" if "s \<in> set (ry_socks q)" "\<forall>s' \<in> set ss. sk_id s' = sk_id s \<longrightarrow> s' = s" for ss q
    using that
  proof (induction ss arbitrary: q)
    case (Cons s' ss)
    have "s \<in> set (ry_socks (evict_one c u s' q))"
      using Cons.prems assms(3) by (auto simp: evict_one_def Let_def)
    with Cons show ?case by simp
  qed simp
  moreover have "\<forall>s' \<in> set (ry_socks r). sk_id s' = sk_id s \<longrightarrow> s' = s"
    using assms(1,2) by (auto simp: distinct_map inj_on_def)
  ultimately show ?thesis using assms(2) by (simp add: evict_user_def)
qed

subsection \<open>The cap on sharing sockets\<close>

definition live_sharers :: "int \<Rightarrow> string \<Rightarrow> relay \<Rightarrow> (string \<times> int) list" where
  "live_sharers now u r = filter (\<lambda>e. now < snd e) (ry_sharers r u)"

lemma register_cap:
  assumes "registerSharingSocket now u i r = (True, r1)" and "ry_redis r" and "u \<noteq> []" and "i \<noteq> []"
  shows "length (live_sharers now u r1) \<le> MAX_CONCURRENT_SHARING_SOCKETS"
    and "map_of (live_sharers now u r1) i = Some (now + SHARING_SOCKET_TTL_MS)"
proof -
  let ?z = "AList.update i (now + SHARING_SOCKET_TTL_MS) (filter (\<lambda>e. now < snd e) (ry_sharers r u))"
  have r1: "ry_sharers r1 u = ?z" "length ?z \<le> MAX_CONCURRENT_SHARING_SOCKETS"
    using assms by (auto simp: registerSharingSocket_def Let_def)
  have keep: "now < snd e" if "e \<in> set (AList.update k (now + SHARING_SOCKET_TTL_MS) xs)" "\<forall>e \<in> set xs. now < snd e" for e k xs
    using that by (induction xs) (auto simp: SHARING_SOCKET_TTL_MS_def split: if_splits)
  have "\<forall>e \<in> set ?z. now < snd e" by (intro ballI) (rule keep [of _ i], assumption, simp)
  then have "live_sharers now u r1 = ?z" unfolding live_sharers_def r1(1) by (subst filter_id_conv)
  then show "length (live_sharers now u r1) \<le> MAX_CONCURRENT_SHARING_SOCKETS"
    and "map_of (live_sharers now u r1) i = Some (now + SHARING_SOCKET_TTL_MS)"
    using r1(2) by (simp_all add: update_conv)
qed

lemma register_upd [simp]: "live_sharers now u (upd_sock i f r) = live_sharers now u r" "live_sharers now u (publish i c p r) = live_sharers now u r"
  by (simp_all add: live_sharers_def upd_sock_def publish_def issue_def to_others_def)

text \<open>A user shares from few sockets at a time.  With Redis up, when a share is accepted the sharing socket is
  registered for five minutes and no more than three registrations of its user are unexpired; a share that would make a
  fourth is refused.\<close>

theorem share_respects_cap:
  assumes "fst (location_share e isDt i c p x r) = Accepted" and "ry_redis r" and "i \<noteq> []"
    and "\<And>k u n. ev_session e k = Some (u, n) \<Longrightarrow> u \<noteq> []"
  shows "\<exists>u. getMember c u (ry_db r) \<noteq> None
    \<and> length (live_sharers (ev_now e) u (snd (location_share e isDt i c p x r))) \<le> MAX_CONCURRENT_SHARING_SOCKETS
    \<and> map_of (live_sharers (ev_now e) u (snd (location_share e isDt i c p x r))) i = Some (ev_now e + SHARING_SOCKET_TTL_MS)"
proof -
  obtain s u n where s: "ev_live e" "locationShareSchema isDt c p x" "sock_of i r = Some s" "sk_crewId s = Some c" "ry_up r"
      "ev_session e (current_token s) = Some (u, n)" "getMember c u (ry_db r) \<noteq> None"
    using assms(1) by (auto simp: location_share_def with_session_def split: if_splits option.splits)
  obtain r1 where reg: "registerSharingSocket (ev_now e) u i r = (True, r1)"
    using assms(1) s by (auto simp: location_share_def with_session_def split: prod.splits if_splits)
  have "live_sharers (ev_now e) u (snd (location_share e isDt i c p x r)) = live_sharers (ev_now e) u r1"
    using s by (auto simp: location_share_def with_session_def reg Let_def split: option.split)
  with register_cap [OF reg assms(2) assms(4) [OF s(6)] assms(3)] s(7) show ?thesis by auto
qed

text \<open>Sharing on does not renew a registration, whatever the comment on the expiry says: an update leaves the registry
  alone or takes the socket out of it.\<close>

lemma updates_never_renew:
  assumes "ry_up r"
  shows "ry_sharers (location_update e isDt i c p r) u = ry_sharers r u
    \<or> ry_sharers (location_update e isDt i c p r) u = filter (\<lambda>z. fst z \<noteq> i) (ry_sharers r u)"
proof (cases "sock_of i r")
  case None
  then show ?thesis by (simp add: location_update_def)
next
  case (Some s)
  have [simp]: "ry_sharers (upd_sock i f q) = ry_sharers q" "ry_sharers (publish i c pl q) = ry_sharers q"
    "ry_sharers (to_self i ev q) = ry_sharers q" for f q pl ev
    by (simp_all add: upd_sock_def publish_def issue_def to_others_def to_self_def)
  have revoke: "ry_sharers (revoke_sharing i c v q) = (if \<not> ry_redis q \<or> v = [] \<or> i = [] then ry_sharers q
      else (ry_sharers q)(v := filter (\<lambda>z. fst z \<noteq> i) (ry_sharers q v)))" for v q
    by (simp add: revoke_sharing_def drop_position_def issue_def unregisterSharingSocket_def)
      (simp add: upd_sock_def to_others_def)
  show ?thesis by (cases rule: update_cases [OF Some assms, of e isDt c p]) (auto simp: revoke)
qed

subsection \<open>A concrete run\<close>

definition ex_env :: relay_env where
  "ex_env = \<lparr>ev_now = 100000, ev_iso = (\<lambda>_. ''T''), ev_parse = (\<lambda>_. Some 99000), ev_session = (\<lambda>_. Some (''u'', ''ann'')),
     ev_festival = (\<lambda>_. True), ev_profile = (\<lambda>_ _. Some ''pr''), ev_heap_ok = True, ev_limits = ex_config, ev_join_limit = 5,
     ev_leave_limit = 5, ev_room_cap = 9, ev_live = True, ev_redis_limit = NoRedis, ev_snapshot = (\<lambda>_. None)\<rparr>"

definition ex_db :: crew_db where
  "ex_db = \<lparr>cd_crews = [\<lparr>cr_id = ''c'', cr_festivalId = ''f'', cr_name = ''n'', cr_createdBy = ''u'', cr_inviteCode = ''i'',
       cr_inviteExpiresAt = None, cr_maxMembers = 5, cr_reformedFrom = None, cr_homeBaseLocation = None, cr_homeBaseTime = None,
       cr_homeBaseUpdatedAt = None, cr_photoAlbumUrl = None, cr_totemName = None, cr_totemEmoji = None,
       cr_createdAt = 1, cr_updatedAt = 1\<rparr>],
     cd_members = [\<lparr>cm_crewId = ''c'', cm_userId = ''u'', cm_role = Owner, cm_joinedAt = 1\<rparr>],
     cd_users = (\<lambda>_. None), cd_festivals = (\<lambda>_. None), cd_profiles = [], cd_now = 0\<rparr>"

definition ex_relay :: relay where
  "ex_relay = \<lparr>ry_db = ex_db, ry_up = True, ry_socks = [], ry_limits = ex_limiters, ry_location = LOCATION_UPDATE_LIMIT,
     ry_sharers = (\<lambda>_. []), ry_redis = True, ry_online = (\<lambda>_. []), ry_cmds = [], ry_sent = []\<rparr>"

definition ex_coord :: live_coord where
  "ex_coord = \<lparr>lc_lat = 1, lc_lng = 2, lc_accuracy = None, lc_heading = None, lc_speed = None, lc_battery = None,
     lc_lowPower = None, lc_expiresAt = None, lc_capturedAt = ''x''\<rparr>"

definition ex_hear :: "relay_input \<Rightarrow> relay \<Rightarrow> relay" where
  "ex_hear a r = handle_input ex_env (\<lambda>_. True) a (r\<lparr>ry_db := ex_db\<rparr>)"

definition ex_joined :: relay where
  "ex_joined = ex_hear (JoinCrew ''s'' ''c'') (ex_hear (JoinFestival ''s'' ''f'' None)
     (ex_hear (Connect ''t'' None) (ex_hear (Connect ''s'' None) ex_relay)))"

definition ex_share :: relay_input where
  "ex_share = Share ''s'' ''c'' (Some ex_coord) None"

lemma ex_run: "(relay_step (\<lambda>_. ex_db) (\<lambda>_. True))\<^sup>*\<^sup>* (100000, ex_relay) (100000, ex_joined)"
proof -
  have hear: "(relay_step (\<lambda>_. ex_db) (\<lambda>_. True))\<^sup>*\<^sup>* q (100000, ex_hear a r)"
    if "(relay_step (\<lambda>_. ex_db) (\<lambda>_. True))\<^sup>*\<^sup>* q (100000, r)" "steady ex_env a r" for a q r
  proof -
    have "relay_step (\<lambda>_. ex_db) (\<lambda>_. True) (100000, r) (100000, ex_hear a r)"
      using Hear [of 100000 ex_env a r "\<lambda>_. ex_db" "\<lambda>_. True"] that(2) by (simp add: ex_env_def ex_hear_def)
    with that(1) show ?thesis by (rule rtranclp.rtrancl_into_rtrancl)
  qed
  have "steady ex_env (JoinFestival ''s'' ''f'' None) (ex_hear (Connect ''t'' None) (ex_hear (Connect ''s'' None) ex_relay))"
    by (simp add: ex_hear_def ex_relay_def sock_of_def lookup_key_def new_sock_def)
  then show ?thesis unfolding ex_joined_def
    by (intro hear rtranclp.rtrancl_refl) simp_all
qed


lemma share_respects_cap_witness:
  "\<exists>u. getMember ''c'' u (ry_db ex_joined) \<noteq> None
    \<and> length (live_sharers 100000 u (snd (location_share ex_env (\<lambda>_. True) ''s'' ''c'' None None ex_joined))) \<le> 3"
proof -
  have "fst (location_share ex_env (\<lambda>_. True) ''s'' ''c'' None None ex_joined) = Accepted" by code_simp
  moreover have "ry_redis ex_joined" by code_simp
  ultimately show ?thesis
    using share_respects_cap [of ex_env "\<lambda>_. True" "''s''" "''c''" None None ex_joined]
    by (auto simp: ex_env_def MAX_CONCURRENT_SHARING_SOCKETS_def)
qed

end
