(* ===== verification/Live_Flow.thy ===== *)
theory Live_Flow
  imports Live_Props Relay_Props
begin

text \<open>
  The live position end to end: from the publisher through the relay to the stores of the other
  members, and what a reconnect does to a share.
\<close>

lemma update_relayed:
  assumes "sock_of i r = Some s" and "sk_sharing s = Some c" and "sk_userId s = Some u" and "ry_up r" and "ev_live e"
    and "locationUpdateSchema isDt c p" and "ev_redis_limit e = Verdict False left reset" and "getMember c u (ry_db r) \<noteq> None"
  shows "ry_sent (location_update e isDt i c p r) = ry_sent r @ [(others_in i c r, PeerUpdate (peer_payload e c u (uname s) p))]"
proof -
  have allow: "\<exists>x y. consumeAsync (ev_redis_limit e) (ev_now e) u (ry_location r) = ((True, x, y), ry_location r)"
    by (simp add: consumeAsync_def assms(7))
  have sent: "ry_sent (publish i c q (upd_sock i f r)) = ry_sent r @ [(others_in i c r, PeerUpdate q)]"
    if "\<And>s. sk_id (f s) = sk_id s" "\<And>s. sk_rooms (f s) = sk_rooms s" for f q
    using others_in_upd [where f = f, OF that, of i c i r] by (simp add: publish_def to_others_def issue_def others_in_def) (simp add: upd_sock_def)
  show ?thesis
    using allow assms by (auto simp: location_update_def Let_def upd_comp sent)
qed


text \<open>After a reconnect the socket is new.  The publisher shares again at once, while \<open>join:crew\<close> still waits for its
  lookups: the share is refused, and the refusal ends the session the re-announcement was to save.\<close>

lemma reconnect_ends_share:
  assumes "\<not> pb_stopped b" and "ev_live e" and "locationShareSchema isDt (pb_crewId b) None (Some (pb_expiresAt b))"
    and "sock_of i r = None" and r': "r' = handle_input e isDt (Connect i token) r"
  shows "pb_emits (on_reconnect b) = pb_emits b @ [EmitShare (pb_crewId b) (pb_expiresAt b)]"
    and "location_share e isDt i (pb_crewId b) None (Some (pb_expiresAt b)) r' = (Declined ''NOT_IN_CREW_ROOM'', r')"
    and "pb_stopped (handleShareAck False (Some ''NOT_IN_CREW_ROOM'') (on_reconnect b))"
proof -
  show "pb_emits (on_reconnect b) = pb_emits b @ [EmitShare (pb_crewId b) (pb_expiresAt b)]"
    using assms(1) by (simp add: on_reconnect_def emit_pub_def)
  have "sock_of i r' = Some (new_sock i token)"
  proof -
    have "find P xs = None \<Longrightarrow> P y \<Longrightarrow> find P (xs @ [y]) = Some y" for P :: "sock \<Rightarrow> bool" and xs y
      by (induction xs) auto
    from this [of "\<lambda>x. sk_id x = i" "ry_socks r" "new_sock i token"] assms(4) show ?thesis
      by (simp add: r' sock_of_def lookup_key_def new_sock_def)
  qed
  then show "location_share e isDt i (pb_crewId b) None (Some (pb_expiresAt b)) r' = (Declined ''NOT_IN_CREW_ROOM'', r')"
    using assms(2,3) by (simp add: location_share_def new_sock_def)
  show "pb_stopped (handleShareAck False (Some ''NOT_IN_CREW_ROOM'') (on_reconnect b))"
    using assms(1) by (simp add: handleShareAck_def teardownLocal_def on_reconnect_def emit_pub_def)
qed

subsection \<open>A concrete fix\<close>

definition ex_viewer :: hook where
  "ex_viewer = ex_hook\<lparr>hk_stores := \<lparr>sn_crew = crew_initial\<lparr>activeCrew := Some (ex_member_crew\<lparr>cc_id := ''c''\<rparr>)\<rparr>,
     sn_live = live_empty, sn_loads = []\<rparr>\<rparr>"

definition ex_fix :: geo_fix where
  "ex_fix = \<lparr>gf_lat = 1, gf_lng = 2, gf_accuracy = None, gf_heading = None, gf_speed = None, gf_battery = None, gf_lowPower = None,
     gf_capturedAt = None\<rparr>"

definition ex_session :: publisher where
  "ex_session = begin_session (\<lambda>_. ''till'') 0 None ''c'' live_empty"


end
