(* ===== verification/Sos_Routes.thy ===== *)
theory Sos_Routes
  imports Live_Flow
begin

text \<open>
  The SOS routes (\<open>routes/crew-sos.ts\<close>) with the flag of an active SOS
  (\<open>lib/rate-limiting.ts\<close>): raising and clearing, the activity row, the broadcast to the crew's
  room and the push to the other members; and what an SOS looks like on the members' clients.

  The session and the coarse limiter run before the handlers.  Whether the activity row is written
  (and its id) is given to each request; the fan-out runs after the answer.
\<close>

record sos_srv =
  ss_db :: crew_db
  ss_up :: bool
  ss_enabled :: bool
  ss_throttle :: event_limiter
  ss_redis :: bool
  ss_active :: "string \<Rightarrow> int option"
  ss_rows :: "(string \<times> string \<times> string \<times> string \<times> string option) list"
  ss_news :: "(string \<times> crew_news) list"
  ss_pushes :: "(string \<times> string \<times> string \<times> (string \<times> string) list) list"

record sos_body =
  sb_message :: "string option"
  sb_position :: "sos_position option"

record sos_call =
  sc_now :: int
  sc_fmt :: "int \<Rightarrow> string"
  sc_userId :: string
  sc_username :: string
  sc_row :: "string option"
  sc_members_ok :: bool

subsection \<open>The flag\<close>

definition SOS_ACTIVE_TTL_MS :: int where
  "SOS_ACTIVE_TTL_MS = 60 * 60 * 1000"

definition markSosActive :: "int \<Rightarrow> string \<Rightarrow> sos_srv \<Rightarrow> sos_srv" where
  "markSosActive now crewId s =
     (if \<not> ss_redis s \<or> crewId = [] then s else s\<lparr>ss_active := (ss_active s)(crewId \<mapsto> now + SOS_ACTIVE_TTL_MS)\<rparr>)"

text \<open>\<open>None\<close>: nobody knows; otherwise whether the key was there, which it no longer is.\<close>

definition clearSosActive :: "int \<Rightarrow> string \<Rightarrow> sos_srv \<Rightarrow> bool option \<times> sos_srv" where
  "clearSosActive now crewId s =
     (if \<not> ss_redis s \<or> crewId = [] then (None, s)
      else (Some (case ss_active s crewId of Some t \<Rightarrow> now < t | None \<Rightarrow> False), s\<lparr>ss_active := (ss_active s)(crewId := None)\<rparr>))"

subsection \<open>Raising\<close>

definition coarse :: "rat \<Rightarrow> rat" where
  "coarse n = of_int (js_round (n * 10000)) / 10000"

text \<open>A number of at most four decimals, as in a template literal.\<close>

definition show_coarse :: "rat \<Rightarrow> string" where
  "show_coarse x =
     (let k = js_round (x * 10000); m = nat \<bar>k\<bar>; frac = show_nat (10000 + m mod 10000)
      in (if k < 0 then ''-'' else []) @ show_nat (m div 10000)
         @ (if m mod 10000 = 0 then [] else ''.'' @ rev (dropWhile (\<lambda>d. d = CHR ''0'') (rev (drop 1 frac)))))"

definition sosRaiseSchema :: "(string \<Rightarrow> bool) \<Rightarrow> sos_body \<Rightarrow> sos_body option" where
  "sosRaiseSchema isDatetime b =
     (let m = map_option js_trim (sb_message b)
      in if (case m of Some t \<Rightarrow> length t \<le> 280 | None \<Rightarrow> True)
            \<and> (case sb_position b of
                 Some p \<Rightarrow> -90 \<le> sp_lat p \<and> sp_lat p \<le> 90 \<and> -180 \<le> sp_lng p \<and> sp_lng p \<le> 180
                   \<and> (case sp_accuracy p of Some a \<Rightarrow> 0 \<le> a \<and> a \<le> 100000 | None \<Rightarrow> True) \<and> isDatetime (sp_capturedAt p)
               | None \<Rightarrow> True)
         then Some (b\<lparr>sb_message := m\<rparr>) else None)"

definition or_undefined :: "string \<Rightarrow> string option" where
  "or_undefined t = (if t = [] then None else Some t)"

definition sos_message :: "sos_body \<Rightarrow> string option" where
  "sos_message b = (case sb_message b of Some m \<Rightarrow> or_undefined (sanitizeString 280 m) | None \<Rightarrow> None)"

definition coarse_position :: "sos_position \<Rightarrow> sos_position" where
  "coarse_position p = p\<lparr>sp_lat := coarse (sp_lat p), sp_lng := coarse (sp_lng p)\<rparr>"

definition sos_detail :: "string option \<Rightarrow> sos_position option \<Rightarrow> string option" where
  "sos_detail message position =
     (let note = (case message of Some m \<Rightarrow> [take 280 m] | None \<Rightarrow> []);
          place = (case position of Some p \<Rightarrow> [''@'' @ show_coarse (sp_lat p) @ '','' @ show_coarse (sp_lng p)] | None \<Rightarrow> [])
      in or_undefined (case note @ place of [] \<Rightarrow> [] | [a] \<Rightarrow> a | a # b # _ \<Rightarrow> a @ '' '' @ b))"

definition log_activity :: "sos_call \<Rightarrow> string \<Rightarrow> string \<Rightarrow> string option \<Rightarrow> sos_srv \<Rightarrow> string option \<times> sos_srv" where
  "log_activity q crewId kind detail s =
     (case sc_row q of
        None \<Rightarrow> (None, s)
      | Some i \<Rightarrow> (Some i, s\<lparr>ss_rows := ss_rows s @ [(i, crewId, sc_userId q, kind, detail)]\<rparr>))"

definition sos_emit :: "string \<Rightarrow> crew_news \<Rightarrow> sos_srv \<Rightarrow> sos_srv" where
  "sos_emit crewId ev s = s\<lparr>ss_news := ss_news s @ [(''crew:'' @ crewId, ev)]\<rparr>"

definition fanoutSosPush :: "sos_call \<Rightarrow> string \<Rightarrow> string option \<Rightarrow> sos_position option \<Rightarrow> sos_srv \<Rightarrow> sos_srv" where
  "fanoutSosPush q crewId message position s =
     (if \<not> sc_members_ok q then s
      else let recipients = filter (\<lambda>u. u \<noteq> [] \<and> u \<noteq> sc_userId q) (map (\<lambda>(m, u). cm_userId m) (getMembers crewId (ss_db s)));
               data = [(''crewId'', crewId), (''userId'', sc_userId q), (''deepLink'', ''rave://crew/'' @ crewId @ ''/sos'')]
                 @ (case position of Some p \<Rightarrow> [(''lat'', show_coarse (sp_lat p)), (''lng'', show_coarse (sp_lng p))] | None \<Rightarrow> []);
               body = (case message of Some m \<Rightarrow> m | None \<Rightarrow> ''Tap to see their location'')
           in s\<lparr>ss_pushes := ss_pushes s @ map (\<lambda>u. (u, sc_username q @ '' raised an SOS'', body, data)) recipients\<rparr>)"

definition activity_news :: "string \<Rightarrow> string option \<Rightarrow> sos_srv \<Rightarrow> sos_srv" where
  "activity_news crewId row s = (case row of Some _ \<Rightarrow> sos_emit crewId (ActivityNews (Some crewId)) s | None \<Rightarrow> s)"

definition named :: "sos_call \<Rightarrow> sos_call" where
  "named q = q\<lparr>sc_username := (if sc_username q = [] then ''A crew member'' else sc_username q)\<rparr>"

definition raise_sos :: "sos_call \<Rightarrow> string \<Rightarrow> sos_body \<Rightarrow> sos_srv \<Rightarrow> (string option \<times> string) http \<times> sos_srv" where
  "raise_sos q0 crewParam b s =
     (let q = named q0
      in if \<not> ss_enabled s then (Inl (503, ''SOS is currently unavailable'', SERVICE_UNAVAILABLE), s)
         else if \<not> ss_up s then (Inl (500, ''Failed to raise SOS'', INTERNAL_ERROR), s)
         else case Option.bind (sanitizeIdentifier crewParam) (\<lambda>c. map_option (\<lambda>m. c) (getMember c (sc_userId q) (ss_db s))) of
           None \<Rightarrow> (Inl (403, ''Not a crew member'', FORBIDDEN), s)
         | Some crewId \<Rightarrow>
             (case consume (sc_now q) (sc_userId q) (ss_throttle s) of
                ((allowed, _, _), l) \<Rightarrow>
                  let s1 = s\<lparr>ss_throttle := l\<rparr>
                  in if \<not> allowed then (Inl (429, ''SOS already raised '' @ em_dash @ '' wait before raising again'', RATE_LIMITED), s1)
                     else let message = sos_message b; position = map_option coarse_position (sb_position b)
                          in (case log_activity q crewId ''sos_raised'' (sos_detail message position) s1 of
                                (row, s2) \<Rightarrow>
                                  let raisedAt = sc_fmt q (sc_now q);
                                      e = \<lparr>se_crewId = crewId, se_userId = sc_userId q, se_username = sc_username q, se_message = message,
                                           se_position = position, se_activityId = Some (case row of Some i \<Rightarrow> i | None \<Rightarrow> []),
                                           se_raisedAt = raisedAt\<rparr>
                                  in (Inr (200, row, raisedAt),
                                      fanoutSosPush q crewId message position
                                        (activity_news crewId row (sos_emit crewId (SosNews e) (markSosActive (sc_now q) crewId s2)))))))"

subsection \<open>Clearing\<close>

definition clear_sos :: "sos_call \<Rightarrow> string \<Rightarrow> sos_srv \<Rightarrow> (string option \<times> string) http \<times> sos_srv" where
  "clear_sos q0 crewParam s =
     (let q = named q0
      in if \<not> ss_up s then (Inl (500, ''Failed to clear SOS'', INTERNAL_ERROR), s)
         else case Option.bind (sanitizeIdentifier crewParam) (\<lambda>c. map_option (\<lambda>m. c) (getMember c (sc_userId q) (ss_db s))) of
           None \<Rightarrow> (Inl (403, ''Not a crew member'', FORBIDDEN), s)
         | Some crewId \<Rightarrow>
             (case clearSosActive (sc_now q) crewId s of
                (was, s1) \<Rightarrow>
                  if was = Some False then (Inl (409, ''No active SOS to clear'', ALREADY_EXISTS), s1)
                  else (case log_activity q crewId ''sos_cleared'' None s1 of
                          (row, s2) \<Rightarrow>
                            (Inr (200, row, sc_fmt q (sc_now q)),
                             activity_news crewId row (sos_emit crewId (SosGone (Some crewId) (sc_userId q) (sc_username q)) s2)))))"

subsection \<open>What a raise does\<close>

definition sos_crew :: "string \<Rightarrow> string \<Rightarrow> sos_srv \<Rightarrow> string option" where
  "sos_crew crewParam u s = Option.bind (sanitizeIdentifier crewParam) (\<lambda>c. map_option (\<lambda>m. c) (getMember c u (ss_db s)))"

definition raised_entry :: "sos_call \<Rightarrow> string \<Rightarrow> sos_body \<Rightarrow> sos_entry" where
  "raised_entry q c b = \<lparr>se_crewId = c, se_userId = sc_userId q, se_username = sc_username (named q), se_message = sos_message b,
     se_position = map_option coarse_position (sb_position b), se_activityId = Some (case sc_row q of Some i \<Rightarrow> i | None \<Rightarrow> []),
     se_raisedAt = sc_fmt q (sc_now q)\<rparr>"

definition new_rows :: "sos_call \<Rightarrow> string \<Rightarrow> string \<Rightarrow> string option \<Rightarrow> (string \<times> string \<times> string \<times> string \<times> string option) list" where
  "new_rows q c kind detail = (case sc_row q of None \<Rightarrow> [] | Some i \<Rightarrow> [(i, c, sc_userId q, kind, detail)])"

definition feed_news :: "sos_call \<Rightarrow> string \<Rightarrow> (string \<times> crew_news) list" where
  "feed_news q c = (case sc_row q of None \<Rightarrow> [] | Some i \<Rightarrow> [(''crew:'' @ c, ActivityNews (Some c))])"

lemma named_simps [simp]: "sc_now (named q) = sc_now q" "sc_fmt (named q) = sc_fmt q" "sc_userId (named q) = sc_userId q"
  "sc_row (named q) = sc_row q" "sc_members_ok (named q) = sc_members_ok q"
  by (simp_all add: named_def)

lemma fanout_simps [simp]:
  "ss_db (fanoutSosPush q c m p s) = ss_db s" "ss_up (fanoutSosPush q c m p s) = ss_up s" "ss_redis (fanoutSosPush q c m p s) = ss_redis s"
  "ss_active (fanoutSosPush q c m p s) = ss_active s" "ss_rows (fanoutSosPush q c m p s) = ss_rows s"
  "ss_news (fanoutSosPush q c m p s) = ss_news s" "ss_throttle (fanoutSosPush q c m p s) = ss_throttle s"
  by (simp_all add: fanoutSosPush_def Let_def)

lemma mark_simps [simp]:
  "ss_db (markSosActive t c s) = ss_db s" "ss_up (markSosActive t c s) = ss_up s" "ss_redis (markSosActive t c s) = ss_redis s"
  "ss_rows (markSosActive t c s) = ss_rows s" "ss_news (markSosActive t c s) = ss_news s" "ss_pushes (markSosActive t c s) = ss_pushes s"
  "ss_throttle (markSosActive t c s) = ss_throttle s"
  by (simp_all add: markSosActive_def)

text \<open>A raise that passes the throttle: its answer and every effect.\<close>

lemma raise_effects:
  assumes "ss_enabled s" and "ss_up s" and "sos_crew crewParam (sc_userId q) s = Some c"
    and "consume (sc_now q) (sc_userId q) (ss_throttle s) = ((True, n, w), l)"
  shows "fst (raise_sos q crewParam b s) = Inr (200, sc_row q, sc_fmt q (sc_now q))"
    and "ss_news (snd (raise_sos q crewParam b s)) = ss_news s @ (''crew:'' @ c, SosNews (raised_entry q c b)) # feed_news q c"
    and "ss_rows (snd (raise_sos q crewParam b s))
      = ss_rows s @ new_rows q c ''sos_raised'' (sos_detail (sos_message b) (map_option coarse_position (sb_position b)))"
    and "ss_active (snd (raise_sos q crewParam b s)) = ss_active (markSosActive (sc_now q) c s)"
    and "ss_redis (snd (raise_sos q crewParam b s)) = ss_redis s" and "ss_db (snd (raise_sos q crewParam b s)) = ss_db s"
    and "ss_up (snd (raise_sos q crewParam b s)) = ss_up s"
  using assms
  by (simp_all add: raise_sos_def sos_crew_def Let_def log_activity_def activity_news_def sos_emit_def raised_entry_def feed_news_def
      new_rows_def markSosActive_def split: option.split)

text \<open>What a client with the crew open makes of the two broadcasts.\<close>

definition shown_sos :: "hook \<Rightarrow> sos_entry list" where
  "shown_sos h = lv_activeSosList (sn_live (hk_stores h))"

definition viewing :: "string \<Rightarrow> hook \<Rightarrow> bool" where
  "viewing c h \<longleftrightarrow> hk_mounted h \<and> c \<noteq> [] \<and> getActiveCrewId (hk_stores h) = Some c
     \<and> (lv_crewId (sn_live (hk_stores h)) = None \<or> lv_crewId (sn_live (hk_stores h)) = Some c)"

lemma viewing_land:
  assumes "viewing c h"
  shows "hook_event parse t (SosNews e) h = (if se_crewId e = c then land parse (SosRaised c e) h else h)"
    and "hook_event parse t (SosGone (Some c) u n) h = land parse (SosCleared c u n) h"
proof -
  have h: "hk_mounted h" "c \<noteq> []" "getActiveCrewId (hk_stores h) = Some c" using assms by (simp_all add: viewing_def)
  show "hook_event parse t (SosNews e) h = (if se_crewId e = c then land parse (SosRaised c e) h else h)"
    using h by (simp add: hook_event_def routeSosRaised_def matchesActiveCrew_def dispatch_def)
  show "hook_event parse t (SosGone (Some c) u n) h = land parse (SosCleared c u n) h"
    using h by (simp add: hook_event_def routeSosCleared_def matchesActiveCrew_def dispatch_def)
qed

lemma land_sos [simp]:
  "sn_live (hk_stores (land parse (SosRaised c e) h)) = applySos parse e (sn_live (hk_stores h))"
  "sn_live (hk_stores (land parse (SosCleared c u n) h)) = clearSos parse (Some u) (sn_live (hk_stores h))"
  "sn_crew (hk_stores (land parse (SosRaised c e) h)) = sn_crew (hk_stores h)"
  "hk_mounted (land parse (SosRaised c e) h) = hk_mounted h"
  by (simp_all add: land_def on_live_def)

lemma viewing_sos:
  assumes "viewing c h"
  shows "sn_live (hk_stores (hook_event parse t (SosNews e) h)) = (if se_crewId e = c then applySos parse e (sn_live (hk_stores h)) else sn_live (hk_stores h))"
    and "sn_live (hk_stores (hook_event parse t (SosGone (Some c) u n) h)) = clearSos parse (Some u) (sn_live (hk_stores h))"
    and "viewing c (hook_event parse t (SosNews e) h)"
proof -
  show "sn_live (hk_stores (hook_event parse t (SosNews e) h)) = (if se_crewId e = c then applySos parse e (sn_live (hk_stores h)) else sn_live (hk_stores h))"
    by (simp add: viewing_land [OF assms])
  show "sn_live (hk_stores (hook_event parse t (SosGone (Some c) u n) h)) = clearSos parse (Some u) (sn_live (hk_stores h))"
    by (simp add: viewing_land [OF assms])
  have "lv_crewId (applySos parse e l) = lv_crewId l" for l by (simp add: applySos_def)
  then show "viewing c (hook_event parse t (SosNews e) h)"
    using assms unfolding viewing_land(1) [OF assms] by (simp add: viewing_def getActiveCrewId_def)
qed

lemma applied_sos_shown:
  assumes "lv_crewId l = None \<or> lv_crewId l = Some (se_crewId e)"
  shows "e \<in> set (lv_activeSosList (applySos parse e l))"
    and "lv_sosByUser (applySos parse e l) = AList.update (se_userId e) e (lv_sosByUser l)"
proof -
  have "(k, v) \<in> set (AList.update k v m)" for k :: string and v :: sos_entry and m by (induction m) auto
  then show "e \<in> set (lv_activeSosList (applySos parse e l))"
    using assms by (auto simp: applySos_def other_crew_def deriveSos_def Let_def image_iff intro!: bexI [of _ "(se_userId e, e)"])
  show "lv_sosByUser (applySos parse e l) = AList.update (se_userId e) e (lv_sosByUser l)"
    using assms by (auto simp: applySos_def other_crew_def)
qed

lemma cleared_sos: "set (lv_activeSosList (clearSos parse (Some u) l)) =
    (if u \<in> fst ` set (lv_sosByUser l) then snd ` set (filter (\<lambda>e. fst e \<noteq> u) (lv_sosByUser l)) else set (lv_activeSosList l))"
  by (simp add: clearSos_def deriveSos_def Let_def del: set_filter)

text \<open>C18. An SOS always goes out.  When a member raises one within the throttle, the answer is success and the crew's room
  is told of it before anything else, whether or not the activity row is written, Redis is up or the push fan-out finds
  the members; and every client that has the crew open shows it.\<close>

theorem sos_always_goes_out:
  assumes "ss_enabled s" and "ss_up s" and "sos_crew crewParam (sc_userId q) s = Some c"
    and "fst (fst (consume (sc_now q) (sc_userId q) (ss_throttle s)))" and "viewing c h"
  shows "fst (raise_sos q crewParam b s) = Inr (200, sc_row q, sc_fmt q (sc_now q))
    \<and> (\<exists>e feed. ss_news (snd (raise_sos q crewParam b s)) = ss_news s @ (''crew:'' @ c, SosNews e) # feed
        \<and> se_userId e = sc_userId q \<and> se_crewId e = c \<and> e \<in> set (shown_sos (hook_event parse t (SosNews e) h)))"
proof -
  obtain n w l where lim: "consume (sc_now q) (sc_userId q) (ss_throttle s) = ((True, n, w), l)"
    using assms(4) by (metis (full_types) prod.collapse)
  have e: "se_userId (raised_entry q c b) = sc_userId q" "se_crewId (raised_entry q c b) = c" by (simp_all add: raised_entry_def)
  have "raised_entry q c b \<in> set (shown_sos (hook_event parse t (SosNews (raised_entry q c b)) h))"
    using assms(5) e applied_sos_shown(1) [of "sn_live (hk_stores h)" "raised_entry q c b" parse]
    unfolding shown_sos_def viewing_sos(1) [OF assms(5)] by (simp add: viewing_def)
  with raise_effects(1,2) [OF assms(1-3) lim, of b] e show ?thesis by blast
qed

subsection \<open>Clearing\<close>

lemma clear_effects:
  assumes "ss_up s" and "sos_crew crewParam (sc_userId q) s = Some c" and "fst (clearSosActive (sc_now q) c s) \<noteq> Some False"
  shows "fst (clear_sos q crewParam s) = Inr (200, sc_row q, sc_fmt q (sc_now q))"
    and "ss_news (snd (clear_sos q crewParam s)) = ss_news s @ (''crew:'' @ c, SosGone (Some c) (sc_userId q) (sc_username (named q))) # feed_news q c"
    and "ss_rows (snd (clear_sos q crewParam s)) = ss_rows s @ new_rows q c ''sos_cleared'' None"
    and "ss_active (snd (clear_sos q crewParam s)) = (if ss_redis s \<and> c \<noteq> [] then (ss_active s)(c := None) else ss_active s)"
    and "ss_redis (snd (clear_sos q crewParam s)) = ss_redis s" and "ss_db (snd (clear_sos q crewParam s)) = ss_db s"
    and "ss_up (snd (clear_sos q crewParam s)) = ss_up s" and "ss_pushes (snd (clear_sos q crewParam s)) = ss_pushes s"
proof -
  obtain was s1 where eq: "clearSosActive (sc_now q) c s = (was, s1)" by fastforce
  then have s1: "ss_news s1 = ss_news s" "ss_rows s1 = ss_rows s" "ss_redis s1 = ss_redis s" "ss_db s1 = ss_db s" "ss_up s1 = ss_up s"
      "ss_pushes s1 = ss_pushes s" "ss_active s1 = (if ss_redis s \<and> c \<noteq> [] then (ss_active s)(c := None) else ss_active s)"
    by (auto simp: clearSosActive_def split: if_splits)
  have "was \<noteq> Some False" using assms(3) by (simp add: eq)
  note facts = assms(1) assms(2) [unfolded sos_crew_def] eq this s1
  show "fst (clear_sos q crewParam s) = Inr (200, sc_row q, sc_fmt q (sc_now q))"
    and "ss_news (snd (clear_sos q crewParam s)) = ss_news s @ (''crew:'' @ c, SosGone (Some c) (sc_userId q) (sc_username (named q))) # feed_news q c"
    and "ss_rows (snd (clear_sos q crewParam s)) = ss_rows s @ new_rows q c ''sos_cleared'' None"
    and "ss_active (snd (clear_sos q crewParam s)) = (if ss_redis s \<and> c \<noteq> [] then (ss_active s)(c := None) else ss_active s)"
    and "ss_redis (snd (clear_sos q crewParam s)) = ss_redis s" and "ss_db (snd (clear_sos q crewParam s)) = ss_db s"
    and "ss_up (snd (clear_sos q crewParam s)) = ss_up s" and "ss_pushes (snd (clear_sos q crewParam s)) = ss_pushes s"
    by (simp_all add: facts clear_sos_def Let_def log_activity_def activity_news_def sos_emit_def feed_news_def new_rows_def split: option.split)
qed

lemma clear_refused:
  assumes "ss_up s" and "sos_crew crewParam (sc_userId q) s = Some c" and "fst (clearSosActive (sc_now q) c s) = Some False"
  shows "fst (clear_sos q crewParam s) = Inl (409, ''No active SOS to clear'', ALREADY_EXISTS)" and "ss_news (snd (clear_sos q crewParam s)) = ss_news s"
proof -
  obtain s1 where eq: "clearSosActive (sc_now q) c s = (Some False, s1)" using assms(3) by (cases "clearSosActive (sc_now q) c s") simp
  then have "ss_news s1 = ss_news s" by (auto simp: clearSosActive_def split: if_splits)
  then show "fst (clear_sos q crewParam s) = Inl (409, ''No active SOS to clear'', ALREADY_EXISTS)" and "ss_news (snd (clear_sos q crewParam s)) = ss_news s"
    using assms(1) assms(2) [unfolded sos_crew_def] eq by (simp_all add: clear_sos_def)
qed

lemma sos_crew_ident: "sos_crew crewParam u s = Some c \<Longrightarrow> c \<noteq> []"
  by (auto simp: sos_crew_def sanitizeIdentifier_def Let_def bind_eq_Some_conv split: if_splits)

text \<open>The raiser can call it off.  A member raises an SOS within the throttle and clears it less than an hour later.
  The clear succeeds, Redis or not, and a client that has the crew open and hears both broadcasts shows no SOS of the
  raiser any more, and still every SOS of the others it showed before.\<close>

theorem raiser_calls_off:
  assumes up: "ss_enabled s" "ss_up s" "sos_crew crewParam (sc_userId q) s = Some c"
      "fst (fst (consume (sc_now q) (sc_userId q) (ss_throttle s)))"
    and later: "sc_userId q' = sc_userId q" "sc_now q' < sc_now q + SOS_ACTIVE_TTL_MS"
    and client: "viewing c h" "views_ok parse (sn_live (hk_stores h))"
    and news: "ss_news (snd (raise_sos q crewParam b s)) = ss_news s @ (room, SosNews e) # feed"
      "ss_news (snd (clear_sos q' crewParam (snd (raise_sos q crewParam b s)))) = ss_news (snd (raise_sos q crewParam b s)) @ (room', SosGone cr u n) # feed'"
  shows "(\<exists>row. fst (clear_sos q' crewParam (snd (raise_sos q crewParam b s))) = Inr (200, row))
    \<and> set (shown_sos (hook_event parse t' (SosGone cr u n) (hook_event parse t (SosNews e) h)))
      = {x \<in> set (shown_sos h). se_userId x \<noteq> sc_userId q}"
proof -
  let ?s = "snd (raise_sos q crewParam b s)" and ?h = "hook_event parse t (SosNews e) h"
  obtain k w l where lim: "consume (sc_now q) (sc_userId q) (ss_throttle s) = ((True, k, w), l)"
    using up(4) by (metis (full_types) prod.collapse)
  note raised = raise_effects [OF up(1-3) lim, of b]
  have e: "e = raised_entry q c b" "room = ''crew:'' @ c" using news(1) raised(2) by auto
  have c: "c \<noteq> []" by (rule sos_crew_ident [OF up(3)])
  have member: "sos_crew crewParam (sc_userId q') ?s = Some c" using up(3) later(1) by (simp add: sos_crew_def raised(6))
  have active: "fst (clearSosActive (sc_now q') c ?s) \<noteq> Some False"
    using later(2) c by (auto simp: clearSosActive_def raised(4,5) markSosActive_def)
  have "ss_up ?s" using up(2) raised(7) by simp
  note cleared = clear_effects [OF this member active]
  from cleared(2) news(2) have gone: "cr = Some c" "u = sc_userId q" using later(1) by auto
  have live: "sn_live (hk_stores ?h) = applySos parse e (sn_live (hk_stores h))"
    unfolding viewing_sos(1) [OF client(1)] by (simp add: e raised_entry_def)
  have view: "lv_crewId (sn_live (hk_stores h)) = None \<or> lv_crewId (sn_live (hk_stores h)) = Some (se_crewId e)"
    using client(1) by (auto simp: viewing_def e raised_entry_def)
  let ?m = "lv_sosByUser (sn_live (hk_stores h))"
  have user: "se_userId e = sc_userId q" by (simp add: e raised_entry_def)
  have shown: "set (lv_activeSosList (sn_live (hk_stores h))) = snd ` set ?m" "keyed_by se_userId ?m"
    using client(2) by (simp_all add: views_ok_def)
  have upd: "filter (\<lambda>x. fst x \<noteq> k) (AList.update k e m) = filter (\<lambda>x. fst x \<noteq> k) m" for k and m :: "(string \<times> sos_entry) list"
    by (induction m) auto
  have "set (shown_sos (hook_event parse t' (SosGone cr u n) ?h)) = snd ` set (filter (\<lambda>x. fst x \<noteq> sc_userId q) ?m)"
    unfolding shown_sos_def gone viewing_sos(2) [OF viewing_sos(3) [OF client(1)]] live cleared_sos applied_sos_shown(2) [OF view] user upd
    by (simp add: dom_update del: set_filter)
  also have "\<dots> = {x \<in> set (shown_sos h). se_userId x \<noteq> sc_userId q}"
    unfolding shown_sos_def shown(1) using shown(2) by (force simp: keyed_by_def)
  finally show ?thesis using cleared(1) by auto
qed

text \<open>A clear by another member, which both clients offer and address with the raiser's id, clears nothing: the route ignores
  the body and broadcasts the id of the caller, so the raiser's SOS stays on every screen, and the next clear is refused.\<close>

lemma clear_by_other_clears_nothing:
  assumes "ss_up s" and "sos_crew crewParam (sc_userId q) s = Some c" and "fst (clearSosActive (sc_now q) c s) \<noteq> Some False"
    and "ss_redis s" and "viewing c h" and "sc_userId q \<notin> fst ` set (lv_sosByUser (sn_live (hk_stores h)))"
    and "sos_crew crewParam (sc_userId q') s = Some c"
  shows "shown_sos (hook_event parse t (SosGone (Some c) (sc_userId q) n) h) = shown_sos h"
    and "fst (clear_sos q' crewParam (snd (clear_sos q crewParam s))) = Inl (409, ''No active SOS to clear'', ALREADY_EXISTS)"
proof -
  show "shown_sos (hook_event parse t (SosGone (Some c) (sc_userId q) n) h) = shown_sos h"
    unfolding shown_sos_def viewing_sos(2) [OF assms(5)] using assms(6) by (simp add: clearSos_def)
  note cleared = clear_effects [OF assms(1-3)]
  have "c \<noteq> []" by (rule sos_crew_ident [OF assms(2)])
  then have "fst (clearSosActive (sc_now q') c (snd (clear_sos q crewParam s))) = Some False"
    using assms(4) by (simp add: clearSosActive_def cleared)
  then show "fst (clear_sos q' crewParam (snd (clear_sos q crewParam s))) = Inl (409, ''No active SOS to clear'', ALREADY_EXISTS)"
    using assms(1,7) by (intro clear_refused(1) [of _ _ _ c]) (simp_all add: cleared sos_crew_def)
qed

text \<open>An hour after the raise the flag is gone while the clients still show the SOS: nobody can clear it.\<close>

lemma old_sos_cannot_be_cleared:
  assumes "ss_up s" and "sos_crew crewParam (sc_userId q) s = Some c" and "ss_redis s"
    and "ss_active s c = Some till" and "till \<le> sc_now q"
  shows "fst (clear_sos q crewParam s) = Inl (409, ''No active SOS to clear'', ALREADY_EXISTS)"
    and "ss_news (snd (clear_sos q crewParam s)) = ss_news s"
proof -
  have "fst (clearSosActive (sc_now q) c s) = Some False"
    using assms sos_crew_ident [OF assms(2)] by (simp add: clearSosActive_def)
  then show "fst (clear_sos q crewParam s) = Inl (409, ''No active SOS to clear'', ALREADY_EXISTS)"
    and "ss_news (snd (clear_sos q crewParam s)) = ss_news s"
    using clear_refused [OF assms(1,2)] by blast+
qed

subsection \<open>Who learns of it\<close>

lemma emit_simps [simp]:
  "ss_db (sos_emit c ev s) = ss_db s" "ss_pushes (sos_emit c ev s) = ss_pushes s" "ss_db (activity_news c row s) = ss_db s"
  "ss_pushes (activity_news c row s) = ss_pushes s" "ss_db (snd (log_activity q c k d s)) = ss_db s"
  "ss_pushes (snd (log_activity q c k d s)) = ss_pushes s"
  by (simp_all add: sos_emit_def activity_news_def log_activity_def split: option.split)

lemma member_listed: "m \<in> set (cd_members d) \<Longrightarrow> cm_crewId m = c \<Longrightarrow> getMember c (cm_userId m) d \<noteq> None"
  by (auto simp: getMember_def find_None_iff)

lemma fanout_members:
  "\<exists>pu. ss_pushes (fanoutSosPush q c m p s) = ss_pushes s @ pu
     \<and> (\<forall>x \<in> set pu. fst x \<noteq> sc_userId q \<and> getMember c (fst x) (ss_db s) \<noteq> None)"
  using member_listed [where d = "ss_db s" and c = c]
  by (fastforce simp: fanoutSosPush_def Let_def getMembers_def join_users_def rows_of_def List.map_filter_def)

lemma raise_fans_out:
  assumes "ss_enabled s" and "ss_up s" and "sos_crew crewParam (sc_userId q) s = Some c"
    and "consume (sc_now q) (sc_userId q) (ss_throttle s) = ((True, n, w), l)"
  shows "\<exists>X. snd (raise_sos q crewParam b s) = fanoutSosPush (named q) c (sos_message b) (map_option coarse_position (sb_position b)) X
    \<and> ss_db X = ss_db s \<and> ss_pushes X = ss_pushes s"
proof -
  let ?log = "log_activity (named q) c ''sos_raised'' (sos_detail (sos_message b) (map_option coarse_position (sb_position b))) (s\<lparr>ss_throttle := l\<rparr>)"
  obtain row s2 where eq: "?log = (row, s2)" by fastforce
  have "ss_db (snd ?log) = ss_db s" "ss_pushes (snd ?log) = ss_pushes s" by simp_all
  then have "ss_db s2 = ss_db s" "ss_pushes s2 = ss_pushes s" by (simp_all only: eq snd_conv)
  then show ?thesis
    using assms(1,2,4) assms(3) [unfolded sos_crew_def] eq by (auto simp: raise_sos_def Let_def)
qed

text \<open>Nothing happened, or everything stayed with the caller's crew.\<close>

definition crew_only :: "sos_call \<Rightarrow> string \<Rightarrow> sos_srv \<Rightarrow> sos_srv \<Rightarrow> bool" where
  "crew_only q crewParam s s' \<longleftrightarrow> ss_news s' = ss_news s \<and> ss_rows s' = ss_rows s \<and> ss_pushes s' = ss_pushes s
     \<or> (\<exists>c n r pu. sos_crew crewParam (sc_userId q) s = Some c
          \<and> ss_news s' = ss_news s @ n \<and> (\<forall>x \<in> set n. fst x = ''crew:'' @ c)
          \<and> ss_rows s' = ss_rows s @ r \<and> (\<forall>x \<in> set r. fst (snd x) = c \<and> fst (snd (snd x)) = sc_userId q)
          \<and> ss_pushes s' = ss_pushes s @ pu \<and> (\<forall>x \<in> set pu. fst x \<noteq> sc_userId q \<and> getMember c (fst x) (ss_db s) \<noteq> None))"

lemma feed_stays: "\<forall>x \<in> set (feed_news q c). fst x = ''crew:'' @ c"
    "\<forall>x \<in> set (new_rows q c k d). fst (snd x) = c \<and> fst (snd (snd x)) = sc_userId q"
  by (auto simp: feed_news_def new_rows_def split: option.split)

lemma raise_stays: "crew_only q crewParam s (snd (raise_sos q crewParam b s))"
proof -
  obtain ok n w l where lim: "consume (sc_now q) (sc_userId q) (ss_throttle s) = ((ok, n, w), l)" by (metis surj_pair)
  show ?thesis
  proof (cases "ss_enabled s \<and> ss_up s \<and> sos_crew crewParam (sc_userId q) s \<noteq> None \<and> ok")
    case False
    then show ?thesis by (auto simp: crew_only_def raise_sos_def sos_crew_def Let_def lim split: option.split)
  next
    case True
    then obtain c where c: "ss_enabled s" "ss_up s" "sos_crew crewParam (sc_userId q) s = Some c"
      and lim': "consume (sc_now q) (sc_userId q) (ss_throttle s) = ((True, n, w), l)"
      using lim by auto
    let ?s' = "snd (raise_sos q crewParam b s)"
    obtain X where "?s' = fanoutSosPush (named q) c (sos_message b) (map_option coarse_position (sb_position b)) X" "ss_db X = ss_db s" "ss_pushes X = ss_pushes s"
      using raise_fans_out [OF c lim', of b] by blast
    with fanout_members [of "named q" c "sos_message b" "map_option coarse_position (sb_position b)" X]
    obtain pu where "ss_pushes ?s' = ss_pushes s @ pu" "\<forall>x \<in> set pu. fst x \<noteq> sc_userId q \<and> getMember c (fst x) (ss_db s) \<noteq> None" by auto
    with raise_effects(2,3) [OF c lim', of b] feed_stays [where c = c and q = q] c(3) show ?thesis
      unfolding crew_only_def by (intro disjI2 exI [of _ c]) auto
  qed
qed

lemma clear_stays: "crew_only q crewParam s (snd (clear_sos q crewParam s))"
proof (cases "ss_up s \<and> (\<exists>c. sos_crew crewParam (sc_userId q) s = Some c \<and> fst (clearSosActive (sc_now q) c s) \<noteq> Some False)")
  case True
  then obtain c where c: "ss_up s" "sos_crew crewParam (sc_userId q) s = Some c" "fst (clearSosActive (sc_now q) c s) \<noteq> Some False" by blast
  show ?thesis using clear_effects(2,3,8) [OF c] feed_stays [where c = c and q = q] c(2)
    unfolding crew_only_def by (intro disjI2 exI [of _ c]) auto
next
  case False
  have "ss_news s1 = ss_news s \<and> ss_rows s1 = ss_rows s \<and> ss_pushes s1 = ss_pushes s" if "clearSosActive (sc_now q) c s = (was, s1)" for c was s1
    using that by (auto simp: clearSosActive_def split: if_splits)
  with False show ?thesis by (auto simp: crew_only_def clear_sos_def sos_crew_def Let_def split: option.splits prod.splits)
qed


subsection \<open>A concrete SOS\<close>

definition ex_sos_srv :: sos_srv where
  "ex_sos_srv = \<lparr>ss_db = ex_db, ss_up = True, ss_enabled = True, ss_throttle = SOS_RAISE_LIMIT, ss_redis = True,
     ss_active = (\<lambda>_. None), ss_rows = [], ss_news = [], ss_pushes = []\<rparr>"

definition ex_call :: "int \<Rightarrow> sos_call" where
  "ex_call t = \<lparr>sc_now = t, sc_fmt = (\<lambda>_. ''T''), sc_userId = ''u'', sc_username = ''ann'', sc_row = None, sc_members_ok = False\<rparr>"

definition ex_body :: sos_body where
  "ex_body = \<lparr>sb_message = Some ''help'', sb_position = None\<rparr>"

lemma ex_viewing: "viewing ''c'' ex_viewer" "views_ok parse (sn_live (hk_stores ex_viewer))" "shown_sos ex_viewer = []"
  by (simp_all add: viewing_def ex_viewer_def ex_hook_def getActiveCrewId_def live_empty_def views_ok_def shown_sos_def)

lemma ex_raise: "ss_enabled ex_sos_srv" "ss_up ex_sos_srv" "sos_crew ''c'' (sc_userId (ex_call t)) ex_sos_srv = Some ''c''"
  "fst (fst (consume (sc_now (ex_call 5)) (sc_userId (ex_call t)) (ss_throttle ex_sos_srv)))"
  "ss_news (snd (raise_sos (ex_call 5) ''c'' ex_body ex_sos_srv)) = [(''crew:c'', SosNews (raised_entry (ex_call 5) ''c'' ex_body))]"
  "ss_news (snd (clear_sos (ex_call 9) ''c'' (snd (raise_sos (ex_call 5) ''c'' ex_body ex_sos_srv))))
     = [(''crew:c'', SosNews (raised_entry (ex_call 5) ''c'' ex_body)), (''crew:c'', SosGone (Some ''c'') ''u'' ''ann'')]"
  by code_simp+

lemma sos_always_goes_out_witness:
  "\<exists>e. e \<in> set (shown_sos (hook_event (\<lambda>_. None) 0 (SosNews e) ex_viewer)) \<and> se_userId e = ''u''"
  using sos_always_goes_out [OF ex_raise(1-3) _ ex_viewing(1), of 5 ex_body "\<lambda>_. None" 0] ex_raise(4) [of 5]
  by (auto simp: ex_call_def)

lemma raiser_calls_off_witness:
  "shown_sos (hook_event (\<lambda>_. None) 1 (SosGone (Some ''c'') ''u'' ''ann'')
     (hook_event (\<lambda>_. None) 0 (SosNews (raised_entry (ex_call 5) ''c'' ex_body)) ex_viewer)) = []"
proof -
  have "sc_userId (ex_call 9) = sc_userId (ex_call 5)" "sc_now (ex_call 9) < sc_now (ex_call 5) + SOS_ACTIVE_TTL_MS"
    by (simp_all add: ex_call_def SOS_ACTIVE_TTL_MS_def)
  from raiser_calls_off [OF ex_raise(1-3) ex_raise(4) this ex_viewing(1,2), where b = ex_body and feed = "[]" and feed' = "[]"
      and room = "''crew:c''" and room' = "''crew:c''" and e = "raised_entry (ex_call 5) ''c'' ex_body" and cr = "Some ''c''" and u = "''u''"
      and n = "''ann''" and t = 0 and t' = 1 and parse = "\<lambda>_. None"]
  show ?thesis by (simp add: ex_raise(5,6) ex_viewing(3) ex_sos_srv_def [THEN arg_cong, of ss_news])
qed

end
