(* ===== verification/Session_Store.thy ===== *)
theory Session_Store
  imports Prelude
begin

text \<open>
  Credentials at rest (\<open>lib/db/stores/sessions.ts\<close>, \<open>lib/db/stores/users.ts\<close>,
  \<open>lib/db/stores/email-tokens.ts\<close>): sessions and refresh tokens, keyed by the hash of the token
  the client holds; login failures; accounts; and the links sent by mail.  A table is a list of
  rows in insertion order and an operation is one query or one transaction.  A query that breaks
  a key (\<open>PRIMARY KEY\<close>, the foreign key to \<open>users\<close>) throws: the result is \<open>None\<close> and nothing
  is written.  Times are milliseconds since the epoch.
\<close>

record session_row =
  sn_token :: string
  sn_userId :: string
  sn_username :: string
  sn_createdAt :: int
  sn_lastAccess :: int

record refresh_row =
  rt_token :: string
  rt_userId :: string
  rt_sessionToken :: "string option"
  rt_expiresAt :: int
  rt_revoked :: bool
  rt_rotatedAt :: "int option"

record failure_row =
  lf_consecutiveFailures :: nat
  lf_lastFailureAt :: int
  lf_lockedUntil :: "int option"

record account =
  ac_id :: string
  ac_username :: string
  ac_passwordHash :: string
  ac_email :: "string option"
  ac_emailVerifiedAt :: "int option"
  ac_displayName :: "string option"
  ac_avatarKey :: "string option"
  ac_avatarVersion :: "string option"
  ac_venmoHandle :: "string option"
  ac_cashappCashtag :: "string option"
  ac_paypalHandle :: "string option"
  ac_createdAt :: int
  ac_deletedAt :: "int option"

record link_row =
  lk_userId :: string
  lk_hash :: string
  lk_email :: string
  lk_expiresAt :: int
  lk_usedAt :: "int option"

record auth_db =
  ad_users :: "account list"
  ad_sessions :: "session_row list"
  ad_refresh :: "refresh_row list"
  ad_failures :: "(string \<times> failure_row) list"
  ad_verify :: "link_row list"
  ad_reset :: "link_row list"

subsection \<open>Sessions\<close>

text \<open>\<open>ORDER BY last_access ASC, token ASC\<close>; the tokens are lower-case hexadecimal.\<close>

definition by_access :: "session_row \<Rightarrow> session_row \<Rightarrow> int" where
  "by_access a b =
     (if sn_lastAccess a < sn_lastAccess b then - 1 else if sn_lastAccess b < sn_lastAccess a then 1
      else if str_less (sn_token a) (sn_token b) then - 1
      else if str_less (sn_token b) (sn_token a) then 1 else 0)"

definition listUserSessions :: "string \<Rightarrow> auth_db \<Rightarrow> session_row list" where
  "listUserSessions userId d = js_sort by_access (filter (\<lambda>s. sn_userId s = userId) (ad_sessions d))"

definition insert_session :: "session_row \<Rightarrow> auth_db \<Rightarrow> auth_db option" where
  "insert_session s d =
     (if sn_token s \<in> sn_token ` set (ad_sessions d) \<or> sn_userId s \<notin> ac_id ` set (ad_users d) then None
      else Some (d\<lparr>ad_sessions := ad_sessions d @ [s]\<rparr>))"

definition drop_sessions :: "string set \<Rightarrow> auth_db \<Rightarrow> auth_db" where
  "drop_sessions ts d = d\<lparr>ad_sessions := filter (\<lambda>s. sn_token s \<notin> ts) (ad_sessions d)\<rparr>"

text \<open>The oldest sessions beyond the limit.\<close>

definition evicted :: "nat \<Rightarrow> session_row list \<Rightarrow> string list" where
  "evicted maxPerUser seen = map sn_token (take (length seen - maxPerUser) seen)"

definition db_createUserSession :: "nat \<Rightarrow> session_row \<Rightarrow> auth_db \<Rightarrow> (string list \<times> auth_db) option" where
  "db_createUserSession maxPerUser s d =
     (case insert_session s d of
        None \<Rightarrow> None
      | Some d1 \<Rightarrow> let out = evicted maxPerUser (listUserSessions (sn_userId s) d1)
                   in Some (out, drop_sessions (set out) d1))"

definition session_of :: "string \<Rightarrow> auth_db \<Rightarrow> session_row option" where
  "session_of token d = find (\<lambda>s. sn_token s = token) (ad_sessions d)"

definition touch_session :: "string \<Rightarrow> int \<Rightarrow> auth_db \<Rightarrow> auth_db" where
  "touch_session token now d =
     d\<lparr>ad_sessions := map (\<lambda>s. if sn_token s = token then s\<lparr>sn_lastAccess := now\<rparr> else s) (ad_sessions d)\<rparr>"

definition db_validateUserSession :: "int \<Rightarrow> int \<Rightarrow> string \<Rightarrow> auth_db \<Rightarrow> session_row option \<times> auth_db" where
  "db_validateUserSession sessionTtl now token d =
     (case session_of token d of
        None \<Rightarrow> (None, d)
      | Some s \<Rightarrow>
          if sessionTtl < now - sn_createdAt s then (None, drop_sessions {token} d)
          else if 60000 < now - sn_lastAccess s then (Some (s\<lparr>sn_lastAccess := now\<rparr>), touch_session token now d)
          else (Some s, d))"

definition deleteUserSession :: "string \<Rightarrow> auth_db \<Rightarrow> auth_db" where
  "deleteUserSession token = drop_sessions {token}"

definition deleteUserSessions :: "string \<Rightarrow> string option \<Rightarrow> auth_db \<Rightarrow> string list \<times> auth_db" where
  "deleteUserSessions userId exceptToken d =
     (let out = map sn_token (filter (\<lambda>s. case exceptToken of Some t \<Rightarrow> t = [] \<or> sn_token s \<noteq> t | None \<Rightarrow> True)
                  (listUserSessions userId d))
      in (out, drop_sessions (set out) d))"

definition deleteExpiredUserSessions :: "int \<Rightarrow> int \<Rightarrow> auth_db \<Rightarrow> string list \<times> auth_db" where
  "deleteExpiredUserSessions sessionTtl now d =
     (map sn_token (filter (\<lambda>s. sn_createdAt s \<le> now - sessionTtl) (ad_sessions d)),
      d\<lparr>ad_sessions := filter (\<lambda>s. \<not> sn_createdAt s \<le> now - sessionTtl) (ad_sessions d)\<rparr>)"

definition session_counts :: "auth_db \<Rightarrow> nat" where
  "session_counts d = length (ad_sessions d)"

subsection \<open>Refresh tokens\<close>

definition refresh_of :: "string \<Rightarrow> auth_db \<Rightarrow> refresh_row option" where
  "refresh_of token d = find (\<lambda>r. rt_token r = token) (ad_refresh d)"

definition drop_refresh :: "string \<Rightarrow> auth_db \<Rightarrow> auth_db" where
  "drop_refresh token d = d\<lparr>ad_refresh := filter (\<lambda>r. rt_token r \<noteq> token) (ad_refresh d)\<rparr>"

definition refresh_create :: "refresh_row \<Rightarrow> auth_db \<Rightarrow> auth_db option" where
  "refresh_create r d =
     (if rt_token r \<in> rt_token ` set (ad_refresh d) \<or> rt_userId r \<notin> ac_id ` set (ad_users d) then None
      else Some (d\<lparr>ad_refresh := ad_refresh d @ [r]\<rparr>))"

definition refresh_validate :: "int \<Rightarrow> string \<Rightarrow> auth_db \<Rightarrow> refresh_row option \<times> auth_db" where
  "refresh_validate now token d =
     (case refresh_of token d of
        None \<Rightarrow> (None, d)
      | Some r \<Rightarrow>
          if rt_revoked r \<or> rt_expiresAt r < now then (None, drop_refresh token d)
          else (case rt_sessionToken r of
                  Some t \<Rightarrow> if t \<noteq> [] \<and> session_of t d = None then (None, drop_refresh token d) else (Some r, d)
                | None \<Rightarrow> (Some r, d)))"

definition refresh_rotate :: "int \<Rightarrow> string \<Rightarrow> string \<Rightarrow> string \<Rightarrow> int \<Rightarrow> auth_db \<Rightarrow> auth_db option" where
  "refresh_rotate now oldToken newToken newSession expiresAt d =
     (case refresh_of oldToken d of
        None \<Rightarrow> None
      | Some r \<Rightarrow>
          refresh_create \<lparr>rt_token = newToken, rt_userId = rt_userId r, rt_sessionToken = Some newSession,
              rt_expiresAt = expiresAt, rt_revoked = False, rt_rotatedAt = None\<rparr>
            (d\<lparr>ad_refresh := map (\<lambda>x. if rt_token x = oldToken then x\<lparr>rt_revoked := True, rt_rotatedAt := Some now\<rparr> else x)
                  (ad_refresh d)\<rparr>))"

definition revokeAll :: "string \<Rightarrow> auth_db \<Rightarrow> auth_db" where
  "revokeAll userId d =
     d\<lparr>ad_refresh := map (\<lambda>r. if rt_userId r = userId \<and> \<not> rt_revoked r then r\<lparr>rt_revoked := True\<rparr> else r) (ad_refresh d)\<rparr>"

definition refresh_deleteExpired :: "int \<Rightarrow> auth_db \<Rightarrow> auth_db" where
  "refresh_deleteExpired now d =
     d\<lparr>ad_refresh := filter (\<lambda>r. \<not> (rt_expiresAt r < now \<or> rt_revoked r)) (ad_refresh d)\<rparr>"

subsection \<open>Login failures\<close>

definition failures_of :: "string \<Rightarrow> auth_db \<Rightarrow> failure_row option" where
  "failures_of userId d = map_of (ad_failures d) userId"

definition failures_record :: "int \<Rightarrow> string \<Rightarrow> auth_db \<Rightarrow> auth_db" where
  "failures_record now userId d =
     d\<lparr>ad_failures := AList.update userId
        (case failures_of userId d of
           None \<Rightarrow> \<lparr>lf_consecutiveFailures = 1, lf_lastFailureAt = now, lf_lockedUntil = None\<rparr>
         | Some f \<Rightarrow> f\<lparr>lf_consecutiveFailures := lf_consecutiveFailures f + 1, lf_lastFailureAt := now\<rparr>)
        (ad_failures d)\<rparr>"

definition failures_reset :: "string \<Rightarrow> auth_db \<Rightarrow> auth_db" where
  "failures_reset userId d = d\<lparr>ad_failures := AList.delete userId (ad_failures d)\<rparr>"

definition failures_lock :: "string \<Rightarrow> int \<Rightarrow> auth_db \<Rightarrow> auth_db" where
  "failures_lock userId lockedUntil d =
     (case failures_of userId d of
        None \<Rightarrow> d
      | Some f \<Rightarrow> d\<lparr>ad_failures := AList.update userId (f\<lparr>lf_lockedUntil := Some lockedUntil\<rparr>) (ad_failures d)\<rparr>)"

subsection \<open>Accounts\<close>

text \<open>The name is case-insensitive (\<open>CITEXT\<close>) and unique over all rows, the deleted ones included;
  an address is unique among the others.\<close>

definition users_getById :: "string \<Rightarrow> auth_db \<Rightarrow> account option" where
  "users_getById userId d = find (\<lambda>a. ac_id a = userId \<and> ac_deletedAt a = None) (ad_users d)"

definition getByUsername :: "string \<Rightarrow> auth_db \<Rightarrow> account option" where
  "getByUsername username d =
     find (\<lambda>a. to_lower (ac_username a) = to_lower username \<and> ac_deletedAt a = None) (ad_users d)"

definition findByUsername :: "string \<Rightarrow> auth_db \<Rightarrow> account option" where
  "findByUsername = getByUsername"

definition countActive :: "auth_db \<Rightarrow> nat" where
  "countActive d = length (filter (\<lambda>a. ac_deletedAt a = None) (ad_users d))"

definition same_email :: "string \<Rightarrow> account \<Rightarrow> bool" where
  "same_email email a \<longleftrightarrow> ac_deletedAt a = None \<and> map_option to_lower (ac_email a) = Some email"

definition users_create :: "account \<Rightarrow> auth_db \<Rightarrow> auth_db option" where
  "users_create a d =
     (if ac_id a \<in> ac_id ` set (ad_users d) \<or> to_lower (ac_username a) \<in> (to_lower \<circ> ac_username) ` set (ad_users d)
         \<or> (case ac_email a of Some e \<Rightarrow> \<exists>x \<in> set (ad_users d). same_email (to_lower e) x | None \<Rightarrow> False)
      then None else Some (d\<lparr>ad_users := ad_users d @ [a]\<rparr>))"

text \<open>\<open>update(id, fields)\<close>: the row comes back when it is not deleted afterwards.\<close>

definition users_update :: "string \<Rightarrow> (account \<Rightarrow> account) \<Rightarrow> auth_db \<Rightarrow> account option \<times> auth_db" where
  "users_update userId change d =
     (let d1 = d\<lparr>ad_users := map (\<lambda>a. if ac_id a = userId \<and> ac_deletedAt a = None then change a else a) (ad_users d)\<rparr>
      in (users_getById userId d1, d1))"

subsection \<open>Links sent by mail\<close>

definition live_link :: "int \<Rightarrow> link_row \<Rightarrow> bool" where
  "live_link now k \<longleftrightarrow> lk_usedAt k = None \<and> now < lk_expiresAt k"

definition use_links :: "(link_row \<Rightarrow> bool) \<Rightarrow> int \<Rightarrow> link_row list \<Rightarrow> link_row list" where
  "use_links P now = map (\<lambda>k. if P k \<and> lk_usedAt k = None then k\<lparr>lk_usedAt := Some now\<rparr> else k)"

definition findUserByEmail :: "string \<Rightarrow> auth_db \<Rightarrow> account option" where
  "findUserByEmail email d = find (same_email email) (ad_users d)"

definition checkEmailExists :: "string \<Rightarrow> string \<Rightarrow> auth_db \<Rightarrow> bool" where
  "checkEmailExists email userId d = list_ex (\<lambda>a. same_email email a \<and> ac_id a \<noteq> userId) (ad_users d)"

definition invalidateResetTokens :: "int \<Rightarrow> string \<Rightarrow> auth_db \<Rightarrow> auth_db" where
  "invalidateResetTokens now userId d = d\<lparr>ad_reset := use_links (\<lambda>k. lk_userId k = userId) now (ad_reset d)\<rparr>"

definition createResetToken :: "int \<Rightarrow> string \<Rightarrow> string \<Rightarrow> auth_db \<Rightarrow> auth_db" where
  "createResetToken now userId tokenHash d =
     d\<lparr>ad_reset := ad_reset d @ [\<lparr>lk_userId = userId, lk_hash = tokenHash, lk_email = [],
        lk_expiresAt = now + 60 * 60 * 1000, lk_usedAt = None\<rparr>]\<rparr>"

definition consumeResetToken :: "int \<Rightarrow> string \<Rightarrow> auth_db \<Rightarrow> string option \<times> auth_db" where
  "consumeResetToken now tokenHash d =
     (map_option lk_userId (find (\<lambda>k. lk_hash k = tokenHash \<and> live_link now k) (ad_reset d)),
      d\<lparr>ad_reset := use_links (\<lambda>k. lk_hash k = tokenHash \<and> live_link now k) now (ad_reset d)\<rparr>)"

definition createVerificationToken :: "int \<Rightarrow> string \<Rightarrow> string \<Rightarrow> string \<Rightarrow> int \<Rightarrow> auth_db \<Rightarrow> auth_db" where
  "createVerificationToken now userId tokenHash email ttlHours d =
     d\<lparr>ad_verify := ad_verify d @ [\<lparr>lk_userId = userId, lk_hash = tokenHash, lk_email = email,
        lk_expiresAt = now + ttlHours * 60 * 60 * 1000, lk_usedAt = None\<rparr>]\<rparr>"

definition consumeVerificationToken :: "int \<Rightarrow> string \<Rightarrow> auth_db \<Rightarrow> (string \<times> string) option \<times> auth_db" where
  "consumeVerificationToken now tokenHash d =
     (map_option (\<lambda>k. (lk_userId k, lk_email k)) (find (\<lambda>k. lk_hash k = tokenHash \<and> live_link now k) (ad_verify d)),
      d\<lparr>ad_verify := use_links (\<lambda>k. lk_hash k = tokenHash \<and> live_link now k) now (ad_verify d)\<rparr>)"

definition invalidateVerificationTokens :: "int \<Rightarrow> string \<Rightarrow> auth_db \<Rightarrow> auth_db" where
  "invalidateVerificationTokens now userId d = d\<lparr>ad_verify := use_links (\<lambda>k. lk_userId k = userId) now (ad_verify d)\<rparr>"

text \<open>\<open>SUPERSEDE_PENDING_CHANGES\<close>: \<open>IS DISTINCT FROM\<close> also holds when there is no address to keep.\<close>

definition invalidatePendingEmailChanges :: "int \<Rightarrow> string \<Rightarrow> string option \<Rightarrow> auth_db \<Rightarrow> auth_db" where
  "invalidatePendingEmailChanges now userId keepEmail d =
     d\<lparr>ad_verify := use_links (\<lambda>k. lk_userId k = userId \<and> Some (to_lower (lk_email k)) \<noteq> map_option to_lower keepEmail) now
        (ad_verify d)\<rparr>"

definition replaceVerificationToken ::
  "int \<Rightarrow> string \<Rightarrow> string \<Rightarrow> string \<Rightarrow> int \<Rightarrow> string option \<Rightarrow> auth_db \<Rightarrow> auth_db" where
  "replaceVerificationToken now userId tokenHash email ttlHours keepEmail d =
     createVerificationToken now userId tokenHash email ttlHours (invalidatePendingEmailChanges now userId keepEmail d)"

text \<open>\<open>None\<close>: another account holds the address by now (\<open>idx_users_email\<close>).\<close>

definition updateUserEmail :: "int \<Rightarrow> string \<Rightarrow> string \<Rightarrow> auth_db \<Rightarrow> auth_db option" where
  "updateUserEmail now userId email d =
     (if (\<exists>a \<in> set (ad_users d). ac_id a = userId \<and> ac_deletedAt a = None) \<and> checkEmailExists (to_lower email) userId d
      then None
      else Some (d\<lparr>ad_users := map (\<lambda>a. if ac_id a = userId then a\<lparr>ac_email := Some email, ac_emailVerifiedAt := Some now\<rparr> else a)
             (ad_users d)\<rparr>))"

end
