(* ===== verification/Auth_Input.thy ===== *)
theory Auth_Input
  imports Sanitize
begin

text \<open>
  What the authentication routes read: names and passwords (\<open>lib/helpers/validation.ts\<close>), cookies
  (\<open>lib/helpers/sanitize.ts\<close>) and the token of a request or a handshake
  (\<open>lib/app-context/cookies.ts\<close>).  Text is Latin-1; the dash of one password message is
  written as a hyphen.
\<close>

subsection \<open>Names and passwords\<close>

definition validateUsername :: "string \<Rightarrow> bool" where
  "validateUsername value =
     (let clean = js_trim value
      in 2 \<le> length clean \<and> length clean \<le> 30
         \<and> list_all (\<lambda>w. w \<noteq> [] \<and> list_all is_ident_char w) (split_char CHR '' '' clean))"

definition validatePasswordStrength :: "string \<Rightarrow> bool" where
  "validatePasswordStrength value \<longleftrightarrow> 8 \<le> length value \<and> length value \<le> 100"

definition COMMON_PASSWORDS :: "string list" where
  "COMMON_PASSWORDS = [
    ''password'', ''password1'', ''password123'', ''passw0rd'', ''p@ssw0rd'', ''p@ssword'',
    ''12345678'', ''123456789'', ''1234567890'', ''123123123'', ''111111111'', ''000000000'',
    ''qwerty123'', ''qwertyuiop'', ''qwerty12345'', ''1q2w3e4r'', ''1qaz2wsx'', ''zaq12wsx'',
    ''iloveyou'', ''iloveyou1'', ''admin123'', ''administrator'', ''welcome1'', ''welcome123'',
    ''letmein1'', ''letmein123'', ''abc12345'', ''abcd1234'', ''baseball'', ''football'',
    ''football1'', ''sunshine'', ''princess'', ''princess1'', ''dragon123'', ''monkey123'',
    ''master123'', ''superman1'', ''trustno1'', ''whatever1'', ''starwars1'', ''computer1'',
    ''michael1'', ''jennifer'', ''jordan23'', ''hunter22'', ''shadow123'', ''ashley123'',
    ''login123'', ''changeme'', ''changeme1'', ''secret123'', ''samsung123'', ''google123'',
    ''qazwsxedc'', ''asdfghjkl'', ''zxcvbnm1'', ''q1w2e3r4'', ''q1w2e3r4t5'', ''passpass'',
    ''test1234'', ''test12345'', ''temp1234'', ''demo1234'', ''guest123'', ''user1234'',
    ''festival'', ''festival1'', ''festie123'', ''festival123'']"

text \<open>A context name counts when it is there and at least three characters long.\<close>

definition names_in :: "string option \<Rightarrow> string \<Rightarrow> bool" where
  "names_in part lower = (case part of Some p \<Rightarrow> 3 \<le> length p \<and> str_includes lower p | None \<Rightarrow> False)"

definition email_local :: "string \<Rightarrow> string" where
  "email_local e = to_lower (js_trim (hd (split_char CHR ''@'' e)))"

definition checkPasswordPolicy :: "string \<Rightarrow> string option \<Rightarrow> string option \<Rightarrow> string option" where
  "checkPasswordPolicy value username email =
     (if value = [] then Some ''Password is required''
      else if length value < 8 then Some ''Password must be at least 8 characters''
      else if 100 < length value then Some ''Password must be at most 100 characters''
      else
        let lower = to_lower (js_trim value)
        in if lower \<in> set COMMON_PASSWORDS then Some ''That password is too common - please choose something harder to guess''
           else if names_in (map_option (to_lower \<circ> js_trim) username) lower then Some ''Password must not contain your username''
           else if names_in (map_option email_local email) lower then Some ''Password must not contain your email address''
           else None)"

subsection \<open>Cookies\<close>

definition hex_digit :: "char \<Rightarrow> nat option" where
  "hex_digit c = (let n = (of_char c :: nat) in
     if 48 \<le> n \<and> n \<le> 57 then Some (n - 48)
     else if 97 \<le> n \<and> n \<le> 102 then Some (n - 87)
     else if 65 \<le> n \<and> n \<le> 70 then Some (n - 55) else None)"

definition hex_byte :: "char \<Rightarrow> char \<Rightarrow> nat option" where
  "hex_byte a b = (case (hex_digit a, hex_digit b) of (Some m, Some n) \<Rightarrow> Some (16 * m + n) | _ \<Rightarrow> None)"

text \<open>\<open>decodeURIComponent\<close> with results in Latin-1; \<open>None\<close> is a \<open>URIError\<close>.\<close>

fun decodeURIComponent :: "string \<Rightarrow> string option" where
  "decodeURIComponent [] = Some []"
| "decodeURIComponent (c # s) =
     (if c \<noteq> CHR ''%'' then map_option (Cons c) (decodeURIComponent s)
      else case s of
        a # b # t \<Rightarrow>
          (case hex_byte a b of
             None \<Rightarrow> None
           | Some n \<Rightarrow>
               if n < 128 then map_option (Cons (char_of n)) (decodeURIComponent t)
               else if n = 194 \<or> n = 195 then
                 (case t of
                    p # d # e # u \<Rightarrow>
                      (case hex_byte d e of
                         Some m \<Rightarrow> if p = CHR ''%'' \<and> 128 \<le> m \<and> m < 192
                                   then map_option (Cons (char_of (64 * (n - 192) + (m - 128)))) (decodeURIComponent u) else None
                       | None \<Rightarrow> None)
                  | _ \<Rightarrow> None)
               else None)
      | _ \<Rightarrow> None)"

text \<open>The first \<open>=\<close> separates the name from the value.\<close>

definition cookie_of :: "string \<Rightarrow> (string \<times> string) option" where
  "cookie_of part =
     (let trimmed = js_trim part; key = js_trim (takeWhile (\<lambda>c. c \<noteq> CHR ''='') trimmed)
      in if CHR ''='' \<notin> set trimmed \<or> key = [] then None
         else let value = js_trim (drop 1 (dropWhile (\<lambda>c. c \<noteq> CHR ''='') trimmed))
              in Some (key, case decodeURIComponent value of Some v \<Rightarrow> v | None \<Rightarrow> value))"

definition parseCookies :: "string option \<Rightarrow> string \<Rightarrow> string option" where
  "parseCookies header =
     map_of (rev (List.map_filter cookie_of (split_char CHR '';'' (case header of Some h \<Rightarrow> h | None \<Rightarrow> []))))"

subsection \<open>The token of a request\<close>

datatype header = NoHeader | OneHeader string | Headers "string list"

record req_headers =
  hd_authorization :: "string option"
  hd_token :: header
  hd_cookie :: "string option"

datatype token_source = Bearer | Header | Cookie

definition LEGACY_COOKIE_NAME :: string where
  "LEGACY_COOKIE_NAME = ''festival_user_session''"

definition bearer_token :: "string option \<Rightarrow> string option" where
  "bearer_token authorization = (case authorization of
       Some h \<Rightarrow> (let t = js_trim (drop 7 h) in if starts_with h ''Bearer '' \<and> t \<noteq> [] then Some t else None)
     | None \<Rightarrow> None)"

definition cookie_token :: "string \<Rightarrow> string option \<Rightarrow> string option" where
  "cookie_token cookieName header =
     (let cookies = parseCookies header; named = (\<lambda>n. case cookies n of Some v \<Rightarrow> if v = [] then None else Some v | None \<Rightarrow> None)
      in case named cookieName of
           Some v \<Rightarrow> Some v
         | None \<Rightarrow> if cookieName \<noteq> LEGACY_COOKIE_NAME then named LEGACY_COOKIE_NAME else None)"

definition resolveRequestToken :: "string \<Rightarrow> req_headers \<Rightarrow> (string \<times> token_source) option" where
  "resolveRequestToken cookieName h =
     (case bearer_token (hd_authorization h) of
        Some t \<Rightarrow> Some (t, Bearer)
      | None \<Rightarrow>
          let cookie = map_option (\<lambda>t. (t, Cookie)) (cookie_token cookieName (hd_cookie h))
          in case hd_token h of
               OneHeader v \<Rightarrow> if js_trim v \<noteq> [] then Some (js_trim v, Header) else cookie
             | Headers (v # _) \<Rightarrow> if v \<noteq> [] then Some (js_trim v, Header) else cookie
             | _ \<Rightarrow> cookie)"

record handshake =
  hs_auth :: "string option"
  hs_query :: "string option"
  hs_authorization :: "string option"
  hs_cookie :: "string option"

definition or_trimmed :: "string option \<Rightarrow> string option \<Rightarrow> string option" where
  "or_trimmed v rest = (case v of Some t \<Rightarrow> if js_trim t \<noteq> [] then Some (js_trim t) else rest | None \<Rightarrow> rest)"

definition resolveSocketToken :: "string \<Rightarrow> string option \<Rightarrow> handshake \<Rightarrow> string option" where
  "resolveSocketToken cookieName explicit hs =
     or_trimmed explicit (or_trimmed (hs_auth hs) (or_trimmed (hs_query hs)
       (case bearer_token (hs_authorization hs) of Some t \<Rightarrow> Some t | None \<Rightarrow> cookie_token cookieName (hs_cookie hs))))"

subsection \<open>Lemmas\<close>

lemma length_js_trim: "length (js_trim s) \<le> length s"
proof -
  have "length (js_trim s) \<le> length (dropWhile is_space s)"
    unfolding js_trim_def length_rev by (metis length_dropWhile_le length_rev)
  also have "\<dots> \<le> length s" by (rule length_dropWhile_le)
  finally show ?thesis .
qed

lemma to_lower_idem [simp]: "to_lower (to_lower s) = to_lower s"
proof -
  have "lower_char (lower_char c) = lower_char c" for c by (simp add: lower_char_def)
  then show ?thesis by (simp add: to_lower_def)
qed

lemma resolveRequestToken_nonempty:
  assumes "resolveRequestToken cookieName h = Some (t, src)" and "src \<noteq> Header"
  shows "t \<noteq> []"
  using assms
  by (auto simp: resolveRequestToken_def bearer_token_def cookie_token_def Let_def
      split: option.splits if_splits header.splits list.splits)

end
