(* ===== verification/Auth_Routes.thy ===== *)
theory Auth_Routes
  imports Session_Store Auth_Input Socket_Relay
begin

text \<open>
  Signing in and out: the session helpers (\<open>lib/app-context/session.ts\<close>), the routes of
  \<open>routes/auth.ts\<close> and \<open>routes/email-auth.ts\<close>, account deletion (\<open>routes/account.ts\<close>) and the
  administrators' resets (\<open>routes/admin-users.ts\<close>).  A handler runs on the server's tables, the
  sockets of this process, and what this process holds in memory; the rate limits of the routes and
  the schemas run before it.  It returns its answer, what it does to the session cookie, and the
  world.  A query that throws ends the handler with its 500 and keeps what was written before.

  Each request brings the clock, fresh random tokens, and the result of hashing a password with a
  fresh salt; the hash of tokens, the comparison of passwords and the mailer are given.
  \<open>getUserById\<close> reads the table here; its cache is the theory \<open>User_Cache\<close>.
\<close>

record auth_config =
  USER_SESSION_MAX :: nat
  SESSION_TTL :: int
  REFRESH_TOKEN_TTL :: int
  MAX_LOGIN_FAILURES :: nat
  LOGIN_LOCKOUT_MS :: int
  MAX_USERS :: nat
  EMAIL_VERIFY_TOKEN_TTL_HOURS :: int
  RESET_TOKEN_TTL :: int

record auth_env =
  ax_now :: int
  ax_hash :: "string \<Rightarrow> string"
  ax_opaque :: "string \<Rightarrow> string"
  ax_verify :: "string \<Rightarrow> string \<Rightarrow> bool"
  ax_hashed :: "string \<Rightarrow> string"
  ax_session :: string
  ax_refresh :: string
  ax_userId :: string
  ax_link :: string
  ax_mailer :: bool
  ax_native :: bool
  ax_limits :: limiter_config
  ax_config :: auth_config

datatype mail = VerifyMail string | ResetMail string | ChangeNotice

record orphan_row =
  op_id :: string
  op_userId :: "string option"
  op_name :: string
  op_deleted :: bool

record auth_srv =
  au_db :: auth_db
  au_profiles :: "orphan_row list"
  au_devices :: "(string \<times> string) list"
  au_relay :: relay
  au_revoked :: "(string \<times> string) list"
  au_mails :: "(string \<times> mail) list"
  au_adminTokens :: "(string \<times> string \<times> int) list"
  au_forgot :: "(string \<times> nat \<times> int) list"
  au_resend :: "(string \<times> int list) list"
  au_authFailures :: nat

datatype cookie = KeepCookie | SetCookie string | ClearCookie

type_synonym 'a auth_reply = "'a http \<times> cookie \<times> auth_srv"

definition on_db :: "(auth_db \<Rightarrow> auth_db) \<Rightarrow> auth_srv \<Rightarrow> auth_srv" where
  "on_db f s = s\<lparr>au_db := f (au_db s)\<rparr>"

definition on_relay :: "(relay \<Rightarrow> relay) \<Rightarrow> auth_srv \<Rightarrow> auth_srv" where
  "on_relay f s = s\<lparr>au_relay := f (au_relay s)\<rparr>"

definition auth_failed :: "string \<Rightarrow> auth_srv \<Rightarrow> 'a auth_reply" where
  "auth_failed msg s = (Inl (500, msg, INTERNAL_ERROR), KeepCookie, s)"

definition auth_refused :: "nat \<Rightarrow> string \<Rightarrow> error_code \<Rightarrow> auth_srv \<Rightarrow> 'a auth_reply" where
  "auth_refused status msg code s = (Inl (status, msg, code), KeepCookie, s)"

subsection \<open>Sessions\<close>

definition hash_of :: "auth_env \<Rightarrow> sock \<Rightarrow> string option" where
  "hash_of e k = (case sk_token k of Some t \<Rightarrow> if t = [] then None else Some (ax_hash e t) | None \<Rightarrow> None)"

definition createUserSession :: "auth_env \<Rightarrow> string \<Rightarrow> string \<Rightarrow> auth_srv \<Rightarrow> (string \<times> auth_srv) option" where
  "createUserSession e userId username s =
     (case db_createUserSession (USER_SESSION_MAX (ax_config e))
             \<lparr>sn_token = ax_hash e (ax_session e), sn_userId = userId, sn_username = username,
              sn_createdAt = ax_now e, sn_lastAccess = ax_now e\<rparr> (au_db s) of
        None \<Rightarrow> None
      | Some (out, d) \<Rightarrow>
          Some (ax_session e,
                on_relay (disconnect_where (\<lambda>k. case hash_of e k of Some h \<Rightarrow> h \<in> set out | None \<Rightarrow> False)) (s\<lparr>au_db := d\<rparr>)))"

definition validateUserSession :: "auth_env \<Rightarrow> string option \<Rightarrow> auth_srv \<Rightarrow> session_row option \<times> auth_srv" where
  "validateUserSession e token s =
     (case token of
        None \<Rightarrow> (None, s)
      | Some t \<Rightarrow>
          if length t \<noteq> 64 then (None, s)
          else case db_validateUserSession (SESSION_TTL (ax_config e)) (ax_now e) (ax_hash e t) (au_db s) of
            (r, d) \<Rightarrow> (r, s\<lparr>au_db := d\<rparr>))"

definition invalidateUserSessions :: "auth_env \<Rightarrow> string \<Rightarrow> string option \<Rightarrow> auth_srv \<Rightarrow> auth_srv" where
  "invalidateUserSessions e userId exceptToken s =
     on_relay (disconnectUserSockets userId)
       (on_db (\<lambda>d. snd (deleteUserSessions userId
            (case exceptToken of Some t \<Rightarrow> if t = [] then None else Some (ax_hash e t) | None \<Rightarrow> None) d)) s)"

text \<open>\<open>userAuth\<close>: the handler runs with the session and the token of the request.\<close>

definition userAuth ::
  "auth_env \<Rightarrow> string option \<Rightarrow> (session_row \<Rightarrow> string \<Rightarrow> auth_srv \<Rightarrow> 'a auth_reply) \<Rightarrow> auth_srv \<Rightarrow> 'a auth_reply" where
  "userAuth e token run s =
     (case validateUserSession e token s of
        (None, s1) \<Rightarrow> auth_refused 401 ''Please log in'' AUTH_REQUIRED s1
      | (Some r, s1) \<Rightarrow> run r (case token of Some t \<Rightarrow> t | None \<Rightarrow> []) s1)"

definition adminAuth ::
  "auth_env \<Rightarrow> (string \<Rightarrow> bool) \<Rightarrow> string option \<Rightarrow> (session_row \<Rightarrow> string \<Rightarrow> auth_srv \<Rightarrow> 'a auth_reply) \<Rightarrow> auth_srv \<Rightarrow> 'a auth_reply" where
  "adminAuth e isAdmin token run =
     userAuth e token (\<lambda>r t s1. if \<not> isAdmin (sn_userId r) then auth_refused 403 ''Admin access required'' FORBIDDEN s1 else run r t s1)"

definition getUserById :: "string \<Rightarrow> auth_srv \<Rightarrow> account option" where
  "getUserById userId s = users_getById userId (au_db s)"

subsection \<open>Registering\<close>

record public_user =
  pu_id :: string
  pu_username :: string
  pu_name :: "string option"
  pu_avatar :: "(string \<times> string) option"
  pu_email :: "string option"
  pu_emailVerified :: bool
  pu_venmoHandle :: "string option"
  pu_cashappCashtag :: "string option"
  pu_paypalHandle :: "string option"

definition or_null :: "string option \<Rightarrow> string option" where
  "or_null v = (case v of Some t \<Rightarrow> if t = [] then None else Some t | None \<Rightarrow> None)"

text \<open>The address of the avatar is given by its key and version.\<close>

definition serializePublicUser :: "account \<Rightarrow> public_user" where
  "serializePublicUser a =
     \<lparr>pu_id = ac_id a, pu_username = ac_username a, pu_name = or_null (ac_displayName a),
      pu_avatar = (case (or_null (ac_avatarKey a), or_null (ac_avatarVersion a)) of (Some k, Some v) \<Rightarrow> Some (k, v) | _ \<Rightarrow> None),
      pu_email = or_null (ac_email a), pu_emailVerified = (ac_emailVerifiedAt a \<noteq> None),
      pu_venmoHandle = or_null (ac_venmoHandle a), pu_cashappCashtag = or_null (ac_cashappCashtag a),
      pu_paypalHandle = or_null (ac_paypalHandle a)\<rparr>"

record signed_in =
  si_user :: public_user
  si_token :: "string option"
  si_refreshToken :: "string option"

text \<open>The tokens go into the body for native clients only.\<close>

definition signed_in_as :: "auth_env \<Rightarrow> account \<Rightarrow> string option \<Rightarrow> string option \<Rightarrow> signed_in" where
  "signed_in_as e a token refreshToken =
     \<lparr>si_user = serializePublicUser a, si_token = (if ax_native e then token else None),
      si_refreshToken = (if ax_native e then refreshToken else None)\<rparr>"

definition issueRefreshToken :: "auth_env \<Rightarrow> string \<Rightarrow> string \<Rightarrow> auth_srv \<Rightarrow> (string \<times> auth_srv) option" where
  "issueRefreshToken e userId sessionToken s =
     map_option (\<lambda>d. (ax_refresh e, s\<lparr>au_db := d\<rparr>))
       (refresh_create \<lparr>rt_token = ax_hash e (ax_refresh e), rt_userId = userId,
           rt_sessionToken = Some (ax_hash e sessionToken), rt_expiresAt = ax_now e + REFRESH_TOKEN_TTL (ax_config e),
           rt_revoked = False, rt_rotatedAt = None\<rparr> (au_db s))"

definition claimOrphanProfiles :: "string \<Rightarrow> string \<Rightarrow> auth_srv \<Rightarrow> auth_srv" where
  "claimOrphanProfiles userId name s =
     s\<lparr>au_profiles := map (\<lambda>p. if op_userId p = None \<and> to_lower (op_name p) = to_lower name \<and> \<not> op_deleted p
                               then p\<lparr>op_userId := Some userId\<rparr> else p) (au_profiles s)\<rparr>"

definition send_mail :: "auth_env \<Rightarrow> string \<Rightarrow> mail \<Rightarrow> auth_srv \<Rightarrow> auth_srv" where
  "send_mail e recipient m s = (if ax_mailer e then s\<lparr>au_mails := au_mails s @ [(recipient, m)]\<rparr> else s)"

text \<open>The link is written whether or not the mail goes out.\<close>

definition createUserWithProfile ::
  "auth_env \<Rightarrow> string \<Rightarrow> string \<Rightarrow> string option \<Rightarrow> auth_srv \<Rightarrow> (account \<times> auth_srv) option" where
  "createUserWithProfile e cleanUsername passwordHash cleanEmail s =
     (let a = \<lparr>ac_id = ax_userId e, ac_username = cleanUsername, ac_passwordHash = passwordHash, ac_email = cleanEmail,
               ac_emailVerifiedAt = None, ac_displayName = None, ac_avatarKey = None, ac_avatarVersion = None,
               ac_venmoHandle = None, ac_cashappCashtag = None, ac_paypalHandle = None,
               ac_createdAt = ax_now e, ac_deletedAt = None\<rparr>
      in case users_create a (au_db s) of
           None \<Rightarrow> None
         | Some d \<Rightarrow>
             let s1 = claimOrphanProfiles (ax_userId e) cleanUsername (s\<lparr>au_db := d\<rparr>)
             in Some (a, case cleanEmail of
                  None \<Rightarrow> s1
                | Some m \<Rightarrow>
                    send_mail e m (VerifyMail (ax_link e))
                      (on_db (createVerificationToken (ax_now e) (ax_userId e) (ax_hash e (ax_link e)) m
                         (EMAIL_VERIFY_TOKEN_TTL_HOURS (ax_config e))) s1)))"

record register_body =
  rg_username :: string
  rg_password :: string
  rg_confirmPassword :: string
  rg_email :: "string option"

definition validateRegistrationInput :: "register_body \<Rightarrow> string + string \<times> string option" where
  "validateRegistrationInput b =
     (let clean = sanitizeString 30 (rg_username b)
      in if \<not> validateUsername clean
         then Inl ''Username must be 2-30 characters (letters, numbers, spaces, hyphens, underscores)''
         else case checkPasswordPolicy (rg_password b) (Some clean) (rg_email b) of
           Some msg \<Rightarrow> Inl msg
         | None \<Rightarrow>
             if rg_password b \<noteq> rg_confirmPassword b then Inl ''Passwords do not match''
             else Inr (clean, map_option (to_lower \<circ> js_trim) (or_null (rg_email b))))"

definition checkRegistrationConflicts ::
  "auth_env \<Rightarrow> string \<Rightarrow> string option \<Rightarrow> auth_srv \<Rightarrow> (string \<times> error_code) option" where
  "checkRegistrationConflicts e cleanUsername cleanEmail s =
     (if getByUsername cleanUsername (au_db s) \<noteq> None then Some (''Username already taken'', ALREADY_EXISTS)
      else if MAX_USERS (ax_config e) \<le> countActive (au_db s) then Some (''Maximum users reached'', MAX_LIMIT_REACHED)
      else case or_null cleanEmail of
        Some m \<Rightarrow> if findUserByEmail m (au_db s) \<noteq> None then Some (''Email address already in use'', ALREADY_EXISTS) else None
      | None \<Rightarrow> None)"

text \<open>The session, its cookie and the refresh token of a fresh sign-in.\<close>

definition sign_in :: "auth_env \<Rightarrow> account \<Rightarrow> string \<Rightarrow> auth_srv \<Rightarrow> signed_in auth_reply" where
  "sign_in e a msg s =
     (case createUserSession e (ac_id a) (ac_username a) s of
        None \<Rightarrow> auth_failed msg s
      | Some (token, s1) \<Rightarrow>
          (case issueRefreshToken e (ac_id a) token s1 of
             None \<Rightarrow> (Inl (500, msg, INTERNAL_ERROR), SetCookie token, s1)
           | Some (rt, s2) \<Rightarrow> (Inr (200, signed_in_as e a (Some token) (Some rt)), SetCookie token, s2)))"

definition register :: "auth_env \<Rightarrow> register_body \<Rightarrow> auth_srv \<Rightarrow> (signed_in \<times> bool) auth_reply" where
  "register e b s =
     (case validateRegistrationInput b of
        Inl msg \<Rightarrow> auth_refused 400 msg INVALID_INPUT s
      | Inr (cleanUsername, cleanEmail) \<Rightarrow>
          (case checkRegistrationConflicts e cleanUsername cleanEmail s of
             Some (msg, code) \<Rightarrow> auth_refused 400 msg code s
           | None \<Rightarrow>
               (case createUserWithProfile e cleanUsername (ax_hashed e (rg_password b)) (or_null cleanEmail) s of
                  None \<Rightarrow> auth_failed ''Registration failed'' s
                | Some (a, s1) \<Rightarrow>
                    (case sign_in e a ''Registration failed'' s1 of
                       (Inl err, ck, s2) \<Rightarrow> (Inl err, ck, s2)
                     | (Inr (_, body), ck, s2) \<Rightarrow> (Inr (201, body, or_null cleanEmail \<noteq> None), ck, s2)))))"

subsection \<open>Signing in\<close>

definition resolveLoginUser :: "string \<Rightarrow> auth_srv \<Rightarrow> account option" where
  "resolveLoginUser username s =
     (case getByUsername (js_trim username) (au_db s) of
        Some a \<Rightarrow> Some a
      | None \<Rightarrow> (case findByUsername (js_trim username) (au_db s) of
                   Some a \<Rightarrow> if ac_deletedAt a \<noteq> None then Some a else None
                 | None \<Rightarrow> None))"

text \<open>The seconds of the \<open>Retry-After\<close> header, while the account is locked.\<close>

definition checkAccountLockout :: "auth_env \<Rightarrow> account option \<Rightarrow> auth_srv \<Rightarrow> int option" where
  "checkAccountLockout e user s =
     (case Option.bind user (\<lambda>a. Option.bind (failures_of (ac_id a) (au_db s)) lf_lockedUntil) of
        Some t \<Rightarrow> if ax_now e < t then Some (ceil_div (t - ax_now e) 1000) else None
      | None \<Rightarrow> None)"

definition handleLoginFailure :: "auth_env \<Rightarrow> account option \<Rightarrow> auth_srv \<Rightarrow> auth_srv" where
  "handleLoginFailure e user s =
     (let s1 = s\<lparr>au_authFailures := au_authFailures s + 1\<rparr>
      in case user of
           None \<Rightarrow> s1
         | Some a \<Rightarrow>
             let s2 = on_db (failures_record (ax_now e) (ac_id a)) s1
             in case failures_of (ac_id a) (au_db s2) of
                  Some f \<Rightarrow> if MAX_LOGIN_FAILURES (ax_config e) \<le> lf_consecutiveFailures f
                            then on_db (failures_lock (ac_id a) (ax_now e + LOGIN_LOCKOUT_MS (ax_config e))) s2 else s2
                | None \<Rightarrow> s2)"

text \<open>The limit of attempts per known account.\<close>

definition attempt_allowed :: "auth_env \<Rightarrow> account option \<Rightarrow> auth_srv \<Rightarrow> bool \<times> auth_srv" where
  "attempt_allowed e user s =
     (case user of
        None \<Rightarrow> (True, s)
      | Some a \<Rightarrow>
          (case consumeUserAuthRateLimit (ax_limits e) (ax_now e) (ac_id a) (lc_AUTH_RATE_LIMIT_MAX (ax_limits e))
                  (ry_limits (au_relay s)) of
             (allowed, ls) \<Rightarrow> (allowed, on_relay (ry_limits_update (\<lambda>_. ls)) s)))"

definition reactivate :: "account \<Rightarrow> auth_srv \<Rightarrow> auth_srv" where
  "reactivate a s =
     (if ac_deletedAt a \<noteq> None then on_db (\<lambda>d. snd (users_update (ac_id a) (ac_deletedAt_update (\<lambda>_. None)) d)) s else s)"

definition check_password :: "auth_env \<Rightarrow> account option \<Rightarrow> string \<Rightarrow> auth_srv \<Rightarrow> signed_in auth_reply" where
  "check_password e user password s =
     (let wrong = auth_refused 401 ''Invalid username or password'' INVALID_CREDENTIALS (handleLoginFailure e user s)
      in case user of
           None \<Rightarrow> wrong
         | Some a \<Rightarrow>
             if \<not> ax_verify e password (ac_passwordHash a) then wrong
             else sign_in e a ''Login failed'' (reactivate a (on_db (failures_reset (ac_id a)) s)))"

definition login :: "auth_env \<Rightarrow> string \<Rightarrow> string \<Rightarrow> auth_srv \<Rightarrow> signed_in auth_reply" where
  "login e username password s =
     (if username = [] \<or> password = [] then auth_refused 400 ''Username and password required'' MISSING_FIELD s
      else
        let user = resolveLoginUser username s
        in if checkAccountLockout e user s \<noteq> None
           then auth_refused 423 ''Account temporarily locked due to too many failed attempts'' ACCOUNT_LOCKED s
           else (case attempt_allowed e user s of
                   (allowed, s1) \<Rightarrow>
                     if \<not> allowed then auth_refused 429 ''Too many login attempts for this account'' RATE_LIMITED s1
                     else check_password e user password s1))"

definition verify :: "auth_env \<Rightarrow> string option \<Rightarrow> auth_srv \<Rightarrow> public_user auth_reply" where
  "verify e token s =
     (case validateUserSession e token s of
        (None, s1) \<Rightarrow> auth_refused 401 ''Invalid or expired session'' AUTH_REQUIRED s1
      | (Some r, s1) \<Rightarrow>
          (case getUserById (sn_userId r) s1 of
             None \<Rightarrow> auth_refused 401 ''User not found'' AUTH_REQUIRED s1
           | Some a \<Rightarrow> (Inr (200, serializePublicUser a), KeepCookie, s1)))"

definition me :: "auth_env \<Rightarrow> string option \<Rightarrow> auth_srv \<Rightarrow> public_user auth_reply" where
  "me e token = userAuth e token (\<lambda>r t s.
     case getUserById (sn_userId r) s of
       None \<Rightarrow> auth_refused 401 ''User not found'' AUTH_REQUIRED s
     | Some a \<Rightarrow> (Inr (200, serializePublicUser a), KeepCookie, s))"

subsection \<open>Signing out and renewing\<close>

definition logout :: "auth_env \<Rightarrow> string option \<Rightarrow> auth_srv \<Rightarrow> unit auth_reply" where
  "logout e token s =
     (Inr (200, ()), ClearCookie,
      case token of
        Some t \<Rightarrow> if t = [] then s
                  else on_relay (disconnectSessionTokens [t]) (on_db (deleteUserSession (ax_hash e t)) s)
      | None \<Rightarrow> s)"

definition refresh :: "auth_env \<Rightarrow> string option \<Rightarrow> auth_srv \<Rightarrow> signed_in auth_reply" where
  "refresh e token = userAuth e token (\<lambda>r t s.
     let s1 = (if t = [] then s else on_relay (disconnectSessionTokens [t]) (on_db (deleteUserSession (ax_hash e t)) s))
     in case createUserSession e (sn_userId r) (sn_username r) s1 of
          None \<Rightarrow> auth_failed ''Token refresh failed'' s1
        | Some (new, s2) \<Rightarrow>
            (case getUserById (sn_userId r) s2 of
               None \<Rightarrow> (Inl (401, ''User not found'', AUTH_REQUIRED), SetCookie new, s2)
             | Some a \<Rightarrow> (Inr (200, signed_in_as e a (Some new) None), SetCookie new, s2)))"

text \<open>What follows the validation of a refresh token.\<close>

definition refresh_exchange :: "auth_env \<Rightarrow> string \<Rightarrow> refresh_row \<Rightarrow> auth_srv \<Rightarrow> signed_in auth_reply" where
  "refresh_exchange e hashed r s =
     (case getUserById (rt_userId r) s of
        None \<Rightarrow> auth_refused 401 ''User not found'' AUTH_REQUIRED s
      | Some a \<Rightarrow>
          (case createUserSession e (ac_id a) (ac_username a) s of
             None \<Rightarrow> auth_failed ''Token refresh failed'' s
           | Some (new, s1) \<Rightarrow>
               (case refresh_rotate (ax_now e) hashed (ax_hash e (ax_refresh e)) (ax_hash e new)
                       (ax_now e + REFRESH_TOKEN_TTL (ax_config e)) (au_db s1) of
                  None \<Rightarrow> (Inl (500, ''Token refresh failed'', INTERNAL_ERROR), SetCookie new, s1)
                | Some d \<Rightarrow>
                    (Inr (200, signed_in_as e a (Some new) (Some (ax_refresh e))), SetCookie new, s1\<lparr>au_db := d\<rparr>))))"

definition refresh_token :: "auth_env \<Rightarrow> string \<Rightarrow> auth_srv \<Rightarrow> signed_in auth_reply" where
  "refresh_token e incoming s =
     (case refresh_validate (ax_now e) (ax_hash e incoming) (au_db s) of
        (None, d) \<Rightarrow> auth_refused 401 ''Invalid or expired refresh token'' TOKEN_EXPIRED (s\<lparr>au_db := d\<rparr>)
      | (Some r, d) \<Rightarrow> refresh_exchange e (ax_hash e incoming) r (s\<lparr>au_db := d\<rparr>))"

subsection \<open>The sessions of a user\<close>

text \<open>\<open>computeSessionOpaqueId\<close>.\<close>

definition opaque_id :: "auth_env \<Rightarrow> string \<Rightarrow> string" where
  "opaque_id e tokenHash = take 16 (ax_opaque e tokenHash)"

definition disconnectSessionSockets :: "auth_env \<Rightarrow> (sock \<Rightarrow> bool) \<Rightarrow> string \<Rightarrow> auth_srv \<Rightarrow> auth_srv" where
  "disconnectSessionSockets e P reason s =
     (let out = map sk_id (filter P (ry_socks (au_relay s)))
      in on_relay (fold on_disconnect out) (s\<lparr>au_revoked := au_revoked s @ map (\<lambda>i. (i, reason)) out\<rparr>))"

definition get_sessions :: "auth_env \<Rightarrow> string option \<Rightarrow> auth_srv \<Rightarrow> (string \<times> int \<times> int \<times> bool) list auth_reply" where
  "get_sessions e token = userAuth e token (\<lambda>r t s.
     (Inr (200, map (\<lambda>x. (opaque_id e (sn_token x), sn_createdAt x, sn_lastAccess x, t \<noteq> [] \<and> sn_token x = ax_hash e t))
        (listUserSessions (sn_userId r) (au_db s))), KeepCookie, s))"

definition is_hex16 :: "string \<Rightarrow> bool" where
  "is_hex16 i \<longleftrightarrow> length i = 16 \<and> list_all (\<lambda>c. hex_digit c \<noteq> None) i"

definition delete_session :: "auth_env \<Rightarrow> string option \<Rightarrow> string \<Rightarrow> auth_srv \<Rightarrow> unit auth_reply" where
  "delete_session e token sessionId = userAuth e token (\<lambda>r t s.
     if \<not> is_hex16 sessionId then auth_refused 400 ''Invalid session ID'' INVALID_INPUT s
     else case find (\<lambda>x. opaque_id e (sn_token x) = sessionId) (listUserSessions (sn_userId r) (au_db s)) of
       None \<Rightarrow> auth_refused 404 ''Session not found'' NOT_FOUND s
     | Some x \<Rightarrow>
         if t \<noteq> [] \<and> sn_token x = ax_hash e t
         then auth_refused 400 ''Cannot revoke current session. Use /logout instead.'' INVALID_INPUT s
         else (Inr (200, ()), KeepCookie,
               disconnectSessionSockets e (\<lambda>k. sk_userId k = Some (sn_userId r) \<and> hash_of e k = Some (sn_token x))
                 ''Session revoked by user'' (on_db (deleteUserSession (sn_token x)) s)))"

definition delete_sessions :: "auth_env \<Rightarrow> string option \<Rightarrow> auth_srv \<Rightarrow> unit auth_reply" where
  "delete_sessions e token = userAuth e token (\<lambda>r t s.
     (Inr (200, ()), KeepCookie,
      disconnectSessionSockets e
        (\<lambda>k. sk_userId k = Some (sn_userId r) \<and> hash_of e k \<noteq> (if t = [] then None else Some (ax_hash e t)))
        ''All other sessions revoked''
        (invalidateUserSessions e (sn_userId r) (if t = [] then None else Some t) s)))"

subsection \<open>Changing the password\<close>

record change_body =
  ch_currentPassword :: string
  ch_newPassword :: string
  ch_confirmPassword :: string

text \<open>What every password rotation of a user's own does to the credentials.\<close>

definition drop_credentials :: "auth_env \<Rightarrow> account \<Rightarrow> auth_srv \<Rightarrow> auth_srv" where
  "drop_credentials e a s =
     on_relay (disconnectUserSockets (ac_id a))
       (on_db (invalidatePendingEmailChanges (ax_now e) (ac_id a) (ac_email a))
         (on_db (revokeAll (ac_id a)) (invalidateUserSessions e (ac_id a) None s)))"

definition set_password :: "string \<Rightarrow> string \<Rightarrow> auth_srv \<Rightarrow> auth_srv" where
  "set_password userId passwordHash = on_db (\<lambda>d. snd (users_update userId (ac_passwordHash_update (\<lambda>_. passwordHash)) d))"

definition change_password :: "auth_env \<Rightarrow> string option \<Rightarrow> change_body \<Rightarrow> auth_srv \<Rightarrow> string auth_reply" where
  "change_password e token b = userAuth e token (\<lambda>r t s.
     if ch_currentPassword b = [] \<or> ch_newPassword b = [] \<or> ch_confirmPassword b = []
     then auth_refused 400 ''Current and new password required'' MISSING_FIELD s
     else case checkPasswordPolicy (ch_newPassword b) (Some (sn_username r)) None of
       Some msg \<Rightarrow> auth_refused 400 msg INVALID_INPUT s
     | None \<Rightarrow>
         if ch_newPassword b \<noteq> ch_confirmPassword b then auth_refused 400 ''New passwords do not match'' INVALID_INPUT s
         else case getUserById (sn_userId r) s of
           None \<Rightarrow> auth_refused 404 ''User not found'' NOT_FOUND s
         | Some a \<Rightarrow>
             if \<not> ax_verify e (ch_currentPassword b) (ac_passwordHash a)
             then auth_refused 400 ''Current password incorrect'' PASSWORD_INCORRECT s
             else
               let s1 = drop_credentials e a (set_password (sn_userId r) (ax_hashed e (ch_newPassword b)) s)
               in case createUserSession e (sn_userId r) (sn_username r) s1 of
                    None \<Rightarrow> auth_failed ''Failed to change password'' s1
                  | Some (new, s2) \<Rightarrow> (Inr (200, new), SetCookie new, s2))"

end
