(* ===== verification/Auth_Mail.thy ===== *)
theory Auth_Mail
  imports Auth_Routes
begin

text \<open>
  Credentials that change by mail or by an administrator: the rest of \<open>routes/email-auth.ts\<close>, the
  email change and the deletion of \<open>routes/account.ts\<close>, the resets of \<open>routes/admin-users.ts\<close> and
  the forced logout of \<open>routes/admin-bulk.ts\<close>.  \<open>verify_email\<close> is the JSON variant; the HTML page has
  the same statuses.  The public origin is configured.
\<close>

subsection \<open>Forgotten passwords\<close>

definition FORGOT_PW_WINDOW :: int where
  "FORGOT_PW_WINDOW = 60000"

definition FORGOT_PW_MAX :: nat where
  "FORGOT_PW_MAX = 3"

text \<open>\<open>None\<close>: over the limit.\<close>

definition forgot_hit :: "int \<Rightarrow> string \<Rightarrow> (string \<times> nat \<times> int) list \<Rightarrow> (string \<times> nat \<times> int) list option" where
  "forgot_hit now emailKey m =
     (case map_of m emailKey of
        Some (n, resetAt) \<Rightarrow>
          if now - resetAt < FORGOT_PW_WINDOW
          then (if FORGOT_PW_MAX \<le> n then None else Some (AList.update emailKey (n + 1, resetAt) m))
          else Some (AList.update emailKey (1, now) m)
      | None \<Rightarrow> Some (AList.update emailKey (1, now) m))"

definition forgot_password :: "auth_env \<Rightarrow> string \<Rightarrow> auth_srv \<Rightarrow> string auth_reply" where
  "forgot_password e email s =
     (let cleanEmail = to_lower (js_trim email);
          told = (Inr (200, ''If an account with that email exists, a reset link has been sent''), KeepCookie)
      in case forgot_hit (ax_now e) cleanEmail (au_forgot s) of
           None \<Rightarrow> (fst told, snd told, s)
         | Some m \<Rightarrow>
             let s1 = s\<lparr>au_forgot := m\<rparr>
             in (fst told, snd told,
                 case findUserByEmail cleanEmail (au_db s1) of
                   None \<Rightarrow> s1
                 | Some a \<Rightarrow>
                     send_mail e cleanEmail (ResetMail (ax_link e))
                       (on_db (createResetToken (ax_now e) (ac_id a) (ax_hash e (ax_link e)))
                         (on_db (invalidateResetTokens (ax_now e) (ac_id a)) s1))))"

definition resolveResetToken :: "auth_env \<Rightarrow> string \<Rightarrow> auth_srv \<Rightarrow> (string + string) \<times> auth_srv" where
  "resolveResetToken e token s =
     (let tokenHash = ax_hash e token
      in case map_of (au_adminTokens s) tokenHash of
           Some (userId, expiresAt) \<Rightarrow>
             if expiresAt < ax_now e
             then (Inl ''Reset link has expired'', s\<lparr>au_adminTokens := AList.delete tokenHash (au_adminTokens s)\<rparr>)
             else (Inr userId, s)
         | None \<Rightarrow>
             (case consumeResetToken (ax_now e) tokenHash (au_db s) of
                (Some userId, d) \<Rightarrow> (Inr userId, s\<lparr>au_db := d\<rparr>)
              | (None, d) \<Rightarrow> (Inl ''Invalid or expired reset link'', s\<lparr>au_db := d\<rparr>)))"

definition forget_admin_token :: "string \<Rightarrow> auth_srv \<Rightarrow> auth_srv" where
  "forget_admin_token tokenHash s = s\<lparr>au_adminTokens := AList.delete tokenHash (au_adminTokens s)\<rparr>"

definition reset_password :: "auth_env \<Rightarrow> string \<Rightarrow> string \<Rightarrow> string \<Rightarrow> auth_srv \<Rightarrow> unit auth_reply" where
  "reset_password e token newPassword confirmPassword s =
     (if newPassword \<noteq> confirmPassword then auth_refused 400 ''Passwords do not match'' INVALID_INPUT s
      else case checkPasswordPolicy newPassword None None of
        Some msg \<Rightarrow> auth_refused 400 msg INVALID_INPUT s
      | None \<Rightarrow>
          (case resolveResetToken e token s of
             (Inl msg, s1) \<Rightarrow> auth_refused 400 msg INVALID_INPUT s1
           | (Inr userId, s1) \<Rightarrow>
               (case getUserById userId s1 of
                  None \<Rightarrow> auth_refused 404 ''User not found'' NOT_FOUND (forget_admin_token (ax_hash e token) s1)
                | Some a \<Rightarrow>
                    (Inr (200, ()), KeepCookie,
                     forget_admin_token (ax_hash e token) (drop_credentials e a (set_password userId (ax_hashed e newPassword) s1))))))"

subsection \<open>Confirming an address\<close>

definition is_link_token :: "string \<Rightarrow> bool" where
  "is_link_token t \<longleftrightarrow> length t = 64 \<and> list_all (\<lambda>c. hex_digit c \<noteq> None \<and> lower_char c = c) t"

text \<open>Whether the confirmed address replaces another one.\<close>

definition identity_moved :: "account option \<Rightarrow> string \<Rightarrow> bool" where
  "identity_moved user email =
     (case Option.bind user (\<lambda>a. or_null (ac_email a)) of Some m \<Rightarrow> to_lower m \<noteq> to_lower email | None \<Rightarrow> False)"

definition drop_identity :: "auth_env \<Rightarrow> string \<Rightarrow> auth_srv \<Rightarrow> auth_srv" where
  "drop_identity e userId s =
     on_relay (disconnectUserSockets userId)
       (on_db (revokeAll userId)
         (invalidateUserSessions e userId None (on_db (invalidateVerificationTokens (ax_now e) userId) s)))"

definition verify_email :: "auth_env \<Rightarrow> string \<Rightarrow> auth_srv \<Rightarrow> (string \<times> bool) auth_reply" where
  "verify_email e raw s =
     (let token = js_trim raw
      in if \<not> is_link_token token then auth_refused 400 ''Invalid verification link'' INVALID_INPUT s
         else case consumeVerificationToken (ax_now e) (ax_hash e token) (au_db s) of
           (None, d) \<Rightarrow> auth_refused 400 ''This verification link has expired or already been used'' INVALID_INPUT (s\<lparr>au_db := d\<rparr>)
         | (Some (userId, email), d) \<Rightarrow>
             let s1 = s\<lparr>au_db := d\<rparr>; moved = identity_moved (getUserById userId s1) email
             in case updateUserEmail (ax_now e) userId email d of
                  None \<Rightarrow> auth_refused 409
                    ''That address is now in use by another account. Request the email change again from your account settings.''
                    ALREADY_EXISTS s1
                | Some d2 \<Rightarrow>
                    (Inr (200, email, moved), KeepCookie,
                     if moved then drop_identity e userId (s1\<lparr>au_db := d2\<rparr>) else s1\<lparr>au_db := d2\<rparr>))"

definition RESEND_VERIFY_WINDOW :: int where
  "RESEND_VERIFY_WINDOW = 5 * 60000"

definition RESEND_VERIFY_MAX :: nat where
  "RESEND_VERIFY_MAX = 3"

definition recent_attempts :: "int \<Rightarrow> int list \<Rightarrow> int list" where
  "recent_attempts now = filter (\<lambda>t. now - t < RESEND_VERIFY_WINDOW)"

definition resend_verification :: "auth_env \<Rightarrow> string option \<Rightarrow> auth_srv \<Rightarrow> string auth_reply" where
  "resend_verification e token = userAuth e token (\<lambda>r t s.
     case getUserById (sn_userId r) s of
       None \<Rightarrow> auth_refused 404 ''User not found'' NOT_FOUND s
     | Some a \<Rightarrow>
         (case or_null (ac_email a) of
            None \<Rightarrow> auth_refused 400 ''No email address on file'' INVALID_INPUT s
          | Some email \<Rightarrow>
              if ac_emailVerifiedAt a \<noteq> None then auth_refused 400 ''Email already verified'' INVALID_INPUT s
              else
                let key = to_lower email;
                    recent = recent_attempts (ax_now e) (case map_of (au_resend s) key of Some ts \<Rightarrow> ts | None \<Rightarrow> [])
                in if RESEND_VERIFY_MAX \<le> length recent
                   then auth_refused 429 (''Too many verification emails sent to this address. Try again in ''
                          @ show_int (ceil_div (hd recent + RESEND_VERIFY_WINDOW - ax_now e) 1000) @ ''s'') RATE_LIMITED s
                   else
                     let m = (if 10000 \<le> length (au_resend s) then tl (au_resend s) else au_resend s)
                     in (Inr (200, ''Verification email sent''), KeepCookie,
                         send_mail e email (VerifyMail (ax_link e))
                           (on_db (createVerificationToken (ax_now e) (sn_userId r) (ax_hash e (ax_link e)) email
                              (EMAIL_VERIFY_TOKEN_TTL_HOURS (ax_config e)))
                             (on_db (invalidateVerificationTokens (ax_now e) (sn_userId r))
                               (s\<lparr>au_resend := AList.update key (recent @ [ax_now e]) m\<rparr>))))))"

text \<open>The interval that clears both maps.\<close>

definition mail_cleanup :: "int \<Rightarrow> auth_srv \<Rightarrow> auth_srv" where
  "mail_cleanup now s =
     s\<lparr>au_forgot := filter (\<lambda>(k, n, resetAt). \<not> FORGOT_PW_WINDOW \<le> now - resetAt) (au_forgot s),
       au_resend := filter (\<lambda>(k, ts). ts \<noteq> []) (map (\<lambda>(k, ts). (k, recent_attempts now ts)) (au_resend s))\<rparr>"

subsection \<open>The account routes\<close>

definition change_email :: "auth_env \<Rightarrow> string option \<Rightarrow> string \<Rightarrow> string \<Rightarrow> auth_srv \<Rightarrow> string auth_reply" where
  "change_email e token email password = userAuth e token (\<lambda>r t s.
     let cleanEmail = to_lower (js_trim email)
     in case getUserById (sn_userId r) s of
          None \<Rightarrow> auth_refused 404 ''User not found'' NOT_FOUND s
        | Some a \<Rightarrow>
            if \<not> ax_verify e password (ac_passwordHash a) then auth_refused 400 ''Incorrect password'' PASSWORD_INCORRECT s
            else if checkEmailExists cleanEmail (sn_userId r) (au_db s)
            then auth_refused 400 ''Email address already in use'' ALREADY_EXISTS s
            else
              let s1 = send_mail e cleanEmail (VerifyMail (ax_link e))
                    (on_db (replaceVerificationToken (ax_now e) (sn_userId r) (ax_hash e (ax_link e)) cleanEmail
                       (EMAIL_VERIFY_TOKEN_TTL_HOURS (ax_config e)) (or_null (ac_email a))) s)
              in (Inr (200, ''Verification link sent. Your login email changes only when you open it.''), KeepCookie,
                  case or_null (ac_email a) of Some m \<Rightarrow> send_mail e m ChangeNotice s1 | None \<Rightarrow> s1))"

definition performSoftDelete :: "auth_env \<Rightarrow> string \<Rightarrow> auth_srv \<Rightarrow> auth_srv" where
  "performSoftDelete e userId s =
     (let s1 = on_db (revokeAll userId)
            (invalidateUserSessions e userId None
              (on_db (\<lambda>d. snd (users_update userId (ac_deletedAt_update (\<lambda>_. Some (ax_now e))) d)) s))
      in on_relay (disconnectUserSockets userId)
           (s1\<lparr>au_devices := filter (\<lambda>(u, x). u \<noteq> userId) (au_devices s1),
               au_profiles := map (\<lambda>p. if op_userId p = Some userId then p\<lparr>op_deleted := True\<rparr> else p) (au_profiles s1)\<rparr>))"

definition delete_account :: "auth_env \<Rightarrow> string option \<Rightarrow> string \<Rightarrow> auth_srv \<Rightarrow> string auth_reply" where
  "delete_account e token password = userAuth e token (\<lambda>r t s.
     case getUserById (sn_userId r) s of
       None \<Rightarrow> auth_refused 404 ''User not found'' NOT_FOUND s
     | Some a \<Rightarrow>
         if ac_deletedAt a \<noteq> None then auth_refused 400 ''Account is already scheduled for deletion'' INVALID_INPUT s
         else if \<not> ax_verify e password (ac_passwordHash a) then auth_refused 403 ''Incorrect password'' PASSWORD_INCORRECT s
         else (Inr (200, ''Account scheduled for deletion. You have 30 days to reactivate by logging in.''), ClearCookie,
               performSoftDelete e (sn_userId r) s))"

subsection \<open>The administrators' routes\<close>

definition admin_reset_link :: "auth_env \<Rightarrow> (string \<Rightarrow> bool) \<Rightarrow> string option \<Rightarrow> string \<Rightarrow> auth_srv \<Rightarrow> string auth_reply" where
  "admin_reset_link e isAdmin token target = adminAuth e isAdmin token (\<lambda>r t s.
     case sanitizeIdentifier target of
       None \<Rightarrow> auth_refused 400 ''Invalid user ID'' INVALID_INPUT s
     | Some u \<Rightarrow>
         (case getUserById u s of
            None \<Rightarrow> auth_refused 404 ''User not found'' NOT_FOUND s
          | Some a \<Rightarrow>
              let expiresAt = ax_now e + RESET_TOKEN_TTL (ax_config e); h = ax_hash e (ax_link e)
              in (Inr (200, ax_link e), KeepCookie,
                  (on_db (\<lambda>d. d\<lparr>ad_reset := ad_reset d @ [\<lparr>lk_userId = u, lk_hash = h, lk_email = [],
                      lk_expiresAt = expiresAt, lk_usedAt = None\<rparr>]\<rparr>) s)
                    \<lparr>au_adminTokens := AList.update h (u, expiresAt) (au_adminTokens s)\<rparr>)))"

definition admin_reset_password ::
  "auth_env \<Rightarrow> (string \<Rightarrow> bool) \<Rightarrow> string option \<Rightarrow> string \<Rightarrow> string \<Rightarrow> auth_srv \<Rightarrow> string auth_reply" where
  "admin_reset_password e isAdmin token target newPassword = adminAuth e isAdmin token (\<lambda>r t s.
     case sanitizeIdentifier target of
       None \<Rightarrow> auth_refused 400 ''Invalid user ID'' INVALID_INPUT s
     | Some u \<Rightarrow>
         (case checkPasswordPolicy newPassword None None of
            Some msg \<Rightarrow> auth_refused 400 msg INVALID_INPUT s
          | None \<Rightarrow>
              (case getUserById u s of
                 None \<Rightarrow> auth_refused 404 ''User not found'' NOT_FOUND s
               | Some a \<Rightarrow>
                   (Inr (200, ac_username a), KeepCookie,
                    on_relay (disconnectUserSockets u)
                      (on_db (revokeAll u) (invalidateUserSessions e u None (set_password u (ax_hashed e newPassword) s)))))))"

definition force_logout ::
  "auth_env \<Rightarrow> (string \<Rightarrow> bool) \<Rightarrow> string option \<Rightarrow> string list \<Rightarrow> auth_srv \<Rightarrow> string list auth_reply" where
  "force_logout e isAdmin token userIds = adminAuth e isAdmin token (\<lambda>r t s.
     if 50 < length userIds then auth_refused 400 ''Provide 1-50 user IDs'' INVALID_INPUT s
     else (Inr (200, userIds), KeepCookie,
           on_db (fold (\<lambda>u d. snd (deleteUserSessions u None d)) userIds) s))"

end
