(* ===== verification/Auth_Inv.thy ===== *)
theory Auth_Inv
  imports Auth_Mail
begin

text \<open>
  The requests to the authentication routes as one step function, and what every request keeps of
  the tables: an invariant of sessions and refresh tokens that the queries of
  \<open>lib/db/stores/sessions.ts\<close> keep is kept by every sequence of requests (locale \<open>token_invariant\<close>).
\<close>

datatype auth_request =
    Register register_body
  | Login string string
  | Verify "string option"
  | Me "string option"
  | Logout "string option"
  | Refresh "string option"
  | RefreshToken string
  | GetSessions "string option"
  | DeleteSession "string option" string
  | DeleteSessions "string option"
  | ChangePassword "string option" change_body
  | ForgotPassword string
  | ResetPassword string string string
  | VerifyEmail string
  | ResendVerification "string option"
  | ChangeEmail "string option" string string
  | DeleteAccount "string option" string
  | AdminResetLink "string option" string
  | AdminResetPassword "string option" string string
  | ForceLogout "string option" "string list"
  | Sweep

text \<open>\<open>Sweep\<close> is the hourly cleanup of expired rows with the interval of the mail routes.\<close>

fun auth_serve :: "(string \<Rightarrow> bool) \<Rightarrow> auth_env \<Rightarrow> auth_request \<Rightarrow> auth_srv \<Rightarrow> auth_srv" where
  "auth_serve adm e (Register b) s = snd (snd (register e b s))"
| "auth_serve adm e (Login u p) s = snd (snd (login e u p s))"
| "auth_serve adm e (Verify t) s = snd (snd (verify e t s))"
| "auth_serve adm e (Me t) s = snd (snd (me e t s))"
| "auth_serve adm e (Logout t) s = snd (snd (logout e t s))"
| "auth_serve adm e (Refresh t) s = snd (snd (refresh e t s))"
| "auth_serve adm e (RefreshToken r) s = snd (snd (refresh_token e r s))"
| "auth_serve adm e (GetSessions t) s = snd (snd (get_sessions e t s))"
| "auth_serve adm e (DeleteSession t i) s = snd (snd (delete_session e t i s))"
| "auth_serve adm e (DeleteSessions t) s = snd (snd (delete_sessions e t s))"
| "auth_serve adm e (ChangePassword t b) s = snd (snd (change_password e t b s))"
| "auth_serve adm e (ForgotPassword m) s = snd (snd (forgot_password e m s))"
| "auth_serve adm e (ResetPassword t p c) s = snd (snd (reset_password e t p c s))"
| "auth_serve adm e (VerifyEmail t) s = snd (snd (verify_email e t s))"
| "auth_serve adm e (ResendVerification t) s = snd (snd (resend_verification e t s))"
| "auth_serve adm e (ChangeEmail t m p) s = snd (snd (change_email e t m p s))"
| "auth_serve adm e (DeleteAccount t p) s = snd (snd (delete_account e t p s))"
| "auth_serve adm e (AdminResetLink t u) s = snd (snd (admin_reset_link e adm t u s))"
| "auth_serve adm e (AdminResetPassword t u p) s = snd (snd (admin_reset_password e adm t u p s))"
| "auth_serve adm e (ForceLogout t us) s = snd (snd (force_logout e adm t us s))"
| "auth_serve adm e Sweep s =
     mail_cleanup (ax_now e)
       (on_db (refresh_deleteExpired (ax_now e))
         (on_db (\<lambda>d. snd (deleteExpiredUserSessions (SESSION_TTL (ax_config e)) (ax_now e) d)) s))"

definition auth_run :: "(string \<Rightarrow> bool) \<Rightarrow> (auth_env \<times> auth_request) list \<Rightarrow> auth_srv \<Rightarrow> auth_srv" where
  "auth_run adm = fold (\<lambda>(e, q). auth_serve adm e q)"

subsection \<open>What the queries touch\<close>

lemma on_db_simps [simp]:
  "au_db (on_db f s) = f (au_db s)" "au_db (on_relay g s) = au_db s"
  "au_relay (on_relay g s) = g (au_relay s)" "au_relay (on_db f s) = au_relay s"
  "au_adminTokens (on_db f s) = au_adminTokens s" "au_adminTokens (on_relay g s) = au_adminTokens s"
  by (simp_all add: on_db_def on_relay_def)

lemma auth_world_simps [simp]:
  "au_db (claimOrphanProfiles u n s) = au_db s" "au_db (send_mail e m k s) = au_db s"
  "au_db (disconnectSessionSockets e P r s) = au_db s" "au_db (forget_admin_token h s) = au_db s"
  "au_db (mail_cleanup now s) = au_db s"
  by (simp_all add: claimOrphanProfiles_def send_mail_def disconnectSessionSockets_def forget_admin_token_def mail_cleanup_def Let_def)

definition tokens_same :: "auth_db \<Rightarrow> auth_db \<Rightarrow> bool" where
  "tokens_same d d' \<longleftrightarrow> ad_sessions d' = ad_sessions d \<and> ad_refresh d' = ad_refresh d"

lemma tokens_same_queries:
  "tokens_same d (failures_record now u d)" "tokens_same d (failures_reset u d)" "tokens_same d (failures_lock u t d)"
  "tokens_same d (snd (users_update u f d))" "tokens_same d (invalidateResetTokens now u d)"
  "tokens_same d (createResetToken now u h d)" "tokens_same d (snd (consumeResetToken now h d))"
  "tokens_same d (createVerificationToken now u h m ttl d)" "tokens_same d (snd (consumeVerificationToken now h d))"
  "tokens_same d (invalidateVerificationTokens now u d)" "tokens_same d (invalidatePendingEmailChanges now u k d)"
  "tokens_same d (replaceVerificationToken now u h m ttl k d)" "tokens_same d (d\<lparr>ad_reset := ls\<rparr>)"
  by (simp_all add: tokens_same_def failures_record_def failures_reset_def failures_lock_def users_update_def Let_def
      invalidateResetTokens_def createResetToken_def consumeResetToken_def createVerificationToken_def
      consumeVerificationToken_def invalidateVerificationTokens_def invalidatePendingEmailChanges_def
      replaceVerificationToken_def split: option.split)

lemma tokens_same_created: "users_create a d = Some d' \<Longrightarrow> tokens_same d d'"
  by (auto simp: users_create_def tokens_same_def split: if_splits)

lemma tokens_same_email: "updateUserEmail now u m d = Some d' \<Longrightarrow> tokens_same d d'"
  by (auto simp: updateUserEmail_def tokens_same_def split: if_splits)

lemma tokens_same_failure: "tokens_same (au_db s) (au_db (handleLoginFailure e user s))"
  by (auto simp: handleLoginFailure_def tokens_same_def failures_record_def failures_lock_def Let_def split: option.split)

subsection \<open>Invariants of tokens\<close>

locale token_invariant =
  fixes inv :: "auth_db \<Rightarrow> bool" and ok :: "auth_env \<Rightarrow> bool"
  assumes inv_same: "tokens_same d d' \<Longrightarrow> inv d \<Longrightarrow> inv d'"
    and inv_drop: "inv d \<Longrightarrow> inv (drop_sessions ts d)"
    and inv_touch: "inv d \<Longrightarrow> inv (touch_session t now d)"
    and inv_create: "ok e \<Longrightarrow> inv d \<Longrightarrow> db_createUserSession (USER_SESSION_MAX (ax_config e)) r d = Some (out, d') \<Longrightarrow> inv d'"
    and inv_expire: "inv d \<Longrightarrow> inv (snd (deleteExpiredUserSessions ttl now d))"
    and inv_refresh: "ok e \<Longrightarrow> inv d \<Longrightarrow> rt_token x = ax_hash e (ax_refresh e) \<Longrightarrow> refresh_create x d = Some d' \<Longrightarrow> inv d'"
    and inv_drop_refresh: "inv d \<Longrightarrow> inv (drop_refresh t d)"
    and inv_rotate: "ok e \<Longrightarrow> inv d \<Longrightarrow> refresh_rotate now old (ax_hash e (ax_refresh e)) t till d = Some d' \<Longrightarrow> inv d'"
    and inv_revoke: "inv d \<Longrightarrow> inv (revokeAll u d)"
    and inv_expire_refresh: "inv d \<Longrightarrow> inv (refresh_deleteExpired now d)"
begin

lemmas inv_queries = tokens_same_queries [THEN inv_same]

lemma inv_validate: "inv d \<Longrightarrow> inv (snd (db_validateUserSession ttl now t d))"
  by (auto simp: db_validateUserSession_def intro: inv_drop inv_touch split: option.split)

lemma inv_session: "inv (au_db s) \<Longrightarrow> inv (au_db (snd (validateUserSession e t s)))"
  using inv_validate [of "au_db s"]
  by (auto simp: validateUserSession_def split: option.split prod.split) (metis snd_conv)

lemma inv_sessions: "inv d \<Longrightarrow> inv (snd (deleteUserSessions u x d))"
  by (simp add: deleteUserSessions_def Let_def inv_drop)

lemma inv_delete: "inv d \<Longrightarrow> inv (deleteUserSession t d)"
  by (simp add: deleteUserSession_def inv_drop)

lemma inv_invalidate: "inv (au_db s) \<Longrightarrow> inv (au_db (invalidateUserSessions e u x s))"
  by (simp add: invalidateUserSessions_def inv_sessions)

lemma inv_refresh_validate: "inv d \<Longrightarrow> inv (snd (refresh_validate now t d))"
  by (auto simp: refresh_validate_def intro: inv_drop_refresh split: option.split)

lemma inv_created:
  assumes "ok e" "inv (au_db s)" "createUserSession e u n s = Some (t, s')"
  shows "inv (au_db s')"
  using assms by (auto simp: createUserSession_def split: option.splits prod.splits intro: inv_create)

lemma inv_issued:
  assumes "ok e" "inv (au_db s)" "issueRefreshToken e u t s = Some (rt, s')"
  shows "inv (au_db s')"
  using assms(3) by (auto simp: issueRefreshToken_def intro: inv_refresh [OF assms(1,2), rotated])

lemma inv_sign_in:
  assumes "ok e" "inv (au_db s)"
  shows "inv (au_db (snd (snd (sign_in e a msg s))))"
  using assms(2)
  by (auto simp: sign_in_def auth_failed_def split: option.split prod.split
      intro: inv_created [OF assms(1)] inv_issued [OF assms(1)])

lemma inv_userAuth:
  assumes "inv (au_db s)" and "\<And>r t s. inv (au_db s) \<Longrightarrow> inv (au_db (snd (snd (run r t s))))"
  shows "inv (au_db (snd (snd (userAuth e tok run s))))"
  using inv_session [OF assms(1), of e tok] assms(2)
  by (auto simp: userAuth_def auth_refused_def split: prod.split option.split)

lemma inv_adminAuth:
  assumes "inv (au_db s)" and "\<And>r t s. inv (au_db s) \<Longrightarrow> inv (au_db (snd (snd (run r t s))))"
  shows "inv (au_db (snd (snd (adminAuth e adm tok run s))))"
  unfolding adminAuth_def by (rule inv_userAuth [OF assms(1)]) (auto simp: auth_refused_def intro: assms(2))

lemma inv_password: "inv (au_db s) \<Longrightarrow> inv (au_db (set_password u h s))"
  by (simp add: set_password_def inv_queries)

lemma inv_credentials: "inv (au_db s) \<Longrightarrow> inv (au_db (drop_credentials e a s))"
  by (simp add: drop_credentials_def inv_queries inv_revoke inv_invalidate)

lemma inv_profiled:
  assumes "inv (au_db s)" "createUserWithProfile e n h m s = Some (a, s1)"
  shows "inv (au_db s1)"
proof -
  obtain d where "users_create a (au_db s) = Some d"
    and s1: "au_db s1 = (case m of None \<Rightarrow> d | Some x \<Rightarrow> createVerificationToken (ax_now e) (ax_userId e) (ax_hash e (ax_link e)) x
               (EMAIL_VERIFY_TOKEN_TTL_HOURS (ax_config e)) d)"
    using assms(2) by (auto simp: createUserWithProfile_def Let_def split: option.splits)
  then have "inv d" by (metis tokens_same_created inv_same assms(1))
  with s1 show ?thesis by (simp add: inv_queries split: option.split)
qed

lemma inv_register:
  assumes "ok e" "inv (au_db s)"
  shows "inv (au_db (snd (snd (register e b s))))"
proof -
  have "inv (au_db s2)" if "sign_in e a msg s1 = (r, ck, s2)" "createUserWithProfile e n h m s = Some (a, s1)" for a msg s1 s2 r ck n h m
    using inv_sign_in [OF assms(1) inv_profiled [OF assms(2) that(2)], of a msg] that(1) by simp
  then show ?thesis using assms(2)
    by (auto simp: register_def auth_refused_def auth_failed_def split: sum.split option.split prod.split dest: inv_profiled)
qed

lemma inv_login:
  assumes "ok e" "inv (au_db s)"
  shows "inv (au_db (snd (snd (login e u p s))))"
proof -
  have "inv (au_db (snd (attempt_allowed e user s)))" for user
    using assms(2) by (simp add: attempt_allowed_def split: option.split prod.split)
  moreover have "inv (au_db (snd (snd (check_password e user p s1))))" if "inv (au_db s1)" for user s1
    using that tokens_same_failure [THEN inv_same] inv_sign_in [OF assms(1)]
    by (simp add: check_password_def auth_refused_def reactivate_def Let_def inv_queries split: option.split)
  ultimately show ?thesis using assms(2)
    by (simp add: login_def auth_refused_def Let_def split_beta)
qed

lemma inv_fold: "inv d \<Longrightarrow> inv (fold (\<lambda>u d. snd (deleteUserSessions u None d)) us d)"
  by (induction us arbitrary: d) (auto intro: inv_sessions)

lemma inv_refresh_route:
  assumes "ok e" "inv (au_db s)"
  shows "inv (au_db (snd (snd (refresh e t s))))"
  unfolding refresh_def using assms
  by (intro inv_userAuth)
    (auto simp: Let_def auth_failed_def inv_delete split: option.split prod.split dest!: inv_created [OF assms(1), rotated])

lemma inv_exchange:
  assumes "ok e" "inv (au_db s)"
  shows "inv (au_db (snd (snd (refresh_exchange e h r s))))"
  using assms(2)
  by (auto simp: refresh_exchange_def auth_refused_def auth_failed_def split: prod.split option.split
      dest!: inv_created [OF assms(1), rotated] intro: inv_rotate [OF assms(1)])

lemma inv_refresh_token:
  assumes "ok e" "inv (au_db s)"
  shows "inv (au_db (snd (snd (refresh_token e t s))))"
  using inv_refresh_validate [OF assms(2), of "ax_now e" "ax_hash e t"]
  by (auto simp: refresh_token_def auth_refused_def split: prod.split option.split intro: inv_exchange [OF assms(1)])

lemma inv_change_password:
  assumes "ok e" "inv (au_db s)"
  shows "inv (au_db (snd (snd (change_password e t b s))))"
  unfolding change_password_def using assms
  by (intro inv_userAuth)
    (auto simp: Let_def auth_refused_def auth_failed_def inv_credentials inv_password split: option.split prod.split
      dest!: inv_created [OF assms(1), rotated])

lemma inv_reset_password:
  assumes "inv (au_db s)"
  shows "inv (au_db (snd (snd (reset_password e t p c s))))"
proof -
  have "inv (au_db (snd (resolveResetToken e t s)))"
    using inv_same [OF tokens_same_queries(7) assms, of "ax_now e" "ax_hash e t"]
    by (auto simp: resolveResetToken_def Let_def assms split: option.split prod.split)
  then show ?thesis using assms
    by (auto simp: reset_password_def auth_refused_def inv_credentials inv_password split: option.split prod.split sum.split)
qed

lemma inv_verify_email:
  assumes "inv (au_db s)"
  shows "inv (au_db (snd (snd (verify_email e t s))))"
proof -
  have used: "inv (snd (consumeVerificationToken now h (au_db s)))" for now h by (rule inv_queries(9) [OF assms])
  have moved: "inv (au_db (drop_identity e u s1))" if "inv (au_db s1)" for u s1
    using that by (simp add: drop_identity_def inv_revoke inv_invalidate inv_queries)
  show ?thesis
    using used assms
    by (auto simp: verify_email_def Let_def auth_refused_def split: prod.split option.split
        intro!: moved dest!: tokens_same_email intro: inv_same) (metis inv_same snd_conv)+
qed

lemma inv_delete_account:
  assumes "inv (au_db s)"
  shows "inv (au_db (snd (snd (delete_account e t p s))))"
proof -
  have "inv (au_db (performSoftDelete e u s1))" if "inv (au_db s1)" for u s1
    using that by (simp add: performSoftDelete_def Let_def inv_revoke inv_invalidate inv_queries)
  then show ?thesis unfolding delete_account_def
    by (intro inv_userAuth assms) (auto simp: auth_refused_def split: option.split)
qed

lemma inv_serve:
  assumes "ok e" "inv (au_db s)"
  shows "inv (au_db (auth_serve adm e q s))"
proof (cases q)
  case (Verify t)
  then show ?thesis using inv_session [OF assms(2), of e t]
    by (auto simp: verify_def auth_refused_def split: prod.split option.split)
next
  case (Me t)
  then show ?thesis
    by (auto simp: me_def auth_refused_def split: option.split intro!: inv_userAuth assms)
next
  case (Logout t)
  then show ?thesis using assms by (auto simp: logout_def inv_delete split: option.split)
next
  case (GetSessions t)
  then show ?thesis by (auto simp: get_sessions_def intro!: inv_userAuth assms)
next
  case (DeleteSession t i)
  then show ?thesis
    by (auto simp: delete_session_def auth_refused_def inv_delete split: option.split intro!: inv_userAuth assms)
next
  case (DeleteSessions t)
  then show ?thesis
    by (auto simp: delete_sessions_def inv_invalidate intro!: inv_userAuth assms)
next
  case (ForgotPassword m)
  then show ?thesis using assms
    by (auto simp: forgot_password_def Let_def inv_queries split: option.split)
next
  case (ResendVerification t)
  then show ?thesis
    by (auto simp: resend_verification_def auth_refused_def Let_def inv_queries split: option.split intro!: inv_userAuth assms)
next
  case (ChangeEmail t m p)
  then show ?thesis
    by (auto simp: change_email_def auth_refused_def Let_def inv_queries split: option.split intro!: inv_userAuth assms)
next
  case (AdminResetLink t u)
  then show ?thesis
    by (auto simp: admin_reset_link_def auth_refused_def Let_def inv_queries split: option.split intro!: inv_adminAuth assms)
next
  case (AdminResetPassword t u p)
  then show ?thesis
    by (auto simp: admin_reset_password_def auth_refused_def inv_revoke inv_invalidate inv_password split: option.split
        intro!: inv_adminAuth assms)
next
  case (ForceLogout t us)
  then show ?thesis
    by (auto simp: force_logout_def auth_refused_def inv_fold intro!: inv_adminAuth assms)
next
  case Sweep
  then show ?thesis using assms by (simp add: inv_expire_refresh inv_expire)
qed (use assms in \<open>simp_all add: inv_register inv_login inv_refresh_route inv_refresh_token inv_change_password
      inv_reset_password inv_verify_email inv_delete_account\<close>)

lemma inv_run: "list_all (\<lambda>(e, q). ok e) qs \<Longrightarrow> inv (au_db s) \<Longrightarrow> inv (au_db (auth_run adm qs s))"
  unfolding auth_run_def by (induction qs arbitrary: s) (auto intro: inv_serve)

end

end
