(* ===== verification/Auth_Props.thy ===== *)
theory Auth_Props
  imports Auth_Inv Relay_Props
begin

text \<open>
  What signing in and out promises: a bounded number of sessions per user, refresh tokens that work
  once, password changes that end every credential, lockout, and where the routes fall short of
  what their comments say.
\<close>

subsection \<open>An example world\<close>

definition ex_auth_env :: "int \<Rightarrow> string \<Rightarrow> auth_env" where
  "ex_auth_env now w = \<lparr>ax_now = now, ax_hash = (\<lambda>t. CHR ''#'' # t), ax_opaque = (\<lambda>t. t), ax_verify = (=), ax_hashed = (\<lambda>p. p),
     ax_session = concat (replicate 32 w), ax_refresh = ''rt-'' @ w, ax_userId = ''user-'' @ w,
     ax_link = concat (replicate 32 w), ax_mailer = True, ax_native = True, ax_limits = ex_config,
     ax_config = \<lparr>USER_SESSION_MAX = 2, SESSION_TTL = 86400000, REFRESH_TOKEN_TTL = 7776000000, MAX_LOGIN_FAILURES = 1,
        LOGIN_LOCKOUT_MS = 900000, MAX_USERS = 10, EMAIL_VERIFY_TOKEN_TTL_HOURS = 24, RESET_TOKEN_TTL = 3600000\<rparr>\<rparr>"

definition ex_auth :: auth_srv where
  "ex_auth = \<lparr>au_db = \<lparr>ad_users = [], ad_sessions = [], ad_refresh = [], ad_failures = [], ad_verify = [], ad_reset = []\<rparr>,
     au_profiles = [], au_devices = [], au_relay = ex_relay, au_revoked = [], au_mails = [], au_adminTokens = [],
     au_forgot = [], au_resend = [], au_authFailures = 0\<rparr>"

definition ex_signup :: register_body where
  "ex_signup = \<lparr>rg_username = ''ann'', rg_password = ''over the hills'', rg_confirmPassword = ''over the hills'', rg_email = None\<rparr>"

definition ex_ann :: auth_srv where
  "ex_ann = snd (snd (register (ex_auth_env 1 ''aa'') ex_signup ex_auth))"

subsection \<open>At most so many sessions\<close>

interpretation by_access: comparator by_access
proof
  fix x y z
  show "by_access x y \<le> 0 \<or> by_access y x \<le> 0" by (auto simp: by_access_def)
  show "by_access x y \<le> 0 \<Longrightarrow> by_access y z \<le> 0 \<Longrightarrow> by_access x z \<le> 0"
    using str_less_total str_less_trans str_less_irrefl unfolding by_access_def by (smt (verit))
qed

definition sessions_capped :: "nat \<Rightarrow> auth_db \<Rightarrow> bool" where
  "sessions_capped m d \<longleftrightarrow>
     distinct (map sn_token (ad_sessions d)) \<and> (\<forall>u. length (filter (\<lambda>s. sn_userId s = u) (ad_sessions d)) \<le> m)"

lemma filter_not_taken:
  assumes "distinct (map f xs)"
  shows "filter (\<lambda>x. f x \<notin> f ` set (take k xs)) xs = drop k xs"
proof -
  have d: "distinct (map f (take k xs) @ map f (drop k xs))" using assms by (simp flip: map_append)
  have "filter (\<lambda>x. f x \<notin> f ` set (take k xs)) (take k xs @ drop k xs) = drop k xs"
    unfolding filter_append using d by (auto simp: filter_id_conv filter_empty_conv)
  then show ?thesis by simp
qed

lemma length_filter_sorted: "length (filter P (js_sort c xs)) = length (filter P xs)"
  by (metis mset_filter mset_js_sort size_mset)

lemma capped_filter:
  assumes "sessions_capped m d"
  shows "sessions_capped m (d\<lparr>ad_sessions := filter P (ad_sessions d)\<rparr>)"
proof -
  have "length (filter Q (filter P xs)) \<le> length (filter Q xs)" for Q and xs :: "session_row list"
    by (induction xs) auto
  then have "length (filter (\<lambda>s. sn_userId s = u) (filter P (ad_sessions d))) \<le> m" for u
    using assms le_trans unfolding sessions_capped_def by blast
  moreover have "ad_sessions (d\<lparr>ad_sessions := xs\<rparr>) = xs" for xs by simp
  ultimately show ?thesis using assms unfolding sessions_capped_def by (metis distinct_map_filter)
qed

text \<open>After an eviction the user keeps the newest sessions, and the new one is among the rows looked at.\<close>

lemma created_sessions:
  assumes "db_createUserSession m r d = Some (out, d')" and "distinct (map sn_token (ad_sessions d))"
  shows "distinct (map sn_token (ad_sessions d'))"
    and "\<exists>seen. seen = js_sort by_access (filter (\<lambda>s. sn_userId s = sn_userId r) (ad_sessions d @ [r]))
       \<and> out = map sn_token (take (length seen - m) seen)
       \<and> mset (filter (\<lambda>s. sn_userId s = sn_userId r) (ad_sessions d')) = mset (drop (length seen - m) seen)"
    and "filter (\<lambda>s. sn_userId s \<noteq> sn_userId r) (ad_sessions d') = filter (\<lambda>s. sn_userId s \<noteq> sn_userId r) (ad_sessions d)"
    and "ad_refresh d' = ad_refresh d \<and> ad_users d' = ad_users d \<and> ad_verify d' = ad_verify d"
proof -
  let ?rows = "ad_sessions d @ [r]" and ?u = "sn_userId r"
  let ?seen = "js_sort by_access (filter (\<lambda>s. sn_userId s = ?u) ?rows)"
  have out: "out = map sn_token (take (length ?seen - m) ?seen)"
    and d': "d' = drop_sessions (set out) (d\<lparr>ad_sessions := ?rows\<rparr>)" and fresh: "sn_token r \<notin> sn_token ` set (ad_sessions d)"
    using assms(1)
    by (auto simp: db_createUserSession_def insert_session_def evicted_def listUserSessions_def Let_def
        split: option.splits if_splits)
  have dist: "distinct (map sn_token ?rows)" using assms(2) fresh by auto
  have rows': "ad_sessions d' = filter (\<lambda>s. sn_token s \<notin> set out) ?rows" by (simp add: d' drop_sessions_def)
  show "distinct (map sn_token (ad_sessions d'))" unfolding rows' by (rule distinct_map_filter [OF dist])
  have dseen: "distinct (map sn_token ?seen)" unfolding distinct_map_js_sort by (rule distinct_map_filter [OF dist])
  have "mset (filter (\<lambda>s. sn_userId s = ?u) (ad_sessions d'))
      = mset (filter (\<lambda>s. sn_token s \<notin> set out) (filter (\<lambda>s. sn_userId s = ?u) ?rows))"
    unfolding rows' filter_filter by (simp only: conj_commute)
  also have "\<dots> = mset (filter (\<lambda>s. sn_token s \<notin> set out) ?seen)" by (metis mset_filter mset_js_sort)
  also have "\<dots> = mset (drop (length ?seen - m) ?seen)"
    using filter_not_taken [OF dseen, of "length ?seen - m"] by (simp add: out)
  finally show "\<exists>seen. seen = js_sort by_access (filter (\<lambda>s. sn_userId s = ?u) ?rows)
       \<and> out = map sn_token (take (length seen - m) seen)
       \<and> mset (filter (\<lambda>s. sn_userId s = ?u) (ad_sessions d')) = mset (drop (length seen - m) seen)"
    using out by blast
  have "sn_token s \<notin> set out" if "s \<in> set ?rows" "sn_userId s \<noteq> ?u" for s
  proof
    assume "sn_token s \<in> set out"
    then obtain x where "x \<in> set ?seen" "sn_token x = sn_token s" unfolding out by (auto dest: in_set_takeD)
    then have "x \<in> set ?rows" "sn_userId x = ?u" by auto
    with dist that \<open>sn_token x = sn_token s\<close> show False by (metis inj_on_eq_iff distinct_map)
  qed
  then have "filter (\<lambda>s. sn_userId s \<noteq> ?u) (ad_sessions d') = filter (\<lambda>s. sn_userId s \<noteq> ?u) ?rows"
    unfolding rows' filter_filter by (intro filter_cong refl) blast
  then show "filter (\<lambda>s. sn_userId s \<noteq> ?u) (ad_sessions d') = filter (\<lambda>s. sn_userId s \<noteq> ?u) (ad_sessions d)" by simp
  show "ad_refresh d' = ad_refresh d \<and> ad_users d' = ad_users d \<and> ad_verify d' = ad_verify d"
    by (simp add: d' drop_sessions_def)
qed

lemma capped_created:
  assumes "sessions_capped m d" "db_createUserSession m r d = Some (out, d')"
  shows "sessions_capped m d'"
proof -
  have dist: "distinct (map sn_token (ad_sessions d))" using assms(1) by (simp add: sessions_capped_def)
  note made = created_sessions [OF assms(2) dist]
  have "length (filter (\<lambda>s. sn_userId s = u) (ad_sessions d')) \<le> m" for u
  proof (cases "u = sn_userId r")
    case True
    obtain seen where "mset (filter (\<lambda>s. sn_userId s = sn_userId r) (ad_sessions d')) = mset (drop (length seen - m) seen)"
      using made(2) by blast
    from mset_eq_length [OF this] True show ?thesis by simp
  next
    case False
    then have "filter (\<lambda>s. sn_userId s = u) xs = filter (\<lambda>s. sn_userId s = u) (filter (\<lambda>s. sn_userId s \<noteq> sn_userId r) xs)" for xs
      unfolding filter_filter by (intro filter_cong refl) blast
    with made(3) have "filter (\<lambda>s. sn_userId s = u) (ad_sessions d') = filter (\<lambda>s. sn_userId s = u) (ad_sessions d)" by metis
    with assms(1) show ?thesis by (simp add: sessions_capped_def)
  qed
  with made(1) show ?thesis by (simp add: sessions_capped_def)
qed

interpretation capped: token_invariant "sessions_capped m" "\<lambda>e. USER_SESSION_MAX (ax_config e) = m" for m
proof
  fix d d' e r out ts t now ttl
  show "tokens_same d d' \<Longrightarrow> sessions_capped m d \<Longrightarrow> sessions_capped m d'"
    by (simp add: tokens_same_def sessions_capped_def)
  show "sessions_capped m d \<Longrightarrow> sessions_capped m (drop_sessions ts d)"
    unfolding drop_sessions_def by (rule capped_filter)
  show "sessions_capped m d \<Longrightarrow> sessions_capped m (snd (deleteExpiredUserSessions ttl now d))"
    unfolding deleteExpiredUserSessions_def snd_conv by (rule capped_filter)
  show "USER_SESSION_MAX (ax_config e) = m \<Longrightarrow> sessions_capped m d
      \<Longrightarrow> db_createUserSession (USER_SESSION_MAX (ax_config e)) r d = Some (out, d') \<Longrightarrow> sessions_capped m d'"
    using capped_created by blast
  let ?touch = "\<lambda>s :: session_row. if sn_token s = t then s\<lparr>sn_lastAccess := now\<rparr> else s"
  have "(\<lambda>s. sn_userId s = u) \<circ> ?touch = (\<lambda>s. sn_userId s = u)" for u by (rule ext) simp
  moreover have "sn_token \<circ> ?touch = sn_token" by (rule ext) simp
  ultimately show "sessions_capped m d \<Longrightarrow> sessions_capped m (touch_session t now d)"
    by (simp add: sessions_capped_def touch_session_def filter_map)
qed (auto simp: sessions_capped_def refresh_create_def refresh_rotate_def drop_refresh_def revokeAll_def
    refresh_deleteExpired_def split: if_splits option.splits)




subsection \<open>Refresh tokens work once\<close>

definition refresh_spent :: "string \<Rightarrow> auth_db \<Rightarrow> bool" where
  "refresh_spent h d = list_all (\<lambda>x. rt_token x = h \<longrightarrow> rt_revoked x) (ad_refresh d)"

interpretation spent: token_invariant "refresh_spent h" "\<lambda>e. ax_hash e (ax_refresh e) \<noteq> h" for h
proof
  fix d d' e r out m ts t now ttl x old till u
  show "tokens_same d d' \<Longrightarrow> refresh_spent h d \<Longrightarrow> refresh_spent h d'" by (simp add: tokens_same_def refresh_spent_def)
  show "ax_hash e (ax_refresh e) \<noteq> h \<Longrightarrow> refresh_spent h d
      \<Longrightarrow> db_createUserSession (USER_SESSION_MAX (ax_config e)) r d = Some (out, d') \<Longrightarrow> refresh_spent h d'"
    by (auto simp: db_createUserSession_def insert_session_def drop_sessions_def refresh_spent_def Let_def
        split: option.splits if_splits)
  show "ax_hash e (ax_refresh e) \<noteq> h \<Longrightarrow> refresh_spent h d
      \<Longrightarrow> refresh_rotate now old (ax_hash e (ax_refresh e)) t till d = Some d' \<Longrightarrow> refresh_spent h d'"
    by (auto simp: refresh_rotate_def refresh_create_def refresh_spent_def list_all_iff split: option.splits if_splits)
qed (auto simp: refresh_spent_def list_all_iff drop_sessions_def touch_session_def deleteExpiredUserSessions_def
    refresh_create_def drop_refresh_def revokeAll_def refresh_deleteExpired_def split: if_splits)

lemma find_holds: "find P xs = Some x \<Longrightarrow> x \<in> set xs \<and> P x"
  by (auto simp: find_Some_iff)

lemma spent_refused:
  assumes "refresh_spent (ax_hash e t) (au_db s)"
  shows "fst (refresh_token e t s) = Inl (401, ''Invalid or expired refresh token'', TOKEN_EXPIRED)"
proof (cases "refresh_of (ax_hash e t) (au_db s)")
  case None
  then show ?thesis by (simp add: refresh_token_def refresh_validate_def auth_refused_def)
next
  case (Some x)
  then have "x \<in> set (ad_refresh (au_db s))" "rt_token x = ax_hash e t"
    unfolding refresh_of_def by (auto dest: find_holds)
  with assms have "rt_revoked x" by (simp add: refresh_spent_def list_all_iff)
  with Some show ?thesis by (simp add: refresh_token_def refresh_validate_def auth_refused_def)
qed

lemma rotated_tokens:
  "rt_token ` set (map (\<lambda>x. if rt_token x = h then x\<lparr>rt_revoked := True, rt_rotatedAt := r\<rparr> else x) (xs :: refresh_row list))
    = rt_token ` set xs"
  by (induction xs) auto

lemma exchanged_spent:
  assumes "refresh_exchange e h r s = (Inr (200, body), ck, s')"
  shows "refresh_spent h (au_db s')"
proof -
  obtain d0 t d where rot: "refresh_rotate (ax_now e) h (ax_hash e (ax_refresh e)) t (ax_now e + REFRESH_TOKEN_TTL (ax_config e))
      d0 = Some d" and s': "au_db s' = d"
    using assms by (auto simp: refresh_exchange_def auth_refused_def auth_failed_def split: option.splits prod.splits)
  obtain x where x: "refresh_of h d0 = Some x" using rot by (auto simp: refresh_rotate_def split: option.splits)
  then have "h \<in> rt_token ` set (ad_refresh d0)" unfolding refresh_of_def by (auto dest: find_holds)
  moreover have new: "ax_hash e (ax_refresh e) \<notin> rt_token ` set (ad_refresh d0)"
    and d: "\<exists>n. rt_token n = ax_hash e (ax_refresh e) \<and> ad_refresh d
      = map (\<lambda>x. if rt_token x = h then x\<lparr>rt_revoked := True, rt_rotatedAt := Some (ax_now e)\<rparr> else x) (ad_refresh d0) @ [n]"
    using rot x by (auto simp: refresh_rotate_def refresh_create_def rotated_tokens simp del: set_map split: if_splits)
  ultimately have other: "ax_hash e (ax_refresh e) \<noteq> h" by metis
  obtain n where n: "rt_token n = ax_hash e (ax_refresh e)" "ad_refresh d
      = map (\<lambda>x. if rt_token x = h then x\<lparr>rt_revoked := True, rt_rotatedAt := Some (ax_now e)\<rparr> else x) (ad_refresh d0) @ [n]"
    using d by blast
  have "list_all (\<lambda>y. rt_token y = h \<longrightarrow> rt_revoked y)
      (map (\<lambda>x. if rt_token x = h then x\<lparr>rt_revoked := True, rt_rotatedAt := r'\<rparr> else x) xs)" for r' and xs :: "refresh_row list"
    by (induction xs) auto
  then show ?thesis unfolding refresh_spent_def s' n(2) list_all_append by (simp only: list.pred_inject n(1) other simp_thms)
qed

lemma token_exchanged:
  "refresh_token e t s = (Inr (200, body), ck, s') \<Longrightarrow>
     \<exists>r d. refresh_exchange e (ax_hash e t) r (s\<lparr>au_db := d\<rparr>) = (Inr (200, body), ck, s')"
  by (auto simp: refresh_token_def auth_refused_def split: prod.splits option.splits)

text \<open>C21. A refresh token works once: after it has been exchanged it is refused, whatever requests
  anyone makes in between, as long as no later random token collides with it.\<close>

theorem refresh_token_once:
  assumes "refresh_token e t s = (Inr (200, body), ck, s')"
    and "list_all (\<lambda>(e2, q). ax_hash e2 (ax_refresh e2) \<noteq> ax_hash e t) qs" and "ax_hash e' t = ax_hash e t"
  shows "fst (refresh_token e' t (auth_run adm qs s')) = Inl (401, ''Invalid or expired refresh token'', TOKEN_EXPIRED)"
proof -
  have "refresh_spent (ax_hash e t) (au_db s')" using token_exchanged [OF assms(1)] exchanged_spent by blast
  from spent.inv_run [OF assms(2) this] show ?thesis by (intro spent_refused) (simp add: assms(3))
qed

lemma refresh_token_once_witness:
  "fst (refresh_token (ex_auth_env 9 ''dd'') ''rt-aa''
     (auth_run (\<lambda>_. False) [(ex_auth_env 6 ''cc'', Login ''ann'' ''over the hills'')]
       (snd (snd (refresh_token (ex_auth_env 5 ''bb'') ''rt-aa'' ex_ann)))))
   = Inl (401, ''Invalid or expired refresh token'', TOKEN_EXPIRED)"
proof (rule refresh_token_once)
  have "fst (refresh_token (ex_auth_env 5 ''bb'') ''rt-aa'' ex_ann)
      = Inr (200, signed_in_as (ex_auth_env 5 ''bb'') (hd (ad_users (au_db ex_ann))) (Some (concat (replicate 32 ''bb''))) (Some ''rt-bb''))"
    and "fst (snd (refresh_token (ex_auth_env 5 ''bb'') ''rt-aa'' ex_ann)) = SetCookie (concat (replicate 32 ''bb''))"
    by code_simp+
  then show "refresh_token (ex_auth_env 5 ''bb'') ''rt-aa'' ex_ann
      = (Inr (200, signed_in_as (ex_auth_env 5 ''bb'') (hd (ad_users (au_db ex_ann))) (Some (concat (replicate 32 ''bb''))) (Some ''rt-bb'')),
         SetCookie (concat (replicate 32 ''bb'')), snd (snd (refresh_token (ex_auth_env 5 ''bb'') ''rt-aa'' ex_ann)))"
    by (metis prod.collapse)
qed (simp_all add: ex_auth_env_def)

text \<open>The validation and the rotation are two transactions, and the rotation asks only that the row is
  there: two exchanges of one token that have both passed the validation both get a new chain.\<close>

lemma exchange_race:
  assumes "refresh_exchange e1 h r s = (Inr (200, b1), ck1, s1)"
    and "getUserById (rt_userId r) s1 = Some a" and "createUserSession e2 (ac_id a) (ac_username a) s1 = Some (t, s2)"
    and "refresh_of h (au_db s2) = Some x"
    and "ax_hash e2 (ax_refresh e2) \<notin> rt_token ` set (ad_refresh (au_db s2))" and "rt_userId x \<in> ac_id ` set (ad_users (au_db s2))"
  shows "\<exists>b2 ck2 s3. refresh_exchange e2 h r s1 = (Inr (200, b2), ck2, s3)"
  using assms by (simp add: refresh_exchange_def refresh_rotate_def refresh_create_def rotated_tokens del: set_map)

end
