(* ===== verification/Auth_Safety.thy ===== *)
theory Auth_Safety
  imports Auth_Props
begin

text \<open>
  Credentials across changes of password, address and account: what ends with a password change,
  what a fresh login gives, lockout, and the places where the routes do something else than their
  comments and messages say.
\<close>

subsection \<open>A password change ends every credential\<close>

lemma sessions_deleted:
  assumes "distinct (map sn_token (ad_sessions d))"
  shows "filter (\<lambda>x. sn_userId x = u) (ad_sessions (snd (deleteUserSessions u None d))) = []"
    and "filter (\<lambda>x. sn_userId x \<noteq> u) (ad_sessions (snd (deleteUserSessions u None d))) = filter (\<lambda>x. sn_userId x \<noteq> u) (ad_sessions d)"
    and "distinct (map sn_token (ad_sessions (snd (deleteUserSessions u None d))))"
proof -
  have rows: "ad_sessions (snd (deleteUserSessions u None d))
      = filter (\<lambda>x. sn_token x \<notin> sn_token ` {y \<in> set (ad_sessions d). sn_userId y = u}) (ad_sessions d)"
    by (simp add: deleteUserSessions_def listUserSessions_def drop_sessions_def)
  show "filter (\<lambda>x. sn_userId x = u) (ad_sessions (snd (deleteUserSessions u None d))) = []"
    unfolding rows by (auto simp: filter_empty_conv)
  have "sn_token x \<notin> sn_token ` {y \<in> set (ad_sessions d). sn_userId y = u}"
    if "x \<in> set (ad_sessions d)" "sn_userId x \<noteq> u" for x
    using that assms unfolding distinct_map inj_on_def by blast
  then show "filter (\<lambda>x. sn_userId x \<noteq> u) (ad_sessions (snd (deleteUserSessions u None d))) = filter (\<lambda>x. sn_userId x \<noteq> u) (ad_sessions d)"
    unfolding rows filter_filter by (intro filter_cong refl) blast
  show "distinct (map sn_token (ad_sessions (snd (deleteUserSessions u None d))))"
    unfolding rows by (rule distinct_map_filter [OF assms])
qed

lemma deleted_keeps [simp]:
  "ad_users (snd (deleteUserSessions u x d)) = ad_users d" "ad_refresh (snd (deleteUserSessions u x d)) = ad_refresh d"
  "ad_verify (snd (deleteUserSessions u x d)) = ad_verify d" "ad_reset (snd (deleteUserSessions u x d)) = ad_reset d"
  by (simp_all add: deleteUserSessions_def drop_sessions_def Let_def)

lemma refresh_revoked:
  "filter (\<lambda>x. rt_userId x = u \<and> \<not> rt_revoked x) (ad_refresh (revokeAll u d)) = []"
  "filter (\<lambda>x. rt_userId x \<noteq> u) (ad_refresh (revokeAll u d)) = filter (\<lambda>x. rt_userId x \<noteq> u) (ad_refresh d)"
proof -
  have "filter (\<lambda>x. rt_userId x = u \<and> \<not> rt_revoked x) (map (\<lambda>r. if rt_userId r = u \<and> \<not> rt_revoked r then r\<lparr>rt_revoked := True\<rparr> else r) xs) = []"
    and "filter (\<lambda>x. rt_userId x \<noteq> u) (map (\<lambda>r. if rt_userId r = u \<and> \<not> rt_revoked r then r\<lparr>rt_revoked := True\<rparr> else r) xs)
      = filter (\<lambda>x. rt_userId x \<noteq> u) xs" for xs :: "refresh_row list"
    by (induction xs) auto
  then show "filter (\<lambda>x. rt_userId x = u \<and> \<not> rt_revoked x) (ad_refresh (revokeAll u d)) = []"
    and "filter (\<lambda>x. rt_userId x \<noteq> u) (ad_refresh (revokeAll u d)) = filter (\<lambda>x. rt_userId x \<noteq> u) (ad_refresh d)"
    by (simp_all add: revokeAll_def)
qed

lemma revoked_keeps [simp]:
  "ad_sessions (revokeAll u d) = ad_sessions d" "ad_users (revokeAll u d) = ad_users d" "ad_verify (revokeAll u d) = ad_verify d"
  by (simp_all add: revokeAll_def)

definition pending_change :: "string \<Rightarrow> string option \<Rightarrow> link_row \<Rightarrow> bool" where
  "pending_change u keep k \<longleftrightarrow> lk_userId k = u \<and> lk_usedAt k = None \<and> Some (to_lower (lk_email k)) \<noteq> map_option to_lower keep"

lemma changes_invalidated:
  "filter (pending_change u keep) (ad_verify (invalidatePendingEmailChanges now u keep d)) = []"
proof -
  have "filter (pending_change u keep) (use_links (\<lambda>k. lk_userId k = u \<and> Some (to_lower (lk_email k)) \<noteq> map_option to_lower keep) now ks) = []" for ks
    by (induction ks) (auto simp: use_links_def pending_change_def)
  then show ?thesis by (simp add: invalidatePendingEmailChanges_def)
qed

lemma invalidated_keeps [simp]:
  "ad_sessions (invalidatePendingEmailChanges now u k d) = ad_sessions d" "ad_users (invalidatePendingEmailChanges now u k d) = ad_users d"
  "ad_refresh (invalidatePendingEmailChanges now u k d) = ad_refresh d"
  by (simp_all add: invalidatePendingEmailChanges_def)

lemma fold_disconnect:
  "ry_socks (fold disconnectSocket ids r) = filter (\<lambda>k. sk_id k \<notin> set ids) (ry_socks r)"
  by (induction ids arbitrary: r) (auto simp: remove_key_def intro: filter_cong)

lemma user_disconnected: "filter (\<lambda>k. sk_userId k = Some u) (ry_socks (disconnectUserSockets u r)) = []"
  unfolding disconnectUserSockets_def disconnect_where_def fold_disconnect by (auto simp: filter_empty_conv)

lemma still_disconnected:
  "filter Q (ry_socks r) = [] \<Longrightarrow> filter Q (ry_socks (disconnect_where P r)) = []"
  unfolding disconnect_where_def fold_disconnect by (auto simp: filter_empty_conv)

text \<open>What \<open>drop_credentials\<close> leaves of user \<open>u\<close>, and of the others.\<close>

lemma credentials_dropped:
  assumes "distinct (map sn_token (ad_sessions (au_db s)))" and "s' = drop_credentials e a (set_password (ac_id a) h s)"
  shows "filter (\<lambda>x. sn_userId x = ac_id a) (ad_sessions (au_db s')) = []"
    and "filter (\<lambda>x. sn_userId x \<noteq> ac_id a) (ad_sessions (au_db s')) = filter (\<lambda>x. sn_userId x \<noteq> ac_id a) (ad_sessions (au_db s))"
    and "distinct (map sn_token (ad_sessions (au_db s')))"
    and "filter (\<lambda>x. rt_userId x = ac_id a \<and> \<not> rt_revoked x) (ad_refresh (au_db s')) = []"
    and "filter (\<lambda>x. rt_userId x \<noteq> ac_id a) (ad_refresh (au_db s')) = filter (\<lambda>x. rt_userId x \<noteq> ac_id a) (ad_refresh (au_db s))"
    and "filter (pending_change (ac_id a) (ac_email a)) (ad_verify (au_db s')) = []"
    and "filter (\<lambda>k. sk_userId k = Some (ac_id a)) (ry_socks (au_relay s')) = []"
proof -
  let ?d = "snd (users_update (ac_id a) (ac_passwordHash_update (\<lambda>_. h)) (au_db s))"
  have d: "ad_sessions ?d = ad_sessions (au_db s)" "ad_refresh ?d = ad_refresh (au_db s)"
    by (simp_all add: users_update_def Let_def)
  have s': "au_db s' = invalidatePendingEmailChanges (ax_now e) (ac_id a) (ac_email a)
        (revokeAll (ac_id a) (snd (deleteUserSessions (ac_id a) None ?d)))"
    "au_relay s' = disconnectUserSockets (ac_id a) (disconnectUserSockets (ac_id a) (au_relay s))"
    by (simp_all add: assms(2) drop_credentials_def invalidateUserSessions_def set_password_def)
  have dist: "distinct (map sn_token (ad_sessions ?d))" using assms(1) d by simp
  show "filter (\<lambda>x. sn_userId x = ac_id a) (ad_sessions (au_db s')) = []"
    and "filter (\<lambda>x. sn_userId x \<noteq> ac_id a) (ad_sessions (au_db s')) = filter (\<lambda>x. sn_userId x \<noteq> ac_id a) (ad_sessions (au_db s))"
    and "distinct (map sn_token (ad_sessions (au_db s')))"
    using sessions_deleted [OF dist, of "ac_id a"] by (simp_all add: s' d)
  show "filter (\<lambda>x. rt_userId x = ac_id a \<and> \<not> rt_revoked x) (ad_refresh (au_db s')) = []"
    and "filter (\<lambda>x. rt_userId x \<noteq> ac_id a) (ad_refresh (au_db s')) = filter (\<lambda>x. rt_userId x \<noteq> ac_id a) (ad_refresh (au_db s))"
    using refresh_revoked [of "ac_id a" "snd (deleteUserSessions (ac_id a) None ?d)"] by (simp_all add: s' d)
  show "filter (pending_change (ac_id a) (ac_email a)) (ad_verify (au_db s')) = []" unfolding s'(1) by (rule changes_invalidated)
  show "filter (\<lambda>k. sk_userId k = Some (ac_id a)) (ry_socks (au_relay s')) = []" unfolding s'(2) by (rule user_disconnected)
qed

text \<open>A user without sessions gets exactly the new one.\<close>

lemma first_session:
  assumes "createUserSession e u n s = Some (t, s')" and "filter (\<lambda>x. sn_userId x = u) (ad_sessions (au_db s)) = []"
    and "distinct (map sn_token (ad_sessions (au_db s)))" and "0 < USER_SESSION_MAX (ax_config e)"
  shows "t = ax_session e" and "map sn_token (filter (\<lambda>x. sn_userId x = u) (ad_sessions (au_db s'))) = [ax_hash e t]"
    and "filter (\<lambda>x. sn_userId x \<noteq> u) (ad_sessions (au_db s')) = filter (\<lambda>x. sn_userId x \<noteq> u) (ad_sessions (au_db s))"
    and "ad_refresh (au_db s') = ad_refresh (au_db s)" and "ad_verify (au_db s') = ad_verify (au_db s)"
    and "filter Q (ry_socks (au_relay s)) = [] \<Longrightarrow> filter Q (ry_socks (au_relay s')) = []"
proof -
  let ?r = "\<lparr>sn_token = ax_hash e (ax_session e), sn_userId = u, sn_username = n, sn_createdAt = ax_now e, sn_lastAccess = ax_now e\<rparr>"
  obtain out d' where c: "db_createUserSession (USER_SESSION_MAX (ax_config e)) ?r (au_db s) = Some (out, d')"
    and s': "au_db s' = d'" and t: "t = ax_session e"
    and relay: "\<exists>P. au_relay s' = disconnect_where P (au_relay s)"
    using assms(1) by (auto simp: createUserSession_def split: option.splits prod.splits) blast
  show "t = ax_session e" by (rule t)
  note made = created_sessions [OF c assms(3)]
  have "mset (filter (\<lambda>x. sn_userId x = u) (ad_sessions d')) = {#?r#}" using made(2) assms(2,4) by auto
  then have "filter (\<lambda>x. sn_userId x = u) (ad_sessions d') = [?r]" unfolding mset_single_iff .
  then show "map sn_token (filter (\<lambda>x. sn_userId x = u) (ad_sessions (au_db s'))) = [ax_hash e t]" by (simp add: s' t)
  show "filter (\<lambda>x. sn_userId x \<noteq> u) (ad_sessions (au_db s')) = filter (\<lambda>x. sn_userId x \<noteq> u) (ad_sessions (au_db s))"
    using made(3) by (simp add: s')
  show "ad_refresh (au_db s') = ad_refresh (au_db s)" and "ad_verify (au_db s') = ad_verify (au_db s)"
    using made(4) by (simp_all add: s')
  show "filter Q (ry_socks (au_relay s)) = [] \<Longrightarrow> filter Q (ry_socks (au_relay s')) = []"
    using relay still_disconnected by fastforce
qed


lemma filter_map_id:
  "(\<And>y. y \<in> set xs \<Longrightarrow> P (f y) = P y) \<Longrightarrow> (\<And>y. y \<in> set xs \<Longrightarrow> P y \<Longrightarrow> f y = y) \<Longrightarrow> filter P (map f xs) = filter P xs"
  by (induction xs) auto

lemma validated:
  assumes "validateUserSession e tok s = (Some r, s0)" and "distinct (map sn_token (ad_sessions (au_db s)))"
  shows "distinct (map sn_token (ad_sessions (au_db s0)))"
    and "filter (\<lambda>x. sn_userId x \<noteq> sn_userId r) (ad_sessions (au_db s0)) = filter (\<lambda>x. sn_userId x \<noteq> sn_userId r) (ad_sessions (au_db s))"
    and "ad_refresh (au_db s0) = ad_refresh (au_db s)" and "ad_users (au_db s0) = ad_users (au_db s)"
    and "ad_verify (au_db s0) = ad_verify (au_db s)" and "au_relay s0 = au_relay s"
proof -
  obtain t x where t: "tok = Some t" and x: "session_of (ax_hash e t) (au_db s) = Some x"
    and s0: "s0 = s \<or> s0 = s\<lparr>au_db := touch_session (ax_hash e t) (ax_now e) (au_db s)\<rparr>" and r: "sn_userId r = sn_userId x"
    using assms(1)
    by (auto simp: validateUserSession_def db_validateUserSession_def split: option.splits if_splits prod.splits)
  let ?f = "\<lambda>y :: session_row. if sn_token y = ax_hash e t then y\<lparr>sn_lastAccess := ax_now e\<rparr> else y"
  have rows: "ad_sessions (au_db s0) = ad_sessions (au_db s) \<or> ad_sessions (au_db s0) = map ?f (ad_sessions (au_db s))"
    using s0 by (auto simp: touch_session_def)
  have "map sn_token (map ?f xs) = map sn_token xs" for xs by (induction xs) auto
  then have "map sn_token (ad_sessions (au_db s0)) = map sn_token (ad_sessions (au_db s))"
    using rows by (elim disjE) (simp_all only:)
  with assms(2) show "distinct (map sn_token (ad_sessions (au_db s0)))" by simp
  have mem: "x \<in> set (ad_sessions (au_db s))" "sn_token x = ax_hash e t"
    using x unfolding session_of_def by (auto dest: find_holds)
  have "sn_token y \<noteq> ax_hash e t" if "y \<in> set (ad_sessions (au_db s))" "sn_userId y \<noteq> sn_userId r" for y
    using that mem assms(2) r unfolding distinct_map inj_on_def by metis
  then have "filter (\<lambda>x. sn_userId x \<noteq> sn_userId r) (map ?f (ad_sessions (au_db s)))
      = filter (\<lambda>x. sn_userId x \<noteq> sn_userId r) (ad_sessions (au_db s))"
    by (intro filter_map_id) simp_all
  then show "filter (\<lambda>x. sn_userId x \<noteq> sn_userId r) (ad_sessions (au_db s0)) = filter (\<lambda>x. sn_userId x \<noteq> sn_userId r) (ad_sessions (au_db s))"
    using rows by (elim disjE) (simp_all only:)
  show "ad_refresh (au_db s0) = ad_refresh (au_db s)" and "ad_users (au_db s0) = ad_users (au_db s)"
    and "ad_verify (au_db s0) = ad_verify (au_db s)" and "au_relay s0 = au_relay s"
    using s0 by (auto simp: touch_session_def)
qed


definition ex_token :: "string option" where
  "ex_token = Some (concat (replicate 32 ''aa''))"

definition ex_change :: change_body where
  "ex_change = \<lparr>ch_currentPassword = ''over the hills'', ch_newPassword = ''far and away'', ch_confirmPassword = ''far and away''\<rparr>"

lemma ex_changed:
  "fst (change_password (ex_auth_env 5 ''bb'') ex_token ex_change ex_ann) = Inr (200, concat (replicate 32 ''bb''))"
  "map_option sn_userId (fst (validateUserSession (ex_auth_env 5 ''bb'') ex_token ex_ann)) = Some ''user-aa''"
  "map_option ac_id (getUserById ''user-aa'' (snd (validateUserSession (ex_auth_env 5 ''bb'') ex_token ex_ann))) = Some ''user-aa''"
  "distinct (map sn_token (ad_sessions (au_db ex_ann)))"
  by code_simp+


subsection \<open>Lockout\<close>

definition failed_so_far :: "string \<Rightarrow> auth_srv \<Rightarrow> nat" where
  "failed_so_far userId s = (case failures_of userId (au_db s) of Some f \<Rightarrow> lf_consecutiveFailures f | None \<Rightarrow> 0)"

lemma resolve_same_users: "ad_users (au_db s') = ad_users (au_db s) \<Longrightarrow> resolveLoginUser u s' = resolveLoginUser u s"
  unfolding resolveLoginUser_def findByUsername_def getByUsername_def by (simp cong: option.case_cong)

lemma attempt_keeps [simp]: "au_db (snd (attempt_allowed e user s)) = au_db s"
  by (simp add: attempt_allowed_def split: option.split prod.split)

lemma failure_keeps_users [simp]: "ad_users (au_db (handleLoginFailure e user s)) = ad_users (au_db s)"
  by (simp add: handleLoginFailure_def Let_def failures_record_def failures_lock_def split: option.split)

lemma failure_locks:
  assumes "MAX_LOGIN_FAILURES (ax_config e) \<le> failed_so_far (ac_id a) s + 1"
  shows "Option.bind (failures_of (ac_id a) (au_db (handleLoginFailure e (Some a) s))) lf_lockedUntil
    = Some (ax_now e + LOGIN_LOCKOUT_MS (ax_config e))"
  using assms
  by (auto simp: handleLoginFailure_def Let_def failed_so_far_def failures_record_def failures_lock_def failures_of_def update_conv'
      split: option.split option.split_asm)

lemma login_wrong:
  assumes "login e u p s = (Inl (401, msg, code), ck, s')"
  shows "u \<noteq> []"
    and "s' = handleLoginFailure e (resolveLoginUser u s) (snd (attempt_allowed e (resolveLoginUser u s) s))"
proof -
  show "u \<noteq> []" using assms by (auto simp: login_def auth_refused_def)
  have not_sign: "fst (sign_in e a m t) \<noteq> Inl (401, msg, code)" for a m t
    by (auto simp: sign_in_def auth_failed_def split: option.split prod.split)
  show "s' = handleLoginFailure e (resolveLoginUser u s) (snd (attempt_allowed e (resolveLoginUser u s) s))"
    using assms not_sign
    by (auto simp: login_def check_password_def auth_refused_def Let_def split_beta split: if_splits option.splits)
      (metis fst_conv)
qed

text \<open>Once the failures of an account reach the limit, every login to it is refused until the lock
  ends, with the right password too, and refusing changes nothing.  The count is kept when the lock
  ends, so the next wrong password locks again.\<close>

theorem lockout_refuses_everyone:
  assumes "resolveLoginUser u s = Some a" and "login e u p s = (Inl (401, msg, code), ck, s')"
    and "MAX_LOGIN_FAILURES (ax_config e) \<le> failed_so_far (ac_id a) s + 1"
    and "ax_now e' < ax_now e + LOGIN_LOCKOUT_MS (ax_config e)" and "p' \<noteq> []"
  shows "login e' u p' s'
      = (Inl (423, ''Account temporarily locked due to too many failed attempts'', ACCOUNT_LOCKED), KeepCookie, s')
    \<and> failed_so_far (ac_id a) s' = failed_so_far (ac_id a) s + 1"
proof -
  define s1 where "s1 = snd (attempt_allowed e (Some a) s)"
  have same: "au_db s1 = au_db s" by (simp add: s1_def)
  have s': "s' = handleLoginFailure e (Some a) s1" and "u \<noteq> []" using login_wrong [OF assms(2)] assms(1) by (simp_all add: s1_def)
  have user: "resolveLoginUser u s' = Some a"
    using assms(1) resolve_same_users [of s' s u] by (simp add: s' same)
  have count: "failed_so_far (ac_id a) s1 = failed_so_far (ac_id a) s" by (simp add: failed_so_far_def same)
  then have "checkAccountLockout e' (Some a) s' \<noteq> None"
    using failure_locks [of e a s1] assms(3,4) by (simp add: checkAccountLockout_def s')
  then have "login e' u p' s' = (Inl (423, ''Account temporarily locked due to too many failed attempts'', ACCOUNT_LOCKED), KeepCookie, s')"
    using assms(5) \<open>u \<noteq> []\<close> user by (simp add: login_def auth_refused_def)
  moreover have "failed_so_far (ac_id a) s' = failed_so_far (ac_id a) s1 + 1"
    by (auto simp: s' handleLoginFailure_def Let_def failed_so_far_def failures_record_def failures_lock_def failures_of_def
        update_conv' split: option.split option.split_asm)
  ultimately show ?thesis by (simp add: count)
qed

lemma lockout_refuses_everyone_witness:
  "\<exists>s'. snd (snd (login (ex_auth_env 5 ''bb'') ''ann'' ''wrong'' ex_ann)) = s'
    \<and> login (ex_auth_env 9 ''cc'') ''ann'' ''over the hills'' s'
      = (Inl (423, ''Account temporarily locked due to too many failed attempts'', ACCOUNT_LOCKED), KeepCookie, s')
    \<and> failed_so_far ''user-aa'' s' = failed_so_far ''user-aa'' ex_ann + 1"
proof -
  have "map_option ac_id (resolveLoginUser ''ann'' ex_ann) = Some ''user-aa''"
    and l: "fst (login (ex_auth_env 5 ''bb'') ''ann'' ''wrong'' ex_ann) = Inl (401, ''Invalid username or password'', INVALID_CREDENTIALS)"
    by code_simp+
  then obtain a where a: "resolveLoginUser ''ann'' ex_ann = Some a" "ac_id a = ''user-aa''" by auto
  obtain ck s' where "login (ex_auth_env 5 ''bb'') ''ann'' ''wrong'' ex_ann
      = (Inl (401, ''Invalid username or password'', INVALID_CREDENTIALS), ck, s')"
    using l by (metis prod.collapse)
  with lockout_refuses_everyone [OF a(1) this, of "ex_auth_env 9 ''cc''" "''over the hills''"] a(2) show ?thesis
    by (simp add: ex_auth_env_def)
qed

subsection \<open>A login gives a session\<close>

lemma newest_kept:
  assumes "db_createUserSession m r d = Some (out, d')" and "0 < m" and "distinct (map sn_token (ad_sessions d))"
    and "list_all (\<lambda>x. sn_lastAccess x < sn_lastAccess r) (ad_sessions d)"
  shows "r \<in> set (ad_sessions d')"
proof -
  let ?l = "filter (\<lambda>s. sn_userId s = sn_userId r) (ad_sessions d @ [r])" let ?seen = "js_sort by_access ?l"
  let ?k = "length ?seen - m"
  have ms: "mset (filter (\<lambda>s. sn_userId s = sn_userId r) (ad_sessions d')) = mset (drop ?k ?seen)"
    using created_sessions(2) [OF assms(1,3)] by blast
  have mem: "r \<in> set ?seen" by simp
  have "?seen \<noteq> []" using mem by (metis empty_iff list.set(1))
  then have "drop ?k ?seen \<noteq> []" using assms(2) by simp
  then obtain z where z: "z \<in> set (drop ?k ?seen)" by (meson ex_in_conv set_empty)
  have "r \<in> set (drop ?k ?seen)"
  proof (rule ccontr)
    assume no: "r \<notin> set (drop ?k ?seen)"
    have "r \<in> set (take ?k ?seen)" using mem no by (metis Un_iff append_take_drop_id set_append)
    moreover have "sorted_wrt (\<lambda>a b. by_access a b \<le> 0) (take ?k ?seen @ drop ?k ?seen)"
      using by_access.sorted_js_sort [of ?l] by simp
    ultimately have "by_access r z \<le> 0" using z unfolding sorted_wrt_append by blast
    moreover have "z \<in> set ?seen" using z by (rule in_set_dropD)
    then have "z = r \<or> z \<in> set (ad_sessions d)" by auto
    ultimately show False using assms(4) z no by (auto simp: by_access_def list_all_iff split: if_splits)
  qed
  with ms have "r \<in> set (filter (\<lambda>s. sn_userId s = sn_userId r) (ad_sessions d'))" by (metis set_mset_mset)
  then show ?thesis by simp
qed

lemma find_unique: "x \<in> set xs \<Longrightarrow> P x \<Longrightarrow> (\<And>y. y \<in> set xs \<Longrightarrow> P y \<Longrightarrow> y = x) \<Longrightarrow> find P xs = Some x"
proof (induction xs)
  case (Cons y ys)
  show ?case
  proof (cases "P y")
    case True
    with Cons.prems(3) [of y] show ?thesis by simp
  next
    case False
    with Cons.prems show ?thesis by (metis Cons.IH find.simps(2) list.set_intros(2) set_ConsD)
  qed
qed simp

lemma signed_session:
  assumes "sign_in e a msg s = (Inr (200, body), ck, s')" and "0 < USER_SESSION_MAX (ax_config e)"
    and "distinct (map sn_token (ad_sessions (au_db s)))"
    and "list_all (\<lambda>x. sn_lastAccess x < ax_now e) (ad_sessions (au_db s))"
  shows "ck = SetCookie (ax_session e) \<and> si_user body = serializePublicUser a \<and> ad_users (au_db s') = ad_users (au_db s)
    \<and> session_of (ax_hash e (ax_session e)) (au_db s')
      = Some \<lparr>sn_token = ax_hash e (ax_session e), sn_userId = ac_id a, sn_username = ac_username a,
             sn_createdAt = ax_now e, sn_lastAccess = ax_now e\<rparr>"
proof -
  let ?r = "\<lparr>sn_token = ax_hash e (ax_session e), sn_userId = ac_id a, sn_username = ac_username a,
             sn_createdAt = ax_now e, sn_lastAccess = ax_now e\<rparr>"
  obtain out d where c: "db_createUserSession (USER_SESSION_MAX (ax_config e)) ?r (au_db s) = Some (out, d)"
    and rest: "ck = SetCookie (ax_session e)" "si_user body = serializePublicUser a"
      "ad_sessions (au_db s') = ad_sessions d" "ad_users (au_db s') = ad_users d"
    using assms(1)
    by (auto simp: sign_in_def createUserSession_def issueRefreshToken_def refresh_create_def auth_failed_def signed_in_as_def
        split: option.splits prod.splits if_splits)
  note made = created_sessions [OF c assms(3)]
  have mem: "?r \<in> set (ad_sessions d)" by (rule newest_kept [OF c assms(2,3)]) (use assms(4) in simp)
  have "y = ?r" if "y \<in> set (ad_sessions d)" "sn_token y = sn_token ?r" for y
    using that mem made(1) unfolding distinct_map inj_on_def by blast
  then have "find (\<lambda>x. sn_token x = sn_token ?r) (ad_sessions d) = Some ?r" by (intro find_unique mem refl)
  then show ?thesis using rest made(4) by (simp add: session_of_def)
qed

text \<open>A login that answers 200 gives a session that works: the token in the cookie proves the same user
  for as long as the session lives.\<close>

theorem login_then_verify:
  assumes "login e u p s = (Inr (200, body), ck, s1)" and "0 < USER_SESSION_MAX (ax_config e)"
    and "distinct (map sn_token (ad_sessions (au_db s)))" and "distinct (map ac_id (ad_users (au_db s)))"
    and "list_all (\<lambda>x. sn_lastAccess x < ax_now e) (ad_sessions (au_db s))" and "length (ax_session e) = 64"
    and "ax_hash e' = ax_hash e" and "ax_now e' - ax_now e \<le> SESSION_TTL (ax_config e')"
  shows "ck = SetCookie (ax_session e) \<and> fst (verify e' (Some (ax_session e)) s1) = Inr (200, si_user body)"
proof -
  obtain a where a: "resolveLoginUser u s = Some a"
    and sign: "sign_in e a ''Login failed'' (reactivate a (on_db (failures_reset (ac_id a)) (snd (attempt_allowed e (Some a) s))))
        = (Inr (200, body), ck, s1)"
    using assms(1)
    by (auto simp: login_def check_password_def auth_refused_def Let_def split_beta split: if_splits option.splits)
  have active: "ac_deletedAt a = None" "a \<in> set (ad_users (au_db s))"
    using a by (auto simp: resolveLoginUser_def findByUsername_def getByUsername_def split: option.splits if_splits dest!: find_holds)
  define s0 where "s0 = on_db (failures_reset (ac_id a)) (snd (attempt_allowed e (Some a) s))"
  have s0: "ad_sessions (au_db s0) = ad_sessions (au_db s)" "ad_users (au_db s0) = ad_users (au_db s)"
    by (simp_all add: s0_def failures_reset_def)
  have sign0: "sign_in e a ''Login failed'' s0 = (Inr (200, body), ck, s1)"
    using sign active(1) by (simp add: reactivate_def s0_def)
  note fin = signed_session [OF sign0 assms(2) assms(3) [folded s0(1)] assms(5) [folded s0(1)]]
  have "find (\<lambda>x. ac_id x = ac_id a \<and> ac_deletedAt x = None) (ad_users (au_db s)) = Some a"
  proof -
    have "y = a" if "y \<in> set (ad_users (au_db s))" "ac_id y = ac_id a" for y
      using that active(2) assms(4) unfolding distinct_map inj_on_def by blast
    then show ?thesis using active by (intro find_unique) blast+
  qed
  then have "users_getById (ac_id a) d = Some a" if "ad_users d = ad_users (au_db s)" for d
    using that by (simp add: users_getById_def)
  moreover have "ad_users (touch_session t now d) = ad_users d" for t now d by (simp add: touch_session_def)
  ultimately show ?thesis using fin s0(2) assms(6,8)
    by (simp add: verify_def validateUserSession_def db_validateUserSession_def assms(7) getUserById_def split: option.split)
qed

lemma login_then_verify_witness:
  "\<exists>s1 body ck. login (ex_auth_env 5 ''bb'') ''ann'' ''over the hills'' ex_ann = (Inr (200, body), ck, s1)
    \<and> ck = SetCookie (concat (replicate 32 ''bb''))
    \<and> fst (verify (ex_auth_env 1000 ''cc'') (Some (concat (replicate 32 ''bb''))) s1) = Inr (200, si_user body)"
proof -
  have l: "map_sum id fst (fst (login (ex_auth_env 5 ''bb'') ''ann'' ''over the hills'' ex_ann)) = Inr 200"
    and d: "distinct (map sn_token (ad_sessions (au_db ex_ann)))" "distinct (map ac_id (ad_users (au_db ex_ann)))"
      "list_all (\<lambda>x. sn_lastAccess x < 5) (ad_sessions (au_db ex_ann))" "length (concat (replicate 32 ''bb'')) = 64"
    by code_simp+
  obtain body ck s1 where "login (ex_auth_env 5 ''bb'') ''ann'' ''over the hills'' ex_ann = (Inr (200, body), ck, s1)"
    using l by (cases "login (ex_auth_env 5 ''bb'') ''ann'' ''over the hills'' ex_ann") (auto simp: map_sum_def split: sum.splits)
  with login_then_verify [OF this, of "ex_auth_env 1000 ''cc''"] d show ?thesis by (simp add: ex_auth_env_def)
qed

end
