(* ===== verification/Auth_Cases.thy ===== *)
theory Auth_Cases
  imports Auth_Safety
begin

text \<open>
  Who can move a login identity, what a stranger learns, and the cases where the authentication
  routes do something else than their messages and comments say.
\<close>

subsection \<open>The address of an account\<close>

definition addresses :: "auth_db \<Rightarrow> (string \<times> string option) list" where
  "addresses d = map (\<lambda>a. (ac_id a, ac_email a)) (ad_users d)"

text \<open>The requests that may write addresses.\<close>

fun writes_address :: "auth_request \<Rightarrow> bool" where
  "writes_address (Register b) = True"
| "writes_address (VerifyEmail t) = True"
| "writes_address q = False"

lemma addresses_queries [simp]:
  "addresses (failures_record now u d) = addresses d" "addresses (failures_reset u d) = addresses d"
  "addresses (failures_lock u till d) = addresses d" "addresses (invalidateResetTokens now u d) = addresses d"
  "addresses (createResetToken now u h d) = addresses d" "addresses (snd (consumeResetToken now h d)) = addresses d"
  "addresses (createVerificationToken now u h m ttl d) = addresses d"
  "addresses (invalidateVerificationTokens now u d) = addresses d" "addresses (invalidatePendingEmailChanges now u k d) = addresses d"
  "addresses (replaceVerificationToken now u h m ttl k d) = addresses d" "addresses (d\<lparr>ad_reset := ls\<rparr>) = addresses d"
  "addresses (revokeAll u d) = addresses d" "addresses (snd (deleteUserSessions u x d)) = addresses d"
  "addresses (deleteUserSession t d) = addresses d" "addresses (refresh_deleteExpired now d) = addresses d"
  "addresses (snd (deleteExpiredUserSessions ttl now d)) = addresses d" "addresses (snd (refresh_validate now t d)) = addresses d"
  "addresses (snd (db_validateUserSession ttl now t d)) = addresses d"
  by (auto simp: addresses_def failures_record_def failures_reset_def failures_lock_def invalidateResetTokens_def
      createResetToken_def consumeResetToken_def createVerificationToken_def invalidateVerificationTokens_def
      invalidatePendingEmailChanges_def replaceVerificationToken_def revokeAll_def deleteUserSession_def drop_sessions_def
      refresh_deleteExpired_def deleteExpiredUserSessions_def refresh_validate_def drop_refresh_def
      db_validateUserSession_def touch_session_def split: option.split)

lemma addresses_update [simp]:
  "addresses (snd (users_update u (ac_passwordHash_update f) d)) = addresses d"
  "addresses (snd (users_update u (ac_deletedAt_update g) d)) = addresses d"
  by (auto simp: addresses_def users_update_def Let_def)

lemma addresses_session [simp]: "addresses (au_db (snd (validateUserSession e t s))) = addresses (au_db s)"
  by (simp add: validateUserSession_def split_beta split: option.split)

lemma addresses_created: "createUserSession e u n s = Some (t, s') \<Longrightarrow> addresses (au_db s') = addresses (au_db s)"
  by (auto simp: createUserSession_def db_createUserSession_def insert_session_def drop_sessions_def addresses_def Let_def
      split: option.splits prod.splits if_splits)

lemma addresses_signed: "addresses (au_db (snd (snd (sign_in e a m s)))) = addresses (au_db s)"
  by (auto simp: sign_in_def issueRefreshToken_def refresh_create_def auth_failed_def addresses_def split: option.split prod.split
      dest!: addresses_created [unfolded addresses_def])

lemma addresses_invalidated [simp]: "addresses (au_db (invalidateUserSessions e u x s)) = addresses (au_db s)"
  by (simp add: invalidateUserSessions_def)

lemma addresses_password [simp]:
  "addresses (au_db (set_password u h s)) = addresses (au_db s)" "addresses (au_db (drop_credentials e a s)) = addresses (au_db s)"
  by (simp_all add: set_password_def drop_credentials_def)

lemma addresses_userAuth:
  assumes "\<And>r t s. addresses (au_db (snd (snd (run r t s)))) = addresses (au_db s)"
  shows "addresses (au_db (snd (snd (userAuth e tok run s)))) = addresses (au_db s)"
  using assms by (simp add: userAuth_def auth_refused_def split_beta split: option.split)

lemma addresses_fold: "addresses (fold (\<lambda>u d. snd (deleteUserSessions u None d)) us d) = addresses d"
  by (induction us arbitrary: d) auto

lemma addresses_failure [simp]: "addresses (au_db (handleLoginFailure e user s)) = addresses (au_db s)"
  by (simp add: addresses_def)

lemma addresses_login: "addresses (au_db (snd (snd (login e u p s)))) = addresses (au_db s)"
  by (simp add: login_def check_password_def auth_refused_def reactivate_def addresses_signed Let_def split_beta split: option.split)

lemma addresses_refresh_token: "addresses (au_db (snd (snd (refresh_token e t s)))) = addresses (au_db s)"
proof -
  have "addresses (au_db (snd (snd (refresh_exchange e h r s1)))) = addresses (au_db s1)" for h r s1
    by (auto simp: refresh_exchange_def auth_refused_def auth_failed_def refresh_rotate_def refresh_create_def addresses_def
        split: option.split prod.split dest!: addresses_created [unfolded addresses_def])
  then show ?thesis by (simp add: refresh_token_def auth_refused_def split_beta split: option.split)
qed

lemma addresses_resolve [simp]: "addresses (au_db (snd (resolveResetToken e t s))) = addresses (au_db s)"
  by (simp add: resolveResetToken_def Let_def split_beta split: option.split)

lemma addresses_serve: "\<not> writes_address q \<Longrightarrow> addresses (au_db (auth_serve adm e q s)) = addresses (au_db s)"
proof (cases q)
  case (Verify t)
  then show ?thesis by (simp add: verify_def auth_refused_def split_beta split: option.split)
next
  case (Me t)
  then show ?thesis by (auto simp: me_def auth_refused_def split: option.split intro!: addresses_userAuth)
next
  case (Logout t)
  then show ?thesis by (auto simp: logout_def split: option.split)
next
  case (Refresh t)
  then show ?thesis
    by (auto simp: refresh_def auth_refused_def auth_failed_def Let_def split: option.split prod.split
        intro!: addresses_userAuth dest!: addresses_created)
next
  case (GetSessions t)
  then show ?thesis by (auto simp: get_sessions_def intro!: addresses_userAuth)
next
  case (DeleteSession t i)
  then show ?thesis by (auto simp: delete_session_def auth_refused_def split: option.split intro!: addresses_userAuth)
next
  case (DeleteSessions t)
  then show ?thesis by (auto simp: delete_sessions_def intro!: addresses_userAuth)
next
  case (ChangePassword t b)
  then show ?thesis
    by (auto simp: change_password_def auth_refused_def auth_failed_def Let_def split: option.split prod.split
        intro!: addresses_userAuth dest!: addresses_created)
next
  case (ForgotPassword m)
  then show ?thesis by (auto simp: forgot_password_def Let_def split: option.split)
next
  case (ResetPassword t p c)
  then show ?thesis by (simp add: reset_password_def auth_refused_def split_beta split: option.split sum.split)
next
  case (ResendVerification t)
  then show ?thesis
    by (auto simp: resend_verification_def auth_refused_def Let_def split: option.split intro!: addresses_userAuth)
next
  case (ChangeEmail t m p)
  then show ?thesis by (auto simp: change_email_def auth_refused_def Let_def split: option.split intro!: addresses_userAuth)
next
  case (DeleteAccount t p)
  then show ?thesis
    by (auto simp: delete_account_def performSoftDelete_def auth_refused_def Let_def split: option.split intro!: addresses_userAuth)
next
  case (AdminResetLink t u)
  then show ?thesis
    by (auto simp: admin_reset_link_def adminAuth_def auth_refused_def Let_def split: option.split intro!: addresses_userAuth)
next
  case (AdminResetPassword t u p)
  then show ?thesis
    by (auto simp: admin_reset_password_def adminAuth_def auth_refused_def split: option.split intro!: addresses_userAuth)
next
  case (ForceLogout t us)
  then show ?thesis
    by (auto simp: force_logout_def adminAuth_def auth_refused_def addresses_fold intro!: addresses_userAuth)
qed (simp_all add: addresses_login addresses_refresh_token)

text \<open>No request but the click on a verification link moves the address of an account: a stolen session
  can ask for a change, reset or delete, and every address stays.\<close>

theorem address_moves_by_link_only:
  assumes "list_all (\<lambda>(e, q). \<not> writes_address q) qs"
  shows "addresses (au_db (auth_run adm qs s)) = addresses (au_db s)"
  using assms unfolding auth_run_def by (induction qs arbitrary: s) (auto simp: addresses_serve)

lemma address_moves_by_link_only_witness:
  "addresses (au_db (auth_run (\<lambda>_. False) [(ex_auth_env 5 ''bb'', ChangeEmail ex_token ''eve@x.y'' ''over the hills''),
     (ex_auth_env 6 ''cc'', ForgotPassword ''eve@x.y'')] ex_ann)) = addresses (au_db ex_ann)"
  by (rule address_moves_by_link_only) simp


subsection \<open>What a stranger learns\<close>

lemma forgot_password_same_answer:
  "fst (forgot_password e m s) = Inr (200, ''If an account with that email exists, a reset link has been sent'')
   \<and> fst (snd (forgot_password e m s)) = KeepCookie"
  by (simp add: forgot_password_def Let_def split: option.split)

subsection \<open>Accounts that are to be deleted\<close>

text \<open>The message of a deletion promises thirty days to come back by logging in, and \<open>login\<close> looks for the
  deleted account to reactivate it; but \<open>findByUsername\<close> is \<open>getByUsername\<close>, which leaves deleted accounts
  out.\<close>

lemma resolved_active: "resolveLoginUser u s = Some a \<Longrightarrow> a \<in> set (ad_users (au_db s)) \<and> ac_deletedAt a = None
    \<and> to_lower (ac_username a) = to_lower (js_trim u)"
  by (auto simp: resolveLoginUser_def findByUsername_def getByUsername_def split: option.splits if_splits dest!: find_holds)

lemma deleted_account_cannot_return:
  assumes "list_all (\<lambda>a. to_lower (ac_username a) = to_lower (js_trim u) \<longrightarrow> ac_deletedAt a \<noteq> None) (ad_users (au_db s))"
    and "u \<noteq> []" and "p \<noteq> []"
  shows "fst (login e u p s) = Inl (401, ''Invalid username or password'', INVALID_CREDENTIALS)"
proof -
  have "resolveLoginUser u s = None"
    using assms(1) resolved_active [of u s] by (cases "resolveLoginUser u s") (auto simp: list_all_iff)
  then show ?thesis using assms(2,3)
    by (simp add: login_def checkAccountLockout_def attempt_allowed_def check_password_def auth_refused_def Let_def)
qed

text \<open>The name of a deleted account is free for the check and taken for the table.\<close>

lemma deleted_name_fails_late:
  assumes "validateRegistrationInput b = Inr (n, m)" and "checkRegistrationConflicts e n m s = None"
    and "to_lower n \<in> (to_lower \<circ> ac_username) ` set (ad_users (au_db s))"
  shows "register e b s = (Inl (500, ''Registration failed'', INTERNAL_ERROR), KeepCookie, s)"
  using assms by (simp add: register_def createUserWithProfile_def users_create_def auth_failed_def Let_def)

text \<open>A name of 31 to 40 characters passes the schema, is cut to 30 for the account, and does not log in.\<close>

lemma long_name_cannot_log_in:
  "let b = ex_signup\<lparr>rg_username := replicate 32 CHR ''n''\<rparr>; s = snd (snd (register (ex_auth_env 1 ''aa'') b ex_auth))
   in map ac_username (ad_users (au_db s)) = [replicate 30 CHR ''n'']
      \<and> fst (login (ex_auth_env 2 ''bb'') (rg_username b) (rg_password b) s) = Inl (401, ''Invalid username or password'', INVALID_CREDENTIALS)"
  unfolding Let_def by code_simp

subsection \<open>Reset links\<close>

text \<open>A reset link of an administrator is in the table and in the memory of the process that made it.  The
  process that resets a password from its memory does not use up the row: the link works again.\<close>

lemma admin_link_works_twice:
  "let s0 = snd (snd (admin_reset_link (ex_auth_env 5 ''cc'') (\<lambda>_. True) ex_token ''user-aa'' ex_ann));
       link = concat (replicate 32 ''cc''); s1 = snd (snd (reset_password (ex_auth_env 6 ''dd'') link ''first one'' ''first one'' s0))
   in fst (reset_password (ex_auth_env 6 ''dd'') link ''first one'' ''first one'' s0) = Inr (200, ())
      \<and> fst (reset_password (ex_auth_env 7 ''ee'') link ''second one'' ''second one'' s1) = Inr (200, ())"
  unfolding Let_def by code_simp

text \<open>An administrator's password reset leaves pending email changes alive, unlike every other rotation.\<close>

lemma admin_reset_keeps_links:
  "ad_verify (au_db (snd (snd (admin_reset_password e adm t u p s)))) = ad_verify (au_db s)"
proof -
  have "ad_verify (snd (db_validateUserSession ttl now h d)) = ad_verify d" for ttl now h d
    by (simp add: db_validateUserSession_def drop_sessions_def touch_session_def split: option.split)
  then have "ad_verify (au_db (snd (validateUserSession e t s))) = ad_verify (au_db s)"
    by (simp add: validateUserSession_def split_beta split: option.split)
  moreover have "ad_verify (au_db (set_password u h s1)) = ad_verify (au_db s1)" for u h s1
    by (simp add: set_password_def users_update_def Let_def)
  ultimately show ?thesis
    by (simp add: admin_reset_password_def adminAuth_def userAuth_def auth_refused_def invalidateUserSessions_def split_beta
        split: option.split)
qed

subsection \<open>Sessions and their sockets\<close>

lemma validate_keeps_relay: "au_relay (snd (validateUserSession e t s)) = au_relay s \<and> au_revoked (snd (validateUserSession e t s)) = au_revoked s"
  by (simp add: validateUserSession_def split_beta split: option.split)

text \<open>``Revoke all sessions except current'' disconnects the sockets of the current one as well, and no
  client hears \<open>session:revoked\<close>: every socket is gone before the loop that tells them.\<close>

lemma revoking_others_drops_own_sockets:
  assumes "delete_sessions e token s = (Inr (200, ()), ck, s')" and "validateUserSession e token s = (Some r, s0)"
  shows "filter (\<lambda>k. sk_userId k = Some (sn_userId r)) (ry_socks (au_relay s')) = [] \<and> au_revoked s' = au_revoked s"
proof -
  let ?gone = "\<lambda>k. sk_userId k = Some (sn_userId r)"
  let ?t = "case token of Some t \<Rightarrow> t | None \<Rightarrow> []"
  define s1 where "s1 = invalidateUserSessions e (sn_userId r) (if ?t = [] then None else Some ?t) s0"
  have none: "filter ?gone (ry_socks (au_relay s1)) = []"
    unfolding s1_def invalidateUserSessions_def on_db_simps by (rule user_disconnected)
  have s1: "au_revoked s1 = au_revoked s" using validate_keeps_relay [of e token s] assms(2)
    by (simp add: s1_def invalidateUserSessions_def on_relay_def on_db_def)
  have "filter (\<lambda>k. ?gone k \<and> Q k) (ry_socks (au_relay s1)) = []" for Q using none by (auto simp: filter_empty_conv)
  then have "s' = on_relay id (s1\<lparr>au_revoked := au_revoked s1 @ []\<rparr>)"
    using assms by (simp add: delete_sessions_def userAuth_def disconnectSessionSockets_def s1_def [symmetric] id_def)
  with none s1 show ?thesis by (simp add: on_relay_def)
qed

text \<open>A forced logout deletes sessions and leaves the sockets.\<close>

lemma forced_logout_keeps_sockets: "au_relay (snd (snd (force_logout e adm t us s))) = au_relay s"
  using validate_keeps_relay [of e t s]
  by (simp add: force_logout_def adminAuth_def userAuth_def auth_refused_def split_beta split: option.split)

text \<open>\<open>/refresh\<close> deletes the session that the client's refresh token is tied to and gives no other: from then
  on the refresh token is refused, and the native client loses its chain when the session ends.\<close>

lemma refresh_ends_refresh_chain:
  assumes "refresh e (Some t) s = (Inr (200, body), ck, s')" and "t \<noteq> []" and "ax_hash e (ax_session e) \<noteq> ax_hash e t"
    and "refresh_of (ax_hash e' rt) (au_db s) = Some x" and "rt_sessionToken x = Some (ax_hash e t)" and "ax_hash e t \<noteq> []"
  shows "fst (refresh_token e' rt s') = Inl (401, ''Invalid or expired refresh token'', TOKEN_EXPIRED)"
proof -
  obtain r s0 where v: "validateUserSession e (Some t) s = (Some r, s0)"
    using assms(1) by (auto simp: refresh_def userAuth_def auth_refused_def split: prod.splits option.splits)
  have r0: "ad_refresh (au_db s0) = ad_refresh (au_db s)"
    using v by (auto simp: validateUserSession_def db_validateUserSession_def touch_session_def drop_sessions_def
        split: if_splits prod.splits option.splits)
  define s1 where "s1 = on_relay (disconnectSessionTokens [t]) (on_db (deleteUserSession (ax_hash e t)) s0)"
  have s1: "ax_hash e t \<notin> sn_token ` set (ad_sessions (au_db s1))" "ad_refresh (au_db s1) = ad_refresh (au_db s)"
    by (auto simp: s1_def deleteUserSession_def drop_sessions_def r0)
  obtain new where c: "createUserSession e (sn_userId r) (sn_username r) s1 = Some (new, s')"
    using assms(1,2) v by (auto simp: refresh_def userAuth_def auth_failed_def Let_def s1_def split: option.splits prod.splits)
  have "ax_hash e t \<notin> sn_token ` set (ad_sessions (au_db s'))" "ad_refresh (au_db s') = ad_refresh (au_db s)"
    using c s1 assms(3)
    by (auto simp: createUserSession_def db_createUserSession_def insert_session_def drop_sessions_def Let_def
        split: option.splits prod.splits if_splits)
  then have "session_of (ax_hash e t) (au_db s') = None" "refresh_of (ax_hash e' rt) (au_db s') = Some x"
    using assms(4) by (auto simp: session_of_def refresh_of_def find_None_iff image_iff)
  then show ?thesis using assms(5,6) by (simp add: refresh_token_def refresh_validate_def auth_refused_def)
qed

subsection \<open>Two sessions at once\<close>

text \<open>Two concurrent transactions of \<open>createUserSession\<close>: each inserts its row and reads the committed rows with
  its own, never the other's; the row locks of \<open>FOR UPDATE\<close> only order the deletions.\<close>

definition concurrent_creates :: "nat \<Rightarrow> session_row \<Rightarrow> session_row \<Rightarrow> auth_db \<Rightarrow> auth_db option" where
  "concurrent_creates m r1 r2 d =
     Option.bind (insert_session r1 d) (\<lambda>d1. Option.bind (insert_session r2 d) (\<lambda>d2. Option.bind (insert_session r2 d1) (\<lambda>d12.
       let out1 = set (evicted m (listUserSessions (sn_userId r1) d1));
           out2 = set (evicted m (filter (\<lambda>x. sn_token x \<notin> out1) (listUserSessions (sn_userId r2) d2)))
       in Some (drop_sessions (out1 \<union> out2) d12))))"

lemma concurrent_creates_exceed_limit:
  "map_option (\<lambda>d. length (listUserSessions ''user-aa'' d))
     (concurrent_creates 2 \<lparr>sn_token = ''x'', sn_userId = ''user-aa'', sn_username = ''ann'', sn_createdAt = 5, sn_lastAccess = 5\<rparr>
        \<lparr>sn_token = ''y'', sn_userId = ''user-aa'', sn_username = ''ann'', sn_createdAt = 5, sn_lastAccess = 5\<rparr> (au_db ex_ann)) = Some 3"
  by code_simp

end
