(* ===== verification/User_Cache.thy ===== *)
theory User_Cache
  imports Auth_Routes
begin

text \<open>
  The in-memory maps of users and festivals (\<open>lib/app-context/cache.ts\<close>): one process keeps the rows of
  its last read, marked with the version of the data they belong to.  A write, here or in another process
  (\<open>cache:invalidate\<close>), moves the version on; so does an age above a minute.  Reading the rows awaits the
  database, so other requests and writes run between the start of a read and its end.
\<close>

definition CACHE_TTL_MS :: int where
  "CACHE_TTL_MS = 60000"

record 'a cache =
  ca_version :: nat
  ca_map :: "'a option"
  ca_mapVersion :: nat
  ca_at :: int

definition cache_empty :: "'a cache" where
  "cache_empty = \<lparr>ca_version = 0, ca_map = None, ca_mapVersion = 0, ca_at = 0\<rparr>"

text \<open>\<open>invalidateUserCache\<close>, and with \<open>forget\<close> also \<open>invalidateFestivalCache\<close>, which drops the map.\<close>

definition invalidate_cache :: "bool \<Rightarrow> 'a cache \<Rightarrow> 'a cache" where
  "invalidate_cache forget c =
     c\<lparr>ca_version := ca_version c + 1, ca_map := (if forget then None else ca_map c)\<rparr>"

text \<open>The first half of \<open>getUserMap\<close> and \<open>getFestivalMap\<close>: the rows, or nothing and a read begins.\<close>

definition cache_lookup :: "bool \<Rightarrow> int \<Rightarrow> 'a cache \<Rightarrow> 'a option \<times> 'a cache" where
  "cache_lookup forget now c =
     (let c1 = (if ca_map c \<noteq> None \<and> CACHE_TTL_MS < now - ca_at c then invalidate_cache forget c else c)
      in (if ca_mapVersion c1 = ca_version c1 then ca_map c1 else None, c1))"

text \<open>The second half, when the rows are there: the version is the one of this moment.\<close>

definition cache_fill :: "'a \<Rightarrow> int \<Rightarrow> 'a cache \<Rightarrow> 'a cache" where
  "cache_fill rows now c = c\<lparr>ca_map := Some rows, ca_mapVersion := ca_version c, ca_at := now\<rparr>"

text \<open>\<open>new Map(users.map((user) => [user.id, user]))\<close> over the rows of \<open>readAll\<close>.\<close>

definition users_readAll :: "auth_db \<Rightarrow> account list" where
  "users_readAll d = filter (\<lambda>a. ac_deletedAt a = None) (ad_users d)"

definition user_in_map :: "string \<Rightarrow> account list \<Rightarrow> account option" where
  "user_in_map userId rows = map_of (rev (map (\<lambda>a. (ac_id a, a)) rows)) userId"

subsection \<open>Requests one after the other\<close>

datatype 'a cache_op = Get int | Put 'a

text \<open>A write followed by its invalidation, or a request that runs to its end.\<close>

fun atomic_op :: "bool \<Rightarrow> 'a cache_op \<Rightarrow> 'a \<times> 'a cache \<times> 'a list \<Rightarrow> 'a \<times> 'a cache \<times> 'a list" where
  "atomic_op forget (Put y) (x, c, out) = (y, invalidate_cache forget c, out)"
| "atomic_op forget (Get now) (x, c, out) =
     (case cache_lookup forget now c of
        (Some rows, c1) \<Rightarrow> (x, c1, out @ [rows])
      | (None, c1) \<Rightarrow> (x, cache_fill x now c1, out @ [x]))"

fun store_reads :: "'a cache_op list \<Rightarrow> 'a \<Rightarrow> 'a list" where
  "store_reads [] x = []"
| "store_reads (Put y # ops) x = store_reads ops y"
| "store_reads (Get now # ops) x = x # store_reads ops x"

definition coherent :: "'a \<Rightarrow> 'a cache \<Rightarrow> bool" where
  "coherent x c \<longleftrightarrow> ca_mapVersion c \<le> ca_version c \<and> (ca_map c \<noteq> None \<and> ca_mapVersion c = ca_version c \<longrightarrow> ca_map c = Some x)"

lemma coherent_empty: "coherent x cache_empty"
  by (simp add: coherent_def cache_empty_def)

lemma coherent_invalidate: "coherent x c \<Longrightarrow> coherent y (invalidate_cache forget c)"
  by (simp add: coherent_def invalidate_cache_def)

lemma coherent_fill: "coherent x (cache_fill x now c)"
  by (simp add: coherent_def cache_fill_def)

lemma coherent_lookup:
  "coherent x c \<Longrightarrow> coherent x (snd (cache_lookup forget now c)) \<and> (fst (cache_lookup forget now c) = None \<or> fst (cache_lookup forget now c) = Some x)"
  by (auto simp: cache_lookup_def Let_def coherent_def invalidate_cache_def)

lemma atomic_run:
  "coherent x c \<Longrightarrow> \<exists>x' c'. fold (atomic_op forget) ops (x, c, out) = (x', c', out @ store_reads ops x)"
proof (induction ops arbitrary: x c out)
  case (Cons op ops)
  show ?case
  proof (cases op)
    case (Put y)
    then show ?thesis using Cons.IH [OF coherent_invalidate [OF Cons.prems]] by simp
  next
    case (Get now)
    obtain w c1 where l: "cache_lookup forget now c = (w, c1)" by fastforce
    with coherent_lookup [OF Cons.prems, of forget now] have "coherent x c1" "w = None \<or> w = Some x" by simp_all
    then show ?thesis
      using Get l Cons.IH [OF coherent_fill [of x now c1], of "out @ [x]"] Cons.IH [of x c1 "out @ [x]"] by auto
  qed
qed simp

text \<open>As long as requests run one after the other, the cache cannot be told from the database: every
  request reads the rows of the last write, however old the map is.\<close>

theorem cache_transparent:
  "snd (snd (fold (atomic_op forget) ops (x, cache_empty, []))) = store_reads ops x"
  using atomic_run [OF coherent_empty, of forget ops x "[]"] by auto

lemma user_in_map_reads:
  assumes "distinct (map ac_id (ad_users d))"
  shows "user_in_map u (users_readAll d) = users_getById u d"
proof -
  have "map_of (rev (map (\<lambda>a. (ac_id a, a)) xs)) u = find (\<lambda>a. ac_id a = u) xs" if "distinct (map ac_id xs)" for xs :: "account list"
  proof -
    have "map_of (rev (map (\<lambda>a. (ac_id a, a)) xs)) = map_of (map (\<lambda>a. (ac_id a, a)) xs)"
      using that by (subst map_of_inject_set) (simp_all add: comp_def distinct_map rev_map)
    moreover have "map_of (map (\<lambda>a. (ac_id a, a)) xs) u = find (\<lambda>a. ac_id a = u) xs" by (induction xs) auto
    ultimately show ?thesis by simp
  qed
  moreover have "distinct (map ac_id (users_readAll d))" unfolding users_readAll_def by (rule distinct_map_filter [OF assms])
  moreover have "find (\<lambda>a. ac_id a = u) (filter (\<lambda>a. ac_deletedAt a = None) xs) = find (\<lambda>a. ac_id a = u \<and> ac_deletedAt a = None) xs"
    for xs :: "account list" by (induction xs) auto
  ultimately show ?thesis by (simp add: user_in_map_def users_readAll_def users_getById_def)
qed

subsection \<open>Requests at the same time\<close>

text \<open>\<open>Ask\<close>: a request looks for the rows.  \<open>Query\<close>: its query runs.  \<open>Answer\<close>: the rows arrive.  \<open>Write\<close> and
  \<open>Invalidate\<close>: a write commits, and its handler goes on.\<close>

datatype 'a cache_move = Ask nat int | Query nat | Answer nat int | Write 'a | Invalidate

record 'a cache_world =
  cw_rows :: 'a
  cw_cache :: "'a cache"
  cw_reads :: "(nat \<times> 'a option) list"
  cw_hits :: "(int \<times> 'a) list"
  cw_fills :: "(int \<times> 'a) list"

fun cache_step :: "bool \<Rightarrow> 'a cache_move \<Rightarrow> 'a cache_world \<Rightarrow> 'a cache_world" where
  "cache_step forget (Ask i now) w =
     (case cache_lookup forget now (cw_cache w) of
        (Some rows, c) \<Rightarrow> w\<lparr>cw_cache := c, cw_hits := cw_hits w @ [(now, rows)]\<rparr>
      | (None, c) \<Rightarrow> w\<lparr>cw_cache := c, cw_reads := AList.update i None (cw_reads w)\<rparr>)"
| "cache_step forget (Query i) w =
     (if map_of (cw_reads w) i = Some None then w\<lparr>cw_reads := AList.update i (Some (cw_rows w)) (cw_reads w)\<rparr> else w)"
| "cache_step forget (Answer i now) w =
     (case map_of (cw_reads w) i of
        Some (Some rows) \<Rightarrow> w\<lparr>cw_cache := cache_fill rows now (cw_cache w), cw_reads := AList.delete i (cw_reads w),
                              cw_fills := cw_fills w @ [(now, rows)]\<rparr>
      | _ \<Rightarrow> w)"
| "cache_step forget (Write x) w = w\<lparr>cw_rows := x\<rparr>"
| "cache_step forget Invalidate w = w\<lparr>cw_cache := invalidate_cache forget (cw_cache w)\<rparr>"

definition cache_world :: "'a \<Rightarrow> 'a cache_world" where
  "cache_world x = \<lparr>cw_rows = x, cw_cache = cache_empty, cw_reads = [], cw_hits = [], cw_fills = []\<rparr>"

text \<open>A read that was under way when a write was invalidated marks the rows from before the write with the
  version from after it: later requests are served the old rows, for up to a minute.\<close>

lemma invalidation_lost:
  "cw_hits (fold (cache_step forget) [Ask 1 0, Query 1, Write ''new'', Invalidate, Answer 1 5, Ask 2 6, Ask 3 60005] (cache_world ''old''))
   = [(6, ''old''), (60005, ''old'')]"
  by (simp add: cache_world_def cache_empty_def cache_lookup_def cache_fill_def invalidate_cache_def CACHE_TTL_MS_def)

text \<open>The rows a request is served were read by a request that ended at most a minute before.\<close>

definition read_lately :: "(int \<times> 'a) list \<Rightarrow> int \<times> 'a \<Rightarrow> bool" where
  "read_lately fills = (\<lambda>(t, x). list_ex (\<lambda>(t0, y). y = x \<and> t - CACHE_TTL_MS \<le> t0) fills)"

definition fresh_hits :: "'a cache_world \<Rightarrow> bool" where
  "fresh_hits w \<longleftrightarrow>
     (case ca_map (cw_cache w) of Some x \<Rightarrow> (ca_at (cw_cache w), x) \<in> set (cw_fills w) | None \<Rightarrow> True)
     \<and> ca_mapVersion (cw_cache w) \<le> ca_version (cw_cache w) \<and> list_all (read_lately (cw_fills w)) (cw_hits w)"

lemma hit_age:
  "fst (cache_lookup forget now c) = Some x \<Longrightarrow> ca_mapVersion c \<le> ca_version c \<Longrightarrow> ca_map c = Some x \<and> now - CACHE_TTL_MS \<le> ca_at c"
  by (auto simp: cache_lookup_def Let_def invalidate_cache_def split: if_splits)

lemma lookup_keeps:
  "(ca_map (snd (cache_lookup forget now c)) = ca_map c \<or> ca_map (snd (cache_lookup forget now c)) = None)
   \<and> ca_at (snd (cache_lookup forget now c)) = ca_at c \<and> ca_mapVersion (snd (cache_lookup forget now c)) = ca_mapVersion c
   \<and> ca_version c \<le> ca_version (snd (cache_lookup forget now c))"
  by (simp add: cache_lookup_def Let_def invalidate_cache_def)

lemma lately_mono: "read_lately fills h \<Longrightarrow> read_lately (fills @ later) h"
  by (cases h) (simp add: read_lately_def)

lemma fresh_step:
  assumes "fresh_hits w"
  shows "fresh_hits (cache_step forget m w)"
proof (cases m)
  case (Ask i now)
  obtain h c where l: "cache_lookup forget now (cw_cache w) = (h, c)" by fastforce
  note keep = lookup_keeps [of forget now "cw_cache w", unfolded l snd_conv]
  have cache: "case ca_map c of Some x \<Rightarrow> (ca_at c, x) \<in> set (cw_fills w) | None \<Rightarrow> True" "ca_mapVersion c \<le> ca_version c"
    using assms keep by (auto simp: fresh_hits_def split: option.splits)
  show ?thesis
  proof (cases h)
    case None
    with Ask l cache assms show ?thesis by (simp add: fresh_hits_def cong: option.case_cong)
  next
    case (Some x)
    with hit_age [of forget now "cw_cache w" x] l assms
    have "(ca_at (cw_cache w), x) \<in> set (cw_fills w)" "now - CACHE_TTL_MS \<le> ca_at (cw_cache w)"
      by (auto simp: fresh_hits_def)
    then have "read_lately (cw_fills w) (now, x)" by (auto simp: read_lately_def list_ex_iff)
    with Ask Some l cache assms show ?thesis by (simp add: fresh_hits_def cong: option.case_cong)
  qed
next
  case (Answer i now)
  with assms show ?thesis
    by (auto simp: fresh_hits_def cache_fill_def list_all_iff lately_mono split: option.split)
qed (use assms in \<open>auto simp: fresh_hits_def invalidate_cache_def split: option.splits\<close>)

text \<open>However reads, writes and invalidations interleave, what the cache serves was read by a request that
  ended at most a minute before.\<close>

theorem cache_at_most_a_minute_old:
  "list_all (read_lately (cw_fills (fold (cache_step forget) ms (cache_world x))))
     (cw_hits (fold (cache_step forget) ms (cache_world x)))"
proof -
  have "fresh_hits w \<Longrightarrow> fresh_hits (fold (cache_step forget) ms w)" for w
    by (induction ms arbitrary: w) (auto intro: fresh_step)
  moreover have "fresh_hits (cache_world x)" by (simp add: fresh_hits_def cache_world_def cache_empty_def)
  ultimately show ?thesis unfolding fresh_hits_def by blast
qed

end
