(* ===== verification/Profile_Store.thy ===== *)
theory Profile_Store
  imports Domain Sanitize Crew_Store
begin

text \<open>
  Festival profiles in the database: \<open>lib/db/stores/profiles.ts\<close> over the tables
  \<open>festival_profiles\<close>, \<open>festival_profile_picks\<close> and \<open>festival_profile_notes\<close>, with the row
  mapping of \<open>lib/db/utils.ts\<close>.

  Picks and notes are written twice, to a JSON column and to a table of their own, and read from
  the table.  A \<open>Record\<close> is a list of key/value pairs; what a reader sees of it is \<open>map_of\<close>.
\<close>

record prof_row =
  fp_id :: string
  fp_festivalId :: string
  fp_userId :: "string option"
  fp_name :: string
  fp_picksJson :: "(string \<times> priority) list"
  fp_notesJson :: "(string \<times> string) list"
  fp_remindersJson :: "(string \<times> int) list"
  fp_createdAt :: int
  fp_updatedAt :: "int option"
  fp_deletedAt :: "int option"
  fp_deletedBy :: "string option"
  fp_reason :: "string option"

record prof_db =
  pd_rows :: "prof_row list"
  pd_picks :: "(string \<times> string \<times> priority) list"
  pd_notes :: "(string \<times> string \<times> string) list"

text \<open>A profile as the store returns it.\<close>

record sprofile =
  sp_id :: string
  sp_festivalId :: string
  sp_userId :: "string option"
  sp_name :: string
  sp_picks :: "(string \<times> priority) list"
  sp_notes :: "(string \<times> string) list"
  sp_reminders :: "(string \<times> int) list"
  sp_createdAt :: int
  sp_updatedAt :: "int option"

subsection \<open>Reading\<close>

definition live_row :: "prof_row \<Rightarrow> bool" where
  "live_row r \<longleftrightarrow> fp_deletedAt r = None"

text \<open>\<open>jsonb_object_agg\<close> over the rows of one profile.\<close>

definition entries_of :: "string \<Rightarrow> (string \<times> string \<times> 'a) list \<Rightarrow> (string \<times> 'a) list" where
  "entries_of p t = map snd (filter (\<lambda>e. fst e = p) t)"

definition mapProfileRow :: "prof_db \<Rightarrow> prof_row \<Rightarrow> sprofile" where
  "mapProfileRow d r =
     \<lparr>sp_id = fp_id r, sp_festivalId = fp_festivalId r, sp_userId = fp_userId r, sp_name = fp_name r,
      sp_picks = entries_of (fp_id r) (pd_picks d), sp_notes = entries_of (fp_id r) (pd_notes d),
      sp_reminders = fp_remindersJson r, sp_createdAt = fp_createdAt r, sp_updatedAt = fp_updatedAt r\<rparr>"

definition by_created_id :: "prof_row \<Rightarrow> prof_row \<Rightarrow> int" where
  "by_created_id a b =
     (if fp_createdAt a \<noteq> fp_createdAt b then fp_createdAt a - fp_createdAt b
      else if fp_id a = fp_id b then 0 else if str_less (fp_id a) (fp_id b) then -1 else 1)"

definition live_rows :: "prof_db \<Rightarrow> prof_row list" where
  "live_rows d = filter live_row (pd_rows d)"

definition profiles_readAll :: "nat \<Rightarrow> prof_db \<Rightarrow> sprofile list" where
  "profiles_readAll limit d = map (mapProfileRow d) (take limit (js_sort by_created_id (live_rows d)))"

definition getByFestival :: "string \<Rightarrow> prof_db \<Rightarrow> sprofile list" where
  "getByFestival f d =
     map (mapProfileRow d) (js_sort by_created_id (filter (\<lambda>r. fp_festivalId r = f) (live_rows d)))"

definition userIdsByFestival :: "string \<Rightarrow> prof_db \<Rightarrow> string list" where
  "userIdsByFestival f d = List.map_filter fp_userId (filter (\<lambda>r. fp_festivalId r = f) (live_rows d))"

definition profiles_getByUserId :: "string \<Rightarrow> prof_db \<Rightarrow> (string \<times> string \<times> string \<times> int \<times> int option) list" where
  "profiles_getByUserId u d =
     map (\<lambda>r. (fp_id r, fp_festivalId r, fp_name r, fp_createdAt r, fp_updatedAt r))
       (js_sort (by_key fp_createdAt) (filter (\<lambda>r. fp_userId r = Some u) (live_rows d)))"

definition row_of :: "string \<Rightarrow> prof_db \<Rightarrow> prof_row option" where
  "row_of p d = find (\<lambda>r. fp_id r = p) (live_rows d)"

definition readByUserAndFestival :: "string \<Rightarrow> string \<Rightarrow> prof_db \<Rightarrow> string option" where
  "readByUserAndFestival u f d =
     map_option fp_id (find (\<lambda>r. fp_userId r = Some u \<and> fp_festivalId r = f) (live_rows d))"

definition profiles_getById :: "string \<Rightarrow> prof_db \<Rightarrow> sprofile option" where
  "profiles_getById p d = map_option (mapProfileRow d) (row_of p d)"

definition countByFestival :: "string \<Rightarrow> prof_db \<Rightarrow> nat" where
  "countByFestival f d = length (filter (\<lambda>r. fp_festivalId r = f) (live_rows d))"

text \<open>The picks store: who picked a set, and every pick of a festival.\<close>

definition picks_bySetId :: "string \<Rightarrow> prof_db \<Rightarrow> (string \<times> string option \<times> string \<times> priority) list" where
  "picks_bySetId setId d =
     List.map_filter (\<lambda>(p, x, prio). if x = setId
         then map_option (\<lambda>r. (p, fp_userId r, fp_name r, prio)) (row_of p d) else None) (pd_picks d)"

definition picks_byFestival :: "string \<Rightarrow> prof_db \<Rightarrow> (string \<times> priority \<times> string option) list" where
  "picks_byFestival f d =
     List.map_filter (\<lambda>(p, x, prio). case row_of p d of
         Some r \<Rightarrow> if fp_festivalId r = f then Some (x, prio, fp_userId r) else None
       | None \<Rightarrow> None) (pd_picks d)"

subsection \<open>Writing\<close>

definition drop_entries :: "string set \<Rightarrow> (string \<times> string \<times> 'a) list \<Rightarrow> (string \<times> string \<times> 'a) list" where
  "drop_entries ps t = filter (\<lambda>e. fst e \<notin> ps) t"

definition add_entries :: "string \<Rightarrow> (string \<times> 'a) list \<Rightarrow> (string \<times> string \<times> 'a) list \<Rightarrow> (string \<times> string \<times> 'a) list" where
  "add_entries p xs t = t @ map (Pair p) xs"

text \<open>
  The constraints: primary keys, the partial unique index over the live rows, and the reference
  from an entry to its profile.  A transaction that breaks one throws (\<open>None\<close>) and leaves no trace.
  The reference of an entry to its set is not kept here: the route checks it.
\<close>

definition unique_ok :: "prof_row list \<Rightarrow> bool" where
  "unique_ok rs \<longleftrightarrow> distinct (map fp_id rs)
     \<and> distinct (map (\<lambda>r. (fp_userId r, fp_festivalId r)) (filter (\<lambda>r. live_row r \<and> fp_userId r \<noteq> None) rs))"

definition entries_ok_in :: "prof_row list \<Rightarrow> (string \<times> string \<times> 'a) list \<Rightarrow> bool" where
  "entries_ok_in rs t \<longleftrightarrow> distinct (map (\<lambda>e. (fst e, fst (snd e))) t) \<and> fst ` set t \<subseteq> fp_id ` set rs"

definition constraints_ok :: "prof_db \<Rightarrow> bool" where
  "constraints_ok d \<longleftrightarrow> unique_ok (pd_rows d) \<and> entries_ok_in (pd_rows d) (pd_picks d) \<and> entries_ok_in (pd_rows d) (pd_notes d)"

definition commit :: "prof_db \<Rightarrow> prof_db option" where
  "commit d = (if constraints_ok d then Some d else None)"

record new_profile =
  np_id :: string
  np_festivalId :: string
  np_userId :: "string option"
  np_name :: string
  np_picks :: "(string \<times> priority) list"
  np_notes :: "(string \<times> string) list"
  np_reminders :: "(string \<times> int) list"
  np_createdAt :: int

definition profiles_create :: "new_profile \<Rightarrow> prof_db \<Rightarrow> (sprofile option \<times> prof_db) option" where
  "profiles_create n d =
     map_option (\<lambda>d'. (profiles_getById (np_id n) d', d'))
       (commit (d\<lparr>pd_rows := pd_rows d @ [\<lparr>fp_id = np_id n, fp_festivalId = np_festivalId n,
                   fp_userId = np_userId n, fp_name = np_name n, fp_picksJson = np_picks n,
                   fp_notesJson = np_notes n, fp_remindersJson = np_reminders n, fp_createdAt = np_createdAt n,
                   fp_updatedAt = None, fp_deletedAt = None, fp_deletedBy = None, fp_reason = None\<rparr>],
                 pd_picks := add_entries (np_id n) (np_picks n) (pd_picks d),
                 pd_notes := add_entries (np_id n) (np_notes n) (pd_notes d)\<rparr>))"

record prof_fields =
  uf_picks :: "(string \<times> priority) list option"
  uf_notes :: "(string \<times> string) list option"
  uf_reminders :: "(string \<times> int) list option"
  uf_userId :: "string option option"
  uf_name :: "string option"

definition or_old :: "'a option \<Rightarrow> 'a \<Rightarrow> 'a" where
  "or_old new old = (case new of Some x \<Rightarrow> x | None \<Rightarrow> old)"

definition set_fields :: "int \<Rightarrow> prof_fields \<Rightarrow> prof_row \<Rightarrow> prof_row" where
  "set_fields now f r =
     r\<lparr>fp_picksJson := or_old (uf_picks f) (fp_picksJson r), fp_notesJson := or_old (uf_notes f) (fp_notesJson r),
       fp_remindersJson := or_old (uf_reminders f) (fp_remindersJson r),
       fp_userId := or_old (uf_userId f) (fp_userId r), fp_name := or_old (uf_name f) (fp_name r),
       fp_updatedAt := Some now\<rparr>"

definition on_row :: "string \<Rightarrow> (prof_row \<Rightarrow> prof_row) \<Rightarrow> prof_row list \<Rightarrow> prof_row list" where
  "on_row p g rs = map (\<lambda>r. if fp_id r = p \<and> live_row r then g r else r) rs"

definition sync_entries :: "string \<Rightarrow> (string \<times> 'a) list option \<Rightarrow> (string \<times> string \<times> 'a) list \<Rightarrow> (string \<times> string \<times> 'a) list" where
  "sync_entries p new t = (case new of Some xs \<Rightarrow> add_entries p xs (drop_entries {p} t) | None \<Rightarrow> t)"

definition profiles_update :: "int \<Rightarrow> string \<Rightarrow> prof_fields \<Rightarrow> prof_db \<Rightarrow> (sprofile option \<times> prof_db) option" where
  "profiles_update now p f d =
     map_option (\<lambda>d'. (profiles_getById p d', d'))
       (commit (d\<lparr>pd_rows := on_row p (set_fields now f) (pd_rows d),
                 pd_picks := sync_entries p (uf_picks f) (pd_picks d),
                 pd_notes := sync_entries p (uf_notes f) (pd_notes d)\<rparr>))"

definition mark_deleted :: "int \<Rightarrow> string option \<Rightarrow> string option \<Rightarrow> prof_row \<Rightarrow> prof_row" where
  "mark_deleted now deletedBy reason r =
     r\<lparr>fp_deletedAt := Some now, fp_updatedAt := Some now, fp_deletedBy := deletedBy, fp_reason := reason\<rparr>"

definition profiles_delete :: "int \<Rightarrow> string option \<Rightarrow> string option \<Rightarrow> string \<Rightarrow> prof_db \<Rightarrow> sprofile option \<times> prof_db" where
  "profiles_delete now deletedBy reason p d =
     (case profiles_getById p d of
        None \<Rightarrow> (None, d)
      | Some x \<Rightarrow> (Some x, d\<lparr>pd_rows := on_row p (mark_deleted now deletedBy reason) (pd_rows d),
                           pd_picks := drop_entries {p} (pd_picks d), pd_notes := drop_entries {p} (pd_notes d)\<rparr>))"

definition profiles_deleteByUserId :: "int \<Rightarrow> string option \<Rightarrow> string option \<Rightarrow> string \<Rightarrow> prof_db \<Rightarrow> prof_row list \<times> prof_db" where
  "profiles_deleteByUserId now deletedBy reason u d =
     (let mine = filter (\<lambda>r. fp_userId r = Some u) (live_rows d); ids = set (map fp_id mine)
      in (mine, if mine = [] then d
                else d\<lparr>pd_rows := map (\<lambda>r. if fp_userId r = Some u \<and> live_row r then mark_deleted now deletedBy reason r else r) (pd_rows d),
                       pd_picks := drop_entries ids (pd_picks d), pd_notes := drop_entries ids (pd_notes d)\<rparr>))"

definition same_name :: "string \<Rightarrow> string \<Rightarrow> bool" where
  "same_name a b \<longleftrightarrow> to_lower a = to_lower b"

definition claimOrphan :: "int \<Rightarrow> string \<Rightarrow> string \<Rightarrow> string \<Rightarrow> prof_db \<Rightarrow> (sprofile option \<times> prof_db) option" where
  "claimOrphan now f u username d =
     (case find (\<lambda>r. fp_festivalId r = f \<and> fp_userId r = None \<and> same_name (fp_name r) username) (live_rows d) of
        None \<Rightarrow> Some (None, d)
      | Some r \<Rightarrow>
          map_option (\<lambda>d'. (profiles_getById (fp_id r) d', d'))
            (commit (d\<lparr>pd_rows := on_row (fp_id r) (\<lambda>x. x\<lparr>fp_userId := Some u, fp_updatedAt := Some now\<rparr>) (pd_rows d)\<rparr>)))"

definition profiles_claimAll :: "int \<Rightarrow> string \<Rightarrow> string \<Rightarrow> prof_db \<Rightarrow> (nat \<times> prof_db) option" where
  "profiles_claimAll now u name d =
     (let mine = (\<lambda>r. fp_userId r = None \<and> same_name (fp_name r) name \<and> live_row r);
          rows = map (\<lambda>r. if mine r then r\<lparr>fp_userId := Some u, fp_updatedAt := Some now\<rparr> else r) (pd_rows d)
      in map_option (Pair (length (filter mine (pd_rows d)))) (commit (d\<lparr>pd_rows := rows\<rparr>)))"

text \<open>One row of the bulk upsert: \<open>createdAt\<close> and \<open>updatedAt\<close> default to the time of the call.\<close>

definition upsert_row :: "sprofile \<Rightarrow> prof_row" where
  "upsert_row x =
     \<lparr>fp_id = sp_id x, fp_festivalId = sp_festivalId x, fp_userId = sp_userId x, fp_name = sp_name x,
      fp_picksJson = sp_picks x, fp_notesJson = sp_notes x, fp_remindersJson = sp_reminders x,
      fp_createdAt = sp_createdAt x,
      fp_updatedAt = Some (case sp_updatedAt x of Some t \<Rightarrow> t | None \<Rightarrow> sp_createdAt x),
      fp_deletedAt = None, fp_deletedBy = None, fp_reason = None\<rparr>"

definition keep_marks :: "prof_row \<Rightarrow> prof_row \<Rightarrow> prof_row" where
  "keep_marks old new = new\<lparr>fp_deletedBy := fp_deletedBy old, fp_reason := fp_reason old\<rparr>"

definition upsert_into :: "prof_row list \<Rightarrow> prof_row \<Rightarrow> prof_row list" where
  "upsert_into rs n =
     (if \<exists>r\<in>set rs. fp_id r = fp_id n
      then map (\<lambda>r. if fp_id r = fp_id n then keep_marks r n else r) rs else rs @ [n])"

text \<open>A statement that names a row twice, or breaks the index, fails.\<close>

definition profiles_replaceAll :: "int \<Rightarrow> sprofile list \<Rightarrow> prof_db \<Rightarrow> prof_db option" where
  "profiles_replaceAll now xs d =
     (let ids = set (map sp_id xs);
          gone = map (\<lambda>r. if live_row r \<and> fp_id r \<notin> ids then r\<lparr>fp_deletedAt := Some now, fp_updatedAt := Some now\<rparr> else r) (pd_rows d);
          rows = foldl upsert_into gone (map upsert_row xs)
      in if xs = [] then Some (d\<lparr>pd_rows := gone\<rparr>)
         else if distinct (map sp_id xs)
         then commit (d\<lparr>pd_rows := rows,
                pd_picks := drop_entries ids (pd_picks d) @ concat (map (\<lambda>x. map (Pair (sp_id x)) (sp_picks x)) xs),
                pd_notes := drop_entries ids (pd_notes d) @ concat (map (\<lambda>x. map (Pair (sp_id x)) (sp_notes x)) xs)\<rparr>)
         else None)"

end
