(* ===== verification/Profile_Inv.thy ===== *)
theory Profile_Inv
  imports Profile_Store
begin

text \<open>
  What every operation of the profiles store keeps: the constraints of the tables, and the
  agreement of the two copies of the picks and notes of a live profile.
\<close>

lemma entries_of_pairs [simp]: "entries_of p (map (Pair q) xs) = (if p = q then xs else [])"
  by (induction xs) (auto simp: entries_of_def)

lemma entries_of_simps [simp]:
  "entries_of p [] = []"
  "entries_of p (t @ u) = entries_of p t @ entries_of p u"
  by (simp_all add: entries_of_def)

lemma entries_of_drop [simp]: "entries_of p (drop_entries ps t) = (if p \<in> ps then [] else entries_of p t)"
  by (induction t) (auto simp: entries_of_def drop_entries_def)

lemma entries_of_add [simp]: "entries_of p (add_entries q xs t) = entries_of p t @ (if p = q then xs else [])"
  by (simp add: add_entries_def)

lemma entries_of_fresh: "p \<notin> fst ` set t \<Longrightarrow> entries_of p t = []"
  by (auto simp: entries_of_def filter_empty_conv)

lemma entries_of_sync [simp]:
  "entries_of q (sync_entries p new t) = (if q = p then or_old new (entries_of p t) else entries_of q t)"
  by (auto simp: sync_entries_def or_old_def split: option.splits)

lemma entries_of_concat:
  assumes "distinct (map sp_id xs)" and "x \<in> set xs"
  shows "entries_of (sp_id x) (concat (map (\<lambda>x. map (Pair (sp_id x)) (g x)) xs)) = g x"
  using assms
proof (induction xs)
  case (Cons y ys)
  have none: "entries_of (sp_id y) (concat (map (\<lambda>x. map (Pair (sp_id x)) (g x)) ys)) = []"
    if "sp_id y \<notin> sp_id ` set ys" using that by (intro entries_of_fresh) auto
  show ?case using Cons none by (cases "x = y") (auto simp: image_iff)
qed simp

definition agrees :: "prof_db \<Rightarrow> prof_row \<Rightarrow> bool" where
  "agrees d r \<longleftrightarrow> entries_of (fp_id r) (pd_picks d) = fp_picksJson r \<and> entries_of (fp_id r) (pd_notes d) = fp_notesJson r"

definition dual_ok :: "prof_db \<Rightarrow> bool" where
  "dual_ok d \<longleftrightarrow> list_all (\<lambda>r. live_row r \<longrightarrow> agrees d r) (pd_rows d)"

definition prof_inv :: "prof_db \<Rightarrow> bool" where
  "prof_inv d \<longleftrightarrow> constraints_ok d \<and> dual_ok d"

lemma dual_okI: "(\<And>r. r \<in> set (pd_rows d) \<Longrightarrow> live_row r \<Longrightarrow> agrees d r) \<Longrightarrow> dual_ok d"
  by (simp add: dual_ok_def list_all_iff)

lemma dual_okD: "dual_ok d \<Longrightarrow> r \<in> set (pd_rows d) \<Longrightarrow> live_row r \<Longrightarrow> agrees d r"
  by (simp add: dual_ok_def list_all_iff)

lemma commit_Some [simp]: "commit d = Some d' \<longleftrightarrow> constraints_ok d \<and> d' = d"
  by (auto simp: commit_def)

lemma unique_id:
  assumes "constraints_ok d" and "r \<in> set (pd_rows d)" and "r' \<in> set (pd_rows d)" and "fp_id r = fp_id r'"
  shows "r = r'"
  using assms by (auto simp: constraints_ok_def unique_ok_def distinct_map dest: inj_onD)

lemma profiles_create_inv:
  assumes "prof_inv d" and "profiles_create n d = Some (x, d')"
  shows "prof_inv d'"
proof -
  from assms have old: "constraints_ok d" "dual_ok d" and new: "constraints_ok d'" by (auto simp: prof_inv_def profiles_create_def)
  have fresh: "np_id n \<notin> fp_id ` set (pd_rows d)"
    using assms(2) by (auto simp: profiles_create_def constraints_ok_def unique_ok_def)
  then have none: "entries_of (np_id n) (pd_picks d) = []" "entries_of (np_id n) (pd_notes d) = []"
    using old(1) by (auto simp: constraints_ok_def entries_ok_in_def intro!: entries_of_fresh)
  have "dual_ok d'"
    using assms(2) fresh none dual_okD [OF old(2)]
    by (intro dual_okI) (force simp: profiles_create_def agrees_def)
  with new show ?thesis by (simp add: prof_inv_def)
qed

lemma set_fields_sel [simp]:
  "fp_id (set_fields now f r) = fp_id r" "live_row (set_fields now f r) = live_row r"
  "fp_picksJson (set_fields now f r) = or_old (uf_picks f) (fp_picksJson r)"
  "fp_notesJson (set_fields now f r) = or_old (uf_notes f) (fp_notesJson r)"
  by (simp_all add: set_fields_def live_row_def)

lemma mark_deleted_sel [simp]:
  "fp_id (mark_deleted now b why r) = fp_id r" "\<not> live_row (mark_deleted now b why r)"
  "fp_userId (mark_deleted now b why r) = fp_userId r" "fp_festivalId (mark_deleted now b why r) = fp_festivalId r"
  by (simp_all add: mark_deleted_def live_row_def)

lemma profiles_update_inv:
  assumes "prof_inv d" and "profiles_update now p f d = Some (x, d')"
  shows "prof_inv d'"
proof -
  from assms have old: "constraints_ok d" "dual_ok d" and new: "constraints_ok d'" by (auto simp: prof_inv_def profiles_update_def)
  have "dual_ok d'"
    using assms(2) dual_okD [OF old(2)]
    by (intro dual_okI) (auto simp: profiles_update_def agrees_def on_row_def split: if_splits)
  with new show ?thesis by (simp add: prof_inv_def)
qed

lemma claim_rows_dual:
  assumes "dual_ok d" and "constraints_ok (d\<lparr>pd_rows := map g (pd_rows d)\<rparr>)"
    and "\<And>r. fp_id (g r) = fp_id r \<and> (live_row (g r) \<longrightarrow> live_row r \<and> fp_picksJson (g r) = fp_picksJson r \<and> fp_notesJson (g r) = fp_notesJson r)"
  shows "prof_inv (d\<lparr>pd_rows := map g (pd_rows d)\<rparr>)"
  using assms(2) assms(3) dual_okD [OF assms(1)]
  by (fastforce simp: prof_inv_def agrees_def intro!: dual_okI)

lemma claimOrphan_inv:
  assumes "prof_inv d" and "claimOrphan now f u name d = Some (x, d')"
  shows "prof_inv d'"
proof (cases "find (\<lambda>r. fp_festivalId r = f \<and> fp_userId r = None \<and> same_name (fp_name r) name) (live_rows d)")
  case None
  then show ?thesis using assms by (simp add: claimOrphan_def)
next
  case (Some r0)
  let ?g = "\<lambda>r. if fp_id r = fp_id r0 \<and> live_row r then r\<lparr>fp_userId := Some u, fp_updatedAt := Some now\<rparr> else r"
  from Some assms have d': "d' = d\<lparr>pd_rows := map ?g (pd_rows d)\<rparr>" and ok: "constraints_ok d'"
    by (auto simp: claimOrphan_def on_row_def)
  have "fp_id (?g r) = fp_id r \<and> (live_row (?g r) \<longrightarrow> live_row r \<and> fp_picksJson (?g r) = fp_picksJson r \<and> fp_notesJson (?g r) = fp_notesJson r)" for r
    by (auto simp: live_row_def)
  then show ?thesis using assms(1) ok unfolding d' prof_inv_def [of d] by (intro claim_rows_dual) blast+
qed

lemma profiles_claimAll_inv:
  assumes "prof_inv d" and "profiles_claimAll now u name d = Some (n, d')"
  shows "prof_inv d'"
proof -
  let ?g = "\<lambda>r. if fp_userId r = None \<and> same_name (fp_name r) name \<and> live_row r
    then r\<lparr>fp_userId := Some u, fp_updatedAt := Some now\<rparr> else r"
  from assms have d': "d' = d\<lparr>pd_rows := map ?g (pd_rows d)\<rparr>" and ok: "constraints_ok d'"
    by (auto simp: profiles_claimAll_def Let_def)
  have "fp_id (?g r) = fp_id r \<and> (live_row (?g r) \<longrightarrow> live_row r \<and> fp_picksJson (?g r) = fp_picksJson r \<and> fp_notesJson (?g r) = fp_notesJson r)" for r
    by (auto simp: live_row_def)
  then show ?thesis using assms(1) ok unfolding d' prof_inv_def [of d] by (intro claim_rows_dual) blast+
qed

text \<open>Marking rows deleted can only free what the unique index holds.\<close>

lemma unique_ok_delete:
  assumes "unique_ok rs"
    and "\<And>r. fp_id (g r) = fp_id r \<and> (live_row (g r) \<longrightarrow> g r = r)"
  shows "unique_ok (map g rs)"
proof -
  have ids: "map fp_id (map g rs) = map fp_id rs" using assms(2) by simp
  let ?p = "\<lambda>r. live_row r \<and> fp_userId r \<noteq> None"
  have "filter ?p (map g rs) = filter (\<lambda>r. live_row (g r)) (filter ?p rs)"
  proof (induction rs)
    case (Cons r rs)
    then show ?case using assms(2) [of r] by (cases "live_row (g r)") auto
  qed simp
  then show ?thesis using assms(1) unfolding unique_ok_def ids by (simp only: distinct_map_filter simp_thms)
qed

lemma entries_ok_drop: "entries_ok_in rs t \<Longrightarrow> entries_ok_in rs (drop_entries ps t)"
  by (auto simp: entries_ok_in_def drop_entries_def distinct_map_filter)

lemma entries_ok_ids: "fp_id ` set rs = fp_id ` set rs' \<Longrightarrow> entries_ok_in rs t = entries_ok_in rs' t"
  by (simp add: entries_ok_in_def)

lemma delete_rows_inv:
  assumes "prof_inv d"
    and "\<And>r. fp_id (g r) = fp_id r \<and> (live_row (g r) \<longrightarrow> g r = r)"
    and "\<And>r. r \<in> set (pd_rows d) \<Longrightarrow> live_row (g r) \<Longrightarrow> fp_id r \<notin> ps"
  shows "prof_inv (d\<lparr>pd_rows := map g (pd_rows d), pd_picks := drop_entries ps (pd_picks d), pd_notes := drop_entries ps (pd_notes d)\<rparr>)"
proof -
  have ids: "fp_id ` set (map g (pd_rows d)) = fp_id ` set (pd_rows d)" by (simp add: image_image assms(2))
  have "agrees (d\<lparr>pd_rows := map g (pd_rows d), pd_picks := drop_entries ps (pd_picks d), pd_notes := drop_entries ps (pd_notes d)\<rparr>) (g r)"
    if "r \<in> set (pd_rows d)" "live_row (g r)" for r
    using that assms(2) [of r] assms(3) [OF that] dual_okD [of d r] assms(1) by (auto simp: agrees_def prof_inv_def)
  then show ?thesis
    using assms(1) unique_ok_delete [OF _ assms(2)]
    by (auto simp: prof_inv_def constraints_ok_def entries_ok_ids [OF ids] intro!: dual_okI entries_ok_drop)
qed

lemma profiles_delete_inv:
  assumes "prof_inv d"
  shows "prof_inv (snd (profiles_delete now b why p d))"
proof -
  have "prof_inv (d\<lparr>pd_rows := on_row p (mark_deleted now b why) (pd_rows d),
      pd_picks := drop_entries {p} (pd_picks d), pd_notes := drop_entries {p} (pd_notes d)\<rparr>)"
    if "row_of p d = Some r" for r
    unfolding on_row_def
  proof (rule delete_rows_inv [OF assms])
    from that have r: "r \<in> set (pd_rows d)" "live_row r" "fp_id r = p"
      by (auto simp: row_of_def live_rows_def find_Some_iff dest: nth_mem)
    show "fp_id x \<notin> {p}" if "x \<in> set (pd_rows d)" "live_row (if fp_id x = p \<and> live_row x then mark_deleted now b why x else x)" for x
      using that r assms unique_id [of d x r] by (auto simp: prof_inv_def split: if_splits)
  qed auto
  then show ?thesis using assms by (auto simp: profiles_delete_def profiles_getById_def split: option.splits)
qed

lemma profiles_deleteByUserId_inv:
  assumes "prof_inv d"
  shows "prof_inv (snd (profiles_deleteByUserId now b why u d))"
proof -
  let ?ids = "fp_id ` {r \<in> set (live_rows d). fp_userId r = Some u}"
  have "prof_inv (d\<lparr>pd_rows := map (\<lambda>r. if fp_userId r = Some u \<and> live_row r then mark_deleted now b why r else r) (pd_rows d),
      pd_picks := drop_entries ?ids (pd_picks d), pd_notes := drop_entries ?ids (pd_notes d)\<rparr>)"
  proof (rule delete_rows_inv [OF assms])
    fix x
    assume x: "x \<in> set (pd_rows d)" "live_row (if fp_userId x = Some u \<and> live_row x then mark_deleted now b why x else x)"
    then show "fp_id x \<notin> ?ids"
      using assms unique_id [of d x] by (auto simp: prof_inv_def live_rows_def split: if_splits)
  qed auto
  then show ?thesis using assms by (auto simp: profiles_deleteByUserId_def Let_def)
qed

text \<open>The bulk replacement.\<close>

lemma upsert_into_cases:
  assumes "r \<in> set (upsert_into rs n)"
  shows "(fp_id r = fp_id n \<and> fp_picksJson r = fp_picksJson n \<and> fp_notesJson r = fp_notesJson n) \<or> (r \<in> set rs \<and> fp_id r \<noteq> fp_id n)"
  using assms by (auto simp: upsert_into_def keep_marks_def split: if_splits)

lemma upsert_all_cases:
  assumes "r \<in> set (foldl upsert_into rs ns)"
  shows "(\<exists>n\<in>set ns. fp_id r = fp_id n \<and> fp_picksJson r = fp_picksJson n \<and> fp_notesJson r = fp_notesJson n)
    \<or> (r \<in> set rs \<and> fp_id r \<notin> fp_id ` set ns)"
  using assms
proof (induction ns arbitrary: rs)
  case (Cons n ns)
  then show ?case using Cons.IH [of "upsert_into rs n"] upsert_into_cases [of r rs n] by auto
qed simp

lemma upsert_row_sel [simp]:
  "fp_id (upsert_row x) = sp_id x" "fp_picksJson (upsert_row x) = sp_picks x" "fp_notesJson (upsert_row x) = sp_notes x"
  by (simp_all add: upsert_row_def)

definition mark_gone :: "int \<Rightarrow> string set \<Rightarrow> prof_row \<Rightarrow> prof_row" where
  "mark_gone now ids r = (if live_row r \<and> fp_id r \<notin> ids then r\<lparr>fp_deletedAt := Some now, fp_updatedAt := Some now\<rparr> else r)"

lemma mark_gone_sel: "fp_id (mark_gone now ids r) = fp_id r \<and> (live_row (mark_gone now ids r) \<longrightarrow> mark_gone now ids r = r \<and> fp_id r \<in> ids)"
  by (auto simp: mark_gone_def live_row_def)

lemma profiles_replaceAll_inv:
  assumes "prof_inv d" and "profiles_replaceAll now xs d = Some d'"
  shows "prof_inv d'"
proof -
  let ?ids = "set (map sp_id xs)"
  let ?gone = "map (mark_gone now ?ids) (pd_rows d)"
  have gone: "map (\<lambda>r. if live_row r \<and> fp_id r \<notin> ?ids then r\<lparr>fp_deletedAt := Some now, fp_updatedAt := Some now\<rparr> else r) (pd_rows d) = ?gone"
    by (simp add: mark_gone_def)
  note unfolded = assms(2) [unfolded profiles_replaceAll_def Let_def gone]
  show ?thesis
  proof (cases "xs = []")
    case True
    with unfolded have d': "d' = d\<lparr>pd_rows := ?gone\<rparr>" by simp
    have g: "fp_id (mark_gone now ?ids r) = fp_id r \<and> (live_row (mark_gone now ?ids r) \<longrightarrow> mark_gone now ?ids r = r)" for r
      using mark_gone_sel by blast
    have ids: "fp_id ` set ?gone = fp_id ` set (pd_rows d)" using mark_gone_sel by (simp add: image_image)
    have none: "\<not> live_row (mark_gone now ?ids r)" for r using True mark_gone_sel [of now ?ids r] by auto
    have "unique_ok ?gone" using assms(1) unique_ok_delete [OF _ g, of "pd_rows d"] by (simp add: prof_inv_def constraints_ok_def)
    then have "constraints_ok d'"
      using assms(1) entries_ok_ids [OF ids, of "pd_picks d"] entries_ok_ids [OF ids, of "pd_notes d"]
      by (simp add: d' prof_inv_def constraints_ok_def)
    moreover have "dual_ok d'" using none by (auto simp: d' intro!: dual_okI)
    ultimately show ?thesis by (simp add: prof_inv_def)
  next
    case False
    let ?t = "\<lambda>g. concat (map (\<lambda>x. map (Pair (sp_id x)) (g x)) xs)"
    from False unfolded have uniq: "distinct (map sp_id xs)" and ok: "constraints_ok d'"
      and d': "d' = d\<lparr>pd_rows := foldl upsert_into ?gone (map upsert_row xs),
        pd_picks := drop_entries ?ids (pd_picks d) @ concat (map (\<lambda>x. map (Pair (sp_id x)) (sp_picks x)) xs),
        pd_notes := drop_entries ?ids (pd_notes d) @ concat (map (\<lambda>x. map (Pair (sp_id x)) (sp_notes x)) xs)\<rparr>"
      by (auto split: if_splits)
    have "agrees d' r" if "r \<in> set (pd_rows d')" "live_row r" for r
    proof -
      from that(1) have "(\<exists>x\<in>set xs. fp_id r = sp_id x \<and> fp_picksJson r = sp_picks x \<and> fp_notesJson r = sp_notes x)
          \<or> (r \<in> set ?gone \<and> fp_id r \<notin> ?ids)"
        using upsert_all_cases [of r ?gone "map upsert_row xs"] by (auto simp: d' image_image)
      moreover have "\<not> (r \<in> set ?gone \<and> fp_id r \<notin> ?ids)" using that(2) mark_gone_sel [of now ?ids] by auto
      ultimately obtain x where "x \<in> set xs" "fp_id r = sp_id x" "fp_picksJson r = sp_picks x" "fp_notesJson r = sp_notes x" by blast
      then show ?thesis using entries_of_concat [OF uniq, of x sp_picks] entries_of_concat [OF uniq, of x sp_notes]
        by (simp add: agrees_def d')
    qed
    with ok show ?thesis by (simp add: prof_inv_def dual_okI)
  qed
qed

subsection \<open>Runs of the store\<close>

datatype prof_op =
    CreateRow new_profile
  | UpdateRow int string prof_fields
  | DeleteRow int "string option" "string option" string
  | DeleteUser int "string option" "string option" string
  | Claim int string string string
  | ClaimAll int string string
  | ReplaceAll int "sprofile list"

text \<open>An operation that throws leaves the tables as they were.\<close>

definition prof_step :: "prof_op \<Rightarrow> prof_db \<Rightarrow> prof_db" where
  "prof_step a d =
     (case a of
        CreateRow n \<Rightarrow> or_old (map_option snd (profiles_create n d)) d
      | UpdateRow now p f \<Rightarrow> or_old (map_option snd (profiles_update now p f d)) d
      | DeleteRow now b why p \<Rightarrow> snd (profiles_delete now b why p d)
      | DeleteUser now b why u \<Rightarrow> snd (profiles_deleteByUserId now b why u d)
      | Claim now f u name \<Rightarrow> or_old (map_option snd (claimOrphan now f u name d)) d
      | ClaimAll now u name \<Rightarrow> or_old (map_option snd (profiles_claimAll now u name d)) d
      | ReplaceAll now xs \<Rightarrow> or_old (profiles_replaceAll now xs d) d)"

lemma or_old_inv: "P d \<Longrightarrow> (\<And>d'. new = Some d' \<Longrightarrow> P d') \<Longrightarrow> P (or_old new d)"
  by (simp add: or_old_def split: option.split)

lemma or_old_snd_inv: "P d \<Longrightarrow> (\<And>x d'. new = Some (x, d') \<Longrightarrow> P d') \<Longrightarrow> P (or_old (map_option snd new) d)"
  by (cases new) (auto simp: or_old_def)

lemma prof_step_inv:
  assumes "prof_inv d"
  shows "prof_inv (prof_step a d)"
proof (cases a)
  case (CreateRow n)
  show ?thesis by (simp add: CreateRow prof_step_def) (rule or_old_snd_inv [where P = prof_inv, OF assms], erule profiles_create_inv [OF assms])
next
  case (UpdateRow now p f)
  show ?thesis by (simp add: UpdateRow prof_step_def) (rule or_old_snd_inv [where P = prof_inv, OF assms], erule profiles_update_inv [OF assms])
next
  case (Claim now f u name)
  show ?thesis by (simp add: Claim prof_step_def) (rule or_old_snd_inv [where P = prof_inv, OF assms], erule claimOrphan_inv [OF assms])
next
  case (ClaimAll now u name)
  show ?thesis by (simp add: ClaimAll prof_step_def) (rule or_old_snd_inv [where P = prof_inv, OF assms], erule profiles_claimAll_inv [OF assms])
next
  case (ReplaceAll now xs)
  show ?thesis by (simp add: ReplaceAll prof_step_def) (rule or_old_inv [where P = prof_inv, OF assms], erule profiles_replaceAll_inv [OF assms])
qed (simp_all add: prof_step_def assms profiles_delete_inv profiles_deleteByUserId_inv)

lemma prof_run_inv: "prof_inv d \<Longrightarrow> prof_inv (fold prof_step ops d)"
  by (induction ops arbitrary: d) (simp_all add: prof_step_inv)

text \<open>C27. Whatever the operations of the profiles store, in whatever order, starting from empty tables: at most one
  live profile belongs to a user in a festival, and the picks and notes a profile is read with, which
  come from the tables, are the ones of its JSON columns, which the rollback copy and the reminder
  scheduler read.\<close>

theorem dual_write_in_step:
  assumes "fold prof_step ops \<lparr>pd_rows = [], pd_picks = [], pd_notes = []\<rparr> = d"
    and "profiles_getById p d = Some x" and "row_of p d = Some r"
  shows "sp_picks x = fp_picksJson r \<and> sp_notes x = fp_notesJson r
    \<and> (\<forall>r'. r' \<in> set (live_rows d) \<and> fp_userId r' = fp_userId r \<and> fp_festivalId r' = fp_festivalId r
         \<and> fp_userId r \<noteq> None \<longrightarrow> r' = r)"
proof -
  have "prof_inv \<lparr>pd_rows = [], pd_picks = [], pd_notes = []\<rparr>"
    by (simp add: prof_inv_def constraints_ok_def unique_ok_def entries_ok_in_def dual_ok_def)
  then have inv: "prof_inv d" using assms(1) prof_run_inv by blast
  have r: "r \<in> set (live_rows d)" "fp_id r = p" "r \<in> set (pd_rows d)" "live_row r"
    using assms(3) by (auto simp: row_of_def live_rows_def find_Some_iff dest: nth_mem)
  have "agrees d r" using inv r(3,4) by (simp add: prof_inv_def dual_okD)
  moreover have "inj_on (\<lambda>r. (fp_userId r, fp_festivalId r)) {r \<in> set (pd_rows d). live_row r \<and> fp_userId r \<noteq> None}"
    using inv by (simp add: prof_inv_def constraints_ok_def unique_ok_def distinct_map)
  ultimately show ?thesis using assms(2,3) r by (auto simp: profiles_getById_def mapProfileRow_def agrees_def live_rows_def dest: inj_onD)
qed

lemma dual_write_in_step_witness:
  "let n = \<lparr>np_id = ''p'', np_festivalId = ''f'', np_userId = Some ''u'', np_name = ''N'', np_picks = [(''a'', Must)], np_notes = [],
         np_reminders = [], np_createdAt = 1\<rparr>;
       f = \<lparr>uf_picks = Some [(''b'', Maybe)], uf_notes = None, uf_reminders = None, uf_userId = None, uf_name = None\<rparr>;
       d = fold prof_step [CreateRow n, UpdateRow 2 ''p'' f] \<lparr>pd_rows = [], pd_picks = [], pd_notes = []\<rparr>
   in sp_picks (mapProfileRow d (hd (pd_rows d))) = fp_picksJson (hd (pd_rows d))"
proof -
  let ?n = "\<lparr>np_id = ''p'', np_festivalId = ''f'', np_userId = Some ''u'', np_name = ''N'', np_picks = [(''a'', Must)], np_notes = [],
         np_reminders = [], np_createdAt = 1\<rparr>"
  let ?f = "\<lparr>uf_picks = Some [(''b'', Maybe)], uf_notes = None, uf_reminders = None, uf_userId = None, uf_name = None\<rparr>"
  let ?d = "fold prof_step [CreateRow ?n, UpdateRow 2 ''p'' ?f] \<lparr>pd_rows = [], pd_picks = [], pd_notes = []\<rparr>"
  have "profiles_getById ''p'' ?d = Some (mapProfileRow ?d (hd (pd_rows ?d)))" "row_of ''p'' ?d = Some (hd (pd_rows ?d))"
    by code_simp+
  from dual_write_in_step [OF refl this] show ?thesis by (simp only: Let_def)
qed

end
