(* ===== verification/Emitter.thy ===== *)
theory Emitter
  imports Profile_Store
begin

text \<open>
  The broadcast layer \<open>lib/emitter.ts\<close>: the socket events, the push notifications they trigger and
  the batching of profile updates, which waits for 200 ms of quiet per profile and keeps the latest
  state only.

  The two \<open>Map\<close>s are association lists in insertion order; a timer is the time at which it fires.
  \<open>em_out\<close> is what was emitted, oldest first, with its room, \<open>None\<close> for everybody; the constant
  version field of the events is left out.
\<close>

subsection \<open>Avatars\<close>

definition unreserved :: "char \<Rightarrow> bool" where
  "unreserved c \<longleftrightarrow> (of_char c :: nat) \<in> {48..57} \<union> {65..90} \<union> {97..122} \<or> c \<in> set ''-_.!~*()'' \<or> c = CHR 0x27"

definition hex_upper :: "nat \<Rightarrow> char" where
  "hex_upper n = ''0123456789ABCDEF'' ! n"

definition encodeURIComponent :: "string \<Rightarrow> string" where
  "encodeURIComponent s = concat (map (\<lambda>c. if unreserved c then [c]
      else [CHR ''%'', hex_upper (of_char c div 16), hex_upper (of_char c mod 16)]) s)"

definition buildAvatarUrl :: "user_row option \<Rightarrow> string option" where
  "buildAvatarUrl u =
     (case u of None \<Rightarrow> None
      | Some x \<Rightarrow>
          (case (us_avatarKey x, us_avatarVersion x) of
             (Some k, Some v) \<Rightarrow> if k = [] \<or> v = [] then None
               else Some (''/uploads/avatars/'' @ k @ ''.webp?v='' @ encodeURIComponent v)
           | _ \<Rightarrow> None))"

subsection \<open>State\<close>

record batch =
  ba_festivalId :: string
  ba_profileId :: string
  ba_name :: string
  ba_avatarUrl :: "string option"
  ba_picks :: "(string \<times> priority) list"
  ba_updatedAt :: int

datatype prof_event =
    ProfileUpdated batch
  | ProfileCreated string string string "string option"
  | ProfileDeleted string string
  | FestivalCreated string string
  | FestivalUpdated string
  | FestivalDeleted string
  | PresenceUpdate "string list"
  | CrewExpenseAdded string json
  | CrewExpenseDeleted string string
  | CrewActivityLogged string json

datatype push =
    OfflinePush string string string string "(string \<times> string) list" string "string list"
  | SilentSync string string "string list"

record emitter =
  em_timers :: "(string \<times> int) list"
  em_payloads :: "(string \<times> batch \<times> int) list"
  em_down :: bool
  em_configured :: bool
  em_out :: "(string option \<times> prof_event) list"
  em_pushes :: "push list"

definition BATCH_DEBOUNCE_MS :: int where
  "BATCH_DEBOUNCE_MS = 200"

definition MAX_BATCH_ENTRIES :: nat where
  "MAX_BATCH_ENTRIES = 1000"

definition emit :: "string option \<Rightarrow> prof_event \<Rightarrow> emitter \<Rightarrow> emitter" where
  "emit r ev e = e\<lparr>em_out := em_out e @ [(r, ev)]\<rparr>"

definition batch_key :: "string \<Rightarrow> string \<Rightarrow> string" where
  "batch_key f p = f @ '':'' @ p"

subsection \<open>Profiles\<close>

definition flushProfileBatch :: "string \<Rightarrow> emitter \<Rightarrow> emitter" where
  "flushProfileBatch k e =
     (let e1 = e\<lparr>em_timers := AList.delete k (em_timers e), em_payloads := AList.delete k (em_payloads e)\<rparr>
      in case map_of (em_payloads e) k of
           None \<Rightarrow> e1
         | Some (b, t) \<Rightarrow> emit (Some (ba_festivalId b)) (ProfileUpdated b) e1)"

definition profileCreated :: "string \<Rightarrow> sprofile \<Rightarrow> user_row option \<Rightarrow> emitter \<Rightarrow> emitter" where
  "profileCreated f p u = emit (Some f) (ProfileCreated f (sp_id p) (sp_name p) (buildAvatarUrl u))"

definition evict_oldest_batch :: "emitter \<Rightarrow> emitter" where
  "evict_oldest_batch e =
     (if MAX_BATCH_ENTRIES \<le> length (em_payloads e)
      then case em_payloads e of
             (k, _) # _ \<Rightarrow> if k \<noteq> [] then flushProfileBatch k e else e
           | [] \<Rightarrow> e
      else e)"

definition batch_of :: "int \<Rightarrow> sprofile \<Rightarrow> user_row option \<Rightarrow> batch" where
  "batch_of now p u =
     \<lparr>ba_festivalId = sp_festivalId p, ba_profileId = sp_id p, ba_name = sp_name p, ba_avatarUrl = buildAvatarUrl u,
      ba_picks = sp_picks p, ba_updatedAt = or_old (sp_updatedAt p) now\<rparr>"

definition crew_push :: "sprofile \<Rightarrow> push list" where
  "crew_push p =
     [OfflinePush (sp_festivalId p) ''crew_update'' ''crew'' (sp_name p @ '' updated their picks'')
        [(''festivalId'', sp_festivalId p), (''profileId'', sp_id p),
         (''deepLink'', ''rave://festival/'' @ sp_festivalId p @ ''/profile/'' @ sp_id p)]
        (''crew-'' @ sp_festivalId p) (case sp_userId p of Some u \<Rightarrow> [u] | None \<Rightarrow> []),
      SilentSync (sp_festivalId p) ''profiles'' (case sp_userId p of Some u \<Rightarrow> [u] | None \<Rightarrow> [])]"

definition profileUpdated :: "int \<Rightarrow> sprofile \<Rightarrow> user_row option \<Rightarrow> bool \<Rightarrow> emitter \<Rightarrow> emitter" where
  "profileUpdated now p u picksChanged e =
     (let k = batch_key (sp_festivalId p) (sp_id p);
          e1 = evict_oldest_batch e;
          e2 = e1\<lparr>em_payloads := AList.update k (batch_of now p u, now) (em_payloads e1)\<rparr>;
          e3 = (if em_down e2 then e2 else e2\<lparr>em_timers := AList.update k (now + BATCH_DEBOUNCE_MS) (em_timers e2)\<rparr>)
      in if em_configured e3 \<and> picksChanged then e3\<lparr>em_pushes := em_pushes e3 @ crew_push p\<rparr> else e3)"

definition profileDeleted :: "string \<Rightarrow> string \<Rightarrow> emitter \<Rightarrow> emitter" where
  "profileDeleted f p e =
     (let k = batch_key f p;
          e1 = (if map_of (em_timers e) k \<noteq> None
                then e\<lparr>em_timers := AList.delete k (em_timers e), em_payloads := AList.delete k (em_payloads e)\<rparr> else e)
      in emit (Some f) (ProfileDeleted f p) e1)"

text \<open>The event loop reaches \<open>now\<close>: every timer that is due fires.\<close>

definition fire_due :: "int \<Rightarrow> emitter \<Rightarrow> emitter" where
  "fire_due now e = fold (\<lambda>t. flushProfileBatch (fst t)) (js_sort (by_key snd) (filter (\<lambda>t. snd t \<le> now) (em_timers e))) e"

definition flushAll :: "emitter \<Rightarrow> emitter" where
  "flushAll e =
     (fold (\<lambda>t. flushProfileBatch (fst t)) (em_timers e) (e\<lparr>em_down := True\<rparr>))\<lparr>em_timers := [], em_payloads := []\<rparr>"

subsection \<open>Everything else\<close>

definition festivalCreated :: "string \<Rightarrow> string \<Rightarrow> emitter \<Rightarrow> emitter" where
  "festivalCreated i name = emit None (FestivalCreated i name)"

definition schedule_push :: "string \<Rightarrow> string \<Rightarrow> push list" where
  "schedule_push i name =
     [OfflinePush i ''schedule_change'' ''schedule'' (name @ '' schedule has been updated'')
        [(''festivalId'', i), (''deepLink'', ''rave://festival/'' @ i)] (''schedule-'' @ i) [],
      SilentSync i ''festival'' []]"

definition festivalUpdated :: "string \<Rightarrow> string \<Rightarrow> emitter \<Rightarrow> emitter" where
  "festivalUpdated i name e =
     (let e1 = emit None (FestivalUpdated i) e
      in if em_configured e1 then e1\<lparr>em_pushes := em_pushes e1 @ schedule_push i name\<rparr> else e1)"

definition festivalDeleted :: "string \<Rightarrow> emitter \<Rightarrow> emitter" where
  "festivalDeleted i = emit None (FestivalDeleted i)"

definition presenceUpdate :: "string \<Rightarrow> string list \<Rightarrow> emitter \<Rightarrow> emitter" where
  "presenceUpdate f online = emit (Some f) (PresenceUpdate online)"

definition crewExpenseAdded :: "string \<Rightarrow> json \<Rightarrow> emitter \<Rightarrow> emitter" where
  "crewExpenseAdded c x = emit (Some (''crew:'' @ c)) (CrewExpenseAdded c x)"

definition crewExpenseDeleted :: "string \<Rightarrow> string \<Rightarrow> emitter \<Rightarrow> emitter" where
  "crewExpenseDeleted c x = emit (Some (''crew:'' @ c)) (CrewExpenseDeleted c x)"

definition crewActivityLogged :: "string \<Rightarrow> json \<Rightarrow> emitter \<Rightarrow> emitter" where
  "crewActivityLogged c x = emit (Some (''crew:'' @ c)) (CrewActivityLogged c x)"

datatype em_op =
    Updated int sprofile "user_row option" bool
  | Created string sprofile "user_row option"
  | Deleted string string
  | Clock int
  | NewFestival string string
  | ChangedFestival string string
  | NoFestival string
  | Presence string "string list"
  | NewExpense string json
  | NoExpense string string
  | Activity string json

definition em_step :: "em_op \<Rightarrow> emitter \<Rightarrow> emitter" where
  "em_step a =
     (case a of
        Updated now p u c \<Rightarrow> profileUpdated now p u c
      | Created f p u \<Rightarrow> profileCreated f p u
      | Deleted f p \<Rightarrow> profileDeleted f p
      | Clock now \<Rightarrow> fire_due now
      | NewFestival i n \<Rightarrow> festivalCreated i n
      | ChangedFestival i n \<Rightarrow> festivalUpdated i n
      | NoFestival i \<Rightarrow> festivalDeleted i
      | Presence f xs \<Rightarrow> presenceUpdate f xs
      | NewExpense c x \<Rightarrow> crewExpenseAdded c x
      | NoExpense c x \<Rightarrow> crewExpenseDeleted c x
      | Activity c x \<Rightarrow> crewActivityLogged c x)"

definition emitter0 :: "bool \<Rightarrow> emitter" where
  "emitter0 configured = \<lparr>em_timers = [], em_payloads = [], em_down = False, em_configured = configured, em_out = [], em_pushes = []\<rparr>"

subsection \<open>What a room was told last\<close>

definition key_of :: "batch \<Rightarrow> string" where
  "key_of b = batch_key (ba_festivalId b) (ba_profileId b)"

fun told :: "string \<Rightarrow> (string option \<times> prof_event) list \<Rightarrow> batch option" where
  "told k [] = None"
| "told k (x # xs) = (case told k xs of Some b \<Rightarrow> Some b
     | None \<Rightarrow> (case snd x of ProfileUpdated b \<Rightarrow> if key_of b = k \<and> fst x = Some (ba_festivalId b) then Some b else None | _ \<Rightarrow> None))"

text \<open>The last update of a profile in a run, \<open>None\<close> after its deletion.\<close>

definition note_update :: "string \<Rightarrow> em_op \<Rightarrow> batch option \<Rightarrow> batch option" where
  "note_update k a m =
     (case a of Updated now p u c \<Rightarrow> if batch_key (sp_festivalId p) (sp_id p) = k then Some (batch_of now p u) else m
      | Deleted f p \<Rightarrow> if batch_key f p = k then None else m
      | _ \<Rightarrow> m)"

definition last_update :: "string \<Rightarrow> em_op list \<Rightarrow> batch option" where
  "last_update k ops = fold (note_update k) ops None"

text \<open>What the room knows once the pending batch is out.\<close>

definition in_sight :: "string \<Rightarrow> emitter \<Rightarrow> batch option" where
  "in_sight k e = (case map_of (em_payloads e) k of Some (b, t) \<Rightarrow> Some b | None \<Rightarrow> told k (em_out e))"

definition keys_match :: "emitter \<Rightarrow> bool" where
  "keys_match e \<longleftrightarrow> list_all (\<lambda>(k, b, t). k = key_of b) (em_payloads e) \<and> distinct (map fst (em_payloads e)) \<and> distinct (map fst (em_timers e))"

definition keys_ok :: "emitter \<Rightarrow> bool" where
  "keys_ok e \<longleftrightarrow> keys_match e \<and> \<not> em_down e \<and> set (map fst (em_timers e)) = set (map fst (em_payloads e))
     \<and> length (em_payloads e) \<le> MAX_BATCH_ENTRIES"

lemma told_append: "told k (xs @ ys) = (case told k ys of Some b \<Rightarrow> Some b | None \<Rightarrow> told k xs)"
  by (induction xs) (auto split: option.splits)

lemma emit_sel [simp]:
  "em_timers (emit r ev e) = em_timers e" "em_payloads (emit r ev e) = em_payloads e" "em_down (emit r ev e) = em_down e"
  "em_configured (emit r ev e) = em_configured e" "em_pushes (emit r ev e) = em_pushes e" "em_out (emit r ev e) = em_out e @ [(r, ev)]"
  by (simp_all add: emit_def)

lemma keys_ok_emit [simp]: "keys_ok (emit r ev e) = keys_ok e"
  by (simp add: keys_ok_def keys_match_def)

lemma in_sight_emit: "(\<And>b. ev \<noteq> ProfileUpdated b) \<Longrightarrow> in_sight k (emit r ev e) = in_sight k e"
  by (cases ev) (auto simp: in_sight_def told_append split: option.splits)

lemma flush_payloads [simp]:
  "em_payloads (flushProfileBatch k e) = AList.delete k (em_payloads e)"
  "em_timers (flushProfileBatch k e) = AList.delete k (em_timers e)"
  "em_down (flushProfileBatch k e) = em_down e"
  by (simp_all add: flushProfileBatch_def Let_def split: option.split prod.split)

lemma length_update_le: "length (AList.update k v xs) \<le> Suc (length xs)"
  by (induction xs) auto

lemma set_delete_subset: "set (AList.delete k xs) \<subseteq> set xs"
  by (auto simp: AList.delete_eq)

definition drop_batch :: "string \<Rightarrow> emitter \<Rightarrow> emitter" where
  "drop_batch k e = e\<lparr>em_timers := AList.delete k (em_timers e), em_payloads := AList.delete k (em_payloads e)\<rparr>"

lemma keys_match_drop: "keys_match e \<Longrightarrow> keys_match (drop_batch k e)"
  using set_delete_subset [of k "em_payloads e"]
  by (auto simp: keys_match_def drop_batch_def list_all_iff distinct_delete simp del: map_map)

lemma keys_ok_drop: "keys_ok e \<Longrightarrow> keys_ok (drop_batch k e)"
  using keys_match_drop [of e k] length_delete_le [of k "em_payloads e"]
  by (simp add: keys_ok_def drop_batch_def delete_keys flip: set_map)

lemma flush_drop: "flushProfileBatch k e =
    (case map_of (em_payloads e) k of None \<Rightarrow> drop_batch k e
     | Some (b, t) \<Rightarrow> emit (Some (ba_festivalId b)) (ProfileUpdated b) (drop_batch k e))"
  by (simp add: flushProfileBatch_def drop_batch_def Let_def split: option.split prod.split)

lemma keys_match_emit [simp]: "keys_match (emit r ev e) = keys_match e"
  by (simp add: keys_match_def)

lemma keys_match_flush: "keys_match e \<Longrightarrow> keys_match (flushProfileBatch k e)"
  by (simp add: flush_drop keys_match_drop split: option.split prod.split)

lemma keys_ok_flush: "keys_ok e \<Longrightarrow> keys_ok (flushProfileBatch k e)"
  by (simp add: flush_drop keys_ok_drop split: option.split prod.split)

lemma keys_matchD: "keys_match e \<Longrightarrow> map_of (em_payloads e) k = Some (b, t) \<Longrightarrow> key_of b = k"
  by (auto simp: keys_match_def list_all_iff dest!: map_of_SomeD)

lemma in_sight_flush:
  assumes "keys_match e"
  shows "in_sight k' (flushProfileBatch k e) = in_sight k' e"
  using keys_matchD [OF assms]
  by (cases "k = k'"; cases "map_of (em_payloads e) k")
    (auto simp: in_sight_def flushProfileBatch_def told_append delete_conv split: option.splits)

lemma evict_oldest_batch_ok:
  assumes "keys_ok e"
  shows "keys_ok (evict_oldest_batch e) \<and> in_sight k (evict_oldest_batch e) = in_sight k e
    \<and> length (em_payloads (evict_oldest_batch e)) < MAX_BATCH_ENTRIES \<and> set (em_timers (evict_oldest_batch e)) \<subseteq> set (em_timers e)"
proof (cases "em_payloads e")
  case Nil
  then show ?thesis using assms by (simp add: evict_oldest_batch_def MAX_BATCH_ENTRIES_def)
next
  case (Cons x xs)
  then obtain k0 v where x: "em_payloads e = (k0, v) # xs" by (cases x) auto
  have "k0 \<noteq> []" using assms x by (auto simp: keys_ok_def keys_match_def key_of_def batch_key_def)
  moreover have "length (AList.delete k0 ((k0, v) # xs)) \<le> length xs" using length_delete_le [of k0 xs] by simp
  moreover have "keys_match e" using assms by (simp add: keys_ok_def)
  moreover have "length ((k0, v) # xs) \<le> MAX_BATCH_ENTRIES" using assms x by (simp add: keys_ok_def)
  ultimately show ?thesis using assms x keys_ok_flush [OF assms, of k0] in_sight_flush set_delete_subset [of k0 "em_timers e"]
    by (auto simp: evict_oldest_batch_def)
qed

lemma profileUpdated_ok:
  assumes "keys_ok e"
  shows "keys_ok (profileUpdated now p u c e)"
    and "in_sight k (profileUpdated now p u c e) = note_update k (Updated now p u c) (in_sight k e)"
    and "set (em_timers (profileUpdated now p u c e)) \<subseteq> insert (batch_key (sp_festivalId p) (sp_id p), now + BATCH_DEBOUNCE_MS) (set (em_timers e))"
proof -
  let ?k = "batch_key (sp_festivalId p) (sp_id p)"
  let ?e1 = "evict_oldest_batch e"
  from evict_oldest_batch_ok [OF assms] have e1: "keys_ok ?e1" "in_sight k ?e1 = in_sight k e"
    "length (em_payloads ?e1) < MAX_BATCH_ENTRIES" "set (em_timers ?e1) \<subseteq> set (em_timers e)" by auto
  have key: "key_of (batch_of now p u) = ?k" by (simp add: key_of_def batch_of_def)
  have len: "length (AList.update ?k v (em_payloads ?e1)) \<le> MAX_BATCH_ENTRIES" for v
    using e1(3) length_update_le [of ?k v "em_payloads ?e1"] by simp
  have sub: "set (AList.update j v xs) \<subseteq> insert (j, v) (set xs)" for j and v :: 'z and xs :: "(string \<times> 'z) list"
    by (induction xs) auto
  have match: "list_all (\<lambda>(k, b, t). k = key_of b) (AList.update ?k (batch_of now p u, now) (em_payloads ?e1))"
    using e1(1) key sub [of ?k "(batch_of now p u, now)" "em_payloads ?e1"] by (auto simp: keys_ok_def keys_match_def list_all_iff)
  show "keys_ok (profileUpdated now p u c e)"
    using e1(1) len match by (simp add: profileUpdated_def keys_ok_def keys_match_def Let_def distinct_update dom_update)
  show "in_sight k (profileUpdated now p u c e) = note_update k (Updated now p u c) (in_sight k e)"
    using e1(2) by (simp add: profileUpdated_def in_sight_def note_update_def Let_def update_conv' cong: option.case_cong)
  show "set (em_timers (profileUpdated now p u c e)) \<subseteq> insert (?k, now + BATCH_DEBOUNCE_MS) (set (em_timers e))"
    using e1(1,4) sub [of ?k "now + BATCH_DEBOUNCE_MS" "em_timers ?e1"] by (auto simp: profileUpdated_def keys_ok_def Let_def)
qed

lemma fold_flush:
  assumes "keys_match e"
  shows "keys_match (fold (\<lambda>t. flushProfileBatch (fst t)) ts e)"
    and "in_sight k (fold (\<lambda>t. flushProfileBatch (fst t)) ts e) = in_sight k e"
    and "map_of (em_payloads (fold (\<lambda>t. flushProfileBatch (fst t)) ts e)) k = (if k \<in> fst ` set ts then None else map_of (em_payloads e) k)"
    and "set (em_timers (fold (\<lambda>t. flushProfileBatch (fst t)) ts e)) \<subseteq> set (em_timers e)"
  using assms
proof (induction ts arbitrary: e)
  case (Cons t ts)
  { case 1 then show ?case using Cons.IH(1) keys_match_flush by simp }
  { case 2 then show ?case using Cons.IH(2) keys_match_flush in_sight_flush by simp }
  { case 3 then show ?case using Cons.IH(3) keys_match_flush by (auto simp: delete_conv) }
  { case 4 then show ?case using Cons.IH(4) [OF keys_match_flush [OF 4], of "fst t"] by (auto simp: AList.delete_eq) }
qed simp_all

lemma keys_ok_fold_flush: "keys_ok e \<Longrightarrow> keys_ok (fold (\<lambda>t. flushProfileBatch (fst t)) ts e)"
  by (induction ts arbitrary: e) (simp_all add: keys_ok_flush)

lemma profileDeleted_ok:
  assumes "keys_ok e"
  shows "keys_ok (profileDeleted f p e)"
    and "k \<noteq> batch_key f p \<Longrightarrow> in_sight k (profileDeleted f p e) = in_sight k e"
    and "set (em_timers (profileDeleted f p e)) \<subseteq> set (em_timers e)"
proof -
  show "keys_ok (profileDeleted f p e)"
    using assms keys_ok_drop [OF assms, of "batch_key f p"] by (simp add: profileDeleted_def Let_def drop_batch_def)
  show "in_sight k (profileDeleted f p e) = in_sight k e" if "k \<noteq> batch_key f p"
    using that by (simp add: profileDeleted_def Let_def in_sight_emit) (simp add: in_sight_def delete_conv cong: option.case_cong)
  show "set (em_timers (profileDeleted f p e)) \<subseteq> set (em_timers e)"
    by (auto simp: profileDeleted_def Let_def AList.delete_eq)
qed

lemmas plain_events = profileCreated_def festivalCreated_def festivalUpdated_def festivalDeleted_def
  presenceUpdate_def crewExpenseAdded_def crewExpenseDeleted_def crewActivityLogged_def

definition due_by :: "int \<Rightarrow> em_op \<Rightarrow> bool" where
  "due_by t a = (case a of Updated now p u c \<Rightarrow> now + BATCH_DEBOUNCE_MS \<le> t | _ \<Rightarrow> True)"

definition follows :: "string \<Rightarrow> batch option \<Rightarrow> emitter \<Rightarrow> bool" where
  "follows k m e \<longleftrightarrow> keys_ok e \<and> (case m of None \<Rightarrow> True | Some b \<Rightarrow> in_sight k e = Some b)"

lemma pushes_irrelevant [simp]:
  "keys_ok (e\<lparr>em_pushes := x\<rparr>) = keys_ok e" "in_sight k (e\<lparr>em_pushes := x\<rparr>) = in_sight k e"
  by (simp_all add: keys_ok_def keys_match_def in_sight_def cong: option.case_cong)

lemma em_step_follows:
  assumes "follows k m e"
  shows "follows k (note_update k a m) (em_step a e)"
proof (cases a)
  case (Updated now p u c)
  then show ?thesis using assms profileUpdated_ok(1,2)
    by (auto simp: follows_def em_step_def note_update_def split: option.splits)
next
  case (Deleted f p)
  then show ?thesis using assms profileDeleted_ok(1,2) by (auto simp: follows_def em_step_def note_update_def split: option.splits)
next
  case (Clock now)
  let ?ts = "js_sort (by_key snd) (filter (\<lambda>t. snd t \<le> now) (em_timers e))"
  have e: "keys_ok e" "keys_match e" using assms by (simp_all add: follows_def keys_ok_def)
  show ?thesis using assms fold_flush(2) [OF e(2), of k ?ts] keys_ok_fold_flush [OF e(1), of ?ts]
    by (simp add: Clock follows_def em_step_def note_update_def fire_due_def split: option.splits)
qed (use assms in \<open>auto simp: follows_def em_step_def note_update_def plain_events in_sight_emit Let_def split: option.splits\<close>)

lemma em_step_due:
  assumes "keys_ok e" and "due_by t a" and "\<forall>x\<in>set (em_timers e). snd x \<le> t"
  shows "\<forall>x\<in>set (em_timers (em_step a e)). snd x \<le> t"
proof (cases a)
  case (Updated now p u c)
  then show ?thesis using assms profileUpdated_ok(3) [OF assms(1), of now p u c] by (fastforce simp: em_step_def due_by_def)
next
  case (Deleted f p)
  then show ?thesis using assms profileDeleted_ok(3) [OF assms(1), of f p] by (auto simp: em_step_def)
next
  case (Clock now)
  then show ?thesis using assms fold_flush(4) by (fastforce simp: em_step_def fire_due_def keys_ok_def)
qed (use assms in \<open>auto simp: em_step_def plain_events Let_def\<close>)

lemma run_follows:
  assumes "list_all (due_by t) ops" and "follows k m e" and "\<forall>x\<in>set (em_timers e). snd x \<le> t"
  shows "follows k (fold (note_update k) ops m) (fold em_step ops e) \<and> (\<forall>x\<in>set (em_timers (fold em_step ops e)). snd x \<le> t)"
  using assms
proof (induction ops arbitrary: m e)
  case (Cons a ops)
  have "keys_ok e" using Cons.prems(2) by (simp add: follows_def)
  then have "\<forall>x\<in>set (em_timers (em_step a e)). snd x \<le> t" using Cons.prems by (intro em_step_due) auto
  then show ?case using Cons.IH [OF _ em_step_follows [OF Cons.prems(2)]] Cons.prems(1) by simp
qed simp

text \<open>C29. Batching loses nothing: whatever events go out, in whatever order, once 200 ms have passed since the
  last update of any profile, or the server has flushed its batches to shut down, the last
  \<open>profile:updated\<close> a festival's room was sent for a profile carries the profile's last state (unless
  the profile was deleted since), and at no time are more than a thousand batches pending.\<close>

theorem batching_converges:
  assumes "last_update k ops = Some b" and "list_all (due_by t) ops"
  shows "told k (em_out (fire_due t (fold em_step ops (emitter0 configured)))) = Some b
    \<and> told k (em_out (flushAll (fold em_step ops (emitter0 configured)))) = Some b
    \<and> length (em_payloads (fold em_step ops (emitter0 configured))) \<le> 1000"
proof -
  let ?e = "fold em_step ops (emitter0 configured)"
  have "follows k None (emitter0 configured)"
    by (simp add: follows_def emitter0_def keys_ok_def keys_match_def MAX_BATCH_ENTRIES_def)
  from run_follows [OF assms(2) this] assms(1)
  have f: "keys_ok ?e" "in_sight k ?e = Some b" "\<forall>x\<in>set (em_timers ?e). snd x \<le> t"
    by (auto simp: last_update_def follows_def emitter0_def)
  then have m: "keys_match ?e" "set (map fst (em_timers ?e)) = set (map fst (em_payloads ?e))"
    and len: "length (em_payloads ?e) \<le> 1000" by (auto simp: keys_ok_def MAX_BATCH_ENTRIES_def)
  have dom: "k \<in> fst ` set (em_timers ?e)" if "map_of (em_payloads ?e) k = Some v" for v
    using that m(2) map_of_eq_None_iff [of "em_payloads ?e" k] by auto
  have all: "filter (\<lambda>x. snd x \<le> t) (em_timers ?e) = em_timers ?e" using f(3) by (simp add: filter_id_conv)
  have out: "told k (em_out (fold (\<lambda>t. flushProfileBatch (fst t)) ts e)) = in_sight k e"
    if "keys_match e" "\<And>v. map_of (em_payloads e) k = Some v \<Longrightarrow> k \<in> fst ` set ts" for ts e
  proof -
    have "map_of (em_payloads (fold (\<lambda>t. flushProfileBatch (fst t)) ts e)) k = None"
      using fold_flush(3) [OF that(1), of ts k] that(2) by (cases "map_of (em_payloads e) k") auto
    then show ?thesis using fold_flush(2) [OF that(1), of k ts] by (simp add: in_sight_def [of k "fold _ _ _"])
  qed
  have "told k (em_out (fire_due t ?e)) = in_sight k ?e"
    unfolding fire_due_def all by (rule out [OF m(1)]) (use dom in \<open>auto simp: set_js_sort\<close>)
  moreover have "told k (em_out (flushAll ?e)) = in_sight k (?e\<lparr>em_down := True\<rparr>)"
  proof -
    have "keys_match (?e\<lparr>em_down := True\<rparr>)" using m(1) by (simp add: keys_match_def)
    from out [OF this, of "em_timers ?e"] dom show ?thesis by (simp add: flushAll_def)
  qed
  moreover have "in_sight k (?e\<lparr>em_down := True\<rparr>) = in_sight k ?e" by (simp add: in_sight_def cong: option.case_cong)
  ultimately show ?thesis using f(2) len by simp
qed

lemma batching_converges_witness:
  "told ''f:p'' (em_out (fire_due 400 (fold em_step
     [Updated 0 \<lparr>sp_id = ''p'', sp_festivalId = ''f'', sp_userId = None, sp_name = ''N'', sp_picks = [(''s'', Must)], sp_notes = [],
        sp_reminders = [], sp_createdAt = 0, sp_updatedAt = Some 7\<rparr> None True,
      Updated 100 \<lparr>sp_id = ''p'', sp_festivalId = ''f'', sp_userId = None, sp_name = ''N'', sp_picks = [], sp_notes = [],
        sp_reminders = [], sp_createdAt = 0, sp_updatedAt = Some 8\<rparr> None True] (emitter0 False))))
   = Some \<lparr>ba_festivalId = ''f'', ba_profileId = ''p'', ba_name = ''N'', ba_avatarUrl = None, ba_picks = [], ba_updatedAt = 8\<rparr>"
  by (rule batching_converges [THEN conjunct1])
    (simp_all add: last_update_def note_update_def batch_key_def batch_of_def buildAvatarUrl_def or_old_def due_by_def BATCH_DEBOUNCE_MS_def)

end
