(* ===== verification/Profile_Routes.thy ===== *)
theory Profile_Routes
  imports Profile_Inv Emitter Socket_Relay
begin

text \<open>
  Festival profiles over HTTP: \<open>routes/profiles.ts\<close>, the payload checks of \<open>lib/schemas.ts\<close> and the
  two projections of \<open>lib/helpers/export-utils.ts\<close>.

  The session and the rate limiters run before.  Festivals and users come from the caches of the
  application context, which are given.  \<open>ps_up\<close> says whether the database answers; a handler whose
  query throws answers 500.
\<close>

subsection \<open>Payloads\<close>

definition MAX_PICKS :: nat where "MAX_PICKS = 500"
definition MAX_NOTES :: nat where "MAX_NOTES = 500"
definition MAX_NOTE_LENGTH :: nat where "MAX_NOTE_LENGTH = 1000"
definition MAX_REMINDERS :: nat where "MAX_REMINDERS = 200"
definition MAX_PROFILES_PER_FESTIVAL :: nat where "MAX_PROFILES_PER_FESTIVAL = 100"

definition ALLOWED_REMINDER_MINUTES :: "int set" where
  "ALLOWED_REMINDER_MINUTES = {5, 10, 15, 30, 60}"

definition DANGEROUS_RECORD_KEYS :: "string list" where
  "DANGEROUS_RECORD_KEYS = [''__proto__'', ''constructor'', ''prototype'']"

definition priority_of :: "json \<Rightarrow> priority option" where
  "priority_of j = (if j = JStr ''must'' then Some Must else if j = JStr ''want-to-see'' then Some WantToSee
     else if j = JStr ''maybe'' then Some Maybe else None)"

definition priority_text :: "priority \<Rightarrow> string" where
  "priority_text p = (case p of Must \<Rightarrow> ''must'' | WantToSee \<Rightarrow> ''want-to-see'' | Maybe \<Rightarrow> ''maybe'')"

text \<open>What the request schema admits.\<close>

definition record_schema :: "(json \<Rightarrow> bool) \<Rightarrow> json option \<Rightarrow> bool" where
  "record_schema ok j =
     (case j of None \<Rightarrow> True
      | Some (JObj fs) \<Rightarrow> list_all (\<lambda>(k, v). length k \<le> 100 \<and> ok v) fs
      | Some _ \<Rightarrow> False)"

definition note_schema :: "json \<Rightarrow> bool" where
  "note_schema v = (case v of JStr t \<Rightarrow> length t \<le> 1000 | _ \<Rightarrow> False)"

definition reminder_schema :: "json \<Rightarrow> bool" where
  "reminder_schema v = (case v of JNum n \<Rightarrow> n \<in> {5, 10, 15, 30, 60} | _ \<Rightarrow> False)"

definition profileUpdateSchema :: "json \<Rightarrow> bool" where
  "profileUpdateSchema b \<longleftrightarrow>
     record_schema (\<lambda>v. priority_of v \<noteq> None) (json_field b ''picks'')
     \<and> record_schema note_schema (json_field b ''notes'')
     \<and> record_schema reminder_schema (json_field b ''reminders'')
     \<and> (json_field b ''picks'' \<noteq> None \<or> json_field b ''notes'' \<noteq> None \<or> json_field b ''reminders'' \<noteq> None)"

text \<open>The key itself, when sanitizing leaves it alone.\<close>

definition normalizeRecordKey :: "nat \<Rightarrow> string \<Rightarrow> string option" where
  "normalizeRecordKey maxLen v =
     (let n = sanitizeString maxLen v
      in if n = [] \<or> n \<noteq> v \<or> n \<in> set DANGEROUS_RECORD_KEYS then None else Some n)"

text \<open>The loop over the entries stops at the first error.\<close>

fun normalize_entries :: "string \<Rightarrow> (json \<Rightarrow> string + 'a) \<Rightarrow> (string \<times> json) list \<Rightarrow> (string \<times> 'a) list \<Rightarrow> string + (string \<times> 'a) list" where
  "normalize_entries badKey val [] acc = Inr acc"
| "normalize_entries badKey val ((raw, v) # xs) acc =
     (case normalizeRecordKey 100 raw of
        None \<Rightarrow> Inl badKey
      | Some k \<Rightarrow> (case val v of Inl e \<Rightarrow> Inl e | Inr x \<Rightarrow> normalize_entries badKey val xs (AList.update k x acc)))"

definition json_text :: "json \<Rightarrow> string" where
  "json_text j = (case j of JStr s \<Rightarrow> s | JBool b \<Rightarrow> if b then ''true'' else ''false'' | JNull \<Rightarrow> ''null''
     | JNum n \<Rightarrow> show_int \<lfloor>n\<rfloor> | _ \<Rightarrow> ''[object Object]'')"

definition normalizePickPayload :: "json \<Rightarrow> string + (string \<times> priority) list" where
  "normalizePickPayload input =
     (case input of
        JObj fs \<Rightarrow>
          if MAX_PICKS < length fs then Inl ''Too many picks''
          else normalize_entries ''Invalid pick key''
                 (\<lambda>v. case priority_of v of Some p \<Rightarrow> Inr p | None \<Rightarrow> Inl (''Invalid priority: '' @ json_text v)) fs []
      | _ \<Rightarrow> Inl ''Invalid picks format'')"

definition normalize_note :: "json \<Rightarrow> string + string" where
  "normalize_note v =
     (case v of
        JStr note \<Rightarrow> if MAX_NOTE_LENGTH * 2 < length note then Inl ''Note too long'' else Inr (sanitizeString MAX_NOTE_LENGTH note)
      | _ \<Rightarrow> Inl ''Note must be a string'')"

definition normalizeNotePayload :: "json \<Rightarrow> string + (string \<times> string) list" where
  "normalizeNotePayload input =
     (case input of
        JObj fs \<Rightarrow> if MAX_NOTES < length fs then Inl ''Too many notes'' else normalize_entries ''Invalid note key'' normalize_note fs []
      | _ \<Rightarrow> Inl ''Invalid notes format'')"

text \<open>\<open>Number.parseInt\<close> of a number or of a string of digits.\<close>

definition parse_minutes :: "json \<Rightarrow> int option" where
  "parse_minutes v =
     (case v of
        JNum n \<Rightarrow> Some (if n < 0 then \<lceil>n\<rceil> else \<lfloor>n\<rfloor>)
      | JStr s \<Rightarrow> (let ds = takeWhile (\<lambda>c. (of_char c :: nat) \<in> {48..57}) (js_trim s)
                  in if ds = [] then None else Some (foldl (\<lambda>a c. a * 10 + (of_char c - 48)) 0 ds))
      | _ \<Rightarrow> None)"

definition normalize_minutes :: "json \<Rightarrow> string + int" where
  "normalize_minutes v =
     (case parse_minutes v of
        Some m \<Rightarrow> if m \<in> ALLOWED_REMINDER_MINUTES then Inr m else Inl ''Invalid reminder time''
      | None \<Rightarrow> Inl ''Invalid reminder time'')"

definition normalizeReminderPayload :: "json \<Rightarrow> string + (string \<times> int) list" where
  "normalizeReminderPayload input =
     (case input of
        JObj fs \<Rightarrow>
          if MAX_REMINDERS < length fs then Inl (''Maximum '' @ show_nat MAX_REMINDERS @ '' reminders per profile'')
          else normalize_entries ''Invalid reminder key'' normalize_minutes fs []
      | _ \<Rightarrow> Inl ''Invalid reminders format'')"

subsection \<open>What a reader gets\<close>

record viewer_profile =
  vp_id :: string
  vp_festivalId :: string
  vp_userId :: "string option"
  vp_name :: string
  vp_avatarUrl :: "string option"
  vp_picks :: "(string \<times> priority) list"
  vp_notes :: "(string \<times> string) list option"
  vp_reminders :: "(string \<times> int) list option"
  vp_createdAt :: int
  vp_updatedAt :: "int option"

definition serializeOwnProfile :: "sprofile \<Rightarrow> user_row option \<Rightarrow> viewer_profile" where
  "serializeOwnProfile p u =
     \<lparr>vp_id = sp_id p, vp_festivalId = sp_festivalId p, vp_userId = sp_userId p, vp_name = sp_name p,
      vp_avatarUrl = buildAvatarUrl u, vp_picks = sp_picks p, vp_notes = Some (sp_notes p),
      vp_reminders = Some (sp_reminders p), vp_createdAt = sp_createdAt p, vp_updatedAt = sp_updatedAt p\<rparr>"

definition serializeProfileForViewer :: "string \<Rightarrow> user_row option \<Rightarrow> sprofile \<Rightarrow> viewer_profile" where
  "serializeProfileForViewer viewer u p =
     (let r = \<lparr>vp_id = sp_id p, vp_festivalId = sp_festivalId p, vp_userId = sp_userId p, vp_name = sp_name p,
               vp_avatarUrl = buildAvatarUrl u, vp_picks = sp_picks p, vp_notes = None, vp_reminders = None,
               vp_createdAt = sp_createdAt p, vp_updatedAt = sp_updatedAt p\<rparr>
      in if sp_userId p = Some viewer then r\<lparr>vp_notes := Some (sp_notes p), vp_reminders := Some (sp_reminders p)\<rparr> else r)"

subsection \<open>State\<close>

text \<open>
  A festival is known by the ids of its sets.  \<open>ps_relay\<close> holds the sockets, \<open>ps_revoked\<close> who was told
  that a profile is gone: socket, festival and profile.
\<close>

record prof_srv =
  ps_db :: prof_db
  ps_emitter :: emitter
  ps_users :: "string \<Rightarrow> user_row option"
  ps_festivals :: "string \<Rightarrow> string list option"
  ps_up :: bool
  ps_relay :: relay
  ps_revoked :: "(string \<times> string \<times> string) list"

record prof_call =
  pc_now :: int
  pc_userId :: string
  pc_username :: string
  pc_newId :: string
  pc_issue :: string

text \<open>An error answer, with the current version when the client's is stale; or a success.\<close>

type_synonym 'a prof_reply = "(http_error \<times> viewer_profile option) + 'a"

definition refuse_profile :: "nat \<Rightarrow> string \<Rightarrow> error_code \<Rightarrow> 'a prof_reply" where
  "refuse_profile st m c = Inl ((st, m, c), None)"

definition getUserFestivalProfile :: "string \<Rightarrow> string \<Rightarrow> prof_db \<Rightarrow> sprofile option" where
  "getUserFestivalProfile u f d =
     (if u = [] \<or> f = [] then None
      else case readByUserAndFestival u f d of None \<Rightarrow> None | Some i \<Rightarrow> profiles_getById i d)"

definition user_of :: "prof_srv \<Rightarrow> sprofile \<Rightarrow> user_row option" where
  "user_of s p = (case sp_userId p of Some u \<Rightarrow> ps_users s u | None \<Rightarrow> None)"

subsection \<open>Listing and joining\<close>

definition list_profiles :: "prof_call \<Rightarrow> string \<Rightarrow> prof_srv \<Rightarrow> viewer_profile list prof_reply" where
  "list_profiles c festivalId s =
     (if ps_festivals s festivalId = None then refuse_profile 404 ''Festival not found'' NOT_FOUND
      else if \<not> ps_up s then refuse_profile 500 ''Failed to load profiles'' INTERNAL_ERROR
      else if getUserFestivalProfile (pc_userId c) festivalId (ps_db s) = None
      then refuse_profile 403 ''Join this festival to view crew plans'' FORBIDDEN
      else Inr (map (\<lambda>p. serializeProfileForViewer (pc_userId c) (user_of s p) p) (getByFestival festivalId (ps_db s))))"

text \<open>The answer of a join that found, claimed or made a profile.\<close>

definition joined_reply :: "string \<Rightarrow> sprofile \<Rightarrow> prof_srv \<Rightarrow> viewer_profile prof_reply \<times> prof_srv" where
  "joined_reply festivalId p s =
     (case user_of s p of
        None \<Rightarrow> (refuse_profile 404 ''User not found'' NOT_FOUND, s)
      | Some u \<Rightarrow> (Inr (serializeOwnProfile p (Some u)), s\<lparr>ps_emitter := profileCreated festivalId p (Some u) (ps_emitter s)\<rparr>))"

definition join_failed :: "prof_srv \<Rightarrow> viewer_profile prof_reply \<times> prof_srv" where
  "join_failed s = (refuse_profile 500 ''Failed to create/join profile'' INTERNAL_ERROR, s)"

definition blank_profile :: "prof_call \<Rightarrow> string \<Rightarrow> new_profile" where
  "blank_profile c f =
     \<lparr>np_id = pc_newId c, np_festivalId = f, np_userId = Some (pc_userId c), np_name = pc_username c, np_picks = [],
      np_notes = [], np_reminders = [], np_createdAt = pc_now c\<rparr>"

definition create_profile :: "prof_call \<Rightarrow> string \<Rightarrow> prof_srv \<Rightarrow> viewer_profile prof_reply \<times> prof_srv" where
  "create_profile c raw s =
     (case sanitizeIdentifier raw of
        None \<Rightarrow> (refuse_profile 400 ''Festival ID required'' MISSING_FIELD, s)
      | Some f \<Rightarrow>
          if ps_festivals s f = None then (refuse_profile 404 ''Festival not found'' NOT_FOUND, s)
          else if \<not> ps_up s then join_failed s
          else case getUserFestivalProfile (pc_userId c) f (ps_db s) of
            Some p \<Rightarrow> joined_reply f p s
          | None \<Rightarrow>
              case claimOrphan (pc_now c) f (pc_userId c) (pc_username c) (ps_db s) of
                None \<Rightarrow> join_failed s
              | Some (Some p, d) \<Rightarrow> joined_reply f p (s\<lparr>ps_db := d\<rparr>)
              | Some (None, d) \<Rightarrow>
                  if MAX_PROFILES_PER_FESTIVAL \<le> countByFestival f d
                  then (refuse_profile 400 ''Maximum profiles reached'' MAX_LIMIT_REACHED, s\<lparr>ps_db := d\<rparr>)
                  else case profiles_create (blank_profile c f) d of
                    Some (Some p, d') \<Rightarrow> joined_reply f p (s\<lparr>ps_db := d'\<rparr>)
                  | Some (None, d') \<Rightarrow> join_failed (s\<lparr>ps_db := d'\<rparr>)
                  | None \<Rightarrow> join_failed s)"

subsection \<open>Updating\<close>

text \<open>The three maps of a request, normalized in order; each \<open>None\<close> when absent.\<close>

definition optional_map :: "(json \<Rightarrow> string + 'a) \<Rightarrow> json option \<Rightarrow> string + 'a option" where
  "optional_map conv j = (case j of None \<Rightarrow> Inr None | Some v \<Rightarrow> (case conv v of Inl e \<Rightarrow> Inl e | Inr x \<Rightarrow> Inr (Some x)))"

definition note_limits :: "(string \<times> string) list option \<Rightarrow> string option" where
  "note_limits notes =
     (case notes of None \<Rightarrow> None
      | Some ns \<Rightarrow>
          if 200 < length ns then Some ''Maximum 200 notes per profile''
          else map_option (\<lambda>n. ''Note text exceeds 1000 character limit for set '' @ fst n) (find (\<lambda>n. 1000 < length (snd n)) ns))"

definition reminder_limits :: "(string \<times> int) list option \<Rightarrow> string option" where
  "reminder_limits rems =
     (case rems of None \<Rightarrow> None
      | Some rs \<Rightarrow>
          if 200 < length rs then Some ''Maximum 200 reminders per profile''
          else map_option (\<lambda>r. ''Reminder for set '' @ fst r @ '' must be a positive integer'') (find (\<lambda>r. snd r < 1) rs))"

type_synonym next_maps = "(string \<times> priority) list option \<times> (string \<times> string) list option \<times> (string \<times> int) list option"

definition read_maps :: "json \<Rightarrow> string + next_maps" where
  "read_maps b =
     (case optional_map normalizePickPayload (json_field b ''picks'') of Inl e \<Rightarrow> Inl e
      | Inr picks \<Rightarrow>
     (case optional_map normalizeNotePayload (json_field b ''notes'') of Inl e \<Rightarrow> Inl e
      | Inr notes \<Rightarrow>
     (case note_limits notes of Some e \<Rightarrow> Inl e
      | None \<Rightarrow>
     (case optional_map normalizeReminderPayload (json_field b ''reminders'') of Inl e \<Rightarrow> Inl e
      | Inr rems \<Rightarrow>
     (case reminder_limits rems of Some e \<Rightarrow> Inl e
      | None \<Rightarrow> Inr (picks, notes, rems))))))"

definition unknown_set :: "string list \<Rightarrow> (string \<times> 'a) list option \<Rightarrow> bool" where
  "unknown_set valid m = (case m of None \<Rightarrow> False | Some xs \<Rightarrow> \<exists>x\<in>set xs. fst x \<notin> set valid)"

definition etag :: "int \<Rightarrow> string" where
  "etag t = CHR 0x22 # show_int t @ [CHR 0x22]"

text \<open>The checks against the stored profile.\<close>

definition update_allowed :: "prof_call \<Rightarrow> string option \<Rightarrow> string \<Rightarrow> next_maps \<Rightarrow> prof_srv \<Rightarrow> sprofile prof_reply" where
  "update_allowed c ifMatch profileId maps s =
     (case profiles_getById profileId (ps_db s) of
        None \<Rightarrow> refuse_profile 404 ''Profile not found'' NOT_FOUND
      | Some cur \<Rightarrow>
          if sp_userId cur \<noteq> Some (pc_userId c) then refuse_profile 403 ''Not your profile'' FORBIDDEN
          else if (case (ifMatch, sp_updatedAt cur) of (Some tag, Some t) \<Rightarrow> tag \<noteq> [] \<and> tag \<noteq> etag t | _ \<Rightarrow> False)
          then Inl ((409, ''Profile was modified since your last fetch'', VERSION_MISMATCH),
                    Some (serializeOwnProfile cur (user_of s cur)))
          else let valid = (case ps_festivals s (sp_festivalId cur) of Some xs \<Rightarrow> xs | None \<Rightarrow> [])
            in case maps of (picks, notes, rems) \<Rightarrow>
              if unknown_set valid picks then refuse_profile 400 ''Pick references an unknown set'' INVALID_INPUT
              else if unknown_set valid notes then refuse_profile 400 ''Note references an unknown set'' INVALID_INPUT
              else if unknown_set valid rems then refuse_profile 400 ''Reminder references an unknown set'' INVALID_INPUT
              else Inr cur)"

definition update_write :: "prof_call \<Rightarrow> string \<Rightarrow> next_maps \<Rightarrow> prof_srv \<Rightarrow> (viewer_profile \<times> string option) prof_reply \<times> prof_srv" where
  "update_write c profileId maps s =
     (case maps of (picks, notes, rems) \<Rightarrow>
      case profiles_update (pc_now c) profileId
             \<lparr>uf_picks = picks, uf_notes = notes, uf_reminders = rems, uf_userId = None, uf_name = None\<rparr> (ps_db s) of
        Some (Some p, d) \<Rightarrow>
          (Inr (serializeOwnProfile p (user_of s p), map_option etag (sp_updatedAt p)),
           s\<lparr>ps_db := d, ps_emitter := profileUpdated (pc_now c) p (user_of s p) (picks \<noteq> None) (ps_emitter s)\<rparr>)
      | Some (None, d) \<Rightarrow> (refuse_profile 500 ''Failed to update profile'' INTERNAL_ERROR, s\<lparr>ps_db := d\<rparr>)
      | None \<Rightarrow> (refuse_profile 500 ''Failed to update profile'' INTERNAL_ERROR, s))"

definition update_profile ::
  "prof_call \<Rightarrow> string option \<Rightarrow> string \<Rightarrow> json \<Rightarrow> prof_srv \<Rightarrow> (viewer_profile \<times> string option) prof_reply \<times> prof_srv" where
  "update_profile c ifMatch profileId body s =
     (if \<not> profileUpdateSchema body then (refuse_profile 400 (pc_issue c) VALIDATION_ERROR, s)
      else case read_maps body of
        Inl e \<Rightarrow> (refuse_profile 400 e INVALID_INPUT, s)
      | Inr maps \<Rightarrow>
          if \<not> ps_up s then (refuse_profile 500 ''Failed to update profile'' INTERNAL_ERROR, s)
          else case update_allowed c ifMatch profileId maps s of
            Inl e \<Rightarrow> (Inl e, s)
          | Inr cur \<Rightarrow> update_write c profileId maps s)"

subsection \<open>Deleting\<close>

text \<open>The sockets of a profile that is gone leave the festival's room (\<open>lib/presence.ts\<close>).\<close>

definition removeProfileSockets :: "sprofile \<Rightarrow> prof_srv \<Rightarrow> prof_srv" where
  "removeProfileSockets p s =
     (case sp_userId p of
        None \<Rightarrow> s
      | Some u \<Rightarrow>
          let hit = map sk_id (filter (\<lambda>k. sk_userId k = Some u \<and> sk_festivalId k = Some (sp_festivalId p)) (ry_socks (ps_relay s)))
          in if u = [] \<or> sp_festivalId p = [] then s
             else s\<lparr>ps_relay := fold (\<lambda>i r. snd (leaveFestivalRealtime i r)) hit (ps_relay s),
                    ps_revoked := ps_revoked s @ map (\<lambda>i. (i, sp_festivalId p, sp_id p)) hit\<rparr>)"

definition delete_profile :: "prof_call \<Rightarrow> string \<Rightarrow> prof_srv \<Rightarrow> bool prof_reply \<times> prof_srv" where
  "delete_profile c profileId s =
     (if \<not> ps_up s then (refuse_profile 500 ''Failed to delete profile'' INTERNAL_ERROR, s)
      else case profiles_delete (pc_now c) None None profileId (ps_db s) of
        (None, d) \<Rightarrow> (refuse_profile 404 ''Profile not found'' NOT_FOUND, s\<lparr>ps_db := d\<rparr>)
      | (Some p, d) \<Rightarrow>
          let s1 = removeProfileSockets p (s\<lparr>ps_db := d\<rparr>)
          in (Inr True, s1\<lparr>ps_emitter := profileDeleted (sp_festivalId p) (sp_id p) (ps_emitter s1)\<rparr>))"

end
