(* ===== verification/Profile_Props.thy ===== *)
theory Profile_Props
  imports Profile_Routes Relay_Props
begin

text \<open>
  What the profile routes guarantee: who may change what, what a refused request leaves behind, what
  others get to see, and that joining twice is joining once.
\<close>

subsection \<open>Payloads\<close>

lemma normalize_entries_distinct:
  "normalize_entries badKey val xs acc = Inr ys \<Longrightarrow> distinct (map fst acc) \<Longrightarrow> distinct (map fst ys)"
  by (induction badKey val xs acc rule: normalize_entries.induct)
    (auto simp: distinct_update split: option.splits sum.splits)

lemma normalizePickPayload_distinct: "normalizePickPayload j = Inr ys \<Longrightarrow> distinct (map fst ys)"
  by (auto simp: normalizePickPayload_def dest!: normalize_entries_distinct split: json.splits if_splits)

lemma normalizeNotePayload_distinct: "normalizeNotePayload j = Inr ys \<Longrightarrow> distinct (map fst ys)"
  by (auto simp: normalizeNotePayload_def dest!: normalize_entries_distinct split: json.splits if_splits)

lemma optional_map_cases: "optional_map f j = Inr (Some x) \<Longrightarrow> \<exists>v. j = Some v \<and> f v = Inr x"
  by (auto simp: optional_map_def split: option.splits sum.splits)

lemma read_maps_distinct:
  assumes "read_maps b = Inr (picks, ns, rems)"
  shows "picks = Some xs \<Longrightarrow> distinct (map fst xs)" and "ns = Some ys \<Longrightarrow> distinct (map fst ys)"
  using assms by (auto simp: read_maps_def dest!: optional_map_cases normalizePickPayload_distinct normalizeNotePayload_distinct
      split: option.splits sum.splits)

subsection \<open>Writing one profile\<close>

lemma find_on_row:
  assumes "\<And>r. fp_id (g r) = fp_id r" and "\<And>r. live_row (g r) = live_row r"
  shows "find (\<lambda>r. fp_id r = q) (filter live_row (on_row p g rs))
    = (if q = p then map_option g (find (\<lambda>r. fp_id r = q) (filter live_row rs)) else find (\<lambda>r. fp_id r = q) (filter live_row rs))"
  by (induction rs) (auto simp: on_row_def assms)

lemma on_row_ids: "(\<And>r. fp_id (g r) = fp_id r) \<Longrightarrow> map fp_id (on_row p g rs) = map fp_id rs"
  by (simp add: on_row_def)

lemma row_of_update:
  assumes "\<And>r. fp_id (g r) = fp_id r" and "\<And>r. live_row (g r) = live_row r"
  shows "row_of q (d\<lparr>pd_rows := on_row p g (pd_rows d), pd_picks := x, pd_notes := y\<rparr>) = (if q = p then map_option g (row_of p d) else row_of q d)"
  using find_on_row [of g q p "pd_rows d", OF assms] by (simp add: row_of_def live_rows_def)

lemma entries_ok_sync:
  assumes "entries_ok_in rs t" and "p \<in> fp_id ` set rs" and "\<And>xs. new = Some xs \<Longrightarrow> distinct (map fst xs)"
  shows "entries_ok_in rs (sync_entries p new t)"
proof (cases new)
  case (Some xs)
  have "distinct (map (\<lambda>e. (fst e, fst (snd e))) (drop_entries {p} t))" and "fst ` set (drop_entries {p} t) \<subseteq> fp_id ` set rs"
    using assms(1) by (auto simp: entries_ok_in_def drop_entries_def distinct_map_filter)
  moreover have "distinct (map (\<lambda>e. (fst e, fst (snd e))) (map (Pair p) xs))"
    using assms(3) [OF Some] by (simp add: distinct_map inj_on_def)
  ultimately show ?thesis using assms(2) Some
    by (auto simp: sync_entries_def add_entries_def entries_ok_in_def drop_entries_def)
qed (use assms in \<open>simp add: sync_entries_def\<close>)

lemma unique_ok_set_fields:
  assumes "unique_ok rs" and "uf_userId f = None"
  shows "unique_ok (on_row p (set_fields now f) rs)"
proof -
  let ?g = "\<lambda>r. if fp_id r = p \<and> live_row r then set_fields now f r else r"
  have kept: "fp_userId (set_fields now f r) = fp_userId r" "fp_festivalId (set_fields now f r) = fp_festivalId r" for r
    using assms(2) by (simp_all add: set_fields_def or_old_def)
  have same: "fp_id (?g r) = fp_id r" "live_row (?g r) = live_row r" "fp_userId (?g r) = fp_userId r" "fp_festivalId (?g r) = fp_festivalId r" for r
    using assms(2) by (auto simp: set_fields_def or_old_def live_row_def)
  have "map fp_id (map ?g rs) = map fp_id rs" by (simp add: same)
  moreover have "map (\<lambda>r. (fp_userId r, fp_festivalId r)) (filter (\<lambda>r. live_row r \<and> fp_userId r \<noteq> None) (map ?g rs))
      = map (\<lambda>r. (fp_userId r, fp_festivalId r)) (filter (\<lambda>r. live_row r \<and> fp_userId r \<noteq> None) rs)"
  proof (induction rs)
    case (Cons r rs)
    then show ?case by (simp add: same kept del: not_None_eq)
  qed simp
  ultimately show ?thesis using assms(1) by (simp only: unique_ok_def on_row_def)
qed

lemma profiles_update_total:
  assumes "constraints_ok d" and "row_of p d = Some r" and "uf_userId f = None"
    and "\<And>xs. uf_picks f = Some xs \<Longrightarrow> distinct (map fst xs)" and "\<And>xs. uf_notes f = Some xs \<Longrightarrow> distinct (map fst xs)"
  shows "profiles_update now p f d =
    Some (profiles_getById p (d\<lparr>pd_rows := on_row p (set_fields now f) (pd_rows d), pd_picks := sync_entries p (uf_picks f) (pd_picks d),
            pd_notes := sync_entries p (uf_notes f) (pd_notes d)\<rparr>),
          d\<lparr>pd_rows := on_row p (set_fields now f) (pd_rows d), pd_picks := sync_entries p (uf_picks f) (pd_picks d),
            pd_notes := sync_entries p (uf_notes f) (pd_notes d)\<rparr>)"
proof -
  have p: "p \<in> fp_id ` set (pd_rows d)" using assms(2) by (auto simp: row_of_def live_rows_def find_Some_iff dest!: nth_mem)
  have ids: "fp_id ` set (on_row p (set_fields now f) (pd_rows d)) = fp_id ` set (pd_rows d)"
    using on_row_ids [of "set_fields now f" p "pd_rows d"] by (metis set_fields_sel(1) set_map)
  have "constraints_ok (d\<lparr>pd_rows := on_row p (set_fields now f) (pd_rows d), pd_picks := sync_entries p (uf_picks f) (pd_picks d),
      pd_notes := sync_entries p (uf_notes f) (pd_notes d)\<rparr>)"
    using assms(1) unique_ok_set_fields [OF _ assms(3)] entries_ok_sync [OF _ p assms(4)] entries_ok_sync [OF _ p assms(5)]
    by (simp add: constraints_ok_def entries_ok_ids [OF ids])
  then show ?thesis by (simp add: profiles_update_def commit_def)
qed

text \<open>What a profile reads as once its maps are written.\<close>

definition rewritten :: "int \<Rightarrow> next_maps \<Rightarrow> sprofile \<Rightarrow> sprofile" where
  "rewritten now maps p =
     (case maps of (picks, notes, rems) \<Rightarrow>
        p\<lparr>sp_picks := or_old picks (sp_picks p), sp_notes := or_old notes (sp_notes p),
          sp_reminders := or_old rems (sp_reminders p), sp_updatedAt := Some now\<rparr>)"

lemma update_write_result:
  assumes "constraints_ok (ps_db s)" and "profiles_getById p (ps_db s) = Some cur"
    and "read_maps b = Inr maps"
  shows "\<exists>d. fst (update_write c p maps s) = Inr (serializeOwnProfile (rewritten (pc_now c) maps cur) (user_of s cur), Some (etag (pc_now c)))
    \<and> ps_db (snd (update_write c p maps s)) = d \<and> profiles_getById p d = Some (rewritten (pc_now c) maps cur)
    \<and> (\<forall>q. q \<noteq> p \<longrightarrow> profiles_getById q d = profiles_getById q (ps_db s))"
proof -
  obtain picks ns rems where maps: "maps = (picks, ns, rems)" by (cases maps) auto
  obtain r where r: "row_of p (ps_db s) = Some r" and cur: "cur = mapProfileRow (ps_db s) r"
    using assms(2) by (auto simp: profiles_getById_def)
  have id: "fp_id r = p" using r by (auto simp: row_of_def find_Some_iff)
  let ?f = "\<lparr>uf_picks = picks, uf_notes = ns, uf_reminders = rems, uf_userId = None, uf_name = None\<rparr>"
  let ?d = "(ps_db s)\<lparr>pd_rows := on_row p (set_fields (pc_now c) ?f) (pd_rows (ps_db s)),
      pd_picks := sync_entries p picks (pd_picks (ps_db s)), pd_notes := sync_entries p ns (pd_notes (ps_db s))\<rparr>"
  have upd: "profiles_update (pc_now c) p ?f (ps_db s) = Some (profiles_getById p ?d, ?d)"
    using profiles_update_total [OF assms(1) r, of ?f] read_maps_distinct [OF assms(3) [unfolded maps]] by simp
  have rows: "row_of q ?d = (if q = p then map_option (set_fields (pc_now c) ?f) (row_of p (ps_db s)) else row_of q (ps_db s))" for q
    by (rule row_of_update) simp_all
  have got: "profiles_getById p ?d = Some (rewritten (pc_now c) maps cur)"
    using r id by (simp add: profiles_getById_def rows mapProfileRow_def cur rewritten_def maps) (simp add: set_fields_def or_old_def)
  have rest: "profiles_getById q ?d = profiles_getById q (ps_db s)" if "q \<noteq> p" for q
  proof (cases "row_of q (ps_db s)")
    case (Some x)
    then have "fp_id x = q" by (auto simp: row_of_def find_Some_iff)
    then show ?thesis using that Some by (simp add: profiles_getById_def rows mapProfileRow_def)
  qed (use that in \<open>simp add: profiles_getById_def rows\<close>)
  have user: "user_of s (rewritten (pc_now c) maps cur) = user_of s cur" by (simp add: rewritten_def maps user_of_def)
  have "sp_updatedAt (rewritten (pc_now c) maps cur) = Some (pc_now c)" by (simp add: rewritten_def maps)
  then show ?thesis using rest by (simp add: update_write_def maps upd got [unfolded maps] user [unfolded maps])
qed


subsection \<open>Examples\<close>

definition ex_prof_row :: "string \<Rightarrow> string option \<Rightarrow> (string \<times> priority) list \<Rightarrow> (string \<times> string) list \<Rightarrow> prof_row" where
  "ex_prof_row i u picks ns =
     \<lparr>fp_id = i, fp_festivalId = ''f1'', fp_userId = u, fp_name = ''N'', fp_picksJson = picks, fp_notesJson = ns,
      fp_remindersJson = [], fp_createdAt = 1, fp_updatedAt = Some 5, fp_deletedAt = None, fp_deletedBy = None, fp_reason = None\<rparr>"

definition ex_prof_srv :: "prof_row list \<Rightarrow> prof_srv" where
  "ex_prof_srv rs =
     \<lparr>ps_db = \<lparr>pd_rows = rs, pd_picks = concat (map (\<lambda>r. map (Pair (fp_id r)) (fp_picksJson r)) rs),
                pd_notes = concat (map (\<lambda>r. map (Pair (fp_id r)) (fp_notesJson r)) rs)\<rparr>,
      ps_emitter = emitter0 False,
      ps_users = (\<lambda>u. Some \<lparr>us_username = u, us_name = None, us_avatarKey = None, us_avatarVersion = None\<rparr>),
      ps_festivals = (\<lambda>f. if f = ''f1'' then Some [''s1'', ''s2'', ''s3''] else None), ps_up = True,
      ps_relay = ex_relay,
      ps_revoked = []\<rparr>"

definition ex_prof_call :: "int \<Rightarrow> string \<Rightarrow> prof_call" where
  "ex_prof_call now u = \<lparr>pc_now = now, pc_userId = u, pc_username = u, pc_newId = ''new'', pc_issue = ''Invalid''\<rparr>"


subsection \<open>Reading\<close>

text \<open>C28. A festival's profiles are read by its members only, and nobody reads another's notes or reminders.\<close>

theorem notes_stay_private:
  assumes "list_profiles c f s = Inr vs" and "v \<in> set vs"
  shows "(\<exists>mine. getUserFestivalProfile (pc_userId c) f (ps_db s) = Some mine) \<and> vp_festivalId v = f
    \<and> (vp_userId v = Some (pc_userId c) \<or> vp_notes v = None \<and> vp_reminders v = None)"
  using assms
  by (auto simp: list_profiles_def refuse_profile_def serializeProfileForViewer_def getByFestival_def mapProfileRow_def Let_def
      split: if_splits)

lemma notes_stay_private_witness:
  "let s = ex_prof_srv [ex_prof_row ''p1'' (Some ''ann'') [(''s1'', Must)] [(''s1'', ''mine'')], ex_prof_row ''p2'' (Some ''bob'') [] [(''s1'', ''his'')]];
       v = serializeProfileForViewer ''ann'' (user_of s (mapProfileRow (ps_db s) (ex_prof_row ''p2'' (Some ''bob'') [] [(''s1'', ''his'')])))
             (mapProfileRow (ps_db s) (ex_prof_row ''p2'' (Some ''bob'') [] [(''s1'', ''his'')]))
   in (\<exists>mine. getUserFestivalProfile ''ann'' ''f1'' (ps_db s) = Some mine) \<and> vp_festivalId v = ''f1''
      \<and> (vp_userId v = Some ''ann'' \<or> vp_notes v = None \<and> vp_reminders v = None)"
proof -
  let ?s = "ex_prof_srv [ex_prof_row ''p1'' (Some ''ann'') [(''s1'', Must)] [(''s1'', ''mine'')], ex_prof_row ''p2'' (Some ''bob'') [] [(''s1'', ''his'')]]"
  let ?v = "\<lambda>r. serializeProfileForViewer ''ann'' (user_of ?s (mapProfileRow (ps_db ?s) r)) (mapProfileRow (ps_db ?s) r)"
  have "list_profiles (ex_prof_call 1 ''ann'') ''f1'' ?s = Inr [?v (ex_prof_row ''p1'' (Some ''ann'') [(''s1'', Must)] [(''s1'', ''mine'')]),
      ?v (ex_prof_row ''p2'' (Some ''bob'') [] [(''s1'', ''his'')])]" by code_simp
  from notes_stay_private [OF this, of "?v (ex_prof_row ''p2'' (Some ''bob'') [] [(''s1'', ''his'')])"] show ?thesis
    by (simp add: ex_prof_call_def Let_def)
qed

text \<open>The notes that the clients keep for the crew, under the key \<open>crew:<set>\<close>, name no set: the server never
  takes them, and with them refuses every other note of the request; nor would anybody else be sent
  them.\<close>

lemma crew_note_refused:
  assumes "profiles_getById p (ps_db s) = Some cur" and "ps_festivals s (sp_festivalId cur) = Some sets"
    and "''crew:'' @ x \<notin> set sets" and "json_field body ''notes'' = Some (JObj ns)"
    and "(''crew:'' @ x, v) \<in> set ns" and "update_profile c ifMatch p body s = (answer, s')"
  shows "s' = s \<and> (\<exists>e. answer = Inl e)"
proof -
  have kept: "k \<in> fst ` set ys" if "normalize_entries bad val xs acc = Inr ys" and "k \<in> fst ` set xs \<union> fst ` set acc"
    for k bad val xs acc and ys :: "(string \<times> string) list"
    using that
    by (induction bad val xs acc rule: normalize_entries.induct)
      (force simp: normalizeRecordKey_def Let_def dom_update split: option.splits sum.splits if_splits)+
  show ?thesis
  proof (cases "read_maps body")
    case (Inr maps)
    then obtain picks notes' rems where maps: "maps = (picks, Some notes', rems)" and n: "normalizeNotePayload (JObj ns) = Inr notes'"
      using assms(4) by (cases maps) (auto simp: read_maps_def optional_map_def split: option.splits sum.splits)
    from n have "''crew:'' @ x \<in> fst ` set notes'"
      using kept [of _ _ ns "[]" notes' "''crew:'' @ x"] assms(5) by (force simp: normalizeNotePayload_def split: if_splits)
    then have "unknown_set sets (Some notes')" using assms(3) by (force simp: unknown_set_def)
    then have "\<exists>e. update_allowed c ifMatch p maps s = Inl e"
      using assms(1,2) by (auto simp: update_allowed_def maps refuse_profile_def Let_def)
    then show ?thesis using assms(6) Inr by (auto simp: update_profile_def refuse_profile_def split: if_splits)
  qed (use assms(6) in \<open>auto simp: update_profile_def refuse_profile_def split: if_splits\<close>)
qed

text \<open>The version check and the write are two steps: two devices that both hold the current version both
  pass the check, and the second write drops what the first one wrote.\<close>

lemma if_match_race:
  "let s = ex_prof_srv [ex_prof_row ''p1'' (Some ''ann'') [] []]; tag = Some (etag 5);
       a = (Some [(''s1'', Must)], None, None); b = (Some [(''s2'', Must)], None, None);
       s1 = snd (update_write (ex_prof_call 8 ''ann'') ''p1'' a s); s2 = snd (update_write (ex_prof_call 9 ''ann'') ''p1'' b s1)
   in update_allowed (ex_prof_call 8 ''ann'') tag ''p1'' a s = update_allowed (ex_prof_call 9 ''ann'') tag ''p1'' b s
      \<and> (case update_allowed (ex_prof_call 9 ''ann'') tag ''p1'' b s of Inr cur \<Rightarrow> True | Inl e \<Rightarrow> False)
      \<and> map_option sp_picks (profiles_getById ''p1'' (ps_db s2)) = Some [(''s2'', Must)]"
  by code_simp

subsection \<open>Joining\<close>

lemma own_profile_found:
  assumes "prof_inv d" and "r \<in> set (live_rows d)" and "fp_userId r = Some u" and "u \<noteq> []" and "fp_festivalId r \<noteq> []"
  shows "getUserFestivalProfile u (fp_festivalId r) d = Some (mapProfileRow d r)"
proof -
  have inj: "inj_on (\<lambda>r. (fp_userId r, fp_festivalId r)) {r \<in> set (pd_rows d). live_row r \<and> fp_userId r \<noteq> None}"
    using assms(1) by (simp add: prof_inv_def constraints_ok_def unique_ok_def distinct_map)
  obtain r' where r': "find (\<lambda>x. fp_userId x = Some u \<and> fp_festivalId x = fp_festivalId r) (live_rows d) = Some r'"
    using assms(2,3) by (cases "find (\<lambda>x. fp_userId x = Some u \<and> fp_festivalId x = fp_festivalId r) (live_rows d)") (auto simp: find_None_iff)
  then have "r' \<in> set (live_rows d)" "fp_userId r' = Some u" "fp_festivalId r' = fp_festivalId r"
    by (auto simp: find_Some_iff dest: nth_mem)
  then have "r' = r" using assms(2,3) by (intro inj_onD [OF inj]) (auto simp: live_rows_def)
  moreover have "row_of (fp_id r) d = Some r"
  proof (cases "row_of (fp_id r) d")
    case None
    then show ?thesis using assms(2) by (auto simp: row_of_def find_None_iff)
  next
    case (Some x)
    then have "x \<in> set (pd_rows d)" "fp_id x = fp_id r" by (auto simp: row_of_def live_rows_def find_Some_iff dest!: nth_mem)
    then show ?thesis using Some assms(1,2) unique_id [of d x r] by (auto simp: prof_inv_def live_rows_def)
  qed
  ultimately show ?thesis using r' assms(4,5) by (simp add: getUserFestivalProfile_def readByUserAndFestival_def profiles_getById_def)
qed

lemma getUserFestivalProfile_Some:
  assumes "getUserFestivalProfile u f d = Some p"
  shows "u \<noteq> [] \<and> f \<noteq> []"
  using assms by (auto simp: getUserFestivalProfile_def split: if_splits)

lemma joined_reply_Inr:
  "joined_reply f p s = (Inr v, s') \<Longrightarrow> ps_db s' = ps_db s \<and> ps_up s' = ps_up s \<and> ps_users s' = ps_users s
    \<and> ps_festivals s' = ps_festivals s \<and> v = serializeOwnProfile p (user_of s p) \<and> user_of s p \<noteq> None"
  by (auto simp: joined_reply_def refuse_profile_def split: option.splits)

lemma claimed_row:
  assumes "claimOrphan now f u name d = Some (Some p, d')"
  shows "\<exists>r\<in>set (live_rows d'). p = mapProfileRow d' r \<and> fp_userId r = Some u \<and> fp_festivalId r = f"
proof -
  obtain r0 where r0: "find (\<lambda>r. fp_festivalId r = f \<and> fp_userId r = None \<and> same_name (fp_name r) name) (live_rows d) = Some r0"
    using assms by (cases "find (\<lambda>r. fp_festivalId r = f \<and> fp_userId r = None \<and> same_name (fp_name r) name) (live_rows d)")
      (simp_all add: claimOrphan_def)
  have d': "d' = d\<lparr>pd_rows := on_row (fp_id r0) (\<lambda>x. x\<lparr>fp_userId := Some u, fp_updatedAt := Some now\<rparr>) (pd_rows d)\<rparr>"
    and ok: "constraints_ok d'" and got: "profiles_getById (fp_id r0) d' = Some p"
    using assms unfolding claimOrphan_def r0 option.case by auto
  from got obtain r where r: "row_of (fp_id r0) d' = Some r" and p: "p = mapProfileRow d' r" by (auto simp: profiles_getById_def)
  then have mem: "r \<in> set (live_rows d')" "fp_id r = fp_id r0" by (auto simp: row_of_def find_Some_iff dest: nth_mem)
  from r0 have m0: "r0 \<in> set (pd_rows d)" "live_row r0" "fp_festivalId r0 = f"
    by (auto simp: live_rows_def find_Some_iff dest!: nth_mem)
  let ?g = "\<lambda>x. x\<lparr>fp_userId := Some u, fp_updatedAt := Some now\<rparr>"
  have rows: "pd_rows d' = on_row (fp_id r0) ?g (pd_rows d)" by (simp add: d')
  have "(if fp_id r0 = fp_id r0 \<and> live_row r0 then ?g r0 else r0) \<in> set (pd_rows d')"
    unfolding rows on_row_def set_map by (rule imageI) (rule m0(1))
  then have new: "?g r0 \<in> set (pd_rows d')" using m0(2) by simp
  have "r \<in> set (pd_rows d')" "fp_id r = fp_id (?g r0)" using mem by (simp_all add: live_rows_def)
  then have "r = ?g r0" using unique_id [OF ok _ new] by blast
  then have "fp_userId r = Some u" "fp_festivalId r = f" using m0(3) by simp_all
  then show ?thesis using mem(1) p by blast
qed

lemma created_row:
  assumes "profiles_create (blank_profile c f) d = Some (Some p, d')"
  shows "\<exists>r\<in>set (live_rows d'). p = mapProfileRow d' r \<and> fp_userId r = Some (pc_userId c) \<and> fp_festivalId r = f"
proof -
  let ?n = "blank_profile c f"
  let ?r = "\<lparr>fp_id = np_id ?n, fp_festivalId = np_festivalId ?n, fp_userId = np_userId ?n,
      fp_name = np_name ?n, fp_picksJson = np_picks ?n, fp_notesJson = np_notes ?n, fp_remindersJson = np_reminders ?n,
      fp_createdAt = np_createdAt ?n, fp_updatedAt = None, fp_deletedAt = None, fp_deletedBy = None, fp_reason = None\<rparr>"
  from assms have ok: "constraints_ok d'" and got: "profiles_getById (np_id ?n) d' = Some p" and new: "?r \<in> set (pd_rows d')"
    by (auto simp: profiles_create_def)
  from got obtain r where r: "row_of (np_id ?n) d' = Some r" and p: "p = mapProfileRow d' r" by (auto simp: profiles_getById_def)
  then have mem: "r \<in> set (live_rows d')" "fp_id r = np_id ?n" by (auto simp: row_of_def find_Some_iff dest: nth_mem)
  then have "r = ?r" using ok new unique_id [of d' r ?r] by (auto simp: live_rows_def)
  then show ?thesis using mem p by (auto simp: blank_profile_def)
qed

lemma create_profile_result:
  assumes "prof_inv (ps_db s)" and "create_profile c raw s = (Inr v, s1)" and "sanitizeIdentifier raw = Some f" and "pc_userId c \<noteq> []"
  shows "\<exists>p. getUserFestivalProfile (pc_userId c) f (ps_db s1) = Some p \<and> vp_id v = sp_id p \<and> prof_inv (ps_db s1)
    \<and> user_of s1 p \<noteq> None \<and> ps_up s1 \<and> ps_festivals s1 f \<noteq> None"
proof -
  have f: "f \<noteq> []" using assms(3) by (auto simp: sanitizeIdentifier_def Let_def split: if_splits)
  have up: "ps_up s" "ps_festivals s f \<noteq> None"
    using assms(2,3) by (auto simp: create_profile_def refuse_profile_def join_failed_def split: if_splits)
  have result: ?thesis if reply: "joined_reply f p s0 = (Inr v, s1)" and got: "getUserFestivalProfile (pc_userId c) f (ps_db s0) = Some p"
    and inv: "prof_inv (ps_db s0)" and "ps_up s0" "ps_festivals s0 = ps_festivals s" for p s0
    using joined_reply_Inr [OF reply] that(2-) up by (auto simp: serializeOwnProfile_def user_of_def cong: option.case_cong)
  show ?thesis
  proof (cases "getUserFestivalProfile (pc_userId c) f (ps_db s)")
    case (Some p)
    then show ?thesis using assms(1-3) up by (intro result [of p s]) (simp_all add: create_profile_def)
  next
    case None
    note start = assms(2) [unfolded create_profile_def assms(3) option.case None]
    obtain q d where claim: "claimOrphan (pc_now c) f (pc_userId c) (pc_username c) (ps_db s) = Some (q, d)"
      using start up by (auto simp: join_failed_def refuse_profile_def split: option.splits)
    have inv: "prof_inv d" using claimOrphan_inv [OF assms(1) claim] .
    have found: "getUserFestivalProfile (pc_userId c) f d' = Some p"
      if "prof_inv d'" "\<exists>r\<in>set (live_rows d'). p = mapProfileRow d' r \<and> fp_userId r = Some (pc_userId c) \<and> fp_festivalId r = f" for d' p
      using that own_profile_found [OF that(1)] f assms(4) by blast
    show ?thesis
    proof (cases q)
      case (Some p)
      then show ?thesis using start claim up inv found [OF inv claimed_row [OF claim [unfolded Some]]]
        by (intro result [of p "s\<lparr>ps_db := d\<rparr>"]) simp_all
    next
      case q: None
      obtain p d' where new: "profiles_create (blank_profile c f) d = Some (Some p, d')"
        and reply: "joined_reply f p (s\<lparr>ps_db := d'\<rparr>) = (Inr v, s1)"
        using start claim up q by (auto simp: join_failed_def refuse_profile_def split: option.splits if_splits)
      have inv': "prof_inv d'" using profiles_create_inv [OF inv new] .
      from result [OF reply] show ?thesis using up inv' found [OF inv' created_row [OF new]] by simp
    qed
  qed
qed

text \<open>Joining is idempotent: a user who has joined a festival has one live profile there, and joining again
  answers with that profile and writes nothing.\<close>

theorem join_twice:
  assumes "prof_inv (ps_db s)" and "create_profile c raw s = (Inr v, s1)" and "pc_userId c \<noteq> []"
    and "pc_userId c' = pc_userId c"
  shows "\<exists>v' s2. create_profile c' raw s1 = (Inr v', s2) \<and> vp_id v' = vp_id v \<and> ps_db s2 = ps_db s1"
proof -
  obtain f where f: "sanitizeIdentifier raw = Some f"
    using assms(2) by (auto simp: create_profile_def refuse_profile_def split: option.splits)
  from create_profile_result [OF assms(1,2) f assms(3)] obtain p where p: "getUserFestivalProfile (pc_userId c) f (ps_db s1) = Some p"
    "vp_id v = sp_id p" "user_of s1 p \<noteq> None" "ps_up s1" "ps_festivals s1 f \<noteq> None" by blast
  then show ?thesis using f assms(4) by (auto simp: create_profile_def joined_reply_def serializeOwnProfile_def)
qed

lemma join_twice_witness:
  "\<exists>v' s2. create_profile (ex_prof_call 8 ''bob'') ''f1'' (snd (create_profile (ex_prof_call 7 ''bob'') ''f1'' (ex_prof_srv [])))
     = (Inr v', s2) \<and> vp_id v' = ''new'' \<and> ps_db s2 = ps_db (snd (create_profile (ex_prof_call 7 ''bob'') ''f1'' (ex_prof_srv [])))"
proof -
  have inv: "prof_inv (ps_db (ex_prof_srv []))" by code_simp
  obtain v s1 where run: "create_profile (ex_prof_call 7 ''bob'') ''f1'' (ex_prof_srv []) = (Inr v, s1)" and v: "vp_id v = ''new''"
  proof -
    have "case fst (create_profile (ex_prof_call 7 ''bob'') ''f1'' (ex_prof_srv [])) of Inr v \<Rightarrow> vp_id v = ''new'' | Inl e \<Rightarrow> False" by code_simp
    then show thesis using that by (cases "create_profile (ex_prof_call 7 ''bob'') ''f1'' (ex_prof_srv [])") (auto split: sum.splits)
  qed
  have "pc_userId (ex_prof_call 7 ''bob'') \<noteq> []" "pc_userId (ex_prof_call 8 ''bob'') = pc_userId (ex_prof_call 7 ''bob'')"
    by (simp_all add: ex_prof_call_def)
  from join_twice [OF inv run this] show ?thesis by (simp add: run v)
qed

end
