(* ===== verification/Api_Client.thy ===== *)
theory Api_Client
  imports Web_Queue Crew_Client
begin

text \<open>
  The HTTP client \<open>packages/shared/src/services/api.ts\<close>: which writes may wait in the offline queue,
  what a request does when it is answered, refused, unauthorized or unreachable, and the one refresh
  that concurrent unauthorized requests share; with \<open>withRetry\<close> of \<open>festivalDataStore.ts\<close>, which
  wraps its reads.

  The network is given to a request: how each of its at most two attempts ends, and whether the
  refresh between them worked.  The write queue is the mobile one or the web bridge.  Header names
  are as written; error codes are left out, error messages are strings.
\<close>

subsection \<open>Which writes may wait\<close>

definition isMutatingMethod :: "string \<Rightarrow> bool" where
  "isMutatingMethod m \<longleftrightarrow> to_upper m \<in> set [''POST'', ''PUT'', ''PATCH'', ''DELETE'']"

definition crew_resources :: "string list" where
  "crew_resources = [''meeting-points'', ''polls'', ''packing'', ''rides'', ''expenses'', ''home-base'', ''reminders'', ''status'']"

text \<open>The patterns, on the segments of the path: a segment ends at a slash or with the path.\<close>

fun eligible_segments :: "string list \<Rightarrow> bool" where
  "eligible_segments (s0 # s1 # s2 # rest) =
     (s0 = [] \<and> (s1 = ''profiles''
        \<or> s1 = ''crews'' \<and> (s2 = ''join'' \<or> (case rest of s3 # _ \<Rightarrow> s2 \<noteq> [] \<and> s3 \<in> set crew_resources | [] \<Rightarrow> False))))"
| "eligible_segments _ = False"

definition isOfflineEligible :: "string \<Rightarrow> bool" where
  "isOfflineEligible path = eligible_segments (split_char CHR ''/'' (hd (split_char CHR ''?'' path)))"

text \<open>\<open>/\/festivals(\/|$|\?)/\<close> anywhere in the path.\<close>

fun festivals_path :: "string \<Rightarrow> bool" where
  "festivals_path [] = False"
| "festivals_path (c # s) =
     (starts_with (c # s) ''/festivals'' \<and> (case drop 10 (c # s) of [] \<Rightarrow> True | d # _ \<Rightarrow> d = CHR ''/'' \<or> d = CHR ''?'')
      \<or> festivals_path s)"

subsection \<open>State\<close>

datatype write_queue = Native queue_state | Bridge web_state

datatype auth_mode = CookieMode | BearerMode

record wire_request =
  wr_method :: string
  wr_path :: string
  wr_headers :: "(string \<times> string) list"
  wr_body :: "json option"

record api_state =
  ap_mode :: auth_mode
  ap_token :: "string option"
  ap_refresher :: bool
  ap_queue :: write_queue
  ap_wire :: "wire_request list"
  ap_refreshes :: nat
  ap_drains :: nat
  ap_placeholders :: "json list"

record api_options =
  op_headers :: "(string \<times> string) list"
  op_body :: "json option"
  op_clientId :: "string option"
  op_label :: "string option"
  op_placeholder :: bool
  op_bypass :: bool

definition plain_options :: "json option \<Rightarrow> api_options" where
  "plain_options b = \<lparr>op_headers = [], op_body = b, op_clientId = None, op_label = None, op_placeholder = False, op_bypass = False\<rparr>"

text \<open>How an attempt ends: a response with its parsed body (\<open>None\<close> when it is not JSON), its status text
  and \<open>Retry-After\<close>; or no response.\<close>

datatype fetch_outcome =
    Response nat "json option" string "retry_after option"
  | NoResponse string
  | TimedOut

text \<open>\<open>av_stored\<close>: the device accepts the queued write; \<open>av_onLine\<close>: the system does not report offline;
  \<open>av_token\<close>: the token after a refresh.\<close>

record api_env =
  av_now :: int
  av_random :: string
  av_first :: fetch_outcome
  av_refreshed :: bool
  av_token :: "string option"
  av_second :: fetch_outcome
  av_onLine :: bool
  av_stored :: bool

definition ui_of :: "write_queue \<Rightarrow> ui_state" where
  "ui_of q = (case q of Native s \<Rightarrow> uiStore s | Bridge s \<Rightarrow> w_ui s)"

definition set_offline :: "bool \<Rightarrow> write_queue \<Rightarrow> write_queue" where
  "set_offline b q =
     (case q of Native s \<Rightarrow> Native (s\<lparr>uiStore := setOfflineMode b (uiStore s)\<rparr>)
      | Bridge s \<Rightarrow> Bridge (s\<lparr>w_ui := setOfflineMode b (w_ui s)\<rparr>))"

definition api_offline :: "api_state \<Rightarrow> bool" where
  "api_offline s = offlineMode (ui_of (ap_queue s))"

definition markOffline :: "api_state \<Rightarrow> api_state" where
  "markOffline s = (if api_offline s then s else s\<lparr>ap_queue := set_offline True (ap_queue s)\<rparr>)"

definition markOnlineAndDrain :: "api_env \<Rightarrow> string \<Rightarrow> api_state \<Rightarrow> api_state" where
  "markOnlineAndDrain e path s =
     (if \<not> api_offline s \<or> \<not> av_onLine e \<or> festivals_path path then s
      else s\<lparr>ap_queue := set_offline False (ap_queue s), ap_drains := ap_drains s + 1\<rparr>)"

subsection \<open>Queueing a write\<close>

definition object_of :: "json option \<Rightarrow> (string \<times> json) list" where
  "object_of b = (case b of Some (JObj fs) \<Rightarrow> fs | _ \<Rightarrow> [])"

definition client_id :: "api_env \<Rightarrow> string \<Rightarrow> string \<Rightarrow> api_options \<Rightarrow> string" where
  "client_id e path method opts =
     (case op_clientId opts of Some c \<Rightarrow> c
      | None \<Rightarrow> if method = ''POST'' then ''POST:'' @ path @ '':'' @ av_random e else method @ '':'' @ path)"

definition queue_write :: "api_env \<Rightarrow> string \<Rightarrow> string \<Rightarrow> api_options \<Rightarrow> write_queue \<Rightarrow> write_queue" where
  "queue_write e path method opts q =
     (case q of
        Native s \<Rightarrow> Native (enqueueMutation (av_now e) None
          \<lparr>mu_clientId = client_id e path method opts, mu_url = path, mu_method = method, mu_body = op_body opts,
           mu_label = Some (case op_label opts of Some l \<Rightarrow> l | None \<Rightarrow> method @ '' '' @ path), mu_createdAt = av_now e, mu_retries = None\<rparr> s)
      | Bridge s \<Rightarrow> Bridge (snd (queueMutation (av_now e) (av_random e)
          \<lparr>we_id = None, we_clientId = client_id e path method opts, we_kind = Api, we_url = Some path, we_method = Some method,
           we_body = op_body opts, we_event = None, we_data = None, we_status = Pending, we_retries = 0, we_createdAt = av_now e\<rparr> s)))"

definition optimistic :: "api_env \<Rightarrow> string \<Rightarrow> string \<Rightarrow> api_options \<Rightarrow> json" where
  "optimistic e path method opts =
     (let body = object_of (op_body opts); flag = (''_optimistic'', JBool True)
      in if method = ''POST''
         then JObj (AList.update ''_optimistic'' (JBool True) (AList.update ''id'' (JStr (client_id e path method opts)) body))
         else if method = ''PUT'' \<or> method = ''PATCH'' then JObj (AList.update ''_optimistic'' (JBool True) body)
         else JObj [(''ok'', JBool True), flag])"

definition enqueueOfflineMutation :: "api_env \<Rightarrow> string \<Rightarrow> string \<Rightarrow> api_options \<Rightarrow> api_state \<Rightarrow> json \<times> api_state" where
  "enqueueOfflineMutation e path method opts s =
     (let r = optimistic e path method opts;
          s1 = s\<lparr>ap_queue := queue_write e path method opts (ap_queue s)\<rparr>
      in (r, if method = ''POST'' \<and> op_placeholder opts then s1\<lparr>ap_placeholders := ap_placeholders s1 @ [r]\<rparr> else s1))"

subsection \<open>One request\<close>

definition add_header :: "string \<Rightarrow> string \<Rightarrow> (string \<times> string) list \<Rightarrow> (string \<times> string) list" where
  "add_header k v hs = (case map_of hs k of Some x \<Rightarrow> if x = [] then AList.update k v hs else hs | None \<Rightarrow> hs @ [(k, v)])"

definition request_headers :: "string \<Rightarrow> api_options \<Rightarrow> api_state \<Rightarrow> (string \<times> string) list" where
  "request_headers method opts s =
     (let h0 = op_headers opts;
          h1 = (if isMutatingMethod method \<and> map_of h0 ''x-festie-request'' \<in> {None, Some []}
                then add_header ''X-Festie-Request'' ''1'' h0 else h0);
          h2 = (if ap_mode s = BearerMode
                then add_header ''X-Festie-Client'' ''native''
                       (case ap_token s of Some t \<Rightarrow> if t = [] then h1 else add_header ''Authorization'' (''Bearer '' @ t) h1 | None \<Rightarrow> h1)
                else h1)
      in if op_body opts \<noteq> None then add_header ''Content-Type'' ''application/json'' h2 else h2)"

definition on_wire :: "string \<Rightarrow> string \<Rightarrow> api_options \<Rightarrow> api_state \<Rightarrow> api_state" where
  "on_wire path method opts s =
     s\<lparr>ap_wire := ap_wire s @ [\<lparr>wr_method = method, wr_path = path, wr_headers = request_headers method opts s, wr_body = op_body opts\<rparr>]\<rparr>"

definition error_text :: "json \<Rightarrow> string \<Rightarrow> string option" where
  "error_text j k = (case json_field j k of Some (JStr t) \<Rightarrow> if t = [] then None else Some t | _ \<Rightarrow> None)"

text \<open>The message of an error answer.\<close>

definition error_message :: "json option \<Rightarrow> string \<Rightarrow> string" where
  "error_message body statusText =
     (case body of
        None \<Rightarrow> if statusText = [] then ''Request failed'' else statusText
      | Some j \<Rightarrow>
          (case (case json_field j ''error'' of Some x \<Rightarrow> error_text x ''message'' | None \<Rightarrow> None) of
             Some m \<Rightarrow> m
           | None \<Rightarrow> (case error_text j ''message'' of Some m \<Rightarrow> m | None \<Rightarrow> ''Request failed'')))"

definition unwrap :: "json \<Rightarrow> json" where
  "unwrap j = (case (json_field j ''data'', json_field j ''error'') of (Some d, Some _) \<Rightarrow> d | _ \<Rightarrow> j)"

type_synonym api_result = "thrown + json"

definition network_error :: "string \<Rightarrow> thrown" where
  "network_error m = ApiError \<lparr>er_status = 0, er_message = m, er_retryAfter = None, er_isNetworkError = True\<rparr>"

text \<open>The \<open>catch\<close> of a request that got no usable answer.\<close>

definition unreachable :: "api_env \<Rightarrow> bool \<Rightarrow> string \<Rightarrow> string \<Rightarrow> api_options \<Rightarrow> string \<Rightarrow> api_state \<Rightarrow> api_result \<times> api_state" where
  "unreachable e retrying path method opts m s =
     (if \<not> retrying \<and> \<not> op_bypass opts \<and> isMutatingMethod method \<and> isOfflineEligible path
      then let s1 = markOffline s
        in if av_stored e then (case enqueueOfflineMutation e path method opts s1 of (r, s2) \<Rightarrow> (Inr r, s2))
           else (Inl (network_error m), s1)
      else (Inl (network_error m), s))"

text \<open>An attempt that was answered with something else than 401, or not answered.  A body that is not
  JSON, and an error whose body is \<open>null\<close>, end up in the \<open>catch\<close>.\<close>

definition conclude :: "api_env \<Rightarrow> bool \<Rightarrow> fetch_outcome \<Rightarrow> string \<Rightarrow> string \<Rightarrow> api_options \<Rightarrow> api_state \<Rightarrow> api_result \<times> api_state" where
  "conclude e retrying out path method opts s =
     (case out of
        NoResponse m \<Rightarrow> unreachable e retrying path method opts m s
      | TimedOut \<Rightarrow> unreachable e retrying path method opts ''Request timed out'' s
      | Response st body statusText retryAfter \<Rightarrow>
          if 200 \<le> st \<and> st < 300
          then (let s1 = markOnlineAndDrain e path s
                in case body of Some j \<Rightarrow> (Inr (unwrap j), s1)
                   | None \<Rightarrow> unreachable e retrying path method opts ''Unexpected end of JSON input'' s1)
          else if body = Some JNull then unreachable e retrying path method opts ''null is not an object'' s
          else (Inl (ApiError \<lparr>er_status = int st, er_message = error_message body statusText, er_retryAfter = retryAfter,
                  er_isNetworkError = False\<rparr>), s))"

definition unauthorized :: "fetch_outcome \<Rightarrow> bool" where
  "unauthorized out = (case out of Response st body t r \<Rightarrow> st = 401 | _ \<Rightarrow> False)"

definition apiRequest :: "api_env \<Rightarrow> string \<Rightarrow> string \<Rightarrow> api_options \<Rightarrow> api_state \<Rightarrow> api_result \<times> api_state" where
  "apiRequest e path rawMethod opts s =
     (let method = to_upper rawMethod
      in if \<not> op_bypass opts \<and> isMutatingMethod method \<and> isOfflineEligible path \<and> api_offline s
         then (if av_stored e then (case enqueueOfflineMutation e path method opts s of (r, s1) \<Rightarrow> (Inr r, s1))
               else (Inl (JsError ''Storage failed''), s))
         else let s1 = on_wire path method opts s
           in if unauthorized (av_first e) \<and> ap_refresher s1 \<and> \<not> str_includes path ''/auth/''
              then let s2 = s1\<lparr>ap_refreshes := ap_refreshes s1 + 1, ap_token := av_token e\<rparr>
                in if av_refreshed e then conclude e True (av_second e) path method opts (on_wire path method opts s2)
                   else conclude e False (av_first e) path method opts s2
              else conclude e False (av_first e) path method opts s1)"

definition api_get :: "api_env \<Rightarrow> string \<Rightarrow> api_state \<Rightarrow> api_result \<times> api_state" where
  "api_get e path s = apiRequest e path ''GET'' (plain_options None) s"

definition api_post :: "api_env \<Rightarrow> string \<Rightarrow> json option \<Rightarrow> api_options \<Rightarrow> api_state \<Rightarrow> api_result \<times> api_state" where
  "api_post e path body opts s = apiRequest e path ''POST'' (opts\<lparr>op_body := body\<rparr>) s"

definition api_put :: "api_env \<Rightarrow> string \<Rightarrow> json option \<Rightarrow> api_options \<Rightarrow> api_state \<Rightarrow> api_result \<times> api_state" where
  "api_put e path body opts s = apiRequest e path ''PUT'' (opts\<lparr>op_body := body\<rparr>) s"

definition api_patch :: "api_env \<Rightarrow> string \<Rightarrow> json option \<Rightarrow> api_options \<Rightarrow> api_state \<Rightarrow> api_result \<times> api_state" where
  "api_patch e path body opts s = apiRequest e path ''PATCH'' (opts\<lparr>op_body := body\<rparr>) s"

definition api_delete :: "api_env \<Rightarrow> string \<Rightarrow> api_options \<Rightarrow> api_state \<Rightarrow> api_result \<times> api_state" where
  "api_delete e path opts s = apiRequest e path ''DELETE'' opts s"

subsection \<open>The refresh that requests share\<close>

text \<open>\<open>_refreshPromise\<close>: the requests that wait for the refresh in flight, in order; \<open>rf_begun\<close> counts the
  refreshes begun, \<open>rf_retried\<close> lists the requests sent again, \<open>rf_failed\<close> those that give up.\<close>

record refresher =
  rf_flight :: "nat list option"
  rf_begun :: nat
  rf_retried :: "nat list"
  rf_failed :: "nat list"

datatype refresh_event = Unauthorized nat | Settled bool

definition refresh_step :: "refresh_event \<Rightarrow> refresher \<Rightarrow> refresher" where
  "refresh_step a r =
     (case a of
        Unauthorized i \<Rightarrow>
          (case rf_flight r of
             None \<Rightarrow> r\<lparr>rf_flight := Some [i], rf_begun := rf_begun r + 1\<rparr>
           | Some w \<Rightarrow> r\<lparr>rf_flight := Some (w @ [i])\<rparr>)
      | Settled ok \<Rightarrow>
          (case rf_flight r of
             None \<Rightarrow> r
           | Some w \<Rightarrow> (if ok then r\<lparr>rf_flight := None, rf_retried := rf_retried r @ w\<rparr>
                        else r\<lparr>rf_flight := None, rf_failed := rf_failed r @ w\<rparr>)))"

subsection \<open>Reads that are tried again\<close>

definition retryable :: "bool \<Rightarrow> thrown \<Rightarrow> bool" where
  "retryable offline err =
     (\<not> offline \<and> (case err of ApiError x \<Rightarrow> er_isNetworkError x \<or> 500 \<le> er_status x | _ \<Rightarrow> False))"

text \<open>\<open>offline k\<close> and \<open>call k\<close>: the mode and the result at attempt \<open>k\<close>; with the waits and the number of calls.\<close>

function withRetry :: "nat \<Rightarrow> (nat \<Rightarrow> bool) \<Rightarrow> (nat \<Rightarrow> thrown + 'a) \<Rightarrow> nat \<Rightarrow> int list \<Rightarrow> (thrown + 'a) \<times> int list \<times> nat" where
  "withRetry retries offline call attempt waits =
     (case call attempt of
        Inr x \<Rightarrow> (Inr x, waits, attempt + 1)
      | Inl err \<Rightarrow>
          if \<not> retryable (offline attempt) err \<or> retries \<le> attempt then (Inl err, waits, attempt + 1)
          else withRetry retries offline call (attempt + 1) (waits @ [600 * 2 ^ attempt]))"
  by pat_completeness auto
termination by (relation "measure (\<lambda>(retries, offline, call, attempt, waits). retries - attempt)") auto

declare withRetry.simps [simp del]

end
