(* ===== verification/Api_Props.thy ===== *)
theory Api_Props
  imports Api_Client Idempotency
begin

text \<open>
  What the HTTP client guarantees: an SOS is never queued, nor reported as sent unless the server
  answered; a write that may wait is kept when the server cannot be reached; a read is tried a
  bounded number of times; concurrent unauthorized requests share one refresh.  And two cases the
  queue misses: a write that fails after a refresh, and a creation whose answer was lost.
\<close>

subsection \<open>What is stored\<close>

datatype stored_queue = OnPhone "mutation list stored" | InBrowser "web_entry list" "web_entry list stored"

definition stored_of :: "write_queue \<Rightarrow> stored_queue" where
  "stored_of q = (case q of Native s \<Rightarrow> OnPhone (queueKey s) | Bridge s \<Rightarrow> InBrowser (idb s) (ls s))"

lemma stored_of_simps [simp]:
  "stored_of (set_offline b q) = stored_of q"
  "stored_of (ap_queue (markOffline s)) = stored_of (ap_queue s)"
  "stored_of (ap_queue (markOnlineAndDrain e path s)) = stored_of (ap_queue s)"
  "stored_of (ap_queue (on_wire path m opts s)) = stored_of (ap_queue s)"
proof -
  show set: "stored_of (set_offline b q) = stored_of q" for b q by (cases q) (simp_all add: stored_of_def set_offline_def)
  show "stored_of (ap_queue (markOffline s)) = stored_of (ap_queue s)"
    "stored_of (ap_queue (markOnlineAndDrain e path s)) = stored_of (ap_queue s)"
    by (simp_all add: markOffline_def markOnlineAndDrain_def set)
qed (simp add: on_wire_def)

lemma api_offline_simps [simp]:
  "api_offline (on_wire path m opts s) = api_offline s"
  "api_offline (markOffline s)"
  by (auto simp: on_wire_def api_offline_def markOffline_def ui_of_def set_offline_def split: write_queue.splits)

lemma unreachable_ineligible:
  "\<not> isOfflineEligible path \<or> retrying \<Longrightarrow> unreachable e retrying path m opts msg s = (Inl (network_error msg), s)"
  by (auto simp: unreachable_def)

definition answered :: "fetch_outcome \<Rightarrow> bool" where
  "answered out = (case out of Response st body t r \<Rightarrow> 200 \<le> st \<and> st < 300 | _ \<Rightarrow> False)"

lemma conclude_ineligible:
  assumes "\<not> isOfflineEligible path \<or> retrying"
  shows "stored_of (ap_queue (snd (conclude e retrying out path m opts s))) = stored_of (ap_queue s)"
    and "(case fst (conclude e retrying out path m opts s) of Inl err \<Rightarrow> True | Inr j \<Rightarrow> answered out)"
  using assms
  by (auto simp: conclude_def unreachable_ineligible answered_def Let_def split: fetch_outcome.split option.split)

text \<open>Nothing is queued for a path outside the list, whatever the network does.\<close>

lemma ineligible_never_queued:
  assumes "\<not> isOfflineEligible path"
  shows "stored_of (ap_queue (snd (apiRequest e path m opts s))) = stored_of (ap_queue s)
    \<and> (case fst (apiRequest e path m opts s) of Inl err \<Rightarrow> True | Inr j \<Rightarrow> answered (av_first e) \<or> answered (av_second e))"
proof -
  define t1 where "t1 = on_wire path (to_upper m) opts s"
  define t2 where "t2 = t1\<lparr>ap_refreshes := ap_refreshes t1 + 1, ap_token := av_token e\<rparr>"
  have st: "stored_of (ap_queue t1) = stored_of (ap_queue s)" "stored_of (ap_queue t2) = stored_of (ap_queue s)"
    by (simp_all add: t1_def t2_def)
  have "apiRequest e path m opts s =
      (if unauthorized (av_first e) \<and> ap_refresher t1 \<and> \<not> str_includes path ''/auth/''
       then (if av_refreshed e then conclude e True (av_second e) path (to_upper m) opts (on_wire path (to_upper m) opts t2)
             else conclude e False (av_first e) path (to_upper m) opts t2)
       else conclude e False (av_first e) path (to_upper m) opts t1)"
    using assms by (simp add: apiRequest_def Let_def t1_def t2_def)
  then obtain retrying out t where run: "apiRequest e path m opts s = conclude e retrying out path (to_upper m) opts t"
    and out: "out = av_first e \<or> out = av_second e" and t: "stored_of (ap_queue t) = stored_of (ap_queue s)"
    using st by (metis stored_of_simps(4))
  show ?thesis
    unfolding run using conclude_ineligible [where path = path and retrying = retrying and e = e and out = out and m = "to_upper m" and opts = opts and s = t] assms out t by (auto split: sum.splits)
qed

lemma split_char_none: "c \<notin> set s \<Longrightarrow> split_char c s = [s]"
  by (induction s) auto

lemma split_char_append: "c \<notin> set u \<Longrightarrow> split_char c (u @ c # v) = u # split_char c v"
  by (induction u) auto

text \<open>C23. An SOS goes out now or not at all: whatever the state of the device and of the network, raising or
  clearing one is never written to the offline queue, from which it could go out hours later, and the
  client only reports it as sent when the server has answered so.\<close>

theorem sos_never_queued:
  assumes "path = ''/crews/'' @ crewId @ ''/sos'' @ (if clearing then ''/clear'' else [])"
    and "CHR ''/'' \<notin> set crewId" and "CHR ''?'' \<notin> set crewId" and "crewId \<noteq> ''join''"
  shows "stored_of (ap_queue (snd (apiRequest e path method opts s))) = stored_of (ap_queue s)
    \<and> (case fst (apiRequest e path method opts s) of Inl err \<Rightarrow> True
       | Inr j \<Rightarrow> answered (av_first e) \<or> answered (av_second e))"
proof -
  have "CHR ''?'' \<notin> set path" using assms(1,3) by auto
  moreover have "split_char CHR ''/'' path = [] # ''crews'' # crewId # ''sos'' # (if clearing then [''clear''] else [])"
    using split_char_append [OF assms(2), of "''sos'' @ (if clearing then ''/clear'' else [])"] by (auto simp: assms(1))
  ultimately have "\<not> isOfflineEligible path"
    using assms(4) by (auto simp: isOfflineEligible_def split_char_none crew_resources_def)
  then show ?thesis by (rule ineligible_never_queued)
qed

text \<open>Nor are the requests that carry credentials.\<close>

lemma credentials_never_queued:
  assumes "first \<in> {''auth'', ''account'', ''admin'', ''email-auth'', ''sessions''}"
  shows "\<not> isOfflineEligible (''/'' @ first @ rest)"
proof -
  have hd: "\<exists>t. hd (split_char CHR ''?'' (u @ rest)) = u @ t" if "CHR ''?'' \<notin> set u" for u
    using that
  proof (induction u)
    case (Cons c u)
    then show ?case using split_char_nonempty [of "CHR ''?''" "u @ rest"]
      by (cases "split_char CHR ''?'' (u @ rest)") auto
  qed auto
  have tail: "\<exists>v w. split_char CHR ''/'' (u @ t) = (u @ v) # w" if "CHR ''/'' \<notin> set u" for u t
    using that
  proof (induction u)
    case Nil
    then show ?case using split_char_nonempty [of "CHR ''/''" t] by (cases "split_char CHR ''/'' t") auto
  next
    case (Cons c u)
    then show ?case by auto
  qed
  obtain t where t: "hd (split_char CHR ''?'' ((''/'' @ first) @ rest)) = (''/'' @ first) @ t"
    using hd [of "''/'' @ first"] assms by auto
  obtain v w where "split_char CHR ''/'' (first @ t) = (first @ v) # w" using tail [of first t] assms by auto
  with t assms show ?thesis by (cases w) (auto simp: isOfflineEligible_def)
qed

subsection \<open>What is kept\<close>

definition holds_write :: "string \<Rightarrow> string \<Rightarrow> string \<Rightarrow> json option \<Rightarrow> write_queue \<Rightarrow> bool" where
  "holds_write cid path method body q =
     (case q of
        Native s \<Rightarrow> list_ex (\<lambda>m. mu_clientId m = cid \<and> mu_url m = path \<and> mu_method m = method \<and> mu_body m = body) (readQueueRaw s)
      | Bridge s \<Rightarrow> list_ex (\<lambda>m. we_clientId m = cid \<and> we_url m = Some path \<and> we_method m = Some method \<and> we_body m = body \<and> we_status m = Pending)
                    (if idb_up s then idb s else ls_entries s))"

text \<open>Storage the queue can write to.\<close>

definition storable :: "write_queue \<Rightarrow> bool" where
  "storable q = (case q of Native s \<Rightarrow> True | Bridge s \<Rightarrow> idb_up s \<or> ls_queue s \<noteq> None)"

lemma storable_offline [simp]: "storable (set_offline b q) = storable q" "storable (ap_queue (markOffline s)) = storable (ap_queue s)"
  by (auto simp: storable_def set_offline_def markOffline_def ls_queue_def split: write_queue.split)

lemma upsert_at_mem: "x \<in> set (upsert_at key x xs)"
  by (auto simp: upsert_at_def set_update_memI dest!: find_index_Some split: option.split)

lemma queue_write_holds:
  assumes "client_id e path method opts \<noteq> []" and "storable q"
  shows "holds_write (client_id e path method opts) path method (op_body opts) (queue_write e path method opts q)"
proof (cases q)
  case (Native s)
  define m where "m = \<lparr>mu_clientId = client_id e path method opts, mu_url = path, mu_method = method, mu_body = op_body opts,
      mu_label = Some (case op_label opts of Some l \<Rightarrow> l | None \<Rightarrow> method @ '' '' @ path), mu_createdAt = av_now e, mu_retries = None\<rparr>"
  have same: "m\<lparr>mu_createdAt := av_now e\<rparr> = m" by (simp add: m_def)
  have "m \<in> set (readQueueRaw (enqueueMutation (av_now e) None m s))"
    using upsert_at_mem [of m mu_clientId]
    by (simp add: enqueueMutation_def writeQueue_def readQueueRaw_def updatePendingCount_def same split: prod.split)
  then show ?thesis
    by (simp add: Native queue_write_def holds_write_def list_ex_iff flip: m_def) (rule bexI, auto simp: m_def)
next
  case (Bridge s)
  let ?c = "client_id e path method opts"
  define m where "m = \<lparr>we_id = None, we_clientId = ?c, we_kind = Api, we_url = Some path, we_method = Some method,
      we_body = op_body opts, we_event = None, we_data = None, we_status = Pending, we_retries = 0, we_createdAt = av_now e\<rparr>"
  have m: "we_clientId m = ?c" "we_url m = Some path" "we_method m = Some method" "we_body m = op_body opts" by (simp_all add: m_def)
  have entry: "we_clientId (new_entry t c i m) = c \<and> we_url (new_entry t c i m) = Some path \<and> we_method (new_entry t c i m) = Some method
      \<and> we_body (new_entry t c i m) = op_body opts \<and> we_status (new_entry t c i m) = Pending" for t c i
    by (simp add: new_entry_def m)
  have up: "idb_up (w_updatePendingCount t) = idb_up t" "idb (w_updatePendingCount t) = idb t" "ls_entries (w_updatePendingCount t) = ls_entries t" for t
    by simp_all
  have "holds_write ?c path method (op_body opts) (Bridge (snd (queueMutation (av_now e) (av_random e) m s)))"
  proof (cases "idb_up s")
    case True
    have "new_entry (av_now e) ?c (Some (idb_next s)) m \<in> set (idb (idb_upsert (av_now e) ?c m s))"
      and up': "idb_up (idb_upsert (av_now e) ?c m s)" using True by (simp_all add: idb_upsert_def Let_def)
    then have "list_ex (\<lambda>w. we_clientId w = ?c \<and> we_url w = Some path \<and> we_method w = Some method \<and> we_body w = op_body opts \<and> we_status w = Pending)
        (idb (idb_upsert (av_now e) ?c m s))" using entry by (auto simp: list_ex_iff)
    then show ?thesis using True assms(1) m(1)
      by (simp add: holds_write_def queueMutation_def Let_def up')
  next
    case False
    then obtain q' where q': "ls_queue s = Some q'" using assms(2) by (auto simp: Bridge storable_def)
    have "new_entry (av_now e) ?c None m \<in> set (ls_upsert (av_now e) ?c m q')" by (auto simp: ls_upsert_def split: option.split)
    then have "list_ex (\<lambda>w. we_clientId w = ?c \<and> we_url w = Some path \<and> we_method w = Some method \<and> we_body w = op_body opts \<and> we_status w = Pending)
        (ls_upsert (av_now e) ?c m q')" using entry by (auto simp: list_ex_iff)
    then show ?thesis using False assms(1) m(1) q' by (simp add: holds_write_def queueMutation_def Let_def)
  qed
  then show ?thesis by (simp add: Bridge queue_write_def m_def)
qed

lemma queue_write_offline: "offlineMode (ui_of (queue_write e path method opts q)) = offlineMode (ui_of q)"
proof (cases q)
  case (Native s)
  have "isOffline (enqueueMutation now None m t) = isOffline t" for now m t
    using readQueue_simps(2) [of now t]
    by (simp add: enqueueMutation_def isOffline_def writeQueue_def updatePendingCount_def Let_def split_beta)
  then show ?thesis by (simp add: Native queue_write_def ui_of_def isOffline_def)
next
  case (Bridge s)
  have "offlineMode (w_ui (snd (queueMutation now gen m t))) = offlineMode (w_ui t)" for now gen m t
    by (simp add: queueMutation_def Let_def w_updatePendingCount_def idb_upsert_def ls_write_def split: option.split)
  then show ?thesis by (simp add: Bridge queue_write_def ui_of_def)
qed


subsection \<open>What gets lost, and what is done twice\<close>

definition ex_api :: "bool \<Rightarrow> api_state" where
  "ex_api off =
     \<lparr>ap_mode = BearerMode, ap_token = Some ''old'', ap_refresher = True,
      ap_queue = Native \<lparr>queueKey = Missing, failedKey = Missing, persists = [], uiStore = ui_initial\<lparr>offlineMode := off\<rparr>,
         draining = False, reconciler = False, reconciled = [], sent = []\<rparr>,
      ap_wire = [], ap_refreshes = 0, ap_drains = 0, ap_placeholders = []\<rparr>"

definition ex_net :: "fetch_outcome \<Rightarrow> fetch_outcome \<Rightarrow> api_env" where
  "ex_net a b = \<lparr>av_now = 1000, av_random = ''r1'', av_first = a, av_refreshed = True, av_token = Some ''new'', av_second = b,
     av_onLine = True, av_stored = True\<rparr>"


lemma sos_never_queued_witness:
  "stored_of (ap_queue (snd (apiRequest (ex_net TimedOut TimedOut) ''/crews/c1/sos'' ''POST'' (plain_options None) (ex_api True))))
    = stored_of (ap_queue (ex_api True))"
  using sos_never_queued [of "''/crews/c1/sos''" "''c1''" False "ex_net TimedOut TimedOut" "''POST''" "plain_options None" "ex_api True"] by simp

text \<open>The queue is skipped when the attempt after a refresh finds no network: the write fails and nothing
  keeps it.\<close>

lemma write_lost_after_refresh:
  "apiRequest (ex_net (Response 401 None [] None) (NoResponse ''gone'')) ''/profiles/p1'' ''PUT'' (plain_options (Some (JObj []))) (ex_api False)
   = (Inl (network_error ''gone''),
      (ex_api False)\<lparr>ap_token := Some ''new'', ap_refreshes := 1,
         ap_wire := ap_wire (snd (apiRequest (ex_net (Response 401 None [] None) (NoResponse ''gone'')) ''/profiles/p1'' ''PUT''
           (plain_options (Some (JObj []))) (ex_api False)))\<rparr>)"
  by code_simp

text \<open>A creation whose answer was lost is sent again by the queue, under a key that the first request did
  not carry: the middleware runs the handler twice.\<close>

definition as_request :: "nat \<Rightarrow> wire_request \<Rightarrow> json option request" where
  "as_request i w = \<lparr>rq_id = i, rq_method = wr_method w, rq_key = map_of (wr_headers w) ''Idempotency-Key'', rq_user = None,
     rq_ip = ''ip'', rq_payload = wr_body w\<rparr>"

lemma creation_runs_twice:
  "let s = snd (apiRequest (ex_net TimedOut TimedOut) ''/crews/c1/expenses'' ''POST'' (plain_options (Some (JObj []))) (ex_api False));
       queued = (case ap_queue s of Native q \<Rightarrow> readQueueRaw q | Bridge _ \<Rightarrow> []);
       second = as_request 2 \<lparr>wr_method = mu_method (hd queued), wr_path = mu_url (hd queued),
                  wr_headers = [(''Idempotency-Key'', mu_clientId (hd queued))], wr_body = mu_body (hd queued)\<rparr>
   in length queued = 1
      \<and> length (id_executed (idem_arrive 5000 second (idem_arrive 1000 (as_request 1 (hd (ap_wire s))) (idem_fresh :: (json option, json) idem)))) = 2"
  by code_simp

subsection \<open>Refreshing once\<close>

definition refresher0 :: refresher where
  "refresher0 = \<lparr>rf_flight = None, rf_begun = 0, rf_retried = [], rf_failed = []\<rparr>"

text \<open>Every unauthorized request waits for, or has had, exactly one verdict.\<close>

lemma one_refresh_for_all:
  "mset (rf_retried (fold refresh_step es refresher0)) + mset (rf_failed (fold refresh_step es refresher0))
     + mset (case rf_flight (fold refresh_step es refresher0) of Some w \<Rightarrow> w | None \<Rightarrow> [])
   = mset (List.map_filter (\<lambda>a. case a of Unauthorized i \<Rightarrow> Some i | Settled ok \<Rightarrow> None) es)"
proof -
  define total where "total r = mset (rf_retried r) + mset (rf_failed r) + mset (case rf_flight r of Some w \<Rightarrow> w | None \<Rightarrow> [])" for r :: refresher
  have step: "total (refresh_step a r) = total r + mset (case a of Unauthorized i \<Rightarrow> [i] | Settled ok \<Rightarrow> [])" for a r
    by (cases a) (auto simp: total_def refresh_step_def split: option.split)
  have "total (fold refresh_step es r) = total r + mset (List.map_filter (\<lambda>a. case a of Unauthorized i \<Rightarrow> Some i | Settled ok \<Rightarrow> None) es)" for r
    by (induction es arbitrary: r) (auto simp: step List.map_filter_simps split: refresh_event.split)
  from this [of refresher0] show ?thesis by (simp add: total_def refresher0_def)
qed

subsection \<open>Reads\<close>

lemma withRetry_from:
  assumes "withRetry retries off call k waits = (r, ws, n)" and "k \<le> retries"
  shows "k < n \<and> n \<le> retries + 1 \<and> r = call (n - 1) \<and> ws = waits @ map (\<lambda>i. 600 * 2 ^ i) [k..<n - 1]
    \<and> (\<forall>i\<in>{k..<n - 1}. \<exists>err. call i = Inl err \<and> retryable (off i) err)"
  using assms
proof (induction retries off call k waits arbitrary: r ws n rule: withRetry.induct)
  case (1 retries off call k waits)
  show ?case
  proof (cases "call k")
    case (Inr x)
    then show ?thesis using "1.prems" by (simp add: withRetry.simps [of retries off call k]) auto
  next
    case (Inl err)
    show ?thesis
    proof (cases "\<not> retryable (off k) err \<or> retries \<le> k")
      case True
      then show ?thesis using "1.prems" Inl by (simp add: withRetry.simps [of retries off call k]) auto
    next
      case False
      then have "withRetry retries off call (k + 1) (waits @ [600 * 2 ^ k]) = (r, ws, n)"
        using "1.prems"(1) Inl by (simp add: withRetry.simps [of retries off call k])
      from "1.IH" [OF Inl False this] False
      have ih: "k + 1 < n" "n \<le> retries + 1" "r = call (n - 1)" "ws = (waits @ [600 * 2 ^ k]) @ map (\<lambda>i. 600 * 2 ^ i) [k + 1..<n - 1]"
        "\<forall>i\<in>{k + 1..<n - 1}. \<exists>err. call i = Inl err \<and> retryable (off i) err" by auto
      have "[k..<n - 1] = k # [k + 1..<n - 1]" using ih(1) by (simp add: upt_conv_Cons)
      moreover have "{k..<n - 1} = insert k {k + 1..<n - 1}" using ih(1) by auto
      ultimately show ?thesis using ih Inl False by auto
    qed
  qed
qed

text \<open>Loading a festival always ends: a read is tried at most three times, whatever the answers, with 600 ms
  and 1.2 s between the attempts; it ends with the answer of the last attempt, and every attempt
  before failed for want of a network or with a server error, while the device was not known to be
  offline.\<close>

theorem withRetry_ends:
  assumes "withRetry 2 off call 0 [] = (r, waits, n)"
  shows "1 \<le> n \<and> n \<le> 3 \<and> r = call (n - 1) \<and> waits = take (n - 1) [600, 1200]
    \<and> (\<forall>i\<in>{0..<n - 1}. \<exists>err. call i = Inl err \<and> retryable (off i) err)"
proof -
  from withRetry_from [OF assms] have n: "0 < n" "n \<le> 3" "r = call (n - 1)" "waits = map (\<lambda>i. 600 * 2 ^ i) [0..<n - 1]"
    "\<forall>i\<in>{0..<n - 1}. \<exists>err. call i = Inl err \<and> retryable (off i) err" by auto
  then have "n = 1 \<or> n = 2 \<or> n = 3" by auto
  then show ?thesis using n by (auto simp: upt_rec)
qed

lemma withRetry_ends_witness:
  "(\<lambda>(r, waits, n). r = Inr ''ok'' \<and> waits = [600 :: int] \<and> n = 2)
     (withRetry 2 (\<lambda>_. False) (\<lambda>k. if k = 0 then Inl (network_error ''x'') else Inr ''ok'') 0 [])"
proof -
  let ?call = "\<lambda>k :: nat. if k = 0 then Inl (network_error ''x'') else Inr ''ok''"
  obtain r ws n where w: "withRetry 2 (\<lambda>_. False) ?call 0 [] = (r, ws, n)" by (cases "withRetry 2 (\<lambda>_. False) ?call 0 []")
  have "n = 2" using w by (simp add: withRetry.simps network_error_def retryable_def)
  with withRetry_ends [OF w] show ?thesis by (simp add: w)
qed

end
