(* ===== verification/Picks_Client.thy ===== *)
theory Picks_Client
  imports Api_Client
begin

text \<open>
  The client's festival store: \<open>packages/shared/src/stores/festivalDataStore.ts\<close> (the festival, its
  profiles, one's own picks, notes and reminders, the persisted read cache), the two fields of
  \<open>festivalUIStore.ts\<close> a selection resets, the selectors of \<open>hooks/usePicks.ts\<close> and what
  \<open>useRealtimeSync.ts\<close> does with a profile event.

  An action that awaits is a function up to the request (\<open>_begin\<close>), which gives the request, and one
  for each answer (\<open>_end\<close>): other actions and events come in between.  A missing map is empty.
\<close>

record festival_detail =
  de_festival :: festival_info
  de_stages :: "stage_info list"
  de_days :: "(festival_day \<times> festival_set list option) list"

record fest_state =
  ft_festivals :: "festival_info list"
  ft_currentId :: "string option"
  ft_current :: "festival_info option"
  ft_profile :: "profile option"
  ft_profiles :: "profile list"
  ft_sets :: "festival_set list"
  ft_stages :: "stage_info list"
  ft_days :: "festival_day list"
  ft_loading :: bool
  ft_error :: "string option"
  ft_cachedAt :: "int option"
  ft_profilesAt :: "int option"
  ft_cachedId :: "string option"
  ft_lastSelect :: "string option"
  ft_shownStages :: "string list"
  ft_selectedDay :: nat

definition fest_initial :: fest_state where
  "fest_initial =
     \<lparr>ft_festivals = [], ft_currentId = None, ft_current = None, ft_profile = None, ft_profiles = [], ft_sets = [], ft_stages = [],
      ft_days = [], ft_loading = False, ft_error = None, ft_cachedAt = None, ft_profilesAt = None, ft_cachedId = None,
      ft_lastSelect = None, ft_shownStages = [], ft_selectedDay = 0\<rparr>"

definition user_message :: "clock \<Rightarrow> thrown \<Rightarrow> string \<Rightarrow> string" where
  "user_message ck err fallback = mapErrorToUserMessage (ck_parse ck) (ck_now ck) err fallback"

subsection \<open>Loading\<close>

definition load_begin :: "fest_state \<Rightarrow> fest_state" where
  "load_begin s = s\<lparr>ft_loading := True, ft_error := None\<rparr>"

definition load_failed :: "clock \<Rightarrow> string \<Rightarrow> thrown \<Rightarrow> fest_state \<Rightarrow> fest_state" where
  "load_failed ck fallback err s = s\<lparr>ft_error := Some (user_message ck err fallback), ft_loading := False\<rparr>"

definition loadFestivals_end :: "clock \<Rightarrow> thrown + festival_info list \<Rightarrow> fest_state \<Rightarrow> fest_state" where
  "loadFestivals_end ck r s =
     (case r of Inr fs \<Rightarrow> s\<lparr>ft_festivals := fs, ft_loading := False\<rparr>
      | Inl err \<Rightarrow> load_failed ck ''Failed to load festivals'' err s)"

definition selectFestival_begin :: "string \<Rightarrow> fest_state \<Rightarrow> fest_state" where
  "selectFestival_begin f s = s\<lparr>ft_lastSelect := Some f, ft_loading := True, ft_error := None, ft_currentId := Some f\<rparr>"

definition flat_sets :: "(festival_day \<times> festival_set list option) list \<Rightarrow> festival_set list" where
  "flat_sets ds = concat (map (\<lambda>(i, d, sets). map (\<lambda>x. x\<lparr>fs_dayIndex := Some (int i), fs_date := Some (fd_date d)\<rparr>)
      (case sets of Some xs \<Rightarrow> xs | None \<Rightarrow> [])) (enumerate 0 ds))"

definition numbered_days :: "(festival_day \<times> festival_set list option) list \<Rightarrow> festival_day list" where
  "numbered_days ds = map (\<lambda>(i, d, sets). d\<lparr>fd_dayIndex := Some (int i)\<rparr>) (enumerate 0 ds)"

definition own_profile :: "string option \<Rightarrow> profile list \<Rightarrow> profile option" where
  "own_profile userId ps =
     (case userId of None \<Rightarrow> None | Some u \<Rightarrow> if u = [] then None else find (\<lambda>p. pr_userId p = u) ps)"

text \<open>\<open>today\<close>: the date on the device.  \<open>profiles\<close>: \<open>None\<close> for a guest, who does not ask.\<close>

definition selectFestival_end ::
  "clock \<Rightarrow> string \<Rightarrow> string \<Rightarrow> string option \<Rightarrow> festival_detail \<Rightarrow> (thrown + profile list) option \<Rightarrow> fest_state \<Rightarrow> fest_state" where
  "selectFestival_end ck today f userId detail profiles s =
     (let fetched = (case profiles of Some (Inr ps) \<Rightarrow> ps | _ \<Rightarrow> []);
          failed = (case profiles of Some (Inl err) \<Rightarrow> True | _ \<Rightarrow> False);
          mine = (case own_profile userId fetched of Some p \<Rightarrow> Some p
            | None \<Rightarrow> (case ft_profile s of Some p \<Rightarrow> if failed \<and> pr_festivalId p = f then Some p else None | None \<Rightarrow> None));
          everyone = (if failed \<and> ft_cachedId s = Some f then ft_profiles s else fetched);
          days = numbered_days (de_days detail)
      in if ft_lastSelect s \<noteq> Some f then s\<lparr>ft_loading := False\<rparr>
         else s\<lparr>ft_currentId := Some f, ft_current := Some (de_festival detail), ft_sets := flat_sets (de_days detail),
                ft_stages := de_stages detail, ft_days := days, ft_profiles := everyone, ft_profile := mine, ft_loading := False,
                ft_cachedAt := Some (ck_now ck), ft_cachedId := Some f,
                ft_profilesAt := (if failed then ft_profilesAt s else Some (ck_now ck)),
                ft_shownStages := [],
                ft_selectedDay := (case find_index (\<lambda>d. fd_date d = today) days of Some i \<Rightarrow> i | None \<Rightarrow> 0)\<rparr>)"

definition selectFestival_failed :: "clock \<Rightarrow> thrown \<Rightarrow> fest_state \<Rightarrow> fest_state" where
  "selectFestival_failed ck err s = load_failed ck ''Failed to load festival'' err s"

text \<open>\<open>pending\<close>: the number of writes in the offline queue.\<close>

definition loadProfiles_end :: "clock \<Rightarrow> string \<Rightarrow> string option \<Rightarrow> nat \<Rightarrow> thrown + profile list \<Rightarrow> fest_state \<Rightarrow> fest_state" where
  "loadProfiles_end ck f userId pending r s =
     (case r of
        Inl err \<Rightarrow> load_failed ck ''Failed to load profiles'' err s
      | Inr ps \<Rightarrow>
          let server = own_profile userId ps;
              mine = (case (server, ft_profile s) of
                  (Some p, Some old) \<Rightarrow> if 0 < pending \<and> pr_id old = pr_id p
                     then Some (p\<lparr>pr_picks := pr_picks old, pr_notes := pr_notes old, pr_reminders := pr_reminders old\<rparr>) else Some p
                | _ \<Rightarrow> server)
          in s\<lparr>ft_profiles := ps, ft_profile := mine, ft_loading := False, ft_profilesAt := Some (ck_now ck), ft_cachedId := Some f\<rparr>)"

definition setCurrentProfile :: "profile \<Rightarrow> fest_state \<Rightarrow> fest_state" where
  "setCurrentProfile p s = s\<lparr>ft_profile := Some p\<rparr>"

definition ft_setError :: "string option \<Rightarrow> fest_state \<Rightarrow> fest_state" where
  "ft_setError m s = s\<lparr>ft_error := m\<rparr>"

subsection \<open>A profile event\<close>

definition applyProfilePatch :: "string \<Rightarrow> (string \<times> priority) list option \<Rightarrow> fest_state \<Rightarrow> bool \<times> fest_state" where
  "applyProfilePatch pid picks s =
     (case picks of None \<Rightarrow> (False, s)
      | Some m \<Rightarrow>
          (case find_index (\<lambda>p. pr_id p = pid) (ft_profiles s) of
             None \<Rightarrow> (False, s)
           | Some i \<Rightarrow>
               let updated = (ft_profiles s ! i)\<lparr>pr_picks := m\<rparr>
               in (True, s\<lparr>ft_profiles := (ft_profiles s)[i := updated],
                           ft_profile := (case ft_profile s of Some p \<Rightarrow> if pr_id p = pid then Some updated else Some p | None \<Rightarrow> None)\<rparr>)))"

text \<open>\<open>patchOrReload\<close>: the event's picks, or a reload of every profile.\<close>

definition patchOrReload :: "string \<Rightarrow> (string \<times> priority) list option \<Rightarrow> fest_state \<Rightarrow> bool \<times> fest_state" where
  "patchOrReload pid picks s = (case applyProfilePatch pid picks s of (patched, s') \<Rightarrow> (\<not> patched, s'))"

subsection \<open>Writing one's own maps\<close>

datatype map_body = PicksBody "(string \<times> priority) list" | NotesBody "(string \<times> string) list" | RemindersBody "(string \<times> int) list"

datatype undo = UndoPicks "(string \<times> priority option) list" | UndoNotes "(string \<times> string option) list" | UndoReminders "(string \<times> int option) list"

text \<open>The request: the profile it goes to, the whole map, its client id, and what to put back should it fail.\<close>

record map_write =
  mw_profileId :: string
  mw_body :: map_body
  mw_clientId :: string
  mw_undo :: undo

definition put_back :: "(string \<times> 'a option) list \<Rightarrow> (string \<times> 'a) list \<Rightarrow> (string \<times> 'a) list" where
  "put_back prev m = fold (\<lambda>(k, v) m. case v of None \<Rightarrow> AList.delete k m | Some x \<Rightarrow> AList.update k x m) prev m"

definition reminders_of :: "profile \<Rightarrow> (string \<times> int) list" where
  "reminders_of p = (case pr_reminders p of Some m \<Rightarrow> m | None \<Rightarrow> [])"

definition undo_on :: "undo \<Rightarrow> profile \<Rightarrow> profile" where
  "undo_on u p =
     (case u of
        UndoPicks prev \<Rightarrow> p\<lparr>pr_picks := put_back prev (pr_picks p)\<rparr>
      | UndoNotes prev \<Rightarrow> p\<lparr>pr_notes := put_back prev (pr_notes p)\<rparr>
      | UndoReminders prev \<Rightarrow> p\<lparr>pr_reminders := Some (put_back prev (reminders_of p))\<rparr>)"

definition rollbackKeys :: "undo \<Rightarrow> string \<Rightarrow> fest_state \<Rightarrow> fest_state" where
  "rollbackKeys u message s = s\<lparr>ft_profile := map_option (undo_on u) (ft_profile s), ft_error := Some message\<rparr>"

definition no_profile :: thrown where
  "no_profile = JsError ''No active profile -- select a festival first''"

definition write_failed :: "clock \<Rightarrow> string \<Rightarrow> undo \<Rightarrow> thrown \<Rightarrow> fest_state \<Rightarrow> fest_state" where
  "write_failed ck fallback u err s = rollbackKeys u (user_message ck err fallback) s"

text \<open>The common frame: clear the error, fail without a profile, else show the new map and send it.\<close>

definition begin_write :: "clock \<Rightarrow> string \<Rightarrow> undo \<Rightarrow> (profile \<Rightarrow> profile \<times> map_write) \<Rightarrow> fest_state \<Rightarrow> map_write option \<times> fest_state" where
  "begin_write ck fallback u step s =
     (let s1 = s\<lparr>ft_error := None\<rparr>
      in case ft_profile s1 of
           None \<Rightarrow> (None, write_failed ck fallback u no_profile s1)
         | Some p \<Rightarrow> (case step p of (p', w) \<Rightarrow> (Some w, s1\<lparr>ft_profile := Some p'\<rparr>)))"

definition set_or_clear :: "string \<Rightarrow> 'a option \<Rightarrow> (string \<times> 'a) list \<Rightarrow> (string \<times> 'a) list" where
  "set_or_clear k v m = (case v of Some x \<Rightarrow> AList.update k x m | None \<Rightarrow> AList.delete k m)"

definition prev_pick :: "string \<Rightarrow> fest_state \<Rightarrow> priority option" where
  "prev_pick x s = (case ft_profile s of Some p \<Rightarrow> map_of (pr_picks p) x | None \<Rightarrow> None)"

definition savePick_begin :: "clock \<Rightarrow> string \<Rightarrow> priority option \<Rightarrow> fest_state \<Rightarrow> map_write option \<times> fest_state" where
  "savePick_begin ck x prio s =
     (let u = UndoPicks [(x, prev_pick x s)]
      in begin_write ck ''Failed to save pick'' u (\<lambda>p.
           let m = set_or_clear x prio (pr_picks p)
           in (p\<lparr>pr_picks := m\<rparr>, \<lparr>mw_profileId = pr_id p, mw_body = PicksBody m, mw_clientId = ''pick-'' @ pr_id p @ ''-'' @ x, mw_undo = u\<rparr>)) s)"

definition removePick_begin :: "clock \<Rightarrow> string \<Rightarrow> fest_state \<Rightarrow> map_write option \<times> fest_state" where
  "removePick_begin ck x s =
     (let u = UndoPicks [(x, prev_pick x s)]
      in begin_write ck ''Failed to remove pick'' u (\<lambda>p.
           let m = filter (\<lambda>e. fst e \<noteq> x) (pr_picks p)
           in (p\<lparr>pr_picks := m\<rparr>, \<lparr>mw_profileId = pr_id p, mw_body = PicksBody m, mw_clientId = ''pick-'' @ pr_id p @ ''-'' @ x, mw_undo = u\<rparr>)) s)"

definition saveNote_begin :: "clock \<Rightarrow> string \<Rightarrow> string \<Rightarrow> fest_state \<Rightarrow> map_write option \<times> fest_state" where
  "saveNote_begin ck x note s =
     (let u = UndoNotes [(x, case ft_profile s of Some p \<Rightarrow> map_of (pr_notes p) x | None \<Rightarrow> None)]
      in begin_write ck ''Failed to save note'' u (\<lambda>p.
           let m = AList.update x note (pr_notes p)
           in (p\<lparr>pr_notes := m\<rparr>, \<lparr>mw_profileId = pr_id p, mw_body = NotesBody m, mw_clientId = ''note-'' @ pr_id p @ ''-'' @ x, mw_undo = u\<rparr>)) s)"

definition saveReminder_begin :: "clock \<Rightarrow> string \<Rightarrow> int option \<Rightarrow> fest_state \<Rightarrow> map_write option \<times> fest_state" where
  "saveReminder_begin ck x minutes s =
     (let u = UndoReminders [(x, case ft_profile s of Some p \<Rightarrow> map_of (reminders_of p) x | None \<Rightarrow> None)]
      in begin_write ck ''Failed to save reminder'' u (\<lambda>p.
           let m = set_or_clear x minutes (reminders_of p)
           in (p\<lparr>pr_reminders := Some m\<rparr>, \<lparr>mw_profileId = pr_id p, mw_body = RemindersBody m,
                 mw_clientId = ''reminder-'' @ pr_id p @ ''-'' @ x, mw_undo = u\<rparr>)) s)"

subsection \<open>Many picks at once\<close>

definition bulk_rank :: "priority \<Rightarrow> nat" where
  "bulk_rank p = (case p of Maybe \<Rightarrow> 1 | WantToSee \<Rightarrow> 2 | Must \<Rightarrow> 3)"

definition bulk_one :: "priority \<Rightarrow> string \<Rightarrow> (string \<times> priority option) list \<times> (string \<times> priority) list \<times> nat
    \<Rightarrow> (string \<times> priority option) list \<times> (string \<times> priority) list \<times> nat" where
  "bulk_one prio x acc =
     (case acc of (prev, merged, changed) \<Rightarrow>
        (case map_of merged x of
           Some old \<Rightarrow> if bulk_rank prio \<le> bulk_rank old then acc
             else (AList.update x (Some old) prev, AList.update x prio merged, changed + 1)
         | None \<Rightarrow> (AList.update x None prev, AList.update x prio merged, changed + 1)))"

definition bulk_merge :: "string list \<Rightarrow> priority \<Rightarrow> (string \<times> priority) list
    \<Rightarrow> (string \<times> priority option) list \<times> (string \<times> priority) list \<times> nat" where
  "bulk_merge xs prio base = fold (bulk_one prio) xs ([], base, 0)"

text \<open>The number of sets changed, and the one request, if any.\<close>

definition bulkSavePicks_begin :: "clock \<Rightarrow> string list \<Rightarrow> priority \<Rightarrow> fest_state \<Rightarrow> nat \<times> map_write option \<times> fest_state" where
  "bulkSavePicks_begin ck xs prio s =
     (let s1 = s\<lparr>ft_error := None\<rparr>
      in case ft_profile s1 of
           None \<Rightarrow> (0, None, write_failed ck ''Failed to save picks'' (UndoPicks []) no_profile s1)
         | Some p \<Rightarrow>
             (case bulk_merge xs prio (pr_picks p) of (prev, merged, changed) \<Rightarrow>
                if changed = 0 then (0, None, s1)
                else (changed,
                      Some \<lparr>mw_profileId = pr_id p, mw_body = PicksBody merged, mw_clientId = ''bulk-'' @ pr_id p, mw_undo = UndoPicks prev\<rparr>,
                      s1\<lparr>ft_profile := Some (p\<lparr>pr_picks := merged\<rparr>)\<rparr>)))"

subsection \<open>Sending a map\<close>

text \<open>\<open>offlinePut\<close>.\<close>

definition priority_json :: "priority \<Rightarrow> json" where
  "priority_json p = JStr (case p of Must \<Rightarrow> ''must'' | WantToSee \<Rightarrow> ''want-to-see'' | Maybe \<Rightarrow> ''maybe'')"

definition body_json :: "map_body \<Rightarrow> json" where
  "body_json b =
     (case b of
        PicksBody m \<Rightarrow> JObj [(''picks'', JObj (map (\<lambda>(k, p). (k, priority_json p)) m))]
      | NotesBody m \<Rightarrow> JObj [(''notes'', JObj (map (\<lambda>(k, t). (k, JStr t)) m))]
      | RemindersBody m \<Rightarrow> JObj [(''reminders'', JObj (map (\<lambda>(k, n). (k, JNum (of_int n))) m))])"

definition put_options :: "map_write \<Rightarrow> api_options" where
  "put_options w = (plain_options (Some (body_json (mw_body w))))\<lparr>op_clientId := Some (mw_clientId w), op_label := Some ''Update picks''\<rparr>"

definition offlinePut :: "api_env \<Rightarrow> map_write \<Rightarrow> api_state \<Rightarrow> api_result \<times> api_state" where
  "offlinePut e w a = api_put e (''/profiles/'' @ mw_profileId w) (Some (body_json (mw_body w))) (put_options w) a"

text \<open>The answer: nothing on success, else the rollback with the action's own message.\<close>

definition write_end :: "clock \<Rightarrow> string \<Rightarrow> map_write \<Rightarrow> api_result \<Rightarrow> fest_state \<Rightarrow> fest_state" where
  "write_end ck fallback w r s = (case r of Inr j \<Rightarrow> s | Inl err \<Rightarrow> write_failed ck fallback (mw_undo w) err s)"

subsection \<open>Selectors\<close>

definition getMyPick :: "string \<Rightarrow> fest_state \<Rightarrow> priority option" where
  "getMyPick x s = prev_pick x s"

definition getMyNote :: "string \<Rightarrow> fest_state \<Rightarrow> string option" where
  "getMyNote x s = (case ft_profile s of Some p \<Rightarrow> map_of (pr_notes p) x | None \<Rightarrow> None)"

definition getMyReminder :: "string \<Rightarrow> fest_state \<Rightarrow> int option" where
  "getMyReminder x s = (case ft_profile s of Some p \<Rightarrow> map_of (reminders_of p) x | None \<Rightarrow> None)"

definition getOtherPicks :: "string \<Rightarrow> fest_state \<Rightarrow> (string \<times> priority \<times> string option) list" where
  "getOtherPicks x s =
     (case ft_profile s of None \<Rightarrow> []
      | Some me \<Rightarrow> if pr_id me = [] then []
          else List.map_filter (\<lambda>p. if pr_id p = pr_id me then None
                 else map_option (\<lambda>prio. (pr_id p, prio, pr_name p)) (map_of (pr_picks p) x)) (ft_profiles s))"

subsection \<open>The persisted cache\<close>

record fest_cache =
  fc_currentId :: "string option"
  fc_current :: "festival_info option"
  fc_sets :: "festival_set list"
  fc_stages :: "stage_info list"
  fc_days :: "festival_day list"
  fc_profile :: "profile option"
  fc_profiles :: "profile list"
  fc_cachedAt :: "int option"
  fc_profilesAt :: "int option"
  fc_cachedId :: "string option"

definition MAX_CACHED_PROFILES :: nat where
  "MAX_CACHED_PROFILES = 60"

definition slimProfileForCache :: "string option \<Rightarrow> profile \<Rightarrow> profile" where
  "slimProfileForCache f p =
     \<lparr>pr_id = pr_id p, pr_userId = pr_userId p, pr_festivalId = (case f of Some x \<Rightarrow> x | None \<Rightarrow> []), pr_name = pr_name p,
      pr_picks = pr_picks p, pr_notes = [], pr_reminders = None, pr_updatedAt = [], pr_etag = None\<rparr>"

definition ft_partialize :: "fest_state \<Rightarrow> fest_cache" where
  "ft_partialize s =
     \<lparr>fc_currentId = ft_currentId s, fc_current = ft_current s, fc_sets = ft_sets s, fc_stages = ft_stages s, fc_days = ft_days s,
      fc_profile = ft_profile s, fc_profiles = map (slimProfileForCache (ft_cachedId s)) (take MAX_CACHED_PROFILES (ft_profiles s)),
      fc_cachedAt = ft_cachedAt s, fc_profilesAt = ft_profilesAt s, fc_cachedId = ft_cachedId s\<rparr>"

text \<open>\<open>None\<close>: nothing was stored.\<close>

definition ft_merge :: "fest_cache option \<Rightarrow> fest_state \<Rightarrow> fest_state" where
  "ft_merge stored cur =
     (case stored of
        None \<Rightarrow> cur
      | Some c \<Rightarrow>
          if ft_currentId cur \<notin> {None, Some []} \<and> fc_currentId c \<noteq> ft_currentId cur then cur
          else cur\<lparr>ft_currentId := fc_currentId c, ft_current := fc_current c, ft_sets := fc_sets c, ft_stages := fc_stages c,
                   ft_days := fc_days c, ft_profile := fc_profile c, ft_profiles := fc_profiles c, ft_cachedAt := fc_cachedAt c,
                   ft_profilesAt := fc_profilesAt c, ft_cachedId := fc_cachedId c\<rparr>)"

end
