(* ===== verification/Picks_Props.thy ===== *)
theory Picks_Props
  imports Picks_Client
begin

text \<open>
  What the festival store guarantees: bulk picks never weaken a pick and are counted truthfully, a
  failed write undoes itself and nothing else, fast switching ends on the festival chosen last, a cold
  start shows what was there; and where late answers get in the way.
\<close>

subsection \<open>Bulk picks\<close>

definition stronger :: "priority \<Rightarrow> priority option \<Rightarrow> priority" where
  "stronger prio old = (case old of Some q \<Rightarrow> if bulk_rank prio \<le> bulk_rank q then q else prio | None \<Rightarrow> prio)"

lemma bulk_rank_inj: "bulk_rank a = bulk_rank b \<Longrightarrow> a = b"
  by (cases a; cases b) (simp_all add: bulk_rank_def)

lemma stronger_idem [simp]: "stronger prio (Some (stronger prio old)) = stronger prio old"
  by (auto simp: stronger_def split: option.splits)

lemma bulk_one_spec:
  assumes "bulk_one prio x (prev, merged, n) = (prev', merged', n')"
  shows "map_of merged' = (map_of merged)(x \<mapsto> stronger prio (map_of merged x))"
    and "map_of prev' = (if map_of merged' x = map_of merged x then map_of prev else (map_of prev)(x \<mapsto> map_of merged x))"
    and "n' = (if map_of merged' x = map_of merged x then n else n + 1)"
proof -
  show m: "map_of merged' = (map_of merged)(x \<mapsto> stronger prio (map_of merged x))"
    using assms by (auto simp: bulk_one_def stronger_def update_conv' split: option.splits if_splits)
  have "(prio = q) \<longleftrightarrow> bulk_rank prio = bulk_rank q" for q using bulk_rank_inj by auto
  then show "map_of prev' = (if map_of merged' x = map_of merged x then map_of prev else (map_of prev)(x \<mapsto> map_of merged x))"
    and "n' = (if map_of merged' x = map_of merged x then n else n + 1)"
    using assms m by (auto simp: bulk_one_def stronger_def update_conv' split: option.splits if_splits)
qed

lemma bulk_fold:
  assumes "fold (bulk_one prio) xs (prev, merged, n) = (prev', merged', n')"
    and "\<forall>x. map_of prev x \<noteq> None \<longrightarrow> map_of merged x = Some (stronger prio (map_of merged x))"
  shows "map_of merged' = (\<lambda>x. if x \<in> set xs then Some (stronger prio (map_of merged x)) else map_of merged x)
    \<and> map_of prev' = (\<lambda>x. if x \<in> set xs \<and> map_of merged' x \<noteq> map_of merged x then Some (map_of merged x) else map_of prev x)
    \<and> n' = n + card {x \<in> set xs. map_of merged' x \<noteq> map_of merged x}"
  using assms
proof (induction xs arbitrary: prev merged n)
  case (Cons x xs)
  obtain p1 m1 n1 where one: "bulk_one prio x (prev, merged, n) = (p1, m1, n1)" by (cases "bulk_one prio x (prev, merged, n)") auto
  note spec = bulk_one_spec [OF one]
  have inv: "\<forall>y. map_of p1 y \<noteq> None \<longrightarrow> map_of m1 y = Some (stronger prio (map_of m1 y))"
    using Cons.prems(2) by (auto simp: spec(1,2))
  have ih: "map_of merged' = (\<lambda>y. if y \<in> set xs then Some (stronger prio (map_of m1 y)) else map_of m1 y)"
    "map_of prev' = (\<lambda>y. if y \<in> set xs \<and> map_of merged' y \<noteq> map_of m1 y then Some (map_of m1 y) else map_of p1 y)"
    "n' = n1 + card {y \<in> set xs. map_of merged' y \<noteq> map_of m1 y}"
    using Cons.IH [OF Cons.prems(1) [unfolded fold_simps one] inv] by blast+
  have m: "map_of merged' y = (if y \<in> set (x # xs) then Some (stronger prio (map_of merged y)) else map_of merged y)" for y
    by (simp add: ih(1) spec(1))
  have x1: "map_of merged' x = map_of m1 x" by (simp add: ih(1) spec(1))
  have p: "map_of prev' y = (if y \<in> set (x # xs) \<and> map_of merged' y \<noteq> map_of merged y then Some (map_of merged y) else map_of prev y)" for y
  proof (cases "y = x")
    case True
    then show ?thesis using x1 by (simp add: ih(2) spec(1,2))
  next
    case False
    then show ?thesis by (simp add: ih(2) spec(1,2))
  qed
  have "{y \<in> set (x # xs). map_of merged' y \<noteq> map_of merged y}
      = (if map_of m1 x = map_of merged x then {} else {x}) \<union> {y \<in> set xs. map_of merged' y \<noteq> map_of m1 y}"
    using x1 by (auto simp: spec(1))
  moreover have "x \<notin> {y \<in> set xs. map_of merged' y \<noteq> map_of m1 y}" using x1 by simp
  ultimately have "n' = n + card {y \<in> set (x # xs). map_of merged' y \<noteq> map_of merged y}"
    using ih(3) spec(3) by simp
  with m p show ?case by auto
qed simp

text \<open>A bulk pick never weakens a pick: every set named ends at the stronger of its pick and the new
  priority, every other set is left alone, the number reported is the number of sets that changed, and
  the one request, sent only when something changed, carries the whole map and remembers exactly the
  picks it replaced.\<close>

theorem bulk_never_downgrades:
  assumes "bulkSavePicks_begin ck xs prio s = (n, w, s')" and "ft_profile s = Some p"
  shows "\<exists>p'. ft_profile s' = Some p'
    \<and> map_of (pr_picks p') = (\<lambda>x. if x \<in> set xs then Some (stronger prio (map_of (pr_picks p) x)) else map_of (pr_picks p) x)
    \<and> n = card {x \<in> set xs. map_of (pr_picks p') x \<noteq> map_of (pr_picks p) x}
    \<and> (case w of None \<Rightarrow> n = 0 \<and> p' = p
       | Some r \<Rightarrow> 0 < n \<and> mw_body r = PicksBody (pr_picks p') \<and> mw_profileId r = pr_id p
           \<and> (\<exists>prev. mw_undo r = UndoPicks prev
                \<and> map_of prev = (\<lambda>x. if x \<in> set xs \<and> map_of (pr_picks p') x \<noteq> map_of (pr_picks p) x
                                      then Some (map_of (pr_picks p) x) else None)))"
proof -
  obtain prev merged k where merge: "bulk_merge xs prio (pr_picks p) = (prev, merged, k)" by (cases "bulk_merge xs prio (pr_picks p)") auto
  from bulk_fold [of prio xs "[]" "pr_picks p" 0 prev merged k] merge
  have spec: "map_of merged = (\<lambda>x. if x \<in> set xs then Some (stronger prio (map_of (pr_picks p) x)) else map_of (pr_picks p) x)"
    "map_of prev = (\<lambda>x. if x \<in> set xs \<and> map_of merged x \<noteq> map_of (pr_picks p) x then Some (map_of (pr_picks p) x) else None)"
    "k = card {x \<in> set xs. map_of merged x \<noteq> map_of (pr_picks p) x}"
    by (auto simp: bulk_merge_def)
  show ?thesis
  proof (cases "k = 0")
    case True
    then have same: "map_of merged x = map_of (pr_picks p) x" for x
      using spec(1,3) by (cases "x \<in> set xs") (auto simp: card_eq_0_iff)
    have "n = 0" "w = None" "ft_profile s' = Some p" using assms merge True by (auto simp: bulkSavePicks_begin_def Let_def)
    then show ?thesis using spec(1) same by (auto simp: fun_eq_iff)
  next
    case False
    have nk: "n = k" and w: "w = Some \<lparr>mw_profileId = pr_id p, mw_body = PicksBody merged, mw_clientId = ''bulk-'' @ pr_id p, mw_undo = UndoPicks prev\<rparr>"
      and s': "ft_profile s' = Some (p\<lparr>pr_picks := merged\<rparr>)"
      using False assms merge by (auto simp: bulkSavePicks_begin_def Let_def)
    have pos: "0 < n" using False nk by simp
    have picks: "pr_picks (p\<lparr>pr_picks := merged\<rparr>) = merged" by simp
    show ?thesis
      unfolding w option.case
      by (intro exI [of _ "p\<lparr>pr_picks := merged\<rparr>"] conjI s', unfold picks map_write.simps, (rule spec(1) spec(2) pos refl exI conjI | simp only: nk spec(3))+)
  qed
qed

subsection \<open>Undoing a failed write\<close>

datatype map_action =
    Pick string "priority option"
  | Unpick string
  | Note string string
  | Remind string "int option"
  | Bulk "string list" priority

definition act_begin :: "clock \<Rightarrow> map_action \<Rightarrow> fest_state \<Rightarrow> map_write option \<times> fest_state" where
  "act_begin ck a s =
     (case a of
        Pick x prio \<Rightarrow> savePick_begin ck x prio s
      | Unpick x \<Rightarrow> removePick_begin ck x s
      | Note x t \<Rightarrow> saveNote_begin ck x t s
      | Remind x m \<Rightarrow> saveReminder_begin ck x m s
      | Bulk xs prio \<Rightarrow> snd (bulkSavePicks_begin ck xs prio s))"

text \<open>Every entry of a profile, by field and set.\<close>

datatype map_entry = APick priority | ANote string | AReminder int

definition entry_at :: "profile \<Rightarrow> nat \<times> string \<Rightarrow> map_entry option" where
  "entry_at p i =
     (case i of (f, x) \<Rightarrow> if f = 0 then map_option APick (map_of (pr_picks p) x)
        else if f = 1 then map_option ANote (map_of (pr_notes p) x)
        else if f = 2 then map_option AReminder (map_of (reminders_of p) x) else None)"

definition owned :: "map_action \<Rightarrow> profile \<Rightarrow> (nat \<times> string) set" where
  "owned a p =
     (case a of
        Pick x prio \<Rightarrow> {(0, x)}
      | Unpick x \<Rightarrow> {(0, x)}
      | Note x t \<Rightarrow> {(1, x)}
      | Remind x m \<Rightarrow> {(2, x)}
      | Bulk xs prio \<Rightarrow> Pair 0 ` set (filter (\<lambda>x. map_of (pr_picks p) x \<noteq> Some (stronger prio (map_of (pr_picks p) x))) xs))"

lemma put_back_map:
  assumes "distinct (map fst prev)"
  shows "map_of (put_back prev m) x = (case map_of prev x of Some v \<Rightarrow> v | None \<Rightarrow> map_of m x)"
  using assms
proof (induction prev arbitrary: m)
  case (Cons e prev)
  obtain k v where e: "e = (k, v)" by (cases e)
  have "map_of prev k = None" using Cons.prems e by (auto simp: map_of_eq_None_iff)
  then show ?case using Cons.IH Cons.prems e
    by (cases v) (auto simp: put_back_def update_conv' delete_conv' split: option.splits)
qed (simp add: put_back_def)

lemma reminders_of_upd [simp]: "reminders_of (p\<lparr>pr_reminders := Some m\<rparr>) = m" "reminders_of (p\<lparr>pr_picks := x\<rparr>) = reminders_of p"
  "reminders_of (p\<lparr>pr_notes := y\<rparr>) = reminders_of p"
  by (simp_all add: reminders_of_def)

lemma bulk_prev_distinct: "distinct (map fst prev) \<Longrightarrow> fold (bulk_one prio) xs (prev, m, n) = (prev', m', n') \<Longrightarrow> distinct (map fst prev')"
proof (induction xs arbitrary: prev m n)
  case (Cons x xs)
  obtain p1 m1 n1 where one: "bulk_one prio x (prev, m, n) = (p1, m1, n1)" by (cases "bulk_one prio x (prev, m, n)") auto
  then have "distinct (map fst p1)" using Cons.prems(1) by (auto simp: bulk_one_def distinct_update split: option.splits if_splits)
  then show ?case using Cons.IH Cons.prems(2) one by simp
qed simp

text \<open>C25. A write that fails undoes itself and nothing else: whatever the user and the server did to the profile
  while the request was on its way, the entries the action had written are back at the values from
  before it, every other pick, note and reminder is where it was when the failure arrived, and the
  user sees an error.\<close>

theorem failed_write_undoes_itself:
  assumes "act_begin ck a s = (Some w, s1)" and "ft_profile s = Some p" and "ft_profile s' = Some q"
  shows "\<exists>q'. ft_profile (write_end ck fallback w (Inl err) s') = Some q'
    \<and> (\<forall>i. entry_at q' i = (if i \<in> owned a p then entry_at p i else entry_at q i))
    \<and> ft_error (write_end ck fallback w (Inl err) s') \<noteq> None"
proof -
  have one: ?thesis if "mw_undo w = UndoPicks [(x, map_of (pr_picks p) x)]" "owned a p = {(0, x)}" for x
    using that assms(3)
    by (auto simp: write_end_def write_failed_def rollbackKeys_def undo_on_def entry_at_def put_back_map)
  show ?thesis
  proof (cases a)
    case (Pick x prio)
    then show ?thesis using assms
      by (intro one [of x]) (auto simp: act_begin_def savePick_begin_def begin_write_def prev_pick_def owned_def Let_def)
  next
    case (Unpick x)
    then show ?thesis using assms
      by (intro one [of x]) (auto simp: act_begin_def removePick_begin_def begin_write_def prev_pick_def owned_def Let_def)
  next
    case (Note x t)
    then have "mw_undo w = UndoNotes [(x, map_of (pr_notes p) x)]" "owned a p = {(1, x)}"
      using assms by (auto simp: act_begin_def saveNote_begin_def begin_write_def owned_def Let_def)
    then show ?thesis using assms(3)
      by (auto simp: write_end_def write_failed_def rollbackKeys_def undo_on_def entry_at_def put_back_map)
  next
    case (Remind x m)
    then have "mw_undo w = UndoReminders [(x, map_of (reminders_of p) x)]" "owned a p = {(2, x)}"
      using assms by (auto simp: act_begin_def saveReminder_begin_def begin_write_def owned_def Let_def)
    then show ?thesis using assms(3)
      by (auto simp: write_end_def write_failed_def rollbackKeys_def undo_on_def entry_at_def put_back_map)
  next
    case (Bulk xs prio)
    obtain prev merged k where merge: "bulk_merge xs prio (pr_picks p) = (prev, merged, k)" by (cases "bulk_merge xs prio (pr_picks p)") auto
    then have undo: "mw_undo w = UndoPicks prev"
      using assms Bulk by (auto simp: act_begin_def bulkSavePicks_begin_def Let_def split: if_splits)
    from bulk_fold [of prio xs "[]" "pr_picks p" 0 prev merged k] merge
    have "map_of merged = (\<lambda>x. if x \<in> set xs then Some (stronger prio (map_of (pr_picks p) x)) else map_of (pr_picks p) x)"
      and prev: "map_of prev = (\<lambda>x. if x \<in> set xs \<and> map_of merged x \<noteq> map_of (pr_picks p) x then Some (map_of (pr_picks p) x) else None)"
      by (auto simp: bulk_merge_def)
    then have prev': "map_of prev x = (if (0, x) \<in> owned a p then Some (map_of (pr_picks p) x) else None)" for x
      by (auto simp: Bulk owned_def stronger_def split: option.splits)
    have "f \<noteq> 0 \<Longrightarrow> (f, x) \<notin> owned a p" for f x by (auto simp: Bulk owned_def)
    moreover have "distinct (map fst prev)" using bulk_prev_distinct [of "[]"] merge by (simp add: bulk_merge_def)
    ultimately show ?thesis using assms(3) undo prev'
      by (auto simp: write_end_def write_failed_def rollbackKeys_def undo_on_def entry_at_def put_back_map)
  qed
qed

subsection \<open>Examples\<close>

definition pk_clock :: clock where
  "pk_clock = \<lparr>ck_parse = (\<lambda>_. None), ck_now = 1000, ck_iso = ''now''\<rparr>"

definition ex_own :: "string \<Rightarrow> string \<Rightarrow> (string \<times> priority) list \<Rightarrow> (string \<times> string) list \<Rightarrow> profile" where
  "ex_own i u picks ns = \<lparr>pr_id = i, pr_userId = u, pr_festivalId = ''f1'', pr_name = Some u, pr_picks = picks, pr_notes = ns,
     pr_reminders = None, pr_updatedAt = [], pr_etag = None\<rparr>"

definition ex_fest :: "profile \<Rightarrow> fest_state" where
  "ex_fest p = fest_initial\<lparr>ft_profile := Some p, ft_profiles := [p], ft_currentId := Some ''f1'', ft_cachedId := Some ''f1'', ft_lastSelect := Some ''f1''\<rparr>"

lemma bulk_never_downgrades_witness:
  "\<exists>p'. ft_profile (snd (snd (bulkSavePicks_begin pk_clock [''a'', ''b''] WantToSee (ex_fest (ex_own ''p1'' ''ann'' [(''a'', Must)] []))))) = Some p'
     \<and> map_of (pr_picks p') ''a'' = Some Must \<and> map_of (pr_picks p') ''b'' = Some WantToSee"
proof -
  let ?s = "ex_fest (ex_own ''p1'' ''ann'' [(''a'', Must)] [])"
  obtain n w s' where run: "bulkSavePicks_begin pk_clock [''a'', ''b''] WantToSee ?s = (n, w, s')"
    by (cases "bulkSavePicks_begin pk_clock [''a'', ''b''] WantToSee ?s") auto
  have "ft_profile ?s = Some (ex_own ''p1'' ''ann'' [(''a'', Must)] [])" by (simp add: ex_fest_def)
  from bulk_never_downgrades [OF run this] obtain p' where p': "ft_profile s' = Some p'"
    "map_of (pr_picks p') = (\<lambda>x. if x \<in> set [''a'', ''b''] then Some (stronger WantToSee (map_of (pr_picks (ex_own ''p1'' ''ann'' [(''a'', Must)] [])) x))
      else map_of (pr_picks (ex_own ''p1'' ''ann'' [(''a'', Must)] [])) x)" by blast
  show ?thesis unfolding run snd_conv using p' by (simp add: stronger_def bulk_rank_def ex_own_def)
qed

lemma failed_write_undoes_itself_witness:
  "\<exists>q'. ft_profile (write_end pk_clock ''Failed'' (the (fst (act_begin pk_clock (Pick ''a'' (Some Must)) (ex_fest (ex_own ''p1'' ''ann'' [] [])))))
            (Inl OtherValue) (ex_fest (ex_own ''p1'' ''ann'' [(''a'', Must), (''b'', Maybe)] [(''a'', ''n'')]))) = Some q'
     \<and> entry_at q' (0, ''a'') = None \<and> entry_at q' (0, ''b'') = Some (APick Maybe) \<and> entry_at q' (1, ''a'') = Some (ANote ''n'')"
proof -
  let ?s = "ex_fest (ex_own ''p1'' ''ann'' [] [])" and ?a = "Pick ''a'' (Some Must)"
  obtain w s1 where run: "act_begin pk_clock ?a ?s = (Some w, s1)"
    by (simp add: act_begin_def savePick_begin_def begin_write_def ex_fest_def Let_def)
  have "ft_profile ?s = Some (ex_own ''p1'' ''ann'' [] [])"
    "ft_profile (ex_fest (ex_own ''p1'' ''ann'' [(''a'', Must), (''b'', Maybe)] [(''a'', ''n'')])) = Some (ex_own ''p1'' ''ann'' [(''a'', Must), (''b'', Maybe)] [(''a'', ''n'')])"
    by (simp_all add: ex_fest_def)
  from failed_write_undoes_itself [OF run this, of "''Failed''" OtherValue] obtain q' where
    q': "ft_profile (write_end pk_clock ''Failed'' w (Inl OtherValue) (ex_fest (ex_own ''p1'' ''ann'' [(''a'', Must), (''b'', Maybe)] [(''a'', ''n'')]))) = Some q'"
    and e: "\<forall>i. entry_at q' i = (if i \<in> owned ?a (ex_own ''p1'' ''ann'' [] []) then entry_at (ex_own ''p1'' ''ann'' [] []) i
       else entry_at (ex_own ''p1'' ''ann'' [(''a'', Must), (''b'', Maybe)] [(''a'', ''n'')]) i)" by blast
  show ?thesis using q' by (simp add: run e [rule_format]) (simp add: owned_def entry_at_def ex_own_def)
qed

subsection \<open>Switching festivals\<close>

datatype fest_event =
    Chosen string
  | Loaded clock string string "string option" festival_detail "(thrown + profile list) option"
  | Refused clock thrown
  | Reloaded clock string "string option" nat "thrown + profile list"
  | Listed clock "thrown + festival_info list"
  | Patched string "(string \<times> priority) list option"
  | Written clock map_action
  | Denied clock string map_write thrown

definition fest_step :: "fest_event \<Rightarrow> fest_state \<Rightarrow> fest_state" where
  "fest_step a s =
     (case a of
        Chosen f \<Rightarrow> selectFestival_begin f s
      | Loaded ck today f u d ps \<Rightarrow> selectFestival_end ck today f u d ps s
      | Refused ck err \<Rightarrow> selectFestival_failed ck err s
      | Reloaded ck f u n r \<Rightarrow> loadProfiles_end ck f u n r s
      | Listed ck r \<Rightarrow> loadFestivals_end ck r s
      | Patched p m \<Rightarrow> snd (applyProfilePatch p m s)
      | Written ck a \<Rightarrow> snd (act_begin ck a s)
      | Denied ck fb w err \<Rightarrow> write_end ck fb w (Inl err) s)"

text \<open>The festival shown, as the last answer for \<open>f\<close> gave it.\<close>

definition shows_detail :: "fest_state \<Rightarrow> string \<Rightarrow> festival_detail \<Rightarrow> bool" where
  "shows_detail s f d \<longleftrightarrow> ft_currentId s = Some f \<and> ft_current s = Some (de_festival d) \<and> ft_sets s = flat_sets (de_days d)
     \<and> ft_stages s = de_stages d \<and> ft_days s = numbered_days (de_days d)"

definition same_festival :: "fest_state \<Rightarrow> fest_state \<Rightarrow> bool" where
  "same_festival s s' \<longleftrightarrow> ft_currentId s' = ft_currentId s \<and> ft_current s' = ft_current s \<and> ft_sets s' = ft_sets s
     \<and> ft_stages s' = ft_stages s \<and> ft_days s' = ft_days s \<and> ft_lastSelect s' = ft_lastSelect s"

lemma begin_write_same: "same_festival s (snd (begin_write ck fb u g s))"
  by (auto simp: begin_write_def same_festival_def write_failed_def rollbackKeys_def Let_def split: option.split prod.split)

lemma act_begin_same: "same_festival s (snd (act_begin ck a s))"
proof (cases a)
  case (Bulk xs prio)
  then show ?thesis
    by (auto simp: act_begin_def bulkSavePicks_begin_def same_festival_def write_failed_def rollbackKeys_def Let_def split: option.split prod.split)
qed (simp_all add: act_begin_def savePick_begin_def removePick_begin_def saveNote_begin_def saveReminder_begin_def Let_def begin_write_same)

lemma fest_step_same:
  assumes "\<And>f. a \<noteq> Chosen f" and "\<And>ck today u d ps. ft_lastSelect s = Some f \<Longrightarrow> a \<noteq> Loaded ck today f u d ps" and "ft_lastSelect s = Some f"
  shows "same_festival s (fest_step a s)"
proof (cases a)
  case (Loaded ck today g u d ps)
  then show ?thesis using assms(2,3) by (cases "g = f") (auto simp: fest_step_def selectFestival_end_def same_festival_def Let_def)
next
  case (Reloaded ck g u n r)
  then show ?thesis by (auto simp: fest_step_def loadProfiles_end_def load_failed_def same_festival_def Let_def split: sum.split)
next
  case (Patched p m)
  then show ?thesis by (auto simp: fest_step_def applyProfilePatch_def same_festival_def Let_def split: option.split)
next
  case (Denied ck fb w err)
  then show ?thesis by (simp add: fest_step_def write_end_def write_failed_def rollbackKeys_def same_festival_def)
next
  case (Written ck b)
  then show ?thesis using act_begin_same [of s ck b] by (simp add: fest_step_def)
qed (use assms(1) in \<open>auto simp: fest_step_def selectFestival_failed_def load_failed_def loadFestivals_end_def same_festival_def split: sum.split\<close>)

lemma run_after_choice:
  assumes "list_all (\<lambda>a. case a of Chosen g \<Rightarrow> False | _ \<Rightarrow> True) es" and "ft_lastSelect s = Some f"
  shows "ft_lastSelect (fold fest_step es s) = Some f
    \<and> (same_festival s (fold fest_step es s) \<and> \<not> (\<exists>ck today u d ps. Loaded ck today f u d ps \<in> set es)
       \<or> (\<exists>ck today u d ps. Loaded ck today f u d ps \<in> set es \<and> shows_detail (fold fest_step es s) f d))"
  using assms(1)
proof (induction es rule: rev_induct)
  case Nil
  then show ?case using assms(2) by (simp add: same_festival_def)
next
  case (snoc a es)
  let ?s = "fold fest_step es s"
  from snoc have ih: "ft_lastSelect ?s = Some f" "same_festival s ?s \<and> \<not> (\<exists>ck today u d ps. Loaded ck today f u d ps \<in> set es)
       \<or> (\<exists>ck today u d ps. Loaded ck today f u d ps \<in> set es \<and> shows_detail ?s f d)" by auto
  show ?case
  proof (cases "\<exists>ck today u d ps. a = Loaded ck today f u d ps")
    case True
    then obtain ck today u d ps where a: "a = Loaded ck today f u d ps" by blast
    have shown: "shows_detail (fold fest_step (es @ [a]) s) f d" and last: "ft_lastSelect (fold fest_step (es @ [a]) s) = Some f"
      using ih(1) by (simp_all add: a fest_step_def selectFestival_end_def shows_detail_def Let_def)
    have "Loaded ck today f u d ps \<in> set (es @ [a])" by (simp add: a)
    with shown last show ?thesis by blast
  next
    case False
    have "same_festival ?s (fest_step a ?s)" using snoc.prems False ih(1) by (intro fest_step_same) (auto split: fest_event.splits)
    then have kept: "ft_lastSelect (fold fest_step (es @ [a]) s) = Some f"
      "same_festival s ?s \<Longrightarrow> same_festival s (fold fest_step (es @ [a]) s)"
      "\<And>d. shows_detail ?s f d \<Longrightarrow> shows_detail (fold fest_step (es @ [a]) s) f d"
      using ih(1) by (simp_all add: same_festival_def shows_detail_def)
    have "Loaded ck today f u d ps \<in> set (es @ [a]) \<longleftrightarrow> Loaded ck today f u d ps \<in> set es" for ck today u d ps
      using False by auto
    then show ?thesis using ih(2) kept by blast
  qed
qed

text \<open>C30. The festival chosen last is the one shown: when its answer has come in, whatever answers to earlier
  choices, failures, profile events, reloads and edits came before or after it, in whatever order, the
  festival, its days, stages and sets are those of an answer for it, and its id is the current one.\<close>

theorem last_choice_is_shown:
  assumes "list_all (\<lambda>a. case a of Chosen g \<Rightarrow> False | _ \<Rightarrow> True) es"
    and "Loaded ck today f u d ps \<in> set es"
  shows "\<exists>ck today u d ps. Loaded ck today f u d ps \<in> set es
    \<and> shows_detail (fold fest_step (before @ Chosen f # es) fest_initial) f d"
proof -
  let ?s = "selectFestival_begin f (fold fest_step before fest_initial)"
  have "fold fest_step (before @ Chosen f # es) fest_initial = fold fest_step es ?s" by (simp add: fest_step_def)
  moreover have "ft_lastSelect ?s = Some f" by (simp add: selectFestival_begin_def)
  ultimately show ?thesis using run_after_choice [OF assms(1), of ?s f] assms(2) by auto
qed

definition ex_detail :: "string \<Rightarrow> festival_detail" where
  "ex_detail i = \<lparr>de_festival = \<lparr>fv_id = i, fv_name = i, fv_description = None, fv_image = None, fv_startDate = [], fv_endDate = [],
      fv_location = None, fv_b2bSeparator = None, fv_timeZone = None, fv_mapConfig = None, fv_createdAt = [], fv_updatedAt = []\<rparr>,
     de_stages = [], de_days = []\<rparr>"

lemma last_choice_is_shown_witness:
  "shows_detail (fold fest_step [Chosen ''f1'', Chosen ''f2'', Loaded pk_clock ''d'' ''f2'' None (ex_detail ''f2'') None,
      Loaded pk_clock ''d'' ''f1'' None (ex_detail ''f1'') None] fest_initial) ''f2'' (ex_detail ''f2'')"
  using last_choice_is_shown [of "[Loaded pk_clock ''d'' ''f2'' None (ex_detail ''f2'') None, Loaded pk_clock ''d'' ''f1'' None (ex_detail ''f1'') None]"
      pk_clock "''d''" "''f2''" None "ex_detail ''f2''" None "[Chosen ''f1'']"]
  by auto

text \<open>The profiles have no such guard: the answer to a reload of another festival's profiles becomes the
  current profile, and a pick for the festival on screen goes to the other festival's profile.\<close>

lemma late_profiles_cross_festivals:
  "let s = fold fest_step [Chosen ''f2'', Loaded pk_clock ''d'' ''f2'' (Some ''ann'') (ex_detail ''f2'') (Some (Inr [ex_own ''p2'' ''ann'' [] []])),
        Reloaded pk_clock ''f1'' (Some ''ann'') 0 (Inr [ex_own ''p1'' ''ann'' [] []])] fest_initial
   in ft_currentId s = Some ''f2'' \<and> ft_cachedId s = Some ''f1'' \<and> map_option pr_id (ft_profile s) = Some ''p1''
      \<and> map_option mw_profileId (fst (savePick_begin pk_clock ''set-of-f2'' (Some Must) s)) = Some ''p1''"
  by code_simp

text \<open>Nor does the failure of a choice that was given up: its error covers the festival that loads.\<close>

lemma late_failure_is_shown:
  "let s = fold fest_step [Chosen ''f1'', Chosen ''f2'', Refused pk_clock OtherValue] fest_initial
   in ft_currentId s = Some ''f2'' \<and> \<not> ft_loading s \<and> ft_error s = Some ''Failed to load festival''"
  by code_simp

text \<open>The event of one's own pick replaces the current profile by the copy that was loaded with everybody's:
  a note saved since is gone from the screen, and the next note saved sends a map without it.\<close>

lemma own_event_drops_notes:
  "let s = fold fest_step [Written pk_clock (Note ''a'' ''bring water''), Patched ''p1'' (Some [(''a'', Must)])] (ex_fest (ex_own ''p1'' ''ann'' [] []))
   in getMyNote ''a'' s = None
      \<and> map_option mw_body (fst (saveNote_begin pk_clock ''b'' ''meet here'' s)) = Some (NotesBody [(''b'', ''meet here'')])"
  by code_simp

subsection \<open>A cold start\<close>

lemma others_cong:
  assumes "ft_profile s = ft_profile t"
    and "map (\<lambda>p. (pr_id p, pr_picks p, pr_name p)) (ft_profiles s) = map (\<lambda>p. (pr_id p, pr_picks p, pr_name p)) (ft_profiles t)"
  shows "getOtherPicks x s = getOtherPicks x t"
proof -
  have as_columns: "List.map_filter (\<lambda>p. if pr_id p = i then None else map_option (\<lambda>prio. (pr_id p, prio, pr_name p)) (map_of (pr_picks p) x)) ps
      = List.map_filter (\<lambda>(a, m, n). if a = i then None else map_option (\<lambda>prio. (a, prio, n)) (map_of m x))
          (map (\<lambda>p. (pr_id p, pr_picks p, pr_name p)) ps)" for i ps
    by (induction ps) (simp_all add: List.map_filter_def)
  have "pr_id me = [] \<or> getOtherPicks x s = getOtherPicks x t" if "ft_profile t = Some me" for me
    using that assms(1) by (simp add: getOtherPicks_def as_columns assms(2) del: list.map_comp)
  then show ?thesis using assms(1) by (cases "ft_profile t") (auto simp: getOtherPicks_def)
qed

text \<open>A cold start without signal shows what was there: the festival, its schedule, one's own picks, notes and
  reminders come back as they were, the others' picks come back for the first sixty profiles, and nobody
  else's notes are stored; and when the user has already chosen another festival by the time the
  cache is read, the choice stands.\<close>

theorem cold_start_restores:
  "(let s' = ft_merge (Some (ft_partialize s)) fest_initial
    in ft_currentId s' = ft_currentId s \<and> ft_current s' = ft_current s \<and> ft_sets s' = ft_sets s \<and> ft_days s' = ft_days s
       \<and> ft_stages s' = ft_stages s \<and> ft_profile s' = ft_profile s
       \<and> getMyPick x s' = getMyPick x s \<and> getMyNote x s' = getMyNote x s \<and> getMyReminder x s' = getMyReminder x s
       \<and> getOtherPicks x s' = getOtherPicks x (s\<lparr>ft_profiles := take 60 (ft_profiles s)\<rparr>)
       \<and> concat (map pr_notes (ft_profiles s')) = [])
   \<and> (let s' = ft_merge (Some (ft_partialize s)) (selectFestival_begin f live); stands = f \<noteq> [] \<and> ft_currentId s \<noteq> Some f
      in ft_currentId s' = (if f = [] then ft_currentId s else Some f) \<and> ft_sets s' = ft_sets (if stands then live else s)
         \<and> ft_profile s' = ft_profile (if stands then live else s) \<and> ft_lastSelect s' = Some f)"
  (is "?restored \<and> ?chosen")
proof
  let ?s' = "ft_merge (Some (ft_partialize s)) fest_initial"
  have same: "ft_profile ?s' = ft_profile s" "ft_profiles ?s' = map (slimProfileForCache (ft_cachedId s)) (take 60 (ft_profiles s))"
    by (simp_all add: ft_merge_def ft_partialize_def fest_initial_def MAX_CACHED_PROFILES_def)
  have others: "getOtherPicks x ?s' = getOtherPicks x (s\<lparr>ft_profiles := take 60 (ft_profiles s)\<rparr>)"
    by (rule others_cong) (simp_all add: same slimProfileForCache_def)
  have "concat (map pr_notes (ft_profiles ?s')) = []" by (simp add: same(2) slimProfileForCache_def)
  with others same(1) show ?restored
    by (simp add: getMyPick_def prev_pick_def getMyNote_def getMyReminder_def Let_def) (simp add: ft_merge_def ft_partialize_def fest_initial_def)
  show ?chosen by (auto simp: Let_def ft_merge_def ft_partialize_def selectFestival_begin_def)
qed

end
