(* ===== verification/Wall_Clock.thy ===== *)
theory Wall_Clock
  imports Domain Sanitize
begin

text \<open>
  Wall-clock time: \<open>Date.UTC\<close>, the day keys and the two copies of \<open>zonedWallTimeToMs\<close>
  (\<open>packages/shared/src/utils/setStatus.ts\<close>, \<open>lib/time-zone.ts\<close>) and \<open>createDateInLocalFrame\<close>,
  with the theorem that a resolved time reads back.

  The zone database is the platform's: a zone is the offset it gives at an instant (what
  \<open>zoneOffsetMsAt\<close> computes from the formatted parts), \<open>None\<close> for an id it does not know.  Instants
  are milliseconds since the epoch; \<open>None\<close> stands for \<open>NaN\<close>.
\<close>

subsection \<open>Numbers in text\<close>

definition is_decimal :: "char \<Rightarrow> bool" where
  "is_decimal c \<longleftrightarrow> 48 \<le> (of_char c :: nat) \<and> (of_char c :: nat) \<le> 57"

definition decimal_value :: "string \<Rightarrow> int" where
  "decimal_value s = foldl (\<lambda>n c. 10 * n + (int (of_char c) - 48)) 0 s"

definition parseInt :: "string \<Rightarrow> int option" where
  "parseInt s =
     (let t = dropWhile is_space s;
          (neg, u) = (case t of c # r \<Rightarrow> if c = CHR ''-'' then (True, r) else if c = CHR ''+'' then (False, r) else (False, t) | [] \<Rightarrow> (False, []));
          ds = takeWhile is_decimal u
      in if ds = [] then None else Some (if neg then - decimal_value ds else decimal_value ds))"

definition pad2 :: "int \<Rightarrow> string" where
  "pad2 n = (let s = show_int n in if length s < 2 then CHR ''0'' # s else s)"

lemma digit_char [simp]: "n < 10 \<Longrightarrow> (of_char (char_of (48 + n :: nat) :: char) :: nat) = 48 + n"
  by simp

lemma decimal_value_snoc [simp]: "decimal_value (s @ [c]) = 10 * decimal_value s + (int (of_char c) - 48)"
  by (simp add: decimal_value_def)

lemma show_nat_decimal: "list_all is_decimal (show_nat n) \<and> show_nat n \<noteq> [] \<and> decimal_value (show_nat n) = int n"
proof (induction n rule: show_nat.induct)
  case (1 n)
  show ?case
  proof (cases "n < 10")
    case True
    then show ?thesis by (simp add: show_nat.simps [of n] is_decimal_def decimal_value_def)
  next
    case False
    have "int n = 10 * int (n div 10) + int (n mod 10)" by presburger
    moreover have "n mod 10 < 10" by simp
    ultimately show ?thesis using 1 [OF False] False
      by (simp add: show_nat.simps [of n] is_decimal_def)
  qed
qed

lemma decimal_not_space: "is_decimal c \<Longrightarrow> \<not> is_space c \<and> c \<noteq> CHR ''-'' \<and> c \<noteq> CHR ''+''"
  by (auto simp: is_decimal_def is_space_def Let_def)

lemma takeWhile_all: "list_all p s \<Longrightarrow> takeWhile p s = s"
  by (induction s) auto

lemma parseInt_decimal:
  assumes "list_all is_decimal s" and "s \<noteq> []"
  shows "parseInt s = Some (decimal_value s)"
proof -
  obtain c r where s: "s = c # r" using assms(2) by (cases s) auto
  with assms(1) have "is_decimal c" by simp
  then have "dropWhile is_space s = s" "c \<noteq> CHR ''-''" "c \<noteq> CHR ''+''" using decimal_not_space by (auto simp: s)
  moreover have "takeWhile is_decimal (c # r) = c # r" using takeWhile_all [OF assms(1)] by (simp only: s)
  ultimately show ?thesis unfolding parseInt_def s Let_def by simp
qed

lemma parseInt_show: "0 \<le> n \<Longrightarrow> parseInt (show_int n) = Some n"
  using show_nat_decimal [of "nat n"] by (simp add: show_int_def parseInt_decimal)

lemma parseInt_pad2: "0 \<le> n \<Longrightarrow> parseInt (pad2 n) = Some n"
proof (cases "length (show_int n) < 2")
  case True
  moreover assume "0 \<le> n"
  ultimately show ?thesis using show_nat_decimal [of "nat n"]
    by (auto simp: pad2_def show_int_def Let_def is_decimal_def decimal_value_def intro!: parseInt_decimal [THEN trans])
next
  case False
  moreover assume "0 \<le> n"
  ultimately show ?thesis by (simp add: pad2_def parseInt_show Let_def)
qed

subsection \<open>The calendar\<close>

definition ms_per_day :: int where
  "ms_per_day = 86400000"

definition leap_year :: "int \<Rightarrow> bool" where
  "leap_year y \<longleftrightarrow> y mod 4 = 0 \<and> (y mod 100 \<noteq> 0 \<or> y mod 400 = 0)"

definition year_start :: "int \<Rightarrow> int" where
  "year_start y = 365 * (y - 1970) + (y - 1969) div 4 - (y - 1901) div 100 + (y - 1601) div 400"

definition month_start :: "int \<Rightarrow> nat \<Rightarrow> int" where
  "month_start y m = [0, 31, 59, 90, 120, 151, 181, 212, 243, 273, 304, 334] ! m + (if 2 \<le> m \<and> leap_year y then 1 else 0)"

text \<open>\<open>MakeDay\<close>: the month counts from 0 and carries into the year, the day of the month carries too.\<close>

definition day_number :: "int \<Rightarrow> int \<Rightarrow> int \<Rightarrow> int" where
  "day_number y m d = (let y' = y + m div 12 in year_start y' + month_start y' (nat (m mod 12)) + d - 1)"

definition year_of_day :: "int \<Rightarrow> int" where
  "year_of_day n = (let g = 1970 + (400 * n) div 146097
     in if n < year_start g then g - 1 else if year_start (g + 1) \<le> n then g + 1 else g)"

definition civil_of_day :: "int \<Rightarrow> int \<times> int \<times> int" where
  "civil_of_day n =
     (let y = year_of_day n; r = n - year_start y; m = length (filter (\<lambda>m. month_start y m \<le> r) [0..<12]) - 1
      in (y, int m, r - month_start y m + 1))"

lemma div_bounds:
  fixes x k :: int
  assumes "0 < k"
  shows "k * (x div k) \<le> x" and "x - k < k * (x div k)"
  using assms pos_mod_sign [of k x] pos_mod_bound [of k x] by (simp_all add: minus_mod_eq_mult_div [symmetric])

lemma year_start_bounds: "146097 * (y - 1970) - 506 \<le> 400 * year_start y" "400 * year_start y \<le> 146097 * (y - 1970) + 589"
proof -
  define a b c where "a = (y - 1969) div 4" and "b = (y - 1901) div 100" and "c = (y - 1601) div 400"
  then have "4 * a \<le> y - 1969" "y - 1969 < 4 * a + 4" "100 * b \<le> y - 1901" "y - 1901 < 100 * b + 100"
    "400 * c \<le> y - 1601" "y - 1601 < 400 * c + 400"
    using div_bounds [of 4 "y - 1969"] div_bounds [of 100 "y - 1901"] div_bounds [of 400 "y - 1601"] by simp_all
  moreover have "year_start y = 365 * (y - 1970) + a - b + c" by (simp add: year_start_def a_def b_def c_def)
  ultimately show "146097 * (y - 1970) - 506 \<le> 400 * year_start y" "400 * year_start y \<le> 146097 * (y - 1970) + 589"
    by simp_all
qed

lemma div_step:
  fixes x k :: int
  assumes "0 < k"
  shows "(x + 1) div k = x div k + (if (x + 1) mod k = 0 then 1 else 0)"
proof -
  define q r where "q = x div k" and "r = x mod k"
  then have x: "x = k * q + r" "0 \<le> r" "r < k" using assms by simp_all
  show ?thesis
  proof (cases "r = k - 1")
    case True
    then have "x + 1 = k * (q + 1)" by (simp add: x(1) algebra_simps)
    then show ?thesis using assms by (simp add: q_def)
  next
    case False
    have "(x + 1) div k = q" and "(x + 1) mod k = r + 1"
      using x False assms by (simp_all add: int_div_pos_eq [of _ _ _ "r + 1"] int_mod_pos_eq [of _ _ q])
    then show ?thesis using x(2) by (simp add: q_def)
  qed
qed

lemma div_step_shifted:
  fixes x y k c :: int
  assumes "0 < k" and "x + 1 = y + c * k"
  shows "(x + 1) div k = x div k + (if y mod k = 0 then 1 else 0)"
proof -
  have "(x + 1) mod k = y mod k" unfolding assms(2) by simp
  then show ?thesis using div_step [OF assms(1), of x] by metis
qed

lemma year_length: "year_start (y + 1) = year_start y + 365 + (if leap_year y then 1 else 0)"
proof -
  have "y + 1 - 1969 = y - 1969 + 1" "y + 1 - 1901 = y - 1901 + 1" "y + 1 - 1601 = y - 1601 + 1" by simp_all
  then have next_year: "year_start (y + 1) = 365 * (y + 1 - 1970) + (y - 1969 + 1) div 4 - (y - 1901 + 1) div 100 + (y - 1601 + 1) div 400"
    by (simp only: year_start_def)
  have steps: "(y - 1969 + 1) div 4 = (y - 1969) div 4 + (if y mod 4 = 0 then 1 else 0)"
    "(y - 1901 + 1) div 100 = (y - 1901) div 100 + (if y mod 100 = 0 then 1 else 0)"
    "(y - 1601 + 1) div 400 = (y - 1601) div 400 + (if y mod 400 = 0 then 1 else 0)"
    by (rule div_step_shifted [of _ _ _ "- 492"], simp, simp, rule div_step_shifted [of _ _ _ "- 19"], simp, simp,
        rule div_step_shifted [of _ _ _ "- 4"], simp, simp)
  define a b c where "a = (y - 1969) div 4" and "b = (y - 1901) div 100" and "c = (y - 1601) div 400"
  have "y mod 400 = 0 \<Longrightarrow> y mod 100 = 0" "y mod 100 = 0 \<Longrightarrow> y mod 4 = 0"
    using dvd_trans [of 100 400 y] dvd_trans [of 4 100 y] by (simp_all add: dvd_eq_mod_eq_0)
  moreover define p q r where "p = (y mod 4 = 0)" and "q = (y mod 100 = 0)" and "r = (y mod 400 = 0)"
  ultimately have "r \<Longrightarrow> q" "q \<Longrightarrow> p" by simp_all
  then show ?thesis
    unfolding next_year steps
    unfolding year_start_def leap_year_def a_def [symmetric] b_def [symmetric] c_def [symmetric]
      p_def [symmetric] q_def [symmetric] r_def [symmetric]
    by (cases p; cases q; cases r) simp_all
qed

lemma year_of_day: "year_start (year_of_day n) \<le> n" "n < year_start (year_of_day n + 1)"
proof -
  define q where "q = (400 * n) div 146097"
  have q: "146097 * q \<le> 400 * n" "400 * n < 146097 * q + 146097"
    using div_bounds [of 146097 "400 * n"] by (simp_all add: q_def)
  have lo: "year_start (1970 + q - 1) \<le> n" using year_start_bounds(2) [of "1970 + q - 1"] q by simp
  have hi: "n < year_start (1970 + q + 1 + 1)" using year_start_bounds(1) [of "1970 + q + 1 + 1"] q by simp
  have def: "year_of_day n = (if n < year_start (1970 + q) then 1970 + q - 1 else if year_start (1970 + q + 1) \<le> n then 1970 + q + 1 else 1970 + q)"
    by (simp add: year_of_day_def q_def Let_def)
  show "year_start (year_of_day n) \<le> n" "n < year_start (year_of_day n + 1)"
    using lo hi by (auto simp: def)
qed

lemma civil_of_day:
  assumes "civil_of_day n = (y, m, d)"
  shows "day_number y m d = n" and "0 \<le> m" and "m < 12" and "1 \<le> d" and "d \<le> 31"
proof -
  define r where "r = n - year_start y"
  define k where "k = length (filter (\<lambda>m. month_start y m \<le> r) [0..<12]) - 1"
  have y: "y = year_of_day n" and m: "m = int k" and d: "d = r - month_start y k + 1"
    using assms by (auto simp: civil_of_day_def Let_def r_def k_def)
  have r: "0 \<le> r" "r < 365 + (if leap_year y then 1 else 0)"
    using year_of_day [of n] year_length [of y] by (simp_all add: r_def y)
  have up: "[0..<12] = [0, 1, 2, 3, 4, 5, 6, 7, 8, 9, 10, 11 :: nat]" by code_simp
  have k: "k < 12 \<and> month_start y k \<le> r \<and> r - month_start y k < 31"
    using r unfolding k_def up by (cases "leap_year y") (auto simp: month_start_def)
  then show "day_number y m d = n" by (simp add: day_number_def m d r_def Let_def)
  show "0 \<le> m" "m < 12" "1 \<le> d" "d \<le> 31" using k m d by auto
qed

definition full_year :: "int \<Rightarrow> int" where
  "full_year y = (if 0 \<le> y \<and> y \<le> 99 then 1900 + y else y)"

text \<open>\<open>Date.UTC(y, m - 1, d, h, mi, 0)\<close>: two-digit years are of the twentieth century.\<close>

definition date_utc :: "int \<Rightarrow> int \<Rightarrow> int \<Rightarrow> int \<Rightarrow> int \<Rightarrow> int" where
  "date_utc y mo d h mi = day_number (full_year y) (mo - 1) d * ms_per_day + h * 3600000 + mi * 60000"

text \<open>The numbers of \<open>dateStr.slice(0, 10).split('-')\<close>; a missing one is as good as \<open>NaN\<close>.\<close>

definition day_fields :: "string \<Rightarrow> (int \<times> int \<times> int) option" where
  "day_fields s =
     (case map parseInt (split_char CHR ''-'' (take 10 s)) of
        Some y # Some mo # Some d # rest \<Rightarrow> Some (y, mo, d)
      | _ \<Rightarrow> None)"

definition addDaysToDateKey :: "string \<Rightarrow> int \<Rightarrow> string option" where
  "addDaysToDateKey key n =
     (case map parseInt (split_char CHR ''-'' key) of
        Some y # Some mo # Some d # rest \<Rightarrow>
          (case civil_of_day (day_number (full_year y) (mo - 1) d + n) of (y', m', d') \<Rightarrow>
             Some (show_int y' @ ''-'' @ pad2 (m' + 1) @ ''-'' @ pad2 d'))
      | _ \<Rightarrow> None)"

subsection \<open>Festival zones\<close>

type_synonym zone = "int \<Rightarrow> int"
type_synonym zone_db = "string \<Rightarrow> zone option"

datatype js_error = RangeError

definition resolve_wall :: "zone \<Rightarrow> int \<Rightarrow> int" where
  "resolve_wall off naive =
     (let offset1 = off naive; ms = naive - offset1; offset2 = off ms
      in if offset2 \<noteq> offset1 then naive - offset2 else ms)"

text \<open>The clients' copy throws on an unknown zone or an invalid time of day.\<close>

definition zonedWallTimeToMs :: "zone_db \<Rightarrow> string \<Rightarrow> int option \<Rightarrow> int option \<Rightarrow> string \<Rightarrow> js_error + int option" where
  "zonedWallTimeToMs tz dateStr hours minutes timeZone =
     (case day_fields dateStr of
        None \<Rightarrow> Inr None
      | Some (y, mo, d) \<Rightarrow>
          (case (tz timeZone, hours, minutes) of
             (Some off, Some h, Some mi) \<Rightarrow> Inr (Some (resolve_wall off (date_utc y mo d h mi)))
           | _ \<Rightarrow> Inl RangeError))"

text \<open>The server's copy (\<open>lib/time-zone.ts\<close>) gives \<open>NaN\<close> for all of these.\<close>

definition server_zonedWallTimeToMs ::
  "zone_db \<Rightarrow> int option \<Rightarrow> int option \<Rightarrow> int option \<Rightarrow> int option \<Rightarrow> int option \<Rightarrow> string \<Rightarrow> int option" where
  "server_zonedWallTimeToMs tz year month day hours minutes timeZone =
     (case (year, month, day, hours, minutes) of
        (Some y, Some mo, Some d, Some h, Some mi) \<Rightarrow>
          (case tz timeZone of
             Some off \<Rightarrow>
               let naiveUtc = date_utc y mo d h mi; offset1 = off naiveUtc; ms = naiveUtc - offset1; offset2 = off ms
               in Some (if offset2 \<noteq> offset1 then naiveUtc - offset2 else ms)
           | None \<Rightarrow> None)
      | _ \<Rightarrow> None)"

text \<open>What the theorem asks of a zone around a time: offsets of at most fourteen hours, and at most one
  change within twenty-eight hours.\<close>

definition one_change :: "zone \<Rightarrow> int \<Rightarrow> int \<Rightarrow> int \<Rightarrow> bool" where
  "one_change off n a b \<longleftrightarrow> (\<forall>t. \<bar>off t\<bar> \<le> 50400000) \<and> (\<exists>T. \<forall>t. \<bar>t - n\<bar> \<le> 100800000 \<longrightarrow> off t = (if t < T then a else b))"

lemma resolve_wall_cases:
  assumes "one_change off n a b"
  shows "\<bar>resolve_wall off n + off (resolve_wall off n) - n\<bar> \<le> \<bar>a - b\<bar>"
    and "t + off t = n \<Longrightarrow> resolve_wall off n + off (resolve_wall off n) = n"
proof -
  obtain T where small: "\<And>t. \<bar>off t\<bar> \<le> 50400000" and off: "\<And>t. \<bar>t - n\<bar> \<le> 100800000 \<Longrightarrow> off t = (if t < T then a else b)"
    using assms by (auto simp: one_change_def)
  have n: "off n = (if n < T then a else b)" by (rule off) simp
  define m where "m = n - off n"
  have m: "off m = (if m < T then a else b)" by (rule off) (use small [of n] in \<open>simp add: m_def\<close>)
  define k where "k = n - off m"
  have k: "off k = (if k < T then a else b)" by (rule off) (use small [of m] in \<open>simp add: k_def\<close>)
  have r: "resolve_wall off n = (if off m \<noteq> off n then k else m)"
    by (simp add: resolve_wall_def m_def k_def Let_def)
  show "\<bar>resolve_wall off n + off (resolve_wall off n) - n\<bar> \<le> \<bar>a - b\<bar>"
    using n m k unfolding r m_def [symmetric] by (auto simp: m_def k_def split: if_splits)
  show "resolve_wall off n + off (resolve_wall off n) = n" if t: "t + off t = n"
  proof -
    have "off t = (if t < T then a else b)" by (rule off) (use small [of t] t in simp)
    then show ?thesis using t n m k unfolding r by (auto simp: m_def k_def split: if_splits)
  qed
qed

text \<open>A day key as the stores hold it.\<close>

definition day_key :: "int \<Rightarrow> int \<Rightarrow> int \<Rightarrow> string" where
  "day_key y mo d = show_int y @ ''-'' @ pad2 mo @ ''-'' @ pad2 d"

lemma split_char_parts: "c \<notin> set w \<Longrightarrow> split_char c (w @ c # r) = w # split_char c r"
  by (induction w) auto

lemma split_char_single: "c \<notin> set w \<Longrightarrow> split_char c w = [w]"
  by (induction w) auto

lemma no_dash: "0 \<le> n \<Longrightarrow> CHR ''-'' \<notin> set (show_int n)" "0 \<le> n \<Longrightarrow> CHR ''-'' \<notin> set (pad2 n)"
proof -
  assume "0 \<le> n"
  then have "list_all is_decimal (show_int n)" using show_nat_decimal [of "nat n"] by (simp add: show_int_def)
  then show "CHR ''-'' \<notin> set (show_int n)" by (auto simp: list_all_iff is_decimal_def)
  then show "CHR ''-'' \<notin> set (pad2 n)" by (auto simp: pad2_def Let_def)
qed

lemma length_show_nat: "length (show_nat n) = (if n < 10 then 1 else 1 + length (show_nat (n div 10)))"
  by (simp add: show_nat.simps [of n])

lemma length_pad2: "0 \<le> n \<Longrightarrow> n < 100 \<Longrightarrow> length (pad2 n) = 2"
  by (simp add: pad2_def show_int_def Let_def length_show_nat [of "nat n"] length_show_nat [of "nat n div 10"])

lemma length_year: "1000 \<le> y \<Longrightarrow> y \<le> 9999 \<Longrightarrow> length (show_int y) = 4"
proof -
  assume y: "1000 \<le> y" "y \<le> 9999"
  have "nat y div 10 div 10 div 10 = nat y div 1000" by (simp add: div_mult2_eq [symmetric])
  moreover have "nat y div 10 div 10 = nat y div 100" by (simp add: div_mult2_eq [symmetric])
  moreover have "\<not> nat y < 10" "\<not> nat y div 10 < 10" "\<not> nat y div 100 < 10" "nat y div 1000 < 10" using y by auto
  ultimately show ?thesis using y
    by (simp add: show_int_def length_show_nat [of "nat y"] length_show_nat [of "nat y div 10"]
        length_show_nat [of "nat y div 100"] length_show_nat [of "nat y div 1000"])
qed

lemma day_key_numbers:
  assumes "1000 \<le> y" "y \<le> 9999" "1 \<le> mo" "mo \<le> 12" "1 \<le> d" "d \<le> 31"
  shows "map parseInt (split_char CHR ''-'' (day_key y mo d)) = [Some y, Some mo, Some d]" and "take 10 (day_key y mo d) = day_key y mo d"
proof -
  show "map parseInt (split_char CHR ''-'' (day_key y mo d)) = [Some y, Some mo, Some d]"
    using assms by (simp add: day_key_def split_char_parts split_char_single no_dash parseInt_show parseInt_pad2)
  show "take 10 (day_key y mo d) = day_key y mo d"
    using assms by (simp add: day_key_def length_year length_pad2)
qed

lemma day_fields_key:
  assumes "1000 \<le> y" "y \<le> 9999" "1 \<le> mo" "mo \<le> 12" "1 \<le> d" "d \<le> 31"
  shows "day_fields (day_key y mo d) = Some (y, mo, d)"
  using day_key_numbers [OF assms] by (simp add: day_fields_def)

lemma year_start_mono: "a \<le> b \<Longrightarrow> year_start a \<le> year_start b"
proof (induction b rule: int_ge_induct)
  case (step i)
  then show ?case using year_length [of i] by (simp split: if_splits)
qed simp

lemma month_start_bounds: "m < 12 \<Longrightarrow> 0 \<le> month_start y m \<and> month_start y m \<le> 335"
proof -
  assume "m < 12"
  then have "[0, 31, 59, 90, 120, 151, 181, 212, 243, 273, 304, 334 :: int] ! m \<in> set [0, 31, 59, 90, 120, 151, 181, 212, 243, 273, 304, 334]"
    by (intro nth_mem) simp
  then have "0 \<le> [0, 31, 59, 90, 120, 151, 181, 212, 243, 273, 304, 334 :: int] ! m"
    "[0, 31, 59, 90, 120, 151, 181, 212, 243, 273, 304, 334 :: int] ! m \<le> 334"
    by auto
  moreover define k :: int where "k = [0, 31, 59, 90, 120, 151, 181, 212, 243, 273, 304, 334] ! m"
  ultimately show ?thesis unfolding month_start_def k_def [symmetric] by simp
qed

lemma next_day_year:
  assumes "0 \<le> m" "m < 12" "1 \<le> d" "d \<le> 31" and "civil_of_day (day_number y m d + 1) = (y', m', d')"
  shows "y \<le> y'" and "y' \<le> y + 1"
proof -
  define n where "n = day_number y m d + 1"
  have "day_number y m d = year_start y + month_start y (nat m) + d - 1" using assms(1,2) by (simp add: day_number_def Let_def)
  then have n: "year_start y \<le> n" "n < year_start y + 730"
    using month_start_bounds [of "nat m" y] nat_less_iff [of m 12] assms(1-4) by (simp_all add: n_def)
  have y': "y' = year_of_day n" using assms(5) by (simp add: civil_of_day_def n_def Let_def)
  show "y \<le> y'"
  proof (rule ccontr)
    assume "\<not> y \<le> y'"
    then have "year_start (y' + 1) \<le> year_start y" by (intro year_start_mono) simp
    then show False using year_of_day(2) [of n] n(1) by (simp add: y')
  qed
  show "y' \<le> y + 1"
  proof (rule ccontr)
    assume "\<not> y' \<le> y + 1"
    then have "year_start (y + 1 + 1) \<le> year_start y'" by (intro year_start_mono) simp
    then show False using year_of_day(1) [of n] n(2) year_length [of y] year_length [of "y + 1"] by (simp add: y' split: if_splits)
  qed
qed

text \<open>The day after a day is the next one of the calendar, whatever months and leap years lie between.\<close>

lemma addDays_key:
  assumes "1000 \<le> y" "y \<le> 9999" "1 \<le> mo" "mo \<le> 12" "1 \<le> d" "d \<le> 31"
    and "civil_of_day (day_number y (mo - 1) d + n) = (y', m', d')" and "1000 \<le> y'" "y' \<le> 9999"
  shows "addDaysToDateKey (day_key y mo d) n = Some (day_key y' (m' + 1) d')"
    and "day_fields (day_key y' (m' + 1) d') = Some (y', m' + 1, d')"
    and "date_utc y' (m' + 1) d' h mi = date_utc y mo d h mi + n * ms_per_day"
proof -
  note c = civil_of_day [OF assms(7)]
  show "addDaysToDateKey (day_key y mo d) n = Some (day_key y' (m' + 1) d')"
    using assms day_key_numbers [OF assms(1-6)] by (simp add: addDaysToDateKey_def day_key_def full_year_def)
  show "day_fields (day_key y' (m' + 1) d') = Some (y', m' + 1, d')"
    using c assms(8,9) by (intro day_fields_key) auto
  show "date_utc y' (m' + 1) d' h mi = date_utc y mo d h mi + n * ms_per_day"
    using c(1) assms(1,8) by (simp add: date_utc_def full_year_def algebra_simps)
qed

text \<open>C31. A festival's wall-clock time is the instant at which the festival's clocks show it, across changes
  of the clocks: when some instant shows the time, the one both copies of the routine resolve it to
  shows it, and both copies agree.  A time the clocks skip is missed by the size of the change at most.\<close>

theorem zoned_time_reads_back:
  assumes "1000 \<le> y" "y \<le> 9999" "1 \<le> mo" "mo \<le> 12" "1 \<le> d" "d \<le> 31"
    and "tz name = Some off" and "one_change off (date_utc y mo d h mi) a b"
  shows "\<exists>ms. zonedWallTimeToMs tz (day_key y mo d) (Some h) (Some mi) name = Inr (Some ms)
    \<and> server_zonedWallTimeToMs tz (Some y) (Some mo) (Some d) (Some h) (Some mi) name = Some ms
    \<and> \<bar>ms + off ms - date_utc y mo d h mi\<bar> \<le> \<bar>a - b\<bar>
    \<and> ((\<exists>t. t + off t = date_utc y mo d h mi) \<longrightarrow> ms + off ms = date_utc y mo d h mi)"
  using resolve_wall_cases [OF assms(8)] day_fields_key [OF assms(1-6)] assms(7)
  by (auto simp: zonedWallTimeToMs_def server_zonedWallTimeToMs_def resolve_wall_def Let_def)

text \<open>New York in the night the clocks go back, 1 November 2026: four hours behind until six o'clock UTC, then five.\<close>

definition new_york :: zone where
  "new_york t = (if t < 1793512800000 then - 14400000 else - 18000000)"

lemma zoned_time_reads_back_witness:
  "zonedWallTimeToMs [''America/New_York'' \<mapsto> new_york] (day_key 2026 11 1) (Some 23) (Some 30) ''America/New_York'' = Inr (Some 1793593800000)
    \<and> 1793593800000 + new_york 1793593800000 = date_utc 2026 11 1 23 30"
proof -
  have "(\<forall>t. \<bar>new_york t\<bar> \<le> 50400000)" by (simp add: new_york_def)
  moreover have "\<exists>T. \<forall>t. \<bar>t - date_utc 2026 11 1 23 30\<bar> \<le> 100800000 \<longrightarrow> new_york t = (if t < T then - 14400000 else - 18000000)"
    by (intro exI [of _ 1793512800000]) (simp add: new_york_def)
  ultimately have one: "one_change new_york (date_utc 2026 11 1 23 30) (- 14400000) (- 18000000)" by (simp add: one_change_def)
  have resolved: "zonedWallTimeToMs [''America/New_York'' \<mapsto> new_york] (day_key 2026 11 1) (Some 23) (Some 30) ''America/New_York'' = Inr (Some 1793593800000)"
    by code_simp
  from zoned_time_reads_back [of 2026 11 1 "[''America/New_York'' \<mapsto> new_york]" "''America/New_York''" new_york 23 30, OF _ _ _ _ _ _ _ one]
  obtain ms where ms: "zonedWallTimeToMs [''America/New_York'' \<mapsto> new_york] (day_key 2026 11 1) (Some 23) (Some 30) ''America/New_York'' = Inr (Some ms)"
    and reads: "(\<exists>t. t + new_york t = date_utc 2026 11 1 23 30) \<longrightarrow> ms + new_york ms = date_utc 2026 11 1 23 30" by auto
  have "1793593800000 + new_york 1793593800000 = date_utc 2026 11 1 23 30" by code_simp
  with reads have shown: "ms + new_york ms = date_utc 2026 11 1 23 30" by blast
  have "ms = 1793593800000" using ms resolved by simp
  with ms shown show ?thesis by simp
qed

subsection \<open>The device's frame\<close>

text \<open>A device's zone as the platform gives it: its clock, its offset at an instant, and the instant it takes a
  local time for.\<close>

record device =
  dv_now :: int
  dv_offset :: "int \<Rightarrow> int"
  dv_utc :: "int \<Rightarrow> int"

definition local_time :: "device \<Rightarrow> int \<Rightarrow> int" where
  "local_time dv t = t + dv_offset dv t"

text \<open>\<open>setFullYear\<close> keeps the time of day, \<open>setHours\<close> and \<open>setDate\<close> the rest.\<close>

definition setFullYear :: "device \<Rightarrow> int \<Rightarrow> int \<Rightarrow> int \<Rightarrow> int \<Rightarrow> int" where
  "setFullYear dv y m d t = dv_utc dv (day_number y m d * ms_per_day + local_time dv t mod ms_per_day)"

definition setHours :: "device \<Rightarrow> int \<Rightarrow> int \<Rightarrow> int \<Rightarrow> int" where
  "setHours dv h mi t = dv_utc dv (local_time dv t div ms_per_day * ms_per_day + h * 3600000 + mi * 60000)"

definition next_date :: "device \<Rightarrow> int \<Rightarrow> int" where
  "next_date dv t = dv_utc dv ((local_time dv t div ms_per_day + 1) * ms_per_day + local_time dv t mod ms_per_day)"

definition createDateInLocalFrame :: "device \<Rightarrow> string \<Rightarrow> int option \<Rightarrow> int option \<Rightarrow> int option" where
  "createDateInLocalFrame dv dateStr hours minutes =
     (case (day_fields dateStr, hours, minutes) of
        (Some (y, mo, d), Some h, Some mi) \<Rightarrow> Some (setHours dv h mi (setFullYear dv y (mo - 1) d (dv_now dv)))
      | _ \<Rightarrow> None)"

text \<open>A local time the device's clock shows at the instant it is taken for.\<close>

definition shown_locally :: "device \<Rightarrow> int \<Rightarrow> bool" where
  "shown_locally dv n \<longleftrightarrow> local_time dv (dv_utc dv n) = n"

lemma local_frame_reads_back:
  assumes "day_fields key = Some (y, mo, d)" and "\<forall>r \<in> {0..<ms_per_day}. shown_locally dv (day_number y (mo - 1) d * ms_per_day + r)"
    and "0 \<le> h * 3600000 + mi * 60000" "h * 3600000 + mi * 60000 < ms_per_day"
  shows "\<exists>t. createDateInLocalFrame dv key (Some h) (Some mi) = Some t
    \<and> local_time dv t = day_number y (mo - 1) d * ms_per_day + h * 3600000 + mi * 60000"
proof -
  let ?t = "setFullYear dv y (mo - 1) d (dv_now dv)"
  have "local_time dv (dv_now dv) mod ms_per_day \<in> {0..<ms_per_day}" by (simp add: ms_per_day_def)
  then have "local_time dv ?t = day_number y (mo - 1) d * ms_per_day + local_time dv (dv_now dv) mod ms_per_day"
    using assms(2) by (auto simp: setFullYear_def shown_locally_def)
  then have "local_time dv ?t div ms_per_day = day_number y (mo - 1) d" by (simp add: ms_per_day_def)
  moreover have "h * 3600000 + mi * 60000 \<in> {0..<ms_per_day}" using assms(3,4) by simp
  then have "shown_locally dv (day_number y (mo - 1) d * ms_per_day + (h * 3600000 + mi * 60000))" using assms(2) by blast
  ultimately show ?thesis
    by (simp add: createDateInLocalFrame_def assms(1) setHours_def shown_locally_def add.assoc)
qed

end
