(* ===== verification/Set_Times.thy ===== *)
theory Set_Times
  imports Wall_Clock
begin

text \<open>
  When a set plays and what the clients make of it: \<open>getSetTimeBounds\<close>, \<open>getSetStatus\<close>
  (\<open>packages/shared/src/utils/setStatus.ts\<close>), the phases of a festival (\<open>festivalTime.ts\<close>), the time
  and artist labels of \<open>format.ts\<close>, \<open>scheduleFormat.ts\<close> and \<open>timeAgo.ts\<close>.

  The times of a set are empty or \<open>HH:MM\<close>, as the schema stores them; an end time that is not a
  number, which would make the end \<open>NaN\<close>, counts as no bounds at all.  The dash of \<open>setLabel\<close> is
  written as two hyphens.
\<close>

subsection \<open>Absent and empty strings\<close>

definition filled :: "string option \<Rightarrow> bool" where
  "filled s \<longleftrightarrow> (case s of Some t \<Rightarrow> t \<noteq> [] | None \<Rightarrow> False)"

definition or_str :: "string option \<Rightarrow> string \<Rightarrow> string" where
  "or_str s d = (case s of Some t \<Rightarrow> if t = [] then d else t | None \<Rightarrow> d)"

subsection \<open>Bounds\<close>

definition is_day_key :: "string \<Rightarrow> bool" where
  "is_day_key s \<longleftrightarrow> length s = 10 \<and> s ! 4 = CHR ''-'' \<and> s ! 7 = CHR ''-'' \<and> list_all (\<lambda>i. is_decimal (s ! i)) [0, 1, 2, 3, 5, 6, 8, 9]"

text \<open>\<open>const [hh = 0, mm = 0] = t.split(':').map(parseInt)\<close>\<close>

definition time_fields :: "string \<Rightarrow> int option \<times> int option" where
  "time_fields t = (case map parseInt (split_char CHR '':'' t) of [] \<Rightarrow> (Some 0, Some 0) | [h] \<Rightarrow> (h, Some 0) | h # mi # rest \<Rightarrow> (h, mi))"

definition set_date :: "festival_set \<Rightarrow> festival_day list \<Rightarrow> string option" where
  "set_date x days =
     (case fs_dayIndex x of
        Some i \<Rightarrow> if 0 \<le> i \<and> nat i < length days \<and> fd_date (days ! nat i) \<noteq> [] then Some (fd_date (days ! nat i)) else fs_date x
      | None \<Rightarrow> fs_date x)"

definition zoned_bounds :: "zone_db \<Rightarrow> string \<Rightarrow> string \<Rightarrow> string \<Rightarrow> string \<Rightarrow> js_error + (int \<times> int) option" where
  "zoned_bounds tz timeZone key t1 t2 =
     (case time_fields t1 of (h1, m1) \<Rightarrow>
      case zonedWallTimeToMs tz key h1 m1 timeZone of
        Inl e \<Rightarrow> Inl e
      | Inr None \<Rightarrow> Inr None
      | Inr (Some startMs) \<Rightarrow>
          if t2 = [] then Inr (Some (startMs, startMs + 60 * 60000))
          else (case time_fields t2 of (h2, m2) \<Rightarrow>
            case zonedWallTimeToMs tz key h2 m2 timeZone of
              Inl e \<Rightarrow> Inl e
            | Inr None \<Rightarrow> Inr None
            | Inr (Some endMs) \<Rightarrow>
                if endMs \<le> startMs
                then (case addDaysToDateKey key 1 of
                    None \<Rightarrow> Inr None
                  | Some key' \<Rightarrow> map_sum id (map_option (Pair startMs)) (zonedWallTimeToMs tz key' h2 m2 timeZone))
                else Inr (Some (startMs, endMs))))"

definition local_bounds :: "device \<Rightarrow> string \<Rightarrow> string \<Rightarrow> string \<Rightarrow> (int \<times> int) option" where
  "local_bounds dv key t1 t2 =
     (case time_fields t1 of (h1, m1) \<Rightarrow>
      case createDateInLocalFrame dv key h1 m1 of
        None \<Rightarrow> None
      | Some startMs \<Rightarrow>
          if t2 = [] then Some (startMs, startMs + 60 * 60000)
          else (case time_fields t2 of (h2, m2) \<Rightarrow>
            map_option (\<lambda>endDate. (startMs, if endDate \<le> startMs then next_date dv endDate else endDate)) (createDateInLocalFrame dv key h2 m2)))"

definition getSetTimeBounds :: "zone_db \<Rightarrow> device \<Rightarrow> festival_set \<Rightarrow> festival_day list \<Rightarrow> string option \<Rightarrow> js_error + (int \<times> int) option" where
  "getSetTimeBounds tz dv x days timeZone =
     (let dateStr = or_str (set_date x days) []; key = take 10 dateStr
      in if dateStr = [] \<or> fs_startTime x = [] then Inr None
         else if \<not> is_day_key key then Inr None
         else if filled timeZone then zoned_bounds tz (the timeZone) key (fs_startTime x) (fs_endTime x)
         else Inr (local_bounds dv key (fs_startTime x) (fs_endTime x)))"

definition isSetScheduled :: "festival_set \<Rightarrow> festival_day list \<Rightarrow> bool" where
  "isSetScheduled x days = (case fs_dayIndex x of Some i \<Rightarrow> 0 \<le> i \<and> i < int (length days) | None \<Rightarrow> False)"

subsection \<open>Labels\<close>

definition int_rem :: "int \<Rightarrow> int \<Rightarrow> int" where
  "int_rem a b = (if a < 0 then - ((- a) mod b) else a mod b)"

definition formatTime :: "string option \<Rightarrow> string" where
  "formatTime t =
     (if \<not> filled t then []
      else let parts = split_char CHR '':'' (the t); mm = (case parts of h # m # rest \<Rightarrow> m | _ \<Rightarrow> ''00'')
        in case parseInt (hd parts) of
             None \<Rightarrow> ''12:'' @ mm @ '' AM''
           | Some hr \<Rightarrow> show_int (if int_rem hr 12 = 0 then 12 else int_rem hr 12) @ '':'' @ mm @ '' '' @ (if 12 \<le> hr then ''PM'' else ''AM''))"

text \<open>\<open>None\<close>: \<open>NaN\<close>.\<close>

definition timeToMinutes :: "string option \<Rightarrow> int option" where
  "timeToMinutes t =
     (if \<not> filled t then Some 0
      else case time_fields (the t) of (Some h, Some m) \<Rightarrow> Some (h * 60 + m) | _ \<Rightarrow> None)"

definition minutesToTime :: "int \<Rightarrow> string" where
  "minutesToTime n = pad2 (n div 60) @ '':'' @ pad2 (int_rem n 60)"

definition join_names :: "string \<Rightarrow> string list \<Rightarrow> string" where
  "join_names sep ws = (case ws of [] \<Rightarrow> [] | w # rest \<Rightarrow> w @ concat (map (\<lambda>v. '' '' @ sep @ '' '' @ v) rest))"

definition joined_artists :: "festival_set \<Rightarrow> string option \<Rightarrow> string" where
  "joined_artists x sep = (case fs_artists x of Some as \<Rightarrow> join_names (or_str sep ''b2b'') (map ar_name as) | None \<Rightarrow> [])"

definition artistDisplayName :: "festival_set \<Rightarrow> string option \<Rightarrow> string" where
  "artistDisplayName x sep =
     (let joined = joined_artists x sep
      in if filled (fs_artist x) \<and> (joined = [] \<or> the (fs_artist x) \<noteq> joined) then the (fs_artist x)
         else if joined \<noteq> [] then joined else or_str (fs_artist x) ''Unknown'')"

definition artistSubtitle :: "festival_set \<Rightarrow> string option \<Rightarrow> string" where
  "artistSubtitle x sep =
     (case fs_artists x of
        None \<Rightarrow> []
      | Some as \<Rightarrow>
          let joined = joined_artists x sep
          in if length as < 2 then [] else if \<not> filled (fs_artist x) \<or> the (fs_artist x) = joined then [] else joined)"

definition getSetLinks :: "festival_set \<Rightarrow> (string \<times> (string \<times> string) list) list" where
  "getSetLinks x =
     (case fs_artists x of
        Some (a # as) \<Rightarrow> map (\<lambda>b. (ar_name b, the (ar_links b))) (filter (\<lambda>b. case ar_links b of Some (l # ls) \<Rightarrow> True | _ \<Rightarrow> False) (a # as))
      | _ \<Rightarrow> if filled (fs_linkUrl x) then [(or_str (fs_artist x) ''Unknown'', [(''spotify'', the (fs_linkUrl x))])] else [])"

definition fmtCountdown :: "int \<Rightarrow> string" where
  "fmtCountdown mins =
     (if mins < 1 then ''now''
      else if mins < 60 then ''in '' @ show_int mins @ ''m''
      else let h = mins div 60; m = mins mod 60
        in if m \<noteq> 0 then ''in '' @ show_int h @ ''h '' @ show_int m @ ''m'' else ''in '' @ show_int h @ ''h'')"

definition fmtClock :: "device \<Rightarrow> int \<Rightarrow> string" where
  "fmtClock dv ms = (let t = local_time dv ms mod ms_per_day in pad2 (t div 3600000) @ '':'' @ pad2 (t mod 3600000 div 60000))"

definition setLabel :: "festival_set option \<Rightarrow> string \<Rightarrow> string" where
  "setLabel x fallbackId =
     (let nameless = ''Set '' @ take 6 fallbackId
      in case x of
           None \<Rightarrow> nameless
         | Some s \<Rightarrow>
             (case fs_artist s of Some a \<Rightarrow> a | None \<Rightarrow> (case fs_artists s of Some (a # as) \<Rightarrow> ar_name a | _ \<Rightarrow> nameless))
             @ (if fs_startTime s = [] then [] else '' -- '' @ fs_startTime s))"

text \<open>Whole milliseconds; \<open>None\<close>: no timestamp.\<close>

definition timeAgo :: "int \<Rightarrow> int \<Rightarrow> string" where
  "timeAgo now ms =
     (let diff = now - ms; s = diff div 1000; m = s div 60; h = m div 60
      in if diff < 0 \<or> s < 60 then ''just now''
         else if m < 60 then show_int m @ ''m ago''
         else if h < 24 then show_int h @ ''h ago''
         else show_int (h div 24) @ ''d ago'')"

definition formatLastSynced :: "int \<Rightarrow> int option \<Rightarrow> string option" where
  "formatLastSynced now cachedAt = map_option (\<lambda>t. ''Updated '' @ timeAgo now t) cachedAt"

definition offlineReadyLabel :: "int option \<Rightarrow> string option" where
  "offlineReadyLabel cachedAt = map_option (\<lambda>_. ''offline-ready'') cachedAt"

definition formatUptime :: "int \<Rightarrow> string" where
  "formatUptime seconds =
     (let d = seconds div 86400; hr = seconds mod 86400 div 3600; mn = seconds mod 3600 div 60
      in if 0 < d then show_int d @ ''d '' @ show_int hr @ ''h '' @ show_int mn @ ''m''
         else if 0 < hr then show_int hr @ ''h '' @ show_int mn @ ''m'' else show_int mn @ ''m'')"

subsection \<open>Status\<close>

datatype set_status = SetPast | SetLive | SetUpcoming | SetSoon | SetLater | SetTba

text \<open>\<open>None\<close> minutes: \<open>Infinity\<close>.\<close>

record status_result =
  sr_status :: set_status
  sr_label :: string
  sr_minutesUntil :: "int option"
  sr_progress :: rat

definition tba :: status_result where
  "tba = \<lparr>sr_status = SetTba, sr_label = ''TBA'', sr_minutesUntil = None, sr_progress = 0\<rparr>"

definition status_at :: "int \<Rightarrow> int \<Rightarrow> string \<Rightarrow> int \<Rightarrow> status_result" where
  "status_at startMs endMs startTime now =
     (let msUntilStart = startMs - now; msUntilEnd = endMs - now; mins = js_round (of_int msUntilStart / 60000);
          r = (\<lambda>st l p. \<lparr>sr_status = st, sr_label = l, sr_minutesUntil = Some mins, sr_progress = p\<rparr>)
      in if msUntilStart \<le> 0 \<and> 0 < msUntilEnd
         then r SetLive ''LIVE'' (max 0 (min 1 (of_int (now - startMs) / of_int (endMs - startMs))))
         else if msUntilEnd \<le> 0 then r SetPast ''Ended'' 0
         else if 0 < mins \<and> mins \<le> 30 then r SetSoon (''In '' @ show_int mins @ ''m'') 0
         else if 30 < mins \<and> mins \<le> 120
         then r SetUpcoming (if 0 < mins mod 60 then ''In '' @ show_int (mins div 60) @ ''h '' @ show_int (mins mod 60) @ ''m''
                             else ''In '' @ show_int (mins div 60) @ ''h'') 0
         else r SetLater (formatTime (Some startTime)) 0)"

definition getSetStatus :: "zone_db \<Rightarrow> device \<Rightarrow> festival_set \<Rightarrow> int \<Rightarrow> festival_day list \<Rightarrow> string option \<Rightarrow> js_error + status_result" where
  "getSetStatus tz dv x now days timeZone =
     (if fs_startTime x = [] \<or> fs_endTime x = [] then Inr tba
      else case getSetTimeBounds tz dv x days timeZone of
          Inl e \<Rightarrow> Inl e
        | Inr None \<Rightarrow> Inr tba
        | Inr (Some (startMs, endMs)) \<Rightarrow> Inr (status_at startMs endMs (fs_startTime x) now))"

subsection \<open>Phases of a festival\<close>

text \<open>The dates of the days given, or of the festival's own (\<open>inline\<close>); a festival is \<open>None\<close> while none is
  selected.\<close>

definition days_of :: "string option list option \<Rightarrow> string option list option \<Rightarrow> string option list" where
  "days_of days inline =
     (case days of Some (d # ds) \<Rightarrow> d # ds | _ \<Rightarrow> (case inline of Some ds \<Rightarrow> ds | None \<Rightarrow> []))"

definition isFestivalOver :: "device \<Rightarrow> festival_info option \<Rightarrow> string option list option \<Rightarrow> string option list option \<Rightarrow> bool" where
  "isFestivalOver dv festival inline days =
     (case (festival, days_of days inline) of
        (Some f, d # ds) \<Rightarrow>
          filled (last (d # ds))
          \<and> (case createDateInLocalFrame dv (the (last (d # ds))) (Some 23) (Some 59) of None \<Rightarrow> False | Some t \<Rightarrow> t < dv_now dv)
      | _ \<Rightarrow> False)"

datatype festival_status = FestUpcoming | FestOngoing | FestPast

definition date_order :: "string \<Rightarrow> string \<Rightarrow> int" where
  "date_order a b = (if str_less a b then - 1 else if a = b then 0 else 1)"

definition festivalStatus ::
  "device \<Rightarrow> festival_info option \<Rightarrow> string option list option \<Rightarrow> string option list option \<Rightarrow> int \<Rightarrow> festival_status option" where
  "festivalStatus dv festival inline days now =
     (case festival of
        None \<Rightarrow> None
      | Some f \<Rightarrow>
          let dates = js_sort date_order (map the (filter filled (days_of days inline)));
              (fst, lst) = (if dates \<noteq> [] then (hd dates, last dates)
                 else (fv_startDate f, if fv_endDate f \<noteq> [] then fv_endDate f else fv_startDate f))
          in if fst = [] \<or> lst = [] then None
             else (case (createDateInLocalFrame dv fst (Some 0) (Some 0), createDateInLocalFrame dv lst (Some 23) (Some 59)) of
                (Some startDt, Some endDt) \<Rightarrow> Some (if endDt < now then FestPast else if startDt \<le> now then FestOngoing else FestUpcoming)
              | _ \<Rightarrow> None))"

datatype festival_phase = PhasePre | PhaseLive | PhasePost

definition festivalPhase ::
  "device \<Rightarrow> festival_info option \<Rightarrow> string option list option \<Rightarrow> string option list option \<Rightarrow> int \<Rightarrow> festival_phase option" where
  "festivalPhase dv festival inline days now =
     map_option (\<lambda>st. case st of FestUpcoming \<Rightarrow> PhasePre | FestOngoing \<Rightarrow> PhaseLive | FestPast \<Rightarrow> PhasePost)
       (festivalStatus dv festival inline days now)"

definition hasSetStarted ::
  "device \<Rightarrow> festival_set option \<Rightarrow> festival_info option \<Rightarrow> string option list option \<Rightarrow> string option list option \<Rightarrow> bool" where
  "hasSetStarted dv x festival inline days =
     (case (x, festival) of
        (Some s, Some f) \<Rightarrow>
          let ds = days_of days inline; over = isFestivalOver dv festival inline (Some ds)
          in if fs_startTime s = [] then over
             else (case fs_dayIndex s of
                 None \<Rightarrow> over
               | Some i \<Rightarrow>
                   if \<not> (0 \<le> i \<and> nat i < length ds \<and> filled (ds ! nat i)) then over
                   else case time_fields (fs_startTime s) of (h, mi) \<Rightarrow>
                     case createDateInLocalFrame dv (the (ds ! nat i)) h mi of
                       None \<Rightarrow> over
                     | Some startDt \<Rightarrow> startDt \<le> dv_now dv)
      | _ \<Rightarrow> False)"

definition resolveFestivalTimeZone :: "zone_db \<Rightarrow> festival_info option \<Rightarrow> string option" where
  "resolveFestivalTimeZone tz festival =
     (case festival of
        Some f \<Rightarrow> (case fv_timeZone f of Some z \<Rightarrow> if z \<noteq> [] \<and> tz z \<noteq> None then Some z else None | None \<Rightarrow> None)
      | None \<Rightarrow> None)"

subsection \<open>A set's bounds\<close>

lemma is_day_key_length: "is_day_key s \<Longrightarrow> length s = 10"
  by (simp add: is_day_key_def)

lemma time_fields_pad: "0 \<le> h \<Longrightarrow> 0 \<le> m \<Longrightarrow> time_fields (pad2 h @ CHR '':'' # pad2 m) = (Some h, Some m)"
proof -
  have "CHR '':'' \<notin> set (pad2 n)" if "0 \<le> n" for n
  proof -
    have "list_all is_decimal (show_int n)" using that show_nat_decimal [of "nat n"] by (simp add: show_int_def)
    then show ?thesis by (auto simp: pad2_def list_all_iff is_decimal_def Let_def)
  qed
  then show "0 \<le> h \<Longrightarrow> 0 \<le> m \<Longrightarrow> ?thesis"
    by (simp add: time_fields_def split_char_parts split_char_single parseInt_pad2)
qed

lemma is_day_key_day_key:
  assumes "1000 \<le> y" "y \<le> 9999" "1 \<le> mo" "mo \<le> 12" "1 \<le> d" "d \<le> 31"
  shows "is_day_key (day_key y mo d)"
proof -
  have dec: "list_all is_decimal (show_int n)" "list_all is_decimal (pad2 n)" if "0 \<le> n" for n
    using that show_nat_decimal [of "nat n"] by (auto simp: show_int_def pad2_def is_decimal_def Let_def)
  have len: "length (show_int y) = 4" "length (pad2 mo) = 2" "length (pad2 d) = 2"
    using assms by (simp_all add: length_year length_pad2)
  have "is_decimal (show_int y ! i)" if "i < 4" for i using dec(1) [of y] len(1) assms that by (simp add: list_all_length)
  moreover have "is_decimal (pad2 n ! i)" if "i < 2" "length (pad2 n) = 2" "0 \<le> n" for i n
    using dec(2) [of n] that by (simp add: list_all_length)
  ultimately show ?thesis using len assms by (simp add: is_day_key_def day_key_def nth_append)
qed

definition minute_of_day :: "int \<Rightarrow> int \<Rightarrow> int" where
  "minute_of_day h m = (h * 60 + m) * 60000"

text \<open>A set runs from the moment the festival's clocks show its start to the next moment they show its end:
  past midnight when the end is not after the start, a day at most, and one hour when no end is known;
  for a festival day on which the clocks do not change.\<close>

theorem set_runs_to_next_end:
  assumes "1000 \<le> y" "y < 9999" "1 \<le> mo" "mo \<le> 12" "1 \<le> d" "d \<le> 31"
    and "set_date x days = Some (day_key y mo d)" and "tz name = Some off" and "name \<noteq> []"
    and "\<bar>c\<bar> \<le> 50400000" and "\<forall>t. \<bar>t - date_utc y mo d 0 0\<bar> \<le> 3 * ms_per_day \<longrightarrow> off t = c"
    and "fs_startTime x = pad2 h1 @ '':'' @ pad2 m1" "0 \<le> h1" "h1 < 24" "0 \<le> m1" "m1 < 60"
    and "fs_endTime x = pad2 h2 @ '':'' @ pad2 m2 \<and> 0 \<le> h2 \<and> h2 < 24 \<and> 0 \<le> m2 \<and> m2 < 60 \<or> fs_endTime x = []"
  shows "\<exists>s e. getSetTimeBounds tz dv x days (Some name) = Inr (Some (s, e))
    \<and> s + c = date_utc y mo d h1 m1
    \<and> e - s = (if fs_endTime x = [] then 3600000
        else if minute_of_day h1 m1 < minute_of_day h2 m2 then minute_of_day h2 m2 - minute_of_day h1 m1
        else minute_of_day h2 m2 - minute_of_day h1 m1 + ms_per_day)
    \<and> s < e \<and> e \<le> s + ms_per_day"
proof -
  have y: "y \<le> 9999" using assms(2) by simp
  note fields = day_fields_key [OF assms(1) y assms(3-6)]
  define D where "D = day_number y (mo - 1) d * ms_per_day"
  have utc: "date_utc y mo d h m = D + minute_of_day h m" for h m
    using assms(1) by (simp add: date_utc_def full_year_def D_def minute_of_day_def)
  have wall: "resolve_wall off n = n - c" if "D \<le> n" "n \<le> D + 2 * ms_per_day" for n
  proof -
    have "off n = c" "off (n - c) = c" using assms(10,11) that utc [of 0 0] by (simp_all add: minute_of_day_def ms_per_day_def)
    then show ?thesis by (simp add: resolve_wall_def)
  qed
  have zoned: "zonedWallTimeToMs tz (day_key y mo d) (Some h) (Some m) name = Inr (Some (D + minute_of_day h m - c))"
    if "0 \<le> minute_of_day h m" "minute_of_day h m < ms_per_day" for h m
    using that by (simp add: zonedWallTimeToMs_def fields assms(8) wall utc)
  obtain y' m' d' where civil: "civil_of_day (day_number y (mo - 1) d + 1) = (y', m', d')" by (cases "civil_of_day (day_number y (mo - 1) d + 1)") auto
  have y': "1000 \<le> y'" "y' \<le> 9999" using next_day_year [OF _ _ assms(5,6) civil] assms(1-4) by auto
  note after = addDays_key [OF assms(1) y assms(3-6) civil y']
  have tomorrow: "zonedWallTimeToMs tz (day_key y' (m' + 1) d') (Some h) (Some m) name = Inr (Some (D + minute_of_day h m - c + ms_per_day))"
    if "0 \<le> minute_of_day h m" "minute_of_day h m < ms_per_day" for h m
    using that after(3) [of h m] by (simp add: zonedWallTimeToMs_def after(2) assms(8) wall utc)
  have t1: "time_fields (fs_startTime x) = (Some h1, Some m1)" using assms(13,15) by (simp add: assms(12) time_fields_pad)
  have pad: "pad2 n \<noteq> []" for n using show_nat_decimal by (auto simp: pad2_def show_int_def Let_def)
  have start: "fs_startTime x \<noteq> []" by (simp add: assms(12))
  have key: "is_day_key (day_key y mo d)" "take 10 (day_key y mo d) = day_key y mo d" "day_key y mo d \<noteq> []"
    using is_day_key_day_key [OF assms(1) y assms(3-6)] day_key_numbers(2) [OF assms(1) y assms(3-6)] by (auto simp: day_key_def)
  then have bounds: "getSetTimeBounds tz dv x days (Some name) = zoned_bounds tz name (day_key y mo d) (fs_startTime x) (fs_endTime x)"
    using start assms(7,9) by (simp add: getSetTimeBounds_def or_str_def filled_def Let_def)
  have small: "0 \<le> minute_of_day h1 m1" "minute_of_day h1 m1 < ms_per_day" using assms(13-16) by (simp_all add: minute_of_day_def ms_per_day_def)
  show ?thesis
  proof (cases "fs_endTime x = []")
    case True
    then show ?thesis unfolding bounds zoned_bounds_def using small by (simp add: t1 zoned utc ms_per_day_def)
  next
    case False
    then have t2: "time_fields (fs_endTime x) = (Some h2, Some m2)" using assms(17) by (auto simp: time_fields_pad)
    have small2: "0 \<le> minute_of_day h2 m2" "minute_of_day h2 m2 < ms_per_day" using assms(17) False by (simp_all add: minute_of_day_def ms_per_day_def)
    then show ?thesis unfolding bounds zoned_bounds_def using False small small2
      by (auto simp: t1 t2 zoned utc after(1) tomorrow)
  qed
qed


definition ex_timed_set :: "string \<Rightarrow> string \<Rightarrow> string \<Rightarrow> string \<Rightarrow> festival_set" where
  "ex_timed_set i date t1 t2 = \<lparr>fs_id = i, fs_festivalId = ''f'', fs_stageId = ''main'', fs_stageName = None, fs_date = Some date, fs_dayIndex = None,
     fs_startTime = t1, fs_endTime = t2, fs_artist = Some i, fs_artists = None, fs_linkUrl = None, fs_createdAt = [], fs_updatedAt = []\<rparr>"

lemma set_runs_to_next_end_witness:
  "\<exists>s e. getSetTimeBounds [''America/New_York'' \<mapsto> new_york] dv (ex_timed_set ''x'' (day_key 2026 12 31) (pad2 23 @ '':'' @ pad2 30) (pad2 1 @ '':'' @ pad2 0))
      [] (Some ''America/New_York'') = Inr (Some (s, e)) \<and> e - s = 5400000"
proof -
  have near: "\<forall>t. \<bar>t - date_utc 2026 12 31 0 0\<bar> \<le> 3 * ms_per_day \<longrightarrow> new_york t = - 18000000"
  proof -
    have "date_utc 2026 12 31 0 0 = 1798675200000" by code_simp
    then show ?thesis by (auto simp: new_york_def ms_per_day_def)
  qed
  show ?thesis
    using set_runs_to_next_end [of 2026 12 31 "ex_timed_set ''x'' (day_key 2026 12 31) (pad2 23 @ '':'' @ pad2 30) (pad2 1 @ '':'' @ pad2 0)" "[]"
        "[''America/New_York'' \<mapsto> new_york]" "''America/New_York''" new_york "- 18000000" 23 30 1 0 dv] near
    by (auto simp: ex_timed_set_def set_date_def minute_of_day_def ms_per_day_def)
qed

subsection \<open>A set's status\<close>

lemma minutes_between: "k \<le> js_round (of_int d / 60000) \<longleftrightarrow> k * 60000 - 30000 \<le> d"
proof -
  have "k \<le> js_round (of_int d / 60000) \<longleftrightarrow> (of_int k :: rat) \<le> of_int d / 60000 + 1 / 2"
    by (simp add: js_round_def le_floor_iff)
  also have "\<dots> \<longleftrightarrow> (of_int (k * 60000 - 30000) :: rat) \<le> of_int d"
    by (simp add: field_simps)
  finally show ?thesis by (simp only: of_int_le_iff)
qed

text \<open>A set's badge follows the clock: \<open>past\<close> from its end on, \<open>live\<close> from its start to its end with a progress
  that grows from zero to one, before that \<open>soon\<close> in the last half hour, \<open>upcoming\<close> in the last two hours
  and \<open>later\<close> before them, all to the rounded minute -- but \<open>later\<close> again in the last half minute before
  the start, where the minutes round to zero.\<close>

theorem status_follows_clock:
  assumes "fs_startTime x \<noteq> []" "fs_endTime x \<noteq> []" and "getSetTimeBounds tz dv x days timeZone = Inr (Some (s, e))" and "s < e"
  shows "\<exists>r. getSetStatus tz dv x now days timeZone = Inr r
    \<and> sr_status r = (if e \<le> now then SetPast else if s \<le> now then SetLive
        else if s - now < 30000 then SetLater else if s - now < 1830000 then SetSoon
        else if s - now < 7230000 then SetUpcoming else SetLater)
    \<and> sr_progress r = (if s \<le> now \<and> now < e then of_int (now - s) / of_int (e - s) else 0)
    \<and> 0 \<le> sr_progress r \<and> sr_progress r < 1"
proof -
  have m: "0 < js_round (of_int d / 60000) \<longleftrightarrow> 30000 \<le> d" "js_round (of_int d / 60000) \<le> 30 \<longleftrightarrow> d < 1830000"
    "30 < js_round (of_int d / 60000) \<longleftrightarrow> 1830000 \<le> d" "js_round (of_int d / 60000) \<le> 120 \<longleftrightarrow> d < 7230000" for d
    using minutes_between [of 1 d] minutes_between [of 31 d] minutes_between [of 121 d] by linarith+
  have st: "getSetStatus tz dv x now days timeZone = Inr (status_at s e (fs_startTime x) now)"
    using assms by (simp add: getSetStatus_def)
  show ?thesis
  proof (cases "s \<le> now \<and> now < e")
    case True
    then have p: "0 \<le> (of_int (now - s) / of_int (e - s) :: rat)" "of_int (now - s) / of_int (e - s) < (1 :: rat)"
      using assms(4) by (simp_all add: divide_less_eq)
    then show ?thesis using True assms(4) by (simp add: st status_at_def Let_def)
  next
    case False
    then show ?thesis using assms(4) m [of "s - now"] by (auto simp: st status_at_def Let_def)
  qed
qed

definition utc_device :: "int \<Rightarrow> device" where
  "utc_device now = \<lparr>dv_now = now, dv_offset = (\<lambda>_. 0), dv_utc = id\<rparr>"

lemma status_follows_clock_witness:
  "\<exists>r. getSetStatus (\<lambda>_. None) (utc_device 0) (ex_timed_set ''x'' ''1970-01-02'' ''00:00'' ''01:00'') 90000000 [] None = Inr r
     \<and> sr_status r = SetPast"
proof -
  have b: "getSetTimeBounds (\<lambda>_. None) (utc_device 0) (ex_timed_set ''x'' ''1970-01-02'' ''00:00'' ''01:00'') [] None = Inr (Some (86400000, 90000000))"
    by code_simp
  show ?thesis
    using status_follows_clock [of "ex_timed_set ''x'' ''1970-01-02'' ''00:00'' ''01:00''" "\<lambda>_. None" "utc_device 0" "[]" None 86400000 90000000 90000000, OF _ _ b]
    by (auto simp: ex_timed_set_def)
qed

text \<open>Half a minute before it starts, a set is \<open>later\<close> again.\<close>

lemma last_half_minute:
  "map_sum id sr_status (getSetStatus (\<lambda>_. None) (utc_device 0) (ex_timed_set ''x'' ''1970-01-02'' ''00:00'' ''01:00'') (86400000 - 40000) [] None) = Inr SetSoon
   \<and> map_sum id sr_status (getSetStatus (\<lambda>_. None) (utc_device 0) (ex_timed_set ''x'' ''1970-01-02'' ''00:00'' ''01:00'') (86400000 - 20000) [] None) = Inr SetLater"
  by code_simp

text \<open>The badge is in the festival's zone; the lists of now and next, which give no zone, are in the device's.  On
  a device two hours behind the festival, a set that is live by its badge has not begun by its bounds.\<close>

lemma badge_and_lists_differ:
  "let tz = [''Etc/GMT-2'' \<mapsto> (\<lambda>_. 7200000)]; x = ex_timed_set ''x'' ''1970-01-02'' ''02:00'' ''03:00''; now = 86400000 + 600000
   in map_sum id sr_status (getSetStatus tz (utc_device now) x now [] (Some ''Etc/GMT-2'')) = Inr SetLive
      \<and> map_sum id (map_option (\<lambda>(s, e). s \<le> now)) (getSetTimeBounds tz (utc_device now) x [] None) = Inr (Some False)"
  by code_simp

text \<open>A festival is over at 23:59 of its last day, while its last set, which runs past midnight, still plays.\<close>

definition ex_festival :: festival_info where
  "ex_festival = \<lparr>fv_id = ''f'', fv_name = ''Fest'', fv_description = None, fv_image = None, fv_startDate = ''1970-01-02'', fv_endDate = ''1970-01-02'',
     fv_location = None, fv_b2bSeparator = None, fv_timeZone = None, fv_mapConfig = None, fv_createdAt = [], fv_updatedAt = []\<rparr>"

lemma over_while_last_set_plays:
  "let now = 2 * 86400000 - 30000; x = ex_timed_set ''x'' ''1970-01-02'' ''23:30'' ''01:00''
   in isFestivalOver (utc_device now) (Some ex_festival) None (Some [Some ''1970-01-02''])
      \<and> festivalPhase (utc_device now) (Some ex_festival) None (Some [Some ''1970-01-02'']) now = Some PhasePost
      \<and> map_sum id sr_status (getSetStatus (\<lambda>_. None) (utc_device now) x now [] None) = Inr SetLive"
  by code_simp

end
