(* ===== verification/Schedule_Plans.thy ===== *)
theory Schedule_Plans
  imports Set_Times Crew_Types
begin

text \<open>
  What the clients plan from the times of the sets: local reminders
  (\<open>packages/shared/src/utils/reminderSchedule.ts\<close> and \<open>mobile/hooks/useLocalReminders.ts\<close>), the
  pairwise conflicts of \<open>conflicts.ts\<close>, the list of now and next (\<open>useNowNext.ts\<close>), the crew plan
  (\<open>crewPlan.ts\<close>) and the times of meeting points (\<open>meetingTime.ts\<close>).

  \<open>getSetTimeBounds\<close> throws on an unknown zone, and so does whatever loops over it.  The parser of
  ISO dates, the collation of \<open>localeCompare\<close> and the formatting of weekdays are the platform's and
  arguments.  Dashes and dots of the labels are written in ASCII.
\<close>

subsection \<open>A loop that skips and may throw\<close>

fun collect :: "('a \<Rightarrow> 'e + 'b option) \<Rightarrow> 'a list \<Rightarrow> 'e + 'b list" where
  "collect f [] = Inr []"
| "collect f (x # xs) =
     (case f x of
        Inl e \<Rightarrow> Inl e
      | Inr None \<Rightarrow> collect f xs
      | Inr (Some y) \<Rightarrow> map_sum id ((#) y) (collect f xs))"

fun kept :: "'e + 'b option \<Rightarrow> 'b option" where
  "kept (Inr r) = r"
| "kept (Inl e) = None"

lemma map_filter_step: "List.map_filter g (x # xs) = (case g x of None \<Rightarrow> List.map_filter g xs | Some y \<Rightarrow> y # List.map_filter g xs)"
  by (simp add: List.map_filter_def split: option.split)

lemma collect_Inr:
  assumes "collect f xs = Inr ys"
  shows "ys = List.map_filter (\<lambda>x. kept (f x)) xs" and "\<forall>x \<in> set xs. \<exists>r. f x = Inr r"
proof -
  have "ys = List.map_filter (\<lambda>x. kept (f x)) xs \<and> (\<forall>x \<in> set xs. \<exists>r. f x = Inr r)"
    using assms
  proof (induction xs arbitrary: ys)
    case (Cons x xs)
    then obtain r where r: "f x = Inr r" by (auto split: sum.splits)
    show ?case
    proof (cases "collect f xs")
      case (Inr zs)
      with Cons.prems r have "ys = (case r of None \<Rightarrow> zs | Some y \<Rightarrow> y # zs)" by (auto split: option.splits)
      with Cons.IH [OF Inr] r show ?thesis by (auto simp: map_filter_step split: option.splits)
    next
      case (Inl e)
      with Cons.prems r show ?thesis by (auto split: option.splits)
    qed
  qed (simp add: List.map_filter_def)
  then show "ys = List.map_filter (\<lambda>x. kept (f x)) xs" and "\<forall>x \<in> set xs. \<exists>r. f x = Inr r" by auto
qed

lemma in_map_filter: "y \<in> set (List.map_filter g xs) \<longleftrightarrow> (\<exists>x \<in> set xs. g x = Some y)"
  by (induction xs) (auto simp: map_filter_step List.map_filter_def split: option.splits)

lemma in_collect:
  assumes "collect f xs = Inr ys"
  shows "y \<in> set ys \<longleftrightarrow> (\<exists>x \<in> set xs. f x = Inr (Some y))"
  using collect_Inr(2) [OF assms] unfolding collect_Inr(1) [OF assms] in_map_filter by force

subsection \<open>Local reminders\<close>

record reminder_entry =
  re_identifier :: string
  re_setId :: string
  re_fireAtMs :: int
  re_leadMinutes :: int
  re_startMs :: int
  re_priority :: priority
  re_set :: festival_set

definition MAX_LOCAL_REMINDERS :: nat where
  "MAX_LOCAL_REMINDERS = 64"

definition reminder_prefix :: string where
  "reminder_prefix = ''festie-reminder-''"

definition reminderIdentifier :: "string \<Rightarrow> string" where
  "reminderIdentifier setId = reminder_prefix @ setId"

text \<open>\<open>new Map(sets.map(...))\<close>: the last set of an id.\<close>

definition set_of_id :: "festival_set list \<Rightarrow> string \<Rightarrow> festival_set option" where
  "set_of_id sets i = map_of (rev (map (\<lambda>s. (fs_id s, s)) sets)) i"

definition reminder_entry_of ::
  "zone_db \<Rightarrow> device \<Rightarrow> (string \<times> priority) list \<Rightarrow> festival_set list \<Rightarrow> festival_day list \<Rightarrow> string option \<Rightarrow> int
    \<Rightarrow> string \<times> int \<Rightarrow> js_error + reminder_entry option" where
  "reminder_entry_of tz dv picks sets days timeZone now r =
     (case r of (setId, lead) \<Rightarrow>
        if lead < 0 then Inr None
        else (case set_of_id sets setId of
            None \<Rightarrow> Inr None
          | Some x \<Rightarrow>
              (case getSetTimeBounds tz dv x days timeZone of
                 Inl e \<Rightarrow> Inl e
               | Inr None \<Rightarrow> Inr None
               | Inr (Some (startMs, endMs)) \<Rightarrow>
                   let fireAtMs = startMs - lead * 60000
                   in if fireAtMs \<le> now then Inr None
                      else Inr (Some \<lparr>re_identifier = reminderIdentifier setId, re_setId = setId, re_fireAtMs = fireAtMs, re_leadMinutes = lead,
                             re_startMs = startMs, re_priority = (case map_of picks setId of Some p \<Rightarrow> p | None \<Rightarrow> Maybe), re_set = x\<rparr>))))"

definition reminder_order :: "reminder_entry \<Rightarrow> reminder_entry \<Rightarrow> int" where
  "reminder_order a b =
     (let rank = priority_rank (re_priority a) - priority_rank (re_priority b)
      in if rank \<noteq> 0 then rank else re_fireAtMs a - re_fireAtMs b)"

definition buildReminderPlan ::
  "zone_db \<Rightarrow> device \<Rightarrow> (string \<times> int) list option \<Rightarrow> (string \<times> priority) list \<Rightarrow> festival_set list \<Rightarrow> festival_day list
    \<Rightarrow> string option \<Rightarrow> int \<Rightarrow> js_error + reminder_entry list" where
  "buildReminderPlan tz dv reminders picks sets days timeZone now =
     (case reminders of
        None \<Rightarrow> Inr []
      | Some rs \<Rightarrow> map_sum id (\<lambda>es. take MAX_LOCAL_REMINDERS (js_sort reminder_order es))
          (collect (reminder_entry_of tz dv picks sets days timeZone now) rs))"

definition diffReminderPlan :: "reminder_entry list \<Rightarrow> string list \<Rightarrow> reminder_entry list \<times> string list" where
  "diffReminderPlan plan scheduledIds =
     (plan, filter (\<lambda>i. starts_with i reminder_prefix \<and> i \<notin> re_identifier ` set plan) scheduledIds)"

text \<open>
  The hook's state: the notifications the operating system holds, by identifier, with the time they
  fire, and whether it has granted and been asked for permission.  A reconciliation is given what the
  system answers: the permission now, the answer to the question, and whether it lists the
  notifications.  Cancelling and scheduling one notification are independent of each other.
\<close>

record os_reminders =
  os_scheduled :: "(string \<times> int) list"
  os_requested :: bool
  os_granted :: bool

record os_answers =
  oa_permission :: bool
  oa_reply :: bool
  oa_lists :: bool

definition ensurePermission :: "os_answers \<Rightarrow> os_reminders \<Rightarrow> bool \<times> os_reminders" where
  "ensurePermission a s =
     (if os_granted s then (True, s)
      else let ask = \<not> oa_permission a \<and> \<not> os_requested s; granted = (if ask then oa_reply a else oa_permission a)
        in (granted, s\<lparr>os_requested := os_requested s \<or> ask, os_granted := granted\<rparr>))"

definition cancel_ids :: "string list \<Rightarrow> os_reminders \<Rightarrow> os_reminders" where
  "cancel_ids ids s = s\<lparr>os_scheduled := filter (\<lambda>n. fst n \<notin> set ids) (os_scheduled s)\<rparr>"

definition scheduleReminder :: "reminder_entry \<Rightarrow> os_reminders \<Rightarrow> os_reminders" where
  "scheduleReminder e s = s\<lparr>os_scheduled := AList.update (re_identifier e) (re_fireAtMs e) (os_scheduled s)\<rparr>"

definition cancelAllFestieReminders :: "os_answers \<Rightarrow> os_reminders \<Rightarrow> os_reminders" where
  "cancelAllFestieReminders a s =
     (if oa_lists a then cancel_ids (filter (\<lambda>i. starts_with i reminder_prefix) (map fst (os_scheduled s))) s else s)"

definition reconcile :: "bool \<Rightarrow> reminder_entry list \<Rightarrow> os_answers \<Rightarrow> os_reminders \<Rightarrow> os_reminders" where
  "reconcile setRemindersPref plan a s =
     (if \<not> setRemindersPref then cancelAllFestieReminders a s
      else case (if plan \<noteq> [] \<and> \<not> os_granted s then ensurePermission a s else (True, s)) of (go, s1) \<Rightarrow>
        if \<not> go \<or> \<not> oa_lists a then s1
        else case diffReminderPlan plan (map fst (os_scheduled s1)) of (toSchedule, toCancel) \<Rightarrow>
          fold scheduleReminder toSchedule (cancel_ids toCancel s1))"

subsection \<open>Conflicts, pair by pair\<close>

record detected_conflict =
  dc_setA :: festival_set
  dc_setB :: festival_set
  dc_overlapMinutes :: int
  dc_priorityA :: priority
  dc_priorityB :: priority
  dc_hard :: bool

definition isHardConflict :: "detected_conflict \<Rightarrow> bool" where
  "isHardConflict c \<longleftrightarrow> dc_priorityA c = Must \<and> dc_priorityB c = Must"

fun pairs :: "'a list \<Rightarrow> ('a \<times> 'a) list" where
  "pairs [] = []"
| "pairs (x # xs) = map (Pair x) xs @ pairs xs"

text \<open>Start and end in minutes, the end moved past midnight.\<close>

definition clock_span :: "festival_set \<Rightarrow> (int \<times> int) option" where
  "clock_span x =
     (case (timeToMinutes (Some (fs_startTime x)), timeToMinutes (Some (fs_endTime x))) of
        (Some s, Some e) \<Rightarrow> Some (s, if e \<le> s then e + 1440 else e)
      | _ \<Rightarrow> None)"

definition conflict_on :: "(string \<Rightarrow> priority option) \<Rightarrow> festival_set \<Rightarrow> festival_set \<Rightarrow> detected_conflict option" where
  "conflict_on getMyPick a b =
     (let pick = (\<lambda>x. case getMyPick (fs_id x) of Some p \<Rightarrow> p | None \<Rightarrow> Maybe)
      in case (clock_span a, clock_span b) of
           (Some (aS, aE), Some (bS, bE)) \<Rightarrow>
             if aS < bE \<and> bS < aE
             then Some \<lparr>dc_setA = a, dc_setB = b, dc_overlapMinutes = min aE bE - max aS bS, dc_priorityA = pick a, dc_priorityB = pick b,
                    dc_hard = (pick a = Must \<and> pick b = Must)\<rparr>
             else None
         | _ \<Rightarrow> None)"

definition conflict_of :: "(string \<Rightarrow> priority option) \<Rightarrow> festival_set \<times> festival_set \<Rightarrow> detected_conflict option" where
  "conflict_of getMyPick p =
     (case p of (a, b) \<Rightarrow>
        case (fs_dayIndex a, fs_dayIndex b) of
          (Some i, Some j) \<Rightarrow> if i \<noteq> j then None else conflict_on getMyPick a b
        | _ \<Rightarrow> conflict_on getMyPick a b)"

definition pair_key :: "festival_set \<times> festival_set \<Rightarrow> string" where
  "pair_key p =
     (case p of (a, b) \<Rightarrow> if str_less (fs_id b) (fs_id a) then fs_id b @ ''-'' @ fs_id a else fs_id a @ ''-'' @ fs_id b)"

definition detect_pair ::
  "(string \<Rightarrow> priority option) \<Rightarrow> festival_set \<times> festival_set \<Rightarrow> detected_conflict list \<times> string list \<Rightarrow> detected_conflict list \<times> string list" where
  "detect_pair getMyPick p acc =
     (case acc of (found, seen) \<Rightarrow>
        case conflict_of getMyPick p of
          None \<Rightarrow> acc
        | Some c \<Rightarrow> if pair_key p \<in> set seen then acc else (found @ [c], pair_key p # seen))"

definition detectConflicts :: "festival_set list \<Rightarrow> (string \<Rightarrow> priority option) \<Rightarrow> detected_conflict list" where
  "detectConflicts sets getMyPick =
     (let picked = filter (\<lambda>x. getMyPick (fs_id x) \<noteq> None \<and> fs_startTime x \<noteq> [] \<and> fs_endTime x \<noteq> []) sets
      in fst (fold (detect_pair getMyPick) (pairs picked) ([], [])))"

definition getConflictingSetIds :: "festival_set list \<Rightarrow> (string \<Rightarrow> priority option) \<Rightarrow> string set" where
  "getConflictingSetIds sets getMyPick = set (concat (map (\<lambda>c. [fs_id (dc_setA c), fs_id (dc_setB c)]) (detectConflicts sets getMyPick)))"

definition hasConflict :: "string \<Rightarrow> festival_set list \<Rightarrow> (string \<Rightarrow> priority option) \<Rightarrow> bool" where
  "hasConflict i sets getMyPick \<longleftrightarrow> i \<in> getConflictingSetIds sets getMyPick"

subsection \<open>Now and next\<close>

record timed_set =
  td_set :: festival_set
  td_start :: int
  td_end :: int
  td_priority :: priority

definition timed_of ::
  "zone_db \<Rightarrow> device \<Rightarrow> (string \<times> priority) list \<Rightarrow> festival_day list \<Rightarrow> festival_set \<Rightarrow> js_error + timed_set option" where
  "timed_of tz dv picks days x =
     (case map_of picks (fs_id x) of
        None \<Rightarrow> Inr None
      | Some p \<Rightarrow> map_sum id (map_option (\<lambda>(s, e). \<lparr>td_set = x, td_start = s, td_end = e, td_priority = p\<rparr>)) (getSetTimeBounds tz dv x days None))"

text \<open>The sets that play and those that come; no picks, sets or days is nothing to show.\<close>

definition nowNext ::
  "zone_db \<Rightarrow> device \<Rightarrow> (string \<times> priority) list option \<Rightarrow> festival_set list \<Rightarrow> festival_day list \<Rightarrow> int \<Rightarrow> nat
    \<Rightarrow> js_error + timed_set list \<times> timed_set list" where
  "nowNext tz dv picks sets days now upcomingLimit =
     (case picks of
        None \<Rightarrow> Inr ([], [])
      | Some ps \<Rightarrow>
          if sets = [] \<or> days = [] then Inr ([], [])
          else map_sum id (\<lambda>timed.
              (js_sort (by_key td_end) (filter (\<lambda>x. td_start x \<le> now \<and> now < td_end x) timed),
               take upcomingLimit (js_sort (by_key td_start) (filter (\<lambda>x. now < td_start x) timed))))
            (collect (timed_of tz dv ps days) sets))"

subsection \<open>The crew plan\<close>

definition pickActiveMeetingPoint :: "(string \<Rightarrow> int option) \<Rightarrow> meeting_point list \<Rightarrow> int \<Rightarrow> meeting_point option" where
  "pickActiveMeetingPoint parse points nowMs =
     (let timed = List.map_filter (\<lambda>p. case parse (the (mp_meet_at p)) of Some ms \<Rightarrow> if nowMs \<le> ms then Some (p, ms) else None | None \<Rightarrow> None)
            (filter (\<lambda>p. mp_active p \<and> filled (mp_meet_at p)) points)
      in case js_sort (by_key snd) timed of
           (p, ms) # rest \<Rightarrow> Some p
         | [] \<Rightarrow> find (\<lambda>p. mp_active p \<and> \<not> filled (mp_meet_at p)) points)"

record slot_pick =
  sp_memberId :: string
  sp_memberName :: string
  sp_set :: festival_set
  sp_priority :: priority

record plan_slot =
  sl_startMs :: int
  sl_startTime :: string
  sl_picks :: "slot_pick list"

definition CREW_PLAN_SLOTS :: nat where
  "CREW_PLAN_SLOTS = 3"

definition best_pick :: "(string \<times> priority) list \<Rightarrow> string set \<Rightarrow> (string \<times> priority) option" where
  "best_pick picks ids =
     fold (\<lambda>(i, p) best. if i \<notin> ids then best
        else (case best of
            None \<Rightarrow> Some (i, p)
          | Some (j, q) \<Rightarrow> if priority_weight q < priority_weight p then Some (i, p) else best)) picks None"

definition slot_of :: "(festival_set \<times> int \<times> int) list \<Rightarrow> profile list \<Rightarrow> int \<Rightarrow> plan_slot" where
  "slot_of timed profiles startMs =
     (let slotSets = map fst (filter (\<lambda>(x, s, e). s = startMs) timed);
          picks = List.map_filter (\<lambda>p. case best_pick (pr_picks p) (set (map fs_id slotSets)) of
              None \<Rightarrow> None
            | Some (i, prio) \<Rightarrow> Some \<lparr>sp_memberId = pr_id p, sp_memberName = or_str (pr_name p) ''Crew member'',
                 sp_set = the (set_of_id slotSets i), sp_priority = prio\<rparr>) profiles
      in \<lparr>sl_startMs = startMs, sl_startTime = (case slotSets of x # xs \<Rightarrow> fs_startTime x | [] \<Rightarrow> []),
          sl_picks = js_sort (by_key (\<lambda>p. - priority_weight (sp_priority p))) picks\<rparr>)"

definition buildSlots ::
  "zone_db \<Rightarrow> device \<Rightarrow> festival_set list \<Rightarrow> festival_day list \<Rightarrow> profile list \<Rightarrow> int \<Rightarrow> nat \<Rightarrow> js_error + plan_slot list" where
  "buildSlots tz dv sets days profiles nowMs limit =
     map_sum id (\<lambda>bounded.
        let timed = filter (\<lambda>(x, s, e). nowMs < e) bounded;
            startTimes = take limit (js_sort (by_key id) (remdups (map (fst \<circ> snd) timed)))
        in map (slot_of timed profiles) startTimes)
       (collect (\<lambda>x. map_sum id (map_option (Pair x)) (getSetTimeBounds tz dv x days None)) sets)"

subsection \<open>Meeting points\<close>

definition meetAtTimeOfDay :: "zone_db \<Rightarrow> device \<Rightarrow> (string \<Rightarrow> int option) \<Rightarrow> string option \<Rightarrow> string option \<Rightarrow> js_error + (int \<times> int) option" where
  "meetAtTimeOfDay tz dv parse meetAt timeZone =
     (let tod = (\<lambda>t. (t mod ms_per_day div 3600000, t mod 3600000 div 60000))
      in if \<not> filled meetAt then Inr None
         else case parse (the meetAt) of
             None \<Rightarrow> Inr None
           | Some d \<Rightarrow>
               if filled timeZone then (case tz (the timeZone) of None \<Rightarrow> Inl RangeError | Some off \<Rightarrow> Inr (Some (tod (d + off d))))
               else Inr (Some (tod (local_time dv d))))"

definition occurrence_on :: "zone_db \<Rightarrow> device \<Rightarrow> string option \<Rightarrow> int \<times> int \<Rightarrow> string option \<Rightarrow> js_error + (string \<times> int) option" where
  "occurrence_on tz dv timeZone tod date =
     (let key = take 10 (or_str date [])
      in if \<not> is_day_key key then Inr None
         else map_sum id (map_option (Pair key))
           (if filled timeZone then zonedWallTimeToMs tz key (Some (fst tod)) (Some (snd tod)) (the timeZone)
            else Inr (createDateInLocalFrame dv key (Some (fst tod)) (Some (snd tod)))))"

definition meetingOccurrences ::
  "zone_db \<Rightarrow> device \<Rightarrow> (string \<Rightarrow> int option) \<Rightarrow> string option \<Rightarrow> bool \<Rightarrow> string option list \<Rightarrow> string option \<Rightarrow> js_error + (string \<times> int) list" where
  "meetingOccurrences tz dv parse meetAt recursDaily days timeZone =
     (if \<not> filled meetAt then Inr []
      else if \<not> recursDaily
      then Inr (case parse (the meetAt) of None \<Rightarrow> [] | Some d \<Rightarrow> [(take 10 (the meetAt), d)])
      else case meetAtTimeOfDay tz dv parse meetAt timeZone of
          Inl e \<Rightarrow> Inl e
        | Inr None \<Rightarrow> Inr []
        | Inr (Some tod) \<Rightarrow> map_sum id (js_sort (by_key snd)) (collect (occurrence_on tz dv timeZone tod) days))"

definition nextMeetingOccurrence ::
  "zone_db \<Rightarrow> device \<Rightarrow> (string \<Rightarrow> int option) \<Rightarrow> string option \<Rightarrow> bool \<Rightarrow> string option list \<Rightarrow> int \<Rightarrow> string option
    \<Rightarrow> js_error + (string \<times> int) option" where
  "nextMeetingOccurrence tz dv parse meetAt recursDaily days nowMs timeZone =
     map_sum id (\<lambda>occ. if occ = [] then None else Some (case find (\<lambda>p. nowMs \<le> snd p) occ of Some p \<Rightarrow> p | None \<Rightarrow> last occ))
       (meetingOccurrences tz dv parse meetAt recursDaily days timeZone)"

record meeting_time_display =
  md_label :: string
  md_recurring :: bool
  md_next :: "(string \<times> int) option"

definition meetingTimeDisplay ::
  "zone_db \<Rightarrow> device \<Rightarrow> (string \<Rightarrow> int option) \<Rightarrow> (string option \<Rightarrow> int \<Rightarrow> string) \<Rightarrow> string option \<Rightarrow> bool \<Rightarrow> string option list \<Rightarrow> int
    \<Rightarrow> string option \<Rightarrow> js_error + meeting_time_display" where
  "meetingTimeDisplay tz dv parse weekdayTime meetAt recurring days nowMs timeZone =
     (let show_at = (\<lambda>l n. \<lparr>md_label = l, md_recurring = recurring, md_next = n\<rparr>)
      in if \<not> filled meetAt then Inr (show_at [] None)
         else if recurring
         then (case meetAtTimeOfDay tz dv parse meetAt timeZone of
             Inl e \<Rightarrow> Inl e
           | Inr tod \<Rightarrow>
               (case nextMeetingOccurrence tz dv parse meetAt recurring days nowMs timeZone of
                  Inl e \<Rightarrow> Inl e
                | Inr n \<Rightarrow>
                    Inr (case tod of
                        None \<Rightarrow> show_at [] n
                      | Some (h, m) \<Rightarrow> show_at (''daily '' @ formatTime (Some (pad2 h @ '':'' @ pad2 m))) n)))
         else case parse (the meetAt) of
             None \<Rightarrow> Inr (show_at [] None)
           | Some d \<Rightarrow>
               if filled timeZone \<and> tz (the timeZone) = None then Inl RangeError
               else Inr (show_at (weekdayTime timeZone d) (Some (take 10 (the meetAt), d))))"

end
