(* ===== verification/Schedule_Props.thy ===== *)
theory Schedule_Props
  imports Schedule_Plans
begin

text \<open>
  What the plans of the clients guarantee: which reminders the device ends up with, and which
  conflicts the pairwise detection reports.
\<close>

subsection \<open>Reminders\<close>

interpretation by_reminder: comparator reminder_order
  by unfold_locales (auto simp: reminder_order_def Let_def priority_rank_inj split: if_splits)

lemma reminder_order_le:
  "reminder_order a b \<le> 0 \<longleftrightarrow> re_priority a < re_priority b \<or> re_priority a = re_priority b \<and> re_fireAtMs a \<le> re_fireAtMs b"
  using priority_rank_inj [of "re_priority a" "re_priority b"] by (auto simp: reminder_order_def less_priority_def Let_def)

lemma entry_of_fields:
  "reminder_entry_of tz dv picks sets days timeZone now (i, lead) = Inr (Some e) \<Longrightarrow>
     re_identifier e = reminderIdentifier i \<and> re_setId e = i \<and> now < re_fireAtMs e"
  by (auto simp: reminder_entry_of_def Let_def split: if_splits option.splits sum.splits prod.splits)

lemma reminderIdentifier_inj: "reminderIdentifier i = reminderIdentifier j \<longleftrightarrow> i = j"
  by (simp add: reminderIdentifier_def)

lemma collected_ids:
  assumes "collect (reminder_entry_of tz dv picks sets days timeZone now) rs = Inr es" and "distinct (map fst rs)"
  shows "distinct (map re_identifier es)"
  using assms
proof (induction rs arbitrary: es)
  case (Cons r rs)
  obtain i lead where r: "r = (i, lead)" by (cases r)
  let ?f = "reminder_entry_of tz dv picks sets days timeZone now"
  obtain q where q: "?f r = Inr q" using Cons.prems(1) by (auto split: sum.splits)
  obtain zs where zs: "collect ?f rs = Inr zs"
    using Cons.prems(1) q by (cases "collect ?f rs") (auto split: option.splits)
  have es: "es = (case q of None \<Rightarrow> zs | Some e \<Rightarrow> e # zs)" using Cons.prems(1) q zs by (auto split: option.splits)
  have "distinct (map re_identifier zs)" using Cons.IH [OF zs] Cons.prems(2) by simp
  moreover have "re_identifier e \<notin> re_identifier ` set zs" if "q = Some e" for e
  proof
    assume "re_identifier e \<in> re_identifier ` set zs"
    then obtain z where z: "z \<in> set zs" "re_identifier z = re_identifier e" by auto
    then obtain j l where j: "(j, l) \<in> set rs" "?f (j, l) = Inr (Some z)" unfolding in_collect [OF zs] by (metis surj_pair)
    have "reminderIdentifier j = reminderIdentifier i"
      using entry_of_fields [OF j(2)] entry_of_fields [of tz dv picks sets days timeZone now i lead e] q z(2) that by (simp add: r)
    then show False using Cons.prems(2) j(1) by (auto simp: r reminderIdentifier_inj image_iff)
  qed
  ultimately show ?case by (simp add: es split: option.split)
qed simp

lemma scheduled_fold:
  "os_scheduled (fold scheduleReminder es s) = fold (\<lambda>e. AList.update (re_identifier e) (re_fireAtMs e)) es (os_scheduled s)"
  by (induction es arbitrary: s) (simp_all add: scheduleReminder_def)

lemma map_of_updates:
  "distinct (map f es) \<Longrightarrow> map_of (fold (\<lambda>e. AList.update (f e) (g e)) es m) i
     = (case find (\<lambda>e. f e = i) es of Some e \<Rightarrow> Some (g e) | None \<Rightarrow> map_of m i)"
proof (induction es arbitrary: m)
  case (Cons e es)
  have "find (\<lambda>e. f e = i) es = None" if "f e = i" using Cons.prems that by (auto simp: find_None_iff) (metis image_eqI)
  then show ?case using Cons by (auto simp: update_conv' split: option.splits)
qed simp

lemma fold_keys: "fst ` set (fold (\<lambda>e. AList.update (f e) (g e)) es m) = fst ` set m \<union> f ` set es"
  by (induction es arbitrary: m) (auto simp: dom_update)

lemma map_of_drop: "map_of (filter (\<lambda>n. fst n \<notin> D) xs) i = (if i \<in> D then None else map_of xs i)"
  by (induction xs) auto

text \<open>C32. Reconciling leaves the device with exactly the planned reminders: every planned one fires at its time,
  every other reminder of the app is gone, the other notifications are untouched, and reconciling again
  changes nothing.  The plan holds the reminders whose time is still to come, at most sixty-four, and
  none that is left out is more important, or as important and sooner, than one that is kept; with the
  preference off no reminder of the app is left.\<close>

theorem reminders_installed:
  assumes "collect (reminder_entry_of tz dv picks sets days timeZone now) rs = Inr es" and "distinct (map fst rs)"
    and "oa_lists a" and "os_granted s \<or> oa_permission a"
  shows "\<exists>plan. buildReminderPlan tz dv (Some rs) picks sets days timeZone now = Inr plan
    \<and> length plan = min 64 (length es) \<and> set plan \<subseteq> set es
    \<and> (\<forall>e \<in> set plan. now < re_fireAtMs e)
    \<and> (\<forall>e \<in> set plan. \<forall>e' \<in> set es - set plan. re_priority e < re_priority e' \<or> re_priority e = re_priority e' \<and> re_fireAtMs e \<le> re_fireAtMs e')
    \<and> (let s' = reconcile True plan a s
       in (\<forall>i. map_of (os_scheduled s') i = (if starts_with i reminder_prefix then map_option re_fireAtMs (find (\<lambda>e. re_identifier e = i) plan)
            else map_of (os_scheduled s) i))
         \<and> (\<forall>i. map_of (os_scheduled (reconcile True plan a s')) i = map_of (os_scheduled s') i)
         \<and> (\<forall>i. starts_with i reminder_prefix \<longrightarrow> map_of (os_scheduled (reconcile False plan a s')) i = None))"
proof -
  define plan where "plan = take 64 (js_sort reminder_order es)"
  have build: "buildReminderPlan tz dv (Some rs) picks sets days timeZone now = Inr plan"
    by (simp add: buildReminderPlan_def assms(1) plan_def MAX_LOCAL_REMINDERS_def)
  have sub: "set plan \<subseteq> set es" unfolding plan_def by (metis set_js_sort set_take_subset)
  have best: "re_priority e < re_priority e' \<or> re_priority e = re_priority e' \<and> re_fireAtMs e \<le> re_fireAtMs e'"
    if "e \<in> set plan" "e' \<in> set es - set plan" for e e'
    using by_reminder.take_js_sort_best [of e 64 es e'] that by (simp add: plan_def reminder_order_le)
  have future: "now < re_fireAtMs e" if "e \<in> set es" for e
    using that entry_of_fields unfolding in_collect [OF assms(1)] by fastforce
  have named: "starts_with (re_identifier e) reminder_prefix" if "e \<in> set es" for e
    using that entry_of_fields starts_with_append unfolding in_collect [OF assms(1)] by (fastforce simp: reminderIdentifier_def)
  have ids: "distinct (map re_identifier plan)"
    using collected_ids [OF assms(1,2)] by (simp add: plan_def take_map [symmetric])
  have run: "map_of (os_scheduled (reconcile True plan a t)) i = (if starts_with i reminder_prefix then map_option re_fireAtMs (find (\<lambda>e. re_identifier e = i) plan)
            else map_of (os_scheduled t) i)" if "os_granted t \<or> oa_permission a" for t i
  proof -
    define t1 where "t1 = snd (if plan \<noteq> [] \<and> \<not> os_granted t then ensurePermission a t else (True, t))"
    have t1: "(if plan \<noteq> [] \<and> \<not> os_granted t then ensurePermission a t else (True, t)) = (True, t1)" "os_scheduled t1 = os_scheduled t"
      using that by (auto simp: ensurePermission_def t1_def Let_def)
    let ?drop = "filter (\<lambda>i. starts_with i reminder_prefix \<and> i \<notin> re_identifier ` set plan) (map fst (os_scheduled t))"
    have eq: "os_scheduled (reconcile True plan a t)
        = fold (\<lambda>e. AList.update (re_identifier e) (re_fireAtMs e)) plan (filter (\<lambda>n. fst n \<notin> set ?drop) (os_scheduled t))"
      unfolding reconcile_def t1(1) by (simp add: assms(3) diffReminderPlan_def scheduled_fold cancel_ids_def t1(2))
    have "find (\<lambda>e. re_identifier e = i) plan = None \<longleftrightarrow> i \<notin> re_identifier ` set plan" by (auto simp: find_None_iff)
    moreover have "i \<in> re_identifier ` set plan \<Longrightarrow> starts_with i reminder_prefix" using named sub by auto
    moreover have "i \<notin> fst ` set (os_scheduled t) \<Longrightarrow> map_of (os_scheduled t) i = None" by (simp add: map_of_eq_None_iff)
    ultimately show ?thesis unfolding eq map_of_updates [OF ids] map_of_drop by (auto split: option.splits)
  qed
  have granted: "os_granted (reconcile True plan a s) \<or> oa_permission a"
  proof -
    have "os_granted (fold scheduleReminder es' t) = os_granted t" for es' t
      by (induction es' arbitrary: t) (simp_all add: scheduleReminder_def)
    then show ?thesis using assms(4)
      by (auto simp: reconcile_def ensurePermission_def diffReminderPlan_def cancel_ids_def Let_def split: if_splits)
  qed
  have off: "map_of (os_scheduled (reconcile False plan a t)) i = None" if "starts_with i reminder_prefix" for t i
    using that by (auto simp: reconcile_def cancelAllFestieReminders_def assms(3) cancel_ids_def map_of_drop map_of_eq_None_iff)
  show ?thesis
    using sub best future run [OF assms(4)] run [OF granted] off
    by (intro exI [of _ plan] conjI build) (auto simp: plan_def Let_def)
qed

definition ex_reminders :: os_reminders where
  "ex_reminders = \<lparr>os_scheduled = [(''festie-reminder-gone'', 5), (''other'', 7)], os_requested = True, os_granted = True\<rparr>"

lemma reminders_installed_witness:
  "\<exists>plan. buildReminderPlan (\<lambda>_. None) (utc_device 0) (Some [(''x'', 30)]) [] [ex_timed_set ''x'' ''1970-01-02'' ''00:00'' ''01:00''] [] None 0 = Inr plan
     \<and> map_of (os_scheduled (reconcile True plan \<lparr>oa_permission = True, oa_reply = False, oa_lists = True\<rparr> ex_reminders)) ''festie-reminder-gone'' = None
     \<and> map_of (os_scheduled (reconcile True plan \<lparr>oa_permission = True, oa_reply = False, oa_lists = True\<rparr> ex_reminders)) ''other'' = Some 7"
proof -
  obtain es where es: "collect (reminder_entry_of (\<lambda>_. None) (utc_device 0) [] [ex_timed_set ''x'' ''1970-01-02'' ''00:00'' ''01:00''] [] None 0) [(''x'', 30)] = Inr es"
    and ids: "list_all (\<lambda>e. re_identifier e \<noteq> ''festie-reminder-gone'') es"
  proof -
    have "case collect (reminder_entry_of (\<lambda>_. None) (utc_device 0) [] [ex_timed_set ''x'' ''1970-01-02'' ''00:00'' ''01:00''] [] None 0) [(''x'', 30)] of
        Inr es \<Rightarrow> list_all (\<lambda>e. re_identifier e \<noteq> ''festie-reminder-gone'') es | Inl e \<Rightarrow> False"
      by code_simp
    then show ?thesis using that by (auto split: sum.splits)
  qed
  from reminders_installed [OF es, of "\<lparr>oa_permission = True, oa_reply = False, oa_lists = True\<rparr>" ex_reminders]
  obtain plan where plan: "buildReminderPlan (\<lambda>_. None) (utc_device 0) (Some [(''x'', 30)]) [] [ex_timed_set ''x'' ''1970-01-02'' ''00:00'' ''01:00''] [] None 0 = Inr plan"
    "set plan \<subseteq> set es"
    "\<forall>i. map_of (os_scheduled (reconcile True plan \<lparr>oa_permission = True, oa_reply = False, oa_lists = True\<rparr> ex_reminders)) i
       = (if starts_with i reminder_prefix then map_option re_fireAtMs (find (\<lambda>e. re_identifier e = i) plan) else map_of (os_scheduled ex_reminders) i)"
    by (auto simp: Let_def)
  have "find (\<lambda>e. re_identifier e = ''festie-reminder-gone'') plan = None"
    using ids plan(2) by (auto simp: find_None_iff list_all_iff)
  then show ?thesis using plan(1) plan(3) [rule_format, of "''festie-reminder-gone''"] plan(3) [rule_format, of "''other''"]
    by (intro exI [of _ plan]) (simp add: ex_reminders_def reminder_prefix_def)
qed

subsection \<open>Conflicts\<close>

definition clocked :: "festival_set \<Rightarrow> festival_day list \<Rightarrow> string \<Rightarrow> bool" where
  "clocked x days key \<longleftrightarrow> set_date x days = Some key
     \<and> (\<exists>h1 m1 h2 m2. fs_startTime x = pad2 h1 @ '':'' @ pad2 m1 \<and> fs_endTime x = pad2 h2 @ '':'' @ pad2 m2
        \<and> 0 \<le> h1 \<and> h1 < 24 \<and> 0 \<le> m1 \<and> m1 < 60 \<and> 0 \<le> h2 \<and> h2 < 24 \<and> 0 \<le> m2 \<and> m2 < 60)"

lemma pad2_nonempty [simp]: "pad2 n \<noteq> []"
  using show_nat_decimal by (auto simp: pad2_def show_int_def Let_def)

lemma clocked_bounds:
  assumes "1000 \<le> y" "y < 9999" "1 \<le> mo" "mo \<le> 12" "1 \<le> d" "d \<le> 31" and "tz name = Some off" and "name \<noteq> []"
    and "\<bar>c\<bar> \<le> 50400000" and "\<forall>t. \<bar>t - date_utc y mo d 0 0\<bar> \<le> 3 * ms_per_day \<longrightarrow> off t = c"
    and "clocked x days (day_key y mo d)"
  shows "\<exists>s e. clock_span x = Some (s, e) \<and> s < e
    \<and> getSetTimeBounds tz dv x days (Some name) = Inr (Some (date_utc y mo d 0 0 - c + 60000 * s, date_utc y mo d 0 0 - c + 60000 * e))"
proof -
  obtain h1 m1 h2 m2 where x: "fs_startTime x = pad2 h1 @ '':'' @ pad2 m1" "fs_endTime x = pad2 h2 @ '':'' @ pad2 m2"
    "0 \<le> h1" "h1 < 24" "0 \<le> m1" "m1 < 60" "0 \<le> h2" "h2 < 24" "0 \<le> m2" "m2 < 60" and date: "set_date x days = Some (day_key y mo d)"
    using assms(11) by (auto simp: clocked_def)
  have "fs_endTime x = pad2 h2 @ '':'' @ pad2 m2 \<and> 0 \<le> h2 \<and> h2 < 24 \<and> 0 \<le> m2 \<and> m2 < 60 \<or> fs_endTime x = []" using x by simp
  from set_runs_to_next_end [of y mo d x days tz name off c h1 m1 h2 m2 dv, OF assms(1-6) date assms(7-10) x(1,3-6) this]
  obtain s e where b: "getSetTimeBounds tz dv x days (Some name) = Inr (Some (s, e))" "s + c = date_utc y mo d h1 m1" "s < e"
    "e - s = (if minute_of_day h1 m1 < minute_of_day h2 m2 then minute_of_day h2 m2 - minute_of_day h1 m1
        else minute_of_day h2 m2 - minute_of_day h1 m1 + ms_per_day)"
    using x(2) by auto
  have span: "clock_span x = Some (h1 * 60 + m1, if h2 * 60 + m2 \<le> h1 * 60 + m1 then h2 * 60 + m2 + 1440 else h2 * 60 + m2)"
    using x by (simp add: clock_span_def timeToMinutes_def filled_def time_fields_pad)
  have utc: "date_utc y mo d h1 m1 = date_utc y mo d 0 0 + 60000 * (h1 * 60 + m1)" by (simp add: date_utc_def)
  show ?thesis
    using b span utc by (auto simp: minute_of_day_def ms_per_day_def split: if_splits)
qed

lemma in_pairs: "(a, b) \<in> set (pairs xs) \<Longrightarrow> a \<in> set xs \<and> b \<in> set xs"
  by (induction xs) auto

lemma detect_fold:
  assumes "distinct (map pair_key ps)" and "pair_key ` set ps \<inter> set seen = {}"
  shows "fst (fold (detect_pair pick) ps (found, seen)) = found @ List.map_filter (conflict_of pick) ps"
  using assms
proof (induction ps arbitrary: found seen)
  case (Cons p ps)
  show ?case
  proof (cases "conflict_of pick p")
    case None
    then show ?thesis using Cons by (simp add: detect_pair_def map_filter_step)
  next
    case (Some c)
    have "pair_key ` set ps \<inter> set (pair_key p # seen) = {}" using Cons.prems by auto
    then show ?thesis using Cons Some by (auto simp: detect_pair_def map_filter_step)
  qed
qed (simp add: List.map_filter_def)

definition overlapping :: "(festival_set \<Rightarrow> js_error + (int \<times> int) option) \<Rightarrow> festival_set \<times> festival_set \<Rightarrow> bool" where
  "overlapping bounds p \<longleftrightarrow>
     (case (bounds (fst p), bounds (snd p)) of (Inr (Some (s, e)), Inr (Some (s', e'))) \<Rightarrow> s < e' \<and> s' < e | _ \<Rightarrow> False)"

text \<open>C33. The pairwise conflicts of a day are its overlapping picks: among the picked sets of one festival day the
  pairs reported are exactly those whose intervals overlap by the bounds that badges, reminders and the
  clash finder use, in the order of the sets; sets that only touch do not conflict, a set past
  midnight reaches into the night, and a conflict is hard when both are must picks.\<close>

theorem conflicts_are_overlapping_picks:
  assumes "1000 \<le> y" "y < 9999" "1 \<le> mo" "mo \<le> 12" "1 \<le> d" "d \<le> 31" and "tz name = Some off" and "name \<noteq> []"
    and "\<bar>c\<bar> \<le> 50400000" and "\<forall>t. \<bar>t - date_utc y mo d 0 0\<bar> \<le> 3 * ms_per_day \<longrightarrow> off t = c"
    and "\<forall>x \<in> set sets. clocked x days (day_key y mo d) \<and> fs_dayIndex x = day"
    and "distinct (map pair_key (pairs (filter (\<lambda>x. pick (fs_id x) \<noteq> None) sets)))"
  shows "map (\<lambda>c. (dc_setA c, dc_setB c)) (detectConflicts sets pick)
      = filter (overlapping (\<lambda>x. getSetTimeBounds tz dv x days (Some name))) (pairs (filter (\<lambda>x. pick (fs_id x) \<noteq> None) sets))
    \<and> (\<forall>c \<in> set (detectConflicts sets pick). 0 < dc_overlapMinutes c
      \<and> dc_hard c = (pick (fs_id (dc_setA c)) = Some Must \<and> pick (fs_id (dc_setB c)) = Some Must))"
proof -
  let ?bounds = "\<lambda>x. getSetTimeBounds tz dv x days (Some name)"
  let ?picked = "filter (\<lambda>x. pick (fs_id x) \<noteq> None) sets"
  have span: "\<exists>s e. clock_span x = Some (s, e) \<and> s < e \<and> ?bounds x = Inr (Some (date_utc y mo d 0 0 - c + 60000 * s, date_utc y mo d 0 0 - c + 60000 * e))"
    if "x \<in> set sets" for x
    using clocked_bounds [of y mo d tz name off c x days dv, OF assms(1-10)] assms(11) that by blast
  have "fs_startTime x \<noteq> [] \<and> fs_endTime x \<noteq> []" if "x \<in> set sets" for x using assms(11) that by (auto simp: clocked_def)
  then have "filter (\<lambda>x. pick (fs_id x) \<noteq> None \<and> fs_startTime x \<noteq> [] \<and> fs_endTime x \<noteq> []) sets = ?picked"
    by (intro filter_cong) auto
  then have detect: "detectConflicts sets pick = List.map_filter (conflict_of pick) (pairs ?picked)"
    using detect_fold [OF assms(12), of "[]" pick "[]"] by (simp add: detectConflicts_def Let_def)
  have each: "(case conflict_of pick p of None \<Rightarrow> \<not> overlapping ?bounds p
      | Some k \<Rightarrow> overlapping ?bounds p \<and> dc_setA k = fst p \<and> dc_setB k = snd p \<and> 0 < dc_overlapMinutes k
          \<and> dc_hard k = (pick (fs_id (fst p)) = Some Must \<and> pick (fs_id (snd p)) = Some Must))" if "p \<in> set (pairs ?picked)" for p
  proof -
    obtain a b where p: "p = (a, b)" by (cases p)
    have ab: "a \<in> set sets" "b \<in> set sets" "pick (fs_id a) \<noteq> None" "pick (fs_id b) \<noteq> None" using in_pairs [of a b ?picked] that by (simp_all add: p)
    obtain s e where a: "clock_span a = Some (s, e)" "s < e"
      "?bounds a = Inr (Some (date_utc y mo d 0 0 - c + 60000 * s, date_utc y mo d 0 0 - c + 60000 * e))" using span [OF ab(1)] by blast
    obtain s' e' where b: "clock_span b = Some (s', e')" "s' < e'"
      "?bounds b = Inr (Some (date_utc y mo d 0 0 - c + 60000 * s', date_utc y mo d 0 0 - c + 60000 * e'))" using span [OF ab(2)] by blast
    have "conflict_of pick p = conflict_on pick a b" using assms(11) ab(1,2) by (auto simp: conflict_of_def p split: option.split)
    then show ?thesis using ab(3,4) a(2) b(2) by (auto simp: conflict_on_def overlapping_def p a(1,3) b(1,3) Let_def)
  qed
  have "map (\<lambda>c. (dc_setA c, dc_setB c)) (List.map_filter (conflict_of pick) ps) = filter (overlapping ?bounds) ps"
    if "set ps \<subseteq> set (pairs ?picked)" for ps
    using that
  proof (induction ps)
    case (Cons p ps)
    then have "p \<in> set (pairs ?picked)" by simp
    from each [OF this] Cons show ?case by (cases "conflict_of pick p") (simp_all add: map_filter_step)
  qed (simp add: List.map_filter_def)
  then have "map (\<lambda>c. (dc_setA c, dc_setB c)) (detectConflicts sets pick) = filter (overlapping ?bounds) (pairs ?picked)"
    by (simp add: detect)
  moreover have "\<forall>c \<in> set (detectConflicts sets pick). 0 < dc_overlapMinutes c
      \<and> dc_hard c = (pick (fs_id (dc_setA c)) = Some Must \<and> pick (fs_id (dc_setB c)) = Some Must)"
  proof
    fix k assume "k \<in> set (detectConflicts sets pick)"
    then obtain p where p: "p \<in> set (pairs ?picked)" "conflict_of pick p = Some k" unfolding detect in_map_filter by blast
    from each [OF p(1)] p(2) show "0 < dc_overlapMinutes k \<and> dc_hard k = (pick (fs_id (dc_setA k)) = Some Must \<and> pick (fs_id (dc_setB k)) = Some Must)"
      by simp
  qed
  ultimately show ?thesis by blast
qed

definition late_a :: festival_set where
  "late_a = ex_timed_set ''a'' (day_key 2026 12 31) (pad2 23 @ '':'' @ pad2 0) (pad2 1 @ '':'' @ pad2 0)"

definition late_b :: festival_set where
  "late_b = ex_timed_set ''b'' (day_key 2026 12 31) (pad2 23 @ '':'' @ pad2 30) (pad2 0 @ '':'' @ pad2 30)"

lemma conflicts_are_overlapping_picks_witness:
  "map (\<lambda>c. (dc_setA c, dc_setB c)) (detectConflicts [late_a, late_b] (\<lambda>_. Some Must)) = [(late_a, late_b)]"
proof -
  let ?tz = "[''America/New_York'' \<mapsto> new_york]"
  let ?bounds = "\<lambda>x. getSetTimeBounds ?tz (utc_device 0) x [] (Some ''America/New_York'')"
  have near: "\<forall>t. \<bar>t - date_utc 2026 12 31 0 0\<bar> \<le> 3 * ms_per_day \<longrightarrow> new_york t = - 18000000"
  proof -
    have "date_utc 2026 12 31 0 0 = 1798675200000" by code_simp
    then show ?thesis by (auto simp: new_york_def ms_per_day_def)
  qed
  have "clocked late_a [] (day_key 2026 12 31)"
    unfolding clocked_def
    by (intro conjI exI [of _ 23] exI [of _ 0] exI [of _ 1] exI [of _ "0 :: int"]) (simp_all add: late_a_def ex_timed_set_def set_date_def)
  moreover have "clocked late_b [] (day_key 2026 12 31)"
    unfolding clocked_def
    by (intro conjI exI [of _ 23] exI [of _ 30] exI [of _ 0] exI [of _ "30 :: int"]) (simp_all add: late_b_def ex_timed_set_def set_date_def)
  ultimately have clocks: "\<forall>x \<in> set [late_a, late_b]. clocked x [] (day_key 2026 12 31) \<and> fs_dayIndex x = None"
    by (simp add: late_a_def late_b_def ex_timed_set_def)
  have pairs: "pairs (filter (\<lambda>x. (\<lambda>_. Some Must) (fs_id x) \<noteq> None) [late_a, late_b]) = [(late_a, late_b)]" by simp
  have keys: "distinct (map pair_key (pairs (filter (\<lambda>x. (\<lambda>_. Some Must) (fs_id x) \<noteq> None) [late_a, late_b])))" unfolding pairs by simp
  have zone: "?tz ''America/New_York'' = Some new_york" "''America/New_York'' \<noteq> []" "\<bar>- 18000000\<bar> \<le> (50400000 :: int)" by simp_all
  have dates: "1000 \<le> (2026 :: int)" "(2026 :: int) < 9999" "1 \<le> (12 :: int)" "(12 :: int) \<le> 12" "1 \<le> (31 :: int)" "(31 :: int) \<le> 31" by simp_all
  from conflicts_are_overlapping_picks [where pick = "\<lambda>_. Some Must" and tz = ?tz and dv = "utc_device 0" and sets = "[late_a, late_b]",
      OF dates zone near clocks keys]
  have "map (\<lambda>c. (dc_setA c, dc_setB c)) (detectConflicts [late_a, late_b] (\<lambda>_. Some Must)) = filter (overlapping ?bounds) [(late_a, late_b)]"
    unfolding pairs by blast
  moreover have "overlapping ?bounds (late_a, late_b)"
  proof -
    have spans: "clock_span late_a = Some (1380, 1500)" "clock_span late_b = Some (1410, 1470)" by code_simp+
    note bounds = clocked_bounds [where tz = ?tz and dv = "utc_device 0", OF dates zone near]
    show ?thesis using bounds [of late_a "[]"] bounds [of late_b "[]"] clocks spans by (auto simp: overlapping_def)
  qed
  ultimately show ?thesis by simp
qed

text \<open>Picks of consecutive days that overlap past midnight conflict with each other by their bounds, but no pair of
  different days is reported.\<close>

definition ex_day :: "string \<Rightarrow> festival_day" where
  "ex_day date = \<lparr>fd_id = date, fd_festivalId = ''f'', fd_date = date, fd_label = None, fd_dayIndex = None, fd_createdAt = [], fd_updatedAt = []\<rparr>"

lemma conflict_across_midnight_missed:
  "let days = [ex_day ''1970-01-02'', ex_day ''1970-01-03''];
       a = (ex_timed_set ''a'' [] ''23:00'' ''02:00'')\<lparr>fs_dayIndex := Some 0\<rparr>; b = (ex_timed_set ''b'' [] ''00:30'' ''02:30'')\<lparr>fs_dayIndex := Some 1\<rparr>
   in overlapping (\<lambda>x. getSetTimeBounds (\<lambda>_. None) (utc_device 0) x days None) (a, b)
      \<and> detectConflicts [a, b] (\<lambda>_. Some Must) = []"
  by code_simp

end
