(* ===== verification/Ongoing_Card.thy ===== *)
theory Ongoing_Card
  imports Schedule_Props
begin

text \<open>
  The sticky card of the running festival: the model of its text and times in
  \<open>packages/shared/src/utils/ongoingNotification.ts\<close> and the hook that keeps one notification (Android)
  or one live activity (iOS) in step with it (\<open>mobile/hooks/useOngoingNotification.ts\<close>).

  The parser and the collation of dates are the platform's; the middle dot is the character of
  code point B7.
\<close>

record ongoing_input =
  oi_set :: festival_set
  oi_name :: string
  oi_stageName :: "string option"

record ongoing_set =
  os_id :: string
  os_name :: string
  os_stageName :: "string option"
  os_startMs :: int
  os_endMs :: int

datatype focus_kind = FocusNow | FocusNext

record ongoing_model =
  om_active :: bool
  om_title :: "string option"
  om_body :: "string option"
  om_focus :: "(string \<times> string \<times> focus_kind) option"
  om_meetingPointLabel :: "string option"

definition LEAD_IN_MS :: int where
  "LEAD_IN_MS = 60 * 60000"

definition LINGER_MS :: int where
  "LINGER_MS = 30 * 60000"

definition toTimedSets ::
  "zone_db \<Rightarrow> device \<Rightarrow> ongoing_input list \<Rightarrow> festival_day list \<Rightarrow> js_error + ongoing_set list" where
  "toTimedSets tz dv sets days =
     collect (\<lambda>x. map_sum id (map_option (\<lambda>(s, e). \<lparr>os_id = fs_id (oi_set x), os_name = oi_name x, os_stageName = oi_stageName x,
         os_startMs = s, os_endMs = e\<rparr>)) (getSetTimeBounds tz dv (oi_set x) days None)) sets"

text \<open>The most recent point, of the active ones where there is one.\<close>

definition newer_point ::
  "(string \<Rightarrow> int option) \<Rightarrow> (string \<Rightarrow> string \<Rightarrow> int) \<Rightarrow> meeting_point \<Rightarrow> meeting_point \<Rightarrow> int" where
  "newer_point parse locale a b =
     (case (parse (mp_created_at a), parse (mp_created_at b)) of
        (Some s, Some t) \<Rightarrow> t - s
      | _ \<Rightarrow> locale (mp_created_at b) (mp_created_at a))"

definition pickOngoingMeetingPoint ::
  "(string \<Rightarrow> int option) \<Rightarrow> (string \<Rightarrow> string \<Rightarrow> int) \<Rightarrow> meeting_point list \<Rightarrow> meeting_point option" where
  "pickOngoingMeetingPoint parse locale points =
     (let flagged = filter mp_active points; pool = if flagged \<noteq> [] then flagged else points
      in case js_sort (newer_point parse locale) pool of [] \<Rightarrow> None | p # ps \<Rightarrow> Some p)"

definition card_countdown :: "int \<Rightarrow> string" where
  "card_countdown ms =
     (let mins = max 0 (js_round (of_int ms / 60000))
      in if mins < 1 then ''now''
         else if mins < 60 then show_int mins @ ''m''
         else let h = mins div 60; m = mins mod 60
           in if m \<noteq> 0 then show_int h @ ''h '' @ show_int m @ ''m'' else show_int h @ ''h'')"

definition mid_dot :: string where
  "mid_dot = '' '' @ [CHR 0xB7] @ '' ''"

definition inactive_model :: ongoing_model where
  "inactive_model = \<lparr>om_active = False, om_title = None, om_body = None, om_focus = None, om_meetingPointLabel = None\<rparr>"

definition meeting_line :: "meeting_point \<Rightarrow> string" where
  "meeting_line p = ''Meet: '' @ mp_label p @ (if mp_location p \<noteq> [] then '' ('' @ mp_location p @ '')'' else []) @ mid_dot @ ''last-synced''"

definition set_line :: "ongoing_set \<Rightarrow> string" where
  "set_line x = (if filled (os_stageName x) then os_name x @ mid_dot @ the (os_stageName x) else os_name x)"

definition shown_model :: "device \<Rightarrow> int \<Rightarrow> ongoing_set list \<Rightarrow> meeting_point option \<Rightarrow> ongoing_model" where
  "shown_model dv now timed mp =
     (let current = js_sort (by_key os_endMs) (filter (\<lambda>x. os_startMs x \<le> now \<and> now < os_endMs x) timed);
          upcoming = js_sort (by_key os_startMs) (filter (\<lambda>x. now < os_startMs x) timed);
          below = (\<lambda>context. case mp of Some p \<Rightarrow> context @ [CHR 0x0A] @ meeting_line p | None \<Rightarrow> context);
          label = map_option mp_label mp
      in case (current, upcoming) of
           (x # xs, _) \<Rightarrow>
             \<lparr>om_active = True, om_title = Some (''Now: '' @ os_name x),
              om_body = Some (below (set_line x @ mid_dot @ ''until '' @ fmtClock dv (os_endMs x))),
              om_focus = Some (os_id x, os_name x, FocusNow), om_meetingPointLabel = label\<rparr>
         | ([], x # xs) \<Rightarrow>
             (let inLabel = card_countdown (os_startMs x - now) in
              \<lparr>om_active = True, om_title = Some (''Next: '' @ os_name x @ '' in '' @ inLabel),
               om_body = Some (below (set_line x @ mid_dot @ fmtClock dv (os_startMs x) @ '' (in '' @ inLabel @ '')'')),
               om_focus = Some (os_id x, os_name x, FocusNext), om_meetingPointLabel = label\<rparr>)
         | ([], []) \<Rightarrow>
             \<lparr>om_active = True, om_title = Some ''Festival mode'',
              om_body = Some (case mp of Some p \<Rightarrow> meeting_line p | None \<Rightarrow> ''No more picks coming up.''),
              om_focus = None, om_meetingPointLabel = label\<rparr>)"

definition window_open :: "int \<Rightarrow> ongoing_set list \<Rightarrow> bool" where
  "window_open now timed \<longleftrightarrow> timed \<noteq> []
     \<and> Min (set (map os_startMs timed)) - LEAD_IN_MS \<le> now \<and> now \<le> Max (set (map os_endMs timed)) + LINGER_MS"

definition buildOngoingNotificationModel ::
  "zone_db \<Rightarrow> device \<Rightarrow> (string \<Rightarrow> int option) \<Rightarrow> (string \<Rightarrow> string \<Rightarrow> int) \<Rightarrow> ongoing_input list \<Rightarrow> festival_day list
    \<Rightarrow> meeting_point list \<Rightarrow> int \<Rightarrow> js_error + ongoing_model" where
  "buildOngoingNotificationModel tz dv parse locale sets days points now =
     map_sum id (\<lambda>timed. if window_open now timed then shown_model dv now timed (pickOngoingMeetingPoint parse locale points)
                         else inactive_model) (toTimedSets tz dv sets days)"

subsection \<open>The hook\<close>

definition ongoingSets ::
  "(string \<Rightarrow> string option) \<Rightarrow> string option \<Rightarrow> (string \<times> priority) list option \<Rightarrow> festival_set list \<Rightarrow> ongoing_input list" where
  "ongoingSets getStageName b2b picks sets =
     (case picks of
        None \<Rightarrow> []
      | Some ps \<Rightarrow> map (\<lambda>x. \<lparr>oi_set = x, oi_name = artistDisplayName x b2b, oi_stageName = getStageName (fs_stageId x)\<rparr>)
          (filter (\<lambda>x. map_of ps (fs_id x) \<noteq> None) sets))"

text \<open>The card the system shows under the one identifier, what was put there last, and how often
  the system was asked to show one.\<close>

record card_state =
  cd_shown :: "(string \<times> string) option"
  cd_last :: "string option"
  cd_posts :: nat

definition cancelOngoing :: "card_state \<Rightarrow> card_state" where
  "cancelOngoing s = s\<lparr>cd_shown := None, cd_last := None\<rparr>"

definition android_effect :: "bool \<Rightarrow> bool \<Rightarrow> ongoing_model \<Rightarrow> card_state \<Rightarrow> card_state" where
  "android_effect enabled festival m s =
     (if \<not> enabled \<or> \<not> festival \<or> \<not> om_active m \<or> \<not> filled (om_title m) \<or> \<not> filled (om_body m) then cancelOngoing s
      else let signature = the (om_title m) @ the (om_body m)
        in if Some signature = cd_last s then s
           else s\<lparr>cd_shown := Some (the (om_title m), the (om_body m)), cd_last := Some signature, cd_posts := Suc (cd_posts s)\<rparr>)"

subsection \<open>Card and list\<close>

lemma insert_by_map: "insert_by cmp (f x) (map f xs) = map f (insert_by (\<lambda>a b. cmp (f a) (f b)) x xs)"
  by (induction xs) auto

lemma js_sort_map: "js_sort cmp (map f xs) = map f (js_sort (\<lambda>a b. cmp (f a) (f b)) xs)"
  by (induction xs) (simp_all add: insert_by_map)

definition card_entry :: "(string \<Rightarrow> string option) \<Rightarrow> string option \<Rightarrow> timed_set \<Rightarrow> ongoing_set" where
  "card_entry getStageName b2b x =
     \<lparr>os_id = fs_id (td_set x), os_name = artistDisplayName (td_set x) b2b, os_stageName = getStageName (fs_stageId (td_set x)),
      os_startMs = td_start x, os_endMs = td_end x\<rparr>"

lemma card_entry_sel [simp]:
  "os_startMs (card_entry g b x) = td_start x" "os_endMs (card_entry g b x) = td_end x" "os_id (card_entry g b x) = fs_id (td_set x)"
  "os_name (card_entry g b x) = artistDisplayName (td_set x) b"
  by (simp_all add: card_entry_def)

lemma card_times:
  assumes "collect (timed_of tz dv ps days) sets = Inr timed"
  shows "toTimedSets tz dv (ongoingSets g b (Some ps) sets) days = Inr (map (card_entry g b) timed)"
  using assms
proof (induction sets arbitrary: timed)
  case (Cons x xs)
  show ?case
  proof (cases "map_of ps (fs_id x)")
    case None
    with Cons show ?thesis by (simp add: timed_of_def ongoingSets_def toTimedSets_def)
  next
    case (Some p)
    obtain r where r: "getSetTimeBounds tz dv x days None = Inr r"
      using Cons.prems Some by (cases "getSetTimeBounds tz dv x days None") (simp_all add: timed_of_def)
    have t: "timed_of tz dv ps days x = Inr (map_option (\<lambda>(s, e). \<lparr>td_set = x, td_start = s, td_end = e, td_priority = p\<rparr>) r)"
      by (simp add: timed_of_def Some r)
    obtain zs where zs: "collect (timed_of tz dv ps days) xs = Inr zs"
      using Cons.prems t by (cases "collect (timed_of tz dv ps days) xs"; cases r) auto
    show ?thesis
      using Cons.IH [OF zs] Cons.prems Some r zs t
      by (cases r) (auto simp: ongoingSets_def toTimedSets_def card_entry_def)
  qed
qed (simp add: ongoingSets_def toTimedSets_def)

text \<open>The card and the list of now and next never disagree: for the same picks, sets and clock the
  card speaks of the first set that plays, or else of the first that comes, and whenever one of the
  user's sets plays the card is up, whatever the other sets and the meeting points are.\<close>

theorem card_shows_now_next:
  assumes list: "nowNext tz dv (Some ps) sets days now limit = Inr (current, upcoming)" and days: "sets \<noteq> []" "days \<noteq> []" and limit: "0 < limit"
    and card: "buildOngoingNotificationModel tz dv parse locale (ongoingSets g b (Some ps) sets) days points now = Inr m"
  shows "(om_active m \<and> om_focus m =
        (case (current, upcoming) of
           (x # _, _) \<Rightarrow> Some (fs_id (td_set x), artistDisplayName (td_set x) b, FocusNow)
         | ([], x # _) \<Rightarrow> Some (fs_id (td_set x), artistDisplayName (td_set x) b, FocusNext)
         | ([], []) \<Rightarrow> None)
      \<or> m = inactive_model \<and> current = [])
    \<and> (current \<noteq> [] \<longrightarrow> om_active m)"
proof -
  obtain timed where timed: "collect (timed_of tz dv ps days) sets = Inr timed"
    and cur: "current = js_sort (by_key td_end) (filter (\<lambda>x. td_start x \<le> now \<and> now < td_end x) timed)"
    and up: "upcoming = take limit (js_sort (by_key td_start) (filter (\<lambda>x. now < td_start x) timed))"
    using list days by (cases "collect (timed_of tz dv ps days) sets") (auto simp: nowNext_def)
  let ?c = "card_entry g b"
  have m: "m = (if window_open now (map ?c timed) then shown_model dv now (map ?c timed) (pickOngoingMeetingPoint parse locale points) else inactive_model)"
    using card card_times [OF timed] by (simp add: buildOngoingNotificationModel_def)
  have sorted: "js_sort (by_key os_endMs) (filter (\<lambda>x. os_startMs x \<le> now \<and> now < os_endMs x) (map ?c timed)) = map ?c current"
    "js_sort (by_key os_startMs) (filter (\<lambda>x. now < os_startMs x) (map ?c timed))
       = map ?c (js_sort (by_key td_start) (filter (\<lambda>x. now < td_start x) timed))"
    by (simp_all add: filter_map js_sort_map cur o_def by_key_def [abs_def])
  define later where "later = js_sort (by_key td_start) (filter (\<lambda>x. now < td_start x) timed)"
  have up_hd: "upcoming = [] \<and> later = [] \<or> (\<exists>x xs ys. later = x # xs \<and> upcoming = x # ys)"
    using limit unfolding up later_def [symmetric] by (cases later; cases limit) auto
  have focus: "om_active (shown_model dv now (map ?c timed) mp) \<and> om_focus (shown_model dv now (map ?c timed) mp) =
        (case (current, upcoming) of
           (x # _, _) \<Rightarrow> Some (fs_id (td_set x), artistDisplayName (td_set x) b, FocusNow)
         | ([], x # _) \<Rightarrow> Some (fs_id (td_set x), artistDisplayName (td_set x) b, FocusNext)
         | ([], []) \<Rightarrow> None)" for mp
    using up_hd
    by (cases current; cases upcoming) (auto simp: shown_model_def sorted later_def [symmetric] Let_def)
  have plays: "window_open now (map ?c timed)" if playing: "current \<noteq> []"
  proof -
    obtain x where x: "x \<in> set timed" "td_start x \<le> now" "now < td_end x"
      using playing unfolding cur by (auto simp: filter_empty_conv)
    have "Min (td_start ` set timed) \<le> td_start x" "td_end x \<le> Max (td_end ` set timed)" using x(1) by simp_all
    then have "Min (td_start ` set timed) - LEAD_IN_MS \<le> now" "now \<le> Max (td_end ` set timed) + LINGER_MS"
      using x(2,3) unfolding LEAD_IN_MS_def LINGER_MS_def by linarith+
    moreover have "timed \<noteq> []" using x(1) by auto
    ultimately show ?thesis unfolding window_open_def by (simp add: image_image o_def)
  qed
  show ?thesis using focus plays m by (auto simp: inactive_model_def)
qed

lemma card_shows_now_next_witness:
  "let x = ex_timed_set ''x'' ''1970-01-02'' ''00:00'' ''01:00''; dv = utc_device 0
   in \<exists>m. buildOngoingNotificationModel (\<lambda>_. None) dv (\<lambda>_. None) (\<lambda>_ _. 0) (ongoingSets (\<lambda>_. None) None (Some [(''x'', Must)]) [x])
            [ex_day ''1970-01-02''] [] 86400000 = Inr m \<and> om_active m"
proof -
  let ?x = "ex_timed_set ''x'' ''1970-01-02'' ''00:00'' ''01:00''" and ?dv = "utc_device 0" and ?none = "\<lambda>_. None"
  let ?l = "nowNext ?none ?dv (Some [(''x'', Must)]) [?x] [ex_day ''1970-01-02''] 86400000 5"
  let ?m = "buildOngoingNotificationModel ?none ?dv ?none (\<lambda>_ _. 0) (ongoingSets ?none None (Some [(''x'', Must)]) [?x])
            [ex_day ''1970-01-02''] [] 86400000"
  have "case ?l of Inr (c, u) \<Rightarrow> c \<noteq> [] | Inl e \<Rightarrow> False" and "case ?m of Inr m \<Rightarrow> True | Inl e \<Rightarrow> False" by code_simp+
  then obtain cur up m where l: "?l = Inr (cur, up)" and c: "cur \<noteq> []" and m: "?m = Inr m" by (auto split: sum.splits)
  show ?thesis using card_shows_now_next [OF l _ _ _ m] c m by (auto simp: Let_def)
qed

end
