(* ===== verification/Connectivity.thy ===== *)
theory Connectivity
  imports Prelude
begin

text \<open>
  When the mobile app believes it is offline: \<open>mobile/lib/connectivityHysteresis.ts\<close> and the listener,
  the flip timer and the retry timer of \<open>mobile/components/OfflineBanner.tsx\<close>.

  Only what the radio reports is modelled; a failed request sets the offline flag on its own
  (\<open>services/api.ts\<close>).  Times are milliseconds.  A drain of the queue is an entry of the log; how many
  writes it leaves is an argument.
\<close>

definition OFFLINE_CONFIRM_MS :: int where
  "OFFLINE_CONFIRM_MS = 5000"

definition ONLINE_CONFIRM_MS :: int where
  "ONLINE_CONFIRM_MS = 1000"

datatype flap_action = Commit | Schedule int | Cancel | Ignore

definition decideFlap :: "bool \<Rightarrow> bool \<Rightarrow> bool option \<Rightarrow> bool \<Rightarrow> flap_action" where
  "decideFlap online currentOffline pendingOnline firstEvent =
     (if firstEvent then Commit
      else if currentOffline = (\<not> online) then (if pendingOnline = Some False then Ignore else Cancel)
      else if pendingOnline = Some online then Ignore
      else Schedule (if online then ONLINE_CONFIRM_MS else OFFLINE_CONFIRM_MS))"

text \<open>The flag of the store, the armed flip with its time, what was reported last, whether a report is the first
  one, and the drains started.\<close>

record net_state =
  nt_offline :: bool
  nt_flip :: "(bool \<times> int) option"
  nt_last :: "bool option"
  nt_first :: bool
  nt_drains :: "int list"

definition net_initial :: net_state where
  "net_initial = \<lparr>nt_offline = False, nt_flip = None, nt_last = None, nt_first = True, nt_drains = []\<rparr>"

definition drain_if :: "bool \<Rightarrow> int \<Rightarrow> net_state \<Rightarrow> net_state" where
  "drain_if online now s = (if online then s\<lparr>nt_drains := nt_drains s @ [now]\<rparr> else s)"

definition commit_net :: "bool \<Rightarrow> int \<Rightarrow> net_state \<Rightarrow> net_state" where
  "commit_net online now s = drain_if online now (s\<lparr>nt_offline := \<not> online\<rparr>)"

definition net_event :: "int \<Rightarrow> bool \<Rightarrow> net_state \<Rightarrow> net_state" where
  "net_event now online s =
     (let s1 = s\<lparr>nt_last := Some online, nt_first := False\<rparr>
      in case decideFlap online (nt_offline s) (map_option fst (nt_flip s)) (nt_first s) of
           Ignore \<Rightarrow> drain_if online now s1
         | Cancel \<Rightarrow> drain_if online now (s1\<lparr>nt_flip := None\<rparr>)
         | Commit \<Rightarrow> commit_net online now (s1\<lparr>nt_flip := None\<rparr>)
         | Schedule delay \<Rightarrow> s1\<lparr>nt_flip := Some (online, now + delay)\<rparr>)"

text \<open>The timer, once its time has come.\<close>

definition flip_due :: "int \<Rightarrow> net_state \<Rightarrow> net_state" where
  "flip_due now s =
     (case nt_flip s of
        None \<Rightarrow> s
      | Some (online, due) \<Rightarrow>
          if now < due then s
          else let s1 = s\<lparr>nt_flip := None\<rparr>
            in if nt_last s \<noteq> None \<and> nt_last s \<noteq> Some online then s1 else commit_net online due s1)"

text \<open>Reports in the order of their times; a timer that is due fires before the next report.\<close>

definition net_step :: "int \<times> bool \<Rightarrow> net_state \<Rightarrow> net_state" where
  "net_step r s = (case r of (now, online) \<Rightarrow> net_event now online (flip_due now s))"

subsection \<open>The retry timer\<close>

record retry_state =
  ry_due :: "int option"
  ry_backoff :: int

definition retry_initial :: retry_state where
  "retry_initial = \<lparr>ry_due = None, ry_backoff = 15000\<rparr>"

definition clearRetryTimer :: "retry_state \<Rightarrow> retry_state" where
  "clearRetryTimer s = s\<lparr>ry_due := None, ry_backoff := 15000\<rparr>"

definition scheduleRetry :: "int \<Rightarrow> retry_state \<Rightarrow> retry_state" where
  "scheduleRetry now s =
     (case ry_due s of
        Some t \<Rightarrow> s
      | None \<Rightarrow> s\<lparr>ry_due := Some (now + ry_backoff s), ry_backoff := min (ry_backoff s * 2) 60000\<rparr>)"

text \<open>The end of a drain: \<open>stillPending\<close> writes are left.\<close>

definition drain_ended :: "int \<Rightarrow> bool \<Rightarrow> nat \<Rightarrow> retry_state \<Rightarrow> retry_state" where
  "drain_ended now stillOffline stillPending s =
     (if \<not> stillOffline \<and> 0 < stillPending then scheduleRetry now s else clearRetryTimer s)"

definition retry_fires :: "retry_state \<Rightarrow> retry_state" where
  "retry_fires s = s\<lparr>ry_due := None\<rparr>"

subsection \<open>The flag follows the radio\<close>

definition confirm_ms :: "bool \<Rightarrow> int" where
  "confirm_ms online = (if online then ONLINE_CONFIRM_MS else OFFLINE_CONFIRM_MS)"

definition armed_ok :: "int \<Rightarrow> net_state \<Rightarrow> bool" where
  "armed_ok now s \<longleftrightarrow>
     (case nt_flip s of None \<Rightarrow> True | Some (online, due) \<Rightarrow> nt_offline s = online \<and> due \<le> now + confirm_ms online)
     \<and> (nt_first s \<longrightarrow> nt_flip s = None)"

lemma armed_later: "armed_ok t s \<Longrightarrow> t \<le> t' \<Longrightarrow> armed_ok t' s"
  by (auto simp: armed_ok_def split: option.splits)

lemma armed_flip: "armed_ok t s \<Longrightarrow> armed_ok t (flip_due t' s)"
  by (auto simp: armed_ok_def flip_due_def commit_net_def drain_if_def Let_def split: option.splits)

lemma armed_event: "armed_ok t s \<Longrightarrow> armed_ok t (net_event t b s)"
  by (cases "nt_flip s"; cases b; cases "nt_offline s"; cases "nt_first s")
    (auto simp: armed_ok_def net_event_def decideFlap_def commit_net_def drain_if_def confirm_ms_def Let_def)

lemma flip_keeps [simp]: "nt_last (flip_due t s) = nt_last s" "nt_first (flip_due t s) = nt_first s"
  by (auto simp: flip_due_def commit_net_def drain_if_def Let_def split: option.splits)

lemma event_last [simp]: "nt_last (net_event t b s) = Some b" "\<not> nt_first (net_event t b s)"
  by (auto simp: net_event_def decideFlap_def commit_net_def drain_if_def Let_def)

text \<open>What holds from a report of \<open>b\<close> at \<open>t\<close> on, as long as the reports say \<open>b\<close>: the flag says so, or a flip to it is
  armed and due in time.\<close>

definition settling :: "bool \<Rightarrow> int \<Rightarrow> net_state \<Rightarrow> bool" where
  "settling b t s \<longleftrightarrow> nt_last s = Some b \<and> \<not> nt_first s
     \<and> (nt_offline s = (\<not> b) \<and> (case nt_flip s of Some (online, due) \<Rightarrow> online \<noteq> b | None \<Rightarrow> True)
        \<or> (\<exists>due. nt_flip s = Some (b, due) \<and> due \<le> t + confirm_ms b))"

lemma settling_start: "armed_ok t s \<Longrightarrow> settling b t (net_event t b s)"
  by (cases "nt_flip s"; cases b; cases "nt_offline s"; cases "nt_first s")
    (auto simp: armed_ok_def settling_def net_event_def decideFlap_def commit_net_def drain_if_def confirm_ms_def Let_def)

lemma settling_flip: "settling b t s \<Longrightarrow> settling b t (flip_due t' s)"
  by (auto simp: settling_def flip_due_def commit_net_def drain_if_def Let_def split: option.splits if_splits)

lemma settling_event: "settling b t s \<Longrightarrow> armed_ok t' s \<Longrightarrow> settling b t (net_event t' b s)"
  by (cases "nt_flip s"; cases b; cases "nt_offline s")
    (auto simp: armed_ok_def settling_def net_event_def decideFlap_def commit_net_def drain_if_def Let_def split_beta)

lemma flip_settled: "settling b t s \<Longrightarrow> t + confirm_ms b \<le> t' \<Longrightarrow> nt_offline (flip_due t' s) = (\<not> b)"
  by (auto simp: settling_def flip_due_def commit_net_def drain_if_def Let_def split: option.splits if_splits)

lemma run_armed: "sorted (map fst rs) \<Longrightarrow> \<forall>r \<in> set rs. t \<le> fst r \<Longrightarrow> armed_ok t s \<Longrightarrow>
    armed_ok (if rs = [] then t else fst (last rs)) (fold net_step rs s)"
proof (induction rs arbitrary: t s)
  case (Cons r rs)
  have "armed_ok (fst r) (net_step r s)"
    using Cons.prems by (auto simp: net_step_def intro!: armed_event armed_flip intro: armed_later split: prod.split)
  with Cons.IH [of "fst r" "net_step r s"] Cons.prems show ?case by auto
qed simp

text \<open>The offline bar tells the truth in time: whatever the radio reported before, once it reports one state
  without a break the app shows that state at the latest five seconds later when it is offline and one
  second later when it is online.  However fast the radio flapped before, the wait does not start again.\<close>

theorem bar_follows_radio:
  assumes "sorted (map fst (before @ (t, b) # after))" and "list_all (\<lambda>r. snd r = b) after"
    and "t + confirm_ms b \<le> now"
  shows "nt_offline (flip_due now (fold net_step (before @ (t, b) # after) net_initial)) = (\<not> b)"
proof -
  define t0 where "t0 = (if before = [] then t else fst (hd before))"
  have "sorted (map fst before)" "\<forall>r \<in> set before. fst r \<le> t" "sorted (t # map fst after)"
    using assms(1) by (auto simp: sorted_append)
  have "armed_ok t0 net_initial" by (simp add: armed_ok_def net_initial_def)
  moreover have "\<forall>r \<in> set before. t0 \<le> fst r" using \<open>sorted (map fst before)\<close> by (cases before) (auto simp: t0_def)
  ultimately have "armed_ok (if before = [] then t0 else fst (last before)) (fold net_step before net_initial)"
    using \<open>sorted (map fst before)\<close> by (intro run_armed)
  moreover have "(if before = [] then t0 else fst (last before)) \<le> t" using \<open>\<forall>r \<in> set before. fst r \<le> t\<close> by (auto simp: t0_def)
  ultimately have s1: "armed_ok t (fold net_step before net_initial)" by (rule armed_later)
  let ?s = "net_step (t, b) (fold net_step before net_initial)"
  have "armed_ok t ?s" "settling b t ?s"
    using s1 by (auto simp: net_step_def intro!: armed_event settling_start armed_flip)
  then have "settling b t (fold net_step after ?s)"
    using \<open>sorted (t # map fst after)\<close> assms(2)
  proof (induction after arbitrary: t0 rule: rev_induct)
    case (snoc r rs)
    obtain u where r: "r = (u, b)" using snoc.prems by (cases r) auto
    have "armed_ok (if rs = [] then t else fst (last rs)) (fold net_step rs ?s)"
      using snoc.prems by (intro run_armed) (auto simp: sorted_append)
    moreover have "(if rs = [] then t else fst (last rs)) \<le> u" using snoc.prems by (auto simp: r sorted_append)
    ultimately have "armed_ok u (fold net_step rs ?s)" by (rule armed_later)
    moreover have "settling b t (fold net_step rs ?s)" using snoc by (auto simp: sorted_append)
    ultimately have "settling b t (net_event u b (flip_due u (fold net_step rs ?s)))"
      by (intro settling_event settling_flip armed_flip)
    then show ?case by (simp add: r net_step_def [of "(u, b)"])
  qed simp
  then show ?thesis using flip_settled assms(3) by simp
qed

lemma bar_follows_radio_witness:
  "nt_offline (flip_due 9000 (fold net_step ([(0, True), (1000, False), (2000, True), (3000, False)] @ (4000, False) # []) net_initial)) = (\<not> False)"
  by (rule bar_follows_radio) (simp_all add: confirm_ms_def OFFLINE_CONFIRM_MS_def)

lemma blip_run:
  assumes "\<not> nt_offline s" "nt_flip s = Some (False, due)" "\<not> nt_first s" and "list_all (\<lambda>r. fst r < due) rs"
  shows "\<not> nt_offline (fold net_step rs s) \<and> nt_flip (fold net_step rs s) = Some (False, due) \<and> \<not> nt_first (fold net_step rs s)"
  using assms
proof (induction rs arbitrary: s)
  case (Cons r rs)
  obtain u b where r: "r = (u, b)" by (cases r)
  have "flip_due u s = s" using Cons.prems by (simp add: r flip_due_def)
  then have "\<not> nt_offline (net_step r s) \<and> nt_flip (net_step r s) = Some (False, due) \<and> \<not> nt_first (net_step r s)"
    using Cons.prems by (cases b) (simp_all add: r net_step_def net_event_def decideFlap_def drain_if_def Let_def)
  with Cons show ?case by simp
qed simp

text \<open>A blip does not show: when the app shows online, an outage that is over before its five seconds are up --
  the radio may flap in between, but its last report is online -- never sets the offline flag, neither on
  the way nor when the timer fires.\<close>

theorem blip_not_shown:
  assumes "\<not> nt_offline s" "nt_flip s = None" "\<not> nt_first s"
    and "list_all (\<lambda>r. fst r < t + OFFLINE_CONFIRM_MS) (rs @ [(u, True)])"
  shows "\<not> nt_offline (flip_due now (fold net_step ((t, False) # rs @ [(u, True)]) s))
    \<and> \<not> nt_offline (fold net_step (take k ((t, False) # rs @ [(u, True)])) s)"
proof -
  let ?s = "net_step (t, False) s"
  have s: "\<not> nt_offline ?s" "nt_flip ?s = Some (False, t + OFFLINE_CONFIRM_MS)" "\<not> nt_first ?s"
    using assms(1-3) by (simp_all add: net_step_def net_event_def flip_due_def decideFlap_def Let_def)
  have "nt_last (fold net_step (rs @ [(u, True)]) ?s) = Some True" by (simp add: net_step_def)
  then have fired: "\<not> nt_offline (flip_due now (fold net_step (rs @ [(u, True)]) ?s))"
    using blip_run [OF s assms(4)] by (simp add: flip_due_def)
  have "list_all (\<lambda>r. fst r < t + OFFLINE_CONFIRM_MS) (take j (rs @ [(u, True)]))" for j
    using assms(4) set_take_subset [of j "rs @ [(u, True)]"] by (auto simp: list_all_iff)
  then have "\<not> nt_offline (fold net_step (take j (rs @ [(u, True)])) ?s)" for j
    using blip_run [OF s] by blast
  then have "\<not> nt_offline (fold net_step (take k ((t, False) # rs @ [(u, True)])) s)" using assms(1) by (cases k) simp_all
  with fired show ?thesis by simp
qed

lemma blip_not_shown_witness:
  "\<not> nt_offline (flip_due 20000 (fold net_step ((1000, False) # [(1500, True), (2000, False)] @ [(5900, True)]) (net_step (0, True) net_initial)))"
  using blip_not_shown [of "net_step (0, True) net_initial" 1000 "[(1500, True), (2000, False)]" 5900 20000 0]
  by (simp add: net_step_def net_event_def flip_due_def decideFlap_def commit_net_def drain_if_def net_initial_def OFFLINE_CONFIRM_MS_def Let_def)

text \<open>While writes are left and the app is online a retry is always armed, at most a minute ahead.\<close>

lemma retries_go_on:
  assumes "15000 \<le> ry_backoff s" "ry_backoff s \<le> 60000" and "case ry_due s of Some t \<Rightarrow> t \<le> now + 60000 | None \<Rightarrow> True"
  shows "\<exists>t. ry_due (drain_ended now False (Suc n) s) = Some t \<and> t \<le> now + 60000"
    and "15000 \<le> ry_backoff (drain_ended now off n s)" "ry_backoff (drain_ended now off n s) \<le> 60000"
  using assms by (auto simp: drain_ended_def scheduleRetry_def clearRetryTimer_def split: option.splits)

end
