(* ===== verification/Push_Store.thy ===== *)
theory Push_Store
  imports Wall_Clock
begin

text \<open>
  The tables behind push notifications: \<open>lib/db/stores/notifications.ts\<close> (device tokens, preferences,
  the delivery log, unread counts).  Topic subscriptions are with the crew boards.

  A statement is its effect on the rows; \<open>now\<close> is \<open>NOW()\<close> of the database and the clock of the server.
  \<open>data_json\<close> is the object's keys and values, as the service writes them.
\<close>

record device_row =
  dt_id :: string
  dt_userId :: string
  dt_token :: string
  dt_platform :: string
  dt_deviceName :: "string option"
  dt_createdAt :: int
  dt_lastUsedAt :: int
  dt_expiresAt :: "int option"

record notif_prefs =
  nf_userId :: string
  nf_crewUpdates :: "int option"
  nf_setReminders :: "int option"
  nf_scheduleChanges :: "int option"
  nf_lineupDrops :: "int option"
  nf_crewReformed :: "int option"
  nf_wrapReady :: "int option"
  nf_dndStart :: "string option"
  nf_dndEnd :: "string option"

record log_row =
  nl_id :: string
  nl_userId :: string
  nl_type :: string
  nl_title :: string
  nl_body :: string
  nl_data :: "(string \<times> string) list option"
  nl_status :: string
  nl_platform :: "string option"
  nl_errorMessage :: "string option"
  nl_createdAt :: int
  nl_deliveredAt :: "int option"

record count_row =
  nc_userId :: string
  nc_festivalId :: string
  nc_updates :: nat

record push_db =
  pd_tokens :: "device_row list"
  pd_prefs :: "notif_prefs list"
  pd_log :: "log_row list"
  pd_counts :: "count_row list"

definition push_db0 :: push_db where
  "push_db0 = \<lparr>pd_tokens = [], pd_prefs = [], pd_log = [], pd_counts = []\<rparr>"

subsection \<open>Device tokens\<close>

definition token_live :: "int \<Rightarrow> device_row \<Rightarrow> bool" where
  "token_live now d \<longleftrightarrow> (case dt_expiresAt d of None \<Rightarrow> True | Some t \<Rightarrow> now < t)"

definition TOKEN_TTL_MS :: int where
  "TOKEN_TTL_MS = 7776000000"

definition tokens_register :: "int \<Rightarrow> string \<Rightarrow> string \<Rightarrow> string \<Rightarrow> string \<Rightarrow> string option \<Rightarrow> push_db \<Rightarrow> push_db" where
  "tokens_register now i userId token platform deviceName s =
     (let name = (case deviceName of Some n \<Rightarrow> if n = [] then None else Some n | None \<Rightarrow> None);
          p = (if platform = [] then ''web'' else platform)
      in if \<exists>d \<in> set (pd_tokens s). dt_token d = token
         then s\<lparr>pd_tokens := map (\<lambda>d. if dt_token d = token
             then d\<lparr>dt_userId := userId, dt_platform := p, dt_deviceName := name, dt_lastUsedAt := now, dt_expiresAt := Some (now + TOKEN_TTL_MS)\<rparr>
             else d) (pd_tokens s)\<rparr>
         else s\<lparr>pd_tokens := pd_tokens s @ [\<lparr>dt_id = i, dt_userId = userId, dt_token = token, dt_platform = p, dt_deviceName = name,
             dt_createdAt = now, dt_lastUsedAt = now, dt_expiresAt = Some (now + TOKEN_TTL_MS)\<rparr>]\<rparr>)"

definition getTokenOwner :: "int \<Rightarrow> string \<Rightarrow> push_db \<Rightarrow> string option" where
  "getTokenOwner now token s = map_option dt_userId (find (\<lambda>d. dt_token d = token \<and> token_live now d) (pd_tokens s))"

definition tokens_unregister :: "string \<Rightarrow> string \<Rightarrow> push_db \<Rightarrow> push_db" where
  "tokens_unregister token userId s = s\<lparr>pd_tokens := filter (\<lambda>d. \<not> (dt_token d = token \<and> dt_userId d = userId)) (pd_tokens s)\<rparr>"

text \<open>\<open>ORDER BY last_used_at DESC\<close>; rows of the same instant in the order of the table.\<close>

definition tokens_listByUser :: "int \<Rightarrow> string \<Rightarrow> push_db \<Rightarrow> device_row list" where
  "tokens_listByUser now userId s =
     js_sort (by_key (\<lambda>d. - dt_lastUsedAt d)) (filter (\<lambda>d. dt_userId d = userId \<and> token_live now d) (pd_tokens s))"

definition tokens_deleteByUser :: "string \<Rightarrow> push_db \<Rightarrow> push_db" where
  "tokens_deleteByUser userId s = s\<lparr>pd_tokens := filter (\<lambda>d. dt_userId d \<noteq> userId) (pd_tokens s)\<rparr>"

definition tokens_deleteStale :: "int \<Rightarrow> int option \<Rightarrow> push_db \<Rightarrow> push_db" where
  "tokens_deleteStale now daysOld s =
     (let n = (case daysOld of Some k \<Rightarrow> if k = 0 then 270 else k | None \<Rightarrow> 270); days = max 1 (min 3650 n)
      in s\<lparr>pd_tokens := filter (\<lambda>d. \<not> dt_lastUsedAt d < now - days * ms_per_day) (pd_tokens s)\<rparr>)"

definition tokens_deleteExpired :: "int \<Rightarrow> push_db \<Rightarrow> push_db" where
  "tokens_deleteExpired now s =
     s\<lparr>pd_tokens := filter (\<lambda>d. \<not> ((case dt_expiresAt d of Some t \<Rightarrow> t < now | None \<Rightarrow> False) \<or> dt_lastUsedAt d < now - 60 * ms_per_day)) (pd_tokens s)\<rparr>"

subsection \<open>Preferences\<close>

definition default_prefs :: "string \<Rightarrow> notif_prefs" where
  "default_prefs u = \<lparr>nf_userId = u, nf_crewUpdates = Some 1, nf_setReminders = Some 1, nf_scheduleChanges = Some 1, nf_lineupDrops = Some 1,
     nf_crewReformed = Some 1, nf_wrapReady = Some 1, nf_dndStart = None, nf_dndEnd = None\<rparr>"

definition one_if_null :: "int option \<Rightarrow> int option" where
  "one_if_null x = (case x of None \<Rightarrow> Some 1 | Some n \<Rightarrow> Some n)"

definition prefs_get :: "string \<Rightarrow> push_db \<Rightarrow> notif_prefs" where
  "prefs_get u s =
     (case find (\<lambda>r. nf_userId r = u) (pd_prefs s) of
        None \<Rightarrow> default_prefs u
      | Some r \<Rightarrow> r\<lparr>nf_lineupDrops := one_if_null (nf_lineupDrops r), nf_crewReformed := one_if_null (nf_crewReformed r),
                    nf_wrapReady := one_if_null (nf_wrapReady r)\<rparr>)"

definition flag :: "int option \<Rightarrow> int option" where
  "flag x = Some (if x = None \<or> x = Some 0 then 0 else 1)"

definition null_if_empty :: "string option \<Rightarrow> string option" where
  "null_if_empty x = (if x = Some [] then None else x)"

definition stored_prefs :: "notif_prefs \<Rightarrow> notif_prefs" where
  "stored_prefs p =
     \<lparr>nf_userId = nf_userId p, nf_crewUpdates = flag (nf_crewUpdates p), nf_setReminders = flag (nf_setReminders p),
      nf_scheduleChanges = flag (nf_scheduleChanges p), nf_lineupDrops = flag (nf_lineupDrops p), nf_crewReformed = flag (nf_crewReformed p),
      nf_wrapReady = flag (nf_wrapReady p), nf_dndStart = null_if_empty (nf_dndStart p), nf_dndEnd = null_if_empty (nf_dndEnd p)\<rparr>"

definition prefs_upsert :: "notif_prefs \<Rightarrow> push_db \<Rightarrow> push_db" where
  "prefs_upsert p s = s\<lparr>pd_prefs := upsert_map nf_userId (stored_prefs p) (pd_prefs s)\<rparr>"

subsection \<open>The delivery log\<close>

definition log_insert :: "log_row \<Rightarrow> push_db \<Rightarrow> push_db" where
  "log_insert r s = s\<lparr>pd_log := pd_log s @ [r]\<rparr>"

definition log_listByUser :: "string \<Rightarrow> nat \<Rightarrow> push_db \<Rightarrow> log_row list" where
  "log_listByUser u limit s = take limit (js_sort (by_key (\<lambda>r. - nl_createdAt r)) (filter (\<lambda>r. nl_userId r = u) (pd_log s)))"

definition log_updateStatus :: "int \<Rightarrow> string \<Rightarrow> string \<Rightarrow> push_db \<Rightarrow> push_db" where
  "log_updateStatus now i status s =
     s\<lparr>pd_log := map (\<lambda>r. if nl_id r = i then r\<lparr>nl_status := status, nl_deliveredAt := Some now\<rparr> else r) (pd_log s)\<rparr>"

definition logged_for :: "string \<Rightarrow> string \<Rightarrow> log_row \<Rightarrow> bool" where
  "logged_for ntype eventKey r \<longleftrightarrow> nl_type r = ntype \<and> (case nl_data r of Some d \<Rightarrow> map_of d ''eventKey'' = Some eventKey | None \<Rightarrow> False)"

definition existsForEvent :: "string \<Rightarrow> string \<Rightarrow> string \<Rightarrow> push_db \<Rightarrow> bool" where
  "existsForEvent u ntype eventKey s \<longleftrightarrow> (\<exists>r \<in> set (pd_log s). nl_userId r = u \<and> logged_for ntype eventKey r)"

definition existsForEvents :: "string list \<Rightarrow> string \<Rightarrow> string \<Rightarrow> push_db \<Rightarrow> string set" where
  "existsForEvents us ntype eventKey s = nl_userId ` set (filter (\<lambda>r. nl_userId r \<in> set us \<and> logged_for ntype eventKey r) (pd_log s))"

subsection \<open>Unread counts\<close>

definition counts_getByUser :: "string \<Rightarrow> push_db \<Rightarrow> count_row list" where
  "counts_getByUser u s = filter (\<lambda>c. nc_userId c = u) (pd_counts s)"

definition counts_increment :: "string \<Rightarrow> string \<Rightarrow> string \<Rightarrow> push_db \<Rightarrow> push_db" where
  "counts_increment u f field s =
     (let n = (if field = ''updates'' then 1 else 0)
      in if \<exists>c \<in> set (pd_counts s). nc_userId c = u \<and> nc_festivalId c = f
         then s\<lparr>pd_counts := map (\<lambda>c. if nc_userId c = u \<and> nc_festivalId c = f then c\<lparr>nc_updates := nc_updates c + n\<rparr> else c) (pd_counts s)\<rparr>
         else s\<lparr>pd_counts := pd_counts s @ [\<lparr>nc_userId = u, nc_festivalId = f, nc_updates = n\<rparr>]\<rparr>)"

definition counts_reset :: "string \<Rightarrow> string \<Rightarrow> push_db \<Rightarrow> push_db" where
  "counts_reset u f s =
     s\<lparr>pd_counts := map (\<lambda>c. if nc_userId c = u \<and> nc_festivalId c = f then c\<lparr>nc_updates := 0\<rparr> else c) (pd_counts s)\<rparr>"

definition counts_resetAll :: "string \<Rightarrow> push_db \<Rightarrow> push_db" where
  "counts_resetAll u s = s\<lparr>pd_counts := map (\<lambda>c. if nc_userId c = u then c\<lparr>nc_updates := 0\<rparr> else c) (pd_counts s)\<rparr>"

end
