(* ===== verification/Push_Routes.thy ===== *)
theory Push_Routes
  imports Push_Store Crew_Boards Profile_Store Set_Times
begin

text \<open>
  The notification routes (\<open>routes/notifications.ts\<close>): device tokens, preferences, read marks, unread
  counts, the history and the topics of a festival, with the schemas they validate by
  (\<open>lib/schemas.ts\<close>) and \<open>parsePageParams\<close> of \<open>lib/pagination.ts\<close>.

  Authentication and the rate limits come before and are modelled elsewhere.  The registration of a
  token is a check and a write with other requests possible in between; the other handlers are atomic.
\<close>

record push_srv =
  pv_db :: push_db
  pv_boards :: board_db
  pv_profiles :: prof_db
  pv_up :: bool

type_synonym 'a push_reply = "http_error + 'a"

definition refuse_push :: "nat \<Rightarrow> string \<Rightarrow> error_code \<Rightarrow> 'a push_reply" where
  "refuse_push st m c = Inl (st, m, c)"

section \<open>Device tokens\<close>

record token_body =
  tb_token :: string
  tb_platform :: "string option"
  tb_deviceName :: "string option"

definition ALLOWED_PLATFORMS :: "string list" where
  "ALLOWED_PLATFORMS = [''web'', ''ios'', ''android'']"

definition MAX_TOKENS_PER_USER :: nat where
  "MAX_TOKENS_PER_USER = 10"

definition pushTokenSchema :: "token_body \<Rightarrow> bool" where
  "pushTokenSchema b \<longleftrightarrow> 20 \<le> length (tb_token b) \<and> length (tb_token b) \<le> 4096
     \<and> (case tb_platform b of None \<Rightarrow> True | Some p \<Rightarrow> p \<in> set ALLOWED_PLATFORMS)
     \<and> (case tb_deviceName b of None \<Rightarrow> True | Some n \<Rightarrow> length n \<le> 60)"

definition low_control :: "char \<Rightarrow> bool" where
  "low_control c \<longleftrightarrow> (of_char c :: nat) \<le> 31"

definition clean_device_name :: "string option \<Rightarrow> string option" where
  "clean_device_name n = (if filled n then Some (sanitizeString 60 (the n)) else None)"

text \<open>Everything up to the write: the token must not be another user's.\<close>

definition token_check :: "int \<Rightarrow> string \<Rightarrow> string \<Rightarrow> token_body \<Rightarrow> push_srv \<Rightarrow> unit push_reply" where
  "token_check now u issue b s =
     (if \<not> pushTokenSchema b then refuse_push 400 issue VALIDATION_ERROR
      else if js_trim (tb_token b) = [] then refuse_push 400 ''Invalid push token (empty)'' INVALID_INPUT
      else if list_ex low_control (tb_token b) then refuse_push 400 ''Token contains invalid characters'' INVALID_INPUT
      else if \<not> pv_up s then refuse_push 500 ''Failed to register device token'' INTERNAL_ERROR
      else case getTokenOwner now (tb_token b) (pv_db s) of
          Some v \<Rightarrow> if v \<noteq> u then refuse_push 400 ''Invalid push token'' INVALID_INPUT else Inr ()
        | None \<Rightarrow> Inr ())"

definition evict_oldest_token :: "int \<Rightarrow> string \<Rightarrow> push_db \<Rightarrow> push_db" where
  "evict_oldest_token now u d =
     (let existing = tokens_listByUser now u d
      in if MAX_TOKENS_PER_USER \<le> length existing then tokens_unregister (dt_token (last existing)) u d else d)"

definition token_write :: "int \<Rightarrow> string \<Rightarrow> string \<Rightarrow> token_body \<Rightarrow> push_db \<Rightarrow> push_db" where
  "token_write now newId u b d =
     tokens_register now newId u (tb_token b) (or_str (tb_platform b) ''web'') (clean_device_name (tb_deviceName b)) (evict_oldest_token now u d)"

definition register_token :: "int \<Rightarrow> string \<Rightarrow> string \<Rightarrow> string \<Rightarrow> token_body \<Rightarrow> push_srv \<Rightarrow> string push_reply \<times> push_srv" where
  "register_token now newId u issue b s =
     (case token_check now u issue b s of
        Inl e \<Rightarrow> (Inl e, s)
      | Inr _ \<Rightarrow> (Inr newId, s\<lparr>pv_db := token_write now newId u b (pv_db s)\<rparr>))"

definition unregister_token :: "string \<Rightarrow> string \<Rightarrow> string \<Rightarrow> push_srv \<Rightarrow> unit push_reply \<times> push_srv" where
  "unregister_token u issue token s =
     (if token = [] \<or> 4096 < length token then (refuse_push 400 issue VALIDATION_ERROR, s)
      else if \<not> pv_up s then (refuse_push 500 ''Failed to unregister device token'' INTERNAL_ERROR, s)
      else (Inr (), s\<lparr>pv_db := tokens_unregister token u (pv_db s)\<rparr>))"

section \<open>Preferences\<close>

text \<open>A field that was not sent is \<open>None\<close>; a time that is \<open>null\<close> is \<open>Some None\<close>.\<close>

record prefs_body =
  pb_crewUpdates :: "bool option"
  pb_setReminders :: "bool option"
  pb_scheduleChanges :: "bool option"
  pb_lineupDrops :: "bool option"
  pb_crewReformed :: "bool option"
  pb_wrapReady :: "bool option"
  pb_dndStart :: "string option option"
  pb_dndEnd :: "string option option"

fun is_hhmm :: "string \<Rightarrow> bool" where
  "is_hhmm [a, b, c, d, e] \<longleftrightarrow>
     (a \<in> set ''01'' \<and> is_decimal b \<or> a = CHR ''2'' \<and> b \<in> set ''0123'') \<and> c = CHR '':'' \<and> d \<in> set ''012345'' \<and> is_decimal e"
| "is_hhmm s = False"

definition prefs_schema :: "prefs_body \<Rightarrow> bool" where
  "prefs_schema b \<longleftrightarrow> (case pb_dndStart b of Some (Some t) \<Rightarrow> is_hhmm t | _ \<Rightarrow> True) \<and> (case pb_dndEnd b of Some (Some t) \<Rightarrow> is_hhmm t | _ \<Rightarrow> True)"

definition prefs_empty :: "prefs_body \<Rightarrow> bool" where
  "prefs_empty b \<longleftrightarrow> pb_crewUpdates b = None \<and> pb_setReminders b = None \<and> pb_scheduleChanges b = None \<and> pb_lineupDrops b = None
     \<and> pb_crewReformed b = None \<and> pb_wrapReady b = None \<and> pb_dndStart b = None \<and> pb_dndEnd b = None"

text \<open>\<open>update.k !== undefined ? update.k : (current.k ?? true)\<close>.\<close>

definition merged_flag :: "bool option \<Rightarrow> int option \<Rightarrow> int option" where
  "merged_flag sent cur = (case sent of Some b \<Rightarrow> Some (if b then 1 else 0) | None \<Rightarrow> one_if_null cur)"

definition merged_time :: "string option option \<Rightarrow> string option \<Rightarrow> string option" where
  "merged_time sent cur = (case sent of Some t \<Rightarrow> t | None \<Rightarrow> cur)"

definition merged_prefs :: "string \<Rightarrow> prefs_body \<Rightarrow> notif_prefs \<Rightarrow> notif_prefs" where
  "merged_prefs u b cur =
     \<lparr>nf_userId = u, nf_crewUpdates = merged_flag (pb_crewUpdates b) (nf_crewUpdates cur),
      nf_setReminders = merged_flag (pb_setReminders b) (nf_setReminders cur),
      nf_scheduleChanges = merged_flag (pb_scheduleChanges b) (nf_scheduleChanges cur),
      nf_lineupDrops = merged_flag (pb_lineupDrops b) (nf_lineupDrops cur),
      nf_crewReformed = merged_flag (pb_crewReformed b) (nf_crewReformed cur),
      nf_wrapReady = merged_flag (pb_wrapReady b) (nf_wrapReady cur),
      nf_dndStart = merged_time (pb_dndStart b) (nf_dndStart cur), nf_dndEnd = merged_time (pb_dndEnd b) (nf_dndEnd cur)\<rparr>"

definition updatePrefs :: "string \<Rightarrow> string \<Rightarrow> prefs_body \<Rightarrow> push_srv \<Rightarrow> notif_prefs push_reply \<times> push_srv" where
  "updatePrefs u issue b s =
     (if \<not> prefs_schema b then (refuse_push 400 issue VALIDATION_ERROR, s)
      else if prefs_empty b then (refuse_push 400 ''No valid preference fields provided'' INVALID_INPUT, s)
      else if \<not> pv_up s then (refuse_push 500 ''Failed to update preferences'' INTERNAL_ERROR, s)
      else let d = prefs_upsert (merged_prefs u b (prefs_get u (pv_db s))) (pv_db s)
        in (Inr (prefs_get u d), s\<lparr>pv_db := d\<rparr>))"

definition read_prefs :: "string \<Rightarrow> push_srv \<Rightarrow> notif_prefs push_reply" where
  "read_prefs u s = (if pv_up s then Inr (prefs_get u (pv_db s)) else refuse_push 500 ''Failed to get preferences'' INTERNAL_ERROR)"

section \<open>Unread counts and history\<close>

definition read_mark :: "string \<Rightarrow> string \<Rightarrow> string option \<Rightarrow> push_srv \<Rightarrow> unit push_reply \<times> push_srv" where
  "read_mark u issue festivalId s =
     (if (case festivalId of Some f \<Rightarrow> 100 < length f | None \<Rightarrow> False) then (refuse_push 400 issue VALIDATION_ERROR, s)
      else if filled festivalId
      then (case sanitizeIdentifier (the festivalId) of
              None \<Rightarrow> (refuse_push 400 ''Invalid festival ID'' INVALID_INPUT, s)
            | Some f \<Rightarrow>
                if \<not> pv_up s then (refuse_push 500 ''Failed to mark notifications as read'' INTERNAL_ERROR, s)
                else (Inr (), s\<lparr>pv_db := counts_reset u f (pv_db s)\<rparr>))
      else if \<not> pv_up s then (refuse_push 500 ''Failed to mark notifications as read'' INTERNAL_ERROR, s)
      else (Inr (), s\<lparr>pv_db := counts_resetAll u (pv_db s)\<rparr>))"

definition unread_counts :: "string \<Rightarrow> push_srv \<Rightarrow> (nat \<times> (string \<times> nat) list) push_reply" where
  "unread_counts u s =
     (if \<not> pv_up s then refuse_push 500 ''Failed to get unread counts'' INTERNAL_ERROR
      else let cs = counts_getByUser u (pv_db s)
        in Inr (sum_list (map nc_updates cs), map (\<lambda>c. (nc_festivalId c, nc_updates c)) cs))"

text \<open>The limit of \<open>parsePageParams\<close>.\<close>

definition parse_limit :: "(string \<times> string) list \<Rightarrow> int \<Rightarrow> int \<Rightarrow> int" where
  "parse_limit query defaultSize maxSize =
     (let raw = or_str (map_of query ''limit'') (or_str (map_of query ''pageSize'') []);
          limit = (case parseInt raw of Some n \<Rightarrow> if n < 1 then defaultSize else n | None \<Rightarrow> defaultSize)
      in if maxSize < limit then maxSize else limit)"

definition push_history :: "string \<Rightarrow> (string \<times> string) list \<Rightarrow> push_srv \<Rightarrow> (log_row list \<times> int) push_reply" where
  "push_history u query s =
     (if \<not> pv_up s then refuse_push 500 ''Failed to get notification history'' INTERNAL_ERROR
      else let limit = parse_limit query 25 100 in Inr (log_listByUser u (nat limit) (pv_db s), limit))"

section \<open>Topics\<close>

definition ALLOWED_TOPICS :: "string list" where
  "ALLOWED_TOPICS = [''crew'', ''schedule'']"

definition topic_access :: "string \<Rightarrow> string \<Rightarrow> string \<Rightarrow> push_srv \<Rightarrow> string push_reply" where
  "topic_access failed u raw s =
     (case sanitizeIdentifier raw of
        None \<Rightarrow> refuse_push 400 ''Invalid festival ID'' INVALID_INPUT
      | Some f \<Rightarrow>
          if \<not> pv_up s then refuse_push 500 failed INTERNAL_ERROR
          else if readByUserAndFestival u f (pv_profiles s) = None then refuse_push 403 ''Not a member of this festival'' FORBIDDEN
          else Inr f)"

definition read_topics :: "string \<Rightarrow> string \<Rightarrow> push_srv \<Rightarrow> (string \<times> bool) list push_reply" where
  "read_topics u raw s =
     (case topic_access ''Failed to get subscriptions'' u raw s of
        Inl e \<Rightarrow> Inl e
      | Inr f \<Rightarrow> Inr (map (\<lambda>t. (t, case map_of (subs_of u f (pv_boards s)) t of Some b \<Rightarrow> b | None \<Rightarrow> True)) ALLOWED_TOPICS))"

definition update_topics :: "string \<Rightarrow> string \<Rightarrow> string \<Rightarrow> (string \<times> bool) list \<Rightarrow> push_srv \<Rightarrow> (string \<times> bool) list push_reply \<times> push_srv" where
  "update_topics u issue raw body s =
     (if body = [] \<or> 10 < length body then (refuse_push 400 issue VALIDATION_ERROR, s)
      else case topic_access ''Failed to update subscriptions'' u raw s of
          Inl e \<Rightarrow> (Inl e, s)
        | Inr f \<Rightarrow>
            let changes = filter (\<lambda>(t, b). t \<in> set ALLOWED_TOPICS) body
            in if changes = [] then (refuse_push 400 ''No valid topics provided'' INVALID_INPUT, s)
               else (Inr changes, s\<lparr>pv_boards := fold (\<lambda>(t, b). setSubscription u f t b) changes (pv_boards s)\<rparr>))"

end
