(* ===== verification/Push_Tokens.thy ===== *)
theory Push_Tokens
  imports Push_Routes
begin

text \<open>
  What the notification routes keep: tokens are unique, stay with their owner and are at most ten per
  user; a change of preferences reads back.
\<close>

section \<open>Preferences\<close>

lemma find_replaced:
  "find (\<lambda>r. f r = k) (map (\<lambda>y. if f y = f x then x else y) rs)
     = (if k = f x then (if \<exists>y \<in> set rs. f y = f x then Some x else None) else find (\<lambda>r. f r = k) rs)"
  by (induction rs) auto

lemma find_appended: "find P (rs @ [x]) = (case find P rs of Some y \<Rightarrow> Some y | None \<Rightarrow> if P x then Some x else None)"
  by (induction rs) auto

lemma find_upsert_map:
  "find (\<lambda>r. f r = k) (upsert_map f x rs) = (if k = f x then Some x else find (\<lambda>r. f r = k) rs)"
proof (cases "\<exists>y \<in> set rs. f y = f x")
  case False
  then have "find (\<lambda>r. f r = f x) rs = None" by (simp add: find_None_iff)
  then show ?thesis using False by (cases "k = f x") (auto simp: upsert_map_def find_appended split: option.split)
qed (simp add: upsert_map_def find_replaced)

lemma prefs_get_upsert: "prefs_get v (prefs_upsert p d) = (if v = nf_userId p then stored_prefs p else prefs_get v d)"
  by (simp add: prefs_get_def prefs_upsert_def find_upsert_map stored_prefs_def one_if_null_def flag_def)

text \<open>A change of the preferences is read back as it was sent, what was not sent keeps its value, and
  nobody else's preferences change; an invalid or empty one is refused and changes nothing.\<close>

theorem prefs_patch_roundtrip:
  "if prefs_schema b \<and> \<not> prefs_empty b \<and> pv_up s
   then fst (updatePrefs u issue b s) = Inr (stored_prefs (merged_prefs u b (prefs_get u (pv_db s))))
      \<and> read_prefs u (snd (updatePrefs u issue b s)) = fst (updatePrefs u issue b s)
      \<and> (\<forall>v. v = u \<or> prefs_get v (pv_db (snd (updatePrefs u issue b s))) = prefs_get v (pv_db s))
   else snd (updatePrefs u issue b s) = s \<and> (\<exists>e. fst (updatePrefs u issue b s) = Inl e)"
  by (simp add: updatePrefs_def read_prefs_def refuse_push_def prefs_get_upsert merged_prefs_def Let_def)

section \<open>Tokens\<close>

definition live_rows_of :: "int \<Rightarrow> string \<Rightarrow> device_row list \<Rightarrow> device_row list" where
  "live_rows_of now u rows = filter (\<lambda>d. dt_userId d = u \<and> token_live now d) rows"

definition token_inv :: "int \<Rightarrow> push_db \<Rightarrow> bool" where
  "token_inv now d \<longleftrightarrow> distinct (map dt_token (pd_tokens d)) \<and> (\<forall>u. length (tokens_listByUser now u d) \<le> MAX_TOKENS_PER_USER)"

datatype token_req = RegisterToken string string string token_body | UnregisterToken string string string

fun token_step :: "int \<times> token_req \<Rightarrow> push_srv \<Rightarrow> push_srv" where
  "token_step (now, RegisterToken newId u issue b) s = snd (register_token now newId u issue b s)"
| "token_step (now, UnregisterToken u issue token) s = snd (unregister_token u issue token s)"

fun requester :: "token_req \<Rightarrow> string" where
  "requester (RegisterToken newId u issue b) = u"
| "requester (UnregisterToken u issue token) = u"

definition token_run :: "(int \<times> token_req) list \<Rightarrow> push_srv \<Rightarrow> push_srv" where
  "token_run = fold token_step"

lemma live_later: "token_live now' d \<Longrightarrow> now \<le> now' \<Longrightarrow> token_live now d"
  by (auto simp: token_live_def split: option.splits)

lemma token_inv_rows: "token_inv now d \<longleftrightarrow> distinct (map dt_token (pd_tokens d)) \<and> (\<forall>u. length (live_rows_of now u (pd_tokens d)) \<le> 10)"
  by (simp add: token_inv_def tokens_listByUser_def live_rows_of_def MAX_TOKENS_PER_USER_def)

lemma token_inv_later: "token_inv now d \<Longrightarrow> now \<le> now' \<Longrightarrow> token_inv now' d"
proof -
  assume inv: "token_inv now d" and le: "now \<le> now'"
  have "length (live_rows_of now' u (pd_tokens d)) \<le> length (live_rows_of now u (pd_tokens d))" for u
  proof -
    have "live_rows_of now' u (pd_tokens d) = filter (token_live now') (live_rows_of now u (pd_tokens d))"
      using live_later [OF _ le] by (auto simp: live_rows_of_def intro: filter_cong)
    then show ?thesis by simp
  qed
  then show ?thesis using inv by (meson token_inv_rows order_trans)
qed

lemma fewer_after_filter: "length (live_rows_of now u (filter P rows)) \<le> length (live_rows_of now u rows)"
proof -
  have "live_rows_of now u (filter P rows) = filter P (live_rows_of now u rows)" by (auto simp: live_rows_of_def intro: filter_cong)
  then show ?thesis by simp
qed

lemma token_inv_unregister: "token_inv now d \<Longrightarrow> token_inv now (tokens_unregister k u d)"
  unfolding token_inv_rows tokens_unregister_def
  by (auto simp: distinct_map_filter intro: order_trans [OF fewer_after_filter])

lemma refresh_adds_one:
  assumes "\<And>x. dt_token (f x) = dt_token x" and "distinct (map dt_token rows)"
  shows "length (filter P (map (\<lambda>x. if dt_token x = k then f x else x) rows)) \<le> Suc (length (filter P rows))"
  using assms(2)
proof (induction rows)
  case (Cons x rows)
  show ?case
  proof (cases "dt_token x = k")
    case True
    then have "map (\<lambda>x. if dt_token x = k then f x else x) rows = rows" using Cons.prems by (intro map_idI) (auto simp: image_iff)
    then show ?thesis using True by simp
  next
    case False
    then show ?thesis using Cons by simp
  qed
qed simp

lemma refresh_others:
  assumes "\<And>x. \<not> P (f x)"
  shows "length (filter P (map (\<lambda>x. if dt_token x = k then f x else x) rows)) \<le> length (filter P rows)"
  using assms by (induction rows) auto

lemma evict_room:
  assumes "token_inv now d"
  shows "length (live_rows_of now u (pd_tokens (evict_oldest_token now u d))) \<le> 9" and "token_inv now (evict_oldest_token now u d)"
proof -
  let ?l = "tokens_listByUser now u d"
  have len: "length ?l = length (live_rows_of now u (pd_tokens d))" by (simp add: tokens_listByUser_def live_rows_of_def)
  have le: "length (live_rows_of now u (pd_tokens d)) \<le> 10" using assms by (simp add: token_inv_rows)
  show "length (live_rows_of now u (pd_tokens (evict_oldest_token now u d))) \<le> 9"
  proof (cases "MAX_TOKENS_PER_USER \<le> length ?l")
    case True
    define x where "x = last ?l"
    have "?l \<noteq> []" using True by (auto simp: MAX_TOKENS_PER_USER_def)
    then have "x \<in> set ?l" by (simp add: x_def)
    then have x: "x \<in> set (live_rows_of now u (pd_tokens d))" by (auto simp: tokens_listByUser_def live_rows_of_def)
    have "live_rows_of now u (pd_tokens (tokens_unregister (dt_token x) u d))
        = filter (\<lambda>r. \<not> (dt_token r = dt_token x \<and> dt_userId r = u)) (live_rows_of now u (pd_tokens d))"
      by (auto simp: live_rows_of_def tokens_unregister_def intro: filter_cong)
    also have "length \<dots> < length (live_rows_of now u (pd_tokens d))"
      using x by (intro length_filter_less [of x]) (auto simp: live_rows_of_def)
    finally show ?thesis using True le by (simp add: evict_oldest_token_def x_def)
  next
    case False
    then show ?thesis using len by (simp add: evict_oldest_token_def MAX_TOKENS_PER_USER_def)
  qed
  show "token_inv now (evict_oldest_token now u d)"
    using assms token_inv_unregister by (simp add: evict_oldest_token_def Let_def)
qed

lemma register_rows:
  "\<exists>f e. (\<forall>x. dt_token (f x) = dt_token x \<and> dt_userId (f x) = u) \<and> dt_token e = k \<and> dt_userId e = u
     \<and> pd_tokens (tokens_register now i u k p n d)
       = (if k \<in> dt_token ` set (pd_tokens d) then map (\<lambda>x. if dt_token x = k then f x else x) (pd_tokens d) else pd_tokens d @ [e])"
proof -
  let ?f = "\<lambda>x. x\<lparr>dt_userId := u, dt_platform := if p = [] then ''web'' else p,
      dt_deviceName := (case n of Some n \<Rightarrow> if n = [] then None else Some n | None \<Rightarrow> None), dt_lastUsedAt := now, dt_expiresAt := Some (now + TOKEN_TTL_MS)\<rparr>"
  let ?e = "\<lparr>dt_id = i, dt_userId = u, dt_token = k, dt_platform = if p = [] then ''web'' else p,
      dt_deviceName = (case n of Some n \<Rightarrow> if n = [] then None else Some n | None \<Rightarrow> None), dt_createdAt = now, dt_lastUsedAt = now,
      dt_expiresAt = Some (now + TOKEN_TTL_MS)\<rparr>"
  show ?thesis by (rule exI [of _ ?f], rule exI [of _ ?e]) (auto simp: tokens_register_def Let_def)
qed

lemma token_inv_register:
  assumes inv: "token_inv now d" and room: "length (live_rows_of now u (pd_tokens d)) \<le> 9"
  shows "token_inv now (tokens_register now i u k p n d)"
proof -
  obtain f e where f: "\<And>x. dt_token (f x) = dt_token x" "\<And>x. dt_userId (f x) = u" and e: "dt_token e = k" "dt_userId e = u"
    and rows: "pd_tokens (tokens_register now i u k p n d)
       = (if k \<in> dt_token ` set (pd_tokens d) then map (\<lambda>x. if dt_token x = k then f x else x) (pd_tokens d) else pd_tokens d @ [e])"
    using register_rows [of u k now i p n d] by blast
  have dist: "distinct (map dt_token (pd_tokens d))" and ten: "\<And>v. length (live_rows_of now v (pd_tokens d)) \<le> 10"
    using inv by (auto simp: token_inv_rows)
  have same: "distinct (map dt_token (map (\<lambda>x. if dt_token x = k then f x else x) (pd_tokens d)))"
  proof -
    have "map dt_token (map (\<lambda>x. if dt_token x = k then f x else x) (pd_tokens d)) = map dt_token (pd_tokens d)" by (simp add: f(1))
    then show ?thesis using dist by (simp only:)
  qed
  show ?thesis
  proof (cases "k \<in> dt_token ` set (pd_tokens d)")
    case True
    have "length (live_rows_of now v (map (\<lambda>x. if dt_token x = k then f x else x) (pd_tokens d))) \<le> 10" for v
    proof (cases "v = u")
      case True
      then show ?thesis using refresh_adds_one [OF f(1) dist, of "\<lambda>x. dt_userId x = u \<and> token_live now x" k] room
        by (simp add: live_rows_of_def)
    next
      case False
      then show ?thesis using refresh_others [of "\<lambda>x. dt_userId x = v \<and> token_live now x" f k "pd_tokens d"] f(2) ten [of v]
        by (simp add: live_rows_of_def)
    qed
    then show ?thesis using True same rows by (simp add: token_inv_rows del: map_map)
  next
    case False
    have "length (live_rows_of now v (pd_tokens d @ [e])) \<le> 10" for v
      using room ten [of v] e by (auto simp: live_rows_of_def)
    then show ?thesis using False dist e rows by (simp add: token_inv_rows)
  qed
qed

lemma token_step_inv:
  assumes "token_inv now (pv_db s)"
  shows "token_inv now (pv_db (token_step (now, r) s))"
proof (cases r)
  case (RegisterToken i u issue b)
  then show ?thesis
    using assms evict_room [OF assms, of u] token_inv_register
    by (auto simp: register_token_def token_write_def split: sum.split)
next
  case (UnregisterToken u issue token)
  then show ?thesis using assms token_inv_unregister by (simp add: unregister_token_def)
qed

text \<open>A live token of somebody who takes no part is where it was.\<close>

lemma token_step_keeps:
  assumes inv: "token_inv now (pv_db s)" and d: "d \<in> set (pd_tokens (pv_db s))" "token_live now d" "dt_userId d \<noteq> requester r"
  shows "d \<in> set (pd_tokens (pv_db (token_step (now, r) s)))"
proof (cases r)
  case (RegisterToken i u issue b)
  show ?thesis
  proof (cases "token_check now u issue b s")
    case (Inr ok)
    have other: "dt_token d \<noteq> tb_token b"
    proof
      assume same: "dt_token d = tb_token b"
      have "find (\<lambda>x. dt_token x = tb_token b \<and> token_live now x) (pd_tokens (pv_db s)) \<noteq> None"
        using d(1,2) same by (auto simp: find_None_iff)
      then obtain x where x: "find (\<lambda>x. dt_token x = tb_token b \<and> token_live now x) (pd_tokens (pv_db s)) = Some x" by auto
      then have "x \<in> set (pd_tokens (pv_db s))" "dt_token x = dt_token d" using same by (auto simp: find_Some_iff in_set_conv_nth)
      then have "x = d" using inv d(1) by (auto simp: token_inv_def distinct_map inj_on_def)
      then show False using Inr x d(3) RegisterToken
        by (auto simp: token_check_def getTokenOwner_def refuse_push_def split: if_splits)
    qed
    have "d \<in> set (pd_tokens (evict_oldest_token now u (pv_db s)))"
      using d RegisterToken by (auto simp: evict_oldest_token_def tokens_unregister_def Let_def)
    moreover obtain f e where "pd_tokens (token_write now i u b (pv_db s))
       = (if tb_token b \<in> dt_token ` set (pd_tokens (evict_oldest_token now u (pv_db s)))
          then map (\<lambda>x. if dt_token x = tb_token b then f x else x) (pd_tokens (evict_oldest_token now u (pv_db s)))
          else pd_tokens (evict_oldest_token now u (pv_db s)) @ [e])"
      using register_rows unfolding token_write_def by blast
    ultimately have "d \<in> set (pd_tokens (token_write now i u b (pv_db s)))" using other by (auto simp: image_iff)
    then show ?thesis using Inr RegisterToken by (simp add: register_token_def)
  qed (use d RegisterToken in \<open>simp add: register_token_def\<close>)
next
  case (UnregisterToken u issue token)
  then show ?thesis using d by (auto simp: unregister_token_def tokens_unregister_def)
qed

text \<open>C37. However the requests of the users come, at any times in order: a token is in the table once, a user
  has at most ten live ones, and nobody's live token is taken or removed by the requests of others.\<close>

theorem tokens_safe:
  assumes "token_inv t0 (pv_db s)" and "sorted (t0 # map fst reqs)" and "t = last (t0 # map fst reqs)"
  shows "token_inv t (pv_db (token_run reqs s))
    \<and> (\<forall>d. d \<in> set (pd_tokens (pv_db s)) \<and> token_live t d \<and> dt_userId d \<notin> requester ` snd ` set reqs
         \<longrightarrow> d \<in> set (pd_tokens (pv_db (token_run reqs s))))"
  using assms
proof (induction reqs arbitrary: t0 s)
  case Nil
  then show ?case by (simp add: token_run_def)
next
  case (Cons q reqs)
  obtain now r where q: "q = (now, r)" by (cases q)
  have "t \<in> set (now # map fst reqs)" using Cons.prems(3) q last_in_set [of "now # map fst reqs"] by simp
  then have le: "t0 \<le> now" and le': "now \<le> t" using Cons.prems(2) q by auto
  have inv: "token_inv now (pv_db s)" using token_inv_later [OF Cons.prems(1) le] .
  have "sorted (now # map fst reqs)" "t = last (now # map fst reqs)" using Cons.prems(2,3) q by (auto split: if_splits)
  note IH = Cons.IH [OF token_step_inv [OF inv] this, of r]
  have "d \<in> set (pd_tokens (pv_db (token_step q s)))"
    if "d \<in> set (pd_tokens (pv_db s))" "token_live t d" "dt_userId d \<noteq> requester r" for d
    using token_step_keeps [OF inv that(1) live_later [OF that(2) le'] that(3)] q by simp
  with IH show ?case using q by (auto simp: token_run_def)
qed

definition ex_srv :: push_srv where
  "ex_srv = \<lparr>pv_db = push_db0, pv_boards = \<lparr>bd_crew = \<lparr>cd_crews = [], cd_members = [], cd_users = (\<lambda>_. None), cd_festivals = (\<lambda>_. None), cd_profiles = [], cd_now = 0\<rparr>, bd_points = [], bd_items = [], bd_offers = [], bd_polls = [], bd_votes = [],
       bd_statuses = [], bd_subs = []\<rparr>, pv_profiles = \<lparr>pd_rows = [], pd_picks = [], pd_notes = []\<rparr>, pv_up = True\<rparr>"

definition ex_token_body :: "string \<Rightarrow> token_body" where
  "ex_token_body k = \<lparr>tb_token = ''abcdefghijklmnopqrst'' @ k, tb_platform = None, tb_deviceName = None\<rparr>"

lemma tokens_safe_witness:
  "token_inv 5 (pv_db (token_run [(1, RegisterToken ''i'' ''u'' [] (ex_token_body ''a'')), (5, RegisterToken ''j'' ''v'' [] (ex_token_body ''a''))] ex_srv))"
  by (rule tokens_safe [of 0, THEN conjunct1]) (simp_all add: ex_srv_def push_db0_def token_inv_rows live_rows_of_def)

text \<open>Two registrations of one token at the same time both pass the check, and the second takes it over.\<close>

lemma token_race_hijacks:
  "token_check 1 ''u'' [] (ex_token_body ''a'') ex_srv = Inr () \<and> token_check 1 ''v'' [] (ex_token_body ''a'') ex_srv = Inr ()
   \<and> getTokenOwner 2 (tb_token (ex_token_body ''a'')) (token_write 1 ''j'' ''v'' (ex_token_body ''a'') (token_write 1 ''i'' ''u'' (ex_token_body ''a'') push_db0)) = Some ''v''"
  by code_simp

text \<open>A user with ten devices loses one whenever any of them registers anew.\<close>

lemma reregistration_evicts:
  "let ks = map (\<lambda>i. show_int (int i)) [10..<20];
       s = fold (\<lambda>k. snd \<circ> register_token 1 k ''u'' [] (ex_token_body k)) ks ex_srv
   in length (pd_tokens (pv_db s)) = 10
      \<and> length (pd_tokens (pv_db (snd (register_token 2 ''new'' ''u'' [] (ex_token_body ''10'') s)))) = 9"
  by code_simp

end
