(* ===== verification/Push_Retry.thy ===== *)
theory Push_Retry
  imports Push_Store
begin

text \<open>
  The messages of the push service and its retry queue (\<open>lib/notifications/retry.ts\<close>), kept in memory by
  one process.

  The drain awaits one send after the other, so it is a state machine: the timer takes a batch, the
  answer to a send is a step of its own, and other senders may enqueue between any two.  Each entry
  is numbered when it is queued, and the sends are logged by number.
\<close>

section \<open>Messages\<close>

record fcm_options =
  fo_channelId :: string
  fo_tag :: string
  fo_badge :: nat
  fo_threadId :: string
  fo_category :: string
  fo_link :: string

record fcm_message =
  fm_token :: string
  fm_title :: string
  fm_body :: string
  fm_data :: "(string \<times> string) list"
  fm_options :: "fcm_options option"

section \<open>The queue\<close>

record retry_entry =
  rt_no :: nat
  rt_userId :: string
  rt_message :: fcm_message
  rt_retries :: nat
  rt_enqueuedAt :: int

record retry_queue =
  rq_queue :: "retry_entry list"
  rq_batch :: "retry_entry list"
  rq_draining :: bool
  rq_timer :: "int option"
  rq_next :: nat
  rq_sends :: "nat list"

definition retry_queue0 :: retry_queue where
  "retry_queue0 = \<lparr>rq_queue = [], rq_batch = [], rq_draining = False, rq_timer = None, rq_next = 0, rq_sends = []\<rparr>"

definition RETRY_MAX :: nat where
  "RETRY_MAX = 3"

definition RETRY_MAX_AGE_MS :: int where
  "RETRY_MAX_AGE_MS = 15 * 60 * 1000"

definition RETRY_CAP :: nat where
  "RETRY_CAP = 500"

definition RETRY_BATCH :: nat where
  "RETRY_BATCH = 10"

definition drain_delay :: "retry_entry list \<Rightarrow> int" where
  "drain_delay q = min (2000 * 2 ^ (case q of [] \<Rightarrow> 0 | e # es \<Rightarrow> rt_retries e)) 30000"

definition scheduleDrain :: "int \<Rightarrow> retry_queue \<Rightarrow> retry_queue" where
  "scheduleDrain now s =
     (if rq_timer s \<noteq> None \<or> rq_draining s then s else s\<lparr>rq_timer := Some (now + drain_delay (rq_queue s))\<rparr>)"

definition retry_enqueue :: "int \<Rightarrow> string \<Rightarrow> fcm_message \<Rightarrow> retry_queue \<Rightarrow> retry_queue" where
  "retry_enqueue now userId m s =
     (let q = (if RETRY_CAP \<le> length (rq_queue s) then tl (rq_queue s) else rq_queue s);
          e = \<lparr>rt_no = rq_next s, rt_userId = userId, rt_message = m, rt_retries = 0, rt_enqueuedAt = now\<rparr>
      in scheduleDrain now (s\<lparr>rq_queue := q @ [e], rq_next := Suc (rq_next s)\<rparr>))"

text \<open>Entries that are too old are dropped on the way to a batch of ten.\<close>

fun take_batch :: "int \<Rightarrow> nat \<Rightarrow> retry_entry list \<Rightarrow> retry_entry list \<times> retry_entry list" where
  "take_batch now n [] = ([], [])"
| "take_batch now 0 (e # es) = ([], e # es)"
| "take_batch now (Suc n) (e # es) =
     (if RETRY_MAX_AGE_MS < now - rt_enqueuedAt e then take_batch now (Suc n) es
      else case take_batch now n es of (b, rest) \<Rightarrow> (e # b, rest))"

text \<open>The end of \<open>drain\<close>, once its batch is through.\<close>

definition drain_close :: "int \<Rightarrow> retry_queue \<Rightarrow> retry_queue" where
  "drain_close now s =
     (if rq_batch s \<noteq> [] then s
      else let s1 = s\<lparr>rq_draining := False\<rparr> in if rq_queue s1 \<noteq> [] then scheduleDrain now s1 else s1)"

definition drain_open :: "int \<Rightarrow> retry_queue \<Rightarrow> retry_queue" where
  "drain_open now s =
     (let s1 = s\<lparr>rq_timer := None\<rparr>
      in if rq_draining s1 \<or> rq_queue s1 = [] then s1
         else case take_batch now RETRY_BATCH (rq_queue s1) of
           (b, rest) \<Rightarrow> drain_close now (s1\<lparr>rq_draining := True, rq_batch := b, rq_queue := rest\<rparr>))"

definition retry_code_stale :: "string \<Rightarrow> bool" where
  "retry_code_stale code \<longleftrightarrow>
     str_includes code ''not-registered'' \<or> str_includes code ''invalid-registration'' \<or> str_includes code ''invalid-argument''"

text \<open>The answer to the send of the first entry of the batch: \<open>None\<close> a success, else the code of the error.\<close>

definition drain_answer :: "int \<Rightarrow> string option \<Rightarrow> retry_queue \<Rightarrow> retry_queue" where
  "drain_answer now answer s =
     (case rq_batch s of
        [] \<Rightarrow> s
      | e # es \<Rightarrow>
          let s1 = s\<lparr>rq_batch := es, rq_sends := rq_sends s @ [rt_no e]\<rparr>;
              s2 = (case answer of
                  None \<Rightarrow> s1
                | Some code \<Rightarrow>
                    if retry_code_stale code then s1
                    else if rt_retries e < RETRY_MAX then s1\<lparr>rq_queue := rq_queue s1 @ [e\<lparr>rt_retries := Suc (rt_retries e)\<rparr>]\<rparr>
                    else s1)
          in drain_close now s2)"

definition retry_shutdown :: "retry_queue \<Rightarrow> retry_queue" where
  "retry_shutdown s = s\<lparr>rq_timer := None, rq_queue := []\<rparr>"

datatype retry_event =
    Queued int string fcm_message
  | TimerRings int
  | SendAnswered int "string option"
  | ShutDown

fun retry_step :: "retry_event \<Rightarrow> retry_queue \<Rightarrow> retry_queue" where
  "retry_step (Queued now u m) s = retry_enqueue now u m s"
| "retry_step (TimerRings now) s = (case rq_timer s of Some due \<Rightarrow> if due \<le> now then drain_open now s else s | None \<Rightarrow> s)"
| "retry_step (SendAnswered now answer) s = drain_answer now answer s"
| "retry_step ShutDown s = retry_shutdown s"

definition retry_run :: "retry_event list \<Rightarrow> retry_queue \<Rightarrow> retry_queue" where
  "retry_run es s = fold retry_step es s"

subsection \<open>The invariant\<close>

text \<open>An entry has been sent as often as its counter says; numbers are given once, nothing waits
  without a timer or a drain that will start one, and the batch is the drain's.\<close>

definition retry_tracked :: "retry_entry list \<Rightarrow> nat \<Rightarrow> nat list \<Rightarrow> bool" where
  "retry_tracked es n sends \<longleftrightarrow>
     distinct (map rt_no es)
     \<and> (\<forall>e \<in> set es. rt_no e < n \<and> rt_retries e \<le> RETRY_MAX \<and> count_list sends (rt_no e) = rt_retries e)
     \<and> (\<forall>i. count_list sends i \<le> Suc RETRY_MAX) \<and> (\<forall>i \<in> set sends. i < n)"

definition counted :: "retry_queue \<Rightarrow> bool" where
  "counted s \<longleftrightarrow> retry_tracked (rq_batch s @ rq_queue s) (rq_next s) (rq_sends s)"

lemma tracked_fewer: "retry_tracked es n sends \<Longrightarrow> distinct (map rt_no es') \<Longrightarrow> set es' \<subseteq> set es \<Longrightarrow> retry_tracked es' n sends"
  by (auto simp: retry_tracked_def subset_iff)

lemma tracked_new:
  assumes "retry_tracked es n sends" and "rt_no e = n" and "rt_retries e = 0"
  shows "retry_tracked (es @ [e]) (Suc n) sends"
proof -
  have "count_list sends n = 0" using assms(1) by (auto simp: retry_tracked_def count_list_0_iff)
  with assms show ?thesis by (fastforce simp: retry_tracked_def less_Suc_eq)
qed

lemma tracked_sent: "retry_tracked (e # es) n sends \<Longrightarrow> retry_tracked es n (sends @ [rt_no e])"
  by (fastforce simp: retry_tracked_def image_iff)

lemma tracked_again:
  assumes "retry_tracked (e # es) n sends" and "rt_retries e < RETRY_MAX"
  shows "retry_tracked (es @ [e\<lparr>rt_retries := Suc (rt_retries e)\<rparr>]) n (sends @ [rt_no e])"
  using assms tracked_sent [OF assms(1)] by (auto simp: retry_tracked_def image_iff)

definition roomy :: "retry_queue \<Rightarrow> bool" where
  "roomy s \<longleftrightarrow> length (rq_queue s) + length (rq_batch s) \<le> RETRY_CAP + RETRY_BATCH \<and> length (rq_batch s) \<le> RETRY_BATCH"

definition awake :: "retry_queue \<Rightarrow> bool" where
  "awake s \<longleftrightarrow> (rq_batch s \<noteq> [] \<longleftrightarrow> rq_draining s) \<and> (rq_queue s \<noteq> [] \<longrightarrow> rq_timer s \<noteq> None \<or> rq_draining s)"

lemma schedule_same [simp]:
  "rq_queue (scheduleDrain now s) = rq_queue s" "rq_batch (scheduleDrain now s) = rq_batch s" "rq_next (scheduleDrain now s) = rq_next s"
  "rq_sends (scheduleDrain now s) = rq_sends s" "rq_draining (scheduleDrain now s) = rq_draining s"
  "rq_timer (scheduleDrain now s) \<noteq> None \<or> rq_draining s"
  by (auto simp: scheduleDrain_def)

lemma close_same [simp]:
  "rq_queue (drain_close now s) = rq_queue s" "rq_batch (drain_close now s) = rq_batch s" "rq_next (drain_close now s) = rq_next s"
  "rq_sends (drain_close now s) = rq_sends s"
  by (auto simp: drain_close_def Let_def)

lemma close_awake: "rq_batch s \<noteq> [] \<Longrightarrow> rq_draining s \<Longrightarrow> awake (drain_close now s)" "rq_batch s = [] \<Longrightarrow> awake (drain_close now s)"
  using schedule_same(6) [of now "s\<lparr>rq_draining := False\<rparr>"] by (auto simp: drain_close_def awake_def Let_def)

lemma take_batch_parts:
  "take_batch now n q = (b, rest) \<Longrightarrow> length b \<le> n \<and> length b + length rest \<le> length q
     \<and> set b \<union> set rest \<subseteq> set q \<and> (distinct (map rt_no q) \<longrightarrow> distinct (map rt_no (b @ rest)))"
proof (induction now n q arbitrary: b rest rule: take_batch.induct)
  case (3 now n e es)
  show ?case
  proof (cases "RETRY_MAX_AGE_MS < now - rt_enqueuedAt e")
    case True
    with 3 show ?thesis by fastforce
  next
    case False
    obtain b' where b': "take_batch now n es = (b', rest)" "b = e # b'" using 3(3) False by (auto split: prod.splits)
    with 3(2) [OF False b'(1)] show ?thesis by auto
  qed
qed auto

lemma counted_enqueue:
  assumes "counted s"
  shows "counted (retry_enqueue now u m s)"
proof -
  define q where "q = (if RETRY_CAP \<le> length (rq_queue s) then tl (rq_queue s) else rq_queue s)"
  have "distinct (map rt_no (rq_batch s @ rq_queue s))" using assms by (auto simp: counted_def retry_tracked_def)
  then have "distinct (map rt_no (rq_batch s @ q))" unfolding q_def by (cases "rq_queue s") auto
  moreover have "set q \<subseteq> set (rq_queue s)" unfolding q_def by (cases "rq_queue s") auto
  ultimately have "retry_tracked (rq_batch s @ q) (rq_next s) (rq_sends s)"
    using tracked_fewer [OF assms [unfolded counted_def], of "rq_batch s @ q"] by fastforce
  then have "retry_tracked ((rq_batch s @ q) @ [\<lparr>rt_no = rq_next s, rt_userId = u, rt_message = m, rt_retries = 0, rt_enqueuedAt = now\<rparr>])
      (Suc (rq_next s)) (rq_sends s)"
    by (rule tracked_new) simp_all
  then show ?thesis by (simp add: counted_def retry_enqueue_def q_def [symmetric] Let_def)
qed

lemma counted_open:
  assumes "counted s" and "rq_batch s = []"
  shows "counted (drain_open now s)"
proof (cases "take_batch now RETRY_BATCH (rq_queue s)")
  case (Pair b rest)
  have q: "retry_tracked (rq_queue s) (rq_next s) (rq_sends s)" using assms by (simp add: counted_def)
  then have "distinct (map rt_no (b @ rest))" using take_batch_parts [OF Pair] by (simp add: retry_tracked_def)
  moreover have "set (b @ rest) \<subseteq> set (rq_queue s)" using take_batch_parts [OF Pair] by simp
  ultimately have "retry_tracked (b @ rest) (rq_next s) (rq_sends s)" by (rule tracked_fewer [OF q])
  with assms Pair show ?thesis by (simp add: drain_open_def counted_def Let_def)
qed

lemma counted_answer:
  assumes c: "counted s"
  shows "counted (drain_answer now answer s)"
proof (cases "rq_batch s")
  case (Cons e es)
  then have t: "retry_tracked (e # es @ rq_queue s) (rq_next s) (rq_sends s)" using c by (simp add: counted_def)
  show ?thesis
    using tracked_sent [OF t] tracked_again [OF t] Cons by (simp add: counted_def drain_answer_def Let_def split: option.splits)
qed (use c in \<open>simp add: drain_answer_def\<close>)

lemma retry_step_invs:
  assumes "counted s" and "roomy s" and "awake s"
  shows "counted (retry_step ev s) \<and> roomy (retry_step ev s) \<and> awake (retry_step ev s)"
proof (cases ev)
  case (Queued now u m)
  have "roomy (retry_enqueue now u m s)" using assms(2) by (auto simp: roomy_def retry_enqueue_def RETRY_CAP_def RETRY_BATCH_def Let_def)
  moreover have "awake (retry_enqueue now u m s)"
    using assms(3) by (auto simp: awake_def retry_enqueue_def scheduleDrain_def Let_def)
  ultimately show ?thesis using Queued counted_enqueue [OF assms(1)] by simp
next
  case (TimerRings now)
  obtain b rest where br: "take_batch now RETRY_BATCH (rq_queue s) = (b, rest)" by fastforce
  have opened: "roomy (drain_open now s) \<and> awake (drain_open now s) \<and> counted (drain_open now s)"
  proof (cases "rq_draining s \<or> rq_queue s = []")
    case True
    then show ?thesis using assms by (auto simp: drain_open_def roomy_def awake_def counted_def retry_tracked_def Let_def)
  next
    case False
    then have "rq_batch s = []" using assms(3) by (auto simp: awake_def)
    then show ?thesis
      using False assms take_batch_parts [OF br] counted_open [OF assms(1), of now] close_awake br
      by (cases "b = []") (auto simp: drain_open_def roomy_def Let_def)
  qed
  then show ?thesis using assms TimerRings by (auto split: option.splits)
next
  case (SendAnswered now answer)
  have "roomy (drain_answer now answer s) \<and> awake (drain_answer now answer s)"
  proof (cases "rq_batch s")
    case (Cons e es)
    then have "rq_draining s" using assms(3) by (auto simp: awake_def)
    with Cons assms(2) show ?thesis
      using close_awake by (cases "es = []") (auto simp: drain_answer_def roomy_def Let_def split: option.splits)
  qed (use assms in \<open>simp add: drain_answer_def\<close>)
  then show ?thesis using SendAnswered counted_answer [OF assms(1)] by simp
next
  case ShutDown
  then show ?thesis using assms by (auto simp: retry_shutdown_def counted_def retry_tracked_def roomy_def awake_def)
qed

interpretation retrying: inv_system "\<lambda>s s'. \<exists>ev. s' = retry_step ev s" "\<lambda>s. counted s \<and> roomy s \<and> awake s"
  by unfold_locales (use retry_step_invs in blast)

lemma retry_run_reach: "(\<lambda>s s'. \<exists>ev. s' = retry_step ev s)\<^sup>*\<^sup>* s (retry_run es s)"
  unfolding retry_run_def
proof (induction es arbitrary: s)
  case (Cons e es)
  show ?case by (rule converse_rtranclp_into_rtranclp [where b = "retry_step e s"]) (auto intro: Cons.IH)
qed simp

lemmas retry_run_invs = retrying.inv_reach [OF retry_run_reach]



text \<open>The bounds are met: a message that fails each time is sent four times.\<close>

lemma four_sends:
  "let m = \<lparr>fm_token = ''t'', fm_title = [], fm_body = [], fm_data = [], fm_options = None\<rparr>;
       fail = (\<lambda>t. [TimerRings t, SendAnswered t (Some ''unavailable'')])
   in rq_sends (retry_run (Queued 0 ''u'' m # fail 2000 @ fail 6000 @ fail 14000 @ fail 30000 @ fail 60000) retry_queue0) = [0, 0, 0, 0]"
  by code_simp

end
