(* ===== verification/Push_Send.thy ===== *)
theory Push_Send
  imports Push_Retry Crew_Boards Set_Times
begin

text \<open>
  The push service (\<open>lib/notifications/send.ts\<close>, \<open>dnd.ts\<close>, \<open>payload.ts\<close> and the answers of
  \<open>apns.ts\<close>): one user's devices, the members of a festival who are away, and the silent sync.

  Google's and Apple's services, random ids and the size of a serialized message are parameters: the
  answer to an attempt is looked up by its number.  An attempt is an entry of the log \<open>py_tries\<close>.
  Failures of the database and the webhook for failed sends are left out; the deferred clean-up of
  stale tokens is done at the end of the call.
\<close>

section \<open>Do not disturb\<close>

text \<open>\<open>hhmm\<close> is the wall clock of the server.\<close>

definition isInDndWindow :: "string \<Rightarrow> notif_prefs \<Rightarrow> bool" where
  "isInDndWindow hhmm p =
     (if \<not> filled (nf_dndStart p) \<or> \<not> filled (nf_dndEnd p) then False
      else let a = the (nf_dndStart p); b = the (nf_dndEnd p)
        in if \<not> str_less b a then a \<noteq> b \<and> \<not> str_less hhmm a \<and> \<not> str_less b hhmm
           else \<not> str_less hhmm a \<or> str_less hhmm b)"

section \<open>Types and payloads\<close>

definition ALLOWED_NOTIFICATION_TYPES :: "string list" where
  "ALLOWED_NOTIFICATION_TYPES =
     [''crew_update'', ''schedule_change'', ''set_reminder'', ''lineup_drop'', ''crew_reformed'', ''wrap_ready'', ''crew_sos'']"

definition CRITICAL_TYPES :: "string list" where
  "CRITICAL_TYPES = [''crew_sos'']"

text \<open>The preference of a type, if it has one.\<close>

definition PREF_MAP :: "string \<Rightarrow> (notif_prefs \<Rightarrow> int option) option" where
  "PREF_MAP t =
     map_of [(''crew_update'', nf_crewUpdates), (''schedule_change'', nf_scheduleChanges), (''set_reminder'', nf_setReminders),
       (''lineup_drop'', nf_lineupDrops), (''crew_reformed'', nf_crewReformed), (''wrap_ready'', nf_wrapReady)] t"

definition opted_out :: "string \<Rightarrow> notif_prefs \<Rightarrow> bool" where
  "opted_out t p = (case PREF_MAP t of None \<Rightarrow> False | Some pref \<Rightarrow> pref p = None \<or> pref p = Some 0)"

definition channel_of :: "string \<Rightarrow> string" where
  "channel_of t = (if t = ''crew_sos'' then ''sos'' else if t = ''crew_update'' \<or> t = ''crew_reformed'' then ''crew'' else ''updates'')"

definition category_of :: "string \<Rightarrow> string" where
  "category_of t = (if t = ''crew_sos'' then ''CREW_SOS'' else ''CREW_UPDATE'')"

definition MAX_TITLE_LENGTH :: nat where
  "MAX_TITLE_LENGTH = 100"

definition MAX_BODY_LENGTH :: nat where
  "MAX_BODY_LENGTH = 200"

definition MAX_DATA_KEYS :: nat where
  "MAX_DATA_KEYS = 10"

definition enforcePayloadLimits ::
  "string \<Rightarrow> string \<Rightarrow> (string \<times> string) list \<Rightarrow> string \<times> string \<times> (string \<times> string) list" where
  "enforcePayloadLimits title body data =
     (take MAX_TITLE_LENGTH title, take MAX_BODY_LENGTH body,
      fold (\<lambda>(k, v) d. AList.update (take 50 k) (take 200 v) d) (take MAX_DATA_KEYS data) [])"

section \<open>The transports\<close>

record apns_payload =
  ap_title :: string
  ap_body :: string
  ap_badge :: nat
  ap_threadId :: string
  ap_category :: string
  ap_data :: "(string \<times> string) list"

text \<open>\<open>classifyApnsResponse\<close>: sent, stale, error.\<close>

definition classifyApnsResponse :: "nat \<Rightarrow> string \<Rightarrow> bool \<times> bool \<times> string" where
  "classifyApnsResponse status reason =
     (if status = 200 then (True, False, [])
      else (False, status = 410 \<or> status = 400 \<and> (reason = ''BadDeviceToken'' \<or> reason = ''DeviceTokenNotForTopic''),
            if reason \<noteq> [] then reason else ''apns_status_'' @ show_int (int status)))"

datatype apns_answer =
    ApnsStatus nat string
  | ApnsFailed string

text \<open>An attempt at Google: how long it takes, and the code and the message of its error, if any.\<close>

record fcm_try =
  ft_ms :: int
  ft_error :: "(string \<times> string) option"

datatype push_try = ToFcm fcm_message | ToApns string apns_payload | SilentFcm string string | SilentApns string string

text \<open>The processes outside: who is configured, the answers by the number of the attempt, the pauses
  between two attempts, fresh ids, sizes, and the clock of the server.\<close>

record transport =
  tr_fcm :: bool
  tr_apns :: bool
  tr_fcm_try :: "nat \<Rightarrow> fcm_try"
  tr_apns_answer :: "nat \<Rightarrow> apns_answer"
  tr_pause :: "nat \<Rightarrow> int"
  tr_uuid :: "nat \<Rightarrow> string"
  tr_size :: "fcm_message \<Rightarrow> nat"
  tr_origin :: string
  tr_device :: device

record push_sys =
  py_db :: push_db
  py_retry :: retry_queue
  py_tries :: "push_try list"

definition tokens_of :: "push_try \<Rightarrow> string" where
  "tokens_of t = (case t of ToFcm m \<Rightarrow> fm_token m | ToApns k p \<Rightarrow> k | SilentFcm k s \<Rightarrow> k | SilentApns k s \<Rightarrow> k)"

definition isValidDeviceToken :: "device_row \<Rightarrow> bool" where
  "isValidDeviceToken d \<longleftrightarrow> 20 \<le> length (dt_token d) \<and> length (dt_token d) \<le> 4096"

definition isStaleTokenError :: "string \<Rightarrow> bool" where
  "isStaleTokenError code \<longleftrightarrow>
     str_includes code ''not-registered'' \<or> str_includes code ''invalid-registration'' \<or> str_includes code ''invalid-argument''"

definition enforcePayloadSize :: "transport \<Rightarrow> fcm_message \<Rightarrow> fcm_message" where
  "enforcePayloadSize tr m =
     (if 4096 < tr_size tr m \<and> fm_body m \<noteq> [] then m\<lparr>fm_body := take 200 (fm_body m) @ ''...''\<rparr> else m)"

text \<open>\<open>{ type, ...data }\<close>.\<close>

definition typed_data :: "string \<Rightarrow> (string \<times> string) list \<Rightarrow> (string \<times> string) list" where
  "typed_data t data = fold (\<lambda>(k, v) d. AList.update k v d) data [(''type'', t)]"

definition data_at :: "(string \<times> string) list \<Rightarrow> string \<Rightarrow> string" where
  "data_at data k = (case map_of data k of Some v \<Rightarrow> v | None \<Rightarrow> [])"

definition buildFcmMessage ::
  "transport \<Rightarrow> string \<Rightarrow> string \<Rightarrow> string \<Rightarrow> (string \<times> string) list \<Rightarrow> string \<Rightarrow> nat \<Rightarrow> string option \<Rightarrow> string \<Rightarrow> string \<Rightarrow> fcm_message" where
  "buildFcmMessage tr token title body data t badge threadId channelId category =
     \<lparr>fm_token = token, fm_title = title, fm_body = body, fm_data = typed_data t data,
      fm_options = Some \<lparr>fo_channelId = channelId, fo_tag = or_str threadId (''update-'' @ data_at data ''festivalId''),
        fo_badge = badge, fo_threadId = or_str threadId ''updates'', fo_category = category,
        fo_link = (if data_at data ''deepLink'' \<noteq> [] then data_at data ''deepLink''
                   else tr_origin tr @ ''/festival/'' @ data_at data ''festivalId'')\<rparr>\<rparr>"

definition buildApnsAlertPayload ::
  "string \<Rightarrow> string \<Rightarrow> (string \<times> string) list \<Rightarrow> string \<Rightarrow> nat \<Rightarrow> string option \<Rightarrow> string \<Rightarrow> apns_payload" where
  "buildApnsAlertPayload title body data t badge threadId category =
     \<lparr>ap_title = title, ap_body = body, ap_badge = badge, ap_threadId = or_str threadId ''updates'', ap_category = category,
      ap_data = typed_data t data\<rparr>"

section \<open>One device\<close>

definition tried :: "push_try \<Rightarrow> push_sys \<Rightarrow> push_sys" where
  "tried t s = s\<lparr>py_tries := py_tries s @ [t]\<rparr>"

definition on_push_db :: "(push_db \<Rightarrow> push_db) \<Rightarrow> push_sys \<Rightarrow> push_sys" where
  "on_push_db f s = s\<lparr>py_db := f (py_db s)\<rparr>"

definition logNotification ::
  "transport \<Rightarrow> int \<Rightarrow> string \<Rightarrow> string \<Rightarrow> string \<Rightarrow> string \<Rightarrow> (string \<times> string) list \<Rightarrow> string \<Rightarrow> string \<Rightarrow> string option \<Rightarrow> push_sys \<Rightarrow> push_sys" where
  "logNotification tr now u t title body data status platform err s =
     on_push_db (log_insert \<lparr>nl_id = tr_uuid tr (length (pd_log (py_db s))), nl_userId = u, nl_type = t,
        nl_title = take MAX_TITLE_LENGTH title, nl_body = take MAX_BODY_LENGTH body, nl_data = Some data, nl_status = status,
        nl_platform = (if platform = [] then None else Some platform), nl_errorMessage = err, nl_createdAt = now, nl_deliveredAt = None\<rparr>) s"

text \<open>What a device is to be told, and by which type.\<close>

record notice =
  nt_user :: string
  nt_type :: string
  nt_title :: string
  nt_body :: string
  nt_data :: "(string \<times> string) list"
  nt_thread :: "string option"

definition sendToIosDevice :: "transport \<Rightarrow> int \<Rightarrow> notice \<Rightarrow> device_row \<Rightarrow> apns_payload \<Rightarrow> push_sys \<Rightarrow> push_sys \<times> bool \<times> bool" where
  "sendToIosDevice tr now n d payload s =
     (let answer = tr_apns_answer tr (length (py_tries s)); s1 = tried (ToApns (dt_token d) payload) s;
          note = (\<lambda>status err. logNotification tr now (nt_user n) (nt_type n) (nt_title n) (nt_body n) (nt_data n) status (dt_platform d) err s1)
      in case answer of
           ApnsFailed msg \<Rightarrow> (note ''failed'' (null_if_empty (Some msg)), False, False)
         | ApnsStatus status reason \<Rightarrow>
             (case classifyApnsResponse status reason of
                (sent, stale, err) \<Rightarrow> (note (if sent then ''sent'' else ''failed'') (if sent then None else Some err), sent, stale)))"

definition FCM_DEADLINE_MS :: int where
  "FCM_DEADLINE_MS = 8000"

definition fcm_retryable :: "string \<times> string \<Rightarrow> bool" where
  "fcm_retryable e \<longleftrightarrow> (case e of (code, msg) \<Rightarrow> msg = ''FCM_TIMEOUT'' \<or> str_includes code ''unavailable'' \<or> str_includes code ''internal'')"

text \<open>At most two attempts, raced against the deadline: when it ends and with which error, and how
  many attempts were begun.\<close>

definition fcm_race :: "fcm_try \<Rightarrow> int \<Rightarrow> fcm_try \<Rightarrow> int \<times> (string \<times> string) option \<times> nat" where
  "fcm_race a pause b =
     (let late = (FCM_DEADLINE_MS, Some ([], ''FCM_TIMEOUT''))
      in if FCM_DEADLINE_MS \<le> ft_ms a then (fst late, snd late, 1)
         else case ft_error a of
             None \<Rightarrow> (ft_ms a, None, 1)
           | Some e \<Rightarrow>
               if \<not> fcm_retryable e then (ft_ms a, Some e, 1)
               else if FCM_DEADLINE_MS \<le> ft_ms a + pause then (fst late, snd late, 1)
               else if FCM_DEADLINE_MS \<le> ft_ms a + pause + ft_ms b then (fst late, snd late, 2)
               else (ft_ms a + pause + ft_ms b, ft_error b, 2))"

definition sendToDevice :: "transport \<Rightarrow> int \<Rightarrow> notice \<Rightarrow> device_row \<Rightarrow> fcm_message \<Rightarrow> push_sys \<Rightarrow> push_sys \<times> bool \<times> bool" where
  "sendToDevice tr now n d m s =
     (let i = length (py_tries s);
          note = logNotification tr now (nt_user n) (nt_type n) (nt_title n) (nt_body n) (nt_data n)
      in case fcm_race (tr_fcm_try tr i) (tr_pause tr i) (tr_fcm_try tr (Suc i)) of
           (elapsed, err, k) \<Rightarrow>
             let s1 = s\<lparr>py_tries := py_tries s @ replicate k (ToFcm m)\<rparr>
             in case err of
                  None \<Rightarrow> (note ''sent'' (dt_platform d) None s1, True, False)
                | Some (code, msg) \<Rightarrow>
                    let isTimeout = msg = ''FCM_TIMEOUT'' \<or> 5000 < elapsed;
                        isTransient = isTimeout \<or> str_includes code ''unavailable'' \<or> str_includes code ''internal'';
                        bare = \<lparr>fm_token = dt_token d, fm_title = nt_title n, fm_body = nt_body n, fm_data = typed_data (nt_type n) (nt_data n), fm_options = None\<rparr>;
                        s2 = (if isTransient \<and> \<not> str_includes code ''not-registered'' \<and> \<not> str_includes code ''invalid-registration''
                              then s1\<lparr>py_retry := retry_enqueue now (nt_user n) bare (py_retry s1)\<rparr> else s1)
                    in (note ''failed'' (dt_platform d) (null_if_empty (Some msg)) s2, False, isStaleTokenError code))"

section \<open>One user\<close>

definition unread_total :: "string \<Rightarrow> push_db \<Rightarrow> nat" where
  "unread_total u db = (let n = sum_list (map nc_updates (counts_getByUser u db)) in if n = 0 then 1 else n)"

definition incrementUnread :: "string \<Rightarrow> string \<Rightarrow> push_sys \<Rightarrow> push_sys" where
  "incrementUnread u f = on_push_db (counts_increment u f ''updates'')"

datatype send_result =
    Sent nat
  | NotSent string
  | SentStale nat nat

definition sent_of :: "send_result \<Rightarrow> nat" where
  "sent_of r = (case r of Sent n \<Rightarrow> n | NotSent reason \<Rightarrow> 0 | SentStale n k \<Rightarrow> n)"

text \<open>One device of \<open>send\<close>: the state, how many were sent, the tokens to remove.\<close>

definition send_one ::
  "transport \<Rightarrow> int \<Rightarrow> notice \<Rightarrow> nat \<Rightarrow> device_row \<Rightarrow> push_sys \<times> nat \<times> string list \<Rightarrow> push_sys \<times> nat \<times> string list" where
  "send_one tr now n badge d acc =
     (case acc of (s, k, stale) \<Rightarrow>
        let result = (\<lambda>(s', ok, gone). (s', if ok then Suc k else k, if gone then stale @ [dt_token d] else stale))
        in if \<not> isValidDeviceToken d then (s, k, stale @ [dt_token d])
           else if dt_platform d = ''ios''
           then if \<not> tr_apns tr then (s, k, stale)
                else result (sendToIosDevice tr now n d
                  (buildApnsAlertPayload (nt_title n) (nt_body n) (nt_data n) (nt_type n) badge (nt_thread n) (category_of (nt_type n))) s)
           else if \<not> tr_fcm tr then (s, k, stale)
           else result (sendToDevice tr now n d
                  (enforcePayloadSize tr (buildFcmMessage tr (dt_token d) (nt_title n) (nt_body n) (nt_data n) (nt_type n) badge (nt_thread n)
                     (channel_of (nt_type n)) (category_of (nt_type n)))) s))"

definition drop_tokens :: "string \<Rightarrow> string list \<Rightarrow> push_sys \<Rightarrow> push_sys" where
  "drop_tokens u ks s = fold (\<lambda>k. if k = [] then id else on_push_db (tokens_unregister k u)) ks s"

definition send :: "transport \<Rightarrow> int \<Rightarrow> notice \<Rightarrow> push_sys \<Rightarrow> push_sys \<times> send_result" where
  "send tr now n0 s =
     (if \<not> tr_fcm tr \<and> \<not> tr_apns tr then (s, NotSent ''firebase_not_configured'')
      else if nt_type n0 \<notin> set ALLOWED_NOTIFICATION_TYPES then (s, NotSent ''invalid_type'')
      else case enforcePayloadLimits (nt_title n0) (nt_body n0) (nt_data n0) of (title, body, data) \<Rightarrow>
        let n = n0\<lparr>nt_title := title, nt_body := body, nt_data := data\<rparr>; u = nt_user n0; prefs = prefs_get u (py_db s);
            critical = nt_type n0 \<in> set CRITICAL_TYPES
        in if \<not> critical \<and> opted_out (nt_type n0) prefs then (s, NotSent ''user_disabled'')
           else if \<not> critical \<and> isInDndWindow (fmtClock (tr_device tr) now) prefs then (s, NotSent ''dnd_active'')
           else let tokens = tokens_listByUser now u (py_db s)
             in if tokens = [] then (s, NotSent ''no_tokens'')
                else case fold (send_one tr now n (unread_total u (py_db s))) tokens (s, 0, []) of
                  (s1, k, stale) \<Rightarrow>
                    let s2 = (if 0 < k \<and> data_at data ''festivalId'' \<noteq> [] then incrementUnread u (data_at data ''festivalId'') s1 else s1)
                    in (drop_tokens u stale s2, SentStale k (length stale)))"

section \<open>The members of a festival\<close>

definition MAX_PUSH_BATCH :: nat where
  "MAX_PUSH_BATCH = 200"

definition FCM_BATCH_SIZE :: nat where
  "FCM_BATCH_SIZE = 500"

text \<open>\<open>userIdsByFestival\<close>, without those who need not be told.\<close>

definition resolveFestivalTargets :: "(string \<Rightarrow> string list) \<Rightarrow> string \<Rightarrow> string list \<Rightarrow> string list" where
  "resolveFestivalTargets userIdsByFestival f excluded = filter (\<lambda>u. u \<notin> set excluded) (userIdsByFestival f)"

text \<open>A batch at Google: \<open>sendEach\<close> answers for every message, or throws for the batch.\<close>

definition send_each :: "transport \<Rightarrow> (nat \<Rightarrow> bool) \<Rightarrow> fcm_message list \<Rightarrow> push_sys \<times> nat \<times> nat \<times> string list \<Rightarrow> push_sys \<times> nat \<times> nat \<times> string list" where
  "send_each tr throws ms acc =
     (case acc of (s, ok, bad, stale) \<Rightarrow>
        let i = length (py_tries s); batch = map (enforcePayloadSize tr) ms; s1 = s\<lparr>py_tries := py_tries s @ map ToFcm batch\<rparr>;
            errors = map (\<lambda>j. ft_error (tr_fcm_try tr (i + j))) [0..<length ms]
        in if throws i then (s1, ok, bad + length ms, stale)
           else (s1, ok + length (filter (\<lambda>e. e = None) errors), bad + length (filter (\<lambda>e. e \<noteq> None) errors),
             stale @ map (fm_token \<circ> fst) (filter (\<lambda>(m, e). case e of Some (code, msg) \<Rightarrow> isStaleTokenError code | None \<Rightarrow> False) (zip batch errors))))"

fun chunks :: "nat \<Rightarrow> 'a list \<Rightarrow> 'a list list" where
  "chunks n [] = []"
| "chunks n (x # xs) = (if n = 0 then [x # xs] else take n (x # xs) # chunks n (drop (n - 1) xs))"

definition sendBatch :: "transport \<Rightarrow> (nat \<Rightarrow> bool) \<Rightarrow> fcm_message list \<Rightarrow> push_sys \<Rightarrow> push_sys \<times> nat \<times> nat \<times> string list" where
  "sendBatch tr throws ms s =
     (if \<not> tr_fcm tr then (s, 0, 0, []) else fold (send_each tr throws) (chunks FCM_BATCH_SIZE ms) (s, 0, 0, []))"

text \<open>What the members' devices are to get: the sends to Google and to Apple, each with its user.\<close>

definition member_devices :: "transport \<Rightarrow> int \<Rightarrow> string \<Rightarrow> push_db \<Rightarrow> string \<Rightarrow> (string \<times> device_row) list" where
  "member_devices tr now t db u =
     (if opted_out t (prefs_get u db) \<or> isInDndWindow (fmtClock (tr_device tr) now) (prefs_get u db) then []
      else map (Pair u) (filter (\<lambda>d. isValidDeviceToken d \<and> (if dt_platform d = ''ios'' then tr_apns tr else tr_fcm tr)) (tokens_listByUser now u db)))"

definition fcm_of :: "transport \<Rightarrow> notice \<Rightarrow> push_db \<Rightarrow> string \<times> device_row \<Rightarrow> fcm_message" where
  "fcm_of tr n db x =
     (case x of (u, d) \<Rightarrow> enforcePayloadSize tr (buildFcmMessage tr (dt_token d) (nt_title n) (nt_body n) (nt_data n) (nt_type n) (unread_total u db)
        (nt_thread n) ''updates'' ''CREW_UPDATE''))"

definition ios_send :: "transport \<Rightarrow> int \<Rightarrow> notice \<Rightarrow> push_db \<Rightarrow> string \<times> device_row \<Rightarrow> push_sys \<times> nat \<times> string list \<Rightarrow> push_sys \<times> nat \<times> string list" where
  "ios_send tr now n db x acc =
     (case (x, acc) of ((u, d), (s, k, stale)) \<Rightarrow>
        case sendToIosDevice tr now (n\<lparr>nt_user := u\<rparr>) d
            (buildApnsAlertPayload (nt_title n) (nt_body n) (nt_data n) (nt_type n) (unread_total u db) (nt_thread n) ''CREW_UPDATE'') s of
          (s1, ok, gone) \<Rightarrow> (s1, if ok then Suc k else k, if gone then stale @ [dt_token d] else stale))"

definition push_targets ::
  "(string \<Rightarrow> string list) \<Rightarrow> board_db \<Rightarrow> string \<Rightarrow> string list \<Rightarrow> string option \<Rightarrow> string list" where
  "push_targets userIdsByFestival subs f excluded topic =
     filter (\<lambda>u. \<not> (case topic of Some t \<Rightarrow> (t = ''crew'' \<or> t = ''schedule'') \<and> u \<in> getUnsubscribedUsers f t subs | None \<Rightarrow> False))
       (resolveFestivalTargets userIdsByFestival f excluded)"

text \<open>The sends themselves, the unread counts of the users they are for, and the tokens that turned out stale.\<close>

definition send_to_devices ::
  "transport \<Rightarrow> (nat \<Rightarrow> bool) \<Rightarrow> int \<Rightarrow> notice \<Rightarrow> (string \<times> device_row) list \<Rightarrow> push_sys \<Rightarrow> push_sys \<times> send_result" where
  "send_to_devices tr throws now n devices s =
     (let ios = filter (\<lambda>x. dt_platform (snd x) = ''ios'') devices; others = filter (\<lambda>x. dt_platform (snd x) \<noteq> ''ios'') devices;
          owner = map_of (rev (map (\<lambda>(u, d). (dt_token d, u)) devices)); f = data_at (nt_data n) ''festivalId''
      in case (if others \<noteq> [] then sendBatch tr throws (map (fcm_of tr n (py_db s)) others) s else (s, 0, 0, [])) of
           (s1, ok, bad, stale1) \<Rightarrow>
             (case fold (ios_send tr now n (py_db s)) ios (s1, 0, []) of
                (s2, k, stale2) \<Rightarrow>
                  let told = rev (remdups (rev (map (the \<circ> owner \<circ> dt_token \<circ> snd) others @ map fst ios)));
                      s3 = (if f \<noteq> [] then fold (\<lambda>u. incrementUnread u f) told s2 else s2)
                  in (fold (\<lambda>t. case owner t of Some u \<Rightarrow> drop_tokens u [t] | None \<Rightarrow> id) (stale1 @ stale2) s3, Sent (ok + k))))"

definition sendToOfflineUsers ::
  "transport \<Rightarrow> (nat \<Rightarrow> bool) \<Rightarrow> (string \<Rightarrow> string list) \<Rightarrow> board_db \<Rightarrow> int \<Rightarrow> notice \<Rightarrow> string \<Rightarrow> string list \<Rightarrow> string option \<Rightarrow> push_sys \<Rightarrow> push_sys \<times> send_result" where
  "sendToOfflineUsers tr throws userIdsByFestival subs now n f excluded topic s =
     (if \<not> tr_fcm tr \<and> \<not> tr_apns tr then (s, Sent 0)
      else if nt_type n \<notin> set ALLOWED_NOTIFICATION_TYPES then (s, NotSent ''invalid_type'')
      else case enforcePayloadLimits (nt_title n) (nt_body n) (nt_data n) of (title, body, data) \<Rightarrow>
        let users = take MAX_PUSH_BATCH (push_targets userIdsByFestival subs f excluded topic);
            devices = concat (map (member_devices tr now (nt_type n) (py_db s)) users)
        in if devices = [] then (s, Sent 0)
           else send_to_devices tr throws now (n\<lparr>nt_title := title, nt_body := body, nt_data := data\<rparr>) devices s)"

section \<open>Silent sync and reading\<close>

definition silent_one :: "transport \<Rightarrow> string \<Rightarrow> string \<Rightarrow> device_row \<Rightarrow> push_sys \<times> nat \<Rightarrow> push_sys \<times> nat" where
  "silent_one tr syncType u d acc =
     (case acc of (s, k) \<Rightarrow>
        let i = length (py_tries s); gone = on_push_db (tokens_unregister (dt_token d) u)
        in if \<not> isValidDeviceToken d then (s, k)
           else if dt_platform d = ''ios''
           then if \<not> tr_apns tr then (s, k)
                else let s1 = tried (SilentApns (dt_token d) syncType) s
                  in case tr_apns_answer tr i of
                       ApnsFailed msg \<Rightarrow> (s1, k)
                     | ApnsStatus status reason \<Rightarrow>
                         (case classifyApnsResponse status reason of (sent, stale, err) \<Rightarrow> (if stale then gone s1 else s1, if sent then Suc k else k))
           else if \<not> tr_fcm tr then (s, k)
           else let s1 = tried (SilentFcm (dt_token d) syncType) s
             in case ft_error (tr_fcm_try tr i) of
                  None \<Rightarrow> (s1, Suc k)
                | Some (code, msg) \<Rightarrow>
                    (if str_includes code ''not-registered'' \<or> str_includes code ''invalid-registration'' then gone s1 else s1, k))"

definition sendSilentSync ::
  "transport \<Rightarrow> (string \<Rightarrow> string list) \<Rightarrow> int \<Rightarrow> string \<Rightarrow> string \<Rightarrow> string list \<Rightarrow> push_sys \<Rightarrow> push_sys \<times> nat" where
  "sendSilentSync tr userIdsByFestival now f syncType excluded s =
     (if \<not> tr_fcm tr \<and> \<not> tr_apns tr then (s, 0)
      else fold (\<lambda>u (s1, k). fold (silent_one tr syncType u) (tokens_listByUser now u (py_db s1)) (s1, k))
             (take MAX_PUSH_BATCH (resolveFestivalTargets userIdsByFestival f excluded)) (s, 0))"

definition markRead :: "string \<Rightarrow> string \<Rightarrow> push_sys \<Rightarrow> push_sys" where
  "markRead u f = on_push_db (counts_reset u f)"

end
