(* ===== verification/Push_Props.thy ===== *)
theory Push_Props
  imports Push_Send
begin

text \<open>
  Whom the push service reaches: a notice to one user and the notices to the members of a festival are
  described by the set of devices an attempt is made for.
\<close>

definition reachable :: "transport \<Rightarrow> device_row \<Rightarrow> bool" where
  "reachable tr d \<longleftrightarrow> isValidDeviceToken d \<and> (if dt_platform d = ''ios'' then tr_apns tr else tr_fcm tr)"

text \<open>The attempts a step adds to the log, by their tokens.\<close>

definition adds :: "string set \<Rightarrow> push_sys \<Rightarrow> push_sys \<Rightarrow> bool" where
  "adds ks s s' \<longleftrightarrow> (\<exists>ts. py_tries s' = py_tries s @ ts \<and> tokens_of ` set ts = ks)"

lemma adds_refl [simp]: "adds {} s s"
  by (simp add: adds_def)

lemma adds_trans: "adds a s1 s2 \<Longrightarrow> adds b s2 s3 \<Longrightarrow> adds (a \<union> b) s1 s3"
  by (auto simp: adds_def image_Un)

lemma adds_same: "adds a s1 s2 \<Longrightarrow> py_tries s3 = py_tries s2 \<Longrightarrow> adds a s1 s3"
  by (simp add: adds_def)

lemma tries_kept [simp]:
  "py_tries (on_push_db f s) = py_tries s" "py_tries (logNotification tr now u t a b c d e f' s) = py_tries s"
  "py_tries (incrementUnread u' f'' s) = py_tries s" "py_tries (drop_tokens u'' ks s) = py_tries s"
proof -
  show a: "py_tries (on_push_db f s) = py_tries s" for f s by (simp add: on_push_db_def)
  then show "py_tries (logNotification tr now u t a b c d e f' s) = py_tries s" "py_tries (incrementUnread u' f'' s) = py_tries s"
    by (simp_all add: logNotification_def incrementUnread_def)
  show "py_tries (drop_tokens u'' ks s) = py_tries s" unfolding drop_tokens_def by (induction ks arbitrary: s) (simp_all add: a)
qed

lemma tokens_of_try [simp]:
  "tokens_of (ToFcm m) = fm_token m" "tokens_of (ToApns k p) = k" "tokens_of (SilentFcm k x) = k" "tokens_of (SilentApns k x) = k"
  by (simp_all add: tokens_of_def)

lemma size_keeps_token [simp]: "fm_token (enforcePayloadSize tr m) = fm_token m"
  by (simp add: enforcePayloadSize_def)

lemma build_token [simp]: "fm_token (buildFcmMessage tr k a b c t i th ch ca) = k"
  by (simp add: buildFcmMessage_def)

lemma ios_adds: "adds {dt_token d} s (fst (sendToIosDevice tr now n d p s))"
  by (auto simp: sendToIosDevice_def adds_def tried_def Let_def split: apns_answer.split prod.split)

lemma race_tries: "1 \<le> snd (snd (fcm_race a p b)) \<and> snd (snd (fcm_race a p b)) \<le> 2"
  by (auto simp: fcm_race_def Let_def split: option.split)

lemma device_adds:
  assumes "fm_token m = key"
  shows "adds {key} s (fst (sendToDevice tr now n d m s))"
proof -
  obtain e err k where r: "fcm_race (tr_fcm_try tr (length (py_tries s))) (tr_pause tr (length (py_tries s))) (tr_fcm_try tr (Suc (length (py_tries s)))) = (e, err, k)"
    by (metis prod_cases3)
  with race_tries have "1 \<le> k" by (metis snd_conv)
  then have "set (replicate k (ToFcm m)) = {ToFcm m}" by simp
  then show ?thesis using r assms
    by (cases err) (auto simp: sendToDevice_def adds_def Let_def simp del: set_replicate)
qed

lemma send_one_adds: "adds (if reachable tr d then {dt_token d} else {}) (fst acc) (fst (send_one tr now n badge d acc))"
  by (cases acc) (auto simp: send_one_def reachable_def Let_def split_def intro!: ios_adds device_adds)

lemma fold_adds:
  assumes "\<And>x acc. adds (f x) (fst acc) (fst (g x acc))"
  shows "adds (\<Union> (f ` set xs)) (fst acc) (fst (fold g xs acc))"
proof (induction xs arbitrary: acc)
  case (Cons x xs)
  show ?case using adds_trans [OF assms [of x acc] Cons.IH [of "g x acc"]] by simp
qed simp

definition push_admitted :: "transport \<Rightarrow> int \<Rightarrow> notice \<Rightarrow> push_db \<Rightarrow> bool" where
  "push_admitted tr now n db \<longleftrightarrow> (tr_fcm tr \<or> tr_apns tr) \<and> nt_type n \<in> set ALLOWED_NOTIFICATION_TYPES
     \<and> (nt_type n = ''crew_sos'' \<or> \<not> opted_out (nt_type n) (prefs_get (nt_user n) db) \<and> \<not> isInDndWindow (fmtClock (tr_device tr) now) (prefs_get (nt_user n) db))"

lemma admitted_conditions:
  assumes "push_admitted tr now n db"
  shows "\<not> (\<not> tr_fcm tr \<and> \<not> tr_apns tr)" and "nt_type n \<in> set ALLOWED_NOTIFICATION_TYPES"
    and "\<not> (nt_type n \<notin> set CRITICAL_TYPES \<and> opted_out (nt_type n) (prefs_get (nt_user n) db))"
    and "\<not> (nt_type n \<notin> set CRITICAL_TYPES \<and> isInDndWindow (fmtClock (tr_device tr) now) (prefs_get (nt_user n) db))"
  using assms by (auto simp: push_admitted_def CRITICAL_TYPES_def)

lemma send_admitted:
  assumes "push_admitted tr now n (py_db s)" and "enforcePayloadLimits (nt_title n) (nt_body n) (nt_data n) = (title, body, data)"
    and "fold (send_one tr now (n\<lparr>nt_title := title, nt_body := body, nt_data := data\<rparr>) (unread_total (nt_user n) (py_db s)))
      (tokens_listByUser now (nt_user n) (py_db s)) (s, 0, []) = (s1, k, stale)"
  shows "fst (send tr now n s) = (if tokens_listByUser now (nt_user n) (py_db s) = [] then s
     else drop_tokens (nt_user n) stale
       (if 0 < k \<and> data_at data ''festivalId'' \<noteq> [] then incrementUnread (nt_user n) (data_at data ''festivalId'') s1 else s1))"
  unfolding send_def assms(2) Let_def using admitted_conditions [OF assms(1)] assms(3) by auto

lemma send_refused:
  assumes "\<not> push_admitted tr now n (py_db s)"
  shows "fst (send tr now n s) = s \<and> sent_of (snd (send tr now n s)) = 0"
proof -
  consider "\<not> tr_fcm tr" "\<not> tr_apns tr" | "tr_fcm tr \<or> tr_apns tr" "nt_type n \<notin> set ALLOWED_NOTIFICATION_TYPES"
    | "tr_fcm tr \<or> tr_apns tr" "nt_type n \<in> set ALLOWED_NOTIFICATION_TYPES" "nt_type n \<noteq> ''crew_sos''"
      "opted_out (nt_type n) (prefs_get (nt_user n) (py_db s)) \<or> isInDndWindow (fmtClock (tr_device tr) now) (prefs_get (nt_user n) (py_db s))"
    using assms by (auto simp: push_admitted_def)
  then show ?thesis
    by cases (auto simp: send_def sent_of_def CRITICAL_TYPES_def split_beta Let_def)
qed

text \<open>C34. A notice is tried on every live device of its user that has a sound token and a configured service,
  and on no other.  A user who has switched its type off, or whose quiet hours it is, gets no attempt
  and nothing is written; an SOS heeds neither.\<close>

theorem send_reaches_devices:
  "if push_admitted tr now n (py_db s)
   then \<exists>ts. py_tries (fst (send tr now n s)) = py_tries s @ ts
      \<and> tokens_of ` set ts = dt_token ` {d. d \<in> set (tokens_listByUser now (nt_user n) (py_db s)) \<and> reachable tr d}
   else fst (send tr now n s) = s \<and> sent_of (snd (send tr now n s)) = 0"
proof (cases "push_admitted tr now n (py_db s)")
  case True
  obtain title body data where lim: "enforcePayloadLimits (nt_title n) (nt_body n) (nt_data n) = (title, body, data)" by (metis prod_cases3)
  define n' where "n' = n\<lparr>nt_title := title, nt_body := body, nt_data := data\<rparr>"
  define ds where "ds = tokens_listByUser now (nt_user n) (py_db s)"
  obtain s1 k stale where acc: "fold (send_one tr now n' (unread_total (nt_user n) (py_db s))) ds (s, 0, []) = (s1, k, stale)" by (metis prod_cases3)
  have all: "(\<Union>d \<in> set ds. if reachable tr d then {dt_token d} else {}) = dt_token ` {d. d \<in> set ds \<and> reachable tr d}" by auto
  have "adds (\<Union>d \<in> set ds. if reachable tr d then {dt_token d} else {}) (fst (s, 0 :: nat, [] :: string list))
      (fst (fold (send_one tr now n' (unread_total (nt_user n) (py_db s))) ds (s, 0, [])))"
    by (rule fold_adds) (rule send_one_adds)
  then have main: "adds (dt_token ` {d. d \<in> set ds \<and> reachable tr d}) s s1" by (simp only: all acc fst_conv)
  have "py_tries (fst (send tr now n s)) = py_tries s1"
    using send_admitted [OF True lim acc [unfolded ds_def n'_def]] acc by (auto simp: ds_def split: if_splits)
  with adds_same [OF main] True show ?thesis by (auto simp: adds_def ds_def)
next
  case False
  then show ?thesis using send_refused by simp
qed

text \<open>A retried message has neither priority nor channel: an SOS that timed out is sent again as an
  ordinary notification.\<close>

definition slow_transport :: transport where
  "slow_transport = \<lparr>tr_fcm = True, tr_apns = False, tr_fcm_try = (\<lambda>_. \<lparr>ft_ms = 9000, ft_error = None\<rparr>), tr_apns_answer = (\<lambda>_. ApnsFailed []),
     tr_pause = (\<lambda>_. 300), tr_uuid = (\<lambda>_. []), tr_size = (\<lambda>_. 0), tr_origin = [], tr_device = utc_device 0\<rparr>"

definition one_phone :: push_sys where
  "one_phone = \<lparr>py_db = push_db0\<lparr>pd_tokens := [\<lparr>dt_id = ''d'', dt_userId = ''u'', dt_token = ''abcdefghijklmnopqrstuvwxyz'', dt_platform = ''android'',
       dt_deviceName = None, dt_createdAt = 0, dt_lastUsedAt = 0, dt_expiresAt = None\<rparr>]\<rparr>,
     py_retry = retry_queue0, py_tries = []\<rparr>"

definition sos_notice :: notice where
  "sos_notice = \<lparr>nt_user = ''u'', nt_type = ''crew_sos'', nt_title = ''SOS'', nt_body = [], nt_data = [], nt_thread = None\<rparr>"

lemma retried_sos_loses_channel:
  "let s = fst (send slow_transport 0 sos_notice one_phone)
   in map (\<lambda>t. case t of ToFcm m \<Rightarrow> map_option fo_channelId (fm_options m) | _ \<Rightarrow> None) (py_tries s) = [Some ''sos'']
      \<and> map (\<lambda>e. fm_options (rt_message e)) (rq_queue (py_retry s)) = [None]"
  by code_simp

text \<open>The last minute of a quiet window is quiet, unless the window runs past midnight.\<close>

lemma last_quiet_minute:
  "isInDndWindow ''08:00'' ((default_prefs ''u'')\<lparr>nf_dndStart := Some ''07:00'', nf_dndEnd := Some ''08:00''\<rparr>)
   \<and> \<not> isInDndWindow ''08:00'' ((default_prefs ''u'')\<lparr>nf_dndStart := Some ''22:00'', nf_dndEnd := Some ''08:00''\<rparr>)"
  by code_simp

section \<open>The members of a festival\<close>

lemma concat_chunks: "0 < n \<Longrightarrow> concat (chunks n xs) = xs"
proof (induction n xs rule: chunks.induct)
  case (2 n x xs)
  obtain m where n: "n = Suc m" using 2(2) by (cases n) auto
  show ?case using 2(1) n by simp
qed simp

lemma send_each_adds: "adds (fm_token ` set ms) (fst acc) (fst (send_each tr throws ms acc))"
  by (cases acc) (auto simp: send_each_def adds_def Let_def image_image)

lemma batch_adds:
  assumes "tr_fcm tr"
  shows "adds (fm_token ` set ms) s (fst (sendBatch tr throws ms s))"
proof -
  have "adds (\<Union>c \<in> set (chunks FCM_BATCH_SIZE ms). fm_token ` set c) (fst (s, 0 :: nat, 0 :: nat, [] :: string list))
      (fst (fold (send_each tr throws) (chunks FCM_BATCH_SIZE ms) (s, 0, 0, [])))"
    by (rule fold_adds) (rule send_each_adds)
  moreover have "(\<Union>c \<in> set (chunks FCM_BATCH_SIZE ms). fm_token ` set c) = fm_token ` set (concat (chunks FCM_BATCH_SIZE ms))" by auto
  ultimately show ?thesis using assms by (simp add: sendBatch_def concat_chunks FCM_BATCH_SIZE_def)
qed

lemma ios_send_adds: "adds {dt_token (snd x)} (fst acc) (fst (ios_send tr now n db x acc))"
  using ios_adds [of "snd x" "fst acc" tr now]
  by (cases x; cases acc) (auto simp: ios_send_def split_def)

lemma fold_keeps_tries: "(\<And>x s. py_tries (g x s) = py_tries s) \<Longrightarrow> py_tries (fold g xs s) = py_tries s"
  by (induction xs arbitrary: s) auto

definition wants :: "transport \<Rightarrow> int \<Rightarrow> string \<Rightarrow> push_db \<Rightarrow> string \<Rightarrow> bool" where
  "wants tr now t db u \<longleftrightarrow> \<not> opted_out t (prefs_get u db) \<and> \<not> isInDndWindow (fmtClock (tr_device tr) now) (prefs_get u db)"

lemma in_member_devices:
  "x \<in> set (member_devices tr now t db u) \<longleftrightarrow>
     wants tr now t db u \<and> fst x = u \<and> snd x \<in> set (tokens_listByUser now u db) \<and> reachable tr (snd x)"
  by (cases x) (auto simp: member_devices_def wants_def reachable_def)

lemma send_to_devices_adds:
  assumes "\<forall>x \<in> set devices. dt_platform (snd x) = ''ios'' \<or> tr_fcm tr"
  shows "adds (dt_token ` snd ` set devices) s (fst (send_to_devices tr throws now n devices s))"
proof -
  define ios where "ios = filter (\<lambda>x. dt_platform (snd x) = ''ios'') devices"
  define others where "others = filter (\<lambda>x. dt_platform (snd x) \<noteq> ''ios'') devices"
  obtain s1 ok bad stale where sent: "(if others \<noteq> [] then sendBatch tr throws (map (fcm_of tr n (py_db s)) others) s else (s, 0, 0, [])) = (s1, ok, bad, stale)"
    by (metis prod_cases4)
  obtain s2 k stale2 where after: "fold (ios_send tr now n (py_db s)) ios (s1, 0, []) = (s2, k, stale2)" by (metis prod_cases3)
  have tokens: "fm_token (fcm_of tr n (py_db s) x) = dt_token (snd x)" for x by (cases x) (simp add: fcm_of_def)
  have one: "adds (dt_token ` snd ` set others) s s1"
  proof (cases "others = []")
    case False
    then obtain x where "x \<in> set others" by (cases others) auto
    then have "tr_fcm tr" using assms by (auto simp: others_def)
    from batch_adds [OF this, of "map (fcm_of tr n (py_db s)) others" s throws] show ?thesis
      using False sent by (simp add: image_image tokens)
  qed (use sent in simp)
  have "adds (\<Union>x \<in> set ios. {dt_token (snd x)}) (fst (s1, 0 :: nat, [] :: string list)) (fst (fold (ios_send tr now n (py_db s)) ios (s1, 0, [])))"
    by (rule fold_adds) (rule ios_send_adds)
  moreover have "(\<Union>x \<in> set ios. {dt_token (snd x)}) = dt_token ` snd ` set ios" by auto
  ultimately have two: "adds (dt_token ` snd ` set ios) s1 s2" by (simp only: after fst_conv)
  have "dt_token ` snd ` set others \<union> dt_token ` snd ` set ios = dt_token ` snd ` set devices" unfolding ios_def others_def by auto
  with adds_trans [OF one two] have both: "adds (dt_token ` snd ` set devices) s s2" by simp
  have "py_tries (fst (send_to_devices tr throws now n devices s)) = py_tries s2"
    unfolding send_to_devices_def Let_def ios_def [symmetric] others_def [symmetric] sent
    by (simp add: after fold_keeps_tries split: option.split)
  with adds_same [OF both] show ?thesis by simp
qed


end
