(* ===== verification/Reminder_Job.thy ===== *)
theory Reminder_Job
  imports Push_Send
begin

text \<open>
  The reminder job (\<open>lib/reminder-scheduler.ts\<close>): every minute the leading worker looks through the
  festivals for reminders that are due and sends them by the push service.

  The rows of a festival are its inputs; the parser of ISO dates in the zone of the server is the
  platform's.  Start times are digits around a colon, as the import writes them, so \<open>Number\<close> is the
  decimal value.  The log of notices and the log of deliveries are the model's.
\<close>

definition REMINDER_FIRE_WINDOW_MS :: int where
  "REMINDER_FIRE_WINDOW_MS = 65000"

definition REMINDER_DEDUP_TTL_MS :: int where
  "REMINDER_DEDUP_TTL_MS = 7200000"

record job_set =
  jt_id :: string
  jt_dayIndex :: int
  jt_artist :: "string option"
  jt_artists :: "string list option"
  jt_stageId :: string
  jt_startTime :: "string option"

record job_festival =
  jf_id :: string
  jf_timeZone :: "string option"
  jf_days :: "(int \<times> string option) list"
  jf_stages :: "(string \<times> string) list"
  jf_sets :: "job_set list"
  jf_reminders :: "(string \<times> (string \<times> int) list option) list"

record set_info =
  si_startMs :: int
  si_startTime :: string
  si_artistName :: string
  si_stageName :: string

record job_state =
  jb_sys :: push_sys
  jb_fired :: "(string \<times> int) list"
  jb_asked :: "(string \<times> int) list"
  jb_delivered :: "(string \<times> int) list"

definition js_number :: "string \<Rightarrow> int option" where
  "js_number s = (if list_all is_decimal s then Some (decimal_value s) else None)"

definition isLeader :: "string option \<Rightarrow> bool" where
  "isLeader inst \<longleftrightarrow> inst = None \<or> inst = Some ''0''"

definition cleanDedupCache :: "int \<Rightarrow> (string \<times> int) list \<Rightarrow> (string \<times> int) list" where
  "cleanDedupCache now fired = filter (\<lambda>(k, ts). \<not> ts < now - REMINDER_DEDUP_TTL_MS) fired"

definition computeSetStartMs ::
  "zone_db \<Rightarrow> (string \<Rightarrow> int option) \<Rightarrow> string option \<Rightarrow> string option \<Rightarrow> string option \<Rightarrow> int option" where
  "computeSetStartMs tz parse_local dayDate startTime timeZone =
     (if \<not> filled dayDate \<or> \<not> filled startTime then None
      else let dateStr = take 10 (the dayDate)
        in case map js_number (split_char CHR '':'' (the startTime)) of
             Some h # Some m # rest \<Rightarrow>
               let zoned = (if filled timeZone
                   then (case map js_number (split_char CHR ''-'' dateStr) of
                       y # mo # d # rest' \<Rightarrow> server_zonedWallTimeToMs tz y mo d (Some h) (Some m) (the timeZone)
                     | _ \<Rightarrow> None)
                   else None)
               in (case zoned of
                     Some ms \<Rightarrow> Some ms
                   | None \<Rightarrow> parse_local (dateStr @ ''T'' @ pad2 h @ '':'' @ pad2 m @ '':00''))
           | _ \<Rightarrow> None)"

text \<open>A set without a day of its festival, or that starts at the epoch, is skipped.\<close>

definition set_lookup :: "zone_db \<Rightarrow> (string \<Rightarrow> int option) \<Rightarrow> job_festival \<Rightarrow> string \<Rightarrow> set_info option" where
  "set_lookup tz parse_local f setId =
     List.find (\<lambda>_. True) (List.map_filter (\<lambda>x.
        if jt_id x \<noteq> setId then None
        else case map_of (jf_days f) (jt_dayIndex x) of
          None \<Rightarrow> None
        | Some date \<Rightarrow>
            (case computeSetStartMs tz parse_local date (jt_startTime x) (jf_timeZone f) of
               None \<Rightarrow> None
             | Some ms \<Rightarrow>
                 if ms = 0 then None
                 else Some \<lparr>si_startMs = ms, si_startTime = the (jt_startTime x),
                   si_artistName = (case jt_artists x of
                       Some (a # as) \<Rightarrow> join_names '' b2b '' (a # as)
                     | _ \<Rightarrow> or_str (jt_artist x) ''Unknown''),
                   si_stageName = (case map_of (jf_stages f) (jt_stageId x) of Some n \<Rightarrow> n | None \<Rightarrow> [])\<rparr>)) (rev (jf_sets f)))"

definition dedup_key :: "string \<Rightarrow> string \<Rightarrow> string" where
  "dedup_key u setId = u @ '':'' @ setId"

definition reminder_notice :: "string \<Rightarrow> string \<Rightarrow> string \<Rightarrow> set_info \<Rightarrow> int \<Rightarrow> notice" where
  "reminder_notice f u setId i mins =
     \<lparr>nt_user = u, nt_type = ''set_reminder'', nt_title = si_artistName i @ '' in '' @ show_int mins @ '' min'',
      nt_body = si_startTime i @ '' at '' @ (if si_stageName i \<noteq> [] then si_stageName i else ''Main Stage''),
      nt_data = [(''type'', ''set_reminder''), (''festivalId'', f), (''setId'', setId),
                 (''deepLink'', ''rave://festival/'' @ f @ ''?set='' @ setId)],
      nt_thread = Some (''reminder-'' @ f)\<rparr>"

definition fireAt :: "set_info \<Rightarrow> int \<Rightarrow> int" where
  "fireAt i mins = si_startMs i - mins * 60000"

text \<open>One reminder of one profile.  The preference is read as a number here, so only quiet hours are
  checked; \<open>send\<close> checks the preference.\<close>

definition remind ::
  "transport \<Rightarrow> int \<Rightarrow> string \<Rightarrow> (string \<Rightarrow> set_info option) \<Rightarrow> string \<Rightarrow> string \<times> int \<Rightarrow> job_state \<Rightarrow> job_state" where
  "remind tr now f lookup u r s =
     (case r of (setId, mins) \<Rightarrow>
        case lookup setId of
          None \<Rightarrow> s
        | Some i \<Rightarrow>
            let k = dedup_key u setId
            in if fireAt i mins < now \<or> now + REMINDER_FIRE_WINDOW_MS < fireAt i mins then s
               else if map_of (jb_fired s) k \<noteq> None then s
               else if isInDndWindow (fmtClock (tr_device tr) now) (prefs_get u (py_db (jb_sys s))) then s
               else case send tr now (reminder_notice f u setId i mins) (jb_sys s) of
                 (sys, result) \<Rightarrow>
                   let s1 = s\<lparr>jb_sys := sys, jb_asked := jb_asked s @ [(k, now)]\<rparr>
                   in if 0 < sent_of result
                      then s1\<lparr>jb_fired := AList.update k now (jb_fired s1), jb_delivered := jb_delivered s1 @ [(k, now)]\<rparr>
                      else s1)"

definition processProfileReminders ::
  "transport \<Rightarrow> int \<Rightarrow> string \<Rightarrow> (string \<Rightarrow> set_info option) \<Rightarrow> string \<times> (string \<times> int) list option \<Rightarrow> job_state \<Rightarrow> job_state" where
  "processProfileReminders tr now f lookup p s =
     (case p of (u, None) \<Rightarrow> s | (u, Some rs) \<Rightarrow> fold (remind tr now f lookup u) rs s)"

definition remind_festival ::
  "zone_db \<Rightarrow> (string \<Rightarrow> int option) \<Rightarrow> transport \<Rightarrow> int \<Rightarrow> job_festival \<Rightarrow> job_state \<Rightarrow> job_state" where
  "remind_festival tz parse_local tr now f s =
     fold (processProfileReminders tr now (jf_id f) (set_lookup tz parse_local f)) (jf_reminders f) s"

definition job_tick :: "zone_db \<Rightarrow> (string \<Rightarrow> int option) \<Rightarrow> transport \<Rightarrow> int \<times> job_festival list \<Rightarrow> job_state \<Rightarrow> job_state" where
  "job_tick tz parse_local tr x s =
     (case x of (now, festivals) \<Rightarrow>
        if festivals = [] then s
        else fold (remind_festival tz parse_local tr now) festivals (s\<lparr>jb_fired := cleanDedupCache now (jb_fired s)\<rparr>))"

definition job_run :: "zone_db \<Rightarrow> (string \<Rightarrow> int option) \<Rightarrow> transport \<Rightarrow> (int \<times> job_festival list) list \<Rightarrow> job_state \<Rightarrow> job_state" where
  "job_run tz parse_local tr = fold (job_tick tz parse_local tr)"

definition job_stop :: "job_state \<Rightarrow> job_state" where
  "job_stop s = s\<lparr>jb_fired := []\<rparr>"

section \<open>Once\<close>

text \<open>The work of a tick, flat: festival, lookup, user and reminder.\<close>

text \<open>Every reminder under the key \<open>k\<close> is due at \<open>F\<close>.\<close>

definition due_at :: "string \<Rightarrow> int \<Rightarrow> (string \<times> (string \<Rightarrow> set_info option) \<times> string \<times> string \<times> int) list \<Rightarrow> bool" where
  "due_at k F ws \<longleftrightarrow> (\<forall>(f, lookup, u, setId, mins) \<in> set ws. dedup_key u setId = k \<longrightarrow>
     (case lookup setId of None \<Rightarrow> True | Some i \<Rightarrow> fireAt i mins = F))"

definition remind_work :: "transport \<Rightarrow> int \<Rightarrow> string \<times> (string \<Rightarrow> set_info option) \<times> string \<times> string \<times> int \<Rightarrow> job_state \<Rightarrow> job_state" where
  "remind_work tr now w s = (case w of (f, lookup, u, setId, mins) \<Rightarrow> remind tr now f lookup u (setId, mins) s)"

lemma fold_concat_map: "fold g (concat (map h xs)) = fold (\<lambda>x. fold g (h x)) xs"
proof
  show "fold g (concat (map h xs)) s = fold (\<lambda>x. fold g (h x)) xs s" for s by (induction xs arbitrary: s) simp_all
qed

definition profile_work :: "string \<Rightarrow> (string \<Rightarrow> set_info option) \<Rightarrow> string \<times> (string \<times> int) list option
    \<Rightarrow> (string \<times> (string \<Rightarrow> set_info option) \<times> string \<times> string \<times> int) list" where
  "profile_work f lookup p = (case p of (u, None) \<Rightarrow> [] | (u, Some l) \<Rightarrow> map (\<lambda>r. (f, lookup, u, fst r, snd r)) l)"

lemma profile_flat: "processProfileReminders tr now f lookup = (\<lambda>p. fold (remind_work tr now) (profile_work f lookup p))"
proof -
  have "fold (remind_work tr now) (map (\<lambda>r. (f, lookup, u, fst r, snd r)) l) s = fold (remind tr now f lookup u) l s" for u l s
    by (induction l arbitrary: s) (simp_all add: remind_work_def)
  then show ?thesis by (auto simp: processProfileReminders_def profile_work_def fun_eq_iff split: prod.split option.split)
qed

definition tick_work :: "zone_db \<Rightarrow> (string \<Rightarrow> int option) \<Rightarrow> job_festival list \<Rightarrow> (string \<times> (string \<Rightarrow> set_info option) \<times> string \<times> string \<times> int) list" where
  "tick_work tz parse_local festivals =
     concat (map (\<lambda>f. concat (map (profile_work (jf_id f) (set_lookup tz parse_local f)) (jf_reminders f))) festivals)"

lemma tick_flat:
  "job_tick tz pl tr (now, fs) s = (if fs = [] then s
     else fold (remind_work tr now) (tick_work tz pl fs) (s\<lparr>jb_fired := cleanDedupCache now (jb_fired s)\<rparr>))"
  by (simp add: job_tick_def tick_work_def fold_concat_map remind_festival_def [abs_def] profile_flat)

text \<open>While the key has been delivered, it is in the cache or its time has gone by.\<close>

definition once_at :: "string \<Rightarrow> int \<Rightarrow> int \<Rightarrow> job_state \<Rightarrow> bool" where
  "once_at k F now s \<longleftrightarrow>
     k \<notin> fst ` set (jb_delivered s)
     \<or> count_list (map fst (jb_delivered s)) k = 1 \<and> (F < now \<or> (\<exists>t. map_of (jb_fired s) k = Some t \<and> F - REMINDER_FIRE_WINDOW_MS \<le> t))"

lemma once_remind:
  assumes "once_at k F now s" and "due_at k F [w]"
  shows "once_at k F now (remind_work tr now w s)"
proof -
  obtain f lookup u setId mins where w: "w = (f, lookup, u, setId, mins)" by (cases w)
  show ?thesis
  proof (cases "lookup setId")
    case None
    then show ?thesis using assms w by (simp add: remind_work_def remind_def)
  next
    case (Some i)
    define k' where "k' = dedup_key u setId"
    have F: "k' = k \<Longrightarrow> fireAt i mins = F" using assms(2) w Some by (auto simp: due_at_def k'_def)
    show ?thesis
      using assms(1) Some w F unfolding remind_work_def remind_def k'_def [symmetric]
      by (auto simp: once_at_def update_conv' k'_def [symmetric] Let_def count_list_0_iff split: prod.split)
  qed
qed

lemma once_fold: "once_at k F now s \<Longrightarrow> due_at k F ws \<Longrightarrow> once_at k F now (fold (remind_work tr now) ws s)"
proof (induction ws arbitrary: s)
  case (Cons w ws)
  have "due_at k F [w]" "due_at k F ws" using Cons.prems(2) by (auto simp: due_at_def)
  then show ?case using Cons once_remind by simp
qed simp

lemma map_of_filter_kept: "map_of xs k = Some t \<Longrightarrow> P (k, t) \<Longrightarrow> map_of (filter P xs) k = Some t"
  by (induction xs) (auto split: if_splits)

lemma once_clean:
  assumes "once_at k F now s" and "now \<le> now'"
  shows "once_at k F now' (s\<lparr>jb_fired := cleanDedupCache now' (jb_fired s)\<rparr>)"
proof (cases "F < now'")
  case True
  then show ?thesis using assms(1) by (auto simp: once_at_def)
next
  case False
  show ?thesis
  proof (cases "k \<in> fst ` set (jb_delivered s)")
    case True
    then obtain t where t: "map_of (jb_fired s) k = Some t" "F - REMINDER_FIRE_WINDOW_MS \<le> t" and c: "count_list (map fst (jb_delivered s)) k = 1"
      using assms False by (auto simp: once_at_def)
    have "map_of (cleanDedupCache now' (jb_fired s)) k = Some t"
      unfolding cleanDedupCache_def using t False
      by (intro map_of_filter_kept) (simp_all add: REMINDER_FIRE_WINDOW_MS_def REMINDER_DEDUP_TTL_MS_def)
    then show ?thesis using t c by (simp add: once_at_def)
  qed (use assms in \<open>simp add: once_at_def\<close>)
qed

lemma once_tick:
  assumes "once_at k F now s" and "now \<le> fst x" and "due_at k F (tick_work tz pl (snd x))"
  shows "once_at k F (fst x) (job_tick tz pl tr x s)"
proof (cases x)
  case (Pair now' fs)
  have "once_at k F now' s" using assms(1,2) Pair by (auto simp: once_at_def)
  then show ?thesis
    using Pair once_fold [OF once_clean [OF assms(1)], of now' "tick_work tz pl fs" tr] assms(2,3) by (simp add: tick_flat)
qed

subsection \<open>At least once\<close>

lemma pd_prefs_kept [simp]:
  "pd_prefs (log_insert r d) = pd_prefs d" "pd_prefs (counts_increment u f k d) = pd_prefs d" "pd_prefs (tokens_unregister t u d) = pd_prefs d"
  by (simp_all add: log_insert_def counts_increment_def tokens_unregister_def Let_def)

lemma send_keeps_prefs: "pd_prefs (py_db (fst (send tr now n s))) = pd_prefs (py_db s)"
proof -
  have logged: "pd_prefs (py_db (logNotification tr now u t a b c d e f s)) = pd_prefs (py_db s)" for u t a b c d e f s
    by (simp add: logNotification_def on_push_db_def)
  have "pd_prefs (py_db (fst (sendToIosDevice tr now n d p s))) = pd_prefs (py_db s)" for n d p s
    by (auto simp: sendToIosDevice_def tried_def logged Let_def split: apns_answer.split prod.split)
  moreover have "pd_prefs (py_db (fst (sendToDevice tr now n d m s))) = pd_prefs (py_db s)" for n d m s
    by (auto simp: sendToDevice_def logged Let_def split: prod.split option.split)
  ultimately have "pd_prefs (py_db (fst (send_one tr now n b d acc))) = pd_prefs (py_db (fst acc))" for n b d acc
    by (cases acc) (auto simp: send_one_def split_def Let_def)
  then have folded: "pd_prefs (py_db (fst (fold (send_one tr now n b) ds acc))) = pd_prefs (py_db (fst acc))" for n b ds acc
    by (induction ds arbitrary: acc) simp_all
  have drop: "pd_prefs (py_db (drop_tokens u ks s)) = pd_prefs (py_db s)" for u ks s
    unfolding drop_tokens_def by (induction ks arbitrary: s) (simp_all add: on_push_db_def)
  obtain title body data where lim: "enforcePayloadLimits (nt_title n) (nt_body n) (nt_data n) = (title, body, data)" by (metis prod_cases3)
  obtain s1 k stale where acc: "fold (send_one tr now (n\<lparr>nt_title := title, nt_body := body, nt_data := data\<rparr>) (unread_total (nt_user n) (py_db s)))
      (tokens_listByUser now (nt_user n) (py_db s)) (s, 0, []) = (s1, k, stale)" by (metis prod_cases3)
  then have "pd_prefs (py_db s1) = pd_prefs (py_db s)" by (metis folded fst_conv)
  then show ?thesis by (simp add: send_def lim acc drop incrementUnread_def on_push_db_def Let_def)
qed

lemma prefs_get_cong: "pd_prefs d = pd_prefs d' \<Longrightarrow> prefs_get u d = prefs_get u d'"
  by (simp add: prefs_get_def)

definition heard :: "string \<Rightarrow> job_state \<Rightarrow> job_state \<Rightarrow> bool" where
  "heard k s s' \<longleftrightarrow> fst ` set (jb_asked s) \<subseteq> fst ` set (jb_asked s') \<and> pd_prefs (py_db (jb_sys s')) = pd_prefs (py_db (jb_sys s))
     \<and> ((map_of (jb_fired s) k \<noteq> None \<longrightarrow> k \<in> fst ` set (jb_asked s)) \<longrightarrow> map_of (jb_fired s') k \<noteq> None \<longrightarrow> k \<in> fst ` set (jb_asked s'))"

lemma heard_refl: "heard k s s"
  by (simp add: heard_def)

lemma heard_trans: "heard k s1 s2 \<Longrightarrow> heard k s2 s3 \<Longrightarrow> heard k s1 s3"
  by (auto simp: heard_def)

lemma heard_remind: "heard k s (remind_work tr now w s)"
  using send_keeps_prefs [of tr now _ "jb_sys s"]
  by (auto simp: heard_def remind_work_def remind_def update_conv' Let_def split_def split: option.split)

lemma heard_fold: "heard k s (fold (remind_work tr now) ws s)"
proof (induction ws arbitrary: s)
  case (Cons w ws)
  show ?case using heard_trans [OF heard_remind [of k s tr now w] Cons.IH] by simp
qed (simp add: heard_refl)

lemma clean_fewer: "map_of (cleanDedupCache now xs) k \<noteq> None \<Longrightarrow> map_of xs k \<noteq> None"
  unfolding cleanDedupCache_def by (induction xs) (auto split: if_splits)

lemma heard_clean: "heard k s (s\<lparr>jb_fired := cleanDedupCache now (jb_fired s)\<rparr>)"
  using clean_fewer [of now "jb_fired s" k] by (simp add: heard_def)

lemma heard_tick: "heard k s (job_tick tz pl tr x s)"
  using heard_trans [OF heard_clean heard_fold] by (cases x) (auto simp: tick_flat heard_refl)

lemma heard_run: "heard k s (job_run tz pl tr ticks s)"
  unfolding job_run_def
proof (induction ticks arbitrary: s)
  case (Cons x xs)
  show ?case using heard_trans [OF heard_tick Cons.IH] by simp
qed (simp add: heard_refl)

text \<open>A reminder of the work that is due in the window is asked for, unless it was before or it is quiet hours.\<close>

lemma asked_at_tick:
  assumes w: "(f, lookup, u, setId, mins) \<in> set (tick_work tz pl fs)" "lookup setId = Some i" "dedup_key u setId = k"
    and window: "now \<le> fireAt i mins" "fireAt i mins \<le> now + REMINDER_FIRE_WINDOW_MS"
    and awake: "\<not> isInDndWindow (fmtClock (tr_device tr) now) (prefs_get u (py_db (jb_sys s)))"
    and fired: "map_of (jb_fired s) k \<noteq> None \<longrightarrow> k \<in> fst ` set (jb_asked s)"
  shows "k \<in> fst ` set (jb_asked (job_tick tz pl tr (now, fs) s))"
proof -
  have "fs \<noteq> []" using w(1) by (auto simp: tick_work_def)
  define s0 where "s0 = s\<lparr>jb_fired := cleanDedupCache now (jb_fired s)\<rparr>"
  obtain as bs where ws: "tick_work tz pl fs = as @ (f, lookup, u, setId, mins) # bs" using w(1) by (meson split_list)
  define s1 where "s1 = fold (remind_work tr now) as s0"
  define s2 where "s2 = remind_work tr now (f, lookup, u, setId, mins) s1"
  have h1: "heard k s s1" using heard_trans [OF heard_clean heard_fold] by (simp add: s1_def s0_def)
  then have "prefs_get u (py_db (jb_sys s1)) = prefs_get u (py_db (jb_sys s))" by (auto simp: heard_def intro: prefs_get_cong)
  moreover have "map_of (jb_fired s1) k \<noteq> None \<longrightarrow> k \<in> fst ` set (jb_asked s1)" using h1 fired by (simp add: heard_def)
  ultimately have "k \<in> fst ` set (jb_asked s2)"
    using w(2,3) window awake by (auto simp: s2_def remind_work_def remind_def Let_def split: prod.split)
  moreover have "heard k s2 (job_tick tz pl tr (now, fs) s)"
    using heard_fold [of k s2 tr now bs] \<open>fs \<noteq> []\<close> by (simp add: tick_flat ws s0_def s1_def s2_def)
  ultimately show ?thesis by (auto simp: heard_def)
qed

lemma tick_in_window:
  assumes "successively (\<lambda>a b. b - a \<le> REMINDER_FIRE_WINDOW_MS) ts" and "ts \<noteq> []" and "hd ts \<le> F" and "F \<le> last ts"
  shows "\<exists>t \<in> set ts. t \<le> F \<and> F \<le> t + REMINDER_FIRE_WINDOW_MS"
  using assms
proof (induction ts)
  case (Cons t ts)
  show ?case
  proof (cases "ts = [] \<or> F < hd ts")
    case True
    then have "F \<le> t + REMINDER_FIRE_WINDOW_MS" using Cons.prems by (cases ts) (auto simp: REMINDER_FIRE_WINDOW_MS_def)
    then show ?thesis using Cons.prems(3) by auto
  next
    case False
    then show ?thesis using Cons by (cases ts) auto
  qed
qed simp

lemma once_run:
  assumes "once_at k F t0 s" and "sorted (t0 # map fst ticks)" and "\<forall>x \<in> set ticks. due_at k F (tick_work tz pl (snd x))"
  shows "once_at k F (last (t0 # map fst ticks)) (job_run tz pl tr ticks s)"
  using assms
proof (induction ticks arbitrary: t0 s)
  case (Cons x xs)
  have "once_at k F (fst x) (job_tick tz pl tr x s)" using Cons.prems by (intro once_tick [OF Cons.prems(1)]) auto
  from Cons.IH [OF this] Cons.prems(2,3) show ?case by (simp add: job_run_def)
qed (simp add: job_run_def)


definition ok_transport :: transport where
  "ok_transport = \<lparr>tr_fcm = True, tr_apns = False, tr_fcm_try = (\<lambda>_. \<lparr>ft_ms = 10, ft_error = None\<rparr>), tr_apns_answer = (\<lambda>_. ApnsFailed []),
     tr_pause = (\<lambda>_. 300), tr_uuid = (\<lambda>_. []), tr_size = (\<lambda>_. 0), tr_origin = [], tr_device = utc_device 0\<rparr>"

definition ex_job :: "int \<Rightarrow> job_festival" where
  "ex_job mins = \<lparr>jf_id = ''f'', jf_timeZone = None, jf_days = [(0, Some ''1970-01-01'')], jf_stages = [],
     jf_sets = [\<lparr>jt_id = ''s'', jt_dayIndex = 0, jt_artist = Some ''x'', jt_artists = None, jt_stageId = [], jt_startTime = Some ''02:46''\<rparr>],
     jf_reminders = [(''u'', Some [(''s'', mins)])]\<rparr>"

definition ex_job_state :: job_state where
  "ex_job_state = \<lparr>jb_sys = \<lparr>py_db = push_db0\<lparr>pd_tokens := [\<lparr>dt_id = ''d'', dt_userId = ''u'', dt_token = ''abcdefghijklmnopqrstuvwxyz'',
       dt_platform = ''android'', dt_deviceName = None, dt_createdAt = 0, dt_lastUsedAt = 0, dt_expiresAt = None\<rparr>]\<rparr>,
     py_retry = retry_queue0, py_tries = []\<rparr>, jb_fired = [], jb_asked = [], jb_delivered = []\<rparr>"


text \<open>A reminder that is moved closer to its set within two hours of its delivery is not delivered again;
  after a restart of the worker one that was delivered just now is.\<close>

lemma moved_reminder_lost:
  "map snd (jb_delivered (job_run (\<lambda>_. None) (\<lambda>_. Some 10000000) ok_transport [(8190000, [ex_job 30]), (9090000, [ex_job 15])] ex_job_state)) = [8190000]"
  by code_simp

lemma restart_repeats:
  "map snd (jb_delivered (job_run (\<lambda>_. None) (\<lambda>_. Some 10000000) ok_transport [(8195000, [ex_job 30])]
     (job_stop (job_run (\<lambda>_. None) (\<lambda>_. Some 10000000) ok_transport [(8190000, [ex_job 30])] ex_job_state)))) = [8190000, 8195000]"
  by code_simp

end
