(* ===== verification/Reengage.thy ===== *)
theory Reengage
  imports Push_Props Reminder_Job
begin

text \<open>
  Messages after a festival (\<open>lib/notifications/reengagement.ts\<close>) and their queue
  (\<open>reengagement-queue.ts\<close>): the recap is ready, a line-up is out, a crew has formed again.  Each goes by
  push and by mail to everybody it concerns, once.

  The rows of festivals, profiles and users and the answers of the mail service are inputs; the push
  service is the one of \<open>Push_Send\<close>.  The concurrent sends of a chunk are taken in order.  Failures of
  the database are left out.
\<close>

record reengage_env =
  rv_tr :: transport
  rv_tz :: zone_db
  rv_festivals :: "(string \<times> string \<times> string option list \<times> string option) list"
  rv_profiles :: "(string \<times> string) list"
  rv_lower :: "string \<Rightarrow> string"
  rv_users :: "string \<Rightarrow> (string \<times> string) option"
  rv_mail_ok :: "nat \<Rightarrow> bool"
  rv_encode :: "string \<Rightarrow> string"
  rv_origin :: string

record reengage_state =
  rs_sys :: push_sys
  rs_mails :: "(string \<times> string) list"

datatype reengage_result =
    NoSend string
  | Done nat nat

definition server_isFestivalOver :: "zone_db \<Rightarrow> string option list \<Rightarrow> string option \<Rightarrow> int \<Rightarrow> bool" where
  "server_isFestivalOver tz days timeZone now =
     (if days = [] \<or> \<not> filled (last days) then False
      else case map js_number (split_char CHR ''-'' (the (last days))) of
          Some y # Some mo # Some d # rest \<Rightarrow>
            let utc = date_utc y mo d 23 59 + 59000;
                cutoff = (if filled timeZone
                  then (case server_zonedWallTimeToMs tz (Some y) (Some mo) (Some d) (Some 23) (Some 59) (the timeZone) of Some ms \<Rightarrow> ms | None \<Rightarrow> utc)
                  else utc)
            in cutoff < now
        | _ \<Rightarrow> False)"

definition filterFresh :: "string list \<Rightarrow> string \<Rightarrow> string \<Rightarrow> push_db \<Rightarrow> string list" where
  "filterFresh us t key db = (if us = [] then [] else filter (\<lambda>u. u \<notin> existsForEvents us t key db) us)"

definition push_to :: "transport \<Rightarrow> int \<Rightarrow> notice \<Rightarrow> string \<Rightarrow> push_sys \<times> nat \<Rightarrow> push_sys \<times> nat" where
  "push_to tr now n u acc = (case acc of (s, k) \<Rightarrow> case send tr now (n\<lparr>nt_user := u\<rparr>) s of (s1, r) \<Rightarrow> (s1, k + sent_of r))"

definition pushFanout :: "transport \<Rightarrow> int \<Rightarrow> notice \<Rightarrow> string list \<Rightarrow> push_sys \<Rightarrow> push_sys \<times> nat" where
  "pushFanout tr now n us s = (if us = [] \<or> \<not> tr_fcm tr \<and> \<not> tr_apns tr then (s, 0) else fold (push_to tr now n) us (s, 0))"

definition mail_to :: "reengage_env \<Rightarrow> int \<Rightarrow> string \<Rightarrow> string \<Rightarrow> string \<Rightarrow> reengage_state \<times> nat \<Rightarrow> reengage_state \<times> nat" where
  "mail_to e now t key u acc =
     (case acc of (s, k) \<Rightarrow>
        case rv_users e u of
          None \<Rightarrow> (s, k)
        | Some (email, name) \<Rightarrow>
            if email = [] then (s, k)
            else let ok = rv_mail_ok e (length (rs_mails s)); s1 = s\<lparr>rs_mails := rs_mails s @ [(u, key)]\<rparr>
              in if \<not> ok then (s1, k)
                 else (s1\<lparr>rs_sys := on_push_db (log_insert \<lparr>nl_id = tr_uuid (rv_tr e) (length (pd_log (py_db (rs_sys s)))), nl_userId = u,
                         nl_type = t, nl_title = t @ '' email'', nl_body = [], nl_data = Some [(''eventKey'', key), (''channel'', ''email'')],
                         nl_status = ''sent'', nl_platform = Some ''email'', nl_errorMessage = None, nl_createdAt = now, nl_deliveredAt = None\<rparr>) (rs_sys s1)\<rparr>,
                       Suc k))"

definition emailFanout :: "reengage_env \<Rightarrow> int \<Rightarrow> string \<Rightarrow> string \<Rightarrow> string list \<Rightarrow> reengage_state \<Rightarrow> reengage_state \<times> nat" where
  "emailFanout e now t key us s =
     (if us = [] then (s, 0)
      else fold (mail_to e now t (key @ ''#email'')) (filterFresh us t (key @ ''#email'') (py_db (rs_sys s))) (s, 0))"

text \<open>Push, then mail, to those who have not heard of the event.\<close>

definition fan_out :: "reengage_env \<Rightarrow> int \<Rightarrow> notice \<Rightarrow> string \<Rightarrow> string list \<Rightarrow> reengage_state \<Rightarrow> reengage_state \<times> reengage_result" where
  "fan_out e now n key fresh s =
     (case pushFanout (rv_tr e) now n fresh (rs_sys s) of
        (sys, k) \<Rightarrow> case emailFanout e now (nt_type n) key fresh (s\<lparr>rs_sys := sys\<rparr>) of (s1, m) \<Rightarrow> (s1, Done k m))"

definition event_notice :: "string \<Rightarrow> string \<Rightarrow> string \<Rightarrow> (string \<times> string) list \<Rightarrow> notice" where
  "event_notice t title body data = \<lparr>nt_user = [], nt_type = t, nt_title = title, nt_body = body, nt_data = data, nt_thread = None\<rparr>"

definition sendWrapReady :: "reengage_env \<Rightarrow> int \<Rightarrow> string \<Rightarrow> reengage_state \<Rightarrow> reengage_state \<times> reengage_result" where
  "sendWrapReady e now f s =
     (if f = [] then (s, NoSend ''no_festival'')
      else case map_of (rv_festivals e) f of
          None \<Rightarrow> (s, NoSend ''festival_not_found'')
        | Some (name, days, zone) \<Rightarrow>
            if \<not> server_isFestivalOver (rv_tz e) days zone now then (s, NoSend ''not_over'')
            else let key = ''wrap:'' @ f; attendees = remdups (map snd (filter (\<lambda>p. fst p = f) (rv_profiles e)))
              in fan_out e now (event_notice ''wrap_ready'' ((if name = [] then ''your festival'' else name) @ '': your wrap is ready'')
                     ''Relive your top sets and crew superlatives.''
                     [(''festivalId'', f), (''eventKey'', key), (''deepLink'', rv_origin e @ ''/wrap?festival='' @ rv_encode e f)]) key
                   (filterFresh attendees ''wrap_ready'' key (py_db (rs_sys s))) s)"

text \<open>Who was at another festival of the same name and is not at this one.\<close>

definition prior_attendees :: "reengage_env \<Rightarrow> string \<Rightarrow> string \<Rightarrow> string list" where
  "prior_attendees e f name =
     remdups (map snd (filter (\<lambda>(g, u). g \<noteq> f \<and> u \<noteq> [] \<and> (f, u) \<notin> set (rv_profiles e)
        \<and> (case map_of (rv_festivals e) g of Some (name', x) \<Rightarrow> rv_lower e name' = rv_lower e name | None \<Rightarrow> False)) (rv_profiles e)))"

definition sendLineupDrop :: "reengage_env \<Rightarrow> int \<Rightarrow> string \<Rightarrow> reengage_state \<Rightarrow> reengage_state \<times> reengage_result" where
  "sendLineupDrop e now f s =
     (if f = [] then (s, NoSend ''no_festival'')
      else case map_of (rv_festivals e) f of
          None \<Rightarrow> (s, NoSend ''festival_not_found'')
        | Some (name, days, zone) \<Rightarrow>
            if name = [] then (s, NoSend ''festival_not_found'')
            else let prior = prior_attendees e f name; key = ''lineup:'' @ f; fresh = filterFresh prior ''lineup_drop'' key (py_db (rs_sys s))
              in if prior = [] then (s, NoSend ''no_prior_attendees'')
                 else if fresh = [] then (s, NoSend ''all_deduped'')
                 else fan_out e now (event_notice ''lineup_drop'' (name @ '' lineup just dropped'') ''Start picking your sets.''
                        [(''festivalId'', f), (''eventKey'', key), (''deepLink'', rv_origin e @ ''/festival/'' @ rv_encode e f)]) key fresh s)"

record reform_args =
  ra_newCrewId :: string
  ra_crewName :: string
  ra_festivalName :: string
  ra_invited :: "string list"
  ra_inviteUrl :: string

definition sendCrewReformed :: "reengage_env \<Rightarrow> int \<Rightarrow> reform_args \<Rightarrow> reengage_state \<Rightarrow> reengage_state \<times> reengage_result" where
  "sendCrewReformed e now a s =
     (let invited = filter (\<lambda>u. u \<noteq> []) (ra_invited a); key = ''reform:'' @ ra_newCrewId a;
          fresh = filterFresh invited ''crew_reformed'' key (py_db (rs_sys s))
      in if ra_newCrewId a = [] \<or> invited = [] then (s, NoSend ''no_invitees'')
         else if fresh = [] then (s, NoSend ''all_deduped'')
         else fan_out e now (event_notice ''crew_reformed'' ((if ra_crewName a = [] then ''Your crew'' else ra_crewName a) @ '' reformed'')
                (if ra_festivalName a \<noteq> [] then ''Back together for '' @ ra_festivalName a @ ''. Jump in.'' else ''Back together. Jump in.'')
                [(''crewId'', ra_newCrewId a), (''eventKey'', key),
                 (''deepLink'', if ra_inviteUrl a \<noteq> [] then ra_inviteUrl a else rv_origin e @ ''/crew/'' @ rv_encode e (ra_newCrewId a))]) key fresh s)"

section \<open>The queue\<close>

datatype reengage_job = WrapJob string | LineupJob string | ReformJob reform_args

definition job_id :: "reengage_job \<Rightarrow> string" where
  "job_id j = (case j of WrapJob f \<Rightarrow> ''wrap-'' @ f | LineupJob f \<Rightarrow> ''lineup-'' @ f | ReformJob a \<Rightarrow> ''reform-'' @ ra_newCrewId a)"

definition run_job :: "reengage_env \<Rightarrow> int \<Rightarrow> reengage_job \<Rightarrow> reengage_state \<Rightarrow> reengage_state \<times> reengage_result" where
  "run_job e now j s = (case j of WrapJob f \<Rightarrow> sendWrapReady e now f s | LineupJob f \<Rightarrow> sendLineupDrop e now f s | ReformJob a \<Rightarrow> sendCrewReformed e now a s)"

text \<open>\<open>enqueue\<close>: the jobs that wait, by id; a job that cannot be queued runs at once.\<close>

definition enqueue_job :: "reengage_env \<Rightarrow> bool \<Rightarrow> int \<Rightarrow> reengage_job \<Rightarrow> (string \<times> reengage_job) list \<times> reengage_state
    \<Rightarrow> (string \<times> reengage_job) list \<times> reengage_state" where
  "enqueue_job e redis now j x =
     (case x of (q, s) \<Rightarrow>
        if redis then (if job_id j \<in> fst ` set q then (q, s) else (q @ [(job_id j, j)], s))
        else (q, fst (run_job e now j s)))"

end
