(* ===== verification/Reengage_Props.thy ===== *)
theory Reengage_Props
  imports Reengage
begin

text \<open>
  An event reaches a device once: the log that the push service writes with every attempt is what keeps
  a later run of the same event from trying again, however the runs are spaced.
\<close>

definition heard_of :: "string \<Rightarrow> string \<Rightarrow> string \<Rightarrow> push_db \<Rightarrow> bool" where
  "heard_of t key u db \<longleftrightarrow> (\<exists>r \<in> set (pd_log db). nl_userId r = u \<and> logged_for t key r)"

lemma fresh_unheard: "u \<in> set (filterFresh us t key db) \<Longrightarrow> \<not> heard_of t key u db"
  by (auto simp: filterFresh_def existsForEvents_def heard_of_def image_iff split: if_splits)

text \<open>A step tries devices of \<open>D\<close> only, and whoever is tried has heard of the event afterwards.\<close>

definition pushes :: "device_row set \<Rightarrow> string \<Rightarrow> string \<Rightarrow> push_sys \<Rightarrow> push_sys \<Rightarrow> bool" where
  "pushes D t key s s' \<longleftrightarrow>
     (\<exists>ts. py_tries s' = py_tries s @ ts \<and> (\<forall>x \<in> set ts. \<exists>d \<in> D. tokens_of x = dt_token d \<and> heard_of t key (dt_userId d) (py_db s')))
     \<and> set (pd_tokens (py_db s')) \<subseteq> set (pd_tokens (py_db s)) \<and> set (pd_log (py_db s)) \<subseteq> set (pd_log (py_db s'))"

lemma heard_of_later: "heard_of t key u db \<Longrightarrow> set (pd_log db) \<subseteq> set (pd_log db') \<Longrightarrow> heard_of t key u db'"
  by (auto simp: heard_of_def)

lemma pushes_refl [simp]: "pushes D t key s s"
  by (simp add: pushes_def)

lemma pushes_trans:
  assumes "pushes D t key s1 s2" and "pushes D t key s2 s3"
  shows "pushes D t key s1 s3"
proof -
  obtain ts1 ts2 where 1: "py_tries s2 = py_tries s1 @ ts1" "\<forall>x \<in> set ts1. \<exists>d \<in> D. tokens_of x = dt_token d \<and> heard_of t key (dt_userId d) (py_db s2)"
    and 2: "py_tries s3 = py_tries s2 @ ts2" "\<forall>x \<in> set ts2. \<exists>d \<in> D. tokens_of x = dt_token d \<and> heard_of t key (dt_userId d) (py_db s3)"
    using assms unfolding pushes_def by blast
  have log: "set (pd_log (py_db s2)) \<subseteq> set (pd_log (py_db s3))" using assms(2) by (simp add: pushes_def)
  have "\<forall>x \<in> set (ts1 @ ts2). \<exists>d \<in> D. tokens_of x = dt_token d \<and> heard_of t key (dt_userId d) (py_db s3)"
    using 1(2) 2(2) heard_of_later [OF _ log] by (auto dest!: bspec)
  with 1(1) 2(1) assms show ?thesis unfolding pushes_def by (metis append.assoc subset_trans)
qed

lemma pushes_quiet:
  assumes "py_tries s' = py_tries s" and "set (pd_tokens (py_db s')) \<subseteq> set (pd_tokens (py_db s))" and "set (pd_log (py_db s)) \<subseteq> set (pd_log (py_db s'))"
  shows "pushes D t key s s'"
  using assms by (simp add: pushes_def)

lemma fold_pushes: "(\<And>x acc. x \<in> set xs \<Longrightarrow> pushes D t key (fst acc) (fst (g x acc))) \<Longrightarrow> pushes D t key (fst acc) (fst (fold g xs acc))"
proof (induction xs arbitrary: acc)
  case (Cons x xs)
  have "pushes D t key (fst acc) (fst (g x acc))" by (rule Cons.prems) simp
  moreover have "pushes D t key (fst (g x acc)) (fst (fold g xs (g x acc)))" by (rule Cons.IH) (rule Cons.prems, simp)
  ultimately show ?case by (simp add: pushes_trans)
qed simp

subsection \<open>One device\<close>

lemma log_pushes:
  assumes "d \<in> D" "dt_userId d = nt_user n" "map_of (nt_data n) ''eventKey'' = Some key"
    and "py_tries s1 = py_tries s @ ts" "\<forall>x \<in> set ts. tokens_of x = dt_token d" "py_db s1 = py_db s"
  shows "pushes D (nt_type n) key s (logNotification tr now (nt_user n) (nt_type n) a b (nt_data n) st pl er s1)"
proof -
  have "heard_of (nt_type n) key (nt_user n) (py_db (logNotification tr now (nt_user n) (nt_type n) a b (nt_data n) st pl er s1))"
    using assms(3) by (simp add: heard_of_def logNotification_def on_push_db_def log_insert_def logged_for_def)
  then show ?thesis using assms unfolding pushes_def
    by (auto simp: logNotification_def on_push_db_def log_insert_def intro!: exI [of _ ts])
qed

lemma ios_pushes:
  assumes "d \<in> D" "dt_userId d = nt_user n" "map_of (nt_data n) ''eventKey'' = Some key"
  shows "pushes D (nt_type n) key s (fst (sendToIosDevice tr now n d p s))"
  using log_pushes [OF assms, of "tried (ToApns (dt_token d) p) s" s "[ToApns (dt_token d) p]"]
  by (auto simp: sendToIosDevice_def tried_def Let_def split: apns_answer.split prod.split)

lemma fcm_pushes:
  assumes "d \<in> D" "dt_userId d = nt_user n" "map_of (nt_data n) ''eventKey'' = Some key" "fm_token m = dt_token d"
  shows "pushes D (nt_type n) key s (fst (sendToDevice tr now n d m s))"
proof -
  obtain el err k where r: "fcm_race (tr_fcm_try tr (length (py_tries s))) (tr_pause tr (length (py_tries s))) (tr_fcm_try tr (Suc (length (py_tries s)))) = (el, err, k)"
    by (metis prod_cases3)
  have ts: "\<forall>x \<in> set (replicate k (ToFcm m)). tokens_of x = dt_token d" using assms(4) by auto
  show ?thesis
    using log_pushes [OF assms(1-3) _ ts] r
    by (cases err) (simp_all add: sendToDevice_def Let_def split: prod.split)
qed

lemma send_one_pushes:
  assumes "d \<in> D" "dt_userId d = nt_user n" "map_of (nt_data n) ''eventKey'' = Some key"
  shows "pushes D (nt_type n) key (fst acc) (fst (send_one tr now n badge d acc))"
  using ios_pushes [OF assms] fcm_pushes [OF assms]
  by (cases acc) (simp add: send_one_def split_def Let_def)

subsection \<open>One user\<close>

lemma dropped_db:
  "set (pd_tokens (py_db (drop_tokens u ks s))) \<subseteq> set (pd_tokens (py_db s))" and dropped_log [simp]: "pd_log (py_db (drop_tokens u ks s)) = pd_log (py_db s)"
proof -
  have "set (pd_tokens (py_db (drop_tokens u ks s))) \<subseteq> set (pd_tokens (py_db s)) \<and> pd_log (py_db (drop_tokens u ks s)) = pd_log (py_db s)"
    unfolding drop_tokens_def by (induction ks arbitrary: s) (force simp: on_push_db_def tokens_unregister_def)+
  then show "set (pd_tokens (py_db (drop_tokens u ks s))) \<subseteq> set (pd_tokens (py_db s))" "pd_log (py_db (drop_tokens u ks s)) = pd_log (py_db s)" by auto
qed

lemma increment_db [simp]: "pd_tokens (py_db (incrementUnread u f s)) = pd_tokens (py_db s)" "pd_log (py_db (incrementUnread u f s)) = pd_log (py_db s)"
  by (simp_all add: incrementUnread_def on_push_db_def counts_increment_def Let_def)

lemma send_pushes:
  assumes rows: "\<And>d. d \<in> set (pd_tokens (py_db s)) \<Longrightarrow> dt_userId d = nt_user n \<Longrightarrow> d \<in> D"
    and key: "map_of (snd (snd (enforcePayloadLimits (nt_title n) (nt_body n) (nt_data n)))) ''eventKey'' = Some key"
  shows "pushes D (nt_type n) key s (fst (send tr now n s))"
proof (cases "push_admitted tr now n (py_db s)")
  case True
  obtain title body data where lim: "enforcePayloadLimits (nt_title n) (nt_body n) (nt_data n) = (title, body, data)" by (metis prod_cases3)
  define n' where "n' = n\<lparr>nt_title := title, nt_body := body, nt_data := data\<rparr>"
  obtain s1 k stale where acc: "fold (send_one tr now n' (unread_total (nt_user n) (py_db s))) (tokens_listByUser now (nt_user n) (py_db s)) (s, 0, []) = (s1, k, stale)"
    by (metis prod_cases3)
  have "pushes D (nt_type n') key (fst (s, 0 :: nat, [] :: string list))
      (fst (fold (send_one tr now n' (unread_total (nt_user n) (py_db s))) (tokens_listByUser now (nt_user n) (py_db s)) (s, 0, [])))"
    by (rule fold_pushes, rule send_one_pushes) (use rows key lim in \<open>auto simp: n'_def tokens_listByUser_def\<close>)
  moreover have "nt_type n' = nt_type n" by (simp add: n'_def)
  ultimately have main: "pushes D (nt_type n) key s s1" by (simp only: acc fst_conv)
  have tail: "pushes D (nt_type n) key s1 (drop_tokens (nt_user n) stale (if b then incrementUnread (nt_user n) f s1 else s1))" for b f
    using dropped_db [of "nt_user n" stale "if b then incrementUnread (nt_user n) f s1 else s1"] by (intro pushes_quiet) (cases b; simp)+
  show ?thesis
    using send_admitted [OF True lim acc [unfolded n'_def]] pushes_trans [OF main tail] by (simp split: if_splits)
next
  case False
  then show ?thesis using send_refused by simp
qed

section \<open>One run\<close>

lemma push_fanout_pushes:
  assumes rows: "\<And>d. d \<in> set (pd_tokens (py_db s)) \<Longrightarrow> dt_userId d \<in> set us \<Longrightarrow> d \<in> D"
    and key: "map_of (snd (snd (enforcePayloadLimits (nt_title n) (nt_body n) (nt_data n)))) ''eventKey'' = Some key"
  shows "pushes D (nt_type n) key s (fst (pushFanout tr now n us s))"
proof -
  have "pushes D (nt_type n) key s (fst (fold (push_to tr now n) us (s, k)))" for k
    using rows
  proof (induction us arbitrary: s k)
    case (Cons u us)
    let ?s1 = "fst (send tr now (n\<lparr>nt_user := u\<rparr>) s)"
    have "pushes D (nt_type (n\<lparr>nt_user := u\<rparr>)) key s ?s1" by (rule send_pushes) (use Cons.prems key in auto)
    then have one: "pushes D (nt_type n) key s ?s1" by simp
    then have "set (pd_tokens (py_db ?s1)) \<subseteq> set (pd_tokens (py_db s))" by (simp add: pushes_def)
    then have "pushes D (nt_type n) key ?s1 (fst (fold (push_to tr now n) us (?s1, j)))" for j
      using Cons.prems by (intro Cons.IH) auto
    moreover have "push_to tr now n u (s, k) = (?s1, k + sent_of (snd (send tr now (n\<lparr>nt_user := u\<rparr>) s)))"
      by (simp add: push_to_def split_def)
    ultimately show ?case using pushes_trans [OF one] by simp
  qed simp
  then show ?thesis by (simp add: pushFanout_def)
qed

lemma mail_pushes: "pushes D t key (rs_sys (fst acc)) (rs_sys (fst (mail_to e now t' key' u acc)))"
  by (rule pushes_quiet) (cases acc; auto simp: mail_to_def on_push_db_def log_insert_def Let_def split: option.split)+

lemma email_pushes: "pushes D t key (rs_sys s) (rs_sys (fst (emailFanout e now t' key' us s)))"
proof -
  have "pushes D t key (rs_sys (fst acc)) (rs_sys (fst (fold (mail_to e now t' k) vs acc)))" for k vs acc
  proof (induction vs arbitrary: acc)
    case (Cons v vs)
    show ?case using pushes_trans [OF mail_pushes Cons.IH] by simp
  qed simp
  from this [of "(s, 0)"] show ?thesis by (simp add: emailFanout_def)
qed

lemma fan_out_pushes:
  assumes "\<And>d. d \<in> set (pd_tokens (py_db (rs_sys s))) \<Longrightarrow> dt_userId d \<in> set us \<Longrightarrow> d \<in> D"
    and "map_of (snd (snd (enforcePayloadLimits (nt_title n) (nt_body n) (nt_data n)))) ''eventKey'' = Some key"
  shows "pushes D (nt_type n) key (rs_sys s) (rs_sys (fst (fan_out e now n key us s)))"
proof -
  obtain sys k where p: "pushFanout (rv_tr e) now n us (rs_sys s) = (sys, k)" by fastforce
  have "pushes D (nt_type n) key (rs_sys s) (fst (pushFanout (rv_tr e) now n us (rs_sys s)))"
    by (rule push_fanout_pushes) (use assms in auto)
  then have "pushes D (nt_type n) key (rs_sys s) sys" by (simp add: p)
  from pushes_trans [OF this] email_pushes [of D "nt_type n" key "s\<lparr>rs_sys := sys\<rparr>" e now "nt_type n" key us]
  show ?thesis by (simp add: fan_out_def p split_def)
qed

definition job_type :: "reengage_job \<Rightarrow> string" where
  "job_type j = (case j of WrapJob f \<Rightarrow> ''wrap_ready'' | LineupJob f \<Rightarrow> ''lineup_drop'' | ReformJob a \<Rightarrow> ''crew_reformed'')"

definition job_key :: "reengage_job \<Rightarrow> string" where
  "job_key j = (case j of WrapJob f \<Rightarrow> ''wrap:'' @ f | LineupJob f \<Rightarrow> ''lineup:'' @ f | ReformJob a \<Rightarrow> ''reform:'' @ ra_newCrewId a)"

definition unheard_rows :: "string \<Rightarrow> string \<Rightarrow> push_db \<Rightarrow> device_row set" where
  "unheard_rows t key db = {d. d \<in> set (pd_tokens db) \<and> \<not> heard_of t key (dt_userId d) db}"

lemma limited_key:
  assumes "length key \<le> 200" and "k \<noteq> ''eventKey''" and "length k \<le> 50"
  shows "map_of (snd (snd (enforcePayloadLimits title body [(k, v), (''eventKey'', key), (''deepLink'', w)]))) ''eventKey'' = Some key"
  using assms by (simp add: enforcePayloadLimits_def MAX_DATA_KEYS_def)

lemma run_job_pushes:
  assumes "length (job_key j) \<le> 200"
  shows "pushes (unheard_rows (job_type j) (job_key j) (py_db (rs_sys s))) (job_type j) (job_key j) (rs_sys s) (rs_sys (fst (run_job e now j s)))"
proof -
  have event: "pushes (unheard_rows t key (py_db (rs_sys s))) t key (rs_sys s)
      (rs_sys (fst (fan_out e now (event_notice t title body [(k, v), (''eventKey'', key), (''deepLink'', w)]) key (filterFresh us t key (py_db (rs_sys s))) s)))"
    if "length key \<le> 200" "k \<noteq> ''eventKey''" "length k \<le> 50" for t key title body k v w us
    using fan_out_pushes [of s "filterFresh us t key (py_db (rs_sys s))" "unheard_rows t key (py_db (rs_sys s))"
        "event_notice t title body [(k, v), (''eventKey'', key), (''deepLink'', w)]" key e now] limited_key [OF that]
    by (auto simp: event_notice_def unheard_rows_def dest: fresh_unheard)
  show ?thesis
  proof (cases j)
    case (WrapJob f)
    then show ?thesis using assms event
      by (simp add: run_job_def sendWrapReady_def job_type_def job_key_def Let_def split: option.split prod.split)
  next
    case (LineupJob f)
    then show ?thesis using assms event
      by (simp add: run_job_def sendLineupDrop_def job_type_def job_key_def Let_def split: option.split prod.split)
  next
    case (ReformJob a)
    then show ?thesis using assms event
      by (simp add: run_job_def sendCrewReformed_def job_type_def job_key_def Let_def split: option.split prod.split)
  qed
qed


definition ex_reengage :: reengage_env where
  "ex_reengage = \<lparr>rv_tr = ok_transport, rv_tz = (\<lambda>_. None), rv_festivals = [], rv_profiles = [], rv_lower = id,
     rv_users = (\<lambda>u. if u = ''u'' then Some (''u@x.org'', ''U'') else None), rv_mail_ok = (\<lambda>i. i = 1), rv_encode = id, rv_origin = ''o''\<rparr>"

definition ex_reform :: reengage_job where
  "ex_reform = ReformJob \<lparr>ra_newCrewId = ''c'', ra_crewName = [], ra_festivalName = [], ra_invited = [''u''], ra_inviteUrl = []\<rparr>"

definition ex_reengage_state :: reengage_state where
  "ex_reengage_state = \<lparr>rs_sys = jb_sys ex_job_state, rs_mails = []\<rparr>"


text \<open>A mail that failed is not sent by a later run: the run asks only for those whom no push was
  written down for, although the mails have a key of their own.\<close>

lemma failed_mail_not_repeated:
  "let s1 = fst (run_job ex_reengage 0 ex_reform ex_reengage_state)
   in rs_mails s1 = [(''u'', ''reform:c#email'')] \<and> map nl_platform (pd_log (py_db (rs_sys s1))) = [Some ''android'']
      \<and> run_job ex_reengage 600000 ex_reform s1 = (s1, NoSend ''all_deduped'')"
  by code_simp

end
