(* ===== verification/Plan_Snapshot.thy ===== *)
theory Plan_Snapshot
  imports Prelude "HOL-Library.Word"
begin

unbundle bit_operations_syntax

text \<open>
  A plan as a code: \<open>packages/shared/src/utils/planSnapshot.ts\<close>, with the parts of the language it uses.

  A string is the list of its UTF-16 units.  The numbers of the codec are 32-bit words, as the bit
  operators of the language make them: \<open><<\<close> drops what leaves the word, \<open>>>\<close> keeps the sign.  Numbers in
  a plan are rationals; how a double is written and read is a parameter.  A thrown error is \<open>None\<close>.
\<close>

section \<open>Base64url and UTF-8\<close>

type_synonym utf16 = "16 word list"

definition units :: "string \<Rightarrow> utf16" where
  "units s = map (\<lambda>c. word_of_nat (of_char c)) s"

definition B64URL_ALPHABET :: utf16 where
  "B64URL_ALPHABET = units ''ABCDEFGHIJKLMNOPQRSTUVWXYZabcdefghijklmnopqrstuvwxyz0123456789-_''"

definition B64URL_LOOKUP :: "int list" where
  "B64URL_LOOKUP = fold (\<lambda>i t. t[unat (B64URL_ALPHABET ! i) := int i]) [0..<length B64URL_ALPHABET] (replicate 128 (-1))"

fun utf8Encode :: "utf16 \<Rightarrow> 32 word list" where
  "utf8Encode [] = []"
| "utf8Encode (u # us) =
     (let code = (ucast u :: 32 word) in
      if code < 0x80 then code # utf8Encode us
      else if code < 0x800 then (0xc0 OR drop_bit 6 code) # (0x80 OR (code AND 0x3f)) # utf8Encode us
      else if 0xd800 \<le> code \<and> code \<le> 0xdbff \<and> us \<noteq> [] then
        (let code = 0x10000 + push_bit 10 (code AND 0x3ff) + (ucast (hd us) AND 0x3ff)
         in (0xf0 OR drop_bit 18 code) # (0x80 OR (drop_bit 12 code AND 0x3f)) # (0x80 OR (drop_bit 6 code AND 0x3f))
            # (0x80 OR (code AND 0x3f)) # utf8Encode (tl us))
      else (0xe0 OR drop_bit 12 code) # (0x80 OR (drop_bit 6 code AND 0x3f)) # (0x80 OR (code AND 0x3f)) # utf8Encode us)"

text \<open>\<open>bytes[i] ?? 0\<close>.\<close>

definition byte_at :: "32 word list \<Rightarrow> nat \<Rightarrow> 32 word" where
  "byte_at bs i = (if i < length bs then bs ! i else 0)"

definition continues :: "32 word \<Rightarrow> bool" where
  "continues b \<longleftrightarrow> b AND 0xc0 = 0x80"

function utf8Decode :: "32 word list \<Rightarrow> utf16 option" where
  "utf8Decode [] = Some []"
| "utf8Decode (b0 # bs) =
     (let b1 = byte_at bs 0; b2 = byte_at bs 1; b3 = byte_at bs 2 in
      if b0 <s 0x80 then map_option ((#) (ucast b0)) (utf8Decode bs)
      else if 0xc0 \<le>s b0 \<and> b0 <s 0xe0 then
        (if \<not> continues b1 then None
         else map_option ((#) (ucast (push_bit 6 (b0 AND 0x1f) OR (b1 AND 0x3f)))) (utf8Decode (drop 1 bs)))
      else if 0xe0 \<le>s b0 \<and> b0 <s 0xf0 then
        (if \<not> continues b1 \<or> \<not> continues b2 then None
         else map_option ((#) (ucast (push_bit 12 (b0 AND 0x0f) OR push_bit 6 (b1 AND 0x3f) OR (b2 AND 0x3f)))) (utf8Decode (drop 2 bs)))
      else if 0xf0 \<le>s b0 then
        (if \<not> continues b1 \<or> \<not> continues b2 \<or> \<not> continues b3 then None
         else let cp = push_bit 18 (b0 AND 0x07) OR push_bit 12 (b1 AND 0x3f) OR push_bit 6 (b2 AND 0x3f) OR (b3 AND 0x3f);
                  off = cp - 0x10000
              in map_option (\<lambda>us. ucast (0xd800 + signed_drop_bit 10 off) # ucast (0xdc00 + (off AND 0x3ff)) # us) (utf8Decode (drop 3 bs)))
      else None)"
  by pat_completeness auto
termination by (relation "measure length") auto

definition b64_char :: "32 word \<Rightarrow> utf16" where
  "b64_char w = (if unat w < length B64URL_ALPHABET then [B64URL_ALPHABET ! unat w] else [])"

fun b64_text :: "32 word list \<Rightarrow> utf16" where
  "b64_text [] = []"
| "b64_text [b0] = b64_char (drop_bit 2 b0) @ b64_char (push_bit 4 (b0 AND 0x03))"
| "b64_text [b0, b1] = b64_char (drop_bit 2 b0) @ b64_char (push_bit 4 (b0 AND 0x03) OR drop_bit 4 b1) @ b64_char (push_bit 2 (b1 AND 0x0f))"
| "b64_text (b0 # b1 # b2 # bs) =
     b64_char (drop_bit 2 b0) @ b64_char (push_bit 4 (b0 AND 0x03) OR drop_bit 4 b1)
     @ b64_char (push_bit 2 (b1 AND 0x0f) OR drop_bit 6 b2) @ b64_char (b2 AND 0x3f) @ b64_text bs"

definition toBase64Url :: "utf16 \<Rightarrow> utf16" where
  "toBase64Url s = b64_text (utf8Encode s)"

definition b64_val :: "16 word \<Rightarrow> int" where
  "b64_val c = (if unat c < 128 then B64URL_LOOKUP ! unat c else -1)"

fun b64_bytes :: "32 word \<Rightarrow> nat \<Rightarrow> utf16 \<Rightarrow> 32 word list option" where
  "b64_bytes buffer bits [] = Some []"
| "b64_bytes buffer bits (c # cs) =
     (if b64_val c < 0 then None
      else let buffer = push_bit 6 buffer OR word_of_int (b64_val c); bits = bits + 6
        in if 8 \<le> bits then map_option ((#) (signed_drop_bit (bits - 8) buffer AND 0xff)) (b64_bytes buffer (bits - 8) cs)
           else b64_bytes buffer bits cs)"

definition fromBase64Url :: "utf16 \<Rightarrow> utf16 option" where
  "fromBase64Url s = Option.bind (b64_bytes 0 0 s) utf8Decode"

section \<open>JSON\<close>

text \<open>The values of the language that JSON can say; \<open>TNum None\<close> is a number too large for a double.\<close>

datatype jtree =
    TNull
  | TBool bool
  | TNum "rat option"
  | TStr utf16
  | TArr "jtree list"
  | TObj "(utf16 \<times> jtree) list"

record doubles =
  db_text :: "rat \<Rightarrow> utf16"
  db_value :: "utf16 \<Rightarrow> rat option"

subsection \<open>Writing\<close>

definition is_high :: "16 word \<Rightarrow> bool" where
  "is_high u \<longleftrightarrow> 0xd800 \<le> u \<and> u \<le> 0xdbff"

definition is_low :: "16 word \<Rightarrow> bool" where
  "is_low u \<longleftrightarrow> 0xdc00 \<le> u \<and> u \<le> 0xdfff"

definition short_escapes :: "(16 word \<times> 16 word) list" where
  "short_escapes = [(8, 0x62), (9, 0x74), (10, 0x6e), (12, 0x66), (13, 0x72), (0x22, 0x22), (0x5c, 0x5c)]"

definition unit_hex :: "16 word \<Rightarrow> 16 word" where
  "unit_hex x = (if x < 10 then 0x30 + x else 0x57 + x)"

definition hex4 :: "16 word \<Rightarrow> utf16" where
  "hex4 u = [unit_hex (drop_bit 12 u), unit_hex (drop_bit 8 u AND 0xf), unit_hex (drop_bit 4 u AND 0xf), unit_hex (u AND 0xf)]"

fun json_chars :: "utf16 \<Rightarrow> utf16" where
  "json_chars [] = []"
| "json_chars (u # us) =
     (case map_of short_escapes u of
        Some e \<Rightarrow> 0x5c # e # json_chars us
      | None \<Rightarrow>
          if u < 0x20 \<or> is_low u \<or> is_high u \<and> (us = [] \<or> \<not> is_low (hd us)) then 0x5c # 0x75 # hex4 u @ json_chars us
          else if is_high u then u # hd us # json_chars (tl us)
          else u # json_chars us)"

definition json_quote :: "utf16 \<Rightarrow> utf16" where
  "json_quote us = 0x22 # json_chars us @ [0x22]"

fun commas :: "utf16 list \<Rightarrow> utf16" where
  "commas [] = []"
| "commas [x] = x"
| "commas (x # y # xs) = x @ 0x2c # commas (y # xs)"

fun tree_text :: "doubles \<Rightarrow> jtree \<Rightarrow> utf16" where
  "tree_text d TNull = units ''null''"
| "tree_text d (TBool b) = (if b then units ''true'' else units ''false'')"
| "tree_text d (TNum x) = (case x of Some q \<Rightarrow> db_text d q | None \<Rightarrow> units ''null'')"
| "tree_text d (TStr s) = json_quote s"
| "tree_text d (TArr ts) = 0x5b # commas (map (tree_text d) ts) @ [0x5d]"
| "tree_text d (TObj fs) = 0x7b # commas (map (\<lambda>f. json_quote (fst f) @ 0x3a # tree_text d (snd f)) fs) @ [0x7d]"

subsection \<open>Reading\<close>

definition json_ws :: "utf16 \<Rightarrow> utf16" where
  "json_ws ts = dropWhile (\<lambda>c. c = 0x20 \<or> c = 9 \<or> c = 10 \<or> c = 13) ts"

definition unescapes :: "(16 word \<times> 16 word) list" where
  "unescapes = [(0x62, 8), (0x74, 9), (0x6e, 10), (0x66, 12), (0x72, 13), (0x22, 0x22), (0x5c, 0x5c), (0x2f, 0x2f)]"

definition hex_val :: "16 word \<Rightarrow> 16 word option" where
  "hex_val c =
     (if 0x30 \<le> c \<and> c \<le> 0x39 then Some (c - 0x30)
      else if 0x61 \<le> c \<and> c \<le> 0x66 then Some (c - 0x57)
      else if 0x41 \<le> c \<and> c \<le> 0x46 then Some (c - 0x37) else None)"

fun hex4_val :: "utf16 \<Rightarrow> 16 word option" where
  "hex4_val (a # b # c # e # ts) =
     (case (hex_val a, hex_val b, hex_val c, hex_val e) of
        (Some w, Some x, Some y, Some z) \<Rightarrow> Some (push_bit 12 w OR push_bit 8 x OR push_bit 4 y OR z)
      | _ \<Rightarrow> None)"
| "hex4_val _ = None"

definition cons_char :: "16 word \<Rightarrow> (utf16 \<times> utf16) option \<Rightarrow> (utf16 \<times> utf16) option" where
  "cons_char u r = map_option (\<lambda>(s, ts). (u # s, ts)) r"

text \<open>The rest of a string, after its opening quote.\<close>

function json_str :: "utf16 \<Rightarrow> (utf16 \<times> utf16) option" where
  "json_str [] = None"
| "json_str (c # cs) =
     (if c = 0x22 then Some ([], cs)
      else if c < 0x20 then None
      else if c = 0x5c then
        (case cs of
           [] \<Rightarrow> None
         | e # es \<Rightarrow>
             (case map_of unescapes e of
                Some u \<Rightarrow> cons_char u (json_str es)
              | None \<Rightarrow>
                  if e = 0x75 then (case hex4_val es of Some u \<Rightarrow> cons_char u (json_str (drop 4 es)) | None \<Rightarrow> None) else None))
      else cons_char c (json_str cs))"
  by pat_completeness auto
termination by (relation "measure length") auto

definition is_digit :: "16 word \<Rightarrow> bool" where
  "is_digit c \<longleftrightarrow> 0x30 \<le> c \<and> c \<le> 0x39"

definition digits :: "utf16 \<Rightarrow> utf16 \<times> utf16" where
  "digits ts = (takeWhile is_digit ts, dropWhile is_digit ts)"

text \<open>The parts of a number: each gives what it reads and the rest.\<close>

definition num_int :: "utf16 \<Rightarrow> (utf16 \<times> utf16) option" where
  "num_int ts =
     (case ts of
        [] \<Rightarrow> None
      | c # cs \<Rightarrow> if c = 0x30 then Some ([c], cs) else if is_digit c then Some (digits ts) else None)"

definition num_frac :: "utf16 \<Rightarrow> (utf16 \<times> utf16) option" where
  "num_frac ts =
     (case ts of
        [] \<Rightarrow> Some ([], [])
      | c # cs \<Rightarrow>
          if c = 0x2e then (case digits cs of (ds, r) \<Rightarrow> if ds = [] then None else Some (c # ds, r))
          else Some ([], ts))"

definition num_exp :: "utf16 \<Rightarrow> (utf16 \<times> utf16) option" where
  "num_exp ts =
     (case ts of
        [] \<Rightarrow> Some ([], [])
      | c # cs \<Rightarrow>
          if c = 0x65 \<or> c = 0x45 then
            (let sign = (if cs \<noteq> [] \<and> (hd cs = 0x2b \<or> hd cs = 0x2d) then [hd cs] else [])
             in case digits (drop (length sign) cs) of (ds, r) \<Rightarrow> if ds = [] then None else Some (c # sign @ ds, r))
          else Some ([], ts))"

definition json_number :: "utf16 \<Rightarrow> (utf16 \<times> utf16) option" where
  "json_number ts =
     (let sign = (if ts \<noteq> [] \<and> hd ts = 0x2d then [0x2d] else [])
      in case num_int (drop (length sign) ts) of
           None \<Rightarrow> None
         | Some (i, r) \<Rightarrow>
             (case num_frac r of
                None \<Rightarrow> None
              | Some (f, r) \<Rightarrow> (case num_exp r of None \<Rightarrow> None | Some (e, r) \<Rightarrow> Some (sign @ i @ f @ e, r))))"

definition json_word :: "doubles \<Rightarrow> utf16 \<Rightarrow> (jtree \<times> utf16) option" where
  "json_word d ts =
     (if take 4 ts = units ''null'' then Some (TNull, drop 4 ts)
      else if take 4 ts = units ''true'' then Some (TBool True, drop 4 ts)
      else if take 5 ts = units ''false'' then Some (TBool False, drop 5 ts)
      else map_option (\<lambda>(lex, r). (TNum (db_value d lex), r)) (json_number ts))"

text \<open>Of two members with the same name the later counts.\<close>

definition as_object :: "(utf16 \<times> jtree) list \<Rightarrow> jtree" where
  "as_object ms = TObj (fold (\<lambda>(k, v) fs. AList.update k v fs) ms [])"

fun json_value :: "nat \<Rightarrow> doubles \<Rightarrow> utf16 \<Rightarrow> (jtree \<times> utf16) option"
  and json_elems :: "nat \<Rightarrow> doubles \<Rightarrow> utf16 \<Rightarrow> (jtree list \<times> utf16) option"
  and json_members :: "nat \<Rightarrow> doubles \<Rightarrow> utf16 \<Rightarrow> ((utf16 \<times> jtree) list \<times> utf16) option" where
  "json_value 0 d ts = None"
| "json_value (Suc n) d ts =
     (case json_ws ts of
        [] \<Rightarrow> None
      | c # cs \<Rightarrow>
          if c = 0x22 then map_option (\<lambda>(s, r). (TStr s, r)) (json_str cs)
          else if c = 0x5b then
            (case json_ws cs of
               [] \<Rightarrow> None
             | x # r \<Rightarrow> if x = 0x5d then Some (TArr [], r) else map_option (\<lambda>(vs, r). (TArr vs, r)) (json_elems n d cs))
          else if c = 0x7b then
            (case json_ws cs of
               [] \<Rightarrow> None
             | x # r \<Rightarrow> if x = 0x7d then Some (TObj [], r) else map_option (\<lambda>(ms, r). (as_object ms, r)) (json_members n d cs))
          else json_word d (c # cs))"
| "json_elems 0 d ts = None"
| "json_elems (Suc n) d ts =
     (case json_value n d ts of
        None \<Rightarrow> None
      | Some (v, r) \<Rightarrow>
          (case json_ws r of
             [] \<Rightarrow> None
           | c # cs \<Rightarrow>
               if c = 0x2c then map_option (\<lambda>(vs, r). (v # vs, r)) (json_elems n d cs)
               else if c = 0x5d then Some ([v], cs) else None))"
| "json_members 0 d ts = None"
| "json_members (Suc n) d ts =
     (case json_ws ts of
        [] \<Rightarrow> None
      | q # qs \<Rightarrow>
          if q \<noteq> 0x22 then None
          else case json_str qs of
              None \<Rightarrow> None
            | Some (k, r) \<Rightarrow>
                (case json_ws r of
                   [] \<Rightarrow> None
                 | s # ss \<Rightarrow>
                     if s \<noteq> 0x3a then None
                     else case json_value n d ss of
                         None \<Rightarrow> None
                       | Some (v, r) \<Rightarrow>
                           (case json_ws r of
                              [] \<Rightarrow> None
                            | c # cs \<Rightarrow>
                                if c = 0x2c then map_option (\<lambda>(ms, r). ((k, v) # ms, r)) (json_members n d cs)
                                else if c = 0x7d then Some ([(k, v)], cs) else None)))"

text \<open>A value needs at most two levels of calls for each unit it reads.\<close>

definition json_parse :: "doubles \<Rightarrow> utf16 \<Rightarrow> jtree option" where
  "json_parse d ts = (case json_value (2 * length ts + 2) d ts of Some (v, r) \<Rightarrow> if json_ws r = [] then Some v else None | None \<Rightarrow> None)"

section \<open>Snapshots\<close>

definition MAX_ENCODED_LENGTH :: nat where
  "MAX_ENCODED_LENGTH = 4096"

definition MAX_PLAN_PICKS :: nat where
  "MAX_PLAN_PICKS = 50"

definition PLAN_SNAPSHOT_VERSION :: rat where
  "PLAN_SNAPSHOT_VERSION = 1"

datatype pick_priority = PickMust | PickWant | PickMaybe

definition toPickPriority :: "string \<Rightarrow> pick_priority" where
  "toPickPriority p = (if p = ''must'' then PickMust else if p = ''want-to-see'' \<or> p = ''want'' then PickWant else PickMaybe)"

definition fromPickPriority :: "pick_priority \<Rightarrow> string" where
  "fromPickPriority p = (case p of PickMust \<Rightarrow> ''must'' | PickWant \<Rightarrow> ''want-to-see'' | PickMaybe \<Rightarrow> ''maybe'')"

definition PICK_PRIORITIES :: "(utf16 \<times> pick_priority) list" where
  "PICK_PRIORITIES = [(units ''must'', PickMust), (units ''want'', PickWant), (units ''maybe'', PickMaybe)]"

definition wire_priority :: "pick_priority \<Rightarrow> utf16" where
  "wire_priority p = (case p of PickMust \<Rightarrow> units ''must'' | PickWant \<Rightarrow> units ''want'' | PickMaybe \<Rightarrow> units ''maybe'')"

record shared_point =
  sn_label :: utf16
  sn_lat :: rat
  sn_lng :: rat

record plan_snapshot =
  sn_festivalId :: utf16
  sn_festivalName :: utf16
  sn_picks :: "(utf16 \<times> pick_priority) list"
  sn_meetingPoint :: "shared_point option"

datatype decode_result = PlanOk plan_snapshot | PlanError string

definition pick_tree :: "utf16 \<times> pick_priority \<Rightarrow> jtree" where
  "pick_tree p = TObj [(units ''setId'', TStr (fst p)), (units ''priority'', TStr (wire_priority (snd p)))]"

definition point_tree :: "shared_point \<Rightarrow> jtree" where
  "point_tree p = TObj [(units ''label'', TStr (sn_label p)), (units ''lat'', TNum (Some (sn_lat p))), (units ''lng'', TNum (Some (sn_lng p)))]"

definition envelope_tree :: "plan_snapshot \<Rightarrow> jtree" where
  "envelope_tree s =
     TObj ([(units ''v'', TNum (Some PLAN_SNAPSHOT_VERSION)), (units ''festivalId'', TStr (sn_festivalId s)),
            (units ''festivalName'', TStr (sn_festivalName s)), (units ''picks'', TArr (map pick_tree (take MAX_PLAN_PICKS (sn_picks s))))]
           @ (case sn_meetingPoint s of Some p \<Rightarrow> [(units ''meetingPoint'', point_tree p)] | None \<Rightarrow> []))"

definition encodePlanSnapshot :: "doubles \<Rightarrow> plan_snapshot \<Rightarrow> utf16" where
  "encodePlanSnapshot d s = toBase64Url (tree_text d (envelope_tree s))"

subsection \<open>The schema\<close>

definition only_keys :: "string list \<Rightarrow> (utf16 \<times> jtree) list \<Rightarrow> bool" where
  "only_keys ks fs \<longleftrightarrow> list_all (\<lambda>f. fst f \<in> set (map units ks)) fs"

definition str_field :: "nat \<Rightarrow> (utf16 \<times> jtree) list \<Rightarrow> string \<Rightarrow> utf16 option" where
  "str_field hi fs k = (case map_of fs (units k) of Some (TStr s) \<Rightarrow> if 1 \<le> length s \<and> length s \<le> hi then Some s else None | _ \<Rightarrow> None)"

definition num_field :: "rat \<Rightarrow> (utf16 \<times> jtree) list \<Rightarrow> string \<Rightarrow> rat option" where
  "num_field hi fs k = (case map_of fs (units k) of Some (TNum (Some q)) \<Rightarrow> if - hi \<le> q \<and> q \<le> hi then Some q else None | _ \<Rightarrow> None)"

definition pickSchema :: "jtree \<Rightarrow> (utf16 \<times> pick_priority) option" where
  "pickSchema t =
     (case t of
        TObj fs \<Rightarrow>
          (case (str_field 128 fs ''setId'', map_of fs (units ''priority'')) of
             (Some i, Some (TStr p)) \<Rightarrow> if only_keys [''setId'', ''priority''] fs then map_option (Pair i) (map_of PICK_PRIORITIES p) else None
           | _ \<Rightarrow> None)
      | _ \<Rightarrow> None)"

definition meetingPointSchema :: "jtree \<Rightarrow> shared_point option" where
  "meetingPointSchema t =
     (case t of
        TObj fs \<Rightarrow>
          (case (str_field 120 fs ''label'', num_field 90 fs ''lat'', num_field 180 fs ''lng'') of
             (Some l, Some x, Some y) \<Rightarrow> if only_keys [''label'', ''lat'', ''lng''] fs then Some \<lparr>sn_label = l, sn_lat = x, sn_lng = y\<rparr> else None
           | _ \<Rightarrow> None)
      | _ \<Rightarrow> None)"

fun all_some :: "'a option list \<Rightarrow> 'a list option" where
  "all_some [] = Some []"
| "all_some (x # xs) = (case x of None \<Rightarrow> None | Some y \<Rightarrow> map_option ((#) y) (all_some xs))"

definition picks_field :: "(utf16 \<times> jtree) list \<Rightarrow> (utf16 \<times> pick_priority) list option" where
  "picks_field fs =
     (case map_of fs (units ''picks'') of
        Some (TArr ts) \<Rightarrow> if length ts \<le> MAX_PLAN_PICKS then all_some (map pickSchema ts) else None
      | _ \<Rightarrow> None)"

text \<open>An optional field: the outer \<open>None\<close> is a field that is there and wrong.\<close>

definition point_field :: "(utf16 \<times> jtree) list \<Rightarrow> shared_point option option" where
  "point_field fs = (case map_of fs (units ''meetingPoint'') of None \<Rightarrow> Some None | Some t \<Rightarrow> map_option Some (meetingPointSchema t))"

definition envelopeSchema :: "jtree \<Rightarrow> plan_snapshot option" where
  "envelopeSchema t =
     (case t of
        TObj fs \<Rightarrow>
          if map_of fs (units ''v'') \<noteq> Some (TNum (Some PLAN_SNAPSHOT_VERSION))
             \<or> \<not> only_keys [''v'', ''festivalId'', ''festivalName'', ''picks'', ''meetingPoint''] fs then None
          else (case (str_field 128 fs ''festivalId'', str_field 200 fs ''festivalName'', picks_field fs, point_field fs) of
                  (Some i, Some n, Some ps, Some mp) \<Rightarrow> Some \<lparr>sn_festivalId = i, sn_festivalName = n, sn_picks = ps, sn_meetingPoint = mp\<rparr>
                | _ \<Rightarrow> None)
      | _ \<Rightarrow> None)"

definition other_version :: "jtree \<Rightarrow> bool" where
  "other_version t =
     (case t of TObj fs \<Rightarrow> (case map_of fs (units ''v'') of Some v \<Rightarrow> v \<noteq> TNum (Some PLAN_SNAPSHOT_VERSION) | None \<Rightarrow> False) | _ \<Rightarrow> False)"

text \<open>\<open>None\<close> is what is not a string.\<close>

definition decodePlanSnapshot :: "doubles \<Rightarrow> utf16 option \<Rightarrow> decode_result" where
  "decodePlanSnapshot d input =
     (case input of
        None \<Rightarrow> PlanError ''empty or non-string input''
      | Some ts \<Rightarrow>
          if ts = [] then PlanError ''empty or non-string input''
          else if MAX_ENCODED_LENGTH < length ts then PlanError ''input exceeds maximum size''
          else (case fromBase64Url ts of
                  None \<Rightarrow> PlanError ''not valid base64url''
                | Some json \<Rightarrow>
                    (case json_parse d json of
                       None \<Rightarrow> PlanError ''not valid JSON''
                     | Some parsed \<Rightarrow>
                         if other_version parsed then PlanError ''unsupported snapshot version''
                         else (case envelopeSchema parsed of
                                 None \<Rightarrow> PlanError ''snapshot failed validation''
                               | Some s \<Rightarrow> PlanOk s))))"

end
