(* ===== verification/Plan_Codec.thy ===== *)
theory Plan_Codec
  imports Plan_Snapshot
begin

unbundle bit_operations_syntax

text \<open>
  What \<open>toBase64Url\<close> writes, \<open>fromBase64Url\<close> reads: the bits of three bytes in four letters, though the
  buffer of the reader is never cleared and runs over, and the forms of UTF-8, with pairs of surrogates
  as one code point.
\<close>

section \<open>Letters and bytes\<close>

subsection \<open>Base64url\<close>

lemma unat_unit: "unat (word_of_nat (of_char c) :: 16 word) = of_char c"
proof -
  have "(of_char c :: nat) < 65536" by (rule less_trans [of _ 256]) simp_all
  then have "(of_char c :: nat) mod 65536 = of_char c" by (rule mod_less)
  then show ?thesis by (simp add: unat_of_nat)
qed

lemma alphabet_length: "length B64URL_ALPHABET = 64"
  by (simp add: B64URL_ALPHABET_def units_def)

lemma alphabet_distinct: "distinct (map unat B64URL_ALPHABET)" "list_all (\<lambda>u. unat u < 128) B64URL_ALPHABET"
  unfolding B64URL_ALPHABET_def units_def map_map comp_def unat_unit by (simp_all add: unat_unit)

lemma fold_writes:
  fixes f :: "nat \<Rightarrow> nat"
  assumes "inj_on f {..<n}" and "\<forall>i < n. f i < length t" and "k < n"
  shows "fold (\<lambda>i t. t[f i := g i]) [0..<n] t ! f k = g k"
  using assms
proof (induction n)
  case (Suc n)
  have len: "length (fold (\<lambda>i t. t[f i := g i]) is t) = length t" for "is" by (induction "is" arbitrary: t) auto
  show ?case
  proof (cases "k = n")
    case False
    then have "f k \<noteq> f n" using Suc.prems by (auto simp: inj_on_def)
    moreover have "fold (\<lambda>i t. t[f i := g i]) [0..<n] t ! f k = g k"
      using Suc.prems False by (intro Suc.IH) (auto intro: inj_on_subset)
    ultimately show ?thesis by simp
  qed (use Suc.prems len in simp)
qed simp

lemma alphabet_back: "i < 64 \<Longrightarrow> b64_val (B64URL_ALPHABET ! i) = int i"
proof -
  assume i: "i < 64"
  have small: "\<forall>j < 64. unat (B64URL_ALPHABET ! j) < 128" using alphabet_distinct(2) by (simp add: list_all_length alphabet_length)
  have "inj_on (\<lambda>j. unat (B64URL_ALPHABET ! j)) {..<64}"
    using alphabet_distinct(1) by (auto simp: distinct_conv_nth inj_on_def alphabet_length)
  from fold_writes [OF this _ i, of "replicate 128 (-1)" int] small i show ?thesis
    by (simp add: b64_val_def B64URL_LOOKUP_def alphabet_length)
qed

lemma char_of_val:
  assumes "w < 64"
  obtains c where "b64_char w = [c]" and "b64_val c = uint w"
proof -
  have "unat w < 64" using assms by (simp add: word_less_nat_alt)
  then show ?thesis using alphabet_back [of "unat w"] that [of "B64URL_ALPHABET ! unat w"] by (simp add: b64_char_def alphabet_length)
qed

lemma small_bits: "(w :: 32 word) < 256 \<Longrightarrow> 8 \<le> n \<Longrightarrow> \<not> bit w n"
proof -
  assume "w < 256" and n: "8 \<le> n"
  then have "unat w < 2 ^ 8" by (simp add: word_less_nat_alt)
  then have "take_bit 8 (unat w) = unat w" by (rule take_bit_nat_eq_self)
  then have "take_bit 8 w = w" by (simp add: word_unat_eq_iff unsigned_take_bit_eq)
  then show ?thesis using n by (metis bit_take_bit_iff leD)
qed

lemmas byte_masks = mask_eq_exp_minus_1 [of 8, where 'a = "32 word", simplified, symmetric] mask_eq_exp_minus_1 [of 6, where 'a = "32 word", simplified, symmetric]
   mask_eq_exp_minus_1 [of 4, where 'a = "32 word", simplified, symmetric] mask_eq_exp_minus_1 [of 2, where 'a = "32 word", simplified, symmetric]

lemma below_8: "n < 8 \<Longrightarrow> n = 0 \<or> n = Suc 0 \<or> n = Suc (Suc 0) \<or> n = Suc (Suc (Suc 0)) \<or> n = Suc (Suc (Suc (Suc 0))) \<or> n = Suc (Suc (Suc (Suc (Suc 0))))
    \<or> n = Suc (Suc (Suc (Suc (Suc (Suc 0))))) \<or> n = Suc (Suc (Suc (Suc (Suc (Suc (Suc 0))))))" for n :: nat by auto

lemma low_byte_eqI:
  assumes "\<And>n. n < 8 \<Longrightarrow> bit v n = bit b n" and "b < 256"
  shows "v AND 0xff = (b :: 32 word)"
proof (rule bit_word_eqI)
  fix n show "bit (v AND 0xff) n = bit b n"
    using assms(1) small_bits [OF assms(2)] by (cases "n < 8") (auto simp: byte_masks bit_simps)
qed

lemma first_byte:
  fixes b0 b1 buf :: "32 word"
  assumes "b0 < 256" "b1 < 256"
  shows "signed_drop_bit 4 (push_bit 6 (push_bit 6 buf OR drop_bit 2 b0) OR (push_bit 4 (b0 AND 0x03) OR drop_bit 4 b1)) AND 0xff = b0"
proof (rule low_byte_eqI [OF _ assms(1)])
  fix n :: nat assume "n < 8"
  then show "bit (signed_drop_bit 4 (push_bit 6 (push_bit 6 buf OR drop_bit 2 b0) OR (push_bit 4 (b0 AND 0x03) OR drop_bit 4 b1))) n = bit b0 n"
    unfolding byte_masks using small_bits [OF assms(2), of "n + 8"]
    by (simp add: bit_simps) (drule below_8, elim disjE; simp add: eval_nat_numeral)
qed

lemma second_byte:
  fixes b1 b2 buf :: "32 word"
  assumes "b1 < 256" "b2 < 256"
  shows "signed_drop_bit 2 (push_bit 6 (push_bit 6 buf OR (push_bit 4 x OR drop_bit 4 b1)) OR (push_bit 2 (b1 AND 0x0f) OR drop_bit 6 b2)) AND 0xff = b1"
proof (rule low_byte_eqI [OF _ assms(1)])
  fix n :: nat assume "n < 8"
  then show "bit (signed_drop_bit 2 (push_bit 6 (push_bit 6 buf OR (push_bit 4 x OR drop_bit 4 b1)) OR (push_bit 2 (b1 AND 0x0f) OR drop_bit 6 b2))) n = bit b1 n"
    unfolding byte_masks using small_bits [OF assms(2), of "n + 8"]
    by (simp add: bit_simps) (drule below_8, elim disjE; simp add: eval_nat_numeral)
qed

lemma third_byte:
  fixes b2 buf :: "32 word"
  assumes "b2 < 256"
  shows "signed_drop_bit 0 (push_bit 6 (push_bit 6 buf OR (push_bit 2 x OR drop_bit 6 b2)) OR (b2 AND 0x3f)) AND 0xff = b2"
proof (rule low_byte_eqI [OF _ assms(1)])
  fix n :: nat assume "n < 8"
  then show "bit (signed_drop_bit 0 (push_bit 6 (push_bit 6 buf OR (push_bit 2 x OR drop_bit 6 b2)) OR (b2 AND 0x3f))) n = bit b2 n"
    unfolding byte_masks
    by (simp add: bit_simps) (drule below_8, elim disjE; simp add: eval_nat_numeral)
qed

lemma lt_64I: "(\<And>n. 6 \<le> n \<Longrightarrow> n < 32 \<Longrightarrow> \<not> bit w n) \<Longrightarrow> (w :: 32 word) < 64"
proof -
  assume high: "\<And>n. 6 \<le> n \<Longrightarrow> n < 32 \<Longrightarrow> \<not> bit w n"
  have "bit (take_bit 6 w) n = bit w n" if "n < 32" for n using high [of n] that by (cases "n < 6") (auto simp: bit_take_bit_iff)
  then have "take_bit 6 w = w" by (intro bit_word_eqI) simp
  then have "unat w = take_bit 6 (unat w)" by (metis unsigned_take_bit_eq)
  then have "unat w < 64" using take_bit_nat_less_exp [of 6 "unat w"] by simp
  then show ?thesis by (simp add: word_less_nat_alt)
qed

lemma sextets:
  fixes x y :: "32 word"
  shows "x < 256 \<Longrightarrow> drop_bit 2 x < 64" "push_bit 4 (x AND 0x03) < 64" "y < 256 \<Longrightarrow> push_bit 4 (x AND 0x03) OR drop_bit 4 y < 64"
    "push_bit 2 (x AND 0x0f) < 64" "y < 256 \<Longrightarrow> push_bit 2 (x AND 0x0f) OR drop_bit 6 y < 64" "x AND 0x3f < 64"
proof -
  show "x < 256 \<Longrightarrow> drop_bit 2 x < 64" by (rule lt_64I) (simp add: bit_simps small_bits)
  show "push_bit 4 (x AND 0x03) < 64" by (rule lt_64I) (auto simp: byte_masks bit_simps simp del: push_bit_and)
  show "y < 256 \<Longrightarrow> push_bit 4 (x AND 0x03) OR drop_bit 4 y < 64" by (rule lt_64I) (auto simp: byte_masks bit_simps small_bits simp del: push_bit_and)
  show "push_bit 2 (x AND 0x0f) < 64" by (rule lt_64I) (auto simp: byte_masks bit_simps simp del: push_bit_and)
  show "y < 256 \<Longrightarrow> push_bit 2 (x AND 0x0f) OR drop_bit 6 y < 64" by (rule lt_64I) (auto simp: byte_masks bit_simps small_bits simp del: push_bit_and)
  show "x AND 0x3f < 64" by (rule lt_64I) (auto simp: byte_masks bit_simps)
qed

lemma first_byte_alone:
  fixes b0 buf :: "32 word"
  assumes "b0 < 256"
  shows "signed_drop_bit 4 (push_bit 6 (push_bit 6 buf OR drop_bit 2 b0) OR push_bit 4 (b0 AND 0x03)) AND 0xff = b0"
  using first_byte [OF assms, of 0] by simp

lemma second_byte_alone:
  fixes b1 buf :: "32 word"
  assumes "b1 < 256"
  shows "signed_drop_bit 2 (push_bit 6 (push_bit 6 buf OR (push_bit 4 x OR drop_bit 4 b1)) OR push_bit 2 (b1 AND 0x0f)) AND 0xff = b1"
  using second_byte [OF assms, of 0] by simp

lemma read_char: "w < 64 \<Longrightarrow> b64_bytes buffer bits (b64_char w @ cs) =
   (let buffer = push_bit 6 buffer OR w
    in if 2 \<le> bits then map_option ((#) (signed_drop_bit (bits - 2) buffer AND 0xff)) (b64_bytes buffer (bits - 2) cs)
       else b64_bytes buffer (bits + 6) cs)"
  by (erule char_of_val) (simp add: Let_def)

lemmas read_last_char = read_char [where cs = "[]", simplified]

lemma bytes_of_text: "list_all (\<lambda>b. b < 256) bs \<Longrightarrow> b64_bytes buffer 0 (b64_text bs) = Some bs"
  by (induction bs arbitrary: buffer rule: b64_text.induct)
    (simp_all add: read_char read_last_char sextets first_byte first_byte_alone second_byte second_byte_alone third_byte Let_def del: push_bit_and push_bit_or signed_drop_bit_0)

subsection \<open>UTF-8\<close>

fun paired :: "utf16 \<Rightarrow> bool" where
  "paired [] \<longleftrightarrow> True"
| "paired (u # us) \<longleftrightarrow>
     (if 0xd800 \<le> u \<and> u \<le> 0xdbff \<and> us \<noteq> [] then 0xdc00 \<le> hd us \<and> hd us \<le> 0xdfff \<and> paired (tl us) else paired us)"

lemma small_sless: "(x :: 32 word) < 0x10000 \<Longrightarrow> y < 0x10000 \<Longrightarrow> x <s y \<longleftrightarrow> x < y"
  and small_sle: "(x :: 32 word) < 0x10000 \<Longrightarrow> y < 0x10000 \<Longrightarrow> x \<le>s y \<longleftrightarrow> x \<le> y"
proof -
  have s: "sint w = uint w" if "w < 0x10000" for w :: "32 word"
  proof -
    have "signed_take_bit 31 (uint w) = uint w" by (rule signed_take_bit_int_eq_self) (use that in \<open>auto simp: word_less_alt intro: order_trans [OF _ uint_ge_0]\<close>)
    then show ?thesis by (simp add: sint_uint)
  qed
  show "(x :: 32 word) < 0x10000 \<Longrightarrow> y < 0x10000 \<Longrightarrow> x <s y \<longleftrightarrow> x < y"
    "(x :: 32 word) < 0x10000 \<Longrightarrow> y < 0x10000 \<Longrightarrow> x \<le>s y \<longleftrightarrow> x \<le> y"
    by (simp_all add: word_sless_alt word_sle_eq s word_less_alt word_le_def)
qed

lemma high_bits: "unat (w :: 32 word) < 2 ^ k \<Longrightarrow> k \<le> n \<Longrightarrow> \<not> bit w n"
proof -
  assume "unat w < 2 ^ k" and n: "k \<le> n"
  then have "take_bit k w = w" by (simp add: word_unat_eq_iff unsigned_take_bit_eq take_bit_nat_eq_self)
  then show ?thesis using n by (metis bit_take_bit_iff leD)
qed

lemma low_bits: "(\<And>n. k \<le> n \<Longrightarrow> n < 32 \<Longrightarrow> \<not> bit w n) \<Longrightarrow> unat (w :: 32 word) < 2 ^ k"
proof -
  assume high: "\<And>n. k \<le> n \<Longrightarrow> n < 32 \<Longrightarrow> \<not> bit w n"
  have "bit (take_bit k w) n = bit w n" if "n < 32" for n using high [of n] that by (cases "n < k") (auto simp: bit_take_bit_iff)
  then have "take_bit k w = w" by (intro bit_word_eqI) simp
  then have "unat w = take_bit k (unat w)" by (metis unsigned_take_bit_eq)
  then show ?thesis using take_bit_nat_less_exp [of k "unat w"] by simp
qed

text \<open>A byte of a sequence: a mark in its high bits over a field in its low ones.\<close>

lemma marked:
  fixes c x :: "32 word"
  assumes "unat x < 2 ^ k" and "take_bit k c = 0"
  shows "unat (c OR x) = unat c + unat x" and "(c OR x) AND mask k = x"
proof -
  have c: "\<not> bit c n" if "n < k" for n
    using assms(2) that by (metis bit_0_eq bit_take_bit_iff bot_apply bot_bool_def)
  have x: "\<not> bit x n" if "k \<le> n" for n using high_bits [OF assms(1) that] .
  have "\<not> bit c n \<or> \<not> bit x n" for n using c x by (cases "n < k") auto
  then have "bit (unat c) n \<longrightarrow> \<not> bit (unat x) n" for n by (auto simp: bit_unsigned_iff)
  then have "unat c + unat x = unat c OR unat x" by (intro disjunctive_add_eq_or) (auto intro!: bit_eqI simp: bit_and_iff)
  then show "unat (c OR x) = unat c + unat x" by (simp add: unsigned_or_eq)
  have "bit ((c OR x) AND mask k) n = bit x n" if "n < 32" for n using c [of n] x [of n] that by (cases "n < k") (auto simp: bit_simps)
  then show "(c OR x) AND mask k = x" by (intro bit_word_eqI) simp
qed

lemma masks: "mask 3 = (0x07 :: 32 word)" "mask 4 = (0x0f :: 32 word)" "mask 5 = (0x1f :: 32 word)" "mask 6 = (0x3f :: 32 word)" "mask 10 = (0x3ff :: 32 word)"
  by (simp_all add: mask_eq_exp_minus_1)

lemma marks: "take_bit 6 (0x80 :: 32 word) = 0" "take_bit 5 (0xc0 :: 32 word) = 0" "take_bit 4 (0xe0 :: 32 word) = 0" "take_bit 3 (0xf0 :: 32 word) = 0"
  by (simp_all add: take_bit_eq_mask masks)

lemma follow: "continues (0x80 OR (x AND 0x3f))" "(0x80 OR (x AND 0x3f)) AND 0x3f = (x AND 0x3f :: 32 word)" "0x80 OR (x AND 0x3f) < 256"
proof -
  have x: "unat (x AND 0x3f) < 2 ^ 6" by (rule low_bits) (simp add: masks [symmetric] bit_simps)
  have "(0x80 OR (x AND 0x3f)) AND mask 6 = x AND 0x3f" "unat (0x80 OR (x AND 0x3f)) = 128 + unat (x AND 0x3f)"
    using marked [OF x marks(1)] by (simp_all add: masks)
  then show "(0x80 OR (x AND 0x3f)) AND 0x3f = x AND 0x3f" "0x80 OR (x AND 0x3f) < 256"
    using x by (simp_all add: masks word_less_nat_alt)
  have "(0x3f :: 32 word) AND 0xc0 = 0" "(0x80 :: 32 word) AND 0xc0 = 0x80" by simp_all
  then show "continues (0x80 OR (x AND 0x3f))"
    by (simp add: continues_def bit.conj_disj_distrib2 and.assoc)
qed

lemma rejoin:
  fixes w :: "32 word"
  shows "push_bit 6 (drop_bit 6 w) OR (w AND 0x3f) = w"
    "push_bit 12 (drop_bit 12 w) OR push_bit 6 (drop_bit 6 w AND 0x3f) OR (w AND 0x3f) = w"
    "push_bit 18 (drop_bit 18 w) OR push_bit 12 (drop_bit 12 w AND 0x3f) OR push_bit 6 (drop_bit 6 w AND 0x3f) OR (w AND 0x3f) = w"
proof -
  have cases3: "n < 6 \<or> (6 \<le> n \<and> n < 12) \<or> (12 \<le> n \<and> n < 18) \<or> 18 \<le> n" for n :: nat by auto
  show "push_bit 6 (drop_bit 6 w) OR (w AND 0x3f) = w"
    by (rule bit_word_eqI) (auto simp: masks [symmetric] bit_simps)
  show "push_bit 12 (drop_bit 12 w) OR push_bit 6 (drop_bit 6 w AND 0x3f) OR (w AND 0x3f) = w"
  proof (rule bit_word_eqI)
    fix n assume "n < LENGTH(32)"
    then show "bit (push_bit 12 (drop_bit 12 w) OR push_bit 6 (drop_bit 6 w AND 0x3f) OR (w AND 0x3f)) n = bit w n"
      using cases3 [of n] by (auto simp: masks [symmetric] bit_simps simp del: push_bit_and)
  qed
  show "push_bit 18 (drop_bit 18 w) OR push_bit 12 (drop_bit 12 w AND 0x3f) OR push_bit 6 (drop_bit 6 w AND 0x3f) OR (w AND 0x3f) = w"
  proof (rule bit_word_eqI)
    fix n assume "n < LENGTH(32)"
    then show "bit (push_bit 18 (drop_bit 18 w) OR push_bit 12 (drop_bit 12 w AND 0x3f) OR push_bit 6 (drop_bit 6 w AND 0x3f) OR (w AND 0x3f)) n = bit w n"
      using cases3 [of n] by (auto simp: masks [symmetric] bit_simps simp del: push_bit_and)
  qed
qed

lemma narrow [simp]: "ucast (ucast u :: 32 word) = (u :: 16 word)"
  by (rule bit_word_eqI) (simp add: bit_simps)

lemma unat_wide [simp]: "unat (ucast u :: 32 word) = unat (u :: 16 word)"
proof -
  have "unat u < 2 ^ 16" using unsigned_less [of u] by simp
  then have "take_bit 32 (unat u) = unat u" by (intro take_bit_nat_eq_self) simp
  then show ?thesis by (simp add: unsigned_ucast_eq)
qed

lemma narrow_eq: "unat (w :: 32 word) = unat (u :: 16 word) \<Longrightarrow> ucast w = u"
  by (metis narrow unat_wide word_unat_eq_iff)

lemma unat_drop: "unat (drop_bit k (ucast u) :: 32 word) = unat (u :: 16 word) div 2 ^ k"
proof -
  have "unat u < 2 ^ 16" using unsigned_less [of u] by simp
  then have "take_bit 32 (unat u) = unat u" by (intro take_bit_nat_eq_self) simp
  then show ?thesis by (simp add: unsigned_drop_bit_eq drop_bit_eq_div [of k "unat u"])
qed

lemma byte_sless: "unat (x :: 32 word) < 256 \<Longrightarrow> x <s 0x80 \<longleftrightarrow> unat x < 0x80" "unat (x :: 32 word) < 256 \<Longrightarrow> 0xc0 \<le>s x \<longleftrightarrow> 0xc0 \<le> unat x"
  "unat (x :: 32 word) < 256 \<Longrightarrow> x <s 0xe0 \<longleftrightarrow> unat x < 0xe0" "unat (x :: 32 word) < 256 \<Longrightarrow> 0xe0 \<le>s x \<longleftrightarrow> 0xe0 \<le> unat x"
  "unat (x :: 32 word) < 256 \<Longrightarrow> x <s 0xf0 \<longleftrightarrow> unat x < 0xf0" "unat (x :: 32 word) < 256 \<Longrightarrow> 0xf0 \<le>s x \<longleftrightarrow> 0xf0 \<le> unat x"
  by (simp_all add: small_sless small_sle word_less_nat_alt word_le_nat_alt)

lemma byte_at_simps [simp]: "byte_at (b # bs) 0 = b" "byte_at (b # bs) (Suc i) = byte_at bs i" "byte_at (b # bs) (numeral k) = byte_at bs (pred_numeral k)"
  by (simp_all add: byte_at_def numeral_eq_Suc)

lemma drops: "drop (Suc 0) (a # bs) = bs" "drop 2 (a # b # bs) = bs" "drop 3 (a # b # c # bs) = bs"
  by (simp_all add: eval_nat_numeral)

lemma decode_one: "unat u < 0x80 \<Longrightarrow> utf8Decode (ucast u # bs) = map_option ((#) u) (utf8Decode bs)"
  by (simp add: byte_sless)

lemma decode_two:
  fixes u :: "16 word"
  defines "w \<equiv> ucast u :: 32 word"
  assumes "unat u < 0x800"
  shows "utf8Decode ((0xc0 OR drop_bit 6 w) # (0x80 OR (w AND 0x3f)) # bs) = map_option ((#) u) (utf8Decode bs)"
    "0xc0 OR drop_bit 6 w < 256"
proof -
  have "unat (drop_bit 6 w) < 2 ^ 5" using assms(2) by (simp add: w_def unat_drop)
  note b0 = marked [OF this marks(2)] and small = this
  show "0xc0 OR drop_bit 6 w < 256" using b0(1) small by (simp add: word_less_nat_alt)
  have "push_bit 6 ((0xc0 OR drop_bit 6 w) AND 0x1f) OR ((0x80 OR (w AND 0x3f)) AND 0x3f) = w"
    using b0(2) by (simp add: masks follow rejoin del: push_bit_and)
  then show "utf8Decode ((0xc0 OR drop_bit 6 w) # (0x80 OR (w AND 0x3f)) # bs) = map_option ((#) u) (utf8Decode bs)"
    using b0(1) small by (simp add: byte_sless follow w_def drops Let_def del: push_bit_and)
qed

lemma decode_three:
  fixes u :: "16 word"
  defines "w \<equiv> ucast u :: 32 word"
  shows "utf8Decode ((0xe0 OR drop_bit 12 w) # (0x80 OR (drop_bit 6 w AND 0x3f)) # (0x80 OR (w AND 0x3f)) # bs) = map_option ((#) u) (utf8Decode bs)"
    "0xe0 OR drop_bit 12 w < 256"
proof -
  have "unat u < 2 ^ 16" using unsigned_less [of u] by simp
  then have "unat (drop_bit 12 w) < 2 ^ 4" by (simp add: w_def unat_drop less_mult_imp_div_less)
  note b0 = marked [OF this marks(3)] and small = this
  show "0xe0 OR drop_bit 12 w < 256" using b0(1) small by (simp add: word_less_nat_alt)
  have "push_bit 12 ((0xe0 OR drop_bit 12 w) AND 0x0f) OR push_bit 6 ((0x80 OR (drop_bit 6 w AND 0x3f)) AND 0x3f) OR ((0x80 OR (w AND 0x3f)) AND 0x3f) = w"
    using b0(2) by (simp add: masks follow rejoin del: push_bit_and)
  then show "utf8Decode ((0xe0 OR drop_bit 12 w) # (0x80 OR (drop_bit 6 w AND 0x3f)) # (0x80 OR (w AND 0x3f)) # bs) = map_option ((#) u) (utf8Decode bs)"
    using b0(1) small by (simp add: byte_sless follow w_def drops Let_def del: push_bit_and)
qed

text \<open>A pair of surrogates and the code point it stands for.\<close>

definition code_point :: "16 word \<Rightarrow> 16 word \<Rightarrow> 32 word" where
  "code_point u v = 0x10000 + push_bit 10 (ucast u AND 0x3ff) + (ucast v AND 0x3ff)"

lemma unat_mask10: "unat (ucast u AND 0x3ff :: 32 word) = unat (u :: 16 word) mod 1024"
proof -
  have "(ucast u AND 0x3ff :: 32 word) = take_bit 10 (ucast u)" by (simp add: take_bit_eq_mask masks)
  then show ?thesis by (simp add: unsigned_take_bit_eq take_bit_eq_mod [of 10 "unat u"])
qed

lemma unat_code_point: "unat (code_point u v) = 0x10000 + unat u mod 1024 * 1024 + unat v mod 1024"
proof -
  have "unat u mod 1024 < 1024" "unat v mod 1024 < 1024" by simp_all
  then show ?thesis
    by (simp add: code_point_def unat_word_ariths unsigned_push_bit_eq unat_mask10 push_bit_eq_mult take_bit_eq_mod del: push_bit_and)
qed
lemma decode_four:
  fixes u v :: "16 word"
  assumes u: "0xd800 \<le> u" "u \<le> 0xdbff" and v: "0xdc00 \<le> v" "v \<le> 0xdfff"
  defines "w \<equiv> code_point u v"
  shows "utf8Decode ((0xf0 OR drop_bit 18 w) # (0x80 OR (drop_bit 12 w AND 0x3f)) # (0x80 OR (drop_bit 6 w AND 0x3f)) # (0x80 OR (w AND 0x3f)) # bs)
      = map_option (\<lambda>us. u # v # us) (utf8Decode bs)"
    "0xf0 OR drop_bit 18 w < 256"
proof -
  have w: "unat w = 0x10000 + unat u mod 1024 * 1024 + unat v mod 1024" by (simp add: w_def unat_code_point)
  have "unat u mod 1024 < 1024" "unat v mod 1024 < 1024" by simp_all
  with w have "unat w < 2 ^ 21" by simp
  then have "unat (drop_bit 18 w) < 2 ^ 3"
    by (intro low_bits) (simp add: bit_drop_bit_eq high_bits [of _ 21])
  note b0 = marked [OF this marks(4)] and small3 = this
  show "0xf0 OR drop_bit 18 w < 256" using b0(1) small3 by (simp add: word_less_nat_alt)
  have cp: "push_bit 18 ((0xf0 OR drop_bit 18 w) AND 0x07) OR push_bit 12 ((0x80 OR (drop_bit 12 w AND 0x3f)) AND 0x3f)
      OR push_bit 6 ((0x80 OR (drop_bit 6 w AND 0x3f)) AND 0x3f) OR ((0x80 OR (w AND 0x3f)) AND 0x3f) = w"
    using b0(2) by (simp add: masks follow rejoin del: push_bit_and)
  define off where "off = w - 0x10000"
  have off: "unat off = unat u mod 1024 * 1024 + unat v mod 1024"
    using w by (simp add: off_def unat_sub word_le_nat_alt)
  have "unat off < 2 ^ 20" using off \<open>unat u mod 1024 < 1024\<close> \<open>unat v mod 1024 < 1024\<close> by simp
  then have "signed_drop_bit 10 off = drop_bit 10 off"
    by (intro bit_word_eqI) (auto simp: bit_simps high_bits [of _ 20])
  moreover have "unat (drop_bit 10 off) = unat off div 1024"
  proof -
    have "take_bit 32 (unat off) = unat off" using \<open>unat off < 2 ^ 20\<close> by (intro take_bit_nat_eq_self) simp
    then show ?thesis by (simp add: unsigned_drop_bit_eq drop_bit_eq_div [of 10 "unat off"])
  qed
  ultimately have hi: "unat (signed_drop_bit 10 off) = unat u mod 1024" using off by simp
  have "off AND 0x3ff = take_bit 10 off" by (simp add: take_bit_eq_mask masks)
  then have "unat (off AND 0x3ff) = take_bit 10 (unat off)" by (simp only: unsigned_take_bit_eq)
  also have "\<dots> = unat off mod 2 ^ 10" by (simp only: take_bit_eq_mod)
  also have "\<dots> = unat v mod 1024" unfolding off by simp
  finally have lo: "unat (off AND 0x3ff) = unat v mod 1024" .
  have "unat u div 1024 = 54" "unat v div 1024 = 55"
    by (rule div_nat_eqI; use u v in \<open>simp add: word_le_nat_alt\<close>)+
  then have hu: "0xd800 + unat u mod 1024 = unat u" and lv: "0xdc00 + unat v mod 1024 = unat v"
    using div_mult_mod_eq [of "unat u" 1024] div_mult_mod_eq [of "unat v" 1024] by simp_all
  have "unat x < 65536" for x :: "16 word" using unsigned_less [of x] by simp
  then have small: "unat u < 2 ^ 32" "unat v < 2 ^ 32" by (simp_all add: less_trans [of _ 65536])
  have U: "ucast (0xd800 + signed_drop_bit 10 off) = u" and V: "ucast (0xdc00 + (off AND 0x3ff)) = v"
    using small by (auto intro!: narrow_eq simp: unat_word_ariths hi lo hu lv)
  show "utf8Decode ((0xf0 OR drop_bit 18 w) # (0x80 OR (drop_bit 12 w AND 0x3f)) # (0x80 OR (drop_bit 6 w AND 0x3f)) # (0x80 OR (w AND 0x3f)) # bs)
      = map_option (\<lambda>us. u # v # us) (utf8Decode bs)"
    using b0(1) small3 cp U V
    by (simp add: byte_sless follow off_def Let_def drops del: push_bit_and)
qed

lemma utf8_back: "paired us \<Longrightarrow> utf8Decode (utf8Encode us) = Some us \<and> list_all (\<lambda>b. b < 256) (utf8Encode us)"
proof (induction us rule: paired.induct)
  case (2 u us)
  have cmp: "(ucast u :: 32 word) < 0x80 \<longleftrightarrow> unat u < 0x80" "(ucast u :: 32 word) < 0x800 \<longleftrightarrow> unat u < 0x800"
    "(0xd800 :: 32 word) \<le> ucast u \<longleftrightarrow> 0xd800 \<le> u" "(ucast u :: 32 word) \<le> 0xdbff \<longleftrightarrow> u \<le> 0xdbff"
    by (simp_all add: word_less_nat_alt word_le_nat_alt)
  note code = decode_one decode_two decode_three decode_four
  show ?case
  proof (cases "0xd800 \<le> u \<and> u \<le> 0xdbff \<and> us \<noteq> []")
    case True
    then obtain v vs where us: "us = v # vs" by (cases us) auto
    have v: "0xdc00 \<le> v" "v \<le> 0xdfff" and IH: "utf8Decode (utf8Encode vs) = Some vs" "list_all (\<lambda>b. b < 256) (utf8Encode vs)"
      using 2 True by (simp_all add: us)
    have large: "\<not> unat u < 0x80" "\<not> unat u < 0x800" using True by (simp_all add: word_le_nat_alt)
    have point: "0x10000 + push_bit 10 (ucast u AND 0x3ff) + (ucast v AND 0x3ff) = code_point u v" by (simp add: code_point_def)
    show ?thesis
      using True large decode_four [of u v] v IH
      by (simp add: us cmp point follow Let_def del: utf8Decode.simps push_bit_and)
  next
    case False
    then have IH: "utf8Decode (utf8Encode us) = Some us" "list_all (\<lambda>b. b < 256) (utf8Encode us)" using 2 by simp_all
    show ?thesis
      using False IH decode_one [of u] decode_two [of u] decode_three [of u]
      by (cases "us = []"; cases "0xd800 \<le> u"; cases "u \<le> 0xdbff";
          simp add: cmp follow Let_def word_less_nat_alt [of "ucast u" 256] del: utf8Decode.simps push_bit_and)
  qed
qed simp
lemma base64url_back: "paired us \<Longrightarrow> fromBase64Url (toBase64Url us) = Some us"
  using utf8_back [of us] bytes_of_text [of "utf8Encode us" 0] by (simp add: fromBase64Url_def toBase64Url_def)

end
