(* ===== verification/Plan_Snapshot_Props.thy ===== *)
theory Plan_Snapshot_Props
  imports Plan_Codec
begin

unbundle bit_operations_syntax

text \<open>
  A shared plan arrives: what JSON writes of a plan it reads back, every text it writes is one that the
  codec carries, and the schema accepts what keeps its limits.  And what the codec accepts or refuses
  against its comments.
\<close>

section \<open>JSON reads what it writes\<close>

subsection \<open>Strings\<close>

lemma units_inj [simp]: "units a = units b \<longleftrightarrow> a = b"
proof -
  have "inj (\<lambda>c :: char. word_of_nat (of_char c) :: 16 word)"
    by (rule injI) (metis of_char_eq_iff unat_unit)
  then show ?thesis by (simp add: units_def inj_map_eq_map)
qed

lemma high_iff: "is_high u \<longleftrightarrow> 0xd800 \<le> u \<and> u \<le> 0xdbff"
  by (simp add: is_high_def)

declare paired.simps(2) [simp del]

lemma paired_plain [simp]: "\<not> is_high u \<Longrightarrow> paired (u # us) \<longleftrightarrow> paired us"
  by (auto simp: is_high_def paired.simps(2))

lemma paired_pair [simp]: "is_high u \<Longrightarrow> is_low v \<Longrightarrow> paired (u # v # us) \<longleftrightarrow> paired us"
  by (simp add: is_high_def is_low_def paired.simps(2))

lemma short_escape_cases:
  "map_of short_escapes u = Some e \<Longrightarrow> map_of unescapes e = Some u \<and> e < 0x80"
  by (auto simp: short_escapes_def unescapes_def split: if_splits)

lemma low_not_high: "u < 0xd800 \<Longrightarrow> \<not> is_high u"
  by (auto simp: is_high_def dest: leD)

lemma unit_hex_small: "x < 16 \<Longrightarrow> unit_hex x < 0x80"
proof -
  assume "x < 16"
  then show ?thesis unfolding unit_hex_def word_less_nat_alt by (simp add: unat_word_ariths word_less_nat_alt)
qed

lemma hex_back: "x < 16 \<Longrightarrow> hex_val (unit_hex x) = Some x"
proof -
  assume x: "x < 16"
  then have "unat x < 16" by (simp add: word_less_nat_alt)
  then show ?thesis
    by (auto simp: unit_hex_def hex_val_def word_less_nat_alt word_le_nat_alt unat_word_ariths)
qed

lemma lt_16I: "(\<And>n. 4 \<le> n \<Longrightarrow> n < 16 \<Longrightarrow> \<not> bit w n) \<Longrightarrow> (w :: 16 word) < 16"
proof -
  assume high: "\<And>n. 4 \<le> n \<Longrightarrow> n < 16 \<Longrightarrow> \<not> bit w n"
  have "bit (take_bit 4 w) n = bit w n" if "n < 16" for n using high [of n] that by (cases "n < 4") (auto simp: bit_take_bit_iff)
  then have "take_bit 4 w = w" by (intro bit_word_eqI) simp
  then have "unat w = take_bit 4 (unat w)" by (metis unsigned_take_bit_eq)
  then have "unat w < 16" using take_bit_nat_less_exp [of 4 "unat w"] by simp
  then show ?thesis by (simp add: word_less_nat_alt)
qed

lemma mask4_16: "(0xf :: 16 word) = mask 4"
  by (simp add: mask_eq_exp_minus_1)

lemma nibbles: "drop_bit 12 u < (16 :: 16 word)" "x AND 0xf < (16 :: 16 word)"
  by (rule lt_16I; simp add: mask4_16 bit_simps impossible_bit)+

lemma hex4_back: "hex4_val (hex4 u @ ts) = Some u" "list_all (\<lambda>c. c < 0x80) (hex4 u)"
proof -
  have "push_bit 12 (drop_bit 12 u) OR push_bit 8 (drop_bit 8 u AND 0xf) OR push_bit 4 (drop_bit 4 u AND 0xf) OR (u AND 0xf) = u"
  proof (rule bit_word_eqI)
    fix n assume "n < LENGTH(16)"
    moreover have "n < 4 \<or> (4 \<le> n \<and> n < 8) \<or> (8 \<le> n \<and> n < 12) \<or> 12 \<le> n" by auto
    ultimately show "bit (push_bit 12 (drop_bit 12 u) OR push_bit 8 (drop_bit 8 u AND 0xf) OR push_bit 4 (drop_bit 4 u AND 0xf) OR (u AND 0xf)) n = bit u n"
      by (auto simp: mask4_16 bit_simps simp del: push_bit_and)
  qed
  then show "hex4_val (hex4 u @ ts) = Some u" by (simp add: hex4_def hex_back nibbles del: push_bit_and)
  show "list_all (\<lambda>c. c < 0x80) (hex4 u)" by (simp add: hex4_def unit_hex_small nibbles)
qed

lemma length_hex4 [simp]: "length (hex4 u) = 4"
  by (simp add: hex4_def)

lemma paired_ascii: "list_all (\<lambda>c. c < 0x80) us \<Longrightarrow> paired (us @ rest) \<longleftrightarrow> paired rest"
proof (induction us)
  case (Cons u us)
  then have "u < 0xd800" by (auto intro: less_trans)
  with Cons show ?case by (simp add: low_not_high)
qed simp

lemma paired_chars: "paired rest \<Longrightarrow> paired (json_chars us @ rest)"
proof (induction us rule: json_chars.induct)
  case (2 u us)
  have e: "\<not> is_high 0x5c" "\<not> is_high 0x75" by (simp_all add: is_high_def)
  show ?case
  proof (cases "map_of short_escapes u")
    case None
    consider "u < 0x20 \<or> is_low u \<or> is_high u \<and> (us = [] \<or> \<not> is_low (hd us))" | "is_high u" "us \<noteq> []" "is_low (hd us)"
      | "\<not> is_high u" by blast
    then show ?thesis
      using 2 None e paired_ascii [OF hex4_back(2)] by cases auto
  next
    case (Some c)
    then have "\<not> is_high c" using short_escape_cases [OF Some] by (auto intro!: low_not_high intro: less_trans)
    with Some e 2 show ?thesis by simp
  qed
qed simp

lemma chars_back: "json_str (json_chars us @ 0x22 # rest) = Some (us, rest)"
proof (induction us rule: json_chars.induct)
  case (2 u us)
  show ?case
  proof (cases "map_of short_escapes u")
    case None
    then have u: "u \<noteq> 0x22" "u \<noteq> 0x5c" by (auto simp: short_escapes_def)
    consider (esc) "u < 0x20 \<or> is_low u \<or> is_high u \<and> (us = [] \<or> \<not> is_low (hd us))"
      | (pair) "\<not> u < 0x20" "is_high u" "us \<noteq> []" "is_low (hd us)" "\<not> is_low u"
      | (plain) "\<not> u < 0x20" "\<not> is_low u" "\<not> is_high u" by blast
    then show ?thesis
    proof cases
      case esc
      have "map_of unescapes 0x75 = None" by (simp add: unescapes_def)
      then show ?thesis using esc None 2 hex4_back(1) [of u] by (simp add: cons_char_def)
    next
      case pair
      then obtain v vs where us: "us = v # vs" by (cases us) auto
      have "\<not> v < 0x20" "v \<noteq> 0x22" "v \<noteq> 0x5c" using pair by (auto simp: us is_low_def word_less_nat_alt word_le_nat_alt)
      then show ?thesis using pair None 2 u by (simp add: us cons_char_def)
    next
      case plain
      then show ?thesis using None 2 u by (simp add: cons_char_def)
    qed
  next
    case (Some e)
    then show ?thesis using 2 short_escape_cases [OF Some] by (simp add: cons_char_def)
  qed
qed simp

subsection \<open>Numbers\<close>

definition delim :: "utf16 \<Rightarrow> bool" where
  "delim ts \<longleftrightarrow> ts = [] \<or> hd ts \<in> {0x2c, 0x5d, 0x7d}"

lemma delim_digit: "delim ts \<Longrightarrow> takeWhile is_digit ts = []" "delim ts \<Longrightarrow> dropWhile is_digit ts = ts"
  by (cases ts; auto simp: delim_def is_digit_def)+

lemma digits_append: "delim rest \<Longrightarrow> digits (ts @ rest) = (fst (digits ts), snd (digits ts) @ rest)"
  by (induction ts) (auto simp: digits_def delim_digit)

lemma int_append: "num_int ts = Some (i, r) \<Longrightarrow> delim rest \<Longrightarrow> num_int (ts @ rest) = Some (i, r @ rest)"
  using digits_append [of rest ts] by (cases ts) (auto simp: num_int_def split: if_splits)

lemma frac_append: "num_frac ts = Some (f, r) \<Longrightarrow> delim rest \<Longrightarrow> num_frac (ts @ rest) = Some (f, r @ rest)"
proof (cases ts)
  case Nil
  assume "num_frac ts = Some (f, r)" "delim rest"
  with Nil show ?thesis by (cases rest) (auto simp: num_frac_def delim_def)
next
  case (Cons c cs)
  assume "num_frac ts = Some (f, r)" "delim rest"
  with Cons digits_append [of rest cs] show ?thesis by (auto simp: num_frac_def split: if_splits prod.splits)
qed

lemma exp_append: "num_exp ts = Some (e, r) \<Longrightarrow> delim rest \<Longrightarrow> num_exp (ts @ rest) = Some (e, r @ rest)"
proof (cases ts)
  case Nil
  assume "num_exp ts = Some (e, r)" "delim rest"
  with Nil show ?thesis by (cases rest) (auto simp: num_exp_def delim_def)
next
  case (Cons c cs)
  assume e: "num_exp ts = Some (e, r)" and d: "delim rest"
  have "digits [] = ([], [])" by (simp add: digits_def)
  then have "c = 0x65 \<or> c = 0x45 \<Longrightarrow> cs \<noteq> []" using e by (auto simp: num_exp_def Cons split: if_splits)
  with e d Cons digits_append [OF d, of cs] digits_append [OF d, of "tl cs"] show ?thesis
    by (cases cs) (auto simp: num_exp_def Let_def split: if_splits prod.splits)
qed

lemma number_append:
  assumes "json_number ts = Some (n, r)" and "delim rest"
  shows "json_number (ts @ rest) = Some (n, r @ rest)"
proof -
  define sign where "sign = (if ts \<noteq> [] \<and> hd ts = 0x2d then [0x2d :: 16 word] else [])"
  obtain i r1 f r2 e where p: "num_int (drop (length sign) ts) = Some (i, r1)" "num_frac r1 = Some (f, r2)" "num_exp r2 = Some (e, r)" "n = sign @ i @ f @ e"
    using assms(1) by (auto simp: json_number_def sign_def [symmetric] Let_def split: option.splits prod.splits)
  have "ts \<noteq> []" using p(1) by (auto simp: num_int_def sign_def)
  then have "(if ts @ rest \<noteq> [] \<and> hd (ts @ rest) = 0x2d then [0x2d] else []) = sign" "drop (length sign) (ts @ rest) = drop (length sign) ts @ rest"
    by (cases ts; simp add: sign_def)+
  with int_append [OF p(1) assms(2)] frac_append [OF p(2) assms(2)] exp_append [OF p(3) assms(2)] p(4) show ?thesis
    by (simp add: json_number_def Let_def)
qed

definition num_char :: "16 word \<Rightarrow> bool" where
  "num_char c \<longleftrightarrow> is_digit c \<or> c = 0x2d \<or> c = 0x2b \<or> c = 0x2e \<or> c = 0x65 \<or> c = 0x45"

lemma digits_chars: "list_all num_char (fst (digits ts))"
  by (auto simp: digits_def list_all_iff num_char_def dest: set_takeWhileD)

lemma number_chars: "json_number ts = Some (n, r) \<Longrightarrow> list_all num_char n \<and> n \<noteq> [] \<and> (hd n = 0x2d \<or> is_digit (hd n))"
proof -
  assume n: "json_number ts = Some (n, r)"
  have i: "list_all num_char i \<and> i \<noteq> [] \<and> is_digit (hd i)" if "num_int t = Some (i, r)" for t i r
    using that digits_chars [of t] by (cases t) (auto simp: num_int_def num_char_def is_digit_def digits_def split: if_splits)
  have f: "list_all num_char f" if "num_frac t = Some (f, r)" for t f r
    using that digits_chars [of "tl t"] by (cases t) (auto simp: num_frac_def num_char_def split: if_splits prod.splits)
  have e: "list_all num_char e" if "num_exp t = Some (e, r)" for t e r
    using that digits_chars [of "tl t"] digits_chars [of "tl (tl t)"]
    by (cases t) (auto simp: num_exp_def num_char_def Let_def drop_Suc split: if_splits prod.splits)
  show ?thesis
    using n by (auto simp: json_number_def num_char_def Let_def dest!: i f e split: option.splits prod.splits if_splits)
qed

lemma num_char_ascii: "num_char c \<Longrightarrow> c < 0x80"
  by (auto simp: num_char_def is_digit_def word_less_nat_alt word_le_nat_alt)

definition num_ok :: "doubles \<Rightarrow> rat \<Rightarrow> bool" where
  "num_ok d q \<longleftrightarrow> json_number (db_text d q) = Some (db_text d q, []) \<and> db_value d (db_text d q) = Some q"

subsection \<open>Values\<close>

fun tree_ok :: "doubles \<Rightarrow> jtree \<Rightarrow> bool" where
  "tree_ok d (TNum x) \<longleftrightarrow> (case x of Some q \<Rightarrow> num_ok d q | None \<Rightarrow> False)"
| "tree_ok d (TArr ts) \<longleftrightarrow> (\<forall>t \<in> set ts. tree_ok d t)"
| "tree_ok d (TObj fs) \<longleftrightarrow> distinct (map fst fs) \<and> (\<forall>f \<in> set fs. tree_ok d (snd f))"
| "tree_ok d _ \<longleftrightarrow> True"

lemma paired_commas: "(\<And>x rest. x \<in> set xs \<Longrightarrow> paired rest \<Longrightarrow> paired (x @ rest)) \<Longrightarrow> paired rest \<Longrightarrow> paired (commas xs @ rest)"
proof (induction xs rule: commas.induct)
  case (3 x y xs)
  have "\<not> is_high 0x2c" by (simp add: is_high_def)
  with 3 show ?case by simp
qed auto

lemma unit_ascii: "\<not> is_high (word_of_nat (of_char c))"
proof -
  have "(of_char c :: nat) < 0xd800" by (rule less_trans [of _ 256]) simp_all
  then have "unat (word_of_nat (of_char c) :: 16 word) < 0xd800" by (simp only: unat_unit)
  then have "(word_of_nat (of_char c) :: 16 word) < 0xd800" by (subst word_less_nat_alt) simp
  then show ?thesis by (rule low_not_high)
qed

lemma paired_units: "paired (units s @ rest) \<longleftrightarrow> paired rest"
  by (induction s) (simp_all add: units_def unit_ascii del: of_nat_of_char)

lemma paired_quote: "paired rest \<Longrightarrow> paired (json_quote us @ rest)"
proof -
  have "\<not> is_high 0x22" by (simp add: is_high_def)
  then show "paired rest \<Longrightarrow> paired (json_quote us @ rest)" by (simp add: json_quote_def paired_chars)
qed

lemma paired_text: "tree_ok d t \<Longrightarrow> paired rest \<Longrightarrow> paired (tree_text d t @ rest)"
proof (induction d t arbitrary: rest rule: tree_text.induct)
  case (3 d x)
  then obtain q where q: "x = Some q" "num_ok d q" by (auto split: option.splits)
  then have "list_all num_char (db_text d q)" using number_chars by (auto simp: num_ok_def)
  then have "list_all (\<lambda>c. c < 0x80) (db_text d q)" by (rule list.pred_mono_strong) (simp add: num_char_ascii)
  then show ?case using 3 q by (simp add: paired_ascii)
next
  case (5 d ts)
  have b: "\<not> is_high 0x5b" "\<not> is_high 0x5d" by (simp_all add: is_high_def)
  have "paired (commas (map (tree_text d) ts) @ 0x5d # rest)" by (rule paired_commas) (use 5 b in auto)
  then show ?case using b by simp
next
  case (6 d fs)
  have b: "\<not> is_high 0x7b" "\<not> is_high 0x7d" "\<not> is_high 0x3a" by (simp_all add: is_high_def)
  have "paired (commas (map (\<lambda>f. json_quote (fst f) @ 0x3a # tree_text d (snd f)) fs) @ 0x7d # rest)"
    by (rule paired_commas) (use 6 b in \<open>auto simp: paired_quote\<close>)
  then show ?case using b by simp
qed (auto simp: paired_units paired_quote)

lemma ws_id: "0x21 \<le> c \<Longrightarrow> json_ws (c # cs) = c # cs"
  by (auto simp: json_ws_def word_le_nat_alt)

lemma units_words: "units ''null'' = [0x6e, 0x75, 0x6c, 0x6c]" "units ''true'' = [0x74, 0x72, 0x75, 0x65]" "units ''false'' = [0x66, 0x61, 0x6c, 0x73, 0x65]"
  by (simp_all add: units_def)

lemma num_head:
  assumes "num_ok d q"
  obtains c cs where "db_text d q = c # cs" "c = 0x2d \<or> 0x30 \<le> c \<and> c \<le> 0x39"
  using number_chars [of "db_text d q" "db_text d q" "[]"] assms by (cases "db_text d q") (auto simp: num_ok_def is_digit_def)

lemma text_head:
  assumes "tree_ok d t"
  obtains c cs where "tree_text d t = c # cs" "0x21 \<le> c" "c \<noteq> 0x5d" "c \<noteq> 0x7d"
proof (cases t)
  case (TNum x)
  then obtain q where q: "x = Some q" "num_ok d q" using assms by (auto split: option.splits)
  obtain c cs where "db_text d q = c # cs" "c = 0x2d \<or> 0x30 \<le> c \<and> c \<le> 0x39" by (rule num_head [OF q(2)])
  moreover from this have "0x21 \<le> c" "c \<noteq> 0x5d" "c \<noteq> 0x7d" by (auto simp: word_le_nat_alt)
  ultimately show ?thesis using TNum q that [of c cs] by simp
next
  case (TBool b)
  then show ?thesis using that by (cases b) (auto simp: units_words)
qed (use that in \<open>auto simp: units_words json_quote_def\<close>)

lemma word_back: "json_word d (units ''null'' @ rest) = Some (TNull, rest)" "json_word d (units ''true'' @ rest) = Some (TBool True, rest)"
  "json_word d (units ''false'' @ rest) = Some (TBool False, rest)"
  by (simp_all add: json_word_def units_words)

lemma number_back:
  assumes "num_ok d q" and "delim rest"
  shows "json_word d (db_text d q @ rest) = Some (TNum (Some q), rest)"
proof -
  obtain c cs where c: "db_text d q = c # cs" "c = 0x2d \<or> 0x30 \<le> c \<and> c \<le> 0x39" by (rule num_head [OF assms(1)])
  then have "c \<noteq> 0x6e" "c \<noteq> 0x74" "c \<noteq> 0x66" by (auto simp: word_le_nat_alt)
  then show ?thesis using number_append [of "db_text d q" "db_text d q" "[]" rest] assms c(1)
    by (simp add: json_word_def units_words num_ok_def)
qed

lemma update_fresh_key: "k \<notin> fst ` set al \<Longrightarrow> AList.update k v al = al @ [(k, v)]"
  by (induction al) auto

lemma fold_distinct: "distinct (map fst (acc @ ms)) \<Longrightarrow> fold (\<lambda>(k, v) fs. AList.update k v fs) ms acc = acc @ ms"
proof (induction ms arbitrary: acc)
  case (Cons m ms)
  have "AList.update (fst m) (snd m) acc = acc @ [m]" using Cons.prems by (simp add: update_fresh_key)
  then show ?case using Cons by (simp add: split_def)
qed simp

lemma object_back: "distinct (map fst fs) \<Longrightarrow> as_object fs = TObj fs"
  using fold_distinct [of "[]" fs] by (simp add: as_object_def)

lemma elems_back:
  assumes "\<And>t n rest. t \<in> set ts \<Longrightarrow> delim rest \<Longrightarrow> 2 * length (tree_text d t) \<le> n \<Longrightarrow> json_value n d (tree_text d t @ rest) = Some (t, rest)"
    and "ts \<noteq> []" and "2 * length (commas (map (tree_text d) ts)) + 1 \<le> n"
  shows "json_elems n d (commas (map (tree_text d) ts) @ 0x5d # rest) = Some (ts, rest)"
  using assms
proof (induction ts arbitrary: n rule: induct_list012)
  case (2 t)
  then obtain m where n: "n = Suc m" by (cases n) auto
  have "json_value m d (tree_text d t @ 0x5d # rest) = Some (t, 0x5d # rest)" using 2 n by (auto simp: delim_def)
  then show ?case by (simp add: n ws_id)
next
  case (3 t u ts)
  then obtain m where n: "n = Suc m" by (cases n) auto
  have "json_value m d (tree_text d t @ 0x2c # r) = Some (t, 0x2c # r)" for r using 3 n by (auto simp: delim_def)
  moreover have "json_elems m d (commas (map (tree_text d) (u # ts)) @ 0x5d # rest) = Some (u # ts, rest)" using 3 n by auto
  ultimately show ?case by (simp add: n ws_id)
qed simp

lemma members_back:
  assumes "\<And>f n rest. f \<in> set fs \<Longrightarrow> delim rest \<Longrightarrow> 2 * length (tree_text d (snd f)) \<le> n \<Longrightarrow> json_value n d (tree_text d (snd f) @ rest) = Some (snd f, rest)"
    and "fs \<noteq> []" and "2 * length (commas (map (\<lambda>f. json_quote (fst f) @ 0x3a # tree_text d (snd f)) fs)) + 1 \<le> n"
  shows "json_members n d (commas (map (\<lambda>f. json_quote (fst f) @ 0x3a # tree_text d (snd f)) fs) @ 0x7d # rest) = Some (fs, rest)"
  using assms
proof (induction fs arbitrary: n rule: induct_list012)
  case (2 f)
  then obtain m where n: "n = Suc m" by (cases n) auto
  have "json_value m d (tree_text d (snd f) @ 0x7d # rest) = Some (snd f, 0x7d # rest)" using 2 n by (auto simp: delim_def)
  then show ?case by (simp add: n ws_id json_quote_def chars_back)
next
  case (3 f g fs)
  then obtain m where n: "n = Suc m" by (cases n) auto
  have "json_value m d (tree_text d (snd f) @ 0x2c # r) = Some (snd f, 0x2c # r)" for r using 3 n by (auto simp: delim_def)
  moreover have "json_members m d (commas (map (\<lambda>f. json_quote (fst f) @ 0x3a # tree_text d (snd f)) (g # fs)) @ 0x7d # rest) = Some (g # fs, rest)"
    using 3 n by auto
  ultimately show ?case by (simp add: n ws_id json_quote_def chars_back)
qed simp

lemma value_back: "tree_ok d t \<Longrightarrow> delim rest \<Longrightarrow> 2 * length (tree_text d t) \<le> n \<Longrightarrow> json_value n d (tree_text d t @ rest) = Some (t, rest)"
proof (induction d t arbitrary: n rest rule: tree_text.induct)
  case (3 d x)
  then obtain q where q: "x = Some q" "num_ok d q" by (auto split: option.splits)
  obtain c cs where c: "db_text d q = c # cs" "c = 0x2d \<or> 0x30 \<le> c \<and> c \<le> 0x39" by (rule num_head [OF q(2)])
  then have "0x21 \<le> c" "c \<noteq> 0x22" "c \<noteq> 0x5b" "c \<noteq> 0x7b" by (auto simp: word_le_nat_alt)
  moreover obtain m where "n = Suc m" using 3 q c by (cases n) auto
  ultimately show ?case using number_back [OF q(2) 3(2)] by (simp add: q c ws_id)
next
  case (5 d ts)
  then obtain m where n: "n = Suc m" by (cases n) auto
  show ?case
  proof (cases "ts = []")
    case False
    then obtain t ts' where ts: "ts = t # ts'" by (cases ts) auto
    have "tree_ok d t" using 5(2) ts by simp
    then obtain c cs where "tree_text d t = c # cs" "0x21 \<le> c" "c \<noteq> 0x5d" "c \<noteq> 0x7d" by (rule text_head)
    then have "\<exists>cs. commas (map (tree_text d) ts) = c # cs" by (cases ts') (auto simp: ts)
    then obtain cs' where head: "commas (map (tree_text d) ts) = c # cs'" ..
    have "json_elems m d (commas (map (tree_text d) ts) @ 0x5d # rest) = Some (ts, rest)"
      by (rule elems_back) (use 5 n False in auto)
    then show ?thesis using head \<open>0x21 \<le> c\<close> \<open>c \<noteq> 0x5d\<close> by (simp add: n ws_id)
  qed (simp add: n ws_id)
next
  case (6 d fs)
  then obtain m where n: "n = Suc m" by (cases n) auto
  let ?m = "\<lambda>f. json_quote (fst f) @ 0x3a # tree_text d (snd f)"
  show ?case
  proof (cases "fs = []")
    case False
    then obtain f fs' where fs: "fs = f # fs'" by (cases fs) auto
    have "\<exists>cs. commas (map ?m fs) = 0x22 # cs" by (cases fs') (auto simp: fs json_quote_def)
    then obtain cs' where head: "commas (map ?m fs) = 0x22 # cs'" ..
    have "json_members m d (commas (map ?m fs) @ 0x7d # rest) = Some (fs, rest)"
      by (rule members_back) (use 6 n False in auto)
    then show ?thesis using head 6(2) by (simp add: n ws_id object_back)
  qed (simp add: n ws_id)
next
  case (4 d s)
  then obtain m where n: "n = Suc m" by (cases n) (auto simp: json_quote_def)
  then show ?case by (simp add: json_quote_def ws_id chars_back)
next
  case (1 d)
  then obtain m where n: "n = Suc m" by (cases n) (auto simp: units_words)
  then show ?case using word_back(1) [of d rest] by (simp add: units_words ws_id)
next
  case (2 d b)
  then obtain m where n: "n = Suc m" by (cases n) (auto simp: units_words split: if_splits)
  then show ?case using word_back(2,3) [of d rest] by (simp add: units_words ws_id)
qed

lemma parse_back: "tree_ok d t \<Longrightarrow> json_parse d (tree_text d t) = Some t"
  using value_back [of d t "[]" "2 * length (tree_text d t) + 2"] by (simp add: json_parse_def delim_def json_ws_def)

section \<open>A plan that is shared arrives\<close>

definition point_ok :: "doubles \<Rightarrow> shared_point \<Rightarrow> bool" where
  "point_ok d p \<longleftrightarrow> 1 \<le> length (sn_label p) \<and> length (sn_label p) \<le> 120 \<and> \<bar>sn_lat p\<bar> \<le> 90 \<and> \<bar>sn_lng p\<bar> \<le> 180
     \<and> num_ok d (sn_lat p) \<and> num_ok d (sn_lng p)"

definition snapshot_ok :: "doubles \<Rightarrow> plan_snapshot \<Rightarrow> bool" where
  "snapshot_ok d s \<longleftrightarrow> 1 \<le> length (sn_festivalId s) \<and> length (sn_festivalId s) \<le> 128
     \<and> 1 \<le> length (sn_festivalName s) \<and> length (sn_festivalName s) \<le> 200
     \<and> list_all (\<lambda>p. 1 \<le> length (fst p) \<and> length (fst p) \<le> 128) (take MAX_PLAN_PICKS (sn_picks s))
     \<and> num_ok d PLAN_SNAPSHOT_VERSION \<and> pred_option (point_ok d) (sn_meetingPoint s)"

lemma priority_back: "map_of PICK_PRIORITIES (wire_priority p) = Some p"
  by (cases p) (simp_all add: PICK_PRIORITIES_def wire_priority_def)

lemma pick_back: "1 \<le> length (fst p) \<Longrightarrow> length (fst p) \<le> 128 \<Longrightarrow> pickSchema (pick_tree p) = Some p"
  by (simp add: pickSchema_def pick_tree_def str_field_def only_keys_def priority_back)

lemma point_back: "point_ok d p \<Longrightarrow> meetingPointSchema (point_tree p) = Some p"
  by (simp add: meetingPointSchema_def point_tree_def str_field_def num_field_def only_keys_def point_ok_def abs_le_iff minus_le_iff)

lemma picks_back: "list_all (\<lambda>p. 1 \<le> length (fst p) \<and> length (fst p) \<le> 128) ps \<Longrightarrow> all_some (map pickSchema (map pick_tree ps)) = Some ps"
  by (induction ps) (simp_all add: pick_back)

lemma envelope_ok: "snapshot_ok d s \<Longrightarrow> tree_ok d (envelope_tree s)"
  by (auto simp: envelope_tree_def snapshot_ok_def pick_tree_def point_tree_def point_ok_def split: option.splits)

lemma envelope_back:
  assumes "snapshot_ok d s"
  shows "envelopeSchema (envelope_tree s) = Some (s\<lparr>sn_picks := take MAX_PLAN_PICKS (sn_picks s)\<rparr>)" "\<not> other_version (envelope_tree s)"
proof -
  have picks: "all_some (map (pickSchema \<circ> pick_tree) (take MAX_PLAN_PICKS (sn_picks s))) = Some (take MAX_PLAN_PICKS (sn_picks s))"
    using picks_back [of "take MAX_PLAN_PICKS (sn_picks s)"] assms by (simp add: snapshot_ok_def)
  show "envelopeSchema (envelope_tree s) = Some (s\<lparr>sn_picks := take MAX_PLAN_PICKS (sn_picks s)\<rparr>)"
    using assms picks point_back
    by (cases "sn_meetingPoint s") (auto simp: envelopeSchema_def envelope_tree_def snapshot_ok_def str_field_def picks_field_def point_field_def only_keys_def)
  show "\<not> other_version (envelope_tree s)" by (simp add: other_version_def envelope_tree_def)
qed

text \<open>C40. A plan whose fields keep the limits of the schema, encoded within the limit of a code, decodes to itself
  with its first fifty picks: whatever its strings hold, lone surrogates included.\<close>

theorem shared_plan_arrives:
  assumes "snapshot_ok d s" and "length (encodePlanSnapshot d s) \<le> MAX_ENCODED_LENGTH"
  shows "decodePlanSnapshot d (Some (encodePlanSnapshot d s)) = PlanOk (s\<lparr>sn_picks := take MAX_PLAN_PICKS (sn_picks s)\<rparr>)"
proof -
  have tree: "tree_ok d (envelope_tree s)" by (rule envelope_ok [OF assms(1)])
  then have sent: "fromBase64Url (encodePlanSnapshot d s) = Some (tree_text d (envelope_tree s))"
    using paired_text [OF tree, of "[]"] by (simp add: encodePlanSnapshot_def base64url_back)
  have "encodePlanSnapshot d s \<noteq> []"
  proof
    assume "encodePlanSnapshot d s = []"
    then have "tree_text d (envelope_tree s) = []" using sent by (simp add: fromBase64Url_def)
    then show False by (simp add: envelope_tree_def)
  qed
  then show ?thesis using assms sent parse_back [OF tree] envelope_back [OF assms(1)] by (simp add: decodePlanSnapshot_def)
qed

subsection \<open>The bound on the depth of calls is enough\<close>

lemma ws_shorter: "length (json_ws ts) \<le> length ts"
  by (simp add: json_ws_def length_dropWhile_le)

lemma str_shorter: "json_str ts = Some (s, r) \<Longrightarrow> length r < length ts"
proof (induction ts arbitrary: s r rule: json_str.induct)
  case (2 c cs)
  then show ?case
    by (auto simp: cons_char_def split: if_splits list.splits option.splits) (fastforce dest: less_imp_le)+
qed simp

lemma word_shorter: "json_word d ts = Some (v, r) \<Longrightarrow> length r < length ts"
proof -
  have i: "length r' < length t" if "num_int t = Some (x, r')" for t x r'
    using that length_dropWhile_le [of is_digit "tl t"] by (cases t) (auto simp: num_int_def digits_def split: if_splits)
  have f: "length r' \<le> length t" if "num_frac t = Some (x, r')" for t x r'
    using that length_dropWhile_le [of is_digit "tl t"] by (cases t) (auto simp: num_frac_def digits_def split: if_splits)
  have e: "length r' \<le> length t" if "num_exp t = Some (x, r')" for t x r'
    using that length_dropWhile_le [of is_digit "tl t"] length_dropWhile_le [of is_digit "tl (tl t)"]
    by (cases t) (auto simp: num_exp_def digits_def Let_def drop_Suc split: if_splits)
  have n: "length r' < length ts" if "json_number ts = Some (x, r')" for x r'
    using that by (auto simp: json_number_def Let_def dest!: i f e split: option.splits prod.splits if_splits)
  assume "json_word d ts = Some (v, r)"
  then show ?thesis
    using n by (cases ts) (auto simp: json_word_def units_words split: if_splits)
qed

lemma parts_shorter:
  "(\<forall>ts v r. json_value n d ts = Some (v, r) \<longrightarrow> length r < length ts)
   \<and> (\<forall>ts v r. json_elems n d ts = Some (v, r) \<longrightarrow> length r < length ts)
   \<and> (\<forall>ts v r. json_members n d ts = Some (v, r) \<longrightarrow> length r < length ts)"
proof (induction n)
  case (Suc n)
  have ws: "length cs < length ts" if "json_ws ts = c # cs" for ts c cs using ws_shorter [of ts] that by simp
  have v: "length r < length ts" if "json_value (Suc n) d ts = Some (v, r)" for ts v r
    using that Suc
    by (auto split: list.splits if_splits dest!: ws str_shorter word_shorter) (force dest: less_trans)+
  have e: "length r < length ts" if "json_elems (Suc n) d ts = Some (v, r)" for ts v r
    using that Suc
    by (auto split: list.splits if_splits option.splits dest!: ws) (force dest: less_trans)+
  have m: "length r < length ts" if "json_members (Suc n) d ts = Some (v, r)" for ts v r
    using that Suc
    by (auto split: list.splits if_splits option.splits dest!: ws str_shorter) (force dest: less_trans)+
  show ?case using v e m by blast
qed simp
lemma enough_levels:
  "(\<forall>ts m. 2 * length ts + 1 \<le> n \<and> n \<le> m \<longrightarrow> json_value m d ts = json_value n d ts)
   \<and> (\<forall>ts m. 2 * length ts + 2 \<le> n \<and> n \<le> m \<longrightarrow> json_elems m d ts = json_elems n d ts)
   \<and> (\<forall>ts m. 2 * length ts + 2 \<le> n \<and> n \<le> m \<longrightarrow> json_members m d ts = json_members n d ts)"
proof (induction n)
  case (Suc n)
  have ws: "length cs < length ts" if "json_ws ts = c # cs" for ts c cs using ws_shorter [of ts] that by simp
  have IHv: "json_value m d ts = json_value n d ts" if "2 * length ts + 1 \<le> n" "n \<le> m" for ts m using Suc that by blast
  have IHe: "json_elems m d ts = json_elems n d ts" if "2 * length ts + 2 \<le> n" "n \<le> m" for ts m using Suc that by blast
  have IHm: "json_members m d ts = json_members n d ts" if "2 * length ts + 2 \<le> n" "n \<le> m" for ts m using Suc that by blast
  have shorter: "length r < length ts" if "json_value n d ts = Some (v, r)" for ts v r using parts_shorter that by blast
  have v: "json_value (Suc m) d ts = json_value (Suc n) d ts" if "2 * length ts + 1 \<le> Suc n" "n \<le> m" for ts m
  proof -
    have "json_elems m d cs = json_elems n d cs \<and> json_members m d cs = json_members n d cs" if "json_ws ts = c # cs" for c cs
      using ws [OF that] \<open>2 * length ts + 1 \<le> Suc n\<close> \<open>n \<le> m\<close> by (intro conjI IHe IHm) simp_all
    then show ?thesis by (simp split: list.split)
  qed
  have e: "json_elems (Suc m) d ts = json_elems (Suc n) d ts" if "2 * length ts + 2 \<le> Suc n" "n \<le> m" for ts m
  proof -
    have "json_value m d ts = json_value n d ts" using that by (intro IHv) simp_all
    moreover have "json_elems m d cs = json_elems n d cs" if "json_value n d ts = Some (v, r)" "json_ws r = c # cs" for v r c cs
      using shorter [OF that(1)] ws [OF that(2)] \<open>2 * length ts + 2 \<le> Suc n\<close> \<open>n \<le> m\<close> by (intro IHe) simp_all
    ultimately show ?thesis by (auto split: option.splits list.splits)
  qed
  have m: "json_members (Suc m) d ts = json_members (Suc n) d ts" if "2 * length ts + 2 \<le> Suc n" "n \<le> m" for ts m
  proof -
    have len: "length ss < length ts" if "json_ws ts = q # qs" "json_str qs = Some (k, r)" "json_ws r = s # ss" for q qs k r s ss
      using ws [OF that(1)] str_shorter [OF that(2)] ws [OF that(3)] by simp
    have 1: "json_value m d ss = json_value n d ss" if "json_ws ts = q # qs" "json_str qs = Some (k, r)" "json_ws r = s # ss" for q qs k r s ss
      using len [OF that] \<open>2 * length ts + 2 \<le> Suc n\<close> \<open>n \<le> m\<close> by (intro IHv) simp_all
    have 3: "json_members m d cs = json_members n d cs"
      if "json_ws ts = q # qs" "json_str qs = Some (k, r)" "json_ws r = s # ss" "json_value n d ss = Some (v, r')" "json_ws r' = c # cs" for q qs k r s ss v r' c cs
      using len [OF that(1-3)] shorter [OF that(4)] ws [OF that(5)] \<open>2 * length ts + 2 \<le> Suc n\<close> \<open>n \<le> m\<close> by (intro IHm) simp_all
    show ?thesis
    proof (cases "json_ws ts")
      case (Cons q qs)
      show ?thesis
      proof (cases "json_str qs")
        case (Some kr)
        obtain k r where kr: "kr = (k, r)" by (cases kr)
        show ?thesis
        proof (cases "json_ws r")
          case (Cons s ss)
          show ?thesis
          proof (cases "json_value n d ss")
            case (Some vr)
            obtain v r' where vr: "vr = (v, r')" by (cases vr)
            note at = \<open>json_ws ts = q # qs\<close> \<open>json_str qs = Some kr\<close> [unfolded kr] \<open>json_ws r = s # ss\<close>
            show ?thesis using 1 [OF at] 3 [OF at Some [unfolded vr]] at Some vr by (cases "json_ws r'") simp_all
          qed (use 1 Cons Some \<open>json_ws ts = q # qs\<close> kr in simp)
        qed (use Cons Some kr in simp)
      qed (use Cons in simp)
    qed simp
  qed
  show ?case
  proof (intro conjI allI impI; elim conjE)
    fix ts m
    show "json_value m d ts = json_value (Suc n) d ts" if "2 * length ts + 1 \<le> Suc n" "Suc n \<le> m" using that v [of ts "m - 1"] by (cases m) auto
    show "json_elems m d ts = json_elems (Suc n) d ts" if "2 * length ts + 2 \<le> Suc n" "Suc n \<le> m" using that e [of ts "m - 1"] by (cases m) auto
    show "json_members m d ts = json_members (Suc n) d ts" if "2 * length ts + 2 \<le> Suc n" "Suc n \<le> m" using that m [of ts "m - 1"] by (cases m) auto
  qed
qed simp

lemma parse_levels: "2 * length ts + 2 \<le> n \<Longrightarrow> json_value n d ts = json_value (2 * length ts + 2) d ts"
  using enough_levels [of "2 * length ts + 2" d] by simp

section \<open>Limits and surprises\<close>

lemma b64_length: "list_all (\<lambda>b. b < 256) bs \<Longrightarrow> length (b64_text bs) = (4 * length bs + 2) div 3"
proof (induction bs rule: b64_text.induct)
  have c: "length (b64_char w) = 1" if "w < 64" for w by (rule char_of_val [OF that]) simp
  {
    case (2 b0) then show ?case by (simp add: c sextets del: push_bit_and)
  next
    case (3 b0 b1) then show ?case by (simp add: c sextets del: push_bit_and)
  next
    case (4 b0 b1 b2 bs) then show ?case by (simp add: c sextets del: push_bit_and)
  }
qed simp

lemma utf8_length: "length us \<le> length (utf8Encode us) \<and> length (utf8Encode us) \<le> 3 * length us"
proof (induction us rule: paired.induct)
  case (2 u us)
  have cmp: "(0xd800 :: 32 word) \<le> ucast u \<longleftrightarrow> 0xd800 \<le> u" "(ucast u :: 32 word) \<le> 0xdbff \<longleftrightarrow> u \<le> 0xdbff"
    by (simp_all add: word_le_nat_alt)
  show ?case
  proof (cases "0xd800 \<le> u \<and> u \<le> 0xdbff \<and> us \<noteq> []")
    case True
    then obtain v vs where us: "us = v # vs" by (cases us) auto
    have "\<not> (ucast u :: 32 word) < 0x80" "\<not> (ucast u :: 32 word) < 0x800" using True by (simp_all add: word_less_nat_alt word_le_nat_alt)
    then show ?thesis using True 2 by (simp add: us cmp Let_def)
  next
    case False
    with 2 have "length us \<le> length (utf8Encode us) \<and> length (utf8Encode us) \<le> 3 * length us" by simp
    then show ?thesis using False by (cases "us = []"; cases "0xd800 \<le> u"; cases "u \<le> 0xdbff"; simp add: cmp Let_def)
  qed
qed simp

lemma code_length:
  assumes "snapshot_ok d s"
  shows "4 * length (tree_text d (envelope_tree s)) \<le> 3 * length (encodePlanSnapshot d s)"
    "length (encodePlanSnapshot d s) \<le> 4 * length (tree_text d (envelope_tree s)) + 1"
proof -
  define us where "us = tree_text d (envelope_tree s)"
  have "paired us" using paired_text [OF envelope_ok [OF assms], of "[]"] by (simp add: us_def)
  then have bytes: "list_all (\<lambda>b. b < 256) (utf8Encode us)" using utf8_back by blast
  have code: "length (encodePlanSnapshot d s) = (4 * length (utf8Encode us) + 2) div 3"
    using b64_length [OF bytes] by (simp add: encodePlanSnapshot_def toBase64Url_def us_def)
  show "4 * length (tree_text d (envelope_tree s)) \<le> 3 * length (encodePlanSnapshot d s)"
    "length (encodePlanSnapshot d s) \<le> 4 * length (tree_text d (envelope_tree s)) + 1"
    unfolding code us_def [symmetric]
    using utf8_length [of us] div_mult_mod_eq [of "4 * length (utf8Encode us) + 2" 3] mod_less_divisor [of 3 "4 * length (utf8Encode us) + 2"]
    by linarith+
qed

definition ex_doubles :: doubles where
  "ex_doubles = \<lparr>db_text = (\<lambda>q. if q = 1 then units ''1'' else if q = 48 then units ''48'' else units ''-2.5''),
     db_value = (\<lambda>t. if t = units ''1'' then Some 1 else if t = units ''48'' then Some 48 else if t = units ''-2.5'' then Some (-5 / 2) else None)\<rparr>"

definition ex_snapshot :: plan_snapshot where
  "ex_snapshot = \<lparr>sn_festivalId = units ''f'', sn_festivalName = [0xe9, 0xd83c, 0xdfb5, 0xd800], sn_picks = [(units ''s'', PickWant)],
     sn_meetingPoint = Some \<lparr>sn_label = units ''a\"b'', sn_lat = 48, sn_lng = -5 / 2\<rparr>\<rparr>"

lemma shared_plan_arrives_witness:
  "decodePlanSnapshot ex_doubles (Some (encodePlanSnapshot ex_doubles ex_snapshot)) = PlanOk ex_snapshot"
proof -
  have nums: "num_ok ex_doubles 1" "num_ok ex_doubles 48" "num_ok ex_doubles (-5 / 2)"
    by (simp_all add: num_ok_def ex_doubles_def units_def json_number_def num_int_def num_frac_def num_exp_def digits_def is_digit_def)
  then have ok: "snapshot_ok ex_doubles ex_snapshot"
    by (simp add: snapshot_ok_def point_ok_def ex_snapshot_def PLAN_SNAPSHOT_VERSION_def units_def MAX_PLAN_PICKS_def)
  have "length (tree_text ex_doubles (envelope_tree ex_snapshot)) \<le> 1000"
    by (simp add: ex_snapshot_def envelope_tree_def pick_tree_def point_tree_def json_quote_def units_def wire_priority_def short_escapes_def
        is_low_def is_high_def ex_doubles_def hex4_def PLAN_SNAPSHOT_VERSION_def MAX_PLAN_PICKS_def)
  then have "length (encodePlanSnapshot ex_doubles ex_snapshot) \<le> MAX_ENCODED_LENGTH"
    using code_length [OF ok] by (simp add: MAX_ENCODED_LENGTH_def)
  moreover have "ex_snapshot\<lparr>sn_picks := take MAX_PLAN_PICKS (sn_picks ex_snapshot)\<rparr> = ex_snapshot" by (simp add: ex_snapshot_def MAX_PLAN_PICKS_def)
  ultimately show ?thesis using shared_plan_arrives [OF ok] by simp
qed

text \<open>Sequences that are not UTF-8 are read all the same: an overlong form and a lead byte that no
  character has.\<close>

lemma malformed_accepted:
  "utf8Decode [0xc0, 0x80] = Some [0]" "utf8Decode [0xff, 0x80, 0x80, 0x80] = Some [0xdec0, 0xdc00]"
  by code_simp+
text \<open>Fifty picks whose sets have ids of 36 letters are a plan within the limits of the schema that no code
  can carry.\<close>

definition full_snapshot :: plan_snapshot where
  "full_snapshot = \<lparr>sn_festivalId = units ''f'', sn_festivalName = units ''f'', sn_picks = replicate 50 (replicate 36 0x61, PickMust), sn_meetingPoint = None\<rparr>"

lemma plain_letters: "json_chars (replicate n 0x61) = replicate n 0x61"
  by (induction n) (simp_all add: short_escapes_def is_low_def is_high_def)

lemma commas_length: "xs \<noteq> [] \<Longrightarrow> Suc (length (commas xs)) = sum_list (map length xs) + length xs"
  by (induction xs rule: commas.induct) auto

lemma full_plan_too_long:
  "snapshot_ok ex_doubles full_snapshot"
  "decodePlanSnapshot ex_doubles (Some (encodePlanSnapshot ex_doubles full_snapshot)) = PlanError ''input exceeds maximum size''"
proof -
  have "num_ok ex_doubles 1"
    by (simp add: num_ok_def ex_doubles_def units_def json_number_def num_int_def num_frac_def num_exp_def digits_def is_digit_def)
  then show ok: "snapshot_ok ex_doubles full_snapshot"
    by (simp add: snapshot_ok_def full_snapshot_def PLAN_SNAPSHOT_VERSION_def units_def MAX_PLAN_PICKS_def list_all_iff)
  have pick: "length (tree_text ex_doubles (pick_tree (replicate 36 0x61, PickMust))) = 66"
    by (simp add: pick_tree_def json_quote_def wire_priority_def plain_letters units_def short_escapes_def is_low_def is_high_def)
  have "51 * 65 \<le> length (commas (map (tree_text ex_doubles) (map pick_tree (replicate 50 (replicate 36 0x61, PickMust)))))"
    using commas_length [of "map (tree_text ex_doubles) (map pick_tree (replicate 50 (replicate 36 0x61, PickMust)))"] pick
    by (simp add: sum_list_replicate)
  then have "51 * 65 \<le> length (tree_text ex_doubles (envelope_tree full_snapshot))"
    by (simp add: envelope_tree_def full_snapshot_def MAX_PLAN_PICKS_def)
  then have "MAX_ENCODED_LENGTH < length (encodePlanSnapshot ex_doubles full_snapshot)"
    using code_length(1) [OF ok] by (simp add: MAX_ENCODED_LENGTH_def)
  then show "decodePlanSnapshot ex_doubles (Some (encodePlanSnapshot ex_doubles full_snapshot)) = PlanError ''input exceeds maximum size''"
    by (auto simp: decodePlanSnapshot_def)
qed

end
