(* ===== verification/Spec2Isabelle.thy ===== *)
theory Spec2Isabelle
  imports Web_Queue Expense_Routes Rate_Limit Crew_Races Idempotency Live_Location Pick_Conflicts
    Crew_Client_Views Crew_Client_Sync Crew_Board_Sync Sos_Routes
    Auth_Cases User_Cache Profile_Props Api_Props Picks_Props Ongoing_Card Connectivity Push_Tokens Reengage_Props
    Plan_Snapshot_Props
begin

text \<open>
  A verification library for the festival planner (Festie): a TypeScript monorepo with a Node server
  (\<open>server.ts\<close>, \<open>lib/\<close>, \<open>routes/\<close>), a React client (\<open>packages/web\<close>), a React Native client
  (\<open>packages/mobile\<close>), and the state and services that the clients share (\<open>packages/shared\<close>).

  \<^bold>\<open>The program and its parts.\<close>  A user plans a festival (picks, notes, reminders) alone and in crews
  (boards, expenses, live positions, SOS), with bad networks as the normal case.  The clients change
  their stores at once and send a request; what cannot be sent waits in an offline queue and is replayed
  with an idempotency key.  The server checks a request (session, rate limit, membership, schema), writes
  the tables through one store per group of tables, tells the other clients through rooms of a socket
  server, and reaches absent users by push and by mail.

  \<^bold>\<open>Theories by part.\<close>  The name of a definition is the name in the source where Isabelle allows it.

  \<^item> \<open>Prelude\<close>, \<open>Domain\<close>: the JavaScript values and library functions that the sources use (sorting,
    insertion-ordered maps, strings, rounding), JSON, and the shared types of \<open>types/domain.ts\<close>.

  \<^item> The clients' writes.  \<open>Ui_Store\<close> (\<open>uiStore.ts\<close>), \<open>Offline_Queue\<close> (\<open>offlineQueue.ts\<close>), \<open>Web_Queue\<close>
    (\<open>useOfflineQueue.ts\<close>), \<open>Api_Client\<close> with \<open>Api_Props\<close> (\<open>api.ts\<close>), and on the server \<open>Idempotency\<close>
    (\<open>createIdempotencyMiddleware\<close>).  A drain, the duplicates that wait for one execution and the shared
    refresh are sequences of steps; what the network answers is a parameter.  Shown: no write disappears
    silently, each is sent at most once per drain and in order, one key is executed once, an SOS is never queued.

  \<^item> Crews.  \<open>Crew_Store\<close> (\<open>crews.ts\<close> of the stores), \<open>Crew_Routes\<close> (crews, members and invites), \<open>Crew_Races\<close>
    (the requests interleaved between check and write); \<open>Expenses\<close>, \<open>Expense_Routes\<close> (balances and the
    settlement plan); \<open>Crew_Boards\<close>, \<open>Crew_Board_Routes\<close>, \<open>Crew_Board_Props\<close>, \<open>Crew_Board_Inv\<close> (meeting points,
    packing, rides, status, polls).  Shown: one owner per crew, the cap under all interleavings, who may
    write what, zero-sum balances and what the plan leaves open, invariants of all tables under all requests.

  \<^item> The client's crew store.  \<open>Crew_Types\<close>, \<open>Crew_Client\<close>, \<open>Crew_Client_Boards\<close>, \<open>Crew_Client_Live\<close> model
    \<open>crewStore.ts\<close> action by action (a begin step and an end step where a request lies between);
    \<open>Crew_Client_Sync\<close>, \<open>Crew_Client_Views\<close> and \<open>Crew_Board_Sync\<close> relate it to the server: a replayed create
    ends as one entity, an offline edit shows what the replay leaves in the tables.

  \<^item> Live positions and SOS.  \<open>Rate_Limit\<close>, \<open>Live_Location\<close> (the snapshot for late joiners), \<open>Socket_Relay\<close>
    with \<open>Relay_Props\<close> (\<open>routes/socket.ts\<close>), \<open>Live_Store\<close>, \<open>Crew_Events\<close> (routing of events into stores),
    \<open>Live_Props\<close>, \<open>Live_Flow\<close>, \<open>Sos_Routes\<close>.  Shown end to end: a published fix reaches exactly the members,
    every relayed position comes from a member, an SOS goes out whatever else fails.

  \<^item> Accounts.  \<open>Session_Store\<close>, \<open>Auth_Input\<close>, \<open>Auth_Routes\<close>, \<open>Auth_Mail\<close>; \<open>Auth_Inv\<close> makes the requests one
    step function with an invariant of sessions and tokens, \<open>Auth_Props\<close>, \<open>Auth_Safety\<close> and \<open>Auth_Cases\<close> derive
    what logins, renewals and changes of password promise; \<open>User_Cache\<close> is the cache of a process.

  \<^item> Profiles.  \<open>Profile_Store\<close>, \<open>Profile_Inv\<close>, \<open>Emitter\<close>, \<open>Profile_Routes\<close>, \<open>Profile_Props\<close> on the server,
    \<open>Picks_Client\<close> and \<open>Picks_Props\<close> in the client, \<open>Pick_Conflicts\<close> for clashes with union-find.

  \<^item> Time and plans.  \<open>Wall_Clock\<close> (zones), \<open>Set_Times\<close> (bounds and states of sets and festivals),
    \<open>Schedule_Plans\<close>, \<open>Schedule_Props\<close>, \<open>Ongoing_Card\<close>, \<open>Connectivity\<close>; \<open>Plan_Snapshot\<close>, \<open>Plan_Codec\<close> and
    \<open>Plan_Snapshot_Props\<close> are the code by which a plan goes from one device to another.

  \<^item> Notifications.  \<open>Push_Store\<close>, \<open>Push_Retry\<close>, \<open>Push_Send\<close>, \<open>Push_Props\<close>, \<open>Push_Routes\<close>, \<open>Push_Tokens\<close>;
    \<open>Reminder_Job\<close> and \<open>Reengage\<close> with \<open>Reengage_Props\<close> are the jobs that use them.

  \<^item> \<open>Sanitize\<close>: escaping, identifiers, redaction of log lines, cookies.  This theory: the mobile queue
    against the idempotency middleware.

  \<^bold>\<open>How state and operations correspond.\<close>  A table is a list of rows (records) and SQL is modelled by its
  effect on the rows, with the constraints of the schema as errors.  A zustand store, a socket with its
  session, a limiter and a cache are records, an action is a function on them.  A handler is one function
  from request and state to answer and state, with the checks in the order of the code.  Broadcasts,
  pushes and mails are entries of a log in the state.  Where requests overlap, a handler is split at its
  \<open>await\<close>s and the property quantifies over the interleavings.  Interfaces (comparators, keyed lists, fixed-window
  limiters, step systems with an invariant, invariants of credentials) are locales, interpreted on the model's own definitions.

  \<^bold>\<open>Bounds and fuel.\<close>  Loops are structural or have a proved measure (\<open>take_batch\<close>, \<open>chunks\<close>, the settlement
  plan, the readers of the plan code).  JSON values are read with a bound on the depth of calls, twice the
  length of the text and two, which \<open>parse_levels\<close> shows to be as good as any larger one.  The walk of union-find is a \<open>partial_function (option)\<close> and shown to return on every reachable
  table.  Retries have the bounds of the source.  Where a tick, a drain or a run of events is folded over a list, the list is arbitrary.

  \<^bold>\<open>Parameters.\<close>  Hashing, random bytes, JSON of foreign values, Unicode case and normalization beyond
  Latin-1, time zone tables, the answers of Redis, Firebase, APNs and the mail service, and the clock are
  arguments of the definitions that use them.

  \<^bold>\<open>Not modelled.\<close>  Screens and components; maps, tiles and geometry; Spotify, weather and lineup
  import; exports, calendar feeds and share pages; ratings and administration; metrics, logging, tracing
  and start-up; SQL migrations and generated types.
\<close>

section \<open>The offline queue against the idempotency middleware\<close>

text \<open>
  A replay of the mobile queue as the server sees it: the client id is the idempotency key
  (\<open>replay\<close> in \<open>offlineQueue.ts\<close>), and the answer comes back as the outcome of the attempt
  (\<open>apiRequest\<close> in \<open>api.ts\<close> resolves on a 2xx status and throws an \<open>ApiClientError\<close> otherwise).
\<close>

definition replay_request :: "nat \<Rightarrow> string \<Rightarrow> string option \<Rightarrow> mutation \<Rightarrow> mutation request" where
  "replay_request i ip user m =
     \<lparr>rq_id = i, rq_method = mu_method m, rq_key = Some (mu_clientId m), rq_user = user, rq_ip = ip,
      rq_payload = m\<rparr>"

definition outcome_of :: "json answer \<Rightarrow> outcome" where
  "outcome_of a = (if 200 \<le> an_status a \<and> an_status a < 300 then Replayed (an_body a)
                   else Rejected (Some (int (an_status a))) None)"

lemma drain_single:
  assumes "queueKey q = Stored [m]" and "\<not> draining q" and "\<not> isOffline q" and "is_fresh t m" and "sends m"
  shows "readQueueRaw (drainQueue t (\<lambda>_. \<lparr>at_during = [], at_outcome = Replayed b, at_now = t\<rparr>) q) = []
    \<and> failedSync (uiStore (drainQueue t (\<lambda>_. \<lparr>at_during = [], at_outcome = Replayed b, at_now = t\<rparr>) q)) = failedSync (uiStore q)
    \<and> sent (drainQueue t (\<lambda>_. \<lparr>at_during = [], at_outcome = Replayed b, at_now = t\<rparr>) q) = sent q @ [m]"
proof -
  have empty: "readQueue t s = ([], s)" if "queueKey s = Stored []" for s
    using that by (simp add: readQueue_def readQueueRaw_def Let_def)
  let ?q1 = "q\<lparr>draining := True\<rparr>"
  let ?q2 = "?q1\<lparr>sent := sent q @ [m]\<rparr>"
  have r1: "readQueue t ?q1 = ([m], ?q1)" and r2: "readQueue t ?q2 = ([m], ?q2)"
    using assms(1,4) by (simp_all add: readQueue_def readQueueRaw_def Let_def)
  have drop: "drop_entry t (mu_clientId m) ?q2 = writeQueue [] ?q2" by (simp add: drop_entry_def r2)
  let ?q3 = "writeQueue [] ?q2"
  have q3: "queueKey ?q3 = Stored []" "failedSync (uiStore ?q3) = failedSync (uiStore q)" "sent ?q3 = sent q @ [m]"
    by (simp_all add: writeQueue_def updatePendingCount_def setPendingSync_def)
  have same: "queueKey (drain_success t m b ?q2) = Stored []
      \<and> failedSync (uiStore (drain_success t m b ?q2)) = failedSync (uiStore q) \<and> sent (drain_success t m b ?q2) = sent q @ [m]"
    using q3 by (simp add: drain_success_def drop rewrite_urls_def empty Let_def split: option.splits)
  have "drainQueue t (\<lambda>_. \<lparr>at_during = [], at_outcome = Replayed b, at_now = t\<rparr>) q
      = (drain_success t m b ?q2)\<lparr>draining := False\<rparr>"
    using assms(2,3,5) by (simp add: drainQueue_def r1 isOffline_def drain_order_def drain_step_def replay_def)
  with same show ?thesis by (simp add: readQueueRaw_def)
qed

text \<open>A coalesced write is lost without a trace.  The client id of a PUT, PATCH or DELETE is the
  same for every write to the resource, and the middleware replays by that key: when a newer write
  to a resource is drained while the answer to the previous one is still recorded, the queue takes
  the replayed success for its own, removes the write and lists no failure, and the server never
  runs it.\<close>

theorem coalesced_write_lost:
  fixes s :: "(mutation, json) idem"
  assumes same: "mu_clientId m2 = mu_clientId m1" and key: "mu_clientId m1 \<noteq> []" "length (mu_clientId m1) \<le> 128"
    and verbs: "sends m1" "sends m2" and st: "200 \<le> st" "st < 300"
    and server: "map_of (id_cache s) (ip @ '':'' @ mu_clientId m1) = None" "i \<notin> fst ` set (id_running s)"
      "length (id_cache s) + 1 < IDEM_MAX_ENTRIES" "waiters i s = []"
    and phone: "queueKey q = Stored [m2]" "\<not> draining q" "\<not> isOffline q" "is_fresh t2 m2"
    and s2: "s2 = mounted_arrive t2 (replay_request j ip u2 m2)
       (idem_json IDEM_MAX_ENTRIES t1 i st b (mounted_arrive t0 (replay_request i ip u1 m1) s))"
    and q': "q' = drainQueue t2 (\<lambda>_. \<lparr>at_during = [], at_outcome = outcome_of (last (id_answers s2)), at_now = t2\<rparr>) q"
  shows "readQueueRaw q' = [] \<and> failedSync (uiStore q') = failedSync (uiStore q) \<and> sent q' = sent q @ [m2]
    \<and> map rq_payload (id_executed s2) = map rq_payload (id_executed s) @ [m1]"
proof -
  let ?r1 = "replay_request i ip u1 m1" and ?r2 = "replay_request j ip u2 m2" and ?k = "mu_clientId m1"
  have uk: "usable_key ?r1 = Some ?k" "usable_key ?r2 = Some ?k"
    using key verbs same by (auto simp: usable_key_def replay_request_def safe_method_def sends_def)
  have req: "rq_id ?r1 = i" "rq_ip ?r1 = ip" "rq_ip ?r2 = ip" "rq_payload ?r1 = m1" "rq_id ?r2 = j"
    by (simp_all add: replay_request_def)
  have once: "map_of (id_cache (idem_json IDEM_MAX_ENTRIES t1 i st b (mounted_arrive t0 ?r1 s))) (ip @ '':'' @ ?k)
        = Some (Recorded st b t1)"
    "id_executed (idem_json IDEM_MAX_ENTRIES t1 i st b (mounted_arrive t0 ?r1 s)) = id_executed s @ [?r1\<lparr>rq_user := None\<rparr>]"
    using served_once [OF uk(1), of s IDEM_MAX_ENTRIES t1 st b t0] server unfolding req by simp_all
  have "s2 = replay_to (?r2\<lparr>rq_user := None\<rparr>) st b (idem_json IDEM_MAX_ENTRIES t1 i st b (mounted_arrive t0 ?r1 s))"
    unfolding s2 by (rule arrive_recorded [OF uk(2)]) (simp only: req once(1))
  then have ran: "map rq_payload (id_executed s2) = map rq_payload (id_executed s) @ [m1]"
    and ans: "outcome_of (last (id_answers s2)) = Replayed b"
    using once(2) st by (simp_all add: replay_to_def outcome_of_def req)
  show ?thesis using drain_single [OF phone verbs(2), of b] ran unfolding q' ans by simp
qed

definition put :: "string \<Rightarrow> mutation" where
  "put v = \<lparr>mu_clientId = ''PUT:/x'', mu_url = ''/x'', mu_method = ''PUT'', mu_body = Some (JStr v), mu_label = None,
            mu_createdAt = 0, mu_retries = None\<rparr>"

definition phone_with :: "mutation \<Rightarrow> queue_state" where
  "phone_with m = \<lparr>queueKey = Stored [m], failedKey = Missing, persists = [], uiStore = ui_initial, draining = False,
     reconciler = False, reconciled = [], sent = []\<rparr>"

lemma coalesced_write_lost_witness:
  "let s2 = mounted_arrive 9 (replay_request 2 ''ip'' None (put ''new''))
       (idem_json IDEM_MAX_ENTRIES 5 1 200 JNull (mounted_arrive 1 (replay_request 1 ''ip'' None (put ''old'')) idem_fresh));
     q' = drainQueue 9 (\<lambda>_. \<lparr>at_during = [], at_outcome = outcome_of (last (id_answers s2)), at_now = 9\<rparr>)
            (phone_with (put ''new''))
   in readQueueRaw q' = [] \<and> failedSync (uiStore q') = failedSync (uiStore (phone_with (put ''new'')))
     \<and> sent q' = sent (phone_with (put ''new'')) @ [put ''new'']
     \<and> map rq_payload (id_executed s2) = map rq_payload (id_executed (idem_fresh :: (mutation, json) idem)) @ [put ''old'']"
  unfolding Let_def
  by (rule coalesced_write_lost [OF _ _ _ _ _ _ _ _ _ _ _ _ _ _ _ refl refl])
    (simp_all add: put_def phone_with_def sends_def idem_fresh_def IDEM_MAX_ENTRIES_def waiters_def isOffline_def
       ui_initial_def is_fresh_def MAX_QUEUE_AGE_MS_def)

end
